(* ===== verification/Prelude.thy ===== *)
theory Prelude
  imports Complex_Main "HOL-Library.Word"
begin

text \<open>
  Shared vocabulary of the development: the collections the component theories declare their
  facts into, the machine-integer conversions of the source (\<open>as i32\<close>, \<open>as u32\<close>, \<open>as f32\<close>
  live in \<open>Floats\<close>), the result type with its bind, and a few facts on lists and options that
  several components share.

  Time stamps (\<open>chrono::DateTime<Utc>\<close>) and durations are integers counting nanoseconds: the
  source only subtracts, adds and compares them.
\<close>

named_theorems fl_simps "evaluation of floating-point operations and comparisons"
named_theorems engine_simps "unfolding of the relay engine's operations"
named_theorems audit_simps "unfolding of audit-table operations"
named_theorems io_simps "unfolding of driver and world operations"

section \<open>Machine integers\<close>

type_synonym u32 = "32 word"
type_synonym i32 = int
type_synonym i8 = int
type_synonym timestamp = int

text \<open>Two's-complement reduction of an integer to 32 bits: the value of an \<open>i32\<close> operation in
  a build without overflow checks, and of the cast \<open>as i32\<close>.\<close>

definition wrap_i32 :: "int \<Rightarrow> i32" where
  "wrap_i32 x = (x + 2147483648) mod 4294967296 - 2147483648"

definition u32_as_i32 :: "u32 \<Rightarrow> i32" where
  "u32_as_i32 w = wrap_i32 (uint w)"

text \<open>Signed division truncates toward zero.\<close>

definition trunc_div :: "int \<Rightarrow> int \<Rightarrow> int" where
  "trunc_div a b = (if (a < 0) = (b < 0) then \<bar>a\<bar> div \<bar>b\<bar> else - (\<bar>a\<bar> div \<bar>b\<bar>))"

lemma wrap_i32_id [simp]: "- 2147483648 \<le> x \<Longrightarrow> x < 2147483648 \<Longrightarrow> wrap_i32 x = x"
  by (simp add: wrap_i32_def)

lemma u32_as_i32_small [simp]: "unat w < 2147483648 \<Longrightarrow> u32_as_i32 w = int (unat w)"
proof -
  assume "unat w < 2147483648"
  moreover have u: "uint w = int (unat w)" by (rule uint_nat)
  ultimately show ?thesis unfolding u32_as_i32_def u by (intro wrap_i32_id) linarith+
qed

section \<open>Nanoseconds\<close>

definition ns_per_sec :: int where "ns_per_sec = 1000000000"
definition ns_per_ms :: int where "ns_per_ms = 1000000"

text \<open>\<open>chrono::Duration::num_milliseconds\<close>: whole milliseconds, truncated toward zero.\<close>

definition num_milliseconds :: "int \<Rightarrow> int" where
  "num_milliseconds d = trunc_div d ns_per_ms"

section \<open>Results\<close>

type_synonym ('e, 'a) result = "'e + 'a"

abbreviation Ok :: "'a \<Rightarrow> ('e, 'a) result" where "Ok \<equiv> Inr"
abbreviation Err :: "'e \<Rightarrow> ('e, 'a) result" where "Err \<equiv> Inl"

fun bind_result :: "('e, 'a) result \<Rightarrow> ('a \<Rightarrow> ('e, 'b) result) \<Rightarrow> ('e, 'b) result" where
  "bind_result (Inl e) f = Inl e"
| "bind_result (Inr x) f = f x"

fun is_ok :: "('e, 'a) result \<Rightarrow> bool" where
  "is_ok (Inl _) = False"
| "is_ok (Inr _) = True"

fun map_err :: "('e \<Rightarrow> 'f) \<Rightarrow> ('e, 'a) result \<Rightarrow> ('f, 'a) result" where
  "map_err f (Inl e) = Inl (f e)"
| "map_err f (Inr x) = Inr x"

lemma bind_result_Ok_iff:
  "bind_result r f = Inr y \<longleftrightarrow> (\<exists>x. r = Inr x \<and> f x = Inr y)"
  by (cases r) auto

lemma bind_result_Err_iff:
  "bind_result r f = Inl e \<longleftrightarrow> r = Inl e \<or> (\<exists>x. r = Inr x \<and> f x = Inl e)"
  by (cases r) auto

lemma is_ok_iff: "is_ok r \<longleftrightarrow> (\<exists>x. r = Inr x)"
  by (cases r) auto

lemma is_ok_bind: "is_ok (bind_result r f) \<longleftrightarrow> (\<exists>x. r = Inr x \<and> is_ok (f x))"
  by (cases r) auto

lemma is_ok_map_err [simp]: "is_ok (map_err f r) = is_ok r"
  by (cases r) auto

end
