(* ===== verification/Floats.thy ===== *)
theory Floats
  imports Prelude
begin

text \<open>
  IEEE-754 binary floating point as the source uses it (\<open>f32\<close>, \<open>f64\<close>): round to nearest,
  ties to even, NaN and infinities propagated, signed zero kept.  A finite value is carried as
  the rational it denotes, so widening \<open>f32\<close> to \<open>f64\<close> is the identity, and every operation is
  the exact rational result passed to \<open>fl_round\<close>.  All definitions compute.

  Main facts: rounding is monotone and the identity on representable values, subtraction of
  nearby values is exact (Sterbenz), and comparisons of finite values are those of their
  rationals.
\<close>

datatype fl = NaN | PInf | NInf | NZero | Fin rat
type_synonym f32 = fl
type_synonym f64 = fl

datatype fmt = B32 | B64

fun prec :: "fmt \<Rightarrow> nat" where "prec B32 = 24" | "prec B64 = 53"
fun emin :: "fmt \<Rightarrow> int" where "emin B32 = - 149" | "emin B64 = - 1074"
fun etop :: "fmt \<Rightarrow> int" where "etop B32 = 128" | "etop B64 = 1024"

section \<open>Powers and logarithms of two\<close>

definition pow2 :: "int \<Rightarrow> rat" where
  "pow2 e = (if 0 \<le> e then 2 ^ nat e else 1 / 2 ^ nat (- e))"

function nlog2 :: "int \<Rightarrow> int" where
  "nlog2 n = (if n < 2 then 0 else 1 + nlog2 (n div 2))"
  by pat_completeness auto
termination by (relation "measure nat") auto

declare nlog2.simps [simp del]

definition clog2 :: "int \<Rightarrow> int" where
  "clog2 n = (if n \<le> 1 then 0 else 1 + nlog2 (n - 1))"

text \<open>The exponent of the leading binary digit of a positive rational.\<close>

definition ilog2 :: "rat \<Rightarrow> int" where
  "ilog2 x = (if 1 \<le> x then nlog2 \<lfloor>x\<rfloor> else - clog2 \<lceil>1 / x\<rceil>)"

lemma pow2_powi: "pow2 e = 2 powi e"
  by (simp add: pow2_def power_int_def inverse_eq_divide power_one_over)

lemma pow2_pos [simp, intro]: "0 < pow2 e"
  by (simp add: pow2_def)

lemma pow2_nonneg [simp]: "0 \<le> pow2 e" "pow2 e \<noteq> 0"
  using pow2_pos [of e] by linarith+

lemma pow2_not_le_0 [simp]: "\<not> pow2 e \<le> 0"
  by (simp add: not_le)

lemma pow2_add: "pow2 (a + b) = pow2 a * pow2 b"
  by (simp add: pow2_powi power_int_add)

lemma pow2_minus: "pow2 (- a) = 1 / pow2 a"
  by (simp add: pow2_powi power_int_minus inverse_eq_divide)

lemma pow2_diff: "pow2 (a - b) = pow2 a / pow2 b"
  by (simp add: pow2_powi power_int_diff)

lemma pow2_mono: "a \<le> b \<Longrightarrow> pow2 a \<le> pow2 b"
  by (simp add: pow2_powi power_int_increasing)

lemma pow2_less: "a < b \<Longrightarrow> pow2 a < pow2 b"
  by (simp add: pow2_powi power_int_strict_increasing)

lemma pow2_less_iff [simp]: "pow2 a < pow2 b \<longleftrightarrow> a < b"
  using pow2_mono [of b a] pow2_less [of a b] by linarith

lemma pow2_le_iff [simp]: "pow2 a \<le> pow2 b \<longleftrightarrow> a \<le> b"
  using pow2_mono [of a b] pow2_less [of b a] by linarith

lemma pow2_0 [simp]: "pow2 0 = 1" and pow2_1 [simp]: "pow2 1 = 2"
  by (simp_all add: pow2_def)

lemma pow2_nat: "pow2 (int n) = 2 ^ n"
  by (simp add: pow2_def)

lemma pow2_Suc: "pow2 (e + 1) = 2 * pow2 e"
  by (simp add: pow2_add)

lemma pow2_int_exists: "0 \<le> e \<Longrightarrow> pow2 e = of_int (2 ^ nat e)"
  by (simp add: pow2_def)

lemma nlog2_bounds: "0 < n \<Longrightarrow> 0 \<le> nlog2 n \<and> 2 ^ nat (nlog2 n) \<le> n \<and> n < 2 * 2 ^ nat (nlog2 n)"
proof (induction n rule: nlog2.induct)
  case (1 n)
  show ?case
  proof (cases "n < 2")
    case True
    with 1 show ?thesis by (simp add: nlog2.simps [of n])
  next
    case False
    let ?k = "nlog2 (n div 2)"
    from False 1 have *: "0 \<le> ?k" "2 ^ nat ?k \<le> n div 2" "n div 2 < 2 * 2 ^ nat ?k" by auto
    have n: "nlog2 n = 1 + ?k" using False by (simp add: nlog2.simps [of n])
    have p: "(2::int) ^ nat (1 + ?k) = 2 * 2 ^ nat ?k" using *(1) by (simp add: nat_add_distrib)
    show ?thesis unfolding n p using * by linarith
  qed
qed

lemma clog2_bounds:
  assumes "1 < n" shows "0 < clog2 n" "n \<le> 2 ^ nat (clog2 n)" "2 ^ nat (clog2 n - 1) < n"
proof -
  let ?k = "nlog2 (n - 1)"
  have *: "0 \<le> ?k" "2 ^ nat ?k \<le> n - 1" "n - 1 < 2 * 2 ^ nat ?k"
    using nlog2_bounds [of "n - 1"] assms by auto
  have c: "clog2 n = 1 + ?k" using assms by (simp add: clog2_def)
  show "0 < clog2 n" using * c by simp
  have p: "(2::int) ^ nat (1 + ?k) = 2 * 2 ^ nat ?k" using *(1) by (simp add: nat_add_distrib)
  show "n \<le> 2 ^ nat (clog2 n)" using * unfolding c p by linarith
  show "2 ^ nat (clog2 n - 1) < n" using * unfolding c by simp
qed

lemma ilog2_bounds:
  assumes "0 < x" shows "pow2 (ilog2 x) \<le> x" and "x < pow2 (ilog2 x + 1)"
proof -
  have "pow2 (ilog2 x) \<le> x \<and> x < pow2 (ilog2 x + 1)"
  proof (cases "1 \<le> x")
    case True
    let ?n = "\<lfloor>x\<rfloor>" and ?k = "nlog2 \<lfloor>x\<rfloor>"
    have b: "0 \<le> ?k" "2 ^ nat ?k \<le> ?n" "?n + 1 \<le> 2 * 2 ^ nat ?k"
      using nlog2_bounds [of ?n] True by auto
    have p: "pow2 ?k = of_int (2 ^ nat ?k)" "pow2 (?k + 1) = of_int (2 * 2 ^ nat ?k)"
      using b(1) by (simp_all add: pow2_Suc pow2_int_exists)
    have "pow2 ?k \<le> x" using b(2) unfolding p by (simp only: le_floor_iff)
    moreover have "x < pow2 (?k + 1)" using b(3) unfolding p floor_less_iff [symmetric] by linarith
    ultimately show ?thesis using True by (simp only: ilog2_def if_True)
  next
    case False
    let ?n = "\<lceil>1 / x\<rceil>" and ?k = "clog2 \<lceil>1 / x\<rceil>"
    have "1 < 1 / x" using assms False by simp
    then have n: "1 < ?n" by (simp add: less_ceiling_iff)
    note c = clog2_bounds [OF n]
    have "1 / x \<le> of_int (2 ^ nat ?k)" using c(2) by (simp only: ceiling_le_iff)
    then have hi: "1 / x \<le> pow2 ?k" using c(1) by (simp add: pow2_int_exists)
    have "of_int (2 ^ nat (?k - 1)) < 1 / x" using c(3) by (simp only: less_ceiling_iff)
    then have lo: "pow2 (?k - 1) < 1 / x" using c(1) by (simp add: pow2_int_exists)
    have "1 / pow2 ?k \<le> x" using hi assms by (simp add: field_simps)
    moreover have "x < 1 / pow2 (?k - 1)" using lo assms by (simp add: field_simps)
    moreover have "- (?k - 1) = - ?k + 1" by simp
    ultimately show ?thesis using False
      by (simp only: ilog2_def if_False pow2_minus [symmetric])
  qed
  then show "pow2 (ilog2 x) \<le> x" and "x < pow2 (ilog2 x + 1)" by simp_all
qed

lemma ilog2_unique: "pow2 k \<le> x \<Longrightarrow> x < pow2 (k + 1) \<Longrightarrow> ilog2 x = k"
proof -
  assume a: "pow2 k \<le> x" "x < pow2 (k + 1)"
  then have "0 < x" using pow2_pos [of k] by linarith
  from ilog2_bounds [OF this] a have "pow2 k < pow2 (ilog2 x + 1)" "pow2 (ilog2 x) < pow2 (k + 1)"
    by linarith+
  then show ?thesis by simp
qed

lemma ilog2_mono: "0 < x \<Longrightarrow> x \<le> y \<Longrightarrow> ilog2 x \<le> ilog2 y"
proof -
  assume a: "0 < x" "x \<le> y"
  then have "pow2 (ilog2 x) < pow2 (ilog2 y + 1)"
    using ilog2_bounds(1) [of x] ilog2_bounds(2) [of y] by linarith
  then show ?thesis by simp
qed

lemma ilog2_less_pow2: "0 < x \<Longrightarrow> x < pow2 k \<Longrightarrow> ilog2 x < k"
proof -
  assume a: "0 < x" "x < pow2 k"
  then have "pow2 (ilog2 x) < pow2 k" using ilog2_bounds(1) [of x] by linarith
  then show ?thesis by simp
qed

section \<open>Rounding\<close>

text \<open>Round to the nearest integer, ties to even.\<close>

definition rne :: "rat \<Rightarrow> int" where
  "rne x = (let f = \<lfloor>x\<rfloor>; d = x - of_int f in
     if d < 1 / 2 then f else if 1 / 2 < d then f + 1 else if even f then f else f + 1)"

text \<open>The exponent of the unit in the last place at magnitude \<open>x\<close>.\<close>

definition ulp_exp :: "fmt \<Rightarrow> rat \<Rightarrow> int" where
  "ulp_exp F x = (if x = 0 then emin F else max (emin F) (ilog2 \<bar>x\<bar> - int (prec F) + 1))"

definition rnd :: "fmt \<Rightarrow> rat \<Rightarrow> rat" where
  "rnd F x = (let u = pow2 (ulp_exp F x) in of_int (rne (x / u)) * u)"

text \<open>The float of format \<open>F\<close> nearest to the exact result \<open>x\<close>; \<open>neg\<close> is the sign of a zero.\<close>

definition fl_round :: "fmt \<Rightarrow> bool \<Rightarrow> rat \<Rightarrow> fl" where
  "fl_round F neg x = (let r = rnd F x in
     if pow2 (etop F) \<le> r then PInf
     else if r \<le> - pow2 (etop F) then NInf
     else if r = 0 \<and> neg then NZero
     else Fin r)"

lemma rne_near: "\<bar>of_int (rne x) - x\<bar> \<le> 1 / 2"
  using floor_correct [of x] by (auto simp: rne_def Let_def abs_le_iff)

lemma rne_of_int [simp]: "rne (of_int n) = n"
  by (simp add: rne_def)

lemma rne_mono:
  assumes "x \<le> y" shows "rne x \<le> rne y"
proof (cases "\<lfloor>x\<rfloor> = \<lfloor>y\<rfloor>")
  case True
  then show ?thesis using assms by (auto simp: rne_def Let_def)
next
  case False
  then have "\<lfloor>x\<rfloor> + 1 \<le> \<lfloor>y\<rfloor>" using floor_mono [OF assms] by simp
  then show ?thesis by (auto simp: rne_def Let_def)
qed

lemma rne_minus: "rne (- x) = - rne x"
proof (cases "x = of_int \<lfloor>x\<rfloor>")
  case True
  then have "rne x = \<lfloor>x\<rfloor>" "rne (- x) = - \<lfloor>x\<rfloor>"
    by (metis rne_of_int, metis of_int_minus rne_of_int)
  then show ?thesis by simp
next
  case False
  have "of_int \<lfloor>x\<rfloor> < x" using False floor_correct [of x] by linarith
  then have fm: "\<lfloor>- x\<rfloor> = - \<lfloor>x\<rfloor> - 1"
    using floor_correct [of x] by (intro floor_unique; simp)
  have d: "- x - of_int (- \<lfloor>x\<rfloor> - 1) = 1 - (x - of_int \<lfloor>x\<rfloor>)" by simp
  show ?thesis unfolding rne_def Let_def fm d by auto
qed

lemma ulp_exp_minus [simp]: "ulp_exp F (- x) = ulp_exp F x"
  by (simp add: ulp_exp_def)

lemma ulp_exp_abs [simp]: "ulp_exp F \<bar>x\<bar> = ulp_exp F x"
  by (simp add: ulp_exp_def)

lemma rnd_minus: "rnd F (- x) = - rnd F x"
  by (simp add: rnd_def Let_def rne_minus flip: minus_divide_left)

lemma rnd_0 [simp]: "rnd F 0 = 0"
  using rne_of_int [of 0] by (simp add: rnd_def)

text \<open>A multiple of a large enough power of two below a bound is its own rounding.\<close>

definition on_grid :: "int \<Rightarrow> rat \<Rightarrow> bool" where
  "on_grid e x \<longleftrightarrow> (\<exists>n::int. x = of_int n * pow2 e)"

definition representable :: "fmt \<Rightarrow> rat \<Rightarrow> bool" where
  "representable F x \<longleftrightarrow> on_grid (ulp_exp F x) x \<and> \<bar>x\<bar> < pow2 (etop F)"

lemma on_grid_0 [simp]: "on_grid e 0"
  unfolding on_grid_def by (intro exI [of _ 0]) simp

lemma on_grid_weaken: "on_grid e x \<Longrightarrow> d \<le> e \<Longrightarrow> on_grid d x"
proof -
  assume "on_grid e x" "d \<le> e"
  then obtain n where "x = of_int n * pow2 e" by (auto simp: on_grid_def)
  moreover have "pow2 e = of_int (2 ^ nat (e - d)) * pow2 d"
    using \<open>d \<le> e\<close> pow2_add [of "e - d" d] pow2_int_exists [of "e - d"] by simp
  ultimately have "x = of_int (n * 2 ^ nat (e - d)) * pow2 d" by simp
  then show ?thesis unfolding on_grid_def by blast
qed

lemma on_grid_add: "on_grid e x \<Longrightarrow> on_grid e y \<Longrightarrow> on_grid e (x + y)"
  unfolding on_grid_def by (metis distrib_right of_int_add)

lemma on_grid_minus: "on_grid e x \<Longrightarrow> on_grid e (- x)"
  unfolding on_grid_def by (metis minus_mult_left of_int_minus)

lemma on_grid_diff: "on_grid e x \<Longrightarrow> on_grid e y \<Longrightarrow> on_grid e (x - y)"
  using on_grid_add [of e x "- y"] on_grid_minus [of e y] by simp

lemma on_grid_rnd_id: "on_grid (ulp_exp F x) x \<Longrightarrow> rnd F x = x"
proof -
  assume "on_grid (ulp_exp F x) x"
  then obtain n where n: "x = of_int n * pow2 (ulp_exp F x)" by (auto simp: on_grid_def)
  then have "x / pow2 (ulp_exp F x) = of_int n" by (metis nonzero_eq_divide_eq pow2_nonneg(2))
  then show ?thesis using n by (simp add: rnd_def Let_def)
qed

lemma rnd_on_grid: "on_grid (ulp_exp F x) (rnd F x)"
  by (auto simp: on_grid_def rnd_def Let_def)

lemma ulp_exp_mono: "0 \<le> x \<Longrightarrow> x \<le> y \<Longrightarrow> ulp_exp F x \<le> ulp_exp F y"
  using ilog2_mono [of x y] by (auto simp: ulp_exp_def)

lemma ulp_exp_ge_emin [simp]: "emin F \<le> ulp_exp F x"
  by (simp add: ulp_exp_def)

lemma prec_pos [simp]: "0 < prec F" "Suc 0 \<le> prec F" by (cases F; simp)+

lemma ulp_exp_above:
  assumes "0 \<le> x" "x \<le> y" "ulp_exp F x < ulp_exp F y"
  shows "x < pow2 (ulp_exp F y + int (prec F) - 1)" "pow2 (ulp_exp F y + int (prec F) - 1) \<le> y"
proof -
  from assms have y: "0 < y" "ulp_exp F y = ilog2 y - int (prec F) + 1"
    by (auto simp: ulp_exp_def max_def split: if_splits)
  with ilog2_bounds(1) [OF y(1)] show "pow2 (ulp_exp F y + int (prec F) - 1) \<le> y" by simp
  show "x < pow2 (ulp_exp F y + int (prec F) - 1)"
  proof (cases "x = 0")
    case False
    with assms y have "ilog2 x < ilog2 y" by (auto simp: ulp_exp_def split: if_splits)
    moreover have "x < pow2 (ilog2 x + 1)" using False assms(1) ilog2_bounds(2) by auto
    moreover have "pow2 (ilog2 x + 1) \<le> pow2 (ilog2 y)" using calculation(1) by simp
    ultimately have "x < pow2 (ilog2 y)" by linarith
    with y(2) show ?thesis by simp
  qed auto
qed

lemma rnd_mono_nonneg:
  assumes "0 \<le> x" "x \<le> y" shows "rnd F x \<le> rnd F y"
proof (cases "ulp_exp F x = ulp_exp F y")
  case True
  have "x / pow2 (ulp_exp F y) \<le> y / pow2 (ulp_exp F y)"
    using assms by (simp add: divide_right_mono)
  from rne_mono [OF this] True show ?thesis
    by (simp add: rnd_def Let_def mult_right_mono)
next
  case False
  let ?u = "ulp_exp F x" and ?v = "ulp_exp F y" and ?p = "int (prec F) - 1"
  have lt: "?u < ?v" using False ulp_exp_mono [OF assms, of F] by simp
  note b = ulp_exp_above [OF assms lt]
  have p0: "0 \<le> ?p" by (cases F) auto
  have "rne (x / pow2 ?u) \<le> 2 ^ nat (?v + ?p - ?u)"
  proof -
    have "x / pow2 ?u \<le> pow2 (?v + ?p - ?u)"
      using b(1) by (subst pow2_diff) (simp add: divide_right_mono less_imp_le add_diff_eq)
    also have "\<dots> = of_int (2 ^ nat (?v + ?p - ?u))"
      using p0 lt by (intro pow2_int_exists) linarith
    finally show ?thesis by (metis rne_mono rne_of_int)
  qed
  then have "rnd F x \<le> of_int (2 ^ nat (?v + ?p - ?u)) * pow2 ?u"
    unfolding rnd_def Let_def by (metis mult_right_mono of_int_le_iff pow2_nonneg(1))
  also have "of_int (2 ^ nat (?v + ?p - ?u)) * pow2 ?u = pow2 (?v + ?p)"
    using p0 lt pow2_int_exists [of "?v + ?p - ?u"] pow2_add [of "?v + ?p - ?u" ?u] by simp
  finally have up: "rnd F x \<le> pow2 (?v + ?p)" .
  have "2 ^ nat ?p \<le> rne (y / pow2 ?v)"
  proof -
    have "of_int (2 ^ nat ?p) = pow2 (?v + ?p - ?v)"
      using p0 by (subst pow2_int_exists [symmetric]) simp_all
    also have "\<dots> \<le> y / pow2 ?v"
      using b(2) by (subst pow2_diff) (simp add: divide_right_mono add_diff_eq)
    finally show ?thesis by (metis rne_mono rne_of_int)
  qed
  then have "of_int (2 ^ nat ?p) * pow2 ?v \<le> rnd F y"
    unfolding rnd_def Let_def by (metis mult_right_mono of_int_le_iff pow2_nonneg(1))
  moreover have "of_int (2 ^ nat ?p) * pow2 ?v = pow2 (?v + ?p)"
    using p0 pow2_int_exists [of ?p] pow2_add [of ?p ?v] by (simp add: add.commute)
  ultimately show ?thesis using up by linarith
qed

lemma rnd_nonneg: "0 \<le> x \<Longrightarrow> 0 \<le> rnd F x"
  using rnd_mono_nonneg [of 0 x F] by simp

theorem rnd_mono: "x \<le> y \<Longrightarrow> rnd F x \<le> rnd F y"
proof -
  assume xy: "x \<le> y"
  consider "0 \<le> x" | "x < 0" "0 \<le> y" | "x < 0" "y < 0" by linarith
  then show ?thesis
  proof cases
    case 1 then show ?thesis using xy by (rule rnd_mono_nonneg)
  next
    case 2
    then show ?thesis using rnd_nonneg [of y F] rnd_nonneg [of "- x" F] by (simp add: rnd_minus)
  next
    case 3
    then show ?thesis using xy rnd_mono_nonneg [of "- y" "- x" F] by (simp add: rnd_minus)
  qed
qed

lemma ulp_exp_bound: "\<bar>x\<bar> < pow2 (ulp_exp F x + int (prec F))"
proof (cases "x = 0")
  case False
  then have "\<bar>x\<bar> < pow2 (ilog2 \<bar>x\<bar> + 1)" using ilog2_bounds(2) by simp
  also have "pow2 (ilog2 \<bar>x\<bar> + 1) \<le> pow2 (ulp_exp F x + int (prec F))"
    using False by (subst pow2_le_iff) (simp add: ulp_exp_def)
  finally show ?thesis .
qed simp

lemma ulp_exp_le:
  assumes "\<bar>x\<bar> < pow2 (e + int (prec F))" "emin F \<le> e" shows "ulp_exp F x \<le> e"
proof (cases "x = 0")
  case False
  then have "ilog2 \<bar>x\<bar> < e + int (prec F)" using assms(1) by (intro ilog2_less_pow2) auto
  then show ?thesis using assms(2) by (simp add: ulp_exp_def)
qed (use assms in \<open>simp add: ulp_exp_def\<close>)

text \<open>Rounding is idempotent: a rounded value lies on its own grid.\<close>

lemma rnd_rnd: "on_grid (ulp_exp F (rnd F x)) (rnd F x)"
proof -
  let ?u = "ulp_exp F x" and ?n = "rne (x / pow2 (ulp_exp F x))"
  have r: "rnd F x = of_int ?n * pow2 ?u" by (simp add: rnd_def Let_def)
  have q: "\<bar>x / pow2 ?u\<bar> \<le> of_int (2 ^ prec F)"
  proof -
    have "\<bar>x\<bar> / pow2 ?u \<le> pow2 (?u + int (prec F)) / pow2 ?u"
      using ulp_exp_bound [of x F] by (intro divide_right_mono) simp_all
    then show ?thesis by (simp add: pow2_add pow2_nat)
  qed
  have n: "\<bar>?n\<bar> \<le> 2 ^ prec F"
  proof -
    have "x / pow2 ?u \<le> of_int (2 ^ prec F)" "of_int (- (2 ^ prec F)) \<le> x / pow2 ?u"
      using q by (simp_all only: abs_le_iff of_int_minus) linarith
    from this [THEN rne_mono] show ?thesis unfolding rne_of_int by linarith
  qed
  show ?thesis
  proof (cases "\<bar>?n\<bar> = 2 ^ prec F")
    case False
    then have "\<bar>?n\<bar> < 2 ^ prec F" using n by simp
    then have "\<bar>of_int ?n\<bar> < (of_int (2 ^ prec F) :: rat)" by (simp only: of_int_abs [symmetric] of_int_less_iff)
    then have "\<bar>rnd F x\<bar> < pow2 (?u + int (prec F))"
      by (simp add: r abs_mult pow2_add pow2_nat)
    then have "ulp_exp F (rnd F x) \<le> ?u" by (rule ulp_exp_le) simp
    then show ?thesis using rnd_on_grid on_grid_weaken by blast
  next
    case True
    then have "\<bar>of_int ?n\<bar> = (of_int (2 ^ prec F) :: rat)" by (simp only: of_int_abs [symmetric])
    then have a: "\<bar>rnd F x\<bar> = pow2 (?u + int (prec F))"
      by (simp add: r abs_mult pow2_add pow2_nat)
    have "\<bar>rnd F x\<bar> < pow2 (?u + 1 + int (prec F))" unfolding a by simp
    then have "ulp_exp F (rnd F x) \<le> ?u + 1" by (rule ulp_exp_le) (simp add: add_increasing2)
    moreover have "on_grid (?u + 1) (rnd F x)"
    proof -
      have "on_grid (?u + 1) \<bar>rnd F x\<bar>"
        unfolding a on_grid_def using pow2_add [of "int (prec F) - 1" "?u + 1"]
          pow2_int_exists [of "int (prec F) - 1"]
        by (intro exI [of _ "2 ^ nat (int (prec F) - 1)"]) (simp add: algebra_simps)
      then show ?thesis using on_grid_minus by (fastforce simp: abs_if split: if_splits)
    qed
    ultimately show ?thesis using on_grid_weaken by blast
  qed
qed

text \<open>Sterbenz: the difference of two representable values within a factor two is exact.\<close>

lemma sterbenz:
  assumes x: "on_grid (ulp_exp F x) x" and y: "on_grid (ulp_exp F y) y"
    and b: "0 \<le> x" "0 \<le> y" "y \<le> 2 * x" "x \<le> 2 * y"
  shows "rnd F (x - y) = x - y"
proof -
  let ?m = "min x y"
  have m: "ulp_exp F ?m \<le> ulp_exp F x" "ulp_exp F ?m \<le> ulp_exp F y"
    using b by (auto intro: ulp_exp_mono)
  then have g: "on_grid (ulp_exp F ?m) (x - y)"
    using x y on_grid_diff on_grid_weaken by blast
  have "\<bar>x - y\<bar> \<le> ?m" using b by (auto simp: min_def abs_if)
  then have "ulp_exp F \<bar>x - y\<bar> \<le> ulp_exp F ?m" by (intro ulp_exp_mono) simp_all
  then have "ulp_exp F (x - y) \<le> ulp_exp F ?m" by simp
  with g show ?thesis by (intro on_grid_rnd_id) (rule on_grid_weaken)
qed

section \<open>Values and operations\<close>

fun val :: "fl \<Rightarrow> rat" where
  "val (Fin r) = r"
| "val _ = 0"

fun is_finite :: "fl \<Rightarrow> bool" where
  "is_finite (Fin r) = True"
| "is_finite NZero = True"
| "is_finite _ = False"

fun is_inf :: "fl \<Rightarrow> bool" where
  "is_inf PInf = True"
| "is_inf NInf = True"
| "is_inf _ = False"

text \<open>The sign bit (of a NaN: clear).\<close>

fun sign_bit :: "fl \<Rightarrow> bool" where
  "sign_bit (Fin r) = (r < 0)"
| "sign_bit NZero = True"
| "sign_bit NInf = True"
| "sign_bit _ = False"

fun fl_neg :: "fl \<Rightarrow> fl" where
  "fl_neg NaN = NaN"
| "fl_neg PInf = NInf"
| "fl_neg NInf = PInf"
| "fl_neg NZero = Fin 0"
| "fl_neg (Fin r) = (if r = 0 then NZero else Fin (- r))"

definition fl_abs :: "fl \<Rightarrow> fl" where
  "fl_abs a = (if sign_bit a then fl_neg a else a)"

definition signed_inf :: "bool \<Rightarrow> fl" where "signed_inf s = (if s then NInf else PInf)"
definition signed_zero :: "bool \<Rightarrow> fl" where "signed_zero s = (if s then NZero else Fin 0)"

definition fl_add :: "fmt \<Rightarrow> fl \<Rightarrow> fl \<Rightarrow> fl" where
  "fl_add F a b =
    (if a = NaN \<or> b = NaN then NaN
     else if is_inf a then (if b = fl_neg a then NaN else a)
     else if is_inf b then b
     else fl_round F (val a + val b < 0 \<or> a = NZero \<and> b = NZero) (val a + val b))"

definition fl_sub :: "fmt \<Rightarrow> fl \<Rightarrow> fl \<Rightarrow> fl" where
  "fl_sub F a b = fl_add F a (fl_neg b)"

definition fl_mul :: "fmt \<Rightarrow> fl \<Rightarrow> fl \<Rightarrow> fl" where
  "fl_mul F a b = (let s = (sign_bit a \<noteq> sign_bit b) in
     if a = NaN \<or> b = NaN then NaN
     else if is_inf a then (if is_finite b \<and> val b = 0 then NaN else signed_inf s)
     else if is_inf b then (if val a = 0 then NaN else signed_inf s)
     else fl_round F s (val a * val b))"

definition fl_div :: "fmt \<Rightarrow> fl \<Rightarrow> fl \<Rightarrow> fl" where
  "fl_div F a b = (let s = (sign_bit a \<noteq> sign_bit b) in
     if a = NaN \<or> b = NaN then NaN
     else if is_inf a then (if is_inf b then NaN else signed_inf s)
     else if is_inf b then signed_zero s
     else if val b = 0 then (if val a = 0 then NaN else signed_inf s)
     else fl_round F s (val a / val b))"

definition fl_lt :: "fl \<Rightarrow> fl \<Rightarrow> bool" where
  "fl_lt a b \<longleftrightarrow> a \<noteq> NaN \<and> b \<noteq> NaN \<and>
     (if is_finite a \<and> is_finite b then val a < val b
      else a \<noteq> b \<and> (a = NInf \<or> b = PInf))"

definition fl_eq :: "fl \<Rightarrow> fl \<Rightarrow> bool" where
  "fl_eq a b \<longleftrightarrow> a \<noteq> NaN \<and> b \<noteq> NaN \<and>
     (if is_finite a \<and> is_finite b then val a = val b else a = b)"

definition fl_le :: "fl \<Rightarrow> fl \<Rightarrow> bool" where
  "fl_le a b \<longleftrightarrow> fl_lt a b \<or> fl_eq a b"

abbreviation fl_gt :: "fl \<Rightarrow> fl \<Rightarrow> bool" where "fl_gt a b \<equiv> fl_lt b a"
abbreviation fl_ge :: "fl \<Rightarrow> fl \<Rightarrow> bool" where "fl_ge a b \<equiv> fl_le b a"

text \<open>\<open>f32::max\<close> and \<open>f32::min\<close>: a NaN argument is ignored.\<close>

definition fl_max :: "fl \<Rightarrow> fl \<Rightarrow> fl" where
  "fl_max a b = (if a = NaN then b else if b = NaN then a else if fl_lt a b then b else a)"

definition fl_min :: "fl \<Rightarrow> fl \<Rightarrow> fl" where
  "fl_min a b = (if a = NaN then b else if b = NaN then a else if fl_lt b a then b else a)"

text \<open>Literals, integer casts (\<open>as f32\<close>, \<open>as f64\<close>) and narrowing (\<open>f64 as f32\<close>).\<close>

definition lit32 :: "rat \<Rightarrow> fl" where "lit32 q = fl_round B32 False q"
definition lit64 :: "rat \<Rightarrow> fl" where "lit64 q = fl_round B64 False q"
definition fl_of_int :: "fmt \<Rightarrow> int \<Rightarrow> fl" where "fl_of_int F n = fl_round F False (of_int n)"

fun to_f32 :: "f64 \<Rightarrow> f32" where
  "to_f32 (Fin r) = fl_round B32 (r < 0) r"
| "to_f32 a = a"

text \<open>The floats a format has.\<close>

fun fl_in :: "fmt \<Rightarrow> fl \<Rightarrow> bool" where
  "fl_in F (Fin r) \<longleftrightarrow> on_grid (ulp_exp F r) r \<and> \<bar>r\<bar> < pow2 (etop F)"
| "fl_in F _ \<longleftrightarrow> True"

lemma rnd_fixed: "fl_in F (Fin r) \<Longrightarrow> rnd F r = r"
  by (auto intro: on_grid_rnd_id)

lemma fl_round_in [simp, intro]: "fl_in F (fl_round F n x)"
  using rnd_rnd [of F x] by (auto simp: fl_round_def Let_def abs_less_iff)

lemma fl_round_exact: "fl_in F (Fin r) \<Longrightarrow> fl_round F n r = (if r = 0 \<and> n then NZero else Fin r)"
  using rnd_fixed [of F r] by (auto simp: fl_round_def abs_less_iff)

lemma val_fl_round: "is_finite (fl_round F n x) \<Longrightarrow> val (fl_round F n x) = rnd F x"
  by (auto simp: fl_round_def Let_def split: if_splits)

lemma fl_round_not_NaN [simp]: "fl_round F n x \<noteq> NaN"
  by (auto simp: fl_round_def Let_def)

lemma fl_neg_in [simp, intro]: "fl_in F a \<Longrightarrow> fl_in F (fl_neg a)"
  by (cases a) (auto intro: on_grid_minus)

lemma fl_in_Fin0 [simp]: "fl_in F (Fin 0)"
  by auto

lemma fl_round_0 [simp]: "fl_round F n 0 = (if n then NZero else Fin 0)"
  by (simp add: fl_round_exact)

lemma fl_add_in [intro]: "fl_in F a \<Longrightarrow> fl_in F b \<Longrightarrow> fl_in F (fl_add F a b)"
  and fl_mul_in [intro]: "fl_in F (fl_mul F a b)"
  and fl_div_in [intro]: "fl_in F (fl_div F a b)"
  by (auto simp: fl_add_def fl_mul_def fl_div_def signed_inf_def signed_zero_def Let_def
    simp del: fl_in.simps(1))

lemma fl_sub_in [intro]: "fl_in F a \<Longrightarrow> fl_in F b \<Longrightarrow> fl_in F (fl_sub F a b)"
  by (auto simp: fl_sub_def)

lemma val_neg [simp]: "val (fl_neg a) = - val a" and fin_neg [simp]: "is_finite (fl_neg a) = is_finite a"
  by (cases a; simp)+

lemma finite_not [simp]: "is_finite a \<Longrightarrow> a \<noteq> NaN" "is_finite a \<Longrightarrow> \<not> is_inf a"
  by (cases a; simp)+

lemma fl_lt_finite: "is_finite a \<Longrightarrow> is_finite b \<Longrightarrow> fl_lt a b \<longleftrightarrow> val a < val b"
  by (simp add: fl_lt_def)

lemma fl_le_finite: "is_finite a \<Longrightarrow> is_finite b \<Longrightarrow> fl_le a b \<longleftrightarrow> val a \<le> val b"
  by (auto simp: fl_le_def fl_lt_def fl_eq_def)

lemma fl_eq_finite: "is_finite a \<Longrightarrow> is_finite b \<Longrightarrow> fl_eq a b \<longleftrightarrow> val a = val b"
  by (auto simp: fl_eq_def)

lemmas fl_cmp_finite = fl_lt_finite fl_le_finite fl_eq_finite

lemma fl_cmp_NaN [simp]: "\<not> fl_lt NaN b" "\<not> fl_lt a NaN" "\<not> fl_le NaN b" "\<not> fl_le a NaN"
  "\<not> fl_eq NaN b" "\<not> fl_eq a NaN"
  by (auto simp: fl_le_def fl_lt_def fl_eq_def)

lemma fl_add_finite:
  "is_finite a \<Longrightarrow> is_finite b \<Longrightarrow>
   fl_add F a b = fl_round F (val a + val b < 0 \<or> a = NZero \<and> b = NZero) (val a + val b)"
  by (simp add: fl_add_def)

lemma fl_sub_finite:
  "is_finite a \<Longrightarrow> is_finite b \<Longrightarrow>
   fl_sub F a b = fl_round F (val a - val b < 0 \<or> a = NZero \<and> fl_neg b = NZero) (val a - val b)"
  by (simp add: fl_sub_def fl_add_finite)

lemma fl_add_NaN [simp]: "fl_add F NaN b = NaN" "fl_add F a NaN = NaN"
  by (simp_all add: fl_add_def)

lemma fl_sub_NaN [simp]: "fl_sub F NaN b = NaN" "fl_sub F a NaN = NaN"
  by (simp_all add: fl_sub_def)

lemma fl_mul_NaN [simp]: "fl_mul F NaN b = NaN" "fl_mul F a NaN = NaN"
  by (simp_all add: fl_mul_def Let_def)

lemma fl_div_NaN [simp]: "fl_div F NaN b = NaN" "fl_div F a NaN = NaN"
  by (simp_all add: fl_div_def Let_def)

text \<open>A value minus itself is zero, or NaN for a value that is not finite.\<close>

lemma fl_sub_self: "fl_sub F a a = (if is_finite a then Fin 0 else NaN)"
  by (cases a) (auto simp: fl_sub_def fl_add_def)

section \<open>Evaluation\<close>

text \<open>Conditional equations under which \<open>simp\<close> computes on literals without unfolding the
  logarithm's recursion blindly.\<close>

lemma nlog2_eval [fl_simps]: "n < 2 \<Longrightarrow> nlog2 n = 0" "2 \<le> n \<Longrightarrow> nlog2 n = 1 + nlog2 (n div 2)"
  by (simp_all add: nlog2.simps [of n])

lemma ilog2_eval [fl_simps]:
  "1 \<le> x \<Longrightarrow> ilog2 x = nlog2 \<lfloor>x\<rfloor>" "x < 1 \<Longrightarrow> ilog2 x = - clog2 \<lceil>1 / x\<rceil>"
  by (simp_all add: ilog2_def)

lemma clog2_eval [fl_simps]: "n \<le> 1 \<Longrightarrow> clog2 n = 0" "1 < n \<Longrightarrow> clog2 n = 1 + nlog2 (n - 1)"
  by (simp_all add: clog2_def)

lemma floor_rat_eval [fl_simps]:
  "\<lfloor>numeral a / numeral b :: rat\<rfloor> = numeral a div numeral b"
  "\<lfloor>1 / numeral b :: rat\<rfloor> = 1 div numeral b"
  "\<lfloor>- (numeral a / numeral b) :: rat\<rfloor> = - numeral a div numeral b"
  "\<lfloor>- (1 / numeral b) :: rat\<rfloor> = - 1 div numeral b"
  by (metis floor_divide_of_int_eq of_int_numeral of_int_1 of_int_minus minus_divide_left)+

lemma ceiling_rat_eval [fl_simps]:
  "\<lceil>numeral a / numeral b :: rat\<rceil> = - (- numeral a div numeral b)"
  "\<lceil>1 / numeral b :: rat\<rceil> = - (- 1 div numeral b)"
  by (simp_all only: ceiling_def floor_rat_eval)

lemma pow2_eval [fl_simps]:
  "pow2 (numeral k) = 2 ^ numeral k" "pow2 (- numeral k) = 1 / 2 ^ numeral k"
  by (simp_all add: pow2_def)

lemmas [fl_simps] = rne_def rnd_def ulp_exp_def fl_round_def lit32_def lit64_def fl_of_int_def
  fl_add_def fl_sub_def fl_mul_def fl_div_def fl_lt_def fl_eq_def fl_le_def fl_max_def fl_min_def
  fl_abs_def signed_inf_def signed_zero_def Let_def

section \<open>Bounds\<close>

text \<open>Rounding respects representable bounds, and comparisons see only the value of a zero.\<close>

lemma representable_fl_in: "is_finite a \<Longrightarrow> fl_in F a \<Longrightarrow> representable F (val a)"
  by (cases a) (auto simp: representable_def)

lemma representable_0 [simp]: "representable F 0"
  by (simp add: representable_def)

lemma representable_minus: "representable F x \<Longrightarrow> representable F (- x)"
  by (simp add: representable_def on_grid_minus)

lemma fl_round_rep:
  assumes "representable F x" shows "is_finite (fl_round F n x)" "val (fl_round F n x) = x"
proof -
  have "fl_round F n x = (if x = 0 \<and> n then NZero else Fin x)"
    using assms by (intro fl_round_exact) (simp add: representable_def)
  then show "is_finite (fl_round F n x)" "val (fl_round F n x) = x" by auto
qed

lemma fl_le_val: "is_finite a \<Longrightarrow> fl_le a x = fl_le (Fin (val a)) x"
  "is_finite a \<Longrightarrow> fl_le x a = fl_le x (Fin (val a))"
  "is_finite a \<Longrightarrow> fl_lt a x = fl_lt (Fin (val a)) x"
  "is_finite a \<Longrightarrow> fl_lt x a = fl_lt x (Fin (val a))"
  by (cases a; auto simp: fl_le_def fl_lt_def fl_eq_def)+

lemma fl_not_le: "a \<noteq> NaN \<Longrightarrow> b \<noteq> NaN \<Longrightarrow> \<not> fl_le a b \<longleftrightarrow> fl_lt b a"
  by (cases a; cases b) (auto simp: fl_le_def fl_lt_def fl_eq_def)

lemma fl_round_ge:
  assumes "representable F a" "a \<le> x" shows "fl_le (Fin a) (fl_round F n x)"
proof -
  have "rnd F a = a" using assms(1) by (simp add: representable_def on_grid_rnd_id)
  then have "a \<le> rnd F x" using rnd_mono [OF assms(2), of F] by simp
  moreover have "- pow2 (etop F) < a" using assms(1) by (simp add: representable_def abs_less_iff)
  ultimately show ?thesis by (auto simp: fl_round_def Let_def fl_le_def fl_lt_def fl_eq_def)
qed

lemma fl_round_le:
  assumes "representable F b" "x \<le> b" shows "fl_le (fl_round F n x) (Fin b)"
proof -
  have "rnd F b = b" using assms(1) by (simp add: representable_def on_grid_rnd_id)
  then have "rnd F x \<le> b" using rnd_mono [OF assms(2), of F] by simp
  moreover have "b < pow2 (etop F)" using assms(1) by (simp add: representable_def abs_less_iff)
  ultimately show ?thesis by (auto simp: fl_round_def Let_def fl_le_def fl_lt_def fl_eq_def)
qed

lemma fl_between_finite: "fl_le (Fin a) x \<Longrightarrow> fl_le x (Fin b) \<Longrightarrow> is_finite x \<and> a \<le> val x \<and> val x \<le> b"
  by (cases x) (auto simp: fl_le_def fl_lt_def fl_eq_def)

lemma fl_round_between:
  assumes "representable F a" "representable F b" "a \<le> x" "x \<le> b"
  shows "is_finite (fl_round F n x)" "a \<le> val (fl_round F n x)" "val (fl_round F n x) \<le> b"
  using fl_between_finite [OF fl_round_ge [OF assms(1,3)] fl_round_le [OF assms(2,4)]] by auto

lemma representable_half:
  assumes "representable F x" "pow2 (emin F + int (prec F)) \<le> \<bar>x\<bar>"
  shows "representable F (x / 2)"
proof -
  have x0: "x \<noteq> 0" using assms(2) by auto
  have lb: "emin F + int (prec F) \<le> ilog2 \<bar>x\<bar>"
  proof -
    have "pow2 (emin F + int (prec F)) < pow2 (ilog2 \<bar>x\<bar> + 1)"
      using assms(2) ilog2_bounds(2) [of "\<bar>x\<bar>"] x0 by linarith
    then show ?thesis unfolding pow2_less_iff by linarith
  qed
  then have u: "ulp_exp F x = ilog2 \<bar>x\<bar> - int (prec F) + 1" using x0 by (simp add: ulp_exp_def)
  have h: "ilog2 \<bar>x / 2\<bar> = ilog2 \<bar>x\<bar> - 1"
  proof (rule ilog2_unique)
    show "pow2 (ilog2 \<bar>x\<bar> - 1) \<le> \<bar>x / 2\<bar>"
      using ilog2_bounds(1) [of "\<bar>x\<bar>"] x0 by (simp add: pow2_diff)
    show "\<bar>x / 2\<bar> < pow2 (ilog2 \<bar>x\<bar> - 1 + 1)"
      using ilog2_bounds(2) [of "\<bar>x\<bar>"] x0 by (simp add: pow2_Suc)
  qed
  have "ulp_exp F (x / 2) = ulp_exp F x - 1" using lb u h x0 by (simp add: ulp_exp_def)
  moreover obtain n where n: "x = of_int n * pow2 (ulp_exp F x)"
    using assms(1) by (auto simp: representable_def on_grid_def)
  moreover have "pow2 (ulp_exp F x - 1) = pow2 (ulp_exp F x) / 2" by (simp add: pow2_diff)
  ultimately have "x / 2 = of_int n * pow2 (ulp_exp F (x / 2))" by (metis times_divide_eq_right)
  then have "on_grid (ulp_exp F (x / 2)) (x / 2)" unfolding on_grid_def by blast
  moreover have "\<bar>x / 2\<bar> < pow2 (etop F)" using assms(1) by (simp add: representable_def abs_less_iff)
  ultimately show ?thesis by (simp add: representable_def)
qed

lemma sterbenz_rep:
  assumes "representable F x" "representable F y" "0 \<le> y" "y \<le> x" "x \<le> 2 * y"
  shows "representable F (x - y)"
proof -
  have "rnd F (x - y) = x - y" using assms by (intro sterbenz) (auto simp: representable_def)
  then have "on_grid (ulp_exp F (x - y)) (x - y)" by (metis rnd_rnd)
  then show ?thesis using assms by (auto simp: representable_def)
qed

lemma fl_mul_one:
  assumes "is_finite a" "fl_in B32 a"
  shows "is_finite (fl_mul B32 (fl_of_int B32 1) a)" "val (fl_mul B32 (fl_of_int B32 1) a) = val a"
    "is_finite (fl_mul B32 (fl_of_int B32 (- 1)) a)" "val (fl_mul B32 (fl_of_int B32 (- 1)) a) = - val a"
proof -
  have one: "fl_of_int B32 1 = Fin 1" "fl_of_int B32 (- 1) = Fin (- 1)" by (simp_all add: fl_simps)
  note r = representable_fl_in [OF assms]
  show "is_finite (fl_mul B32 (fl_of_int B32 1) a)" "val (fl_mul B32 (fl_of_int B32 1) a) = val a"
    using assms fl_round_rep [OF r] by (simp_all add: one fl_mul_def Let_def)
  show "is_finite (fl_mul B32 (fl_of_int B32 (- 1)) a)" "val (fl_mul B32 (fl_of_int B32 (- 1)) a) = - val a"
    using assms fl_round_rep [OF representable_minus [OF r]] by (simp_all add: one fl_mul_def Let_def)
qed

end
