(* ===== verification/Core_Types.thy ===== *)
theory Core_Types
  imports Floats
begin

text \<open>
  The value types of the domain crate: controller direction, controller and process types with
  their defaults, the tuning-constant matrices and their lookup, the validated PV and MV ranges
  and the per-run loop configuration (\<open>bhtune-core/src\<close>: \<open>direction.rs\<close>,
  \<open>controller_type.rs\<close>, \<open>process_type.rs\<close>, \<open>constants.rs\<close>, \<open>range.rs\<close>, \<open>loop_config.rs\<close>).
\<close>

section \<open>Controller direction\<close>

datatype controller_direction = Direct | Reverse

definition from_raw_tag_value :: "string \<Rightarrow> string \<Rightarrow> controller_direction" where
  "from_raw_tag_value raw_value controller_action_direct_value =
     (if raw_value = controller_action_direct_value then Direct else Reverse)"

fun action_multiplier :: "controller_direction \<Rightarrow> i8" where
  "action_multiplier Direct = - 1"
| "action_multiplier Reverse = 1"

section \<open>Process and controller types\<close>

datatype process_type =
  Flow | PressureLine | PressureVessel | Level | TemperatureMixing | TemperatureHeatExchange

fun process_index :: "process_type \<Rightarrow> nat" where
  "process_index Flow = 0"
| "process_index PressureLine = 1"
| "process_index PressureVessel = 2"
| "process_index Level = 3"
| "process_index TemperatureMixing = 4"
| "process_index TemperatureHeatExchange = 5"

definition process_all :: "process_type list" where
  "process_all = [Flow, PressureLine, PressureVessel, Level, TemperatureMixing,
     TemperatureHeatExchange]"

fun allows_pid :: "process_type \<Rightarrow> bool" where
  "allows_pid TemperatureMixing = True"
| "allows_pid TemperatureHeatExchange = True"
| "allows_pid _ = False"

datatype controller_type = CT_P | CT_Pi | CT_Pid

fun controller_index :: "controller_type \<Rightarrow> nat" where
  "controller_index CT_P = 0"
| "controller_index CT_Pi = 1"
| "controller_index CT_Pid = 2"

definition controller_all :: "controller_type list" where
  "controller_all = [CT_P, CT_Pi, CT_Pid]"

fun is_allowed_for :: "controller_type \<Rightarrow> process_type \<Rightarrow> bool" where
  "is_allowed_for CT_P p = True"
| "is_allowed_for CT_Pi p = True"
| "is_allowed_for CT_Pid p = allows_pid p"

definition DEFAULT_CYCLES_SKIP :: "u32 list" where
  "DEFAULT_CYCLES_SKIP = [1, 1, 1, 1, 1, 1]"

definition DEFAULT_CYCLES_TEST :: "u32 list" where
  "DEFAULT_CYCLES_TEST = [2, 2, 1, 1, 1, 1]"

definition DEFAULT_NOISE_PROTECTION_SECS :: "u32 list" where
  "DEFAULT_NOISE_PROTECTION_SECS = [3, 3, 10, 10, 20, 20]"

definition default_cycles_skip :: "process_type \<Rightarrow> u32" where
  "default_cycles_skip p = DEFAULT_CYCLES_SKIP ! process_index p"

definition default_cycles_test :: "process_type \<Rightarrow> u32" where
  "default_cycles_test p = DEFAULT_CYCLES_TEST ! process_index p"

definition default_noise_protection_secs :: "process_type \<Rightarrow> u32" where
  "default_noise_protection_secs p = DEFAULT_NOISE_PROTECTION_SECS ! process_index p"

section \<open>Tuning constants\<close>

datatype response_level = Aggressive | Moderate | Sluggish

definition response_all :: "response_level list" where
  "response_all = [Aggressive, Moderate, Sluggish]"

fun response_index :: "response_level \<Rightarrow> nat" where
  "response_index Aggressive = 0"
| "response_index Moderate = 1"
| "response_index Sluggish = 2"

record tuning_constants =
  tc_c1 :: f32
  tc_c2 :: f32
  tc_c3 :: f32
  tc_beta :: f32

text \<open>The matrices, as decimal literals; \<open>lookup\<close> rounds the selected one to \<open>f32\<close>, as the
  compiler does for every entry.\<close>

definition C1 :: "rat list list list" where
  "C1 = [
    [[0.5, 0.451, 0], [0.333, 0.302, 0], [0.25, 0.226, 0]],
    [[0.5, 0.442, 0], [0.333, 0.296, 0], [0.25, 0.221, 0]],
    [[0.333, 0.331, 0], [0.222, 0.222, 0], [0.167, 0.166, 0]],
    [[0.333, 0.331, 0], [0.222, 0.222, 0], [0.167, 0.166, 0]],
    [[0.5, 0.47, 0.498], [0.25, 0.235, 0.249], [0.167, 0.155, 0.164]],
    [[0.333, 0.325, 0.332], [0.222, 0.218, 0.222], [0.167, 0.163, 0.166]]]"

definition C2 :: "rat list list" where
  "C2 = [[0, 0.331, 0], [0, 0.302, 0], [0, 1.216, 0], [0, 1.216, 0],
    [0, 0.436, 0.162], [0, 0.704, 0.275]]"

definition C3 :: "rat list list" where
  "C3 = [[0, 0, 0], [0, 0, 0], [0, 0, 0], [0, 0, 0], [0, 0, 0.14], [0, 0, 0.09]]"

definition BETA :: "rat list list" where
  "BETA = [[0, 0.433, 0], [0, 0.466, 0], [0, 0.13, 0], [0, 0.13, 0],
    [0, 0.343, 0.102], [0, 0.221, 0.013]]"

definition lookup :: "process_type \<Rightarrow> controller_type \<Rightarrow> response_level \<Rightarrow> tuning_constants" where
  "lookup p c r = \<lparr>
     tc_c1 = lit32 (C1 ! process_index p ! response_index r ! controller_index c),
     tc_c2 = lit32 (C2 ! process_index p ! controller_index c),
     tc_c3 = lit32 (C3 ! process_index p ! controller_index c),
     tc_beta = lit32 (BETA ! process_index p ! controller_index c)\<rparr>"

section \<open>Validated ranges\<close>

datatype range_error =
  NotFinite string f32
| ZeroSpan f32 f32
| LowNotBelowHigh f32 f32

record pv_range =
  pv_high :: f32
  pv_low :: f32

record mv_range =
  mv_high :: f32
  mv_low :: f32

definition PvRange_new :: "f32 \<Rightarrow> f32 \<Rightarrow> (range_error, pv_range) result" where
  "PvRange_new high low =
    (if \<not> is_finite high then Err (NotFinite ''pv_range_high'' high)
     else if \<not> is_finite low then Err (NotFinite ''pv_range_low'' low)
     else if fl_eq high low then Err (ZeroSpan high low)
     else Ok \<lparr>pv_high = high, pv_low = low\<rparr>)"

definition MvRange_new :: "f32 \<Rightarrow> f32 \<Rightarrow> (range_error, mv_range) result" where
  "MvRange_new high low =
    (if \<not> is_finite high then Err (NotFinite ''mv_range_high'' high)
     else if \<not> is_finite low then Err (NotFinite ''mv_range_low'' low)
     else if fl_ge low high then Err (LowNotBelowHigh low high)
     else Ok \<lparr>mv_high = high, mv_low = low\<rparr>)"

definition MvRange_contains :: "mv_range \<Rightarrow> f32 \<Rightarrow> bool" where
  "MvRange_contains r v \<longleftrightarrow> fl_ge v (mv_low r) \<and> fl_le v (mv_high r)"

section \<open>Loop configuration\<close>

record loop_config =
  lc_process_type :: process_type
  lc_controller_type :: controller_type
  lc_relay_amp_percent :: f32
  lc_num_cycles_skip :: u32
  lc_num_cycles_count :: u32
  lc_noise_protection_secs :: u32
  lc_mrft_delay_secs :: u32

definition RELAY_AMP_PERCENT_MIN :: f32 where "RELAY_AMP_PERCENT_MIN = lit32 0.1"
definition RELAY_AMP_PERCENT_MAX :: f32 where "RELAY_AMP_PERCENT_MAX = lit32 50"
definition MRFT_DELAY_SECS_MAX :: u32 where "MRFT_DELAY_SECS_MAX = 3600"

datatype loop_config_error =
  RelayAmpOutOfRange f32
| CyclesCountMustBeAtLeastOne
| MrftDelayOutOfRange u32

definition with_process_type :: "loop_config \<Rightarrow> process_type \<Rightarrow> loop_config" where
  "with_process_type c p = c\<lparr>
     lc_process_type := p,
     lc_num_cycles_skip := default_cycles_skip p,
     lc_num_cycles_count := default_cycles_test p,
     lc_noise_protection_secs := default_noise_protection_secs p,
     lc_controller_type :=
       (if is_allowed_for (lc_controller_type c) p then lc_controller_type c else CT_Pi)\<rparr>"

definition loop_config_validate :: "loop_config \<Rightarrow> (loop_config_error, unit) result" where
  "loop_config_validate c = (let amp = lc_relay_amp_percent c in
    if \<not> is_finite amp \<or> \<not> (fl_le RELAY_AMP_PERCENT_MIN amp \<and> fl_le amp RELAY_AMP_PERCENT_MAX)
      then Err (RelayAmpOutOfRange amp)
    else if lc_num_cycles_count c < 1 then Err CyclesCountMustBeAtLeastOne
    else if MRFT_DELAY_SECS_MAX < lc_mrft_delay_secs c
      then Err (MrftDelayOutOfRange (lc_mrft_delay_secs c))
    else Ok ())"

section \<open>Coherence of the tables\<close>

lemma lit32_pos: "1 / 128 \<le> q \<Longrightarrow> q \<le> 2 \<Longrightarrow> is_finite (lit32 q) \<and> 0 < val (lit32 q)"
proof -
  assume q: "1 / 128 \<le> q" "q \<le> 2"
  have "representable B32 2" "representable B32 (1 / 128)"
    unfolding representable_def on_grid_def
    by (intro conjI exI [of _ "8388608"]; simp add: ulp_exp_def fl_simps)+
  note b = fl_round_between [OF this(2,1) q, of False]
  have "0 < val (fl_round B32 False q)" using b(2) by (rule less_le_trans [rotated]) simp
  then show ?thesis using b(1) by (simp add: lit32_def)
qed

lemma table_bounds:
  assumes "is_allowed_for c p"
  shows "1 / 128 \<le> C1 ! process_index p ! response_index l ! controller_index c"
    "C1 ! process_index p ! response_index l ! controller_index c \<le> 2"
    "c \<noteq> CT_P \<Longrightarrow> 1 / 128 \<le> C2 ! process_index p ! controller_index c"
    "C2 ! process_index p ! controller_index c \<le> 2"
    "c = CT_Pid \<Longrightarrow> 1 / 128 \<le> C3 ! process_index p ! controller_index c"
    "C3 ! process_index p ! controller_index c \<le> 2"
  using assms by (cases p; cases l; cases c; simp add: C1_def C2_def C3_def)+

lemma table_zero:
  "c = CT_P \<Longrightarrow> C2 ! process_index p ! controller_index c = 0"
  "c \<noteq> CT_Pid \<Longrightarrow> C3 ! process_index p ! controller_index c = 0"
  "\<not> is_allowed_for c p \<Longrightarrow> C1 ! process_index p ! response_index l ! controller_index c = 0"
  by (cases p; cases l; cases c; simp add: C1_def C2_def C3_def)+

text \<open>Changing the process type always lands on a calibrated combination.  The controller type is
  one the process allows, at least one cycle is counted, the gain constant is positive at every
  response level, and the integral and derivative constants are positive exactly for the controllers
  that have those terms.\<close>

theorem process_change_calibrated:
  fixes c p l
  defines "c' \<equiv> with_process_type c p"
  defines "k \<equiv> lookup p (lc_controller_type c') l"
  shows "lc_process_type c' = p \<and> is_allowed_for (lc_controller_type c') p
    \<and> lc_num_cycles_count c' \<ge> 1
    \<and> 0 < val (tc_c1 k)
    \<and> (0 < val (tc_c2 k)) = (lc_controller_type c' \<noteq> CT_P)
    \<and> (0 < val (tc_c3 k)) = (lc_controller_type c' = CT_Pid)
    \<and> (loop_config_validate c' = Ok ()) =
        (is_finite (lc_relay_amp_percent c) \<and> fl_le RELAY_AMP_PERCENT_MIN (lc_relay_amp_percent c)
         \<and> fl_le (lc_relay_amp_percent c) RELAY_AMP_PERCENT_MAX
         \<and> lc_mrft_delay_secs c \<le> MRFT_DELAY_SECS_MAX)"
proof -
  have a: "is_allowed_for (lc_controller_type c') p"
    by (cases p) (simp_all add: c'_def with_process_type_def)
  have n: "lc_num_cycles_count c' \<ge> 1"
    by (cases p) (simp_all add: c'_def with_process_type_def default_cycles_test_def DEFAULT_CYCLES_TEST_def
        word_le_nat_alt)
  note b = table_bounds [OF a]
  have "0 < val (tc_c1 k)" using lit32_pos [OF b(1,2)] by (simp add: k_def lookup_def)
  moreover have "(0 < val (tc_c2 k)) = (lc_controller_type c' \<noteq> CT_P)"
    using lit32_pos [OF b(3,4)] table_zero(1) [of "lc_controller_type c'" p]
    by (cases "lc_controller_type c' = CT_P") (simp_all add: k_def lookup_def lit32_def)
  moreover have "(0 < val (tc_c3 k)) = (lc_controller_type c' = CT_Pid)"
    using lit32_pos [OF b(5,6)] table_zero(2) [of "lc_controller_type c'" p]
    by (cases "lc_controller_type c' = CT_Pid") (simp_all add: k_def lookup_def lit32_def)
  moreover have "(loop_config_validate c' = Ok ()) =
        (is_finite (lc_relay_amp_percent c) \<and> fl_le RELAY_AMP_PERCENT_MIN (lc_relay_amp_percent c)
         \<and> fl_le (lc_relay_amp_percent c) RELAY_AMP_PERCENT_MAX
         \<and> lc_mrft_delay_secs c \<le> MRFT_DELAY_SECS_MAX)"
  proof -
    have "lc_relay_amp_percent c' = lc_relay_amp_percent c" "lc_mrft_delay_secs c' = lc_mrft_delay_secs c"
      by (simp_all add: c'_def with_process_type_def)
    moreover have "(lc_num_cycles_count c' < 1) = False" using n by (simp only: not_less [symmetric] not_True_eq_False)
    ultimately show ?thesis unfolding loop_config_validate_def Let_def by (auto simp: not_less)
  qed
  moreover have "lc_process_type c' = p" by (simp add: c'_def with_process_type_def)
  ultimately show ?thesis using a n by blast
qed

end
