(* ===== verification/Pid_Config.thy ===== *)
theory Pid_Config
  imports Core_Types
begin

text \<open>
  How a control system expresses PID terms, and the template's rounding of controller targets
  (\<open>bhtune-core/src/pid_config.rs\<close>).  \<open>f64::log10\<close> and \<open>f64::powi\<close> have a platform-dependent
  precision, and the decimal formatting of floats is a library routine: they are the fields of
  \<open>float_lib\<close>, an argument of the definitions that use them.
\<close>

datatype proportional_type = Gain | Band
datatype integral_type = ResetTime | ResetRate | ResetGain
datatype derivative_type = DerivativeTime | DerivativeGain
datatype time_unit = Seconds | Minutes

datatype pid_rounding_kind = DecimalPlaces | SignificantDigits

record pid_rounding =
  pr_kind :: pid_rounding_kind
  pr_digits :: nat  \<comment> \<open>\<open>u8\<close>\<close>

definition pid_rounding_default :: pid_rounding where
  "pid_rounding_default = \<lparr>pr_kind = SignificantDigits, pr_digits = 3\<rparr>"

record rounded_pid_value =
  rv_value :: f32
  rv_display :: string

datatype pid_rounding_error =
  InvalidDigits pid_rounding_kind nat
| NonFinite
| NonPositive
| RoundedToZero

record float_lib =
  log10_64 :: "f64 \<Rightarrow> f64"
  powi_64 :: "f64 \<Rightarrow> int \<Rightarrow> f64"
  fmt_fixed :: "nat \<Rightarrow> f64 \<Rightarrow> string"   \<comment> \<open>\<open>{x:.n}\<close>\<close>
  fmt_exp :: "nat \<Rightarrow> f64 \<Rightarrow> string"     \<comment> \<open>\<open>{x:.ne}\<close>\<close>
  fmt_f32 :: "f32 \<Rightarrow> string"            \<comment> \<open>\<open>f32::to_string\<close>\<close>

text \<open>\<open>f64::round\<close>: to the nearest integer, halfway cases away from zero; \<open>f64::floor as i32\<close>
  saturates and maps NaN to zero.\<close>

definition round_half_away :: "rat \<Rightarrow> int" where
  "round_half_away x = (if 0 \<le> x then \<lfloor>x + 1 / 2\<rfloor> else - \<lfloor>- x + 1 / 2\<rfloor>)"

fun f64_round :: "f64 \<Rightarrow> f64" where
  "f64_round (Fin r) = (if round_half_away r = 0 \<and> r < 0 then NZero
     else fl_round B64 False (of_int (round_half_away r)))"
| "f64_round a = a"

definition sat_i32 :: "int \<Rightarrow> i32" where
  "sat_i32 x = max (- 2147483648) (min 2147483647 x)"

fun floor_as_i32 :: "f64 \<Rightarrow> i32" where
  "floor_as_i32 (Fin r) = sat_i32 \<lfloor>r\<rfloor>"
| "floor_as_i32 NZero = 0"
| "floor_as_i32 NaN = 0"
| "floor_as_i32 PInf = 2147483647"
| "floor_as_i32 NInf = - 2147483648"

definition pid_rounding_validate :: "pid_rounding \<Rightarrow> (pid_rounding_error, unit) result" where
  "pid_rounding_validate p =
    (if 7 < pr_digits p \<or> (pr_kind p = SignificantDigits \<and> pr_digits p = 0)
     then Err (InvalidDigits (pr_kind p) (pr_digits p)) else Ok ())"

text \<open>The number of decimal places \<open>round_value\<close> rounds to.\<close>

definition rounding_places :: "float_lib \<Rightarrow> pid_rounding \<Rightarrow> f32 \<Rightarrow> i32" where
  "rounding_places L p v = (case pr_kind p of
     DecimalPlaces \<Rightarrow> int (pr_digits p)
   | SignificantDigits \<Rightarrow>
       if \<not> fl_eq v (Fin 0)
       then wrap_i32 (int (pr_digits p) - 1 - floor_as_i32 (log10_64 L (fl_abs v))) else 0)"

definition rounding_display :: "float_lib \<Rightarrow> pid_rounding \<Rightarrow> f64 \<Rightarrow> string" where
  "rounding_display L p rounded = (case pr_kind p of
     DecimalPlaces \<Rightarrow> fmt_fixed L (pr_digits p) rounded
   | SignificantDigits \<Rightarrow>
       if \<not> fl_eq rounded (Fin 0) then
         (let exponent = floor_as_i32 (log10_64 L (fl_abs rounded)) in
          if int (pr_digits p) \<le> exponent \<or> exponent < - 4
          then fmt_exp L (pr_digits p - 1) rounded
          else fmt_fixed L (nat (int (pr_digits p) - 1 - exponent)) rounded)
       else ''0'')"

definition round_value ::
  "float_lib \<Rightarrow> pid_rounding \<Rightarrow> f32 \<Rightarrow> (pid_rounding_error, rounded_pid_value) result" where
  "round_value L p value =
    bind_result (pid_rounding_validate p) (\<lambda>_.
      if \<not> is_finite value then Err NonFinite
      else
        (let scale = powi_64 L (Fin 10) (rounding_places L p value);
             r0 = fl_div B64 (f64_round (fl_mul B64 value scale)) scale;
             rounded = (if fl_eq r0 (Fin 0) then Fin 0 else r0);
             target = to_f32 rounded
         in if \<not> is_finite target then Err NonFinite
            else Ok \<lparr>rv_value = target, rv_display = rounding_display L p rounded\<rparr>))"

definition disabled_value :: "float_lib \<Rightarrow> pid_rounding \<Rightarrow> f32 \<Rightarrow> rounded_pid_value" where
  "disabled_value L p value = \<lparr>rv_value = value,
     rv_display = (case pr_kind p of
        DecimalPlaces \<Rightarrow> fmt_fixed L (pr_digits p) value
      | SignificantDigits \<Rightarrow> fmt_f32 L value)\<rparr>"

lemma round_value_Ok:
  assumes "round_value L p v = Ok r"
  shows "pid_rounding_validate p = Ok ()" "is_finite v" "is_finite (rv_value r)"
  using assms by (auto simp: round_value_def bind_result_Ok_iff Let_def split: if_splits)

end
