(* ===== verification/Template.thy ===== *)
theory Template
  imports Pid_Config
begin

text \<open>
  Control-system templates and the derivation of OPC tag names (\<open>bhtune-core/src/template.rs\<close>,
  \<open>tags.rs\<close>).  A Rust string is modelled by a list of characters, each the code point
  U+0000..U+00FF of that number: white space and control characters are those of Unicode in
  that block.
\<close>

section \<open>Characters and strings\<close>

definition char_is_whitespace :: "char \<Rightarrow> bool" where
  "char_is_whitespace c \<longleftrightarrow> (let n = of_char c :: nat in
     (9 \<le> n \<and> n \<le> 13) \<or> n = 32 \<or> n = 133 \<or> n = 160)"

definition char_is_control :: "char \<Rightarrow> bool" where
  "char_is_control c \<longleftrightarrow> (let n = of_char c :: nat in n < 32 \<or> (127 \<le> n \<and> n < 160))"

definition trim :: "string \<Rightarrow> string" where
  "trim s = rev (dropWhile char_is_whitespace (rev (dropWhile char_is_whitespace s)))"

abbreviation blank :: "string \<Rightarrow> bool" where "blank s \<equiv> trim s = []"

text \<open>The prefix of \<open>s\<close> up to and including the last \<open>c\<close>, when there is one (\<open>rfind\<close> and the
  slice the callers take).\<close>

fun upto_last :: "char \<Rightarrow> string \<Rightarrow> string option" where
  "upto_last c [] = None"
| "upto_last c (x # xs) = (case upto_last c xs of
     Some p \<Rightarrow> Some (x # p) | None \<Rightarrow> if x = c then Some [x] else None)"

lemma trim_nonempty: "trim s \<noteq> [] \<longleftrightarrow> dropWhile char_is_whitespace s \<noteq> []"
proof -
  let ?d = "dropWhile char_is_whitespace s"
  have "(\<forall>c\<in>set ?d. char_is_whitespace c) \<longleftrightarrow> ?d = []"
    by (metis dropWhile_eq_Nil_conv hd_dropWhile list.set_sel(1) list.simps(15) empty_iff empty_set)
  then show ?thesis by (simp add: trim_def del: dropWhile_eq_Nil_conv) simp
qed

lemma blank_iff: "blank s \<longleftrightarrow> (\<forall>c\<in>set s. char_is_whitespace c)"
  using trim_nonempty [of s] by (metis dropWhile_eq_Nil_conv)

lemma trim_edges:
  "trim s \<noteq> [] \<Longrightarrow> \<not> char_is_whitespace (hd (trim s)) \<and> \<not> char_is_whitespace (last (trim s))"
proof -
  let ?d = "dropWhile char_is_whitespace s"
  let ?e = "dropWhile char_is_whitespace (rev ?d)"
  assume "trim s \<noteq> []"
  then have e: "?e \<noteq> []" and d: "?d \<noteq> []" using trim_nonempty by (auto simp only: trim_def rev.simps)
  have "rev ?d = takeWhile char_is_whitespace (rev ?d) @ ?e" by simp
  then have "?d = rev ?e @ rev (takeWhile char_is_whitespace (rev ?d))" by (metis rev_append rev_rev_ident)
  then have "hd (rev ?e) = hd ?d" using e by (metis hd_append2 rev_is_Nil_conv)
  then show ?thesis using hd_dropWhile [OF d] hd_dropWhile [OF e] by (simp add: trim_def last_rev)
qed

lemma trim_id:
  assumes "s \<noteq> [] \<Longrightarrow> \<not> char_is_whitespace (hd s) \<and> \<not> char_is_whitespace (last s)"
  shows "trim s = s"
proof -
  have "dropWhile char_is_whitespace s = s" using assms unfolding dropWhile_eq_self_iff by blast
  moreover have "dropWhile char_is_whitespace (rev s) = rev s"
    using assms by (metis dropWhile_eq_self_iff hd_rev rev_is_Nil_conv)
  ultimately show ?thesis by (simp add: trim_def)
qed

lemma trim_trim [simp]: "trim (trim s) = trim s"
  by (intro trim_id trim_edges)

lemma upto_last_None: "upto_last c s = None \<longleftrightarrow> c \<notin> set s"
  by (induction s) (auto split: option.splits)

lemma upto_last_Some: "upto_last c s = Some p \<longleftrightarrow> (\<exists>a b. p = a @ [c] \<and> s = a @ c # b \<and> c \<notin> set b)"
proof (induction s arbitrary: p)
  case (Cons x xs)
  show ?case
  proof (cases "upto_last c xs")
    case None
    then have "c \<notin> set xs" by (simp add: upto_last_None)
    then show ?thesis using None by (auto simp: Cons_eq_append_conv)
  next
    case (Some q)
    with Cons.IH obtain a b where q: "q = a @ [c]" "xs = a @ c # b" "c \<notin> set b" by metis
    show ?thesis
    proof
      assume "upto_last c (x # xs) = Some p"
      then have "p = x # q" using Some by simp
      then show "\<exists>a b. p = a @ [c] \<and> x # xs = a @ c # b \<and> c \<notin> set b"
        using q by (intro exI [of _ "x # a"] exI [of _ b]) simp
    next
      assume "\<exists>a b. p = a @ [c] \<and> x # xs = a @ c # b \<and> c \<notin> set b"
      then obtain a' b' where p: "p = a' @ [c]" "x # xs = a' @ c # b'" "c \<notin> set b'" by blast
      have "c \<in> set xs" using q by simp
      then obtain a'' where a'': "a' = x # a''" "xs = a'' @ c # b'"
        using p by (cases a') auto
      have "upto_last c xs = Some (a'' @ [c])" using Cons.IH p(3) a''(2) by auto
      then show "upto_last c (x # xs) = Some p" using p a'' by simp
    qed
  qed
qed simp

section \<open>Templates\<close>

record dcs_template =
  t_name :: string
  t_revert_mode :: bool
  t_proportional_type :: proportional_type
  t_integral_type :: integral_type
  t_integral_unit :: time_unit
  t_derivative_type :: derivative_type
  t_derivative_unit :: time_unit
  t_pid_rounding :: pid_rounding
  t_process_variable_suffix :: string
  t_manipulated_variable_suffix :: string
  t_setpoint_variable_suffix :: string
  t_controller_direction_suffix :: string
  t_controller_mode_suffix :: string
  t_mode_attribute_suffix :: string
  t_upper_pv_range_suffix :: string
  t_lower_pv_range_suffix :: string
  t_upper_mv_range_suffix :: string
  t_lower_mv_range_suffix :: string
  t_proportional_constant_suffix :: string
  t_integral_constant_suffix :: string
  t_derivative_constant_suffix :: string
  t_mode_manual_value :: string
  t_mode_auto_value :: string
  t_mode_attribute_program_value :: "string option"
  t_controller_action_direct_value :: string
  t_versions :: "string list"
  t_description :: "string option"
  t_source :: "string option"

datatype template_error =
  Toml string
| EmptyName
| EmptyField string string
| MissingModeValue string string
| MissingModeAttributeProgramValue string
| InvalidPidRounding string pid_rounding_error

definition template_validate :: "dcs_template \<Rightarrow> (template_error, unit) result" where
  "template_validate t =
    (if trim (t_name t) = [] then Err EmptyName
     else if t_process_variable_suffix t = [] then
       Err (EmptyField (t_name t) ''process_variable_suffix'')
     else if t_manipulated_variable_suffix t = [] then
       Err (EmptyField (t_name t) ''manipulated_variable_suffix'')
     else if t_controller_mode_suffix t \<noteq> [] \<and> t_mode_manual_value t = [] then
       Err (MissingModeValue (t_name t) ''mode_manual_value'')
     else if t_controller_mode_suffix t \<noteq> [] \<and> t_mode_auto_value t = [] then
       Err (MissingModeValue (t_name t) ''mode_auto_value'')
     else if t_mode_attribute_suffix t \<noteq> [] \<and> t_mode_attribute_program_value t = None then
       Err (MissingModeAttributeProgramValue (t_name t))
     else map_err (InvalidPidRounding (t_name t)) (pid_rounding_validate (t_pid_rounding t)))"

text \<open>\<open>parse_catalog\<close>: the TOML reader is a library function, an argument.  The first invalid
  template is the error.\<close>

fun validate_all :: "dcs_template list \<Rightarrow> (template_error, unit) result" where
  "validate_all [] = Ok ()"
| "validate_all (t # ts) = bind_result (template_validate t) (\<lambda>_. validate_all ts)"

definition parse_catalog ::
  "(string \<Rightarrow> (string, dcs_template list) result) \<Rightarrow> string \<Rightarrow> (template_error, dcs_template list) result" where
  "parse_catalog toml_from_str input =
    bind_result (map_err Toml (toml_from_str input)) (\<lambda>ts.
      bind_result (validate_all ts) (\<lambda>_. Ok ts))"

section \<open>Tags of a loop\<close>

definition derive_tag :: "string \<Rightarrow> string \<Rightarrow> string option" where
  "derive_tag pv_tag suffix =
    (if trim suffix = [] then None
     else
      (let cut = (case upto_last CHR ''.'' pv_tag of
             Some p \<Rightarrow> Some p
           | None \<Rightarrow> (case upto_last CHR ''!'' pv_tag of
               Some p \<Rightarrow> Some p
             | None \<Rightarrow> upto_last CHR ''/'' pv_tag))
       in Some (case cut of Some p \<Rightarrow> p @ suffix | None \<Rightarrow> suffix)))"

datatype 'a tag_or_value = Tag string | Value 'a

record loop_tags =
  g_process_variable :: string
  g_manipulated_variable :: string
  g_setpoint_variable :: "string option"
  g_controller_mode :: "string option"
  g_mode_attribute :: "string option"
  g_upper_pv_range :: "f32 tag_or_value"
  g_lower_pv_range :: "f32 tag_or_value"
  g_upper_mv_range :: "f32 tag_or_value"
  g_lower_mv_range :: "f32 tag_or_value"
  g_controller_direction :: "controller_direction tag_or_value"
  g_proportional_constant :: "string option"
  g_integral_constant :: "string option"
  g_derivative_constant :: "string option"

definition unwrap_or_default :: "string option \<Rightarrow> string" where
  "unwrap_or_default x = (case x of Some s \<Rightarrow> s | None \<Rightarrow> [])"

definition derive_from_pv_tag :: "string \<Rightarrow> dcs_template \<Rightarrow> loop_tags" where
  "derive_from_pv_tag pv_tag t = \<lparr>
     g_process_variable = unwrap_or_default (derive_tag pv_tag (t_process_variable_suffix t)),
     g_manipulated_variable = unwrap_or_default (derive_tag pv_tag (t_manipulated_variable_suffix t)),
     g_setpoint_variable = derive_tag pv_tag (t_setpoint_variable_suffix t),
     g_controller_mode = derive_tag pv_tag (t_controller_mode_suffix t),
     g_mode_attribute = derive_tag pv_tag (t_mode_attribute_suffix t),
     g_upper_pv_range = Tag (unwrap_or_default (derive_tag pv_tag (t_upper_pv_range_suffix t))),
     g_lower_pv_range = Tag (unwrap_or_default (derive_tag pv_tag (t_lower_pv_range_suffix t))),
     g_upper_mv_range = Tag (unwrap_or_default (derive_tag pv_tag (t_upper_mv_range_suffix t))),
     g_lower_mv_range = Tag (unwrap_or_default (derive_tag pv_tag (t_lower_mv_range_suffix t))),
     g_controller_direction =
       Tag (unwrap_or_default (derive_tag pv_tag (t_controller_direction_suffix t))),
     g_proportional_constant = derive_tag pv_tag (t_proportional_constant_suffix t),
     g_integral_constant = derive_tag pv_tag (t_integral_constant_suffix t),
     g_derivative_constant = derive_tag pv_tag (t_derivative_constant_suffix t)\<rparr>"

end
