(* ===== verification/Tags.thy ===== *)
theory Tags
  imports Template
begin

text \<open>
  Per-tune tag overrides (\<open>TagOverrides\<close> of \<open>bhtune-core/src/tags.rs\<close>): emptiness, validation
  and application to a derived tag set.  A blank override is as good as none, and applying
  overrides twice is applying them once.
\<close>

record tag_overrides =
  o_process_variable :: "string option"
  o_manipulated_variable :: "string option"
  o_setpoint_variable :: "string option"
  o_controller_mode :: "string option"
  o_mode_attribute :: "string option"
  o_proportional_constant :: "string option"
  o_integral_constant :: "string option"
  o_derivative_constant :: "string option"
  o_controller_direction :: "string option"
  o_upper_pv_range :: "string option"
  o_lower_pv_range :: "string option"
  o_upper_mv_range :: "string option"
  o_lower_mv_range :: "string option"

datatype tag_overrides_error = ControlCharacter string

text \<open>The table both \<open>is_empty\<close> and \<open>validate\<close> walk.\<close>

definition override_fields :: "tag_overrides \<Rightarrow> (string \<times> string option) list" where
  "override_fields o' = [
     (''process_variable'', o_process_variable o'),
     (''manipulated_variable'', o_manipulated_variable o'),
     (''setpoint_variable'', o_setpoint_variable o'),
     (''controller_mode'', o_controller_mode o'),
     (''mode_attribute'', o_mode_attribute o'),
     (''proportional_constant'', o_proportional_constant o'),
     (''integral_constant'', o_integral_constant o'),
     (''derivative_constant'', o_derivative_constant o'),
     (''controller_direction'', o_controller_direction o'),
     (''upper_pv_range'', o_upper_pv_range o'),
     (''lower_pv_range'', o_lower_pv_range o'),
     (''upper_mv_range'', o_upper_mv_range o'),
     (''lower_mv_range'', o_lower_mv_range o')]"

definition overrides_is_empty :: "tag_overrides \<Rightarrow> bool" where
  "overrides_is_empty o' \<longleftrightarrow>
     list_all (\<lambda>(_, v). case v of None \<Rightarrow> True | Some s \<Rightarrow> trim s = []) (override_fields o')"

fun first_control :: "(string \<times> string option) list \<Rightarrow> string option" where
  "first_control [] = None"
| "first_control ((f, v) # fs) =
    (if (case v of None \<Rightarrow> False | Some s \<Rightarrow> list_ex char_is_control s) then Some f
     else first_control fs)"

definition overrides_validate :: "tag_overrides \<Rightarrow> (tag_overrides_error, unit) result" where
  "overrides_validate o' = (case first_control (override_fields o') of
     Some f \<Rightarrow> Err (ControlCharacter f) | None \<Rightarrow> Ok ())"

definition apply_string_override :: "string \<Rightarrow> string option \<Rightarrow> string" where
  "apply_string_override target v = (case v of
     Some s \<Rightarrow> if trim s \<noteq> [] then trim s else target | None \<Rightarrow> target)"

definition apply_optional_string_override :: "string option \<Rightarrow> string option \<Rightarrow> string option" where
  "apply_optional_string_override target v = (case v of
     Some s \<Rightarrow> if trim s \<noteq> [] then Some (trim s) else target | None \<Rightarrow> target)"

definition apply_tag_override :: "'a tag_or_value \<Rightarrow> string option \<Rightarrow> 'a tag_or_value" where
  "apply_tag_override target v = (case v of
     Some s \<Rightarrow> if trim s \<noteq> [] then Tag (trim s) else target | None \<Rightarrow> target)"

definition apply_to :: "tag_overrides \<Rightarrow> loop_tags \<Rightarrow> loop_tags" where
  "apply_to o' g = \<lparr>
     g_process_variable = apply_string_override (g_process_variable g) (o_process_variable o'),
     g_manipulated_variable =
       apply_string_override (g_manipulated_variable g) (o_manipulated_variable o'),
     g_setpoint_variable =
       apply_optional_string_override (g_setpoint_variable g) (o_setpoint_variable o'),
     g_controller_mode =
       apply_optional_string_override (g_controller_mode g) (o_controller_mode o'),
     g_mode_attribute =
       apply_optional_string_override (g_mode_attribute g) (o_mode_attribute o'),
     g_upper_pv_range = apply_tag_override (g_upper_pv_range g) (o_upper_pv_range o'),
     g_lower_pv_range = apply_tag_override (g_lower_pv_range g) (o_lower_pv_range o'),
     g_upper_mv_range = apply_tag_override (g_upper_mv_range g) (o_upper_mv_range o'),
     g_lower_mv_range = apply_tag_override (g_lower_mv_range g) (o_lower_mv_range o'),
     g_controller_direction =
       apply_tag_override (g_controller_direction g) (o_controller_direction o'),
     g_proportional_constant =
       apply_optional_string_override (g_proportional_constant g) (o_proportional_constant o'),
     g_integral_constant =
       apply_optional_string_override (g_integral_constant g) (o_integral_constant o'),
     g_derivative_constant =
       apply_optional_string_override (g_derivative_constant g) (o_derivative_constant o')\<rparr>"

lemmas override_defs = apply_string_override_def apply_optional_string_override_def
  apply_tag_override_def

lemma override_twice [simp]:
  "apply_string_override (apply_string_override s v) v = apply_string_override s v"
  "apply_optional_string_override (apply_optional_string_override q v) v
     = apply_optional_string_override q v"
  "apply_tag_override (apply_tag_override x v) v = apply_tag_override x v"
  by (simp_all add: override_defs split: option.splits)

lemma override_blank:
  assumes "case v of None \<Rightarrow> True | Some s \<Rightarrow> trim s = []"
  shows "apply_string_override s v = s" "apply_optional_string_override q v = q"
    "apply_tag_override x v = x"
  using assms by (simp_all add: override_defs split: option.splits)

lemma first_control_None:
  "first_control fs = None \<longleftrightarrow>
     (\<forall>(f, v)\<in>set fs. \<forall>s. v = Some s \<longrightarrow> (\<forall>c\<in>set s. \<not> char_is_control c))"
  by (induction fs rule: first_control.induct)
     (auto simp: list_ex_iff split: option.splits if_splits)

lemma first_control_Some:
  "first_control fs = Some f \<Longrightarrow> \<exists>v c. (f, Some v) \<in> set fs \<and> c \<in> set v \<and> char_is_control c"
  by (induction fs rule: first_control.induct)
     (auto simp: list_ex_iff split: option.splits if_splits)

text \<open>A derived tag keeps the PV tag's namespace: everything up to the separator.\<close>

lemma derive_tag_dot:
  "\<not> blank suffix \<Longrightarrow> CHR ''.'' \<notin> set b \<Longrightarrow> derive_tag (a @ CHR ''.'' # b) suffix = Some (a @ CHR ''.'' # suffix)"
proof -
  assume "\<not> blank suffix" "CHR ''.'' \<notin> set b"
  then have "upto_last CHR ''.'' (a @ CHR ''.'' # b) = Some (a @ [CHR ''.''])"
    by (subst upto_last_Some) auto
  with \<open>\<not> blank suffix\<close> show ?thesis by (simp add: derive_tag_def)
qed

lemma derive_tag_None: "derive_tag pv suffix = None \<longleftrightarrow> blank suffix"
  by (simp add: derive_tag_def)

text \<open>Overrides.  Applying a set of overrides twice is applying it once; overrides that are all
  missing or blank change nothing; and a non-blank override of the PV tag always wins, trimmed,
  over what the template derives.\<close>

theorem overrides_idempotent:
  "apply_to o' (apply_to o' g) = apply_to o' g
   \<and> (overrides_is_empty o' \<longrightarrow> apply_to o' g = g)
   \<and> (case o_process_variable o' of None \<Rightarrow> True
      | Some s \<Rightarrow> trim s = [] \<or> g_process_variable (apply_to o' g) = trim s)"
proof (intro conjI impI)
  show "apply_to o' (apply_to o' g) = apply_to o' g" by (simp add: apply_to_def)
  show "apply_to o' g = g" if "overrides_is_empty o'"
  proof -
    have "case v of None \<Rightarrow> True | Some s \<Rightarrow> trim s = []"
      if "v \<in> snd ` set (override_fields o')" for v
      using that \<open>overrides_is_empty o'\<close> by (force simp: overrides_is_empty_def list_all_iff)
    then show ?thesis
      by (intro loop_tags.equality) (simp_all add: apply_to_def override_fields_def override_blank)
  qed
  show "case o_process_variable o' of None \<Rightarrow> True
      | Some s \<Rightarrow> trim s = [] \<or> g_process_variable (apply_to o' g) = trim s"
    by (simp add: apply_to_def apply_string_override_def split: option.splits)
qed

definition yokogawa_template :: dcs_template where
  "yokogawa_template = \<lparr>t_name = ''Yokogawa'', t_revert_mode = True, t_proportional_type = Band,
     t_integral_type = ResetTime, t_integral_unit = Seconds, t_derivative_type = DerivativeTime,
     t_derivative_unit = Seconds, t_pid_rounding = \<lparr>pr_kind = DecimalPlaces, pr_digits = 1\<rparr>,
     t_process_variable_suffix = ''PV'', t_manipulated_variable_suffix = ''MV'',
     t_setpoint_variable_suffix = ''SV'', t_controller_direction_suffix = ''CACT'',
     t_controller_mode_suffix = ''MODE'', t_mode_attribute_suffix = [],
     t_upper_pv_range_suffix = ''SH'', t_lower_pv_range_suffix = ''SL'',
     t_upper_mv_range_suffix = ''MSH'', t_lower_mv_range_suffix = ''MSL'',
     t_proportional_constant_suffix = ''P'', t_integral_constant_suffix = ''I'',
     t_derivative_constant_suffix = ''D'', t_mode_manual_value = ''MAN'', t_mode_auto_value = ''AUT'',
     t_mode_attribute_program_value = None, t_controller_action_direct_value = ''0'',
     t_versions = [], t_description = None, t_source = None\<rparr>"

definition demo_overrides :: tag_overrides where
  "demo_overrides = \<lparr>o_process_variable = None, o_manipulated_variable = Some '' '',
     o_setpoint_variable = None, o_controller_mode = None, o_mode_attribute = None,
     o_proportional_constant = None, o_integral_constant = None, o_derivative_constant = None,
     o_controller_direction = None, o_upper_pv_range = None, o_lower_pv_range = None,
     o_upper_mv_range = None, o_lower_mv_range = None\<rparr>"

theorem overrides_idempotent_witness:
  "apply_to demo_overrides (derive_from_pv_tag ''FIC101.PV'' yokogawa_template)
     = derive_from_pv_tag ''FIC101.PV'' yokogawa_template"
proof -
  have "trim '' '' = []" by (simp add: blank_iff char_is_whitespace_def)
  then have "overrides_is_empty demo_overrides"
    by (simp add: overrides_is_empty_def override_fields_def demo_overrides_def)
  with overrides_idempotent [of demo_overrides] show ?thesis by blast
qed

text \<open>Tag derivation.  A blank suffix derives no tag.  Otherwise the derived tag is the suffix
  appended to the PV tag's namespace: the part up to the last dot if there is a dot, else up to the
  last exclamation mark, else up to the last slash, else nothing.\<close>

theorem derive_tag_spec:
  "derive_tag pv suffix =
    (if blank suffix then None
     else if CHR ''.'' \<in> set pv then
       Some (rev (dropWhile (\<lambda>c. c \<noteq> CHR ''.'') (rev pv)) @ suffix)
     else if CHR ''!'' \<in> set pv then
       Some (rev (dropWhile (\<lambda>c. c \<noteq> CHR ''!'') (rev pv)) @ suffix)
     else Some (rev (dropWhile (\<lambda>c. c \<noteq> CHR ''/'') (rev pv)) @ suffix))"
proof -
  have *: "upto_last c s = (if c \<in> set s then Some (rev (dropWhile (\<lambda>x. x \<noteq> c) (rev s))) else None)" for c s
  proof (cases "c \<in> set s")
    case True
    then obtain a b where ab: "s = a @ c # b" "c \<notin> set b" by (meson split_list_last)
    then have "upto_last c s = Some (a @ [c])" by (auto simp: upto_last_Some)
    moreover have "dropWhile (\<lambda>x. x \<noteq> c) (rev b @ c # rev a) = c # rev a"
      using ab(2) by (subst dropWhile_append2) auto
    ultimately show ?thesis using ab by simp
  qed (simp add: upto_last_None)
  have "CHR ''/'' \<notin> set pv \<Longrightarrow> dropWhile (\<lambda>c. c \<noteq> CHR ''/'') (rev pv) = []"
    by (auto simp: dropWhile_eq_Nil_conv)
  then show ?thesis by (simp add: derive_tag_def * Let_def)
qed

text \<open>A template whose PV suffix is white space only passes validation whenever the template it
  was made from does, yet no PV tag can be derived from it: the derived tag is the empty string.\<close>

theorem blank_suffix_accepted:
  assumes "template_validate t = Ok ()"
  shows "template_validate (t\<lparr>t_process_variable_suffix := '' ''\<rparr>) = Ok ()
    \<and> g_process_variable (derive_from_pv_tag pv (t\<lparr>t_process_variable_suffix := '' ''\<rparr>)) = []"
proof -
  have "trim '' '' = []" by (simp add: blank_iff char_is_whitespace_def)
  then show ?thesis
    using assms by (auto simp: template_validate_def derive_from_pv_tag_def derive_tag_def
      unwrap_or_default_def split: if_splits)
qed

theorem blank_suffix_accepted_witness:
  "template_validate (yokogawa_template\<lparr>t_process_variable_suffix := '' ''\<rparr>) = Ok ()"
proof -
  have "trim ''Yokogawa'' \<noteq> []" by (simp add: blank_iff char_is_whitespace_def)
  then have "template_validate yokogawa_template = Ok ()"
    by (simp add: template_validate_def yokogawa_template_def pid_rounding_validate_def)
  from blank_suffix_accepted [OF this] show ?thesis by blast
qed

end
