(* ===== verification/Db_Types.thy ===== *)
theory Db_Types
  imports Tags
begin

text \<open>
  The vocabulary of the database crate (\<open>bhtune-db/src\<close>): its error type, the enums stored as
  text columns with their encoding (\<open>convert.rs\<close>), the rows of \<open>models/live_ownership.rs\<close>,
  \<open>models/tune_runs.rs\<close> and \<open>models/tune_mv_actuations.rs\<close>, the state of the tables they share,
  and the SQL statements those models execute.

  A table is the list of its rows in insertion order.  A statement returns the changed database
  and the number of rows it changed, or \<open>None\<close> when SQLite rejects it because a constraint of the
  schema (\<open>migrations/0001_initial.sql\<close>) does not hold of a row it writes.  SQLite's \<open>json_valid\<close>
  is a parameter.  The columns holding a serialised structure hold the structure itself.
\<close>

section \<open>Errors\<close>

datatype db_error =
    Connect
  | Migrate
  | IncompatibleMigrationHistory string
  | Query
  | InvalidEnumValue string string
  | InvalidPidRounding pid_rounding_error
  | InvalidMvActuationFinalStatus
  | LiveResourceClaimed
  | LiveOwnershipLost
  | DatabasePathUnavailable
  | InvalidJsonShape string
  | TemplateInUse int
  | BackupDestinationExists string
  | InvalidBackup string
  | Io
  | DatabaseInUse string
  | Serialize string

section \<open>Enums stored as text\<close>

datatype tune_driver = Opcda | Simulator | Replay
datatype tune_outcome = OutRunning | OutCompleted | OutFailed | OutAborted
datatype restore_status = RestoreConfirmed | RestoreIncomplete
datatype tune_recovery_state =
  RecEligible | RecRunning | RecConfirmed | RecIncomplete | RecNotRecoverable
datatype live_operation_kind = KTune | KPidWrite | KPidRevert | KRecovery | KOpcWrite
datatype live_ownership_state = Active | Released | Orphaned | Recovered
datatype mutation_step_status = Intent | StepConfirmed | StepFailed | NotNeeded
datatype recovery_attempt_status =
  AttemptRunning | AttemptConfirmed | AttemptIncomplete | AttemptFailed
datatype mv_actuation_kind = ARelay | ARestore
datatype mv_actuation_status = Pending | Confirmed | Failed | Unverified | Superseded
datatype template_origin = OBuiltin | OCatalog | OUser
datatype sample_quality = SGood | SUncertain | SBad

text \<open>The text form is the constructor's name in snake case, as the \<open>serde\<close> attribute
  \<open>rename_all = "snake_case"\<close> on each enum produces it.\<close>

fun driver_text :: "tune_driver \<Rightarrow> string" where
  "driver_text Opcda = ''opcda''"
| "driver_text Simulator = ''simulator''"
| "driver_text Replay = ''replay''"

fun outcome_text :: "tune_outcome \<Rightarrow> string" where
  "outcome_text OutRunning = ''running''"
| "outcome_text OutCompleted = ''completed''"
| "outcome_text OutFailed = ''failed''"
| "outcome_text OutAborted = ''aborted''"

fun restore_text :: "restore_status \<Rightarrow> string" where
  "restore_text RestoreConfirmed = ''confirmed''"
| "restore_text RestoreIncomplete = ''incomplete''"

fun recovery_text :: "tune_recovery_state \<Rightarrow> string" where
  "recovery_text RecEligible = ''eligible''"
| "recovery_text RecRunning = ''running''"
| "recovery_text RecConfirmed = ''confirmed''"
| "recovery_text RecIncomplete = ''incomplete''"
| "recovery_text RecNotRecoverable = ''not_recoverable''"

fun kind_text :: "live_operation_kind \<Rightarrow> string" where
  "kind_text KTune = ''tune''"
| "kind_text KPidWrite = ''pid_write''"
| "kind_text KPidRevert = ''pid_revert''"
| "kind_text KRecovery = ''recovery''"
| "kind_text KOpcWrite = ''opc_write''"

fun state_text :: "live_ownership_state \<Rightarrow> string" where
  "state_text Active = ''active''"
| "state_text Released = ''released''"
| "state_text Orphaned = ''orphaned''"
| "state_text Recovered = ''recovered''"

fun step_text :: "mutation_step_status \<Rightarrow> string" where
  "step_text Intent = ''intent''"
| "step_text StepConfirmed = ''confirmed''"
| "step_text StepFailed = ''failed''"
| "step_text NotNeeded = ''not_needed''"

fun attempt_text :: "recovery_attempt_status \<Rightarrow> string" where
  "attempt_text AttemptRunning = ''running''"
| "attempt_text AttemptConfirmed = ''confirmed''"
| "attempt_text AttemptIncomplete = ''incomplete''"
| "attempt_text AttemptFailed = ''failed''"

fun actuation_kind_text :: "mv_actuation_kind \<Rightarrow> string" where
  "actuation_kind_text ARelay = ''relay''"
| "actuation_kind_text ARestore = ''restore''"

fun actuation_text :: "mv_actuation_status \<Rightarrow> string" where
  "actuation_text Pending = ''pending''"
| "actuation_text Confirmed = ''confirmed''"
| "actuation_text Failed = ''failed''"
| "actuation_text Unverified = ''unverified''"
| "actuation_text Superseded = ''superseded''"

fun origin_text :: "template_origin \<Rightarrow> string" where
  "origin_text OBuiltin = ''builtin''"
| "origin_text OCatalog = ''catalog''"
| "origin_text OUser = ''user''"

fun sample_quality_text :: "sample_quality \<Rightarrow> string" where
  "sample_quality_text SGood = ''good''"
| "sample_quality_text SUncertain = ''uncertain''"
| "sample_quality_text SBad = ''bad''"

text \<open>\<open>text_to_enum\<close>: the variant whose text is the column's value, or \<open>InvalidEnumValue\<close>.\<close>

definition text_to_enum ::
  "('e \<Rightarrow> string) \<Rightarrow> 'e list \<Rightarrow> string \<Rightarrow> string \<Rightarrow> (db_error, 'e) result" where
  "text_to_enum to_text variants column value =
     (case List.find (\<lambda>x. to_text x = value) variants of
        Some x \<Rightarrow> Ok x
      | None \<Rightarrow> Err (InvalidEnumValue column value))"

text \<open>The contract of such an encoding: it lists every variant, the texts are distinct, and they
  are exactly the values the column's \<open>CHECK\<close> constraint admits.\<close>

locale text_enum =
  fixes to_text :: "'e \<Rightarrow> string"
    and variants :: "'e list"
    and admitted :: "string list"
  assumes complete: "x \<in> set variants"
    and injective: "to_text x = to_text y \<Longrightarrow> x = y"
    and admits: "map to_text variants = admitted"
begin

lemma decode_encode: "text_to_enum to_text variants c (to_text x) = Ok x"
proof -
  have "\<exists>y. List.find (\<lambda>y. to_text y = to_text x) variants = Some y"
    using complete[of x] by (metis (mono_tags, lifting) find_None_iff option.exhaust)
  then obtain y where y: "List.find (\<lambda>y. to_text y = to_text x) variants = Some y" by blast
  then have "to_text y = to_text x" by (auto simp: find_Some_iff)
  then have "y = x" by (rule injective)
  then show ?thesis using y by (simp add: text_to_enum_def)
qed

lemma admitted_text: "to_text x \<in> set admitted"
  using complete[of x] by (simp flip: admits)

lemma decodes_iff: "is_ok (text_to_enum to_text variants c v) \<longleftrightarrow> v \<in> set admitted"
proof
  assume "is_ok (text_to_enum to_text variants c v)"
  then obtain x where "List.find (\<lambda>x. to_text x = v) variants = Some x"
    by (auto simp: text_to_enum_def split: option.splits)
  then have "to_text x = v" by (auto simp: find_Some_iff)
  then show "v \<in> set admitted" using admitted_text by blast
next
  assume "v \<in> set admitted"
  then obtain x where "v = to_text x" by (auto simp flip: admits)
  then show "is_ok (text_to_enum to_text variants c v)" by (simp add: decode_encode)
qed

end

definition driver_admitted :: "string list" where
  "driver_admitted = [''opcda'', ''simulator'', ''replay'']"
definition outcome_admitted :: "string list" where
  "outcome_admitted = [''running'', ''completed'', ''failed'', ''aborted'']"
definition restore_admitted :: "string list" where
  "restore_admitted = [''confirmed'', ''incomplete'']"
definition recovery_admitted :: "string list" where
  "recovery_admitted = [''eligible'', ''running'', ''confirmed'', ''incomplete'', ''not_recoverable'']"
definition kind_admitted :: "string list" where
  "kind_admitted = [''tune'', ''pid_write'', ''pid_revert'', ''recovery'', ''opc_write'']"
definition state_admitted :: "string list" where
  "state_admitted = [''active'', ''released'', ''orphaned'', ''recovered'']"
definition step_admitted :: "string list" where
  "step_admitted = [''intent'', ''confirmed'', ''failed'', ''not_needed'']"
definition attempt_admitted :: "string list" where
  "attempt_admitted = [''running'', ''confirmed'', ''incomplete'', ''failed'']"
definition actuation_admitted :: "string list" where
  "actuation_admitted = [''pending'', ''confirmed'', ''failed'', ''unverified'', ''superseded'']"

interpretation driver_enum: text_enum driver_text "[Opcda, Simulator, Replay]" driver_admitted
proof unfold_locales
  fix x :: tune_driver show "x \<in> set [Opcda, Simulator, Replay]" by (cases x) simp_all
next
  fix x y assume "driver_text x = driver_text y" then show "x = y" by (cases x; cases y) simp_all
qed (simp add: driver_admitted_def)

interpretation outcome_enum: text_enum outcome_text
  "[OutRunning, OutCompleted, OutFailed, OutAborted]" outcome_admitted
proof unfold_locales
  fix x show "x \<in> set [OutRunning, OutCompleted, OutFailed, OutAborted]" by (cases x) simp_all
next
  fix x y assume "outcome_text x = outcome_text y" then show "x = y" by (cases x; cases y) simp_all
qed (simp add: outcome_admitted_def)

interpretation restore_enum: text_enum restore_text "[RestoreConfirmed, RestoreIncomplete]"
  restore_admitted
proof unfold_locales
  fix x show "x \<in> set [RestoreConfirmed, RestoreIncomplete]" by (cases x) simp_all
next
  fix x y assume "restore_text x = restore_text y" then show "x = y" by (cases x; cases y) simp_all
qed (simp add: restore_admitted_def)

interpretation recovery_enum: text_enum recovery_text
  "[RecEligible, RecRunning, RecConfirmed, RecIncomplete, RecNotRecoverable]" recovery_admitted
proof unfold_locales
  fix x show "x \<in> set [RecEligible, RecRunning, RecConfirmed, RecIncomplete, RecNotRecoverable]"
    by (cases x) simp_all
next
  fix x y assume "recovery_text x = recovery_text y" then show "x = y" by (cases x; cases y) simp_all
qed (simp add: recovery_admitted_def)

interpretation kind_enum: text_enum kind_text
  "[KTune, KPidWrite, KPidRevert, KRecovery, KOpcWrite]" kind_admitted
proof unfold_locales
  fix x show "x \<in> set [KTune, KPidWrite, KPidRevert, KRecovery, KOpcWrite]" by (cases x) simp_all
next
  fix x y assume "kind_text x = kind_text y" then show "x = y" by (cases x; cases y) simp_all
qed (simp add: kind_admitted_def)

interpretation state_enum: text_enum state_text "[Active, Released, Orphaned, Recovered]"
  state_admitted
proof unfold_locales
  fix x show "x \<in> set [Active, Released, Orphaned, Recovered]" by (cases x) simp_all
next
  fix x y assume "state_text x = state_text y" then show "x = y" by (cases x; cases y) simp_all
qed (simp add: state_admitted_def)

interpretation step_enum: text_enum step_text "[Intent, StepConfirmed, StepFailed, NotNeeded]"
  step_admitted
proof unfold_locales
  fix x show "x \<in> set [Intent, StepConfirmed, StepFailed, NotNeeded]" by (cases x) simp_all
next
  fix x y assume "step_text x = step_text y" then show "x = y" by (cases x; cases y) simp_all
qed (simp add: step_admitted_def)

interpretation attempt_enum: text_enum attempt_text
  "[AttemptRunning, AttemptConfirmed, AttemptIncomplete, AttemptFailed]" attempt_admitted
proof unfold_locales
  fix x show "x \<in> set [AttemptRunning, AttemptConfirmed, AttemptIncomplete, AttemptFailed]"
    by (cases x) simp_all
next
  fix x y assume "attempt_text x = attempt_text y" then show "x = y" by (cases x; cases y) simp_all
qed (simp add: attempt_admitted_def)

interpretation actuation_enum: text_enum actuation_text
  "[Pending, Confirmed, Failed, Unverified, Superseded]" actuation_admitted
proof unfold_locales
  fix x show "x \<in> set [Pending, Confirmed, Failed, Unverified, Superseded]" by (cases x) simp_all
next
  fix x y assume "actuation_text x = actuation_text y" then show "x = y" by (cases x; cases y) simp_all
qed (simp add: actuation_admitted_def)

text \<open>Every enum column round-trips, and its decoder accepts exactly the texts the schema's
  \<open>CHECK\<close> constraint admits, so that a stored value always decodes and a foreign one is an error.\<close>

theorem text_columns_roundtrip:
  "text_to_enum driver_text [Opcda, Simulator, Replay] c (driver_text x0) = Ok x0 \<and>
   is_ok (text_to_enum driver_text [Opcda, Simulator, Replay] c v) = (v \<in> set driver_admitted) \<and>
   text_to_enum outcome_text [OutRunning, OutCompleted, OutFailed, OutAborted] c (outcome_text x1) = Ok x1 \<and>
   is_ok (text_to_enum outcome_text [OutRunning, OutCompleted, OutFailed, OutAborted] c v) = (v \<in> set outcome_admitted) \<and>
   text_to_enum restore_text [RestoreConfirmed, RestoreIncomplete] c (restore_text x2) = Ok x2 \<and>
   is_ok (text_to_enum restore_text [RestoreConfirmed, RestoreIncomplete] c v) = (v \<in> set restore_admitted) \<and>
   text_to_enum recovery_text [RecEligible, RecRunning, RecConfirmed, RecIncomplete, RecNotRecoverable] c (recovery_text x3) = Ok x3 \<and>
   is_ok (text_to_enum recovery_text [RecEligible, RecRunning, RecConfirmed, RecIncomplete, RecNotRecoverable] c v) = (v \<in> set recovery_admitted) \<and>
   text_to_enum kind_text [KTune, KPidWrite, KPidRevert, KRecovery, KOpcWrite] c (kind_text x4) = Ok x4 \<and>
   is_ok (text_to_enum kind_text [KTune, KPidWrite, KPidRevert, KRecovery, KOpcWrite] c v) = (v \<in> set kind_admitted) \<and>
   text_to_enum state_text [Active, Released, Orphaned, Recovered] c (state_text x5) = Ok x5 \<and>
   is_ok (text_to_enum state_text [Active, Released, Orphaned, Recovered] c v) = (v \<in> set state_admitted) \<and>
   text_to_enum step_text [Intent, StepConfirmed, StepFailed, NotNeeded] c (step_text x6) = Ok x6 \<and>
   is_ok (text_to_enum step_text [Intent, StepConfirmed, StepFailed, NotNeeded] c v) = (v \<in> set step_admitted) \<and>
   text_to_enum attempt_text [AttemptRunning, AttemptConfirmed, AttemptIncomplete, AttemptFailed] c (attempt_text x7) = Ok x7 \<and>
   is_ok (text_to_enum attempt_text [AttemptRunning, AttemptConfirmed, AttemptIncomplete, AttemptFailed] c v) = (v \<in> set attempt_admitted) \<and>
   text_to_enum actuation_text [Pending, Confirmed, Failed, Unverified, Superseded] c (actuation_text x8) = Ok x8 \<and>
   is_ok (text_to_enum actuation_text [Pending, Confirmed, Failed, Unverified, Superseded] c v) = (v \<in> set actuation_admitted)"
  by (intro conjI driver_enum.decode_encode driver_enum.decodes_iff outcome_enum.decode_encode outcome_enum.decodes_iff restore_enum.decode_encode restore_enum.decodes_iff recovery_enum.decode_encode recovery_enum.decodes_iff kind_enum.decode_encode kind_enum.decodes_iff state_enum.decode_encode state_enum.decodes_iff step_enum.decode_encode step_enum.decodes_iff attempt_enum.decode_encode attempt_enum.decodes_iff actuation_enum.decode_encode actuation_enum.decodes_iff)

section \<open>Rows\<close>

record live_ownership_row =
  lo_id :: int
  lo_run_id :: "int option"
  operation_kind :: live_operation_kind
  database_key :: string
  resource_key :: string
  owner_pid :: int
  acquired_at :: timestamp
  heartbeat_at :: timestamp
  released_at :: "timestamp option"
  lo_state :: live_ownership_state
  restore_intent_json :: "string option"
  orphan_eligible :: bool
  orphan_evidence_json :: "string option"

record new_live_ownership =
  nlo_run_id :: "int option"
  nlo_operation_kind :: live_operation_kind
  nlo_database_key :: string
  nlo_resource_key :: string
  nlo_owner_pid :: int
  nlo_acquired_at :: timestamp
  nlo_restore_intent_json :: "string option"

record claim_row =
  claim_key :: string
  cl_owner_id :: int
  claimed_at :: timestamp

record live_mutation_step_row =
  ms_id :: int
  ms_owner_id :: int
  ms_run_id :: "int option"
  step_name :: string
  target_json :: string
  previous_json :: "string option"
  ms_status :: mutation_step_status
  ms_started_at :: timestamp
  ms_completed_at :: "timestamp option"
  readback_json :: "string option"
  ms_detail :: "string option"

record new_live_mutation_step =
  nms_owner_id :: int
  nms_run_id :: "int option"
  nms_step :: string
  nms_target_json :: string
  nms_previous_json :: "string option"
  nms_started_at :: timestamp

record tune_recovery_attempt_row =
  at_id :: int
  at_run_id :: int
  source_owner_id :: int
  recovery_owner_id :: int
  export_path :: string
  at_started_at :: timestamp
  at_completed_at :: "timestamp option"
  at_status :: recovery_attempt_status
  at_detail :: "string option"
  at_evidence_json :: string

text \<open>Run rows (\<open>models/tune_runs.rs\<close>), with the timing structures they store.\<close>

datatype timing_basis = SimulatedFixedStep | LiveMonotonic
datatype sampling_adequacy = Adequate | Marginal | NotAssessed

record timing_summary =
  ts_count :: nat
  mean_ms :: "f64 option"
  max_ms :: "f64 option"

record poll_latency_metrics =
  pv_read :: timing_summary
  mv_write :: timing_summary
  mv_verification :: timing_summary
  sample_persist :: timing_summary
  tick_work :: timing_summary

record timing_metrics =
  basis :: timing_basis
  requested_interval_ms :: nat
  sample_gap_count :: nat
  mean_sample_gap_ms :: "f64 option"
  max_sample_gap_ms :: "f64 option"
  missed_poll_opportunity_count :: nat
  measured_oscillation_period_ms :: "f64 option"
  approximate_samples_per_period :: "f64 option"
  tm_sampling_adequacy :: sampling_adequacy
  poll_latency :: "poll_latency_metrics option"

record effective_tuning =
  et_mrft_delay_secs :: u32
  et_poll_interval_ms :: nat
  et_timeout_secs :: nat
  et_op_timeout_secs :: nat
  et_restore_timeout_secs :: nat

record run_initial_readings =
  ri_pv_ini :: f32
  ri_mv_ini :: f32
  ri_mv_range_low :: f32
  ri_mv_range_high :: f32
  ri_pv_range_high :: f32
  ri_pv_range_low :: f32
  ri_controller_direction :: controller_direction
  mode_raw :: "string option"
  mode_attribute_raw :: "string option"
  setpoint_ini :: "f32 option"

record tune_run_row =
  run_id :: int
  loop_id :: "int option"
  demo_session_id :: "int option"
  loop_name :: string
  driver :: tune_driver
  opc_server :: "string option"
  bridge_host :: "string option"
  started_at :: timestamp
  completed_at :: "timestamp option"
  outcome :: tune_outcome
  failure_reason :: "string option"
  run_config :: loop_config
  run_template_origin :: template_origin
  run_template :: dcs_template
  run_tags :: loop_tags
  request_json :: string
  run_notes :: "string option"
  run_initial_readings :: "run_initial_readings option"
  allow_uncertain_quality :: bool
  run_timing_metrics :: "timing_metrics option"
  run_effective_tuning :: "effective_tuning option"
  gateway_compatibility_json :: "string option"
  run_restore_status :: "restore_status option"
  restore_detail :: "string option"
  recovery_state :: "tune_recovery_state option"
  recovery_evidence_json :: "string option"
  created_at :: timestamp

text \<open>Accepted manipulated-variable commands (\<open>models/tune_mv_actuations.rs\<close>).\<close>

record tune_mv_actuation_row =
  mva_id :: int
  mva_run_id :: int
  mva_sequence :: int
  mva_kind :: mv_actuation_kind
  commanded_at :: timestamp
  target_mv :: f32
  previous_commanded_mv :: "f32 option"
  tolerance :: f32
  confirmation_due_at :: timestamp
  last_checked_at :: "timestamp option"
  readback_mv :: "f32 option"
  readback_quality :: "sample_quality option"
  attempt_count :: int
  mva_status :: mv_actuation_status
  mva_detail :: "string option"

record new_tune_mv_actuation =
  nmva_sequence :: int
  nmva_kind :: mv_actuation_kind
  nmva_commanded_at :: timestamp
  nmva_target_mv :: f32
  nmva_previous_commanded_mv :: "f32 option"
  nmva_tolerance :: f32
  nmva_confirmation_due_at :: timestamp

text \<open>Demo sessions (\<open>models/demo_sessions.rs\<close>) and the audit of PID write-backs
  (\<open>models/tune_writes.rs\<close>).\<close>

record demo_session_row =
  ds_id :: int
  token_hash :: string
  ds_created_at :: timestamp
  last_seen_at :: timestamp
  expires_at :: timestamp
  revoked_at :: "timestamp option"

datatype rollback_state = RollbackSucceeded | RollbackFailed
datatype write_kind = WWrite | WRevert

record write_readback =
  wr_proportional :: f32
  wr_integral :: f32
  wr_derivative :: f32

record new_tune_write =
  nw_response_level :: response_level
  nw_written_at :: timestamp
  nw_kind :: write_kind
  nw_allow_uncertain_quality :: bool
  nw_previous :: "write_readback option"
  proportional_written :: "f32 option"
  integral_written :: "f32 option"
  derivative_written :: "f32 option"
  proportional_readback :: "f32 option"
  integral_readback :: "f32 option"
  derivative_readback :: "f32 option"
  nw_success :: bool
  error_message :: "string option"
  nw_rollback_state :: "rollback_state option"
  rollback_error :: "string option"

text \<open>A stored write row is the inserted record with its id and run.\<close>

record tune_write_row = new_tune_write +
  tw_id :: int
  tw_run_id :: int

section \<open>The database\<close>

text \<open>The tables the models share, each \<open>AUTOINCREMENT\<close> table with the largest id it ever used;
  of the saved loops only the ids, which runs refer to.\<close>

record db =
  owners :: "live_ownership_row list"
  owners_seq :: int
  claims :: "claim_row list"
  steps :: "live_mutation_step_row list"
  steps_seq :: int
  attempts :: "tune_recovery_attempt_row list"
  attempts_seq :: int
  runs :: "tune_run_row list"
  runs_seq :: int
  actuations :: "tune_mv_actuation_row list"
  actuations_seq :: int
  demo_sessions :: "demo_session_row list"
  demo_sessions_seq :: int
  writes :: "tune_write_row list"
  writes_seq :: int
  loop_ids :: "int list"

definition empty_db :: db where
  "empty_db = \<lparr> owners = [], owners_seq = 0, claims = [], steps = [], steps_seq = 0,
     attempts = [], attempts_seq = 0, runs = [], runs_seq = 0, actuations = [],
     actuations_seq = 0, demo_sessions = [], demo_sessions_seq = 0, writes = [], writes_seq = 0,
     loop_ids = [] \<rparr>"

section \<open>Statements and transactions\<close>

text \<open>\<open>UPDATE t SET f WHERE P\<close> under the row constraint \<open>chk\<close>; \<open>DELETE\<close> and \<open>EXISTS\<close> likewise.\<close>

definition affected :: "('r \<Rightarrow> bool) \<Rightarrow> 'r list \<Rightarrow> nat" where
  "affected P t = length (filter P t)"

definition update_where :: "('r \<Rightarrow> bool) \<Rightarrow> ('r \<Rightarrow> 'r) \<Rightarrow> 'r list \<Rightarrow> 'r list" where
  "update_where P f t = map (\<lambda>r. if P r then f r else r) t"

definition sql_update ::
  "('r \<Rightarrow> bool) \<Rightarrow> ('r \<Rightarrow> bool) \<Rightarrow> ('r \<Rightarrow> 'r) \<Rightarrow> 'r list \<Rightarrow> ('r list \<times> nat) option" where
  "sql_update chk P f t =
     (if list_all (\<lambda>r. P r \<longrightarrow> chk (f r)) t then Some (update_where P f t, affected P t) else None)"

definition delete_where :: "('r \<Rightarrow> bool) \<Rightarrow> 'r list \<Rightarrow> 'r list" where
  "delete_where P t = filter (\<lambda>r. \<not> P r) t"

abbreviation exists_row :: "('r \<Rightarrow> bool) \<Rightarrow> 'r list \<Rightarrow> bool" where
  "exists_row P t \<equiv> list_ex P t"

text \<open>A transaction either commits a changed database with a value, or stops early: then the
  database stays as it was and the caller gets the answer it stopped with.\<close>

type_synonym ('a, 's) tx = "(db_error, 'a) result + 's"

definition run_tx :: "(db \<Rightarrow> (('a, db \<times> 'a) tx)) \<Rightarrow> db \<Rightarrow> db \<times> (db_error, 'a) result" where
  "run_tx body d = (case body d of Inl r \<Rightarrow> (d, r) | Inr (d', x) \<Rightarrow> (d', Ok x))"

text \<open>Run a statement that must change exactly one row; a rejected statement is a query error,
  any other count stops the transaction with the answer \<open>lost\<close>.\<close>

definition one_row ::
  "('r list \<times> nat) option \<Rightarrow> (db_error, 'a) result \<Rightarrow> ('a, 'r list) tx" where
  "one_row st lost =
     (case st of None \<Rightarrow> Inl (Err Query) | Some (t, n) \<Rightarrow> if n = 1 then Inr t else Inl lost)"

text \<open>The columns' and tables' constraints.\<close>

definition json_ok :: "(string \<Rightarrow> bool) \<Rightarrow> string option \<Rightarrow> bool" where
  "json_ok json_valid j = (case j of None \<Rightarrow> True | Some t \<Rightarrow> json_valid t)"

definition owner_check :: "(string \<Rightarrow> bool) \<Rightarrow> live_ownership_row \<Rightarrow> bool" where
  "owner_check json_valid o' \<longleftrightarrow>
     0 \<le> owner_pid o' \<and> json_ok json_valid (restore_intent_json o') \<and>
     json_ok json_valid (orphan_evidence_json o') \<and>
     (lo_state o' = Active \<longleftrightarrow> released_at o' = None) \<and>
     (lo_state o' = Orphaned \<or> \<not> orphan_eligible o')"

definition step_check :: "(string \<Rightarrow> bool) \<Rightarrow> live_mutation_step_row \<Rightarrow> bool" where
  "step_check json_valid s \<longleftrightarrow>
     step_name s \<noteq> [] \<and> json_valid (target_json s) \<and> json_ok json_valid (previous_json s) \<and>
     json_ok json_valid (readback_json s) \<and> (ms_status s = Intent \<longleftrightarrow> ms_completed_at s = None)"

definition attempt_check :: "(string \<Rightarrow> bool) \<Rightarrow> tune_recovery_attempt_row \<Rightarrow> bool" where
  "attempt_check json_valid a \<longleftrightarrow>
     json_valid (at_evidence_json a) \<and>
     (at_status a = AttemptRunning \<longleftrightarrow> at_completed_at a = None)"

definition run_check :: "(string \<Rightarrow> bool) \<Rightarrow> tune_run_row \<Rightarrow> bool" where
  "run_check json_valid r \<longleftrightarrow>
     json_valid (request_json r) \<and> json_ok json_valid (gateway_compatibility_json r) \<and>
     json_ok json_valid (recovery_evidence_json r) \<and> lc_relay_amp_percent (run_config r) \<noteq> NaN"

lemma set_update_where [simp]: "set (update_where P f t) = (\<lambda>r. if P r then f r else r) ` set t"
  by (simp add: update_where_def)

lemma set_delete_where [simp]: "set (delete_where P t) = {r \<in> set t. \<not> P r}"
  by (auto simp: delete_where_def)

lemma length_update_where [simp]: "length (update_where P f t) = length t"
  by (simp add: update_where_def)

lemma map_update_where_fixed:
  assumes "\<And>r. P r \<Longrightarrow> g (f r) = g r"
  shows "map g (update_where P f t) = map g t"
  using assms by (auto simp: update_where_def)

lemma affected_one_iff:
  "affected P t = 1 \<longleftrightarrow> (\<exists>xs r ys. t = xs @ r # ys \<and> P r \<and> (\<forall>x \<in> set xs \<union> set ys. \<not> P x))"
proof
  assume "affected P t = 1"
  then obtain r where f: "filter P t = [r]"
    by (auto simp: affected_def length_Suc_conv)
  then obtain xs ys where "t = xs @ r # ys" "\<forall>x \<in> set xs. \<not> P x" "P r" "[] = filter P ys"
    by (auto simp: filter_eq_Cons_iff)
  then show "\<exists>xs r ys. t = xs @ r # ys \<and> P r \<and> (\<forall>x \<in> set xs \<union> set ys. \<not> P x)"
    by (metis UnE filter_empty_conv)
next
  assume "\<exists>xs r ys. t = xs @ r # ys \<and> P r \<and> (\<forall>x \<in> set xs \<union> set ys. \<not> P x)"
  then show "affected P t = 1" by (auto simp: affected_def filter_empty_conv)
qed

lemma affected_distinct:
  assumes "distinct (map key t)" and "\<And>r. P r \<Longrightarrow> key r = k"
  shows "affected P t = (if \<exists>r \<in> set t. P r then 1 else 0)"
  using assms
proof (induction t)
  case (Cons a t)
  have IH: "affected P t = (if \<exists>r \<in> set t. P r then 1 else 0)" using Cons by auto
  show ?case
  proof (cases "P a")
    case True
    then have "\<not> (\<exists>r \<in> set t. P r)"
      using Cons.prems by (metis (mono_tags, lifting) distinct.simps(2) imageI list.set_map list.simps(9))
    then show ?thesis using True IH by (auto simp: affected_def)
  next
    case False
    then show ?thesis using IH by (auto simp: affected_def)
  qed
qed (simp add: affected_def)

lemma sql_update_SomeD:
  assumes "sql_update chk P f t = Some (t', n)"
  shows "t' = update_where P f t" and "n = affected P t" and "\<And>r. r \<in> set t \<Longrightarrow> P r \<Longrightarrow> chk (f r)"
  using assms by (auto simp: sql_update_def list_all_iff split: if_splits)

lemma one_row_InrD:
  assumes "one_row (sql_update chk P f t) lost = Inr t'"
  shows "t' = update_where P f t" and "affected P t = 1" and "\<And>r. r \<in> set t \<Longrightarrow> P r \<Longrightarrow> chk (f r)"
  using assms by (auto simp: one_row_def sql_update_def list_all_iff split: option.splits if_splits)

lemma one_row_Inl:
  "one_row st lost = Inl r \<Longrightarrow> r = Err Query \<or> r = lost"
  by (auto simp: one_row_def split: option.splits if_splits prod.splits)

section \<open>What a committed statement did\<close>

text \<open>Exactly the row \<open>r\<close> of \<open>t\<close> was replaced by \<open>r'\<close>.\<close>

definition replaced :: "'r \<Rightarrow> 'r \<Rightarrow> 'r list \<Rightarrow> 'r list \<Rightarrow> bool" where
  "replaced r r' t t' \<longleftrightarrow>
     (\<exists>xs ys. t = xs @ r # ys \<and> t' = xs @ r' # ys \<and> r \<notin> set xs \<and> r \<notin> set ys)"

lemma replaced_in: "replaced r r' t t' \<Longrightarrow> r \<in> set t"
  by (auto simp: replaced_def)

lemma replaced_set: "replaced r r' t t' \<Longrightarrow> set t' = insert r' (set t - {r})"
  by (auto simp: replaced_def)

lemma replaced_map: "replaced r r' t t' \<Longrightarrow> g r' = g r \<Longrightarrow> map g t' = map g t"
  by (auto simp: replaced_def)

lemma replaced_ex: "replaced r r' t t' \<Longrightarrow> Q r' = Q r \<Longrightarrow> (\<exists>x \<in> set t'. Q x) = (\<exists>x \<in> set t. Q x)"
  by (auto simp: replaced_def)

lemma one_row_replaced:
  assumes "one_row (sql_update chk P f t) lost = Inr t'"
  shows "\<exists>r. replaced r (f r) t t' \<and> P r \<and> chk (f r) \<and> (\<forall>x \<in> set t. P x \<longrightarrow> x = r)"
proof -
  have t': "t' = update_where P f t" and one: "affected P t = 1"
    and chk: "\<And>r. r \<in> set t \<Longrightarrow> P r \<Longrightarrow> chk (f r)"
    using one_row_InrD[OF assms] by blast+
  from one obtain xs r ys where t: "t = xs @ r # ys" and r: "P r"
    and no: "\<forall>x \<in> set xs \<union> set ys. \<not> P x"
    unfolding affected_one_iff by blast
  have "update_where P f xs = xs" "update_where P f ys = ys"
    using no by (auto simp: update_where_def map_idI)
  then have "t' = xs @ f r # ys" using t t' r by (simp add: update_where_def)
  then have "replaced r (f r) t t'" using t r no by (auto simp: replaced_def)
  then show ?thesis using r no chk t by auto
qed

lemma one_row_deleted:
  assumes "one_row (Some (delete_where P t, affected P t)) lost = Inr t'"
  shows "t' = delete_where P t" and "\<exists>r \<in> set t. P r"
proof -
  have one: "affected P t = 1" and "t' = delete_where P t"
    using assms by (auto simp: one_row_def split: if_splits)
  then show "t' = delete_where P t" by simp
  from one show "\<exists>r \<in> set t. P r" unfolding affected_one_iff by auto
qed

lemma run_tx_cases:
  assumes "run_tx body d = (d', x)"
  obtains (stop) "body d = Inl x" "d' = d" | (commit) y where "body d = Inr (d', y)" "x = Ok y"
  using assms by (auto simp: run_tx_def split: sum.splits)

lemma run_tx_preserves:
  assumes "Q d" and "\<And>d' y. body d = Inr (d', y) \<Longrightarrow> Q d'"
  shows "Q (fst (run_tx body d))"
  using assms by (auto simp: run_tx_def split: sum.splits)

lemma key_unique:
  "distinct (map key t) \<Longrightarrow> x \<in> set t \<Longrightarrow> y \<in> set t \<Longrightarrow> key x = key y \<Longrightarrow> x = y"
  by (meson distinct_map inj_onD)

lemma distinct_map_delete [simp]: "distinct (map g t) \<Longrightarrow> distinct (map g (delete_where P t))"
  by (simp add: delete_where_def distinct_map_filter)

end
