(* ===== verification/Db_Ownership.thy ===== *)
theory Db_Ownership
  imports Db_Types
begin

text \<open>
  Durable ownership of live controller resources, the audit of controller mutations and the
  recovery of interrupted runs (\<open>bhtune-db/src/models/live_ownership.rs\<close>): every operation of the
  three models as a function on the database state, its SQL statements in the order the code
  executes them, each transaction committing all of them or none.
\<close>

section \<open>Requests\<close>

record orphan_owner_update =
  oou_owner_id :: int
  oou_expected_heartbeat :: timestamp
  oou_expected_claim_key :: string
  oou_now :: timestamp
  oou_evidence_json :: string
  oou_eligible :: bool
  oou_detail :: string

record unrecoverable_owner_update =
  uou_owner_id :: int
  uou_expected_heartbeat :: timestamp
  uou_expected_claim_key :: string
  uou_now :: timestamp
  uou_evidence_json :: string
  uou_fail_running_run_id :: "int option"
  uou_detail :: string

record complete_recovery_update =
  cru_attempt_id :: int
  cru_recovery_owner_id :: int
  cru_source_owner_id :: int
  cru_run_id :: int
  cru_claim_key :: string
  cru_status :: recovery_attempt_status
  cru_now :: timestamp
  cru_detail :: "string option"
  cru_evidence_json :: string

record restart_recovery_update =
  rru_attempt_id :: int
  rru_recovery_owner_id :: int
  rru_expected_heartbeat :: timestamp
  rru_source_owner_id :: int
  rru_run_id :: int
  rru_claim_key :: string
  rru_now :: timestamp
  rru_detail :: string
  rru_evidence_json :: string

section \<open>Statements shared by the operations\<close>

definition run_reference_ok :: "int option \<Rightarrow> db \<Rightarrow> bool" where
  "run_reference_ok r d = (case r of None \<Rightarrow> True | Some i \<Rightarrow> exists_row (\<lambda>x. run_id x = i) (runs d))"

definition new_owner_row :: "new_live_ownership \<Rightarrow> db \<Rightarrow> live_ownership_row" where
  "new_owner_row new d =
     \<lparr> lo_id = owners_seq d + 1, lo_run_id = nlo_run_id new,
       operation_kind = nlo_operation_kind new, database_key = nlo_database_key new,
       resource_key = nlo_resource_key new, owner_pid = nlo_owner_pid new,
       acquired_at = nlo_acquired_at new, heartbeat_at = nlo_acquired_at new,
       released_at = None, lo_state = Active,
       restore_intent_json = nlo_restore_intent_json new,
       orphan_eligible = False, orphan_evidence_json = None \<rparr>"

definition insert_owner ::
  "(string \<Rightarrow> bool) \<Rightarrow> new_live_ownership \<Rightarrow> db \<Rightarrow> (db \<times> live_ownership_row) option" where
  "insert_owner jv new d =
     (let row = new_owner_row new d in
      if owner_check jv row \<and> run_reference_ok (nlo_run_id new) d
      then Some (d\<lparr>owners := owners d @ [row], owners_seq := lo_id row\<rparr>, row)
      else None)"

definition holds_claim :: "int \<Rightarrow> db \<Rightarrow> bool" where
  "holds_claim i d = exists_row (\<lambda>c. cl_owner_id c = i) (claims d)"

definition holds_key :: "int \<Rightarrow> string \<Rightarrow> db \<Rightarrow> bool" where
  "holds_key i key d = exists_row (\<lambda>c. cl_owner_id c = i \<and> claim_key c = key) (claims d)"

definition insert_claim :: "string \<Rightarrow> int \<Rightarrow> timestamp \<Rightarrow> db \<Rightarrow> claim_row list option" where
  "insert_claim key i now d =
     (if exists_row (\<lambda>c. claim_key c = key \<or> cl_owner_id c = i) (claims d) then None
      else Some (claims d @ [\<lparr> claim_key = key, cl_owner_id = i, claimed_at = now \<rparr>]))"

definition insert_claim_or_nothing ::
  "string \<Rightarrow> int \<Rightarrow> timestamp \<Rightarrow> db \<Rightarrow> (claim_row list \<times> nat) option" where
  "insert_claim_or_nothing key i now d =
     (if exists_row (\<lambda>c. claim_key c = key) (claims d) then Some (claims d, 0)
      else map_option (\<lambda>t. (t, 1)) (insert_claim key i now d))"

text \<open>An eligible orphan: the source a recovery may start from.\<close>

definition eligible_source :: "int \<Rightarrow> int \<Rightarrow> live_ownership_row \<Rightarrow> bool" where
  "eligible_source i rid o' \<longleftrightarrow>
     lo_id o' = i \<and> lo_run_id o' = Some rid \<and> lo_state o' = Orphaned \<and> orphan_eligible o'"

definition order_by :: "('r \<Rightarrow> int) \<Rightarrow> ('r \<Rightarrow> int) \<Rightarrow> 'r list \<Rightarrow> 'r list" where
  "order_by k1 k2 t = sort_key k1 (sort_key k2 t)"

section \<open>Owners\<close>

definition create_and_claim ::
  "(string \<Rightarrow> bool) \<Rightarrow> new_live_ownership \<Rightarrow> string \<Rightarrow> db
   \<Rightarrow> db \<times> (db_error, live_ownership_row option) result" where
  "create_and_claim jv new key = run_tx (\<lambda>d.
     case insert_owner jv new d of
       None \<Rightarrow> Inl (Err Query)
     | Some (d1, row) \<Rightarrow>
         bind_result (one_row (insert_claim_or_nothing key (lo_id row) (nlo_acquired_at new) d1)
                        (Ok None)) (\<lambda>cs.
         Inr (d1\<lparr>claims := cs\<rparr>, Some row)))"

definition heartbeat ::
  "(string \<Rightarrow> bool) \<Rightarrow> int \<Rightarrow> timestamp \<Rightarrow> db \<Rightarrow> db \<times> (db_error, unit) result" where
  "heartbeat jv i now = run_tx (\<lambda>d.
     bind_result (one_row (sql_update (owner_check jv)
         (\<lambda>r. lo_id r = i \<and> lo_state r = Active \<and> holds_claim i d)
         (\<lambda>r. r\<lparr>heartbeat_at := now\<rparr>) (owners d)) (Err LiveOwnershipLost)) (\<lambda>t.
     Inr (d\<lparr>owners := t\<rparr>, ())))"

definition release ::
  "(string \<Rightarrow> bool) \<Rightarrow> int \<Rightarrow> timestamp \<Rightarrow> db \<Rightarrow> db \<times> (db_error, unit) result" where
  "release jv i now = run_tx (\<lambda>d.
     bind_result (one_row (sql_update (owner_check jv)
         (\<lambda>r. lo_id r = i \<and> lo_state r = Active \<and> holds_claim i d)
         (\<lambda>r. r\<lparr>lo_state := Released, released_at := Some now\<rparr>) (owners d))
         (Err LiveOwnershipLost)) (\<lambda>t.
     bind_result (one_row (Some (delete_where (\<lambda>c. cl_owner_id c = i) (claims d),
         affected (\<lambda>c. cl_owner_id c = i) (claims d))) (Err LiveOwnershipLost)) (\<lambda>cs.
     Inr (d\<lparr>owners := t, claims := cs\<rparr>, ()))))"

definition owner_get :: "int \<Rightarrow> db \<Rightarrow> live_ownership_row option" where
  "owner_get i d = List.find (\<lambda>r. lo_id r = i) (owners d)"

definition has_claim :: "int \<Rightarrow> string \<Rightarrow> db \<Rightarrow> bool" where
  "has_claim i key d = exists_row (\<lambda>c. cl_owner_id c = i \<and> claim_key c = key) (claims d)"

definition owners_for_run :: "int \<Rightarrow> db \<Rightarrow> live_ownership_row list" where
  "owners_for_run rid d = order_by acquired_at lo_id (filter (\<lambda>r. lo_run_id r = Some rid) (owners d))"

definition stale_active_owners :: "timestamp \<Rightarrow> db \<Rightarrow> live_ownership_row list" where
  "stale_active_owners stale_before d =
     order_by heartbeat_at lo_id
       (filter (\<lambda>r. lo_state r = Active \<and> heartbeat_at r < stale_before \<and> holds_claim (lo_id r) d)
         (owners d))"

definition set_restore_intent ::
  "(string \<Rightarrow> bool) \<Rightarrow> int \<Rightarrow> string \<Rightarrow> db \<Rightarrow> db \<times> (db_error, unit) result" where
  "set_restore_intent jv i intent = run_tx (\<lambda>d.
     bind_result (one_row (sql_update (owner_check jv)
         (\<lambda>r. lo_id r = i \<and> lo_state r = Active \<and> holds_claim i d)
         (\<lambda>r. r\<lparr>restore_intent_json := Some intent\<rparr>) (owners d)) (Err LiveOwnershipLost)) (\<lambda>t.
     Inr (d\<lparr>owners := t\<rparr>, ())))"

definition mark_orphaned ::
  "(string \<Rightarrow> bool) \<Rightarrow> orphan_owner_update \<Rightarrow> db \<Rightarrow> db \<times> (db_error, bool) result" where
  "mark_orphaned jv u = run_tx (\<lambda>d.
     bind_result (one_row (sql_update (owner_check jv)
         (\<lambda>o'. lo_id o' = oou_owner_id u \<and> lo_state o' = Active \<and>
            heartbeat_at o' = oou_expected_heartbeat u \<and> operation_kind o' = KTune \<and>
            exists_row (\<lambda>r. lo_run_id o' = Some (run_id r) \<and> driver r = Opcda \<and>
                          outcome r = OutRunning) (runs d) \<and>
            holds_key (lo_id o') (oou_expected_claim_key u) d)
         (\<lambda>o'. o'\<lparr>lo_state := Orphaned, released_at := Some (oou_now u),
                 orphan_eligible := oou_eligible u,
                 orphan_evidence_json := Some (oou_evidence_json u)\<rparr>) (owners d)) (Ok False)) (\<lambda>t.
     bind_result (one_row (sql_update (run_check jv)
         (\<lambda>r. exists_row (\<lambda>o'. lo_id o' = oou_owner_id u \<and> lo_run_id o' = Some (run_id r)) t \<and>
            outcome r = OutRunning)
         (\<lambda>r. r\<lparr>outcome := OutFailed, completed_at := Some (oou_now u),
                failure_reason := Some (oou_detail u), run_restore_status := Some RestoreIncomplete,
                restore_detail := Some (oou_detail u),
                recovery_state := Some (if oou_eligible u then RecEligible else RecNotRecoverable),
                recovery_evidence_json := Some (oou_evidence_json u)\<rparr>) (runs d)) (Ok False)) (\<lambda>rs.
     Inr (d\<lparr>owners := t, runs := rs,
            claims := if oou_eligible u then claims d
                      else delete_where (\<lambda>c. cl_owner_id c = oou_owner_id u) (claims d)\<rparr>,
          True))))"

definition mark_orphaned_unrecoverable ::
  "(string \<Rightarrow> bool) \<Rightarrow> unrecoverable_owner_update \<Rightarrow> db \<Rightarrow> db \<times> (db_error, bool) result" where
  "mark_orphaned_unrecoverable jv u = run_tx (\<lambda>d.
     bind_result (one_row (sql_update (owner_check jv)
         (\<lambda>o'. lo_id o' = uou_owner_id u \<and> lo_state o' = Active \<and>
            heartbeat_at o' = uou_expected_heartbeat u \<and>
            holds_key (lo_id o') (uou_expected_claim_key u) d)
         (\<lambda>o'. o'\<lparr>lo_state := Orphaned, released_at := Some (uou_now u),
                 orphan_eligible := False,
                 orphan_evidence_json := Some (uou_evidence_json u)\<rparr>) (owners d)) (Ok False)) (\<lambda>t.
     bind_result
       (case uou_fail_running_run_id u of
          None \<Rightarrow> Inr (runs d)
        | Some rid \<Rightarrow>
            one_row (sql_update (run_check jv)
              (\<lambda>r. run_id r = rid \<and> outcome r = OutRunning \<and>
                 exists_row (\<lambda>o'. lo_id o' = uou_owner_id u \<and> lo_run_id o' = Some rid \<and>
                               lo_state o' = Orphaned) t)
              (\<lambda>r. r\<lparr>outcome := OutFailed, completed_at := Some (uou_now u),
                     failure_reason := Some (uou_detail u),
                     run_restore_status := Some RestoreIncomplete,
                     restore_detail := Some (uou_detail u),
                     recovery_state := Some RecNotRecoverable,
                     recovery_evidence_json := Some (uou_evidence_json u)\<rparr>) (runs d)) (Ok False)) (\<lambda>rs.
     bind_result (one_row (Some
         (delete_where (\<lambda>c. cl_owner_id c = uou_owner_id u \<and>
                            claim_key c = uou_expected_claim_key u) (claims d),
          affected (\<lambda>c. cl_owner_id c = uou_owner_id u \<and>
                            claim_key c = uou_expected_claim_key u) (claims d))) (Ok False)) (\<lambda>cs.
     Inr (d\<lparr>owners := t, runs := rs, claims := cs\<rparr>, True)))))"

section \<open>Mutation steps\<close>

definition insert_step ::
  "(string \<Rightarrow> bool) \<Rightarrow> live_mutation_step_row \<Rightarrow> db
   \<Rightarrow> (live_mutation_step_row, db \<times> live_mutation_step_row) tx" where
  "insert_step jv row d =
     (if \<not> (exists_row (\<lambda>o'. lo_id o' = ms_owner_id row \<and> lo_run_id o' = ms_run_id row \<and>
                          lo_state o' = Active) (owners d) \<and> holds_claim (ms_owner_id row) d)
      then Inl (Err LiveOwnershipLost)
      else if step_check jv row \<and> run_reference_ok (ms_run_id row) d
      then Inr (d\<lparr>steps := steps d @ [row], steps_seq := ms_id row\<rparr>, row)
      else Inl (Err Query))"

definition step_begin ::
  "(string \<Rightarrow> bool) \<Rightarrow> new_live_mutation_step \<Rightarrow> db
   \<Rightarrow> db \<times> (db_error, live_mutation_step_row) result" where
  "step_begin jv new = run_tx (\<lambda>d.
     insert_step jv \<lparr> ms_id = steps_seq d + 1, ms_owner_id = nms_owner_id new,
       ms_run_id = nms_run_id new, step_name = nms_step new, target_json = nms_target_json new,
       previous_json = nms_previous_json new, ms_status = Intent,
       ms_started_at = nms_started_at new, ms_completed_at = None, readback_json = None,
       ms_detail = None \<rparr> d)"

definition step_finish ::
  "(string \<Rightarrow> bool) \<Rightarrow> int \<Rightarrow> mutation_step_status \<Rightarrow> timestamp \<Rightarrow> string option \<Rightarrow> string option
   \<Rightarrow> db \<Rightarrow> db \<times> (db_error, live_mutation_step_row) result" where
  "step_finish jv sid status now readback detail = run_tx (\<lambda>d.
     if status = Intent then Inl (Err LiveOwnershipLost)
     else
       let P = (\<lambda>s. ms_id s = sid \<and> ms_status s = Intent);
           f = (\<lambda>s. s\<lparr>ms_status := status, ms_completed_at := Some now,
                      readback_json := readback, ms_detail := detail\<rparr>)
       in bind_result (one_row (sql_update (step_check jv) P f (steps d)) (Err Query)) (\<lambda>t.
          Inr (d\<lparr>steps := t\<rparr>, f (hd (filter P (steps d))))))"

definition step_not_needed ::
  "(string \<Rightarrow> bool) \<Rightarrow> int \<Rightarrow> int \<Rightarrow> string \<Rightarrow> timestamp \<Rightarrow> string \<Rightarrow> db
   \<Rightarrow> db \<times> (db_error, live_mutation_step_row) result" where
  "step_not_needed jv i rid step now detail = run_tx (\<lambda>d.
     insert_step jv \<lparr> ms_id = steps_seq d + 1, ms_owner_id = i, ms_run_id = Some rid,
       step_name = step, target_json = ''{}'', previous_json = None, ms_status = NotNeeded,
       ms_started_at = now, ms_completed_at = Some now, readback_json = None,
       ms_detail = Some detail \<rparr> d)"

definition steps_for_owner :: "int \<Rightarrow> db \<Rightarrow> live_mutation_step_row list" where
  "steps_for_owner i d = order_by ms_started_at ms_id (filter (\<lambda>s. ms_owner_id s = i) (steps d))"

definition steps_for_run :: "int \<Rightarrow> db \<Rightarrow> live_mutation_step_row list" where
  "steps_for_run rid d =
     order_by ms_started_at ms_id (filter (\<lambda>s. ms_run_id s = Some rid) (steps d))"

section \<open>Recovery attempts\<close>

definition start_with_claim ::
  "(string \<Rightarrow> bool) \<Rightarrow> new_live_ownership \<Rightarrow> string \<Rightarrow> int \<Rightarrow> int \<Rightarrow> string \<Rightarrow> string \<Rightarrow> db
   \<Rightarrow> db \<times> (db_error, (live_ownership_row \<times> tune_recovery_attempt_row) option) result" where
  "start_with_claim jv new key source rid export evidence = run_tx (\<lambda>d.
     case insert_owner jv new d of
       None \<Rightarrow> Inl (Err Query)
     | Some (d1, rec_owner) \<Rightarrow>
         bind_result (one_row (sql_update (\<lambda>_. True)
             (\<lambda>c. claim_key c = key \<and> cl_owner_id c = source \<and>
                exists_row (\<lambda>o'. eligible_source source rid o' \<and> operation_kind o' = KTune \<and>
                   database_key o' = nlo_database_key new \<and>
                   resource_key o' = nlo_resource_key new) (owners d1))
             (\<lambda>c. c\<lparr>cl_owner_id := lo_id rec_owner, claimed_at := nlo_acquired_at new\<rparr>)
             (claims d1)) (Ok None)) (\<lambda>cs.
         let attempt = \<lparr> at_id = attempts_seq d1 + 1, at_run_id = rid, source_owner_id = source,
               recovery_owner_id = lo_id rec_owner, export_path = export,
               at_started_at = nlo_acquired_at new, at_completed_at = None,
               at_status = AttemptRunning, at_detail = None, at_evidence_json = evidence \<rparr>
         in
         if \<not> (exists_row (\<lambda>o'. eligible_source source rid o' \<and> operation_kind o' = KTune) (owners d1) \<and>
               exists_row (\<lambda>o'. lo_id o' = lo_id rec_owner \<and> lo_run_id o' = Some rid \<and>
                             operation_kind o' = KRecovery \<and> lo_state o' = Active) (owners d1) \<and>
               exists_row (\<lambda>c. cl_owner_id c = lo_id rec_owner \<and> claim_key c = key) cs)
         then Inl (Err LiveOwnershipLost)
         else if \<not> (attempt_check jv attempt \<and>
               \<not> exists_row (\<lambda>a. recovery_owner_id a = lo_id rec_owner) (attempts d1))
         then Inl (Err Query)
         else
         bind_result (one_row (sql_update (run_check jv)
             (\<lambda>r. run_id r = rid \<and> outcome r = OutFailed \<and>
                (recovery_state r = Some RecEligible \<or> recovery_state r = Some RecIncomplete) \<and>
                exists_row (eligible_source source rid) (owners d1))
             (\<lambda>r. r\<lparr>recovery_state := Some RecRunning, recovery_evidence_json := Some evidence\<rparr>)
             (runs d1)) (Err LiveOwnershipLost)) (\<lambda>rs.
         Inr (d1\<lparr>claims := cs, attempts := attempts d1 @ [attempt], attempts_seq := at_id attempt,
                 runs := rs\<rparr>,
              Some (rec_owner, attempt)))))"

definition attempts_for_run :: "int \<Rightarrow> db \<Rightarrow> tune_recovery_attempt_row list" where
  "attempts_for_run rid d =
     order_by at_started_at at_id (filter (\<lambda>a. at_run_id a = rid) (attempts d))"

text \<open>What each terminal attempt status writes: the run's restore status, its recovery state, and
  the source owner's state and eligibility.\<close>

fun completion_of ::
  "recovery_attempt_status
   \<Rightarrow> (restore_status option \<times> tune_recovery_state \<times> live_ownership_state \<times> bool) option" where
  "completion_of AttemptConfirmed = Some (Some RestoreConfirmed, RecConfirmed, Recovered, False)"
| "completion_of AttemptIncomplete = Some (Some RestoreIncomplete, RecIncomplete, Orphaned, True)"
| "completion_of AttemptFailed = Some (None, RecEligible, Orphaned, True)"
| "completion_of AttemptRunning = None"

definition completed_run ::
  "complete_recovery_update \<Rightarrow> restore_status option \<Rightarrow> tune_recovery_state \<Rightarrow> tune_run_row
   \<Rightarrow> tune_run_row" where
  "completed_run u rest rec r =
     r\<lparr>run_restore_status := (case rest of None \<Rightarrow> run_restore_status r | Some s \<Rightarrow> Some s),
       restore_detail := (if rest = None then restore_detail r else cru_detail u),
       recovery_state := Some rec,
       recovery_evidence_json := Some (cru_evidence_json u)\<rparr>"

definition complete_with_ownership ::
  "(string \<Rightarrow> bool) \<Rightarrow> complete_recovery_update \<Rightarrow> db \<Rightarrow> db \<times> (db_error, unit) result" where
  "complete_with_ownership jv u = run_tx (\<lambda>d.
     case completion_of (cru_status u) of
       None \<Rightarrow> Inl (Err LiveOwnershipLost)
     | Some (rest, rec, ostate, eligible) \<Rightarrow>
         bind_result (one_row (sql_update (attempt_check jv)
             (\<lambda>a. at_id a = cru_attempt_id u \<and> at_run_id a = cru_run_id u \<and>
                recovery_owner_id a = cru_recovery_owner_id u \<and> at_status a = AttemptRunning)
             (\<lambda>a. a\<lparr>at_status := cru_status u, at_completed_at := Some (cru_now u),
                    at_detail := cru_detail u, at_evidence_json := cru_evidence_json u\<rparr>)
             (attempts d)) (Err LiveOwnershipLost)) (\<lambda>ats.
         bind_result (one_row (sql_update (run_check jv)
             (\<lambda>r. run_id r = cru_run_id u \<and> outcome r = OutFailed \<and>
                exists_row (eligible_source (cru_source_owner_id u) (cru_run_id u)) (owners d))
             (completed_run u rest rec) (runs d)) (Err LiveOwnershipLost)) (\<lambda>rs.
         bind_result (one_row (sql_update (owner_check jv)
             (\<lambda>o'. lo_id o' = cru_recovery_owner_id u \<and> lo_state o' = Active)
             (\<lambda>o'. o'\<lparr>lo_state := Released, released_at := Some (cru_now u)\<rparr>)
             (owners d)) (Err LiveOwnershipLost)) (\<lambda>t1.
         bind_result (one_row (sql_update (owner_check jv)
             (eligible_source (cru_source_owner_id u) (cru_run_id u))
             (\<lambda>o'. o'\<lparr>lo_state := ostate, released_at := Some (cru_now u),
                     orphan_eligible := eligible\<rparr>)
             t1) (Err LiveOwnershipLost)) (\<lambda>t2.
         let P = (\<lambda>c. claim_key c = cru_claim_key u \<and> cl_owner_id c = cru_recovery_owner_id u) in
         bind_result (one_row (Some (delete_where P (claims d), affected P (claims d)))
             (Err LiveOwnershipLost)) (\<lambda>cs.
         let d' = d\<lparr>attempts := ats, runs := rs, owners := t2, claims := cs\<rparr> in
         if cru_status u \<noteq> AttemptConfirmed
         then (case insert_claim (cru_claim_key u) (cru_source_owner_id u) (cru_now u) d' of
                 None \<Rightarrow> Inl (Err Query)
               | Some cs' \<Rightarrow> Inr (d'\<lparr>claims := cs'\<rparr>, ()))
         else Inr (d', ())))))))"

definition abandon_after_restart ::
  "(string \<Rightarrow> bool) \<Rightarrow> restart_recovery_update \<Rightarrow> db \<Rightarrow> db \<times> (db_error, bool) result" where
  "abandon_after_restart jv u = run_tx (\<lambda>d.
     bind_result (one_row (sql_update (attempt_check jv)
         (\<lambda>a. at_id a = rru_attempt_id u \<and> at_run_id a = rru_run_id u \<and>
            recovery_owner_id a = rru_recovery_owner_id u \<and> at_status a = AttemptRunning)
         (\<lambda>a. a\<lparr>at_status := AttemptIncomplete, at_completed_at := Some (rru_now u),
                at_detail := Some (rru_detail u), at_evidence_json := rru_evidence_json u\<rparr>)
         (attempts d)) (Ok False)) (\<lambda>ats.
     bind_result (one_row (sql_update (run_check jv)
         (\<lambda>r. run_id r = rru_run_id u \<and> outcome r = OutFailed \<and>
            recovery_state r = Some RecRunning \<and>
            exists_row (\<lambda>o'. eligible_source (rru_source_owner_id u) (rru_run_id u) o' \<and>
                          operation_kind o' = KTune) (owners d) \<and>
            exists_row (\<lambda>o'. lo_id o' = rru_recovery_owner_id u \<and>
                          lo_run_id o' = Some (rru_run_id u) \<and> operation_kind o' = KRecovery \<and>
                          lo_state o' = Active) (owners d))
         (\<lambda>r. r\<lparr>run_restore_status := Some RestoreIncomplete,
                restore_detail := Some (rru_detail u), recovery_state := Some RecIncomplete,
                recovery_evidence_json := Some (rru_evidence_json u)\<rparr>)
         (runs d)) (Ok False)) (\<lambda>rs.
     bind_result (one_row (sql_update (owner_check jv)
         (\<lambda>o'. lo_id o' = rru_recovery_owner_id u \<and> lo_run_id o' = Some (rru_run_id u) \<and>
            operation_kind o' = KRecovery \<and> lo_state o' = Active \<and>
            heartbeat_at o' = rru_expected_heartbeat u \<and>
            holds_key (lo_id o') (rru_claim_key u) d)
         (\<lambda>o'. o'\<lparr>lo_state := Released, released_at := Some (rru_now u)\<rparr>)
         (owners d)) (Ok False)) (\<lambda>t.
     let claim_taken = (\<lambda>c. claim_key c = rru_claim_key u \<and> cl_owner_id c = rru_recovery_owner_id u \<and>
           exists_row (\<lambda>o'. eligible_source (rru_source_owner_id u) (rru_run_id u) o' \<and>
                         operation_kind o' = KTune) t) in
     if exists_row claim_taken (claims d) \<and>
        exists_row (\<lambda>c. cl_owner_id c = rru_source_owner_id u \<and> \<not> claim_taken c) (claims d)
     then Inl (Err Query)
     else
     bind_result (one_row (sql_update (\<lambda>_. True) claim_taken
         (\<lambda>c. c\<lparr>cl_owner_id := rru_source_owner_id u, claimed_at := rru_now u\<rparr>)
         (claims d)) (Ok False)) (\<lambda>cs.
     Inr (d\<lparr>attempts := ats, runs := rs, owners := t, claims := cs\<rparr>, True))))))"

end
