(* ===== verification/Db_Invariant.thy ===== *)
theory Db_Invariant
  imports Db_Ownership
begin

text \<open>
  Well-formed databases, and the proof that every operation of \<open>models/live_ownership.rs\<close> keeps a
  well-formed database well-formed: for each operation what it did when it committed, that it left
  the database alone otherwise, and that the invariant survives.
\<close>

lemma one_row_deletedD:
  "one_row (Some (delete_where P t, affected P t)) lost = Inr t' \<Longrightarrow>
     t' = delete_where P t \<and> exists_row P t"
  using one_row_deleted by (fastforce simp: list_ex_iff)

section \<open>Well-formed databases\<close>

definition keyed :: "('r \<Rightarrow> 'k) \<Rightarrow> ('r \<Rightarrow> bool) \<Rightarrow> 'r list \<Rightarrow> 'k set" where
  "keyed key Q t = key ` {r \<in> set t. Q r}"

lemma keyed_iff: "k \<in> keyed key Q t \<longleftrightarrow> (\<exists>r \<in> set t. key r = k \<and> Q r)"
  by (auto simp: keyed_def)

lemma keyed_append [simp]: "keyed key Q (t @ u) = keyed key Q t \<union> keyed key Q u"
  by (auto simp: keyed_def)

lemma keyed_Nil [simp]: "keyed key Q [] = {}"
  and keyed_Cons [simp]: "keyed key Q (r # t) = (if Q r then insert (key r) (keyed key Q t) else keyed key Q t)"
  by (auto simp: keyed_def)

lemma keyed_replaced:
  assumes "replaced r r' t t'" and "distinct (map key t)" and "key r' = key r"
  shows "keyed key Q t' = keyed key Q t - {key r} \<union> (if Q r' then {key r} else {})"
proof -
  obtain xs ys where t: "t = xs @ r # ys" and t': "t' = xs @ r' # ys"
    using assms(1) by (auto simp: replaced_def)
  have "key r \<notin> keyed key Q xs" "key r \<notin> keyed key Q ys"
    using assms(2) by (auto simp: t keyed_def)
  then show ?thesis using assms(3) by (auto simp: t t')
qed

lemma distinct_map_pair: "distinct (map f t) \<Longrightarrow> distinct (map (\<lambda>x. (f x, g x)) t)"
  by (auto simp: distinct_map inj_on_def)

lemma keyed_replaced_same:
  assumes "replaced r r' t t'" and "key r' = key r" and "Q r' = Q r"
  shows "keyed key Q t' = keyed key Q t"
  using assms by (auto simp: replaced_def)

lemma keyed_mono: "(\<And>r. r \<in> set t \<Longrightarrow> Q r \<Longrightarrow> Q' r) \<Longrightarrow> keyed key Q t \<subseteq> keyed key Q' t"
  by (auto simp: keyed_def)

definition is_active :: "live_ownership_row \<Rightarrow> bool" where
  "is_active o' \<longleftrightarrow> lo_state o' = Active"

definition is_eligible :: "live_ownership_row \<Rightarrow> bool" where
  "is_eligible o' \<longleftrightarrow> lo_state o' = Orphaned \<and> orphan_eligible o'"

definition is_unresolved :: "tune_run_row \<Rightarrow> bool" where
  "is_unresolved r \<longleftrightarrow> outcome r \<noteq> OutRunning \<and>
     recovery_state r \<in> {Some RecEligible, Some RecRunning, Some RecIncomplete}"

definition is_running_attempt :: "tune_recovery_attempt_row \<Rightarrow> bool" where
  "is_running_attempt a \<longleftrightarrow> at_status a = AttemptRunning"

abbreviation active_ids :: "db \<Rightarrow> int set" where
  "active_ids d \<equiv> keyed lo_id is_active (owners d)"
abbreviation owner_and_run :: "live_ownership_row \<Rightarrow> int \<times> int option" where
  "owner_and_run o' \<equiv> (lo_id o', lo_run_id o')"
abbreviation attempt_and_run :: "tune_recovery_attempt_row \<Rightarrow> int \<times> int" where
  "attempt_and_run a \<equiv> (at_id a, at_run_id a)"
abbreviation eligibles :: "db \<Rightarrow> (int \<times> int option) set" where
  "eligibles d \<equiv> keyed owner_and_run is_eligible (owners d)"
abbreviation running_attempts :: "db \<Rightarrow> (int \<times> int) set" where
  "running_attempts d \<equiv> keyed attempt_and_run is_running_attempt (attempts d)"
abbreviation claimed_ids :: "db \<Rightarrow> int set" where
  "claimed_ids d \<equiv> cl_owner_id ` set (claims d)"
abbreviation unresolved_runs :: "db \<Rightarrow> int set" where
  "unresolved_runs d \<equiv> keyed run_id is_unresolved (runs d)"
abbreviation recovering_runs :: "db \<Rightarrow> int set" where
  "recovering_runs d \<equiv> keyed run_id (\<lambda>r. recovery_state r = Some RecRunning) (runs d)"

definition keys_ok :: "db \<Rightarrow> bool" where
  "keys_ok d \<longleftrightarrow>
     distinct (map lo_id (owners d)) \<and> (\<forall>o' \<in> set (owners d). lo_id o' \<le> owners_seq d) \<and>
     distinct (map run_id (runs d)) \<and> (\<forall>r \<in> set (runs d). run_id r \<le> runs_seq d) \<and>
     distinct (map at_id (attempts d)) \<and> (\<forall>a \<in> set (attempts d). at_id a \<le> attempts_seq d) \<and>
     distinct (map ms_id (steps d)) \<and> (\<forall>s \<in> set (steps d). ms_id s \<le> steps_seq d)"

text \<open>The ownership discipline: claim keys and claim holders are unique, every active owner holds
  a claim, and every claim is held by an active owner or by an orphan a recovery may resume.\<close>

definition claims_ok :: "db \<Rightarrow> bool" where
  "claims_ok d \<longleftrightarrow>
     distinct (map claim_key (claims d)) \<and> distinct (map cl_owner_id (claims d)) \<and>
     active_ids d \<subseteq> claimed_ids d \<and> claimed_ids d \<subseteq> active_ids d \<union> fst ` eligibles d"

text \<open>The recovery discipline: an eligible orphan belongs to an ended run whose recovery is
  unresolved, and no run has two; a running attempt belongs to a recovering run, one per run, and
  while it runs the orphan it resumes holds no claim.\<close>

definition recovery_ok :: "db \<Rightarrow> bool" where
  "recovery_ok d \<longleftrightarrow>
     snd ` eligibles d \<subseteq> Some ` unresolved_runs d \<and> inj_on snd (eligibles d) \<and>
     snd ` running_attempts d \<subseteq> recovering_runs d \<and> inj_on snd (running_attempts d) \<and>
     recovering_runs d \<subseteq> unresolved_runs d \<and>
     (\<forall>e \<in> eligibles d. \<forall>a \<in> running_attempts d. snd e = Some (snd a) \<longrightarrow> fst e \<notin> claimed_ids d)"

text \<open>The rows satisfy the state part of the schema's constraints.\<close>

definition rows_ok :: "db \<Rightarrow> bool" where
  "rows_ok d \<longleftrightarrow>
     (\<forall>o' \<in> set (owners d). (lo_state o' = Active \<longleftrightarrow> released_at o' = None) \<and>
        (orphan_eligible o' \<longrightarrow> lo_state o' = Orphaned)) \<and>
     (\<forall>s \<in> set (steps d). ms_status s = Intent \<longleftrightarrow> ms_completed_at s = None) \<and>
     (\<forall>a \<in> set (attempts d). at_status a = AttemptRunning \<longleftrightarrow> at_completed_at a = None)"

definition db_ok :: "db \<Rightarrow> bool" where
  "db_ok d \<longleftrightarrow> keys_ok d \<and> claims_ok d \<and> recovery_ok d \<and> rows_ok d"

lemma create_commit:
  assumes "create_and_claim jv new key d = (d', Ok (Some row))"
  shows "d' = d\<lparr>owners := owners d @ [row], owners_seq := lo_id row,
             claims := claims d @ [\<lparr>claim_key = key, cl_owner_id = lo_id row,
                                    claimed_at = nlo_acquired_at new\<rparr>]\<rparr>"
    and "row = new_owner_row new d" and "owner_check jv row"
    and "run_reference_ok (nlo_run_id new) d"
    and "\<forall>c \<in> set (claims d). claim_key c \<noteq> key \<and> cl_owner_id c \<noteq> lo_id row"
  using assms unfolding create_and_claim_def
  by (auto elim!: run_tx_cases split: option.splits if_splits prod.splits
      simp: bind_result_Ok_iff bind_result_Err_iff insert_owner_def insert_claim_or_nothing_def
        insert_claim_def one_row_def Let_def list_ex_iff) blast+

lemma create_ok:
  assumes "db_ok d" shows "db_ok (fst (create_and_claim jv new key d))"
proof (cases "create_and_claim jv new key d")
  case (Pair d' x)
  show ?thesis
  proof (cases "\<exists>row. x = Ok (Some row)")
    case True
    then obtain row where "create_and_claim jv new key d = (d', Ok (Some row))" using Pair by blast
    note c = create_commit[OF this]
    have fresh: "lo_id row \<notin> lo_id ` set (owners d)"
      using assms by (force simp: c(2) new_owner_row_def db_ok_def keys_ok_def)
    have a: "lo_state row = Active" "released_at row = None" "\<not> orphan_eligible row" "lo_id row = owners_seq d + 1"
      by (auto simp: c(2) new_owner_row_def)
    have "keys_ok d'" using assms fresh a by (force simp: db_ok_def keys_ok_def c(1))
    moreover have "claims_ok d'"
      using assms c(5) a fresh by (auto simp: db_ok_def claims_ok_def c(1) is_active_def is_eligible_def)
    moreover have "\<And>x. (lo_id row, x) \<notin> eligibles d"
      using fresh by (auto simp: keyed_iff) (metis imageI)
    then have "recovery_ok d'"
      using assms a by (auto simp: db_ok_def recovery_ok_def c(1) is_eligible_def)
    moreover have "rows_ok d'" using assms a by (auto simp: db_ok_def rows_ok_def c(1))
    ultimately show ?thesis by (simp add: Pair db_ok_def)
  next
    case False
    then have "d' = d" using Pair unfolding create_and_claim_def
      by (auto elim!: run_tx_cases split: option.splits prod.splits simp: bind_result_Ok_iff)
    then show ?thesis using assms Pair by simp
  qed
qed

lemma owner_id_bound: "db_ok d \<Longrightarrow> o' \<in> set (owners d) \<Longrightarrow> lo_id o' \<le> owners_seq d"
  by (simp add: db_ok_def keys_ok_def)

lemma fresh_not_eligible: "db_ok d \<Longrightarrow> (owners_seq d + 1, e) \<notin> eligibles d"
  by (auto simp: keyed_iff dest!: owner_id_bound)

lemma map_bound:
  fixes f :: "'a \<Rightarrow> int"
  assumes "map f t' = map f t" and "\<forall>x \<in> set t. f x \<le> n" shows "\<forall>x \<in> set t'. f x \<le> n"
proof
  fix x assume "x \<in> set t'"
  then have "f x \<in> set (map f t)" by (metis assms(1) imageI list.set_map)
  then show "f x \<le> n" using assms(2) by auto
qed

lemma runs_bound:
  assumes "db_ok d" and "map run_id rs = map run_id (runs d)" and "q \<in> set rs"
  shows "run_id q \<le> runs_seq d"
proof -
  have "run_id q \<in> set (map run_id (runs d))" using assms(2,3) by (metis imageI list.set_map)
  then show ?thesis using assms(1) by (auto simp: db_ok_def keys_ok_def)
qed

lemma touch_ok:
  assumes ok: "db_ok d" and rep: "replaced r r' (owners d) t"
    and same: "lo_id r' = lo_id r" "lo_run_id r' = lo_run_id r" "lo_state r' = lo_state r"
      "orphan_eligible r' = orphan_eligible r" "released_at r' = released_at r"
  shows "db_ok (d\<lparr>owners := t\<rparr>)"
proof -
  have r: "r \<in> set (owners d)" by (rule replaced_in[OF rep])
  have ids: "map lo_id t = map lo_id (owners d)" by (rule replaced_map[OF rep same(1)])
  have st: "set t = insert r' (set (owners d) - {r})" by (rule replaced_set[OF rep])
  have K: "keyed lo_id is_active t = active_ids d" "keyed owner_and_run is_eligible t = eligibles d"
    using same by (auto intro!: keyed_replaced_same[OF rep] simp: is_active_def is_eligible_def)
  have "keys_ok (d\<lparr>owners := t\<rparr>)" using ok same r by (auto simp: db_ok_def keys_ok_def ids st)
  moreover have "claims_ok (d\<lparr>owners := t\<rparr>)" using ok by (simp add: db_ok_def claims_ok_def K)
  moreover have "recovery_ok (d\<lparr>owners := t\<rparr>)" using ok by (simp add: db_ok_def recovery_ok_def K)
  moreover have "rows_ok (d\<lparr>owners := t\<rparr>)" using ok same r by (auto simp: db_ok_def rows_ok_def st)
  ultimately show ?thesis by (simp add: db_ok_def)
qed

lemma heartbeat_ok: "db_ok d \<Longrightarrow> db_ok (fst (heartbeat jv i now d))"
  unfolding heartbeat_def
  by (rule run_tx_preserves)
     (auto simp: bind_result_Ok_iff dest!: one_row_replaced elim!: touch_ok)

lemma set_restore_intent_ok: "db_ok d \<Longrightarrow> db_ok (fst (set_restore_intent jv i intent d))"
  unfolding set_restore_intent_def
  by (rule run_tx_preserves)
     (auto simp: bind_result_Ok_iff dest!: one_row_replaced elim!: touch_ok)

text \<open>How ending an active owner moves the sets the invariant speaks of.\<close>

lemma owner_ends:
  assumes ok: "db_ok d" and rep: "replaced r r' (owners d) t"
    and same: "lo_id r' = lo_id r" "lo_run_id r' = lo_run_id r"
    and act: "lo_state r = Active" "lo_state r' \<noteq> Active"
  shows "keyed lo_id is_active t = active_ids d - {lo_id r}"
    and "keyed owner_and_run is_eligible t =
         eligibles d \<union> (if is_eligible r' then {owner_and_run r} else {})"
    and "map lo_id t = map lo_id (owners d)"
    and "lo_id r \<notin> fst ` eligibles d"
proof -
  have dis: "distinct (map lo_id (owners d))" using ok by (simp add: db_ok_def keys_ok_def)
  have r: "r \<in> set (owners d)" by (rule replaced_in[OF rep])
  show ids: "map lo_id t = map lo_id (owners d)" by (rule replaced_map[OF rep same(1)])
  show ne: "lo_id r \<notin> fst ` eligibles d"
  proof
    assume "lo_id r \<in> fst ` eligibles d"
    then obtain x where x: "x \<in> set (owners d)" "lo_id x = lo_id r" "is_eligible x"
      by (auto simp: keyed_iff)
    then have "x = r" using key_unique[OF dis _ r] by blast
    then show False using x(3) act by (simp add: is_eligible_def)
  qed
  show "keyed lo_id is_active t = active_ids d - {lo_id r}"
    using keyed_replaced[OF rep dis same(1)] act by (simp add: is_active_def)
  show "keyed owner_and_run is_eligible t =
      eligibles d \<union> (if is_eligible r' then {owner_and_run r} else {})"
    using keyed_replaced[OF rep distinct_map_pair[OF dis, of lo_run_id], of is_eligible] ne same
    by force
qed

lemma drop_ok:
  assumes ok: "db_ok d" and rep: "replaced r r' (owners d) t"
    and same: "lo_id r' = lo_id r" "lo_run_id r' = lo_run_id r" and act: "lo_state r = Active" "lo_state r' \<noteq> Active"
    and fin: "\<not> orphan_eligible r'" "released_at r' \<noteq> None"
    and C: "\<And>c. c \<in> set (claims d) \<Longrightarrow> C c \<longleftrightarrow> cl_owner_id c = lo_id r"
    and rs: "map run_id rs = map run_id (runs d)" "keyed run_id is_unresolved rs = unresolved_runs d"
      "keyed run_id (\<lambda>r. recovery_state r = Some RecRunning) rs = recovering_runs d"
    and d': "d' = d\<lparr>owners := t, runs := rs, claims := delete_where C (claims d)\<rparr>"
  shows "db_ok d'"
proof -
  let ?d = "d\<lparr>owners := t, runs := rs, claims := delete_where C (claims d)\<rparr>"
  have ne: "\<not> is_eligible r'" using fin by (simp add: is_eligible_def)
  note m = owner_ends[OF ok rep same act] and st = replaced_set[OF rep]
  have r: "r \<in> set (owners d)" by (rule replaced_in[OF rep])
  have "\<forall>q \<in> set rs. run_id q \<le> runs_seq d" using runs_bound[OF ok rs(1)] by blast
  then have "keys_ok ?d" using ok r same by (auto simp: db_ok_def keys_ok_def m(3) rs(1) st)
  moreover have "cl_owner_id ` set (delete_where C (claims d)) = claimed_ids d - {lo_id r}"
    using C by auto
  then have "claims_ok ?d" using ok m(4) ne by (auto simp: db_ok_def claims_ok_def m(1,2))
  moreover have "recovery_ok ?d" using ok ne unfolding db_ok_def recovery_ok_def by (auto simp: m(2) rs)
  moreover have "rows_ok ?d" using ok act fin by (auto simp: db_ok_def rows_ok_def st)
  ultimately show ?thesis by (simp add: db_ok_def d')
qed

lemma release_commit:
  assumes "release jv i now d = (d', Ok x)"
  obtains r t where "replaced r (r\<lparr>lo_state := Released, released_at := Some now\<rparr>) (owners d) t"
    "lo_id r = i" "lo_state r = Active"
    "d' = d\<lparr>owners := t, claims := delete_where (\<lambda>c. cl_owner_id c = i) (claims d)\<rparr>"
  using assms unfolding release_def
  by (auto elim!: run_tx_cases simp: bind_result_Ok_iff bind_result_Err_iff
      dest!: one_row_replaced one_row_deleted(1) dest: one_row_Inl) 

lemma release_Err: "release jv i now d = (d', Err e) \<Longrightarrow> d' = d"
  unfolding release_def by (auto elim: run_tx_cases)

lemma release_ok: 
  assumes ok: "db_ok d" shows "db_ok (fst (release jv i now d))"
proof (cases "release jv i now d")
  case (Pair d' x)
  show ?thesis
  proof (cases x)
    case (Inr y)
    with Pair obtain r t where
      r: "replaced r (r\<lparr>lo_state := Released, released_at := Some now\<rparr>) (owners d) t"
        "lo_id r = i" "lo_state r = Active" and
      d': "d' = d\<lparr>owners := t, claims := delete_where (\<lambda>c. cl_owner_id c = i) (claims d)\<rparr>"
      by (auto elim: release_commit)
    have "\<not> orphan_eligible r" using ok replaced_in[OF r(1)] r(3) by (auto simp: db_ok_def rows_ok_def)
    then have "db_ok d'"
      by (intro drop_ok[OF ok r(1), where C = "\<lambda>c. cl_owner_id c = i" and rs = "runs d"])
        (simp_all add: r d')
    then show ?thesis by (simp add: Pair)
  qed (use ok Pair in \<open>auto dest: release_Err\<close>)
qed


lemma run_fails:
  assumes ok: "db_ok d" and rep: "replaced q q' (runs d) rs" and same: "run_id q' = run_id q"
    and run: "outcome q = OutRunning" "outcome q' = OutFailed"
    and rec: "recovery_state q' = Some s" "s = RecEligible \<or> s = RecNotRecoverable"
  shows "map run_id rs = map run_id (runs d)"
    and "keyed run_id is_unresolved rs =
         unresolved_runs d \<union> (if s = RecEligible then {run_id q} else {})"
    and "keyed run_id (\<lambda>r. recovery_state r = Some RecRunning) rs = recovering_runs d"
    and "run_id q \<notin> unresolved_runs d"
proof -
  have dis: "distinct (map run_id (runs d))" using ok by (simp add: db_ok_def keys_ok_def)
  have q: "q \<in> set (runs d)" by (rule replaced_in[OF rep])
  show "map run_id rs = map run_id (runs d)" by (rule replaced_map[OF rep same])
  show nu: "run_id q \<notin> unresolved_runs d"
    using run by (auto simp: keyed_iff is_unresolved_def dest: key_unique[OF dis _ q])
  have nr: "run_id q \<notin> recovering_runs d"
    using nu ok by (auto simp: db_ok_def recovery_ok_def)
  show "keyed run_id (\<lambda>r. recovery_state r = Some RecRunning) rs = recovering_runs d"
    using keyed_replaced[OF rep dis same, of "\<lambda>r. recovery_state r = Some RecRunning"] rec nr by auto
  show "keyed run_id is_unresolved rs =
      unresolved_runs d \<union> (if s = RecEligible then {run_id q} else {})"
    using keyed_replaced[OF rep dis same, of is_unresolved] rec nu run
    by (auto simp: is_unresolved_def)
qed

lemma mark_orphaned_commit:
  assumes "mark_orphaned jv u d = (d', Ok True)" and ok: "db_ok d"
  obtains r t q rs where
    "replaced r (r\<lparr>lo_state := Orphaned, released_at := Some (oou_now u),
       orphan_eligible := oou_eligible u, orphan_evidence_json := Some (oou_evidence_json u)\<rparr>)
       (owners d) t"
    "lo_id r = oou_owner_id u" "lo_state r = Active" "operation_kind r = KTune"
    "heartbeat_at r = oou_expected_heartbeat u"
    "holds_key (oou_owner_id u) (oou_expected_claim_key u) d"
    "replaced q (q\<lparr>outcome := OutFailed, completed_at := Some (oou_now u),
                failure_reason := Some (oou_detail u), run_restore_status := Some RestoreIncomplete,
                restore_detail := Some (oou_detail u),
                recovery_state := Some (if oou_eligible u then RecEligible else RecNotRecoverable),
                recovery_evidence_json := Some (oou_evidence_json u)\<rparr>) (runs d) rs"
    "lo_run_id r = Some (run_id q)" "outcome q = OutRunning"
    "d' = d\<lparr>owners := t, runs := rs, claims := if oou_eligible u then claims d
              else delete_where (\<lambda>c. cl_owner_id c = oou_owner_id u) (claims d)\<rparr>"
proof -
  have dis: "distinct (map lo_id (owners d))" using ok by (simp add: db_ok_def keys_ok_def)
  from assms(1) obtain r t q rs where
    r: "replaced r (r\<lparr>lo_state := Orphaned, released_at := Some (oou_now u),
       orphan_eligible := oou_eligible u, orphan_evidence_json := Some (oou_evidence_json u)\<rparr>)
       (owners d) t"
    "lo_id r = oou_owner_id u" "lo_state r = Active" "operation_kind r = KTune"
    "heartbeat_at r = oou_expected_heartbeat u"
    "holds_key (oou_owner_id u) (oou_expected_claim_key u) d"
    "replaced q (q\<lparr>outcome := OutFailed, completed_at := Some (oou_now u),
                failure_reason := Some (oou_detail u), run_restore_status := Some RestoreIncomplete,
                restore_detail := Some (oou_detail u),
                recovery_state := Some (if oou_eligible u then RecEligible else RecNotRecoverable),
                recovery_evidence_json := Some (oou_evidence_json u)\<rparr>) (runs d) rs"
    "exists_row (\<lambda>o'. lo_id o' = oou_owner_id u \<and> lo_run_id o' = Some (run_id q)) t"
    "outcome q = OutRunning"
    "d' = d\<lparr>owners := t, runs := rs, claims := if oou_eligible u then claims d
              else delete_where (\<lambda>c. cl_owner_id c = oou_owner_id u) (claims d)\<rparr>"
    unfolding mark_orphaned_def
    by (auto elim!: run_tx_cases simp: bind_result_Ok_iff bind_result_Err_iff
      dest!: one_row_replaced dest: one_row_Inl)
  moreover have "map lo_id t = map lo_id (owners d)" by (rule replaced_map[OF r(1)]) simp
  then have "distinct (map lo_id t)" using dis by simp
  then have "lo_run_id r = Some (run_id q)"
    using r(8) r(2) by (auto simp: list_ex_iff replaced_set[OF r(1)] dest: key_unique[OF dis _ replaced_in[OF r(1)]])
  ultimately show ?thesis using that by blast
qed


lemma mark_orphaned_not: "mark_orphaned jv u d = (d', x) \<Longrightarrow> x \<noteq> Ok True \<Longrightarrow> d' = d"
  unfolding mark_orphaned_def by (auto elim!: run_tx_cases simp: bind_result_Ok_iff)

lemma orphan_ok:
  assumes ok: "db_ok d" and rep: "replaced r r' (owners d) t"
    and same: "lo_id r' = lo_id r" "lo_run_id r' = lo_run_id r"
    and act: "lo_state r = Active" "lo_state r' = Orphaned"
    and fin: "orphan_eligible r'" "released_at r' \<noteq> None"
    and run: "replaced q q' (runs d) rs" "run_id q' = run_id q" "outcome q = OutRunning"
      "outcome q' = OutFailed" "recovery_state q' = Some RecEligible" "lo_run_id r = Some (run_id q)"
    and d': "d' = d\<lparr>owners := t, runs := rs\<rparr>"
  shows "db_ok d'"
proof -
  have ne: "is_eligible r'" "lo_state r' \<noteq> Active" using fin act by (auto simp: is_eligible_def)
  note m = owner_ends[OF ok rep same act(1) ne(2)] and st = replaced_set[OF rep]
  note f = run_fails[OF ok run(1-5) disjI1[OF refl]]
  have r: "r \<in> set (owners d)" by (rule replaced_in[OF rep])
  have "\<forall>q \<in> set rs. run_id q \<le> runs_seq d" using runs_bound[OF ok f(1)] by blast
  then have "keys_ok d'" using ok r same by (auto simp: db_ok_def keys_ok_def m(3) f(1) st d')
  moreover have "claims_ok d'" using ok ne by (auto simp: db_ok_def claims_ok_def m(1,2) d')
  moreover have R: "snd ` eligibles d \<subseteq> Some ` unresolved_runs d" "inj_on snd (eligibles d)"
    "snd ` running_attempts d \<subseteq> recovering_runs d" "inj_on snd (running_attempts d)"
    "recovering_runs d \<subseteq> unresolved_runs d"
    "\<forall>e \<in> eligibles d. \<forall>a \<in> running_attempts d. snd e = Some (snd a) \<longrightarrow> fst e \<notin> claimed_ids d"
    using ok by (simp_all add: db_ok_def recovery_ok_def)
  have E: "keyed owner_and_run is_eligible t = insert (lo_id r, Some (run_id q)) (eligibles d)"
    using m(2) ne run(6) by simp
  have new: "Some (run_id q) \<notin> snd ` eligibles d" "run_id q \<notin> snd ` running_attempts d"
    using R(1,3,5) f(4) by auto
  then have "inj_on snd (insert (lo_id r, Some (run_id q)) (eligibles d))"
    using R(2) unfolding inj_on_insert by auto
  then have "recovery_ok d'"
    unfolding recovery_ok_def using R new by (auto simp: E f(2,3) d')
  moreover have "rows_ok d'" using ok act fin by (auto simp: db_ok_def rows_ok_def st d')
  ultimately show ?thesis by (simp add: db_ok_def)
qed

lemma mark_orphaned_ok:
  assumes ok: "db_ok d" shows "db_ok (fst (mark_orphaned jv u d))"
proof (cases "mark_orphaned jv u d")
  case (Pair d' x)
  show ?thesis
  proof (cases "x = Ok True")
    case True
    note c = Pair[unfolded True]
    show ?thesis using c ok
    proof (rule mark_orphaned_commit, goal_cases)
      case (1 r t q rs)
      show ?case
      proof (cases "oou_eligible u")
        case True
        have "db_ok d'" by (rule orphan_ok[OF ok 1(1) _ _ 1(3) _ _ _ 1(7)]) (simp_all add: True 1)
        then show ?thesis by (simp add: Pair)
      next
        case False
        note f = run_fails[OF ok 1(7) _ 1(9), of RecNotRecoverable]
        have "db_ok d'" 
          by (rule drop_ok[OF ok 1(1) _ _ 1(3), where C = "\<lambda>c. cl_owner_id c = oou_owner_id u" and rs = rs])
             (use False f in \<open>simp_all add: 1\<close>)
        then show ?thesis by (simp add: Pair)
      qed
    qed
  qed (use ok Pair mark_orphaned_not in \<open>auto dest: mark_orphaned_not\<close>)
qed

lemma mark_unrecoverable_commit:
  assumes "mark_orphaned_unrecoverable jv u d = (d', Ok True)" and ok: "db_ok d"
  obtains r t rs where
    "replaced r (r\<lparr>lo_state := Orphaned, released_at := Some (uou_now u),
       orphan_eligible := False, orphan_evidence_json := Some (uou_evidence_json u)\<rparr>)
       (owners d) t"
    "lo_id r = uou_owner_id u" "lo_state r = Active" "heartbeat_at r = uou_expected_heartbeat u"
    "holds_key (uou_owner_id u) (uou_expected_claim_key u) d"
    "rs = runs d \<or> (\<exists>q. replaced q (q\<lparr>outcome := OutFailed, completed_at := Some (uou_now u),
                failure_reason := Some (uou_detail u), run_restore_status := Some RestoreIncomplete,
                restore_detail := Some (uou_detail u),
                recovery_state := Some RecNotRecoverable,
                recovery_evidence_json := Some (uou_evidence_json u)\<rparr>) (runs d) rs \<and>
        outcome q = OutRunning)"
    "d' = d\<lparr>owners := t, runs := rs, claims := delete_where
         (\<lambda>c. cl_owner_id c = uou_owner_id u \<and> claim_key c = uou_expected_claim_key u) (claims d)\<rparr>"
proof (cases "uou_fail_running_run_id u")
  case None
  with assms(1) obtain r t where
    r: "replaced r (r\<lparr>lo_state := Orphaned, released_at := Some (uou_now u),
       orphan_eligible := False, orphan_evidence_json := Some (uou_evidence_json u)\<rparr>)
       (owners d) t"
    "lo_id r = uou_owner_id u" "lo_state r = Active" "heartbeat_at r = uou_expected_heartbeat u"
    "holds_key (uou_owner_id u) (uou_expected_claim_key u) d"
    "d' = d\<lparr>owners := t, claims := delete_where
         (\<lambda>c. cl_owner_id c = uou_owner_id u \<and> claim_key c = uou_expected_claim_key u) (claims d)\<rparr>"
    unfolding mark_orphaned_unrecoverable_def
    by (auto elim!: run_tx_cases simp: bind_result_Ok_iff bind_result_Err_iff
      dest!: one_row_replaced one_row_deleted(1) one_row_Inl)
  show ?thesis by (rule that[OF r(1-5), of "runs d"]) (simp_all add: r(6))
next
  case (Some rid)
  with assms(1) obtain r t q rs where
    r: "replaced r (r\<lparr>lo_state := Orphaned, released_at := Some (uou_now u),
       orphan_eligible := False, orphan_evidence_json := Some (uou_evidence_json u)\<rparr>)
       (owners d) t"
    "lo_id r = uou_owner_id u" "lo_state r = Active" "heartbeat_at r = uou_expected_heartbeat u"
    "holds_key (uou_owner_id u) (uou_expected_claim_key u) d"
    "replaced q (q\<lparr>outcome := OutFailed, completed_at := Some (uou_now u),
                failure_reason := Some (uou_detail u), run_restore_status := Some RestoreIncomplete,
                restore_detail := Some (uou_detail u),
                recovery_state := Some RecNotRecoverable,
                recovery_evidence_json := Some (uou_evidence_json u)\<rparr>) (runs d) rs"
    "outcome q = OutRunning"
    "d' = d\<lparr>owners := t, runs := rs, claims := delete_where
         (\<lambda>c. cl_owner_id c = uou_owner_id u \<and> claim_key c = uou_expected_claim_key u) (claims d)\<rparr>"
    unfolding mark_orphaned_unrecoverable_def
    by (auto elim!: run_tx_cases simp: bind_result_Ok_iff bind_result_Err_iff
      dest!: one_row_replaced one_row_deleted(1) one_row_Inl)
  show ?thesis by (rule that[OF r(1-5) _ r(8)]) (use r(6,7) in blast)
qed

lemma mark_unrecoverable_not:
  "mark_orphaned_unrecoverable jv u d = (d', x) \<Longrightarrow> x \<noteq> Ok True \<Longrightarrow> d' = d"
  unfolding mark_orphaned_unrecoverable_def by (auto elim!: run_tx_cases simp: bind_result_Ok_iff)

lemma mark_unrecoverable_ok:
  assumes ok: "db_ok d" shows "db_ok (fst (mark_orphaned_unrecoverable jv u d))"
proof (cases "mark_orphaned_unrecoverable jv u d")
  case (Pair d' x)
  show ?thesis
  proof (cases "x = Ok True")
    case True
    note c = Pair[unfolded True]
    show ?thesis using c ok
    proof (rule mark_unrecoverable_commit, goal_cases)
      case (1 r t rs)
      let ?C = "\<lambda>c. cl_owner_id c = uou_owner_id u \<and> claim_key c = uou_expected_claim_key u"
      have dc: "distinct (map cl_owner_id (claims d))" using ok by (simp add: db_ok_def claims_ok_def)
      have C: "?C c \<longleftrightarrow> cl_owner_id c = lo_id r" if "c \<in> set (claims d)" for c
        using 1(2,5) that by (auto simp: holds_key_def list_ex_iff dest: key_unique[OF dc])
      have f: "map run_id rs = map run_id (runs d) \<and> keyed run_id is_unresolved rs = unresolved_runs d
          \<and> keyed run_id (\<lambda>r. recovery_state r = Some RecRunning) rs = recovering_runs d"
        using 1(6) by (auto dest: run_fails[OF ok, where s = RecNotRecoverable])
      have "db_ok d'"
        by (rule drop_ok[OF ok 1(1) _ _ 1(3), where C = ?C and rs = rs]) (use C f in \<open>simp_all add: 1\<close>)
      then show ?case by (simp add: Pair)
    qed
  qed (use ok Pair in \<open>auto dest: mark_unrecoverable_not\<close>)
qed


lemma start_commit:
  assumes "start_with_claim jv new key source rid export evidence d = (d', Ok (Some (row, att)))"
    and ok: "db_ok d"
  obtains c cs q rs o' where "row = new_owner_row new d" "owner_check jv row"
    "nlo_run_id new = Some rid" "nlo_operation_kind new = KRecovery"
    "o' \<in> set (owners d)" "eligible_source source rid o'" "operation_kind o' = KTune"
    "replaced c (c\<lparr>cl_owner_id := lo_id row, claimed_at := nlo_acquired_at new\<rparr>) (claims d) cs"
    "claim_key c = key" "cl_owner_id c = source"
    "replaced q (q\<lparr>recovery_state := Some RecRunning, recovery_evidence_json := Some evidence\<rparr>)
       (runs d) rs"
    "run_id q = rid" "outcome q = OutFailed"
    "recovery_state q = Some RecEligible \<or> recovery_state q = Some RecIncomplete"
    "at_id att = attempts_seq d + 1" "at_run_id att = rid" "at_status att = AttemptRunning"
    "source_owner_id att = source" "recovery_owner_id att = lo_id row" "at_completed_at att = None"
    "d' = d\<lparr>owners := owners d @ [row], owners_seq := lo_id row, claims := cs, runs := rs,
            attempts := attempts d @ [att], attempts_seq := at_id att\<rparr>"
proof -
  have fresh: "\<And>o'. o' \<in> set (owners d) \<Longrightarrow> lo_id o' \<noteq> owners_seq d + 1"
    using ok by (force simp: db_ok_def keys_ok_def)
  from assms(1) obtain c cs q rs where r: "row = new_owner_row new d" "owner_check jv row"
    "exists_row (\<lambda>o'. eligible_source source rid o' \<and> operation_kind o' = KTune) (owners d @ [row])"
    "exists_row (\<lambda>o'. lo_id o' = lo_id row \<and> lo_run_id o' = Some rid \<and>
        operation_kind o' = KRecovery \<and> lo_state o' = Active) (owners d @ [row])"
    "replaced c (c\<lparr>cl_owner_id := lo_id row, claimed_at := nlo_acquired_at new\<rparr>) (claims d) cs"
    "claim_key c = key" "cl_owner_id c = source"
    "replaced q (q\<lparr>recovery_state := Some RecRunning, recovery_evidence_json := Some evidence\<rparr>)
       (runs d) rs"
    "run_id q = rid" "outcome q = OutFailed"
    "recovery_state q = Some RecEligible \<or> recovery_state q = Some RecIncomplete"
    "at_id att = attempts_seq d + 1" "at_run_id att = rid" "at_status att = AttemptRunning"
    "source_owner_id att = source" "recovery_owner_id att = lo_id row" "at_completed_at att = None"
    "d' = d\<lparr>owners := owners d @ [row], owners_seq := lo_id row, claims := cs, runs := rs,
            attempts := attempts d @ [att], attempts_seq := at_id att\<rparr>"
    unfolding start_with_claim_def
    by (auto elim!: run_tx_cases simp: bind_result_Ok_iff bind_result_Err_iff insert_owner_def Let_def
          simp del: list_ex_append
      dest!: one_row_replaced one_row_Inl split: option.splits if_splits)
  obtain o'' where o'': "o'' \<in> set (owners d @ [row])" "lo_id o'' = lo_id row"
    "lo_run_id o'' = Some rid" "operation_kind o'' = KRecovery"
    using r(4) unfolding list_ex_iff by blast
  obtain o' where o': "o' \<in> set (owners d @ [row])" "eligible_source source rid o'"
    "operation_kind o' = KTune"
    using r(3) unfolding list_ex_iff by blast
  have "o'' = row" using o'' fresh by (auto simp: r(1) new_owner_row_def)
  then have n: "nlo_run_id new = Some rid" "nlo_operation_kind new = KRecovery"
    using o'' by (auto simp: r(1) new_owner_row_def)
  have "o' \<noteq> row" using o' by (auto simp: eligible_source_def r(1) new_owner_row_def)
  then have "o' \<in> set (owners d)" using o'(1) by simp
  then show ?thesis by (rule that[OF r(1,2) n _ o'(2,3) r(5-18)])
qed


lemma start_not: "start_with_claim jv new key source rid export evidence d = (d', x) \<Longrightarrow>
    (\<forall>p. x \<noteq> Ok (Some p)) \<Longrightarrow> d' = d"
  unfolding start_with_claim_def
  by (auto elim!: run_tx_cases simp: bind_result_Ok_iff Let_def split: option.splits prod.splits if_splits)

lemma claim_moves:
  assumes ok: "db_ok d" and rep: "replaced c (c\<lparr>cl_owner_id := i, claimed_at := now\<rparr>) (claims d) cs"
    and free: "i \<notin> claimed_ids d"
  shows "map claim_key cs = map claim_key (claims d)" and "distinct (map cl_owner_id cs)"
    and "cl_owner_id ` set cs = insert i (claimed_ids d - {cl_owner_id c})"
proof -
  have dis: "distinct (map cl_owner_id (claims d))" using ok by (simp add: db_ok_def claims_ok_def)
  obtain xs ys where c: "claims d = xs @ c # ys" "cs = xs @ (c\<lparr>cl_owner_id := i, claimed_at := now\<rparr>) # ys"
    using rep by (auto simp: replaced_def)
  show "map claim_key cs = map claim_key (claims d)" by (simp add: c)
  show "distinct (map cl_owner_id cs)" using dis free by (auto simp: c)
  show "cl_owner_id ` set cs = insert i (claimed_ids d - {cl_owner_id c})"
    using dis by (auto simp: c) (metis imageI)+
qed

lemma recovery_okD:
  assumes "db_ok d"
  shows "snd ` eligibles d \<subseteq> Some ` unresolved_runs d" "inj_on snd (eligibles d)"
    "snd ` running_attempts d \<subseteq> recovering_runs d" "inj_on snd (running_attempts d)"
    "recovering_runs d \<subseteq> unresolved_runs d"
    "\<And>e a. e \<in> eligibles d \<Longrightarrow> a \<in> running_attempts d \<Longrightarrow> snd e = Some (snd a) \<Longrightarrow>
       fst e \<notin> claimed_ids d"
  using assms unfolding db_ok_def recovery_ok_def by blast+

lemma claimed_id_bound: "db_ok d \<Longrightarrow> i \<in> claimed_ids d \<Longrightarrow> i \<le> owners_seq d"
  by (fastforce simp: db_ok_def claims_ok_def keys_ok_def keyed_iff subset_iff)

lemma start_ok:
  assumes ok: "db_ok d"
  shows "db_ok (fst (start_with_claim jv new key source rid export evidence d))"
proof (cases "start_with_claim jv new key source rid export evidence d")
  case (Pair d' x)
  show ?thesis
  proof (cases "\<exists>row att. x = Ok (Some (row, att))")
    case True
    then obtain row att where c: "start_with_claim jv new key source rid export evidence d
        = (d', Ok (Some (row, att)))" using Pair by blast
    show ?thesis using c ok
    proof (rule start_commit, goal_cases)
      case (1 c cs q rs o')
      note R = recovery_okD[OF ok]
      have row: "lo_id row = owners_seq d + 1" "lo_state row = Active" "released_at row = None"
        "\<not> orphan_eligible row" by (simp_all add: 1(1) new_owner_row_def)
      have free: "lo_id row \<notin> claimed_ids d" using claimed_id_bound[OF ok] row(1) by force
      note m = claim_moves[OF ok 1(8) free]
      have dr: "distinct (map run_id (runs d))" and da: "distinct (map at_id (attempts d))"
        using ok by (simp_all add: db_ok_def keys_ok_def)
      have q: "q \<in> set (runs d)" by (rule replaced_in[OF 1(11)])
      have mr: "map run_id rs = map run_id (runs d)" by (rule replaced_map[OF 1(11)]) simp
      have un: "keyed run_id is_unresolved rs = unresolved_runs d"
        by (rule keyed_replaced_same[OF 1(11)]) (use 1(13,14) in \<open>auto simp: is_unresolved_def\<close>)
      have rc: "keyed run_id (\<lambda>r. recovery_state r = Some RecRunning) rs = insert rid (recovering_runs d)"
        using keyed_replaced[OF 1(11) dr, of "\<lambda>r. recovery_state r = Some RecRunning"] 1(12) by auto
      have nrec: "rid \<notin> recovering_runs d"
        using 1(12,14) q by (auto simp: keyed_iff dest: key_unique[OF dr _ q])
      have ridun: "rid \<in> unresolved_runs d"
        using 1(12-14) q by (auto simp: keyed_iff is_unresolved_def)
      have src: "(source, Some rid) \<in> eligibles d"
        using 1(5,6) by (auto simp: keyed_iff eligible_source_def is_eligible_def)
      have E: "eligibles d' = eligibles d" using row by (simp add: 1(21) is_eligible_def)
      have A: "active_ids d' = insert (lo_id row) (active_ids d)"
        using row by (simp add: 1(21) is_active_def)
      have RA: "running_attempts d' = insert (at_id att, rid) (running_attempts d)"
        using 1(16,17) by (simp add: 1(21) is_running_attempt_def)
      have new: "\<And>e. (lo_id row, e) \<notin> eligibles d" "rid \<notin> snd ` running_attempts d"
        using fresh_not_eligible[OF ok] nrec R(3) by (auto simp: row(1))
      have "\<forall>q \<in> set rs. run_id q \<le> runs_seq d" using runs_bound[OF ok mr] by blast
      then have "keys_ok d'" using ok row(1) 1(15) by (fastforce simp: db_ok_def keys_ok_def 1(21) mr)
      moreover have "source \<notin> active_ids d"
        using 1(5,6) ok by (auto simp: keyed_iff is_active_def eligible_source_def db_ok_def keys_ok_def
            dest: key_unique)
      then have "claims_ok d'"
        using ok m 1(10) unfolding db_ok_def claims_ok_def A E by (auto simp: 1(21))
      moreover have "recovery_ok d'"
      proof -
        have "fst e \<notin> cl_owner_id ` set cs"
          if "e \<in> eligibles d" "a \<in> insert (at_id att, rid) (running_attempts d)" "snd e = Some (snd a)" for e a
        proof (cases "a \<in> running_attempts d")
          case True
          then show ?thesis using R(6)[OF that(1) _ that(3)] that(1) new(1) m(3) by (cases e) auto
        next
          case False
          then have "snd e = Some rid" using that by simp
          then have "e = (source, Some rid)" using that(1) src by (intro inj_onD[OF R(2)]) simp_all
          then show ?thesis using m(3) 1(10) row(1) that(1) new(1) by auto
        qed
        moreover have "inj_on snd (insert (at_id att, rid) (running_attempts d))"
          using R(4) new(2) unfolding inj_on_insert by auto
        ultimately show ?thesis
          using R(1-5) ridun unfolding recovery_ok_def E RA by (simp add: 1(21) un rc) blast
      qed
      moreover have "rows_ok d'" using ok row 1(17,20) by (auto simp: db_ok_def rows_ok_def 1(21))
      ultimately show ?case by (simp add: Pair db_ok_def)
    qed
  qed (use ok Pair in \<open>auto dest: start_not\<close>)
qed


lemma eligibles_functional:
  assumes "db_ok d" "(i, r) \<in> eligibles d" "(i, r') \<in> eligibles d" shows "r = r'"
  using assms by (auto simp: keyed_iff db_ok_def keys_ok_def dest: key_unique)

text \<open>A recovery attempt that ends: the recovery owner is released, the run leaves the recovering
  state, and the orphan is either retired or gets its claim back.\<close>

lemma finish_ok:
  assumes ok: "db_ok d"
    and a: "replaced a a' (attempts d) ats" "at_id a' = at_id a" "at_run_id a' = at_run_id a"
      "at_run_id a = rid" "at_status a = AttemptRunning" "at_status a' \<noteq> AttemptRunning"
      "at_completed_at a' \<noteq> None"
    and q: "replaced q q' (runs d) rs" "run_id q' = run_id q" "run_id q = rid" "outcome q' = OutFailed"
      "recovery_state q' = Some s"
    and r: "replaced r r' (owners d) t" "lo_id r' = lo_id r" "lo_run_id r' = lo_run_id r"
      "lo_state r = Active" "lo_state r' \<noteq> Active" "\<not> is_eligible r'"
    and src: "(source, Some rid) \<in> eligibles d"
    and t: "map lo_id t' = map lo_id t" "keyed lo_id is_active t' = keyed lo_id is_active t"
      "rows_ok (d\<lparr>owners := t', attempts := ats\<rparr>)"
    and cs: "distinct (map claim_key cs)" "distinct (map cl_owner_id cs)"
    and ends: "s = RecConfirmed \<and> keyed owner_and_run is_eligible t' = eligibles d - {(source, Some rid)} \<and>
        cl_owner_id ` set cs = claimed_ids d - {lo_id r} \<or>
      (s = RecEligible \<or> s = RecIncomplete) \<and> keyed owner_and_run is_eligible t' = eligibles d \<and>
        cl_owner_id ` set cs = insert source (claimed_ids d - {lo_id r})"
    and d': "d' = d\<lparr>attempts := ats, runs := rs, owners := t', claims := cs\<rparr>"
  shows "db_ok d'"
proof -
  note R = recovery_okD[OF ok] and m = owner_ends[OF ok r(1-5)]
  have dr: "distinct (map run_id (runs d))" and da: "distinct (map at_id (attempts d))"
    using ok by (simp_all add: db_ok_def keys_ok_def)
  have ids: "map lo_id t' = map lo_id (owners d)" using t(1) m(3) by simp
  have mr: "map run_id rs = map run_id (runs d)" by (rule replaced_map[OF q(1,2)])
  have ma: "map at_id ats = map at_id (attempts d)" by (rule replaced_map[OF a(1,2)])
  have run: "(at_id a, rid) \<in> running_attempts d"
    using replaced_in[OF a(1)] a(4,5) by (auto simp: keyed_iff is_running_attempt_def)
  have RA: "keyed attempt_and_run is_running_attempt ats = running_attempts d - {(at_id a, rid)}"
    using keyed_replaced[OF a(1) distinct_map_pair[OF da, of at_run_id], of is_running_attempt] a
    by (simp add: is_running_attempt_def)
  have rid: "rid \<in> recovering_runs d" "rid \<in> unresolved_runs d" using R(3,5) run by force+
  have rc: "keyed run_id (\<lambda>r. recovery_state r = Some RecRunning) rs = recovering_runs d - {rid}"
    using keyed_replaced[OF q(1) dr q(2), of "\<lambda>r. recovery_state r = Some RecRunning"] ends q by auto
  have un: "keyed run_id is_unresolved rs =
      (if s = RecConfirmed then unresolved_runs d - {rid} else unresolved_runs d)"
    using keyed_replaced[OF q(1) dr q(2), of is_unresolved] ends q rid by (auto simp: is_unresolved_def)
  have free: "source \<notin> claimed_ids d" using R(6)[OF src run] by simp
  have other: "snd b \<noteq> rid" if "b \<in> running_attempts d - {(at_id a, rid)}" for b
    using that run inj_onD[OF R(4), of b "(at_id a, rid)"] by auto
  have C: "active_ids d \<subseteq> claimed_ids d" "claimed_ids d \<subseteq> active_ids d \<union> fst ` eligibles d"
    using ok by (simp_all add: db_ok_def claims_ok_def)
  have src_ne: "source \<noteq> lo_id r" using m(4) src by force
  have "keys_ok d'"
    using ok runs_bound[OF ok mr] map_bound[OF ma] map_bound[OF ids]
    by (simp add: db_ok_def keys_ok_def d' mr ma ids)
  moreover have "claims_ok d'"
  proof (cases "s = RecConfirmed")
    case True
    then have e: "keyed owner_and_run is_eligible t' = eligibles d - {(source, Some rid)}"
      and c: "cl_owner_id ` set cs = claimed_ids d - {lo_id r}" using ends by auto
    have "claimed_ids d \<subseteq> active_ids d \<union> fst ` (eligibles d - {(source, Some rid)})"
      using C(2) free by force
    then show ?thesis using C(1) cs c by (auto simp: claims_ok_def d' t(2) m(1) e)
  next
    case False
    then have e: "keyed owner_and_run is_eligible t' = eligibles d"
      and c: "cl_owner_id ` set cs = insert source (claimed_ids d - {lo_id r})" using ends by auto
    have "source \<in> fst ` eligibles d" using src by force
    then show ?thesis using C cs by (auto simp: claims_ok_def d' t(2) m(1) e c)
  qed
  moreover have "recovery_ok d'"
  proof -
    have sub: "keyed owner_and_run is_eligible t' \<subseteq> eligibles d" using ends by auto
    have "inj_on snd (keyed owner_and_run is_eligible t')" by (rule inj_on_subset[OF R(2) sub])
    moreover have "inj_on snd (running_attempts d - {(at_id a, rid)})"
      by (rule inj_on_subset[OF R(4)]) auto
    moreover have "snd ` keyed owner_and_run is_eligible t' \<subseteq>
        Some ` (if s = RecConfirmed then unresolved_runs d - {rid} else unresolved_runs d)"
    proof (rule image_subsetI)
      fix e assume e: "e \<in> keyed owner_and_run is_eligible t'"
      then have un: "snd e \<in> Some ` unresolved_runs d" using sub R(1) by blast
      have "snd e \<noteq> Some rid" if "s = RecConfirmed"
      proof
        assume "snd e = Some rid"
        then have "e = (source, Some rid)" using e sub src by (intro inj_onD[OF R(2)]) auto
        then show False using e that ends by auto
      qed
      then show "snd e \<in> Some ` (if s = RecConfirmed then unresolved_runs d - {rid} else unresolved_runs d)"
        using un by auto
    qed
    moreover have "snd ` (running_attempts d - {(at_id a, rid)}) \<subseteq> recovering_runs d - {rid}"
      using R(3) other by force
    moreover have "fst e \<notin> cl_owner_id ` set cs"
      if "e \<in> keyed owner_and_run is_eligible t'" "b \<in> running_attempts d - {(at_id a, rid)}"
        "snd e = Some (snd b)" for e b
    proof -
      have "e \<in> eligibles d" "fst e \<notin> claimed_ids d"
        using that sub R(6)[of e b] by auto
      moreover have "fst e \<noteq> source"
        using eligibles_functional[OF ok, of source "snd e" "Some rid"] src other[OF that(2)] that(3)
          calculation(1) by (cases e) auto
      ultimately show ?thesis using ends by auto
    qed
    ultimately show ?thesis
      using R(5) unfolding recovery_ok_def by (auto simp: d' RA rc un)
  qed
  moreover have "rows_ok d'" using t(3) by (simp add: rows_ok_def d')
  ultimately show ?thesis by (simp add: db_ok_def)
qed


lemma complete_commit:
  assumes "complete_with_ownership jv u d = (d', Ok x)"
  obtains rest rec ostate eligible a ats q rs r t o' t' cs where
    "completion_of (cru_status u) = Some (rest, rec, ostate, eligible)"
    "replaced a (a\<lparr>at_status := cru_status u, at_completed_at := Some (cru_now u),
                    at_detail := cru_detail u, at_evidence_json := cru_evidence_json u\<rparr>)
       (attempts d) ats"
    "at_id a = cru_attempt_id u" "at_run_id a = cru_run_id u"
    "recovery_owner_id a = cru_recovery_owner_id u" "at_status a = AttemptRunning"
    "replaced q (completed_run u rest rec q) (runs d) rs"
    "run_id q = cru_run_id u" "outcome q = OutFailed"
    "replaced r (r\<lparr>lo_state := Released, released_at := Some (cru_now u)\<rparr>) (owners d) t"
    "lo_id r = cru_recovery_owner_id u" "lo_state r = Active"
    "replaced o' (o'\<lparr>lo_state := ostate, released_at := Some (cru_now u),
                     orphan_eligible := eligible\<rparr>) t t'"
    "eligible_source (cru_source_owner_id u) (cru_run_id u) o'"
    "cs = delete_where (\<lambda>c. claim_key c = cru_claim_key u \<and> cl_owner_id c = cru_recovery_owner_id u)
       (claims d)"
    "\<exists>c \<in> set (claims d). claim_key c = cru_claim_key u \<and> cl_owner_id c = cru_recovery_owner_id u"
    "d' = d\<lparr>attempts := ats, runs := rs, owners := t',
       claims := if cru_status u = AttemptConfirmed then cs
         else cs @ [\<lparr>claim_key = cru_claim_key u, cl_owner_id = cru_source_owner_id u,
                      claimed_at = cru_now u\<rparr>]\<rparr>"
    "cru_status u \<noteq> AttemptConfirmed \<Longrightarrow>
       \<forall>c \<in> set cs. claim_key c \<noteq> cru_claim_key u \<and> cl_owner_id c \<noteq> cru_source_owner_id u"
proof (cases "completion_of (cru_status u)")
  case None
  then show ?thesis using assms by (simp add: complete_with_ownership_def run_tx_def)
next
  case (Some p)
  obtain rest rec ostate eligible where p: "p = (rest, rec, ostate, eligible)" by (cases p)
  let ?cs = "delete_where (\<lambda>c. claim_key c = cru_claim_key u \<and> cl_owner_id c = cru_recovery_owner_id u)
       (claims d)"
  from assms Some p obtain a ats q rs r t o' t' cs' where r:
    "replaced a (a\<lparr>at_status := cru_status u, at_completed_at := Some (cru_now u),
                    at_detail := cru_detail u, at_evidence_json := cru_evidence_json u\<rparr>)
       (attempts d) ats"
    "at_id a = cru_attempt_id u" "at_run_id a = cru_run_id u"
    "recovery_owner_id a = cru_recovery_owner_id u" "at_status a = AttemptRunning"
    "replaced q (completed_run u rest rec q) (runs d) rs"
    "run_id q = cru_run_id u" "outcome q = OutFailed"
    "replaced r (r\<lparr>lo_state := Released, released_at := Some (cru_now u)\<rparr>) (owners d) t"
    "lo_id r = cru_recovery_owner_id u" "lo_state r = Active"
    "replaced o' (o'\<lparr>lo_state := ostate, released_at := Some (cru_now u),
                     orphan_eligible := eligible\<rparr>) t t'"
    "eligible_source (cru_source_owner_id u) (cru_run_id u) o'"
    "exists_row (\<lambda>c. claim_key c = cru_claim_key u \<and> cl_owner_id c = cru_recovery_owner_id u) (claims d)"
    "if cru_status u \<noteq> AttemptConfirmed
     then insert_claim (cru_claim_key u) (cru_source_owner_id u) (cru_now u)
            (d\<lparr>attempts := ats, runs := rs, owners := t', claims := ?cs\<rparr>) = Some cs' \<and>
          d' = d\<lparr>attempts := ats, runs := rs, owners := t', claims := cs'\<rparr>
     else d' = d\<lparr>attempts := ats, runs := rs, owners := t', claims := ?cs\<rparr>"
    unfolding complete_with_ownership_def
    by (auto elim!: run_tx_cases simp: bind_result_Ok_iff bind_result_Err_iff Let_def
        dest!: one_row_replaced one_row_Inl one_row_deletedD split: option.splits if_splits)
  have ex: "\<exists>c \<in> set (claims d). claim_key c = cru_claim_key u \<and> cl_owner_id c = cru_recovery_owner_id u"
    using r(14) by (simp add: list_ex_iff)
  show ?thesis
    by (rule that[OF Some[unfolded p] r(1-13) refl ex])
       (use r(15) in \<open>auto simp: insert_claim_def list_ex_iff split: if_splits\<close>)
qed


lemma complete_not: "complete_with_ownership jv u d = (d', Err e) \<Longrightarrow> d' = d"
  unfolding complete_with_ownership_def by (auto elim: run_tx_cases)

lemma rows_okD:
  assumes "db_ok d"
  shows "o' \<in> set (owners d) \<Longrightarrow> (lo_state o' = Active \<longleftrightarrow> released_at o' = None) \<and>
      (orphan_eligible o' \<longrightarrow> lo_state o' = Orphaned)"
    and "a \<in> set (attempts d) \<Longrightarrow> at_status a = AttemptRunning \<longleftrightarrow> at_completed_at a = None"
    and "s \<in> set (steps d) \<Longrightarrow> ms_status s = Intent \<longleftrightarrow> ms_completed_at s = None"
  using assms unfolding db_ok_def rows_ok_def by blast+

lemma claim_leaves:
  assumes ok: "db_ok d"
    and ex: "\<exists>c \<in> set (claims d). claim_key c = key \<and> cl_owner_id c = i"
    and cs: "cs = delete_where (\<lambda>c. claim_key c = key \<and> cl_owner_id c = i) (claims d)"
  shows "distinct (map claim_key cs)" and "distinct (map cl_owner_id cs)"
    and "cl_owner_id ` set cs = claimed_ids d - {i}"
proof -
  have dc: "distinct (map cl_owner_id (claims d))" and dk: "distinct (map claim_key (claims d))"
    using ok by (simp_all add: db_ok_def claims_ok_def)
  show "distinct (map claim_key cs)" "distinct (map cl_owner_id cs)" using dc dk by (simp_all add: cs)
  have "claim_key c = key" if "c \<in> set (claims d)" "cl_owner_id c = i" for c
    using ex key_unique[OF dc] that by blast
  then show "cl_owner_id ` set cs = claimed_ids d - {i}" by (auto simp: cs)
qed

lemma complete_ok:
  assumes ok: "db_ok d" shows "db_ok (fst (complete_with_ownership jv u d))"
proof (cases "complete_with_ownership jv u d")
  case (Pair d' x)
  show ?thesis
  proof (cases x)
    case (Inr y)
    note c = Pair[unfolded Inr]
    show ?thesis using c
    proof (rule complete_commit, goal_cases)
      case (1 rest rec ostate eligible a ats q rs r t o' t' cs)
      let ?o = "o'\<lparr>lo_state := ostate, released_at := Some (cru_now u), orphan_eligible := eligible\<rparr>"
      have dis: "distinct (map lo_id (owners d))" using ok by (simp add: db_ok_def keys_ok_def)
      note src = 1(14)[unfolded eligible_source_def]
      have mt: "map lo_id t = map lo_id (owners d)" by (rule replaced_map[OF 1(10)]) simp
      have mt': "map lo_id t' = map lo_id t" by (rule replaced_map[OF 1(13)]) simp
      have st: "set t = insert (r\<lparr>lo_state := Released, released_at := Some (cru_now u)\<rparr>)
          (set (owners d) - {r})" by (rule replaced_set[OF 1(10)])
      have o_in: "o' \<in> set (owners d)" using replaced_in[OF 1(13)] src by (auto simp: st)
      have comp: "(ostate = Recovered \<and> \<not> eligible \<and> rec = RecConfirmed \<and> cru_status u = AttemptConfirmed) \<or>
          (ostate = Orphaned \<and> eligible \<and> (rec = RecEligible \<or> rec = RecIncomplete) \<and>
           cru_status u \<noteq> AttemptConfirmed)" "cru_status u \<noteq> AttemptRunning"
        using 1(1) by (cases "cru_status u"; simp)+
      have nel: "\<not> orphan_eligible r" using rows_okD(1)[OF ok replaced_in[OF 1(10)]] 1(12) by auto
      note m = owner_ends[OF ok 1(10) _ _ 1(12)]
      have E: "keyed owner_and_run is_eligible t = eligibles d"
        using m(2) nel by (simp add: is_eligible_def)
      have dt: "distinct (map owner_and_run t)" using dis mt by (intro distinct_map_pair) simp
      have E': "keyed owner_and_run is_eligible t' =
          (if eligible then eligibles d else eligibles d - {(cru_source_owner_id u, Some (cru_run_id u))})"
      proof -
        have eq: "owner_and_run o' = (cru_source_owner_id u, Some (cru_run_id u))" using src by simp
        have mem: "(cru_source_owner_id u, Some (cru_run_id u)) \<in> eligibles d"
          using src o_in unfolding keyed_iff is_eligible_def by blast
        have "is_eligible ?o = eligible" using comp(1) by (auto simp: is_eligible_def)
        then show ?thesis
          using keyed_replaced[OF 1(13) dt, of is_eligible] eq mem by (simp add: E insert_absorb)
      qed
      have A': "keyed lo_id is_active t' = keyed lo_id is_active t"
        by (rule keyed_replaced_same[OF 1(13)]) (use src comp in \<open>auto simp: is_active_def\<close>)
      have R: "rows_ok (d\<lparr>owners := t', attempts := ats\<rparr>)"
      proof -
        have "(lo_state x = Active \<longleftrightarrow> released_at x = None) \<and> (orphan_eligible x \<longrightarrow> lo_state x = Orphaned)"
          if "x \<in> set t'" for x
        proof -
          have "x = ?o \<or> x = r\<lparr>lo_state := Released, released_at := Some (cru_now u)\<rparr> \<or> x \<in> set (owners d)"
            using that unfolding replaced_set[OF 1(13)] st by blast
          then show ?thesis using rows_okD(1)[OF ok] nel comp(1) by (elim disjE) auto
        qed
        moreover have "at_status x = AttemptRunning \<longleftrightarrow> at_completed_at x = None" if "x \<in> set ats" for x
          using that rows_okD(2)[OF ok] comp(2) unfolding replaced_set[OF 1(2)] by auto
        ultimately show ?thesis using rows_okD(3)[OF ok] by (simp add: rows_ok_def)
      qed
      have srcE: "(cru_source_owner_id u, Some (cru_run_id u)) \<in> eligibles d"
        using src o_in unfolding keyed_iff is_eligible_def by blast
      note cl = claim_leaves[OF ok 1(16,15)]
      have "db_ok d'"
      proof (cases "cru_status u = AttemptConfirmed")
        case True
        show ?thesis
          by (rule finish_ok[OF ok 1(2) _ _ 1(4,6) _ _ 1(7) _ 1(8) _ _ 1(10) _ _ 1(12) _ _ srcE mt' A' R cl(1,2)])
             (use True comp 1 E' cl nel in \<open>auto simp: completed_run_def is_eligible_def\<close>)
      next
        case False
        have nf: "cru_claim_key u \<notin> claim_key ` set cs" "cru_source_owner_id u \<notin> cl_owner_id ` set cs"
          using 1(18)[OF False] by (metis (no_types, lifting) imageE)+
        show ?thesis
          by (rule finish_ok[OF ok 1(2) _ _ 1(4,6) _ _ 1(7) _ 1(8) _ _ 1(10) _ _ 1(12) _ _ srcE mt' A' R,
                where cs = "cs @ [\<lparr>claim_key = cru_claim_key u, cl_owner_id = cru_source_owner_id u,
                      claimed_at = cru_now u\<rparr>]"])
             (use False comp 1(9,11,17) E' cl nel nf in \<open>auto simp: completed_run_def is_eligible_def\<close>)
      qed
      then show ?case by (simp add: Pair)
    qed
  qed (use ok Pair in \<open>auto dest: complete_not\<close>)
qed


lemma abandon_commit:
  assumes "abandon_after_restart jv u d = (d', Ok True)"
  obtains a ats q rs r t c cs where
    "replaced a (a\<lparr>at_status := AttemptIncomplete, at_completed_at := Some (rru_now u),
                at_detail := Some (rru_detail u), at_evidence_json := rru_evidence_json u\<rparr>)
       (attempts d) ats"
    "at_id a = rru_attempt_id u" "at_run_id a = rru_run_id u"
    "recovery_owner_id a = rru_recovery_owner_id u" "at_status a = AttemptRunning"
    "replaced q (q\<lparr>run_restore_status := Some RestoreIncomplete,
                restore_detail := Some (rru_detail u), recovery_state := Some RecIncomplete,
                recovery_evidence_json := Some (rru_evidence_json u)\<rparr>) (runs d) rs"
    "run_id q = rru_run_id u" "outcome q = OutFailed"
    "exists_row (\<lambda>o'. eligible_source (rru_source_owner_id u) (rru_run_id u) o' \<and>
                          operation_kind o' = KTune) (owners d)"
    "replaced r (r\<lparr>lo_state := Released, released_at := Some (rru_now u)\<rparr>) (owners d) t"
    "lo_id r = rru_recovery_owner_id u" "lo_state r = Active"
    "replaced c (c\<lparr>cl_owner_id := rru_source_owner_id u, claimed_at := rru_now u\<rparr>) (claims d) cs"
    "claim_key c = rru_claim_key u" "cl_owner_id c = rru_recovery_owner_id u"
    "d' = d\<lparr>attempts := ats, runs := rs, owners := t, claims := cs\<rparr>"
  using assms unfolding abandon_after_restart_def
  by (auto elim!: run_tx_cases simp: bind_result_Ok_iff bind_result_Err_iff Let_def
      dest!: one_row_replaced one_row_Inl split: if_splits)

lemma abandon_not: "abandon_after_restart jv u d = (d', x) \<Longrightarrow> x \<noteq> Ok True \<Longrightarrow> d' = d"
  unfolding abandon_after_restart_def
  by (auto elim!: run_tx_cases simp: bind_result_Ok_iff Let_def split: if_splits)

lemma abandon_ok:
  assumes ok: "db_ok d" shows "db_ok (fst (abandon_after_restart jv u d))"
proof (cases "abandon_after_restart jv u d")
  case (Pair d' x)
  show ?thesis
  proof (cases "x = Ok True")
    case True
    note c = Pair[unfolded True]
    show ?thesis using c
    proof (rule abandon_commit, goal_cases)
      case (1 a ats q rs r t c cs)
      have nel: "\<not> orphan_eligible r" using rows_okD(1)[OF ok replaced_in[OF 1(10)]] 1(12) by auto
      note m = owner_ends[OF ok 1(10) _ _ 1(12)]
      have E: "keyed owner_and_run is_eligible t = eligibles d"
        using m(2) nel by (simp add: is_eligible_def)
      have src: "(rru_source_owner_id u, Some (rru_run_id u)) \<in> eligibles d"
        using 1(9) unfolding list_ex_iff keyed_iff is_eligible_def eligible_source_def by blast
      have run: "(at_id a, rru_run_id u) \<in> running_attempts d"
        using replaced_in[OF 1(1)] 1(3,5) by (auto simp: keyed_iff is_running_attempt_def)
      have free: "rru_source_owner_id u \<notin> claimed_ids d"
        using recovery_okD(6)[OF ok src run] by simp
      note cl = claim_moves[OF ok 1(13) free]
      have dk: "distinct (map claim_key cs)" using cl(1) ok by (simp add: db_ok_def claims_ok_def)
      have R: "rows_ok (d\<lparr>owners := t, attempts := ats\<rparr>)"
      proof -
        have "(lo_state x = Active \<longleftrightarrow> released_at x = None) \<and> (orphan_eligible x \<longrightarrow> lo_state x = Orphaned)"
          if "x \<in> set t" for x
          using that rows_okD(1)[OF ok] nel unfolding replaced_set[OF 1(10)] by auto
        moreover have "at_status x = AttemptRunning \<longleftrightarrow> at_completed_at x = None" if "x \<in> set ats" for x
          using that rows_okD(2)[OF ok] unfolding replaced_set[OF 1(1)] by auto
        ultimately show ?thesis using rows_okD(3)[OF ok] by (simp add: rows_ok_def)
      qed
      have "db_ok d'"
        by (rule finish_ok[OF ok 1(1) _ _ 1(3,5) _ _ 1(6) _ 1(7) _ _ 1(10) _ _ 1(12) _ _ src refl refl R dk cl(2),
              where s = RecIncomplete])
           (use 1 E cl(3) nel in \<open>simp_all add: is_eligible_def\<close>)
      then show ?case by (simp add: Pair)
    qed
  qed (use ok Pair in \<open>auto dest: abandon_not\<close>)
qed

lemma insert_step_ok:
  assumes ok: "db_ok d" and "insert_step jv row d = Inr (d', x)" and "ms_id row = steps_seq d + 1"
    and "ms_status row = Intent \<longleftrightarrow> ms_completed_at row = None"
  shows "db_ok d'"
proof -
  have d': "d' = d\<lparr>steps := steps d @ [row], steps_seq := ms_id row\<rparr>"
    using assms(2) by (auto simp: insert_step_def split: if_splits)
  have "\<forall>s \<in> set (steps d). ms_id s \<noteq> ms_id row" using ok assms(3) by (force simp: db_ok_def keys_ok_def)
  then show ?thesis
    using ok assms(3,4) by (fastforce simp: db_ok_def keys_ok_def claims_ok_def recovery_ok_def rows_ok_def d')
qed

lemma step_begin_ok: "db_ok d \<Longrightarrow> db_ok (fst (step_begin jv new d))"
  unfolding step_begin_def by (rule run_tx_preserves) (auto elim: insert_step_ok)

lemma step_not_needed_ok: "db_ok d \<Longrightarrow> db_ok (fst (step_not_needed jv i rid step now detail d))"
  unfolding step_not_needed_def by (rule run_tx_preserves) (auto elim: insert_step_ok)

lemma step_finish_ok:
  assumes ok: "db_ok d" shows "db_ok (fst (step_finish jv sid status now readback detail d))"
  unfolding step_finish_def
proof (rule run_tx_preserves, goal_cases)
  case 1 show ?case by (rule ok)
next
  case (2 d' y)
  then obtain s t where s: "replaced s (s\<lparr>ms_status := status, ms_completed_at := Some now,
      readback_json := readback, ms_detail := detail\<rparr>) (steps d) t" "status \<noteq> Intent"
    and d': "d' = d\<lparr>steps := t\<rparr>"
    by (auto simp: bind_result_Ok_iff Let_def dest!: one_row_replaced split: if_splits)
  have m: "map ms_id t = map ms_id (steps d)" by (rule replaced_map[OF s(1)]) simp
  have "\<forall>x \<in> set t. ms_status x = Intent \<longleftrightarrow> ms_completed_at x = None"
    using rows_okD(3)[OF ok] s(2) by (auto simp: replaced_set[OF s(1)])
  then show ?case
    using ok map_bound[OF m] by (simp add: d' db_ok_def keys_ok_def claims_ok_def recovery_ok_def rows_ok_def m)
qed

end
