(* ===== verification/Db_Runs.thy ===== *)
theory Db_Runs
  imports Db_Invariant
begin

text \<open>
  Tune runs and demo sessions (\<open>bhtune-db/src/models/tune_runs.rs\<close>, \<open>models/demo_sessions.rs\<close>):
  starting a run, the updates of a run row, terminal outcomes, filtered and paged listing, the
  deletions with their cascades over the child tables, retention of demo history, and sessions.
  Rows with equal sort keys are listed in insertion order, an order SQLite leaves open.
\<close>

section \<open>Filters and pages\<close>

record tune_run_filter =
  f_loop_id :: "int option"
  f_demo_session_id :: "int option"
  f_process_type :: "process_type option"
  f_controller_type :: "controller_type option"
  f_outcome :: "tune_outcome option"
  f_driver :: "tune_driver option"
  f_opc_server :: "string option"
  f_bridge_host :: "string option"
  f_started_after :: "timestamp option"
  f_started_before :: "timestamp option"
  f_template_name :: "string option"
  f_template_origin :: "template_origin option"

definition filter_default :: tune_run_filter where
  "filter_default = \<lparr> f_loop_id = None, f_demo_session_id = None, f_process_type = None,
     f_controller_type = None, f_outcome = None, f_driver = None, f_opc_server = None,
     f_bridge_host = None, f_started_after = None, f_started_before = None,
     f_template_name = None, f_template_origin = None \<rparr>"

definition with_demo_session_id :: "tune_run_filter \<Rightarrow> int \<Rightarrow> tune_run_filter" where
  "with_demo_session_id f x = f\<lparr>f_demo_session_id := Some x\<rparr>"
definition with_loop_id :: "tune_run_filter \<Rightarrow> int \<Rightarrow> tune_run_filter" where
  "with_loop_id f x = f\<lparr>f_loop_id := Some x\<rparr>"
definition filter_with_process_type :: "tune_run_filter \<Rightarrow> process_type \<Rightarrow> tune_run_filter" where
  "filter_with_process_type f x = f\<lparr>f_process_type := Some x\<rparr>"
definition with_controller_type :: "tune_run_filter \<Rightarrow> controller_type \<Rightarrow> tune_run_filter" where
  "with_controller_type f x = f\<lparr>f_controller_type := Some x\<rparr>"
definition with_outcome :: "tune_run_filter \<Rightarrow> tune_outcome \<Rightarrow> tune_run_filter" where
  "with_outcome f x = f\<lparr>f_outcome := Some x\<rparr>"
definition with_driver :: "tune_run_filter \<Rightarrow> tune_driver \<Rightarrow> tune_run_filter" where
  "with_driver f x = f\<lparr>f_driver := Some x\<rparr>"
definition with_opc_server :: "tune_run_filter \<Rightarrow> string \<Rightarrow> tune_run_filter" where
  "with_opc_server f x = f\<lparr>f_opc_server := Some x\<rparr>"
definition with_bridge_host :: "tune_run_filter \<Rightarrow> string \<Rightarrow> tune_run_filter" where
  "with_bridge_host f x = f\<lparr>f_bridge_host := Some x\<rparr>"
definition with_started_after :: "tune_run_filter \<Rightarrow> timestamp \<Rightarrow> tune_run_filter" where
  "with_started_after f x = f\<lparr>f_started_after := Some x\<rparr>"
definition with_started_before :: "tune_run_filter \<Rightarrow> timestamp \<Rightarrow> tune_run_filter" where
  "with_started_before f x = f\<lparr>f_started_before := Some x\<rparr>"
definition with_template_name :: "tune_run_filter \<Rightarrow> string \<Rightarrow> tune_run_filter" where
  "with_template_name f x = f\<lparr>f_template_name := Some x\<rparr>"
definition with_template_origin :: "tune_run_filter \<Rightarrow> template_origin \<Rightarrow> tune_run_filter" where
  "with_template_origin f x = f\<lparr>f_template_origin := Some x\<rparr>"

text \<open>One optional condition of the \<open>WHERE\<close> clause.\<close>

definition cond :: "'a option \<Rightarrow> ('a \<Rightarrow> bool) \<Rightarrow> bool" where
  "cond x p = (case x of None \<Rightarrow> True | Some v \<Rightarrow> p v)"

definition push_filter :: "tune_run_filter \<Rightarrow> tune_run_row \<Rightarrow> bool" where
  "push_filter f r \<longleftrightarrow>
     cond (f_loop_id f) (\<lambda>v. loop_id r = Some v) \<and>
     cond (f_demo_session_id f) (\<lambda>v. demo_session_id r = Some v) \<and>
     cond (f_process_type f) (\<lambda>v. lc_process_type (run_config r) = v) \<and>
     cond (f_controller_type f) (\<lambda>v. lc_controller_type (run_config r) = v) \<and>
     cond (f_outcome f) (\<lambda>v. outcome r = v) \<and>
     cond (f_driver f) (\<lambda>v. driver r = v) \<and>
     cond (f_opc_server f) (\<lambda>v. opc_server r = Some v) \<and>
     cond (f_bridge_host f) (\<lambda>v. bridge_host r = Some v) \<and>
     cond (f_started_after f) (\<lambda>v. v \<le> started_at r) \<and>
     cond (f_started_before f) (\<lambda>v. started_at r \<le> v) \<and>
     cond (f_template_name f) (\<lambda>v. t_name (run_template r) = v) \<and>
     cond (f_template_origin f) (\<lambda>v. run_template_origin r = v)"

definition deletable_recovery_guard :: "tune_run_row \<Rightarrow> bool" where
  "deletable_recovery_guard r \<longleftrightarrow>
     recovery_state r \<notin> {Some RecEligible, Some RecRunning, Some RecIncomplete}"

record pagination =
  limit :: int
  offset :: int

definition pagination_first :: "int \<Rightarrow> pagination" where
  "pagination_first n = \<lparr> limit = n, offset = 0 \<rparr>"

definition pagination_default :: pagination where
  "pagination_default = \<lparr> limit = 50, offset = 0 \<rparr>"

definition page :: "pagination \<Rightarrow> 'r list \<Rightarrow> 'r list" where
  "page p xs = (let ys = drop (nat (offset p)) xs
                in if limit p < 0 then ys else take (nat (limit p)) ys)"

section \<open>Starting a run\<close>

text \<open>A demo session a run may be attached to at the time \<open>now\<close>, as the statement asks and as the
  insert trigger asks again.\<close>

definition session_open :: "int \<Rightarrow> timestamp \<Rightarrow> demo_session_row \<Rightarrow> bool" where
  "session_open i now s \<longleftrightarrow> ds_id s = i \<and> revoked_at s = None \<and> now < expires_at s"

definition demo_run_limit :: nat where "demo_run_limit = 5000"

definition insert_triggers_ok :: "tune_run_row \<Rightarrow> db \<Rightarrow> bool" where
  "insert_triggers_ok r d =
     (case demo_session_id r of
        None \<Rightarrow> True
      | Some i \<Rightarrow>
          affected (\<lambda>x. demo_session_id x \<noteq> None) (runs d) < demo_run_limit \<and>
          driver r = Simulator \<and>
          exists_row (\<lambda>s. session_open i (started_at r) s \<and> ds_created_at s \<le> started_at r)
            (demo_sessions d))"

record run_start =
  rs_loop_id :: "int option"
  rs_loop_name :: string
  rs_driver :: tune_driver
  rs_config :: loop_config
  rs_template_origin :: template_origin
  rs_template :: dcs_template
  rs_tags :: loop_tags

definition new_run_row :: "int option \<Rightarrow> run_start \<Rightarrow> timestamp \<Rightarrow> db \<Rightarrow> tune_run_row" where
  "new_run_row session st now d =
     \<lparr> run_id = runs_seq d + 1, loop_id = rs_loop_id st, demo_session_id = session,
       loop_name = rs_loop_name st, driver = rs_driver st, opc_server = None, bridge_host = None,
       started_at = now, completed_at = None, outcome = OutRunning, failure_reason = None,
       run_config = rs_config st, run_template_origin = rs_template_origin st,
       run_template = rs_template st, run_tags = rs_tags st, request_json = ''{}'',
       run_notes = None, run_initial_readings = None, allow_uncertain_quality = False,
       run_timing_metrics = None, run_effective_tuning = None, gateway_compatibility_json = None,
       run_restore_status = None, restore_detail = None, recovery_state = None,
       recovery_evidence_json = None, created_at = now \<rparr>"

definition start_with_demo_session ::
  "(string \<Rightarrow> bool) \<Rightarrow> int option \<Rightarrow> run_start \<Rightarrow> timestamp \<Rightarrow> db
   \<Rightarrow> db \<times> (db_error, tune_run_row) result" where
  "start_with_demo_session jv session st now = run_tx (\<lambda>d.
     let r = new_run_row session st now d in
     if \<not> cond session (\<lambda>i. exists_row (session_open i now) (demo_sessions d)) then Inl (Err Query)
     else if run_check jv r \<and> insert_triggers_ok r d \<and> cond (rs_loop_id st) (\<lambda>l. l \<in> set (loop_ids d))
     then Inr (d\<lparr>runs := runs d @ [r], runs_seq := run_id r\<rparr>, r)
     else Inl (Err Query))"

definition run_start_op ::
  "(string \<Rightarrow> bool) \<Rightarrow> run_start \<Rightarrow> timestamp \<Rightarrow> db \<Rightarrow> db \<times> (db_error, tune_run_row) result" where
  "run_start_op jv st now = start_with_demo_session jv None st now"

definition start_owned ::
  "(string \<Rightarrow> bool) \<Rightarrow> int \<Rightarrow> run_start \<Rightarrow> timestamp \<Rightarrow> db
   \<Rightarrow> db \<times> (db_error, tune_run_row) result" where
  "start_owned jv i st now =
     start_with_demo_session jv (Some i) (st\<lparr>rs_loop_id := None, rs_driver := Simulator\<rparr>) now"

section \<open>Updates of one run\<close>

text \<open>\<open>UPDATE tune_runs SET f WHERE id = ? RETURNING *\<close>, fetching the one row.\<close>

definition update_run ::
  "(string \<Rightarrow> bool) \<Rightarrow> int \<Rightarrow> (tune_run_row \<Rightarrow> tune_run_row) \<Rightarrow> db
   \<Rightarrow> db \<times> (db_error, tune_run_row) result" where
  "update_run jv rid f = run_tx (\<lambda>d.
     bind_result (one_row (sql_update (run_check jv) (\<lambda>r. run_id r = rid) f (runs d)) (Err Query)) (\<lambda>rs.
     Inr (d\<lparr>runs := rs\<rparr>, f (hd (filter (\<lambda>r. run_id r = rid) (runs d))))))"

definition record_connection where
  "record_connection jv rid server host request =
     update_run jv rid (\<lambda>r. r\<lparr>opc_server := server, bridge_host := host, request_json := request\<rparr>)"

definition record_effective_tuning where
  "record_effective_tuning jv rid e = update_run jv rid (\<lambda>r. r\<lparr>run_effective_tuning := Some e\<rparr>)"

definition record_gateway_compatibility where
  "record_gateway_compatibility jv rid g =
     update_run jv rid (\<lambda>r. r\<lparr>gateway_compatibility_json := Some g\<rparr>)"

definition update_notes where
  "update_notes jv rid n = update_run jv rid (\<lambda>r. r\<lparr>run_notes := n\<rparr>)"

definition record_initial_readings where
  "record_initial_readings jv rid x = update_run jv rid (\<lambda>r. r\<lparr>run_initial_readings := Some x\<rparr>)"

definition record_allow_uncertain_quality where
  "record_allow_uncertain_quality jv rid b =
     update_run jv rid (\<lambda>r. r\<lparr>allow_uncertain_quality := b\<rparr>)"

definition record_timing_metrics where
  "record_timing_metrics jv rid m = update_run jv rid (\<lambda>r. r\<lparr>run_timing_metrics := Some m\<rparr>)"

definition record_restore_status where
  "record_restore_status jv rid s detail =
     update_run jv rid (\<lambda>r. r\<lparr>run_restore_status := Some s, restore_detail := detail\<rparr>)"

definition run_complete where
  "run_complete jv rid fin = update_run jv rid (\<lambda>r. r\<lparr>outcome := OutCompleted, completed_at := Some fin\<rparr>)"

definition run_fail where
  "run_fail jv rid fin reason =
     update_run jv rid (\<lambda>r. r\<lparr>outcome := OutFailed, completed_at := Some fin,
                           failure_reason := Some reason\<rparr>)"

definition run_abort where
  "run_abort jv rid fin = update_run jv rid (\<lambda>r. r\<lparr>outcome := OutAborted, completed_at := Some fin\<rparr>)"

definition set_terminal_outcome_with_timing_metrics where
  "set_terminal_outcome_with_timing_metrics jv rid fin out metrics reason =
     update_run jv rid (\<lambda>r. r\<lparr>outcome := out, completed_at := Some fin, run_timing_metrics := metrics,
                           failure_reason := reason\<rparr>)"

definition complete_with_timing_metrics where
  "complete_with_timing_metrics jv rid fin metrics =
     set_terminal_outcome_with_timing_metrics jv rid fin OutCompleted metrics None"

definition abort_with_timing_metrics where
  "abort_with_timing_metrics jv rid fin metrics =
     set_terminal_outcome_with_timing_metrics jv rid fin OutAborted metrics None"

definition abort_with_timing_metrics_and_reason where
  "abort_with_timing_metrics_and_reason jv rid fin metrics reason =
     set_terminal_outcome_with_timing_metrics jv rid fin OutAborted metrics (Some reason)"

section \<open>Queries\<close>

definition run_get :: "int \<Rightarrow> db \<Rightarrow> tune_run_row option" where
  "run_get i d = List.find (\<lambda>r. run_id r = i) (runs d)"

definition get_for_demo_session :: "int \<Rightarrow> int \<Rightarrow> db \<Rightarrow> tune_run_row option" where
  "get_for_demo_session i session d =
     List.find (\<lambda>r. run_id r = i \<and> demo_session_id r = Some session) (runs d)"

definition run_list :: "tune_run_filter \<Rightarrow> pagination \<Rightarrow> db \<Rightarrow> tune_run_row list" where
  "run_list f p d = page p (sort_key (\<lambda>r. - started_at r) (filter (push_filter f) (runs d)))"

definition run_count :: "tune_run_filter \<Rightarrow> db \<Rightarrow> nat" where
  "run_count f d = affected (push_filter f) (runs d)"

definition count_deletable_matching :: "tune_run_filter \<Rightarrow> db \<Rightarrow> nat" where
  "count_deletable_matching f d =
     affected (\<lambda>r. push_filter f r \<and> deletable_recovery_guard r) (runs d)"

text \<open>Newest first: by start time, then by id.\<close>

definition newest_first :: "tune_run_row list \<Rightarrow> tune_run_row list" where
  "newest_first t = order_by (\<lambda>r. - started_at r) (\<lambda>r. - run_id r) t"

definition list_for_demo_session :: "int \<Rightarrow> pagination \<Rightarrow> db \<Rightarrow> tune_run_row list" where
  "list_for_demo_session session p d =
     page p (newest_first (filter (\<lambda>r. demo_session_id r = Some session) (runs d)))"

definition newest_for_demo_session :: "int \<Rightarrow> db \<Rightarrow> tune_run_row option" where
  "newest_for_demo_session session d =
     (case newest_first (filter (\<lambda>r. demo_session_id r = Some session) (runs d)) of
        [] \<Rightarrow> None | r # _ \<Rightarrow> Some r)"

definition count_for_demo_session :: "int \<Rightarrow> db \<Rightarrow> nat" where
  "count_for_demo_session session d = affected (\<lambda>r. demo_session_id r = Some session) (runs d)"

definition count_demo_owned :: "db \<Rightarrow> nat" where
  "count_demo_owned d = affected (\<lambda>r. demo_session_id r \<noteq> None) (runs d)"

section \<open>Deletion\<close>

text \<open>\<open>DELETE FROM tune_runs WHERE P\<close> with the schema's cascades: the owners, mutation steps,
  recovery attempts, MV actuations and writes of a deleted run go with it, and the claims and steps
  of a deleted owner.  Attempts refer to owners without a cascade, so the statement is rejected when
  an attempt that stays refers to an owner that goes.\<close>

definition delete_runs :: "(tune_run_row \<Rightarrow> bool) \<Rightarrow> db \<Rightarrow> (db \<times> nat) option" where
  "delete_runs P d =
     (let gone = (\<lambda>i. exists_row (\<lambda>r. P r \<and> run_id r = i) (runs d));
          gone_opt = (\<lambda>i. case i of None \<Rightarrow> False | Some j \<Rightarrow> gone j);
          gone_owner = (\<lambda>i. exists_row (\<lambda>o'. gone_opt (lo_run_id o') \<and> lo_id o' = i) (owners d));
          kept_attempts = delete_where (\<lambda>a. gone (at_run_id a)) (attempts d)
      in if exists_row (\<lambda>a. gone_owner (source_owner_id a) \<or> gone_owner (recovery_owner_id a)) kept_attempts
         then None
         else Some (d\<lparr>runs := delete_where P (runs d),
                      owners := delete_where (\<lambda>o'. gone_opt (lo_run_id o')) (owners d),
                      claims := delete_where (\<lambda>c. gone_owner (cl_owner_id c)) (claims d),
                      steps := delete_where (\<lambda>s. gone_opt (ms_run_id s) \<or> gone_owner (ms_owner_id s)) (steps d),
                      attempts := kept_attempts,
                      actuations := delete_where (\<lambda>a. gone (mva_run_id a)) (actuations d),
                      writes := delete_where (\<lambda>w. gone (tw_run_id w)) (writes d)\<rparr>,
                    affected P (runs d)))"

definition delete_runs_op ::
  "(db \<Rightarrow> tune_run_row \<Rightarrow> bool) \<Rightarrow> db \<Rightarrow> db \<times> (db_error, nat) result" where
  "delete_runs_op P = run_tx (\<lambda>d. case delete_runs (P d) d of None \<Rightarrow> Inl (Err Query) | Some p \<Rightarrow> Inr p)"

definition delete_matching :: "tune_run_filter \<Rightarrow> db \<Rightarrow> db \<times> (db_error, nat) result" where
  "delete_matching f = delete_runs_op (\<lambda>d r. push_filter f r \<and> deletable_recovery_guard r)"

definition run_delete :: "int \<Rightarrow> db \<Rightarrow> db \<times> (db_error, bool) result" where
  "run_delete i d =
     (let (d', x) = delete_runs_op (\<lambda>d r. run_id r = i \<and> deletable_recovery_guard r) d
      in (d', map_sum id (\<lambda>n. 0 < n) x))"

definition delete_for_demo_session :: "int \<Rightarrow> int \<Rightarrow> db \<Rightarrow> db \<times> (db_error, bool) result" where
  "delete_for_demo_session i session d =
     (let (d', x) = delete_runs_op (\<lambda>d r. run_id r = i \<and> demo_session_id r = Some session) d
      in (d', map_sum id (\<lambda>n. 0 < n) x))"

definition prune_terminal_for_demo_session ::
  "int \<Rightarrow> u32 \<Rightarrow> db \<Rightarrow> db \<times> (db_error, nat) result" where
  "prune_terminal_for_demo_session session retain = delete_runs_op (\<lambda>d r.
     run_id r \<in> set (map run_id (drop (unat retain)
       (newest_first (filter (\<lambda>x. demo_session_id x = Some session \<and> outcome x \<noteq> OutRunning)
         (runs d))))))"

text \<open>\<open>ROW_NUMBER() OVER (PARTITION BY demo_session_id ORDER BY started_at DESC, id DESC)\<close> over
  the terminal demo runs: the rows of the partition that do not come after this one.\<close>

definition terminal_demo :: "tune_run_row \<Rightarrow> bool" where
  "terminal_demo r \<longleftrightarrow> demo_session_id r \<noteq> None \<and> outcome r \<noteq> OutRunning"

definition not_after :: "tune_run_row \<Rightarrow> tune_run_row \<Rightarrow> bool" where
  "not_after x r \<longleftrightarrow>
     started_at r < started_at x \<or> started_at x = started_at r \<and> run_id r \<le> run_id x"

definition retention_rank :: "tune_run_row \<Rightarrow> db \<Rightarrow> nat" where
  "retention_rank r d =
     affected (\<lambda>x. terminal_demo x \<and> demo_session_id x = demo_session_id r \<and> not_after x r) (runs d)"

definition prune_terminal_demo_owned :: "u32 \<Rightarrow> db \<Rightarrow> db \<times> (db_error, nat) result" where
  "prune_terminal_demo_owned retain =
     delete_runs_op (\<lambda>d r. terminal_demo r \<and> unat retain < retention_rank r d)"

section \<open>Demo sessions\<close>

definition session_get ::
  "string \<Rightarrow> timestamp \<Rightarrow> db \<Rightarrow> db \<times> (db_error, demo_session_row option) result" where
  "session_get token now d =
     (let P = (\<lambda>s. token_hash s = token \<and> revoked_at s = None \<and> now < expires_at s);
          f = (\<lambda>s. s\<lparr>last_seen_at := max (last_seen_at s) now\<rparr>)
      in (d\<lparr>demo_sessions := update_where P f (demo_sessions d)\<rparr>,
          Ok (map_option f (List.find P (demo_sessions d)))))"

text \<open>The columns' checks: 64 lower-case hexadecimal digits, and an expiry after creation.\<close>

definition session_check :: "demo_session_row \<Rightarrow> bool" where
  "session_check s \<longleftrightarrow>
     length (token_hash s) = 64 \<and> list_all (\<lambda>c. c \<in> set ''0123456789abcdef'') (token_hash s) \<and>
     ds_created_at s < expires_at s"

definition session_get_or_create ::
  "string \<Rightarrow> timestamp \<Rightarrow> timestamp \<Rightarrow> db \<Rightarrow> db \<times> (db_error, demo_session_row) result" where
  "session_get_or_create token now expires d =
     (let s = \<lparr> ds_id = demo_sessions_seq d + 1, token_hash = token, ds_created_at = now,
               last_seen_at = now, expires_at = expires, revoked_at = None \<rparr>
      in if \<not> session_check s then (d, Err Query)
         else if \<not> exists_row (\<lambda>x. token_hash x = token) (demo_sessions d)
         then (d\<lparr>demo_sessions := demo_sessions d @ [s], demo_sessions_seq := ds_id s\<rparr>, Ok s)
         else (case session_get token now d of
                 (d', Ok (Some x)) \<Rightarrow> (d', Ok x)
               | (d', _) \<Rightarrow> (d', Err Query)))"

definition session_create where
  "session_create token now expires = session_get_or_create token now expires"

definition touch_by_token_hash where
  "touch_by_token_hash token now = session_get token now"

definition session_revoke :: "int \<Rightarrow> timestamp \<Rightarrow> db \<Rightarrow> db \<times> (db_error, bool) result" where
  "session_revoke i now d =
     (let P = (\<lambda>s. ds_id s = i \<and> revoked_at s = None);
          f = (\<lambda>s. s\<lparr>revoked_at := Some now\<rparr>)
      in if list_ex (\<lambda>s. P s \<and> now < ds_created_at s) (demo_sessions d) then (d, Err Query)
         else (d\<lparr>demo_sessions := update_where P f (demo_sessions d)\<rparr>,
               Ok (affected P (demo_sessions d) \<noteq> 0)))"

text \<open>Deleting a session cascades to its runs.\<close>

definition cleanup_expired :: "timestamp \<Rightarrow> db \<Rightarrow> db \<times> (db_error, nat) result" where
  "cleanup_expired now d =
     (let P = (\<lambda>s. (expires_at s \<le> now \<or> revoked_at s \<noteq> None) \<and>
                 \<not> exists_row (\<lambda>r. demo_session_id r = Some (ds_id s) \<and> outcome r = OutRunning) (runs d));
          n = affected P (demo_sessions d);
          Q = (\<lambda>r. exists_row (\<lambda>s. P s \<and> demo_session_id r = Some (ds_id s)) (demo_sessions d))
      in case delete_runs Q d of
           None \<Rightarrow> (d, Err Query)
         | Some (d', _) \<Rightarrow> (d'\<lparr>demo_sessions := delete_where P (demo_sessions d')\<rparr>, Ok n))"

definition DEMO_RESTART_INTERRUPTED_REASON :: string where
  "DEMO_RESTART_INTERRUPTED_REASON = ''demo run was interrupted by a server restart''"

definition recover_running_demo_runs ::
  "(string \<Rightarrow> bool) \<Rightarrow> timestamp \<Rightarrow> db \<Rightarrow> db \<times> (db_error, nat) result" where
  "recover_running_demo_runs jv now d =
     (case sql_update (run_check jv) (\<lambda>r. demo_session_id r \<noteq> None \<and> outcome r = OutRunning)
             (\<lambda>r. r\<lparr>outcome := OutFailed, completed_at := Some now,
                    failure_reason := Some DEMO_RESTART_INTERRUPTED_REASON\<rparr>) (runs d) of
        None \<Rightarrow> (d, Err Query)
      | Some (rs, n) \<Rightarrow> (d\<lparr>runs := rs\<rparr>, Ok n))"

end
