(* ===== verification/Db_Actuations.thy ===== *)
theory Db_Actuations
  imports Db_Runs
begin

text \<open>
  The audit tables of the database crate: accepted manipulated-variable commands
  (\<open>models/tune_mv_actuations.rs\<close>) and PID write-backs (\<open>models/tune_writes.rs\<close>).

  A NaN bound to a \<open>REAL\<close> column is stored as \<open>NULL\<close>: a \<open>NOT NULL\<close> column rejects it, a nullable
  column reads back as \<open>None\<close>.
\<close>

section \<open>MV actuations\<close>

definition ensure_terminal :: "mv_actuation_status \<Rightarrow> (db_error, unit) result" where
  "ensure_terminal s = (if s = Pending then Err InvalidMvActuationFinalStatus else Ok ())"

definition real_column :: "f32 option \<Rightarrow> f32 option" where
  "real_column x = (case x of None \<Rightarrow> None | Some v \<Rightarrow> if v = NaN then None else Some v)"

definition actuation_check :: "tune_mv_actuation_row \<Rightarrow> bool" where
  "actuation_check a \<longleftrightarrow>
     0 \<le> mva_sequence a \<and> target_mv a \<noteq> NaN \<and> fl_le (Fin 0) (tolerance a) \<and> 0 \<le> attempt_count a"

definition insert_pending ::
  "int \<Rightarrow> new_tune_mv_actuation \<Rightarrow> db \<Rightarrow> db \<times> (db_error, tune_mv_actuation_row) result" where
  "insert_pending rid new = run_tx (\<lambda>d.
     let a = \<lparr> mva_id = actuations_seq d + 1, mva_run_id = rid, mva_sequence = nmva_sequence new,
               mva_kind = nmva_kind new, commanded_at = nmva_commanded_at new,
               target_mv = nmva_target_mv new,
               previous_commanded_mv = real_column (nmva_previous_commanded_mv new),
               tolerance = nmva_tolerance new,
               confirmation_due_at = nmva_confirmation_due_at new, last_checked_at = None,
               readback_mv = None, readback_quality = None, attempt_count = 0,
               mva_status = Pending, mva_detail = None \<rparr>
     in if actuation_check a \<and> exists_row (\<lambda>r. run_id r = rid) (runs d) \<and>
           \<not> exists_row (\<lambda>x. mva_run_id x = rid \<and> mva_sequence x = mva_sequence a) (actuations d)
        then Inr (d\<lparr>actuations := actuations d @ [a], actuations_seq := mva_id a\<rparr>, a)
        else Inl (Err Query))"

text \<open>\<open>UPDATE tune_mv_actuations SET f WHERE id = ? AND status = 'pending' RETURNING *\<close>.\<close>

definition update_pending ::
  "int \<Rightarrow> (tune_mv_actuation_row \<Rightarrow> tune_mv_actuation_row) \<Rightarrow> db
   \<Rightarrow> db \<times> (db_error, tune_mv_actuation_row) result" where
  "update_pending i f = run_tx (\<lambda>d.
     let P = (\<lambda>a. mva_id a = i \<and> mva_status a = Pending)
     in bind_result (one_row (sql_update actuation_check P f (actuations d)) (Err Query)) (\<lambda>t.
        Inr (d\<lparr>actuations := t\<rparr>, f (hd (filter P (actuations d))))))"

definition observed ::
  "timestamp \<Rightarrow> f32 option \<Rightarrow> sample_quality option \<Rightarrow> tune_mv_actuation_row \<Rightarrow> tune_mv_actuation_row" where
  "observed checked rb q a =
     a\<lparr>last_checked_at := Some checked, readback_mv := real_column rb, readback_quality := q,
       attempt_count := attempt_count a + 1\<rparr>"

definition record_observation ::
  "int \<Rightarrow> timestamp \<Rightarrow> f32 option \<Rightarrow> sample_quality option \<Rightarrow> db
   \<Rightarrow> db \<times> (db_error, tune_mv_actuation_row) result" where
  "record_observation i checked rb q = update_pending i (observed checked rb q)"

definition record_final_observation ::
  "int \<Rightarrow> timestamp \<Rightarrow> f32 option \<Rightarrow> sample_quality option \<Rightarrow> mv_actuation_status \<Rightarrow> string option
   \<Rightarrow> db \<Rightarrow> db \<times> (db_error, tune_mv_actuation_row) result" where
  "record_final_observation i checked rb q status detail d =
     (case ensure_terminal status of
        Inl e \<Rightarrow> (d, Err e)
      | Inr _ \<Rightarrow> update_pending i (\<lambda>a. (observed checked rb q a)\<lparr>mva_status := status, mva_detail := detail\<rparr>) d)"

definition actuation_finalize ::
  "int \<Rightarrow> mv_actuation_status \<Rightarrow> string option \<Rightarrow> db \<Rightarrow> db \<times> (db_error, tune_mv_actuation_row) result" where
  "actuation_finalize i status detail d =
     (case ensure_terminal status of
        Inl e \<Rightarrow> (d, Err e)
      | Inr _ \<Rightarrow> update_pending i (\<lambda>a. a\<lparr>mva_status := status, mva_detail := detail\<rparr>) d)"

definition finalize_pending_for_run ::
  "int \<Rightarrow> mv_actuation_status \<Rightarrow> string option \<Rightarrow> db \<Rightarrow> db \<times> (db_error, nat) result" where
  "finalize_pending_for_run rid status detail d =
     (case ensure_terminal status of
        Inl e \<Rightarrow> (d, Err e)
      | Inr _ \<Rightarrow>
          (case sql_update actuation_check (\<lambda>a. mva_run_id a = rid \<and> mva_status a = Pending)
                  (\<lambda>a. a\<lparr>mva_status := status, mva_detail := detail\<rparr>) (actuations d) of
             None \<Rightarrow> (d, Err Query)
           | Some (t, n) \<Rightarrow> (d\<lparr>actuations := t\<rparr>, Ok n)))"

definition actuations_for_run :: "int \<Rightarrow> db \<Rightarrow> tune_mv_actuation_row list" where
  "actuations_for_run rid d =
     order_by mva_sequence mva_id (filter (\<lambda>a. mva_run_id a = rid) (actuations d))"

section \<open>Write-backs\<close>

definition new_write :: "response_level \<Rightarrow> timestamp \<Rightarrow> new_tune_write" where
  "new_write lvl now =
     \<lparr> nw_response_level = lvl, nw_written_at = now, nw_kind = WWrite,
       nw_allow_uncertain_quality = True, nw_previous = None, proportional_written = None,
       integral_written = None, derivative_written = None, proportional_readback = None,
       integral_readback = None, derivative_readback = None, nw_success = False,
       error_message = None, nw_rollback_state = None, rollback_error = None \<rparr>"

text \<open>The three previous values are three columns; they read back as a triple only when none of
  them is \<open>NULL\<close>.\<close>

definition previous_columns :: "write_readback option \<Rightarrow> write_readback option" where
  "previous_columns p = (case p of None \<Rightarrow> None
     | Some w \<Rightarrow> if wr_proportional w = NaN \<or> wr_integral w = NaN \<or> wr_derivative w = NaN
                 then None else Some w)"

definition stored_write :: "int \<Rightarrow> int \<Rightarrow> new_tune_write \<Rightarrow> tune_write_row" where
  "stored_write i rid w =
     new_tune_write.extend
       (w\<lparr>nw_previous := previous_columns (nw_previous w),
          proportional_written := real_column (proportional_written w),
          integral_written := real_column (integral_written w),
          derivative_written := real_column (derivative_written w),
          proportional_readback := real_column (proportional_readback w),
          integral_readback := real_column (integral_readback w),
          derivative_readback := real_column (derivative_readback w)\<rparr>)
       \<lparr> tw_id = i, tw_run_id = rid \<rparr>"

definition write_insert ::
  "int \<Rightarrow> new_tune_write \<Rightarrow> db \<Rightarrow> db \<times> (db_error, tune_write_row) result" where
  "write_insert rid new = run_tx (\<lambda>d.
     let w = stored_write (writes_seq d + 1) rid new
     in if exists_row (\<lambda>r. run_id r = rid) (runs d)
        then Inr (d\<lparr>writes := writes d @ [w], writes_seq := tw_id w\<rparr>, w)
        else Inl (Err Query))"

definition writes_for_run :: "int \<Rightarrow> db \<Rightarrow> tune_write_row list" where
  "writes_for_run rid d = sort_key nw_written_at (filter (\<lambda>w. tw_run_id w = rid) (writes d))"

section \<open>Effects on the other tables\<close>

text \<open>\<open>d'\<close> is \<open>d\<close> but for the audit tables.\<close>

definition audit_only :: "db \<Rightarrow> db \<Rightarrow> bool" where
  "audit_only d d' \<longleftrightarrow>
     d' = d\<lparr>actuations := actuations d', actuations_seq := actuations_seq d',
            writes := writes d', writes_seq := writes_seq d'\<rparr>"

lemma audit_only_refl [simp, intro]: "audit_only d d"
  by (simp add: audit_only_def)

lemma audit_only_tx:
  assumes "\<And>d' y. body d = Inr (d', y) \<Longrightarrow> audit_only d d'"
  shows "audit_only d (fst (run_tx body d))"
  by (rule run_tx_preserves) (use assms in auto)

lemma audit_ops_only:
  "audit_only d (fst (insert_pending rid new d))"
  "audit_only d (fst (update_pending i f d))"
  "audit_only d (fst (record_observation i t rb q d))"
  "audit_only d (fst (record_final_observation i t rb q s x d))"
  "audit_only d (fst (actuation_finalize i s x d))"
  "audit_only d (fst (finalize_pending_for_run rid s x d))"
  "audit_only d (fst (write_insert rid w d))"
proof -
  show u: "audit_only d (fst (update_pending i f d))" for i f
    unfolding update_pending_def
    by (rule audit_only_tx) (auto simp: Let_def bind_result_Ok_iff audit_only_def)
  show "audit_only d (fst (insert_pending rid new d))"
    unfolding insert_pending_def by (rule audit_only_tx) (auto simp: Let_def audit_only_def split: if_splits)
  show "audit_only d (fst (write_insert rid w d))"
    unfolding write_insert_def by (rule audit_only_tx) (auto simp: Let_def audit_only_def split: if_splits)
  show "audit_only d (fst (record_observation i t rb q d))"
    "audit_only d (fst (record_final_observation i t rb q s x d))"
    "audit_only d (fst (actuation_finalize i s x d))"
    by (auto simp: record_observation_def record_final_observation_def actuation_finalize_def u split: sum.splits)
  show "audit_only d (fst (finalize_pending_for_run rid s x d))"
    by (auto simp: finalize_pending_for_run_def audit_only_def split: sum.splits option.splits)
qed

end
