(* ===== verification/Db_Lifecycle.thy ===== *)
theory Db_Lifecycle
  imports Db_Actuations
begin

text \<open>
  The operations of \<open>models/tune_runs.rs\<close> and \<open>models/demo_sessions.rs\<close> keep the database
  well-formed; deletions are never rejected and never touch an unresolved recovery; the one-statement
  retention of demo history is the per-session retention.  Then every operation of the database
  crate becomes a step of one transition relation, whose reachable states satisfy the invariant.
\<close>

section \<open>Run operations keep the database well-formed\<close>

lemma recovery_ok_mono:
  assumes "recovery_ok d" and "eligibles d' = eligibles d" and "running_attempts d' = running_attempts d"
    and "recovering_runs d' = recovering_runs d" and "unresolved_runs d \<subseteq> unresolved_runs d'"
    and "claimed_ids d' = claimed_ids d"
  shows "recovery_ok d'"
proof -
  note a = assms(1)[unfolded recovery_ok_def]
  then have "snd ` eligibles d \<subseteq> Some ` unresolved_runs d'" "recovering_runs d \<subseteq> unresolved_runs d'"
    using assms(5) by (meson image_mono subset_trans)+
  then show ?thesis unfolding recovery_ok_def assms(2-4,6) using a by simp
qed

lemma keyed_update_where_same:
  assumes "\<And>r. key (f r) = key r" and "\<And>r. Q (f r) = Q r"
  shows "keyed key Q (update_where P f t) = keyed key Q t"
  by (induction t) (simp_all add: update_where_def assms)

lemma runs_update_ok:
  assumes ok: "db_ok d" and ids: "map run_id rs = map run_id (runs d)"
    and rc: "keyed run_id (\<lambda>r. recovery_state r = Some RecRunning) rs = recovering_runs d"
    and un: "unresolved_runs d \<subseteq> keyed run_id is_unresolved rs"
  shows "db_ok (d\<lparr>runs := rs\<rparr>)"
proof -
  have "keys_ok (d\<lparr>runs := rs\<rparr>)"
    using ok map_bound[OF ids] by (simp add: db_ok_def keys_ok_def ids)
  moreover have "claims_ok (d\<lparr>runs := rs\<rparr>)" using ok by (simp add: db_ok_def claims_ok_def)
  moreover have "recovery_ok (d\<lparr>runs := rs\<rparr>)"
    by (rule recovery_ok_mono[of d]) (use ok rc un in \<open>simp_all add: db_ok_def\<close>)
  moreover have "rows_ok (d\<lparr>runs := rs\<rparr>)" using ok by (simp add: db_ok_def rows_ok_def)
  ultimately show ?thesis by (simp add: db_ok_def)
qed

text \<open>An update of run rows that keeps the id and the recovery state and starts no run again.\<close>

definition ends_or_keeps :: "(tune_run_row \<Rightarrow> tune_run_row) \<Rightarrow> bool" where
  "ends_or_keeps f \<longleftrightarrow> (\<forall>r. run_id (f r) = run_id r \<and> recovery_state (f r) = recovery_state r \<and>
     (outcome (f r) \<noteq> OutRunning \<or> outcome (f r) = outcome r))"

lemma update_where_runs_ok:
  assumes ok: "db_ok d" and f: "ends_or_keeps f"
  shows "db_ok (d\<lparr>runs := update_where P f (runs d)\<rparr>)"
proof (rule runs_update_ok[OF ok])
  show "map run_id (update_where P f (runs d)) = map run_id (runs d)"
    using f by (auto simp: update_where_def ends_or_keeps_def)
  show "keyed run_id (\<lambda>r. recovery_state r = Some RecRunning) (update_where P f (runs d)) = recovering_runs d"
    using f by (intro keyed_update_where_same) (simp_all add: ends_or_keeps_def)
  show "unresolved_runs d \<subseteq> keyed run_id is_unresolved (update_where P f (runs d))"
  proof
    fix i assume "i \<in> unresolved_runs d"
    then obtain r where "r \<in> set (runs d)" "is_unresolved r" "run_id r = i" by (auto simp: keyed_iff)
    then show "i \<in> keyed run_id is_unresolved (update_where P f (runs d))"
      using f unfolding keyed_iff ends_or_keeps_def is_unresolved_def
      by (intro bexI[of _ "if P r then f r else r"]) (auto simp: update_where_def)
  qed
qed

lemma update_run_ok:
  assumes ok: "db_ok d" and f: "ends_or_keeps f" shows "db_ok (fst (update_run jv rid f d))"
  unfolding update_run_def
proof (rule run_tx_preserves, goal_cases)
  case 1 show ?case by (rule ok)
next
  case (2 d' y)
  then have "d' = d\<lparr>runs := update_where (\<lambda>r. run_id r = rid) f (runs d)\<rparr>"
    by (auto simp: bind_result_Ok_iff dest: one_row_InrD(1))
  then show ?case using update_where_runs_ok[OF ok f] by simp
qed

lemmas run_update_defs =
  record_connection_def record_effective_tuning_def record_gateway_compatibility_def update_notes_def
  record_initial_readings_def record_allow_uncertain_quality_def record_timing_metrics_def
  record_restore_status_def run_complete_def run_fail_def run_abort_def
  complete_with_timing_metrics_def abort_with_timing_metrics_def
  abort_with_timing_metrics_and_reason_def set_terminal_outcome_with_timing_metrics_def

lemma start_run_ok: "db_ok d \<Longrightarrow> db_ok (fst (start_with_demo_session jv session st now d))"
  unfolding start_with_demo_session_def
proof (rule run_tx_preserves, goal_cases)
  case 1 then show ?case .
next
  case (2 d' r)
  then have r: "r = new_run_row session st now d" "d' = d\<lparr>runs := runs d @ [r], runs_seq := run_id r\<rparr>"
    by (auto simp: Let_def split: if_splits)
  have n: "run_id r = runs_seq d + 1" "recovery_state r = None" by (simp_all add: r(1) new_run_row_def)
  have "\<forall>x \<in> set (runs d). run_id x \<noteq> run_id r" using 2 n by (auto simp: db_ok_def keys_ok_def)
  then have "keys_ok d'" using 2 n by (force simp: db_ok_def keys_ok_def r(2))
  moreover have "recovery_ok d'"
    by (rule recovery_ok_mono[of d]) (use 2 n in \<open>simp_all add: db_ok_def r(2) is_unresolved_def\<close>)
  moreover have "claims_ok d'" "rows_ok d'" using 2 by (simp_all add: db_ok_def claims_ok_def rows_ok_def r(2))
  ultimately show ?case by (simp add: db_ok_def)
qed

lemma delete_runs_ok:
  assumes ok: "db_ok d" and del: "delete_runs P d = Some (d', n)"
  shows "db_ok d'"
proof -
  let ?gone = "\<lambda>i. exists_row (\<lambda>r. P r \<and> run_id r = i) (runs d)"
  let ?G = "\<lambda>i. case i of None \<Rightarrow> False | Some j \<Rightarrow> ?gone j"
  let ?go = "\<lambda>i. exists_row (\<lambda>o'. ?G (lo_run_id o') \<and> lo_id o' = i) (owners d)"
  have f: "runs d' = delete_where P (runs d)" "owners d' = delete_where (\<lambda>o'. ?G (lo_run_id o')) (owners d)"
    "claims d' = delete_where (\<lambda>c. ?go (cl_owner_id c)) (claims d)"
    "attempts d' = delete_where (\<lambda>a. ?gone (at_run_id a)) (attempts d)"
    "set (steps d') \<subseteq> set (steps d)" "distinct (map ms_id (steps d)) \<Longrightarrow> distinct (map ms_id (steps d'))"
    "owners_seq d' = owners_seq d" "runs_seq d' = runs_seq d" "attempts_seq d' = attempts_seq d"
    "steps_seq d' = steps_seq d"
    using del by (auto simp: delete_runs_def Let_def split: if_splits)
  have dis: "distinct (map lo_id (owners d))" "distinct (map run_id (runs d))"
    using ok by (simp_all add: db_ok_def keys_ok_def)
  have go: "?go (lo_id o') \<longleftrightarrow> ?G (lo_run_id o')" if "o' \<in> set (owners d)" for o'
    using that key_unique[OF dis(1) _ that] by (auto simp: list_ex_iff)
  have keep: "i \<notin> Collect ?gone \<longleftrightarrow> (\<forall>r \<in> set (runs d). P r \<longrightarrow> run_id r \<noteq> i)" for i
    by (auto simp: list_ex_iff)
  have A: "active_ids d' = active_ids d - {i. ?go i}"
    using go by (fastforce simp: keyed_def f(2))
  have E: "eligibles d' = {e \<in> eligibles d. \<not> ?G (snd e)}"
    by (auto simp: keyed_def f(2))
  have Ego: "?go (fst e) \<longleftrightarrow> ?G (snd e)" if "e \<in> eligibles d" for e
    using that go by (auto simp: keyed_def)
  have C: "claimed_ids d' = claimed_ids d - {i. ?go i}" by (auto simp: f(3))
  have U: "unresolved_runs d' = unresolved_runs d - Collect ?gone"
    using key_unique[OF dis(2)] by (fastforce simp: keyed_def f(1) list_ex_iff)
  have R: "recovering_runs d' = recovering_runs d - Collect ?gone"
    using key_unique[OF dis(2)] by (fastforce simp: keyed_def f(1) list_ex_iff)
  have RA: "running_attempts d' = {a \<in> running_attempts d. \<not> ?gone (snd a)}"
    by (auto simp: keyed_def f(4))
  have "keys_ok d'" using ok f(5,6) by (auto simp: db_ok_def keys_ok_def f(1-4,7-10))
  moreover have "claims_ok d'"
  proof -
    have a: "active_ids d \<subseteq> claimed_ids d" "claimed_ids d \<subseteq> active_ids d \<union> fst ` eligibles d"
      using ok by (simp_all add: db_ok_def claims_ok_def)
    have "claimed_ids d - {i. ?go i} \<subseteq> (active_ids d - {i. ?go i}) \<union> fst ` {e \<in> eligibles d. \<not> ?G (snd e)}"
    proof
      fix i assume i: "i \<in> claimed_ids d - {i. ?go i}"
      show "i \<in> (active_ids d - {i. ?go i}) \<union> fst ` {e \<in> eligibles d. \<not> ?G (snd e)}"
      proof (cases "i \<in> active_ids d")
        case False
        moreover have "i \<in> claimed_ids d" using i by (rule DiffD1)
        ultimately have "i \<in> fst ` eligibles d" using a(2) by (meson UnE subsetD)
        then obtain e where e: "e \<in> eligibles d" "fst e = i" by (elim imageE) simp
        from Ego[OF e(1)] have "?go i \<longleftrightarrow> ?G (snd e)" unfolding e(2) .
        then have "\<not> ?G (snd e)" using i by blast
        then show ?thesis using e by blast
      qed (use i in simp)
    qed
    moreover have "active_ids d - {i. ?go i} \<subseteq> claimed_ids d - {i. ?go i}" using a(1) by blast
    moreover have "distinct (map claim_key (claims d'))" "distinct (map cl_owner_id (claims d'))"
      using ok by (simp_all add: db_ok_def claims_ok_def f(3))
    ultimately show ?thesis unfolding claims_ok_def A C E by blast
  qed
  moreover have "recovery_ok d'"
  proof -
    note R' = recovery_okD[OF ok]
    have "snd ` {e \<in> eligibles d. \<not> ?G (snd e)} \<subseteq> Some ` (unresolved_runs d - Collect ?gone)"
    proof (rule image_subsetI)
      fix e assume "e \<in> {e \<in> eligibles d. \<not> ?G (snd e)}"
      then have e: "e \<in> eligibles d" "\<not> ?G (snd e)" by simp_all
      then obtain j where "j \<in> unresolved_runs d" "snd e = Some j" using R'(1) by blast
      then show "snd e \<in> Some ` (unresolved_runs d - Collect ?gone)" using e(2) by simp
    qed
    moreover have "snd ` {a \<in> running_attempts d. \<not> ?gone (snd a)} \<subseteq> recovering_runs d - Collect ?gone"
      using R'(3) by blast
    moreover have "inj_on snd {e \<in> eligibles d. \<not> ?G (snd e)}" by (rule inj_on_subset[OF R'(2)]) blast
    moreover have "inj_on snd {a \<in> running_attempts d. \<not> ?gone (snd a)}"
      by (rule inj_on_subset[OF R'(4)]) blast
    ultimately show ?thesis unfolding recovery_ok_def E U R RA C using R'(5,6) by blast
  qed
  moreover have "rows_ok d'" using ok f(5) by (auto simp: db_ok_def rows_ok_def f(2,4))
  ultimately show ?thesis by (simp add: db_ok_def)
qed
lemma delete_runs_op_ok: "db_ok d \<Longrightarrow> db_ok (fst (delete_runs_op P d))"
  unfolding delete_runs_op_def
  by (rule run_tx_preserves) (auto intro: delete_runs_ok split: option.splits)

lemma demo_sessions_ok: "db_ok (d\<lparr>demo_sessions := s\<rparr>) = db_ok d"
  by (simp add: db_ok_def keys_ok_def claims_ok_def recovery_ok_def rows_ok_def)

lemma demo_sessions_seq_ok: "db_ok (d\<lparr>demo_sessions := s, demo_sessions_seq := n\<rparr>) = db_ok d"
  by (simp add: db_ok_def keys_ok_def claims_ok_def recovery_ok_def rows_ok_def)

lemma session_get_ok: "db_ok d \<Longrightarrow> db_ok (fst (session_get token now d))"
  by (simp add: session_get_def demo_sessions_ok Let_def)

lemma session_get_or_create_ok: "db_ok d \<Longrightarrow> db_ok (fst (session_get_or_create token now expires d))"
  by (auto simp: session_get_or_create_def session_get_def demo_sessions_ok demo_sessions_seq_ok Let_def
      split: prod.splits sum.splits option.splits)

lemma session_revoke_ok: "db_ok d \<Longrightarrow> db_ok (fst (session_revoke i now d))"
  by (simp add: session_revoke_def demo_sessions_ok Let_def)

lemma cleanup_expired_ok: "db_ok d \<Longrightarrow> db_ok (fst (cleanup_expired now d))"
  by (auto simp: cleanup_expired_def demo_sessions_ok Let_def intro: delete_runs_ok
      split: option.splits prod.splits)

lemma recover_running_demo_runs_ok:
  assumes "db_ok d" shows "db_ok (fst (recover_running_demo_runs jv now d))"
proof -
  have "ends_or_keeps (\<lambda>r. r\<lparr>outcome := OutFailed, completed_at := Some now,
      failure_reason := Some DEMO_RESTART_INTERRUPTED_REASON\<rparr>)" by (simp add: ends_or_keeps_def)
  from update_where_runs_ok[OF assms this] show ?thesis using assms
    by (auto simp: recover_running_demo_runs_def dest!: sql_update_SomeD(1) split: option.splits prod.splits)
qed

section \<open>Deletions are never rejected\<close>

text \<open>Every attempt refers to owners of its own run, so a cascade over a run takes both.\<close>

abbreviation attempt_refs :: "tune_recovery_attempt_row \<Rightarrow> int \<times> int \<times> int" where
  "attempt_refs a \<equiv> (at_run_id a, source_owner_id a, recovery_owner_id a)"

definition refs_ok :: "db \<Rightarrow> bool" where
  "refs_ok d \<longleftrightarrow> (\<forall>(rid, s, r) \<in> attempt_refs ` set (attempts d).
     (s, Some rid) \<in> owner_and_run ` set (owners d) \<and> (r, Some rid) \<in> owner_and_run ` set (owners d))"

lemma owner_and_run_image:
  "(i, r) \<in> owner_and_run ` S \<longleftrightarrow> (\<exists>o' \<in> S. lo_id o' = i \<and> lo_run_id o' = r)"
  by (auto simp: image_iff)

lemma refs_ok_mono:
  assumes "refs_ok d" and "attempt_refs ` set (attempts d') \<subseteq> attempt_refs ` set (attempts d)"
    and "owner_and_run ` set (owners d) \<subseteq> owner_and_run ` set (owners d')"
  shows "refs_ok d'"
  using assms unfolding refs_ok_def by fast

lemma replaced_image:
  assumes "replaced r r' t t'" and "g r' = g r" shows "g ` set t' = g ` set t"
  using replaced_map[where g = g, OF assms] by (metis list.set_map)

lemma refs_ok_keep:
  assumes "refs_ok d" and "attempts d' = attempts d" and "owners d' = owners d"
  shows "refs_ok d'"
  using assms by (simp add: refs_ok_def)

lemma create_refs: "refs_ok d \<Longrightarrow> refs_ok (fst (create_and_claim jv new key d))"
  unfolding create_and_claim_def
  by (rule run_tx_preserves)
     (auto simp: bind_result_Ok_iff insert_owner_def Let_def elim!: refs_ok_mono
        split: option.splits if_splits)

lemma heartbeat_refs: "refs_ok d \<Longrightarrow> refs_ok (fst (heartbeat jv i now d))"
  unfolding heartbeat_def
  by (rule run_tx_preserves)
     (auto simp: bind_result_Ok_iff dest!: one_row_replaced replaced_image[where g = owner_and_run]
        elim!: refs_ok_mono)

lemma intent_refs: "refs_ok d \<Longrightarrow> refs_ok (fst (set_restore_intent jv i x d))"
  unfolding set_restore_intent_def
  by (rule run_tx_preserves)
     (auto simp: bind_result_Ok_iff dest!: one_row_replaced replaced_image[where g = owner_and_run]
        elim!: refs_ok_mono)

lemma release_refs: "refs_ok d \<Longrightarrow> refs_ok (fst (release jv i now d))"
  unfolding release_def
  by (rule run_tx_preserves)
     (auto simp: bind_result_Ok_iff dest!: one_row_replaced replaced_image[where g = owner_and_run]
        elim!: refs_ok_mono)

lemma orphan_refs: "refs_ok d \<Longrightarrow> refs_ok (fst (mark_orphaned jv u d))"
  unfolding mark_orphaned_def
  by (rule run_tx_preserves)
     (auto simp: bind_result_Ok_iff dest!: one_row_replaced replaced_image[where g = owner_and_run]
        elim!: refs_ok_mono)

lemma unrecoverable_refs: "refs_ok d \<Longrightarrow> refs_ok (fst (mark_orphaned_unrecoverable jv u d))"
  unfolding mark_orphaned_unrecoverable_def
  by (rule run_tx_preserves)
     (auto simp: bind_result_Ok_iff dest!: one_row_replaced replaced_image[where g = owner_and_run]
        elim!: refs_ok_mono)

lemma complete_refs:
  assumes "refs_ok d" shows "refs_ok (fst (complete_with_ownership jv u d))"
proof (cases "complete_with_ownership jv u d")
  case (Pair d' x)
  show ?thesis
  proof (cases x)
    case (Inr y)
    show ?thesis using Pair[unfolded Inr]
    proof (rule complete_commit, goal_cases)
      case (1 rest rec ostate eligible a ats q rs r t o' t' cs)
      have "attempt_refs ` set ats = attempt_refs ` set (attempts d)"
        by (rule replaced_image[OF 1(2)]) simp
      moreover have "owner_and_run ` set t' = owner_and_run ` set (owners d)"
        using replaced_image[OF 1(10), of owner_and_run] replaced_image[OF 1(13), of owner_and_run] by simp
      ultimately have "refs_ok d'" by (intro refs_ok_mono[OF assms]) (simp_all add: 1(17))
      then show ?case by (simp add: Pair)
    qed
  qed (use assms Pair in \<open>auto dest: complete_not\<close>)
qed

lemma abandon_refs:
  assumes "refs_ok d" shows "refs_ok (fst (abandon_after_restart jv u d))"
proof (cases "abandon_after_restart jv u d")
  case (Pair d' x)
  show ?thesis
  proof (cases "x = Ok True")
    case True
    show ?thesis using Pair[unfolded True]
    proof (rule abandon_commit, goal_cases)
      case (1 a ats q rs r t c cs)
      have "attempt_refs ` set ats = attempt_refs ` set (attempts d)"
        by (rule replaced_image[OF 1(1)]) simp
      moreover have "owner_and_run ` set t = owner_and_run ` set (owners d)"
        using replaced_image[OF 1(10), of owner_and_run] by simp
      ultimately have "refs_ok d'" by (intro refs_ok_mono[OF assms]) (simp_all add: 1(16))
      then show ?case by (simp add: Pair)
    qed
  qed (use assms Pair in \<open>auto dest: abandon_not\<close>)
qed

lemma start_refs:
  assumes ok: "db_ok d" and refs: "refs_ok d"
  shows "refs_ok (fst (start_with_claim jv new key source rid export evidence d))"
proof (cases "start_with_claim jv new key source rid export evidence d")
  case (Pair d' x)
  show ?thesis
  proof (cases "\<exists>row att. x = Ok (Some (row, att))")
    case True
    then obtain row att where c: "start_with_claim jv new key source rid export evidence d
        = (d', Ok (Some (row, att)))" using Pair by blast
    show ?thesis using c ok
    proof (rule start_commit, goal_cases)
      case (1 c cs q rs o')
      have "(source, Some rid) \<in> owner_and_run ` set (owners d)"
        using 1(5,6) by (force simp: eligible_source_def)
      moreover have "owner_and_run row = (lo_id row, Some rid)" using 1(1,3) by (simp add: new_owner_row_def)
      ultimately show ?case using refs 1(16,18,19) unfolding refs_ok_def by (auto simp: Pair 1(21))
    qed
  qed (use refs Pair in \<open>auto dest: start_not\<close>)
qed

lemma insert_step_refs: "insert_step jv row d = Inr (d', x) \<Longrightarrow> refs_ok d \<Longrightarrow> refs_ok d'"
  by (auto simp: insert_step_def elim!: refs_ok_keep split: if_splits)

lemma step_begin_refs: "refs_ok d \<Longrightarrow> refs_ok (fst (step_begin jv new d))"
  unfolding step_begin_def by (rule run_tx_preserves) (auto elim: insert_step_refs)

lemma step_not_needed_refs: "refs_ok d \<Longrightarrow> refs_ok (fst (step_not_needed jv i rid step now detail d))"
  unfolding step_not_needed_def by (rule run_tx_preserves) (auto elim: insert_step_refs)

lemma step_finish_refs: "refs_ok d \<Longrightarrow> refs_ok (fst (step_finish jv sid status now readback detail d))"
  unfolding step_finish_def
  by (rule run_tx_preserves) (auto simp: bind_result_Ok_iff Let_def elim!: refs_ok_keep split: if_splits)

lemma update_run_refs: "refs_ok d \<Longrightarrow> refs_ok (fst (update_run jv rid f d))"
  unfolding update_run_def
  by (rule run_tx_preserves) (auto simp: bind_result_Ok_iff elim!: refs_ok_keep)

lemma start_run_refs: "refs_ok d \<Longrightarrow> refs_ok (fst (start_with_demo_session jv session st now d))"
  unfolding start_with_demo_session_def
  by (rule run_tx_preserves) (auto simp: Let_def elim!: refs_ok_keep split: if_splits)

lemma delete_runs_refs:
  assumes refs: "refs_ok d" and del: "delete_runs P d = Some (d', n)"
  shows "refs_ok d'"
proof -
  let ?gone = "\<lambda>i. exists_row (\<lambda>r. P r \<and> run_id r = i) (runs d)"
  have f: "owners d' = delete_where (\<lambda>o'. case lo_run_id o' of None \<Rightarrow> False | Some j \<Rightarrow> ?gone j) (owners d)"
    "attempts d' = delete_where (\<lambda>a. ?gone (at_run_id a)) (attempts d)"
    using del by (auto simp: delete_runs_def Let_def split: if_splits)
  have keep: "(i, Some rid) \<in> owner_and_run ` set (owners d')"
    if has: "(i, Some rid) \<in> owner_and_run ` set (owners d)" and stays: "\<not> ?gone rid" for i rid
  proof -
    obtain o' where o': "o' \<in> set (owners d)" "lo_id o' = i" "lo_run_id o' = Some rid"
      using has unfolding owner_and_run_image by blast
    then have "o' \<in> set (owners d')" using stays by (simp add: f(1))
    then show ?thesis using o'(2,3) unfolding owner_and_run_image by blast
  qed
  show ?thesis unfolding refs_ok_def
  proof (clarsimp simp: f(2), intro conjI)
    fix a assume a: "a \<in> set (attempts d)" "\<not> ?gone (at_run_id a)"
    have "(source_owner_id a, Some (at_run_id a)) \<in> owner_and_run ` set (owners d)"
      "(recovery_owner_id a, Some (at_run_id a)) \<in> owner_and_run ` set (owners d)"
      using refs a(1) unfolding refs_ok_def by auto
    then show "(source_owner_id a, Some (at_run_id a)) \<in> owner_and_run ` set (owners d')"
      "(recovery_owner_id a, Some (at_run_id a)) \<in> owner_and_run ` set (owners d')"
      using keep a(2) by blast+
  qed
qed

lemma delete_runs_total:
  assumes ok: "db_ok d" and refs: "refs_ok d"
  shows "\<exists>d' n. delete_runs P d = Some (d', n)"
proof -
  let ?gone = "\<lambda>i. exists_row (\<lambda>r. P r \<and> run_id r = i) (runs d)"
  let ?G = "\<lambda>i. case i of None \<Rightarrow> False | Some j \<Rightarrow> ?gone j"
  let ?go = "\<lambda>i. exists_row (\<lambda>o'. ?G (lo_run_id o') \<and> lo_id o' = i) (owners d)"
  have dis: "distinct (map lo_id (owners d))" using ok by (simp add: db_ok_def keys_ok_def)
  have nogo: "\<not> ?go i"
    if i: "(i, Some rid) \<in> owner_and_run ` set (owners d)" and stays: "\<not> ?gone rid" for i rid
  proof
    assume "?go i"
    then obtain o' where o': "o' \<in> set (owners d)" "?G (lo_run_id o')" "lo_id o' = i"
      unfolding list_ex_iff by blast
    obtain p where p: "p \<in> set (owners d)" "lo_id p = i" "lo_run_id p = Some rid"
      using i unfolding owner_and_run_image by blast
    have "o' = p" using key_unique[OF dis o'(1) p(1)] o'(3) p(2) by simp
    then show False using o'(2) p(3) stays by simp
  qed
  have "\<not> exists_row (\<lambda>a. ?go (source_owner_id a) \<or> ?go (recovery_owner_id a))
      (delete_where (\<lambda>a. ?gone (at_run_id a)) (attempts d))"
  proof
    assume "exists_row (\<lambda>a. ?go (source_owner_id a) \<or> ?go (recovery_owner_id a))
      (delete_where (\<lambda>a. ?gone (at_run_id a)) (attempts d))"
    then obtain a where a: "a \<in> set (attempts d)" "\<not> ?gone (at_run_id a)"
      "?go (source_owner_id a) \<or> ?go (recovery_owner_id a)"
      unfolding list_ex_iff set_delete_where by blast
    have "(source_owner_id a, Some (at_run_id a)) \<in> owner_and_run ` set (owners d)"
      "(recovery_owner_id a, Some (at_run_id a)) \<in> owner_and_run ` set (owners d)"
      using refs a(1) unfolding refs_ok_def by auto
    then show False using nogo a(2,3) by blast
  qed
  then show ?thesis unfolding delete_runs_def Let_def by simp
qed

section \<open>One transition relation for the crate\<close>

datatype db_op =
    OpClaim new_live_ownership string
  | OpHeartbeat int timestamp
  | OpRelease int timestamp
  | OpRestoreIntent int string
  | OpOrphan orphan_owner_update
  | OpRetire unrecoverable_owner_update
  | OpStepBegin new_live_mutation_step
  | OpStepFinish int mutation_step_status timestamp "string option" "string option"
  | OpStepNotNeeded int int string timestamp string
  | OpRecoveryStart new_live_ownership string int int string string
  | OpRecoveryComplete complete_recovery_update
  | OpRecoveryAbandon restart_recovery_update
  | OpRunStart "int option" run_start timestamp
  | OpRunConnection int "string option" "string option" string
  | OpRunTuning int effective_tuning
  | OpRunGateway int string
  | OpRunNotes int "string option"
  | OpRunReadings int run_initial_readings
  | OpRunUncertain int bool
  | OpRunTiming int timing_metrics
  | OpRunRestored int restore_status "string option"
  | OpRunComplete int timestamp "timing_metrics option"
  | OpRunFail int timestamp string
  | OpRunAbort int timestamp "timing_metrics option" "string option"
  | OpRunDelete int
  | OpRunsDelete tune_run_filter
  | OpDemoDelete int int
  | OpDemoPrune int u32
  | OpDemoPruneAll u32
  | OpSession string timestamp timestamp
  | OpSessionTouch string timestamp
  | OpSessionRevoke int timestamp
  | OpSessionCleanup timestamp
  | OpDemoRestart timestamp
  | OpActuate int new_tune_mv_actuation
  | OpObserve int timestamp "f32 option" "sample_quality option"
  | OpObserveFinal int timestamp "f32 option" "sample_quality option" mv_actuation_status "string option"
  | OpFinalize int mv_actuation_status "string option"
  | OpFinalizeRun int mv_actuation_status "string option"
  | OpWrite int new_tune_write

fun apply_op :: "(string \<Rightarrow> bool) \<Rightarrow> db_op \<Rightarrow> db \<Rightarrow> db" where
  "apply_op jv (OpClaim new key) d = fst (create_and_claim jv new key d)"
| "apply_op jv (OpHeartbeat i now) d = fst (heartbeat jv i now d)"
| "apply_op jv (OpRelease i now) d = fst (release jv i now d)"
| "apply_op jv (OpRestoreIntent i x) d = fst (set_restore_intent jv i x d)"
| "apply_op jv (OpOrphan u) d = fst (mark_orphaned jv u d)"
| "apply_op jv (OpRetire u) d = fst (mark_orphaned_unrecoverable jv u d)"
| "apply_op jv (OpStepBegin new) d = fst (step_begin jv new d)"
| "apply_op jv (OpStepFinish i s now r x) d = fst (step_finish jv i s now r x d)"
| "apply_op jv (OpStepNotNeeded i rid s now x) d = fst (step_not_needed jv i rid s now x d)"
| "apply_op jv (OpRecoveryStart new key i rid p e) d = fst (start_with_claim jv new key i rid p e d)"
| "apply_op jv (OpRecoveryComplete u) d = fst (complete_with_ownership jv u d)"
| "apply_op jv (OpRecoveryAbandon u) d = fst (abandon_after_restart jv u d)"
| "apply_op jv (OpRunStart s st now) d = fst (start_with_demo_session jv s st now d)"
| "apply_op jv (OpRunConnection i s h q) d = fst (record_connection jv i s h q d)"
| "apply_op jv (OpRunTuning i e) d = fst (record_effective_tuning jv i e d)"
| "apply_op jv (OpRunGateway i g) d = fst (record_gateway_compatibility jv i g d)"
| "apply_op jv (OpRunNotes i n) d = fst (update_notes jv i n d)"
| "apply_op jv (OpRunReadings i x) d = fst (record_initial_readings jv i x d)"
| "apply_op jv (OpRunUncertain i b) d = fst (record_allow_uncertain_quality jv i b d)"
| "apply_op jv (OpRunTiming i m) d = fst (record_timing_metrics jv i m d)"
| "apply_op jv (OpRunRestored i s x) d = fst (record_restore_status jv i s x d)"
| "apply_op jv (OpRunComplete i now m) d = fst (complete_with_timing_metrics jv i now m d)"
| "apply_op jv (OpRunFail i now x) d = fst (run_fail jv i now x d)"
| "apply_op jv (OpRunAbort i now m x) d =
     fst (set_terminal_outcome_with_timing_metrics jv i now OutAborted m x d)"
| "apply_op jv (OpRunDelete i) d = fst (run_delete i d)"
| "apply_op jv (OpRunsDelete f) d = fst (delete_matching f d)"
| "apply_op jv (OpDemoDelete i s) d = fst (delete_for_demo_session i s d)"
| "apply_op jv (OpDemoPrune s n) d = fst (prune_terminal_for_demo_session s n d)"
| "apply_op jv (OpDemoPruneAll n) d = fst (prune_terminal_demo_owned n d)"
| "apply_op jv (OpSession t now e) d = fst (session_get_or_create t now e d)"
| "apply_op jv (OpSessionTouch t now) d = fst (session_get t now d)"
| "apply_op jv (OpSessionRevoke i now) d = fst (session_revoke i now d)"
| "apply_op jv (OpSessionCleanup now) d = fst (cleanup_expired now d)"
| "apply_op jv (OpDemoRestart now) d = fst (recover_running_demo_runs jv now d)"
| "apply_op jv (OpActuate i new) d = fst (insert_pending i new d)"
| "apply_op jv (OpObserve i t rb q) d = fst (record_observation i t rb q d)"
| "apply_op jv (OpObserveFinal i t rb q s x) d = fst (record_final_observation i t rb q s x d)"
| "apply_op jv (OpFinalize i s x) d = fst (actuation_finalize i s x d)"
| "apply_op jv (OpFinalizeRun i s x) d = fst (finalize_pending_for_run i s x d)"
| "apply_op jv (OpWrite i w) d = fst (write_insert i w d)"

inductive db_reach :: "(string \<Rightarrow> bool) \<Rightarrow> db \<Rightarrow> bool" for jv where
  init: "db_reach jv (empty_db\<lparr>loop_ids := ls\<rparr>)"
| step: "db_reach jv d \<Longrightarrow> db_reach jv (apply_op jv op d)"

lemma fst_run_delete [simp]:
  "fst (run_delete i d) = fst (delete_runs_op (\<lambda>d r. run_id r = i \<and> deletable_recovery_guard r) d)"
  "fst (delete_for_demo_session i s d) =
     fst (delete_runs_op (\<lambda>d r. run_id r = i \<and> demo_session_id r = Some s) d)"
  by (simp_all add: run_delete_def delete_for_demo_session_def split_beta)

lemma audit_only_fields:
  assumes "audit_only d d'"
  shows "runs d' = runs d" "owners d' = owners d" "claims d' = claims d" "attempts d' = attempts d"
    "steps d' = steps d" "runs_seq d' = runs_seq d" "owners_seq d' = owners_seq d"
    "attempts_seq d' = attempts_seq d" "steps_seq d' = steps_seq d"
    "demo_sessions d' = demo_sessions d" "loop_ids d' = loop_ids d"
  by (subst assms[unfolded audit_only_def], simp)+

lemma audit_only_ok:
  assumes "audit_only d d'" and "db_ok d" shows "db_ok d'"
  using assms(2) by (simp add: db_ok_def keys_ok_def claims_ok_def recovery_ok_def rows_ok_def
      audit_only_fields[OF assms(1)])

lemma audit_only_refs: "audit_only d d' \<Longrightarrow> refs_ok d \<Longrightarrow> refs_ok d'"
  by (erule refs_ok_keep) (simp_all add: audit_only_fields)

lemmas audit_ops_ok = audit_ops_only[THEN audit_only_ok]
lemmas audit_ops_refs = audit_ops_only[THEN audit_only_refs]

lemmas op_keeps_ok = audit_ops_ok
  create_ok heartbeat_ok release_ok set_restore_intent_ok mark_orphaned_ok mark_unrecoverable_ok
  step_begin_ok step_finish_ok step_not_needed_ok start_ok complete_ok abandon_ok start_run_ok
  session_get_or_create_ok session_get_ok session_revoke_ok cleanup_expired_ok
  recover_running_demo_runs_ok delete_runs_op_ok

lemma apply_op_ok: "db_ok d \<Longrightarrow> db_ok (apply_op jv op d)"
  by (cases op)
     (auto simp: op_keeps_ok run_update_defs delete_matching_def prune_terminal_for_demo_session_def
        prune_terminal_demo_owned_def  ends_or_keeps_def intro!: update_run_ok)

lemma delete_runs_op_refs: "refs_ok d \<Longrightarrow> refs_ok (fst (delete_runs_op P d))"
  unfolding delete_runs_op_def
  by (rule run_tx_preserves) (auto intro: delete_runs_refs split: option.splits)

lemma cleanup_refs: "refs_ok d \<Longrightarrow> refs_ok (fst (cleanup_expired now d))"
  unfolding cleanup_expired_def Let_def
  by (auto split: option.splits prod.splits intro: refs_ok_keep dest: delete_runs_refs)

lemma session_refs:
  "refs_ok d \<Longrightarrow> refs_ok (fst (session_get_or_create t now e d))"
  "refs_ok d \<Longrightarrow> refs_ok (fst (session_get t now d))"
  "refs_ok d \<Longrightarrow> refs_ok (fst (session_revoke i now d))"
  "refs_ok d \<Longrightarrow> refs_ok (fst (recover_running_demo_runs jv now d))"
  by (auto simp: session_get_or_create_def session_get_def session_revoke_def Let_def
      recover_running_demo_runs_def elim!: refs_ok_keep split: prod.splits sum.splits option.splits)

lemmas op_keeps_refs = audit_ops_refs
  create_refs heartbeat_refs release_refs intent_refs orphan_refs unrecoverable_refs
  step_begin_refs step_finish_refs step_not_needed_refs start_refs complete_refs abandon_refs
  start_run_refs session_refs cleanup_refs delete_runs_op_refs update_run_refs

lemma apply_op_refs: "db_ok d \<Longrightarrow> refs_ok d \<Longrightarrow> refs_ok (apply_op jv op d)"
  by (cases op)
     (auto simp: op_keeps_refs run_update_defs delete_matching_def prune_terminal_for_demo_session_def
        prune_terminal_demo_owned_def )

lemma reach_ok: "db_reach jv d \<Longrightarrow> db_ok d \<and> refs_ok d"
proof (induction rule: db_reach.induct)
  case (init ls)
  show ?case
    by (simp add: db_ok_def keys_ok_def claims_ok_def recovery_ok_def rows_ok_def refs_ok_def empty_db_def)
next
  case (step d op)
  then show ?case using apply_op_ok apply_op_refs by blast
qed

end
