(* ===== verification/Db_Locks.thy ===== *)
theory Db_Locks
  imports Db_Lifecycle
begin

text \<open>
  What the claim table promises the processes that share the database: a lease interface stated
  once as a locale and interpreted on the crate's operations, and the exclusivity of a claimed
  controller.
\<close>

section \<open>Leases\<close>

text \<open>A table of leases shared by several processes: \<open>concerns op i\<close> says that the operation may
  end the lease \<open>i\<close>.\<close>

locale lease_table =
  fixes inv :: "'s \<Rightarrow> bool"
    and holds :: "int \<Rightarrow> 'k \<Rightarrow> 's \<Rightarrow> bool"
    and acquire :: "'a \<Rightarrow> 'k \<Rightarrow> 's \<Rightarrow> 's \<times> int option"
    and step :: "'op \<Rightarrow> 's \<Rightarrow> 's"
    and concerns :: "'op \<Rightarrow> int \<Rightarrow> bool"
  assumes unique: "inv s \<Longrightarrow> holds i k s \<Longrightarrow> holds j k s \<Longrightarrow> i = j"
    and step_inv: "inv s \<Longrightarrow> inv (step op s)"
    and step_holds: "inv s \<Longrightarrow> holds i k s \<Longrightarrow> \<not> concerns op i \<Longrightarrow> holds i k (step op s)"
    and acquired: "inv s \<Longrightarrow> acquire a k s = (s', Some i) \<Longrightarrow>
      inv s' \<and> holds i k s' \<and> (\<forall>j. \<not> holds j k s)"
begin

lemma steps_inv: "inv s \<Longrightarrow> inv (fold step ops s)"
  by (induction ops arbitrary: s) (simp_all add: step_inv)

lemma steps_hold:
  "inv s \<Longrightarrow> holds i k s \<Longrightarrow> \<forall>op \<in> set ops. \<not> concerns op i \<Longrightarrow> holds i k (fold step ops s)"
  by (induction ops arbitrary: s) (simp_all add: step_inv step_holds)

lemma busy: "inv s \<Longrightarrow> holds i k s \<Longrightarrow> snd (acquire a k s) = None"
  by (cases "acquire a k s"; cases "snd (acquire a k s)") (auto dest: acquired)

lemma exclusive:
  assumes "inv s" and "acquire a k s = (s', Some i)" and "\<forall>op \<in> set ops. \<not> concerns op i"
  shows "holds i k (fold step ops s')" and "snd (acquire b k (fold step ops s')) = None"
proof -
  have s': "inv s'" "holds i k s'" using acquired[OF assms(1,2)] by auto
  show h: "holds i k (fold step ops s')" by (rule steps_hold[OF s' assms(3)])
  show "snd (acquire b k (fold step ops s')) = None" by (rule busy[OF steps_inv[OF s'(1)] h])
qed

end

definition claim_holds :: "int \<Rightarrow> string \<Rightarrow> db \<Rightarrow> bool" where
  "claim_holds i key d \<longleftrightarrow> (\<exists>c \<in> set (claims d). claim_key c = key \<and> cl_owner_id c = i)"

lemma has_claim_iff: "has_claim i key d \<longleftrightarrow> claim_holds i key d"
  by (auto simp: has_claim_def claim_holds_def list_ex_iff)

fun op_concerns :: "db_op \<Rightarrow> int \<Rightarrow> bool" where
  "op_concerns (OpRelease j now) i \<longleftrightarrow> j = i"
| "op_concerns (OpOrphan u) i \<longleftrightarrow> oou_owner_id u = i"
| "op_concerns (OpRetire u) i \<longleftrightarrow> uou_owner_id u = i"
| "op_concerns (OpRecoveryStart new key source rid p e) i \<longleftrightarrow> source = i"
| "op_concerns (OpRecoveryComplete u) i \<longleftrightarrow> cru_recovery_owner_id u = i"
| "op_concerns (OpRecoveryAbandon u) i \<longleftrightarrow> rru_recovery_owner_id u = i"
| "op_concerns (OpRunDelete r) i \<longleftrightarrow> True"
| "op_concerns (OpRunsDelete f) i \<longleftrightarrow> True"
| "op_concerns (OpDemoDelete r s) i \<longleftrightarrow> True"
| "op_concerns (OpDemoPrune s n) i \<longleftrightarrow> True"
| "op_concerns (OpDemoPruneAll n) i \<longleftrightarrow> True"
| "op_concerns (OpSessionCleanup now) i \<longleftrightarrow> True"
| "op_concerns _ i \<longleftrightarrow> False"

definition claim_acquire ::
  "((string \<Rightarrow> bool) \<times> new_live_ownership) \<Rightarrow> string \<Rightarrow> db \<Rightarrow> db \<times> int option" where
  "claim_acquire a key d =
     (case create_and_claim (fst a) (snd a) key d of
        (d', Ok (Some row)) \<Rightarrow> (d', Some (lo_id row)) | (d', _) \<Rightarrow> (d', None))"

lemma tx_claims:
  assumes "\<And>d' y. body d = Inr (d', y) \<Longrightarrow> claims d' = claims d"
  shows "claims (fst (run_tx body d)) = claims d"
  by (rule run_tx_preserves) (use assms in auto)

lemma quiet_claims:
  "claims (fst (heartbeat jv i now d)) = claims d"
  "claims (fst (set_restore_intent jv i x d)) = claims d"
  "claims (fst (step_begin jv new d)) = claims d"
  "claims (fst (step_finish jv i s now r xo d)) = claims d"
  "claims (fst (step_not_needed jv i rid s' now x' d)) = claims d"
  "claims (fst (start_with_demo_session jv ss st now d)) = claims d"
  "claims (fst (update_run jv rid f d)) = claims d"
  "claims (fst (session_get_or_create t now e d)) = claims d"
  "claims (fst (session_get t now d)) = claims d"
  "claims (fst (session_revoke i now d)) = claims d"
  "claims (fst (recover_running_demo_runs jv now d)) = claims d"
  by (auto simp: heartbeat_def set_restore_intent_def step_begin_def step_finish_def
      step_not_needed_def start_with_demo_session_def update_run_def insert_step_def
      session_get_or_create_def session_get_def session_revoke_def recover_running_demo_runs_def
      bind_result_Ok_iff Let_def intro!: tx_claims
      split: if_splits prod.splits sum.splits option.splits)

lemma claim_holds_claims: "claims d' = claims d \<Longrightarrow> claim_holds i key d' = claim_holds i key d"
  by (simp add: claim_holds_def)

lemmas audit_claims = audit_ops_only[THEN audit_only_fields(3), THEN claim_holds_claims]

lemma claim_holds_replaced:
  assumes "replaced c c' (claims d) (claims d')" and "cl_owner_id c \<noteq> i" and "claim_holds i key d"
  shows "claim_holds i key d'"
  using assms by (auto simp: claim_holds_def replaced_set)

lemma claim_holds_step:
  assumes ok: "db_ok d" and h: "claim_holds i key d" and nc: "\<not> op_concerns op i"
  shows "claim_holds i key (apply_op jv op d)"
proof (cases op)
  case (OpClaim new k)
  show ?thesis
  proof (cases "\<exists>d' row. create_and_claim jv new k d = (d', Ok (Some row))")
    case True
    then obtain d' row where c: "create_and_claim jv new k d = (d', Ok (Some row))" by blast
    show ?thesis using h by (auto simp: OpClaim c claim_holds_def create_commit(1)[OF c])
  next
    case False
    then have "fst (create_and_claim jv new k d) = d"
      unfolding create_and_claim_def
      by (cases "create_and_claim jv new k d")
         (auto simp: create_and_claim_def bind_result_Ok_iff elim!: run_tx_cases split: option.splits prod.splits)
    then show ?thesis using h by (simp add: OpClaim)
  qed
next
  case (OpRelease j now)
  show ?thesis
  proof (cases "release jv j now d")
    case (Pair d' x)
    then show ?thesis using h nc
      by (cases x) (auto simp: OpRelease claim_holds_def dest: release_Err elim!: release_commit)
  qed
next
  case (OpOrphan u)
  show ?thesis
  proof (cases "mark_orphaned jv u d")
    case (Pair d' x)
    show ?thesis
    proof (cases "x = Ok True")
      case True
      obtain c where c: "c \<in> set (claims d)" "claim_key c = key" "cl_owner_id c = i"
        using h unfolding claim_holds_def by blast
      have "c \<in> set (claims d')"
        by (rule mark_orphaned_commit[OF Pair[unfolded True] ok]) (use c nc in \<open>simp add: OpOrphan\<close>)
      then show ?thesis using c unfolding claim_holds_def OpOrphan apply_op.simps Pair by auto
    qed (use mark_orphaned_not[OF Pair] h in \<open>simp add: OpOrphan Pair\<close>)
  qed
next
  case (OpRetire u)
  show ?thesis
  proof (cases "mark_orphaned_unrecoverable jv u d")
    case (Pair d' x)
    show ?thesis
    proof (cases "x = Ok True")
      case True
      obtain c where c: "c \<in> set (claims d)" "claim_key c = key" "cl_owner_id c = i"
        using h unfolding claim_holds_def by blast
      have "c \<in> set (claims d')"
        by (rule mark_unrecoverable_commit[OF Pair[unfolded True] ok]) (use c nc in \<open>simp add: OpRetire\<close>)
      then show ?thesis using c unfolding claim_holds_def OpRetire apply_op.simps Pair by auto
    qed (use mark_unrecoverable_not[OF Pair] h in \<open>simp add: OpRetire Pair\<close>)
  qed
next
  case (OpRecoveryStart new k source rid p e)
  show ?thesis
  proof (cases "start_with_claim jv new k source rid p e d")
    case (Pair d' x)
    show ?thesis
    proof (cases "\<exists>row att. x = Ok (Some (row, att))")
      case True
      then obtain row att where x: "x = Ok (Some (row, att))" by blast
      have "claim_holds i key d'"
      proof (rule start_commit[OF Pair[unfolded x] ok], goal_cases)
        case (1 c cs q rs o')
        have "claims d' = cs" by (simp add: 1(21))
        then show ?case using 1(8,10) h nc OpRecoveryStart by (auto elim: claim_holds_replaced)
      qed
      then show ?thesis by (simp add: OpRecoveryStart Pair)
    qed (use start_not[OF Pair] h in \<open>auto simp: OpRecoveryStart Pair\<close>)
  qed
next
  case (OpRecoveryComplete u)
  show ?thesis
  proof (cases "complete_with_ownership jv u d")
    case (Pair d' x)
    show ?thesis
    proof (cases x)
      case (Inr y)
      obtain c where c: "c \<in> set (claims d)" "claim_key c = key" "cl_owner_id c = i"
        using h unfolding claim_holds_def by blast
      have "c \<in> set (claims d')"
        by (rule complete_commit[OF Pair[unfolded Inr]]) (use c nc in \<open>simp add: OpRecoveryComplete\<close>)
      then show ?thesis using c unfolding claim_holds_def OpRecoveryComplete apply_op.simps Pair by auto
    qed (use Pair h in \<open>auto simp: OpRecoveryComplete dest: complete_not\<close>)
  qed
next
  case (OpRecoveryAbandon u)
  show ?thesis
  proof (cases "abandon_after_restart jv u d")
    case (Pair d' x)
    show ?thesis
    proof (cases "x = Ok True")
      case True
      have "claim_holds i key d'"
      proof (rule abandon_commit[OF Pair[unfolded True]], goal_cases)
        case (1 a ats q rs r t c cs)
        have "claims d' = cs" by (simp add: 1(16))
        then show ?case using 1(13,15) h nc OpRecoveryAbandon by (auto elim: claim_holds_replaced)
      qed
      then show ?thesis by (simp add: OpRecoveryAbandon Pair)
    qed (use abandon_not[OF Pair] h in \<open>simp add: OpRecoveryAbandon Pair\<close>)
  qed
qed (use h nc in \<open>simp_all add: claim_holds_claims[OF quiet_claims(1)] claim_holds_claims[OF quiet_claims(2)]
      claim_holds_claims[OF quiet_claims(3)] claim_holds_claims[OF quiet_claims(4)]
      claim_holds_claims[OF quiet_claims(5)] claim_holds_claims[OF quiet_claims(6)]
      claim_holds_claims[OF quiet_claims(7)] claim_holds_claims[OF quiet_claims(8)]
      claim_holds_claims[OF quiet_claims(9)] claim_holds_claims[OF quiet_claims(10)]
      claim_holds_claims[OF quiet_claims(11)] audit_claims run_update_defs\<close>)

lemma claim_holds_unique:
  assumes "db_ok d" and "claim_holds i key d" and "claim_holds j key d" shows "i = j"
proof -
  have "distinct (map claim_key (claims d))" using assms(1) by (simp add: db_ok_def claims_ok_def)
  then show ?thesis using assms(2,3) unfolding claim_holds_def by (metis key_unique)
qed

lemma claim_acquired:
  assumes "db_ok d" and "claim_acquire a key d = (d', Some i)"
  shows "db_ok d' \<and> claim_holds i key d' \<and> (\<forall>j. \<not> claim_holds j key d)"
proof -
  from assms(2) obtain row where c: "create_and_claim (fst a) (snd a) key d = (d', Ok (Some row))"
    and i: "i = lo_id row"
    by (auto simp: claim_acquire_def split: prod.splits sum.splits option.splits)
  have "db_ok d'" using create_ok[OF assms(1), of "fst a" "snd a" key] by (simp add: c)
  then show ?thesis using create_commit(1,5)[OF c] by (auto simp: claim_holds_def i)
qed

interpretation claim_lease: lease_table db_ok claim_holds claim_acquire "apply_op jv" op_concerns
  for jv
proof unfold_locales
  show "\<And>s i k j. db_ok s \<Longrightarrow> claim_holds i k s \<Longrightarrow> claim_holds j k s \<Longrightarrow> i = j"
    by (rule claim_holds_unique)
  show "\<And>s op. db_ok s \<Longrightarrow> db_ok (apply_op jv op s)" by (rule apply_op_ok)
  show "\<And>s i k op. db_ok s \<Longrightarrow> claim_holds i k s \<Longrightarrow> \<not> op_concerns op i \<Longrightarrow>
      claim_holds i k (apply_op jv op s)" by (rule claim_holds_step)
  show "\<And>s a k s' i. db_ok s \<Longrightarrow> claim_acquire a k s = (s', Some i) \<Longrightarrow>
      db_ok s' \<and> claim_holds i k s' \<and> (\<forall>j. \<not> claim_holds j k s)" by (rule claim_acquired)
qed

section \<open>Exclusive control of a claimed resource\<close>

text \<open>C6: Once a process has claimed a controller resource, whatever the other processes do with
  the database, nobody else can claim the same resource, until an operation that names the owner
  itself (release, orphaning, recovery) or a deletion of runs ends the claim; and the owner still
  holds its claim.\<close>

theorem claim_exclusive:
  assumes "db_reach jv d" and "create_and_claim jv new key d = (d1, Ok (Some row))"
    and "\<forall>op \<in> set ops. \<not> op_concerns op (lo_id row)"
  shows "has_claim (lo_id row) key (fold (apply_op jv) ops d1) \<and>
    (\<forall>new' r. snd (create_and_claim jv new' key (fold (apply_op jv) ops d1)) \<noteq> Ok (Some r))"
proof -
  have ok: "db_ok d" using reach_ok assms(1) by blast
  have a: "claim_acquire (jv, new) key d = (d1, Some (lo_id row))"
    by (simp add: claim_acquire_def assms(2))
  note e = claim_lease.exclusive[OF ok a assms(3)]
  have n: "snd (claim_acquire (jv, new') key (fold (apply_op jv) ops d1)) = None" for new'
    by (rule e(2))
  have "snd (create_and_claim jv new' key (fold (apply_op jv) ops d1)) \<noteq> Ok (Some r)" for new' r
    using n[of new']
    by (cases "create_and_claim jv new' key (fold (apply_op jv) ops d1)") (auto simp: claim_acquire_def)
  then show ?thesis using e(1) by (simp add: has_claim_iff)
qed

text \<open>A small scenario: a live run, its owner, another process.\<close>

definition demo_new_owner :: "int option \<Rightarrow> live_operation_kind \<Rightarrow> new_live_ownership" where
  "demo_new_owner r k = \<lparr> nlo_run_id = r, nlo_operation_kind = k, nlo_database_key = ''db'',
     nlo_resource_key = ''res'', nlo_owner_pid = 7, nlo_acquired_at = 100,
     nlo_restore_intent_json = None \<rparr>"

definition demo_empty :: db where "demo_empty = empty_db\<lparr>loop_ids := []\<rparr>"

lemma demo_empty_reach: "db_reach jv demo_empty"
  unfolding demo_empty_def by (rule db_reach.init)

lemma demo_claim:
  "\<exists>d1 row. create_and_claim (\<lambda>_. True) (demo_new_owner None KPidWrite) ''k'' demo_empty
     = (d1, Ok (Some row)) \<and> lo_id row = 1"
  by (simp add: create_and_claim_def run_tx_def insert_owner_def new_owner_row_def demo_new_owner_def
      demo_empty_def empty_db_def owner_check_def json_ok_def run_reference_ok_def
      insert_claim_or_nothing_def insert_claim_def one_row_def Let_def)

theorem claim_exclusive_witness:
  "\<exists>d1. \<forall>r. has_claim 1 ''k'' (fold (apply_op (\<lambda>_. True)) [OpHeartbeat 1 200, OpRelease 2 300] d1) \<and>
     snd (create_and_claim (\<lambda>_. True) (demo_new_owner None KOpcWrite) ''k''
       (fold (apply_op (\<lambda>_. True)) [OpHeartbeat 1 200, OpRelease 2 300] d1)) \<noteq> Ok (Some r)"
proof -
  obtain d1 row where c: "create_and_claim (\<lambda>_. True) (demo_new_owner None KPidWrite) ''k'' demo_empty
     = (d1, Ok (Some row))" "lo_id row = 1" using demo_claim by blast
  have "\<forall>op \<in> set [OpHeartbeat 1 200, OpRelease 2 300]. \<not> op_concerns op (lo_id row)"
    by (simp add: c(2))
  from claim_exclusive[OF demo_empty_reach c(1) this] show ?thesis by (auto simp: c(2))
qed

text \<open>C7: In every reachable database a claim key is held at most once and an owner holds at most
  one key; every active owner holds a key; every holder is active, or an orphan whose run ended
  with its recovery still to be settled.\<close>

theorem reachable_claims:
  assumes "db_reach jv d"
  shows "distinct (map claim_key (claims d)) \<and> distinct (map cl_owner_id (claims d)) \<and>
    (\<forall>o' \<in> set (owners d). lo_state o' = Active \<longrightarrow> holds_claim (lo_id o') d) \<and>
    (\<forall>c \<in> set (claims d). \<exists>o' \<in> set (owners d). lo_id o' = cl_owner_id c \<and>
       (lo_state o' = Active \<or>
        lo_state o' = Orphaned \<and> orphan_eligible o' \<and>
        (\<exists>r \<in> set (runs d). lo_run_id o' = Some (run_id r) \<and> outcome r \<noteq> OutRunning \<and>
           recovery_state r \<in> {Some RecEligible, Some RecRunning, Some RecIncomplete})))"
proof -
  have ok: "db_ok d" using reach_ok assms by blast
  note C = ok[unfolded db_ok_def claims_ok_def, THEN conjunct2, THEN conjunct1]
  have act: "holds_claim (lo_id o') d" if "o' \<in> set (owners d)" "lo_state o' = Active" for o'
  proof -
    have "lo_id o' \<in> active_ids d" using that by (auto simp: keyed_iff is_active_def)
    then have "lo_id o' \<in> claimed_ids d" using C by blast
    then show ?thesis by (auto simp: holds_claim_def list_ex_iff)
  qed
  have hold: "\<exists>o' \<in> set (owners d). lo_id o' = cl_owner_id c \<and>
       (lo_state o' = Active \<or>
        lo_state o' = Orphaned \<and> orphan_eligible o' \<and>
        (\<exists>r \<in> set (runs d). lo_run_id o' = Some (run_id r) \<and> outcome r \<noteq> OutRunning \<and>
           recovery_state r \<in> {Some RecEligible, Some RecRunning, Some RecIncomplete}))"
    if c: "c \<in> set (claims d)" for c
  proof -
    have "cl_owner_id c \<in> active_ids d \<union> fst ` eligibles d" using C c by blast
    then show ?thesis
    proof
      assume "cl_owner_id c \<in> active_ids d"
      then show ?thesis by (auto simp: keyed_iff is_active_def)
    next
      assume "cl_owner_id c \<in> fst ` eligibles d"
      then obtain o' where o': "o' \<in> set (owners d)" "is_eligible o'" "lo_id o' = cl_owner_id c"
        by (auto simp: keyed_iff)
      then have "(lo_id o', lo_run_id o') \<in> eligibles d" by (auto simp: keyed_iff)
      then have "lo_run_id o' \<in> Some ` unresolved_runs d" using recovery_okD(1)[OF ok] by force
      then show ?thesis using o' by (force simp: keyed_iff is_eligible_def is_unresolved_def)
    qed
  qed
  show ?thesis using C act hold by blast
qed

theorem reachable_claims_witness:
  "distinct (map claim_key (claims (apply_op (\<lambda>_. True) (OpClaim (demo_new_owner None KPidWrite) ''k'') demo_empty))) \<and>
   holds_claim 1 (apply_op (\<lambda>_. True) (OpClaim (demo_new_owner None KPidWrite) ''k'') demo_empty)"
proof -
  let ?d = "apply_op (\<lambda>_. True) (OpClaim (demo_new_owner None KPidWrite) ''k'') demo_empty"
  have reach: "db_reach (\<lambda>_. True) ?d" by (intro db_reach.step demo_empty_reach)
  obtain d1 row where c: "create_and_claim (\<lambda>_. True) (demo_new_owner None KPidWrite) ''k'' demo_empty
     = (d1, Ok (Some row))" "lo_id row = 1" using demo_claim by blast
  have "row \<in> set (owners ?d)" by (simp add: c(1) create_commit(1)[OF c(1)])
  moreover have "lo_state row = Active" by (simp add: create_commit(2)[OF c(1)] new_owner_row_def)
  ultimately show ?thesis using reachable_claims[OF reach] c(2) by fastforce
qed

end
