(* ===== verification/Db_Retention.thy ===== *)
theory Db_Retention
  imports Db_Locks
begin

text \<open>
  What deletions leave: an unresolved recovery survives every filtered deletion (what the age-based sweep
  of \<open>bhtune-runtime/src/retention.rs\<close> does to a run still marked running is in \<open>Db_Integrity\<close>), and
  the one-statement pruning of demo history keeps, in every session, exactly the newest ended runs.
\<close>

section \<open>Deletion and retention\<close>

lemma delete_runs_keeps:
  assumes ok: "db_ok d" and del: "delete_runs P d = Some (d', n)"
    and P: "\<And>r. r \<in> set (runs d) \<Longrightarrow> P r \<Longrightarrow> \<not> is_unresolved r"
  shows "eligibles d' = eligibles d" and "running_attempts d' = running_attempts d"
    and "e \<in> eligibles d \<Longrightarrow> claim_holds (fst e) key d \<Longrightarrow> claim_holds (fst e) key d'"
proof -
  let ?gone = "\<lambda>i. exists_row (\<lambda>r. P r \<and> run_id r = i) (runs d)"
  let ?G = "\<lambda>i. case i of None \<Rightarrow> False | Some j \<Rightarrow> ?gone j"
  let ?go = "\<lambda>i. exists_row (\<lambda>o'. ?G (lo_run_id o') \<and> lo_id o' = i) (owners d)"
  have f: "owners d' = delete_where (\<lambda>o'. ?G (lo_run_id o')) (owners d)"
    "claims d' = delete_where (\<lambda>c. ?go (cl_owner_id c)) (claims d)"
    "attempts d' = delete_where (\<lambda>a. ?gone (at_run_id a)) (attempts d)"
    using del by (auto simp: delete_runs_def Let_def split: if_splits)
  have dis: "distinct (map lo_id (owners d))" "distinct (map run_id (runs d))"
    using ok by (simp_all add: db_ok_def keys_ok_def)
  have stays: "\<not> ?gone i" if i: "i \<in> unresolved_runs d" for i
  proof
    assume "?gone i"
    then obtain r where r: "r \<in> set (runs d)" "P r" "run_id r = i" unfolding list_ex_iff by blast
    obtain q where q: "q \<in> set (runs d)" "is_unresolved q" "run_id q = i"
      using i unfolding keyed_iff by blast
    have "r = q" using key_unique[OF dis(2) r(1) q(1)] r(3) q(3) by simp
    then show False using P r q by blast
  qed
  have G: "\<not> ?G (snd e)" if e: "e \<in> eligibles d" for e
    using recovery_okD(1)[OF ok] stays e by (cases "snd e") (auto 0 3)
  have "eligibles d' = {e \<in> eligibles d. \<not> ?G (snd e)}" by (auto simp: keyed_def f(1))
  then show "eligibles d' = eligibles d" using G by blast
  have "running_attempts d' = {a \<in> running_attempts d. \<not> ?gone (snd a)}"
    by (auto simp: keyed_def f(3))
  then show "running_attempts d' = running_attempts d"
    using stays recovery_okD(3,5)[OF ok] by blast
  assume e: "e \<in> eligibles d" and h: "claim_holds (fst e) key d"
  have "\<not> ?go (fst e)"
  proof
    assume "?go (fst e)"
    then obtain o' where o': "o' \<in> set (owners d)" "?G (lo_run_id o')" "lo_id o' = fst e"
      unfolding list_ex_iff by blast
    obtain p where p: "p \<in> set (owners d)" "owner_and_run p = e" using e unfolding keyed_iff by blast
    have "o' = p" using key_unique[OF dis(1) o'(1) p(1)] o'(3) p(2) by auto
    then show False using o'(2) p(2) G[OF e] by auto
  qed
  then show "claim_holds (fst e) key d'"
    using h unfolding claim_holds_def f(2) set_delete_where by auto
qed

text \<open>Subtracting from a \<open>DateTime<Utc>\<close> panics below the smallest time chrono represents,
  \<open>utc_min\<close>: then there is no cutoff.\<close>

definition cutoff_for :: "timestamp \<Rightarrow> u32 \<Rightarrow> timestamp \<Rightarrow> timestamp option" where
  "cutoff_for utc_min days now =
     (let c = now - int (unat days) * (86400 * ns_per_sec) in if utc_min \<le> c then Some c else None)"

definition deletion_log_is_info :: "nat \<Rightarrow> bool" where
  "deletion_log_is_info n \<longleftrightarrow> 0 < n"

definition sweep_retention ::
  "timestamp \<Rightarrow> u32 \<Rightarrow> timestamp \<Rightarrow> db \<Rightarrow> (db \<times> (db_error, nat) result) option" where
  "sweep_retention utc_min days now d =
     map_option (\<lambda>c. delete_matching (with_started_before filter_default c) d) (cutoff_for utc_min days now)"

lemma delete_matching_keeps:
  assumes "db_reach jv d"
  shows "\<exists>d'. delete_matching f d = (d', Ok (count_deletable_matching f d)) \<and>
    runs d' = filter (\<lambda>r. \<not> (push_filter f r \<and> deletable_recovery_guard r)) (runs d) \<and>
    eligibles d' = eligibles d \<and> running_attempts d' = running_attempts d \<and>
    {(i, key). i \<in> fst ` eligibles d \<and> has_claim i key d}
      \<subseteq> {(i, key). has_claim i key d'}"
proof -
  let ?P = "\<lambda>r. push_filter f r \<and> deletable_recovery_guard r"
  have ok: "db_ok d" "refs_ok d" using reach_ok assms by blast+
  obtain d' n where del: "delete_runs ?P d = Some (d', n)" using delete_runs_total[OF ok] by blast
  have nu: "\<not> is_unresolved r" if "?P r" for r
    using that by (auto simp: is_unresolved_def deletable_recovery_guard_def)
  note k = delete_runs_keeps[OF ok(1) del nu]
  have m: "delete_matching f d = (d', Ok n)"
    by (simp add: delete_matching_def delete_runs_op_def run_tx_def del)
  have n: "n = count_deletable_matching f d" and r: "runs d' = filter (\<lambda>r. \<not> ?P r) (runs d)"
    using del by (auto simp: delete_runs_def Let_def count_deletable_matching_def delete_where_def split: if_splits)
  have "{(i, key). i \<in> fst ` eligibles d \<and> has_claim i key d} \<subseteq> {(i, key). has_claim i key d'}"
    using k(3) by (auto simp: has_claim_iff)
  then show ?thesis using m n r k(1,2) by blast
qed

text \<open>C8: Deleting runs by a filter never fails and deletes exactly the number the preview counts;
  it keeps every orphan a recovery may still resume, with its claim, and every running recovery
  attempt.\<close>

theorem deletion_keeps_recovery:
  assumes "db_reach jv d"
  shows "\<exists>d'. delete_matching f d = (d', Ok (count_deletable_matching f d)) \<and>
    runs d' = filter (\<lambda>r. \<not> (push_filter f r \<and> deletable_recovery_guard r)) (runs d) \<and>
    eligibles d' = eligibles d \<and> running_attempts d' = running_attempts d \<and>
    {(i, key). i \<in> fst ` eligibles d \<and> has_claim i key d}
      \<subseteq> {(i, key). has_claim i key d'}"
  using delete_matching_keeps[OF assms] .

text \<open>Whether a sweep deletes anything, and whether it happens at all, depends on the period only
  through the cutoff: with a cutoff the sweep never fails, deletes exactly the deletable runs that
  started at or before it and leaves no such run; without one, which every period longer than the
  time since \<open>utc_min\<close> gives, the call panics.\<close>

theorem sweep_outcome:
  assumes "db_reach jv d"
  shows "case sweep_retention utc_min days now d of
      None \<Rightarrow> now - utc_min < int (unat days) * (86400 * ns_per_sec)
    | Some (d', x) \<Rightarrow> is_ok x \<and> int (unat days) * (86400 * ns_per_sec) \<le> now - utc_min \<and>
        runs d' = filter (\<lambda>r. now - int (unat days) * (86400 * ns_per_sec) < started_at r \<or>
          recovery_state r \<in> {Some RecEligible, Some RecRunning, Some RecIncomplete}) (runs d)"
proof -
  obtain c where c: "c = now - int (unat days) * (86400 * ns_per_sec)" by blast
  have "push_filter (with_started_before filter_default c) r \<longleftrightarrow> started_at r \<le> c" for r
    by (simp add: push_filter_def with_started_before_def filter_default_def cond_def)
  moreover have "deletable_recovery_guard r \<longleftrightarrow>
      recovery_state r \<notin> {Some RecEligible, Some RecRunning, Some RecIncomplete}" for r
    by (cases "recovery_state r") (auto simp: deletable_recovery_guard_def)
  ultimately have P: "(\<not> (push_filter (with_started_before filter_default c) r \<and> deletable_recovery_guard r)) =
      (c < started_at r \<or> recovery_state r \<in> {Some RecEligible, Some RecRunning, Some RecIncomplete})" for r
    by auto
  obtain d' where d': "delete_matching (with_started_before filter_default c) d
      = (d', Ok (count_deletable_matching (with_started_before filter_default c) d))"
    and r: "runs d' = filter (\<lambda>r. \<not> (push_filter (with_started_before filter_default c) r \<and> deletable_recovery_guard r)) (runs d)"
    using delete_matching_keeps[OF assms] by blast
  have d'': "runs d' = filter (\<lambda>r. c < started_at r \<or>
      recovery_state r \<in> {Some RecEligible, Some RecRunning, Some RecIncomplete}) (runs d)"
    using r unfolding P .
  have "cutoff_for utc_min days now = (if utc_min \<le> c then Some c else None)"
    by (simp add: cutoff_for_def c Let_def)
  then have s: "sweep_retention utc_min days now d =
      (if utc_min \<le> c then Some (d', Ok (count_deletable_matching (with_started_before filter_default c) d)) else None)"
    by (simp add: sweep_retention_def d')
  show ?thesis unfolding c[symmetric] s using d'' c by simp
qed

text \<open>A live run that a process has claimed and started to change.\<close>

definition demo_config_run :: loop_config where
  "demo_config_run = \<lparr> lc_process_type = Flow, lc_controller_type = CT_Pi, lc_relay_amp_percent = Fin 5,
     lc_num_cycles_skip = 1, lc_num_cycles_count = 2, lc_noise_protection_secs = 3,
     lc_mrft_delay_secs = 0 \<rparr>"

definition demo_run_start :: run_start where
  "demo_run_start = \<lparr> rs_loop_id = None, rs_loop_name = ''FIC101'', rs_driver = Opcda,
     rs_config = demo_config_run, rs_template_origin = OBuiltin, rs_template = yokogawa_template,
     rs_tags = derive_from_pv_tag ''FIC101.PV'' yokogawa_template \<rparr>"

abbreviation accept_json :: "string \<Rightarrow> bool" where "accept_json \<equiv> (\<lambda>_. True)"

definition demo_running :: db where
  "demo_running = apply_op accept_json (OpRestoreIntent 1 ''{}'')
     (apply_op accept_json (OpClaim (demo_new_owner (Some 1) KTune) ''k'')
       (apply_op accept_json (OpRunStart None demo_run_start 50) demo_empty))"

lemma demo_running_reach: "db_reach accept_json demo_running"
  unfolding demo_running_def by (intro db_reach.step demo_empty_reach)

definition demo_run_row :: tune_run_row where
  "demo_run_row = new_run_row None demo_run_start 50 demo_empty"

definition demo_owner_row :: live_ownership_row where
  "demo_owner_row = \<lparr> lo_id = 1, lo_run_id = Some 1, operation_kind = KTune, database_key = ''db'',
     resource_key = ''res'', owner_pid = 7, acquired_at = 100, heartbeat_at = 100,
     released_at = None, lo_state = Active, restore_intent_json = Some ''{}'',
     orphan_eligible = False, orphan_evidence_json = None \<rparr>"

lemma demo_run_row_simps [simp]:
  "run_id demo_run_row = 1" "started_at demo_run_row = 50" "outcome demo_run_row = OutRunning"
  "recovery_state demo_run_row = None" "driver demo_run_row = Opcda"
  by (simp_all add: demo_run_row_def new_run_row_def demo_empty_def empty_db_def demo_run_start_def)

lemma demo_empty_simps:
  "runs demo_empty = []" "runs_seq demo_empty = 0" "loop_ids demo_empty = []"
  by (simp_all add: demo_empty_def empty_db_def)

lemma demo_started:
  "apply_op accept_json (OpRunStart None demo_run_start 50) demo_empty =
     demo_empty\<lparr>runs := [demo_run_row], runs_seq := 1\<rparr>"
proof -
  have "run_check accept_json demo_run_row"
    by (simp add: run_check_def json_ok_def demo_run_row_def new_run_row_def demo_run_start_def
        demo_config_run_def)
  moreover have "insert_triggers_ok demo_run_row demo_empty" "rs_loop_id demo_run_start = None"
    by (simp_all add: insert_triggers_ok_def demo_run_row_def new_run_row_def demo_run_start_def)
  ultimately show ?thesis
    by (simp add: start_with_demo_session_def run_tx_def cond_def demo_run_row_def[symmetric] Let_def
        demo_empty_simps)
qed

lemma demo_running_eq:
  "demo_running = demo_empty\<lparr>runs := [demo_run_row], runs_seq := 1, owners := [demo_owner_row],
     owners_seq := 1, claims := [\<lparr>claim_key = ''k'', cl_owner_id = 1, claimed_at = 100\<rparr>]\<rparr>"
  unfolding demo_running_def demo_started
  by (simp add: create_and_claim_def run_tx_def insert_owner_def new_owner_row_def demo_new_owner_def
      demo_empty_def empty_db_def owner_check_def json_ok_def run_reference_ok_def
      insert_claim_or_nothing_def insert_claim_def one_row_def Let_def set_restore_intent_def
      sql_update_def affected_def update_where_def holds_claim_def demo_owner_row_def)

theorem sweep_outcome_witness:
  "sweep_retention 0 2 (50 + 86400 * ns_per_sec) demo_running = None"
proof -
  have "case sweep_retention 0 2 (50 + 86400 * ns_per_sec) demo_running of
      None \<Rightarrow> True | Some p \<Rightarrow> 2 * (86400 * ns_per_sec) \<le> 50 + 86400 * ns_per_sec"
    using sweep_outcome[OF demo_running_reach, where utc_min=0 and days=2 and now="50 + 86400 * ns_per_sec"]
    by (auto split: option.splits)
  then show ?thesis by (simp add: ns_per_sec_def split: option.splits)
qed

theorem deletion_keeps_recovery_witness:
  "\<exists>d'. delete_matching filter_default demo_running = (d', Ok 1) \<and> eligibles d' = eligibles demo_running"
proof -
  have "count_deletable_matching filter_default demo_running = 1"
    by (simp add: count_deletable_matching_def demo_running_eq push_filter_def filter_default_def
        cond_def deletable_recovery_guard_def affected_def)
  then show ?thesis using deletion_keeps_recovery[OF demo_running_reach, of filter_default] by auto
qed

section \<open>Pruning demo history\<close>

lemma order_by_sorted_wrt:
  fixes k1 k2 :: "'r \<Rightarrow> int"
  assumes "sorted (map k1 L)" and "\<And>k. sorted (map k2 (filter (\<lambda>x. k1 x = k) L))"
  shows "sorted_wrt (\<lambda>x y. k1 x < k1 y \<or> k1 x = k1 y \<and> k2 x \<le> k2 y) L"
  using assms
proof (induction L)
  case (Cons a L)
  have "k1 a < k1 y \<or> k1 a = k1 y \<and> k2 a \<le> k2 y" if y: "y \<in> set L" for y
  proof -
    have le: "k1 a \<le> k1 y" using Cons.prems(1) y by simp
    have "k2 a \<le> k2 y" if "k1 a = k1 y"
      using Cons.prems(2)[of "k1 a"] y that by simp
    then show ?thesis using le by fastforce
  qed
  moreover have "sorted (map k2 (filter (\<lambda>x. k1 x = k) L))" for k
    using Cons.prems(2)[of k] by (auto split: if_splits)
  ultimately show ?case using Cons by simp
qed simp

lemma sorted_wrt_order_by:
  "sorted_wrt (\<lambda>x y. k1 x < k1 y \<or> k1 x = k1 y \<and> k2 x \<le> k2 y) (order_by k1 k2 t)"
  unfolding order_by_def
proof (rule order_by_sorted_wrt)
  fix k
  have "filter (\<lambda>x. k1 x = k) (sort_key k1 (sort_key k2 t)) = filter (\<lambda>x. k1 x = k) (sort_key k2 t)"
    by (rule sort_key_stable)
  then show "sorted (map k2 (filter (\<lambda>x. k1 x = k) (sort_key k1 (sort_key k2 t))))"
    by (simp add: filter_sort sorted_filter)
qed simp

lemma set_order_by [simp]: "set (order_by k1 k2 t) = set t"
  by (simp add: order_by_def)

lemma distinct_order_by [simp]: "distinct (order_by k1 k2 t) = distinct t"
  by (simp add: order_by_def)

text \<open>\<open>x\<close> is listed strictly before \<open>y\<close>.\<close>

definition newer :: "tune_run_row \<Rightarrow> tune_run_row \<Rightarrow> bool" where
  "newer x y \<longleftrightarrow> not_after x y \<and> \<not> not_after y x"

lemma newer_of_sorted:
  assumes "distinct (map run_id L)"
    and "sorted_wrt (\<lambda>x y. - started_at x < - started_at y \<or>
      - started_at x = - started_at y \<and> - run_id x \<le> - run_id y) L"
  shows "sorted_wrt newer L"
  using assms
proof (induction L)
  case (Cons a L)
  have "newer a y" if y: "y \<in> set L" for y
  proof -
    have "run_id a \<noteq> run_id y" using Cons.prems(1) y by auto
    moreover have "- started_at a < - started_at y \<or>
      - started_at a = - started_at y \<and> - run_id a \<le> - run_id y" using Cons.prems(2) y by simp
    ultimately show ?thesis by (auto simp: newer_def not_after_def)
  qed
  then show ?case using Cons by simp
qed simp

lemma newest_first_sorted:
  assumes "distinct (map run_id t)" shows "sorted_wrt newer (newest_first t)"
proof (rule newer_of_sorted)
  show "distinct (map run_id (newest_first t))"
    using assms by (simp add: newest_first_def distinct_map)
  show "sorted_wrt (\<lambda>x y. - started_at x < - started_at y \<or>
      - started_at x = - started_at y \<and> - run_id x \<le> - run_id y) (newest_first t)"
    unfolding newest_first_def by (rule sorted_wrt_order_by)
qed

lemma drop_rank:
  assumes L: "sorted_wrt newer L" "distinct L" and r: "r \<in> set L"
  shows "r \<in> set (drop n L) \<longleftrightarrow> n < card {x \<in> set L. not_after x r}"
proof -
  obtain xs ys where s: "L = xs @ r # ys" using r by (meson split_list)
  have d: "r \<notin> set xs" "r \<notin> set ys" "distinct xs" using L(2) by (simp_all add: s)
  have "newer x r" if "x \<in> set xs" for x using L(1) that by (simp add: s sorted_wrt_append)
  moreover have "newer r y" if "y \<in> set ys" for y using L(1) that by (simp add: s sorted_wrt_append)
  ultimately have "{x \<in> set L. not_after x r} = insert r (set xs)"
    by (auto simp: s newer_def not_after_def)
  then have "card {x \<in> set L. not_after x r} = Suc (length xs)"
    using d by (simp add: distinct_card)
  moreover have "r \<in> set (drop n L) \<longleftrightarrow> n \<le> length xs"
  proof (cases "n \<le> length xs")
    case False
    then obtain k where "n - length xs = Suc k" by (cases "n - length xs") auto
    then have "drop n L = drop k ys" using False by (simp add: s)
    then show ?thesis using False d(2) by (auto dest: in_set_dropD)
  qed (simp add: s)
  ultimately show ?thesis by (simp add: less_Suc_eq_le)
qed

lemma rank_is_position:
  assumes ids: "distinct (map run_id (runs d))" and r: "r \<in> set (runs d)"
    and s: "demo_session_id r = Some s" "outcome r \<noteq> OutRunning"
  shows "unat n < retention_rank r d \<longleftrightarrow>
    run_id r \<in> set (map run_id (drop (unat n)
      (newest_first (filter (\<lambda>x. demo_session_id x = Some s \<and> outcome x \<noteq> OutRunning) (runs d)))))"
proof -
  let ?t = "filter (\<lambda>x. demo_session_id x = Some s \<and> outcome x \<noteq> OutRunning) (runs d)"
  let ?L = "newest_first ?t"
  have dt: "distinct (map run_id ?t)" using ids by (simp add: distinct_map_filter)
  then have dL: "distinct ?L" unfolding newest_first_def by (simp add: distinct_map)
  have sL: "set ?L = set ?t" by (simp add: newest_first_def)
  have rL: "r \<in> set ?L" using r s by (simp add: sL)
  have "retention_rank r d = card {x \<in> set ?L. not_after x r}"
  proof -
    have "distinct (runs d)" using ids by (simp add: distinct_map)
    then show ?thesis
      unfolding retention_rank_def affected_def sL
      by (subst distinct_length_filter)
         (auto simp: terminal_demo_def s intro!: arg_cong[where f = card])
  qed
  moreover have "run_id r \<in> set (map run_id (drop (unat n) ?L)) \<longleftrightarrow> r \<in> set (drop (unat n) ?L)"
  proof
    assume "run_id r \<in> set (map run_id (drop (unat n) ?L))"
    then obtain x where x: "x \<in> set (drop (unat n) ?L)" "run_id x = run_id r" by auto
    then have "x \<in> set (runs d)" using in_set_dropD sL by fastforce
    then have "x = r" using key_unique[OF ids _ r] x(2) by blast
    then show "r \<in> set (drop (unat n) ?L)" using x(1) by simp
  qed auto
  ultimately show ?thesis
    using drop_rank[OF newest_first_sorted[OF dt] dL rL, of "unat n"] by simp
qed

text \<open>The one statement that prunes the demo history of all sessions leaves of every session
  what pruning that session alone leaves: its running runs and the \<open>retain\<close> newest ended ones; and it
  touches no run that belongs to no session.\<close>

theorem prune_all_is_prune_each:
  assumes "db_reach jv d"
  shows "filter (\<lambda>r. demo_session_id r = Some s) (runs (fst (prune_terminal_demo_owned n d))) =
      filter (\<lambda>r. demo_session_id r = Some s) (runs (fst (prune_terminal_for_demo_session s n d))) \<and>
    filter (\<lambda>r. demo_session_id r = None) (runs (fst (prune_terminal_demo_owned n d))) =
      filter (\<lambda>r. demo_session_id r = None) (runs d) \<and>
    is_ok (snd (prune_terminal_demo_owned n d)) \<and> is_ok (snd (prune_terminal_for_demo_session s n d))"
proof -
  have ok: "db_ok d" "refs_ok d" using reach_ok assms by blast+
  have ids: "distinct (map run_id (runs d))" using ok by (simp add: db_ok_def keys_ok_def)
  have del: "runs (fst (delete_runs_op P d)) = filter (\<lambda>r. \<not> P d r) (runs d) \<and>
      is_ok (snd (delete_runs_op P d))" for P
  proof -
    obtain d' k where k: "delete_runs (P d) d = Some (d', k)" using delete_runs_total[OF ok] by blast
    then have "runs d' = filter (\<lambda>r. \<not> P d r) (runs d)"
      by (auto simp: delete_runs_def Let_def delete_where_def split: if_splits)
    then show ?thesis by (simp add: delete_runs_op_def run_tx_def k)
  qed
  let ?Q = "\<lambda>r. run_id r \<in> set (map run_id (drop (unat n) (newest_first
      (filter (\<lambda>x. demo_session_id x = Some s \<and> outcome x \<noteq> OutRunning) (runs d)))))"
  have eq: "(terminal_demo r \<and> unat n < retention_rank r d) = ?Q r"
    if r: "r \<in> set (runs d)" "demo_session_id r = Some s" for r
  proof (cases "outcome r = OutRunning")
    case True
    have "\<not> ?Q r"
    proof
      assume "?Q r"
      then have "run_id r \<in> run_id ` set (newest_first
          (filter (\<lambda>x. demo_session_id x = Some s \<and> outcome x \<noteq> OutRunning) (runs d)))"
        unfolding set_map using set_drop_subset by (metis (no_types, lifting) image_mono subsetD)
      then obtain x where x: "x \<in> set (runs d)" "outcome x \<noteq> OutRunning" "run_id x = run_id r"
        unfolding newest_first_def set_order_by set_filter by (elim imageE CollectE conjE) metis
      have "x = r" using key_unique[OF ids x(1) r(1)] x(3) by blast
      then show False using x(2) True by simp
    qed
    then show ?thesis using True by (simp add: terminal_demo_def)
  next
    case False
    then show ?thesis using rank_is_position[OF ids r(1) r(2) False] by (simp add: terminal_demo_def r(2))
  qed
  have "filter (\<lambda>r. demo_session_id r = Some s) (filter (\<lambda>r. \<not> (terminal_demo r \<and> unat n < retention_rank r d)) (runs d))
      = filter (\<lambda>r. demo_session_id r = Some s) (filter (\<lambda>r. \<not> ?Q r) (runs d))"
    unfolding filter_filter by (rule filter_cong[OF refl]) (use eq in blast)
  moreover have "filter (\<lambda>r. demo_session_id r = None)
      (filter (\<lambda>r. \<not> (terminal_demo r \<and> unat n < retention_rank r d)) (runs d))
      = filter (\<lambda>r. demo_session_id r = None) (runs d)"
    unfolding filter_filter by (rule filter_cong[OF refl]) (auto simp: terminal_demo_def)
  ultimately show ?thesis
    by (simp add: prune_terminal_demo_owned_def prune_terminal_for_demo_session_def del)
qed

theorem prune_all_is_prune_each_witness:
  "filter (\<lambda>r. demo_session_id r = None) (runs (fst (prune_terminal_demo_owned 0 demo_running))) = [demo_run_row]"
proof -
  have "demo_session_id demo_run_row = None" by (simp add: demo_run_row_def new_run_row_def)
  then show ?thesis using prune_all_is_prune_each[OF demo_running_reach, of 1 0]
    by (simp add: demo_running_eq)
qed

end
