(* ===== verification/Db_Audit.thy ===== *)
theory Db_Audit
  imports Db_Retention
begin

text \<open>
  The audit trail: mutation steps, recovery attempts, MV commands and write-backs are logs.  An
  entry that has been finished never changes again, whatever operations follow; it can only be
  deleted together with its run.  The interface is a locale, interpreted on the four tables.
\<close>

section \<open>Logs\<close>

text \<open>From the table \<open>t\<close>, whose ids are at most \<open>n\<close>, a step leads to \<open>t'\<close>: every row is a new
  one, or an old one that changed only if it was not final.\<close>

definition logged :: "('r \<Rightarrow> int) \<Rightarrow> ('r \<Rightarrow> bool) \<Rightarrow> int \<Rightarrow> 'r list \<Rightarrow> 'r list \<Rightarrow> bool" where
  "logged ident final n t t' \<longleftrightarrow>
     (\<forall>r' \<in> set t'. n < ident r' \<or> (\<exists>r \<in> set t. ident r' = ident r \<and> (final r \<longrightarrow> r' = r)))"

lemma logged_subset: "set t' \<subseteq> set t \<Longrightarrow> logged ident final n t t'"
  by (auto simp: logged_def)

lemma logged_refl [simp]: "logged ident final n t t"
  by (simp add: logged_subset)

lemma logged_append: "n < ident r \<Longrightarrow> logged ident final n t (t @ [r])"
  by (auto simp: logged_def)

lemma logged_replaced:
  "replaced r r' t t' \<Longrightarrow> \<not> final r \<Longrightarrow> ident r' = ident r \<Longrightarrow> logged ident final n t t'"
  by (auto simp: logged_def replaced_set dest: replaced_in)

lemma logged_update:
  "(\<And>r. P r \<Longrightarrow> \<not> final r \<and> ident (f r) = ident r) \<Longrightarrow> logged ident final n t (update_where P f t)"
  by (auto simp: logged_def)

locale audit_log =
  fixes valid :: "'s \<Rightarrow> bool"
    and rows :: "'s \<Rightarrow> 'r list"
    and used :: "'s \<Rightarrow> int"
    and ident :: "'r \<Rightarrow> int"
    and final :: "'r \<Rightarrow> bool"
    and step :: "'op \<Rightarrow> 's \<Rightarrow> 's"
  assumes valid_step: "valid s \<Longrightarrow> valid (step op s)"
    and unique: "valid s \<Longrightarrow> distinct (map ident (rows s))"
    and bounded: "valid s \<Longrightarrow> r \<in> set (rows s) \<Longrightarrow> ident r \<le> used s"
    and grows: "valid s \<Longrightarrow> used s \<le> used (step op s)"
    and log: "valid s \<Longrightarrow> logged ident final (used s) (rows s) (rows (step op s))"
begin

lemma immutable_aux:
  assumes "valid s" and "ident r \<le> used s" and "final r"
    and "\<forall>x \<in> set (rows s). ident x = ident r \<longrightarrow> x = r"
  shows "\<forall>x \<in> set (rows (fold step ops s)). ident x = ident r \<longrightarrow> x = r"
  using assms
proof (induction ops arbitrary: s)
  case (Cons op ops)
  have "\<forall>x \<in> set (rows (step op s)). ident x = ident r \<longrightarrow> x = r"
  proof (intro ballI impI)
    fix x assume x: "x \<in> set (rows (step op s))" "ident x = ident r"
    have "used s < ident x \<or> (\<exists>y \<in> set (rows s). ident x = ident y \<and> (final y \<longrightarrow> x = y))"
      using log[OF Cons.prems(1), of op] x(1) unfolding logged_def by blast
    then have "\<exists>y \<in> set (rows s). ident x = ident y \<and> (final y \<longrightarrow> x = y)"
      using Cons.prems(2) x(2) by auto
    then show "x = r" using Cons.prems(3,4) x(2) by metis
  qed
  moreover have "ident r \<le> used (step op s)" using grows[OF Cons.prems(1), of op] Cons.prems(2) by simp
  ultimately have "\<forall>x \<in> set (rows (fold step ops (step op s))). ident x = ident r \<longrightarrow> x = r"
    using Cons.IH[OF valid_step[OF Cons.prems(1)] _ Cons.prems(3)] by blast
  then show ?case by simp
qed simp

lemma immutable:
  assumes "valid s" and "r \<in> set (rows s)" and "final r"
    and "x \<in> set (rows (fold step ops s))" and "ident x = ident r"
  shows "x = r"
proof -
  have "\<forall>x \<in> set (rows s). ident x = ident r \<longrightarrow> x = r"
    using key_unique[OF unique[OF assms(1)] _ assms(2)] by blast
  then show ?thesis
    using immutable_aux[OF assms(1) bounded[OF assms(1,2)] assms(3)] assms(4,5) by blast
qed

end

section \<open>The audit tables\<close>

abbreviation step_final :: "live_mutation_step_row \<Rightarrow> bool" where
  "step_final s \<equiv> ms_status s \<noteq> Intent"
abbreviation attempt_final :: "tune_recovery_attempt_row \<Rightarrow> bool" where
  "attempt_final a \<equiv> at_status a \<noteq> AttemptRunning"
abbreviation actuation_final :: "tune_mv_actuation_row \<Rightarrow> bool" where
  "actuation_final a \<equiv> mva_status a \<noteq> Pending"
abbreviation write_final :: "tune_write_row \<Rightarrow> bool" where
  "write_final w \<equiv> True"

definition audit_step :: "db \<Rightarrow> db \<Rightarrow> bool" where
  "audit_step d d' \<longleftrightarrow>
     logged ms_id step_final (steps_seq d) (steps d) (steps d') \<and> steps_seq d \<le> steps_seq d' \<and>
     logged at_id attempt_final (attempts_seq d) (attempts d) (attempts d') \<and> attempts_seq d \<le> attempts_seq d' \<and>
     logged mva_id actuation_final (actuations_seq d) (actuations d) (actuations d') \<and>
     actuations_seq d \<le> actuations_seq d' \<and>
     logged tw_id write_final (writes_seq d) (writes d) (writes d') \<and> writes_seq d \<le> writes_seq d'"

abbreviation command_key :: "tune_mv_actuation_row \<Rightarrow> int \<times> int" where
  "command_key a \<equiv> (mva_run_id a, mva_sequence a)"

definition audit_keys :: "db \<Rightarrow> bool" where
  "audit_keys d \<longleftrightarrow>
     distinct (map mva_id (actuations d)) \<and> (\<forall>a \<in> set (actuations d). mva_id a \<le> actuations_seq d) \<and>
     distinct (map command_key (actuations d)) \<and> (\<forall>a \<in> set (actuations d). actuation_check a) \<and>
     distinct (map tw_id (writes d)) \<and> (\<forall>w \<in> set (writes d). tw_id w \<le> writes_seq d)"

definition audit_same :: "db \<Rightarrow> db \<Rightarrow> bool" where
  "audit_same d d' \<longleftrightarrow>
     steps d' = steps d \<and> steps_seq d' = steps_seq d \<and> attempts d' = attempts d \<and>
     attempts_seq d' = attempts_seq d \<and> actuations d' = actuations d \<and>
     actuations_seq d' = actuations_seq d \<and> writes d' = writes d \<and> writes_seq d' = writes_seq d"

lemma audit_same_refl [simp]: "audit_same d d"
  by (simp add: audit_same_def)

lemma audit_same_step: "audit_same d d' \<Longrightarrow> audit_step d d'"
  by (simp add: audit_same_def audit_step_def)

lemma audit_step_refl [simp]: "audit_step d d"
  by (simp add: audit_step_def)

lemma audit_same_tx:
  assumes "\<And>d' y. body d = Inr (d', y) \<Longrightarrow> audit_same d d'"
  shows "audit_step d (fst (run_tx body d))"
  by (rule audit_same_step, rule run_tx_preserves) (use assms in auto)

lemma audit_step_tx:
  assumes "\<And>d' y. body d = Inr (d', y) \<Longrightarrow> audit_step d d'"
  shows "audit_step d (fst (run_tx body d))"
  by (rule run_tx_preserves) (use assms in auto)

lemma quiet_audit:
  "audit_step d (fst (create_and_claim jv new key d))"
  "audit_step d (fst (heartbeat jv i now d))"
  "audit_step d (fst (release jv i now d))"
  "audit_step d (fst (set_restore_intent jv i x d))"
  "audit_step d (fst (mark_orphaned jv ou d))"
  "audit_step d (fst (mark_orphaned_unrecoverable jv uu d))"
  "audit_step d (fst (start_with_demo_session jv ss st now d))"
  "audit_step d (fst (update_run jv rid f d))"
  "audit_step d (fst (session_get_or_create t now e d))"
  "audit_step d (fst (session_get t now d))"
  "audit_step d (fst (session_revoke i now d))"
  "audit_step d (fst (recover_running_demo_runs jv now d))"
proof -
  show "audit_step d (fst (create_and_claim jv new key d))"
    unfolding create_and_claim_def
    by (rule audit_same_tx) (auto simp: bind_result_Ok_iff insert_owner_def Let_def audit_same_def
        split: option.splits if_splits)
  show "audit_step d (fst (heartbeat jv i now d))"
    unfolding heartbeat_def by (rule audit_same_tx) (auto simp: bind_result_Ok_iff audit_same_def)
  show "audit_step d (fst (release jv i now d))"
    unfolding release_def by (rule audit_same_tx) (auto simp: bind_result_Ok_iff audit_same_def)
  show "audit_step d (fst (set_restore_intent jv i x d))"
    unfolding set_restore_intent_def by (rule audit_same_tx) (auto simp: bind_result_Ok_iff audit_same_def)
  show "audit_step d (fst (mark_orphaned jv ou d))"
    unfolding mark_orphaned_def
    by (rule audit_same_tx) (auto simp: bind_result_Ok_iff audit_same_def Let_def split: if_splits)
  show "audit_step d (fst (mark_orphaned_unrecoverable jv uu d))"
    unfolding mark_orphaned_unrecoverable_def
    by (rule audit_same_tx)
       (auto simp: bind_result_Ok_iff audit_same_def Let_def split: if_splits option.splits)
  show "audit_step d (fst (start_with_demo_session jv ss st now d))"
    unfolding start_with_demo_session_def
    by (rule audit_same_tx) (auto simp: Let_def audit_same_def split: if_splits)
  show "audit_step d (fst (update_run jv rid f d))"
    unfolding update_run_def by (rule audit_same_tx) (auto simp: bind_result_Ok_iff audit_same_def)
  show "audit_step d (fst (session_get_or_create t now e d))"
    by (rule audit_same_step) (auto simp: session_get_or_create_def session_get_def Let_def audit_same_def
        split: if_splits option.splits sum.splits prod.splits)
  show "audit_step d (fst (session_get t now d))"
    by (rule audit_same_step) (auto simp: session_get_def Let_def audit_same_def)
  show "audit_step d (fst (session_revoke i now d))"
    by (rule audit_same_step) (auto simp: session_revoke_def Let_def audit_same_def)
  show "audit_step d (fst (recover_running_demo_runs jv now d))"
    by (rule audit_same_step) (auto simp: recover_running_demo_runs_def audit_same_def split: option.splits)
qed

lemma insert_step_audit:
  assumes "insert_step jv row d = Inr (d', y)" and "ms_id row = steps_seq d + 1"
  shows "audit_step d d'"
  using assms by (auto simp: insert_step_def audit_step_def logged_append split: if_splits)

lemma steps_audit:
  "audit_step d (fst (step_begin jv new d))"
  "audit_step d (fst (step_finish jv i s now r x d))"
  "audit_step d (fst (step_not_needed jv i rid nm now y d))"
proof -
  show "audit_step d (fst (step_begin jv new d))"
    unfolding step_begin_def by (rule audit_step_tx) (erule insert_step_audit, simp)
  show "audit_step d (fst (step_not_needed jv i rid nm now y d))"
    unfolding step_not_needed_def by (rule audit_step_tx) (erule insert_step_audit, simp)
  show "audit_step d (fst (step_finish jv i s now r x d))"
    unfolding step_finish_def
    by (rule audit_step_tx)
       (auto simp: bind_result_Ok_iff Let_def audit_step_def dest!: one_row_InrD(1) split: if_splits
          intro!: logged_update)
qed

lemma attempts_audit:
  assumes ok: "db_ok d"
  shows "audit_step d (fst (start_with_claim jv new key source rid export evidence d))"
    and "audit_step d (fst (complete_with_ownership jv u d))"
    and "audit_step d (fst (abandon_after_restart jv v d))"
proof -
  show "audit_step d (fst (start_with_claim jv new key source rid export evidence d))"
  proof (cases "start_with_claim jv new key source rid export evidence d")
    case (Pair d' x)
    show ?thesis
    proof (cases "\<exists>p. x = Ok (Some p)")
      case True
      then obtain row att where x: "x = Ok (Some (row, att))" by auto
      show ?thesis
        by (rule start_commit[OF Pair[unfolded x] ok]) (simp add: Pair audit_step_def logged_append)
    next
      case False
      then show ?thesis using start_not[OF Pair] by (simp add: Pair)
    qed
  qed
  show "audit_step d (fst (complete_with_ownership jv u d))"
  proof (cases "complete_with_ownership jv u d")
    case (Pair d' x)
    show ?thesis
    proof (cases x)
      case (Inl e)
      then show ?thesis using complete_not[OF Pair[unfolded Inl]] Pair by simp
    next
      case (Inr y)
      show ?thesis
        by (rule complete_commit[OF Pair[unfolded Inr]])
           (auto simp: Pair audit_step_def intro: logged_replaced)
    qed
  qed
  show "audit_step d (fst (abandon_after_restart jv v d))"
  proof (cases "abandon_after_restart jv v d")
    case (Pair d' x)
    show ?thesis
    proof (cases "x = Ok True")
      case True
      show ?thesis
        by (rule abandon_commit[OF Pair[unfolded True]])
           (auto simp: Pair audit_step_def intro: logged_replaced)
    next
      case False
      then show ?thesis using abandon_not[OF Pair] by (simp add: Pair)
    qed
  qed
qed

lemma delete_runs_audit: "delete_runs P d = Some (d', n) \<Longrightarrow> audit_step d d'"
  by (auto simp: delete_runs_def Let_def audit_step_def intro!: logged_subset split: if_splits)

lemma deletes_audit:
  "audit_step d (fst (delete_runs_op P d))"
  "audit_step d (fst (cleanup_expired now d))"
proof -
  show "audit_step d (fst (delete_runs_op P d))"
    unfolding delete_runs_op_def
    by (rule audit_step_tx) (auto intro: delete_runs_audit split: option.splits)
  have "audit_step d (d'\<lparr>demo_sessions := s\<rparr>) = audit_step d d'" for d' s
    by (simp add: audit_step_def)
  then show "audit_step d (fst (cleanup_expired now d))"
    by (auto simp: cleanup_expired_def Let_def dest: delete_runs_audit split: option.splits)
qed

lemma update_pending_audit:
  assumes "\<And>a. mva_id (f a) = mva_id a"
  shows "audit_step d (fst (update_pending i f d))"
  unfolding update_pending_def
  by (rule audit_step_tx)
     (auto simp: bind_result_Ok_iff Let_def audit_step_def assms dest!: one_row_InrD(1) intro!: logged_update)

lemma actuations_audit:
  "audit_step d (fst (insert_pending rid new d))"
  "audit_step d (fst (record_observation i t rb q d))"
  "audit_step d (fst (record_final_observation i t rb q s x d))"
  "audit_step d (fst (actuation_finalize i s x d))"
  "audit_step d (fst (finalize_pending_for_run rid s x d))"
  "audit_step d (fst (write_insert rid w d))"
proof -
  show "audit_step d (fst (insert_pending rid new d))"
    unfolding insert_pending_def
    by (rule audit_step_tx) (auto simp: Let_def audit_step_def logged_append split: if_splits)
  show "audit_step d (fst (write_insert rid w d))"
    unfolding write_insert_def
    by (rule audit_step_tx)
       (auto simp: Let_def audit_step_def logged_append stored_write_def new_tune_write.defs split: if_splits)
  show "audit_step d (fst (record_observation i t rb q d))"
    "audit_step d (fst (record_final_observation i t rb q s x d))"
    "audit_step d (fst (actuation_finalize i s x d))"
    by (auto simp: record_observation_def record_final_observation_def actuation_finalize_def observed_def
        intro!: update_pending_audit split: sum.splits)
  show "audit_step d (fst (finalize_pending_for_run rid s x d))"
    by (auto simp: finalize_pending_for_run_def audit_step_def dest!: sql_update_SomeD(1)
        intro!: logged_update split: sum.splits option.splits)
qed

lemma apply_op_audit: "db_ok d \<Longrightarrow> audit_step d (apply_op jv op d)"
  by (cases op)
     (auto simp: quiet_audit steps_audit attempts_audit deletes_audit actuations_audit run_update_defs
        delete_matching_def prune_terminal_for_demo_session_def prune_terminal_demo_owned_def)

section \<open>Row keys\<close>

lemma audit_keys_same:
  "audit_keys d \<Longrightarrow> actuations d' = actuations d \<Longrightarrow> actuations_seq d' = actuations_seq d \<Longrightarrow>
    writes d' = writes d \<Longrightarrow> writes_seq d' = writes_seq d \<Longrightarrow> audit_keys d'"
  by (simp add: audit_keys_def)

text \<open>What an operation does to the two tables: nothing, an insertion, an update that keeps the
  ids, or a deletion.\<close>

definition keeps_keys :: "db \<Rightarrow> db \<Rightarrow> bool" where
  "keeps_keys d d' \<longleftrightarrow> (audit_keys d \<longrightarrow> audit_keys d')"

lemma keeps_keys_refl [simp]: "keeps_keys d d"
  by (simp add: keeps_keys_def)

lemma keeps_keys_fields:
  "actuations d' = actuations d \<Longrightarrow> actuations_seq d' = actuations_seq d \<Longrightarrow>
    writes d' = writes d \<Longrightarrow> writes_seq d' = writes_seq d \<Longrightarrow> keeps_keys d d'"
  by (simp add: keeps_keys_def audit_keys_def)

lemma keeps_keys_tx:
  assumes "\<And>d' y. body d = Inr (d', y) \<Longrightarrow> keeps_keys d d'"
  shows "keeps_keys d (fst (run_tx body d))"
  by (rule run_tx_preserves) (use assms in auto)

lemma quiet_keys:
  "keeps_keys d (fst (create_and_claim jv new key d))"
  "keeps_keys d (fst (heartbeat jv i now d))"
  "keeps_keys d (fst (release jv i now d))"
  "keeps_keys d (fst (set_restore_intent jv i x d))"
  "keeps_keys d (fst (mark_orphaned jv ou d))"
  "keeps_keys d (fst (mark_orphaned_unrecoverable jv uu d))"
  "keeps_keys d (fst (step_begin jv nm d))"
  "keeps_keys d (fst (step_finish jv i ms now r xo d))"
  "keeps_keys d (fst (step_not_needed jv i rid sn now y d))"
  "keeps_keys d (fst (start_with_claim jv new key source rid export evidence d))"
  "keeps_keys d (fst (complete_with_ownership jv cu d))"
  "keeps_keys d (fst (abandon_after_restart jv ru d))"
  "keeps_keys d (fst (start_with_demo_session jv ss st now d))"
  "keeps_keys d (fst (update_run jv rid f d))"
  unfolding create_and_claim_def heartbeat_def release_def set_restore_intent_def mark_orphaned_def
    mark_orphaned_unrecoverable_def step_begin_def step_finish_def step_not_needed_def
    start_with_claim_def complete_with_ownership_def abandon_after_restart_def
    start_with_demo_session_def update_run_def insert_step_def
  by (rule keeps_keys_tx, (auto simp: bind_result_Ok_iff insert_owner_def Let_def
        intro!: keeps_keys_fields split: option.splits if_splits prod.splits)[1])+

lemma session_keys:
  "keeps_keys d (fst (session_get_or_create t now e d))"
  "keeps_keys d (fst (session_get t now d))"
  "keeps_keys d (fst (session_revoke i now d))"
  "keeps_keys d (fst (recover_running_demo_runs jv now d))"
  by (rule keeps_keys_fields; auto simp: session_get_or_create_def session_get_def session_revoke_def Let_def
      recover_running_demo_runs_def split: if_splits option.splits sum.splits prod.splits)+

lemma delete_runs_keys: "delete_runs P d = Some (d', n) \<Longrightarrow> keeps_keys d d'"
  by (auto simp: delete_runs_def Let_def keeps_keys_def audit_keys_def split: if_splits)

lemma deletes_keys:
  "keeps_keys d (fst (delete_runs_op P d))"
  "keeps_keys d (fst (cleanup_expired now d))"
proof -
  show "keeps_keys d (fst (delete_runs_op P d))"
    unfolding delete_runs_op_def
    by (rule keeps_keys_tx) (auto intro: delete_runs_keys split: option.splits)
  have "keeps_keys d (d'\<lparr>demo_sessions := s\<rparr>) = keeps_keys d d'" for d' s
    by (simp add: keeps_keys_def audit_keys_def)
  then show "keeps_keys d (fst (cleanup_expired now d))"
    by (auto simp: cleanup_expired_def Let_def dest: delete_runs_keys split: option.splits)
qed

lemma update_keys:
  assumes "\<And>a. mva_id (f a) = mva_id a \<and> command_key (f a) = command_key a"
    and "\<And>a. a \<in> set (actuations d) \<Longrightarrow> P a \<Longrightarrow> actuation_check (f a)"
  shows "keeps_keys d (d\<lparr>actuations := update_where P f (actuations d)\<rparr>)"
  using assms by (auto simp: keeps_keys_def audit_keys_def map_update_where_fixed)

lemma sql_update_keys:
  assumes "sql_update actuation_check P f (actuations d) = Some (t, n)"
    and "\<And>a. mva_id (f a) = mva_id a \<and> command_key (f a) = command_key a"
  shows "keeps_keys d (d\<lparr>actuations := t\<rparr>)"
  unfolding sql_update_SomeD(1)[OF assms(1)]
  by (rule update_keys[OF assms(2)]) (rule sql_update_SomeD(3)[OF assms(1)])

lemma one_row_keys:
  assumes "one_row (sql_update actuation_check P f (actuations d)) lost = Inr t"
    and "\<And>a. mva_id (f a) = mva_id a \<and> command_key (f a) = command_key a"
  shows "keeps_keys d (d\<lparr>actuations := t\<rparr>)"
  unfolding one_row_InrD(1)[OF assms(1)]
  by (rule update_keys[OF assms(2)]) (rule one_row_InrD(3)[OF assms(1)])

lemma update_pending_keys:
  assumes "\<And>a. mva_id (f a) = mva_id a \<and> command_key (f a) = command_key a"
  shows "keeps_keys d (fst (update_pending i f d))"
  unfolding update_pending_def
  by (rule keeps_keys_tx)
     (auto simp: bind_result_Ok_iff Let_def intro: one_row_keys[OF _ assms])

lemma actuations_keys:
  "keeps_keys d (fst (insert_pending rid new d))"
  "keeps_keys d (fst (record_observation i t rb q d))"
  "keeps_keys d (fst (record_final_observation i t rb q s x d))"
  "keeps_keys d (fst (actuation_finalize i s x d))"
  "keeps_keys d (fst (finalize_pending_for_run rid s x d))"
  "keeps_keys d (fst (write_insert rid w d))"
proof -
  show "keeps_keys d (fst (insert_pending rid new d))"
    unfolding insert_pending_def
    by (rule keeps_keys_tx) (force simp: Let_def keeps_keys_def audit_keys_def list_ex_iff split: if_splits)
  show "keeps_keys d (fst (write_insert rid w d))"
    unfolding write_insert_def
    by (rule keeps_keys_tx)
       (force simp: Let_def keeps_keys_def audit_keys_def stored_write_def new_tune_write.defs split: if_splits)
  show "keeps_keys d (fst (record_observation i t rb q d))"
    "keeps_keys d (fst (record_final_observation i t rb q s x d))"
    "keeps_keys d (fst (actuation_finalize i s x d))"
    by (auto simp: record_observation_def record_final_observation_def actuation_finalize_def observed_def
        intro!: update_pending_keys split: sum.splits)
  show "keeps_keys d (fst (finalize_pending_for_run rid s x d))"
    by (auto simp: finalize_pending_for_run_def intro: sql_update_keys split: sum.splits option.splits)
qed

lemma apply_op_keys: "audit_keys d \<Longrightarrow> audit_keys (apply_op jv op d)"
proof -
  have "keeps_keys d (apply_op jv op d)"
    by (cases op)
       (simp_all add: quiet_keys session_keys deletes_keys actuations_keys run_update_defs
          delete_matching_def prune_terminal_for_demo_session_def prune_terminal_demo_owned_def)
  then show "audit_keys d \<Longrightarrow> audit_keys (apply_op jv op d)" by (simp add: keeps_keys_def)
qed

lemma reach_audit_keys: "db_reach jv d \<Longrightarrow> audit_keys d"
  by (induction rule: db_reach.induct) (simp_all add: apply_op_keys, simp add: audit_keys_def empty_db_def)

section \<open>Finished entries are immutable\<close>

definition audited :: "db \<Rightarrow> bool" where
  "audited d \<longleftrightarrow> db_ok d \<and> audit_keys d"

lemma audited_keys:
  assumes "audited d"
  shows "distinct (map ms_id (steps d))" "distinct (map at_id (attempts d))"
    "distinct (map mva_id (actuations d))" "distinct (map tw_id (writes d))"
    "s \<in> set (steps d) \<Longrightarrow> ms_id s \<le> steps_seq d"
    "a \<in> set (attempts d) \<Longrightarrow> at_id a \<le> attempts_seq d"
    "m \<in> set (actuations d) \<Longrightarrow> mva_id m \<le> actuations_seq d"
    "w \<in> set (writes d) \<Longrightarrow> tw_id w \<le> writes_seq d"
  using assms by (simp_all add: audited_def db_ok_def keys_ok_def audit_keys_def)

lemma audited_step: "audited d \<Longrightarrow> audited (apply_op jv op d)"
  by (simp add: audited_def apply_op_ok apply_op_keys)

lemma audited_log: "audited d \<Longrightarrow> audit_step d (apply_op jv op d)"
  by (simp add: audited_def apply_op_audit)

interpretation step_log: audit_log audited steps steps_seq ms_id step_final "apply_op jv" for jv
proof unfold_locales
  fix s op assume "audited s"
  note a = audited_log[OF this, of jv op]
  show "steps_seq s \<le> steps_seq (apply_op jv op s)"
    "logged ms_id step_final (steps_seq s) (steps s) (steps (apply_op jv op s))"
    using a by (simp_all add: audit_step_def)
qed (simp_all add: audited_step audited_keys)

interpretation attempt_log: audit_log audited attempts attempts_seq at_id attempt_final "apply_op jv" for jv
proof unfold_locales
  fix s op assume "audited s"
  note a = audited_log[OF this, of jv op]
  show "attempts_seq s \<le> attempts_seq (apply_op jv op s)"
    "logged at_id attempt_final (attempts_seq s) (attempts s) (attempts (apply_op jv op s))"
    using a by (simp_all add: audit_step_def)
qed (simp_all add: audited_step audited_keys)

interpretation actuation_log: audit_log audited actuations actuations_seq mva_id actuation_final
  "apply_op jv" for jv
proof unfold_locales
  fix s op assume "audited s"
  note a = audited_log[OF this, of jv op]
  show "actuations_seq s \<le> actuations_seq (apply_op jv op s)"
    "logged mva_id actuation_final (actuations_seq s) (actuations s) (actuations (apply_op jv op s))"
    using a by (simp_all add: audit_step_def)
qed (simp_all add: audited_step audited_keys)

interpretation write_log: audit_log audited writes writes_seq tw_id write_final "apply_op jv" for jv
proof unfold_locales
  fix s op assume "audited s"
  note a = audited_log[OF this, of jv op]
  show "writes_seq s \<le> writes_seq (apply_op jv op s)"
    "logged tw_id write_final (writes_seq s) (writes s) (writes (apply_op jv op s))"
    using a by (simp_all add: audit_step_def)
qed (simp_all add: audited_step audited_keys)

lemma reach_audited: "db_reach jv d \<Longrightarrow> audited d"
  by (simp add: audited_def reach_ok reach_audit_keys)

text \<open>C10: A finished entry of the audit trail never changes: once a mutation step has been confirmed,
  failed or not needed, a recovery attempt has ended, an MV command has terminal evidence or a
  write-back has been recorded, whatever operations follow, a row read under its id is that entry.\<close>

theorem finished_entries_immutable:
  assumes "db_reach jv d"
  shows "(\<forall>s \<in> set (steps d). \<forall>s' \<in> set (steps (fold (apply_op jv) ops d)).
      ms_id s' = ms_id s \<and> ms_status s \<noteq> Intent \<longrightarrow> s' = s) \<and>
    (\<forall>a \<in> set (attempts d). \<forall>a' \<in> set (attempts (fold (apply_op jv) ops d)).
      at_id a' = at_id a \<and> at_status a \<noteq> AttemptRunning \<longrightarrow> a' = a) \<and>
    (\<forall>m \<in> set (actuations d). \<forall>m' \<in> set (actuations (fold (apply_op jv) ops d)).
      mva_id m' = mva_id m \<and> mva_status m \<noteq> Pending \<longrightarrow> m' = m) \<and>
    (\<forall>w \<in> set (writes d). \<forall>w' \<in> set (writes (fold (apply_op jv) ops d)). tw_id w' = tw_id w \<longrightarrow> w' = w)"
  by (intro conjI ballI impI; (elim conjE)?)
     (rule step_log.immutable[OF reach_audited[OF assms]] attempt_log.immutable[OF reach_audited[OF assms]]
        actuation_log.immutable[OF reach_audited[OF assms]] write_log.immutable[OF reach_audited[OF assms]];
      (assumption | rule TrueI))+

text \<open>Closing a run's pending MV commands never fails on a reachable database: it changes exactly
  the pending commands of that run, reports their number, leaves none of them pending and touches
  no other row; asked for a status that is not terminal it changes nothing.\<close>

theorem finalize_pending_closes:
  assumes "db_reach jv d"
  shows "finalize_pending_for_run rid status detail d =
    (if status = Pending then (d, Err InvalidMvActuationFinalStatus)
     else (d\<lparr>actuations := map (\<lambda>a. if mva_run_id a = rid \<and> mva_status a = Pending
                                     then a\<lparr>mva_status := status, mva_detail := detail\<rparr> else a) (actuations d)\<rparr>,
           Ok (length (filter (\<lambda>a. mva_run_id a = rid \<and> mva_status a = Pending) (actuations d)))))
   \<and> (status \<noteq> Pending \<longrightarrow>
      filter (\<lambda>a. mva_run_id a = rid \<and> mva_status a = Pending)
        (actuations (fst (finalize_pending_for_run rid status detail d))) = [])"
proof -
  have "\<forall>a \<in> set (actuations d). actuation_check a"
    using reach_audit_keys[OF assms] by (simp add: audit_keys_def)
  then have "list_all (\<lambda>a. mva_run_id a = rid \<and> mva_status a = Pending \<longrightarrow>
      actuation_check (a\<lparr>mva_status := status, mva_detail := detail\<rparr>)) (actuations d)"
    by (simp add: list_all_iff actuation_check_def)
  then have eq: "finalize_pending_for_run rid status detail d =
    (if status = Pending then (d, Err InvalidMvActuationFinalStatus)
     else (d\<lparr>actuations := map (\<lambda>a. if mva_run_id a = rid \<and> mva_status a = Pending
                                     then a\<lparr>mva_status := status, mva_detail := detail\<rparr> else a) (actuations d)\<rparr>,
           Ok (length (filter (\<lambda>a. mva_run_id a = rid \<and> mva_status a = Pending) (actuations d)))))"
    by (simp add: finalize_pending_for_run_def ensure_terminal_def sql_update_def update_where_def affected_def)
  show ?thesis
  proof (intro conjI impI)
    show "finalize_pending_for_run rid status detail d =
    (if status = Pending then (d, Err InvalidMvActuationFinalStatus)
     else (d\<lparr>actuations := map (\<lambda>a. if mva_run_id a = rid \<and> mva_status a = Pending
                                     then a\<lparr>mva_status := status, mva_detail := detail\<rparr> else a) (actuations d)\<rparr>,
           Ok (length (filter (\<lambda>a. mva_run_id a = rid \<and> mva_status a = Pending) (actuations d)))))"
      by (rule eq)
    assume "status \<noteq> Pending"
    then show "filter (\<lambda>a. mva_run_id a = rid \<and> mva_status a = Pending)
        (actuations (fst (finalize_pending_for_run rid status detail d))) = []"
      unfolding eq by (simp add: filter_map o_def)
  qed
qed

text \<open>The MV commands of a run are listed in strictly increasing command order.\<close>

theorem commands_listed_in_order:
  assumes "db_reach jv d"
  shows "sorted_wrt (<) (map mva_sequence (actuations_for_run rid d)) \<and>
    set (actuations_for_run rid d) = {a \<in> set (actuations d). mva_run_id a = rid} \<and>
    list_all (\<lambda>a. 0 \<le> mva_sequence a \<and> 0 \<le> attempt_count a) (actuations_for_run rid d)"
proof -
  let ?t = "filter (\<lambda>a. mva_run_id a = rid) (actuations d)"
  have k: "audit_keys d" by (rule reach_audit_keys[OF assms])
  have "inj_on command_key (set (actuations d))" "distinct (actuations d)"
    using k by (simp_all add: audit_keys_def distinct_map)
  then have "distinct (map mva_sequence ?t)"
    by (auto simp: distinct_map inj_on_def)
  then have "distinct (map mva_sequence (actuations_for_run rid d))"
    by (simp add: actuations_for_run_def order_by_def distinct_map)
  moreover have "sorted (map mva_sequence (actuations_for_run rid d))"
    by (simp add: actuations_for_run_def order_by_def)
  moreover have "set (actuations_for_run rid d) = set ?t"
    by (simp add: actuations_for_run_def order_by_def)
  moreover have "\<forall>a \<in> set (actuations d). 0 \<le> mva_sequence a \<and> 0 \<le> attempt_count a"
    using k by (simp add: audit_keys_def actuation_check_def)
  ultimately show ?thesis by (simp add: strict_sorted_iff list_all_iff)
qed

text \<open>The claimed live run of \<open>Db_Retention\<close> with one relay command, confirmed by a readback.\<close>

definition demo_command :: new_tune_mv_actuation where
  "demo_command = \<lparr> nmva_sequence = 0, nmva_kind = ARelay, nmva_commanded_at = 200,
     nmva_target_mv = Fin 55, nmva_previous_commanded_mv = Some (Fin 50), nmva_tolerance = Fin 1,
     nmva_confirmation_due_at = 300 \<rparr>"

definition demo_confirmed :: db where
  "demo_confirmed = apply_op accept_json (OpObserveFinal 1 250 (Some (Fin 55)) (Some SGood) Confirmed None)
     (apply_op accept_json (OpActuate 1 demo_command) demo_running)"

definition demo_command_row :: tune_mv_actuation_row where
  "demo_command_row = \<lparr> mva_id = 1, mva_run_id = 1, mva_sequence = 0, mva_kind = ARelay,
     commanded_at = 200, target_mv = Fin 55, previous_commanded_mv = Some (Fin 50), tolerance = Fin 1,
     confirmation_due_at = 300, last_checked_at = Some 250, readback_mv = Some (Fin 55),
     readback_quality = Some SGood, attempt_count = 1, mva_status = Confirmed, mva_detail = None \<rparr>"

lemma demo_confirmed_reach: "db_reach accept_json demo_confirmed"
  unfolding demo_confirmed_def by (intro db_reach.step demo_running_reach)

lemma demo_confirmed_rows: "actuations demo_confirmed = [demo_command_row]"
  by (simp add: demo_confirmed_def insert_pending_def run_tx_def Let_def demo_running_eq demo_empty_def
      empty_db_def demo_command_def real_column_def actuation_check_def fl_le_def fl_lt_def fl_eq_def
      record_final_observation_def ensure_terminal_def update_pending_def sql_update_def affected_def
      update_where_def one_row_def observed_def demo_command_row_def)

theorem finished_entries_immutable_witness:
  "set (filter (\<lambda>m. mva_id m = 1) (actuations (fold (apply_op accept_json)
      [OpFinalizeRun 1 Failed None, OpObserve 1 400 None None, OpRunsDelete filter_default] demo_confirmed)))
    \<subseteq> {demo_command_row}"
proof -
  have "demo_command_row \<in> set (actuations demo_confirmed)" by (simp add: demo_confirmed_rows)
  moreover have "mva_id demo_command_row = 1" "mva_status demo_command_row = Confirmed"
    by (simp_all add: demo_command_row_def)
  ultimately show ?thesis
    using finished_entries_immutable[OF demo_confirmed_reach,
        of "[OpFinalizeRun 1 Failed None, OpObserve 1 400 None None, OpRunsDelete filter_default]"]
    by (auto simp del: apply_op.simps fold_simps)
qed

theorem finalize_pending_closes_witness:
  "fst (finalize_pending_for_run 1 Pending None demo_confirmed) = demo_confirmed"
  using finalize_pending_closes[OF demo_confirmed_reach, of 1 Pending None] by simp

theorem commands_listed_in_order_witness:
  "set (actuations_for_run 1 demo_confirmed) = {demo_command_row}"
proof -
  have "mva_run_id demo_command_row = 1" by (simp add: demo_command_row_def)
  then have "{a \<in> set (actuations demo_confirmed). mva_run_id a = 1} = {demo_command_row}"
    by (simp add: demo_confirmed_rows Collect_conv_if)
  then show ?thesis using commands_listed_in_order[OF demo_confirmed_reach, of 1] by simp
qed

end
