(* ===== verification/Db_Refinement.thy ===== *)
theory Db_Refinement
  imports Db_Audit
begin

text \<open>
  The claim table implements a lock table: a partial map from claim keys to owner ids on which an
  owner acquires a free key, gives its key up, or hands it over to another owner.  The theorem
  reads the effect of every operation that touches claims off that map.
\<close>

section \<open>The lock table\<close>

definition lock_view :: "db \<Rightarrow> string \<rightharpoonup> int" where
  "lock_view d key = map_option cl_owner_id (List.find (\<lambda>c. claim_key c = key) (claims d))"

definition lock_acquire :: "string \<Rightarrow> int \<Rightarrow> (string \<rightharpoonup> int) \<Rightarrow> (string \<rightharpoonup> int) option" where
  "lock_acquire key i m = (if m key = None then Some (m(key \<mapsto> i)) else None)"

definition lock_drop :: "string \<Rightarrow> int \<Rightarrow> (string \<rightharpoonup> int) \<Rightarrow> (string \<rightharpoonup> int) option" where
  "lock_drop key i m = (if m key = Some i then Some (m(key := None)) else None)"

definition lock_handover :: "string \<Rightarrow> int \<Rightarrow> int \<Rightarrow> (string \<rightharpoonup> int) \<Rightarrow> (string \<rightharpoonup> int) option" where
  "lock_handover key i j m = (if m key = Some i then Some (m(key \<mapsto> j)) else None)"

lemma find_SomeD: "List.find P xs = Some x \<Longrightarrow> x \<in> set xs \<and> P x"
  by (induction xs) (auto split: if_splits)

lemma lock_view_iff:
  assumes "db_ok d" shows "lock_view d key = Some i \<longleftrightarrow> claim_holds i key d"
proof -
  have dis: "distinct (map claim_key (claims d))" using assms by (simp add: db_ok_def claims_ok_def)
  show ?thesis
  proof
    assume "lock_view d key = Some i"
    then show "claim_holds i key d"
      by (auto simp: lock_view_def claim_holds_def dest!: find_SomeD)
  next
    assume "claim_holds i key d"
    then obtain c where c: "c \<in> set (claims d)" "claim_key c = key" "cl_owner_id c = i"
      unfolding claim_holds_def by blast
    then obtain x where x: "List.find (\<lambda>c. claim_key c = key) (claims d) = Some x"
      by (cases "List.find (\<lambda>c. claim_key c = key) (claims d)") (auto simp: find_None_iff)
    then have "x \<in> set (claims d)" "claim_key x = key" using find_SomeD[OF x] by simp_all
    then have "x = c" using key_unique[OF dis _ c(1), of x] c(2) by simp
    then show "lock_view d key = Some i" using x c(3) by (simp add: lock_view_def)
  qed
qed

lemma lock_viewI:
  assumes "db_ok d" and "\<And>key i. claim_holds i key d \<longleftrightarrow> m key = Some i"
  shows "lock_view d = m"
proof
  fix key
  show "lock_view d key = m key"
    using lock_view_iff[OF assms(1)] assms(2) by (metis option.exhaust)
qed

lemma claims_unique:
  assumes "db_ok d" and "c \<in> set (claims d)" and "c' \<in> set (claims d)"
  shows "claim_key c' = claim_key c \<Longrightarrow> c' = c" and "cl_owner_id c' = cl_owner_id c \<Longrightarrow> c' = c"
  using assms key_unique[of claim_key "claims d"] key_unique[of cl_owner_id "claims d"]
  by (auto simp: db_ok_def claims_ok_def)

text \<open>The three changes of the claims table and their view.\<close>

lemma view_acquire:
  assumes ok: "db_ok d" "db_ok d'" and c: "claims d' = claims d @ [c]"
    and free: "\<forall>x \<in> set (claims d). claim_key x \<noteq> claim_key c"
  shows "lock_acquire (claim_key c) (cl_owner_id c) (lock_view d) = Some (lock_view d')"
proof -
  have "lock_view d (claim_key c) = None"
    using free lock_view_iff[OF ok(1), of "claim_key c"] by (auto simp: claim_holds_def not_Some_eq[symmetric] simp del: not_Some_eq)
  moreover have "lock_view d' = (lock_view d)(claim_key c \<mapsto> cl_owner_id c)"
    by (rule lock_viewI[OF ok(2)])
       (use free lock_view_iff[OF ok(1)] in \<open>auto simp: claim_holds_def c\<close>)
  ultimately show ?thesis by (simp add: lock_acquire_def)
qed

lemma view_drop:
  assumes ok: "db_ok d" "db_ok d'" and h: "claim_holds i key d"
    and c: "set (claims d') = {c \<in> set (claims d). \<not> (claim_key c = key \<and> cl_owner_id c = i)}"
  shows "lock_drop key i (lock_view d) = Some (lock_view d')"
proof -
  have "lock_view d key = Some i" using h lock_view_iff[OF ok(1)] by simp
  moreover have "lock_view d' = (lock_view d)(key := None)"
  proof (rule lock_viewI[OF ok(2)])
    fix k j
    show "claim_holds j k d' \<longleftrightarrow> ((lock_view d)(key := None)) k = Some j"
      using lock_view_iff[OF ok(1), of k j] claim_holds_unique[OF ok(1) h]
      by (auto simp: claim_holds_def c)
  qed
  ultimately show ?thesis by (simp add: lock_drop_def)
qed

lemma view_moved:
  assumes ok: "db_ok d" "db_ok d'" and c: "c \<in> set (claims d)"
    and s: "set (claims d') = insert c' (set (claims d) - {c})" and k: "claim_key c' = claim_key c"
  shows "lock_handover (claim_key c) (cl_owner_id c) (cl_owner_id c') (lock_view d) = Some (lock_view d')"
proof -
  have only: "x = c" if "x \<in> set (claims d)" "claim_key x = claim_key c" for x
    using claims_unique(1)[OF ok(1) c that(1)] that(2) by simp
  have "lock_view d (claim_key c) = Some (cl_owner_id c)"
    using c lock_view_iff[OF ok(1)] by (auto simp: claim_holds_def)
  moreover have "lock_view d' = (lock_view d)(claim_key c \<mapsto> cl_owner_id c')"
  proof (rule lock_viewI[OF ok(2)])
    fix key j
    show "claim_holds j key d' \<longleftrightarrow> ((lock_view d)(claim_key c \<mapsto> cl_owner_id c')) key = Some j"
    proof (cases "key = claim_key c")
      case True
      then show ?thesis using only k by (auto simp: claim_holds_def s)
    next
      case False
      then show ?thesis using lock_view_iff[OF ok(1), of key j] k by (auto simp: claim_holds_def s)
    qed
  qed
  ultimately show ?thesis by (simp add: lock_handover_def)
qed

lemma view_handover:
  assumes "db_ok d" "db_ok d'" and rep: "replaced c c' (claims d) (claims d')"
    and "claim_key c' = claim_key c"
  shows "lock_handover (claim_key c) (cl_owner_id c) (cl_owner_id c') (lock_view d) = Some (lock_view d')"
  by (rule view_moved[OF assms(1,2) replaced_in[OF rep] replaced_set[OF rep] assms(4)])

section \<open>The operations implement it\<close>

lemma create_not: "create_and_claim jv new key d = (d', x) \<Longrightarrow> (\<forall>row. x \<noteq> Ok (Some row)) \<Longrightarrow> d' = d"
  unfolding create_and_claim_def
  by (auto elim!: run_tx_cases simp: bind_result_Ok_iff split: option.splits prod.splits)

lemma create_view:
  assumes ok: "db_ok d"
  shows "case create_and_claim jv new key d of
      (d', Ok (Some row)) \<Rightarrow> lock_acquire key (lo_id row) (lock_view d) = Some (lock_view d')
    | (d', _) \<Rightarrow> d' = d"
proof (cases "create_and_claim jv new key d")
  case (Pair d' x)
  have ok': "db_ok d'" using create_ok[OF ok, of jv new key] by (simp add: Pair)
  show ?thesis
  proof (cases "\<exists>row. x = Ok (Some row)")
    case True
    then obtain row where x: "x = Ok (Some row)" by blast
    note c = create_commit[OF Pair[unfolded x]]
    have "lock_acquire key (lo_id row) (lock_view d) = Some (lock_view d')"
      using view_acquire[OF ok ok', of "\<lparr>claim_key = key, cl_owner_id = lo_id row, claimed_at = nlo_acquired_at new\<rparr>"]
        c(1,5) by simp
    then show ?thesis by (simp add: Pair x)
  next
    case False
    then have "\<forall>row. x \<noteq> Ok (Some row)" by blast
    then have "d' = d" using create_not[OF Pair] by blast
    then show ?thesis using False by (auto simp: Pair split: sum.splits option.splits)
  qed
qed

lemma release_view:
  assumes ok: "db_ok d"
  shows "case release jv i now d of
      (d', Ok _) \<Rightarrow> (\<exists>key. lock_drop key i (lock_view d) = Some (lock_view d'))
    | (d', Err _) \<Rightarrow> d' = d"
proof (cases "release jv i now d")
  case (Pair d' x)
  have ok': "db_ok d'" using release_ok[OF ok, of jv i now] by (simp add: Pair)
  show ?thesis
  proof (cases x)
    case (Inl e)
    then show ?thesis using release_Err[OF Pair[unfolded Inl]] by (simp add: Pair)
  next
    case (Inr y)
    have "\<exists>key. lock_drop key i (lock_view d) = Some (lock_view d')"
    proof (rule release_commit[OF Pair[unfolded Inr]], goal_cases)
      case (1 r t)
      have "lo_id r \<in> active_ids d" using 1(1,3) by (auto simp: keyed_iff is_active_def dest: replaced_in)
      then have "i \<in> claimed_ids d" using ok 1(2) by (auto simp: db_ok_def claims_ok_def)
      then obtain c where c: "c \<in> set (claims d)" "cl_owner_id c = i" by auto
      then have h: "claim_holds i (claim_key c) d" by (auto simp: claim_holds_def)
      have "set (claims d') = {x \<in> set (claims d). \<not> (claim_key x = claim_key c \<and> cl_owner_id x = i)}"
      proof -
        have "x = c" if "x \<in> set (claims d)" "cl_owner_id x = i" for x
          using claims_unique(2)[OF ok c(1) that(1)] that(2) c(2) by simp
        moreover have "set (claims d') = {x \<in> set (claims d). cl_owner_id x \<noteq> i}" by (simp add: 1(4))
        ultimately show ?thesis by blast
      qed
      then show ?case using view_drop[OF ok ok' h] by blast
    qed
    then show ?thesis by (simp add: Pair Inr)
  qed
qed

lemma start_view:
  assumes ok: "db_ok d"
  shows "case start_with_claim jv new key source rid export evidence d of
      (d', Ok (Some (row, _))) \<Rightarrow> lock_handover key source (lo_id row) (lock_view d) = Some (lock_view d')
    | (d', _) \<Rightarrow> d' = d"
proof (cases "start_with_claim jv new key source rid export evidence d")
  case (Pair d' x)
  have ok': "db_ok d'" using start_ok[OF ok, of jv new key source rid export evidence] by (simp add: Pair)
  show ?thesis
  proof (cases "\<exists>p. x = Ok (Some p)")
    case True
    then obtain row att where x: "x = Ok (Some (row, att))" by auto
    have "lock_handover key source (lo_id row) (lock_view d) = Some (lock_view d')"
    proof (rule start_commit[OF Pair[unfolded x] ok], goal_cases)
      case (1 c cs q rs o')
      then have "replaced c (c\<lparr>cl_owner_id := lo_id row, claimed_at := nlo_acquired_at new\<rparr>) (claims d) (claims d')"
        by simp
      from view_handover[OF ok ok' this] 1 show ?case by simp
    qed
    then show ?thesis by (simp add: Pair x)
  next
    case False
    then show ?thesis using start_not[OF Pair] by (auto simp: Pair split: sum.splits option.splits)
  qed
qed

lemma complete_view:
  assumes ok: "db_ok d"
  shows "case complete_with_ownership jv u d of
      (d', Ok _) \<Rightarrow>
        (if cru_status u = AttemptConfirmed
         then lock_drop (cru_claim_key u) (cru_recovery_owner_id u) (lock_view d) = Some (lock_view d')
         else lock_handover (cru_claim_key u) (cru_recovery_owner_id u) (cru_source_owner_id u)
                (lock_view d) = Some (lock_view d'))
    | (d', Err _) \<Rightarrow> d' = d"
proof (cases "complete_with_ownership jv u d")
  case (Pair d' x)
  have ok': "db_ok d'" using complete_ok[OF ok, of jv u] by (simp add: Pair)
  show ?thesis
  proof (cases x)
    case (Inl e)
    then show ?thesis using complete_not[OF Pair[unfolded Inl]] by (simp add: Pair)
  next
    case (Inr y)
    let ?k = "cru_claim_key u" and ?r = "cru_recovery_owner_id u" and ?s = "cru_source_owner_id u"
    have "if cru_status u = AttemptConfirmed then lock_drop ?k ?r (lock_view d) = Some (lock_view d')
         else lock_handover ?k ?r ?s (lock_view d) = Some (lock_view d')"
    proof (rule complete_commit[OF Pair[unfolded Inr]], goal_cases)
      case (1 rest rec ostate eligible a ats q rs r t o' t' cs)
      obtain c where c: "c \<in> set (claims d)" "claim_key c = ?k" "cl_owner_id c = ?r"
        using 1(16) by blast
      then have h: "claim_holds ?r ?k d" by (auto simp: claim_holds_def)
      show ?case
      proof (cases "cru_status u = AttemptConfirmed")
        case True
        have "set (claims d') = {c \<in> set (claims d). \<not> (claim_key c = ?k \<and> cl_owner_id c = ?r)}"
          using 1(15,17) True by simp
        then show ?thesis using True view_drop[OF ok ok' h] by simp
      next
        case False
        let ?new = "\<lparr>claim_key = ?k, cl_owner_id = ?s, claimed_at = cru_now u\<rparr>"
        have s: "set (claims d') = insert ?new (set (claims d) - {c})"
        proof -
          have "x = c" if "x \<in> set (claims d)" "claim_key x = ?k" for x
            using claims_unique(1)[OF ok c(1) that(1)] that(2) c(2) by simp
          moreover have "set (claims d') =
              insert ?new {x \<in> set (claims d). \<not> (claim_key x = ?k \<and> cl_owner_id x = ?r)}"
            using False by (simp add: 1(15,17))
          ultimately show ?thesis using c by blast
        qed
        from view_moved[OF ok ok' c(1) s] show ?thesis using False c(2,3) by simp
      qed
    qed
    then show ?thesis by (simp add: Pair Inr)
  qed
qed

lemma abandon_view:
  assumes ok: "db_ok d"
  shows "case abandon_after_restart jv u d of
      (d', x) \<Rightarrow> if x = Ok True
        then lock_handover (rru_claim_key u) (rru_recovery_owner_id u) (rru_source_owner_id u)
               (lock_view d) = Some (lock_view d')
        else d' = d"
proof (cases "abandon_after_restart jv u d")
  case (Pair d' x)
  have ok': "db_ok d'" using abandon_ok[OF ok, of jv u] by (simp add: Pair)
  show ?thesis
  proof (cases "x = Ok True")
    case True
    have "lock_handover (rru_claim_key u) (rru_recovery_owner_id u) (rru_source_owner_id u)
               (lock_view d) = Some (lock_view d')"
    proof (rule abandon_commit[OF Pair[unfolded True]], goal_cases)
      case (1 a ats q rs r t c cs)
      then have "replaced c (c\<lparr>cl_owner_id := rru_source_owner_id u, claimed_at := rru_now u\<rparr>) (claims d) (claims d')"
        by simp
      from view_handover[OF ok ok' this] 1 show ?case by simp
    qed
    then show ?thesis by (simp add: Pair True)
  next
    case False
    then show ?thesis using abandon_not[OF Pair] by (simp add: Pair)
  qed
qed

text \<open>C11: On every reachable database the claim operations implement a lock table: claiming a
  controller acquires a free key, releasing drops the owner's key, starting a recovery hands the key
  from the orphan to the recovery, a confirmed recovery drops it, any other end of a recovery, also
  after a restart, hands it back to the orphan; and every other answer leaves the database alone.\<close>

theorem claims_refine_lock_table:
  assumes "db_reach jv d"
  shows "(case create_and_claim jv new key d of
      (d', Ok (Some row)) \<Rightarrow> lock_acquire key (lo_id row) (lock_view d) = Some (lock_view d')
    | (d', _) \<Rightarrow> d' = d) \<and>
  (case release jv i now d of
      (d', Ok _) \<Rightarrow> (\<exists>key. lock_drop key i (lock_view d) = Some (lock_view d'))
    | (d', Err _) \<Rightarrow> d' = d) \<and>
  (case start_with_claim jv new key source rid export evidence d of
      (d', Ok (Some (row, _))) \<Rightarrow> lock_handover key source (lo_id row) (lock_view d) = Some (lock_view d')
    | (d', _) \<Rightarrow> d' = d) \<and>
  (case complete_with_ownership jv u d of
      (d', Ok _) \<Rightarrow>
        (if cru_status u = AttemptConfirmed
         then lock_drop (cru_claim_key u) (cru_recovery_owner_id u) (lock_view d) = Some (lock_view d')
         else lock_handover (cru_claim_key u) (cru_recovery_owner_id u) (cru_source_owner_id u)
                (lock_view d) = Some (lock_view d'))
    | (d', Err _) \<Rightarrow> d' = d) \<and>
  (case abandon_after_restart jv v d of
      (d', x) \<Rightarrow> if x = Ok True
        then lock_handover (rru_claim_key v) (rru_recovery_owner_id v) (rru_source_owner_id v)
               (lock_view d) = Some (lock_view d')
        else d' = d)"
proof -
  have ok: "db_ok d" using reach_ok assms by blast
  show ?thesis
    by (intro conjI create_view[OF ok] release_view[OF ok] start_view[OF ok] complete_view[OF ok]
        abandon_view[OF ok])
qed

theorem claims_refine_lock_table_witness:
  "\<exists>d' row. create_and_claim accept_json (demo_new_owner None KPidWrite) ''k'' demo_empty = (d', Ok (Some row)) \<and>
     lock_acquire ''k'' 1 (lock_view demo_empty) = Some (lock_view d')"
proof -
  obtain d' row where c: "create_and_claim accept_json (demo_new_owner None KPidWrite) ''k'' demo_empty
     = (d', Ok (Some row))" "lo_id row = 1" using demo_claim by blast
  have "case create_and_claim accept_json (demo_new_owner None KPidWrite) ''k'' demo_empty of
      (d', Ok (Some row)) \<Rightarrow> lock_acquire ''k'' (lo_id row) (lock_view demo_empty) = Some (lock_view d')
    | (d', _) \<Rightarrow> d' = demo_empty"
    using claims_refine_lock_table[OF demo_empty_reach, THEN conjunct1] .
  then show ?thesis using c by simp
qed

end
