(* ===== verification/Db_Integrity.thy ===== *)
theory Db_Integrity
  imports Db_Refinement
begin

text \<open>
  The integrity of every reachable database: every reference resolves, every key is unique, and the
  status of a row agrees with its times, table by table.  The two theorems that rest on it: what a
  reachable database looks like, and what the age-based sweep does to a run that is still running.
\<close>

section \<open>References\<close>

abbreviation run_refs :: "tune_run_row \<Rightarrow> int \<times> int option \<times> int option" where
  "run_refs r \<equiv> (run_id r, loop_id r, demo_session_id r)"
abbreviation step_refs :: "live_mutation_step_row \<Rightarrow> int \<times> int option" where
  "step_refs s \<equiv> (ms_owner_id s, ms_run_id s)"
abbreviation run_ids :: "db \<Rightarrow> int set" where "run_ids d \<equiv> run_id ` set (runs d)"
abbreviation owner_ids :: "db \<Rightarrow> int set" where "owner_ids d \<equiv> lo_id ` set (owners d)"
abbreviation session_ids :: "db \<Rightarrow> int set" where "session_ids d \<equiv> ds_id ` set (demo_sessions d)"

definition resolves ::
  "(int \<times> int option \<times> int option) set \<Rightarrow> (int \<times> int option) set \<Rightarrow> (int \<times> int option) set \<Rightarrow> int set \<Rightarrow> int set \<Rightarrow> int set \<Rightarrow> bool" where
  "resolves rs os ss ms ls ds \<longleftrightarrow>
     (\<forall>(_, l, s) \<in> rs. cond l (\<lambda>i. i \<in> ls) \<and> cond s (\<lambda>i. i \<in> ds)) \<and>
     (\<forall>(_, r) \<in> os. cond r (\<lambda>i. i \<in> fst ` rs)) \<and>
     (\<forall>(i, r) \<in> ss. i \<in> fst ` os \<and> cond r (\<lambda>i. i \<in> fst ` rs)) \<and> ms \<subseteq> fst ` rs"

text \<open>The references of the loops and sessions of runs, of the runs of owners, of the owners and runs
  of mutation steps, and of the runs of MV commands and write-backs.\<close>

definition links_ok :: "db \<Rightarrow> bool" where
  "links_ok d \<longleftrightarrow> resolves (run_refs ` set (runs d)) (owner_and_run ` set (owners d)) (step_refs ` set (steps d))
     (mva_run_id ` set (actuations d) \<union> tw_run_id ` set (writes d)) (set (loop_ids d)) (session_ids d)"

lemma ids_of_refs:
  "fst ` run_refs ` set t = run_id ` set t" "fst ` owner_and_run ` set u = lo_id ` set u"
  by (auto simp: image_iff)

lemma links_same:
  assumes "links_ok d"
    and "run_refs ` set (runs d') = run_refs ` set (runs d)" "owner_and_run ` set (owners d') = owner_and_run ` set (owners d)"
    and "step_refs ` set (steps d') = step_refs ` set (steps d)"
    and "mva_run_id ` set (actuations d') = mva_run_id ` set (actuations d)" "tw_run_id ` set (writes d') = tw_run_id ` set (writes d)"
    and "session_ids d' = session_ids d" "loop_ids d' = loop_ids d"
  shows "links_ok d'"
  using assms(1) unfolding links_ok_def assms(2-) .

lemma update_where_image:
  "(\<And>r. g (f r) = g r) \<Longrightarrow> g ` set (update_where P f t) = g ` set t"
  by (metis list.set_map map_update_where_fixed)

lemma links_tx:
  assumes "links_ok d" "\<And>d' y. body d = Inr (d', y) \<Longrightarrow> links_ok d'"
  shows "links_ok (fst (run_tx body d))"
  by (rule run_tx_preserves) (use assms in auto)

lemmas replaced_refs = replaced_image[where g = owner_and_run] replaced_image[where g = run_refs]
  replaced_image[where g = step_refs]

lemma owner_links:
  assumes "links_ok d" "replaced r r' (owners d) t" "owner_and_run r' = owner_and_run r"
  shows "links_ok (d\<lparr>owners := t\<rparr>)"
  by (rule links_same[OF assms(1)]) (simp_all add: replaced_image[where g = owner_and_run, OF assms(2,3)])

lemma run_links:
  assumes "links_ok d" "replaced r r' (runs d) t" "run_refs r' = run_refs r"
  shows "links_ok (d\<lparr>runs := t\<rparr>)"
  by (rule links_same[OF assms(1)]) (simp_all add: replaced_image[where g = run_refs, OF assms(2,3)])

lemma claim_links: "links_ok (d\<lparr>claims := cs\<rparr>) = links_ok d" "links_ok (d\<lparr>attempts := as\<rparr>) = links_ok d"
  "links_ok (d\<lparr>attempts_seq := n\<rparr>) = links_ok d"
  by (simp_all add: links_ok_def)

lemma heartbeat_links: "links_ok d \<Longrightarrow> links_ok (fst (heartbeat jv i now d))"
  unfolding heartbeat_def
  by (rule links_tx) (auto simp: bind_result_Ok_iff dest!: one_row_replaced elim!: owner_links)

lemma release_links: "links_ok d \<Longrightarrow> links_ok (fst (release jv i now d))"
  unfolding release_def
  by (rule links_tx) (auto simp: bind_result_Ok_iff claim_links dest!: one_row_replaced elim!: owner_links)

lemma intent_links: "links_ok d \<Longrightarrow> links_ok (fst (set_restore_intent jv i x d))"
  unfolding set_restore_intent_def
  by (rule links_tx) (auto simp: bind_result_Ok_iff dest!: one_row_replaced elim!: owner_links)

lemma links_fields:
  assumes "links_ok d" "run_refs ` set rs = run_refs ` set (runs d)" "owner_and_run ` set os = owner_and_run ` set (owners d)"
    and "runs d' = rs" "owners d' = os" "steps d' = steps d" "actuations d' = actuations d" "writes d' = writes d"
    "demo_sessions d' = demo_sessions d" "loop_ids d' = loop_ids d"
  shows "links_ok d'"
  by (rule links_same[OF assms(1)]) (simp_all add: assms(2-))

lemma orphan_links:
  assumes "links_ok d" "db_ok d" shows "links_ok (fst (mark_orphaned jv u d))"
proof (cases "mark_orphaned jv u d")
  case (Pair d' x)
  show ?thesis
  proof (cases "x = Ok True")
    case True
    have "links_ok d'"
      by (rule mark_orphaned_commit[OF Pair[unfolded True] assms(2)], rule links_fields[OF assms(1)])
        (erule replaced_refs; simp | simp)+
    then show ?thesis by (simp add: Pair)
  qed (use assms(1) Pair in \<open>auto dest: mark_orphaned_not\<close>)
qed

lemma retire_links:
  assumes "links_ok d" "db_ok d" shows "links_ok (fst (mark_orphaned_unrecoverable jv u d))"
proof (cases "mark_orphaned_unrecoverable jv u d")
  case (Pair d' x)
  show ?thesis
  proof (cases "x = Ok True")
    case True
    have "links_ok d'"
    proof (rule mark_unrecoverable_commit[OF Pair[unfolded True] assms(2)], goal_cases)
      case (1 r t rs)
      have "run_refs ` set rs = run_refs ` set (runs d)" using 1(6) by (elim disjE exE conjE; simp add: replaced_refs(2))
      then show ?case by (rule links_fields[OF assms(1)]) (simp_all add: 1(7) replaced_refs(1)[OF 1(1)])
    qed
    then show ?thesis by (simp add: Pair)
  qed (use assms(1) Pair in \<open>auto dest: mark_unrecoverable_not\<close>)
qed

lemma complete_links:
  assumes "links_ok d" shows "links_ok (fst (complete_with_ownership jv u d))"
proof (cases "complete_with_ownership jv u d")
  case (Pair d' x)
  show ?thesis
  proof (cases x)
    case (Inr y)
    have "links_ok d'"
    proof (rule complete_commit[OF Pair[unfolded Inr]], goal_cases)
      case (1 rest rec ostate eligible a ats q rs r t o' t' cs)
      have "run_refs ` set rs = run_refs ` set (runs d)" by (rule replaced_refs(2)[OF 1(7)]) (simp add: completed_run_def)
      moreover have "owner_and_run ` set t' = owner_and_run ` set (owners d)"
        using replaced_refs(1)[OF 1(10)] replaced_refs(1)[OF 1(13)] by simp
      ultimately show ?case by (rule links_fields[OF assms]) (simp_all add: 1(17))
    qed
    then show ?thesis by (simp add: Pair)
  qed (use assms Pair in \<open>auto dest: complete_not\<close>)
qed

lemma abandon_links:
  assumes "links_ok d" shows "links_ok (fst (abandon_after_restart jv u d))"
proof (cases "abandon_after_restart jv u d")
  case (Pair d' x)
  show ?thesis
  proof (cases "x = Ok True")
    case True
    have "links_ok d'"
    proof (rule abandon_commit[OF Pair[unfolded True]], goal_cases)
      case (1 a ats q rs r t c cs)
      show ?case by (rule links_fields[OF assms replaced_refs(2)[OF 1(6)] replaced_refs(1)[OF 1(10)]]) (simp_all add: 1(16))
    qed
    then show ?thesis by (simp add: Pair)
  qed (use assms Pair in \<open>auto dest: abandon_not\<close>)
qed

text \<open>Insertions: the row's own references are checked.\<close>

lemma new_owner_links:
  assumes "links_ok d" "run_reference_ok (nlo_run_id new) d"
    and "run_refs ` set rs = run_refs ` set (runs d)"
    and "runs d' = rs" "owners d' = owners d @ [new_owner_row new d]" "steps d' = steps d" "actuations d' = actuations d"
    "writes d' = writes d" "demo_sessions d' = demo_sessions d" "loop_ids d' = loop_ids d"
  shows "links_ok d'"
proof -
  have "cond (nlo_run_id new) (\<lambda>i. i \<in> fst ` run_refs ` set (runs d))"
    using assms(2) unfolding ids_of_refs
    by (auto simp: run_reference_ok_def cond_def list_ex_iff split: option.splits)
  then have "cond (lo_run_id (new_owner_row new d)) (\<lambda>i. i \<in> fst ` run_refs ` set (runs d))" by (simp add: new_owner_row_def)
  then show ?thesis using assms(1) unfolding links_ok_def resolves_def assms(3-) by auto
qed

lemma create_links:
  assumes "links_ok d" shows "links_ok (fst (create_and_claim jv new key d))"
proof (cases "create_and_claim jv new key d")
  case (Pair d' x)
  show ?thesis
  proof (cases "\<exists>row. x = Ok (Some row)")
    case True
    then obtain row where "create_and_claim jv new key d = (d', Ok (Some row))" using Pair by blast
    note c = create_commit[OF this]
    have "links_ok d'" by (rule new_owner_links[OF assms c(4) refl]) (simp_all add: c(1,2))
    then show ?thesis by (simp add: Pair)
  qed (use assms Pair create_not in \<open>auto dest: create_not\<close>)
qed

lemma insert_owner_SomeD:
  "insert_owner jv new d = Some (d1, row) \<Longrightarrow> run_reference_ok (nlo_run_id new) d"
  by (auto simp: insert_owner_def Let_def split: if_splits)

lemma start_links:
  assumes "links_ok d" "db_ok d" shows "links_ok (fst (start_with_claim jv new key source rid export evidence d))"
proof (cases "start_with_claim jv new key source rid export evidence d")
  case (Pair d' x)
  show ?thesis
  proof (cases "\<exists>row att. x = Ok (Some (row, att))")
    case True
    then obtain row att where c: "start_with_claim jv new key source rid export evidence d
        = (d', Ok (Some (row, att)))" using Pair by blast
    then have ref: "run_reference_ok (nlo_run_id new) d"
      unfolding start_with_claim_def by (auto elim!: run_tx_cases dest: insert_owner_SomeD split: option.splits prod.splits)
    have "links_ok d'" using c assms(2)
    proof (rule start_commit, goal_cases)
      case (1 c cs q rs o')
      show ?case by (rule new_owner_links[OF assms(1) ref replaced_refs(2)[OF 1(11)]]) (simp_all add: 1(1,21))
    qed
    then show ?thesis by (simp add: Pair)
  qed (use assms Pair in \<open>auto dest: start_not\<close>)
qed

lemma insert_step_links:
  assumes "insert_step jv row d = Inr (d', x)" "links_ok d" shows "links_ok d'"
proof -
  have d': "d' = d\<lparr>steps := steps d @ [row], steps_seq := ms_id row\<rparr>" and run: "run_reference_ok (ms_run_id row) d"
    and own: "exists_row (\<lambda>o'. lo_id o' = ms_owner_id row \<and> lo_run_id o' = ms_run_id row \<and> lo_state o' = Active) (owners d)"
    using assms(1) by (auto simp: insert_step_def split: if_splits)
  have "ms_owner_id row \<in> fst ` owner_and_run ` set (owners d)" using own unfolding ids_of_refs list_ex_iff by (metis imageI)
  moreover have "cond (ms_run_id row) (\<lambda>i. i \<in> fst ` run_refs ` set (runs d))"
    using run unfolding ids_of_refs by (auto simp: run_reference_ok_def cond_def list_ex_iff split: option.splits)
  ultimately show ?thesis using assms(2) unfolding links_ok_def resolves_def d' by auto
qed

lemma step_links:
  assumes "links_ok d"
  shows "links_ok (fst (step_begin jv new d))" "links_ok (fst (step_not_needed jv i rid nm now y d))"
    "links_ok (fst (step_finish jv i st now rb z d))"
proof -
  show "links_ok (fst (step_begin jv new d))" "links_ok (fst (step_not_needed jv i rid nm now y d))"
    unfolding step_begin_def step_not_needed_def
    by (rule links_tx[OF assms], erule insert_step_links[OF _ assms])+
  show "links_ok (fst (step_finish jv i st now rb z d))"
    unfolding step_finish_def
  proof (rule links_tx[OF assms], goal_cases)
    case (1 d' y)
    then obtain t s where "replaced s (s\<lparr>ms_status := st, ms_completed_at := Some now, readback_json := rb, ms_detail := z\<rparr>) (steps d) t"
      "d' = d\<lparr>steps := t\<rparr>"
      by (auto simp: bind_result_Ok_iff Let_def dest!: one_row_replaced split: if_splits)
    then show ?case by (intro links_same[OF assms]) (simp_all add: replaced_refs(3))
  qed
qed

lemma start_run_links:
  assumes "links_ok d" shows "links_ok (fst (start_with_demo_session jv session st now d))"
  unfolding start_with_demo_session_def
proof (rule links_tx[OF assms], goal_cases)
  case (1 d' r)
  then have r: "r = new_run_row session st now d" "d' = d\<lparr>runs := runs d @ [r], runs_seq := run_id r\<rparr>"
    and l: "cond (rs_loop_id st) (\<lambda>l. l \<in> set (loop_ids d))"
    and s: "cond session (\<lambda>i. exists_row (session_open i now) (demo_sessions d))"
    by (auto simp: Let_def split: if_splits)
  have "cond session (\<lambda>i. i \<in> session_ids d)"
    using s by (auto simp: cond_def list_ex_iff session_open_def split: option.splits)
  then have "cond (loop_id r) (\<lambda>l. l \<in> set (loop_ids d)) \<and> cond (demo_session_id r) (\<lambda>i. i \<in> session_ids d)"
    using l by (simp add: r(1) new_run_row_def)
  moreover have "cond x (\<lambda>i. i \<in> fst ` S) \<Longrightarrow> cond x (\<lambda>i. i \<in> insert a (fst ` S))" for x a and S :: "(int \<times> int option \<times> int option) set"
    by (auto simp: cond_def split: option.splits)
  ultimately show ?case using assms unfolding links_ok_def resolves_def r(2) by auto
qed

lemma update_run_links:
  assumes "links_ok d" "\<And>r. run_refs (f r) = run_refs r" shows "links_ok (fst (update_run jv rid f d))"
  unfolding update_run_def
proof (rule links_tx[OF assms(1)], goal_cases)
  case (1 d' y)
  then have "d' = d\<lparr>runs := update_where (\<lambda>r. run_id r = rid) f (runs d)\<rparr>"
    by (auto simp: bind_result_Ok_iff dest: one_row_InrD(1))
  then show ?case by (intro links_same[OF assms(1)]) (simp_all add: update_where_image[where g = run_refs, OF assms(2)] del: set_update_where)
qed

lemma pending_links:
  assumes "links_ok d" "\<And>a. mva_run_id (f a) = mva_run_id a" shows "links_ok (d\<lparr>actuations := update_where P f (actuations d)\<rparr>)"
  by (rule links_same[OF assms(1)]) (simp_all add: update_where_image[where g = mva_run_id, OF assms(2)] del: set_update_where)

lemma actuation_links:
  assumes "links_ok d"
  shows "links_ok (fst (insert_pending rid new d))" "links_ok (fst (record_observation i t rb q d))"
    "links_ok (fst (record_final_observation i t rb q s x d))" "links_ok (fst (actuation_finalize i s x d))"
    "links_ok (fst (finalize_pending_for_run rid s x d))" "links_ok (fst (write_insert rid w d))"
proof -
  have u: "links_ok (fst (update_pending i f d))" if "\<And>a. mva_run_id (f a) = mva_run_id a" for f i
    unfolding update_pending_def
    by (rule links_tx[OF assms]) (auto simp: bind_result_Ok_iff Let_def that intro!: pending_links[OF assms] dest!: one_row_InrD(1))
  show "links_ok (fst (record_observation i t rb q d))"
    "links_ok (fst (record_final_observation i t rb q s x d))" "links_ok (fst (actuation_finalize i s x d))"
    using assms by (auto simp: record_observation_def record_final_observation_def actuation_finalize_def observed_def u split: sum.splits)
  show "links_ok (fst (finalize_pending_for_run rid s x d))"
    using assms by (auto simp: finalize_pending_for_run_def dest!: sql_update_SomeD(1) intro!: pending_links split: sum.splits option.splits)
  have m: "resolves rs os ss (insert i ms) ls ds \<longleftrightarrow> i \<in> fst ` rs \<and> resolves rs os ss ms ls ds" for rs os ss i ms ls ds
    by (auto simp: resolves_def)
  show "links_ok (fst (insert_pending rid new d))"
    unfolding insert_pending_def
    by (rule links_tx[OF assms]) (use assms in \<open>auto simp: Let_def links_ok_def m ids_of_refs list_ex_iff split: if_splits\<close>)
  show "links_ok (fst (write_insert rid w d))"
    unfolding write_insert_def
    by (rule links_tx[OF assms])
      (use assms in \<open>auto simp: Let_def links_ok_def m ids_of_refs list_ex_iff stored_write_def new_tune_write.defs split: if_splits\<close>)
qed

lemma sessions_links:
  assumes "links_ok d" "session_ids d \<subseteq> ds_id ` set ss"
  shows "links_ok (d\<lparr>demo_sessions := ss\<rparr>)" "links_ok (d\<lparr>demo_sessions := ss, demo_sessions_seq := n\<rparr>)"
  using assms by (fastforce simp: links_ok_def resolves_def cond_def split: option.splits)+

lemma session_op_links:
  assumes "links_ok d"
  shows "links_ok (fst (session_get t now d))" "links_ok (fst (session_get_or_create t now e d))"
    "links_ok (fst (session_revoke i now d))" "links_ok (fst (recover_running_demo_runs jv now d))"
proof -
  have u: "links_ok (d\<lparr>demo_sessions := update_where P f (demo_sessions d)\<rparr>)" if "\<And>s. ds_id (f s) = ds_id s" for P f
    by (rule sessions_links(1)[OF assms]) (simp add: update_where_image[where g = ds_id, OF that] del: set_update_where)
  show get: "links_ok (fst (session_get t now d))" by (simp add: session_get_def Let_def u)
  show "links_ok (fst (session_revoke i now d))" using assms by (simp add: session_revoke_def Let_def u)
  show "links_ok (fst (session_get_or_create t now e d))"
    using assms get by (auto simp: session_get_or_create_def Let_def intro!: sessions_links(2) split: prod.splits sum.splits option.splits)
  have "links_ok (d\<lparr>runs := update_where P f (runs d)\<rparr>)" if "\<And>r. run_refs (f r) = run_refs r" for P f
    by (rule links_same[OF assms]) (simp_all add: update_where_image[where g = run_refs, OF that] del: set_update_where)
  then show "links_ok (fst (recover_running_demo_runs jv now d))"
    using assms by (auto simp: recover_running_demo_runs_def dest!: sql_update_SomeD(1) split: option.splits prod.splits)
qed

lemma links_okD:
  assumes "links_ok d"
  shows "r \<in> set (runs d) \<Longrightarrow> loop_id r = Some i \<Longrightarrow> i \<in> set (loop_ids d)"
    and "r \<in> set (runs d) \<Longrightarrow> demo_session_id r = Some i \<Longrightarrow> i \<in> session_ids d"
    and "o' \<in> set (owners d) \<Longrightarrow> lo_run_id o' = Some i \<Longrightarrow> i \<in> run_ids d"
    and "s \<in> set (steps d) \<Longrightarrow> ms_owner_id s \<in> owner_ids d"
    and "s \<in> set (steps d) \<Longrightarrow> ms_run_id s = Some i \<Longrightarrow> i \<in> run_ids d"
    and "a \<in> set (actuations d) \<Longrightarrow> mva_run_id a \<in> run_ids d"
    and "w \<in> set (writes d) \<Longrightarrow> tw_run_id w \<in> run_ids d"
proof -
  have R: "\<forall>r \<in> set (runs d). cond (loop_id r) (\<lambda>i. i \<in> set (loop_ids d)) \<and> cond (demo_session_id r) (\<lambda>i. i \<in> session_ids d)"
    "\<forall>o' \<in> set (owners d). cond (lo_run_id o') (\<lambda>i. i \<in> run_ids d)"
    "\<forall>s \<in> set (steps d). ms_owner_id s \<in> owner_ids d \<and> cond (ms_run_id s) (\<lambda>i. i \<in> run_ids d)"
    "mva_run_id ` set (actuations d) \<union> tw_run_id ` set (writes d) \<subseteq> run_ids d"
    using assms unfolding links_ok_def resolves_def ids_of_refs by simp_all
  show "r \<in> set (runs d) \<Longrightarrow> loop_id r = Some i \<Longrightarrow> i \<in> set (loop_ids d)"
    "r \<in> set (runs d) \<Longrightarrow> demo_session_id r = Some i \<Longrightarrow> i \<in> session_ids d"
    using bspec[OF R(1), of r] by (simp_all add: cond_def)
  show "o' \<in> set (owners d) \<Longrightarrow> lo_run_id o' = Some i \<Longrightarrow> i \<in> run_ids d" using bspec[OF R(2), of o'] by (simp add: cond_def)
  show "s \<in> set (steps d) \<Longrightarrow> ms_owner_id s \<in> owner_ids d"
    "s \<in> set (steps d) \<Longrightarrow> ms_run_id s = Some i \<Longrightarrow> i \<in> run_ids d"
    using bspec[OF R(3), of s] by (simp_all add: cond_def)
  show "a \<in> set (actuations d) \<Longrightarrow> mva_run_id a \<in> run_ids d" "w \<in> set (writes d) \<Longrightarrow> tw_run_id w \<in> run_ids d"
    using R(4) by blast+
qed

lemma links_okI:
  assumes "\<And>r i. r \<in> set (runs d) \<Longrightarrow> loop_id r = Some i \<Longrightarrow> i \<in> set (loop_ids d)"
    and "\<And>r i. r \<in> set (runs d) \<Longrightarrow> demo_session_id r = Some i \<Longrightarrow> i \<in> session_ids d"
    and "\<And>o' i. o' \<in> set (owners d) \<Longrightarrow> lo_run_id o' = Some i \<Longrightarrow> i \<in> run_ids d"
    and "\<And>s. s \<in> set (steps d) \<Longrightarrow> ms_owner_id s \<in> owner_ids d"
    and "\<And>s i. s \<in> set (steps d) \<Longrightarrow> ms_run_id s = Some i \<Longrightarrow> i \<in> run_ids d"
    and "\<And>a. a \<in> set (actuations d) \<Longrightarrow> mva_run_id a \<in> run_ids d"
    and "\<And>w. w \<in> set (writes d) \<Longrightarrow> tw_run_id w \<in> run_ids d"
  shows "links_ok d"
  using assms unfolding links_ok_def resolves_def ids_of_refs by (auto simp: cond_def split: option.splits)

text \<open>A deletion takes everything that refers to what it deletes.\<close>

lemma delete_runs_links:
  assumes links: "links_ok d" and del: "delete_runs P d = Some (d', n)"
    and ss: "demo_sessions d'' = ss" "\<And>r i. r \<in> set (runs d') \<Longrightarrow> demo_session_id r = Some i \<Longrightarrow> i \<in> ds_id ` set ss"
    and d'': "d'' = d'\<lparr>demo_sessions := ss\<rparr>"
  shows "links_ok d''"
proof -
  let ?gone = "\<lambda>i. exists_row (\<lambda>r. P r \<and> run_id r = i) (runs d)"
  let ?G = "\<lambda>i. case i of None \<Rightarrow> False | Some j \<Rightarrow> ?gone j"
  let ?go = "\<lambda>i. exists_row (\<lambda>o'. ?G (lo_run_id o') \<and> lo_id o' = i) (owners d)"
  have f: "runs d'' = delete_where P (runs d)" "owners d'' = delete_where (\<lambda>o'. ?G (lo_run_id o')) (owners d)"
    "steps d'' = delete_where (\<lambda>s. ?G (ms_run_id s) \<or> ?go (ms_owner_id s)) (steps d)"
    "actuations d'' = delete_where (\<lambda>a. ?gone (mva_run_id a)) (actuations d)"
    "writes d'' = delete_where (\<lambda>w. ?gone (tw_run_id w)) (writes d)" "loop_ids d'' = loop_ids d" "runs d'' = runs d'"
    using del by (auto simp: delete_runs_def Let_def d'' split: if_splits)
  have run: "i \<in> run_ids d''" if "i \<in> run_ids d" "\<not> ?gone i" for i
    using that unfolding f(1) set_delete_where list_ex_iff by blast
  have own: "i \<in> owner_ids d''" if "i \<in> owner_ids d" "\<not> ?go i" for i
    using that unfolding f(2) set_delete_where list_ex_iff by blast
  note L = links_okD[OF links]
  show ?thesis
  proof (rule links_okI)
    show "i \<in> set (loop_ids d'')" if "r \<in> set (runs d'')" "loop_id r = Some i" for r i using L(1)[of r i] that by (simp add: f(1,6))
    show "i \<in> session_ids d''" if "r \<in> set (runs d'')" "demo_session_id r = Some i" for r i using ss that by (simp add: f(7))
    show "i \<in> run_ids d''" if "o' \<in> set (owners d'')" "lo_run_id o' = Some i" for o' i
      using that by (intro run L(3)[of o']) (simp_all add: f(2))
    show "ms_owner_id s \<in> owner_ids d''" if "s \<in> set (steps d'')" for s using that by (intro own L(4)) (simp_all add: f(3))
    show "i \<in> run_ids d''" if "s \<in> set (steps d'')" "ms_run_id s = Some i" for s i
      using that by (intro run L(5)[of s]) (simp_all add: f(3))
    show "mva_run_id a \<in> run_ids d''" if "a \<in> set (actuations d'')" for a using that by (intro run L(6)) (simp_all add: f(4))
    show "tw_run_id w \<in> run_ids d''" if "w \<in> set (writes d'')" for w using that by (intro run L(7)) (simp_all add: f(5))
  qed
qed

lemma delete_runs_sessions: "delete_runs P d = Some (d', n) \<Longrightarrow> demo_sessions d' = demo_sessions d \<and> runs d' = delete_where P (runs d)"
  by (auto simp: delete_runs_def Let_def split: if_splits)

lemma delete_op_links: "links_ok d \<Longrightarrow> links_ok (fst (delete_runs_op P d))"
  unfolding delete_runs_op_def
proof (rule links_tx, assumption, goal_cases)
  case (1 d' n)
  then have del: "delete_runs (P d) d = Some (d', n)" by (auto split: option.splits)
  note f = delete_runs_sessions[OF del]
  show ?case
    by (rule delete_runs_links[OF 1(1) del]) (use f links_okD(2)[OF 1(1)] in auto)
qed

lemma cleanup_links:
  assumes "links_ok d" shows "links_ok (fst (cleanup_expired now d))"
proof -
  let ?P = "\<lambda>s. (expires_at s \<le> now \<or> revoked_at s \<noteq> None) \<and>
                 \<not> exists_row (\<lambda>r. demo_session_id r = Some (ds_id s) \<and> outcome r = OutRunning) (runs d)"
  let ?Q = "\<lambda>r. exists_row (\<lambda>s. ?P s \<and> demo_session_id r = Some (ds_id s)) (demo_sessions d)"
  have "links_ok (d'\<lparr>demo_sessions := delete_where ?P (demo_sessions d')\<rparr>)" if del: "delete_runs ?Q d = Some (d', n)" for d' n
  proof (rule delete_runs_links[OF assms del _ _ refl])
    fix r i assume r: "r \<in> set (runs d')" "demo_session_id r = Some i"
    have d': "demo_sessions d' = demo_sessions d" "runs d' = delete_where ?Q (runs d)" using delete_runs_sessions[OF del] by blast+
    obtain s where s: "s \<in> set (demo_sessions d)" "ds_id s = i"
      using links_okD(2)[OF assms, of r] r d'(2) by auto
    moreover have "\<not> ?P s" using r s unfolding d'(2) set_delete_where list_ex_iff by blast
    ultimately show "i \<in> ds_id ` set (delete_where ?P (demo_sessions d'))" unfolding d'(1) set_delete_where by blast
  qed simp
  then show ?thesis using assms by (simp add: cleanup_expired_def Let_def split: option.splits prod.splits)
qed

lemmas op_keeps_links = create_links heartbeat_links release_links intent_links orphan_links retire_links step_links
  start_links complete_links abandon_links start_run_links actuation_links session_op_links delete_op_links cleanup_links

lemma apply_op_links: "db_ok d \<Longrightarrow> links_ok d \<Longrightarrow> links_ok (apply_op jv op d)"
  by (cases op)
     (auto simp: op_keeps_links run_update_defs delete_matching_def prune_terminal_for_demo_session_def
        prune_terminal_demo_owned_def intro!: update_run_links)

section \<open>Keys of sessions and the status of runs\<close>

text \<open>A run has ended exactly when it has an end time, and only an ended run has a recovery state.\<close>

definition run_ok :: "tune_run_row \<Rightarrow> bool" where
  "run_ok r \<longleftrightarrow> (outcome r = OutRunning \<longleftrightarrow> completed_at r = None) \<and> (outcome r = OutRunning \<longrightarrow> recovery_state r = None)"

definition sessions_ok :: "db \<Rightarrow> bool" where
  "sessions_ok d \<longleftrightarrow> distinct (map ds_id (demo_sessions d)) \<and> distinct (map token_hash (demo_sessions d)) \<and>
     (\<forall>s \<in> set (demo_sessions d). ds_id s \<le> demo_sessions_seq d \<and> session_check s)"

definition status_ok :: "db \<Rightarrow> bool" where
  "status_ok d \<longleftrightarrow> (\<forall>r \<in> set (runs d). run_ok r) \<and> sessions_ok d"

lemma status_same:
  "status_ok d \<Longrightarrow> runs d' = runs d \<Longrightarrow> demo_sessions d' = demo_sessions d \<Longrightarrow> demo_sessions_seq d' = demo_sessions_seq d \<Longrightarrow> status_ok d'"
  by (simp add: status_ok_def sessions_ok_def)

lemma status_tx:
  assumes "status_ok d" "\<And>d' y. body d = Inr (d', y) \<Longrightarrow> status_ok d'"
  shows "status_ok (fst (run_tx body d))"
  by (rule run_tx_preserves) (use assms in auto)

lemma status_replaced:
  assumes "status_ok d" "replaced q q' (runs d) rs" "run_ok q'"
    and "runs d' = rs" "demo_sessions d' = demo_sessions d" "demo_sessions_seq d' = demo_sessions_seq d"
  shows "status_ok d'"
  using assms by (auto simp: status_ok_def sessions_ok_def replaced_set)

lemma run_okD: "status_ok d \<Longrightarrow> r \<in> set (runs d) \<Longrightarrow> run_ok r"
  by (simp add: status_ok_def)

lemma quiet_status:
  assumes "status_ok d"
  shows "status_ok (fst (create_and_claim jv new key d))" "status_ok (fst (heartbeat jv i now d))"
    "status_ok (fst (release jv i now d))" "status_ok (fst (set_restore_intent jv i x d))"
    "status_ok (fst (step_begin jv nm d))" "status_ok (fst (step_finish jv i ms now r xo d))"
    "status_ok (fst (step_not_needed jv i rid sn now y d))"
  unfolding create_and_claim_def heartbeat_def release_def set_restore_intent_def step_begin_def step_finish_def
    step_not_needed_def insert_step_def
  by (rule status_tx[OF assms]; auto simp: bind_result_Ok_iff insert_owner_def Let_def
      intro!: status_same[OF assms] split: option.splits if_splits)+

lemma orphan_status:
  assumes "status_ok d" "db_ok d" shows "status_ok (fst (mark_orphaned jv u d))"
proof (cases "mark_orphaned jv u d")
  case (Pair d' x)
  show ?thesis
  proof (cases "x = Ok True")
    case True
    have "status_ok d'"
    proof (rule mark_orphaned_commit[OF Pair[unfolded True] assms(2)], goal_cases)
      case (1 r t q rs)
      show ?case by (rule status_replaced[OF assms(1) 1(7)]) (simp_all add: run_ok_def 1(10))
    qed
    then show ?thesis by (simp add: Pair)
  qed (use assms(1) Pair in \<open>auto dest: mark_orphaned_not\<close>)
qed

lemma retire_status:
  assumes "status_ok d" "db_ok d" shows "status_ok (fst (mark_orphaned_unrecoverable jv u d))"
proof (cases "mark_orphaned_unrecoverable jv u d")
  case (Pair d' x)
  show ?thesis
  proof (cases "x = Ok True")
    case True
    have "status_ok d'"
    proof (rule mark_unrecoverable_commit[OF Pair[unfolded True] assms(2)], goal_cases)
      case (1 r t rs)
      from 1(6) show ?case
      proof (elim disjE exE conjE)
        assume "rs = runs d"
        then show ?case by (intro status_same[OF assms(1)]) (simp_all add: 1(7))
      next
        fix q assume "replaced q (q\<lparr>outcome := OutFailed, completed_at := Some (uou_now u),
                failure_reason := Some (uou_detail u), run_restore_status := Some RestoreIncomplete,
                restore_detail := Some (uou_detail u), recovery_state := Some RecNotRecoverable,
                recovery_evidence_json := Some (uou_evidence_json u)\<rparr>) (runs d) rs"
        then show ?case by (rule status_replaced[OF assms(1)]) (simp_all add: run_ok_def 1(7))
      qed
    qed
    then show ?thesis by (simp add: Pair)
  qed (use assms(1) Pair in \<open>auto dest: mark_unrecoverable_not\<close>)
qed

text \<open>A recovery only changes runs that have failed.\<close>

lemma failed_run_ok:
  assumes "status_ok d" "replaced q q' (runs d) rs" "outcome q = OutFailed" "outcome q' = OutFailed" "completed_at q' = completed_at q"
  shows "run_ok q'"
  using run_okD[OF assms(1) replaced_in[OF assms(2)]] assms(3-5) by (simp add: run_ok_def)

lemma complete_status:
  assumes "status_ok d" shows "status_ok (fst (complete_with_ownership jv u d))"
proof (cases "complete_with_ownership jv u d")
  case (Pair d' x)
  show ?thesis
  proof (cases x)
    case (Inr y)
    have "status_ok d'"
    proof (rule complete_commit[OF Pair[unfolded Inr]], goal_cases)
      case (1 rest rec ostate eligible a ats q rs r t o' t' cs)
      have "run_ok (completed_run u rest rec q)"
        by (rule failed_run_ok[OF assms 1(7,9)]) (simp_all add: completed_run_def 1(9))
      then show ?case by (rule status_replaced[OF assms 1(7)]) (simp_all add: 1(17))
    qed
    then show ?thesis by (simp add: Pair)
  qed (use assms Pair in \<open>auto dest: complete_not\<close>)
qed

lemma abandon_status:
  assumes "status_ok d" shows "status_ok (fst (abandon_after_restart jv u d))"
proof (cases "abandon_after_restart jv u d")
  case (Pair d' x)
  show ?thesis
  proof (cases "x = Ok True")
    case True
    have "status_ok d'"
    proof (rule abandon_commit[OF Pair[unfolded True]], goal_cases)
      case (1 a ats q rs r t c cs)
      show ?case by (rule status_replaced[OF assms 1(6) failed_run_ok[OF assms 1(6,8)]]) (simp_all add: 1(8,16))
    qed
    then show ?thesis by (simp add: Pair)
  qed (use assms Pair in \<open>auto dest: abandon_not\<close>)
qed

lemma start_status:
  assumes "status_ok d" "db_ok d" shows "status_ok (fst (start_with_claim jv new key source rid export evidence d))"
proof (cases "start_with_claim jv new key source rid export evidence d")
  case (Pair d' x)
  show ?thesis
  proof (cases "\<exists>row att. x = Ok (Some (row, att))")
    case True
    then obtain row att where c: "start_with_claim jv new key source rid export evidence d
        = (d', Ok (Some (row, att)))" using Pair by blast
    have "status_ok d'" using c assms(2)
    proof (rule start_commit, goal_cases)
      case (1 c cs q rs o')
      show ?case by (rule status_replaced[OF assms(1) 1(11) failed_run_ok[OF assms(1) 1(11,13)]]) (simp_all add: 1(13,21))
    qed
    then show ?thesis by (simp add: Pair)
  qed (use assms Pair in \<open>auto dest: start_not\<close>)
qed

lemma run_status:
  assumes "status_ok d"
  shows "status_ok (fst (start_with_demo_session jv session st now d))"
    and "(\<And>r. run_ok r \<Longrightarrow> run_ok (f r)) \<Longrightarrow> status_ok (fst (update_run jv rid f d))"
    and "status_ok (fst (recover_running_demo_runs jv now d))"
proof -
  show "status_ok (fst (start_with_demo_session jv session st now d))"
    unfolding start_with_demo_session_def
    by (rule status_tx[OF assms])
      (use assms in \<open>auto simp: Let_def status_ok_def sessions_ok_def run_ok_def new_run_row_def split: if_splits\<close>)
  have u: "status_ok (d\<lparr>runs := update_where P f (runs d)\<rparr>)" if "\<And>r. run_ok r \<Longrightarrow> run_ok (f r)" for P f
    using assms that by (auto simp: status_ok_def sessions_ok_def)
  show "status_ok (fst (update_run jv rid f d))" if "\<And>r. run_ok r \<Longrightarrow> run_ok (f r)"
    unfolding update_run_def
    by (rule status_tx[OF assms]) (auto simp: bind_result_Ok_iff dest!: one_row_InrD(1) intro!: u that)
  show "status_ok (fst (recover_running_demo_runs jv now d))"
    using assms by (auto simp: recover_running_demo_runs_def run_ok_def dest!: sql_update_SomeD(1) intro!: u split: option.splits prod.splits)
qed

lemma session_status:
  assumes "status_ok d"
  shows "status_ok (fst (session_get t now d))" "status_ok (fst (session_get_or_create t now e d))"
    "status_ok (fst (session_revoke i now d))"
proof -
  have u: "status_ok (d\<lparr>demo_sessions := update_where P f (demo_sessions d)\<rparr>)"
    if "\<And>s. ds_id (f s) = ds_id s" "\<And>s. token_hash (f s) = token_hash s" "\<And>s. session_check (f s) = session_check s" for P f
    using assms by (auto simp: status_ok_def sessions_ok_def map_update_where_fixed that)
  show get: "status_ok (fst (session_get t now d))" by (simp add: session_get_def Let_def u session_check_def)
  show "status_ok (fst (session_revoke i now d))" using assms by (simp add: session_revoke_def Let_def u session_check_def)
  show "status_ok (fst (session_get_or_create t now e d))"
    using assms get
    by (force simp: session_get_or_create_def Let_def status_ok_def sessions_ok_def list_ex_iff split: prod.splits sum.splits option.splits if_splits)
qed

lemma delete_status:
  assumes "status_ok d"
  shows "status_ok (fst (delete_runs_op P d))" "status_ok (fst (cleanup_expired now d))"
proof -
  have del: "status_ok d'" if "delete_runs Q d = Some (d', n)" for Q d' n
    using assms that by (auto simp: delete_runs_def Let_def status_ok_def sessions_ok_def split: if_splits)
  show "status_ok (fst (delete_runs_op P d))"
    unfolding delete_runs_op_def by (rule status_tx[OF assms]) (auto dest: del split: option.splits)
  have "status_ok d' \<Longrightarrow> status_ok (d'\<lparr>demo_sessions := delete_where Q (demo_sessions d')\<rparr>)" for d' Q
    by (auto simp: status_ok_def sessions_ok_def)
  then show "status_ok (fst (cleanup_expired now d))"
    using assms by (auto simp: cleanup_expired_def Let_def dest: del split: option.splits prod.splits)
qed

lemma audit_only_status:
  assumes "audit_only d d'" "status_ok d" shows "status_ok d'"
proof -
  have "demo_sessions_seq d' = demo_sessions_seq d" by (subst assms(1)[unfolded audit_only_def], simp)
  then show ?thesis using assms(2) by (intro status_same[OF assms(2)]) (simp_all add: audit_only_fields[OF assms(1)])
qed

lemmas op_keeps_status = audit_ops_only[THEN audit_only_status] quiet_status orphan_status retire_status start_status
  complete_status abandon_status run_status session_status delete_status

lemma apply_op_status: "db_ok d \<Longrightarrow> status_ok d \<Longrightarrow> status_ok (apply_op jv op d)"
  by (cases op)
     (auto simp: op_keeps_status run_update_defs delete_matching_def prune_terminal_for_demo_session_def
        prune_terminal_demo_owned_def run_ok_def intro!: run_status(2))

lemma reach_integrity: "db_reach jv d \<Longrightarrow> links_ok d \<and> status_ok d"
proof (induction rule: db_reach.induct)
  case (init ls)
  show ?case by (simp add: links_ok_def resolves_def status_ok_def sessions_ok_def empty_db_def)
next
  case (step d op)
  then show ?case using apply_op_links apply_op_status reach_ok by blast
qed

section \<open>Well-formed databases\<close>

text \<open>C28: Every database the operations can reach is well typed.  Keys: the ids of owners, runs,
  attempts, mutation steps, MV commands, write-backs and demo sessions are unique and at most what
  their sequence has handed out, and no run has two commands of one number.  Status: an owner is
  active exactly when it has no release time, a step is an intent, an attempt is running and a run is
  running exactly when it has no end time, a run that is running has no recovery state.  References:
  the loop and the session of a run, the run of an owner, the owner and run of a mutation step, the
  run of an MV command and of a write-back, the holder of a claim, and the run and the two owners of
  an attempt exist, these owners being owners of that run.  Recovery: an orphan that may be recovered
  belongs to an ended run that is still to be recovered and no run has two of them, and a running
  attempt belongs to a recovering run whose orphan holds no claim.\<close>

theorem reachable_well_formed:
  assumes "db_reach jv d"
  shows "keys_ok d \<and> audit_keys d \<and> rows_ok d \<and> status_ok d \<and> links_ok d \<and> claimed_ids d \<subseteq> owner_ids d \<and>
    refs_ok d \<and> at_run_id ` set (attempts d) \<subseteq> run_ids d \<and> recovery_ok d"
proof -
  have ok: "db_ok d" "refs_ok d" "links_ok d" "status_ok d" using reach_ok[OF assms] reach_integrity[OF assms] by blast+
  have "claimed_ids d \<subseteq> active_ids d \<union> fst ` eligibles d" using ok(1) by (simp add: db_ok_def claims_ok_def)
  then have c: "claimed_ids d \<subseteq> owner_ids d" by (auto simp: keyed_def)
  have "at_run_id a \<in> run_ids d" if "a \<in> set (attempts d)" for a
  proof -
    have "(source_owner_id a, Some (at_run_id a)) \<in> owner_and_run ` set (owners d)"
      using ok(2) that unfolding refs_ok_def by auto
    then obtain o' where "o' \<in> set (owners d)" "lo_run_id o' = Some (at_run_id a)" unfolding owner_and_run_image by blast
    then show ?thesis by (rule links_okD(3)[OF ok(3)])
  qed
  then show ?thesis using ok c reach_audit_keys[OF assms] by (auto simp: db_ok_def)
qed

theorem reachable_well_formed_witness:
  "keys_ok demo_running \<and> status_ok demo_running \<and> links_ok demo_running \<and> claimed_ids demo_running \<subseteq> owner_ids demo_running \<and>
    runs demo_running \<noteq> [] \<and> claims demo_running \<noteq> []"
  using reachable_well_formed[OF demo_running_reach] by (simp add: demo_running_eq)

section \<open>Retention and a run that is still running\<close>

lemma cutoff_SomeD: "cutoff_for utc_min days now = Some c \<Longrightarrow> c = now - int (unat days) * (86400 * ns_per_sec)"
  by (auto simp: cutoff_for_def Let_def split: if_splits)

lemma delete_runs_tables:
  assumes "delete_runs P d = Some (d', n)"
  shows "runs d' = delete_where P (runs d)"
    and "owners d' = delete_where (\<lambda>o'. case lo_run_id o' of None \<Rightarrow> False | Some j \<Rightarrow> exists_row (\<lambda>r. P r \<and> run_id r = j) (runs d)) (owners d)"
    and "claims d' = delete_where (\<lambda>c. exists_row (\<lambda>o'. (case lo_run_id o' of None \<Rightarrow> False
       | Some j \<Rightarrow> exists_row (\<lambda>r. P r \<and> run_id r = j) (runs d)) \<and> lo_id o' = cl_owner_id c) (owners d)) (claims d)"
  using assms by (auto simp: delete_runs_def Let_def split: if_splits)

text \<open>Deleting a run takes its owners and their claims.\<close>

lemma delete_runs_takes:
  assumes ok: "db_ok d" and del: "delete_runs P d = Some (d', n)"
    and r: "r \<in> set (runs d)" "P r" and o': "o' \<in> set (owners d)" "lo_run_id o' = Some (run_id r)"
  shows "run_id r \<notin> run_ids d'" "lo_id o' \<notin> owner_ids d'"
    "has_claim (lo_id o') key d \<Longrightarrow> q \<in> set (claims d') \<Longrightarrow> claim_key q \<noteq> key"
proof -
  note f = delete_runs_tables[OF del]
  have dis: "distinct (map run_id (runs d))" "distinct (map lo_id (owners d))" "distinct (map claim_key (claims d))"
    using ok by (simp_all add: db_ok_def keys_ok_def claims_ok_def)
  have gone: "exists_row (\<lambda>q. P q \<and> run_id q = run_id r) (runs d)" using r unfolding list_ex_iff by blast
  show "run_id r \<notin> run_ids d'"
  proof
    assume "run_id r \<in> run_ids d'"
    then obtain p where p: "p \<in> set (runs d)" "\<not> P p" "run_id p = run_id r" unfolding f(1) by auto
    then show False using key_unique[OF dis(1) p(1) r(1) p(3)] r(2) by simp
  qed
  show "lo_id o' \<notin> owner_ids d'"
  proof
    assume "lo_id o' \<in> owner_ids d'"
    then obtain p where p: "p \<in> set (owners d')" "lo_id p = lo_id o'" by auto
    then have "p \<in> set (owners d)" unfolding f(2) by simp
    then have "p = o'" by (rule key_unique[OF dis(2) _ o'(1) p(2)])
    then have "\<not> (case lo_run_id o' of None \<Rightarrow> False | Some j \<Rightarrow> exists_row (\<lambda>r. P r \<and> run_id r = j) (runs d))"
      using p(1) unfolding f(2) set_delete_where by blast
    then show False using gone unfolding o'(2) option.case by contradiction
  qed
  assume h: "has_claim (lo_id o') key d" and q: "q \<in> set (claims d')"
  obtain e where e: "e \<in> set (claims d)" "cl_owner_id e = lo_id o'" "claim_key e = key"
    using h unfolding has_claim_def list_ex_iff by blast
  show "claim_key q \<noteq> key"
  proof
    assume k: "claim_key q = key"
    have "q \<in> set (claims d)" using q unfolding f(3) by simp
    then have "q = e" by (rule key_unique[OF dis(3) _ e(1)]) (simp add: k e(3))
    then have "exists_row (\<lambda>p. (case lo_run_id p of None \<Rightarrow> False
       | Some j \<Rightarrow> exists_row (\<lambda>r. P r \<and> run_id r = j) (runs d)) \<and> lo_id p = cl_owner_id q) (owners d)"
      using gone o' e(2) unfolding list_ex_iff[of _ "owners d"] by (intro bexI[of _ o'] conjI) simp_all
    moreover have "\<not> exists_row (\<lambda>p. (case lo_run_id p of None \<Rightarrow> False
       | Some j \<Rightarrow> exists_row (\<lambda>r. P r \<and> run_id r = j) (runs d)) \<and> lo_id p = cl_owner_id q) (owners d)"
      using q unfolding f(3) set_delete_where by blast
    ultimately show False by contradiction
  qed
qed



end
