(* ===== verification/Mrft.thy ===== *)
theory Mrft
  imports Core_Types
begin

text \<open>
  The relay-feedback engine (\<open>bhtune-core/src/mrft.rs\<close>): the clamped relay amplitude, the
  engine's state, the decision to switch, the switch itself and the step that composes them.

  Main facts: the engine's invariant (counters, alternation of the relay's sign, numbers of
  recorded switches, peaks and troughs), the commands it emits, and that the relay stays in
  the MV range.
\<close>

section \<open>Model\<close>

record tick =
  tk_time :: timestamp
  tk_pv :: f32

datatype action =
  WriteMv f32
| Complete "f32 list" "f32 list" "timestamp list" i8

record initial_readings =
  ir_pv_ini :: f32
  ir_mv_ini :: f32
  ir_mv_range_low :: f32
  ir_mv_range_high :: f32

definition clamp_relay_amplitude :: "f32 \<Rightarrow> f32 \<Rightarrow> f32 \<Rightarrow> f32 \<Rightarrow> f32" where
  "clamp_relay_amplitude relay_amp_percent mv_ini mv_range_low mv_range_high =
    (let raw = fl_mul B32 (fl_div B32 relay_amp_percent (lit32 100))
                 (fl_sub B32 mv_range_high mv_range_low)
     in if fl_gt (fl_add B32 mv_ini raw) mv_range_high then fl_sub B32 mv_range_high mv_ini
        else if fl_lt (fl_sub B32 mv_ini raw) mv_range_low then fl_sub B32 mv_ini mv_range_low
        else raw)"

record mrft_state =
  ms_hysteresis :: f32
  ms_mv_value_current :: f32
  ms_mv_sign_next_step :: i8
  ms_counter_all_switches :: u32
  ms_cycles_completed :: i32
  ms_cycles_remaining :: i32

record mrft_engine =
  e_beta :: f32
  e_action_multiplier :: i8
  e_relay_amp_raw :: f32
  e_pv_value_ini :: f32
  e_mv_value_ini :: f32
  e_num_switches_skip :: u32
  e_num_cycles_count :: u32
  e_noise_protection_secs :: u32
  e_mv_value_current :: f32
  e_mv_value_next_step :: f32
  e_max_pv_cycle :: f32
  e_min_pv_cycle :: f32
  e_max_pv_result :: f32
  e_min_pv_result :: f32
  e_hysteresis :: f32
  e_mv_sign_next_step :: i8
  e_mv_sign_init :: i8
  e_time_previous_switch :: timestamp
  e_counter_all_switches :: u32
  e_peaks :: "f32 list"
  e_troughs :: "f32 list"
  e_switch_times :: "timestamp list"
  e_completed :: bool

definition engine_new ::
  "loop_config \<Rightarrow> controller_direction \<Rightarrow> f32 \<Rightarrow> initial_readings \<Rightarrow> timestamp \<Rightarrow> mrft_engine" where
  "engine_new config direction beta initial start_time = \<lparr>
     e_beta = beta,
     e_action_multiplier = action_multiplier direction,
     e_relay_amp_raw = clamp_relay_amplitude (lc_relay_amp_percent config) (ir_mv_ini initial)
       (ir_mv_range_low initial) (ir_mv_range_high initial),
     e_pv_value_ini = ir_pv_ini initial,
     e_mv_value_ini = ir_mv_ini initial,
     e_num_switches_skip = lc_num_cycles_skip config * 2 + 1,
     e_num_cycles_count = lc_num_cycles_count config,
     e_noise_protection_secs = lc_noise_protection_secs config,
     e_mv_value_current = ir_mv_ini initial,
     e_mv_value_next_step = ir_mv_ini initial,
     e_max_pv_cycle = ir_pv_ini initial,
     e_min_pv_cycle = ir_pv_ini initial,
     e_max_pv_result = ir_pv_ini initial,
     e_min_pv_result = ir_pv_ini initial,
     e_hysteresis = Fin 0,
     e_mv_sign_next_step = 1,
     e_mv_sign_init = 0,
     e_time_previous_switch = start_time,
     e_counter_all_switches = 0,
     e_peaks = [],
     e_troughs = [],
     e_switch_times = [],
     e_completed = False\<rparr>"

definition is_complete :: "mrft_engine \<Rightarrow> bool" where
  "is_complete e \<longleftrightarrow>
     e_num_switches_skip e + e_num_cycles_count e * 2 \<le> e_counter_all_switches e"

definition cycles_completed :: "mrft_engine \<Rightarrow> i32" where
  "cycles_completed e = trunc_div (wrap_i32 (u32_as_i32 (e_counter_all_switches e) - 1)) 2"

definition cycles_remaining :: "mrft_engine \<Rightarrow> i32" where
  "cycles_remaining e = trunc_div
     (wrap_i32 (wrap_i32 (wrap_i32 (u32_as_i32 (e_num_switches_skip e)
        + wrap_i32 (u32_as_i32 (e_num_cycles_count e) * 2))
        - u32_as_i32 (e_counter_all_switches e)) + 1)) 2"

definition engine_state :: "mrft_engine \<Rightarrow> mrft_state" where
  "engine_state e = \<lparr>
     ms_hysteresis = e_hysteresis e,
     ms_mv_value_current = e_mv_value_current e,
     ms_mv_sign_next_step = e_mv_sign_next_step e,
     ms_counter_all_switches = e_counter_all_switches e,
     ms_cycles_completed = cycles_completed e,
     ms_cycles_remaining = cycles_remaining e\<rparr>"

text \<open>\<open>track_pv\<close> and \<open>decide_sign\<close> are the first two paragraphs of \<open>switch_is_needed\<close>: the
  extrema and hysteresis, then the sign and value of the next relay step.\<close>

definition track_pv :: "mrft_engine \<Rightarrow> tick \<Rightarrow> mrft_engine" where
  "track_pv e t = (let
     maxc = fl_max (e_max_pv_cycle e) (tk_pv t);
     minc = fl_min (e_min_pv_cycle e) (tk_pv t) in
     e\<lparr>e_max_pv_cycle := maxc,
       e_min_pv_cycle := minc,
       e_max_pv_result := fl_max (e_max_pv_result e) (tk_pv t),
       e_min_pv_result := fl_min (e_min_pv_result e) (tk_pv t),
       e_hysteresis := fl_mul B32 (e_beta e)
         (fl_max (fl_sub B32 maxc (e_pv_value_ini e)) (fl_sub B32 (e_pv_value_ini e) minc))\<rparr>)"

definition decide_sign :: "mrft_engine \<Rightarrow> tick \<Rightarrow> i8" where
  "decide_sign e t = (let
     sp_pv_diff = fl_sub B32 (e_pv_value_ini e) (tk_pv t);
     mv_sign_previous = (if fl_ge (e_mv_value_current e) (e_mv_value_ini e) then 1 else - 1);
     swing = fl_mul B32 (fl_of_int B32 mv_sign_previous) (e_hysteresis e) in
     if e_action_multiplier e = 1
     then (if fl_ge (fl_add B32 sp_pv_diff swing) (Fin 0) then 1 else - 1)
     else (if fl_le (fl_sub B32 sp_pv_diff swing) (Fin 0) then 1 else - 1))"

definition switch_is_needed :: "mrft_engine \<Rightarrow> tick \<Rightarrow> mrft_engine \<times> bool" where
  "switch_is_needed e t = (let
     e1 = track_pv e t;
     sign = decide_sign e1 t;
     e2 = e1\<lparr>e_mv_sign_next_step := sign,
             e_mv_sign_init := (if e_counter_all_switches e1 = 0 then sign else e_mv_sign_init e1),
             e_mv_value_next_step := fl_add B32 (e_mv_value_ini e1)
               (fl_mul B32 (fl_of_int B32 sign) (e_relay_amp_raw e1))\<rparr>;
     mv_switch_required = fl_ge
       (fl_abs (fl_sub B64 (e_mv_value_next_step e2) (e_mv_value_current e2))) (lit64 0.01);
     enable_mv_switch =
       (e_time_previous_switch e2 + uint (e_noise_protection_secs e2) * ns_per_sec \<le> tk_time t
        \<or> e_counter_all_switches e2 = 0)
     in (e2, mv_switch_required \<and> enable_mv_switch))"

definition perform_switch :: "mrft_engine \<Rightarrow> tick \<Rightarrow> mrft_engine \<times> f32" where
  "perform_switch e t = (let
     e1 = e\<lparr>e_time_previous_switch := tk_time t,
            e_counter_all_switches := e_counter_all_switches e + 1\<rparr>;
     e2 = (if e_num_switches_skip e1 \<le> e_counter_all_switches e1 then
             (let e' = e1\<lparr>e_switch_times := e_switch_times e1 @ [tk_time t]\<rparr> in
              if e_mv_sign_next_step e1 * e_action_multiplier e1 = 1
              then e'\<lparr>e_peaks := e_peaks e' @ [e_max_pv_result e']\<rparr>
              else e'\<lparr>e_troughs := e_troughs e' @ [e_min_pv_result e']\<rparr>)
           else e1);
     e3 = e2\<lparr>e_max_pv_cycle := e_pv_value_ini e2,
             e_min_pv_cycle := e_pv_value_ini e2,
             e_max_pv_result := tk_pv t,
             e_min_pv_result := tk_pv t\<rparr>;
     e4 = e3\<lparr>e_mv_value_current :=
             (if cycles_remaining e3 = 0 then e_mv_value_ini e3 else e_mv_value_next_step e3)\<rparr>
     in (e4, e_mv_value_current e4))"

definition engine_step :: "mrft_engine \<Rightarrow> tick \<Rightarrow> mrft_engine \<times> action list" where
  "engine_step e t =
    (if e_completed e then (e, [])
     else
      (let (e1, needed) = switch_is_needed e t;
           (e2, acts) = (if needed then (let (e', mv) = perform_switch e1 t in (e', [WriteMv mv]))
                         else (e1, []))
       in if is_complete e2
          then (e2\<lparr>e_completed := True\<rparr>,
                acts @ [Complete (e_peaks e2) (e_troughs e2) (e_switch_times e2) (e_mv_sign_init e2)])
          else (e2, acts)))"

text \<open>Feeding a whole sample sequence, as the polling loop does.\<close>

fun engine_run :: "mrft_engine \<Rightarrow> tick list \<Rightarrow> mrft_engine \<times> action list" where
  "engine_run e [] = (e, [])"
| "engine_run e (t # ts) =
     (let (e1, a) = engine_step e t; (e2, b) = engine_run e1 ts in (e2, a @ b))"

section \<open>Field-wise behaviour of the steps\<close>

text \<open>The fields fixed for the life of the engine.\<close>

definition same_params :: "mrft_engine \<Rightarrow> mrft_engine \<Rightarrow> bool" where
  "same_params e f \<longleftrightarrow> e_beta f = e_beta e \<and> e_action_multiplier f = e_action_multiplier e \<and>
     e_relay_amp_raw f = e_relay_amp_raw e \<and> e_pv_value_ini f = e_pv_value_ini e \<and>
     e_mv_value_ini f = e_mv_value_ini e \<and> e_num_switches_skip f = e_num_switches_skip e \<and>
     e_num_cycles_count f = e_num_cycles_count e \<and>
     e_noise_protection_secs f = e_noise_protection_secs e"

text \<open>The two relay levels around the initial MV.\<close>

definition relay_level :: "mrft_engine \<Rightarrow> i8 \<Rightarrow> f32" where
  "relay_level e s = fl_add B32 (e_mv_value_ini e) (fl_mul B32 (fl_of_int B32 s) (e_relay_amp_raw e))"

lemma same_params_refl [simp]: "same_params e e"
  by (simp add: same_params_def)

lemma same_params_trans: "same_params e f \<Longrightarrow> same_params f g \<Longrightarrow> same_params e g"
  by (simp add: same_params_def)

lemma same_params_level [simp]: "same_params e f \<Longrightarrow> relay_level f = relay_level e"
  by (simp add: same_params_def relay_level_def fun_eq_iff)

lemma decide_sign_pm: "decide_sign e t = 1 \<or> decide_sign e t = - 1"
  by (simp add: decide_sign_def Let_def)

lemma track_pv_fields [simp]:
  "e_beta (track_pv e t) = e_beta e" "e_action_multiplier (track_pv e t) = e_action_multiplier e"
  "e_relay_amp_raw (track_pv e t) = e_relay_amp_raw e" "e_pv_value_ini (track_pv e t) = e_pv_value_ini e"
  "e_mv_value_ini (track_pv e t) = e_mv_value_ini e"
  "e_num_switches_skip (track_pv e t) = e_num_switches_skip e"
  "e_num_cycles_count (track_pv e t) = e_num_cycles_count e"
  "e_noise_protection_secs (track_pv e t) = e_noise_protection_secs e"
  "e_counter_all_switches (track_pv e t) = e_counter_all_switches e"
  "e_peaks (track_pv e t) = e_peaks e" "e_troughs (track_pv e t) = e_troughs e"
  "e_switch_times (track_pv e t) = e_switch_times e" "e_completed (track_pv e t) = e_completed e"
  "e_mv_value_current (track_pv e t) = e_mv_value_current e"
  "e_time_previous_switch (track_pv e t) = e_time_previous_switch e"
  "e_mv_sign_init (track_pv e t) = e_mv_sign_init e"
  "e_max_pv_result (track_pv e t) = fl_max (e_max_pv_result e) (tk_pv t)"
  "e_min_pv_result (track_pv e t) = fl_min (e_min_pv_result e) (tk_pv t)"
  by (simp_all add: track_pv_def Let_def)

lemma same_params_fields:
  "e_beta f = e_beta e \<Longrightarrow> e_action_multiplier f = e_action_multiplier e \<Longrightarrow>
   e_relay_amp_raw f = e_relay_amp_raw e \<Longrightarrow> e_pv_value_ini f = e_pv_value_ini e \<Longrightarrow>
   e_mv_value_ini f = e_mv_value_ini e \<Longrightarrow> e_num_switches_skip f = e_num_switches_skip e \<Longrightarrow>
   e_num_cycles_count f = e_num_cycles_count e \<Longrightarrow>
   e_noise_protection_secs f = e_noise_protection_secs e \<Longrightarrow> same_params e f"
  by (simp add: same_params_def)

lemma needed_fields:
  assumes "switch_is_needed e t = (f, b)"
  shows "same_params e f" "e_counter_all_switches f = e_counter_all_switches e"
    "e_peaks f = e_peaks e" "e_troughs f = e_troughs e" "e_switch_times f = e_switch_times e"
    "e_completed f = e_completed e" "e_mv_value_current f = e_mv_value_current e"
    "e_time_previous_switch f = e_time_previous_switch e"
    "e_mv_sign_next_step f = 1 \<or> e_mv_sign_next_step f = - 1"
    "e_mv_value_next_step f = relay_level e (e_mv_sign_next_step f)"
    "e_mv_sign_init f =
      (if e_counter_all_switches e = 0 then e_mv_sign_next_step f else e_mv_sign_init e)"
    "e_max_pv_result f = fl_max (e_max_pv_result e) (tk_pv t)"
    "e_min_pv_result f = fl_min (e_min_pv_result e) (tk_pv t)"
proof -
  have f: "f = (track_pv e t)\<lparr>e_mv_sign_next_step := decide_sign (track_pv e t) t,
      e_mv_sign_init := (if e_counter_all_switches (track_pv e t) = 0
        then decide_sign (track_pv e t) t else e_mv_sign_init (track_pv e t)),
      e_mv_value_next_step := relay_level (track_pv e t) (decide_sign (track_pv e t) t)\<rparr>"
    using assms by (simp add: switch_is_needed_def Let_def relay_level_def)
  show "same_params e f" by (rule same_params_fields) (simp_all add: f)
  have level: "relay_level (track_pv e t) = relay_level e" by (simp add: relay_level_def fun_eq_iff)
  show "e_counter_all_switches f = e_counter_all_switches e"
    "e_peaks f = e_peaks e" "e_troughs f = e_troughs e" "e_switch_times f = e_switch_times e"
    "e_completed f = e_completed e" "e_mv_value_current f = e_mv_value_current e"
    "e_time_previous_switch f = e_time_previous_switch e"
    "e_mv_value_next_step f = relay_level e (e_mv_sign_next_step f)"
    "e_mv_sign_init f =
      (if e_counter_all_switches e = 0 then e_mv_sign_next_step f else e_mv_sign_init e)"
    "e_max_pv_result f = fl_max (e_max_pv_result e) (tk_pv t)"
    "e_min_pv_result f = fl_min (e_min_pv_result e) (tk_pv t)"
    by (simp_all add: f level)
  show "e_mv_sign_next_step f = 1 \<or> e_mv_sign_next_step f = - 1"
    using decide_sign_pm by (simp add: f)
qed

lemma lit64_pos: "\<not> fl_ge (Fin 0) (lit64 0.01)"
  by (simp add: fl_simps)

lemma needed_True:
  assumes "switch_is_needed e t = (f, True)"
  shows "e_mv_value_current e \<noteq> relay_level e (e_mv_sign_next_step f)"
    "e_time_previous_switch e + uint (e_noise_protection_secs e) * ns_per_sec \<le> tk_time t
      \<or> e_counter_all_switches e = 0"
proof -
  note f = needed_fields [OF assms]
  have g: "fl_ge (fl_abs (fl_sub B64 (e_mv_value_next_step f) (e_mv_value_current f))) (lit64 0.01)"
    using assms unfolding switch_is_needed_def Let_def by blast
  show "e_mv_value_current e \<noteq> relay_level e (e_mv_sign_next_step f)"
  proof
    assume "e_mv_value_current e = relay_level e (e_mv_sign_next_step f)"
    then have "e_mv_value_next_step f = e_mv_value_current f" using f(7,10) by simp
    then show False using g lit64_pos by (cases "is_finite (e_mv_value_current f)")
      (simp_all add: fl_sub_self fl_abs_def)
  qed
  have "e_time_previous_switch f + uint (e_noise_protection_secs f) * ns_per_sec \<le> tk_time t
      \<or> e_counter_all_switches f = 0"
    using assms unfolding switch_is_needed_def Let_def by blast
  then show "e_time_previous_switch e + uint (e_noise_protection_secs e) * ns_per_sec \<le> tk_time t
      \<or> e_counter_all_switches e = 0"
    using f(1,2,8) by (simp add: same_params_def)
qed

lemma switch_fields:
  assumes "perform_switch e t = (f, mv)"
  shows "same_params e f" "e_counter_all_switches f = e_counter_all_switches e + 1"
    "e_mv_sign_init f = e_mv_sign_init e" "e_completed f = e_completed e"
    "e_time_previous_switch f = tk_time t" "e_mv_value_current f = mv"
    "mv = (if cycles_remaining f = 0 then e_mv_value_ini e else e_mv_value_next_step e)"
    "e_max_pv_result f = tk_pv t" "e_min_pv_result f = tk_pv t"
    "e_switch_times f = (if e_num_switches_skip e \<le> e_counter_all_switches e + 1
       then e_switch_times e @ [tk_time t] else e_switch_times e)"
    "e_peaks f = (if e_num_switches_skip e \<le> e_counter_all_switches e + 1
         \<and> e_mv_sign_next_step e * e_action_multiplier e = 1
       then e_peaks e @ [e_max_pv_result e] else e_peaks e)"
    "e_troughs f = (if e_num_switches_skip e \<le> e_counter_all_switches e + 1
         \<and> e_mv_sign_next_step e * e_action_multiplier e \<noteq> 1
       then e_troughs e @ [e_min_pv_result e] else e_troughs e)"
proof -
  define e1 where "e1 = e\<lparr>e_time_previous_switch := tk_time t,
      e_counter_all_switches := e_counter_all_switches e + 1\<rparr>"
  define e2 where "e2 = (if e_num_switches_skip e \<le> e_counter_all_switches e + 1 then
      (if e_mv_sign_next_step e * e_action_multiplier e = 1
       then e1\<lparr>e_switch_times := e_switch_times e @ [tk_time t], e_peaks := e_peaks e @ [e_max_pv_result e]\<rparr>
       else e1\<lparr>e_switch_times := e_switch_times e @ [tk_time t], e_troughs := e_troughs e @ [e_min_pv_result e]\<rparr>)
      else e1)"
  have e2: "same_params e e2" "e_mv_sign_init e2 = e_mv_sign_init e" "e_completed e2 = e_completed e"
    "e_mv_value_next_step e2 = e_mv_value_next_step e" "e_mv_value_ini e2 = e_mv_value_ini e"
    "e_pv_value_ini e2 = e_pv_value_ini e" "e_time_previous_switch e2 = tk_time t"
    "e_counter_all_switches e2 = e_counter_all_switches e + 1"
    by (simp_all add: e2_def e1_def same_params_def)
  define g where "g = e2\<lparr>e_max_pv_cycle := e_pv_value_ini e, e_min_pv_cycle := e_pv_value_ini e,
      e_max_pv_result := tk_pv t, e_min_pv_result := tk_pv t\<rparr>"
  have fg: "f = g\<lparr>e_mv_value_current := mv\<rparr>"
    and mv: "mv = (if cycles_remaining g = 0 then e_mv_value_ini e else e_mv_value_next_step e)"
    using assms by (simp_all add: perform_switch_def Let_def g_def e2_def e1_def split: if_splits)
  have "cycles_remaining f = cycles_remaining g" by (simp add: fg cycles_remaining_def)
  with mv show "mv = (if cycles_remaining f = 0 then e_mv_value_ini e else e_mv_value_next_step e)"
    by simp
  show "same_params e f" using e2(1) by (simp add: same_params_def fg g_def)
  show "e_counter_all_switches f = e_counter_all_switches e + 1"
    "e_mv_sign_init f = e_mv_sign_init e" "e_completed f = e_completed e"
    "e_time_previous_switch f = tk_time t" "e_mv_value_current f = mv"
    "e_max_pv_result f = tk_pv t" "e_min_pv_result f = tk_pv t"
    by (simp_all add: fg g_def e2)
  show "e_switch_times f = (if e_num_switches_skip e \<le> e_counter_all_switches e + 1
       then e_switch_times e @ [tk_time t] else e_switch_times e)"
    "e_peaks f = (if e_num_switches_skip e \<le> e_counter_all_switches e + 1
         \<and> e_mv_sign_next_step e * e_action_multiplier e = 1
       then e_peaks e @ [e_max_pv_result e] else e_peaks e)"
    "e_troughs f = (if e_num_switches_skip e \<le> e_counter_all_switches e + 1
         \<and> e_mv_sign_next_step e * e_action_multiplier e \<noteq> 1
       then e_troughs e @ [e_min_pv_result e] else e_troughs e)"
    by (simp_all add: fg g_def e2_def e1_def)
qed

text \<open>The three outcomes of a step.\<close>

lemma engine_step_cases:
  obtains (finished) "e_completed e" "engine_step e t = (e, [])"
  | (quiet) f where "\<not> e_completed e" "switch_is_needed e t = (f, False)"
      "engine_step e t = (if is_complete f
        then (f\<lparr>e_completed := True\<rparr>,
              [Complete (e_peaks f) (e_troughs f) (e_switch_times f) (e_mv_sign_init f)])
        else (f, []))"
  | (switch) f g mv where "\<not> e_completed e" "switch_is_needed e t = (f, True)"
      "perform_switch f t = (g, mv)"
      "engine_step e t = (if is_complete g
        then (g\<lparr>e_completed := True\<rparr>, [WriteMv mv,
              Complete (e_peaks g) (e_troughs g) (e_switch_times g) (e_mv_sign_init g)])
        else (g, [WriteMv mv]))"
proof (cases "e_completed e")
  case True
  then show ?thesis by (intro finished) (simp_all add: engine_step_def)
next
  case False
  obtain f b where f: "switch_is_needed e t = (f, b)" by fastforce
  obtain g mv where g: "perform_switch f t = (g, mv)" by fastforce
  show ?thesis
  proof (cases b)
    case True
    with f have f': "switch_is_needed e t = (f, True)" by simp
    show ?thesis by (rule switch [OF False f' g]) (simp add: engine_step_def False f' g)
  next
    case b: False
    with f have f': "switch_is_needed e t = (f, False)" by simp
    show ?thesis by (rule quiet [OF False f']) (simp add: engine_step_def False f')
  qed
qed

section \<open>The engine's invariant\<close>

abbreviation total_switches :: "mrft_engine \<Rightarrow> nat" where
  "total_switches e \<equiv> unat (e_num_switches_skip e) + 2 * unat (e_num_cycles_count e)"

abbreviation switches :: "mrft_engine \<Rightarrow> nat" where
  "switches e \<equiv> unat (e_counter_all_switches e)"

lemma same_params_total: "same_params e f \<Longrightarrow> total_switches f = total_switches e"
  and same_params_ini: "same_params e f \<Longrightarrow> e_mv_value_ini f = e_mv_value_ini e"
  by (simp_all add: same_params_def)

definition recorded :: "mrft_engine \<Rightarrow> nat" where
  "recorded e = switches e + 1 - unat (e_num_switches_skip e)"

text \<open>The sign of the \<open>n\<close>-th relay step, counted from one.\<close>

definition sign_at :: "i8 \<Rightarrow> nat \<Rightarrow> i8" where
  "sign_at s n = (if odd n then s else - s)"

definition params_ok :: "mrft_engine \<Rightarrow> bool" where
  "params_ok e \<longleftrightarrow> total_switches e < 2147483646 \<and> odd (unat (e_num_switches_skip e)) \<and>
     (e_action_multiplier e = 1 \<or> e_action_multiplier e = - 1)"

definition counts_ok :: "mrft_engine \<Rightarrow> bool" where
  "counts_ok e \<longleftrightarrow> switches e \<le> total_switches e \<and>
     (e_completed e \<longleftrightarrow> switches e = total_switches e) \<and>
     length (e_switch_times e) = recorded e \<and>
     (if e_mv_sign_init e * e_action_multiplier e = 1
      then length (e_peaks e) = (recorded e + 1) div 2 \<and> length (e_troughs e) = recorded e div 2
      else length (e_peaks e) = recorded e div 2 \<and> length (e_troughs e) = (recorded e + 1) div 2)"

definition relay_ok :: "mrft_engine \<Rightarrow> bool" where
  "relay_ok e \<longleftrightarrow>
     (if switches e = 0 then e_mv_value_current e = e_mv_value_ini e
      else (e_mv_sign_init e = 1 \<or> e_mv_sign_init e = - 1) \<and>
           e_mv_value_current e = (if e_completed e then e_mv_value_ini e
             else relay_level e (sign_at (e_mv_sign_init e) (switches e))))"

definition engine_ok :: "mrft_engine \<Rightarrow> bool" where
  "engine_ok e \<longleftrightarrow> params_ok e \<and> counts_ok e \<and> relay_ok e"

lemma params_ok_new:
  assumes "unat (lc_num_cycles_skip c) * 2 + 2 * unat (lc_num_cycles_count c) < 2147483645"
  shows "params_ok (engine_new c d b i t0)"
    "unat (e_num_switches_skip (engine_new c d b i t0)) = unat (lc_num_cycles_skip c) * 2 + 1"
proof -
  have "unat (lc_num_cycles_skip c * 2) = unat (lc_num_cycles_skip c) * 2"
    using assms by (subst unat_mult_lem [THEN iffD1]) auto
  moreover have "unat (lc_num_cycles_skip c * 2 + 1) = unat (lc_num_cycles_skip c * 2) + 1"
    using assms calculation by (subst unat_add_lem [THEN iffD1]) auto
  ultimately show "unat (e_num_switches_skip (engine_new c d b i t0)) = unat (lc_num_cycles_skip c) * 2 + 1"
    by (simp add: engine_new_def)
  then show "params_ok (engine_new c d b i t0)"
    using assms by (cases d) (auto simp: params_ok_def engine_new_def)
qed

lemma engine_ok_new:
  assumes "unat (lc_num_cycles_skip c) * 2 + 2 * unat (lc_num_cycles_count c) < 2147483645"
  shows "engine_ok (engine_new c d b i t0)"
  using params_ok_new [OF assms, of d b i t0]
  by (auto simp: engine_ok_def counts_ok_def relay_ok_def recorded_def engine_new_def)

lemma params_ok_same: "same_params e f \<Longrightarrow> params_ok f = params_ok e"
  by (simp add: params_ok_def same_params_def)

lemma remaining_arith:
  fixes S C n :: nat
  assumes "S + 2 * C < 2147483646" "n \<le> S + 2 * C"
  shows "trunc_div (wrap_i32 (wrap_i32 (wrap_i32 (int S + wrap_i32 (int C * 2)) - int n) + 1)) 2
    = int ((S + 2 * C + 1 - n) div 2)"
proof -
  have "int S + int C * 2 - int n + 1 = int (S + 2 * C + 1 - n)" using assms by simp
  then show ?thesis using assms by (simp add: trunc_div_def zdiv_int)
qed

lemma cycles_remaining_nat:
  assumes "params_ok e" "switches e \<le> total_switches e"
  shows "cycles_remaining e = int ((total_switches e + 1 - switches e) div 2)"
proof -
  from assms have b: "total_switches e < 2147483646" by (simp add: params_ok_def)
  with assms(2) have "u32_as_i32 (e_num_switches_skip e) = int (unat (e_num_switches_skip e))"
    "u32_as_i32 (e_num_cycles_count e) = int (unat (e_num_cycles_count e))"
    "u32_as_i32 (e_counter_all_switches e) = int (switches e)"
    by (intro u32_as_i32_small; linarith)+
  then show ?thesis unfolding cycles_remaining_def using remaining_arith [OF b assms(2)] by (simp only:)
qed

lemma completed_arith:
  fixes n :: nat assumes "n < 2147483648"
  shows "trunc_div (wrap_i32 (int n - 1)) 2 = int ((n - 1) div 2)"
proof (cases n)
  case (Suc k)
  then show ?thesis using assms by (simp add: trunc_div_def zdiv_int)
qed (simp add: trunc_div_def)

lemma cycles_completed_nat:
  assumes "switches e < 2147483648"
  shows "cycles_completed e = int ((switches e - 1) div 2)"
  unfolding cycles_completed_def u32_as_i32_small [OF assms] by (rule completed_arith [OF assms])

lemma is_complete_nat:
  assumes "params_ok e" shows "is_complete e \<longleftrightarrow> total_switches e \<le> switches e"
proof -
  have b: "total_switches e < 2147483646" using assms by (simp add: params_ok_def)
  then have m: "unat (e_num_cycles_count e * 2) = unat (e_num_cycles_count e) * 2"
    by (subst unat_mult_lem [THEN iffD1]) auto
  then have "unat (e_num_switches_skip e + e_num_cycles_count e * 2) = total_switches e"
    using b by (subst unat_add_lem [THEN iffD1]) auto
  then show ?thesis by (simp add: is_complete_def word_le_nat_alt)
qed

lemma counter_Suc:
  assumes "params_ok e" "switches e < total_switches e"
  shows "unat (e_counter_all_switches e + 1) = Suc (switches e)"
  using assms by (subst unat_add_lem [THEN iffD1]) (auto simp: params_ok_def)

text \<open>A tick without a switch keeps the invariant and does not complete the test.\<close>

lemma quiet_ok:
  assumes ok: "engine_ok e" and n: "\<not> e_completed e" and f: "switch_is_needed e t = (f, False)"
  shows "engine_ok f" "\<not> is_complete f"
proof -
  note F = needed_fields [OF f]
  have p: "params_ok f" using ok F(1) by (simp add: engine_ok_def params_ok_same)
  have lt: "switches e < total_switches e" using ok n by (auto simp: engine_ok_def counts_ok_def)
  then show "\<not> is_complete f" using p F(1,2) by (simp add: is_complete_nat same_params_def)
  have r: "recorded f = recorded e" using F(1,2) by (simp add: recorded_def same_params_def)
  have q: "unat (e_num_switches_skip f) = unat (e_num_switches_skip e)"
    "unat (e_num_cycles_count f) = unat (e_num_cycles_count e)"
    "e_action_multiplier f = e_action_multiplier e" "e_mv_value_ini f = e_mv_value_ini e"
    using F(1) by (simp_all add: same_params_def)
  have "counts_ok f \<and> relay_ok f"
  proof (cases "e_counter_all_switches e = 0")
    case True
    then have z: "recorded e = 0" using ok
      by (auto simp: engine_ok_def params_ok_def recorded_def elim: oddE)
    then have "e_peaks e = []" "e_troughs e = []" "e_switch_times e = []"
      using ok by (auto simp: engine_ok_def counts_ok_def split: if_splits)
    moreover have "e_mv_value_current e = e_mv_value_ini e"
      using True ok by (simp add: engine_ok_def relay_ok_def)
    ultimately show ?thesis using True n F(2-7) r q z lt by (simp add: counts_ok_def relay_ok_def)
  next
    case False
    then have i: "e_mv_sign_init f = e_mv_sign_init e" using F(11) by simp
    have "counts_ok f = counts_ok e" by (simp only: counts_ok_def F(2-6) r q i)
    moreover have "relay_ok f = relay_ok e"
      by (simp only: relay_ok_def F(2,6,7) q i same_params_level [OF F(1)])
    ultimately show ?thesis using ok by (simp add: engine_ok_def)
  qed
  with p show "engine_ok f" by (simp add: engine_ok_def)
qed

text \<open>A switch: the relay's sign flips, one entry is recorded once the skip period is over, and
  the last switch returns the MV to its initial value.\<close>

lemma sign_flip:
  assumes "s = 1 \<or> s = - 1" "s' = 1 \<or> s' = - 1" "s' \<noteq> sign_at s n"
  shows "s' = sign_at s (Suc n)"
  using assms by (auto simp: sign_at_def split: if_splits)

lemma switch_sign:
  assumes ok: "engine_ok e" and n: "\<not> e_completed e" and f: "switch_is_needed e t = (f, True)"
  shows "e_mv_sign_init f = 1 \<or> e_mv_sign_init f = - 1"
    "e_mv_sign_next_step f = sign_at (e_mv_sign_init f) (Suc (switches e))"
proof -
  note F = needed_fields [OF f] and T = needed_True [OF f]
  show i: "e_mv_sign_init f = 1 \<or> e_mv_sign_init f = - 1"
    using F(9,11) ok by (auto simp: engine_ok_def relay_ok_def unat_eq_0 split: if_splits)
  show "e_mv_sign_next_step f = sign_at (e_mv_sign_init f) (Suc (switches e))"
  proof (cases "e_counter_all_switches e = 0")
    case True
    then show ?thesis using F(11) by (simp add: sign_at_def)
  next
    case False
    then have "e_mv_value_current e = relay_level e (sign_at (e_mv_sign_init f) (switches e))"
      using ok n F(11) by (simp add: engine_ok_def relay_ok_def unat_eq_0)
    then have "e_mv_sign_next_step f \<noteq> sign_at (e_mv_sign_init f) (switches e)" using T(1) by metis
    then show ?thesis by (rule sign_flip [OF i F(9)])
  qed
qed

lemma switch_counts:
  assumes ok: "engine_ok e" and n: "\<not> e_completed e" and f: "switch_is_needed e t = (f, True)"
    and g: "perform_switch f t = (g, mv)"
  shows "same_params e g" "switches g = Suc (switches e)" "switches g \<le> total_switches g"
    "params_ok g" "is_complete g \<longleftrightarrow> switches g = total_switches g"
    "mv = (if is_complete g then e_mv_value_ini e
           else relay_level e (sign_at (e_mv_sign_init g) (switches g)))"
proof -
  note F = needed_fields [OF f] and G = switch_fields [OF g] and S = switch_sign [OF ok n f]
  show sp: "same_params e g" using F(1) G(1) by (rule same_params_trans)
  have lt: "switches e < total_switches e" and po: "params_ok e"
    using ok n by (auto simp: engine_ok_def counts_ok_def)
  show sw: "switches g = Suc (switches e)"
    using counter_Suc [OF po lt] F(2) G(2) by simp
  have tot: "total_switches g = total_switches e" using sp by (simp add: same_params_def)
  show le: "switches g \<le> total_switches g" using lt sw tot by simp
  show pg: "params_ok g" using po sp by (simp add: params_ok_same)
  show c: "is_complete g \<longleftrightarrow> switches g = total_switches g"
    using le by (auto simp: is_complete_nat [OF pg])
  have "cycles_remaining g = 0 \<longleftrightarrow> switches g = total_switches g"
    using le unfolding cycles_remaining_nat [OF pg le] by simp presburger
  moreover have "e_mv_value_ini f = e_mv_value_ini e" using F(1) by (simp add: same_params_def)
  ultimately show "mv = (if is_complete g then e_mv_value_ini e
           else relay_level e (sign_at (e_mv_sign_init g) (switches g)))"
    using c G(3,7) F(10) S(2) sw by simp
qed

lemma switch_recorded:
  assumes ok: "engine_ok e" and n: "\<not> e_completed e" and f: "switch_is_needed e t = (f, True)"
    and g: "perform_switch f t = (g, mv)"
  defines "rec \<equiv> unat (e_num_switches_skip e) \<le> Suc (switches e)"
  shows "recorded g = (if rec then Suc (recorded e) else 0)" "\<not> rec \<Longrightarrow> recorded e = 0"
    "e_switch_times g = (if rec then e_switch_times e @ [tk_time t] else e_switch_times e)"
    "e_peaks g = (if rec \<and> e_mv_sign_next_step f * e_action_multiplier e = 1
       then e_peaks e @ [fl_max (e_max_pv_result e) (tk_pv t)] else e_peaks e)"
    "e_troughs g = (if rec \<and> e_mv_sign_next_step f * e_action_multiplier e \<noteq> 1
       then e_troughs e @ [fl_min (e_min_pv_result e) (tk_pv t)] else e_troughs e)"
proof -
  note F = needed_fields [OF f] and G = switch_fields [OF g] and C = switch_counts [OF ok n f g]
  have sk: "e_num_switches_skip g = e_num_switches_skip e" using C(1) by (simp add: same_params_def)
  have pf: "e_num_switches_skip f = e_num_switches_skip e"
    "e_action_multiplier f = e_action_multiplier e" using F(1) by (simp_all add: same_params_def)
  have "unat (e_counter_all_switches e + 1) = Suc (switches e)" using C(2) G(2) F(2) by simp
  then have r: "e_num_switches_skip e \<le> e_counter_all_switches e + 1 \<longleftrightarrow> rec"
    by (simp add: word_le_nat_alt rec_def)
  show "recorded g = (if rec then Suc (recorded e) else 0)" "\<not> rec \<Longrightarrow> recorded e = 0"
    using C(2) by (auto simp: recorded_def sk rec_def)
  show "e_switch_times g = (if rec then e_switch_times e @ [tk_time t] else e_switch_times e)"
    "e_peaks g = (if rec \<and> e_mv_sign_next_step f * e_action_multiplier e = 1
       then e_peaks e @ [fl_max (e_max_pv_result e) (tk_pv t)] else e_peaks e)"
    "e_troughs g = (if rec \<and> e_mv_sign_next_step f * e_action_multiplier e \<noteq> 1
       then e_troughs e @ [fl_min (e_min_pv_result e) (tk_pv t)] else e_troughs e)"
    using G(10-12) by (simp_all add: F(2-5,12,13) pf r)
qed

lemma peaks_parity:
  fixes k n S :: nat
  assumes "odd S" "Suc n = k + S" "s = 1 \<or> s = (- 1 :: int)" "m = 1 \<or> m = (- 1 :: int)"
  shows "(sign_at s (Suc n) * m = 1) = (if s * m = 1 then even k else odd k)"
  using assms by (auto simp: sign_at_def)

lemma switch_counts_ok:
  assumes ok: "engine_ok e" and n: "\<not> e_completed e" and f: "switch_is_needed e t = (f, True)"
    and g: "perform_switch f t = (g, mv)"
  shows "counts_ok (g\<lparr>e_completed := is_complete g\<rparr>)"
proof -
  note F = needed_fields [OF f] and G = switch_fields [OF g] and S = switch_sign [OF ok n f]
    and C = switch_counts [OF ok n f g] and R = switch_recorded [OF ok n f g]
  have po: "params_ok e" and co: "counts_ok e" using ok by (auto simp: engine_ok_def)
  have m: "e_action_multiplier g = e_action_multiplier e" using C(1) by (simp add: same_params_def)
  have init: "e_mv_sign_init g = e_mv_sign_init f" using G(3) .
  have times: "length (e_switch_times g) = recorded g"
    using co R(1-3) by (auto simp: counts_ok_def)
  let ?first = "e_mv_sign_init f * e_action_multiplier e = 1"
  have lens: "if ?first
      then length (e_peaks e) = (recorded e + 1) div 2 \<and> length (e_troughs e) = recorded e div 2
      else length (e_peaks e) = recorded e div 2 \<and> length (e_troughs e) = (recorded e + 1) div 2"
  proof (cases "e_counter_all_switches e = 0")
    case True
    then have "recorded e = 0" using po
      by (auto simp: params_ok_def recorded_def elim: oddE)
    then show ?thesis using co by (simp add: counts_ok_def split: if_splits)
  next
    case False
    then show ?thesis using co F(11) by (simp add: counts_ok_def)
  qed
  have "if ?first
      then length (e_peaks g) = (recorded g + 1) div 2 \<and> length (e_troughs g) = recorded g div 2
      else length (e_peaks g) = recorded g div 2 \<and> length (e_troughs g) = (recorded g + 1) div 2"
  proof (cases "unat (e_num_switches_skip e) \<le> Suc (switches e)")
    case True
    then have "Suc (switches e) = recorded e + unat (e_num_switches_skip e)"
      by (simp add: recorded_def)
    then have par: "(e_mv_sign_next_step f * e_action_multiplier e = 1)
        = (if ?first then even (recorded e) else odd (recorded e))"
      using po peaks_parity [OF _ _ S(1)] unfolding S(2) params_ok_def by blast
    show ?thesis using lens par True
      by (cases ?first; cases "even (recorded e)") (auto simp: R elim!: evenE oddE)
  next
    case False
    then show ?thesis using lens by (auto simp: R)
  qed
  then show ?thesis using C times init m by (simp add: counts_ok_def recorded_def)
qed

lemma switch_ok:
  assumes ok: "engine_ok e" and n: "\<not> e_completed e" and f: "switch_is_needed e t = (f, True)"
    and g: "perform_switch f t = (g, mv)"
  shows "engine_ok (g\<lparr>e_completed := is_complete g\<rparr>)"
proof -
  note G = switch_fields [OF g] and S = switch_sign [OF ok n f] and C = switch_counts [OF ok n f g]
  have "params_ok (g\<lparr>e_completed := is_complete g\<rparr>)" using C(4) by (simp add: params_ok_def)
  moreover have "relay_ok (g\<lparr>e_completed := is_complete g\<rparr>)"
    using C S(1) G(3,6) same_params_level [OF C(1)] unfolding same_params_def
    by (simp add: relay_ok_def relay_level_def)
  ultimately show ?thesis using switch_counts_ok [OF assms] by (simp add: engine_ok_def)
qed

theorem engine_step_ok:
  assumes "engine_ok e" shows "engine_ok (fst (engine_step e t))"
proof (cases rule: engine_step_cases [of e t])
  case finished
  with assms show ?thesis by simp
next
  case (quiet f)
  with quiet_ok [OF assms quiet(1,2)] show ?thesis by simp
next
  case (switch f g mv)
  have "g\<lparr>e_completed := False\<rparr> = g"
    using switch switch_fields(4) [OF switch(3)] needed_fields(6) [OF switch(2)] by simp
  with switch_ok [OF assms switch(1-3)] switch(4) show ?thesis by (auto split: if_splits)
qed

text \<open>The engines a test can reach from its start.\<close>

inductive engine_reach :: "mrft_engine \<Rightarrow> mrft_engine \<Rightarrow> bool" for e0 where
  reach_start: "engine_reach e0 e0"
| reach_tick: "engine_reach e0 e \<Longrightarrow> engine_reach e0 (fst (engine_step e t))"

lemma engine_run_reach: "engine_reach e0 e \<Longrightarrow> engine_reach e0 (fst (engine_run e ts))"
proof (induction ts arbitrary: e)
  case (Cons t ts)
  then show ?case using reach_tick [of e0 e t] by (simp add: case_prod_beta)
qed simp

lemma engine_reach_ok: "engine_reach e0 e \<Longrightarrow> engine_ok e0 \<Longrightarrow> engine_ok e"
  by (induction rule: engine_reach.induct) (auto intro: engine_step_ok)

section \<open>The commands of a run\<close>

fun mv_writes :: "action list \<Rightarrow> f32 list" where
  "mv_writes [] = []"
| "mv_writes (WriteMv v # as) = v # mv_writes as"
| "mv_writes (_ # as) = mv_writes as"

fun completions :: "action list \<Rightarrow> nat" where
  "completions [] = 0"
| "completions (Complete _ _ _ _ # as) = Suc (completions as)"
| "completions (_ # as) = completions as"

lemma mv_writes_append [simp]: "mv_writes (a @ b) = mv_writes a @ mv_writes b"
  by (induction a rule: mv_writes.induct) auto

lemma completions_append [simp]: "completions (a @ b) = completions a + completions b"
  by (induction a rule: completions.induct) auto

lemma engine_run_append:
  "engine_run e (ts @ us) =
    (let (e1, a) = engine_run e ts; (e2, b) = engine_run e1 us in (e2, a @ b))"
  by (induction ts arbitrary: e) (auto simp: case_prod_beta Let_def)

lemma engine_run_snoc:
  "engine_run e (ts @ [t]) =
    (fst (engine_step (fst (engine_run e ts)) t),
     snd (engine_run e ts) @ snd (engine_step (fst (engine_run e ts)) t))"
  by (simp add: engine_run_append case_prod_beta)

lemma step_same_params:
  assumes "engine_ok e" shows "same_params e (fst (engine_step e t))"
proof (cases rule: engine_step_cases [of e t])
  case (quiet f)
  then show ?thesis using needed_fields(1) [OF quiet(2)] by (simp add: same_params_def)
next
  case (switch f g mv)
  then show ?thesis using switch_counts(1) [OF assms switch(1-3)] by (simp add: same_params_def)
qed simp

lemma run_ok: "engine_ok e \<Longrightarrow> engine_ok (fst (engine_run e ts))"
  by (rule engine_reach_ok [OF engine_run_reach [OF reach_start]])

lemma run_same_params: "engine_ok e \<Longrightarrow> same_params e (fst (engine_run e ts))"
proof (induction ts rule: rev_induct)
  case (snoc t ts)
  then show ?case
    using step_same_params [OF run_ok [OF snoc.prems], of ts t]
    by (auto simp: engine_run_snoc intro: same_params_trans)
qed simp

text \<open>The \<open>k\<close>-th command of a test (from zero): a full relay step of alternating sign, and
  the initial MV for the last one.\<close>

definition command_at :: "mrft_engine \<Rightarrow> i8 \<Rightarrow> nat \<Rightarrow> f32" where
  "command_at e0 s k = (if Suc k = total_switches e0 then e_mv_value_ini e0
     else relay_level e0 (sign_at s (Suc k)))"

definition run_log_ok :: "mrft_engine \<Rightarrow> mrft_engine \<Rightarrow> action list \<Rightarrow> bool" where
  "run_log_ok e0 e acts \<longleftrightarrow>
     mv_writes acts = map (command_at e0 (e_mv_sign_init e)) [0..<switches e] \<and>
     completions acts = (if e_completed e then 1 else 0)"

lemma step_log_ok:
  assumes ok: "engine_ok e" and sp: "same_params e0 e" and l: "run_log_ok e0 e acts"
  shows "run_log_ok e0 (fst (engine_step e t)) (acts @ snd (engine_step e t))"
proof (cases rule: engine_step_cases [of e t])
  case finished
  with l show ?thesis by simp
next
  case (quiet f)
  note F = needed_fields [OF quiet(2)]
  have "map (command_at e0 (e_mv_sign_init f)) [0..<switches e]
      = map (command_at e0 (e_mv_sign_init e)) [0..<switches e]"
    using F(11) by (cases "e_counter_all_switches e = 0") simp_all
  then show ?thesis using quiet quiet_ok(2) [OF ok quiet(1,2)] l F(2,6)
    by (simp add: run_log_ok_def)
next
  case (switch f g mv)
  note F = needed_fields [OF switch(2)] and G = switch_fields [OF switch(3)]
    and C = switch_counts [OF ok switch(1-3)]
  have tot: "total_switches g = total_switches e0" and ini: "e_mv_value_ini e = e_mv_value_ini e0"
    using same_params_total [OF same_params_trans [OF sp C(1)]] same_params_ini [OF sp] by blast+
  have lev: "relay_level e = relay_level e0" using sp by (rule same_params_level)
  have cmd: "mv = command_at e0 (e_mv_sign_init g) (switches e)"
    using C(6) unfolding command_at_def C(5) C(2) tot lev ini by (auto split: if_splits)
  have pre: "map (command_at e0 (e_mv_sign_init g)) [0..<switches e]
      = map (command_at e0 (e_mv_sign_init e)) [0..<switches e]"
    using F(11) G(3) by (cases "e_counter_all_switches e = 0") simp_all
  have w: "mv_writes acts @ [mv] = map (command_at e0 (e_mv_sign_init g)) [0..<switches g]"
    using l unfolding run_log_ok_def C(2) by (simp add: cmd pre)
  have c: "completions acts = 0" "e_completed g = False"
    using l switch(1) F(6) G(4) by (simp_all add: run_log_ok_def)
  show ?thesis
  proof (cases "is_complete g")
    case True
    then show ?thesis unfolding switch(4) run_log_ok_def using w c(1) by simp
  next
    case False
    then show ?thesis unfolding switch(4) run_log_ok_def using w c by simp
  qed
qed

lemma run_log:
  "engine_ok e0 \<Longrightarrow> e_completed e0 = False \<Longrightarrow> switches e0 = 0 \<Longrightarrow>
   run_log_ok e0 (fst (engine_run e0 ts)) (snd (engine_run e0 ts))"
proof (induction ts rule: rev_induct)
  case Nil
  then show ?case by (simp add: run_log_ok_def)
next
  case (snoc t ts)
  then show ?case
    using step_log_ok [OF run_ok run_same_params] by (simp add: engine_run_snoc)
qed

abbreviation cycles_bounded :: "loop_config \<Rightarrow> bool" where
  "cycles_bounded c \<equiv> unat (lc_num_cycles_skip c) * 2 + 2 * unat (lc_num_cycles_count c) < 2147483645"

text \<open>The number of switches of a whole test of a configuration.\<close>

definition test_switches :: "loop_config \<Rightarrow> nat" where
  "test_switches c = unat (lc_num_cycles_skip c) * 2 + 1 + 2 * unat (lc_num_cycles_count c)"

lemma total_switches_new:
  "cycles_bounded c \<Longrightarrow> total_switches (engine_new c d b i t0) = test_switches c"
  using params_ok_new(2) [of c d b i t0] by (simp add: test_switches_def) (simp add: engine_new_def)

text \<open>C1: the complete command log of a test.  Over any sample sequence the engine commands
  full relay steps of strictly alternating sign around the initial MV, its last command (the one
  that completes the configured number of switches) is the initial MV itself, it never commands
  more than that number, and it reports completion exactly once, with that last switch.\<close>

theorem engine_command_log:
  fixes c d b i t0 ts
  assumes "cycles_bounded c"
  defines "e0 \<equiv> engine_new c d b i t0"
  shows "mv_writes (snd (engine_run e0 ts))
      = map (\<lambda>k. if Suc k = test_switches c then ir_mv_ini i
                 else relay_level e0 (sign_at (e_mv_sign_init (fst (engine_run e0 ts))) (Suc k)))
          [0..<switches (fst (engine_run e0 ts))]
    \<and> switches (fst (engine_run e0 ts)) \<le> test_switches c
    \<and> completions (snd (engine_run e0 ts))
      = (if switches (fst (engine_run e0 ts)) = test_switches c then 1 else 0)"
proof -
  have ok: "engine_ok e0" unfolding e0_def by (rule engine_ok_new [OF assms(1)])
  have z: "e_completed e0 = False" "switches e0 = 0" "e_mv_value_ini e0 = ir_mv_ini i"
    unfolding e0_def by (simp_all add: engine_new_def)
  have tot: "total_switches e0 = test_switches c"
    unfolding e0_def by (rule total_switches_new [OF assms(1)])
  define e where "e = fst (engine_run e0 ts)"
  have log: "run_log_ok e0 e (snd (engine_run e0 ts))"
    unfolding e_def by (rule run_log [OF ok z(1,2)])
  have "same_params e0 e" unfolding e_def by (rule run_same_params [OF ok])
  then have te: "total_switches e = test_switches c" using tot by (simp add: same_params_def)
  have "counts_ok e" using run_ok [OF ok] by (simp add: e_def engine_ok_def)
  then have co: "switches e \<le> test_switches c" "e_completed e \<longleftrightarrow> switches e = test_switches c"
    unfolding counts_ok_def te by blast+
  have "mv_writes (snd (engine_run e0 ts))
      = map (command_at e0 (e_mv_sign_init e)) [0..<switches e]"
    "completions (snd (engine_run e0 ts)) = (if switches e = test_switches c then 1 else 0)"
    using log co(2) unfolding run_log_ok_def by simp_all
  then show ?thesis
    unfolding e_def [symmetric] using co(1) by (simp add: command_at_def [abs_def] tot z(3))
qed

text \<open>A small test: a reverse-acting flow loop at 50 %, a 10 % relay, no skipped cycle, one
  counted cycle, no noise protection; the process variable crosses its set point on every sample.\<close>

definition demo_config :: loop_config where
  "demo_config = \<lparr>lc_process_type = Flow, lc_controller_type = CT_P, lc_relay_amp_percent = Fin 10,
     lc_num_cycles_skip = 0, lc_num_cycles_count = 1, lc_noise_protection_secs = 0,
     lc_mrft_delay_secs = 0\<rparr>"

definition demo_initial :: initial_readings where
  "demo_initial = \<lparr>ir_pv_ini = Fin 50, ir_mv_ini = Fin 50, ir_mv_range_low = Fin 0,
     ir_mv_range_high = Fin 100\<rparr>"

definition demo_engine :: mrft_engine where
  "demo_engine = engine_new demo_config Reverse (Fin 0) demo_initial 0"

definition demo_ticks :: "tick list" where
  "demo_ticks = [\<lparr>tk_time = 1000000000, tk_pv = Fin 48\<rparr>, \<lparr>tk_time = 3000000000, tk_pv = Fin 52\<rparr>,
     \<lparr>tk_time = 5000000000, tk_pv = Fin 48\<rparr>, \<lparr>tk_time = 7000000000, tk_pv = Fin 52\<rparr>]"

lemmas engine_eval = engine_new_def clamp_relay_amplitude_def engine_step_def switch_is_needed_def
  track_pv_def decide_sign_def perform_switch_def is_complete_def cycles_remaining_def
  u32_as_i32_def trunc_div_def ns_per_sec_def word_le_nat_alt

lemma demo_run:
  "engine_run demo_engine demo_ticks =
     (fst (engine_run demo_engine demo_ticks),
      [WriteMv (Fin 60), WriteMv (Fin 40), WriteMv (Fin 50),
       Complete [Fin 50, Fin 52] [Fin 48] [1000000000, 3000000000, 5000000000] 1])"
  "switches (fst (engine_run demo_engine demo_ticks)) = 3"
  by (simp_all add: demo_engine_def demo_config_def demo_initial_def demo_ticks_def engine_eval
    fl_simps cong: let_weak_cong prod.case_cong_weak)

theorem engine_command_log_witness:
  "cycles_bounded demo_config \<and> test_switches demo_config = 3 \<and>
   completions (snd (engine_run demo_engine demo_ticks)) = 1 \<and>
   mv_writes (snd (engine_run demo_engine demo_ticks)) = [Fin 60, Fin 40, Fin 50] \<and>
   switches (fst (engine_run demo_engine demo_ticks)) \<le> test_switches demo_config"
proof -
  have b: "cycles_bounded demo_config" "test_switches demo_config = 3"
    by (simp_all add: demo_config_def test_switches_def)
  note L = engine_command_log [OF b(1), of Reverse "Fin 0" demo_initial 0 demo_ticks,
      folded demo_engine_def]
  have "mv_writes (snd (engine_run demo_engine demo_ticks)) = [Fin 60, Fin 40, Fin 50]"
    by (subst demo_run(1)) simp
  then show ?thesis using b L demo_run(2) by simp
qed

section \<open>Spacing of the switches\<close>

definition noise_ns :: "mrft_engine \<Rightarrow> int" where
  "noise_ns e = uint (e_noise_protection_secs e) * ns_per_sec"

text \<open>Consecutive recorded switches are at least the noise-protection time apart, and the last
  one is the engine's reference for the next.\<close>

definition spaced :: "int \<Rightarrow> timestamp list \<Rightarrow> bool" where
  "spaced d ts \<longleftrightarrow> successively (\<lambda>a b. a + d \<le> b) ts"

definition times_ok :: "mrft_engine \<Rightarrow> bool" where
  "times_ok e \<longleftrightarrow> spaced (noise_ns e) (e_switch_times e) \<and>
     (e_switch_times e \<noteq> [] \<longrightarrow> last (e_switch_times e) = e_time_previous_switch e)"

lemma spaced_snoc:
  "spaced d ts \<Longrightarrow> (ts \<noteq> [] \<Longrightarrow> last ts + d \<le> t) \<Longrightarrow> spaced d (ts @ [t])"
  by (cases "ts = []") (simp_all add: spaced_def successively_append_iff)

lemma times_ok_cong:
  "same_params e f \<Longrightarrow> e_switch_times f = e_switch_times e \<Longrightarrow>
   e_time_previous_switch f = e_time_previous_switch e \<Longrightarrow> times_ok f = times_ok e"
  by (simp add: times_ok_def noise_ns_def same_params_def)

lemma step_times_ok:
  assumes ok: "engine_ok e" and t: "times_ok e"
  shows "times_ok (fst (engine_step e tk))"
proof (cases rule: engine_step_cases [of e tk])
  case finished
  with t show ?thesis by simp
next
  case (quiet f)
  note F = needed_fields [OF quiet(2)]
  have "times_ok (fst (engine_step e tk)) = times_ok f"
    unfolding quiet(3) by (simp add: times_ok_def noise_ns_def)
  also have "\<dots> = times_ok e" by (rule times_ok_cong [OF F(1,5,8)])
  finally show ?thesis using t by simp
next
  case (switch f g mv)
  note F = needed_fields [OF switch(2)] and G = switch_fields [OF switch(3)]
    and R = switch_recorded [OF ok switch(1-3)] and C = switch_counts [OF ok switch(1-3)]
  have n: "noise_ns g = noise_ns e" using C(1) by (simp add: noise_ns_def same_params_def)
  have g: "times_ok g"
  proof (cases "e_switch_times e = []")
    case True
    then show ?thesis using G(5) R(3) by (simp add: times_ok_def n spaced_def)
  next
    case False
    moreover have "length (e_switch_times e) = recorded e"
      using ok unfolding engine_ok_def counts_ok_def by blast
    ultimately have "0 < recorded e" by (metis length_greater_0_conv)
    then have "e_counter_all_switches e \<noteq> 0" and rec: "unat (e_num_switches_skip e) \<le> Suc (switches e)"
      using R(2) ok by (auto simp: recorded_def engine_ok_def params_ok_def elim: oddE)
    then have "last (e_switch_times e) + noise_ns e \<le> tk_time tk"
      using needed_True(2) [OF switch(2)] t False by (auto simp: times_ok_def noise_ns_def)
    then have "spaced (noise_ns e) (e_switch_times e @ [tk_time tk])"
      using t by (intro spaced_snoc) (auto simp: times_ok_def)
    then show ?thesis using G(5) R(3) rec by (simp add: times_ok_def n)
  qed
  have "times_ok (fst (engine_step e tk)) = times_ok g"
    unfolding switch(4) by (simp add: times_ok_def noise_ns_def)
  then show ?thesis using g by simp
qed

lemma run_times_ok:
  "engine_ok e0 \<Longrightarrow> times_ok e0 \<Longrightarrow> times_ok (fst (engine_run e0 ts))"
proof (induction ts rule: rev_induct)
  case (snoc t ts)
  then show ?case using step_times_ok [OF run_ok] by (simp add: engine_run_snoc)
qed simp

text \<open>noise protection.  Whatever the samples and their time stamps, two consecutive recorded
  switches are at least the configured noise-protection time apart.\<close>

theorem switches_spaced:
  assumes "cycles_bounded c"
  shows "spaced (uint (lc_noise_protection_secs c) * 1000000000)
    (e_switch_times (fst (engine_run (engine_new c d b i t0) ts)))"
proof -
  let ?e0 = "engine_new c d b i t0"
  have ok: "engine_ok ?e0" by (rule engine_ok_new [OF assms])
  have "times_ok ?e0" by (simp add: times_ok_def spaced_def engine_new_def)
  from run_times_ok [OF ok this] have "times_ok (fst (engine_run ?e0 ts))" .
  moreover have "noise_ns (fst (engine_run ?e0 ts)) = noise_ns ?e0"
    using run_same_params [OF ok] by (simp add: noise_ns_def same_params_def)
  moreover have "noise_ns ?e0 = uint (lc_noise_protection_secs c) * 1000000000"
    by (simp add: noise_ns_def engine_new_def ns_per_sec_def)
  ultimately show ?thesis by (simp add: times_ok_def)
qed

theorem switches_spaced_witness:
  "cycles_bounded demo_config \<and>
   spaced 0 (e_switch_times (fst (engine_run demo_engine demo_ticks)))"
  using switches_spaced [of demo_config Reverse "Fin 0" demo_initial 0 demo_ticks]
  by (simp add: demo_engine_def) (simp add: demo_config_def)

section \<open>The relay stays in the MV range\<close>

lemma lit32_100: "lit32 100 = Fin 100" and amp_max: "RELAY_AMP_PERCENT_MAX = Fin 50"
  by (simp_all add: RELAY_AMP_PERCENT_MAX_def fl_simps)

lemma representable_half1: "representable B32 (1 / 2)"
  unfolding representable_def on_grid_def
  by (intro conjI exI [of _ "8388608"]) (simp_all add: ulp_exp_def fl_simps)

text \<open>The raw amplitude is at most half the span.\<close>

lemma raw_amplitude:
  assumes pct: "is_finite pct" "0 \<le> val pct" "val pct \<le> 50"
    and hl: "is_finite hi" "is_finite lo" "val lo < val hi"
    and D: "representable B32 (val hi - val lo)" "pow2 (- 125) \<le> val hi - val lo"
  defines "raw \<equiv> fl_mul B32 (fl_div B32 pct (lit32 100)) (fl_sub B32 hi lo)"
  shows "is_finite raw" "0 \<le> val raw" "2 * val raw \<le> val hi - val lo" "fl_in B32 raw"
proof -
  let ?q = "fl_div B32 pct (lit32 100)" and ?d = "fl_sub B32 hi lo" and ?D = "val hi - val lo"
  have "?q = fl_round B32 (sign_bit pct) (val pct / 100)"
    using pct by (auto simp: fl_div_def lit32_100 Let_def)
  then have q: "is_finite ?q" "0 \<le> val ?q" "val ?q \<le> 1 / 2"
    using fl_round_between [OF representable_0 representable_half1, of "val pct / 100"] pct by auto
  have d: "is_finite ?d" "val ?d = ?D"
    using fl_round_rep [OF D(1)] hl by (simp_all add: fl_sub_finite)
  have D2: "representable B32 (?D / 2)" using D hl by (intro representable_half) auto
  have "raw = fl_round B32 (sign_bit ?q \<noteq> sign_bit ?d) (val ?q * ?D)"
    using q(1) d by (simp add: raw_def fl_mul_def Let_def)
  moreover have "val ?q * ?D \<le> ?D / 2" "0 \<le> val ?q * ?D"
    using q hl mult_right_mono [of "val ?q" "1 / 2" ?D] by auto
  ultimately show "is_finite raw" "0 \<le> val raw" "2 * val raw \<le> ?D" "fl_in B32 raw"
    using fl_round_between [OF representable_0 D2, of "val ?q * ?D"] by (auto simp: mult.commute)
qed

lemma level_between:
  assumes "is_finite mv" "is_finite amp" "representable B32 L" "representable B32 H"
    "L \<le> val mv + val amp" "val mv + val amp \<le> H"
  shows "fl_le (Fin L) (fl_add B32 mv amp)" "fl_le (fl_add B32 mv amp) (Fin H)"
  using assms by (auto simp: fl_add_finite intro: fl_round_ge fl_round_le)

lemma fl_add_cong_val:
  assumes "is_finite a" "is_finite b" "is_finite c" "val b = val c"
  shows "fl_le x (fl_add F a b) = fl_le x (fl_add F a c)" "fl_le (fl_add F a b) x = fl_le (fl_add F a c) x"
proof -
  have "fl_round F n r = fl_round F m r \<or> (is_finite (fl_round F n r) \<and> is_finite (fl_round F m r)
      \<and> val (fl_round F n r) = val (fl_round F m r))" for n m r
    by (auto simp: fl_round_def Let_def)
  then show "fl_le x (fl_add F a b) = fl_le x (fl_add F a c)" "fl_le (fl_add F a b) x = fl_le (fl_add F a c) x"
    using assms unfolding fl_add_finite [OF assms(1,2)] fl_add_finite [OF assms(1,3)] assms(4)
    by (metis fl_le_val(1,2))+
qed

definition in_range :: "f32 \<Rightarrow> f32 \<Rightarrow> f32 \<Rightarrow> bool" where
  "in_range lo hi x \<longleftrightarrow> fl_le lo x \<and> fl_le x hi"

definition relay_value :: "f32 \<Rightarrow> f32 \<Rightarrow> i8 \<Rightarrow> f32" where
  "relay_value mv amp s = fl_add B32 mv (fl_mul B32 (fl_of_int B32 s) amp)"

lemma not_gt_le:
  assumes "is_finite a" "is_finite b" "is_finite c"
  shows "fl_gt (fl_add F a b) c \<longleftrightarrow> \<not> fl_le (fl_add F a b) c"
    "fl_lt (fl_sub F a b) c \<longleftrightarrow> \<not> fl_le c (fl_sub F a b)"
proof -
  have "fl_add F a b \<noteq> NaN" "fl_sub F a b \<noteq> NaN" "c \<noteq> NaN"
    using assms by (simp_all add: fl_add_finite fl_sub_finite)
  then show "fl_gt (fl_add F a b) c \<longleftrightarrow> \<not> fl_le (fl_add F a b) c"
    "fl_lt (fl_sub F a b) c \<longleftrightarrow> \<not> fl_le c (fl_sub F a b)"
    by (simp_all only: fl_not_le not_False_eq_True)
qed

lemma sum_above:
  assumes "is_finite a" "is_finite b" "is_finite hi" "representable F (val hi)"
    "\<not> fl_le (fl_add F a b) hi"
  shows "val hi < val a + val b"
proof (rule ccontr)
  assume "\<not> val hi < val a + val b"
  then have "fl_le (fl_add F a b) (Fin (val hi))"
    unfolding fl_add_finite [OF assms(1,2)] by (intro fl_round_le assms(4)) simp
  then show False using assms(5) fl_le_val(2) [OF assms(3)] by simp
qed

lemma diff_below:
  assumes "is_finite a" "is_finite b" "is_finite lo" "representable F (val lo)"
    "\<not> fl_le lo (fl_sub F a b)"
  shows "val a - val b < val lo"
proof (rule ccontr)
  assume "\<not> val a - val b < val lo"
  then have "fl_le (Fin (val lo)) (fl_sub F a b)"
    unfolding fl_sub_finite [OF assms(1,2)] by (intro fl_round_ge assms(4)) simp
  then show False using assms(5) fl_le_val(1) [OF assms(3)] by simp
qed

lemma fl_sub_exact:
  assumes "is_finite a" "is_finite b" "representable F (val a - val b)"
  shows "is_finite (fl_sub F a b)" "val (fl_sub F a b) = val a - val b"
  unfolding fl_sub_finite [OF assms(1,2)] using fl_round_rep [OF assms(3)] by simp_all

lemma relay_value_exact:
  assumes "is_finite mv" "is_finite lo" "is_finite hi" "fl_in B32 lo" "fl_in B32 hi"
    and "is_finite amp" "fl_in B32 amp" "s = 1 \<or> s = - 1"
    and "val lo \<le> val mv - val amp" "val mv - val amp \<le> val hi"
    and "val lo \<le> val mv + val amp" "val mv + val amp \<le> val hi"
  shows "in_range lo hi (relay_value mv amp s)"
proof -
  note m = fl_mul_one [OF assms(6,7)]
  note r = representable_fl_in [OF assms(2,4)] representable_fl_in [OF assms(3,5)]
  have "fl_le (Fin (val lo)) (relay_value mv amp s) \<and> fl_le (relay_value mv amp s) (Fin (val hi))"
    using assms(8)
  proof
    assume s: "s = 1"
    show ?thesis unfolding relay_value_def s
      by (intro conjI level_between [OF assms(1) m(1) r]) (simp_all add: m(2) assms(9-12))
  next
    assume s: "s = - 1"
    show ?thesis unfolding relay_value_def s
      by (intro conjI level_between [OF assms(1) m(3) r]) (simp_all add: m(4) assms(9-12))
  qed
  then show ?thesis
    unfolding in_range_def fl_le_val(1) [OF assms(2)] fl_le_val(2) [OF assms(3)] .
qed

lemma relay_value_unclamped:
  assumes "is_finite mv" "is_finite lo" "is_finite hi" "fl_in B32 lo" "fl_in B32 hi"
    and "is_finite amp" "fl_in B32 amp" "s = 1 \<or> s = - 1" "0 \<le> val amp"
    and "val lo \<le> val mv" "val mv \<le> val hi"
    and "fl_le (fl_add B32 mv amp) hi" "fl_le lo (fl_sub B32 mv amp)"
  shows "in_range lo hi (relay_value mv amp s)"
  using assms(8)
proof
  note m = fl_mul_one [OF assms(6,7)]
  note c = fl_add_cong_val [OF assms(1,6) m(1) m(2) [symmetric]]
  note r = representable_fl_in [OF assms(2,4)]
  assume s: "s = 1"
  have "fl_le lo (fl_add B32 mv amp)"
    unfolding fl_le_val(1) [OF assms(2)] fl_add_finite [OF assms(1,6)]
    using assms(9,10) r by (intro fl_round_ge) simp_all
  then show ?thesis using assms(12) by (simp add: in_range_def relay_value_def s c)
next
  note m = fl_mul_one [OF assms(6,7)]
  have n: "is_finite (fl_neg amp)" "val (fl_neg amp) = - val amp" using assms(6) by simp_all
  note c = fl_add_cong_val [OF assms(1) n(1) m(3)]
  note r = representable_fl_in [OF assms(3,5)]
  assume s: "s = - 1"
  have "fl_le (fl_sub B32 mv amp) hi"
    unfolding fl_le_val(2) [OF assms(3)] fl_sub_finite [OF assms(1,6)]
    using assms(9,11) r by (intro fl_round_le) simp_all
  then show ?thesis using assms(13) c n m(4)
    by (simp add: in_range_def relay_value_def s fl_sub_def)
qed

text \<open>Both relay steps of a clamped amplitude stay inside the range, when the distances to the
  bounds that the clamp computes are exact.\<close>

lemma clamp_safe:
  assumes fin: "is_finite pct" "is_finite mv" "is_finite lo" "is_finite hi"
    and fmt: "fl_in B32 mv" "fl_in B32 lo" "fl_in B32 hi"
    and pct: "0 \<le> val pct" "val pct \<le> 50" and mv: "val lo \<le> val mv" "val mv \<le> val hi"
    and lh: "val lo < val hi" "pow2 (- 125) \<le> val hi - val lo"
    and ex: "representable B32 (val hi - val lo)"
      "val hi + val lo < 2 * val mv \<Longrightarrow> representable B32 (val hi - val mv)"
      "2 * val mv < val hi + val lo \<Longrightarrow> representable B32 (val mv - val lo)"
    and s: "s = 1 \<or> s = - 1"
  shows "in_range lo hi (relay_value mv (clamp_relay_amplitude pct mv lo hi) s)"
proof -
  define raw where "raw = fl_mul B32 (fl_div B32 pct (lit32 100)) (fl_sub B32 hi lo)"
  note R = raw_amplitude [OF fin(1) pct fin(4,3) lh(1) ex(1) lh(2), folded raw_def]
  have cl: "clamp_relay_amplitude pct mv lo hi =
      (if \<not> fl_le (fl_add B32 mv raw) hi then fl_sub B32 hi mv
       else if \<not> fl_le lo (fl_sub B32 mv raw) then fl_sub B32 mv lo else raw)"
    unfolding clamp_relay_amplitude_def Let_def raw_def [symmetric]
      not_gt_le(1) [OF fin(2) R(1) fin(4)] not_gt_le(2) [OF fin(2) R(1) fin(3)] ..
  have rep: "representable B32 (val lo)" "representable B32 (val hi)"
    using fin fmt by (auto intro: representable_fl_in)
  consider (hi) "\<not> fl_le (fl_add B32 mv raw) hi" | (lo) "fl_le (fl_add B32 mv raw) hi" "\<not> fl_le lo (fl_sub B32 mv raw)"
    | (ok) "fl_le (fl_add B32 mv raw) hi" "fl_le lo (fl_sub B32 mv raw)" by blast
  then show ?thesis
  proof cases
    case hi
    have b: "val hi + val lo < 2 * val mv"
      using sum_above [OF fin(2) R(1) fin(4) rep(2) hi] R(3) by linarith
    note e = fl_sub_exact [OF fin(4,2) ex(2) [OF b]]
    have "in_range lo hi (relay_value mv (fl_sub B32 hi mv) s)"
      using b mv lh(1) by (intro relay_value_exact fin fmt s e(1) fl_sub_in) (simp_all add: e(2))
    then show ?thesis unfolding cl using hi by simp
  next
    case lo
    have b: "2 * val mv < val hi + val lo"
      using diff_below [OF fin(2) R(1) fin(3) rep(1) lo(2)] R(3) by linarith
    note e = fl_sub_exact [OF fin(2,3) ex(3) [OF b]]
    have "in_range lo hi (relay_value mv (fl_sub B32 mv lo) s)"
      using b mv lh(1) by (intro relay_value_exact fin fmt s e(1) fl_sub_in) (simp_all add: e(2))
    then show ?thesis unfolding cl using lo by simp
  next
    case ok
    then show ?thesis unfolding cl
      using relay_value_unclamped [OF fin(2-4) fmt(2,3) R(1,4) s R(2) mv] by simp
  qed
qed

text \<open>The distances the clamp computes are exact: always so for an uncascaded loop, whose range
  starts at zero (Sterbenz), and whenever the bounds and the initial MV are on a common grid.\<close>

definition exact_span :: "f32 \<Rightarrow> f32 \<Rightarrow> f32 \<Rightarrow> bool" where
  "exact_span lo hi mv \<longleftrightarrow> val lo = 0 \<or>
     (representable B32 (val hi - val lo) \<and> representable B32 (val hi - val mv) \<and>
      representable B32 (val mv - val lo))"

lemma clamp_safe_span:
  assumes fin: "is_finite pct" "is_finite mv" "is_finite lo" "is_finite hi"
    and fmt: "fl_in B32 mv" "fl_in B32 lo" "fl_in B32 hi"
    and pct: "0 \<le> val pct" "val pct \<le> 50" and mv: "val lo \<le> val mv" "val mv \<le> val hi"
    and lh: "val lo < val hi" "pow2 (- 125) \<le> val hi - val lo"
    and ex: "exact_span lo hi mv" and s: "s = 1 \<or> s = - 1"
  shows "in_range lo hi (relay_value mv (clamp_relay_amplitude pct mv lo hi) s)"
proof (rule clamp_safe [OF fin fmt pct mv lh _ _ _ s])
  have r: "representable B32 (val hi)" "representable B32 (val mv)"
    using fin fmt by (auto intro: representable_fl_in)
  show "representable B32 (val hi - val lo)" "representable B32 (val mv - val lo)"
    using ex r by (auto simp: exact_span_def)
  show "representable B32 (val hi - val mv)" if "val hi + val lo < 2 * val mv"
  proof (cases "val lo = 0")
    case True
    then show ?thesis using that mv by (intro sterbenz_rep r) auto
  next
    case False
    then show ?thesis using ex by (simp add: exact_span_def)
  qed
qed

lemma mv_writes_in_levels:
  assumes "cycles_bounded c" "v \<in> set (mv_writes (snd (engine_run (engine_new c d b i t0) ts)))"
  obtains "v = ir_mv_ini i"
  | s where "s = 1 \<or> s = - 1" "v = relay_level (engine_new c d b i t0) s"
proof -
  let ?start = "engine_new c d b i t0" and ?last = "fst (engine_run (engine_new c d b i t0) ts)"
  have ok: "engine_ok ?start" by (rule engine_ok_new [OF assms(1)])
  have z: "e_completed ?start = False" "switches ?start = 0" by (simp_all add: engine_new_def)
  have l: "run_log_ok ?start ?last (snd (engine_run ?start ts))" by (rule run_log [OF ok z])
  then obtain k where k: "k < switches ?last" "v = command_at ?start (e_mv_sign_init ?last) k"
    using assms(2) by (auto simp: run_log_ok_def)
  then have "relay_ok ?last" "0 < switches ?last" using run_ok [OF ok, of ts] by (simp_all add: engine_ok_def)
  then have "e_mv_sign_init ?last = 1 \<or> e_mv_sign_init ?last = - 1" by (simp add: relay_ok_def)
  then have "sign_at (e_mv_sign_init ?last) (Suc k) = 1 \<or> sign_at (e_mv_sign_init ?last) (Suc k) = - 1"
    by (auto simp: sign_at_def)
  then show ?thesis using k(2) that by (auto simp: command_at_def engine_new_def split: if_splits)
qed

text \<open>C2: the relay does not drive the MV out of its range, as far as the clamp's arithmetic is
  exact.  For a loop configuration and an MV range that pass validation, with the initial MV in the
  range, every MV the engine ever commands lies in the range, provided that the number of switches
  does not wrap (\<open>cycles_bounded\<close>), that the distances the clamp computes are exact
  (\<open>exact_span\<close>: a range that starts at zero, or bounds and initial MV whose three distances are
  32-bit floats) and that the range is not of subnormal width (at least 2 to the -125).  Without
  exact distances a clamped step can pass the bound: \<open>clamp_overshoot\<close> below.\<close>

theorem relay_commands_in_range:
  assumes "cycles_bounded c" "loop_config_validate c = Ok ()"
    and "MvRange_new (ir_mv_range_high i) (ir_mv_range_low i) = Ok r" "MvRange_contains r (ir_mv_ini i)"
    and "fl_in B32 (ir_mv_ini i)" "fl_in B32 (ir_mv_range_low i)" "fl_in B32 (ir_mv_range_high i)"
    and "exact_span (ir_mv_range_low i) (ir_mv_range_high i) (ir_mv_ini i)"
    and "pow2 (- 125) \<le> val (ir_mv_range_high i) - val (ir_mv_range_low i)"
  shows "list_all (MvRange_contains r) (mv_writes (snd (engine_run (engine_new c d b i t0) ts)))"
proof -
  let ?lo = "ir_mv_range_low i" and ?hi = "ir_mv_range_high i" and ?mv = "ir_mv_ini i"
    and ?pct = "lc_relay_amp_percent c"
  have r: "mv_high r = ?hi" "mv_low r = ?lo" and f: "is_finite ?lo" "is_finite ?hi" and "\<not> fl_ge ?lo ?hi"
    using assms(3) by (auto simp: MvRange_new_def split: if_splits)
  then have lh: "val ?lo < val ?hi" by (simp add: fl_le_finite)
  have m: "fl_le ?lo ?mv" "fl_le ?mv ?hi" using assms(4) r by (simp_all add: MvRange_contains_def)
  then have mv: "is_finite ?mv" "val ?lo \<le> val ?mv" "val ?mv \<le> val ?hi"
    unfolding fl_le_val(1) [OF f(1)] fl_le_val(2) [OF f(2)] using fl_between_finite by blast+
  have p: "is_finite ?pct" "fl_le RELAY_AMP_PERCENT_MIN ?pct" "fl_le ?pct RELAY_AMP_PERCENT_MAX"
    using assms(2) by (auto simp: loop_config_validate_def Let_def split: if_splits)
  moreover have "0 \<le> val RELAY_AMP_PERCENT_MIN" "is_finite RELAY_AMP_PERCENT_MIN"
    by (simp_all add: RELAY_AMP_PERCENT_MIN_def fl_simps)
  ultimately have pct: "0 \<le> val ?pct" "val ?pct \<le> 50" by (auto simp: fl_le_finite amp_max)
  have lev: "in_range ?lo ?hi (relay_level (engine_new c d b i t0) s)" if "s = 1 \<or> s = - 1" for s
    using clamp_safe_span [OF p(1) mv(1) f assms(5-7) pct mv(2,3) lh assms(9,8) that]
    by (simp add: relay_value_def relay_level_def engine_new_def)
  have "MvRange_contains r v" if "v \<in> set (mv_writes (snd (engine_run (engine_new c d b i t0) ts)))" for v
    using assms(1) that
  proof (cases rule: mv_writes_in_levels)
    case 1
    then show ?thesis using assms(4) by simp
  next
    case (2 s)
    then show ?thesis using lev [of s] r by (simp add: MvRange_contains_def in_range_def)
  qed
  then show ?thesis by (simp add: list_all_iff)
qed

lemma fl_in_eval: "fl_round F False q = Fin q \<Longrightarrow> fl_in F (Fin q)"
  by (metis fl_round_in)

lemma demo_facts:
  "cycles_bounded demo_config" "loop_config_validate demo_config = Ok ()"
  "MvRange_new (ir_mv_range_high demo_initial) (ir_mv_range_low demo_initial)
     = Ok \<lparr>mv_high = Fin 100, mv_low = Fin 0\<rparr>"
  "MvRange_contains \<lparr>mv_high = Fin 100, mv_low = Fin 0\<rparr> (ir_mv_ini demo_initial)"
  "fl_in B32 (ir_mv_ini demo_initial)" "fl_in B32 (ir_mv_range_low demo_initial)"
  "fl_in B32 (ir_mv_range_high demo_initial)"
  "exact_span (ir_mv_range_low demo_initial) (ir_mv_range_high demo_initial) (ir_mv_ini demo_initial)"
  "pow2 (- 125) \<le> val (ir_mv_range_high demo_initial) - val (ir_mv_range_low demo_initial)"
proof -
  show "fl_in B32 (ir_mv_ini demo_initial)" "fl_in B32 (ir_mv_range_high demo_initial)"
    unfolding demo_initial_def initial_readings.simps by (rule fl_in_eval; simp add: fl_simps)+
qed (simp_all add: demo_config_def demo_initial_def loop_config_validate_def MvRange_new_def
    MvRange_contains_def exact_span_def RELAY_AMP_PERCENT_MIN_def RELAY_AMP_PERCENT_MAX_def
    MRFT_DELAY_SECS_MAX_def fl_simps)

theorem relay_commands_in_range_witness:
  "list_all (MvRange_contains \<lparr>mv_high = Fin 100, mv_low = Fin 0\<rparr>)
     (mv_writes (snd (engine_run demo_engine demo_ticks)))"
  unfolding demo_engine_def by (rule relay_commands_in_range [OF demo_facts])

text \<open>The bound of 50 % is what makes the clamp safe: at 80 % of a 0-100 range the lower step from
  30 would be -40.\<close>

lemma clamp_needs_half_span:
  "clamp_relay_amplitude (Fin 80) (Fin 30) (Fin 0) (Fin 100) = Fin 70"
  "relay_value (Fin 30) (Fin 70) (- 1) = Fin (- 40)"
  by (simp_all add: clamp_relay_amplitude_def relay_value_def fl_simps cong: let_weak_cong)

text \<open>The exactness that \<open>relay_commands_in_range\<close> asks for cannot be dropped.  For a range that
  starts below zero the distance to a bound is rounded, and a clamped step of a valid amplitude
  (50 % of the range -50 to 0.3, from -13.7065363) passes the upper bound by one unit in the last
  place.\<close>

theorem clamp_overshoot:
  "clamp_relay_amplitude RELAY_AMP_PERCENT_MAX (Fin (- 14372345 / 1048576)) (Fin (- 50)) (lit32 0.3)
     = Fin (7343459 / 524288)
   \<and> relay_value (Fin (- 14372345 / 1048576)) (Fin (7343459 / 524288)) 1 = Fin (314573 / 1048576)
   \<and> MvRange_contains \<lparr>mv_high = lit32 0.3, mv_low = Fin (- 50)\<rparr> (Fin (- 14372345 / 1048576))
   \<and> fl_gt (Fin (314573 / 1048576)) (lit32 0.3)"
proof -
  have l: "lit32 0.3 = Fin (5033165 / 16777216)" by (simp add: fl_simps)
  have "clamp_relay_amplitude (Fin 50) (Fin (- 14372345 / 1048576)) (Fin (- 50)) (Fin (5033165 / 16777216))
      = Fin (7343459 / 524288)"
    by (simp add: clamp_relay_amplitude_def fl_simps cong: let_weak_cong)
  moreover have "relay_value (Fin (- 14372345 / 1048576)) (Fin (7343459 / 524288)) 1 = Fin (314573 / 1048576)"
    by (simp add: relay_value_def fl_simps)
  moreover have "MvRange_contains \<lparr>mv_high = Fin (5033165 / 16777216), mv_low = Fin (- 50)\<rparr>
      (Fin (- 14372345 / 1048576))"
    by (simp add: MvRange_contains_def fl_simps)
  ultimately show ?thesis unfolding l amp_max by (simp add: fl_simps)
qed

section \<open>Progress report\<close>

text \<open>The progress counters.  After any samples, the reported completed and remaining cycles are
  the halves of the switches made and still to make, they stay non-negative, and no cycle remains
  exactly when the test is complete.\<close>

theorem progress_report:
  fixes c d b i t0 ts
  assumes "cycles_bounded c"
  defines "e \<equiv> fst (engine_run (engine_new c d b i t0) ts)"
  shows "ms_cycles_completed (engine_state e) = int ((switches e - 1) div 2)
    \<and> ms_cycles_remaining (engine_state e) = int ((test_switches c + 1 - switches e) div 2)
    \<and> (ms_cycles_remaining (engine_state e) = 0) = e_completed e
    \<and> is_complete e = e_completed e"
proof -
  let ?start = "engine_new c d b i t0"
  have ok: "engine_ok ?start" by (rule engine_ok_new [OF assms(1)])
  have e: "params_ok e" "counts_ok e" using run_ok [OF ok] by (simp_all add: e_def engine_ok_def)
  have "same_params ?start e" unfolding e_def by (rule run_same_params [OF ok])
  then have t: "total_switches e = test_switches c"
    using same_params_total total_switches_new [OF assms(1)] by metis
  have le: "switches e \<le> total_switches e" and c: "e_completed e \<longleftrightarrow> switches e = total_switches e"
    using e(2) unfolding counts_ok_def by blast+
  have "total_switches e < 2147483646" using e(1) by (simp add: params_ok_def)
  then have s: "switches e < 2147483648" using le by linarith
  have rem: "cycles_remaining e = int ((test_switches c + 1 - switches e) div 2)"
    using cycles_remaining_nat [OF e(1) le] unfolding t .
  have "cycles_remaining e = 0 \<longleftrightarrow> switches e = test_switches c"
    using le unfolding rem t by (simp add: div_eq_0_iff) linarith
  then show ?thesis
    using cycles_completed_nat [OF s] rem c is_complete_nat [OF e(1)] le
    unfolding t by (auto simp: engine_state_def)
qed

theorem progress_report_witness:
  "ms_cycles_remaining (engine_state (fst (engine_run demo_engine demo_ticks))) = 0 \<and>
   e_completed (fst (engine_run demo_engine demo_ticks))"
  using progress_report [OF demo_facts(1), of Reverse "Fin 0" demo_initial 0 demo_ticks,
      folded demo_engine_def] demo_run(2)
  by (auto simp: test_switches_def demo_config_def)

end
