(* ===== verification/Driver.thy ===== *)
theory Driver
  imports Tags Mrft Pid_Config
begin

text \<open>
  The driver crate (\<open>bhtune-driver/src\<close>): the tag interface between the tuning engine and a
  process, with the read-only wrapper, the in-process simulator (a first-order process with dead
  time, and a virtual PID controller) and the replay of a recorded trace.  The OPC DA driver is a
  client of a third-party library and is left out.

  A driver is a state with a read and a write function.  \<open>f32::exp\<close>, the random generator and the
  text form of an \<open>f32\<close> with its parser are parameters.
\<close>

section \<open>The interface\<close>

datatype quality = Good | Uncertain | Bad

definition is_trustworthy :: "quality \<Rightarrow> bool" where
  "is_trustworthy q \<longleftrightarrow> q = Good"

record tag_value =
  tv_tag :: string
  tv_value :: string
  tv_quality :: quality
  tv_timestamp :: "timestamp option"

datatype tag_write = WFloat f32 | WRaw string

record write_outcome =
  wo_success :: bool
  wo_error_message :: "string option"

definition write_success :: write_outcome where
  "write_success = \<lparr> wo_success = True, wo_error_message = None \<rparr>"

definition write_failure :: "string \<Rightarrow> write_outcome" where
  "write_failure m = \<lparr> wo_success = False, wo_error_message = Some m \<rparr>"

text \<open>The error sources the drivers below produce are the exhausted trace and a fixture that does
  not parse; \<open>Operation\<close> carries the former's two numbers or a description.\<close>

datatype operation_source = TraceExhausted nat nat | OtherSource string

datatype driver_error =
  ConnectFailed string
| Operation operation_source
| InvalidTagValue string string
| Unsupported string
| IndexOperationRejected string
| IncompatibleGateway string
| BrowseStateInvalid

text \<open>The documented contract of \<open>Driver::read\<close>: one value per requested tag, in order.\<close>

locale tag_driver =
  fixes get :: "string list \<Rightarrow> 'd \<Rightarrow> 'd \<times> (driver_error, tag_value list) result"
  assumes in_order: "snd (get tags d) = Ok vs \<Longrightarrow> map tv_tag vs = tags"
begin

lemma one_each: "snd (get tags d) = Ok vs \<Longrightarrow> length vs = length tags"
  using in_order by (metis length_map)

lemma single:
  assumes "snd (get [t] d) = Ok vs" obtains v where "vs = [v]" "tv_tag v = t"
  using in_order[OF assms] by auto

end

text \<open>What a write is for: an accepted write puts its value into its tag, and no write touches another
  tag.  A write that fails may or may not have changed its own tag.\<close>

locale tag_store =
  fixes put :: "string \<Rightarrow> tag_write \<Rightarrow> 'd \<Rightarrow> 'd \<times> (driver_error, write_outcome) result"
    and holds :: "'d \<Rightarrow> string \<Rightarrow> tag_write \<Rightarrow> bool"
  assumes accepted: "put tag w d = (d', Ok x) \<Longrightarrow> wo_success x \<Longrightarrow> holds d' tag w"
    and untouched: "put tag w d = (d', r) \<Longrightarrow> t \<noteq> tag \<Longrightarrow> holds d' t v = holds d t v"

section \<open>The read-only wrapper\<close>

definition readonly_read ::
  "(string list \<Rightarrow> 'd \<Rightarrow> 'd \<times> (driver_error, tag_value list) result)
   \<Rightarrow> string list \<Rightarrow> 'd \<Rightarrow> 'd \<times> (driver_error, tag_value list) result" where
  "readonly_read inner = inner"

definition readonly_write :: "string \<Rightarrow> tag_write \<Rightarrow> 'd \<Rightarrow> 'd \<times> (driver_error, write_outcome) result" where
  "readonly_write t v d = (d, Err (Unsupported ''write''))"

lemma readonly_driver: "tag_driver get \<Longrightarrow> tag_driver (readonly_read get)"
  by (simp add: readonly_read_def)

section \<open>The simulated process\<close>

record fopdt_config =
  gain :: f32
  time_constant_s :: f32
  dead_time_s :: f32
  tick_interval_s :: f32
  noise_amplitude :: f32

definition fopdt_config_new :: "f32 \<Rightarrow> f32 \<Rightarrow> f32 \<Rightarrow> f32 \<Rightarrow> fopdt_config" where
  "fopdt_config_new g tau theta dt =
     \<lparr> gain = g, time_constant_s = tau, dead_time_s = theta, tick_interval_s = dt,
       noise_amplitude = Fin 0 \<rparr>"

definition with_noise_amplitude :: "fopdt_config \<Rightarrow> f32 \<Rightarrow> fopdt_config" where
  "with_noise_amplitude c a = c\<lparr>noise_amplitude := a\<rparr>"

record 'g fopdt_process =
  p_config :: fopdt_config
  p_bias :: f32
  p_decay :: f32
  p_pv :: f32
  p_current_mv :: f32
  p_delay_line :: "f32 list"
  p_rng :: 'g

text \<open>\<open>f32::ceil() as usize\<close>: saturating, NaN to zero.\<close>

fun ceil_as_usize :: "f32 \<Rightarrow> nat" where
  "ceil_as_usize (Fin x) = min (nat \<lceil>x\<rceil>) (2 ^ 64 - 1)"
| "ceil_as_usize PInf = 2 ^ 64 - 1"
| "ceil_as_usize _ = 0"

definition delay_ticks :: "fopdt_config \<Rightarrow> nat" where
  "delay_ticks c =
     (if fl_gt (dead_time_s c) (Fin 0) \<and> fl_gt (tick_interval_s c) (Fin 0)
      then ceil_as_usize (fl_div B32 (dead_time_s c) (tick_interval_s c)) else 0)"

definition fopdt_new :: "(f32 \<Rightarrow> f32) \<Rightarrow> fopdt_config \<Rightarrow> f32 \<Rightarrow> f32 \<Rightarrow> 'g \<Rightarrow> 'g fopdt_process" where
  "fopdt_new exp32 c pv mv g =
     \<lparr> p_config = c,
       p_bias = fl_sub B32 pv (fl_mul B32 (gain c) mv),
       p_decay = (if fl_gt (time_constant_s c) (Fin 0)
                  then exp32 (fl_div B32 (fl_neg (tick_interval_s c)) (time_constant_s c))
                  else Fin 0),
       p_pv = pv, p_current_mv = mv, p_delay_line = replicate (delay_ticks c) mv, p_rng = g \<rparr>"

definition set_mv :: "f32 \<Rightarrow> 'g fopdt_process \<Rightarrow> 'g fopdt_process" where
  "set_mv mv p = p\<lparr>p_current_mv := mv\<rparr>"

text \<open>The new PV from the effective MV, before noise.\<close>

definition fopdt_response :: "'g fopdt_process \<Rightarrow> f32 \<Rightarrow> f32" where
  "fopdt_response p mv =
     fl_add B32 (fl_mul B32 (p_pv p) (p_decay p))
       (fl_mul B32 (fl_sub B32 (Fin 1) (p_decay p))
          (fl_add B32 (p_bias p) (fl_mul B32 (gain (p_config p)) mv)))"

definition fopdt_step :: "(f32 \<Rightarrow> 'g \<Rightarrow> f32 \<times> 'g) \<Rightarrow> 'g fopdt_process \<Rightarrow> 'g fopdt_process \<times> f32" where
  "fopdt_step noise p =
     (let line = p_delay_line p @ [p_current_mv p];
          p1 = p\<lparr>p_delay_line := tl line, p_pv := fopdt_response p (hd line)\<rparr>
      in if fl_gt (noise_amplitude (p_config p)) (Fin 0)
         then (let (x, g) = noise (noise_amplitude (p_config p)) (p_rng p1);
                   p2 = p1\<lparr>p_pv := fl_add B32 (p_pv p1) x, p_rng := g\<rparr>
               in (p2, p_pv p2))
         else (p1, p_pv p1))"

section \<open>The virtual PID controller\<close>

record virtual_pid_config =
  kc :: f32
  ti_s :: "f32 option"
  td_s :: "f32 option"
  output_min :: f32
  output_max :: f32
  output_bias :: f32

record virtual_pid =
  vp_config :: virtual_pid_config
  vp_integral :: f32
  vp_prev_pv :: "f32 option"

definition virtual_pid_new :: "virtual_pid_config \<Rightarrow> virtual_pid" where
  "virtual_pid_new c = \<lparr> vp_config = c, vp_integral = Fin 0, vp_prev_pv = None \<rparr>"

text \<open>\<open>f32::clamp\<close> panics unless \<open>min <= max\<close>; a NaN stays NaN.\<close>

definition fl_clamp :: "f32 \<Rightarrow> f32 \<Rightarrow> f32 \<Rightarrow> f32 option" where
  "fl_clamp x lo hi =
     (if \<not> fl_le lo hi then None
      else Some (if fl_lt x lo then lo else if fl_gt x hi then hi else x))"

definition pid_raw_output :: "virtual_pid \<Rightarrow> f32 \<Rightarrow> f32 \<Rightarrow> f32 \<Rightarrow> f32" where
  "pid_raw_output p setpoint pv dt =
     (let c = vp_config p;
          error = fl_sub B32 setpoint pv;
          integral_gain = (case ti_s c of Some ti \<Rightarrow> if fl_gt ti (Fin 0) then Some (fl_div B32 (kc c) ti) else None
                           | None \<Rightarrow> None);
          candidate = fl_add B32 (vp_integral p) (fl_mul B32 error dt);
          derivative = (case (td_s c, vp_prev_pv p) of
              (Some td, Some prev) \<Rightarrow>
                if fl_gt td (Fin 0) \<and> fl_gt dt (Fin 0)
                then fl_div B32 (fl_mul B32 (fl_mul B32 (fl_neg (kc c)) td) (fl_sub B32 pv prev)) dt
                else Fin 0
            | _ \<Rightarrow> Fin 0);
          proportional = fl_mul B32 (kc c) error;
          integral_term = (case integral_gain of None \<Rightarrow> Fin 0 | Some ki \<Rightarrow> fl_mul B32 ki candidate)
      in fl_add B32 (fl_add B32 (fl_add B32 (output_bias c) proportional) integral_term) derivative)"

definition virtual_pid_step :: "virtual_pid \<Rightarrow> f32 \<Rightarrow> f32 \<Rightarrow> f32 \<Rightarrow> (virtual_pid \<times> f32) option" where
  "virtual_pid_step p setpoint pv dt =
     (let raw = pid_raw_output p setpoint pv dt;
          candidate = fl_add B32 (vp_integral p) (fl_mul B32 (fl_sub B32 setpoint pv) dt)
      in case fl_clamp raw (output_min (vp_config p)) (output_max (vp_config p)) of
           None \<Rightarrow> None
         | Some out \<Rightarrow>
             Some (p\<lparr>vp_prev_pv := Some pv,
                     vp_integral := (if fl_eq out raw then candidate else vp_integral p)\<rparr>, out))"

section \<open>The simulator driver\<close>

record 'g simulator =
  sim_pv_tag :: string
  sim_mv_tag :: string
  sim_process :: "'g fopdt_process"

definition simulator_new ::
  "(f32 \<Rightarrow> f32) \<Rightarrow> string \<Rightarrow> string \<Rightarrow> fopdt_config \<Rightarrow> f32 \<Rightarrow> f32 \<Rightarrow> 'g \<Rightarrow> 'g simulator" where
  "simulator_new exp32 pvt mvt c pv mv g =
     \<lparr> sim_pv_tag = pvt, sim_mv_tag = mvt, sim_process = fopdt_new exp32 c pv mv g \<rparr>"

definition good_value :: "string \<Rightarrow> string \<Rightarrow> timestamp option \<Rightarrow> tag_value" where
  "good_value t v ts = \<lparr> tv_tag = t, tv_value = v, tv_quality = Good, tv_timestamp = ts \<rparr>"

text \<open>Collecting the values stops at the first error; the ticks taken before it stay taken.\<close>

fun simulator_read ::
  "(f32 \<Rightarrow> string) \<Rightarrow> (f32 \<Rightarrow> 'g \<Rightarrow> f32 \<times> 'g) \<Rightarrow> string list \<Rightarrow> 'g simulator
   \<Rightarrow> 'g simulator \<times> (driver_error, tag_value list) result" where
  "simulator_read shw noise [] s = (s, Ok [])"
| "simulator_read shw noise (t # ts) s =
     (if t = sim_pv_tag s then
        (let (p, pv) = fopdt_step noise (sim_process s);
             (s', r) = simulator_read shw noise ts (s\<lparr>sim_process := p\<rparr>)
         in (s', map_sum id (\<lambda>vs. good_value t (shw pv) None # vs) r))
      else if t = sim_mv_tag s then
        (let (s', r) = simulator_read shw noise ts s
         in (s', map_sum id (\<lambda>vs. good_value t (shw (p_current_mv (sim_process s))) None # vs) r))
      else (s, Err (InvalidTagValue t ''SimulatorDriver only knows its configured PV/MV tags'')))"

text \<open>The value of a write, or the parser's rejection.\<close>

fun written_value :: "(string \<Rightarrow> f32 option) \<Rightarrow> tag_write \<Rightarrow> (string, f32) result" where
  "written_value parse (WFloat f) = Ok f"
| "written_value parse (WRaw x) = (case parse x of Some f \<Rightarrow> Ok f | None \<Rightarrow> Err x)"

definition rejected_number :: "string \<Rightarrow> write_outcome" where
  "rejected_number x = write_failure ([CHR 0x27] @ x @ [CHR 0x27] @ '' is not a valid numeric MV value'')"

definition simulator_write ::
  "(string \<Rightarrow> f32 option) \<Rightarrow> string \<Rightarrow> tag_write \<Rightarrow> 'g simulator
   \<Rightarrow> 'g simulator \<times> (driver_error, write_outcome) result" where
  "simulator_write parse t v s =
     (if t \<noteq> sim_mv_tag s
      then (s, Err (InvalidTagValue t ''SimulatorDriver only accepts writes to its configured MV tag''))
      else (case written_value parse v of
              Inl x \<Rightarrow> (s, Ok (rejected_number x))
            | Inr mv \<Rightarrow> (s\<lparr>sim_process := set_mv mv (sim_process s)\<rparr>, Ok write_success)))"

section \<open>The replay driver\<close>

record replay_sample =
  rp_time :: timestamp
  rp_pv :: f32

record recorded_write =
  rw_tag :: string
  rw_value :: f32

record replay =
  rp_pv_tag :: string
  rp_mv_tag :: string
  rp_samples :: "replay_sample list"
  rp_next_index :: nat
  rp_last_mv :: f32
  rp_writes :: "recorded_write list"

definition replay_new :: "string \<Rightarrow> string \<Rightarrow> replay_sample list \<Rightarrow> f32 \<Rightarrow> replay" where
  "replay_new pvt mvt samples mv =
     \<lparr> rp_pv_tag = pvt, rp_mv_tag = mvt, rp_samples = samples, rp_next_index = 0, rp_last_mv = mv,
       rp_writes = [] \<rparr>"

text \<open>The fixture reader is a parameter: the samples of a parsed document, or its error.\<close>

definition from_fixture_json ::
  "(string \<Rightarrow> (string, replay_sample list) result) \<Rightarrow> string \<Rightarrow> string \<Rightarrow> string \<Rightarrow> f32
   \<Rightarrow> (driver_error, replay) result" where
  "from_fixture_json parse_json pvt mvt json mv =
     (case parse_json json of
        Inl e \<Rightarrow> Err (Operation (OtherSource e))
      | Inr samples \<Rightarrow> Ok (replay_new pvt mvt samples mv))"

definition replay_remaining :: "replay \<Rightarrow> nat" where
  "replay_remaining r = length (rp_samples r) - rp_next_index r"

fun replay_read ::
  "(f32 \<Rightarrow> string) \<Rightarrow> string list \<Rightarrow> replay \<Rightarrow> replay \<times> (driver_error, tag_value list) result" where
  "replay_read shw [] r = (r, Ok [])"
| "replay_read shw (t # ts) r =
     (if t = rp_pv_tag r then
        (if rp_next_index r < length (rp_samples r) then
           (let x = rp_samples r ! rp_next_index r;
                (r', res) = replay_read shw ts (r\<lparr>rp_next_index := rp_next_index r + 1\<rparr>)
            in (r', map_sum id (\<lambda>vs. good_value t (shw (rp_pv x)) (Some (rp_time x)) # vs) res))
         else (r, Err (Operation (TraceExhausted (length (rp_samples r)) (rp_next_index r + 1)))))
      else if t = rp_mv_tag r then
        (let (r', res) = replay_read shw ts r
         in (r', map_sum id (\<lambda>vs. good_value t (shw (rp_last_mv r)) None # vs) res))
      else (r, Err (InvalidTagValue t ''ReplayDriver only knows its configured PV/MV tags'')))"

definition replay_write ::
  "(string \<Rightarrow> f32 option) \<Rightarrow> string \<Rightarrow> tag_write \<Rightarrow> replay \<Rightarrow> replay \<times> (driver_error, write_outcome) result" where
  "replay_write parse t v r =
     (if t \<noteq> rp_mv_tag r
      then (r, Err (InvalidTagValue t ''ReplayDriver only accepts writes to its configured MV tag''))
      else (case written_value parse v of
              Inl x \<Rightarrow> (r, Ok (rejected_number x))
            | Inr mv \<Rightarrow> (r\<lparr>rp_last_mv := mv,
                           rp_writes := rp_writes r @ [\<lparr> rw_tag = t, rw_value = mv \<rparr>]\<rparr>, Ok write_success)))"

section \<open>Both drivers keep the contract\<close>

lemma map_sum_Ok: "map_sum id f r = Inr y \<longleftrightarrow> (\<exists>x. r = Inr x \<and> y = f x)"
  by (cases r) auto

lemma simulator_in_order: "snd (simulator_read shw noise ts s) = Ok vs \<Longrightarrow> map tv_tag vs = ts"
proof (induction ts arbitrary: s vs)
  case (Cons t ts)
  show ?case using Cons.prems
    by (auto simp: split_beta Let_def map_sum_Ok good_value_def split: if_splits dest: Cons.IH)
qed simp

lemma replay_in_order: "snd (replay_read shw ts r) = Ok vs \<Longrightarrow> map tv_tag vs = ts"
proof (induction ts arbitrary: r vs)
  case (Cons t ts)
  show ?case using Cons.prems
    by (auto simp: split_beta Let_def map_sum_Ok good_value_def split: if_splits dest: Cons.IH)
qed simp

interpretation simulator_driver: tag_driver "simulator_read shw noise" for shw noise
  by unfold_locales (rule simulator_in_order)

interpretation replay_driver: tag_driver "replay_read shw" for shw
  by unfold_locales (rule replay_in_order)

text \<open>Both keep the value of an accepted write of their MV.\<close>

definition simulator_holds :: "(string \<Rightarrow> f32 option) \<Rightarrow> 'g simulator \<Rightarrow> string \<Rightarrow> tag_write \<Rightarrow> bool" where
  "simulator_holds parse s t w \<longleftrightarrow> t = sim_mv_tag s \<and> written_value parse w = Ok (p_current_mv (sim_process s))"

definition replay_holds :: "(string \<Rightarrow> f32 option) \<Rightarrow> replay \<Rightarrow> string \<Rightarrow> tag_write \<Rightarrow> bool" where
  "replay_holds parse r t w \<longleftrightarrow> t = rp_mv_tag r \<and> written_value parse w = Ok (rp_last_mv r)"

interpretation simulator_store: tag_store "simulator_write parse" "simulator_holds parse" for parse
  by unfold_locales
    (auto simp: simulator_write_def simulator_holds_def set_mv_def rejected_number_def write_failure_def
      split: if_splits sum.splits)

interpretation replay_store: tag_store "replay_write parse" "replay_holds parse" for parse
  by unfold_locales
    (auto simp: replay_write_def replay_holds_def rejected_number_def write_failure_def
      split: if_splits sum.splits)

section \<open>Dead time\<close>

text \<open>Commands and ticks in turn, and the same process without its delay line, given the effective
  MVs directly.\<close>

fun fopdt_run :: "(f32 \<Rightarrow> 'g \<Rightarrow> f32 \<times> 'g) \<Rightarrow> 'g fopdt_process \<Rightarrow> f32 list \<Rightarrow> f32 list" where
  "fopdt_run noise p [] = []"
| "fopdt_run noise p (mv # mvs) =
     (let (p', pv) = fopdt_step noise (set_mv mv p) in pv # fopdt_run noise p' mvs)"

definition lag_step :: "(f32 \<Rightarrow> 'g \<Rightarrow> f32 \<times> 'g) \<Rightarrow> 'g fopdt_process \<Rightarrow> f32 \<Rightarrow> 'g fopdt_process" where
  "lag_step noise p mv =
     (let v = fopdt_response p mv
      in if fl_gt (noise_amplitude (p_config p)) (Fin 0)
         then (let (x, g) = noise (noise_amplitude (p_config p)) (p_rng p)
               in p\<lparr>p_pv := fl_add B32 v x, p_rng := g\<rparr>)
         else p\<lparr>p_pv := v\<rparr>)"

fun lag_run :: "(f32 \<Rightarrow> 'g \<Rightarrow> f32 \<times> 'g) \<Rightarrow> 'g fopdt_process \<Rightarrow> f32 list \<Rightarrow> f32 list" where
  "lag_run noise p [] = []"
| "lag_run noise p (mv # mvs) = p_pv (lag_step noise p mv) # lag_run noise (lag_step noise p mv) mvs"

text \<open>The two agree on what the lag uses.\<close>

definition same_lag :: "'g fopdt_process \<Rightarrow> 'g fopdt_process \<Rightarrow> bool" where
  "same_lag p q \<longleftrightarrow> p_config p = p_config q \<and> p_bias p = p_bias q \<and> p_decay p = p_decay q \<and>
     p_pv p = p_pv q \<and> p_rng p = p_rng q"

lemma fopdt_step_lag:
  assumes "same_lag p q" and "fopdt_step noise (set_mv mv p) = (p', v)"
  shows "v = p_pv (lag_step noise q (hd (p_delay_line p @ [mv])))"
    and "same_lag p' (lag_step noise q (hd (p_delay_line p @ [mv])))"
    and "p_delay_line p' = tl (p_delay_line p @ [mv])"
  using assms
  by (auto simp: fopdt_step_def lag_step_def set_mv_def same_lag_def fopdt_response_def Let_def
      split: if_splits prod.splits)

lemma fopdt_run_lag:
  assumes "same_lag p q"
  shows "fopdt_run noise p mvs = lag_run noise q (take (length mvs) (p_delay_line p @ mvs))"
  using assms
proof (induction mvs arbitrary: p q)
  case (Cons mv mvs)
  obtain p' v where st: "fopdt_step noise (set_mv mv p) = (p', v)" by fastforce
  note l = fopdt_step_lag[OF Cons.prems st]
  have "p_delay_line p @ mv # mvs = (p_delay_line p @ [mv]) @ mvs" by simp
  moreover have "p_delay_line p @ [mv] = hd (p_delay_line p @ [mv]) # tl (p_delay_line p @ [mv])"
    by (cases "p_delay_line p") simp_all
  ultimately have "p_delay_line p @ mv # mvs = hd (p_delay_line p @ [mv]) # p_delay_line p' @ mvs"
    using l(3) by (metis append_Cons)
  then have "take (length (mv # mvs)) (p_delay_line p @ mv # mvs)
      = hd (p_delay_line p @ [mv]) # take (length mvs) (p_delay_line p' @ mvs)"
    by (metis length_Cons take_Suc_Cons)
  then show ?case using Cons.IH[OF l(2)] l(1) by (simp add: st del: take_append)
qed simp

text \<open>The simulated process has exactly the configured dead time: over any sequence of commands
  its samples are those of the process without a delay line driven by the same commands shifted by
  the configured number of ticks, the initial MV before them.\<close>

theorem dead_time_is_a_shift:
  "fopdt_run noise (fopdt_new exp32 c pv mv g) mvs =
     lag_run noise (fopdt_new exp32 c pv mv g) (take (length mvs) (replicate (delay_ticks c) mv @ mvs))"
proof -
  have "same_lag (fopdt_new exp32 c pv mv g) (fopdt_new exp32 c pv mv g)" by (simp add: same_lag_def)
  moreover have "p_delay_line (fopdt_new exp32 c pv mv g) = replicate (delay_ticks c) mv"
    by (simp add: fopdt_new_def)
  ultimately show ?thesis using fopdt_run_lag by metis
qed

section \<open>The virtual PID controller\<close>

lemma fl_clamp_bounds:
  assumes "fl_clamp x lo hi = Some y" shows "y = NaN \<or> fl_le lo y \<and> fl_le y hi"
proof -
  have le: "fl_le lo hi" and y: "y = (if fl_lt x lo then lo else if fl_gt x hi then hi else x)"
    using assms by (auto simp: fl_clamp_def split: if_splits)
  have n: "lo \<noteq> NaN" "hi \<noteq> NaN" using le by auto
  have self: "fl_le lo lo" "fl_le hi hi" using n by (cases lo; cases hi; simp add: fl_le_def fl_eq_def)+
  show ?thesis
  proof (cases "x = NaN")
    case True
    then show ?thesis by (simp add: y)
  next
    case False
    have "\<not> fl_lt x lo \<Longrightarrow> fl_le lo x" "\<not> fl_gt x hi \<Longrightarrow> fl_le x hi"
      using fl_not_le[OF n(1) False] fl_not_le[OF False n(2)] by blast+
    then show ?thesis using le self by (auto simp: y)
  qed
qed

text \<open>With limits in order a control step never panics, its output is inside the limits unless
  the arithmetic gave NaN, and the integral only accumulates when the output was not limited.\<close>

theorem virtual_pid_limited:
  assumes "fl_le (output_min (vp_config p)) (output_max (vp_config p))"
  shows "\<exists>q out. virtual_pid_step p sp pv dt = Some (q, out) \<and> vp_config q = vp_config p \<and>
    (out = NaN \<or> fl_le (output_min (vp_config p)) out \<and> fl_le out (output_max (vp_config p))) \<and>
    vp_integral q = (if fl_eq out (pid_raw_output p sp pv dt)
      then fl_add B32 (vp_integral p) (fl_mul B32 (fl_sub B32 sp pv) dt) else vp_integral p)"
proof -
  obtain out where out: "fl_clamp (pid_raw_output p sp pv dt) (output_min (vp_config p))
      (output_max (vp_config p)) = Some out" using assms by (simp add: fl_clamp_def)
  then show ?thesis using fl_clamp_bounds[OF out] by (simp add: virtual_pid_step_def Let_def)
qed

definition demo_pid :: virtual_pid where
  "demo_pid = virtual_pid_new \<lparr> kc = Fin 2, ti_s = Some (Fin 10), td_s = None, output_min = Fin 0,
     output_max = Fin 100, output_bias = Fin 50 \<rparr>"

theorem virtual_pid_limited_witness:
  "\<exists>q out. virtual_pid_step demo_pid (Fin 90) (Fin 10) (Fin 1) = Some (q, out) \<and>
    (out = NaN \<or> fl_le (Fin 0) out \<and> fl_le out (Fin 100))"
proof -
  have "fl_le (output_min (vp_config demo_pid)) (output_max (vp_config demo_pid))"
    by (simp add: demo_pid_def virtual_pid_new_def fl_le_finite)
  from virtual_pid_limited[OF this, of "Fin 90" "Fin 10" "Fin 1"] show ?thesis
    by (auto simp: demo_pid_def virtual_pid_new_def)
qed

section \<open>Replaying a trace through the driver\<close>

text \<open>One tick of a replay: read the PV through the driver, step the engine at the recorded time,
  write the commands through the driver.\<close>

fun write_commands :: "(string \<Rightarrow> f32 option) \<Rightarrow> f32 list \<Rightarrow> replay \<Rightarrow> replay" where
  "write_commands parse [] r = r"
| "write_commands parse (v # vs) r =
     write_commands parse vs (fst (replay_write parse (rp_mv_tag r) (WFloat v) r))"

definition replay_tick ::
  "(f32 \<Rightarrow> string) \<Rightarrow> (string \<Rightarrow> f32 option) \<Rightarrow> mrft_engine \<times> replay
   \<Rightarrow> (driver_error, mrft_engine \<times> replay) result" where
  "replay_tick shw parse er =
     (let (e, r) = er; (r1, res) = replay_read shw [rp_pv_tag r] r
      in bind_result res (\<lambda>vs.
         (case vs of
            v # _ \<Rightarrow>
              (case (parse (tv_value v), tv_timestamp v) of
                 (Some pv, Some t) \<Rightarrow>
                   (let (e', as) = engine_step e \<lparr>tk_time = t, tk_pv = pv\<rparr>
                    in Ok (e', write_commands parse (mv_writes as) r1))
               | _ \<Rightarrow> Err (Operation (OtherSource ''sample'')))
          | [] \<Rightarrow> Err (Operation (OtherSource ''sample'')))))"

fun replay_ticks ::
  "(f32 \<Rightarrow> string) \<Rightarrow> (string \<Rightarrow> f32 option) \<Rightarrow> nat \<Rightarrow> mrft_engine \<times> replay
   \<Rightarrow> (driver_error, mrft_engine \<times> replay) result" where
  "replay_ticks shw parse 0 er = Ok er"
| "replay_ticks shw parse (Suc n) er = bind_result (replay_tick shw parse er) (replay_ticks shw parse n)"

abbreviation sample_tick :: "replay_sample \<Rightarrow> tick" where
  "sample_tick x \<equiv> \<lparr>tk_time = rp_time x, tk_pv = rp_pv x\<rparr>"

lemma write_commands_fields:
  "rp_samples (write_commands parse vs r) = rp_samples r"
  "rp_next_index (write_commands parse vs r) = rp_next_index r"
  "rp_pv_tag (write_commands parse vs r) = rp_pv_tag r"
  "rp_mv_tag (write_commands parse vs r) = rp_mv_tag r"
  "rp_writes (write_commands parse vs r) =
     rp_writes r @ map (\<lambda>v. \<lparr> rw_tag = rp_mv_tag r, rw_value = v \<rparr>) vs"
  by (induction vs arbitrary: r) (simp_all add: replay_write_def)

lemma replay_tick_step:
  assumes "rp_next_index r < length (rp_samples r)"
    and "parse (shw (rp_pv (rp_samples r ! rp_next_index r))) = Some (rp_pv (rp_samples r ! rp_next_index r))"
    and "engine_step e (sample_tick (rp_samples r ! rp_next_index r)) = (e', as)"
  shows "replay_tick shw parse (e, r) =
    Ok (e', write_commands parse (mv_writes as) (r\<lparr>rp_next_index := rp_next_index r + 1\<rparr>))"
  using assms by (simp add: replay_tick_def Let_def good_value_def)

lemma replay_ticks_run:
  assumes "rp_next_index r + n \<le> length (rp_samples r)"
    and "\<forall>x \<in> set (rp_samples r). parse (shw (rp_pv x)) = Some (rp_pv x)"
  shows "\<exists>r'. replay_ticks shw parse n (e, r) =
      Ok (fst (engine_run e (map sample_tick (take n (drop (rp_next_index r) (rp_samples r))))), r') \<and>
    rp_next_index r' = rp_next_index r + n \<and> rp_samples r' = rp_samples r \<and>
    rp_pv_tag r' = rp_pv_tag r \<and> rp_mv_tag r' = rp_mv_tag r \<and>
    rp_writes r' = rp_writes r @ map (\<lambda>v. \<lparr> rw_tag = rp_mv_tag r, rw_value = v \<rparr>)
      (mv_writes (snd (engine_run e (map sample_tick (take n (drop (rp_next_index r) (rp_samples r)))))))"
  using assms
proof (induction n arbitrary: e r)
  case (Suc n)
  let ?i = "rp_next_index r"
  have i: "?i < length (rp_samples r)" using Suc.prems(1) by simp
  obtain e' as where st: "engine_step e (sample_tick (rp_samples r ! ?i)) = (e', as)" by fastforce
  let ?r1 = "write_commands parse (mv_writes as) (r\<lparr>rp_next_index := ?i + 1\<rparr>)"
  have t: "replay_tick shw parse (e, r) = Ok (e', ?r1)"
    by (rule replay_tick_step[OF i _ st]) (use Suc.prems(2) i in simp)
  have d: "take (Suc n) (drop ?i (rp_samples r)) =
      rp_samples r ! ?i # take n (drop (Suc ?i) (rp_samples r))"
    using i by (simp add: Cons_nth_drop_Suc[symmetric])
  from Suc.IH[of ?r1 e'] Suc.prems obtain r' where r': "replay_ticks shw parse n (e', ?r1) =
      Ok (fst (engine_run e' (map sample_tick (take n (drop (Suc ?i) (rp_samples r))))), r')"
    "rp_next_index r' = Suc ?i + n" "rp_samples r' = rp_samples r"
    "rp_pv_tag r' = rp_pv_tag r" "rp_mv_tag r' = rp_mv_tag r"
    "rp_writes r' = rp_writes ?r1 @ map (\<lambda>v. \<lparr> rw_tag = rp_mv_tag r, rw_value = v \<rparr>)
      (mv_writes (snd (engine_run e' (map sample_tick (take n (drop (Suc ?i) (rp_samples r)))))))"
    by (auto simp: write_commands_fields)
  show ?case unfolding d using r' t st by (simp add: write_commands_fields split_beta Let_def)
qed simp

text \<open>C12: Driving the engine through the replay driver is driving the engine on the trace: when the text
  form of the recorded values parses back, every prefix of the trace takes the engine to the state
  the pure run reaches, the driver has recorded exactly the commands of that run in order, and
  reading past the end is the exhausted-trace error with its two numbers, without a further tick.\<close>

theorem replay_is_the_engine:
  assumes "n \<le> length xs" and "\<forall>x \<in> set xs. parse (shw (rp_pv x)) = Some (rp_pv x)"
  shows "\<exists>r. replay_ticks shw parse n (e, replay_new pvt mvt xs mv) =
      Ok (fst (engine_run e (map sample_tick (take n xs))), r) \<and>
    rp_writes r = map (\<lambda>v. \<lparr> rw_tag = mvt, rw_value = v \<rparr>)
      (mv_writes (snd (engine_run e (map sample_tick (take n xs))))) \<and>
    replay_remaining r = length xs - n \<and>
    (n = length xs \<longrightarrow> snd (replay_read shw [pvt] r) = Err (Operation (TraceExhausted (length xs) (n + 1))))"
proof -
  obtain r0 where r0: "r0 = replay_new pvt mvt xs mv" by blast
  have f: "rp_next_index r0 = 0" "rp_samples r0 = xs" "rp_pv_tag r0 = pvt" "rp_mv_tag r0 = mvt"
    "rp_writes r0 = []" by (simp_all add: r0 replay_new_def)
  have "rp_next_index r0 + n \<le> length (rp_samples r0)"
    "\<forall>x \<in> set (rp_samples r0). parse (shw (rp_pv x)) = Some (rp_pv x)" using assms f by simp_all
  from replay_ticks_run[OF this, of e] obtain r where
    r: "replay_ticks shw parse n (e, r0) = Ok (fst (engine_run e (map sample_tick (take n xs))), r)"
    "rp_next_index r = n" "rp_samples r = xs" "rp_pv_tag r = pvt" "rp_mv_tag r = mvt"
    "rp_writes r = map (\<lambda>v. \<lparr> rw_tag = mvt, rw_value = v \<rparr>)
      (mv_writes (snd (engine_run e (map sample_tick (take n xs)))))"
    unfolding f by auto
  show ?thesis
    by (intro exI[of _ r] conjI impI) (simp_all add: r0[symmetric] r replay_remaining_def)
qed

definition demo_show :: "f32 \<Rightarrow> string" where
  "demo_show x = (if x = Fin 48 then ''48'' else ''52'')"
definition demo_parse :: "string \<Rightarrow> f32 option" where
  "demo_parse t = (if t = ''48'' then Some (Fin 48) else if t = ''52'' then Some (Fin 52) else None)"
definition demo_samples :: "replay_sample list" where
  "demo_samples = map (\<lambda>t. \<lparr> rp_time = tk_time t, rp_pv = tk_pv t \<rparr>) demo_ticks"

theorem replay_is_the_engine_witness:
  "\<exists>e r. replay_ticks demo_show demo_parse 4 (demo_engine, replay_new ''PV'' ''MV'' demo_samples (Fin 50))
      = Ok (e, r) \<and> map rw_value (rp_writes r) = [Fin 60, Fin 40, Fin 50]"
proof -
  have s: "4 \<le> length demo_samples" "\<forall>x \<in> set demo_samples. demo_parse (demo_show (rp_pv x)) = Some (rp_pv x)"
    by (simp_all add: demo_samples_def demo_ticks_def demo_parse_def demo_show_def)
  have t: "map sample_tick (take 4 demo_samples) = demo_ticks"
    by (simp add: demo_samples_def demo_ticks_def)
  have w: "mv_writes (snd (engine_run demo_engine demo_ticks)) = [Fin 60, Fin 40, Fin 50]"
    by (subst demo_run(1)) simp
  from replay_is_the_engine[OF s, of demo_engine "''PV''" "''MV''" "Fin 50"] obtain r where
    r: "replay_ticks demo_show demo_parse 4 (demo_engine, replay_new ''PV'' ''MV'' demo_samples (Fin 50))
      = Ok (fst (engine_run demo_engine demo_ticks), r)"
    and wr: "rp_writes r = map (\<lambda>v. \<lparr> rw_tag = ''MV'', rw_value = v \<rparr>) [Fin 60, Fin 40, Fin 50]"
    unfolding t w by blast
  have "map rw_value (rp_writes r) = [Fin 60, Fin 40, Fin 50]" by (simp add: wr)
  with r show ?thesis by (intro exI conjI)
qed

end
