(* ===== verification/Quality.thy ===== *)
theory Quality
  imports Driver Db_Actuations
begin

text \<open>
  Reading and writing tags for a tune (\<open>bhtune-runtime/src/tune/quality.rs\<close>), the outcomes of a
  run (\<open>tune/outcome.rs\<close>) and the errors the runtime crate raises.  A driver is the pair of its
  read and write functions; the parser of numbers is a parameter.  Error values carry the data
  their messages interpolate.
\<close>

section \<open>Errors\<close>

datatype run_error =
  EDriver driver_error
| EDb db_error
| ENoValue string
| ENotANumber string string
| ENotFinite string string
| EValueNotFinite f32
| EUncertain string
| EBad string
| ERejected string string
| EStepTooSmall f32 f32
| EPvRange range_error
| EMvRange range_error
| EMvOutside f32 f32 f32
| ETimeRange
| EInvariant string

section \<open>Quality\<close>

definition check_quality :: "string \<Rightarrow> quality \<Rightarrow> bool \<Rightarrow> (run_error, unit) result" where
  "check_quality tag q allow_uncertain =
     (case q of
        Good \<Rightarrow> Ok ()
      | Uncertain \<Rightarrow> if allow_uncertain then Ok () else Err (EUncertain tag)
      | Bad \<Rightarrow> Err (EBad tag))"

definition sample_quality_from_driver :: "quality \<Rightarrow> sample_quality" where
  "sample_quality_from_driver q = (case q of Good \<Rightarrow> SGood | Uncertain \<Rightarrow> SUncertain | Bad \<Rightarrow> SBad)"

section \<open>Reads\<close>

type_synonym 'd get = "string list \<Rightarrow> 'd \<Rightarrow> 'd \<times> (driver_error, tag_value list) result"
type_synonym 'd put = "string \<Rightarrow> tag_write \<Rightarrow> 'd \<Rightarrow> 'd \<times> (driver_error, write_outcome) result"

definition parse_f32_value :: "(string \<Rightarrow> f32 option) \<Rightarrow> string \<Rightarrow> string \<Rightarrow> (run_error, f32) result" where
  "parse_f32_value parse tag raw =
     (case parse (trim raw) of
        None \<Rightarrow> Err (ENotANumber tag raw)
      | Some v \<Rightarrow> if is_finite v then Ok v else Err (ENotFinite tag raw))"

definition first_value :: "string \<Rightarrow> (driver_error, tag_value list) result \<Rightarrow> (run_error, tag_value) result" where
  "first_value tag r =
     (case r of Inl e \<Rightarrow> Err (EDriver e) | Inr [] \<Rightarrow> Err (ENoValue tag) | Inr (v # _) \<Rightarrow> Ok v)"

definition read_raw :: "'d get \<Rightarrow> string \<Rightarrow> bool \<Rightarrow> 'd \<Rightarrow> 'd \<times> (run_error, string) result" where
  "read_raw get tag allow d =
     (let (d', r) = get [tag] d
      in (d', bind_result (first_value tag r) (\<lambda>v.
              bind_result (check_quality tag (tv_quality v) allow) (\<lambda>_. Ok (tv_value v)))))"

definition read_f32 ::
  "(string \<Rightarrow> f32 option) \<Rightarrow> 'd get \<Rightarrow> string \<Rightarrow> bool \<Rightarrow> 'd \<Rightarrow> 'd \<times> (run_error, f32) result" where
  "read_f32 parse get tag allow d =
     (let (d', r) = read_raw get tag allow d in (d', bind_result r (parse_f32_value parse tag)))"

definition resolve_f32 ::
  "(string \<Rightarrow> f32 option) \<Rightarrow> 'd get \<Rightarrow> f32 tag_or_value \<Rightarrow> bool \<Rightarrow> 'd \<Rightarrow> 'd \<times> (run_error, f32) result" where
  "resolve_f32 parse get tov allow d =
     (case tov of
        Value v \<Rightarrow> (d, if is_finite v then Ok v else Err (EValueNotFinite v))
      | Tag t \<Rightarrow> read_f32 parse get t allow d)"

definition resolve_direction ::
  "'d get \<Rightarrow> controller_direction tag_or_value \<Rightarrow> dcs_template \<Rightarrow> bool \<Rightarrow> 'd
   \<Rightarrow> 'd \<times> (run_error, controller_direction) result" where
  "resolve_direction get tov tmpl allow d =
     (case tov of
        Value v \<Rightarrow> (d, Ok v)
      | Tag t \<Rightarrow> (let (d', r) = read_raw get t allow d
                in (d', bind_result r (\<lambda>raw.
                      Ok (from_raw_tag_value raw (t_controller_action_direct_value tmpl))))))"

text \<open>A batch collected into a hash map: of two values of one tag the later stays.\<close>

type_synonym batch = "string \<rightharpoonup> tag_value"

definition batch_of :: "tag_value list \<Rightarrow> batch" where
  "batch_of vs = map_of (rev (map (\<lambda>v. (tv_tag v, v)) vs))"

definition read_batch_raw :: "batch \<Rightarrow> string \<Rightarrow> bool \<Rightarrow> (run_error, string) result" where
  "read_batch_raw b tag allow =
     (case b tag of
        None \<Rightarrow> Err (ENoValue tag)
      | Some v \<Rightarrow> bind_result (check_quality tag (tv_quality v) allow) (\<lambda>_. Ok (tv_value v)))"

definition read_batch_f32 ::
  "(string \<Rightarrow> f32 option) \<Rightarrow> batch \<Rightarrow> string \<Rightarrow> bool \<Rightarrow> (run_error, f32) result" where
  "read_batch_f32 parse b tag allow = bind_result (read_batch_raw b tag allow) (parse_f32_value parse tag)"

definition resolve_f32_from_batch ::
  "(string \<Rightarrow> f32 option) \<Rightarrow> 'd get \<Rightarrow> batch \<Rightarrow> f32 tag_or_value \<Rightarrow> bool \<Rightarrow> 'd \<Rightarrow> 'd \<times> (run_error, f32) result" where
  "resolve_f32_from_batch parse get b tov allow d =
     (case tov of
        Value v \<Rightarrow> resolve_f32 parse get tov allow d
      | Tag t \<Rightarrow> (d, read_batch_f32 parse b t allow))"

definition resolve_direction_from_batch ::
  "'d get \<Rightarrow> batch \<Rightarrow> controller_direction tag_or_value \<Rightarrow> dcs_template \<Rightarrow> bool \<Rightarrow> 'd
   \<Rightarrow> 'd \<times> (run_error, controller_direction) result" where
  "resolve_direction_from_batch get b tov tmpl allow d =
     (case tov of
        Value v \<Rightarrow> resolve_direction get tov tmpl allow d
      | Tag t \<Rightarrow> (d, bind_result (read_batch_raw b t allow) (\<lambda>raw.
                    Ok (from_raw_tag_value raw (t_controller_action_direct_value tmpl)))))"

definition read_numeric_sample ::
  "(string \<Rightarrow> f32 option) \<Rightarrow> 'd get \<Rightarrow> string \<Rightarrow> 'd \<Rightarrow> 'd \<times> (run_error, f32 \<times> quality) result" where
  "read_numeric_sample parse get tag d =
     (let (d', r) = get [tag] d
      in (d', bind_result (first_value tag r) (\<lambda>v.
              bind_result (parse_f32_value parse tag (tv_value v)) (\<lambda>x. Ok (x, tv_quality v)))))"

definition poll_tags :: "string \<Rightarrow> string option \<Rightarrow> string list" where
  "poll_tags pv mv = (case mv of Some m \<Rightarrow> if m \<noteq> pv then [pv, m] else [pv] | None \<Rightarrow> [pv])"

definition read_poll_batch ::
  "'d get \<Rightarrow> string \<Rightarrow> string option \<Rightarrow> 'd \<Rightarrow> 'd \<times> (run_error, batch) result" where
  "read_poll_batch get pv mv d =
     (let (d', r) = get (poll_tags pv mv) d
      in (d', bind_result (map_err EDriver r) (\<lambda>vs. Ok (batch_of vs))))"

definition read_numeric_from_batch ::
  "(string \<Rightarrow> f32 option) \<Rightarrow> batch \<Rightarrow> string \<Rightarrow> (run_error, f32 \<times> quality) result" where
  "read_numeric_from_batch parse b tag =
     (case b tag of
        None \<Rightarrow> Err (ENoValue tag)
      | Some v \<Rightarrow> bind_result (parse_f32_value parse tag (tv_value v)) (\<lambda>x. Ok (x, tv_quality v)))"

section \<open>Writes\<close>

definition write_result :: "string \<Rightarrow> (driver_error, write_outcome) result \<Rightarrow> (run_error, unit) result" where
  "write_result tag r =
     (case r of
        Inl e \<Rightarrow> Err (EDriver e)
      | Inr w \<Rightarrow> if wo_success w then Ok ()
                 else Err (ERejected tag (case wo_error_message w of Some m \<Rightarrow> m | None \<Rightarrow> ''unknown reason'')))"

definition write_raw :: "'d put \<Rightarrow> string \<Rightarrow> string \<Rightarrow> 'd \<Rightarrow> 'd \<times> (run_error, unit) result" where
  "write_raw put tag v d = (let (d', r) = put tag (WRaw v) d in (d', write_result tag r))"

definition write_value :: "'d put \<Rightarrow> string \<Rightarrow> f32 \<Rightarrow> 'd \<Rightarrow> 'd \<times> (run_error, unit) result" where
  "write_value put tag v d = (let (d', r) = put tag (WFloat v) d in (d', write_result tag r))"

section \<open>Outcomes of a run\<close>

datatype tune_exit = TCompleted | TAborted | TTimedOut | TPoorQuality | TActuationFailed | TWriteBackFailed | TRestoreIncomplete

fun exit_label :: "tune_exit \<Rightarrow> string" where
  "exit_label TCompleted = ''completed''"
| "exit_label TAborted = ''aborted''"
| "exit_label TTimedOut = ''timed_out''"
| "exit_label TPoorQuality = ''poor_quality''"
| "exit_label TActuationFailed = ''actuation_failed''"
| "exit_label TWriteBackFailed = ''write_back_failed''"
| "exit_label TRestoreIncomplete = ''restore_incomplete''"

datatype write_back_outcome = WbSkipped | WbWritten response_level | WbFailed

datatype abort_reason =
  UserInterrupt
| Timeout nat
| OperationTimedOut string nat
| PoorQuality string quality
| MvActuationUnconfirmed string f32 "f32 option" f32 nat nat

datatype run_outcome =
  RoCompleted write_back_outcome "string option"
| RoAborted abort_reason
| RoRestoreIncomplete string

fun tune_outcome_for_run :: "run_outcome \<Rightarrow> tune_exit" where
  "tune_outcome_for_run (RoCompleted WbFailed _) = TWriteBackFailed"
| "tune_outcome_for_run (RoCompleted _ _) = TCompleted"
| "tune_outcome_for_run (RoAborted UserInterrupt) = TAborted"
| "tune_outcome_for_run (RoAborted (Timeout _)) = TTimedOut"
| "tune_outcome_for_run (RoAborted (OperationTimedOut _ _)) = TTimedOut"
| "tune_outcome_for_run (RoAborted (PoorQuality _ _)) = TPoorQuality"
| "tune_outcome_for_run (RoAborted (MvActuationUnconfirmed _ _ _ _ _ _)) = TActuationFailed"
| "tune_outcome_for_run (RoRestoreIncomplete _) = TRestoreIncomplete"

section \<open>Reading in batches\<close>

lemma check_quality_Ok: "check_quality t q a = Ok u \<longleftrightarrow> q = Good \<or> q = Uncertain \<and> a"
  by (cases q) (auto simp: check_quality_def)

lemma parse_finite: "parse_f32_value parse t raw = Ok v \<Longrightarrow> is_finite v"
  by (auto simp: parse_f32_value_def split: option.splits if_splits)

lemma batch_covers:
  assumes "map tv_tag vs = tags" and "t \<in> set tags"
  shows "\<exists>v. batch_of vs t = Some v \<and> tv_tag v = t"
proof -
  have "t \<in> fst ` set (rev (map (\<lambda>v. (tv_tag v, v)) vs))"
    using assms by (force simp: image_image)
  then obtain v where v: "batch_of vs t = Some v"
    unfolding batch_of_def by (metis map_of_eq_None_iff not_Some_eq)
  then have "(t, v) \<in> set (rev (map (\<lambda>v. (tv_tag v, v)) vs))"
    unfolding batch_of_def by (rule map_of_SomeD)
  then show ?thesis using v by auto
qed

context tag_driver
begin

text \<open>A poll that succeeded holds a value of the PV tag, and of the MV tag when it was asked for.\<close>

lemma poll_covers:
  assumes "read_poll_batch get pv mv d = (d', Ok b)"
  shows "\<exists>v. b pv = Some v" and "mv = Some m \<Longrightarrow> \<exists>v. b m = Some v"
proof -
  obtain vs where vs: "snd (get (poll_tags pv mv) d) = Ok vs" "b = batch_of vs"
    using assms unfolding read_poll_batch_def
    by (cases "get (poll_tags pv mv) d"; cases "snd (get (poll_tags pv mv) d)") auto
  note c = batch_covers[OF in_order[OF vs(1)]]
  have "pv \<in> set (poll_tags pv mv)" by (auto simp: poll_tags_def split: option.splits)
  from c[OF this] show "\<exists>v. b pv = Some v" using vs(2) by blast
  assume "mv = Some m"
  then have "m \<in> set (poll_tags pv mv)" by (auto simp: poll_tags_def)
  from c[OF this] show "\<exists>v. b m = Some v" using vs(2) by blast
qed

end

end
