(* ===== verification/Request.thy ===== *)
theory Request
  imports Quality
begin

text \<open>
  What a tune is asked for and how it is timed: the request and its validation
  (\<open>tune/request.rs\<close>), the tuning section of the configuration (\<open>config/tuning.rs\<close>), the loop
  configuration and tags built from a request (\<open>tune/config.rs\<close>) and the choice of the driver
  (\<open>driver.rs\<close>), all in \<open>bhtune-runtime/src\<close>.  A \<open>u64\<close> is a natural number here: the values are
  compared and turned into durations only.
\<close>

section \<open>Requests\<close>

definition DEFAULT_SIM_GAIN :: f32 where "DEFAULT_SIM_GAIN = lit32 1"
definition DEFAULT_SIM_TAU :: f32 where "DEFAULT_SIM_TAU = lit32 2"
definition DEFAULT_SIM_DEAD_TIME :: f32 where "DEFAULT_SIM_DEAD_TIME = lit32 5"
definition DEFAULT_SIM_NOISE :: f32 where "DEFAULT_SIM_NOISE = Fin 0"
definition DEFAULT_SIM_INITIAL_VALUE :: f32 where "DEFAULT_SIM_INITIAL_VALUE = lit32 50"

datatype driver_kind = OpcdaKind | SimulatorKind

fun driver_kind_to_db :: "driver_kind \<Rightarrow> tune_driver" where
  "driver_kind_to_db OpcdaKind = Opcda"
| "driver_kind_to_db SimulatorKind = Simulator"

fun driver_kind_from_db :: "tune_driver \<Rightarrow> (unit, driver_kind) result" where
  "driver_kind_from_db Opcda = Ok OpcdaKind"
| "driver_kind_from_db Simulator = Ok SimulatorKind"
| "driver_kind_from_db Replay = Err ()"

datatype request_error =
  FieldNotFinite string f32
| CountZero string
| BadOverrides tag_overrides_error

definition validate_finite_f32 :: "string \<Rightarrow> f32 \<Rightarrow> (request_error, unit) result" where
  "validate_finite_f32 field v = (if is_finite v then Ok () else Err (FieldNotFinite field v))"

definition validate_positive_u32 :: "string \<Rightarrow> u32 \<Rightarrow> (request_error, unit) result" where
  "validate_positive_u32 field v = (if 0 < v then Ok () else Err (CountZero field))"

record tune_request =
  q_tagname :: string
  q_template :: string
  q_process_type :: process_type
  q_controller_type :: controller_type
  q_relay_amp :: f32
  q_cycles_skip :: "u32 option"
  q_cycles_count :: "u32 option"
  q_noise_protection_secs :: "u32 option"
  q_driver :: driver_kind
  q_bridge_host :: "string option"
  q_server :: "string option"
  q_sim_gain :: f32
  q_sim_tau :: f32
  q_sim_dead_time :: f32
  q_sim_noise :: f32
  q_sim_seed :: nat
  q_sim_initial_pv :: f32
  q_sim_initial_mv :: f32
  q_pv_range_high :: "f32 option"
  q_pv_range_low :: "f32 option"
  q_mv_range_high :: "f32 option"
  q_mv_range_low :: "f32 option"
  q_direction :: "controller_direction option"
  q_tag_overrides :: "tag_overrides option"
  q_notes :: "string option"
  q_yes :: bool
  q_write_pid :: "response_level option"

fun each_ok :: "('a \<Rightarrow> ('e, unit) result) \<Rightarrow> 'a list \<Rightarrow> ('e, unit) result" where
  "each_ok f [] = Ok ()"
| "each_ok f (x # xs) = bind_result (f x) (\<lambda>_. each_ok f xs)"

definition request_scalars :: "tune_request \<Rightarrow> (string \<times> f32) list" where
  "request_scalars q =
     [(''relay_amp'', q_relay_amp q), (''sim_gain'', q_sim_gain q), (''sim_tau'', q_sim_tau q),
      (''sim_dead_time'', q_sim_dead_time q), (''sim_noise'', q_sim_noise q),
      (''sim_initial_pv'', q_sim_initial_pv q), (''sim_initial_mv'', q_sim_initial_mv q)]"

definition request_ranges :: "tune_request \<Rightarrow> (string \<times> f32 option) list" where
  "request_ranges q =
     [(''pv_range_high'', q_pv_range_high q), (''pv_range_low'', q_pv_range_low q),
      (''mv_range_high'', q_mv_range_high q), (''mv_range_low'', q_mv_range_low q)]"

text \<open>\<open>ValidatedTuneRequest::try_from\<close>: the validated request is the request itself.\<close>

definition validate_request :: "tune_request \<Rightarrow> (request_error, tune_request) result" where
  "validate_request q =
     bind_result (each_ok (\<lambda>(f, v). validate_finite_f32 f v) (request_scalars q)) (\<lambda>_.
     bind_result (each_ok (\<lambda>(f, v). case v of None \<Rightarrow> Ok () | Some x \<Rightarrow> validate_finite_f32 f x)
                    (request_ranges q)) (\<lambda>_.
     bind_result (case q_cycles_count q of None \<Rightarrow> Ok () | Some n \<Rightarrow> validate_positive_u32 ''cycles count'' n) (\<lambda>_.
     bind_result (case q_tag_overrides q of None \<Rightarrow> Ok ()
                  | Some ov \<Rightarrow> map_err BadOverrides (overrides_validate ov)) (\<lambda>_.
     Ok q))))"

section \<open>The tuning section of the configuration\<close>

definition DEFAULT_TUNING_MRFT_DELAY_SECS :: u32 where "DEFAULT_TUNING_MRFT_DELAY_SECS = 0"
definition DEFAULT_TUNING_POLL_INTERVAL_MS :: nat where "DEFAULT_TUNING_POLL_INTERVAL_MS = 800"
definition DEFAULT_TUNING_TIMEOUT_SECS :: nat where "DEFAULT_TUNING_TIMEOUT_SECS = 3600"
definition DEFAULT_TUNING_OP_TIMEOUT_SECS :: nat where "DEFAULT_TUNING_OP_TIMEOUT_SECS = 30"
definition DEFAULT_TUNING_RESTORE_TIMEOUT_SECS :: nat where "DEFAULT_TUNING_RESTORE_TIMEOUT_SECS = 30"
definition MAX_TUNING_MRFT_DELAY_SECS :: u32 where "MAX_TUNING_MRFT_DELAY_SECS = 3600"
definition MIN_OPC_RESTORE_TIMEOUT_SECS :: nat where "MIN_OPC_RESTORE_TIMEOUT_SECS = 4"

record tuning_config =
  c_mrft_delay_secs :: "u32 option"
  c_poll_interval_ms :: "nat option"
  c_timeout_secs :: "nat option"
  c_op_timeout_secs :: "nat option"
  c_restore_timeout_secs :: "nat option"

record effective_tuning_config =
  e_mrft_delay_secs :: u32
  e_poll_interval_ms :: nat
  e_timeout_secs :: nat
  e_op_timeout_secs :: nat
  e_restore_timeout_secs :: nat

definition effective_tuning_default :: effective_tuning_config where
  "effective_tuning_default =
     \<lparr> e_mrft_delay_secs = DEFAULT_TUNING_MRFT_DELAY_SECS,
       e_poll_interval_ms = DEFAULT_TUNING_POLL_INTERVAL_MS,
       e_timeout_secs = DEFAULT_TUNING_TIMEOUT_SECS,
       e_op_timeout_secs = DEFAULT_TUNING_OP_TIMEOUT_SECS,
       e_restore_timeout_secs = DEFAULT_TUNING_RESTORE_TIMEOUT_SECS \<rparr>"

datatype tuning_config_source = Toml | BuiltInDefault

record tuning_config_sources =
  s_mrft_delay_secs :: tuning_config_source
  s_poll_interval_ms :: tuning_config_source
  s_timeout_secs :: tuning_config_source
  s_op_timeout_secs :: tuning_config_source
  s_restore_timeout_secs :: tuning_config_source

datatype tuning_config_error =
  MrftDelayTooLarge u32
| PollIntervalTooSmall nat
| TimeoutTooSmall nat
| OpTimeoutTooSmall nat
| RestoreTimeoutTooSmall nat nat

definition unwrap_or :: "'a option \<Rightarrow> 'a \<Rightarrow> 'a" where
  "unwrap_or x d = (case x of Some y \<Rightarrow> y | None \<Rightarrow> d)"

definition resolve_tuning_config :: "tuning_config \<Rightarrow> effective_tuning_config" where
  "resolve_tuning_config c =
     \<lparr> e_mrft_delay_secs = unwrap_or (c_mrft_delay_secs c) DEFAULT_TUNING_MRFT_DELAY_SECS,
       e_poll_interval_ms = unwrap_or (c_poll_interval_ms c) DEFAULT_TUNING_POLL_INTERVAL_MS,
       e_timeout_secs = unwrap_or (c_timeout_secs c) DEFAULT_TUNING_TIMEOUT_SECS,
       e_op_timeout_secs = unwrap_or (c_op_timeout_secs c) DEFAULT_TUNING_OP_TIMEOUT_SECS,
       e_restore_timeout_secs = unwrap_or (c_restore_timeout_secs c) DEFAULT_TUNING_RESTORE_TIMEOUT_SECS \<rparr>"

definition config_source :: "'a option \<Rightarrow> tuning_config_source" where
  "config_source v = (if v \<noteq> None then Toml else BuiltInDefault)"

definition tuning_config_sources_of :: "tuning_config \<Rightarrow> tuning_config_sources" where
  "tuning_config_sources_of c =
     \<lparr> s_mrft_delay_secs = config_source (c_mrft_delay_secs c),
       s_poll_interval_ms = config_source (c_poll_interval_ms c),
       s_timeout_secs = config_source (c_timeout_secs c),
       s_op_timeout_secs = config_source (c_op_timeout_secs c),
       s_restore_timeout_secs = config_source (c_restore_timeout_secs c) \<rparr>"

definition validate_tuning_config :: "effective_tuning_config \<Rightarrow> bool \<Rightarrow> (tuning_config_error, unit) result" where
  "validate_tuning_config c opc =
     (if MAX_TUNING_MRFT_DELAY_SECS < e_mrft_delay_secs c then Err (MrftDelayTooLarge (e_mrft_delay_secs c))
      else if e_poll_interval_ms c = 0 then Err (PollIntervalTooSmall (e_poll_interval_ms c))
      else if e_timeout_secs c = 0 then Err (TimeoutTooSmall (e_timeout_secs c))
      else if e_op_timeout_secs c = 0 then Err (OpTimeoutTooSmall (e_op_timeout_secs c))
      else (let minimum = if opc then MIN_OPC_RESTORE_TIMEOUT_SECS else 1
            in if e_restore_timeout_secs c < minimum
               then Err (RestoreTimeoutTooSmall (e_restore_timeout_secs c) minimum)
               else Ok ()))"

definition resolve_and_validate_tuning_config ::
  "tuning_config \<Rightarrow> bool \<Rightarrow> (tuning_config_error, effective_tuning_config) result" where
  "resolve_and_validate_tuning_config c opc =
     bind_result (validate_tuning_config (resolve_tuning_config c) opc) (\<lambda>_. Ok (resolve_tuning_config c))"

section \<open>Timing of a run\<close>

record effective_timing =
  f_mrft_delay_secs :: u32
  f_poll_interval_ms :: nat
  f_timeout_secs :: nat
  f_op_timeout_secs :: nat
  f_restore_timeout_secs :: nat

definition timing_of_config :: "effective_tuning_config \<Rightarrow> effective_timing" where
  "timing_of_config c =
     \<lparr> f_mrft_delay_secs = e_mrft_delay_secs c, f_poll_interval_ms = e_poll_interval_ms c,
       f_timeout_secs = e_timeout_secs c, f_op_timeout_secs = e_op_timeout_secs c,
       f_restore_timeout_secs = e_restore_timeout_secs c \<rparr>"

definition timing_to_db :: "effective_timing \<Rightarrow> effective_tuning" where
  "timing_to_db t =
     \<lparr> et_mrft_delay_secs = f_mrft_delay_secs t, et_poll_interval_ms = f_poll_interval_ms t,
       et_timeout_secs = f_timeout_secs t, et_op_timeout_secs = f_op_timeout_secs t,
       et_restore_timeout_secs = f_restore_timeout_secs t \<rparr>"

datatype config_error =
  RestoreTimeoutZero
| RestoreTimeoutBelow nat
| ControllerNotAllowed controller_type process_type
| BadLoopConfig loop_config_error
| Missing string

definition validate_restore_timeout_secs :: "driver_kind \<Rightarrow> nat \<Rightarrow> (config_error, unit) result" where
  "validate_restore_timeout_secs k secs =
     (if secs = 0 then Err RestoreTimeoutZero
      else if k = OpcdaKind \<and> secs < MIN_OPC_RESTORE_TIMEOUT_SECS
      then Err (RestoreTimeoutBelow MIN_OPC_RESTORE_TIMEOUT_SECS)
      else Ok ())"

definition build_loop_config_with_timing ::
  "tune_request \<Rightarrow> effective_timing \<Rightarrow> (config_error, loop_config) result" where
  "build_loop_config_with_timing q t =
     (let p = q_process_type q; c = q_controller_type q
      in if \<not> is_allowed_for c p then Err (ControllerNotAllowed c p)
         else (let config =
                 \<lparr> lc_process_type = p, lc_controller_type = c, lc_relay_amp_percent = q_relay_amp q,
                   lc_num_cycles_skip = unwrap_or (q_cycles_skip q) (default_cycles_skip p),
                   lc_num_cycles_count = unwrap_or (q_cycles_count q) (default_cycles_test p),
                   lc_noise_protection_secs =
                     unwrap_or (q_noise_protection_secs q) (default_noise_protection_secs p),
                   lc_mrft_delay_secs = f_mrft_delay_secs t \<rparr>
               in bind_result (map_err BadLoopConfig (loop_config_validate config)) (\<lambda>_. Ok config)))"

definition SIMULATOR_PV_TAG :: string where "SIMULATOR_PV_TAG = ''Sim.PV''"
definition SIMULATOR_MV_TAG :: string where "SIMULATOR_MV_TAG = ''Sim.MV''"

definition fixed_or :: "'a tag_or_value \<Rightarrow> 'a option \<Rightarrow> 'a tag_or_value" where
  "fixed_or t v = (case v of Some x \<Rightarrow> Value x | None \<Rightarrow> t)"

definition required :: "string \<Rightarrow> 'a option \<Rightarrow> (config_error, 'a) result" where
  "required flag v = (case v of Some x \<Rightarrow> Ok x | None \<Rightarrow> Err (Missing flag))"

definition opcda_loop_tags :: "tune_request \<Rightarrow> dcs_template \<Rightarrow> loop_tags" where
  "opcda_loop_tags q tmpl =
     (let derived = derive_from_pv_tag (q_tagname q) tmpl;
          g = (case q_tag_overrides q of Some ov \<Rightarrow> apply_to ov derived | None \<Rightarrow> derived)
      in g\<lparr>g_upper_pv_range := fixed_or (g_upper_pv_range g) (q_pv_range_high q),
           g_lower_pv_range := fixed_or (g_lower_pv_range g) (q_pv_range_low q),
           g_upper_mv_range := fixed_or (g_upper_mv_range g) (q_mv_range_high q),
           g_lower_mv_range := fixed_or (g_lower_mv_range g) (q_mv_range_low q),
           g_controller_direction := fixed_or (g_controller_direction g) (q_direction q)\<rparr>)"

definition simulator_loop_tags :: "tune_request \<Rightarrow> (config_error, loop_tags) result" where
  "simulator_loop_tags q =
     bind_result (required ''--pv-range-high'' (q_pv_range_high q)) (\<lambda>ph.
     bind_result (required ''--pv-range-low'' (q_pv_range_low q)) (\<lambda>pl.
     bind_result (required ''--mv-range-high'' (q_mv_range_high q)) (\<lambda>mh.
     bind_result (required ''--mv-range-low'' (q_mv_range_low q)) (\<lambda>ml.
     bind_result (required ''--direction'' (q_direction q)) (\<lambda>d.
       Ok \<lparr> g_process_variable = SIMULATOR_PV_TAG, g_manipulated_variable = SIMULATOR_MV_TAG,
            g_setpoint_variable = None, g_controller_mode = None, g_mode_attribute = None,
            g_upper_pv_range = Value ph, g_lower_pv_range = Value pl,
            g_upper_mv_range = Value mh, g_lower_mv_range = Value ml,
            g_controller_direction = Value d, g_proportional_constant = None,
            g_integral_constant = None, g_derivative_constant = None \<rparr>)))))"

definition build_loop_tags :: "tune_request \<Rightarrow> dcs_template \<Rightarrow> (config_error, loop_tags) result" where
  "build_loop_tags q tmpl =
     (case q_driver q of
        OpcdaKind \<Rightarrow> Ok (opcda_loop_tags q tmpl)
      | SimulatorKind \<Rightarrow> simulator_loop_tags q)"

section \<open>The driver of a request\<close>

text \<open>Connecting to a gateway is a parameter: it answers with the state of a connected driver.
  Seeding the random generator is one too.\<close>

definition DEFAULT_BRIDGE_HOST :: string where "DEFAULT_BRIDGE_HOST = ''localhost:7600''"

definition poll_interval_secs :: "nat \<Rightarrow> f32" where
  "poll_interval_secs ms = fl_div B32 (fl_round B32 False (of_nat ms)) (lit32 1000)"

definition build_with_poll_interval ::
  "(string \<Rightarrow> string \<Rightarrow> (driver_error, 'o) result) \<Rightarrow> (f32 \<Rightarrow> f32) \<Rightarrow> (nat \<Rightarrow> 'g)
   \<Rightarrow> tune_request \<Rightarrow> nat \<Rightarrow> (driver_error + config_error, 'o + 'g simulator) result" where
  "build_with_poll_interval connect exp32 seed_rng q ms =
     (case q_driver q of
        OpcdaKind \<Rightarrow>
          bind_result (map_err Inr (required ''--server'' (q_server q))) (\<lambda>server.
          bind_result (map_err Inl (connect (unwrap_or (q_bridge_host q) DEFAULT_BRIDGE_HOST) server)) (\<lambda>d.
          Ok (Inl d)))
      | SimulatorKind \<Rightarrow>
          Ok (Inr (simulator_new exp32 SIMULATOR_PV_TAG SIMULATOR_MV_TAG
            (with_noise_amplitude
               (fopdt_config_new (q_sim_gain q) (q_sim_tau q) (q_sim_dead_time q) (poll_interval_secs ms))
               (q_sim_noise q))
            (q_sim_initial_pv q) (q_sim_initial_mv q) (seed_rng (q_sim_seed q)))))"

end
