(* ===== verification/Timing.thy ===== *)
theory Timing
  imports Request
begin

text \<open>
  The clock of a run (\<open>bhtune-runtime/src/timing.rs\<close>): where the time stamps of the samples come
  from and the statistics kept of their spacing and of the driver's latency.

  An \<open>Instant\<close> counts nanoseconds from an arbitrary origin.  \<open>utc_max\<close>, the last time chrono
  represents, is an argument; \<open>TimeDelta::MAX\<close> is \<open>i64::MAX\<close> milliseconds.
\<close>

type_synonym instant = int

definition delta_max :: int where "delta_max = (2 ^ 63 - 1) * ns_per_ms"

definition duration_from_std :: "int \<Rightarrow> (run_error, int) result" where
  "duration_from_std d = (if d \<le> delta_max then Ok d else Err ETimeRange)"

definition saturating_since :: "instant \<Rightarrow> instant \<Rightarrow> int" where
  "saturating_since a b = max 0 (a - b)"

definition secs :: "nat \<Rightarrow> int" where "secs n = int n * ns_per_sec"
definition millis :: "nat \<Rightarrow> int" where "millis n = int n * ns_per_ms"

section \<open>Time stamps\<close>

record time_anchor =
  an_utc :: timestamp
  an_monotonic :: instant

datatype tick_time_source =
  LiveClock time_anchor
| FixedStep timestamp int

definition for_driver :: "driver_kind \<Rightarrow> time_anchor \<Rightarrow> nat \<Rightarrow> (run_error, tick_time_source) result" where
  "for_driver k a ms =
     (case k of
        OpcdaKind \<Rightarrow> Ok (LiveClock a)
      | SimulatorKind \<Rightarrow>
          bind_result (duration_from_std (millis (max ms 1))) (\<lambda>step. Ok (FixedStep (an_utc a) step)))"

definition project_elapsed :: "timestamp \<Rightarrow> time_anchor \<Rightarrow> int \<Rightarrow> (run_error, timestamp) result" where
  "project_elapsed utc_max a elapsed =
     bind_result (duration_from_std elapsed) (\<lambda>e.
       if an_utc a + e \<le> utc_max then Ok (an_utc a + e) else Err ETimeRange)"

fun next_timestamp_at ::
  "timestamp \<Rightarrow> instant \<Rightarrow> tick_time_source \<Rightarrow> tick_time_source \<times> (run_error, timestamp) result" where
  "next_timestamp_at utc_max now (LiveClock a) =
     (LiveClock a, if now < an_monotonic a then Err (EInvariant ''clock before the anchor'')
                   else project_elapsed utc_max a (now - an_monotonic a))"
| "next_timestamp_at utc_max now (FixedStep current step) =
     (if current + step \<le> utc_max then (FixedStep (current + step) step, Ok (current + step))
      else (FixedStep current step, Err ETimeRange))"

section \<open>Statistics\<close>

record duration_accumulator =
  da_count :: nat
  da_total_ms :: f64
  da_max_ms :: "f64 option"

definition duration_acc_default :: duration_accumulator where
  "duration_acc_default = \<lparr> da_count = 0, da_total_ms = Fin 0, da_max_ms = None \<rparr>"

definition as_secs_f64 :: "int \<Rightarrow> f64" where
  "as_secs_f64 d = fl_add B64 (fl_of_int B64 (d div ns_per_sec))
     (fl_div B64 (fl_of_int B64 (d mod ns_per_sec)) (fl_of_int B64 ns_per_sec))"

definition da_observe :: "int \<Rightarrow> duration_accumulator \<Rightarrow> duration_accumulator" where
  "da_observe d a =
     (let ms = fl_mul B64 (as_secs_f64 d) (lit64 1000)
      in \<lparr> da_count = min (da_count a + 1) (2 ^ 64 - 1), da_total_ms = fl_add B64 (da_total_ms a) ms,
           da_max_ms = Some (case da_max_ms a of None \<Rightarrow> ms | Some m \<Rightarrow> fl_max m ms) \<rparr>)"

definition da_finish :: "duration_accumulator \<Rightarrow> timing_summary" where
  "da_finish a =
     \<lparr> ts_count = da_count a,
       mean_ms = (if 0 < da_count a then Some (fl_div B64 (da_total_ms a) (fl_of_int B64 (int (da_count a)))) else None),
       max_ms = da_max_ms a \<rparr>"

definition da_is_empty :: "duration_accumulator \<Rightarrow> bool" where
  "da_is_empty a \<longleftrightarrow> da_count a = 0"

record latency_accumulator =
  la_pv_read :: duration_accumulator
  la_mv_write :: duration_accumulator
  la_mv_verification :: duration_accumulator
  la_sample_persist :: duration_accumulator
  la_tick_work :: duration_accumulator

definition latency_default :: latency_accumulator where
  "latency_default =
     \<lparr> la_pv_read = duration_acc_default, la_mv_write = duration_acc_default,
       la_mv_verification = duration_acc_default, la_sample_persist = duration_acc_default,
       la_tick_work = duration_acc_default \<rparr>"

definition latency_is_empty :: "latency_accumulator \<Rightarrow> bool" where
  "latency_is_empty l \<longleftrightarrow>
     da_is_empty (la_pv_read l) \<and> da_is_empty (la_mv_write l) \<and> da_is_empty (la_mv_verification l) \<and>
     da_is_empty (la_sample_persist l) \<and> da_is_empty (la_tick_work l)"

definition latency_finish :: "latency_accumulator \<Rightarrow> poll_latency_metrics" where
  "latency_finish l =
     \<lparr> pv_read = da_finish (la_pv_read l), mv_write = da_finish (la_mv_write l),
       mv_verification = da_finish (la_mv_verification l),
       sample_persist = da_finish (la_sample_persist l), tick_work = da_finish (la_tick_work l) \<rparr>"

record poll_timing =
  pt_basis :: timing_basis
  pt_requested_interval_ms :: nat
  pt_previous :: "timestamp option"
  pt_gap_count :: nat
  pt_total_gap_micros :: int
  pt_max_gap_micros :: int
  pt_missed :: nat
  pt_latency :: latency_accumulator

definition poll_timing_new :: "timing_basis \<Rightarrow> nat \<Rightarrow> poll_timing" where
  "poll_timing_new b ms =
     \<lparr> pt_basis = b, pt_requested_interval_ms = max ms 1, pt_previous = None, pt_gap_count = 0,
       pt_total_gap_micros = 0, pt_max_gap_micros = 0, pt_missed = 0, pt_latency = latency_default \<rparr>"

text \<open>\<open>TimeDelta::num_microseconds\<close>: whole microseconds toward zero, when they fit in an \<open>i64\<close>.\<close>

definition num_microseconds :: "int \<Rightarrow> int option" where
  "num_microseconds d =
     (let u = trunc_div d 1000 in if - (2 ^ 63) \<le> u \<and> u < 2 ^ 63 then Some u else None)"

definition observe_gap :: "int \<Rightarrow> poll_timing \<Rightarrow> poll_timing \<times> (run_error, unit) result" where
  "observe_gap gap p =
     (case num_microseconds gap of
        None \<Rightarrow> (p, Err ETimeRange)
      | Some u \<Rightarrow>
          if u < 0 then (p, Err (EInvariant ''sample timestamps moved backward''))
          else if pt_gap_count p + 1 \<ge> 2 ^ 64 then (p, Err ETimeRange)
          else (let p1 = p\<lparr>pt_gap_count := pt_gap_count p + 1\<rparr>
                in if pt_total_gap_micros p1 + u \<ge> 2 ^ 128 then (p1, Err ETimeRange)
                   else (let p2 = p1\<lparr>pt_total_gap_micros := pt_total_gap_micros p1 + u,
                                     pt_max_gap_micros := max (pt_max_gap_micros p1) u\<rparr>
                         in if int (pt_requested_interval_ms p2) * 2000 \<le> u
                            then (if pt_missed p2 + 1 \<ge> 2 ^ 64 then (p2, Err ETimeRange)
                                  else (p2\<lparr>pt_missed := pt_missed p2 + 1\<rparr>, Ok ()))
                            else (p2, Ok ()))))"

definition pt_observe :: "timestamp \<Rightarrow> poll_timing \<Rightarrow> poll_timing \<times> (run_error, unit) result" where
  "pt_observe t p =
     (case pt_previous p of
        None \<Rightarrow> (p\<lparr>pt_previous := Some t\<rparr>, Ok ())
      | Some prev \<Rightarrow>
          (case observe_gap (t - prev) p of
             (p', Inl e) \<Rightarrow> (p', Err e)
           | (p', Inr _) \<Rightarrow> (p'\<lparr>pt_previous := Some t\<rparr>, Ok ())))"

definition observe_pv_read :: "int \<Rightarrow> poll_timing \<Rightarrow> poll_timing" where
  "observe_pv_read d p = p\<lparr>pt_latency := (pt_latency p)\<lparr>la_pv_read := da_observe d (la_pv_read (pt_latency p))\<rparr>\<rparr>"

definition observe_mv_write :: "int \<Rightarrow> poll_timing \<Rightarrow> poll_timing" where
  "observe_mv_write d p = p\<lparr>pt_latency := (pt_latency p)\<lparr>la_mv_write := da_observe d (la_mv_write (pt_latency p))\<rparr>\<rparr>"

definition observe_mv_verification :: "int \<Rightarrow> poll_timing \<Rightarrow> poll_timing" where
  "observe_mv_verification d p =
     p\<lparr>pt_latency := (pt_latency p)\<lparr>la_mv_verification := da_observe d (la_mv_verification (pt_latency p))\<rparr>\<rparr>"

definition observe_sample_persist :: "int \<Rightarrow> poll_timing \<Rightarrow> poll_timing" where
  "observe_sample_persist d p =
     p\<lparr>pt_latency := (pt_latency p)\<lparr>la_sample_persist := da_observe d (la_sample_persist (pt_latency p))\<rparr>\<rparr>"

definition observe_tick_work :: "int \<Rightarrow> poll_timing \<Rightarrow> poll_timing" where
  "observe_tick_work d p = p\<lparr>pt_latency := (pt_latency p)\<lparr>la_tick_work := da_observe d (la_tick_work (pt_latency p))\<rparr>\<rparr>"

definition MIN_SAMPLES_PER_PERIOD :: f64 where "MIN_SAMPLES_PER_PERIOD = lit64 6"

definition classify_sampling_adequacy :: "f64 option \<Rightarrow> sampling_adequacy" where
  "classify_sampling_adequacy s =
     (case s of
        None \<Rightarrow> NotAssessed
      | Some v \<Rightarrow> if is_finite v \<and> fl_ge v MIN_SAMPLES_PER_PERIOD then Adequate
                  else if is_finite v \<and> fl_gt v (Fin 0) then Marginal
                  else NotAssessed)"

definition option_filter :: "('a \<Rightarrow> bool) \<Rightarrow> 'a option \<Rightarrow> 'a option" where
  "option_filter P x = (case x of Some y \<Rightarrow> if P y then Some y else None | None \<Rightarrow> None)"

definition mean_gap_ms :: "poll_timing \<Rightarrow> f64 option" where
  "mean_gap_ms p =
     (if 0 < pt_gap_count p
      then Some (fl_div B64 (fl_div B64 (fl_of_int B64 (pt_total_gap_micros p))
                   (fl_of_int B64 (int (pt_gap_count p)))) (lit64 1000))
      else None)"

definition pt_finish :: "f64 option \<Rightarrow> poll_timing \<Rightarrow> timing_metrics option" where
  "pt_finish period p =
     (case pt_previous p of
        None \<Rightarrow> None
      | Some _ \<Rightarrow>
          (let measured = option_filter (\<lambda>x. is_finite x \<and> fl_gt x (Fin 0)) period;
               per_period = Option.bind measured (\<lambda>x.
                 map_option (fl_div B64 x) (option_filter (\<lambda>m. fl_gt m (Fin 0)) (mean_gap_ms p)))
           in Some \<lparr> basis = pt_basis p, requested_interval_ms = pt_requested_interval_ms p,
                sample_gap_count = pt_gap_count p, mean_sample_gap_ms = mean_gap_ms p,
                max_sample_gap_ms =
                  (if 0 < pt_gap_count p
                   then Some (fl_div B64 (fl_of_int B64 (pt_max_gap_micros p)) (lit64 1000)) else None),
                missed_poll_opportunity_count = pt_missed p,
                measured_oscillation_period_ms = measured,
                approximate_samples_per_period = per_period,
                tm_sampling_adequacy = classify_sampling_adequacy per_period,
                poll_latency = (if latency_is_empty (pt_latency p) then None
                                else Some (latency_finish (pt_latency p))) \<rparr>))"


section \<open>What the statistics say\<close>

fun observe_all :: "timestamp list \<Rightarrow> poll_timing \<Rightarrow> poll_timing \<times> (run_error, unit) result" where
  "observe_all [] p = (p, Ok ())"
| "observe_all (t # ts) p =
     (case pt_observe t p of (p', Inl e) \<Rightarrow> (p', Err e) | (p', Inr _) \<Rightarrow> observe_all ts p')"

fun gap_micros :: "timestamp list \<Rightarrow> int list" where
  "gap_micros (s # t # ts) = trunc_div (t - s) 1000 # gap_micros (t # ts)"
| "gap_micros _ = []"

lemma observe_gap_Ok:
  assumes "observe_gap g p = (p', Ok u)"
  shows "p' = p\<lparr>pt_gap_count := pt_gap_count p + 1,
      pt_total_gap_micros := pt_total_gap_micros p + trunc_div g 1000,
      pt_max_gap_micros := max (pt_max_gap_micros p) (trunc_div g 1000),
      pt_missed := pt_missed p +
        (if int (pt_requested_interval_ms p) * 2000 \<le> trunc_div g 1000 then 1 else 0)\<rparr>"
    and "0 \<le> trunc_div g 1000"
  using assms by (auto simp: observe_gap_def num_microseconds_def Let_def split: option.splits if_splits)

lemma observe_all_from:
  assumes "observe_all ts p = (p', Ok u)" "pt_previous p = Some t"
  shows "pt_gap_count p' = pt_gap_count p + length ts"
    "pt_total_gap_micros p' = pt_total_gap_micros p + sum_list (gap_micros (t # ts))"
    "pt_max_gap_micros p' = fold max (gap_micros (t # ts)) (pt_max_gap_micros p)"
    "pt_missed p' = pt_missed p +
       length (filter (\<lambda>g. int (pt_requested_interval_ms p) * 2000 \<le> g) (gap_micros (t # ts)))"
    "\<forall>g \<in> set (gap_micros (t # ts)). 0 \<le> g"
  using assms
proof (induction ts arbitrary: p t)
  case (Cons x xs)
  {
    case 1
    then obtain q where q: "observe_gap (x - t) p = (q, Ok ())" "observe_all xs (q\<lparr>pt_previous := Some x\<rparr>) = (p', Ok u)"
      by (auto simp: pt_observe_def split: prod.splits sum.splits)
    show ?case using Cons.IH(1)[OF q(2)] observe_gap_Ok(1)[OF q(1)] by simp
  next
    case 2
    then obtain q where q: "observe_gap (x - t) p = (q, Ok ())" "observe_all xs (q\<lparr>pt_previous := Some x\<rparr>) = (p', Ok u)"
      by (auto simp: pt_observe_def split: prod.splits sum.splits)
    show ?case using Cons.IH(2)[OF q(2)] observe_gap_Ok(1)[OF q(1)] by simp
  next
    case 3
    then obtain q where q: "observe_gap (x - t) p = (q, Ok ())" "observe_all xs (q\<lparr>pt_previous := Some x\<rparr>) = (p', Ok u)"
      by (auto simp: pt_observe_def split: prod.splits sum.splits)
    show ?case using Cons.IH(3)[OF q(2)] observe_gap_Ok(1)[OF q(1)] by (simp add: max.commute)
  next
    case 4
    then obtain q where q: "observe_gap (x - t) p = (q, Ok ())" "observe_all xs (q\<lparr>pt_previous := Some x\<rparr>) = (p', Ok u)"
      by (auto simp: pt_observe_def split: prod.splits sum.splits)
    show ?case using Cons.IH(4)[OF q(2)] observe_gap_Ok(1)[OF q(1)] by simp
  next
    case 5
    then obtain q where q: "observe_gap (x - t) p = (q, Ok ())" "observe_all xs (q\<lparr>pt_previous := Some x\<rparr>) = (p', Ok u)"
      by (auto simp: pt_observe_def split: prod.splits sum.splits)
    show ?case using Cons.IH(5)[OF q(2)] observe_gap_Ok(2)[OF q(1)] by simp
  }
qed simp_all

text \<open>The time stamps of \<open>n\<close> ticks.\<close>

fun timestamps ::
  "timestamp \<Rightarrow> instant list \<Rightarrow> tick_time_source \<Rightarrow> (run_error, timestamp list) result" where
  "timestamps m [] src = Ok []"
| "timestamps m (now # ns) src =
     (case next_timestamp_at m now src of
        (src', Inl e) \<Rightarrow> Err e
      | (src', Inr t) \<Rightarrow> bind_result (timestamps m ns src') (\<lambda>ts. Ok (t # ts)))"

lemma fixed_step_timestamps:
  "timestamps m ns (FixedStep c step) = Ok ts \<Longrightarrow>
   ts = map (\<lambda>k. c + int (Suc k) * step) [0..<length ns]"
proof (induction ns arbitrary: c ts)
  case (Cons n ns)
  then obtain ts' where t: "timestamps m ns (FixedStep (c + step) step) = Ok ts'" "ts = (c + step) # ts'"
    by (auto simp: bind_result_Ok_iff split: if_splits)
  have "ts' = map (\<lambda>k. (c + step) + int (Suc k) * step) [0..<length ns]" by (rule Cons.IH[OF t(1)])
  moreover have "map (\<lambda>k. c + int (Suc k) * step) [0..<length (n # ns)] =
      (c + step) # map (\<lambda>k. c + int (Suc (Suc k)) * step) [0..<length ns]"
    by (simp add: upt_conv_Cons map_Suc_upt[symmetric] del: upt_Suc)
  ultimately show ?case using t(2) by (simp add: algebra_simps)
qed simp

lemma gap_micros_steps:
  "gap_micros (map (\<lambda>k. c + int (Suc k) * step) [i..<i + Suc n]) = replicate n (trunc_div step 1000)"
proof (induction n arbitrary: i)
  case (Suc n)
  have "map (\<lambda>k. c + int (Suc k) * step) [i..<i + Suc (Suc n)] =
      (c + int (Suc i) * step) # (c + int (Suc (Suc i)) * step) #
        map (\<lambda>k. c + int (Suc k) * step) [Suc (Suc i)..<i + Suc (Suc n)]"
    by (simp add: upt_conv_Cons del: upt_Suc)
  moreover have "map (\<lambda>k. c + int (Suc k) * step) [Suc i..<Suc i + Suc n] =
      (c + int (Suc (Suc i)) * step) # map (\<lambda>k. c + int (Suc k) * step) [Suc (Suc i)..<Suc i + Suc n]"
    by (simp add: upt_conv_Cons del: upt_Suc)
  ultimately show ?case using Suc.IH[of "Suc i"] by (simp add: algebra_simps del: upt_Suc)
qed simp

lemma observe_steps:
  assumes "pt_previous p = Some t" "0 \<le> step" "trunc_div step 1000 = u" "u < 2 ^ 63"
    and "pt_gap_count p + n < 2 ^ 64" "pt_total_gap_micros p + int n * u < 2 ^ 128"
    and "u < int (pt_requested_interval_ms p) * 2000"
  shows "\<exists>q. observe_all (map (\<lambda>k. t + int (Suc k) * step) [0..<n]) p = (q, Ok ())"
  using assms
proof (induction n arbitrary: p t)
  case (Suc n)
  have u0: "0 \<le> u" using Suc.prems(2,3) by (auto simp: trunc_div_def)
  have nu: "0 \<le> int n * u" using u0 by simp
  have bounds: "pt_gap_count p + 1 < 2 ^ 64" "pt_total_gap_micros p + u < 2 ^ 128"
    using Suc.prems(5,6) nu by (simp, simp add: algebra_simps)
  have num: "num_microseconds step = Some u"
    using Suc.prems(3,4) u0 by (simp add: num_microseconds_def)
  obtain q where q: "observe_gap step p = (q, Ok ())" "pt_gap_count q = pt_gap_count p + 1"
    "pt_total_gap_micros q = pt_total_gap_micros p + u"
    "pt_requested_interval_ms q = pt_requested_interval_ms p"
    using bounds u0 Suc.prems(7) by (simp add: observe_gap_def num Let_def not_le)
  let ?q = "q\<lparr>pt_previous := Some (t + step)\<rparr>"
  have "map (\<lambda>k. t + int (Suc k) * step) [0..<Suc n] =
      (t + step) # map (\<lambda>k. (t + step) + int (Suc k) * step) [0..<n]"
    by (simp add: upt_conv_Cons map_Suc_upt[symmetric] algebra_simps del: upt_Suc)
  moreover have "pt_observe (t + step) p = (?q, Ok ())"
    using q(1) Suc.prems(1) by (simp add: pt_observe_def)
  moreover have "\<exists>r. observe_all (map (\<lambda>k. (t + step) + int (Suc k) * step) [0..<n]) ?q = (r, Ok ())"
    using Suc.prems q(2-4) by (intro Suc.IH) (simp_all add: algebra_simps)
  ultimately show ?case by simp
qed simp

text \<open>A simulated run keeps perfect time.  However long the host takes, the n-th sample is
  stamped exactly n polling intervals after the start, recording the samples never fails, no
  polling opportunity counts as missed, and every recorded gap is the interval.\<close>

theorem simulated_time_is_exact:
  assumes "for_driver SimulatorKind a ms = Ok src" and "timestamps m ns src = Ok ts"
    and "int (max ms 1) * 1000 < 2 ^ 63" and "length ns < 2 ^ 64"
  shows "ts = map (\<lambda>k. an_utc a + int (Suc k) * millis (max ms 1)) [0..<length ns] \<and>
    (\<exists>p. observe_all ts (poll_timing_new SimulatedFixedStep ms) = (p, Ok ()) \<and>
       pt_gap_count p = length ns - 1 \<and> pt_missed p = 0 \<and>
       pt_total_gap_micros p = int (length ns - 1) * (int (max ms 1) * 1000))"
proof -
  let ?step = "millis (max ms 1)" and ?u = "int (max ms 1) * 1000"
    and ?p0 = "poll_timing_new SimulatedFixedStep ms"
  have "src = FixedStep (an_utc a) ?step"
    using assms(1) by (auto simp: for_driver_def duration_from_std_def split: if_splits)
  then have ts: "ts = map (\<lambda>k. an_utc a + int (Suc k) * ?step) [0..<length ns]"
    using fixed_step_timestamps assms(2) by blast
  have u: "trunc_div ?step 1000 = ?u" "0 \<le> ?step" by (simp_all add: trunc_div_def millis_def ns_per_ms_def)
  have "\<exists>p. observe_all ts ?p0 = (p, Ok ()) \<and> pt_gap_count p = length ns - 1 \<and> pt_missed p = 0 \<and>
       pt_total_gap_micros p = int (length ns - 1) * ?u"
  proof (cases "length ns")
    case 0
    then show ?thesis using ts by (simp add: poll_timing_new_def)
  next
    case (Suc n)
    let ?t = "an_utc a + ?step"
    let ?rest = "map (\<lambda>k. ?t + int (Suc k) * ?step) [0..<n]" and ?p1 = "?p0\<lparr>pt_previous := Some ?t\<rparr>"
    have split: "ts = ?t # ?rest"
      unfolding ts Suc by (simp add: upt_conv_Cons map_Suc_upt[symmetric] algebra_simps del: upt_Suc)
    have n: "n < 2 ^ 64" using assms(4) Suc by simp
    have "int n * ?u \<le> 2 ^ 64 * 2 ^ 63" by (intro mult_mono) (use assms(3) n in auto)
    then have total: "int n * ?u < 2 ^ 128" by simp
    have "\<exists>q. observe_all ?rest ?p1 = (q, Ok ())"
      by (rule observe_steps[OF _ u(2,1) assms(3)]) (use n total in \<open>simp_all add: poll_timing_new_def\<close>)
    then obtain q where q: "observe_all ?rest ?p1 = (q, Ok ())" by blast
    have gaps: "gap_micros (?t # ?rest) = replicate n ?u"
      using gap_micros_steps[where i = 0 and n = n and c = "an_utc a" and step = ?step] split ts Suc u(1) by simp
    have prev: "pt_previous ?p1 = Some ?t" by simp
    note f = observe_all_from(1-4)[OF q prev, unfolded gaps]
    have "pt_gap_count q = n" "pt_total_gap_micros q = int n * ?u" "pt_missed q = 0"
      unfolding f by (simp_all add: poll_timing_new_def sum_list_replicate)
    then show ?thesis using q split Suc by (simp add: pt_observe_def poll_timing_new_def)
  qed
  then show ?thesis using ts by blast
qed

theorem simulated_time_is_exact_witness:
  "\<exists>p. observe_all [800000000, 1600000000, 2400000000] (poll_timing_new SimulatedFixedStep 800) = (p, Ok ()) \<and>
     pt_gap_count p = Suc 1 \<and> pt_missed p = 0 \<and> pt_total_gap_micros p = 1600000"
proof -
  let ?a = "\<lparr> an_utc = 0, an_monotonic = 0 \<rparr>" and ?src = "FixedStep 0 800000000"
  have "for_driver SimulatorKind ?a 800 = Ok ?src"
    by (simp add: for_driver_def duration_from_std_def delta_max_def millis_def ns_per_ms_def)
  moreover have "timestamps (10 ^ 18) [5, 7, 7] ?src = Ok [800000000, 1600000000, 2400000000]" by simp
  ultimately show ?thesis using simulated_time_is_exact[of ?a 800 ?src "10 ^ 18" "[5, 7, 7]"]
    by (simp del: observe_all.simps)
qed

text \<open>The statistics of the sample spacing mean what they say: whenever recording succeeds, the
  gap count, the total and largest gap and the missed polling opportunities are those of the list
  of gaps between neighbouring samples, none of which is negative.\<close>

theorem gap_statistics:
  assumes "observe_all (t # ts) (poll_timing_new b ms) = (p, Ok ())"
  shows "pt_gap_count p = length ts \<and>
    pt_total_gap_micros p = sum_list (gap_micros (t # ts)) \<and>
    pt_max_gap_micros p = fold max (gap_micros (t # ts)) 0 \<and>
    pt_missed p = length (filter (\<lambda>g. int (max ms 1) * 2000 \<le> g) (gap_micros (t # ts))) \<and>
    (\<forall>g \<in> set (gap_micros (t # ts)). 0 \<le> g)"
proof -
  let ?p = "(poll_timing_new b ms)\<lparr>pt_previous := Some t\<rparr>"
  have "observe_all ts ?p = (p, Ok ())"
    using assms by (simp add: pt_observe_def poll_timing_new_def)
  from observe_all_from[OF this, of t] show ?thesis by (simp add: poll_timing_new_def)
qed

theorem gap_statistics_witness:
  "\<exists>p. observe_all [0, 800000000, 3000000000] (poll_timing_new LiveMonotonic 800) = (p, Ok ()) \<and>
     pt_missed p = 1 \<and> pt_max_gap_micros p = 2200000"
proof -
  obtain p where p: "observe_all [0, 800000000, 3000000000] (poll_timing_new LiveMonotonic 800) = (p, Ok ())"
    by (simp add: pt_observe_def poll_timing_new_def observe_gap_def num_microseconds_def trunc_div_def Let_def)
  from gap_statistics[OF this] show ?thesis using p by (auto simp: trunc_div_def)
qed

end
