(* ===== verification/Actuation.thy ===== *)
theory Actuation
  imports Timing
begin

text \<open>
  Confirmation of manipulated-variable commands (\<open>bhtune-runtime/src/tune/actuation.rs\<close>): every MV
  value a live run writes must be read back within a fixed time and tolerance.  The tracker holds
  at most one pending command; its row in the audit table is closed when the command is.

  The clock, the driver and the interruption of a call enter as values: each \<open>Instant::now()\<close> and
  each bounded read is an argument.  The texts of errors and numbers are a parameter.
\<close>

section \<open>Constants\<close>

definition MV_ACTUATION_CONFIRMATION_SECS :: nat where "MV_ACTUATION_CONFIRMATION_SECS = 4"
definition MV_ACTUATION_RETRY_INTERVAL :: int where "MV_ACTUATION_RETRY_INTERVAL = millis 100"
definition MV_ACTUATION_DEADLINE_READ_MAX :: int where "MV_ACTUATION_DEADLINE_READ_MAX = secs 1"
definition MV_ACTUATION_FALLBACK_HEADROOM :: int where "MV_ACTUATION_FALLBACK_HEADROOM = secs 1"
definition MV_RESTORE_HANDOFF_READ_MAX :: int where "MV_RESTORE_HANDOFF_READ_MAX = secs 1"
definition MV_SPAN_TOLERANCE_FRACTION :: f32 where "MV_SPAN_TOLERANCE_FRACTION = lit32 0.001"
definition RELAY_STEP_TOLERANCE_FRACTION :: f32 where "RELAY_STEP_TOLERANCE_FRACTION = lit32 0.25"
definition MIN_RELAY_STEP :: f32 where "MIN_RELAY_STEP = lit32 0.01"

text \<open>\<open>f32::EPSILON\<close>.\<close>

definition F32_EPSILON :: f32 where "F32_EPSILON = lit32 (1 / 8388608)"

section \<open>The tracker\<close>

text \<open>What is read before any change to the loop (\<open>prepare.rs\<close>).\<close>

record initial_state =
  is_pv_ini :: f32
  is_mv_ini :: f32
  is_pv_range_high :: f32
  is_pv_range_low :: f32
  is_mv_range_high :: f32
  is_mv_range_low :: f32
  is_direction :: controller_direction
  is_mode_raw :: "string option"
  is_mode_attribute_raw :: "string option"
  is_setpoint_ini :: "f32 option"

record pending_mv =
  pm_id :: "int option"
  pm_kind :: mv_actuation_kind
  pm_target :: f32
  pm_tolerance :: f32
  pm_switch_tick :: timestamp
  pm_switch_instant :: instant
  pm_accepted_instant :: instant
  pm_first_check_at :: instant
  pm_deadline :: instant
  pm_last_readback :: "f32 option"

record mv_tracker =
  tr_next_sequence :: int
  tr_previous_commanded_mv :: f32
  tr_confirmed_mv :: "f32 option"
  tr_pending :: "pending_mv option"
  tr_mv_span :: f32

definition tracker_for_run :: "tune_request \<Rightarrow> initial_state \<Rightarrow> mv_tracker option" where
  "tracker_for_run q i =
     (if q_driver q = OpcdaKind
      then Some \<lparr> tr_next_sequence = 0, tr_previous_commanded_mv = is_mv_ini i, tr_confirmed_mv = None,
             tr_pending = None, tr_mv_span = fl_sub B32 (is_mv_range_high i) (is_mv_range_low i) \<rparr>
      else None)"

definition accept_pending :: "pending_mv \<Rightarrow> mv_tracker \<Rightarrow> mv_tracker" where
  "accept_pending p t =
     t\<lparr>tr_next_sequence := tr_next_sequence t + 1, tr_previous_commanded_mv := pm_target p,
       tr_confirmed_mv := None, tr_pending := Some p\<rparr>"

definition new_actuation ::
  "mv_tracker \<Rightarrow> mv_actuation_kind \<Rightarrow> f32 \<Rightarrow> f32 \<Rightarrow> timestamp \<Rightarrow> new_tune_mv_actuation" where
  "new_actuation t kind target tol accepted_at =
     \<lparr> nmva_sequence = tr_next_sequence t, nmva_kind = kind, nmva_commanded_at = accepted_at,
       nmva_target_mv = target, nmva_previous_commanded_mv = Some (tr_previous_commanded_mv t),
       nmva_tolerance = tol,
       nmva_confirmation_due_at = accepted_at + secs MV_ACTUATION_CONFIRMATION_SECS \<rparr>"

definition record_accepted_at_switch ::
  "int \<Rightarrow> mv_actuation_kind \<Rightarrow> f32 \<Rightarrow> timestamp \<Rightarrow> instant \<Rightarrow> instant \<Rightarrow> timestamp \<Rightarrow> instant \<Rightarrow> f32
   \<Rightarrow> mv_tracker \<times> db \<Rightarrow> (mv_tracker \<times> db) \<times> (run_error, unit) result" where
  "record_accepted_at_switch rid kind target switch_tick switch_instant first_check_at accepted_at
     accepted_instant tol = (\<lambda>(t, d).
     let deadline = accepted_instant + secs MV_ACTUATION_CONFIRMATION_SECS;
         (d', r) = insert_pending rid (new_actuation t kind target tol accepted_at) d
     in case r of
          Inl e \<Rightarrow> ((t, d'), Err (EDb e))
        | Inr row \<Rightarrow>
            ((accept_pending
                \<lparr> pm_id = Some (mva_id row), pm_kind = kind, pm_target = target, pm_tolerance = tol,
                  pm_switch_tick = switch_tick, pm_switch_instant = switch_instant,
                  pm_accepted_instant = accepted_instant,
                  pm_first_check_at = min first_check_at deadline, pm_deadline = deadline,
                  pm_last_readback = None \<rparr> t, d'), Ok ()))"

definition restore_pending :: "f32 \<Rightarrow> timestamp \<Rightarrow> instant \<Rightarrow> f32 \<Rightarrow> pending_mv" where
  "restore_pending target accepted_at accepted_instant tol =
     \<lparr> pm_id = None, pm_kind = ARestore, pm_target = target, pm_tolerance = tol,
       pm_switch_tick = accepted_at, pm_switch_instant = accepted_instant,
       pm_accepted_instant = accepted_instant, pm_first_check_at = accepted_instant,
       pm_deadline = accepted_instant + secs MV_ACTUATION_CONFIRMATION_SECS, pm_last_readback = None \<rparr>"

definition record_restore_accepted_best_effort ::
  "int \<Rightarrow> f32 \<Rightarrow> timestamp \<Rightarrow> instant \<Rightarrow> f32 \<Rightarrow> mv_tracker \<times> db \<Rightarrow> mv_tracker \<times> db" where
  "record_restore_accepted_best_effort rid target accepted_at accepted_instant tol = (\<lambda>(t, d).
     let p = restore_pending target accepted_at accepted_instant tol;
         (d', r) = insert_pending rid (new_actuation t ARestore target tol accepted_at) d
     in case r of
          Inl e \<Rightarrow> (accept_pending p t, d')
        | Inr row \<Rightarrow> (accept_pending (p\<lparr>pm_id := Some (mva_id row)\<rparr>) t, d'))"

definition record_restore_accepted_required ::
  "int \<Rightarrow> f32 \<Rightarrow> timestamp \<Rightarrow> instant \<Rightarrow> f32
   \<Rightarrow> mv_tracker \<times> db \<Rightarrow> (mv_tracker \<times> db) \<times> (run_error, unit) result" where
  "record_restore_accepted_required rid target accepted_at accepted_instant tol = (\<lambda>(t, d).
     let p = restore_pending target accepted_at accepted_instant tol;
         (d', r) = insert_pending rid (new_actuation t ARestore target tol accepted_at) d
     in case r of
          Inl e \<Rightarrow> ((t, d'), Err (EDb e))
        | Inr row \<Rightarrow> ((accept_pending (p\<lparr>pm_id := Some (mva_id row)\<rparr>) t, d'), Ok ()))"

definition next_verification_wakeup :: "mv_tracker \<Rightarrow> instant option" where
  "next_verification_wakeup t =
     map_option (\<lambda>p. if pm_last_readback p \<noteq> None then pm_deadline p
                     else max (pm_first_check_at p) (pm_deadline p - MV_ACTUATION_FALLBACK_HEADROOM))
       (tr_pending t)"

definition utc_after_elapsed :: "timestamp \<Rightarrow> int \<Rightarrow> (run_error, timestamp) result" where
  "utc_after_elapsed now elapsed = bind_result (duration_from_std elapsed) (\<lambda>e. Ok (now + e))"

definition record_relay_actuation ::
  "int \<Rightarrow> f32 \<Rightarrow> timestamp \<Rightarrow> instant \<Rightarrow> instant \<Rightarrow> int \<Rightarrow> instant \<Rightarrow> f32
   \<Rightarrow> mv_tracker \<times> db \<Rightarrow> (mv_tracker \<times> db) \<times> (run_error, unit) result" where
  "record_relay_actuation rid target switch_tick switch_instant first_check_at elapsed accepted_instant tol s =
     (case utc_after_elapsed switch_tick elapsed of
        Inl e \<Rightarrow> (s, Err e)
      | Inr accepted_at \<Rightarrow>
          record_accepted_at_switch rid ARelay target switch_tick switch_instant first_check_at accepted_at
            accepted_instant tol s)"

section \<open>Tolerances\<close>

definition f32_precision_floor :: "f32 \<Rightarrow> f32 \<Rightarrow> f32" where
  "f32_precision_floor target previous =
     fl_mul B32 (fl_mul B32 (lit32 4) F32_EPSILON)
       (fl_max (fl_max (fl_abs target) (fl_abs previous)) (lit32 1))"

definition mv_actuation_uncapped_tolerance :: "f32 \<Rightarrow> f32 \<Rightarrow> f32 \<Rightarrow> f32" where
  "mv_actuation_uncapped_tolerance target previous mv_span =
     fl_add B32 (f32_precision_floor target previous)
       (fl_mul B32 (fl_abs mv_span) MV_SPAN_TOLERANCE_FRACTION)"

definition mv_actuation_tolerance ::
  "mv_actuation_kind \<Rightarrow> f32 \<Rightarrow> f32 \<Rightarrow> f32 \<Rightarrow> (run_error, f32) result" where
  "mv_actuation_tolerance kind target previous mv_span =
     (let uncapped = mv_actuation_uncapped_tolerance target previous mv_span
      in if kind = ARestore then Ok uncapped
         else (let step = fl_abs (fl_sub B32 target previous);
                   relay_cap = fl_mul B32 step RELAY_STEP_TOLERANCE_FRACTION
               in if \<not> is_finite step \<or> fl_lt step MIN_RELAY_STEP \<or>
                     fl_le relay_cap (f32_precision_floor target previous)
                  then Err (EStepTooSmall step
                         (fl_max MIN_RELAY_STEP
                           (fl_div B32 (f32_precision_floor target previous) RELAY_STEP_TOLERANCE_FRACTION)))
                  else Ok (fl_min uncapped relay_cap)))"

definition validate_relay_actuation_step ::
  "tune_request \<Rightarrow> loop_config \<Rightarrow> initial_state \<Rightarrow> (run_error, unit) result" where
  "validate_relay_actuation_step q c i =
     (if q_driver q \<noteq> OpcdaKind then Ok ()
      else (let relay_step = clamp_relay_amplitude (lc_relay_amp_percent c) (is_mv_ini i)
                  (is_mv_range_low i) (is_mv_range_high i)
            in bind_result
                 (mv_actuation_tolerance ARelay (fl_add B32 (is_mv_ini i) relay_step) (is_mv_ini i)
                    (fl_sub B32 (is_mv_range_high i) (is_mv_range_low i))) (\<lambda>_. Ok ())))"

definition actuation_abort_reason :: "string \<Rightarrow> pending_mv \<Rightarrow> f32 option \<Rightarrow> instant \<Rightarrow> abort_reason" where
  "actuation_abort_reason tag p rb now =
     MvActuationUnconfirmed tag (pm_target p) rb (pm_tolerance p)
       (nat (min (saturating_since now (pm_accepted_instant p) div ns_per_ms) (2 ^ 64 - 1)))
       MV_ACTUATION_CONFIRMATION_SECS"

definition actuation_matches :: "f32 \<Rightarrow> f32 \<Rightarrow> f32 \<Rightarrow> bool" where
  "actuation_matches target readback tol \<longleftrightarrow> fl_le (fl_abs (fl_sub B32 target readback)) tol"


section \<open>When and how long to read\<close>

datatype mv_trigger = Scheduled | AtDeadline
datatype audit_policy = AuditRequired | AuditBestEffort
datatype call_limit = NoLimit | RestoreLimit instant
datatype limit_kind = LimitConfirmation | LimitDeadline | LimitRestore

definition verification_trigger :: "pending_mv \<Rightarrow> instant \<Rightarrow> mv_trigger option" where
  "verification_trigger p now =
     (if pm_deadline p \<le> now then Some AtDeadline
      else if pm_last_readback p = None \<and> pm_first_check_at p \<le> now then Some Scheduled
      else None)"

fun external_limit :: "call_limit \<Rightarrow> (instant \<times> limit_kind) option" where
  "external_limit NoLimit = None"
| "external_limit (RestoreLimit deadline) = Some (deadline, LimitRestore)"

definition mv_verification_read_limit ::
  "instant \<Rightarrow> mv_trigger \<Rightarrow> pending_mv \<Rightarrow> call_limit \<Rightarrow> instant \<times> limit_kind" where
  "mv_verification_read_limit now trigger p cap =
     (if trigger = AtDeadline
      then (let own = (now + MV_ACTUATION_DEADLINE_READ_MAX, LimitDeadline)
            in case external_limit cap of
                 Some e \<Rightarrow> if fst e < fst own then e else own
               | None \<Rightarrow> own)
      else (case external_limit cap of
              Some e \<Rightarrow> if fst e < pm_deadline p then e else (pm_deadline p, LimitConfirmation)
            | None \<Rightarrow> (pm_deadline p, LimitConfirmation)))"

definition checked_at_for_pending :: "pending_mv \<Rightarrow> instant \<Rightarrow> (run_error, timestamp) result" where
  "checked_at_for_pending p checked =
     bind_result (duration_from_std (saturating_since checked (pm_switch_instant p))) (\<lambda>e.
       Ok (pm_switch_tick p + e))"

section \<open>The audit row\<close>

record text_lib =
  tl_error :: "run_error \<Rightarrow> string"
  tl_nat :: "nat \<Rightarrow> string"

fun quality_debug :: "quality \<Rightarrow> string" where
  "quality_debug Good = ''Good''"
| "quality_debug Uncertain = ''Uncertain''"
| "quality_debug Bad = ''Bad''"

definition record_actuation_observation ::
  "pending_mv \<Rightarrow> timestamp \<Rightarrow> f32 option \<Rightarrow> sample_quality option \<Rightarrow> audit_policy \<Rightarrow> db
   \<Rightarrow> db \<times> (run_error, int option) result" where
  "record_actuation_observation p checked_at rb q policy d =
     (case pm_id p of
        None \<Rightarrow> (d, Ok None)
      | Some i \<Rightarrow>
          (case record_observation i checked_at rb q d of
             (d', Inr row) \<Rightarrow> (d', Ok (Some (attempt_count row)))
           | (d', Inl e) \<Rightarrow> (d', if policy = AuditBestEffort then Ok None else Err (EDb e))))"

definition record_final_actuation_observation ::
  "pending_mv \<Rightarrow> timestamp \<Rightarrow> f32 option \<Rightarrow> sample_quality option \<Rightarrow> mv_actuation_status \<Rightarrow> string \<Rightarrow> db
   \<Rightarrow> db \<times> int option" where
  "record_final_actuation_observation p checked_at rb q status detail d =
     (case pm_id p of
        None \<Rightarrow> (d, None)
      | Some i \<Rightarrow>
          (case record_final_observation i checked_at rb q status
                  (if detail \<noteq> [] then Some detail else None) d of
             (d', Inr row) \<Rightarrow> (d', Some (attempt_count row))
           | (d', Inl e) \<Rightarrow> (d', None)))"

definition finalize_actuation_best_effort :: "pending_mv \<Rightarrow> mv_actuation_status \<Rightarrow> string \<Rightarrow> db \<Rightarrow> db" where
  "finalize_actuation_best_effort p status detail d =
     (case pm_id p of None \<Rightarrow> d | Some i \<Rightarrow> fst (actuation_finalize i status (Some detail) d))"

definition reject_replacement_for_pending_actuation ::
  "string \<Rightarrow> instant \<Rightarrow> mv_tracker \<times> db \<Rightarrow> (mv_tracker \<times> db) \<times> (run_error, abort_reason) result" where
  "reject_replacement_for_pending_actuation tag now = (\<lambda>(t, d).
     case tr_pending t of
       None \<Rightarrow> ((t, d), Err (EInvariant ''called only when an MV actuation is pending''))
     | Some p \<Rightarrow>
         (let (status, detail) =
              (if pm_last_readback p \<noteq> None
               then (Failed, ''a replacement relay command was requested while the prior MV readback remained outside tolerance'')
               else (Unverified, ''a replacement relay command was requested before an acceptable prior MV readback was available''))
          in ((t\<lparr>tr_pending := None\<rparr>, finalize_actuation_best_effort p status detail d),
              Ok (actuation_abort_reason tag p (pm_last_readback p) now))))"

definition finalize_pending_for_run_best_effort :: "int \<Rightarrow> string \<Rightarrow> db \<Rightarrow> db" where
  "finalize_pending_for_run_best_effort rid detail d =
     fst (finalize_pending_for_run rid Unverified (Some detail) d)"

definition supersede_pending_actuation_best_effort :: "string \<Rightarrow> mv_tracker \<times> db \<Rightarrow> mv_tracker \<times> db" where
  "supersede_pending_actuation_best_effort detail = (\<lambda>(t, d).
     case tr_pending t of
       None \<Rightarrow> (t, d)
     | Some p \<Rightarrow> (t\<lparr>tr_pending := None\<rparr>, finalize_actuation_best_effort p Superseded detail d))"

definition record_handoff_observation_best_effort ::
  "pending_mv \<Rightarrow> timestamp \<Rightarrow> f32 option \<Rightarrow> sample_quality option \<Rightarrow> string \<Rightarrow> db \<Rightarrow> db" where
  "record_handoff_observation_best_effort p checked_at rb q detail d =
     fst (record_final_actuation_observation p checked_at rb q Superseded detail d)"


section \<open>Reading the pending value back\<close>

datatype 'a tick_operation = TickCompleted 'a | TickCancelled | TickTimedOut

text \<open>One bounded read: the clock when the limit was computed, at the start, at the end and when the
  answer was stamped, and the answer, or \<open>None\<close> when the limit cut it off.\<close>

type_synonym mv_answer = "(run_error, (f32 \<times> quality) tick_operation) result"

record bounded_read =
  br_now :: instant
  br_started :: instant
  br_finished :: instant
  br_checked :: instant
  br_answer :: "mv_answer option"

datatype pending_read =
  ReadReady mv_answer timestamp instant int
| DeadlineTimedOut pending_mv timestamp instant
| RestoreTimedOut pending_mv timestamp instant

definition pending_verification_ready ::
  "mv_tracker \<Rightarrow> mv_answer \<Rightarrow> instant \<Rightarrow> int \<Rightarrow> (run_error, pending_read) result" where
  "pending_verification_ready t answer checked duration =
     (case tr_pending t of
        None \<Rightarrow> Err (EInvariant ''pending actuation existed after the bounded read'')
      | Some p \<Rightarrow>
          bind_result (checked_at_for_pending p checked) (\<lambda>ts. Ok (ReadReady answer ts checked duration)))"

text \<open>The loop repeats only when the read was cut off at the confirmation deadline, and then reads
  with the other trigger: the \<open>n\<close>-th read of the loop is \<open>reads n\<close>.\<close>

function read_pending_mv_verification ::
  "(nat \<Rightarrow> bounded_read) \<Rightarrow> nat \<Rightarrow> mv_trigger \<Rightarrow> call_limit \<Rightarrow> mv_tracker
   \<Rightarrow> mv_tracker \<times> (run_error, pending_read) result" where
  "read_pending_mv_verification reads n trigger cap t =
     (case tr_pending t of
        None \<Rightarrow> (t, Err (EInvariant ''pending actuation existed before the bounded read''))
      | Some p \<Rightarrow>
          (let r = reads n;
               kind = snd (mv_verification_read_limit (br_now r) trigger p cap)
           in case br_answer r of
                Some answer \<Rightarrow>
                  (t, pending_verification_ready t answer (br_checked r)
                        (saturating_since (br_finished r) (br_started r)))
              | None \<Rightarrow>
                  (case kind of
                     LimitConfirmation \<Rightarrow> read_pending_mv_verification reads (n + 1) AtDeadline cap t
                   | LimitDeadline \<Rightarrow>
                       (t\<lparr>tr_pending := None\<rparr>,
                        bind_result (checked_at_for_pending p (br_checked r)) (\<lambda>ts.
                          Ok (DeadlineTimedOut p ts (br_checked r))))
                   | LimitRestore \<Rightarrow>
                       (t\<lparr>tr_pending := None\<rparr>,
                        bind_result (checked_at_for_pending p (br_checked r)) (\<lambda>ts.
                          Ok (RestoreTimedOut p ts (br_checked r)))))))"
  by pat_completeness auto

lemma deadline_limit_kind: "snd (mv_verification_read_limit now AtDeadline p cap) \<noteq> LimitConfirmation"
  by (cases cap) (auto simp: mv_verification_read_limit_def)

termination read_pending_mv_verification
proof (relation "measure (\<lambda>(reads, n, trigger, cap, t). if trigger = Scheduled then 1 else 0)")
  fix reads :: "nat \<Rightarrow> bounded_read" and n trigger cap t p r kind
  assume "r = reads n" "kind = snd (mv_verification_read_limit (br_now r) trigger p cap)" "kind = LimitConfirmation"
  then have "trigger \<noteq> AtDeadline" using deadline_limit_kind by metis
  then show "((reads, n + 1, AtDeadline, cap, t), reads, n, trigger, cap, t)
      \<in> measure (\<lambda>(reads, n, trigger, cap, t). if trigger = Scheduled then 1 else 0)"
    by (cases trigger) auto
qed simp

record mv_value =
  mvv_readback :: f32
  mvv_sample_quality :: sample_quality
  mvv_checked_at :: timestamp
  mvv_checked_instant :: instant

datatype mv_result = MvValue mv_value | MvAbort abort_reason

definition close_pending ::
  "timestamp \<Rightarrow> f32 option \<Rightarrow> sample_quality option \<Rightarrow> mv_actuation_status \<Rightarrow> string \<Rightarrow> pending_mv
   \<Rightarrow> mv_tracker \<times> db \<Rightarrow> mv_tracker \<times> db" where
  "close_pending checked_at rb q status detail p = (\<lambda>(t, d).
     (t\<lparr>tr_pending := None\<rparr>, fst (record_final_actuation_observation p checked_at rb q status detail d)))"

definition resolve_pending_mv_read ::
  "text_lib \<Rightarrow> effective_timing \<Rightarrow> string \<Rightarrow> mv_answer \<Rightarrow> timestamp \<Rightarrow> instant \<Rightarrow> bool
   \<Rightarrow> mv_tracker \<times> db \<Rightarrow> (mv_tracker \<times> db) \<times> (run_error, mv_result) result" where
  "resolve_pending_mv_read lib timing tag answer checked_at checked allow s =
     (case answer of
        Inr (TickCompleted (rb, q)) \<Rightarrow>
          (if is_ok (check_quality tag q allow)
           then (s, Ok (MvValue \<lparr> mvv_readback = rb, mvv_sample_quality = sample_quality_from_driver q,
                                  mvv_checked_at = checked_at, mvv_checked_instant = checked \<rparr>))
           else (case tr_pending (fst s) of
                   None \<Rightarrow> (s, Err (EInvariant ''pending actuation existed before the verification read''))
                 | Some p \<Rightarrow>
                     (close_pending checked_at (Some rb) (Some (sample_quality_from_driver q)) Unverified
                        (''MV verification read reported OPC quality '' @ quality_debug q) p s,
                      Ok (MvAbort (PoorQuality tag q)))))
      | other \<Rightarrow>
          (case tr_pending (fst s) of
             None \<Rightarrow> (s, Err (EInvariant ''pending actuation existed before the verification read''))
           | Some p \<Rightarrow>
               (case other of
                  Inl e \<Rightarrow>
                    (close_pending checked_at None None Unverified
                       (''MV verification read failed: '' @ tl_error lib e) p s, Err e)
                | Inr TickCancelled \<Rightarrow>
                    (((fst s)\<lparr>tr_pending := None\<rparr>,
                      finalize_actuation_best_effort p Unverified
                        ''MV verification was interrupted before confirmation completed'' (snd s)),
                     Ok (MvAbort UserInterrupt))
                | _ \<Rightarrow>
                    (close_pending checked_at None None Unverified
                       (''MV verification read did not complete within '' @
                          tl_nat lib (f_op_timeout_secs timing) @ '' seconds'') p s,
                     Ok (MvAbort (OperationTimedOut tag (f_op_timeout_secs timing)))))))"

definition confirm_pending_mv_actuation ::
  "pending_mv \<Rightarrow> timestamp \<Rightarrow> f32 \<Rightarrow> sample_quality \<Rightarrow> audit_policy
   \<Rightarrow> mv_tracker \<times> db \<Rightarrow> (mv_tracker \<times> db) \<times> (run_error, unit) result" where
  "confirm_pending_mv_actuation p checked_at rb q policy = (\<lambda>(t, d).
     case pm_id p of
       None \<Rightarrow> ((t\<lparr>tr_confirmed_mv := Some (pm_target p)\<rparr>, d), Ok ())
     | Some i \<Rightarrow>
         (case record_final_observation i checked_at (Some rb) (Some q) Confirmed None d of
            (d', Inr row) \<Rightarrow> ((t\<lparr>tr_confirmed_mv := Some (pm_target p)\<rparr>, d'), Ok ())
          | (d', Inl e) \<Rightarrow>
              if policy = AuditBestEffort
              then ((t\<lparr>tr_confirmed_mv := Some (pm_target p)\<rparr>, d'), Ok ())
              else ((t\<lparr>tr_pending := Some p\<rparr>, d'), Err (EDb e))))"

definition finalize_pending_mv_verification ::
  "string \<Rightarrow> mv_value \<Rightarrow> mv_trigger \<Rightarrow> audit_policy
   \<Rightarrow> mv_tracker \<times> db \<Rightarrow> (mv_tracker \<times> db) \<times> (run_error, abort_reason option) result" where
  "finalize_pending_mv_verification tag v trigger policy s =
     (case tr_pending (fst s) of
        None \<Rightarrow> (s, Err (EInvariant ''pending actuation existed before the verification result''))
      | Some p \<Rightarrow>
          (let taken = ((fst s)\<lparr>tr_pending := None\<rparr>, snd s);
               matches = actuation_matches (pm_target p) (mvv_readback v) (pm_tolerance p);
               abort = (\<lambda>detail.
                 (close_pending (mvv_checked_at v) (Some (mvv_readback v)) (Some (mvv_sample_quality v))
                    Failed detail p taken,
                  Ok (Some (actuation_abort_reason tag p (Some (mvv_readback v)) (mvv_checked_instant v)))))
           in if pm_deadline p < mvv_checked_instant v then
                abort (if matches then ''MV readback matched the target only after the confirmation deadline''
                       else ''MV readback remained outside tolerance after the confirmation deadline'')
              else if matches then
                (let (s', r) = confirm_pending_mv_actuation p (mvv_checked_at v) (mvv_readback v)
                                 (mvv_sample_quality v) policy taken
                 in (s', bind_result r (\<lambda>_. Ok None)))
              else if trigger = AtDeadline \<or> pm_deadline p \<le> mvv_checked_instant v then
                abort ''MV readback remained outside tolerance at the confirmation deadline''
              else
                (let (d', r) = record_actuation_observation p (mvv_checked_at v) (Some (mvv_readback v))
                                 (Some (mvv_sample_quality v)) policy (snd taken)
                 in case r of
                      Inl e \<Rightarrow> ((fst taken, d'), Err e)
                    | Inr _ \<Rightarrow>
                        (((fst taken)\<lparr>tr_pending := Some (p\<lparr>pm_last_readback := Some (mvv_readback v)\<rparr>)\<rparr>, d'),
                         Ok None))))"

definition verify_pending_mv_actuation ::
  "text_lib \<Rightarrow> effective_timing \<Rightarrow> string \<Rightarrow> bool \<Rightarrow> instant \<Rightarrow> (nat \<Rightarrow> bounded_read) \<Rightarrow> mv_trigger
   \<Rightarrow> call_limit \<Rightarrow> audit_policy \<Rightarrow> poll_timing option \<Rightarrow> mv_tracker \<times> db
   \<Rightarrow> poll_timing option \<times> (mv_tracker \<times> db) \<times> (run_error, abort_reason option) result" where
  "verify_pending_mv_actuation lib timing tag allow now reads trigger cap policy acc s =
     (case tr_pending (fst s) of
        None \<Rightarrow> (acc, s, Ok None)
      | Some p0 \<Rightarrow>
          if trigger = Scheduled \<and> now < pm_first_check_at p0 then (acc, s, Ok None)
          else
            (let (t, r) = read_pending_mv_verification reads 0 trigger cap (fst s); s1 = (t, snd s)
             in case r of
                  Inl e \<Rightarrow> (acc, s1, Err e)
                | Inr (DeadlineTimedOut p ts checked) \<Rightarrow>
                    (acc, close_pending ts (pm_last_readback p) None Unverified
                       ''the fresh MV read at the confirmation deadline did not finish within its bounded verification window'' p s1,
                     Ok (Some (actuation_abort_reason tag p (pm_last_readback p) checked)))
                | Inr (RestoreTimedOut p ts checked) \<Rightarrow>
                    (acc, close_pending ts (pm_last_readback p) None Unverified
                       ''the restore timeout elapsed before MV confirmation completed'' p s1,
                     Ok (Some (actuation_abort_reason tag p (pm_last_readback p) checked)))
                | Inr (ReadReady answer ts checked duration) \<Rightarrow>
                    (case resolve_pending_mv_read lib timing tag answer ts checked allow s1 of
                       (s2, Inl e) \<Rightarrow> (acc, s2, Err e)
                     | (s2, Inr (MvAbort reason)) \<Rightarrow> (acc, s2, Ok (Some reason))
                     | (s2, Inr (MvValue v)) \<Rightarrow>
                         (map_option (observe_mv_verification duration) acc,
                          finalize_pending_mv_verification tag v trigger policy s2))))"

definition resolve_pending_mv_poll ::
  "(string \<Rightarrow> f32 option) \<Rightarrow> text_lib \<Rightarrow> effective_timing \<Rightarrow> batch tick_operation \<Rightarrow> string \<Rightarrow> timestamp
   \<Rightarrow> instant \<Rightarrow> int \<Rightarrow> bool \<Rightarrow> poll_timing \<Rightarrow> mv_tracker \<times> db
   \<Rightarrow> poll_timing \<times> (mv_tracker \<times> db) \<times> (run_error, abort_reason option \<times> bool) result" where
  "resolve_pending_mv_poll parse lib timing values mv_tag checked_at checked duration allow acc s =
     (let answer = (case values of
              TickCompleted b \<Rightarrow> map_sum id TickCompleted (read_numeric_from_batch parse b mv_tag)
            | TickCancelled \<Rightarrow> Ok TickCancelled
            | TickTimedOut \<Rightarrow> Ok TickTimedOut)
      in case resolve_pending_mv_read lib timing mv_tag answer checked_at checked allow s of
           (s1, Inl e) \<Rightarrow> (acc, s1, Err e)
         | (s1, Inr (MvAbort reason)) \<Rightarrow> (acc, s1, Ok (Some reason, False))
         | (s1, Inr (MvValue v)) \<Rightarrow>
             (case finalize_pending_mv_verification mv_tag v Scheduled AuditRequired s1 of
                (s2, r) \<Rightarrow> (observe_mv_verification duration acc, s2, bind_result r (\<lambda>o1. Ok (o1, True)))))"

end
