(* ===== verification/Actuation_Safety.thy ===== *)
theory Actuation_Safety
  imports Actuation
begin

text \<open>
  What the confirmation of an MV command guarantees: no readback confirms both a relay target and the
  value it replaces, a stuck valve never confirms, and a verification ends.
\<close>

section \<open>Confirmation tells the target from the previous value\<close>

lemma rnd_small_multiple:
  assumes "\<bar>n\<bar> < 2 ^ 24" "- 149 \<le> j"
  shows "rnd B32 (of_int n * pow2 j) = of_int n * pow2 j"
proof -
  have "\<bar>of_int n * pow2 j\<bar> < pow2 (j + int (prec B32))"
  proof -
    have "\<bar>of_int n :: rat\<bar> < of_int (2 ^ 24)" using assms(1) by (simp only: of_int_abs[symmetric] of_int_less_iff)
    also have "\<dots> = pow2 24" using pow2_nat[of 24] by simp
    finally have "\<bar>of_int n\<bar> * pow2 j < pow2 24 * pow2 j" by (rule mult_strict_right_mono) simp
    then show ?thesis by (simp add: abs_mult pow2_add mult.commute)
  qed
  moreover have "emin B32 \<le> j" using assms(2) by simp
  ultimately have "ulp_exp B32 (of_int n * pow2 j) \<le> j" by (rule ulp_exp_le)
  moreover have "on_grid j (of_int n * pow2 j)" by (auto simp: on_grid_def)
  ultimately have "on_grid (ulp_exp B32 (of_int n * pow2 j)) (of_int n * pow2 j)" by (rule on_grid_weaken[rotated])
  then show ?thesis by (rule on_grid_rnd_id)
qed

text \<open>A distance of at least half of \<open>a\<close> rounds above a quarter of what \<open>a\<close> rounds to.\<close>

lemma half_above_quarter:
  assumes "1 / 128 < rnd B32 a" "a / 2 \<le> d"
  shows "rnd B32 a / 4 < rnd B32 d"
proof -
  have "rnd B32 (1 / 128) = 1 / 128"
    using rnd_small_multiple[of 1 "- 7"] by (simp add: pow2_minus pow2_nat[of 7, simplified])
  then have a: "1 / 128 \<le> a" using assms(1) rnd_mono[of a "1 / 128" B32] by linarith
  let ?k = "ilog2 a"
  have k: "pow2 ?k \<le> a" "a < pow2 (?k + 1)" using ilog2_bounds[of a] a by auto
  have "pow2 (- 7) = 1 / 128" by (simp add: pow2_minus pow2_nat[of 7, simplified])
  then have "pow2 (- 7) < pow2 (?k + 1)" using a k(2) by linarith
  then have k7: "- 8 < ?k" by simp
  have p: "pow2 (?k + 1) = 16 * pow2 (?k - 3)" "pow2 ?k = 8 * pow2 (?k - 3)"
    "pow2 (?k - 1) = 4 * pow2 (?k - 3)" "pow2 (?k - 2) = 2 * pow2 (?k - 3)"
    by (simp_all add: pow2_add pow2_diff pow2_nat[of 3, simplified] pow2_nat[of 2, simplified])
  have pos: "0 < pow2 (?k - 3)" by simp
  note fixed = rnd_small_multiple[of 1] rnd_small_multiple[of 3]
  show ?thesis
  proof (cases "3 * pow2 (?k - 1) \<le> a")
    case True
    have "3 * pow2 (?k - 2) \<le> d" using True assms(2) p by linarith
    then have "3 * pow2 (?k - 2) \<le> rnd B32 d"
      using rnd_mono[of "3 * pow2 (?k - 2)" d B32] fixed(2)[of "?k - 2"] k7 by simp
    moreover have "rnd B32 a \<le> pow2 (?k + 1)"
      using rnd_mono[of a "pow2 (?k + 1)" B32] fixed(1)[of "?k + 1"] k k7 by simp
    ultimately show ?thesis using p pos by linarith
  next
    case False
    have "pow2 (?k - 1) \<le> d" using k(1) assms(2) p by linarith
    then have "pow2 (?k - 1) \<le> rnd B32 d"
      using rnd_mono[of "pow2 (?k - 1)" d B32] fixed(1)[of "?k - 1"] k7 by simp
    moreover have "rnd B32 a \<le> 3 * pow2 (?k - 1)"
      using rnd_mono[of a "3 * pow2 (?k - 1)" B32] fixed(2)[of "?k - 1"] False k7 by simp
    ultimately show ?thesis using p pos by linarith
  qed
qed

lemma two_halves: "\<not> a / 2 \<le> d \<Longrightarrow> \<not> a / 2 \<le> e \<Longrightarrow> \<not> a \<le> d + (e::rat)"
  by linarith

lemma fl_abs_val [simp]: "val (fl_abs a) = \<bar>val a\<bar>" "is_finite (fl_abs a) = is_finite a"
  by (cases a; auto simp: fl_abs_def)+

lemma fl_abs_round: "is_finite (fl_round F n x) \<Longrightarrow> val (fl_abs (fl_round F n x)) = rnd F \<bar>x\<bar>"
proof -
  assume "is_finite (fl_round F n x)"
  then have "val (fl_abs (fl_round F n x)) = \<bar>rnd F x\<bar>" by (simp add: val_fl_round)
  also have "\<dots> = rnd F \<bar>x\<bar>"
    using rnd_nonneg[of x F] rnd_nonneg[of "- x" F] by (cases "0 \<le> x") (auto simp: rnd_minus)
  finally show ?thesis .
qed

lemma fl_min_le: "fl_le y (fl_min a b) \<Longrightarrow> b \<noteq> NaN \<Longrightarrow> fl_le y b"
  by (cases a; cases b; cases y) (auto simp: fl_min_def fl_le_def fl_lt_def fl_eq_def split: if_splits)

lemma fl_abs_ge: "fl_le (fl_abs a) (Fin b) \<Longrightarrow> is_finite a"
  by (cases a) (auto simp: fl_abs_def fl_le_def fl_lt_def fl_eq_def split: if_splits)

lemma matches_distance:
  assumes "actuation_matches x v tol" "is_finite x" "is_finite v"
    and "\<And>y. fl_le y tol \<Longrightarrow> fl_le y (Fin c)"
  shows "rnd B32 \<bar>val x - val v\<bar> \<le> c"
proof -
  let ?d = "fl_sub B32 x v"
  have le: "fl_le (fl_abs ?d) (Fin c)" using assms(1,4) by (simp add: actuation_matches_def)
  then have fin: "is_finite ?d" by (rule fl_abs_ge)
  obtain n where n: "?d = fl_round B32 n (val x - val v)" using assms(2,3) by (auto simp: fl_sub_finite)
  have "val (fl_abs ?d) = rnd B32 \<bar>val x - val v\<bar>" using fl_abs_round fin unfolding n by blast
  moreover have "val (fl_abs ?d) \<le> c" using le fin fl_le_finite[of "fl_abs ?d" "Fin c"] by simp
  ultimately show ?thesis by simp
qed

text \<open>The tolerance of a relay command is at most a quarter of its step, and the step is not tiny.\<close>

lemma relay_tolerance:
  assumes "mv_actuation_tolerance ARelay target previous mv_span = Ok tol" "is_finite target" "is_finite previous"
  shows "1 / 128 < rnd B32 \<bar>val target - val previous\<bar>"
    and "fl_le y tol \<Longrightarrow> fl_le y (Fin (rnd B32 \<bar>val target - val previous\<bar> / 4))"
proof -
  let ?step = "fl_abs (fl_sub B32 target previous)" and ?a = "\<bar>val target - val previous\<bar>"
  let ?cap = "fl_mul B32 ?step RELAY_STEP_TOLERANCE_FRACTION"
  have step: "is_finite ?step" "\<not> fl_lt ?step MIN_RELAY_STEP"
    and tol: "tol = fl_min (mv_actuation_uncapped_tolerance target previous mv_span) ?cap"
    using assms(1) by (auto simp: mv_actuation_tolerance_def Let_def split: if_splits)
  have fin: "is_finite (fl_sub B32 target previous)" using step(1) by simp
  obtain n where n: "fl_sub B32 target previous = fl_round B32 n (val target - val previous)"
    using assms(2,3) by (auto simp: fl_sub_finite)
  have s: "val ?step = rnd B32 ?a" using fl_abs_round fin unfolding n by blast
  have "is_finite MIN_RELAY_STEP" "1 / 128 < val MIN_RELAY_STEP"
    by (simp_all add: MIN_RELAY_STEP_def fl_simps)
  then have big: "1 / 128 < rnd B32 ?a" using step fl_lt_finite[OF step(1)] s by (auto simp: not_less)
  have rep: "representable B32 (rnd B32 ?a)"
    using representable_fl_in[of "fl_abs (fl_sub B32 target previous)" B32] step(1) s
    by (auto simp: fl_abs_def n)
  have quarter: "representable B32 (rnd B32 ?a / 4)"
  proof -
    have small: "pow2 (emin B32 + int (prec B32)) \<le> 1 / 256"
      by (simp add: pow2_minus) (simp add: pow2_def)
    have "representable B32 (rnd B32 ?a / 2)"
      by (rule representable_half[OF rep]) (use small big in linarith)
    then have "representable B32 (rnd B32 ?a / 2 / 2)"
      by (rule representable_half) (use small big in linarith)
    then show ?thesis by simp
  qed
  have quart: "RELAY_STEP_TOLERANCE_FRACTION = Fin (1 / 4)"
    by (simp add: RELAY_STEP_TOLERANCE_FRACTION_def fl_simps)
  have cap: "is_finite ?cap" "val ?cap = rnd B32 ?a / 4"
    using fl_round_rep[OF quarter] step(1) s unfolding quart fl_mul_def Let_def by simp_all
  show "1 / 128 < rnd B32 ?a" by (rule big)
  show "fl_le y (Fin (rnd B32 ?a / 4))" if "fl_le y tol"
    using fl_min_le[of y _ ?cap] cap fl_le_val(2)[of ?cap y] that unfolding tol by auto
qed

text \<open>C13: A relay command whose tolerance is accepted cannot be confirmed by a stuck valve: no
  readback counts as a match of both the new target and the previously commanded value, whatever
  the MV range, rounding included.  In particular the unchanged previous value never confirms.\<close>

theorem confirmation_discriminates:
  assumes "mv_actuation_tolerance ARelay target previous mv_span = Ok tol"
    and "is_finite target" "is_finite previous"
  shows "\<not> (actuation_matches target readback tol \<and> actuation_matches previous readback tol) \<and>
    \<not> actuation_matches target previous tol"
proof -
  let ?a = "\<bar>val target - val previous\<bar>"
  note big = relay_tolerance(1)[OF assms] and below = relay_tolerance(2)[OF assms]
  have far: "\<not> rnd B32 d \<le> rnd B32 ?a / 4" if "?a / 2 \<le> d" for d
    using half_above_quarter[OF big that] by simp
  have both: "\<not> (actuation_matches target rb tol \<and> actuation_matches previous rb tol)"
    if "is_finite rb" for rb
  proof
    assume m: "actuation_matches target rb tol \<and> actuation_matches previous rb tol"
    have "rnd B32 \<bar>val target - val rb\<bar> \<le> rnd B32 ?a / 4" "rnd B32 \<bar>val previous - val rb\<bar> \<le> rnd B32 ?a / 4"
      using matches_distance[OF _ assms(2) that below] matches_distance[OF _ assms(3) that below] m by blast+
    then have "\<not> ?a / 2 \<le> \<bar>val target - val rb\<bar>" "\<not> ?a / 2 \<le> \<bar>val previous - val rb\<bar>"
      using far by blast+
    moreover have "?a \<le> \<bar>val target - val rb\<bar> + \<bar>val previous - val rb\<bar>"
      using abs_triangle_ineq4[of "val target - val rb" "val previous - val rb"] by simp
    ultimately show False using two_halves by blast
  qed
  have finite: "is_finite rb" if "actuation_matches target rb tol" for rb
  proof -
    have "fl_le (fl_abs (fl_sub B32 target rb)) (Fin (rnd B32 ?a / 4))"
      using that below by (simp add: actuation_matches_def)
    then have "is_finite (fl_sub B32 target rb)" by (rule fl_abs_ge)
    then show ?thesis using assms(2) by (cases rb) (auto simp: fl_sub_def fl_add_def split: if_splits)
  qed
  have "\<not> actuation_matches target previous tol"
  proof
    assume m: "actuation_matches target previous tol"
    have "rnd B32 ?a \<le> rnd B32 ?a / 4" by (rule matches_distance[OF m assms(2,3) below])
    then show False using big by linarith
  qed
  then show ?thesis using both finite by blast
qed


theorem confirmation_discriminates_witness:
  "\<exists>tol. mv_actuation_tolerance ARelay (lit32 55) (lit32 50) (lit32 100) = Ok tol \<and>
     \<not> actuation_matches (lit32 55) (lit32 50) tol"
proof -
  have v: "lit32 55 = Fin 55" "lit32 50 = Fin 50" "lit32 100 = Fin 100" by (simp_all add: fl_simps)
  have step: "fl_abs (fl_sub B32 (Fin 55) (Fin 50)) = Fin 5" by (simp add: fl_simps fl_abs_def)
  have cap: "fl_mul B32 (Fin 5) RELAY_STEP_TOLERANCE_FRACTION = Fin (5 / 4)"
    by (simp add: RELAY_STEP_TOLERANCE_FRACTION_def fl_simps)
  have floor: "f32_precision_floor (Fin 55) (Fin 50) = Fin (55 / 2097152)"
    by (simp add: f32_precision_floor_def F32_EPSILON_def fl_simps fl_abs_def fl_max_def fl_lt_def)
  have least: "\<not> fl_lt (Fin 5) MIN_RELAY_STEP" by (simp add: MIN_RELAY_STEP_def fl_simps fl_lt_def)
  obtain tol where tol: "mv_actuation_tolerance ARelay (Fin 55) (Fin 50) (Fin 100) = Ok tol"
    by (simp add: mv_actuation_tolerance_def step cap floor least fl_le_finite)
  have "\<not> actuation_matches (Fin 55) (Fin 50) tol"
    using confirmation_discriminates[OF tol, of "Fin 50"] by simp
  then show ?thesis using tol v by auto
qed

section \<open>A verification read ends\<close>

fun read_checked_at :: "pending_read \<Rightarrow> instant" where
  "read_checked_at (ReadReady answer ts checked duration) = checked"
| "read_checked_at (DeadlineTimedOut p ts checked) = checked"
| "read_checked_at (RestoreTimedOut p ts checked) = checked"

text \<open>A read is on time when its answer is stamped no later than its limit, up to the scheduler's
  \<open>slack\<close>.\<close>

definition on_time :: "int \<Rightarrow> mv_trigger \<Rightarrow> pending_mv \<Rightarrow> call_limit \<Rightarrow> bounded_read \<Rightarrow> bool" where
  "on_time slack trigger p cap r \<longleftrightarrow>
     br_checked r \<le> fst (mv_verification_read_limit (br_now r) trigger p cap) + slack"

lemma ready_checked:
  "pending_verification_ready t answer checked duration = Ok x \<Longrightarrow> read_checked_at x = checked"
  by (auto simp: pending_verification_ready_def bind_result_Ok_iff split: option.splits)

lemma deadline_limit_le: "fst (mv_verification_read_limit now AtDeadline p cap) \<le> now + secs 1"
  by (cases cap) (auto simp: mv_verification_read_limit_def Let_def MV_ACTUATION_DEADLINE_READ_MAX_def)

lemma scheduled_limit_le: "fst (mv_verification_read_limit now Scheduled p cap) \<le> pm_deadline p"
  by (cases cap) (auto simp: mv_verification_read_limit_def)

declare read_pending_mv_verification.simps [simp del]

lemma read_unfold:
  assumes "tr_pending t = Some p"
  shows "read_pending_mv_verification reads n trigger cap t =
    (case br_answer (reads n) of
       Some answer \<Rightarrow> (t, pending_verification_ready t answer (br_checked (reads n))
                         (saturating_since (br_finished (reads n)) (br_started (reads n))))
     | None \<Rightarrow>
         (case snd (mv_verification_read_limit (br_now (reads n)) trigger p cap) of
            LimitConfirmation \<Rightarrow> read_pending_mv_verification reads (n + 1) AtDeadline cap t
          | LimitDeadline \<Rightarrow> (t\<lparr>tr_pending := None\<rparr>,
              bind_result (checked_at_for_pending p (br_checked (reads n))) (\<lambda>ts.
                Ok (DeadlineTimedOut p ts (br_checked (reads n)))))
          | LimitRestore \<Rightarrow> (t\<lparr>tr_pending := None\<rparr>,
              bind_result (checked_at_for_pending p (br_checked (reads n))) (\<lambda>ts.
                Ok (RestoreTimedOut p ts (br_checked (reads n)))))))"
  using assms by (subst read_pending_mv_verification.simps) (simp add: Let_def)

definition is_ready :: "pending_read \<Rightarrow> bool" where
  "is_ready x = (case x of ReadReady _ _ _ _ \<Rightarrow> True | _ \<Rightarrow> False)"

lemma ready_is_ready: "pending_verification_ready t answer checked duration = Ok x \<Longrightarrow> is_ready x"
  by (auto simp: pending_verification_ready_def bind_result_Ok_iff is_ready_def split: option.splits)

lemma read_without_repeat:
  assumes "tr_pending t = Some p" "read_pending_mv_verification reads n trigger cap t = (t', Ok x)"
    and "br_answer (reads n) \<noteq> None \<or>
      snd (mv_verification_read_limit (br_now (reads n)) trigger p cap) \<noteq> LimitConfirmation"
  shows "read_checked_at x = br_checked (reads n)" "is_ready x \<longleftrightarrow> tr_pending t' \<noteq> None"
proof -
  consider (answered) a where "br_answer (reads n) = Some a" "t' = t"
      "pending_verification_ready t a (br_checked (reads n))
         (saturating_since (br_finished (reads n)) (br_started (reads n))) = Ok x"
    | (cut) ts where "t' = t\<lparr>tr_pending := None\<rparr>"
      "x = DeadlineTimedOut p ts (br_checked (reads n)) \<or> x = RestoreTimedOut p ts (br_checked (reads n))"
    using assms by (auto simp: read_unfold bind_result_Ok_iff split: option.splits limit_kind.splits)
  then show "read_checked_at x = br_checked (reads n)" "is_ready x \<longleftrightarrow> tr_pending t' \<noteq> None"
    by (cases; use assms(1) ready_checked ready_is_ready in \<open>force simp: is_ready_def\<close>)+
qed

lemma deadline_read_local:
  "tr_pending t = Some p \<Longrightarrow> reads' n = reads n \<Longrightarrow>
   read_pending_mv_verification reads' n AtDeadline cap t = read_pending_mv_verification reads n AtDeadline cap t"
  using deadline_limit_kind[of "br_now (reads n)" p cap]
  by (auto simp: read_unfold split: option.splits limit_kind.splits)

lemma read_at_deadline:
  assumes "tr_pending t = Some p"
    and "read_pending_mv_verification reads n AtDeadline cap t = (t', Ok x)"
    and "on_time slack AtDeadline p cap (reads n)"
  shows "read_checked_at x \<le> br_now (reads n) + secs 1 + slack" "is_ready x \<longleftrightarrow> tr_pending t' \<noteq> None"
proof -
  note r = read_without_repeat[OF assms(1,2)] deadline_limit_kind[of "br_now (reads n)" p cap]
  show "is_ready x \<longleftrightarrow> tr_pending t' \<noteq> None" using r by blast
  show "read_checked_at x \<le> br_now (reads n) + secs 1 + slack"
    using r assms(3) deadline_limit_le[of "br_now (reads n)" p cap] by (simp add: on_time_def)
qed

text \<open>C14: Verifying a pending command ends: the loop performs at most two reads, it never loses the
  pending command without saying so, and with reads cut off on time, up to the scheduler's slack, its
  answer is stamped at most one second after the later of the start and the confirmation deadline,
  however long the driver stalls and however large the operation timeout.\<close>

theorem verification_ends:
  assumes "tr_pending t = Some p" and "reads' 0 = reads 0" "reads' 1 = reads 1"
    and "on_time slack trigger p cap (reads 0)" "on_time slack AtDeadline p cap (reads 1)"
    and "br_now (reads 1) \<le> br_checked (reads 0) + slack" "0 \<le> slack"
  shows "read_pending_mv_verification reads' 0 trigger cap t = read_pending_mv_verification reads 0 trigger cap t \<and>
    (\<forall>t' x. read_pending_mv_verification reads 0 trigger cap t = (t', Ok x) \<longrightarrow>
       read_checked_at x \<le> max (br_now (reads 0)) (pm_deadline p) + secs 1 + 3 * slack \<and>
       (is_ready x \<longleftrightarrow> tr_pending t' \<noteq> None))"
proof -
  let ?read = "\<lambda>rs. read_pending_mv_verification rs 0 trigger cap t"
    and ?kind = "snd (mv_verification_read_limit (br_now (reads 0)) trigger p cap)"
  have repeat: "?read rs = read_pending_mv_verification rs 1 AtDeadline cap t"
    if "br_answer (rs 0) = None" "?kind = LimitConfirmation" "rs 0 = reads 0" for rs
    using that by (simp add: read_unfold[OF assms(1), of rs 0])
  have "?read reads' = ?read reads"
  proof (cases "br_answer (reads 0) = None \<and> ?kind = LimitConfirmation")
    case True
    then show ?thesis
      using repeat[of reads] repeat[of reads'] deadline_read_local[of t p reads' 1 reads cap] assms(1-3) by simp
  next
    case False
    then show ?thesis using assms(2)
      by (auto simp: read_unfold[OF assms(1), of _ 0] split: option.splits limit_kind.splits)
  qed
  moreover have "read_checked_at x \<le> max (br_now (reads 0)) (pm_deadline p) + secs 1 + 3 * slack \<and>
      (is_ready x \<longleftrightarrow> tr_pending t' \<noteq> None)" if run: "?read reads = (t', Ok x)" for t' x
  proof (cases trigger)
    case AtDeadline
    from read_at_deadline[OF assms(1) run[unfolded AtDeadline]] assms(4) AtDeadline assms(7)
    show ?thesis by fastforce
  next
    case Scheduled
    have c0: "br_checked (reads 0) \<le> pm_deadline p + slack"
      using assms(4) Scheduled scheduled_limit_le[of "br_now (reads 0)" p cap] by (simp add: on_time_def)
    show ?thesis
    proof (cases "br_answer (reads 0) = None \<and> ?kind = LimitConfirmation")
      case True
      then have "read_pending_mv_verification reads 1 AtDeadline cap t = (t', Ok x)"
        using run repeat[of reads] by simp
      from read_at_deadline[OF assms(1) this assms(5)] show ?thesis using c0 assms(6,7) by auto
    next
      case False
      from read_without_repeat[OF assms(1) run] False c0 assms(7) show ?thesis by (auto simp: secs_def ns_per_sec_def)
    qed
  qed
  ultimately show ?thesis by blast
qed

definition demo_pending :: pending_mv where
  "demo_pending = \<lparr> pm_id = Some 1, pm_kind = ARelay, pm_target = lit32 55, pm_tolerance = lit32 0.1,
     pm_switch_tick = 0, pm_switch_instant = 0, pm_accepted_instant = 0, pm_first_check_at = secs 3,
     pm_deadline = secs 4, pm_last_readback = None \<rparr>"

definition demo_tracker :: mv_tracker where
  "demo_tracker = \<lparr> tr_next_sequence = 1, tr_previous_commanded_mv = lit32 55, tr_confirmed_mv = None,
     tr_pending = Some demo_pending, tr_mv_span = lit32 100 \<rparr>"

text \<open>A driver that never answers.\<close>

definition stalled_reads :: "nat \<Rightarrow> bounded_read" where
  "stalled_reads n = (let t = (if n = 0 then secs 3 else secs 4); e = (if n = 0 then secs 4 else secs 5)
     in \<lparr> br_now = t, br_started = t, br_finished = e, br_checked = e, br_answer = None \<rparr>)"

theorem verification_ends_witness:
  "\<exists>t' x. read_pending_mv_verification stalled_reads 0 Scheduled NoLimit demo_tracker = (t', Ok x) \<and>
     read_checked_at x \<le> secs 5 \<and> tr_pending t' = None"
proof -
  let ?run = "read_pending_mv_verification stalled_reads 0 Scheduled NoLimit demo_tracker"
  have p: "tr_pending demo_tracker = Some demo_pending" by (simp add: demo_tracker_def)
  have run: "?run = (demo_tracker\<lparr>tr_pending := None\<rparr>, Ok (DeadlineTimedOut demo_pending (secs 5) (secs 5)))"
    by (simp add: read_unfold[OF p] stalled_reads_def Let_def mv_verification_read_limit_def
      checked_at_for_pending_def duration_from_std_def delta_max_def saturating_since_def demo_pending_def
      secs_def ns_per_sec_def ns_per_ms_def)
  have on: "on_time 0 Scheduled demo_pending NoLimit (stalled_reads 0)"
    "on_time 0 AtDeadline demo_pending NoLimit (stalled_reads 1)"
    "br_now (stalled_reads 1) \<le> br_checked (stalled_reads 0) + 0"
    by (simp_all add: on_time_def stalled_reads_def Let_def mv_verification_read_limit_def demo_pending_def
      MV_ACTUATION_DEADLINE_READ_MAX_def secs_def)
  from verification_ends[OF p refl refl on] run show ?thesis
    by (auto simp: is_ready_def stalled_reads_def demo_pending_def secs_def)
qed

end
