(* ===== verification/Actuation_Audit.thy ===== *)
theory Actuation_Audit
  imports Actuation_Safety Db_Retention
begin

text \<open>
  The audit rows of MV commands against the tracker of a run: any sequence of the tracker's operations
  keeps exactly the pending command open, and a late readback never confirms it.
\<close>

section \<open>The audit mirrors the tracker\<close>

text \<open>The open rows of a run: identity, kind, target and tolerance of the commands still pending.\<close>

definition open_rows :: "int \<Rightarrow> db \<Rightarrow> (int \<times> mv_actuation_kind \<times> f32 \<times> f32) set" where
  "open_rows rid d =
     {(mva_id a, mva_kind a, target_mv a, tolerance a) | a.
        a \<in> set (actuations d) \<and> mva_run_id a = rid \<and> mva_status a = Pending}"

definition tracker_open :: "mv_tracker \<Rightarrow> (int \<times> mv_actuation_kind \<times> f32 \<times> f32) set" where
  "tracker_open t =
     (case tr_pending t of
        None \<Rightarrow> {}
      | Some p \<Rightarrow> (case pm_id p of None \<Rightarrow> {} | Some i \<Rightarrow> {(i, pm_kind p, pm_target p, pm_tolerance p)}))"

definition rows_sound :: "db \<Rightarrow> bool" where
  "rows_sound d \<longleftrightarrow>
     distinct (map mva_id (actuations d)) \<and>
     (\<forall>a \<in> set (actuations d). mva_id a \<le> actuations_seq d \<and> actuation_check a)"

definition mirrored :: "int \<Rightarrow> mv_tracker \<times> db \<Rightarrow> bool" where
  "mirrored rid s \<longleftrightarrow> rows_sound (snd s) \<and> open_rows rid (snd s) = tracker_open (fst s)"

lemma insert_open:
  assumes "insert_pending rid new d = (d', r)" "rows_sound d"
  shows "rows_sound d'"
    "\<And>row. r = Ok row \<Longrightarrow> open_rows rid d' =
        insert (mva_id row, nmva_kind new, nmva_target_mv new, nmva_tolerance new) (open_rows rid d)"
    "\<And>e. r = Err e \<Longrightarrow> d' = d"
proof -
  let ?a = "\<lparr> mva_id = actuations_seq d + 1, mva_run_id = rid, mva_sequence = nmva_sequence new,
               mva_kind = nmva_kind new, commanded_at = nmva_commanded_at new,
               target_mv = nmva_target_mv new,
               previous_commanded_mv = real_column (nmva_previous_commanded_mv new),
               tolerance = nmva_tolerance new,
               confirmation_due_at = nmva_confirmation_due_at new, last_checked_at = None,
               readback_mv = None, readback_quality = None, attempt_count = 0,
               mva_status = Pending, mva_detail = None \<rparr>"
  obtain a where a: "a = ?a" by blast
  obtain C where C: "C \<longleftrightarrow> actuation_check a \<and> exists_row (\<lambda>r. run_id r = rid) (runs d) \<and>
      \<not> exists_row (\<lambda>x. mva_run_id x = rid \<and> mva_sequence x = mva_sequence a) (actuations d)" by blast
  have "insert_pending rid new d =
      (if C then (d\<lparr>actuations := actuations d @ [a], actuations_seq := mva_id a\<rparr>, Ok a) else (d, Err Query))"
    unfolding insert_pending_def run_tx_def Let_def a[symmetric] C[symmetric] by (cases C) simp_all
  then have C_cases: "C \<Longrightarrow> d' = d\<lparr>actuations := actuations d @ [a], actuations_seq := mva_id a\<rparr> \<and> r = Ok a"
      "\<not> C \<Longrightarrow> d' = d \<and> r = Err Query"
    using assms(1) by simp_all
  consider (stop) "d' = d" "r = Err Query"
    | (commit) "actuation_check a" "d' = d\<lparr>actuations := actuations d @ [a], actuations_seq := mva_id a\<rparr>" "r = Ok a"
    using C C_cases by blast
  note cases = this
  have fields: "mva_id a = actuations_seq d + 1" "mva_run_id a = rid" "mva_status a = Pending"
    "mva_kind a = nmva_kind new" "target_mv a = nmva_target_mv new" "tolerance a = nmva_tolerance new"
    by (simp_all add: a)
  have fresh: "mva_id x \<noteq> mva_id a" "mva_id x \<le> mva_id a" if "x \<in> set (actuations d)" for x
    using assms(2) that fields(1) by (force simp: rows_sound_def)+
  show "rows_sound d'"
    using cases
  proof cases
    case commit
    have "mva_id a \<notin> mva_id ` set (actuations d)" using fresh(1) by fastforce
    then show ?thesis using assms(2) fresh(2) commit(1) unfolding commit(2) by (simp add: rows_sound_def)
  qed (use assms(2) in simp)
  show "open_rows rid d' = insert (mva_id row, nmva_kind new, nmva_target_mv new, nmva_tolerance new) (open_rows rid d)"
    if "r = Ok row" for row
    using cases
  proof cases
    case commit
    then have "row = a" "d' = d\<lparr>actuations := actuations d @ [a], actuations_seq := mva_id a\<rparr>" using that by auto
    moreover have "{b \<in> set (actuations d @ [a]). mva_run_id b = rid \<and> mva_status b = Pending} =
        insert a {b \<in> set (actuations d). mva_run_id b = rid \<and> mva_status b = Pending}"
      using fields(2,3) by auto
    ultimately show ?thesis by (simp add: open_rows_def setcompr_eq_image fields)
  qed (use that in simp)
  show "d' = d" if "r = Err e" for e
    using cases by cases (use that in auto)
qed

lemma image_filter_keep:
  assumes "\<And>b. b \<in> S \<Longrightarrow> Q (h b) = Q b" "\<And>b. b \<in> S \<Longrightarrow> g (h b) = g b"
  shows "g ` {c \<in> h ` S. Q c} = g ` {b \<in> S. Q b}"
proof -
  have "{c \<in> h ` S. Q c} = h ` {b \<in> S. Q b}" using assms(1) by auto
  then show ?thesis using assms(2) by (simp add: image_image)
qed

lemma image_filter_drop:
  assumes "a \<in> S" "\<And>b. b \<in> S \<Longrightarrow> b \<noteq> a \<Longrightarrow> h b = b" "\<not> Q (h a)"
    and "\<And>b. b \<in> S \<Longrightarrow> g b = g a \<Longrightarrow> b = a"
  shows "g ` {c \<in> h ` S. Q c} = g ` {b \<in> S. Q b} - {g a}"
proof -
  have "{c \<in> h ` S. Q c} = {b \<in> S. Q b} - {a}"
  proof (intro equalityI subsetI)
    fix c assume "c \<in> {c \<in> h ` S. Q c}"
    then obtain b where b: "b \<in> S" "c = h b" "Q c" by blast
    then have "b \<noteq> a" using assms(3) by blast
    then show "c \<in> {b \<in> S. Q b} - {a}" using b assms(2) by simp
  next
    fix c assume c: "c \<in> {b \<in> S. Q b} - {a}"
    then have "h c = c" using assms(2) by blast
    then show "c \<in> {c \<in> h ` S. Q c}" using c by (metis (mono_tags, lifting) Diff_iff image_eqI mem_Collect_eq)
  qed
  moreover have "g ` ({b \<in> S. Q b} - {a}) = g ` {b \<in> S. Q b} - {g a}"
  proof (intro equalityI subsetI)
    fix y assume "y \<in> g ` ({b \<in> S. Q b} - {a})"
    then obtain b where b: "b \<in> S" "Q b" "b \<noteq> a" "y = g b" by blast
    then have "g b \<noteq> g a" using assms(4) by blast
    then show "y \<in> g ` {b \<in> S. Q b} - {g a}" using b by simp
  qed blast
  ultimately show ?thesis by simp
qed

lemma update_open:
  assumes "rows_sound d" "(i, k, x, y) \<in> open_rows rid d"
    and "\<And>a. actuation_check a \<Longrightarrow> actuation_check (f a)"
    and "\<And>a. mva_id (f a) = mva_id a \<and> mva_run_id (f a) = mva_run_id a \<and> mva_kind (f a) = mva_kind a \<and>
              target_mv (f a) = target_mv a \<and> tolerance (f a) = tolerance a"
    and "\<And>a. mva_status a = Pending \<Longrightarrow> mva_status (f a) = Pending \<longleftrightarrow> stays"
  shows "\<exists>row d'. update_pending i f d = (d', Ok row) \<and> rows_sound d' \<and>
    open_rows rid d' = open_rows rid d - (if stays then {} else {(i, k, x, y)}) \<and>
    row \<in> set (actuations d') \<and> mva_id row = i \<and> (\<exists>a. mva_status a = Pending \<and> row = f a)"
proof -
  let ?P = "\<lambda>a. mva_id a = i \<and> mva_status a = Pending"
    and ?Q = "\<lambda>b. mva_run_id b = rid \<and> mva_status b = Pending"
    and ?g = "\<lambda>b. (mva_id b, mva_kind b, target_mv b, tolerance b)"
  obtain a where a: "a \<in> set (actuations d)" "mva_id a = i" "mva_run_id a = rid" "mva_status a = Pending"
    "mva_kind a = k" "target_mv a = x" "tolerance a = y"
    using assms(2) by (auto simp: open_rows_def)
  have dist: "distinct (map mva_id (actuations d))" using assms(1) by (simp add: rows_sound_def)
  have only: "b = a" if "b \<in> set (actuations d)" "mva_id b = i" for b
    using key_unique[OF dist that(1) a(1)] that a(2) by simp
  let ?t = "update_where ?P f (actuations d)"
  have one: "affected ?P (actuations d) = 1"
    using affected_distinct[OF dist, of ?P i] a by auto
  have chk: "\<And>b. b \<in> set (actuations d) \<Longrightarrow> actuation_check b" using assms(1) by (simp add: rows_sound_def)
  have "sql_update actuation_check ?P f (actuations d) = Some (?t, 1)"
    using one chk assms(3) by (auto simp: sql_update_def list_all_iff)
  then have up: "update_pending i f d = (d\<lparr>actuations := ?t\<rparr>, Ok (f (hd (filter ?P (actuations d)))))"
    by (simp add: update_pending_def one_row_def run_tx_def Let_def)
  have ids: "map mva_id ?t = map mva_id (actuations d)" using assms(4) by (intro map_update_where_fixed) simp
  have "rows_sound (d\<lparr>actuations := ?t\<rparr>)"
    using assms(1,3,4) ids by (auto simp: rows_sound_def)
  moreover have "open_rows rid (d\<lparr>actuations := ?t\<rparr>) = open_rows rid d - (if stays then {} else {(i, k, x, y)})"
  proof (cases stays)
    case True
    have "?g ` {b \<in> set ?t. ?Q b} = ?g ` {b \<in> set (actuations d). ?Q b}"
      unfolding set_update_where by (rule image_filter_keep) (use assms(4,5) True in auto)
    then show ?thesis using True by (simp add: open_rows_def setcompr_eq_image)
  next
    case False
    have "?g ` {b \<in> set ?t. ?Q b} = ?g ` {b \<in> set (actuations d). ?Q b} - {?g a}"
      unfolding set_update_where
    proof (rule image_filter_drop[OF a(1)])
      show "(if ?P b then f b else b) = b" if "b \<in> set (actuations d)" "b \<noteq> a" for b
        using only that by auto
      show "\<not> ?Q (if ?P a then f a else a)" using assms(5)[OF a(4)] False a by simp
      show "b = a" if "b \<in> set (actuations d)" "?g b = ?g a" for b using only that a(2) by simp
    qed
    then show ?thesis using False a by (simp add: open_rows_def setcompr_eq_image)
  qed
  moreover have "hd (filter ?P (actuations d)) = a"
  proof -
    have "filter ?P (actuations d) \<noteq> []" using a by (auto simp: filter_empty_conv)
    then have "hd (filter ?P (actuations d)) \<in> set (filter ?P (actuations d))" by (rule hd_in_set)
    then show ?thesis using only by auto
  qed
  moreover have "f a \<in> set ?t" using a unfolding set_update_where by (intro image_eqI[of _ _ a]) auto
  ultimately show ?thesis using up a(2,4) assms(4) by (intro exI[of _ "f a"] exI[of _ "d\<lparr>actuations := ?t\<rparr>"]) auto
qed


text \<open>What a closing operation does to the state: the pending command leaves the tracker and its
  row, if there is one, leaves the open rows.\<close>

lemma observed_keeps:
  "mva_id (observed c rb q a) = mva_id a" "mva_run_id (observed c rb q a) = mva_run_id a"
  "mva_kind (observed c rb q a) = mva_kind a" "target_mv (observed c rb q a) = target_mv a"
  "tolerance (observed c rb q a) = tolerance a" "mva_status (observed c rb q a) = mva_status a"
  "actuation_check a \<Longrightarrow> actuation_check (observed c rb q a)"
  by (simp_all add: observed_def actuation_check_def)

lemma status_keeps: "actuation_check (a\<lparr>mva_status := s, mva_detail := x\<rparr>) = actuation_check a"
  by (simp add: actuation_check_def)

lemma final_observation_open:
  assumes "rows_sound d" "(i, k, x, y) \<in> open_rows rid d" "st \<noteq> Pending"
  shows "\<exists>row d'. record_final_observation i c rb q st detail d = (d', Ok row) \<and> rows_sound d' \<and>
    open_rows rid d' = open_rows rid d - {(i, k, x, y)} \<and>
    row \<in> set (actuations d') \<and> mva_id row = i \<and> mva_status row = st"
proof -
  have "ensure_terminal st = Ok ()" using assms(3) by (simp add: ensure_terminal_def)
  then show ?thesis
    using update_open[OF assms(1,2), of "\<lambda>a. (observed c rb q a)\<lparr>mva_status := st, mva_detail := detail\<rparr>" False] assms(3)
    by (auto simp: record_final_observation_def observed_keeps status_keeps)
qed

lemma finalize_open:
  assumes "rows_sound d" "(i, k, x, y) \<in> open_rows rid d" "st \<noteq> Pending"
  shows "\<exists>row d'. actuation_finalize i st detail d = (d', Ok row) \<and> rows_sound d' \<and>
    open_rows rid d' = open_rows rid d - {(i, k, x, y)} \<and>
    row \<in> set (actuations d') \<and> mva_id row = i \<and> mva_status row = st"
proof -
  have "ensure_terminal st = Ok ()" using assms(3) by (simp add: ensure_terminal_def)
  then show ?thesis
    using update_open[OF assms(1,2), of "\<lambda>a. a\<lparr>mva_status := st, mva_detail := detail\<rparr>" False] assms(3)
    by (auto simp: actuation_finalize_def status_keeps)
qed

lemma observation_open:
  assumes "rows_sound d" "(i, k, x, y) \<in> open_rows rid d"
  shows "\<exists>row d'. record_observation i c rb q d = (d', Ok row) \<and> rows_sound d' \<and>
    open_rows rid d' = open_rows rid d \<and>
    row \<in> set (actuations d') \<and> mva_id row = i \<and> mva_status row = Pending"
  using update_open[OF assms, of "observed c rb q" True]
  by (auto simp: record_observation_def observed_keeps)

lemma tracker_open_Some:
  "tr_pending t = Some p \<Longrightarrow>
   tracker_open t = (case pm_id p of None \<Rightarrow> {} | Some i \<Rightarrow> {(i, pm_kind p, pm_target p, pm_tolerance p)})"
  by (simp add: tracker_open_def)

lemma tracker_open_None [simp]: "tr_pending t = None \<Longrightarrow> tracker_open t = {}"
  by (simp add: tracker_open_def)

lemma close_mirrored:
  assumes "rows_sound d" "open_rows rid d = tracker_open t" "tr_pending t = Some p" "st \<noteq> Pending"
  shows "rows_sound (fst (record_final_actuation_observation p c rb q st detail d))"
    "open_rows rid (fst (record_final_actuation_observation p c rb q st detail d)) = {}"
    "rows_sound (finalize_actuation_best_effort p st detail d)"
    "open_rows rid (finalize_actuation_best_effort p st detail d) = {}"
proof -
  have "rows_sound (fst (record_final_actuation_observation p c rb q st detail d)) \<and>
      open_rows rid (fst (record_final_actuation_observation p c rb q st detail d)) = {} \<and>
      rows_sound (finalize_actuation_best_effort p st detail d) \<and>
      open_rows rid (finalize_actuation_best_effort p st detail d) = {}"
  proof (cases "pm_id p")
    case None
    then show ?thesis using assms
      by (simp add: record_final_actuation_observation_def finalize_actuation_best_effort_def tracker_open_Some)
  next
    case (Some i)
    have o': "open_rows rid d = {(i, pm_kind p, pm_target p, pm_tolerance p)}"
      using assms(2,3) Some by (simp add: tracker_open_Some)
    then have m: "(i, pm_kind p, pm_target p, pm_tolerance p) \<in> open_rows rid d" by simp
    obtain row d1 where 1: "record_final_observation i c rb q st (if detail \<noteq> [] then Some detail else None) d = (d1, Ok row)"
      "rows_sound d1" "open_rows rid d1 = {}"
      using final_observation_open[OF assms(1) m assms(4)] unfolding o' by fastforce
    obtain row' d2 where 2: "actuation_finalize i st (Some detail) d = (d2, Ok row')"
      "rows_sound d2" "open_rows rid d2 = {}"
      using finalize_open[OF assms(1) m assms(4)] unfolding o' by fastforce
    show ?thesis
      unfolding record_final_actuation_observation_def finalize_actuation_best_effort_def
      using 1 2 by (simp add: Some)
  qed
  then show "rows_sound (fst (record_final_actuation_observation p c rb q st detail d))"
    "open_rows rid (fst (record_final_actuation_observation p c rb q st detail d)) = {}"
    "rows_sound (finalize_actuation_best_effort p st detail d)"
    "open_rows rid (finalize_actuation_best_effort p st detail d) = {}"
    by blast+
qed


section \<open>Steps of the tracker\<close>

lemma mirrored_iff: "mirrored rid (t, d) \<longleftrightarrow> rows_sound d \<and> open_rows rid d = tracker_open t"
  by (simp add: mirrored_def)

lemma close_pending_mirrored:
  assumes "rows_sound d" "open_rows rid d = tracker_open t" "tr_pending t = Some p" "st \<noteq> Pending"
    and "tr_pending t' = tr_pending t \<or> tr_pending t' = None"
  shows "mirrored rid (close_pending c rb q st detail p (t', d))"
  using close_mirrored[OF assms(1-4)] by (simp add: close_pending_def mirrored_def)

lemma accept_mirrored:
  assumes "mirrored rid s" "tr_pending (fst s) = None"
  shows "mirrored rid (fst (record_accepted_at_switch rid kind target st si fc ca ci tol s))"
    "mirrored rid (record_restore_accepted_best_effort rid target ca ci tol s)"
    "mirrored rid (fst (record_restore_accepted_required rid target ca ci tol s))"
proof -
  obtain t d where s: "s = (t, d)" by (cases s)
  have m: "rows_sound d" "open_rows rid d = {}" "tr_pending t = None"
    using assms by (simp_all add: s mirrored_def)
  have ins: "insert_pending rid (new_actuation t k x y z) d = (d', r) \<Longrightarrow>
      rows_sound d' \<and> (case r of Inl e \<Rightarrow> d' = d | Inr row \<Rightarrow> open_rows rid d' = {(mva_id row, k, x, y)})" for k x y z d' r
    using insert_open[of rid "new_actuation t k x y z" d d' r] m(1,2)
    by (auto simp: new_actuation_def split: sum.splits)
  show "mirrored rid (fst (record_accepted_at_switch rid kind target st si fc ca ci tol s))"
    "mirrored rid (record_restore_accepted_best_effort rid target ca ci tol s)"
    "mirrored rid (fst (record_restore_accepted_required rid target ca ci tol s))"
    unfolding s record_accepted_at_switch_def record_restore_accepted_best_effort_def
      record_restore_accepted_required_def Let_def
    using m by (auto dest!: ins simp: mirrored_iff accept_pending_def tracker_open_def restore_pending_def
      split: prod.split sum.splits)
qed

lemma resolve_mirrored:
  assumes "mirrored rid s" "resolve_pending_mv_read lib timing tag answer c ci allow s = (s', r)"
  shows "mirrored rid s'" "\<And>v. r = Ok (MvValue v) \<Longrightarrow> s' = s"
proof -
  obtain t d where s: "s = (t, d)" by (cases s)
  have m: "rows_sound d" "open_rows rid d = tracker_open t" using assms(1) by (simp_all add: s mirrored_def)
  have fin: "mirrored rid (t\<lparr>tr_pending := None\<rparr>, finalize_actuation_best_effort p Unverified x d)"
    if "tr_pending t = Some p" for p x
    using close_mirrored(3,4)[OF m that, of Unverified x] by (simp add: mirrored_iff)
  have close: "mirrored rid (close_pending c rb q Unverified x p (t, d))" if "tr_pending t = Some p" for p rb q x
    using close_pending_mirrored[OF m that, of Unverified t] by simp
  show "mirrored rid s'" "\<And>v. r = Ok (MvValue v) \<Longrightarrow> s' = s"
    using assms(1,2) fin close unfolding s
    by (auto simp: resolve_pending_mv_read_def split: sum.splits tick_operation.splits option.splits if_splits)
qed

lemma finalize_mirrored:
  assumes "mirrored rid s" "finalize_pending_mv_verification tag v trigger policy s = (s', r)"
  shows "mirrored rid s'"
proof -
  obtain t d where s: "s = (t, d)" by (cases s)
  have m: "rows_sound d" "open_rows rid d = tracker_open t" using assms(1) by (simp_all add: s mirrored_def)
  show ?thesis
  proof (cases "tr_pending t")
    case None
    then show ?thesis using assms by (simp add: finalize_pending_mv_verification_def s)
  next
    case (Some p)
    have close: "mirrored rid (close_pending c rb q Failed x p (t\<lparr>tr_pending := None\<rparr>, d))" for c rb q x
      using close_pending_mirrored[OF m Some, of Failed "t\<lparr>tr_pending := None\<rparr>"] by simp
    have confirm: "mirrored rid (fst (confirm_pending_mv_actuation p c rb q policy (t\<lparr>tr_pending := None\<rparr>, d)))" for c rb q
    proof (cases "pm_id p")
      case (Some i)
      with \<open>tr_pending t = Some p\<close> m have m1: "(i, pm_kind p, pm_target p, pm_tolerance p) \<in> open_rows rid d"
        and o1: "open_rows rid d = {(i, pm_kind p, pm_target p, pm_tolerance p)}"
        by (simp_all add: tracker_open_Some)
      from final_observation_open[OF m(1) m1, of Confirmed c "Some rb" "Some q" None] show ?thesis
        by (auto simp: confirm_pending_mv_actuation_def Some mirrored_iff o1 tracker_open_def)
    qed (use m Some in \<open>auto simp: confirm_pending_mv_actuation_def mirrored_iff tracker_open_def\<close>)
    have confirm': "confirm_pending_mv_actuation p c rb q policy (t\<lparr>tr_pending := None\<rparr>, d) = (s1, r1) \<Longrightarrow>
        mirrored rid s1" for c rb q s1 r1
      using confirm[of c rb q] by simp
    have observe: "case record_actuation_observation p c rb q policy d of (d', r) \<Rightarrow>
        is_ok r \<and> rows_sound d' \<and> open_rows rid d' = tracker_open t" for c rb q
    proof (cases "pm_id p")
      case (Some i)
      with \<open>tr_pending t = Some p\<close> m have m1: "(i, pm_kind p, pm_target p, pm_tolerance p) \<in> open_rows rid d"
        by (simp add: tracker_open_Some)
      from observation_open[OF m(1) m1, of c rb q] show ?thesis using m
        by (auto simp: record_actuation_observation_def Some)
    qed (use m in \<open>auto simp: record_actuation_observation_def\<close>)
    have kept: "tracker_open (t\<lparr>tr_pending := Some (p\<lparr>pm_last_readback := x\<rparr>)\<rparr>) = tracker_open t" for x
      using Some by (simp add: tracker_open_def split: option.splits)
    show ?thesis
      using assms(2) close confirm' observe[of "mvv_checked_at v" "Some (mvv_readback v)" "Some (mvv_sample_quality v)"]
      unfolding s finalize_pending_mv_verification_def Let_def
      by (auto simp: Some mirrored_iff kept split: if_splits prod.splits sum.splits)
  qed
qed


lemma read_leaves:
  assumes "tr_pending t = Some p" "read_pending_mv_verification reads n trigger cap t = (t', r)"
  shows "t' = t \<and> (\<forall>x. r = Ok x \<longrightarrow> is_ready x) \<or>
    t' = t\<lparr>tr_pending := None\<rparr> \<and>
      (r = Err ETimeRange \<or> (\<exists>ts c. r = Ok (DeadlineTimedOut p ts c) \<or> r = Ok (RestoreTimedOut p ts c)))"
proof -
  have once: "?thesis" if "tr_pending t = Some p" "read_pending_mv_verification reads n trigger cap t = (t', r)"
      "br_answer (reads n) \<noteq> None \<or> snd (mv_verification_read_limit (br_now (reads n)) trigger p cap) \<noteq> LimitConfirmation"
    for n trigger
  proof (cases "br_answer (reads n)")
    case (Some a)
    then show ?thesis using that(1,2) by (auto simp: read_unfold dest: ready_is_ready)
  next
    case None
    have time: "checked_at_for_pending p c = Err e \<Longrightarrow> e = ETimeRange" for c e
      by (auto simp: checked_at_for_pending_def duration_from_std_def split: if_splits)
    show ?thesis using that None
      by (cases "checked_at_for_pending p (br_checked (reads n))")
        (auto simp: read_unfold dest: time split: limit_kind.splits)
  qed
  show ?thesis
  proof (cases "br_answer (reads n) = None \<and> snd (mv_verification_read_limit (br_now (reads n)) trigger p cap) = LimitConfirmation")
    case True
    then have "read_pending_mv_verification reads (n + 1) AtDeadline cap t = (t', r)"
      using assms(2) by (simp add: read_unfold[OF assms(1), of reads n])
    then show ?thesis using once[OF assms(1)] deadline_limit_kind by blast
  qed (use once assms in blast)
qed

lemma verify_mirrored:
  assumes "mirrored rid s"
    and "verify_pending_mv_actuation lib timing tag allow now reads trigger cap policy acc s = (acc', s', r)"
    and "r \<noteq> Err ETimeRange"
  shows "mirrored rid s'"
proof -
  obtain t d where s: "s = (t, d)" by (cases s)
  have m: "rows_sound d" "open_rows rid d = tracker_open t" using assms(1) by (simp_all add: s mirrored_def)
  show ?thesis
  proof (cases "tr_pending t = None \<or> (\<exists>p. tr_pending t = Some p \<and> trigger = Scheduled \<and> now < pm_first_check_at p)")
    case True
    then show ?thesis using assms(1,2) by (auto simp: verify_pending_mv_actuation_def s)
  next
    case False
    then obtain p where p: "tr_pending t = Some p" "\<not> (trigger = Scheduled \<and> now < pm_first_check_at p)" by auto
    obtain t1 r1 where read: "read_pending_mv_verification reads 0 trigger cap t = (t1, r1)" by fastforce
    from read_leaves[OF p(1) read] show ?thesis
    proof (elim disjE conjE)
      assume t1: "t1 = t" and rdy: "\<forall>x. r1 = Ok x \<longrightarrow> is_ready x"
      show ?thesis
      proof (cases r1)
        case (Inl e)
        then show ?thesis using assms(1,2) p read t1 by (auto simp: verify_pending_mv_actuation_def s Let_def)
      next
        case (Inr x)
        then obtain answer ts c dur where x: "x = ReadReady answer ts c dur"
          using rdy by (cases x) (auto simp: is_ready_def)
        obtain s2 r2 where res: "resolve_pending_mv_read lib timing tag answer ts c allow (t, d) = (s2, r2)" by fastforce
        have m2: "mirrored rid s2" using resolve_mirrored(1)[OF _ res] assms(1) s by simp
        have f: "mirrored rid (fst (finalize_pending_mv_verification tag v trigger policy s2))" for v
          using finalize_mirrored[OF m2, of tag v trigger policy] by (metis prod.collapse)
        have "verify_pending_mv_actuation lib timing tag allow now reads trigger cap policy acc s =
            (case r2 of Inl e \<Rightarrow> (acc, s2, Err e) | Inr (MvAbort reason) \<Rightarrow> (acc, s2, Ok (Some reason))
             | Inr (MvValue v) \<Rightarrow> (map_option (observe_mv_verification dur) acc,
                 finalize_pending_mv_verification tag v trigger policy s2))"
          using p read t1 Inr x res
          by (auto simp: verify_pending_mv_actuation_def s Let_def split: sum.split mv_result.split)
        then show ?thesis using assms(2) m2 f
          by (cases r2) (auto split: mv_result.splits, metis fst_conv)
      qed
    next
      assume "t1 = t\<lparr>tr_pending := None\<rparr>" "r1 = Err ETimeRange"
      then show ?thesis using assms(2,3) p read by (auto simp: verify_pending_mv_actuation_def s Let_def)
    next
      assume t1: "t1 = t\<lparr>tr_pending := None\<rparr>"
        and "\<exists>ts c. r1 = Ok (DeadlineTimedOut p ts c) \<or> r1 = Ok (RestoreTimedOut p ts c)"
      moreover have "mirrored rid (close_pending ts rb q Unverified x p (t1, d))" for ts rb q x
        using close_pending_mirrored[OF m p(1), of Unverified t1] t1 by simp
      ultimately show ?thesis using assms(2) p read
        by (auto simp: verify_pending_mv_actuation_def s Let_def)
    qed
  qed
qed

lemma poll_mirrored:
  assumes "mirrored rid s"
    and "resolve_pending_mv_poll parse lib timing values tag c ci dur allow acc s = (acc', s', r)"
  shows "mirrored rid s'"
proof -
  obtain answer where a: "resolve_pending_mv_poll parse lib timing values tag c ci dur allow acc s =
     (case resolve_pending_mv_read lib timing tag answer c ci allow s of
           (s1, Inl e) \<Rightarrow> (acc, s1, Err e)
         | (s1, Inr (MvAbort reason)) \<Rightarrow> (acc, s1, Ok (Some reason, False))
         | (s1, Inr (MvValue v)) \<Rightarrow>
             (case finalize_pending_mv_verification tag v Scheduled AuditRequired s1 of
                (s2, r) \<Rightarrow> (observe_mv_verification dur acc, s2, bind_result r (\<lambda>o1. Ok (o1, True)))))"
    unfolding resolve_pending_mv_poll_def Let_def by blast
  obtain s1 r1 where res: "resolve_pending_mv_read lib timing tag answer c ci allow s = (s1, r1)" by fastforce
  have m1: "mirrored rid s1" by (rule resolve_mirrored(1)[OF assms(1) res])
  show ?thesis
    using assms(2) m1 finalize_mirrored[OF m1] unfolding a
    by (auto simp: res split: sum.splits mv_result.splits prod.splits)
qed

text \<open>What the tracker of a run does: a command is accepted only when none is pending, as the polling
  loop and the restore arrange; the two answers that would need a clock running for longer than
  chrono can represent are left out.\<close>

inductive track_step :: "int \<Rightarrow> mv_tracker \<times> db \<Rightarrow> mv_tracker \<times> db \<Rightarrow> bool" for rid where
  accept_relay: "tr_pending (fst s) = None \<Longrightarrow>
    track_step rid s (fst (record_relay_actuation rid target st si fc el ai tol s))"
| accept_restore: "tr_pending (fst s) = None \<Longrightarrow>
    track_step rid s (record_restore_accepted_best_effort rid target ca ci tol s)"
| accept_restore_required: "tr_pending (fst s) = None \<Longrightarrow>
    track_step rid s (fst (record_restore_accepted_required rid target ca ci tol s))"
| verify: "verify_pending_mv_actuation lib timing tag allow now reads trigger cap policy acc s = (acc', s', r) \<Longrightarrow>
    r \<noteq> Err ETimeRange \<Longrightarrow> track_step rid s s'"
| poll: "resolve_pending_mv_poll parse lib timing values tag c ci dur allow acc s = (acc', s', r) \<Longrightarrow>
    track_step rid s s'"
| reject: "track_step rid s (fst (reject_replacement_for_pending_actuation tag now s))"
| supersede: "track_step rid s (supersede_pending_actuation_best_effort detail s)"

inductive track_reach :: "int \<Rightarrow> mv_tracker \<times> db \<Rightarrow> bool" for rid where
  start: "rows_sound d \<Longrightarrow> open_rows rid d = {} \<Longrightarrow> tracker_for_run q i = Some t \<Longrightarrow> track_reach rid (t, d)"
| step: "track_reach rid s \<Longrightarrow> track_step rid s s' \<Longrightarrow> track_reach rid s'"

inductive_cases track_stepE: "track_step rid s s'"

lemma step_mirrored:
  assumes "track_step rid s s'" "mirrored rid s" shows "mirrored rid s'"
  using assms(1)
proof cases
  case (accept_relay target st si fc el ai tol)
  then show ?thesis using assms(2) accept_mirrored(1)[OF assms(2) accept_relay(2)]
    by (auto simp: record_relay_actuation_def split: sum.splits)
next
  case (reject tag now)
  obtain t d where s: "s = (t, d)" by (cases s)
  have m: "rows_sound d" "open_rows rid d = tracker_open t" using assms(2) by (simp_all add: s mirrored_def)
  show ?thesis unfolding reject s using m close_mirrored(3,4)[OF m]
    by (auto simp: reject_replacement_for_pending_actuation_def mirrored_iff split: option.splits)
next
  case (supersede detail)
  obtain t d where s: "s = (t, d)" by (cases s)
  have m: "rows_sound d" "open_rows rid d = tracker_open t" using assms(2) by (simp_all add: s mirrored_def)
  show ?thesis unfolding supersede s using m close_mirrored(3,4)[OF m]
    by (auto simp: supersede_pending_actuation_best_effort_def mirrored_iff split: option.splits)
next
  case (verify lib timing tag allow now reads trigger cap policy acc acc' r)
  show ?thesis by (rule verify_mirrored[OF assms(2) verify])
next
  case (poll parse lib timing vals tag c ci dur allow acc acc' r)
  show ?thesis by (rule poll_mirrored[OF assms(2) poll])
next
  case (accept_restore target ca ci tol)
  show ?thesis unfolding accept_restore by (rule accept_mirrored(2)[OF assms(2) accept_restore(2)])
next
  case (accept_restore_required target ca ci tol)
  show ?thesis unfolding accept_restore_required
    by (rule accept_mirrored(3)[OF assms(2) accept_restore_required(2)])
qed

lemma reach_mirrored: "track_reach rid s \<Longrightarrow> mirrored rid s"
  by (induction rule: track_reach.induct)
    (auto intro: step_mirrored simp: mirrored_iff tracker_for_run_def split: if_splits)


section \<open>Verdicts\<close>

definition row_is :: "db \<Rightarrow> int \<Rightarrow> mv_actuation_status \<Rightarrow> bool" where
  "row_is d i st \<longleftrightarrow> (\<exists>a \<in> set (actuations d). mva_id a = i \<and> mva_status a = st)"

text \<open>C15: The audit of a run mirrors its tracker: whatever commands, polls, verifications, rejections
  and hand-overs happen, the open rows of the run are exactly the tracker's pending command with its
  kind, target and tolerance, so at most one command of a run is ever open and none is forgotten.\<close>

theorem audit_mirrors_tracker:
  assumes "track_reach rid (t, d)"
  shows "open_rows rid d = tracker_open t \<and> finite (open_rows rid d) \<and> card (open_rows rid d) \<le> 1"
  using reach_mirrored[OF assms] by (auto simp: mirrored_iff tracker_open_def split: option.splits)

text \<open>Every readback of a pending command gets the verdict the confirmation rule gives it, and the
  audit row gets the same one: a match stamped by the deadline confirms; anything stamped later, and a
  mismatch at the deadline, fails the command and aborts the run; an earlier mismatch stays pending.
  The verdict never fails to be recorded.\<close>

theorem verdict_recorded:
  assumes "track_reach rid (t, d)" and "tr_pending t = Some p" "pm_id p = Some i"
    and "finalize_pending_mv_verification tag v trigger policy (t, d) = ((t', d'), r)"
  shows "if pm_deadline p < mvv_checked_instant v then
      r = Ok (Some (actuation_abort_reason tag p (Some (mvv_readback v)) (mvv_checked_instant v))) \<and>
      tr_pending t' = None \<and> row_is d' i Failed
    else if actuation_matches (pm_target p) (mvv_readback v) (pm_tolerance p) then
      r = Ok None \<and> tr_pending t' = None \<and> tr_confirmed_mv t' = Some (pm_target p) \<and> row_is d' i Confirmed
    else if trigger = AtDeadline \<or> pm_deadline p = mvv_checked_instant v then
      r = Ok (Some (actuation_abort_reason tag p (Some (mvv_readback v)) (mvv_checked_instant v))) \<and>
      tr_pending t' = None \<and> row_is d' i Failed
    else
      r = Ok None \<and> tr_pending t' = Some (p\<lparr>pm_last_readback := Some (mvv_readback v)\<rparr>) \<and> row_is d' i Pending"
proof -
  have m: "rows_sound d" "(i, pm_kind p, pm_target p, pm_tolerance p) \<in> open_rows rid d"
    using reach_mirrored[OF assms(1)] assms(2,3) by (auto simp: mirrored_iff tracker_open_Some)
  have final: "\<exists>row d'. record_final_observation i c rb q st detail d = (d', Ok row) \<and> row_is d' i st"
    if "st \<noteq> Pending" for c rb q st detail
    using final_observation_open[OF m that] unfolding row_is_def by blast
  have observed: "\<exists>d' n. record_actuation_observation p c rb q policy d = (d', Ok n) \<and> row_is d' i Pending" for c rb q
    using observation_open[OF m, of c rb q] unfolding row_is_def
    by (auto simp: record_actuation_observation_def assms(3))
  obtain d1 row where 1: "record_final_observation i (mvv_checked_at v) (Some (mvv_readback v))
      (Some (mvv_sample_quality v)) Confirmed None d = (d1, Ok row)" "row_is d1 i Confirmed"
    using final[of Confirmed] by blast
  obtain d2 n where 2: "record_actuation_observation p (mvv_checked_at v) (Some (mvv_readback v))
      (Some (mvv_sample_quality v)) policy d = (d2, Ok n)" "row_is d2 i Pending"
    using observed by blast
  have close: "tr_pending t' = None \<and> row_is d' i Failed"
    if "close_pending c rb q Failed x p (t\<lparr>tr_pending := None\<rparr>, d) = (t', d')" for c rb q x
    using final[of Failed c rb q "if x \<noteq> [] then Some x else None"] that
    by (auto simp: close_pending_def record_final_actuation_observation_def assms(3))
  show ?thesis
    using assms(4) 1 2
    by (auto simp: finalize_pending_mv_verification_def assms(2,3) Let_def confirm_pending_mv_actuation_def
      split: if_splits dest!: close)
qed

lemma ready_is_late:
  assumes "tr_pending t = Some p" "pm_deadline p < br_checked (reads 0)" "pm_deadline p < br_checked (reads 1)"
    and "read_pending_mv_verification reads 0 trigger cap t = (t', Ok x)"
  shows "pm_deadline p < read_checked_at x"
proof (cases "br_answer (reads 0) \<noteq> None \<or>
    snd (mv_verification_read_limit (br_now (reads 0)) trigger p cap) \<noteq> LimitConfirmation")
  case True
  from read_without_repeat(1)[OF assms(1,4) True] assms(2) show ?thesis by simp
next
  case False
  then have "read_pending_mv_verification reads 1 AtDeadline cap t = (t', Ok x)"
    using assms(4) by (simp add: read_unfold[OF assms(1), of reads 0])
  from read_without_repeat(1)[OF assms(1) this] assms(3) deadline_limit_kind show ?thesis by auto
qed

lemma verify_stages:
  assumes "tr_pending t = Some p" "trigger = AtDeadline \<or> pm_first_check_at p \<le> now"
    and "read_pending_mv_verification reads 0 trigger cap t = (t1, r1)"
    and "verify_pending_mv_actuation lib timing tag allow now reads trigger cap policy acc (t, d) = (acc', s', r)"
  shows "(acc', s', r) = (let s1 = (t1, d) in case r1 of
                  Inl e \<Rightarrow> (acc, s1, Err e)
                | Inr (DeadlineTimedOut p ts checked) \<Rightarrow>
                    (acc, close_pending ts (pm_last_readback p) None Unverified
                       ''the fresh MV read at the confirmation deadline did not finish within its bounded verification window'' p s1,
                     Ok (Some (actuation_abort_reason tag p (pm_last_readback p) checked)))
                | Inr (RestoreTimedOut p ts checked) \<Rightarrow>
                    (acc, close_pending ts (pm_last_readback p) None Unverified
                       ''the restore timeout elapsed before MV confirmation completed'' p s1,
                     Ok (Some (actuation_abort_reason tag p (pm_last_readback p) checked)))
                | Inr (ReadReady answer ts checked duration) \<Rightarrow>
                    (case resolve_pending_mv_read lib timing tag answer ts checked allow s1 of
                       (s2, Inl e) \<Rightarrow> (acc, s2, Err e)
                     | (s2, Inr (MvAbort reason)) \<Rightarrow> (acc, s2, Ok (Some reason))
                     | (s2, Inr (MvValue v)) \<Rightarrow>
                         (map_option (observe_mv_verification duration) acc,
                          finalize_pending_mv_verification tag v trigger policy s2)))"
  using assms by (auto simp: verify_pending_mv_actuation_def)

text \<open>C16: A late readback never confirms a command, not even with the exact target: when the reads of
  a verification are stamped after the confirmation deadline the run is aborted or fails.  Since a
  clock moves, that is every read that is started at the deadline.\<close>

theorem late_never_confirms:
  assumes "tr_pending t = Some p" and "trigger = AtDeadline \<or> pm_first_check_at p \<le> now"
    and "pm_deadline p < br_checked (reads 0)" "pm_deadline p < br_checked (reads 1)"
    and "verify_pending_mv_actuation lib timing tag allow now reads trigger cap policy acc (t, d) = (acc', s', r)"
  shows "r \<noteq> Ok None \<and> tr_confirmed_mv (fst s') = tr_confirmed_mv t"
proof -
  obtain t1 r1 where read: "read_pending_mv_verification reads 0 trigger cap t = (t1, r1)" by fastforce
  note run = verify_stages[OF assms(1,2) read assms(5)]
  have kept: "tr_confirmed_mv t1 = tr_confirmed_mv t" using read_leaves[OF assms(1) read] by auto
  have confirmed: "tr_confirmed_mv (fst (close_pending c rb q st x p' (t', d'))) = tr_confirmed_mv t'"
    for c rb q st x p' t' d' by (simp add: close_pending_def)
  show ?thesis
  proof (cases r1)
    case (Inr x)
    show ?thesis
    proof (cases "is_ready x")
      case False
      then show ?thesis using run Inr kept by (cases x) (auto simp: is_ready_def confirmed Let_def)
    next
      case True
      then obtain answer ts c dur where x: "x = ReadReady answer ts c dur" by (cases x) (auto simp: is_ready_def)
      have t1: "t1 = t" using read_leaves[OF assms(1) read] Inr x by (auto simp: is_ready_def)
      have late: "pm_deadline p < c" using ready_is_late[OF assms(1,3,4), of trigger cap t1 x] read Inr x by simp
      obtain s2 r2 where res: "resolve_pending_mv_read lib timing tag answer ts c allow (t, d) = (s2, r2)" by fastforce
      have s2: "tr_confirmed_mv (fst s2) = tr_confirmed_mv t" and v: "\<And>v. r2 = Ok (MvValue v) \<Longrightarrow> s2 = (t, d) \<and> mvv_checked_instant v = c"
        using res by (auto simp: resolve_pending_mv_read_def confirmed assms(1)
          split: sum.splits tick_operation.splits if_splits)
      show ?thesis
      proof (cases "\<exists>v. r2 = Ok (MvValue v)")
        case True
        then obtain v where "r2 = Ok (MvValue v)" by blast
        then show ?thesis using run Inr x t1 res v late
          by (auto simp: finalize_pending_mv_verification_def assms(1) Let_def confirmed)
      next
        case False
        then show ?thesis using run Inr x t1 res s2 by (cases r2) (auto split: mv_result.splits)
      qed
    qed
  qed (use run kept in simp)
qed


section \<open>Witnesses\<close>

definition demo_request :: tune_request where
  "demo_request =
     \<lparr> q_tagname = ''FIC101.PV'', q_template = ''Yokogawa CentumVP'', q_process_type = Flow,
       q_controller_type = CT_Pi, q_relay_amp = Fin 5, q_cycles_skip = None, q_cycles_count = None,
       q_noise_protection_secs = None, q_driver = OpcdaKind, q_bridge_host = None,
       q_server = Some ''S'', q_sim_gain = Fin 1, q_sim_tau = Fin 2, q_sim_dead_time = Fin 5,
       q_sim_noise = Fin 0, q_sim_seed = 0, q_sim_initial_pv = Fin 50, q_sim_initial_mv = Fin 50,
       q_pv_range_high = None, q_pv_range_low = None, q_mv_range_high = None, q_mv_range_low = None,
       q_direction = None, q_tag_overrides = None, q_notes = None, q_yes = False, q_write_pid = None \<rparr>"

definition demo_initial :: initial_state where
  "demo_initial =
     \<lparr> is_pv_ini = Fin 40, is_mv_ini = Fin 50, is_pv_range_high = Fin 100, is_pv_range_low = Fin 0,
       is_mv_range_high = Fin 100, is_mv_range_low = Fin 0, is_direction = Reverse,
       is_mode_raw = None, is_mode_attribute_raw = None, is_setpoint_ini = None \<rparr>"

definition demo_track0 :: "mv_tracker \<times> db" where
  "demo_track0 = (the (tracker_for_run demo_request demo_initial), demo_running)"

text \<open>A relay command of 55 accepted at time zero.\<close>

definition demo_track :: "mv_tracker \<times> db" where
  "demo_track = fst (record_relay_actuation 1 (Fin 55) 0 0 (secs 3) 0 0 (Fin (1 / 10)) demo_track0)"

lemma demo_track0_reach: "track_reach 1 demo_track0"
  unfolding demo_track0_def
  by (rule track_reach.start[where q = demo_request and i = demo_initial])
    (simp_all add: rows_sound_def open_rows_def demo_running_eq demo_empty_def empty_db_def
      tracker_for_run_def demo_request_def)

lemma demo_track_reach: "track_reach 1 demo_track"
  unfolding demo_track_def
  by (rule track_reach.step[OF demo_track0_reach], rule track_step.accept_relay)
    (simp add: demo_track0_def tracker_for_run_def demo_request_def)

lemma demo_track_pending:
  "\<exists>p. tr_pending (fst demo_track) = Some p \<and> pm_id p = Some 1 \<and> pm_kind p = ARelay \<and>
     pm_target p = Fin 55 \<and> pm_tolerance p = Fin (1 / 10) \<and> pm_deadline p = secs 4 \<and> pm_first_check_at p = secs 3"
  by (simp add: demo_track_def record_relay_actuation_def utc_after_elapsed_def duration_from_std_def
      delta_max_def ns_per_ms_def record_accepted_at_switch_def demo_track0_def insert_pending_def run_tx_def
      Let_def demo_running_eq demo_empty_def empty_db_def new_actuation_def actuation_check_def
      tracker_for_run_def demo_request_def accept_pending_def MV_ACTUATION_CONFIRMATION_SECS_def
      fl_le_finite demo_run_row_simps secs_def ns_per_sec_def)

theorem audit_mirrors_tracker_witness:
  "open_rows 1 (snd demo_track) = {(1, ARelay, Fin 55, Fin (1 / 10))}"
proof -
  obtain p where "tr_pending (fst demo_track) = Some p" "pm_id p = Some 1" "pm_kind p = ARelay"
    "pm_target p = Fin 55" "pm_tolerance p = Fin (1 / 10)"
    using demo_track_pending by blast
  then have "tracker_open (fst demo_track) = {(1, ARelay, Fin 55, Fin (1 / 10))}"
    by (simp add: tracker_open_def)
  then show ?thesis
    using audit_mirrors_tracker[of 1 "fst demo_track" "snd demo_track"] demo_track_reach by simp
qed

definition demo_readback :: mv_value where
  "demo_readback = \<lparr> mvv_readback = Fin 55, mvv_sample_quality = SGood, mvv_checked_at = secs 3,
     mvv_checked_instant = secs 3 \<rparr>"

theorem verdict_recorded_witness:
  "\<exists>s' r. finalize_pending_mv_verification ''MV'' demo_readback Scheduled AuditRequired demo_track = (s', r) \<and>
     r = Ok None \<and> tr_confirmed_mv (fst s') = Some (Fin 55) \<and> row_is (snd s') 1 Confirmed"
proof -
  obtain p where p: "tr_pending (fst demo_track) = Some p" "pm_id p = Some 1"
    "pm_target p = Fin 55" "pm_tolerance p = Fin (1 / 10)" "pm_deadline p = secs 4"
    using demo_track_pending by blast
  obtain t' d' r where f: "finalize_pending_mv_verification ''MV'' demo_readback Scheduled AuditRequired
      (fst demo_track, snd demo_track) = ((t', d'), r)" by (metis prod.collapse)
  have match: "actuation_matches (Fin 55) (Fin 55) (Fin (1 / 10))"
    by (simp add: actuation_matches_def fl_sub_self fl_abs_def fl_le_finite)
  have reach: "track_reach 1 (fst demo_track, snd demo_track)" using demo_track_reach by simp
  from verdict_recorded[OF reach p(1,2) f]
  show ?thesis using f p match by (auto simp: demo_readback_def secs_def ns_per_sec_def)
qed

definition late_reads :: "nat \<Rightarrow> bounded_read" where
  "late_reads n = \<lparr> br_now = secs 4, br_started = secs 4, br_finished = secs 4 + 1, br_checked = secs 4 + 1,
     br_answer = Some (Ok (TickCompleted (Fin 55, Good))) \<rparr>"

theorem late_never_confirms_witness:
  "\<forall>lib timing. snd (snd (verify_pending_mv_actuation lib timing ''MV'' False (secs 4) late_reads AtDeadline NoLimit
     AuditRequired None demo_track)) \<noteq> Ok None"
proof (intro allI)
  fix lib timing
  obtain p where p: "tr_pending (fst demo_track) = Some p" "pm_deadline p = secs 4"
    using demo_track_pending by blast
  obtain acc' s' r where v: "verify_pending_mv_actuation lib timing ''MV'' False (secs 4) late_reads AtDeadline NoLimit
     AuditRequired None (fst demo_track, snd demo_track) = (acc', s', r)" by (metis prod.collapse)
  have "pm_deadline p < br_checked (late_reads n)" for n by (simp add: p late_reads_def)
  from late_never_confirms[OF p(1) _ this this v]
  show "snd (snd (verify_pending_mv_actuation lib timing ''MV'' False (secs 4) late_reads AtDeadline NoLimit
     AuditRequired None demo_track)) \<noteq> Ok None" using v by simp
qed

end
