(* ===== verification/Poll.thy ===== *)
theory Poll
  imports Actuation_Audit
begin

text \<open>
  The polling loop of a run (\<open>bhtune-runtime/src/tune/poll.rs\<close>): every tick reads the PV (with the MV
  while a command is pending), stamps it, checks its quality, steps the engine, writes the relay
  command and records the sample.

  The outside world enters through the events: which branch of the \<open>select!\<close> fired and, for a tick,
  the clock readings and the answers of the driver and of the sample table.  The log of the MV
  values handed to the driver is kept beside the loop's own variables.
\<close>

section \<open>State and events\<close>

record sample_row =
  sr_index :: int
  sr_tick :: tick
  sr_state :: mrft_state
  sr_quality :: sample_quality

record poll_state =
  ps_engine :: mrft_engine
  ps_tracker :: "mv_tracker option"
  ps_db :: db
  ps_acc :: poll_timing
  ps_time :: tick_time_source
  ps_tick_index :: int
  ps_completion :: "action option"
  ps_post_delay_end :: "timestamp option"
  ps_next_poll_at :: instant
  ps_mv_written :: bool
  ps_samples :: "sample_row list"
  ps_commands :: "f32 list"

record poll_ctx =
  px_run_id :: int
  px_timing :: effective_timing
  px_tags :: loop_tags
  px_allow :: bool
  px_pre_delay_end :: timestamp
  px_noise_secs :: u32
  px_utc_max :: timestamp
  px_parse :: "string \<Rightarrow> f32 option"
  px_lib :: text_lib

text \<open>What one tick meets.  Consecutive clock readings with no wait between them are one.\<close>

record tick_input =
  ti_started :: instant
  ti_read :: "(run_error, batch tick_operation) result"
  ti_read_started :: instant
  ti_read_done :: instant
  ti_observed :: instant
  ti_write :: "(run_error, unit tick_operation) result"
  ti_write_started :: instant
  ti_write_done :: instant
  ti_rejected :: instant
  ti_persist :: "(db_error, unit) result"
  ti_persist_started :: instant
  ti_persist_done :: instant
  ti_done :: instant

datatype poll_event =
  EvVerify instant instant "nat \<Rightarrow> bounded_read"
| EvTick tick_input
| EvCtrlC
| EvTimeout

datatype poll_exit =
  PollContinue
| PollBreak
| PollAborted abort_reason
| PollFailed run_error
| PollPanic

text \<open>A stage of a tick ends the tick or hands a value on.\<close>

type_synonym 'a stage = "poll_state \<times> (poll_exit + 'a)"

definition then_stage :: "'a stage \<Rightarrow> (poll_state \<Rightarrow> 'a \<Rightarrow> 'b stage) \<Rightarrow> 'b stage" where
  "then_stage m f = (case m of (s, Inl x) \<Rightarrow> (s, Inl x) | (s, Inr v) \<Rightarrow> f s v)"

definition ps_pending :: "poll_state \<Rightarrow> pending_mv option" where
  "ps_pending s = Option.bind (ps_tracker s) tr_pending"

definition set_tracked :: "mv_tracker \<times> db \<Rightarrow> poll_state \<Rightarrow> poll_state" where
  "set_tracked td s = s\<lparr>ps_tracker := Some (fst td), ps_db := snd td\<rparr>"

section \<open>The stages of a tick\<close>

text \<open>\<open>insert_tune_sample_with_timing\<close>.\<close>

definition persist_sample ::
  "tick_input \<Rightarrow> tick \<Rightarrow> mrft_state \<Rightarrow> sample_quality \<Rightarrow> poll_state \<Rightarrow> unit stage" where
  "persist_sample i t st q s =
     (case ti_persist i of
        Inl e \<Rightarrow> (s, Inl (PollFailed (EDb e)))
      | Inr _ \<Rightarrow>
          (s\<lparr>ps_samples := ps_samples s @ [\<lparr> sr_index = ps_tick_index s, sr_tick = t, sr_state = st, sr_quality = q \<rparr>],
             ps_acc := observe_sample_persist (saturating_since (ti_persist_done i) (ti_persist_started i)) (ps_acc s)\<rparr>,
           Inr ()))"

definition tick_work_done :: "tick_input \<Rightarrow> poll_state \<Rightarrow> poll_state" where
  "tick_work_done i s = s\<lparr>ps_acc := observe_tick_work (saturating_since (ti_done i) (ti_started i)) (ps_acc s)\<rparr>"

text \<open>Record the sample, then leave the tick.\<close>

definition persist_and :: "tick_input \<Rightarrow> tick \<Rightarrow> mrft_state \<Rightarrow> sample_quality \<Rightarrow> poll_exit \<Rightarrow> poll_state \<Rightarrow> 'a stage" where
  "persist_and i t st q x s =
     then_stage (persist_sample i t st q s) (\<lambda>s _. (tick_work_done i s, Inl x))"

definition poll_duration :: "tick_input \<Rightarrow> int" where
  "poll_duration i = saturating_since (ti_read_done i) (ti_read_started i)"

text \<open>The evidence a poll brings about the pending command.\<close>

definition resolve_pending_poll ::
  "poll_ctx \<Rightarrow> tick_input \<Rightarrow> pending_mv \<Rightarrow> batch tick_operation \<Rightarrow> poll_state \<Rightarrow> (abort_reason option \<times> bool) stage" where
  "resolve_pending_poll c i p answer s =
     (case checked_at_for_pending p (ti_read_done i) of
        Inl e \<Rightarrow> (s, Inl (PollFailed e))
      | Inr checked_at \<Rightarrow>
          (case ps_tracker s of
             None \<Rightarrow> (s, Inl (PollFailed (EInvariant ''pending actuation requires an OPC DA tracker'')))
           | Some t \<Rightarrow>
               (let (acc, td, r) = resolve_pending_mv_poll (px_parse c) (px_lib c) (px_timing c) answer
                      (g_manipulated_variable (px_tags c)) checked_at (ti_read_done i) (poll_duration i)
                      (px_allow c) (ps_acc s) (t, ps_db s);
                    s' = set_tracked td (s\<lparr>ps_acc := acc\<rparr>)
                in case r of Inl e \<Rightarrow> (s', Inl (PollFailed e)) | Inr v \<Rightarrow> (s', Inr v))))"

text \<open>A poll that was interrupted or timed out: with a command pending the tracker's verdict is the
  reason of the abort.\<close>

definition poll_interrupted ::
  "poll_ctx \<Rightarrow> tick_input \<Rightarrow> batch tick_operation \<Rightarrow> abort_reason \<Rightarrow> poll_state \<Rightarrow> 'a stage" where
  "poll_interrupted c i answer reason s =
     (case ps_pending s of
        None \<Rightarrow> (s, Inl (PollAborted reason))
      | Some p \<Rightarrow>
          then_stage (resolve_pending_poll c i p answer s) (\<lambda>s (r, _).
            (s, Inl (case r of Some x \<Rightarrow> PollAborted x
                     | None \<Rightarrow> PollFailed (EInvariant ''an interrupted pending MV poll must abort the run'')))))"

definition tick_read ::
  "poll_ctx \<Rightarrow> tick_input \<Rightarrow> poll_state \<Rightarrow> (f32 \<times> quality \<times> bool \<times> abort_reason option) stage" where
  "tick_read c i s =
     (let pv_tag = g_process_variable (px_tags c)
      in case ti_read i of
           Inl e \<Rightarrow> (s, Inl (PollFailed e))
         | Inr TickCancelled \<Rightarrow> poll_interrupted c i TickCancelled UserInterrupt s
         | Inr TickTimedOut \<Rightarrow>
             poll_interrupted c i TickTimedOut (OperationTimedOut pv_tag (f_op_timeout_secs (px_timing c))) s
         | Inr (TickCompleted b) \<Rightarrow>
             (let s1 = s\<lparr>ps_acc := observe_pv_read (poll_duration i) (ps_acc s)\<rparr>
              in then_stage
                   (case ps_pending s1 of
                      None \<Rightarrow> (s1, Inr (None, False))
                    | Some p \<Rightarrow> resolve_pending_poll c i p (TickCompleted b) s1) (\<lambda>s2 (reason, evidence).
                   case read_numeric_from_batch (px_parse c) b pv_tag of
                     Inl e \<Rightarrow> (s2, Inl (PollFailed e))
                   | Inr (pv, q) \<Rightarrow> (s2, Inr (pv, q, evidence, reason)))))"

definition tick_stamp :: "poll_ctx \<Rightarrow> tick_input \<Rightarrow> poll_state \<Rightarrow> timestamp stage" where
  "tick_stamp c i s =
     (let (src, r) = next_timestamp_at (px_utc_max c) (ti_observed i) (ps_time s);
          s1 = s\<lparr>ps_time := src\<rparr>
      in case r of
           Inl e \<Rightarrow> (s1, Inl (PollFailed e))
         | Inr now \<Rightarrow>
             (let (acc, r2) = pt_observe now (ps_acc s1); s2 = s1\<lparr>ps_acc := acc\<rparr>
              in case r2 of Inl e \<Rightarrow> (s2, Inl (PollFailed e)) | Inr _ \<Rightarrow> (s2, Inr now)))"

fun is_write :: "action \<Rightarrow> bool" where
  "is_write (WriteMv _) = True"
| "is_write _ = False"

text \<open>Stepping the engine: with a command still pending the step is tried on a copy and kept only
  when it asks for no new command.\<close>

definition tick_engine ::
  "poll_ctx \<Rightarrow> tick_input \<Rightarrow> tick \<Rightarrow> sample_quality \<Rightarrow> bool \<Rightarrow> poll_state \<Rightarrow> action list stage" where
  "tick_engine c i t q evidence s =
     (let (e', acts) = engine_step (ps_engine s) t
      in case (ps_tracker s, ps_pending s) of
           (Some tr, Some p) \<Rightarrow>
             (if list_ex is_write acts
              then (if \<not> evidence then (s, Inl PollPanic)
                    else (case reject_replacement_for_pending_actuation
                             (g_manipulated_variable (px_tags c)) (ti_rejected i) (tr, ps_db s) of
                            (td, Inl e) \<Rightarrow> (set_tracked td s, Inl (PollFailed e))
                          | (td, Inr reason) \<Rightarrow>
                              persist_and i t (engine_state (ps_engine s)) q (PollAborted reason) (set_tracked td s)))
              else (s\<lparr>ps_engine := e'\<rparr>, Inr acts))
         | _ \<Rightarrow> (s\<lparr>ps_engine := e'\<rparr>, Inr acts))"

definition relay_tolerance :: "f32 \<Rightarrow> poll_state \<Rightarrow> (run_error, f32 option) result" where
  "relay_tolerance v s =
     (case ps_tracker s of
        None \<Rightarrow> Ok None
      | Some t \<Rightarrow> map_sum id Some (mv_actuation_tolerance ARelay v (tr_previous_commanded_mv t) (tr_mv_span t)))"

definition tick_write ::
  "poll_ctx \<Rightarrow> tick_input \<Rightarrow> tick \<Rightarrow> sample_quality \<Rightarrow> mrft_state \<Rightarrow> f32 \<Rightarrow> poll_state \<Rightarrow> unit stage" where
  "tick_write c i t q before v s =
     (case relay_tolerance v s of
        Inl e \<Rightarrow> (s, Inl (PollFailed e))
      | Inr tol \<Rightarrow>
          (let s1 = s\<lparr>ps_mv_written := True, ps_commands := ps_commands s @ [v]\<rparr>
           in case ti_write i of
                Inl e \<Rightarrow> (s1, Inl (PollFailed e))
              | Inr (TickCompleted _) \<Rightarrow>
                  (let s2 = s1\<lparr>ps_acc := observe_mv_write (saturating_since (ti_write_done i) (ti_write_started i)) (ps_acc s1)\<rparr>
                   in case (ps_tracker s2, tol) of
                        (Some tr, Some tl') \<Rightarrow>
                          (case record_relay_actuation (px_run_id c) v (tk_time t) (ti_observed i)
                                  (ti_observed i + secs (unat (px_noise_secs c)))
                                  (saturating_since (ti_write_done i) (ti_observed i)) (ti_write_done i) tl'
                                  (tr, ps_db s2) of
                             (td, Inl e) \<Rightarrow> (set_tracked td s2, Inl (PollFailed e))
                           | (td, Inr _) \<Rightarrow> (set_tracked td s2, Inr ()))
                      | _ \<Rightarrow> (s2, Inr ()))
              | Inr TickCancelled \<Rightarrow> persist_and i t before q (PollAborted UserInterrupt) s1
              | Inr TickTimedOut \<Rightarrow>
                  persist_and i t (engine_state (ps_engine s1)) q
                    (PollAborted (OperationTimedOut (g_manipulated_variable (px_tags c))
                       (f_op_timeout_secs (px_timing c)))) s1))"

fun tick_actions ::
  "poll_ctx \<Rightarrow> tick_input \<Rightarrow> tick \<Rightarrow> sample_quality \<Rightarrow> mrft_state \<Rightarrow> action list \<Rightarrow> poll_state \<Rightarrow> unit stage" where
  "tick_actions c i t q before [] s = (s, Inr ())"
| "tick_actions c i t q before (WriteMv v # acts) s =
     then_stage (tick_write c i t q before v s) (\<lambda>s _. tick_actions c i t q before acts s)"
| "tick_actions c i t q before (Complete ps trs sw sg # acts) s =
     tick_actions c i t q before acts
       (s\<lparr>ps_completion := Some (Complete ps trs sw sg),
          ps_post_delay_end := Some (tk_time t + secs (unat (f_mrft_delay_secs (px_timing c))))\<rparr>)"

definition tick_body ::
  "poll_ctx \<Rightarrow> tick_input \<Rightarrow> tick \<Rightarrow> quality \<Rightarrow> bool \<Rightarrow> abort_reason option \<Rightarrow> poll_state \<Rightarrow> unit stage" where
  "tick_body c i t q evidence reason s =
     (let sq = sample_quality_from_driver q; before = engine_state (ps_engine s);
          pv_tag = g_process_variable (px_tags c)
      in if \<not> is_ok (check_quality pv_tag q (px_allow c)) then
           persist_and i t before sq (PollAborted (PoorQuality pv_tag q)) s
         else (case reason of
             Some r \<Rightarrow> persist_and i t before sq (PollAborted r) s
           | None \<Rightarrow>
               if ps_completion s = None \<and> tk_time t < px_pre_delay_end c then
                 then_stage (persist_sample i t before sq s) (\<lambda>s _.
                   ((tick_work_done i s)\<lparr>ps_tick_index := ps_tick_index s + 1\<rparr>, Inl PollContinue))
               else
                 then_stage (tick_engine c i t sq evidence s) (\<lambda>s1 acts.
                 then_stage (tick_actions c i t sq before acts s1) (\<lambda>s2 _.
                 then_stage (persist_sample i t (engine_state (ps_engine s2)) sq s2) (\<lambda>s3 _.
                   let s4 = (tick_work_done i s3)\<lparr>ps_tick_index := ps_tick_index s3 + 1\<rparr>
                   in (s4, Inl (case ps_post_delay_end s4 of
                          Some end_at \<Rightarrow> if end_at \<le> tk_time t then PollBreak else PollContinue
                        | None \<Rightarrow> PollContinue)))))))"

definition poll_tick :: "poll_ctx \<Rightarrow> tick_input \<Rightarrow> poll_state \<Rightarrow> unit stage" where
  "poll_tick c i s =
     (let s0 = s\<lparr>ps_next_poll_at := ti_started i + millis (f_poll_interval_ms (px_timing c))\<rparr>
      in then_stage (tick_read c i s0) (\<lambda>s1 (pv, q, evidence, reason).
         then_stage (tick_stamp c i s1) (\<lambda>s2 now.
           tick_body c i \<lparr> tk_time = now, tk_pv = pv \<rparr> q evidence reason s2)))"

section \<open>The loop\<close>

definition poll_verify ::
  "poll_ctx \<Rightarrow> instant \<Rightarrow> instant \<Rightarrow> (nat \<Rightarrow> bounded_read) \<Rightarrow> poll_state \<Rightarrow> poll_state \<times> poll_exit" where
  "poll_verify c now1 now2 reads s =
     (case Option.bind (ps_pending s) (\<lambda>p. verification_trigger p now1) of
        None \<Rightarrow> (s, PollFailed (EInvariant ''a verification wakeup requires a due pending actuation''))
      | Some trigger \<Rightarrow>
          (case ps_tracker s of
             None \<Rightarrow> (s, PollFailed (EInvariant ''a verification trigger requires an OPC DA tracker''))
           | Some t \<Rightarrow>
               (let (acc, td, r) = verify_pending_mv_actuation (px_lib c) (px_timing c)
                      (g_manipulated_variable (px_tags c)) (px_allow c) now2 reads trigger NoLimit
                      AuditRequired (Some (ps_acc s)) (t, ps_db s);
                    s' = set_tracked td (s\<lparr>ps_acc := (case acc of Some a \<Rightarrow> a | None \<Rightarrow> ps_acc s)\<rparr>)
                in (s', case r of Inl e \<Rightarrow> PollFailed e | Inr (Some reason) \<Rightarrow> PollAborted reason
                        | Inr None \<Rightarrow> PollContinue))))"

definition poll_step :: "poll_ctx \<Rightarrow> poll_event \<Rightarrow> poll_state \<Rightarrow> poll_state \<times> poll_exit" where
  "poll_step c ev s =
     (case ev of
        EvVerify now1 now2 reads \<Rightarrow> poll_verify c now1 now2 reads s
      | EvTick i \<Rightarrow> (case poll_tick c i s of (s', Inl x) \<Rightarrow> (s', x) | (s', Inr _) \<Rightarrow> (s', PollContinue))
      | EvCtrlC \<Rightarrow> (s, PollAborted UserInterrupt)
      | EvTimeout \<Rightarrow> (s, PollAborted (Timeout (f_timeout_secs (px_timing c)))))"

fun poll_loop :: "poll_ctx \<Rightarrow> poll_event list \<Rightarrow> poll_state \<Rightarrow> poll_state \<times> poll_exit" where
  "poll_loop c [] s = (s, PollContinue)"
| "poll_loop c (ev # evs) s =
     (case poll_step c ev s of
        (s', PollContinue) \<Rightarrow> poll_loop c evs s'
      | (s', x) \<Rightarrow> (s', x))"

definition poll_start ::
  "poll_ctx \<Rightarrow> tune_request \<Rightarrow> time_anchor \<Rightarrow> instant \<Rightarrow> mrft_engine \<Rightarrow> mv_tracker option \<Rightarrow> poll_timing \<Rightarrow> db
   \<Rightarrow> (run_error, poll_state) result" where
  "poll_start c q a now e tr acc d =
     bind_result (for_driver (q_driver q) a (f_poll_interval_ms (px_timing c))) (\<lambda>src.
       Ok \<lparr> ps_engine = e, ps_tracker = tr, ps_db = d, ps_acc = acc, ps_time = src, ps_tick_index = 0,
            ps_completion = None, ps_post_delay_end = None, ps_next_poll_at = now, ps_mv_written = False,
            ps_samples = [], ps_commands = [] \<rparr>)"

record completed_poll =
  cp_action :: action
  cp_state :: mrft_state
  cp_next_tick_index :: int
  cp_tick_time :: tick_time_source

datatype poll_outcome = PollCompleted completed_poll | PollRunAborted abort_reason

definition poll_result :: "poll_state \<Rightarrow> poll_exit \<Rightarrow> (run_error, poll_outcome) result option" where
  "poll_result s x =
     (case x of
        PollContinue \<Rightarrow> None
      | PollPanic \<Rightarrow> None
      | PollFailed e \<Rightarrow> Some (Err e)
      | PollAborted r \<Rightarrow> Some (Ok (PollRunAborted r))
      | PollBreak \<Rightarrow> Some (case ps_completion s of
            None \<Rightarrow> Err (EInvariant ''the loop only breaks after completion is set'')
          | Some a \<Rightarrow> Ok (PollCompleted \<lparr> cp_action = a, cp_state = engine_state (ps_engine s),
                cp_next_tick_index = ps_tick_index s, cp_tick_time = ps_time s \<rparr>)))"

end
