(* ===== verification/Poll_Safety.thy ===== *)
theory Poll_Safety
  imports Poll "HOL-Library.Sublist"
begin

text \<open>
  What the polling loop guarantees: the order of relay commands and confirmations, the engine it
  drives, the samples it records, and that it ends.
\<close>

section \<open>Frames\<close>

lemma then_stage_iff:
  "then_stage m f = (s', r) \<longleftrightarrow>
     (\<exists>x. m = (s', Inl x) \<and> r = Inl x) \<or> (\<exists>s v. m = (s, Inr v) \<and> f s v = (s', r))"
  by (cases m; cases "snd m") (auto simp: then_stage_def)

lemma then_stage_simps: "then_stage (s, Inl x) f = (s, Inl x)" "then_stage (s, Inr v) f = f s v"
  by (simp_all add: then_stage_def)

text \<open>What recording a sample of tick \<open>t\<close> touches.\<close>

definition sampled :: "tick \<Rightarrow> poll_state \<Rightarrow> poll_state \<Rightarrow> bool" where
  "sampled t s s' \<longleftrightarrow> ps_samples s' = ps_samples s \<or>
     (\<exists>x. ps_samples s' = ps_samples s @ [x] \<and> sr_index x = ps_tick_index s \<and> sr_tick x = t)"

definition recorded :: "tick \<Rightarrow> poll_state \<Rightarrow> poll_state \<Rightarrow> bool" where
  "recorded t s s' \<longleftrightarrow>
     ps_engine s' = ps_engine s \<and> ps_tracker s' = ps_tracker s \<and> ps_db s' = ps_db s \<and>
     ps_commands s' = ps_commands s \<and> ps_completion s' = ps_completion s \<and> ps_time s' = ps_time s \<and>
     ps_post_delay_end s' = ps_post_delay_end s \<and> ps_tick_index s' = ps_tick_index s \<and> sampled t s s'"

lemma sampled_same [simp]: "ps_samples s' = ps_samples s \<Longrightarrow> sampled t s s'"
  by (simp add: sampled_def)

lemma recorded_refl [simp, intro]: "recorded t s s"
  by (simp add: recorded_def)

lemma recorded_fields:
  assumes "recorded t s s'"
  shows "ps_engine s' = ps_engine s" "ps_tracker s' = ps_tracker s" "ps_db s' = ps_db s"
    "ps_commands s' = ps_commands s" "ps_completion s' = ps_completion s" "ps_time s' = ps_time s"
    "ps_post_delay_end s' = ps_post_delay_end s" "ps_tick_index s' = ps_tick_index s" "ps_pending s' = ps_pending s"
    "sampled t s s'"
  using assms by (simp_all add: recorded_def ps_pending_def)

lemma persist_sample_cases:
  assumes "persist_sample i t st q s = (s', r)"
  shows "recorded t s s'" "r = Inr () \<or> (\<exists>e. r = Inl (PollFailed (EDb e)) \<and> s' = s)"
    "r = Inr () \<Longrightarrow> ps_samples s' = ps_samples s @ [\<lparr> sr_index = ps_tick_index s, sr_tick = t, sr_state = st, sr_quality = q \<rparr>]"
proof -
  let ?x = "\<lparr> sr_index = ps_tick_index s, sr_tick = t, sr_state = st, sr_quality = q \<rparr>"
  consider e where "s' = s" "r = Inl (PollFailed (EDb e))"
    | acc where "s' = s\<lparr>ps_samples := ps_samples s @ [?x], ps_acc := acc\<rparr>" "r = Inr ()"
    using assms by (auto simp: persist_sample_def split: sum.splits)
  then show "recorded t s s'" "r = Inr () \<or> (\<exists>e. r = Inl (PollFailed (EDb e)) \<and> s' = s)"
    "r = Inr () \<Longrightarrow> ps_samples s' = ps_samples s @ [?x]"
    by (cases; simp add: recorded_def sampled_def)+
qed

lemma work_done_fields [simp]:
  "ps_engine (tick_work_done i s) = ps_engine s" "ps_tracker (tick_work_done i s) = ps_tracker s"
  "ps_db (tick_work_done i s) = ps_db s" "ps_commands (tick_work_done i s) = ps_commands s"
  "ps_completion (tick_work_done i s) = ps_completion s" "ps_time (tick_work_done i s) = ps_time s"
  "ps_post_delay_end (tick_work_done i s) = ps_post_delay_end s"
  "ps_tick_index (tick_work_done i s) = ps_tick_index s" "ps_samples (tick_work_done i s) = ps_samples s"
  by (simp_all add: tick_work_done_def)

lemma recorded_work: "recorded t s s' \<Longrightarrow> recorded t s (tick_work_done i s')"
  by (simp add: recorded_def sampled_def)

lemma persist_and_cases:
  assumes "persist_and i t st q x s = (s', r)"
  shows "recorded t s s'" "r = Inl x \<or> (\<exists>e. r = Inl (PollFailed (EDb e)))"
proof -
  obtain s1 r1 where p: "persist_sample i t st q s = (s1, r1)" by fastforce
  note c = persist_sample_cases[OF p]
  have "s' = s1 \<and> (\<exists>e. r = Inl (PollFailed (EDb e))) \<or> s' = tick_work_done i s1 \<and> r = Inl x"
    using assms c(2) by (auto simp: persist_and_def then_stage_iff p)
  then show "recorded t s s'" "r = Inl x \<or> (\<exists>e. r = Inl (PollFailed (EDb e)))"
    using c(1) recorded_work by auto
qed

text \<open>Reading and stamping leave the engine, the command log and the loop's counters alone.\<close>

definition loop_same :: "poll_state \<Rightarrow> poll_state \<Rightarrow> bool" where
  "loop_same s s' \<longleftrightarrow>
     ps_engine s' = ps_engine s \<and> ps_commands s' = ps_commands s \<and> ps_completion s' = ps_completion s \<and>
     ps_post_delay_end s' = ps_post_delay_end s \<and> ps_tick_index s' = ps_tick_index s \<and>
     ps_samples s' = ps_samples s"

lemma loop_same_refl [simp, intro]: "loop_same s s"
  by (simp add: loop_same_def)

lemma loop_same_trans: "loop_same s s1 \<Longrightarrow> loop_same s1 s2 \<Longrightarrow> loop_same s s2"
  by (simp add: loop_same_def)

lemma set_tracked_fields [simp]:
  "ps_tracker (set_tracked td s) = Some (fst td)" "ps_db (set_tracked td s) = snd td"
  "ps_pending (set_tracked td s) = tr_pending (fst td)" "ps_time (set_tracked td s) = ps_time s"
  "ps_acc (set_tracked td s) = ps_acc s" "ps_commands (set_tracked td s) = ps_commands s"
  "ps_engine (set_tracked td s) = ps_engine s" "ps_completion (set_tracked td s) = ps_completion s"
  "ps_post_delay_end (set_tracked td s) = ps_post_delay_end s" "ps_tick_index (set_tracked td s) = ps_tick_index s"
  "ps_samples (set_tracked td s) = ps_samples s"
  by (simp_all add: set_tracked_def ps_pending_def)

lemma resolve_pending_poll_cases:
  assumes "resolve_pending_poll c i p answer s = (s', r)"
  obtains (untouched) x where "s' = s" "r = Inl x" "x \<noteq> PollPanic"
  | (resolved) t acc td res checked where "ps_tracker s = Some t"
      "resolve_pending_mv_poll (px_parse c) (px_lib c) (px_timing c) answer
         (g_manipulated_variable (px_tags c)) checked (ti_read_done i) (poll_duration i)
         (px_allow c) (ps_acc s) (t, ps_db s) = (acc, td, res)"
      "s' = set_tracked td (s\<lparr>ps_acc := acc\<rparr>)"
      "r = (case res of Inl e \<Rightarrow> Inl (PollFailed e) | Inr v \<Rightarrow> Inr v)"
proof (cases "checked_at_for_pending p (ti_read_done i)")
  case (Inr checked)
  show ?thesis
  proof (cases "ps_tracker s")
    case (Some t)
    obtain acc td res where m: "resolve_pending_mv_poll (px_parse c) (px_lib c) (px_timing c) answer
         (g_manipulated_variable (px_tags c)) checked (ti_read_done i) (poll_duration i)
         (px_allow c) (ps_acc s) (t, ps_db s) = (acc, td, res)" by (metis prod_cases3)
    then show ?thesis using assms resolved[OF Some m]
      by (simp add: resolve_pending_poll_def Inr Some m Let_def split: sum.splits)
  next
    case None
    then have "s' = s" "\<exists>e. r = Inl (PollFailed e)" using assms by (auto simp: resolve_pending_poll_def Inr)
    then show ?thesis using untouched by auto
  qed
next
  case (Inl e)
  then have "s' = s" "r = Inl (PollFailed e)" using assms by (simp_all add: resolve_pending_poll_def)
  then show ?thesis using untouched by simp
qed

lemma resolve_pending_poll_same:
  assumes "resolve_pending_poll c i p answer s = (s', r)"
  shows "loop_same s s'" "ps_time s' = ps_time s"
  using assms by (auto elim!: resolve_pending_poll_cases simp: loop_same_def)

text \<open>The exits that stop the run.\<close>

definition stops :: "poll_exit \<Rightarrow> bool" where
  "stops x \<longleftrightarrow> x \<noteq> PollContinue \<and> x \<noteq> PollBreak \<and> x \<noteq> PollPanic"

lemma stops_simps [simp]: "stops (PollAborted r)" "stops (PollFailed e)"
  by (simp_all add: stops_def)

lemma resolve_pending_poll_exit:
  assumes "resolve_pending_poll c i p answer s = (s', r)"
  shows "r = Inl x \<Longrightarrow> stops x" "r = Inr (None, ev) \<Longrightarrow> ev"
proof -
  have "(r = Inl x \<longrightarrow> stops x) \<and> (r = Inr (None, ev) \<longrightarrow> ev)"
    using assms
    by (auto simp: resolve_pending_poll_def resolve_pending_mv_poll_def Let_def bind_result_Ok_iff
        split: sum.splits option.splits prod.splits mv_result.splits)
  then show "r = Inl x \<Longrightarrow> stops x" "r = Inr (None, ev) \<Longrightarrow> ev" by auto
qed

lemma poll_interrupted_cases:
  assumes "poll_interrupted c i answer reason s = (s', r)"
  shows "loop_same s s' \<and> ps_time s' = ps_time s" "\<exists>x. r = Inl x \<and> stops x"
  using assms
  by (auto simp: poll_interrupted_def then_stage_iff dest: resolve_pending_poll_same(1) resolve_pending_poll_same(2) resolve_pending_poll_exit(1)
      split: option.splits)

lemma tick_read_cases:
  assumes "tick_read c i s = (s', r)"
  shows "loop_same s s'" "ps_time s' = ps_time s" "r = Inl x \<Longrightarrow> stops x"
    "r = Inr (pv, q, ev, None) \<Longrightarrow> ps_pending s' = None \<or> ev"
proof -
  have "loop_same s s' \<and> ps_time s' = ps_time s \<and> (r = Inl x \<longrightarrow> stops x) \<and> (r = Inr (pv, q, ev, None) \<longrightarrow> ps_pending s' = None \<or> ev)"
  proof (cases "\<exists>b. ti_read i = Inr (TickCompleted b)")
    case False
    then show ?thesis using assms
      by (auto simp: tick_read_def Let_def split: sum.splits tick_operation.splits
          dest: poll_interrupted_cases(1) poll_interrupted_cases(2))
  next
    case True
    then obtain b where b: "ti_read i = Inr (TickCompleted b)" by blast
    obtain s1 where s1: "s1 = s\<lparr>ps_acc := observe_pv_read (poll_duration i) (ps_acc s)\<rparr>" by blast
    have same: "loop_same s s1" "ps_pending s1 = ps_pending s" "ps_time s1 = ps_time s" by (simp_all add: s1 loop_same_def ps_pending_def)
    have run: "then_stage (case ps_pending s1 of None \<Rightarrow> (s1, Inr (None, False))
        | Some p \<Rightarrow> resolve_pending_poll c i p (TickCompleted b) s1) (\<lambda>s2 (reason, evidence).
          case read_numeric_from_batch (px_parse c) b (g_process_variable (px_tags c)) of
            Inl e \<Rightarrow> (s2, Inl (PollFailed e)) | Inr (pv, q) \<Rightarrow> (s2, Inr (pv, q, evidence, reason))) = (s', r)"
      using assms unfolding s1 tick_read_def Let_def b by simp
    show ?thesis
    proof (cases "ps_pending s1")
      case None
      then show ?thesis using run same by (auto simp: then_stage_iff split: sum.splits prod.splits)
    next
      case (Some p)
      obtain s2 r2 where res: "resolve_pending_poll c i p (TickCompleted b) s1 = (s2, r2)" by fastforce
      have "loop_same s s2" "ps_time s2 = ps_time s"
        using loop_same_trans[OF same(1) resolve_pending_poll_same(1)[OF res]] resolve_pending_poll_same(2)[OF res] same(3)
        by simp_all
      then show ?thesis using run resolve_pending_poll_exit[OF res]
        by (cases "read_numeric_from_batch (px_parse c) b (g_process_variable (px_tags c))")
          (auto simp: Some res then_stage_iff split: prod.splits)
    qed
  qed
  then show "loop_same s s'" "ps_time s' = ps_time s" "r = Inl x \<Longrightarrow> stops x"
    "r = Inr (pv, q, ev, None) \<Longrightarrow> ps_pending s' = None \<or> ev" by auto
qed

lemma tick_stamp_cases:
  assumes "tick_stamp c i s = (s', r)"
  shows "loop_same s s'" "ps_tracker s' = ps_tracker s" "ps_db s' = ps_db s" "r = Inl x \<Longrightarrow> stops x"
  using assms by (auto simp: tick_stamp_def loop_same_def Let_def split: sum.splits prod.splits)

section \<open>The engine steps of a tick\<close>

text \<open>How a tick of \<open>t\<close> that stops the run leaves the loop: what it commanded, and the sample it may
  have recorded.\<close>

definition stopped :: "tick \<Rightarrow> poll_state \<Rightarrow> f32 list \<Rightarrow> poll_state \<Rightarrow> bool" where
  "stopped t s ws s' \<longleftrightarrow>
     ps_commands s' = ps_commands s @ ws \<and> ps_tick_index s' = ps_tick_index s \<and> sampled t s s'"

lemma stopped_same [simp]: "stopped t s [] s"
  by (simp add: stopped_def)

lemma stopped_recorded: "recorded t s1 s' \<Longrightarrow> loop_same s s1 \<Longrightarrow> stopped t s [] s'"
  by (simp add: recorded_def loop_same_def stopped_def sampled_def)

lemma tick_engine_cases:
  assumes "tick_engine c i t q ev s = (s', r)" "engine_step (ps_engine s) t = (e', acts)"
  shows "r = Inl x \<Longrightarrow> stopped t s [] s' \<and> (stops x \<or> ps_pending s \<noteq> None \<and> \<not> ev)"
    "r = Inr acts' \<Longrightarrow> acts' = acts \<and> s' = s\<lparr>ps_engine := e'\<rparr> \<and>
       (list_ex is_write acts \<longrightarrow> ps_tracker s = None \<or> ps_pending s = None)"
proof -
  have pa: "stopped t s [] s1 \<and> (\<forall>x. r1 = Inl x \<longrightarrow> stops x) \<and> (\<forall>v. r1 \<noteq> Inr v)"
    if "persist_and i t st q (PollAborted reason) (set_tracked td s) = (s1, r1)" for st reason td s1 and r1 :: "poll_exit + action list"
  proof -
    have "loop_same s (set_tracked td s)" by (simp add: loop_same_def)
    then show ?thesis using persist_and_cases[OF that] stopped_recorded by auto
  qed
  have "(\<forall>x. r = Inl x \<longrightarrow> stopped t s [] s' \<and> (stops x \<or> ps_pending s \<noteq> None \<and> \<not> ev)) \<and>
    (\<forall>a. r = Inr a \<longrightarrow> a = acts \<and> s' = s\<lparr>ps_engine := e'\<rparr> \<and>
       (list_ex is_write acts \<longrightarrow> ps_tracker s = None \<or> ps_pending s = None))"
    using assms
    by (auto simp: tick_engine_def stopped_def dest!: pa split: option.splits if_splits prod.splits sum.splits)
  then show "r = Inl x \<Longrightarrow> stopped t s [] s' \<and> (stops x \<or> ps_pending s \<noteq> None \<and> \<not> ev)"
    "r = Inr acts' \<Longrightarrow> acts' = acts \<and> s' = s\<lparr>ps_engine := e'\<rparr> \<and>
       (list_ex is_write acts \<longrightarrow> ps_tracker s = None \<or> ps_pending s = None)" by auto
qed

text \<open>A write that goes through changes only the command log and the tracker.\<close>

definition commanded :: "f32 list \<Rightarrow> poll_state \<Rightarrow> poll_state \<Rightarrow> bool" where
  "commanded ws s s' \<longleftrightarrow>
     ps_engine s' = ps_engine s \<and> ps_commands s' = ps_commands s @ ws \<and>
     ps_tick_index s' = ps_tick_index s \<and> ps_samples s' = ps_samples s \<and> ps_time s' = ps_time s"

lemma stopped_commanded: "recorded t s1 s' \<Longrightarrow> commanded ws s s1 \<Longrightarrow> stopped t s ws s'"
  by (simp add: recorded_def commanded_def stopped_def sampled_def)

lemma tick_write_cases:
  assumes "tick_write c i t q before v s = (s', r)"
  shows "r = Inl x \<Longrightarrow> stops x \<and> (stopped t s [] s' \<or> stopped t s [v] s')"
    "r = Inr () \<Longrightarrow> commanded [v] s s' \<and> ps_completion s' = ps_completion s \<and>
       ps_post_delay_end s' = ps_post_delay_end s"
proof -
  obtain s1 where s1: "s1 = s\<lparr>ps_mv_written := True, ps_commands := ps_commands s @ [v]\<rparr>" by blast
  have c1: "commanded [v] s s1" by (simp add: s1 commanded_def)
  have pa: "stopped t s [v] s2 \<and> r1 \<noteq> Inr () \<and> (\<forall>x. r1 = Inl x \<longrightarrow> stops x)"
    if "persist_and i t st q (PollAborted reason) s1 = (s2, r1)" for st reason s2 r1
    using persist_and_cases[OF that] stopped_commanded[OF _ c1] by auto
  have "(\<forall>x. r = Inl x \<longrightarrow> stops x \<and> (stopped t s [] s' \<or> stopped t s [v] s')) \<and>
    (r = Inr () \<longrightarrow> commanded [v] s s' \<and> ps_completion s' = ps_completion s \<and>
       ps_post_delay_end s' = ps_post_delay_end s)"
  proof (cases "relay_tolerance v s")
    case (Inl e)
    then show ?thesis using assms by (auto simp: tick_write_def)
  next
    case (Inr tol)
    have run: "(case ti_write i of
                Inl e \<Rightarrow> (s1, Inl (PollFailed e))
              | Inr (TickCompleted _) \<Rightarrow>
                  (let s2 = s1\<lparr>ps_acc := observe_mv_write (saturating_since (ti_write_done i) (ti_write_started i)) (ps_acc s1)\<rparr>
                   in case (ps_tracker s2, tol) of
                        (Some tr, Some tl') \<Rightarrow>
                          (case record_relay_actuation (px_run_id c) v (tk_time t) (ti_observed i)
                                  (ti_observed i + secs (unat (px_noise_secs c)))
                                  (saturating_since (ti_write_done i) (ti_observed i)) (ti_write_done i) tl'
                                  (tr, ps_db s2) of
                             (td, Inl e) \<Rightarrow> (set_tracked td s2, Inl (PollFailed e))
                           | (td, Inr _) \<Rightarrow> (set_tracked td s2, Inr ()))
                      | _ \<Rightarrow> (s2, Inr ()))
              | Inr TickCancelled \<Rightarrow> persist_and i t before q (PollAborted UserInterrupt) s1
              | Inr TickTimedOut \<Rightarrow>
                  persist_and i t (engine_state (ps_engine s1)) q
                    (PollAborted (OperationTimedOut (g_manipulated_variable (px_tags c))
                       (f_op_timeout_secs (px_timing c)))) s1) = (s', r)"
      using assms unfolding tick_write_def Inr sum.case Let_def s1[symmetric] .
    show ?thesis
    proof (cases "ti_write i")
      case (Inl e)
      then show ?thesis using run c1 by (auto simp: stopped_def commanded_def)
    next
      case op: (Inr o1)
      show ?thesis
      proof (cases o1)
        case TickCancelled
        then show ?thesis using run by (auto simp: op dest!: pa)
      next
        case TickTimedOut
        then show ?thesis using run by (auto simp: op dest!: pa)
      next
        case (TickCompleted u)
        then show ?thesis using run
          by (auto simp: op Let_def stopped_def commanded_def s1 split: option.splits prod.splits sum.splits)
      qed
    qed
  qed
  then show "r = Inl x \<Longrightarrow> stops x \<and> (stopped t s [] s' \<or> stopped t s [v] s')"
    "r = Inr () \<Longrightarrow> commanded [v] s s' \<and> ps_completion s' = ps_completion s \<and>
       ps_post_delay_end s' = ps_post_delay_end s" by auto
qed

lemma stopped_after:
  "commanded vs s s1 \<Longrightarrow> stopped t s1 ws s' \<Longrightarrow> stopped t s (vs @ ws) s'"
  by (simp add: commanded_def stopped_def sampled_def)

lemma commanded_trans: "commanded vs s s1 \<Longrightarrow> commanded ws s1 s' \<Longrightarrow> commanded (vs @ ws) s s'"
  by (simp add: commanded_def)

lemma tick_actions_stop:
  "tick_actions c i t q before acts s = (s', Inl x) \<Longrightarrow>
   stops x \<and> (\<exists>ws. prefix ws (mv_writes acts) \<and> stopped t s ws s')"
proof (induction c i t q before acts s rule: tick_actions.induct)
  case (2 c i t q before v acts s)
  consider (now) "tick_write c i t q before v s = (s', Inl x)"
    | (later) s1 where "tick_write c i t q before v s = (s1, Inr ())" "tick_actions c i t q before acts s1 = (s', Inl x)"
    using 2(2) by (auto simp: then_stage_iff)
  then show ?case
  proof cases
    case now
    have "prefix [] (v # mv_writes acts)" "prefix [v] (v # mv_writes acts)" by simp_all
    then show ?thesis using tick_write_cases(1)[OF now refl] by (metis mv_writes.simps(2))
  next
    case later
    from 2(1)[OF later(2)] obtain ws where "stops x" "prefix ws (mv_writes acts)" "stopped t s1 ws s'" by blast
    moreover have "commanded [v] s s1" using tick_write_cases(2)[OF later(1)] by simp
    ultimately show ?thesis using stopped_after[of "[v]" s s1 t ws s'] by (intro conjI exI[of _ "v # ws"]) auto
  qed
next
  case (3 c i t q before ps trs sw sg acts s)
  then show ?case by (auto simp: stopped_def sampled_def)
qed simp

lemma tick_actions_done:
  "tick_actions c i t q before acts s = (s', Inr u) \<Longrightarrow>
   commanded (mv_writes acts) s s' \<and>
   (if completions acts = 0 then ps_completion s' = ps_completion s \<and> ps_post_delay_end s' = ps_post_delay_end s
    else ps_completion s' \<noteq> None \<and>
      ps_post_delay_end s' = Some (tk_time t + secs (unat (f_mrft_delay_secs (px_timing c)))))"
proof (induction c i t q before acts s rule: tick_actions.induct)
  case (1 c i t q before s)
  then show ?case by (simp add: commanded_def)
next
  case (2 c i t q before v acts s)
  then obtain s1 where w: "tick_write c i t q before v s = (s1, Inr ())"
      "tick_actions c i t q before acts s1 = (s', Inr u)"
    by (auto simp: then_stage_iff)
  from 2(1)[OF w(2)] tick_write_cases(2)[OF w(1) refl]
  show ?case using commanded_trans[of "[v]" s s1 "mv_writes acts" s'] by (auto split: if_splits)
next
  case (3 c i t q before ps trs sw sg acts s)
  then show ?case by (auto simp: commanded_def split: if_splits)
qed

section \<open>One tick\<close>

text \<open>A tick of \<open>t\<close> that the loop goes on after: before the pre-tuning delay is over only the sample
  is recorded, later the engine steps and all its commands are written.\<close>

abbreviation waiting :: "poll_ctx \<Rightarrow> poll_state \<Rightarrow> tick \<Rightarrow> bool" where
  "waiting c s t \<equiv> ps_completion s = None \<and> tk_time t < px_pre_delay_end c"

definition ticked :: "poll_ctx \<Rightarrow> tick \<Rightarrow> poll_state \<Rightarrow> poll_state \<Rightarrow> bool" where
  "ticked c t s s' \<longleftrightarrow>
     (\<exists>x. ps_samples s' = ps_samples s @ [x] \<and> sr_index x = ps_tick_index s \<and> sr_tick x = t) \<and>
     ps_tick_index s' = ps_tick_index s + 1 \<and>
     (if waiting c s t
      then ps_engine s' = ps_engine s \<and> ps_commands s' = ps_commands s \<and>
        ps_completion s' = ps_completion s \<and> ps_post_delay_end s' = ps_post_delay_end s
      else (case engine_step (ps_engine s) t of (e', acts) \<Rightarrow>
        ps_engine s' = e' \<and> ps_commands s' = ps_commands s @ mv_writes acts \<and>
        (if completions acts = 0
         then ps_completion s' = ps_completion s \<and> ps_post_delay_end s' = ps_post_delay_end s
         else ps_completion s' \<noteq> None \<and>
           ps_post_delay_end s' = Some (tk_time t + secs (unat (f_mrft_delay_secs (px_timing c)))))))"

definition tick_verdict :: "poll_ctx \<Rightarrow> poll_state \<Rightarrow> tick \<Rightarrow> poll_state \<Rightarrow> poll_exit" where
  "tick_verdict c s t s' = (if waiting c s t then PollContinue
     else case ps_post_delay_end s' of
       Some end_at \<Rightarrow> if end_at \<le> tk_time t then PollBreak else PollContinue
     | None \<Rightarrow> PollContinue)"

definition cut_short :: "poll_ctx \<Rightarrow> tick \<Rightarrow> poll_state \<Rightarrow> poll_state \<Rightarrow> bool" where
  "cut_short c t s s' \<longleftrightarrow> stopped t s [] s' \<or>
     \<not> waiting c s t \<and> (\<exists>ws. prefix ws (mv_writes (snd (engine_step (ps_engine s) t))) \<and> stopped t s ws s')"

lemma stopped_cong:
  "loop_same s s1 \<Longrightarrow> stopped t s1 ws s' = stopped t s ws s'"
  "loop_same s s1 \<Longrightarrow> waiting c s1 t = waiting c s t"
  by (auto simp: loop_same_def stopped_def sampled_def)

lemma tick_body_cases:
  assumes "tick_body c i t q ev reason s = (s', r)" and "reason = None \<Longrightarrow> ps_pending s = None \<or> ev"
  shows "r = Inl (tick_verdict c s t s') \<and> ticked c t s s' \<and> ps_time s' = ps_time s \<or>
     (\<exists>x. r = Inl x \<and> stops x \<and> cut_short c t s s')"
proof -
  obtain sq where sq: "sq = sample_quality_from_driver q" by blast
  have pa: ?thesis if "persist_and i t st sq (PollAborted a) s = (s', r)" for st a
    using persist_and_cases[OF that] stopped_recorded by (auto simp: cut_short_def)
  show ?thesis
  proof (cases "\<not> is_ok (check_quality (g_process_variable (px_tags c)) q (px_allow c)) \<or> reason \<noteq> None")
    case True
    then have "\<exists>st a. persist_and i t st sq (PollAborted a) s = (s', r)"
      using assms(1) by (auto simp: tick_body_def Let_def sq split: if_splits)
    then show ?thesis using pa by blast
  next
    case False
    show ?thesis
    proof (cases "waiting c s t")
      case w: True
      have run: "then_stage (persist_sample i t (engine_state (ps_engine s)) sq s) (\<lambda>s _.
          ((tick_work_done i s)\<lparr>ps_tick_index := ps_tick_index s + 1\<rparr>, Inl PollContinue)) = (s', r)"
        using assms(1) False w by (simp add: tick_body_def Let_def sq)
      obtain s1 r1 where p: "persist_sample i t (engine_state (ps_engine s)) sq s = (s1, r1)" by fastforce
      note P = persist_sample_cases[OF p]
      show ?thesis
      proof (cases r1)
        case (Inl e)
        then show ?thesis using run P(2) by (auto simp: p then_stage_iff cut_short_def)
      next
        case (Inr u)
        then show ?thesis using run P(3) recorded_fields[OF P(1)] w
          by (auto simp: p then_stage_iff ticked_def tick_verdict_def)
      qed
    next
      case w: False
      obtain e' acts where step: "engine_step (ps_engine s) t = (e', acts)" by fastforce
      have run: "then_stage (tick_engine c i t sq ev s) (\<lambda>s1 acts.
                 then_stage (tick_actions c i t sq (engine_state (ps_engine s)) acts s1) (\<lambda>s2 _.
                 then_stage (persist_sample i t (engine_state (ps_engine s2)) sq s2) (\<lambda>s3 _.
                   let s4 = (tick_work_done i s3)\<lparr>ps_tick_index := ps_tick_index s3 + 1\<rparr>
                   in (s4, Inl (case ps_post_delay_end s4 of
                          Some end_at \<Rightarrow> if end_at \<le> tk_time t then PollBreak else PollContinue
                        | None \<Rightarrow> PollContinue))))) = (s', r)"
        using assms(1) False unfolding tick_body_def Let_def sq[symmetric] if_not_P[OF w] by simp
      obtain s1 r1 where te: "tick_engine c i t sq ev s = (s1, r1)" by fastforce
      note E = tick_engine_cases[OF te step]
      show ?thesis
      proof (cases r1)
        case (Inl x)
        then show ?thesis using run E(1) assms(2) False by (auto simp: te then_stage_iff cut_short_def)
      next
        case (Inr acts')
        then have s1: "acts' = acts" "s1 = s\<lparr>ps_engine := e'\<rparr>" using E(2) by auto
        obtain s2 r2 where ta: "tick_actions c i t sq (engine_state (ps_engine s)) acts s1 = (s2, r2)" by fastforce
        show ?thesis
        proof (cases r2)
          case (Inl x)
          have "s' = s2" "r = Inl x"
            using run unfolding te \<open>r1 = Inr acts'\<close> then_stage_simps s1(1) ta[unfolded Inl] by simp_all
          moreover obtain ws where "stops x" "prefix ws (mv_writes acts)" "stopped t s1 ws s2"
            using tick_actions_stop[OF ta[unfolded Inl]] by blast
          moreover have "stopped t s ws s2" using calculation(5) by (simp add: s1 stopped_def sampled_def)
          ultimately show ?thesis using w unfolding cut_short_def step by auto
        next
          case r2: (Inr u)
          note A = tick_actions_done[OF ta[unfolded r2]]
          obtain s3 r3 where p: "persist_sample i t (engine_state (ps_engine s2)) sq s2 = (s3, r3)" by fastforce
          note P = persist_sample_cases[OF p]
          have run': "then_stage (s3, r3) (\<lambda>s3 _.
                   let s4 = (tick_work_done i s3)\<lparr>ps_tick_index := ps_tick_index s3 + 1\<rparr>
                   in (s4, Inl (case ps_post_delay_end s4 of
                          Some end_at \<Rightarrow> if end_at \<le> tk_time t then PollBreak else PollContinue
                        | None \<Rightarrow> PollContinue))) = (s', r)"
            using run unfolding te Inr then_stage_simps s1(1) ta[unfolded r2] p .
          have c2: "commanded (mv_writes acts) s1 s2" using A by blast
          show ?thesis
          proof (cases r3)
            case (Inl e)
            then have "s' = s2 \<and> (\<exists>e. r = Inl (PollFailed e))" using run' P(2) by (auto simp: then_stage_iff)
            moreover have "stopped t s (mv_writes acts) s2"
              using c2 by (simp add: s1 stopped_def commanded_def sampled_def)
            ultimately show ?thesis using w by (auto simp: cut_short_def step)
          next
            case (Inr u)
            have s': "s' = (tick_work_done i s3)\<lparr>ps_tick_index := ps_tick_index s3 + 1\<rparr>"
              "r = Inl (tick_verdict c s t s')"
              using run' w by (auto simp: Inr then_stage_def tick_verdict_def Let_def)
            have "ticked c t s s' \<and> ps_time s' = ps_time s"
              unfolding ticked_def step using s'(1) w c2 A P(3) recorded_fields[OF P(1)] Inr
              by (auto simp: s1 commanded_def)
            then show ?thesis using s'(2) by blast
          qed
        qed
      qed
    qed
  qed
qed

lemma ticked_cong: "loop_same s s1 \<Longrightarrow> ticked c t s1 s' = ticked c t s s'"
  by (simp add: loop_same_def ticked_def)

lemma tick_verdict_cong: "loop_same s s1 \<Longrightarrow> tick_verdict c s1 t s' = tick_verdict c s t s'"
  by (simp add: loop_same_def tick_verdict_def)

lemma cut_short_cong: "loop_same s s1 \<Longrightarrow> cut_short c t s1 s' = cut_short c t s s'"
  unfolding cut_short_def by (simp add: stopped_cong) (simp add: loop_same_def)

lemma poll_tick_cases:
  assumes "poll_tick c i s = (s', r)"
  shows "(\<exists>t. r = Inl (tick_verdict c s t s') \<and> ticked c t s s' \<and>
        next_timestamp_at (px_utc_max c) (ti_observed i) (ps_time s) = (ps_time s', Ok (tk_time t))) \<or>
     (\<exists>t x. r = Inl x \<and> stops x \<and> cut_short c t s s')"
proof -
  obtain s0 where s0: "s0 = s\<lparr>ps_next_poll_at := ti_started i + millis (f_poll_interval_ms (px_timing c))\<rparr>" by blast
  have 0: "loop_same s s0" "ps_time s0 = ps_time s" by (simp_all add: s0 loop_same_def)
  obtain s1 r1 where tr: "tick_read c i s0 = (s1, r1)" by fastforce
  note R = tick_read_cases[OF tr]
  have 1: "loop_same s s1" by (rule loop_same_trans[OF 0(1) R(1)])
  show ?thesis
  proof (cases r1)
    case (Inl x)
    then have "s' = s1" "r = Inl x" using assms unfolding poll_tick_def Let_def s0[symmetric] tr then_stage_def by simp_all
    moreover have "stopped undefined s [] s1" using 1 by (simp add: loop_same_def stopped_def)
    ultimately show ?thesis using R(3)[OF Inl] by (auto simp: cut_short_def)
  next
    case (Inr v)
    obtain pv q ev reason where v: "v = (pv, q, ev, reason)" by (metis prod_cases4)
    obtain s2 r2 where ts: "tick_stamp c i s1 = (s2, r2)" by fastforce
    note S = tick_stamp_cases[OF ts]
    have 2: "loop_same s s2" by (rule loop_same_trans[OF 1 S(1)])
    show ?thesis
    proof (cases r2)
      case (Inl x)
      then have "s' = s2" "r = Inl x"
        using assms unfolding poll_tick_def Let_def s0[symmetric] tr Inr v then_stage_def by (simp_all add: ts)
      moreover have "stopped undefined s [] s2" using 2 by (simp add: loop_same_def stopped_def)
      ultimately show ?thesis using S(4)[OF Inl] unfolding cut_short_def by blast
    next
      case r2: (Inr now)
      obtain t where t: "t = \<lparr> tk_time = now, tk_pv = pv \<rparr>" by blast
      have b: "tick_body c i t q ev reason s2 = (s', r)"
        using assms unfolding poll_tick_def Let_def s0[symmetric] tr Inr v then_stage_def by (simp add: ts r2 t)
      have p: "ps_pending s2 = None \<or> ev" if "reason = None"
        using R(4) Inr v that S(2) by (auto simp: ps_pending_def)
      have "ps_time s1 = ps_time s"
        using R(2) 0(2) by simp
      then have "next_timestamp_at (px_utc_max c) (ti_observed i) (ps_time s) = (ps_time s2, Ok now)"
        using ts r2 by (auto simp: tick_stamp_def Let_def split: prod.splits sum.splits)
      then show ?thesis using tick_body_cases[OF b p] unfolding cut_short_cong[OF 2] ticked_cong[OF 2] tick_verdict_cong[OF 2]
        by (metis t tick.select_convs(1))
    qed
  qed
qed

section \<open>The engine behind a run\<close>

text \<open>The ticks the engine is fed, as the recorded samples tell them.\<close>

definition fed :: "poll_ctx \<Rightarrow> poll_state \<Rightarrow> tick list" where
  "fed c s = filter (\<lambda>t. px_pre_delay_end c \<le> tk_time t) (map sr_tick (ps_samples s))"

definition driven :: "poll_ctx \<Rightarrow> mrft_engine \<Rightarrow> poll_state \<Rightarrow> bool" where
  "driven c e0 s \<longleftrightarrow>
     (case engine_run e0 (fed c s) of (e, acts) \<Rightarrow> ps_engine s = e \<and> ps_commands s = mv_writes acts) \<and>
     (ps_completion s = None \<longleftrightarrow> \<not> e_completed (ps_engine s)) \<and>
     (ps_post_delay_end s = None \<longleftrightarrow> ps_completion s = None) \<and>
     map sr_index (ps_samples s) = map int [0..<length (ps_samples s)] \<and>
     ps_tick_index s = int (length (ps_samples s))"

lemma step_completes:
  "\<not> e_completed e \<Longrightarrow> (completions (snd (engine_step e t)) = 0) = (\<not> e_completed (fst (engine_step e t)))"
  by (cases rule: engine_step_cases [of e t])
    (auto dest: needed_fields(6) switch_fields(4) split: if_splits)

lemma step_completed: "e_completed e \<Longrightarrow> engine_step e t = (e, [])"
  by (simp add: engine_step_def)

lemma ticked_driven:
  assumes "driven c e0 s" "ticked c t s s'" shows "driven c e0 s'"
proof -
  obtain x where x: "ps_samples s' = ps_samples s @ [x]" "sr_index x = ps_tick_index s" "sr_tick x = t"
    using assms(2) by (auto simp: ticked_def)
  have fed': "fed c s' = fed c s @ (if px_pre_delay_end c \<le> tk_time t then [t] else [])"
    by (simp add: fed_def x)
  obtain e acts where run: "engine_run e0 (fed c s) = (e, acts)" by fastforce
  then have e: "ps_engine s = e" "ps_commands s = mv_writes acts" using assms(1) by (simp_all add: driven_def)
  have idx: "map sr_index (ps_samples s') = map int [0..<length (ps_samples s')]"
      "ps_tick_index s' = int (length (ps_samples s'))"
    using assms by (simp_all add: driven_def x ticked_def)
  obtain e1 a1 where step: "engine_step e t = (e1, a1)" by fastforce
  show ?thesis
  proof (cases "waiting c s t")
    case True
    then show ?thesis using assms idx unfolding driven_def fed' by (auto simp: ticked_def)
  next
    case False
    have eng: "ps_engine s' = e1" "ps_commands s' = mv_writes acts @ mv_writes a1"
      using assms(2) False by (simp_all add: ticked_def e step)
    have run': "engine_run e0 (fed c s') = (e1, acts @ a1) \<or> px_pre_delay_end c > tk_time t \<and> engine_run e0 (fed c s') = (e1, acts) \<and> a1 = []"
    proof (cases "px_pre_delay_end c \<le> tk_time t")
      case True
      then show ?thesis by (simp add: fed' engine_run_snoc run step)
    next
      case f: False
      then have "e_completed e" using False assms(1) e by (auto simp: driven_def)
      then show ?thesis using f step by (simp add: fed' run step_completed)
    qed
    have compl: "(ps_completion s' = None) = (\<not> e_completed e1) \<and> (ps_post_delay_end s' = None) = (ps_completion s' = None)"
    proof (cases "e_completed e")
      case True
      then show ?thesis using assms False e step
        by (simp add: ticked_def driven_def step_completed split: if_splits)
    next
      case nc: False
      then show ?thesis using assms False step step_completes[OF nc, of t] e
        by (auto simp: ticked_def driven_def split: if_splits)
    qed
    show ?thesis unfolding driven_def using run' eng idx compl by auto
  qed
qed

text \<open>A run that is stopped has commanded no more than the engine asked for on the recorded samples
  and, when the last one could not be recorded, one tick more.\<close>

definition commands_within :: "poll_ctx \<Rightarrow> mrft_engine \<Rightarrow> poll_state \<Rightarrow> bool" where
  "commands_within c e0 s \<longleftrightarrow>
     (\<exists>us. length us \<le> 1 \<and> prefix (ps_commands s) (mv_writes (snd (engine_run e0 (fed c s @ us))))) \<and>
     map sr_index (ps_samples s) = map int [0..<length (ps_samples s)]"

lemma driven_within: "driven c e0 s \<Longrightarrow> commands_within c e0 s"
  by (auto simp: driven_def commands_within_def case_prod_beta intro!: exI[of _ "[]"])

lemma run_prefix: "prefix (mv_writes (snd (engine_run e ts))) (mv_writes (snd (engine_run e (ts @ us))))"
  by (simp add: engine_run_append case_prod_beta)

lemma stopped_within:
  assumes "driven c e0 s" "cut_short c t s s'" shows "commands_within c e0 s'"
proof -
  obtain e acts where run: "engine_run e0 (fed c s) = (e, acts)" by fastforce
  then have e: "ps_engine s = e" "ps_commands s = mv_writes acts"
    and idx: "map sr_index (ps_samples s) = map int [0..<length (ps_samples s)]"
      "ps_tick_index s = int (length (ps_samples s))"
    using assms(1) by (simp_all add: driven_def)
  obtain ws where ws: "stopped t s ws s'"
      "ws = [] \<or> \<not> waiting c s t \<and> prefix ws (mv_writes (snd (engine_step e t)))"
    using assms(2) e by (auto simp: cut_short_def)
  have cmd: "ps_commands s' = mv_writes acts @ ws" and smp: "sampled t s s'"
    using ws(1) e by (simp_all add: stopped_def)
  have idx': "map sr_index (ps_samples s') = map int [0..<length (ps_samples s')]"
    using smp idx by (auto simp: sampled_def)
  have fed': "fed c s' = fed c s \<or> px_pre_delay_end c \<le> tk_time t \<and> fed c s' = fed c s @ [t]"
    using smp by (auto simp: sampled_def fed_def split: if_splits)
  have one: "prefix (ps_commands s') (mv_writes (snd (engine_run e0 (fed c s @ [t]))))"
    using ws(2) by (auto simp: cmd engine_run_snoc run)
  from fed' show ?thesis
  proof
    assume "fed c s' = fed c s"
    then show ?thesis using one idx' unfolding commands_within_def by (metis length_Cons list.size(3) One_nat_def order_refl)
  next
    assume "px_pre_delay_end c \<le> tk_time t \<and> fed c s' = fed c s @ [t]"
    then show ?thesis using one idx' unfolding commands_within_def
      by (metis append.right_neutral list.size(3) zero_le)
  qed
qed

lemma within_same: "loop_same s s' \<Longrightarrow> commands_within c e0 s' = commands_within c e0 s"
  by (simp add: loop_same_def commands_within_def fed_def)

lemma driven_same: "loop_same s s' \<Longrightarrow> driven c e0 s' = driven c e0 s"
  by (simp add: loop_same_def driven_def fed_def)

lemma poll_verify_same:
  assumes "poll_verify c n1 n2 reads s = (s', x)" shows "loop_same s s'" "x \<noteq> PollBreak" "x \<noteq> PollPanic"
  using assms by (auto simp: poll_verify_def Let_def loop_same_def split: option.splits prod.splits sum.splits)

lemma tick_verdict_goes_on: "tick_verdict c s t s' = PollContinue \<or> tick_verdict c s t s' = PollBreak"
  by (simp add: tick_verdict_def split: option.splits)

lemma poll_step_cases:
  assumes "poll_step c ev s = (s', x)"
  obtains (idle) "loop_same s s'" "x \<noteq> PollBreak" "x \<noteq> PollPanic"
  | (tick) t where "x = tick_verdict c s t s'" "ticked c t s s'"
  | (stop) t where "stops x" "cut_short c t s s'"
proof (cases ev)
  case (EvVerify n1 n2 reads)
  then have "poll_verify c n1 n2 reads s = (s', x)" using assms by (simp add: poll_step_def)
  then show ?thesis by (intro idle) (fact poll_verify_same)+
next
  case (EvTick i)
  obtain s1 r where p: "poll_tick c i s = (s1, r)" by fastforce
  from poll_tick_cases[OF p] show ?thesis
  proof (elim disjE exE conjE)
    fix t
    assume a: "r = Inl (tick_verdict c s t s1)" "ticked c t s s1"
    then have "poll_step c ev s = (s1, tick_verdict c s t s1)" by (simp add: poll_step_def EvTick p)
    then have "s' = s1" "x = tick_verdict c s t s1" using assms by (metis prod.inject)+
    then show ?thesis using tick[of t] a(2) by blast
  next
    fix t y
    assume "r = Inl y" "stops y" "cut_short c t s s1"
    then show ?thesis using stop[of t] assms by (simp add: poll_step_def EvTick p)
  qed
next
  case EvCtrlC
  then show ?thesis using assms by (auto simp: poll_step_def intro: idle)
next
  case EvTimeout
  then show ?thesis using assms by (auto simp: poll_step_def intro: idle)
qed

lemma poll_step_driven:
  assumes "driven c e0 s" "poll_step c ev s = (s', x)"
  shows "x \<noteq> PollPanic" "commands_within c e0 s'" "x = PollContinue \<or> x = PollBreak \<Longrightarrow> driven c e0 s'"
proof -
  have "x \<noteq> PollPanic \<and> commands_within c e0 s' \<and> (x = PollContinue \<or> x = PollBreak \<longrightarrow> driven c e0 s')"
    using assms(2)
  proof (cases rule: poll_step_cases)
    case idle
    then show ?thesis using assms(1) driven_same driven_within by blast
  next
    case (tick t)
    then show ?thesis using ticked_driven[OF assms(1) tick(2)] driven_within tick_verdict_goes_on
      by (metis poll_exit.distinct(7,13))
  next
    case (stop t)
    then show ?thesis using stopped_within[OF assms(1) stop(2)] by (auto simp: stops_def)
  qed
  then show "x \<noteq> PollPanic" "commands_within c e0 s'" "x = PollContinue \<or> x = PollBreak \<Longrightarrow> driven c e0 s'" by auto
qed

lemma poll_loop_driven:
  "driven c e0 s \<Longrightarrow> poll_loop c evs s = (s', x) \<Longrightarrow>
   x \<noteq> PollPanic \<and> commands_within c e0 s' \<and> (x = PollContinue \<or> x = PollBreak \<longrightarrow> driven c e0 s')"
proof (induction evs arbitrary: s)
  case Nil
  then show ?case by (auto intro: driven_within)
next
  case (Cons ev evs)
  obtain s1 x1 where st: "poll_step c ev s = (s1, x1)" by fastforce
  note D = poll_step_driven[OF Cons.prems(1) st]
  show ?case
  proof (cases "x1 = PollContinue")
    case True
    then show ?thesis using Cons.IH[OF D(3)] Cons.prems(2) by (simp add: st)
  next
    case False
    then have "s' = s1" "x = x1" using Cons.prems(2) by (auto simp: st split: poll_exit.splits)
    then show ?thesis using D by blast
  qed
qed

lemma poll_start_driven:
  "poll_start c q a now e tr acc d = Ok s \<Longrightarrow> \<not> e_completed e \<Longrightarrow> driven c e s"
  by (auto simp: poll_start_def bind_result_Ok_iff driven_def fed_def)

section \<open>Commands and confirmations\<close>

lemma insert_pending_keeps:
  "insert_pending rid new d = (d', r) \<Longrightarrow> set (actuations d) \<subseteq> set (actuations d')"
  by (auto simp: insert_pending_def run_tx_def Let_def split: if_splits)

lemma record_relay_keeps:
  "record_relay_actuation rid v st si fc el ai tol (t, d) = (td, r) \<Longrightarrow>
   set (actuations d) \<subseteq> set (actuations (snd td))"
  by (auto simp: record_relay_actuation_def record_accepted_at_switch_def Let_def
      dest!: insert_pending_keeps split: sum.splits prod.splits)

lemma row_is_mono: "set (actuations d) \<subseteq> set (actuations d') \<Longrightarrow> row_is d i st \<Longrightarrow> row_is d' i st"
  by (auto simp: row_is_def)

definition rows_kept :: "poll_state \<Rightarrow> poll_state \<Rightarrow> bool" where
  "rows_kept s s' \<longleftrightarrow> set (actuations (ps_db s)) \<subseteq> set (actuations (ps_db s'))"

lemma rows_kept_same [simp]: "ps_db s' = ps_db s \<Longrightarrow> rows_kept s s'"
  by (simp add: rows_kept_def)

lemma rows_kept_trans: "rows_kept s s1 \<Longrightarrow> rows_kept s1 s2 \<Longrightarrow> rows_kept s s2"
  by (auto simp: rows_kept_def)

lemma persist_and_keeps: "persist_and i t st q x s = (s', r) \<Longrightarrow> rows_kept s s'"
  by (frule persist_and_cases(1)) (simp add: recorded_def)

lemma tick_write_keeps:
  assumes "tick_write c i t q before v s = (s', r)" shows "rows_kept s s'"
proof -
  obtain s1 where s1: "s1 = s\<lparr>ps_mv_written := True, ps_commands := ps_commands s @ [v]\<rparr>" by blast
  have db: "ps_db s1 = ps_db s" by (simp add: s1)
  show ?thesis
  proof (cases "\<exists>u. ti_write i = Inr (TickCompleted u)")
    case True
    then show ?thesis using assms
      by (auto simp: tick_write_def Let_def rows_kept_def dest!: record_relay_keeps
          split: sum.splits option.splits prod.splits)
  next
    case False
    have "s' = s \<or> s' = s1 \<or> (\<exists>st a. persist_and i t st q (PollAborted a) s1 = (s', r))"
      using assms False unfolding tick_write_def Let_def s1[symmetric]
      by (auto split: sum.splits tick_operation.splits)
    then show ?thesis using db by (auto simp: rows_kept_def dest!: persist_and_keeps)
  qed
qed

lemma tick_actions_keeps: "tick_actions c i t q before acts s = (s', r) \<Longrightarrow> rows_kept s s'"
proof (induction c i t q before acts s arbitrary: s' r rule: tick_actions.induct)
  case (2 c i t q before v acts s)
  then show ?case by (auto simp: then_stage_iff dest!: tick_write_keeps 2(1) intro: rows_kept_trans)
next
  case (3 c i t q before ps trs sw sg acts s)
  from 3(1)[OF 3(2)[unfolded tick_actions.simps]] show ?case by (simp add: rows_kept_def)
qed simp

lemma mv_writes_nil: "(mv_writes acts = []) = (\<not> list_ex is_write acts)"
  by (induction acts rule: mv_writes.induct) auto

text \<open>A tick that commands anything had nothing pending when its engine stepped.\<close>

lemma tick_body_commands:
  assumes "tick_body c i t q ev reason s = (s', r)" "ps_commands s' \<noteq> ps_commands s"
  shows "reason = None \<and> (ps_tracker s = None \<or> ps_pending s = None) \<and> rows_kept s s'"
proof -
  obtain sq where sq: "sq = sample_quality_from_driver q" by blast
  obtain e' acts where step: "engine_step (ps_engine s) t = (e', acts)" by fastforce
  have pa: False if "persist_and i t st sq x s = (s', r)" for st x
    using persist_and_cases(1)[OF that] assms(2) by (simp add: recorded_def)
  have ok: "is_ok (check_quality (g_process_variable (px_tags c)) q (px_allow c))" "reason = None"
    using assms(1) pa by (auto simp: tick_body_def Let_def sq[symmetric] split: if_splits option.splits)
  have w: "\<not> waiting c s t"
  proof
    assume w: "waiting c s t"
    then have "then_stage (persist_sample i t (engine_state (ps_engine s)) sq s) (\<lambda>s _.
          ((tick_work_done i s)\<lparr>ps_tick_index := ps_tick_index s + 1\<rparr>, Inl PollContinue)) = (s', r)"
      using assms(1) ok by (simp add: tick_body_def Let_def sq)
    then show False using assms(2)
      by (auto simp: then_stage_iff dest!: persist_sample_cases(1) recorded_fields(4))
  qed
  have run: "then_stage (tick_engine c i t sq ev s) (\<lambda>s1 acts.
             then_stage (tick_actions c i t sq (engine_state (ps_engine s)) acts s1) (\<lambda>s2 _.
             then_stage (persist_sample i t (engine_state (ps_engine s2)) sq s2) (\<lambda>s3 _.
               let s4 = (tick_work_done i s3)\<lparr>ps_tick_index := ps_tick_index s3 + 1\<rparr>
               in (s4, Inl (case ps_post_delay_end s4 of
                      Some end_at \<Rightarrow> if end_at \<le> tk_time t then PollBreak else PollContinue
                    | None \<Rightarrow> PollContinue))))) = (s', r)"
    using assms(1) ok unfolding tick_body_def Let_def sq[symmetric] if_not_P[OF w] by simp
  obtain s1 r1 where te: "tick_engine c i t sq ev s = (s1, r1)" by fastforce
  note E = tick_engine_cases[OF te step]
  show ?thesis
  proof (cases r1)
    case (Inl x)
    then show ?thesis using run E(1)[OF Inl] assms(2) by (simp add: te then_stage_simps stopped_def)
  next
    case (Inr acts')
    then have s1: "acts' = acts" "s1 = s\<lparr>ps_engine := e'\<rparr>"
      and gate: "list_ex is_write acts \<longrightarrow> ps_tracker s = None \<or> ps_pending s = None" using E(2) by auto
    obtain s2 r2 where ta: "tick_actions c i t sq (engine_state (ps_engine s)) acts s1 = (s2, r2)" by fastforce
    have "rows_kept s1 s2" by (rule tick_actions_keeps[OF ta])
    then have k2: "rows_kept s s2" by (simp add: s1 rows_kept_def)
    have s': "ps_db s' = ps_db s2 \<and> ps_commands s' = ps_commands s2"
      using run unfolding te Inr then_stage_simps s1(1) ta
      by (auto simp: then_stage_iff Let_def recorded_def dest!: persist_sample_cases(1))
    have "mv_writes acts \<noteq> []"
    proof
      assume "mv_writes acts = []"
      then have "ps_commands s2 = ps_commands s1"
        using ta tick_actions_stop tick_actions_done
        by (cases r2) (fastforce simp: stopped_def commanded_def)+
      then show False using assms(2) s' by (simp add: s1)
    qed
    then show ?thesis using gate ok(2) k2 s' by (auto simp: mv_writes_nil rows_kept_def)
  qed
qed

text \<open>The tracker and the audit rows the loop holds are ones the audit model reaches.\<close>

definition tracked :: "int \<Rightarrow> poll_state \<Rightarrow> bool" where
  "tracked rid s \<longleftrightarrow> (\<forall>t. ps_tracker s = Some t \<longrightarrow> track_reach rid (t, ps_db s))"

lemma tracked_cong: "ps_tracker s' = ps_tracker s \<Longrightarrow> ps_db s' = ps_db s \<Longrightarrow> tracked rid s' = tracked rid s"
  by (simp add: tracked_def)

lemma tracked_update [simp]:
  "tracked rid (s\<lparr>ps_acc := a\<rparr>) = tracked rid s" "tracked rid (s\<lparr>ps_engine := e\<rparr>) = tracked rid s"
  "tracked rid (s\<lparr>ps_mv_written := w, ps_commands := vs\<rparr>) = tracked rid s"
  "tracked rid (s\<lparr>ps_mv_written := w, ps_commands := vs, ps_acc := a\<rparr>) = tracked rid s"
  by (simp_all add: tracked_def)

lemma tracked_set: "track_reach rid td \<Longrightarrow> tracked rid (set_tracked td s)"
  by (simp add: tracked_def)

lemma recorded_tracked: "recorded t s s' \<Longrightarrow> tracked rid s' = tracked rid s"
  by (rule tracked_cong) (simp_all add: recorded_def)

lemma persist_and_tracked: "persist_and i t st q x s = (s', r) \<Longrightarrow> tracked rid s \<Longrightarrow> tracked rid s'"
  using persist_and_cases(1) recorded_tracked by blast

lemma resolve_pending_poll_tracked:
  assumes "resolve_pending_poll c i p answer s = (s', r)" "tracked rid s" shows "tracked rid s'"
  using assms(1)
proof (cases rule: resolve_pending_poll_cases)
  case (resolved t acc td res checked)
  then have "track_reach rid (t, ps_db s)" using assms(2) by (simp add: tracked_def)
  then show ?thesis unfolding resolved(3)
    by (rule tracked_set[OF track_reach.step[OF _ track_step.poll[OF resolved(2)]]])
qed (use assms in simp)

lemma poll_interrupted_tracked:
  assumes "poll_interrupted c i answer reason s = (s', r)" "tracked rid s" shows "tracked rid s'"
  using assms
  by (auto simp: poll_interrupted_def then_stage_iff dest: resolve_pending_poll_tracked split: option.splits)

lemma tick_read_tracked:
  assumes "tick_read c i s = (s', r)" "tracked rid s" shows "tracked rid s'"
proof -
  obtain s1 where s1: "s1 = s\<lparr>ps_acc := observe_pv_read (poll_duration i) (ps_acc s)\<rparr>" by blast
  have t1: "tracked rid s1" using assms(2) by (simp add: s1)
  show ?thesis
  proof (cases "\<exists>b. ti_read i = Inr (TickCompleted b)")
    case True
    then obtain b where b: "ti_read i = Inr (TickCompleted b)" by blast
    have "s' = s1 \<or> (\<exists>p answer r1. resolve_pending_poll c i p answer s1 = (s', r1))"
      using assms(1) unfolding tick_read_def Let_def b sum.case tick_operation.case s1[symmetric]
      by (cases "read_numeric_from_batch (px_parse c) b (g_process_variable (px_tags c))")
        (auto simp: then_stage_iff split: option.splits prod.splits)
    then show ?thesis using t1 resolve_pending_poll_tracked by blast
  next
    case False
    then have "s' = s \<or> (\<exists>answer reason. poll_interrupted c i answer reason s = (s', r))"
      using assms(1) unfolding tick_read_def Let_def
      by (auto split: sum.splits tick_operation.splits)
    then show ?thesis using assms(2) poll_interrupted_tracked by blast
  qed
qed

lemma tick_engine_tracked:
  assumes "tick_engine c i t q ev s = (s', r)" "tracked rid s" shows "tracked rid s'"
proof -
  have rej: "tracked rid (set_tracked td s)"
    if "reject_replacement_for_pending_actuation tag now (tr, ps_db s) = (td, r)" "ps_tracker s = Some tr" for tag now tr td r
    using that assms(2) tracked_set[OF track_reach.step[OF _ track_step.reject]] by (metis tracked_def fst_conv)
  obtain e' acts where step: "engine_step (ps_engine s) t = (e', acts)" by fastforce
  show ?thesis using assms
    by (auto simp: tick_engine_def step intro: rej elim!: persist_and_tracked
        split: option.splits if_splits prod.splits sum.splits)
qed

lemma tick_write_tracked:
  assumes "tick_write c i t q before v s = (s', r)" "tracked (px_run_id c) s"
    and "ps_tracker s = None \<or> ps_pending s = None"
  shows "tracked (px_run_id c) s'"
proof -
  obtain s1 where s1: "s1 = s\<lparr>ps_mv_written := True, ps_commands := ps_commands s @ [v]\<rparr>" by blast
  have 1: "tracked (px_run_id c) s1" "ps_tracker s1 = ps_tracker s" "ps_db s1 = ps_db s"
    using assms(2) by (simp_all add: s1 tracked_def)
  show ?thesis
  proof (cases "\<exists>u. ti_write i = Inr (TickCompleted u)")
    case True
    have rel: "tracked (px_run_id c) (set_tracked td s2)"
      if "record_relay_actuation (px_run_id c) v st si fc el ai tol (tr, ps_db s) = (td, r1)" "ps_tracker s = Some tr"
      for st si fc el ai tol tr td r1 s2
    proof -
      have "tr_pending (fst (tr, ps_db s)) = None" using assms(3) that(2) by (simp add: ps_pending_def)
      then have "track_step (px_run_id c) (tr, ps_db s) td"
        using track_step.accept_relay[of "(tr, ps_db s)" "px_run_id c" v st si fc el ai tol] that(1) by simp
      then show ?thesis using assms(2) that(2) tracked_set[OF track_reach.step] by (metis tracked_def)
    qed
    then show ?thesis using True assms(1) 1
      by (auto simp: tick_write_def Let_def s1 dest: rel split: sum.splits option.splits prod.splits)
  next
    case False
    have "s' = s \<or> s' = s1 \<or> (\<exists>st a. persist_and i t st q (PollAborted a) s1 = (s', r))"
      using assms(1) False unfolding tick_write_def Let_def s1[symmetric]
      by (auto split: sum.splits tick_operation.splits)
    then show ?thesis using 1 assms(2) persist_and_tracked by blast
  qed
qed

lemma tick_actions_tracked:
  "tick_actions c i t q before acts s = (s', r) \<Longrightarrow> tracked (px_run_id c) s \<Longrightarrow> length (mv_writes acts) \<le> 1 \<Longrightarrow>
   (mv_writes acts \<noteq> [] \<longrightarrow> ps_tracker s = None \<or> ps_pending s = None) \<Longrightarrow> tracked (px_run_id c) s'"
proof (induction c i t q before acts s arbitrary: s' r rule: tick_actions.induct)
  case (2 c i t q before v acts s)
  have nil: "mv_writes acts = []" using 2(4) by simp
  consider x where "tick_write c i t q before v s = (s', Inl x)"
    | s1 where "tick_write c i t q before v s = (s1, Inr ())" "tick_actions c i t q before acts s1 = (s', r)"
    using 2(2) by (auto simp: then_stage_iff)
  then show ?case
  proof cases
    case 1
    show ?thesis by (rule tick_write_tracked[OF 1 2(3)]) (use 2(5) in simp)
  next
    case w: 2
    have "tracked (px_run_id c) s1" by (rule tick_write_tracked[OF w(1) 2(3)]) (use 2(5) in simp)
    then show ?thesis using 2(1)[OF w(2)] nil by simp
  qed
next
  case (3 c i t q before ps trs sw sg acts s)
  show ?case by (rule 3(1)[OF 3(2)[unfolded tick_actions.simps]]) (use 3(3-5) in \<open>simp_all add: tracked_def ps_pending_def\<close>)
qed simp

lemma step_writes_once: "length (mv_writes (snd (engine_step e t))) \<le> 1"
  by (cases rule: engine_step_cases [of e t]) (auto split: if_splits)

lemma persist_sample_tracked: "persist_sample i t st q s = (s', r) \<Longrightarrow> tracked rid s \<Longrightarrow> tracked rid s'"
  using persist_sample_cases(1) recorded_tracked by blast

lemma work_done_tracked [simp]:
  "tracked rid ((tick_work_done i s)\<lparr>ps_tick_index := n\<rparr>) = tracked rid s"
  by (simp add: tracked_def)

lemma tick_body_tracked:
  assumes "tick_body c i t q ev reason s = (s', r)" "tracked (px_run_id c) s" shows "tracked (px_run_id c) s'"
proof -
  obtain sq where sq: "sq = sample_quality_from_driver q" by blast
  obtain e' acts where step: "engine_step (ps_engine s) t = (e', acts)" by fastforce
  show ?thesis
  proof (cases "\<not> is_ok (check_quality (g_process_variable (px_tags c)) q (px_allow c)) \<or> reason \<noteq> None \<or> waiting c s t")
    case True
    then show ?thesis using assms
      by (auto simp: tick_body_def Let_def sq[symmetric] then_stage_iff split: if_splits option.splits
          elim!: persist_and_tracked persist_sample_tracked)
  next
    case False
    then have ok: "is_ok (check_quality (g_process_variable (px_tags c)) q (px_allow c))" "reason = None"
      "\<not> waiting c s t" by simp_all
    have run: "then_stage (tick_engine c i t sq ev s) (\<lambda>s1 acts.
               then_stage (tick_actions c i t sq (engine_state (ps_engine s)) acts s1) (\<lambda>s2 _.
               then_stage (persist_sample i t (engine_state (ps_engine s2)) sq s2) (\<lambda>s3 _.
                 let s4 = (tick_work_done i s3)\<lparr>ps_tick_index := ps_tick_index s3 + 1\<rparr>
                 in (s4, Inl (case ps_post_delay_end s4 of
                        Some end_at \<Rightarrow> if end_at \<le> tk_time t then PollBreak else PollContinue
                      | None \<Rightarrow> PollContinue))))) = (s', r)"
      using assms(1) ok(1,2) unfolding tick_body_def Let_def sq[symmetric] if_not_P[OF ok(3)] by simp
    obtain s1 r1 where te: "tick_engine c i t sq ev s = (s1, r1)" by fastforce
    have t1: "tracked (px_run_id c) s1" by (rule tick_engine_tracked[OF te assms(2)])
    show ?thesis
    proof (cases r1)
      case (Inl x)
      then show ?thesis using run t1 by (simp add: te then_stage_simps)
    next
      case (Inr acts')
      then have s1: "acts' = acts" "s1 = s\<lparr>ps_engine := e'\<rparr>"
        and gate: "list_ex is_write acts \<longrightarrow> ps_tracker s1 = None \<or> ps_pending s1 = None"
        using tick_engine_cases(2)[OF te step] by (auto simp: ps_pending_def)
      obtain s2 r2 where ta: "tick_actions c i t sq (engine_state (ps_engine s)) acts s1 = (s2, r2)" by fastforce
      have "tracked (px_run_id c) s2"
        by (rule tick_actions_tracked[OF ta t1]) (use gate step_writes_once[of "ps_engine s" t] in \<open>simp_all add: step mv_writes_nil\<close>)
      then show ?thesis using run unfolding te Inr then_stage_simps s1(1) ta
        by (auto simp: then_stage_iff Let_def elim: persist_sample_tracked)
    qed
  qed
qed

text \<open>A poll that clears the pending command without asking for an abort has confirmed it.\<close>

lemma poll_confirms:
  assumes "track_reach rid (t, d)" "tr_pending t = Some p" "pm_id p = Some i"
    and "resolve_pending_mv_poll parse lib timing answer tag checked_at checked dur allow acc (t, d) =
      (acc', (t', d'), Ok (None, ev))" and "tr_pending t' = None"
  shows "row_is d' i Confirmed"
proof -
  have m: "rows_sound d" "(i, pm_kind p, pm_target p, pm_tolerance p) \<in> open_rows rid d"
    using reach_mirrored[OF assms(1)] assms(2,3) by (auto simp: mirrored_iff tracker_open_Some)
  have final: "row_is d1 i Confirmed"
    if "record_final_observation i c (Some rb) (Some q) Confirmed None d = (d1, Ok row)" for c rb q d1 row
    using final_observation_open[OF m, of Confirmed c "Some rb" "Some q" None] that unfolding row_is_def by auto
  obtain ans where a: "resolve_pending_mv_poll parse lib timing answer tag checked_at checked dur allow acc (t, d) =
     (case resolve_pending_mv_read lib timing tag ans checked_at checked allow (t, d) of
           (s1, Inl e) \<Rightarrow> (acc, s1, Err e)
         | (s1, Inr (MvAbort reason)) \<Rightarrow> (acc, s1, Ok (Some reason, False))
         | (s1, Inr (MvValue v)) \<Rightarrow>
             (case finalize_pending_mv_verification tag v Scheduled AuditRequired s1 of
                (s2, r) \<Rightarrow> (observe_mv_verification dur acc, s2, bind_result r (\<lambda>o1. Ok (o1, True)))))"
    unfolding resolve_pending_mv_poll_def Let_def by blast
  obtain s1 r1 where res: "resolve_pending_mv_read lib timing tag ans checked_at checked allow (t, d) = (s1, r1)" by fastforce
  obtain v where r1: "r1 = Inr (MvValue v)" and "finalize_pending_mv_verification tag v Scheduled AuditRequired s1 = ((t', d'), Ok None)"
    using assms(4) unfolding a res
    by (auto simp: bind_result_Ok_iff split: sum.splits mv_result.splits prod.splits)
  moreover have "s1 = (t, d)" using res r1
    by (auto simp: resolve_pending_mv_read_def split: sum.splits tick_operation.splits option.splits prod.splits if_splits)
  ultimately have v: "finalize_pending_mv_verification tag v Scheduled AuditRequired (t, d) = ((t', d'), Ok None)" by simp
  show ?thesis using v assms(5)
    by (auto simp: finalize_pending_mv_verification_def assms(2,3) Let_def confirm_pending_mv_actuation_def bind_result_Ok_iff
        split: if_splits sum.splits prod.splits dest: final)
qed

lemma tick_read_confirms:
  assumes "tick_read c i s = (s', Ok (pv, q, ev, None))" "ps_tracker s = Some t" "track_reach rid (t, ps_db s)"
    and "tr_pending t = Some p" "pm_id p = Some k" "ps_pending s' = None"
  shows "row_is (ps_db s') k Confirmed"
proof -
  obtain b where b: "ti_read i = Inr (TickCompleted b)"
    using assms(1) by (auto simp: tick_read_def Let_def poll_interrupted_def then_stage_iff
        split: sum.splits tick_operation.splits option.splits)
  obtain s1 where s1: "s1 = s\<lparr>ps_acc := observe_pv_read (poll_duration i) (ps_acc s)\<rparr>" by blast
  have pend: "ps_pending s1 = Some p" using assms(2,4) by (simp add: s1 ps_pending_def)
  have res: "resolve_pending_poll c i p (TickCompleted b) s1 = (s', Inr (None, ev))"
    using assms(1) unfolding tick_read_def Let_def b sum.case tick_operation.case s1[symmetric] pend option.case
    by (cases "read_numeric_from_batch (px_parse c) b (g_process_variable (px_tags c))")
      (auto simp: then_stage_iff split: prod.splits)
  then show ?thesis
  proof (cases rule: resolve_pending_poll_cases)
    case (resolved t1 acc td r1 checked)
    obtain t' d' where td: "td = (t', d')" by (cases td)
    have "t1 = t" "r1 = Inr (None, ev)" using resolved(1,4) assms(2) by (auto simp: s1 split: sum.splits)
    then have "row_is d' k Confirmed"
      using poll_confirms[OF assms(3-5), of _ _ _ _ _ _ _ _ _ _ _ t' d' ev] resolved(2,3) assms(6) td by (simp add: s1)
    then show ?thesis using resolved(3) td by simp
  qed simp
qed

lemma poll_tick_stages:
  assumes "poll_tick c i s = (s', r)"
  obtains (read) s0 r1 where "ps_tracker s0 = ps_tracker s" "ps_db s0 = ps_db s" "loop_same s s0" "tick_read c i s0 = (s', Inl r1)"
  | (stamp) s0 s1 v r2 where "ps_tracker s0 = ps_tracker s" "ps_db s0 = ps_db s" "loop_same s s0"
      "tick_read c i s0 = (s1, Inr v)" "tick_stamp c i s1 = (s', Inl r2)"
  | (body) s0 s1 pv q ev reason s2 now where "ps_tracker s0 = ps_tracker s" "ps_db s0 = ps_db s" "loop_same s s0"
      "tick_read c i s0 = (s1, Inr (pv, q, ev, reason))" "tick_stamp c i s1 = (s2, Inr now)"
      "tick_body c i \<lparr> tk_time = now, tk_pv = pv \<rparr> q ev reason s2 = (s', r)"
proof -
  obtain s0 where s0: "s0 = s\<lparr>ps_next_poll_at := ti_started i + millis (f_poll_interval_ms (px_timing c))\<rparr>" by blast
  have 0: "ps_tracker s0 = ps_tracker s" "ps_db s0 = ps_db s" "loop_same s s0" by (simp_all add: s0 loop_same_def)
  obtain s1 r1 where tr: "tick_read c i s0 = (s1, r1)" by fastforce
  show ?thesis
  proof (cases r1)
    case (Inl x)
    then have "s' = s1" using assms unfolding poll_tick_def Let_def s0[symmetric] tr then_stage_def by simp
    then show ?thesis using read[OF 0] tr Inl by simp
  next
    case (Inr v)
    obtain pv q ev reason where v: "v = (pv, q, ev, reason)" by (metis prod_cases4)
    obtain s2 r2 where ts: "tick_stamp c i s1 = (s2, r2)" by fastforce
    show ?thesis
    proof (cases r2)
      case (Inl x)
      then have "s' = s2" using assms unfolding poll_tick_def Let_def s0[symmetric] tr Inr v then_stage_def by (simp add: ts)
      then show ?thesis using stamp[OF 0] tr Inr ts Inl by simp
    next
      case r2: (Inr now)
      have "tick_body c i \<lparr> tk_time = now, tk_pv = pv \<rparr> q ev reason s2 = (s', r)"
        using assms unfolding poll_tick_def Let_def s0[symmetric] tr Inr v then_stage_def by (simp add: ts r2)
      then show ?thesis using body[OF 0] tr Inr v ts r2 by simp
    qed
  qed
qed

lemma poll_tick_tracked:
  assumes "poll_tick c i s = (s', r)" "tracked (px_run_id c) s" shows "tracked (px_run_id c) s'"
  using assms(1)
proof (cases rule: poll_tick_stages)
  case (read s0 r1)
  then show ?thesis using assms(2) tick_read_tracked tracked_cong by blast
next
  case (stamp s0 s1 v r2)
  then show ?thesis using assms(2) tick_read_tracked tracked_cong tick_stamp_cases(2,3) by metis
next
  case (body s0 s1 pv q ev reason s2 now)
  then show ?thesis using assms(2) tick_read_tracked tracked_cong tick_stamp_cases(2,3) tick_body_tracked by metis
qed

lemma poll_tick_confirms:
  assumes "poll_tick c i s = (s', r)" "ps_commands s' \<noteq> ps_commands s" "ps_tracker s = Some t"
    and "track_reach rid (t, ps_db s)" "tr_pending t = Some p" "pm_id p = Some k"
  shows "row_is (ps_db s') k Confirmed"
  using assms(1)
proof (cases rule: poll_tick_stages)
  case (read s0 r1)
  then show ?thesis using assms(2) tick_read_cases(1)[OF read(4)] by (simp add: loop_same_def)
next
  case (stamp s0 s1 v r2)
  then show ?thesis using assms(2) tick_read_cases(1)[OF stamp(4)] tick_stamp_cases(1)[OF stamp(5)]
    by (simp add: loop_same_def)
next
  case (body s0 s1 pv q ev reason s2 now)
  have "ps_commands s' \<noteq> ps_commands s2"
    using assms(2) body(3) tick_read_cases(1)[OF body(4)] tick_stamp_cases(1)[OF body(5)] by (simp add: loop_same_def)
  from tick_body_commands[OF body(6) this]
  have b: "reason = None" "ps_tracker s2 = None \<or> ps_pending s2 = None" "rows_kept s2 s'" by simp_all
  have pend: "ps_pending s1 = None" using b(2) tick_stamp_cases(2)[OF body(5)] by (auto simp: ps_pending_def)
  have "row_is (ps_db s1) k Confirmed"
    by (rule tick_read_confirms[OF body(4)[unfolded b(1)] _ _ assms(5,6) pend]) (use body(1,2) assms(3,4) in simp_all)
  then show ?thesis using row_is_mono b(3) tick_stamp_cases(3)[OF body(5)] by (simp add: rows_kept_def)
qed

lemma poll_step_tracked:
  assumes "poll_step c ev s = (s', x)" "x = PollContinue \<or> x = PollBreak" "tracked (px_run_id c) s"
  shows "tracked (px_run_id c) s'"
proof (cases ev)
  case (EvTick i)
  obtain s1 r where p: "poll_tick c i s = (s1, r)" by fastforce
  then have "s' = s1" using assms(1) by (auto simp: poll_step_def EvTick split: sum.splits)
  then show ?thesis using poll_tick_tracked[OF p assms(3)] by simp
next
  case (EvVerify n1 n2 reads)
  then have v: "poll_verify c n1 n2 reads s = (s', x)" using assms(1) by (simp add: poll_step_def)
  then obtain trigger t where t: "Option.bind (ps_pending s) (\<lambda>p. verification_trigger p n1) = Some trigger" "ps_tracker s = Some t"
    using assms(2) by (auto simp: poll_verify_def split: option.splits)
  obtain acc td r where m: "verify_pending_mv_actuation (px_lib c) (px_timing c)
      (g_manipulated_variable (px_tags c)) (px_allow c) n2 reads trigger NoLimit
      AuditRequired (Some (ps_acc s)) (t, ps_db s) = (acc, td, r)" by (metis prod_cases3)
  have r: "r \<noteq> Err ETimeRange" using v assms(2) by (auto simp: poll_verify_def t m Let_def)
  have "track_reach (px_run_id c) (t, ps_db s)" using assms(3) t(2) by (simp add: tracked_def)
  then have "track_reach (px_run_id c) td"
    by (rule track_reach.step[OF _ track_step.verify[OF m r]])
  then show ?thesis using v by (auto simp: poll_verify_def t m Let_def intro: tracked_set)
qed (use assms in \<open>auto simp: poll_step_def\<close>)

lemma poll_loop_tracked:
  "poll_loop c evs s = (s', PollContinue) \<Longrightarrow> tracked (px_run_id c) s \<Longrightarrow> tracked (px_run_id c) s'"
proof (induction evs arbitrary: s)
  case (Cons ev evs)
  obtain s1 x1 where st: "poll_step c ev s = (s1, x1)" by fastforce
  then have x1: "x1 = PollContinue" and l: "poll_loop c evs s1 = (s', PollContinue)"
    using Cons.prems(1) by (auto split: poll_exit.splits)
  show ?case by (rule Cons.IH[OF l poll_step_tracked[OF st _ Cons.prems(2)]]) (simp add: x1)
qed simp

lemma poll_start_tracked:
  assumes "poll_start c q a now e tr acc d = Ok s" "tr = tracker_for_run q i"
    and "rows_sound d" "open_rows rid d = {}"
  shows "tracked rid s"
  using assms by (auto simp: poll_start_def bind_result_Ok_iff tracked_def intro: track_reach.start)

section \<open>What a run guarantees\<close>

text \<open>C17: A polling loop is its engine.  Whatever events a run meets, as long as it goes on or ends
  normally the engine it holds and the relay commands it wrote are exactly those of the engine run
  over the ticks it recorded from the end of the pre-tuning delay on, it holds a result exactly when
  that engine is complete, and the samples are numbered without gaps: replaying the recorded samples
  of a run reproduces it.\<close>

theorem loop_replays_engine:
  assumes "poll_start c q a now e0 tr acc d = Ok s0" "\<not> e_completed e0"
    and "poll_loop c evs s0 = (s, x)" "x = PollContinue \<or> x = PollBreak"
  shows "ps_engine s = fst (engine_run e0 (fed c s)) \<and>
    ps_commands s = mv_writes (snd (engine_run e0 (fed c s))) \<and>
    (ps_completion s = None \<longleftrightarrow> \<not> e_completed (ps_engine s)) \<and>
    map sr_index (ps_samples s) = map int [0..<length (ps_samples s)]"
  using poll_loop_driven[OF poll_start_driven[OF assms(1,2)] assms(3)] assms(4)
  by (auto simp: driven_def case_prod_beta)

text \<open>C18: However a run is stopped (a fault of the driver or of the database, an interrupt, a timeout, a
  poor reading, a command that was not confirmed), what it has commanded is a prefix of what the
  engine asks for on the recorded samples and at most one more tick, its samples are numbered without
  gaps, and the assertion of the replacement check never fires.\<close>

theorem stopped_loop_commands:
  assumes "poll_start c q a now e0 tr acc d = Ok s0" "\<not> e_completed e0" "poll_loop c evs s0 = (s, x)"
  shows "x \<noteq> PollPanic \<and>
    (\<exists>us. length us \<le> 1 \<and> prefix (ps_commands s) (mv_writes (snd (engine_run e0 (fed c s @ us))))) \<and>
    map sr_index (ps_samples s) = map int [0..<length (ps_samples s)]"
  using poll_loop_driven[OF poll_start_driven[OF assms(1,2)] assms(3)]
  by (simp add: commands_within_def)

text \<open>C19: A relay command is replaced only when it was confirmed.  In a run on a live controller, an
  event that hands another MV to the driver while a command is pending leaves that command's audit
  row confirmed.\<close>

theorem replacement_only_after_confirmation:
  assumes "poll_start c q a now e0 (tracker_for_run q i) acc d = Ok s0"
    and "rows_sound d" "open_rows (px_run_id c) d = {}"
    and "poll_loop c evs s0 = (s, PollContinue)"
    and "ps_pending s = Some p" "pm_id p = Some k"
    and "poll_step c ev s = (s', x)" "ps_commands s' \<noteq> ps_commands s"
  shows "row_is (ps_db s') k Confirmed"
proof -
  obtain t where t: "ps_tracker s = Some t" "tr_pending t = Some p"
    using assms(5) by (cases "ps_tracker s") (auto simp: ps_pending_def)
  have "tracked (px_run_id c) s"
    by (rule poll_loop_tracked[OF assms(4) poll_start_tracked[OF assms(1) refl assms(2,3)]])
  then have reach: "track_reach (px_run_id c) (t, ps_db s)" using t(1) by (simp add: tracked_def)
  show ?thesis
  proof (cases ev)
    case (EvTick ti)
    obtain s1 r where p: "poll_tick c ti s = (s1, r)" by fastforce
    then have "s' = s1" using assms(7) by (auto simp: poll_step_def EvTick split: sum.splits)
    then show ?thesis using poll_tick_confirms[OF p _ t(1) reach t(2) assms(6)] assms(8) by simp
  next
    case (EvVerify n1 n2 reads)
    then have "poll_verify c n1 n2 reads s = (s', x)" using assms(7) by (simp add: poll_step_def)
    then show ?thesis using poll_verify_same(1) assms(8) by (auto simp: loop_same_def)
  qed (use assms(7,8) in \<open>auto simp: poll_step_def\<close>)
qed

lemma tick_after_completion:
  assumes "driven c e0 s" "ps_post_delay_end s = Some fin" "ps_time s = FixedStep now0 step"
    and "poll_step c (EvTick i) s = (s', PollContinue)"
  shows "driven c e0 s'" "ps_post_delay_end s' = Some fin" "ps_time s' = FixedStep (now0 + step) step" "now0 + step < fin"
proof -
  obtain r where p: "poll_tick c i s = (s', r)" and r: "r = Inl PollContinue \<or> (\<exists>u. r = Inr u)"
    using assms(4) by (auto simp: poll_step_def split: sum.splits prod.splits)
  then obtain t where t: "r = Inl (tick_verdict c s t s')" "ticked c t s s'"
    "next_timestamp_at (px_utc_max c) (ti_observed i) (ps_time s) = (ps_time s', Ok (tk_time t))"
    using poll_tick_cases[OF p] by (auto simp: stops_def)
  have fin: "ps_completion s \<noteq> None" "e_completed (ps_engine s)"
    using assms(1,2) by (auto simp: driven_def)
  show "driven c e0 s'" by (rule ticked_driven[OF assms(1) t(2)])
  show post: "ps_post_delay_end s' = Some fin"
    using t(2) fin assms(2) by (auto simp: ticked_def step_completed)
  have time: "ps_time s' = FixedStep (now0 + step) step \<and> tk_time t = now0 + step"
    using t(3) by (auto simp: assms(3) split: if_splits)
  then show "ps_time s' = FixedStep (now0 + step) step" by simp
  have "tick_verdict c s t s' = PollContinue" using t(1) r by auto
  then have "\<not> fin \<le> tk_time t" using fin(1) post by (simp add: tick_verdict_def split: if_splits)
  then show "now0 + step < fin" using time by simp
qed

lemma ticks_after_completion:
  "driven c e0 s \<Longrightarrow> ps_post_delay_end s = Some fin \<Longrightarrow> ps_time s = FixedStep now0 step \<Longrightarrow>
   poll_loop c (map EvTick is) s = (s', PollContinue) \<Longrightarrow> is \<noteq> [] \<Longrightarrow> now0 + int (length is) * step < fin"
proof (induction "is" arbitrary: s now0)
  case (Cons i "is")
  obtain s1 where st: "poll_step c (EvTick i) s = (s1, PollContinue)" and l: "poll_loop c (map EvTick is) s1 = (s', PollContinue)"
    using Cons.prems(4) by (auto split: prod.splits poll_exit.splits)
  note T = tick_after_completion[OF Cons.prems(1-3) st]
  show ?case
  proof (cases "is = []")
    case True
    then show ?thesis using T(4) by simp
  next
    case False
    from Cons.IH[OF T(1-3) l False] show ?thesis by (simp add: algebra_simps)
  qed
qed simp

text \<open>C20: A completed simulator run ends.  Once the engine has completed, the loop stops after at most as
  many further ticks as fit into the rest of the post-tuning delay, whatever they read.\<close>

theorem completed_run_ends:
  assumes "poll_start c q a now e0 tr acc d = Ok s0" "\<not> e_completed e0"
    and "poll_loop c evs s0 = (s, PollContinue)" "ps_post_delay_end s = Some fin"
    and "ps_time s = FixedStep now0 step" "ticks \<noteq> []" "fin \<le> now0 + int (length ticks) * step"
  shows "snd (poll_loop c (map EvTick ticks) s) \<noteq> PollContinue"
proof
  assume a: "snd (poll_loop c (map EvTick ticks) s) = PollContinue"
  have "driven c e0 s" using poll_loop_driven[OF poll_start_driven[OF assms(1,2)] assms(3)] by blast
  from ticks_after_completion[OF this assms(4,5) _ assms(6)] a assms(7)
  show False by (metis not_less prod.collapse)
qed

section \<open>Witnesses\<close>

definition demo_ctx :: poll_ctx where
  "demo_ctx =
     \<lparr> px_run_id = 1,
       px_timing = \<lparr> f_mrft_delay_secs = 3, f_poll_interval_ms = 2000, f_timeout_secs = 600, f_op_timeout_secs = 5,
         f_restore_timeout_secs = 30 \<rparr>,
       px_tags = \<lparr> g_process_variable = ''P'', g_manipulated_variable = ''M'', g_setpoint_variable = None,
         g_controller_mode = None, g_mode_attribute = None, g_upper_pv_range = Value (Fin 100),
         g_lower_pv_range = Value (Fin 0), g_upper_mv_range = Value (Fin 100), g_lower_mv_range = Value (Fin 0),
         g_controller_direction = Value Reverse, g_proportional_constant = None,
         g_integral_constant = None, g_derivative_constant = None \<rparr>,
       px_allow = False, px_pre_delay_end = 0, px_noise_secs = 0, px_utc_max = 10 ^ 18,
       px_parse = (\<lambda>s. if s = ''48'' then Some (Fin 48) else if s = ''52'' then Some (Fin 52)
                       else if s = ''60'' then Some (Fin 60) else None),
       px_lib = \<lparr> tl_error = (\<lambda>_. []), tl_nat = (\<lambda>_. []) \<rparr> \<rparr>"

definition demo_input :: "instant \<Rightarrow> string \<Rightarrow> string \<Rightarrow> tick_input" where
  "demo_input t pv mv =
     \<lparr> ti_started = t,
       ti_read = Ok (TickCompleted [''P'' \<mapsto> \<lparr> tv_tag = ''P'', tv_value = pv, tv_quality = Good, tv_timestamp = None \<rparr>,
                                    ''M'' \<mapsto> \<lparr> tv_tag = ''M'', tv_value = mv, tv_quality = Good, tv_timestamp = None \<rparr>]),
       ti_read_started = t, ti_read_done = t, ti_observed = t, ti_write = Ok (TickCompleted ()),
       ti_write_started = t, ti_write_done = t, ti_rejected = t, ti_persist = Ok (), ti_persist_started = t,
       ti_persist_done = t, ti_done = t \<rparr>"

definition demo_sim_request :: tune_request where
  "demo_sim_request = demo_request\<lparr>q_driver := SimulatorKind\<rparr>"

definition demo_anchor :: time_anchor where
  "demo_anchor = \<lparr> an_utc = 0, an_monotonic = 0 \<rparr>"

definition demo_sim_start :: poll_state where
  "demo_sim_start =
     \<lparr> ps_engine = demo_engine, ps_tracker = None, ps_db = demo_running,
       ps_acc = poll_timing_new SimulatedFixedStep 2000, ps_time = FixedStep 0 2000000000, ps_tick_index = 0,
       ps_completion = None, ps_post_delay_end = None, ps_next_poll_at = 0, ps_mv_written = False,
       ps_samples = [], ps_commands = [] \<rparr>"

lemma demo_sim_start_ok:
  "poll_start demo_ctx demo_sim_request demo_anchor 0 demo_engine None
     (poll_timing_new SimulatedFixedStep 2000) demo_running = Ok demo_sim_start"
  by (simp add: poll_start_def demo_ctx_def demo_sim_request_def demo_anchor_def for_driver_def duration_from_std_def
      delta_max_def millis_def ns_per_ms_def demo_sim_start_def)

definition demo_live_tracker :: mv_tracker where
  "demo_live_tracker = the (tracker_for_run demo_request demo_initial)"

definition demo_live_start :: poll_state where
  "demo_live_start =
     \<lparr> ps_engine = demo_engine, ps_tracker = Some demo_live_tracker, ps_db = demo_running,
       ps_acc = poll_timing_new LiveMonotonic 2000, ps_time = LiveClock demo_anchor, ps_tick_index = 0,
       ps_completion = None, ps_post_delay_end = None, ps_next_poll_at = 0, ps_mv_written = False,
       ps_samples = [], ps_commands = [] \<rparr>"

definition same_gaps :: "poll_timing \<Rightarrow> poll_timing \<Rightarrow> bool" where
  "same_gaps a b \<longleftrightarrow> pt_previous b = pt_previous a \<and> pt_gap_count b = pt_gap_count a \<and>
     pt_total_gap_micros b = pt_total_gap_micros a \<and> pt_missed b = pt_missed a \<and>
     pt_requested_interval_ms b = pt_requested_interval_ms a"

lemma same_gaps_observers [simp]:
  "same_gaps a (observe_pv_read n b) = same_gaps a b" "same_gaps a (observe_mv_write n b) = same_gaps a b"
  "same_gaps a (observe_sample_persist n b) = same_gaps a b" "same_gaps a (observe_tick_work n b) = same_gaps a b"
  "same_gaps a a"
  by (simp_all add: same_gaps_def observe_pv_read_def observe_mv_write_def observe_sample_persist_def observe_tick_work_def)

text \<open>An undisturbed tick that commands \<open>v\<close>.\<close>

lemma commanding_tick:
  assumes "ps_pending s = None" "ti_read i = Ok (TickCompleted b)"
    and "read_numeric_from_batch (px_parse c) b (g_process_variable (px_tags c)) = Ok (pv, Good)"
    and "next_timestamp_at (px_utc_max c) (ti_observed i) (ps_time s) = (src, Ok now)"
    and "pt_observe now (observe_pv_read (poll_duration i) (ps_acc s)) = (a, Ok ())"
    and "px_pre_delay_end c \<le> now" "engine_step (ps_engine s) \<lparr>tk_time = now, tk_pv = pv\<rparr> = (e', WriteMv v # acts)"
    and "acts = [] \<or> acts = [Complete y1 y2 y3 y4]" "0 < uint (f_mrft_delay_secs (px_timing c))"
    and "relay_tolerance v s = Ok tol" "ti_write i = Ok (TickCompleted ())" "ti_persist i = Ok ()"
    and "ps_post_delay_end s = None"
    and "case ps_tracker s of None \<Rightarrow> td = None
      | Some tr \<Rightarrow> \<exists>y. tol = Some y \<and> (\<exists>z. td = Some z \<and>
          record_relay_actuation (px_run_id c) v now (ti_observed i) (ti_observed i + secs (unat (px_noise_secs c)))
            (saturating_since (ti_write_done i) (ti_observed i)) (ti_write_done i) y (tr, ps_db s) = (z, Ok ()))"
  shows "\<exists>s'. poll_step c (EvTick i) s = (s', PollContinue) \<and> ps_engine s' = e' \<and> ps_time s' = src \<and>
    ps_commands s' = ps_commands s @ [v] \<and> same_gaps a (ps_acc s') \<and>
    ps_post_delay_end s' = (if acts = [] then None else Some (now + secs (unat (f_mrft_delay_secs (px_timing c))))) \<and>
    (case td of None \<Rightarrow> ps_tracker s' = ps_tracker s \<and> ps_db s' = ps_db s
     | Some z \<Rightarrow> ps_tracker s' = Some (fst z) \<and> ps_db s' = snd z) \<and>
    ps_samples s' = ps_samples s @ [\<lparr> sr_index = ps_tick_index s, sr_tick = \<lparr>tk_time = now, tk_pv = pv\<rparr>,
      sr_state = engine_state e', sr_quality = SGood \<rparr>]"
proof -
  have pend: "ps_pending (s\<lparr>ps_next_poll_at := n, ps_acc := x\<rparr>) = None" for n x
    using assms(1) by (simp add: ps_pending_def)
  have pend2: "ps_tracker s = Some y \<Longrightarrow> tr_pending y = None" for y
    using assms(1) by (simp add: ps_pending_def)
  have acc: "same_gaps a x \<Longrightarrow> same_gaps a (observe_tick_work n (observe_sample_persist m x))" for x n m by simp
  show ?thesis
    using assms(2-14)
    by (cases "ps_tracker s")
      (auto simp: poll_step_def poll_tick_def tick_read_def pend then_stage_simps tick_stamp_def tick_body_def
        check_quality_def tick_engine_def ps_pending_def pend2 tick_write_def relay_tolerance_def persist_sample_def
        tick_work_done_def sample_quality_from_driver_def Let_def secs_def ns_per_sec_def)
qed

lemma demo_trim: "trim ''48'' = ''48''" "trim ''52'' = ''52''" "trim ''60'' = ''60''"
  by (simp_all add: trim_def char_is_whitespace_def)

definition demo_batch :: "string \<Rightarrow> string \<Rightarrow> batch" where
  "demo_batch pv mv = [''P'' \<mapsto> \<lparr> tv_tag = ''P'', tv_value = pv, tv_quality = Good, tv_timestamp = None \<rparr>,
     ''M'' \<mapsto> \<lparr> tv_tag = ''M'', tv_value = mv, tv_quality = Good, tv_timestamp = None \<rparr>]"

lemma demo_ctx_simps [simp]:
  "g_process_variable (px_tags demo_ctx) = ''P''" "g_manipulated_variable (px_tags demo_ctx) = ''M''"
  "px_utc_max demo_ctx = 10 ^ 18" "px_pre_delay_end demo_ctx = 0" "px_noise_secs demo_ctx = 0"
  "px_run_id demo_ctx = 1" "f_mrft_delay_secs (px_timing demo_ctx) = 3" "px_allow demo_ctx = False"
  by (simp_all add: demo_ctx_def)

lemma demo_input_simps [simp]:
  "ti_read (demo_input t pv mv) = Ok (TickCompleted (demo_batch pv mv))" "ti_observed (demo_input t pv mv) = t"
  "ti_read_done (demo_input t pv mv) = t" "ti_write_done (demo_input t pv mv) = t"
  "ti_write (demo_input t pv mv) = Ok (TickCompleted ())" "ti_persist (demo_input t pv mv) = Ok ()"
  by (simp_all add: demo_input_def demo_batch_def)

lemma demo_read:
  "read_numeric_from_batch (px_parse demo_ctx) (demo_batch ''48'' mv) ''P'' = Ok (Fin 48, Good)"
  "read_numeric_from_batch (px_parse demo_ctx) (demo_batch ''52'' mv) ''P'' = Ok (Fin 52, Good)"
  "read_numeric_from_batch (px_parse demo_ctx) (demo_batch pv ''60'') ''M'' = Ok (Fin 60, Good)"
  by (simp_all add: read_numeric_from_batch_def demo_batch_def parse_f32_value_def demo_trim demo_ctx_def)

definition demo_engine1 :: mrft_engine where
  "demo_engine1 =
     \<lparr>e_beta = Fin 0, e_action_multiplier = 1, e_relay_amp_raw = Fin 10, e_pv_value_ini = Fin 50,
     e_mv_value_ini = Fin 50, e_num_switches_skip = 1, e_num_cycles_count = 1, e_noise_protection_secs = 0,
     e_mv_value_current = Fin 60, e_mv_value_next_step = Fin 60, e_max_pv_cycle = Fin 50, e_min_pv_cycle = Fin 50,
     e_max_pv_result = Fin 48, e_min_pv_result = Fin 48, e_hysteresis = Fin 0, e_mv_sign_next_step = 1,
     e_mv_sign_init = 1, e_time_previous_switch = 2000000000, e_counter_all_switches = 1, e_peaks = [Fin 50],
     e_troughs = [], e_switch_times = [2000000000], e_completed = False\<rparr>"

lemma demo_engine_step1:
  "engine_step demo_engine \<lparr>tk_time = 2000000000, tk_pv = Fin 48\<rparr> = (demo_engine1, [WriteMv (Fin 60)])"
  by (simp add: demo_engine1_def demo_engine_def demo_config_def Mrft.demo_initial_def engine_eval
    fl_simps cong: let_weak_cong prod.case_cong_weak)

definition demo_engine2 :: mrft_engine where
  "demo_engine2 =
     \<lparr>e_beta = Fin 0, e_action_multiplier = 1, e_relay_amp_raw = Fin 10, e_pv_value_ini = Fin 50,
     e_mv_value_ini = Fin 50, e_num_switches_skip = 1, e_num_cycles_count = 1, e_noise_protection_secs = 0,
     e_mv_value_current = Fin 40, e_mv_value_next_step = Fin 40, e_max_pv_cycle = Fin 50, e_min_pv_cycle = Fin 50,
     e_max_pv_result = Fin 52, e_min_pv_result = Fin 52, e_hysteresis = Fin 0, e_mv_sign_next_step = - 1,
     e_mv_sign_init = 1, e_time_previous_switch = 4000000000, e_counter_all_switches = 2, e_peaks = [Fin 50],
     e_troughs = [Fin 48], e_switch_times = [2000000000, 4000000000], e_completed = False\<rparr>"

lemma demo_engine_step2:
  "engine_step demo_engine1 \<lparr>tk_time = 4000000000, tk_pv = Fin 52\<rparr> = (demo_engine2, [WriteMv (Fin 40)])"
  by (simp add: demo_engine2_def demo_engine1_def engine_eval fl_simps cong: let_weak_cong prod.case_cong_weak)

lemma demo_engine_step3:
  "\<exists>e. engine_step demo_engine2 \<lparr>tk_time = 6000000000, tk_pv = Fin 48\<rparr> =
     (e, [WriteMv (Fin 50), Complete [Fin 50, Fin 52] [Fin 48] [2000000000, 4000000000, 6000000000] 1])"
  by (simp add: demo_engine2_def engine_eval fl_simps cong: let_weak_cong prod.case_cong_weak)

definition demo_sim_events :: "poll_event list" where
  "demo_sim_events = [EvTick (demo_input 0 ''48'' ''50''), EvTick (demo_input 0 ''52'' ''60''), EvTick (demo_input 0 ''48'' ''40'')]"

lemma demo_observe:
  assumes "same_gaps a b" "pt_previous a = Some t" "pt_gap_count a = n" "pt_total_gap_micros a = m"
    and "pt_requested_interval_ms a = 2000" "n < 5" "0 \<le> m" "m < 10 ^ 9"
  shows "\<exists>a'. pt_observe (t + 2000000000) b = (a', Ok ()) \<and> pt_previous a' = Some (t + 2000000000) \<and>
    pt_gap_count a' = Suc n \<and> pt_total_gap_micros a' = m + 2000000 \<and> pt_requested_interval_ms a' = 2000"
  using assms
  by (simp add: same_gaps_def pt_observe_def observe_gap_def num_microseconds_def trunc_div_def Let_def)

lemma demo_sim_tick:
  assumes "ps_tracker s = None" "ps_time s = FixedStep t 2000000000" "ps_post_delay_end s = None"
    and "read_numeric_from_batch (px_parse demo_ctx) (demo_batch pvs mvs) ''P'' = Ok (pv, Good)"
    and "t + 2000000000 \<le> 10 ^ 18" "0 \<le> t + 2000000000"
    and "pt_observe (t + 2000000000) (observe_pv_read (poll_duration (demo_input 0 pvs mvs)) (ps_acc s)) = (a, Ok ())"
    and "engine_step (ps_engine s) \<lparr>tk_time = t + 2000000000, tk_pv = pv\<rparr> = (e', WriteMv v # acts)"
    and "acts = [] \<or> acts = [Complete y1 y2 y3 y4]"
  shows "\<exists>s'. poll_step demo_ctx (EvTick (demo_input 0 pvs mvs)) s = (s', PollContinue) \<and> ps_engine s' = e' \<and>
    ps_time s' = FixedStep (t + 2000000000) 2000000000 \<and> ps_commands s' = ps_commands s @ [v] \<and> same_gaps a (ps_acc s') \<and>
    ps_post_delay_end s' = (if acts = [] then None else Some (t + 5000000000)) \<and> ps_tracker s' = None"
proof -
  have "ps_pending s = None" "relay_tolerance v s = Ok None"
    using assms(1) by (simp_all add: ps_pending_def relay_tolerance_def)
  then have "\<exists>s'. poll_step demo_ctx (EvTick (demo_input 0 pvs mvs)) s = (s', PollContinue) \<and> ps_engine s' = e' \<and>
    ps_time s' = FixedStep (t + 2000000000) 2000000000 \<and> ps_commands s' = ps_commands s @ [v] \<and> same_gaps a (ps_acc s') \<and>
    ps_post_delay_end s' = (if acts = [] then None else Some (t + 2000000000 + secs (unat (f_mrft_delay_secs (px_timing demo_ctx))))) \<and>
    (case None of None \<Rightarrow> ps_tracker s' = ps_tracker s \<and> ps_db s' = ps_db s
     | Some z \<Rightarrow> ps_tracker s' = Some (fst z) \<and> ps_db s' = snd z) \<and>
    ps_samples s' = ps_samples s @ [\<lparr> sr_index = ps_tick_index s, sr_tick = \<lparr>tk_time = t + 2000000000, tk_pv = pv\<rparr>,
      sr_state = engine_state e', sr_quality = SGood \<rparr>]"
    by (intro commanding_tick[where b = "demo_batch pvs mvs" and tol = None]) (use assms in simp_all)
  moreover have "secs (unat (f_mrft_delay_secs (px_timing demo_ctx))) = 3000000000"
    by (simp add: secs_def ns_per_sec_def)
  ultimately show ?thesis using assms(1) by (elim exE) (auto simp: algebra_simps)
qed

lemma demo_sim_run:
  "\<exists>s. poll_loop demo_ctx demo_sim_events demo_sim_start = (s, PollContinue) \<and> ps_commands s = [Fin 60, Fin 40, Fin 50] \<and>
     ps_post_delay_end s = Some 9000000000 \<and> ps_time s = FixedStep 6000000000 2000000000"
proof -
  let ?a0 = "poll_timing_new SimulatedFixedStep 2000" and ?i1 = "demo_input 0 ''48'' ''50''"
    and ?i2 = "demo_input 0 ''52'' ''60''" and ?i3 = "demo_input 0 ''48'' ''40''"
  obtain a1 where a1: "pt_observe 2000000000 (observe_pv_read (poll_duration ?i1) ?a0) = (a1, Ok ())"
    "pt_previous a1 = Some 2000000000" "pt_gap_count a1 = 0" "pt_total_gap_micros a1 = 0" "pt_requested_interval_ms a1 = 2000"
    by (simp add: pt_observe_def observe_pv_read_def poll_timing_new_def)
  have start: "ps_tracker demo_sim_start = None" "ps_time demo_sim_start = FixedStep 0 2000000000"
    "ps_post_delay_end demo_sim_start = None" "ps_acc demo_sim_start = ?a0" "ps_engine demo_sim_start = demo_engine"
    "ps_commands demo_sim_start = []"
    by (simp_all add: demo_sim_start_def)
  obtain s1 where s1: "poll_step demo_ctx (EvTick ?i1) demo_sim_start = (s1, PollContinue)"
    "ps_engine s1 = demo_engine1" "ps_time s1 = FixedStep 2000000000 2000000000" "ps_commands s1 = [Fin 60]"
    "same_gaps a1 (ps_acc s1)" "ps_post_delay_end s1 = None" "ps_tracker s1 = None"
    using demo_sim_tick[OF start(1-3) demo_read(1)[of "''50''"], where a = a1 and e' = demo_engine1 and v = "Fin 60" and acts = "[]"]
      a1(1) demo_engine_step1 by (auto simp: start)
  obtain a2 where a2: "pt_observe 4000000000 (observe_pv_read (poll_duration ?i2) (ps_acc s1)) = (a2, Ok ())"
    "pt_previous a2 = Some 4000000000" "pt_gap_count a2 = 1" "pt_total_gap_micros a2 = 2000000" "pt_requested_interval_ms a2 = 2000"
    using demo_observe[of a1 "observe_pv_read (poll_duration ?i2) (ps_acc s1)", OF _ a1(2-5)] s1(5) by auto
  obtain s2 where s2: "poll_step demo_ctx (EvTick ?i2) s1 = (s2, PollContinue)"
    "ps_engine s2 = demo_engine2" "ps_time s2 = FixedStep 4000000000 2000000000" "ps_commands s2 = [Fin 60, Fin 40]"
    "same_gaps a2 (ps_acc s2)" "ps_post_delay_end s2 = None" "ps_tracker s2 = None"
    using demo_sim_tick[OF s1(7,3,6) demo_read(2)[of "''60''"], where a = a2 and e' = demo_engine2 and v = "Fin 40" and acts = "[]"]
      a2(1) demo_engine_step2 by (auto simp: s1)
  obtain a3 where a3: "pt_observe 6000000000 (observe_pv_read (poll_duration ?i3) (ps_acc s2)) = (a3, Ok ())"
    using demo_observe[of a2 "observe_pv_read (poll_duration ?i3) (ps_acc s2)", OF _ a2(2-5)] s2(5) by auto
  obtain e where e: "engine_step demo_engine2 \<lparr>tk_time = 6000000000, tk_pv = Fin 48\<rparr> =
     (e, [WriteMv (Fin 50), Complete [Fin 50, Fin 52] [Fin 48] [2000000000, 4000000000, 6000000000] 1])"
    using demo_engine_step3 by blast
  obtain s3 where s3: "poll_step demo_ctx (EvTick ?i3) s2 = (s3, PollContinue)"
    "ps_time s3 = FixedStep 6000000000 2000000000" "ps_commands s3 = [Fin 60, Fin 40, Fin 50]"
    "ps_post_delay_end s3 = Some 9000000000"
    using demo_sim_tick[OF s2(7,3,6) demo_read(1)[of "''40''"], where a = a3 and e' = e and ?y1.0 = "[Fin 50, Fin 52]" and v = "Fin 50"
        and acts = "[Complete [Fin 50, Fin 52] [Fin 48] [2000000000, 4000000000, 6000000000] 1]"] a3 e by (auto simp: s2)
  show ?thesis using s1(1) s2(1) s3 by (simp add: demo_sim_events_def)
qed

lemma demo_engine_fresh: "\<not> e_completed demo_engine"
  by (simp add: demo_engine_def engine_new_def)

theorem loop_replays_engine_witness:
  "\<exists>s. poll_loop demo_ctx demo_sim_events demo_sim_start = (s, PollContinue) \<and>
     [Fin 60, Fin 40, Fin 50] = mv_writes (snd (engine_run demo_engine (fed demo_ctx s))) \<and> e_completed (ps_engine s)"
proof -
  obtain s where s: "poll_loop demo_ctx demo_sim_events demo_sim_start = (s, PollContinue)"
    "ps_commands s = [Fin 60, Fin 40, Fin 50]" "ps_post_delay_end s = Some 9000000000" using demo_sim_run by blast
  have d: "driven demo_ctx demo_engine s"
    using poll_loop_driven[OF poll_start_driven[OF demo_sim_start_ok demo_engine_fresh] s(1)] by blast
  show ?thesis
    using loop_replays_engine[OF demo_sim_start_ok demo_engine_fresh s(1)] s d by (auto simp: driven_def)
qed

theorem stopped_loop_commands_witness:
  "\<exists>us. length us \<le> 1 \<and>
     prefix [] (mv_writes (snd (engine_run demo_engine (fed demo_ctx (fst (poll_loop demo_ctx [EvCtrlC] demo_sim_start)) @ us))))"
proof -
  have "poll_loop demo_ctx [EvCtrlC] demo_sim_start = (demo_sim_start, PollAborted UserInterrupt)"
    by (simp add: poll_step_def)
  from stopped_loop_commands[OF demo_sim_start_ok demo_engine_fresh this] this
  show ?thesis by (auto simp: demo_sim_start_def)
qed

theorem completed_run_ends_witness:
  "\<exists>s. poll_loop demo_ctx demo_sim_events demo_sim_start = (s, PollContinue) \<and>
     snd (poll_loop demo_ctx (map EvTick [demo_input 0 ''48'' ''50'', demo_input 0 ''52'' ''50'']) s) \<noteq> PollContinue"
proof -
  obtain s where s: "poll_loop demo_ctx demo_sim_events demo_sim_start = (s, PollContinue)"
    "ps_post_delay_end s = Some 9000000000" "ps_time s = FixedStep 6000000000 2000000000" using demo_sim_run by blast
  then show ?thesis
    using completed_run_ends[OF demo_sim_start_ok demo_engine_fresh s(1,2,3),
        of "[demo_input 0 ''48'' ''50'', demo_input 0 ''52'' ''50'']"] by auto
qed

definition demo_tol :: f32 where
  "demo_tol = Fin (13425613/134217728)"

lemma demo_tolerance: "mv_actuation_tolerance ARelay (Fin 60) (Fin 50) (Fin 100) = Ok demo_tol"
proof -
  have step: "fl_abs (fl_sub B32 (Fin 60) (Fin 50)) = Fin 10" by (simp add: fl_simps fl_abs_def)
  have cap: "fl_mul B32 (Fin 10) RELAY_STEP_TOLERANCE_FRACTION = Fin (5 / 2)"
    by (simp add: RELAY_STEP_TOLERANCE_FRACTION_def fl_simps)
  have floor: "f32_precision_floor (Fin 60) (Fin 50) = Fin (15 / 524288)"
    by (simp add: f32_precision_floor_def F32_EPSILON_def fl_simps fl_abs_def fl_max_def fl_lt_def)
  have frac: "MV_SPAN_TOLERANCE_FRACTION = Fin (8589935/8589934592)"
    by (simp add: MV_SPAN_TOLERANCE_FRACTION_def fl_simps)
  have prod: "fl_mul B32 (Fin 100) (Fin (8589935/8589934592)) = Fin (13421773/134217728)"
    by (simp add: fl_simps)
  have sum: "fl_add B32 (Fin (15 / 524288)) (Fin (13421773/134217728)) = demo_tol"
    by (simp add: demo_tol_def fl_simps)
  have least: "\<not> fl_lt (Fin 10) MIN_RELAY_STEP" by (simp add: MIN_RELAY_STEP_def fl_simps fl_lt_def)
  have "fl_abs (Fin 100) = (Fin 100 :: f32)" by (simp add: fl_abs_def)
  moreover have "fl_min demo_tol (Fin (5 / 2)) = demo_tol" by (simp add: demo_tol_def fl_min_def fl_lt_def)
  ultimately show ?thesis
    by (simp add: mv_actuation_tolerance_def mv_actuation_uncapped_tolerance_def step cap floor least frac prod sum
        fl_le_finite)
qed

lemma demo_tolerance2: "\<exists>y. mv_actuation_tolerance ARelay (Fin 40) (Fin 60) w = Ok y"
proof -
  have step: "fl_abs (fl_sub B32 (Fin 40) (Fin 60)) = Fin 20" by (simp add: fl_simps fl_abs_def)
  have cap: "fl_mul B32 (Fin 20) RELAY_STEP_TOLERANCE_FRACTION = Fin 5"
    by (simp add: RELAY_STEP_TOLERANCE_FRACTION_def fl_simps)
  have floor: "f32_precision_floor (Fin 40) (Fin 60) = Fin (15 / 524288)"
    by (simp add: f32_precision_floor_def F32_EPSILON_def fl_simps fl_abs_def fl_max_def fl_lt_def)
  have least: "\<not> fl_lt (Fin 20) MIN_RELAY_STEP" by (simp add: MIN_RELAY_STEP_def fl_simps fl_lt_def)
  show ?thesis by (simp add: mv_actuation_tolerance_def step cap floor least fl_le_finite)
qed

definition demo_live_pending :: pending_mv where
  "demo_live_pending = \<lparr>pm_id = Some 1, pm_kind = ARelay, pm_target = Fin 60, pm_tolerance = demo_tol,
     pm_switch_tick = 2000000000, pm_switch_instant = 2000000000, pm_accepted_instant = 2000000000,
     pm_first_check_at = 2000000000, pm_deadline = 6000000000, pm_last_readback = None\<rparr>"

lemma demo_live_first:
  "\<exists>d. record_relay_actuation 1 (Fin 60) 2000000000 2000000000 2000000000 0 2000000000 demo_tol (demo_live_tracker, demo_running) =
     ((\<lparr>tr_next_sequence = 1, tr_previous_commanded_mv = Fin 60, tr_confirmed_mv = None,
        tr_pending = Some demo_live_pending, tr_mv_span = Fin 100\<rparr>, d), Ok ())"
proof -
  have "fl_sub B32 (Fin 100) (Fin 0) = Fin 100" by (simp add: fl_simps)
  then show ?thesis
    by (simp add: record_relay_actuation_def utc_after_elapsed_def duration_from_std_def
      delta_max_def ns_per_ms_def record_accepted_at_switch_def insert_pending_def run_tx_def
      Let_def demo_running_eq demo_empty_def empty_db_def new_actuation_def actuation_check_def demo_live_tracker_def
      tracker_for_run_def demo_request_def accept_pending_def MV_ACTUATION_CONFIRMATION_SECS_def demo_initial_def
      fl_le_finite demo_run_row_simps secs_def ns_per_sec_def demo_live_pending_def demo_tol_def)
qed

lemma demo_live_start_ok:
  "poll_start demo_ctx demo_request demo_anchor 0 demo_engine (tracker_for_run demo_request demo_initial)
     (poll_timing_new LiveMonotonic 2000) demo_running = Ok demo_live_start"
  by (simp add: poll_start_def demo_request_def for_driver_def demo_live_start_def demo_live_tracker_def tracker_for_run_def)

lemma demo_live_tick1:
  "\<exists>s. poll_loop demo_ctx [EvTick (demo_input 2000000000 ''48'' ''50'')] demo_live_start = (s, PollContinue) \<and>
     ps_pending s = Some demo_live_pending \<and> ps_engine s = demo_engine1 \<and> ps_time s = LiveClock demo_anchor \<and>
     ps_post_delay_end s = None \<and> (\<exists>t. ps_tracker s = Some t \<and> tr_mv_span t = Fin 100 \<and> tr_previous_commanded_mv t = Fin 60) \<and>
     (\<exists>a. same_gaps a (ps_acc s) \<and> pt_previous a = Some 2000000000 \<and> pt_gap_count a = 0 \<and> pt_total_gap_micros a = 0 \<and>
       pt_requested_interval_ms a = 2000)"
proof -
  obtain d where d: "record_relay_actuation 1 (Fin 60) 2000000000 2000000000 2000000000 0 2000000000 demo_tol
      (demo_live_tracker, demo_running) =
     ((\<lparr>tr_next_sequence = 1, tr_previous_commanded_mv = Fin 60, tr_confirmed_mv = None,
        tr_pending = Some demo_live_pending, tr_mv_span = Fin 100\<rparr>, d), Ok ())" using demo_live_first by blast
  let ?i = "demo_input 2000000000 ''48'' ''50''" and ?a0 = "poll_timing_new LiveMonotonic 2000"
  obtain a1 where a1: "pt_observe 2000000000 (observe_pv_read (poll_duration ?i) ?a0) = (a1, Ok ())"
    "pt_previous a1 = Some 2000000000" "pt_gap_count a1 = 0" "pt_total_gap_micros a1 = 0" "pt_requested_interval_ms a1 = 2000"
    by (simp add: pt_observe_def observe_pv_read_def poll_timing_new_def)
  have tr: "tr_pending demo_live_tracker = None" "tr_previous_commanded_mv demo_live_tracker = Fin 50"
    "tr_mv_span demo_live_tracker = Fin 100"
    by (simp_all add: demo_live_tracker_def tracker_for_run_def demo_request_def demo_initial_def fl_simps)
  have tol: "relay_tolerance (Fin 60) demo_live_start = Ok (Some demo_tol)"
    by (simp add: relay_tolerance_def demo_live_start_def tr demo_tolerance)
  have "next_timestamp_at (px_utc_max demo_ctx) (ti_observed ?i) (ps_time demo_live_start) = (LiveClock demo_anchor, Ok 2000000000)"
    by (simp add: demo_live_start_def demo_anchor_def project_elapsed_def duration_from_std_def delta_max_def ns_per_ms_def)
  moreover have "ps_pending demo_live_start = None" "ps_post_delay_end demo_live_start = None"
    "ps_acc demo_live_start = ?a0" "ps_engine demo_live_start = demo_engine" "ps_tracker demo_live_start = Some demo_live_tracker"
    "ps_db demo_live_start = demo_running"
    by (simp_all add: demo_live_start_def ps_pending_def tr)
  ultimately show ?thesis
    using commanding_tick[where s = demo_live_start and i = ?i and c = demo_ctx and b = "demo_batch ''48'' ''50''" and pv = "Fin 48"
        and src = "LiveClock demo_anchor" and now = 2000000000 and a = a1 and e' = demo_engine1 and v = "Fin 60" and acts = "[]"
        and tol = "Some demo_tol" and td = "Some (\<lparr>tr_next_sequence = 1, tr_previous_commanded_mv = Fin 60, tr_confirmed_mv = None,
        tr_pending = Some demo_live_pending, tr_mv_span = Fin 100\<rparr>, d)"] a1 d tol demo_engine_step1
    by (auto simp: demo_read saturating_since_def secs_def ps_pending_def)
qed

text \<open>A tick whose engine asks for a command with nothing pending hands it to the driver.\<close>

lemma commanding_body:
  assumes "ps_pending s = None" "px_pre_delay_end c \<le> tk_time t" "engine_step (ps_engine s) t = (e', [WriteMv v])"
    and "relay_tolerance v s = Ok tol" "ti_write i = Ok (TickCompleted ())"
    and "tick_body c i t Good ev None s = (s', r)"
  shows "ps_commands s' = ps_commands s @ [v]"
proof -
  have pend2: "ps_tracker s = Some y \<Longrightarrow> tr_pending y = None" for y
    using assms(1) by (simp add: ps_pending_def)
  show ?thesis
    using assms(2-6)
    by (cases "ps_tracker s"; cases "ti_persist i")
      (auto simp: then_stage_simps then_stage_iff tick_body_def check_quality_def tick_engine_def ps_pending_def pend2 tick_write_def
        relay_tolerance_def persist_sample_def tick_work_done_def Let_def split: sum.splits prod.splits option.splits)
qed

lemma demo_live_read:
  assumes "ps_tracker s = Some t" "tr_pending t = Some demo_live_pending" "track_reach 1 (t, ps_db s)"
  shows "\<exists>d' a. tick_read demo_ctx (demo_input 4000000000 ''52'' ''60'') s =
    (s\<lparr>ps_acc := a, ps_tracker := Some (t\<lparr>tr_pending := None, tr_confirmed_mv := Some (Fin 60)\<rparr>), ps_db := d'\<rparr>,
     Ok (Fin 52, Good, True, None)) \<and> (\<forall>b. same_gaps b a = same_gaps b (ps_acc s))"
proof -
  let ?i = "demo_input 4000000000 ''52'' ''60''" and ?p = demo_live_pending
  have m: "rows_sound (ps_db s)" "(1, pm_kind ?p, pm_target ?p, pm_tolerance ?p) \<in> open_rows 1 (ps_db s)"
    using reach_mirrored[OF assms(3)] assms(2) by (auto simp: mirrored_iff tracker_open_Some demo_live_pending_def)
  obtain row d' where row: "record_final_observation 1 4000000000 (Some (Fin 60)) (Some SGood) Confirmed None (ps_db s) = (d', Ok row)"
    using final_observation_open[OF m, of Confirmed] by blast
  have match: "actuation_matches (Fin 60) (Fin 60) demo_tol"
    by (simp add: actuation_matches_def fl_simps fl_abs_def demo_tol_def)
  have checked: "checked_at_for_pending ?p 4000000000 = Ok 4000000000"
    by (simp add: checked_at_for_pending_def demo_live_pending_def saturating_since_def duration_from_std_def
        delta_max_def ns_per_ms_def)
  have poll: "resolve_pending_mv_poll (px_parse demo_ctx) (px_lib demo_ctx) (px_timing demo_ctx)
      (TickCompleted (demo_batch ''52'' ''60'')) ''M'' 4000000000 4000000000 n False acc (t, ps_db s) =
    (observe_mv_verification n acc, (t\<lparr>tr_pending := None, tr_confirmed_mv := Some (Fin 60)\<rparr>, d'), Ok (None, True))" for n acc
    using row match assms(2)
    by (simp add: resolve_pending_mv_poll_def demo_read resolve_pending_mv_read_def check_quality_def
        sample_quality_from_driver_def finalize_pending_mv_verification_def demo_live_pending_def Let_def
        confirm_pending_mv_actuation_def)
  have ver: "same_gaps b (observe_mv_verification n acc) = same_gaps b acc" for b n acc
    by (simp add: same_gaps_def observe_mv_verification_def)
  have pend: "ps_pending (s\<lparr>ps_acc := x\<rparr>) = Some ?p" for x using assms(1,2) by (simp add: ps_pending_def)
  show ?thesis
    by (rule exI[of _ d'], rule exI[of _ "observe_mv_verification (poll_duration ?i) (observe_pv_read (poll_duration ?i) (ps_acc s))"])
      (simp add: tick_read_def Let_def pend resolve_pending_poll_def checked assms(1) poll demo_read then_stage_simps
        set_tracked_def ver)
qed

theorem replacement_only_after_confirmation_witness:
  "\<exists>s s' x. poll_loop demo_ctx [EvTick (demo_input 2000000000 ''48'' ''50'')] demo_live_start = (s, PollContinue) \<and>
     poll_step demo_ctx (EvTick (demo_input 4000000000 ''52'' ''60'')) s = (s', x) \<and>
     ps_commands s' \<noteq> ps_commands s \<and> row_is (ps_db s') 1 Confirmed"
proof -
  let ?i = "demo_input 4000000000 ''52'' ''60''"
  have d0: "rows_sound demo_running" "open_rows (px_run_id demo_ctx) demo_running = {}"
    by (simp_all add: rows_sound_def open_rows_def demo_running_eq demo_empty_def empty_db_def)
  obtain s t a where l: "poll_loop demo_ctx [EvTick (demo_input 2000000000 ''48'' ''50'')] demo_live_start = (s, PollContinue)"
    and s: "ps_pending s = Some demo_live_pending" "ps_engine s = demo_engine1" "ps_time s = LiveClock demo_anchor"
      "ps_tracker s = Some t" "tr_mv_span t = Fin 100" "tr_previous_commanded_mv t = Fin 60"
    and a: "same_gaps a (ps_acc s)" "pt_previous a = Some 2000000000" "pt_gap_count a = 0" "pt_total_gap_micros a = 0"
      "pt_requested_interval_ms a = 2000"
    using demo_live_tick1 by blast
  have pend: "tr_pending t = Some demo_live_pending" using s(1,4) by (simp add: ps_pending_def)
  have "tracked 1 s"
    using poll_loop_tracked[OF l] poll_start_tracked[OF demo_live_start_ok refl d0] by simp
  then have reach: "track_reach 1 (t, ps_db s)" using s(4) by (simp add: tracked_def)
  obtain n where n: "n = 4000000000 + millis (f_poll_interval_ms (px_timing demo_ctx))" by blast
  obtain d' a1 where r: "tick_read demo_ctx ?i (s\<lparr>ps_next_poll_at := n\<rparr>) =
      (s\<lparr>ps_next_poll_at := n, ps_acc := a1, ps_tracker := Some (t\<lparr>tr_pending := None, tr_confirmed_mv := Some (Fin 60)\<rparr>), ps_db := d'\<rparr>,
       Ok (Fin 52, Good, True, None))" "same_gaps a a1"
    using demo_live_read[of "s\<lparr>ps_next_poll_at := n\<rparr>" t] s(4) pend reach a(1) by auto
  obtain a2 where a2: "pt_observe 4000000000 a1 = (a2, Ok ())"
    using demo_observe[OF r(2) a(2-5)] by auto
  obtain s2 where s2: "s2 = s\<lparr>ps_next_poll_at := n, ps_acc := a2, ps_tracker := Some (t\<lparr>tr_pending := None, tr_confirmed_mv := Some (Fin 60)\<rparr>),
      ps_db := d', ps_time := LiveClock demo_anchor\<rparr>" by blast
  obtain s' r' where b: "tick_body demo_ctx ?i \<lparr>tk_time = 4000000000, tk_pv = Fin 52\<rparr> Good True None s2 = (s', r')" by fastforce
  have tol: "\<exists>y. relay_tolerance (Fin 40) s2 = Ok y"
    using demo_tolerance2[of "tr_mv_span t"] s(6) by (auto simp: relay_tolerance_def s2)
  have cmd: "ps_commands s' = ps_commands s2 @ [Fin 40]"
    using commanding_body[OF _ _ _ _ _ b] tol demo_engine_step2 s(2) by (auto simp: s2 ps_pending_def)
  have stamp: "tick_stamp demo_ctx ?i (s\<lparr>ps_next_poll_at := n, ps_acc := a1,
      ps_tracker := Some (t\<lparr>tr_pending := None, tr_confirmed_mv := Some (Fin 60)\<rparr>), ps_db := d'\<rparr>) = (s2, Ok 4000000000)"
    using a2 s(3)
    by (simp add: tick_stamp_def Let_def demo_anchor_def project_elapsed_def duration_from_std_def delta_max_def
        ns_per_ms_def s2)
  have "poll_tick demo_ctx ?i s = (s', r')"
    using r(1) stamp b by (simp add: poll_tick_def Let_def n[symmetric] demo_input_def then_stage_simps)
  then obtain x where st: "poll_step demo_ctx (EvTick ?i) s = (s', x)" by (cases r') (auto simp: poll_step_def)
  have ne: "ps_commands s' \<noteq> ps_commands s" using cmd by (simp add: s2)
  have "pm_id demo_live_pending = Some 1" by (simp add: demo_live_pending_def)
  from replacement_only_after_confirmation[OF demo_live_start_ok d0 l s(1) this st ne]
  show ?thesis using l st ne by blast
qed

end
