(* ===== verification/Restore.thy ===== *)
theory Restore
  imports Poll_Safety
begin

text \<open>
  Putting the loop back (\<open>bhtune-runtime/src/tune/restore.rs\<close>): the MV write-back with its
  confirmation, the hand-off of the final snapback, the settling before the release to Auto, and the
  mode, setpoint and mode-attribute steps.

  The driver is a state \<open>'d\<close> with a write operation.  The clock, the races of the \<open>select!\<close>s and
  timeouts, and the answers of reads enter as the inputs of a restore; a write that was abandoned says
  whether it reached the controller all the same.  \<open>Instant\<close> arithmetic below the clock's start is not
  modelled (\<open>checked_sub\<close> never fails).
\<close>

text \<open>The rendering of errors and numbers for people is a parameter.\<close>

record report_lib = text_lib +
  rl_reason :: "abort_reason \<Rightarrow> string"
  rl_f32 :: "f32 \<Rightarrow> string"

section \<open>Steps and reports\<close>

datatype restore_step_outcome = StepNotNeeded | StepSucceeded | StepFailure string

record restore_report =
  rr_mv :: restore_step_outcome
  rr_mode :: restore_step_outcome
  rr_setpoint :: restore_step_outcome
  rr_mode_attribute :: restore_step_outcome

fun step_failed :: "restore_step_outcome \<Rightarrow> bool" where
  "step_failed (StepFailure _) = True"
| "step_failed _ = False"

definition all_succeeded :: "restore_report \<Rightarrow> bool" where
  "all_succeeded r = list_all (\<lambda>s. \<not> step_failed s) [rr_mv r, rr_mode r, rr_setpoint r, rr_mode_attribute r]"

fun labelled_failure :: "string \<times> restore_step_outcome \<Rightarrow> string option" where
  "labelled_failure (label, StepFailure e) = Some (label @ '': '' @ e)"
| "labelled_failure _ = None"

fun join :: "string \<Rightarrow> string list \<Rightarrow> string" where
  "join sep [] = []"
| "join sep [x] = x"
| "join sep (x # xs) = x @ sep @ join sep xs"

definition failure_summary :: "restore_report \<Rightarrow> string option" where
  "failure_summary r =
     (let failures = List.map_filter labelled_failure
            [(''MV'', rr_mv r), (''mode'', rr_mode r), (''setpoint'', rr_setpoint r),
             (''mode attribute'', rr_mode_attribute r)]
      in if failures = [] then None else Some (join ''; '' failures))"

text \<open>Which of the writes of \<open>transition_to_manual\<close> and of the polling loop were attempted.\<close>

record mutation_guard =
  mg_mode_attribute_written :: bool
  mg_mode_written :: bool
  mg_mv_written :: bool

definition guard_default :: mutation_guard where
  "guard_default = \<lparr> mg_mode_attribute_written = False, mg_mode_written = False, mg_mv_written = False \<rparr>"

datatype restore_mode_policy = ReleaseToInitial | KeepManual

section \<open>The steps after the MV\<close>

definition step_of :: "'x text_lib_scheme \<Rightarrow> 'd \<times> (run_error, unit) result \<Rightarrow> 'd \<times> restore_step_outcome" where
  "step_of lib = map_prod id (\<lambda>r. case r of Inl e \<Rightarrow> StepFailure (tl_error lib e) | Inr _ \<Rightarrow> StepSucceeded)"

definition restore_value_step :: "'x text_lib_scheme \<Rightarrow> 'd put \<Rightarrow> string \<Rightarrow> f32 \<Rightarrow> 'd \<Rightarrow> 'd \<times> restore_step_outcome" where
  "restore_value_step lib put tag v d = step_of lib (write_value put tag v d)"

definition restore_raw_step :: "'x text_lib_scheme \<Rightarrow> 'd put \<Rightarrow> string \<Rightarrow> string \<Rightarrow> 'd \<Rightarrow> 'd \<times> restore_step_outcome" where
  "restore_raw_step lib put tag v d = step_of lib (write_raw put tag v d)"

definition restore_mode_step ::
  "'x text_lib_scheme \<Rightarrow> 'd put \<Rightarrow> loop_tags \<Rightarrow> dcs_template \<Rightarrow> initial_state \<Rightarrow> mutation_guard \<Rightarrow> 'd \<Rightarrow> 'd \<times> restore_step_outcome" where
  "restore_mode_step lib put tags tmpl i g d =
     (case g_controller_mode tags of
        None \<Rightarrow> (d, StepNotNeeded)
      | Some tag \<Rightarrow>
          (let mode_raw = unwrap_or_default (is_mode_raw i)
           in if \<not> mg_mode_written g \<or> \<not> t_revert_mode tmpl \<or> mode_raw = t_mode_manual_value tmpl
              then (d, StepNotNeeded)
              else restore_raw_step lib put tag mode_raw d))"

definition restore_setpoint_step ::
  "'x text_lib_scheme \<Rightarrow> 'd put \<Rightarrow> loop_tags \<Rightarrow> dcs_template \<Rightarrow> initial_state \<Rightarrow> mutation_guard \<Rightarrow> 'd \<Rightarrow> 'd \<times> restore_step_outcome" where
  "restore_setpoint_step lib put tags tmpl i g d =
     (if \<not> mg_mode_written g \<or> \<not> t_revert_mode tmpl then (d, StepNotNeeded)
      else (case (g_setpoint_variable tags, is_setpoint_ini i) of
              (Some tag, Some sv) \<Rightarrow> restore_value_step lib put tag sv d
            | _ \<Rightarrow> (d, StepNotNeeded)))"

definition restore_mode_attribute_step ::
  "'x text_lib_scheme \<Rightarrow> 'd put \<Rightarrow> loop_tags \<Rightarrow> dcs_template \<Rightarrow> initial_state \<Rightarrow> mutation_guard \<Rightarrow> 'd \<Rightarrow> 'd \<times> restore_step_outcome" where
  "restore_mode_attribute_step lib put tags tmpl i g d =
     (case g_mode_attribute tags of
        None \<Rightarrow> (d, StepNotNeeded)
      | Some tag \<Rightarrow>
          (let attr_raw = unwrap_or_default (is_mode_attribute_raw i);
               program = unwrap_or_default (t_mode_attribute_program_value tmpl)
           in if \<not> mg_mode_attribute_written g \<or> attr_raw = program then (d, StepNotNeeded)
              else restore_raw_step lib put tag attr_raw d))"

definition restore_after_mv_with_policy ::
  "'x text_lib_scheme \<Rightarrow> 'd put \<Rightarrow> loop_tags \<Rightarrow> dcs_template \<Rightarrow> initial_state \<Rightarrow> mutation_guard \<Rightarrow> restore_step_outcome
   \<Rightarrow> restore_mode_policy \<Rightarrow> 'd \<Rightarrow> 'd \<times> restore_report" where
  "restore_after_mv_with_policy lib put tags tmpl i g mv policy d =
     (let (d1, mode) = (case policy of
              ReleaseToInitial \<Rightarrow> restore_mode_step lib put tags tmpl i g d
            | KeepManual \<Rightarrow> (d, StepNotNeeded));
          (d2, setpoint) = restore_setpoint_step lib put tags tmpl i g d1;
          (d3, attr) = restore_mode_attribute_step lib put tags tmpl i g d2
      in (d3, \<lparr> rr_mv = mv, rr_mode = mode, rr_setpoint = setpoint, rr_mode_attribute = attr \<rparr>))"

section \<open>The MV\<close>

datatype restore_mv_outcome = RmContinue restore_step_outcome | RmInterrupted string

datatype restore_handoff_outcome = HandoffConfirmed | HandoffRewrite | HandoffInterrupted string

text \<open>How a bounded write ended: it ran, or it was abandoned at a Ctrl+C, at the operation timeout or at
  the restore deadline, after or before it reached the controller.\<close>

datatype call_end = CallRan | CallCancelled bool | CallTimedOut bool | CallElapsed bool

text \<open>\<open>timeout_at(deadline, bounded_driver_call(write_value(..)))\<close>: \<open>None\<close> at the deadline.\<close>

definition bounded_write ::
  "'d put \<Rightarrow> call_end \<Rightarrow> string \<Rightarrow> f32 \<Rightarrow> 'd \<Rightarrow> 'd \<times> (run_error, unit tick_operation) result option" where
  "bounded_write put e tag v d =
     (let (d', r) = write_value put tag v d; left = (\<lambda>reached. if reached then d' else d)
      in case e of
           CallRan \<Rightarrow> (d', Some (map_sum id TickCompleted r))
         | CallCancelled reached \<Rightarrow> (left reached, Some (Ok TickCancelled))
         | CallTimedOut reached \<Rightarrow> (left reached, Some (Ok TickTimedOut))
         | CallElapsed reached \<Rightarrow> (left reached, None))"

text \<open>One round of the confirmation loop of the restored MV.\<close>

record restore_round =
  rd_trigger_now :: instant
  rd_now :: instant
  rd_reads :: "nat \<Rightarrow> bounded_read"
  rd_after :: instant

text \<open>One pass of the settling loop.\<close>

datatype settle_event = SettleCtrlC | SettleDeadline | SettlePoll

record settle_input =
  st_now :: instant
  st_event :: settle_event
  st_tick :: tick_input

datatype finish_race = FinishSteps | FinishCtrlC nat | FinishDeadline nat

record restore_input =
  ri_start :: instant
  ri_handoff_now :: instant
  ri_handoff_read :: "mv_answer option"
  ri_handoff_checked :: instant
  ri_write :: call_end
  ri_accepted :: instant
  ri_accepted_utc :: timestamp
  ri_rounds :: "restore_round list"
  ri_settle_start :: instant
  ri_settle :: "settle_input list"
  ri_finish :: finish_race

text \<open>\<open>try_confirm_final_snapback_handoff_with_timing\<close>; the read is \<open>None\<close> when its deadline passed.\<close>

definition try_confirm_final_snapback ::
  "'x text_lib_scheme \<Rightarrow> effective_timing \<Rightarrow> string \<Rightarrow> f32 \<Rightarrow> bool \<Rightarrow> restore_input \<Rightarrow> instant
   \<Rightarrow> mv_tracker \<times> db \<Rightarrow> (mv_tracker \<times> db) \<times> (run_error, restore_handoff_outcome option) result" where
  "try_confirm_final_snapback lib timing tag mv allow i deadline = (\<lambda>(t, d).
     case tr_pending t of
       None \<Rightarrow> ((t, d), Ok None)
     | Some p \<Rightarrow>
         if \<not> (pm_kind p = ARelay \<and> fl_eq (pm_target p) mv) then ((t, d), Ok None)
         else
           (let t1 = t\<lparr>tr_pending := None\<rparr>;
                rewrite = (\<lambda>d'. ((t1, d'), Ok (Some HandoffRewrite)))
            in if deadline - secs MV_ACTUATION_CONFIRMATION_SECS \<le> ri_handoff_now i then
                 rewrite (finalize_actuation_best_effort p Superseded
                   ''the authoritative restore skipped the final-snapback handoff read to preserve its full MV confirmation budget'' d)
               else (case checked_at_for_pending p (ri_handoff_checked i) of
                   Inl e \<Rightarrow> ((t1, d), Err e)
                 | Inr checked_at \<Rightarrow>
                     (case ri_handoff_read i of
                        None \<Rightarrow>
                          rewrite (finalize_actuation_best_effort p Superseded
                            ''the authoritative restore superseded the final MRFT snapback when its tightly bounded handoff read did not finish promptly'' d)
                      | Some (Inl e) \<Rightarrow>
                          rewrite (record_handoff_observation_best_effort p checked_at None None
                            (''the authoritative restore superseded the final MRFT snapback after its handoff read failed: '' @ tl_error lib e) d)
                      | Some (Inr TickCancelled) \<Rightarrow>
                          ((t1\<lparr>tr_pending := Some p\<rparr>, d),
                           Ok (Some (HandoffInterrupted ''a second Ctrl+C was received while confirming the final MRFT snapback'')))
                      | Some (Inr TickTimedOut) \<Rightarrow>
                          rewrite (record_handoff_observation_best_effort p checked_at None None
                            (''the authoritative restore superseded the final MRFT snapback after its handoff read exceeded the ''
                             @ tl_nat lib (f_op_timeout_secs timing) @ ''s operation timeout'') d)
                      | Some (Inr (TickCompleted (rb, q))) \<Rightarrow>
                          (let sq = sample_quality_from_driver q
                           in if \<not> is_ok (check_quality tag q allow) then
                                rewrite (record_handoff_observation_best_effort p checked_at (Some rb) (Some sq)
                                  (''the authoritative restore superseded the final MRFT snapback after its handoff read reported OPC quality ''
                                   @ quality_debug q) d)
                              else if actuation_matches (pm_target p) rb (pm_tolerance p) then
                                ((t1\<lparr>tr_confirmed_mv := Some mv\<rparr>,
                                  record_handoff_observation_best_effort p checked_at (Some rb) (Some sq)
                                    ''the authoritative restore adopted and confirmed the final MRFT snapback; no duplicate MV write was issued'' d),
                                 Ok (Some HandoffConfirmed))
                              else
                                rewrite (record_handoff_observation_best_effort p checked_at (Some rb) (Some sq)
                                  ''the authoritative restore superseded an unconfirmed final MRFT snapback and issued a replacement MV write'' d))))))"

definition restore_limit_reason :: "'x text_lib_scheme \<Rightarrow> effective_timing \<Rightarrow> string" where
  "restore_limit_reason lib timing =
     ''the restore did not complete within the '' @ tl_nat lib (f_restore_timeout_secs timing) @
     ''s [tuning].restore_timeout_secs limit''"

text \<open>What an answered MV write means: \<open>None\<close> when the restore goes on to the confirmation.\<close>

definition restore_write_outcome ::
  "'x text_lib_scheme \<Rightarrow> effective_timing \<Rightarrow> (run_error, unit tick_operation) result option \<Rightarrow> restore_mv_outcome option" where
  "restore_write_outcome lib timing r =
     (case r of
        None \<Rightarrow> Some (RmInterrupted (restore_limit_reason lib timing))
      | Some (Inl e) \<Rightarrow> Some (RmContinue (StepFailure (tl_error lib e)))
      | Some (Inr (TickCompleted _)) \<Rightarrow> None
      | Some (Inr TickCancelled) \<Rightarrow> Some (RmInterrupted ''a second Ctrl+C was received while restoring the MV'')
      | Some (Inr TickTimedOut) \<Rightarrow>
          Some (RmContinue (StepFailure (''MV restore write did not complete within '' @
            tl_nat lib (f_op_timeout_secs timing) @ ''s''))))"

fun confirm_restored_mv ::
  "report_lib \<Rightarrow> effective_timing \<Rightarrow> string \<Rightarrow> bool \<Rightarrow> instant \<Rightarrow> audit_policy \<Rightarrow> restore_round list
   \<Rightarrow> mv_tracker \<times> db \<Rightarrow> (mv_tracker \<times> db) \<times> restore_mv_outcome option" where
  "confirm_restored_mv lib timing tag allow deadline policy [] s = (s, None)"
| "confirm_restored_mv lib timing tag allow deadline policy (rd # rds) s =
     (let trigger = (case Option.bind (tr_pending (fst s)) (\<lambda>p. verification_trigger p (rd_trigger_now rd)) of
                       Some t \<Rightarrow> t | None \<Rightarrow> Scheduled);
          (acc, s', r) = verify_pending_mv_actuation (text_lib.truncate lib) timing tag allow (rd_now rd) (rd_reads rd) trigger
                           (RestoreLimit deadline) policy None s
      in case r of
           Inr None \<Rightarrow>
             if tr_pending (fst s') = None then (s', Some (RmContinue StepSucceeded))
             else confirm_restored_mv lib timing tag allow deadline policy rds s'
         | Inr (Some UserInterrupt) \<Rightarrow>
             (s', Some (RmInterrupted ''a second Ctrl+C was received while confirming the restored MV''))
         | Inr (Some reason) \<Rightarrow>
             if deadline \<le> rd_after rd then (s', Some (RmInterrupted (restore_limit_reason lib timing)))
             else (s', Some (RmContinue (StepFailure (''MV restore could not be confirmed: '' @ rl_reason lib reason))))
         | Inl e \<Rightarrow> (s', Some (RmContinue (StepFailure (''MV restore verification failed: '' @ tl_error lib e)))))"

text \<open>The state of a restore: the driver, the tracker, the database and the deadline.\<close>

record 'd restore_state =
  rv_driver :: 'd
  rv_tracker :: "mv_tracker option"
  rv_db :: db
  rv_deadline :: instant

text \<open>\<open>restore_mv_with_verification_with_timing_and_audit_policy\<close>, its second half (the authoritative
  write and its confirmation) first; the answer is \<open>None\<close> while the given
  rounds of the confirmation have not ended it.\<close>

definition rewrite_mv ::
  "'d put \<Rightarrow> report_lib \<Rightarrow> effective_timing \<Rightarrow> int \<Rightarrow> string \<Rightarrow> f32 \<Rightarrow> bool \<Rightarrow> audit_policy \<Rightarrow> restore_input
   \<Rightarrow> mv_tracker \<Rightarrow> 'd restore_state \<Rightarrow> 'd restore_state \<times> (run_error, restore_mv_outcome) result option" where
  "rewrite_mv put lib timing rid tag mv allow policy i t s =
     (let tol = mv_actuation_uncapped_tolerance mv (tr_previous_commanded_mv t) (tr_mv_span t);
          (d', w) = bounded_write put (ri_write i) tag mv (rv_driver s)
      in case restore_write_outcome lib timing w of
           Some x \<Rightarrow> (s\<lparr>rv_driver := d'\<rparr>, Some (Ok x))
         | None \<Rightarrow>
             (let s2 = supersede_pending_actuation_best_effort
                    ''the authoritative restore write replaced this pending relay command'' (t, rv_db s);
                  deadline = max (rv_deadline s) (ri_accepted i + secs MV_ACTUATION_CONFIRMATION_SECS);
                  (s3, r) = (if policy = AuditRequired
                    then record_restore_accepted_required rid mv (ri_accepted_utc i) (ri_accepted i) tol s2
                    else (record_restore_accepted_best_effort rid mv (ri_accepted_utc i) (ri_accepted i) tol s2, Ok ()));
                  back = (\<lambda>td. s\<lparr>rv_driver := d', rv_tracker := Some (fst td), rv_db := snd td, rv_deadline := deadline\<rparr>)
              in case r of
                   Inl e \<Rightarrow> (back s3, Some (Err e))
                 | Inr _ \<Rightarrow>
                     (let (s4, out) = confirm_restored_mv lib timing tag allow deadline policy (ri_rounds i) s3
                      in (back s4, map_option Ok out))))"

definition restore_mv_step ::
  "'d put \<Rightarrow> report_lib \<Rightarrow> effective_timing \<Rightarrow> int \<Rightarrow> string \<Rightarrow> f32 \<Rightarrow> bool \<Rightarrow> audit_policy \<Rightarrow> restore_input
   \<Rightarrow> 'd restore_state \<Rightarrow> 'd restore_state \<times> (run_error, restore_mv_outcome) result option" where
  "restore_mv_step put lib timing rid tag mv allow policy i s =
     (case rv_tracker s of
        None \<Rightarrow>
          (let (d', w) = bounded_write put (ri_write i) tag mv (rv_driver s)
           in (s\<lparr>rv_driver := d'\<rparr>,
               Some (Ok (case restore_write_outcome lib timing w of
                           Some x \<Rightarrow> x | None \<Rightarrow> RmContinue StepSucceeded))))
      | Some t0 \<Rightarrow>
          if tr_pending t0 = None \<and> (\<exists>c \<in> set_option (tr_confirmed_mv t0). fl_eq c mv)
          then (s, Some (Ok (RmContinue StepSucceeded)))
          else
            (let ((t1, db1), h) = try_confirm_final_snapback lib timing tag mv allow i (rv_deadline s) (t0, rv_db s);
                 s1 = s\<lparr>rv_tracker := Some t1, rv_db := db1\<rparr>
             in case h of
                  Inl e \<Rightarrow> (s1, Some (Err e))
                | Inr (Some HandoffConfirmed) \<Rightarrow> (s1, Some (Ok (RmContinue StepSucceeded)))
                | Inr (Some (HandoffInterrupted reason)) \<Rightarrow> (s1, Some (Ok (RmInterrupted reason)))
                | _ \<Rightarrow> rewrite_mv put lib timing rid tag mv allow policy i t1 s1))"

definition restore_mv_outcome_or_failed :: "'x text_lib_scheme \<Rightarrow> (run_error, restore_mv_outcome) result \<Rightarrow> restore_mv_outcome" where
  "restore_mv_outcome_or_failed lib r =
     (case r of Inr x \<Rightarrow> x | Inl e \<Rightarrow> RmContinue (StepFailure (tl_error lib e)))"

section \<open>Settling before the release to Auto\<close>

definition should_settle_before_auto_release ::
  "tune_request \<Rightarrow> loop_tags \<Rightarrow> dcs_template \<Rightarrow> initial_state \<Rightarrow> mutation_guard \<Rightarrow> bool" where
  "should_settle_before_auto_release q tags tmpl i g \<longleftrightarrow>
     q_driver q = OpcdaKind \<and> g_controller_mode tags \<noteq> None \<and> t_revert_mode tmpl \<and> mg_mode_written g \<and>
     is_mode_raw i = Some (t_mode_auto_value tmpl)"

text \<open>\<open>Duration::try_from_secs_f64\<close> rounds to the nearest nanosecond, ties to even.\<close>

definition try_from_secs_f64 :: "f64 \<Rightarrow> int option" where
  "try_from_secs_f64 x =
     (if is_finite x \<and> 0 \<le> val x \<and> val x < 2 ^ 64 then Some (rne (val x * of_int ns_per_sec)) else None)"

definition settling_duration :: "f64 option \<Rightarrow> int option" where
  "settling_duration period =
     Option.bind (option_filter (\<lambda>p. is_finite p \<and> fl_lt (Fin 0) p) period) (\<lambda>p.
       let seconds = fl_div B64 p (lit64 3000)
       in if \<not> is_finite seconds \<or> fl_le seconds (Fin 0) then None else try_from_secs_f64 seconds)"

record settle_state =
  se_time :: tick_time_source
  se_acc :: poll_timing
  se_index :: int
  se_samples :: "sample_row list"

text \<open>One pass: \<open>Inl\<close> ends the settling (well or with an error's text).\<close>

definition settle_pass ::
  "'x text_lib_scheme \<Rightarrow> effective_timing \<Rightarrow> loop_tags \<Rightarrow> bool \<Rightarrow> (string \<Rightarrow> f32 option) \<Rightarrow> timestamp \<Rightarrow> mrft_state \<Rightarrow> instant
   \<Rightarrow> settle_input \<Rightarrow> settle_state \<Rightarrow> settle_state \<times> ((string, unit) result + unit)" where
  "settle_pass lib timing tags allow parse utc_max st deadline i s =
     (let tick = st_tick i; pv_tag = g_process_variable tags; stop = (\<lambda>s e. (s, Inl (Err e)));
          persist = (\<lambda>t q s k. case ti_persist tick of
              Inl e \<Rightarrow> stop s (tl_error lib (EDb e))
            | Inr _ \<Rightarrow>
                k (s\<lparr>se_samples := se_samples s @ [\<lparr> sr_index = se_index s, sr_tick = t, sr_state = st, sr_quality = q \<rparr>],
                     se_acc := observe_tick_work (saturating_since (ti_done tick) (ti_started tick))
                       (observe_sample_persist (saturating_since (ti_persist_done tick) (ti_persist_started tick)) (se_acc s))\<rparr>))
      in if deadline \<le> st_now i then (s, Inl (Ok ()))
         else (case st_event i of
             SettleCtrlC \<Rightarrow> stop s ''Ctrl+C was received during post-MRFT Auto-release settling''
           | SettleDeadline \<Rightarrow>
               stop s (''the post-MRFT Auto-release settling interval exceeded the '' @
                 tl_nat lib (f_restore_timeout_secs timing) @ ''s [tuning].restore_timeout_secs limit'')
           | SettlePoll \<Rightarrow>
               if deadline \<le> ti_started tick then (s, Inl (Ok ()))
               else (case ti_read tick of
                   Inl e \<Rightarrow> stop s (tl_error lib e)
                 | Inr TickCancelled \<Rightarrow> stop s ''Ctrl+C was received while reading the settling PV''
                 | Inr TickTimedOut \<Rightarrow>
                     stop s (''[tuning].op_timeout_secs elapsed reading the settling PV tag '' @ [CHR 39] @ pv_tag @ [CHR 39])
                 | Inr (TickCompleted b) \<Rightarrow>
                     (let s1 = s\<lparr>se_acc := observe_pv_read (saturating_since (ti_read_done tick) (ti_read_started tick)) (se_acc s)\<rparr>
                      in case read_numeric_from_batch parse b pv_tag of
                           Inl e \<Rightarrow> stop s1 (tl_error lib e)
                         | Inr (pv, q) \<Rightarrow>
                             (let (src, n) = next_timestamp_at utc_max (ti_observed tick) (se_time s1); s2 = s1\<lparr>se_time := src\<rparr>
                              in case n of
                                   Inl e \<Rightarrow> stop s2 (tl_error lib e)
                                 | Inr now \<Rightarrow>
                                     (let (a, o1) = pt_observe now (se_acc s2); s3 = s2\<lparr>se_acc := a\<rparr>
                                      in case o1 of
                                           Inl e \<Rightarrow> stop s3 (tl_error lib e)
                                         | Inr _ \<Rightarrow>
                                             persist \<lparr> tk_time = now, tk_pv = pv \<rparr> (sample_quality_from_driver q) s3 (\<lambda>s4.
                                               case check_quality pv_tag q allow of
                                                 Inl e \<Rightarrow> stop s4 (tl_error lib e)
                                               | Inr _ \<Rightarrow>
                                                   if 2 ^ 63 \<le> se_index s4 + 1
                                                   then stop s4 ''settling sample tick index exceeded i64 range''
                                                   else (s4\<lparr>se_index := se_index s4 + 1\<rparr>, Inr ()))))))))"

fun settle_loop ::
  "'x text_lib_scheme \<Rightarrow> effective_timing \<Rightarrow> loop_tags \<Rightarrow> bool \<Rightarrow> (string \<Rightarrow> f32 option) \<Rightarrow> timestamp \<Rightarrow> mrft_state \<Rightarrow> instant
   \<Rightarrow> settle_input list \<Rightarrow> settle_state \<Rightarrow> settle_state \<times> (string, unit) result option" where
  "settle_loop lib timing tags allow parse utc_max st deadline [] s = (s, None)"
| "settle_loop lib timing tags allow parse utc_max st deadline (i # rest) s =
     (case settle_pass lib timing tags allow parse utc_max st deadline i s of
        (s', Inl r) \<Rightarrow> (s', Some r)
      | (s', Inr _) \<Rightarrow> settle_loop lib timing tags allow parse utc_max st deadline rest s')"

section \<open>The whole restore\<close>

datatype restore_attempt = AttemptConfirmed | AttemptIncomplete string

text \<open>A driver on which only the first \<open>n\<close> writes are still made: what an abandoned sequence of steps
  leaves behind.\<close>

definition cut_put :: "'d put \<Rightarrow> ('d \<times> nat) put" where
  "cut_put put tag w = (\<lambda>(d, n). case n of
     0 \<Rightarrow> ((d, 0), Ok write_success)
   | Suc m \<Rightarrow> (let (d', r) = put tag w d in ((d', m), r)))"

definition restore_after_mv_with_deadline ::
  "'x text_lib_scheme \<Rightarrow> effective_timing \<Rightarrow> 'd put \<Rightarrow> loop_tags \<Rightarrow> dcs_template \<Rightarrow> initial_state \<Rightarrow> mutation_guard
   \<Rightarrow> restore_step_outcome \<Rightarrow> restore_mode_policy \<Rightarrow> finish_race \<Rightarrow> 'd \<Rightarrow> 'd \<times> restore_attempt" where
  "restore_after_mv_with_deadline lib timing put tags tmpl i g mv policy race d =
     (let lib0 = text_lib.truncate lib;
          left = (\<lambda>n. fst (fst (restore_after_mv_with_policy lib0 (cut_put put) tags tmpl i g mv policy (d, n))))
      in case race of
           FinishSteps \<Rightarrow>
             (let (d', report) = restore_after_mv_with_policy lib0 put tags tmpl i g mv policy d
              in (d', if all_succeeded report then AttemptConfirmed
                      else AttemptIncomplete (case failure_summary report of
                             Some x \<Rightarrow> x | None \<Rightarrow> ''one or more restore steps failed'')))
         | FinishCtrlC n \<Rightarrow> (left n, AttemptIncomplete ''a second Ctrl+C was received while restoring the loop'')
         | FinishDeadline n \<Rightarrow> (left n, AttemptIncomplete (restore_limit_reason lib timing)))"

text \<open>Everything a restore is told about the run.\<close>

record restore_ctx =
  rx_run_id :: int
  rx_request :: tune_request
  rx_timing :: effective_timing
  rx_tags :: loop_tags
  rx_template :: dcs_template
  rx_initial :: initial_state
  rx_guard :: mutation_guard
  rx_allow :: bool
  rx_parse :: "string \<Rightarrow> f32 option"
  rx_utc_max :: timestamp
  rx_lib :: report_lib

text \<open>\<open>attempt_restore_with_actuation_with_timing_and_audit_policy\<close>.  The completion and the sampling
  statistics of a completed run go in and out; the samples recorded while settling come back with the
  answer, which is \<open>None\<close> while the given rounds have not ended the restore.\<close>

record 'd restore_end =
  re_state :: "'d restore_state"
  re_completion :: "completed_poll option"
  re_timing :: "poll_timing option"
  re_samples :: "sample_row list"
  re_attempt :: "restore_attempt option"

definition after_mv ::
  "'d put \<Rightarrow> restore_ctx \<Rightarrow> restore_step_outcome \<Rightarrow> restore_mode_policy \<Rightarrow> restore_input
   \<Rightarrow> 'd restore_state \<Rightarrow> 'd restore_state \<times> restore_attempt" where
  "after_mv put x mv policy i s =
     (let (d', a) = restore_after_mv_with_deadline (rx_lib x) (rx_timing x) put (rx_tags x) (rx_template x) (rx_initial x)
                      (rx_guard x) mv policy (ri_finish i) (rv_driver s)
      in (s\<lparr>rv_driver := d'\<rparr>, a))"

definition attempt_restore ::
  "'d put \<Rightarrow> restore_ctx \<Rightarrow> audit_policy \<Rightarrow> f64 option \<Rightarrow> restore_input \<Rightarrow> completed_poll option \<Rightarrow> poll_timing option
   \<Rightarrow> 'd \<Rightarrow> mv_tracker option \<Rightarrow> db \<Rightarrow> 'd restore_end" where
  "attempt_restore put x policy period i completion acc d tr db0 =
     (let lib = rx_lib x; tags = rx_tags x; init = rx_initial x;
          s0 = \<lparr> rv_driver = d, rv_tracker = tr, rv_db = db0,
                 rv_deadline = ri_start i + secs (f_restore_timeout_secs (rx_timing x)) \<rparr>;
          (s1, m) = restore_mv_step put lib (rx_timing x) (rx_run_id x) (g_manipulated_variable tags) (is_mv_ini init)
                      (rx_allow x) policy i s0;
          settle = should_settle_before_auto_release (rx_request x) tags (rx_template x) init (rx_guard x);
          fin = (\<lambda>(s, a). \<lparr> re_state = s, re_completion = completion, re_timing = acc, re_samples = [], re_attempt = Some a \<rparr>)
      in case m of
           None \<Rightarrow> \<lparr> re_state = s1, re_completion = completion, re_timing = acc, re_samples = [], re_attempt = None \<rparr>
         | Some r \<Rightarrow>
             (case restore_mv_outcome_or_failed lib r of
                RmInterrupted reason \<Rightarrow> fin (s1, AttemptIncomplete reason)
              | RmContinue mv \<Rightarrow>
                  (let mode_policy = (if settle \<and> mv \<noteq> StepSucceeded then KeepManual else ReleaseToInitial)
                   in case (if settle \<and> mv = StepSucceeded then settling_duration period else None) of
                        None \<Rightarrow> fin (after_mv put x mv mode_policy i s1)
                      | Some duration \<Rightarrow>
                          (case (completion, acc) of
                             (Some c, Some a) \<Rightarrow>
                               (let (e, r) = settle_loop lib (rx_timing x) tags (rx_allow x) (rx_parse x) (rx_utc_max x)
                                      (cp_state c) (ri_settle_start i + duration) (ri_settle i)
                                      \<lparr> se_time = cp_tick_time c, se_acc = a, se_index = cp_next_tick_index c, se_samples = [] \<rparr>;
                                    c' = c\<lparr>cp_tick_time := se_time e\<rparr>;
                                    over = (\<lambda>c' s a. \<lparr> re_state = s, re_completion = Some c', re_timing = Some (se_acc e),
                                              re_samples = se_samples e, re_attempt = a \<rparr>)
                                in case r of
                                     None \<Rightarrow> over c' s1 None
                                   | Some (Inr _) \<Rightarrow>
                                       (let (s2, at1) = after_mv put x mv mode_policy i s1
                                        in over (c'\<lparr>cp_next_tick_index := se_index e\<rparr>) s2 (Some at1))
                                   | Some (Inl error) \<Rightarrow>
                                       (let reason = ''post-MRFT Auto-release settling failed: '' @ error;
                                            (s2, at1) = after_mv put x mv KeepManual i s1
                                        in over c' s2 (Some (case at1 of
                                             AttemptConfirmed \<Rightarrow> AttemptIncomplete reason
                                           | AttemptIncomplete other \<Rightarrow> AttemptIncomplete (reason @ ''; '' @ other)))))
                           | _ \<Rightarrow> fin (after_mv put x mv ReleaseToInitial i s1)))))"

definition restore_incomplete_warning_message :: "report_lib \<Rightarrow> loop_tags \<Rightarrow> initial_state \<Rightarrow> string \<Rightarrow> string" where
  "restore_incomplete_warning_message lib tags i reason =
     ''WARNING: could not confirm the loop was fully restored ('' @ reason @ ''). Tag '' @ [CHR 39] @
     g_manipulated_variable tags @ [CHR 39] @
     '' may still be at its last relay-test value instead of its pre-test value '' @ rl_f32 lib (is_mv_ini i) @
     ''. Check it -- and the loop'' @ [CHR 39] @ ''s mode -- by hand.''"

section \<open>Recording\<close>

definition record_restore_status_best_effort :: "(string \<Rightarrow> bool) \<Rightarrow> int \<Rightarrow> restore_attempt \<Rightarrow> db \<Rightarrow> db" where
  "record_restore_status_best_effort jv rid a d =
     fst (case a of
            AttemptConfirmed \<Rightarrow> record_restore_status jv rid RestoreConfirmed None d
          | AttemptIncomplete reason \<Rightarrow> record_restore_status jv rid RestoreIncomplete (Some reason) d)"

text \<open>\<open>restore_best_effort_then_propagate_with_timing\<close>: the error comes back unchanged.\<close>

definition restore_best_effort_then_propagate ::
  "(string \<Rightarrow> bool) \<Rightarrow> 'd put \<Rightarrow> restore_ctx \<Rightarrow> restore_input \<Rightarrow> 'd \<Rightarrow> mv_tracker option \<Rightarrow> db \<Rightarrow> 'e
   \<Rightarrow> ('d restore_end \<times> db \<times> 'e) option" where
  "restore_best_effort_then_propagate jv put x i d tr db0 err =
     (let e = attempt_restore put x AuditBestEffort None i None None d tr db0
      in case re_attempt e of
           None \<Rightarrow> None
         | Some a \<Rightarrow>
             (let db1 = record_restore_status_best_effort jv (rx_run_id x) a (rv_db (re_state e));
                  db2 = fst (finalize_pending_for_run (rx_run_id x) Unverified
                          (Some ''the run failed before MV confirmation completed'') db1)
              in Some (e, db2, err)))"

end
