(* ===== verification/Restore_Safety.thy ===== *)
theory Restore_Safety
  imports Restore
begin

text \<open>
  What a restore guarantees: every step is attempted whatever the others did, a confirmed restore has
  put back what the run changed, and the confirmation of the MV ends.
\<close>

section \<open>The steps as optional writes\<close>

definition mode_write :: "loop_tags \<Rightarrow> dcs_template \<Rightarrow> initial_state \<Rightarrow> mutation_guard \<Rightarrow> (string \<times> tag_write) option" where
  "mode_write tags tmpl i g =
     (let raw = unwrap_or_default (is_mode_raw i)
      in if mg_mode_written g \<and> t_revert_mode tmpl \<and> raw \<noteq> t_mode_manual_value tmpl
         then map_option (\<lambda>tag. (tag, WRaw raw)) (g_controller_mode tags) else None)"

definition setpoint_write :: "loop_tags \<Rightarrow> dcs_template \<Rightarrow> initial_state \<Rightarrow> mutation_guard \<Rightarrow> (string \<times> tag_write) option" where
  "setpoint_write tags tmpl i g =
     (if mg_mode_written g \<and> t_revert_mode tmpl
      then Option.bind (g_setpoint_variable tags) (\<lambda>tag. map_option (\<lambda>v. (tag, WFloat v)) (is_setpoint_ini i))
      else None)"

definition attribute_write :: "loop_tags \<Rightarrow> dcs_template \<Rightarrow> initial_state \<Rightarrow> mutation_guard \<Rightarrow> (string \<times> tag_write) option" where
  "attribute_write tags tmpl i g =
     (let raw = unwrap_or_default (is_mode_attribute_raw i)
      in if mg_mode_attribute_written g \<and> raw \<noteq> unwrap_or_default (t_mode_attribute_program_value tmpl)
         then map_option (\<lambda>tag. (tag, WRaw raw)) (g_mode_attribute tags) else None)"

fun opts :: "'a option list \<Rightarrow> 'a list" where
  "opts [] = []"
| "opts (None # xs) = opts xs"
| "opts (Some x # xs) = x # opts xs"

definition restore_writes ::
  "loop_tags \<Rightarrow> dcs_template \<Rightarrow> initial_state \<Rightarrow> mutation_guard \<Rightarrow> restore_mode_policy \<Rightarrow> (string \<times> tag_write) list" where
  "restore_writes tags tmpl i g policy = opts
     [if policy = ReleaseToInitial then mode_write tags tmpl i g else None,
      setpoint_write tags tmpl i g, attribute_write tags tmpl i g]"

definition run_step :: "'x text_lib_scheme \<Rightarrow> 'd put \<Rightarrow> (string \<times> tag_write) option \<Rightarrow> 'd \<Rightarrow> 'd \<times> restore_step_outcome" where
  "run_step lib put w d = (case w of
     None \<Rightarrow> (d, StepNotNeeded)
   | Some (tag, v) \<Rightarrow> step_of lib (let (d', r) = put tag v d in (d', write_result tag r)))"

lemma steps_are_writes:
  "restore_mode_step lib put tags tmpl i g d = run_step lib put (mode_write tags tmpl i g) d"
  "restore_setpoint_step lib put tags tmpl i g d = run_step lib put (setpoint_write tags tmpl i g) d"
  "restore_mode_attribute_step lib put tags tmpl i g d = run_step lib put (attribute_write tags tmpl i g) d"
  by (auto simp: restore_mode_step_def restore_setpoint_step_def restore_mode_attribute_step_def run_step_def
      mode_write_def setpoint_write_def attribute_write_def restore_raw_step_def restore_value_step_def
      write_raw_def write_value_def Let_def split: option.splits)

text \<open>A driver that also keeps the list of the writes it was asked for.\<close>

definition logged :: "'d put \<Rightarrow> ('d \<times> (string \<times> tag_write) list) put" where
  "logged put tag w = (\<lambda>(d, l). let (d', r) = put tag w d in ((d', l @ [(tag, w)]), r))"

lemma run_step_logged:
  "snd (fst (run_step lib (logged put) w (d, l))) = l @ (case w of None \<Rightarrow> [] | Some x \<Rightarrow> [x])"
  by (auto simp: run_step_def logged_def step_of_def split: option.splits prod.splits)

lemma restore_logged:
  "snd (fst (restore_after_mv_with_policy lib (logged put) tags tmpl i g mv policy (d, l))) =
     l @ restore_writes tags tmpl i g policy"
proof -
  have step: "snd (fst (run_step lib (logged put) w s)) = snd s @ (case w of None \<Rightarrow> [] | Some x \<Rightarrow> [x])" for w s
    using run_step_logged[of lib put w "fst s" "snd s"] by simp
  show ?thesis
    by (cases policy; cases "mode_write tags tmpl i g"; cases "setpoint_write tags tmpl i g"; cases "attribute_write tags tmpl i g")
      (simp_all add: restore_after_mv_with_policy_def steps_are_writes split_beta Let_def step restore_writes_def)
qed

lemma run_step_ok:
  "run_step lib put w d = (d', r) \<Longrightarrow> \<not> step_failed r \<Longrightarrow>
   case w of None \<Rightarrow> d' = d | Some (tag, v) \<Rightarrow> \<exists>x. put tag v d = (d', Ok x) \<and> wo_success x"
  by (auto simp: run_step_def step_of_def write_result_def split: option.splits sum.splits prod.splits if_splits)

lemma failure_summary_iff: "failure_summary r = None \<longleftrightarrow> all_succeeded r"
  by (cases "rr_mv r"; cases "rr_mode r"; cases "rr_setpoint r"; cases "rr_mode_attribute r")
    (simp_all add: failure_summary_def all_succeeded_def Let_def List.map_filter_simps)

text \<open>A failed step never keeps a restore from its other steps: the writes it makes after the MV are
  those the run's own changes call for, in the order mode, setpoint, mode attribute, whatever the
  driver answers to each, and the report names a failure exactly when one of the steps failed.\<close>

theorem restore_attempts_every_step:
  "snd (fst (restore_after_mv_with_policy lib (logged put) tags tmpl i g mv policy (d, []))) =
     restore_writes tags tmpl i g policy \<and>
   (failure_summary r = None \<longleftrightarrow> all_succeeded r)"
  using restore_logged[of lib put tags tmpl i g mv policy d "[]"] failure_summary_iff by simp

section \<open>What a confirmed restore has restored\<close>

context tag_store
begin

lemma run_step_other:
  assumes "run_step lib put w d = (d', r)" "\<And>x. w = Some x \<Longrightarrow> fst x \<noteq> t"
  shows "holds d' t v = holds d t v"
  using assms untouched
  by (fastforce simp: run_step_def step_of_def split: option.splits prod.splits)

lemma run_step_holds:
  assumes "run_step lib put w d = (d', r)" "\<not> step_failed r" "w = Some (t, v)"
  shows "holds d' t v"
  using run_step_ok[OF assms(1,2)] assms(3) accepted by auto

lemma restored_holds:
  assumes "restore_after_mv_with_policy lib put tags tmpl i g mv policy d = (d', report)" "all_succeeded report"
    and "distinct (map fst (restore_writes tags tmpl i g policy))"
  shows "\<forall>(t, v) \<in> set (restore_writes tags tmpl i g policy). holds d' t v"
    "t \<notin> fst ` set (restore_writes tags tmpl i g policy) \<Longrightarrow> holds d' t v = holds d t v"
proof -
  let ?m = "if policy = ReleaseToInitial then mode_write tags tmpl i g else None"
    and ?s = "setpoint_write tags tmpl i g" and ?a = "attribute_write tags tmpl i g"
  obtain d1 r1 d2 r2 d3 r3 where
    1: "run_step lib put ?m d = (d1, r1)" and 2: "run_step lib put ?s d1 = (d2, r2)" and 3: "run_step lib put ?a d2 = (d3, r3)"
    by (metis surj_pair)
  have none: "run_step lib put None d = (d, StepNotNeeded)" by (simp add: run_step_def)
  have "restore_after_mv_with_policy lib put tags tmpl i g mv policy d =
      (d3, \<lparr> rr_mv = mv, rr_mode = r1, rr_setpoint = r2, rr_mode_attribute = r3 \<rparr>)"
    using 1 2 3 none by (cases policy) (simp_all add: restore_after_mv_with_policy_def steps_are_writes)
  then have d3: "d' = d3" and ok: "\<not> step_failed r1" "\<not> step_failed r2" "\<not> step_failed r3"
    using assms(1,2) by (auto simp: all_succeeded_def)
  have w: "restore_writes tags tmpl i g policy = opts [?m, ?s, ?a]" by (simp add: restore_writes_def)
  have dist: "fst x \<noteq> fst y" if "?m = Some x \<and> ?s = Some y \<or> ?m = Some x \<and> ?a = Some y \<or> ?s = Some x \<and> ?a = Some y" for x y
    using assms(3) that unfolding w by (cases ?m; cases ?s; cases ?a) (auto split: if_splits)
  have m: "holds d3 t v" if "?m = Some (t, v)" for t v
    using run_step_holds[OF 1 ok(1) that] run_step_other[OF 2] run_step_other[OF 3] dist that by (metis fst_conv)
  have s: "holds d3 t v" if "?s = Some (t, v)" for t v
    using run_step_holds[OF 2 ok(2) that] run_step_other[OF 3] dist that by (metis fst_conv)
  have a: "holds d3 t v" if "?a = Some (t, v)" for t v by (rule run_step_holds[OF 3 ok(3) that])
  show "\<forall>(t, v) \<in> set (restore_writes tags tmpl i g policy). holds d' t v"
  proof -
    have "?m = Some x \<or> ?s = Some x \<or> ?a = Some x" if "x \<in> set (opts [?m, ?s, ?a])" for x
      using that by (cases ?m; cases ?s; cases ?a) (auto split: if_splits)
    then show ?thesis unfolding w d3 using m s a by blast
  qed
  show "holds d' t v = holds d t v" if "t \<notin> fst ` set (restore_writes tags tmpl i g policy)"
  proof -
    have "?m = Some x \<Longrightarrow> fst x \<noteq> t" "?s = Some x \<Longrightarrow> fst x \<noteq> t" "?a = Some x \<Longrightarrow> fst x \<noteq> t" for x
      using that unfolding w by (cases ?m; cases ?s; cases ?a; auto split: if_splits)+
    then show ?thesis unfolding d3 using run_step_other[OF 1] run_step_other[OF 2] run_step_other[OF 3] by metis
  qed
qed

end

text \<open>The writes of a restore whose steps all succeeded, in order, each accepted.\<close>

fun accepted_writes :: "'d put \<Rightarrow> (string \<times> tag_write) list \<Rightarrow> 'd \<Rightarrow> 'd option" where
  "accepted_writes put [] d = Some d"
| "accepted_writes put ((tag, w) # ws) d =
     (case put tag w d of (d', Inr x) \<Rightarrow> if wo_success x then accepted_writes put ws d' else None | _ \<Rightarrow> None)"

context tag_store
begin

lemma accepted_other:
  "accepted_writes put ws d = Some d' \<Longrightarrow> t \<notin> fst ` set ws \<Longrightarrow> holds d' t v = holds d t v"
proof (induction ws arbitrary: d)
  case (Cons a ws)
  obtain tag w d1 x where a: "a = (tag, w)" "put tag w d = (d1, Ok x)" "accepted_writes put ws d1 = Some d'"
    using Cons.prems(1) by (cases a) (auto split: prod.splits sum.splits if_splits)
  then show ?case using Cons.IH[OF a(3)] Cons.prems(2) untouched[OF a(2)] by simp
qed simp

lemma accepted_holds:
  assumes "accepted_writes put ws d = Some d'" "distinct (map fst ws)"
  shows "list_all (\<lambda>(t, v). holds d' t v) ws"
  using assms
proof (induction ws arbitrary: d)
  case (Cons a ws)
  obtain tag w d1 x where a: "a = (tag, w)" "put tag w d = (d1, Ok x)" "wo_success x" "accepted_writes put ws d1 = Some d'"
    using Cons.prems(1) by (cases a) (auto split: prod.splits sum.splits if_splits)
  then show ?case using Cons accepted_other[OF a(4), of tag w] accepted[OF a(2,3)] by simp
qed simp

end

lemma run_step_accepted:
  "run_step lib put w d = (d', r) \<Longrightarrow> \<not> step_failed r \<Longrightarrow>
   accepted_writes put (opts (w # ws)) d = accepted_writes put (opts ws) d'"
  using run_step_ok[of lib put w d d' r] by (cases w) auto

lemma restore_accepted:
  assumes "restore_after_mv_with_policy lib put tags tmpl i g mv policy d = (d', report)" "all_succeeded report"
  shows "accepted_writes put (restore_writes tags tmpl i g policy) d = Some d'"
proof -
  let ?m = "if policy = ReleaseToInitial then mode_write tags tmpl i g else None"
  obtain d1 r1 d2 r2 d3 r3 where
    1: "run_step lib put ?m d = (d1, r1)" and 2: "run_step lib put (setpoint_write tags tmpl i g) d1 = (d2, r2)"
    and 3: "run_step lib put (attribute_write tags tmpl i g) d2 = (d3, r3)"
    by (metis surj_pair)
  have none: "run_step lib put None d = (d, StepNotNeeded)" by (simp add: run_step_def)
  have "restore_after_mv_with_policy lib put tags tmpl i g mv policy d =
      (d3, \<lparr> rr_mv = mv, rr_mode = r1, rr_setpoint = r2, rr_mode_attribute = r3 \<rparr>)"
    using 1 2 3 none by (cases policy) (simp_all add: restore_after_mv_with_policy_def steps_are_writes)
  then have d3: "d' = d3" and ok: "\<not> step_failed r1" "\<not> step_failed r2" "\<not> step_failed r3"
    using assms(1,2) by (auto simp: all_succeeded_def)
  show ?thesis
    unfolding restore_writes_def run_step_accepted[OF 1 ok(1)] run_step_accepted[OF 2 ok(2)] run_step_accepted[OF 3 ok(3)]
    by (simp add: d3)
qed

section \<open>Confirming the restored MV\<close>

lemma finalize_Ok_None:
  assumes "finalize_pending_mv_verification tag v trigger policy (t, d) = ((t', d'), Ok None)" "tr_pending t = Some p"
  shows "tr_pending t' = None \<and> tr_confirmed_mv t' = Some (pm_target p) \<or>
    trigger = Scheduled \<and> (\<exists>p'. tr_pending t' = Some p' \<and> pm_target p' = pm_target p \<and> pm_deadline p' = pm_deadline p)"
  using assms
  by (cases trigger) (auto simp: finalize_pending_mv_verification_def Let_def confirm_pending_mv_actuation_def bind_result_Ok_iff
      split: if_splits option.splits sum.splits prod.splits)

lemma verify_Ok_None:
  assumes "verify_pending_mv_actuation lib timing tag allow now reads trigger cap policy acc (t, d) = (acc', (t', d'), Ok None)"
    and "tr_pending t = Some p"
  shows "tr_pending t' = None \<and> tr_confirmed_mv t' = Some (pm_target p) \<or>
    trigger = Scheduled \<and> (\<exists>p'. tr_pending t' = Some p' \<and> pm_target p' = pm_target p \<and> pm_deadline p' = pm_deadline p)"
proof (cases "trigger = Scheduled \<and> now < pm_first_check_at p")
  case True
  then show ?thesis using assms by (auto simp: verify_pending_mv_actuation_def)
next
  case False
  obtain t1 r1 where read: "read_pending_mv_verification reads 0 trigger cap t = (t1, r1)" by fastforce
  have run: "(acc', (t', d'), Ok None) = (let s1 = (t1, d) in case r1 of
                  Inl e \<Rightarrow> (acc, s1, Err e)
                | Inr (DeadlineTimedOut p ts checked) \<Rightarrow>
                    (acc, close_pending ts (pm_last_readback p) None Unverified
                       ''the fresh MV read at the confirmation deadline did not finish within its bounded verification window'' p s1,
                     Ok (Some (actuation_abort_reason tag p (pm_last_readback p) checked)))
                | Inr (RestoreTimedOut p ts checked) \<Rightarrow>
                    (acc, close_pending ts (pm_last_readback p) None Unverified
                       ''the restore timeout elapsed before MV confirmation completed'' p s1,
                     Ok (Some (actuation_abort_reason tag p (pm_last_readback p) checked)))
                | Inr (ReadReady answer ts checked duration) \<Rightarrow>
                    (case resolve_pending_mv_read lib timing tag answer ts checked allow s1 of
                       (s2, Inl e) \<Rightarrow> (acc, s2, Err e)
                     | (s2, Inr (MvAbort reason)) \<Rightarrow> (acc, s2, Ok (Some reason))
                     | (s2, Inr (MvValue v)) \<Rightarrow>
                         (map_option (observe_mv_verification duration) acc,
                          finalize_pending_mv_verification tag v trigger policy s2)))"
    using assms False by (simp add: verify_pending_mv_actuation_def read Let_def split: if_splits)
  then obtain answer ts checked dur where r1: "r1 = Ok (ReadReady answer ts checked dur)"
    by (auto simp: Let_def split: sum.splits pending_read.splits)
  then have t1: "t1 = t" using read_leaves[OF assms(2) read] by auto
  obtain s2 r2 where res: "resolve_pending_mv_read lib timing tag answer ts checked allow (t, d) = (s2, r2)" by fastforce
  obtain v where v: "r2 = Ok (MvValue v)" "finalize_pending_mv_verification tag v trigger policy s2 = ((t', d'), Ok None)"
    using run by (auto simp: r1 t1 res Let_def split: sum.splits mv_result.splits)
  moreover have "s2 = (t, d)" using res v(1)
    by (auto simp: resolve_pending_mv_read_def split: sum.splits tick_operation.splits option.splits prod.splits if_splits)
  ultimately show ?thesis using finalize_Ok_None assms(2) by blast
qed

lemma confirm_success:
  "confirm_restored_mv lib timing tag allow deadline policy rds (t, d) = (s', Some (RmContinue x)) \<Longrightarrow>
   \<not> step_failed x \<Longrightarrow> tr_pending t = Some p \<Longrightarrow> x = StepSucceeded \<and> tr_pending (fst s') = None \<and> tr_confirmed_mv (fst s') = Some (pm_target p)"
proof (induction rds arbitrary: t d p)
  case (Cons rd rds)
  obtain trigger where trig: "trigger = (case Option.bind (tr_pending t) (\<lambda>p. verification_trigger p (rd_trigger_now rd)) of
                       Some t \<Rightarrow> t | None \<Rightarrow> Scheduled)" by blast
  obtain acc t1 d1 r where v: "verify_pending_mv_actuation (text_lib.truncate lib) timing tag allow (rd_now rd) (rd_reads rd) trigger
                           (RestoreLimit deadline) policy None (t, d) = (acc, (t1, d1), r)" by (metis surj_pair)
  have r: "r = Ok None" using Cons.prems(1,2) v trig
    by (auto simp: Let_def split: sum.splits option.splits abort_reason.splits if_splits)
  have k: "tr_pending t1 = None \<and> tr_confirmed_mv t1 = Some (pm_target p) \<or>
    (\<exists>p'. tr_pending t1 = Some p' \<and> pm_target p' = pm_target p \<and> pm_deadline p' = pm_deadline p)"
    using verify_Ok_None[OF v[unfolded r] Cons.prems(3)] by blast
  show ?case
  proof (cases "tr_pending t1")
    case None
    then have "s' = (t1, d1)" "x = StepSucceeded" using Cons.prems(1) v trig r by auto
    then show ?thesis using k None by simp
  next
    case (Some p')
    then have "confirm_restored_mv lib timing tag allow deadline policy rds (t1, d1) = (s', Some (RmContinue x))"
      using Cons.prems(1) v trig r by simp
    from Cons.IH[OF this Cons.prems(2) Some] k Some show ?thesis by auto
  qed
qed simp

lemma confirm_ends:
  "tr_pending t = Some p \<Longrightarrow> rd \<in> set rds \<Longrightarrow> pm_deadline p \<le> rd_trigger_now rd \<Longrightarrow>
   snd (confirm_restored_mv lib timing tag allow deadline policy rds (t, d)) \<noteq> None"
proof (induction rds arbitrary: t d p)
  case (Cons rd' rds)
  obtain trigger where trig: "trigger = (case Option.bind (tr_pending t) (\<lambda>p. verification_trigger p (rd_trigger_now rd')) of
                       Some t \<Rightarrow> t | None \<Rightarrow> Scheduled)" by blast
  obtain acc t1 d1 r where v: "verify_pending_mv_actuation (text_lib.truncate lib) timing tag allow (rd_now rd') (rd_reads rd') trigger
                           (RestoreLimit deadline) policy None (t, d) = (acc, (t1, d1), r)" by (metis surj_pair)
  show ?case
  proof (cases "r = Ok None \<and> tr_pending t1 \<noteq> None")
    case False
    then show ?thesis using v trig by (auto simp: Let_def split: sum.splits option.splits abort_reason.splits)
  next
    case True
    then have "r = Ok None" by simp
    from verify_Ok_None[OF v[unfolded this] Cons.prems(1)] True obtain p' where
      p': "trigger = Scheduled" "tr_pending t1 = Some p'" "pm_deadline p' = pm_deadline p" by auto
    have "rd \<noteq> rd'" using p'(1) trig Cons.prems(1,3) by (auto simp: verification_trigger_def)
    then have "rd \<in> set rds" using Cons.prems(2) by simp
    from Cons.IH[OF p'(2) this] Cons.prems(3) p'(3) have
      "snd (confirm_restored_mv lib timing tag allow deadline policy rds (t1, d1)) \<noteq> None" by simp
    then show ?thesis using v trig True by (simp add: Let_def)
  qed
qed simp

definition mv_confirmed :: "f32 \<Rightarrow> mv_tracker \<Rightarrow> bool" where
  "mv_confirmed mv t \<longleftrightarrow> tr_pending t = None \<and> (\<exists>c. tr_confirmed_mv t = Some c \<and> fl_eq c mv)"

lemma handoff_confirmed:
  assumes "try_confirm_final_snapback lib timing tag mv allow i deadline (t, d) = ((t1, d1), Ok (Some HandoffConfirmed))" "fl_eq mv mv"
  shows "mv_confirmed mv t1"
  using assms
  by (auto simp: try_confirm_final_snapback_def Let_def mv_confirmed_def
      split: option.splits if_splits sum.splits tick_operation.splits prod.splits)

lemma restore_pending_target: "pm_target (restore_pending mv a b tol) = mv"
  by (simp add: restore_pending_def)

lemma accepted_pending:
  "\<exists>p. tr_pending (fst (record_restore_accepted_best_effort rid mv a b tol td)) = Some p \<and> pm_target p = mv \<and>
     pm_deadline p = b + secs MV_ACTUATION_CONFIRMATION_SECS"
  "record_restore_accepted_required rid mv a b tol td = (td', Ok ()) \<Longrightarrow>
     \<exists>p. tr_pending (fst td') = Some p \<and> pm_target p = mv \<and> pm_deadline p = b + secs MV_ACTUATION_CONFIRMATION_SECS"
  by (auto simp: record_restore_accepted_best_effort_def record_restore_accepted_required_def accept_pending_def Let_def
      restore_pending_def split: prod.splits sum.splits)

lemma write_not_success: "restore_write_outcome lib timing w = Some (RmContinue x) \<Longrightarrow> step_failed x"
  by (auto simp: restore_write_outcome_def split: option.splits sum.splits tick_operation.splits)

lemma bounded_written:
  assumes "bounded_write put e tag v d = (d', w)" "restore_write_outcome lib timing w = None"
  shows "write_value put tag v d = (d', Ok ())"
proof -
  from assms(2) obtain u where "w = Some (Ok (TickCompleted u))"
    by (auto simp: restore_write_outcome_def split: option.splits sum.splits tick_operation.splits)
  then show ?thesis using assms(1)
    by (cases "snd (write_value put tag v d)") (auto simp: bounded_write_def Let_def split: prod.splits call_end.splits)
qed

lemma rewrite_mv_run:
  obtains d' w deadline tol s2 s3 r s4 out where
    "bounded_write put (ri_write i) tag mv (rv_driver s) = (d', w)"
    "(if policy = AuditRequired
      then record_restore_accepted_required rid mv (ri_accepted_utc i) (ri_accepted i) tol s2
      else (record_restore_accepted_best_effort rid mv (ri_accepted_utc i) (ri_accepted i) tol s2, Ok ())) = (s3, r)"
    "confirm_restored_mv lib timing tag allow deadline policy (ri_rounds i) s3 = (s4, out)"
    "rewrite_mv put lib timing rid tag mv allow policy i t s =
      (case restore_write_outcome lib timing w of
         Some x \<Rightarrow> (s\<lparr>rv_driver := d'\<rparr>, Some (Ok x))
       | None \<Rightarrow> (case r of
             Inl e \<Rightarrow> (s\<lparr>rv_driver := d', rv_tracker := Some (fst s3), rv_db := snd s3, rv_deadline := deadline\<rparr>, Some (Err e))
           | Inr _ \<Rightarrow> (s\<lparr>rv_driver := d', rv_tracker := Some (fst s4), rv_db := snd s4, rv_deadline := deadline\<rparr>, map_option Ok out)))"
proof -
  obtain tol where tol: "tol = mv_actuation_uncapped_tolerance mv (tr_previous_commanded_mv t) (tr_mv_span t)" by blast
  obtain d' w where bw: "bounded_write put (ri_write i) tag mv (rv_driver s) = (d', w)" by fastforce
  obtain s2 where s2: "s2 = supersede_pending_actuation_best_effort
                                 ''the authoritative restore write replaced this pending relay command'' (t, rv_db s)" by blast
  obtain deadline where dl: "deadline = max (rv_deadline s) (ri_accepted i + secs MV_ACTUATION_CONFIRMATION_SECS)" by blast
  obtain s3 r where acc: "(if policy = AuditRequired
        then record_restore_accepted_required rid mv (ri_accepted_utc i) (ri_accepted i) tol s2
        else (record_restore_accepted_best_effort rid mv (ri_accepted_utc i) (ri_accepted i) tol s2, Ok ())) = (s3, r)" by fastforce
  obtain s4 out where conf: "confirm_restored_mv lib timing tag allow deadline policy (ri_rounds i) s3 = (s4, out)" by fastforce
  show ?thesis
    by (rule that[OF bw acc conf])
      (unfold rewrite_mv_def Let_def bw prod.case s2[symmetric] dl[symmetric] tol[symmetric] acc conf, rule refl)
qed

lemma rewrite_mv_confirmed:
  assumes "rewrite_mv put lib timing rid tag mv allow policy i t s = (s', Some (Ok (RmContinue x)))" "\<not> step_failed x" "fl_eq mv mv"
  shows "x = StepSucceeded \<and> write_value put tag mv (rv_driver s) = (rv_driver s', Ok ()) \<and>
    (\<exists>t'. rv_tracker s' = Some t' \<and> mv_confirmed mv t')"
proof (rule rewrite_mv_run[of put i tag mv s policy rid lib timing allow t])
  fix d' w deadline tol s2 s3 r s4 out
  assume bw: "bounded_write put (ri_write i) tag mv (rv_driver s) = (d', w)"
  assume acc: "(if policy = AuditRequired
      then record_restore_accepted_required rid mv (ri_accepted_utc i) (ri_accepted i) tol s2
      else (record_restore_accepted_best_effort rid mv (ri_accepted_utc i) (ri_accepted i) tol s2, Ok ())) = (s3, r)"
    and conf: "confirm_restored_mv lib timing tag allow deadline policy (ri_rounds i) s3 = (s4, out)"
    and run: "rewrite_mv put lib timing rid tag mv allow policy i t s =
      (case restore_write_outcome lib timing w of
         Some x \<Rightarrow> (s\<lparr>rv_driver := d'\<rparr>, Some (Ok x))
       | None \<Rightarrow> (case r of
             Inl e \<Rightarrow> (s\<lparr>rv_driver := d', rv_tracker := Some (fst s3), rv_db := snd s3, rv_deadline := deadline\<rparr>, Some (Err e))
           | Inr _ \<Rightarrow> (s\<lparr>rv_driver := d', rv_tracker := Some (fst s4), rv_db := snd s4, rv_deadline := deadline\<rparr>, map_option Ok out)))"
  then have o1: "r = Ok ()" "out = Some (RmContinue x)" "rv_tracker s' = Some (fst s4)" "restore_write_outcome lib timing w = None"
    "rv_driver s' = d'"
    using write_not_success[of lib timing w] assms(1,2) by (cases out; auto split: sum.splits option.splits)+
  obtain p where p: "tr_pending (fst s3) = Some p" "pm_target p = mv"
    using acc accepted_pending[of rid mv "ri_accepted_utc i" "ri_accepted i" tol s2] o1(1) by (auto split: if_splits)
  have "x = StepSucceeded \<and> tr_pending (fst s4) = None \<and> tr_confirmed_mv (fst s4) = Some mv"
    using confirm_success[of lib timing tag allow deadline policy "ri_rounds i" "fst s3" "snd s3" s4 x p] conf o1(2) p assms(2) by simp
  then show ?thesis using o1(3,5) assms(3) bounded_written[OF bw o1(4)] by (auto simp: mv_confirmed_def)
qed

lemma restore_mv_live:
  assumes "restore_mv_step put lib timing rid tag mv allow policy i s = (s', Some (Ok (RmContinue x)))"
    and "rv_tracker s = Some t" "\<not> step_failed x" "fl_eq mv mv"
  shows "x = StepSucceeded \<and> (\<exists>t'. rv_tracker s' = Some t' \<and> mv_confirmed mv t') \<and>
    (rv_driver s' = rv_driver s \<or> write_value put tag mv (rv_driver s) = (rv_driver s', Ok ()))"
proof (cases "tr_pending t = None \<and> (\<exists>c \<in> set_option (tr_confirmed_mv t). fl_eq c mv)")
  case True
  then show ?thesis using assms(1,2) by (auto simp: restore_mv_step_def mv_confirmed_def)
next
  case False
  obtain t1 db1 h where ho: "try_confirm_final_snapback lib timing tag mv allow i (rv_deadline s) (t, rv_db s) = ((t1, db1), h)"
    by (metis surj_pair)
  have run: "(let s1 = s\<lparr>rv_tracker := Some t1, rv_db := db1\<rparr> in case h of
                  Inl e \<Rightarrow> (s1, Some (Err e))
                | Inr (Some HandoffConfirmed) \<Rightarrow> (s1, Some (Ok (RmContinue StepSucceeded)))
                | Inr (Some (HandoffInterrupted reason)) \<Rightarrow> (s1, Some (Ok (RmInterrupted reason)))
                | _ \<Rightarrow> rewrite_mv put lib timing rid tag mv allow policy i t1 s1) = (s', Some (Ok (RmContinue x)))"
    using assms(1) unfolding restore_mv_step_def assms(2) option.case if_not_P[OF False] ho Let_def prod.case .
  show ?thesis
  proof (cases "h = Ok (Some HandoffConfirmed)")
    case True
    then show ?thesis using run handoff_confirmed[OF ho[unfolded True] assms(4)] by auto
  next
    case False
    then have "rewrite_mv put lib timing rid tag mv allow policy i t1 (s\<lparr>rv_tracker := Some t1, rv_db := db1\<rparr>) =
        (s', Some (Ok (RmContinue x)))"
      using run by (auto simp: Let_def split: sum.splits option.splits restore_handoff_outcome.splits)
    then show ?thesis using rewrite_mv_confirmed[OF _ assms(3,4)] by fastforce
  qed
qed

lemma restore_mv_simulated:
  assumes "restore_mv_step put lib timing rid tag mv allow policy i s = (s', Some (Ok (RmContinue x)))"
    and "rv_tracker s = None" "\<not> step_failed x"
  shows "x = StepSucceeded \<and> rv_tracker s' = None \<and> write_value put tag mv (rv_driver s) = (rv_driver s', Ok ())"
proof -
  obtain d' w where bw: "bounded_write put (ri_write i) tag mv (rv_driver s) = (d', w)" by fastforce
  then have "s' = s\<lparr>rv_driver := d'\<rparr>" "x = StepSucceeded" "restore_write_outcome lib timing w = None"
    using assms write_not_success[of lib timing w]
    by (auto simp: restore_mv_step_def split: option.splits)
  then show ?thesis using bounded_written[OF bw] assms(2) by simp
qed

lemma attempt_confirmed:
  assumes "re_attempt (attempt_restore put x policy period i completion acc d tr db0) = Some AttemptConfirmed"
    and "fl_eq (is_mv_ini (rx_initial x)) (is_mv_ini (rx_initial x))"
  defines "e \<equiv> attempt_restore put x policy period i completion acc d tr db0"
  shows "\<exists>d1 report. restore_after_mv_with_policy (text_lib.truncate (rx_lib x)) put (rx_tags x) (rx_template x) (rx_initial x)
      (rx_guard x) StepSucceeded ReleaseToInitial d1 = (rv_driver (re_state e), report) \<and> all_succeeded report \<and>
    (case tr of
       None \<Rightarrow> write_value put (g_manipulated_variable (rx_tags x)) (is_mv_ini (rx_initial x)) d = (d1, Ok ())
     | Some _ \<Rightarrow> (\<exists>t'. rv_tracker (re_state e) = Some t' \<and> mv_confirmed (is_mv_ini (rx_initial x)) t') \<and>
         (d1 = d \<or> write_value put (g_manipulated_variable (rx_tags x)) (is_mv_ini (rx_initial x)) d = (d1, Ok ())))"
proof -
  let ?lib = "rx_lib x" and ?tags = "rx_tags x" and ?init = "rx_initial x"
  let ?s0 = "\<lparr> rv_driver = d, rv_tracker = tr, rv_db = db0, rv_deadline = ri_start i + secs (f_restore_timeout_secs (rx_timing x)) \<rparr>"
  obtain s1 m where mv: "restore_mv_step put ?lib (rx_timing x) (rx_run_id x) (g_manipulated_variable ?tags) (is_mv_ini ?init)
                      (rx_allow x) policy i ?s0 = (s1, m)" by fastforce
  have after: "all_succeeded report" "report = snd (restore_after_mv_with_policy (text_lib.truncate ?lib) put ?tags (rx_template x) ?init (rx_guard x) y pol (rv_driver s))"
      "rv_driver s' = fst (restore_after_mv_with_policy (text_lib.truncate ?lib) put ?tags (rx_template x) ?init (rx_guard x) y pol (rv_driver s))"
      "rv_tracker s' = rv_tracker s"
    if "after_mv put x y pol i s = (s', AttemptConfirmed)" "report = snd (restore_after_mv_with_policy (text_lib.truncate ?lib) put ?tags (rx_template x) ?init (rx_guard x) y pol (rv_driver s))"
    for y pol s s' report
    using that by (auto simp: after_mv_def restore_after_mv_with_deadline_def Let_def split: finish_race.splits prod.splits if_splits)
  obtain r where m: "m = Some r" using assms(1) unfolding attempt_restore_def Let_def mv prod.case by (cases m) simp_all
  obtain y where y: "restore_mv_outcome_or_failed ?lib r = RmContinue y"
    using assms(1) unfolding attempt_restore_def Let_def mv prod.case m option.case
    by (cases "restore_mv_outcome_or_failed ?lib r") simp_all
  obtain settle where settle: "settle = should_settle_before_auto_release (rx_request x) ?tags (rx_template x) ?init (rx_guard x)" by blast
  have am: "\<exists>s' a. after_mv put x y pol i s1 = (s', a)" for pol by fastforce
  have "\<exists>s' pol. after_mv put x y pol i s1 = (s', AttemptConfirmed) \<and> re_state e = s' \<and> (y = StepSucceeded \<longrightarrow> pol = ReleaseToInitial)"
  proof (cases "if settle \<and> y = StepSucceeded then settling_duration period else None")
    case None
    obtain pol where pol: "pol = (if settle \<and> y \<noteq> StepSucceeded then KeepManual else ReleaseToInitial)" by blast
    obtain s' a where a: "after_mv put x y pol i s1 = (s', a)" using am by blast
    have "e = \<lparr> re_state = s', re_completion = completion, re_timing = acc, re_samples = [], re_attempt = Some a \<rparr>"
      unfolding e_def attempt_restore_def Let_def mv prod.case m option.case y restore_mv_outcome.case settle[symmetric] None
        pol[symmetric] a ..
    then show ?thesis using a pol assms(1) unfolding e_def[symmetric] by auto
  next
    case (Some duration)
    then have ys: "y = StepSucceeded" "settle" by (auto split: if_splits)
    show ?thesis
    proof (cases "completion = None \<or> acc = None")
      case True
      obtain s' a where a: "after_mv put x y ReleaseToInitial i s1 = (s', a)" using am by blast
      have "e = \<lparr> re_state = s', re_completion = completion, re_timing = acc, re_samples = [], re_attempt = Some a \<rparr>"
        using True unfolding e_def attempt_restore_def Let_def mv prod.case m option.case y restore_mv_outcome.case settle[symmetric] Some
        by (cases completion; cases acc) (simp_all add: a)
      then show ?thesis using a assms(1) unfolding e_def[symmetric] by auto
    next
      case False
      then obtain c p where cp: "completion = Some c" "acc = Some p" by auto
      obtain e1 r1 where sl: "settle_loop ?lib (rx_timing x) ?tags (rx_allow x) (rx_parse x) (rx_utc_max x)
            (cp_state c) (ri_settle_start i + duration) (ri_settle i)
            \<lparr> se_time = cp_tick_time c, se_acc = p, se_index = cp_next_tick_index c, se_samples = [] \<rparr> = (e1, r1)" by fastforce
      have eq: "e = (case r1 of
          None \<Rightarrow> \<lparr> re_state = s1, re_completion = Some (c\<lparr>cp_tick_time := se_time e1\<rparr>), re_timing = Some (se_acc e1), re_samples = se_samples e1, re_attempt = None \<rparr>
        | Some (Inr _) \<Rightarrow> (let (s2, at1) = after_mv put x y ReleaseToInitial i s1 in
            \<lparr> re_state = s2, re_completion = Some (c\<lparr>cp_tick_time := se_time e1, cp_next_tick_index := se_index e1\<rparr>), re_timing = Some (se_acc e1), re_samples = se_samples e1, re_attempt = Some at1 \<rparr>)
        | Some (Inl error) \<Rightarrow> (let (s2, at1) = after_mv put x y KeepManual i s1 in
            \<lparr> re_state = s2, re_completion = Some (c\<lparr>cp_tick_time := se_time e1\<rparr>), re_timing = Some (se_acc e1), re_samples = se_samples e1,
              re_attempt = Some (case at1 of
                 AttemptConfirmed \<Rightarrow> AttemptIncomplete (''post-MRFT Auto-release settling failed: '' @ error)
               | AttemptIncomplete other \<Rightarrow> AttemptIncomplete ((''post-MRFT Auto-release settling failed: '' @ error) @ ''; '' @ other)) \<rparr>))"
        unfolding e_def attempt_restore_def Let_def mv prod.case m option.case y restore_mv_outcome.case settle[symmetric] Some cp sl
        using ys by (auto split: option.splits sum.splits)
      obtain s' a where a: "after_mv put x y ReleaseToInitial i s1 = (s', a)" using am by blast
      have "re_attempt e = Some AttemptConfirmed" using assms(1) by (simp add: e_def)
      then show ?thesis using a ys unfolding eq
        by (auto split: option.splits sum.splits prod.splits restore_attempt.splits)
    qed
  qed
  then obtain s' pol where fin: "after_mv put x y pol i s1 = (s', AttemptConfirmed)" "re_state e = s'"
      "y = StepSucceeded \<Longrightarrow> pol = ReleaseToInitial" by blast
  obtain d' report where rep: "restore_after_mv_with_policy (text_lib.truncate ?lib) put ?tags (rx_template x) ?init (rx_guard x) y pol (rv_driver s1) = (d', report)"
    by fastforce
  have F: "all_succeeded report" "rv_driver s' = d'" "rv_tracker s' = rv_tracker s1" using after[OF fin(1)] rep by auto
  have "rr_mv report = y" using rep by (auto simp: restore_after_mv_with_policy_def Let_def split: prod.splits)
  then have nf: "\<not> step_failed y" using F(1) by (auto simp: all_succeeded_def)
  have ry: "r = Ok (RmContinue y)" using y nf by (auto simp: restore_mv_outcome_or_failed_def split: sum.splits)
  have goal: ?thesis if ys: "y = StepSucceeded" and "case tr of
       None \<Rightarrow> write_value put (g_manipulated_variable (rx_tags x)) (is_mv_ini (rx_initial x)) d = (rv_driver s1, Ok ())
     | Some _ \<Rightarrow> (\<exists>t'. rv_tracker (re_state e) = Some t' \<and> mv_confirmed (is_mv_ini (rx_initial x)) t') \<and>
         (rv_driver s1 = d \<or> write_value put (g_manipulated_variable (rx_tags x)) (is_mv_ini (rx_initial x)) d = (rv_driver s1, Ok ()))"
  proof -
    have "restore_after_mv_with_policy (text_lib.truncate ?lib) put ?tags (rx_template x) ?init (rx_guard x) StepSucceeded ReleaseToInitial
        (rv_driver s1) = (rv_driver (re_state e), report)"
      using rep F(2) fin(2) fin(3)[OF ys] ys by simp
    then show ?thesis using F(1) that(2) by blast
  qed
  show ?thesis
  proof (cases tr)
    case None
    then show ?thesis using restore_mv_simulated[OF mv[unfolded m ry]] nf by (intro goal) simp_all
  next
    case (Some t)
    then show ?thesis using restore_mv_live[OF mv[unfolded m ry] _ nf assms(2)] F(3) fin(2) by (intro goal) simp_all
  qed
qed

section \<open>What a restore guarantees\<close>

lemma restored_and_confirmed:
  assumes "tag_store put holds"
    and "re_attempt (attempt_restore put x policy period i completion acc d tr db0) = Some AttemptConfirmed"
    and "fl_eq (is_mv_ini (rx_initial x)) (is_mv_ini (rx_initial x))"
    and "distinct (g_manipulated_variable (rx_tags x) #
      map fst (restore_writes (rx_tags x) (rx_template x) (rx_initial x) (rx_guard x) ReleaseToInitial))"
  shows "list_all (\<lambda>(t, v). holds (rv_driver (re_state (attempt_restore put x policy period i completion acc d tr db0))) t v)
      (restore_writes (rx_tags x) (rx_template x) (rx_initial x) (rx_guard x) ReleaseToInitial) \<and>
    (case tr of
       None \<Rightarrow> holds (rv_driver (re_state (attempt_restore put x policy period i completion acc d tr db0)))
         (g_manipulated_variable (rx_tags x)) (WFloat (is_mv_ini (rx_initial x)))
     | Some _ \<Rightarrow> (case rv_tracker (re_state (attempt_restore put x policy period i completion acc d tr db0)) of
         None \<Rightarrow> False | Some t' \<Rightarrow> mv_confirmed (is_mv_ini (rx_initial x)) t'))"
proof -
  note R = tag_store.restored_holds[OF assms(1)]
  let ?e = "attempt_restore put x policy period i completion acc d tr db0" and ?tags = "rx_tags x"
    and ?w = "restore_writes (rx_tags x) (rx_template x) (rx_initial x) (rx_guard x) ReleaseToInitial"
  obtain d1 report where a: "restore_after_mv_with_policy (text_lib.truncate (rx_lib x)) put ?tags (rx_template x) (rx_initial x)
      (rx_guard x) StepSucceeded ReleaseToInitial d1 = (rv_driver (re_state ?e), report)" "all_succeeded report"
    and mv: "case tr of
       None \<Rightarrow> write_value put (g_manipulated_variable ?tags) (is_mv_ini (rx_initial x)) d = (d1, Ok ())
     | Some _ \<Rightarrow> (\<exists>t'. rv_tracker (re_state ?e) = Some t' \<and> mv_confirmed (is_mv_ini (rx_initial x)) t') \<and>
         (d1 = d \<or> write_value put (g_manipulated_variable ?tags) (is_mv_ini (rx_initial x)) d = (d1, Ok ()))"
    using attempt_confirmed[OF assms(2,3)] by blast
  have dist: "distinct (map fst ?w)" "g_manipulated_variable ?tags \<notin> fst ` set ?w" using assms(4) by simp_all
  have rest: "list_all (\<lambda>(t, v). holds (rv_driver (re_state ?e)) t v) ?w"
    using R(1)[OF a dist(1)] by (simp add: list_all_iff)
  have "holds d1 (g_manipulated_variable ?tags) (WFloat (is_mv_ini (rx_initial x)))" if "tr = None"
    using mv that tag_store.accepted[OF assms(1)]
    by (auto simp: write_value_def write_result_def split: prod.splits sum.splits if_splits)
  then have "tr = None \<Longrightarrow> holds (rv_driver (re_state ?e)) (g_manipulated_variable ?tags) (WFloat (is_mv_ini (rx_initial x)))"
    using R(2)[OF a dist] by simp
  then show ?thesis using rest mv by (auto split: option.splits)
qed

text \<open>A confirmed restore is a chain of accepted writes: the MV, unless the tracker of a live run had
  confirmed it at its initial value before, then the mode, the setpoint and the mode attribute.\<close>

lemma restored_chain:
  assumes "re_attempt (attempt_restore put x policy period i completion acc d tr db0) = Some AttemptConfirmed"
    and "fl_eq (is_mv_ini (rx_initial x)) (is_mv_ini (rx_initial x))"
  defines "s \<equiv> re_state (attempt_restore put x policy period i completion acc d tr db0)"
  shows "\<exists>mv. accepted_writes put
      (mv @ restore_writes (rx_tags x) (rx_template x) (rx_initial x) (rx_guard x) ReleaseToInitial) d = Some (rv_driver s) \<and>
    (mv = [(g_manipulated_variable (rx_tags x), WFloat (is_mv_ini (rx_initial x)))] \<or> mv = [] \<and> tr \<noteq> None) \<and>
    (tr \<noteq> None \<longrightarrow> (\<exists>t'. rv_tracker s = Some t' \<and> mv_confirmed (is_mv_ini (rx_initial x)) t'))"
proof -
  let ?mv = "(g_manipulated_variable (rx_tags x), WFloat (is_mv_ini (rx_initial x)))"
    and ?w = "restore_writes (rx_tags x) (rx_template x) (rx_initial x) (rx_guard x) ReleaseToInitial"
  obtain d1 report where a: "restore_after_mv_with_policy (text_lib.truncate (rx_lib x)) put (rx_tags x) (rx_template x) (rx_initial x)
      (rx_guard x) StepSucceeded ReleaseToInitial d1 = (rv_driver s, report)" "all_succeeded report"
    and mv: "case tr of
       None \<Rightarrow> write_value put (fst ?mv) (is_mv_ini (rx_initial x)) d = (d1, Ok ())
     | Some _ \<Rightarrow> (\<exists>t'. rv_tracker s = Some t' \<and> mv_confirmed (is_mv_ini (rx_initial x)) t') \<and>
         (d1 = d \<or> write_value put (fst ?mv) (is_mv_ini (rx_initial x)) d = (d1, Ok ()))"
    using attempt_confirmed[OF assms(1,2)] unfolding s_def fst_conv by blast
  note rest = restore_accepted[OF a]
  have "accepted_writes put (?mv # ?w) d = Some (rv_driver s)"
    if "write_value put (fst ?mv) (is_mv_ini (rx_initial x)) d = (d1, Ok ())"
    using that rest by (auto simp: write_value_def write_result_def split: prod.splits sum.splits if_splits)
  then consider "accepted_writes put ([?mv] @ ?w) d = Some (rv_driver s)"
    | "accepted_writes put ([] @ ?w) d = Some (rv_driver s)" "tr \<noteq> None"
    using mv rest by (auto split: option.splits)
  moreover have "tr \<noteq> None \<longrightarrow> (\<exists>t'. rv_tracker s = Some t' \<and> mv_confirmed (is_mv_ini (rx_initial x)) t')"
    using mv by (auto split: option.splits)
  ultimately show ?thesis by blast
qed

text \<open>C21: A restore that reports itself confirmed has put the loop back: the MV was accepted at its
  initial value and, on a live controller, read back within tolerance with no command left pending,
  and the mode, the setpoint and the mode attribute the run changed hold their initial values.\<close>

theorem confirmed_restore_restores:
  assumes "tag_store put holds"
    and "re_attempt (attempt_restore put x policy period i completion acc d tr db0) = Some AttemptConfirmed"
    and "fl_eq (is_mv_ini (rx_initial x)) (is_mv_ini (rx_initial x))"
    and "distinct (g_manipulated_variable (rx_tags x) #
      map fst (restore_writes (rx_tags x) (rx_template x) (rx_initial x) (rx_guard x) ReleaseToInitial))"
  shows "list_all (\<lambda>(t, v). holds (rv_driver (re_state (attempt_restore put x policy period i completion acc d tr db0))) t v)
      (restore_writes (rx_tags x) (rx_template x) (rx_initial x) (rx_guard x) ReleaseToInitial) \<and>
    (case tr of
       None \<Rightarrow> holds (rv_driver (re_state (attempt_restore put x policy period i completion acc d tr db0)))
         (g_manipulated_variable (rx_tags x)) (WFloat (is_mv_ini (rx_initial x)))
     | Some _ \<Rightarrow> (case rv_tracker (re_state (attempt_restore put x policy period i completion acc d tr db0)) of
         None \<Rightarrow> False | Some t' \<Rightarrow> mv_confirmed (is_mv_ini (rx_initial x)) t'))"
  by (rule restored_and_confirmed[OF assms])

text \<open>C22: Confirming the restored MV ends: once a round of the loop starts four seconds after the write
  was accepted or later, the restore of the MV has an outcome, whatever was read.\<close>

theorem restore_mv_ends:
  assumes "rd \<in> set (ri_rounds i)" "ri_accepted i + secs MV_ACTUATION_CONFIRMATION_SECS \<le> rd_trigger_now rd"
  shows "snd (restore_mv_step put lib timing rid tag mv allow policy i s) \<noteq> None"
proof -
  have accepted: "snd (confirm_restored_mv lib timing tag allow deadline policy (ri_rounds i) s3) \<noteq> None"
    if "(if policy = AuditRequired
          then record_restore_accepted_required rid mv (ri_accepted_utc i) (ri_accepted i) tol s2
          else (record_restore_accepted_best_effort rid mv (ri_accepted_utc i) (ri_accepted i) tol s2, Ok ())) = (s3, Ok ())"
    for deadline tol s2 s3
  proof -
    have "\<exists>p. tr_pending (fst s3) = Some p \<and> pm_target p = mv \<and>
        pm_deadline p = ri_accepted i + secs MV_ACTUATION_CONFIRMATION_SECS"
      using that accepted_pending(1)[of rid mv "ri_accepted_utc i" "ri_accepted i" tol s2]
        accepted_pending(2)[of rid mv "ri_accepted_utc i" "ri_accepted i" tol s2 s3]
      by (cases "policy = AuditRequired") auto
    then obtain p where p: "tr_pending (fst s3) = Some p" "pm_deadline p = ri_accepted i + secs MV_ACTUATION_CONFIRMATION_SECS"
      by blast
    show ?thesis using confirm_ends[OF p(1) assms(1), where d = "snd s3"] assms(2) p(2) by simp
  qed
  have rw: "snd (rewrite_mv put lib timing rid tag mv allow policy i t s) \<noteq> None" for t s
  proof (rule rewrite_mv_run[of put i tag mv s policy rid lib timing allow t])
    fix d' w deadline tol s2 s3 r s4 out
    assume acc: "(if policy = AuditRequired
        then record_restore_accepted_required rid mv (ri_accepted_utc i) (ri_accepted i) tol s2
        else (record_restore_accepted_best_effort rid mv (ri_accepted_utc i) (ri_accepted i) tol s2, Ok ())) = (s3, r)"
      and conf: "confirm_restored_mv lib timing tag allow deadline policy (ri_rounds i) s3 = (s4, out)"
      and run: "rewrite_mv put lib timing rid tag mv allow policy i t s =
        (case restore_write_outcome lib timing w of
           Some x \<Rightarrow> (s\<lparr>rv_driver := d'\<rparr>, Some (Ok x))
         | None \<Rightarrow> (case r of
               Inl e \<Rightarrow> (s\<lparr>rv_driver := d', rv_tracker := Some (fst s3), rv_db := snd s3, rv_deadline := deadline\<rparr>, Some (Err e))
             | Inr _ \<Rightarrow> (s\<lparr>rv_driver := d', rv_tracker := Some (fst s4), rv_db := snd s4, rv_deadline := deadline\<rparr>, map_option Ok out)))"
    have "out \<noteq> None" if "r = Ok ()" using accepted[OF acc[unfolded that], of deadline] conf by simp
    then show ?thesis using run by (cases r) (auto split: option.splits)
  qed
  show ?thesis
    using rw by (auto simp: restore_mv_step_def Let_def split_beta split: option.splits sum.splits restore_handoff_outcome.splits)
qed

section \<open>Witnesses\<close>

text \<open>A controller that accepts every write and keeps the last one to each tag.\<close>

definition memory_put :: "(string \<rightharpoonup> tag_write) put" where
  "memory_put tag w m = (m(tag \<mapsto> w), Ok write_success)"

definition memory_holds :: "(string \<rightharpoonup> tag_write) \<Rightarrow> string \<Rightarrow> tag_write \<Rightarrow> bool" where
  "memory_holds m tag w \<longleftrightarrow> m tag = Some w"

interpretation memory: tag_store memory_put memory_holds
  by unfold_locales (auto simp: memory_put_def memory_holds_def)

definition demo_report_lib :: report_lib where
  "demo_report_lib = \<lparr> tl_error = (\<lambda>_. []), tl_nat = (\<lambda>_. []), rl_reason = (\<lambda>_. []), rl_f32 = (\<lambda>_. []) \<rparr>"

definition demo_restore_ctx :: restore_ctx where
  "demo_restore_ctx =
     \<lparr> rx_run_id = 1, rx_request = demo_request, rx_timing = px_timing demo_ctx,
       rx_tags = (px_tags demo_ctx)\<lparr>g_setpoint_variable := Some ''S'', g_controller_mode := Some ''C'', g_mode_attribute := Some ''A''\<rparr>,
       rx_template = yokogawa_template\<lparr>t_mode_attribute_program_value := Some ''PROGRAM''\<rparr>,
       rx_initial = demo_initial\<lparr>is_mode_raw := Some ''AUT'', is_setpoint_ini := Some (Fin 40), is_mode_attribute_raw := Some ''OPERATOR''\<rparr>,
       rx_guard = \<lparr> mg_mode_attribute_written = True, mg_mode_written = True, mg_mv_written = True \<rparr>,
       rx_allow = False, rx_parse = px_parse demo_ctx, rx_utc_max = 10 ^ 18, rx_lib = demo_report_lib \<rparr>"

text \<open>The write is accepted at second 5; the confirmation starts one round at second 9.\<close>

definition demo_restore_input :: restore_input where
  "demo_restore_input =
     \<lparr> ri_start = 0, ri_handoff_now = 0, ri_handoff_read = None, ri_handoff_checked = 0, ri_write = CallRan,
       ri_accepted = secs 5, ri_accepted_utc = secs 5,
       ri_rounds = [\<lparr> rd_trigger_now = secs 9, rd_now = secs 9,
         rd_reads = (\<lambda>_. \<lparr> br_now = secs 9, br_started = secs 9, br_finished = secs 9, br_checked = secs 9, br_answer = None \<rparr>), rd_after = secs 9 \<rparr>],
       ri_settle_start = 0, ri_settle = [], ri_finish = FinishSteps \<rparr>"

lemma demo_restore_writes:
  "restore_writes (rx_tags demo_restore_ctx) (rx_template demo_restore_ctx) (rx_initial demo_restore_ctx)
     (rx_guard demo_restore_ctx) ReleaseToInitial =
   [(''C'', WRaw ''AUT''), (''S'', WFloat (Fin 40)), (''A'', WRaw ''OPERATOR'')]"
  by (simp add: restore_writes_def mode_write_def setpoint_write_def attribute_write_def demo_restore_ctx_def
      demo_ctx_def demo_initial_def yokogawa_template_def unwrap_or_default_def Let_def)

lemma demo_restore_confirmed:
  "re_attempt (attempt_restore memory_put demo_restore_ctx AuditRequired None demo_restore_input None None Map.empty None empty_db)
     = Some AttemptConfirmed"
  by (simp add: attempt_restore_def restore_mv_step_def bounded_write_def write_value_def write_result_def memory_put_def
      demo_restore_input_def write_success_def restore_write_outcome_def restore_mv_outcome_or_failed_def
      settling_duration_def option_filter_def after_mv_def restore_after_mv_with_deadline_def
      restore_after_mv_with_policy_def steps_are_writes run_step_def step_of_def all_succeeded_def Let_def
      split: option.splits prod.splits)

theorem confirmed_restore_restores_witness:
  "re_attempt (attempt_restore memory_put demo_restore_ctx AuditRequired None demo_restore_input None None Map.empty None empty_db)
     = Some AttemptConfirmed \<and>
   rv_driver (re_state (attempt_restore memory_put demo_restore_ctx AuditRequired None demo_restore_input None None Map.empty None empty_db))
     ''C'' = Some (WRaw ''AUT'')"
  using confirmed_restore_restores[OF memory.tag_store_axioms demo_restore_confirmed] demo_restore_confirmed
  unfolding demo_restore_writes
  by (simp add: demo_restore_ctx_def demo_ctx_def demo_initial_def memory_holds_def fl_simps)

theorem restore_mv_ends_witness:
  "snd (restore_mv_step memory_put demo_report_lib (px_timing demo_ctx) 1 ''M'' (Fin 50) False AuditRequired demo_restore_input
     \<lparr> rv_driver = Map.empty, rv_tracker = Some (fst demo_track), rv_db = snd demo_track, rv_deadline = secs 30 \<rparr>) \<noteq> None"
  by (rule restore_mv_ends[of "hd (ri_rounds demo_restore_input)"])
    (simp_all add: demo_restore_input_def MV_ACTUATION_CONFIRMATION_SECS_def secs_def)

end
