(* ===== verification/Live_Ownership.thy ===== *)
theory Live_Ownership
  imports Restore_Safety
begin

text \<open>
  Ownership of a live controller (\<open>bhtune-runtime/src/live_ownership.rs\<close>): the operating system's lock
  on the database file, the owner and its claim, the heartbeat, and the driver that records an intent
  before it forwards a write.

  The answers of the file system and of the lock call are inputs, as are the clock readings; JSON
  text and the wording of errors are parameters.  Dropping a guard (which aborts its heartbeat and
  gives up the lock) is the end of its value.
\<close>

section \<open>Parameters\<close>

text \<open>\<open>serde_json\<close>: a tuple of strings, the target of a write; and SQLite's \<open>json_valid\<close>.\<close>

record json_lib =
  js_strings :: "string list \<Rightarrow> string"
  js_target :: "string \<Rightarrow> tag_write \<Rightarrow> string"
  js_valid :: "string \<Rightarrow> bool"

record error_lib =
  el_driver :: "driver_error \<Rightarrow> string"
  el_db :: "db_error \<Rightarrow> string"

section \<open>The lock of the database file\<close>

record io_error =
  io_would_block :: bool
  io_code :: "int option"
  io_text :: string

definition lock_is_contended :: "int option \<Rightarrow> io_error \<Rightarrow> bool" where
  "lock_is_contended contended e \<longleftrightarrow>
     io_would_block e \<or> (case io_code e of None \<Rightarrow> False | Some code \<Rightarrow> contended = Some code)"

definition classify_lock_result :: "int option \<Rightarrow> (io_error, unit) result \<Rightarrow> (string, bool) result" where
  "classify_lock_result contended r =
     (case r of Inr _ \<Rightarrow> Ok True | Inl e \<Rightarrow> if lock_is_contended contended e then Ok False else Err (io_text e))"

text \<open>What the system answers: the pool's database path, its canonical form (\<open>None\<close> inside when it is
  not UTF-8), opening the lock file and locking it, and the code of a contended lock.\<close>

record lock_env =
  le_path :: "(string, string) result"
  le_canonical :: "string \<Rightarrow> (string, string option) result"
  le_open :: "string \<Rightarrow> (string, unit) result"
  le_lock :: "string \<Rightarrow> (io_error, unit) result"
  le_contended :: "int option"

definition canonicalize_database_path :: "lock_env \<Rightarrow> string \<Rightarrow> (string, string option) result" where
  "canonicalize_database_path env path =
     (case le_canonical env path of
        Inr c \<Rightarrow> Ok c
      | Inl e \<Rightarrow> Err (''cannot canonicalize the live-operation database path '' @ path @ '': '' @ e))"

definition database_key_from_canonical_path :: "string option \<Rightarrow> (string, string) result" where
  "database_key_from_canonical_path p =
     (case p of Some s \<Rightarrow> Ok s | None \<Rightarrow> Err ''database path is not valid UTF-8'')"

text \<open>The guard is the database key; \<open>None\<close> when another process holds the lock.\<close>

definition try_acquire :: "lock_env \<Rightarrow> (string, string option) result" where
  "try_acquire env =
     bind_result (le_path env) (\<lambda>path.
     bind_result (canonicalize_database_path env path) (\<lambda>c.
     bind_result (database_key_from_canonical_path c) (\<lambda>key.
     bind_result (map_sum (\<lambda>e. ''cannot open the live-operation lock file: '' @ e) id
                    (le_open env (key @ ''.live-owner.lock''))) (\<lambda>_.
     bind_result (classify_lock_result (le_contended env) (le_lock env (key @ ''.live-owner.lock''))) (\<lambda>held.
     Ok (if held then Some key else None))))))"

section \<open>Keys\<close>

definition to_ascii_lowercase :: "string \<Rightarrow> string" where
  "to_ascii_lowercase =
     map (\<lambda>c. if (65::nat) \<le> of_char c \<and> of_char c \<le> (90::nat) then char_of (of_char c + 32 :: nat) else c)"

definition live_resource_key :: "json_lib \<Rightarrow> string \<Rightarrow> string \<Rightarrow> string \<Rightarrow> string" where
  "live_resource_key js host server tag = js_strings js [to_ascii_lowercase host, to_ascii_lowercase server, tag]"

definition live_claim_key :: "json_lib \<Rightarrow> string \<Rightarrow> string \<Rightarrow> string" where
  "live_claim_key js database resource = js_strings js [database, resource]"

section \<open>The guard\<close>

datatype live_error = LiveText string | LiveDb db_error

datatype acquire_error = LockBusy | ResourceClaimed | Persistence live_error

text \<open>\<open>gd_beating\<close>: the heartbeat task runs.  The queues hold values observed before a write.\<close>

record live_guard =
  gd_database_key :: string
  gd_owner :: live_ownership_row
  gd_claim_key :: string
  gd_failed :: bool
  gd_previous :: "string \<rightharpoonup> string list"
  gd_beating :: bool

definition start_heartbeat :: "string \<Rightarrow> live_ownership_row \<Rightarrow> string \<Rightarrow> live_guard" where
  "start_heartbeat database owner key =
     \<lparr> gd_database_key = database, gd_owner = owner, gd_claim_key = key, gd_failed = False,
       gd_previous = Map.empty, gd_beating = True \<rparr>"

text \<open>One tick of the heartbeat task, every five seconds: after a failure the task is over.\<close>

definition heartbeat_tick :: "json_lib \<Rightarrow> timestamp \<Rightarrow> live_guard \<times> db \<Rightarrow> live_guard \<times> db" where
  "heartbeat_tick js now = (\<lambda>(g, d).
     if \<not> gd_beating g then (g, d)
     else (case heartbeat (js_valid js) (lo_id (gd_owner g)) now d of
             (d', Inr _) \<Rightarrow> (g, d')
           | (d', Inl _) \<Rightarrow> (g\<lparr>gd_failed := True, gd_beating := False\<rparr>, d')))"

definition acquire ::
  "json_lib \<Rightarrow> lock_env \<Rightarrow> int \<Rightarrow> timestamp \<Rightarrow> int option \<Rightarrow> live_operation_kind \<Rightarrow> string \<Rightarrow> string \<Rightarrow> string
   \<Rightarrow> string option \<Rightarrow> db \<Rightarrow> db \<times> (acquire_error, live_guard) result" where
  "acquire js env pid now rid kind host server tag intent d =
     (case try_acquire env of
        Inl e \<Rightarrow> (d, Err (Persistence (LiveText e)))
      | Inr None \<Rightarrow> (d, Err LockBusy)
      | Inr (Some database) \<Rightarrow>
          (let resource = live_resource_key js host server tag;
               key = live_claim_key js database resource
           in case create_and_claim (js_valid js)
                \<lparr> nlo_run_id = rid, nlo_operation_kind = kind, nlo_database_key = database,
                  nlo_resource_key = resource, nlo_owner_pid = pid, nlo_acquired_at = now,
                  nlo_restore_intent_json = intent \<rparr> key d of
              (d', Inl e) \<Rightarrow> (d', Err (Persistence (LiveDb e)))
            | (d', Inr None) \<Rightarrow> (d', Err ResourceClaimed)
            | (d', Inr (Some owner)) \<Rightarrow> (d', Ok (start_heartbeat database owner key))))"

definition acquire_for_recorded_run ::
  "json_lib \<Rightarrow> (int \<Rightarrow> string) \<Rightarrow> lock_env \<Rightarrow> int \<Rightarrow> timestamp \<Rightarrow> tune_run_row \<Rightarrow> live_operation_kind \<Rightarrow> string
   \<Rightarrow> db \<Rightarrow> db \<times> (acquire_error, live_guard) result" where
  "acquire_for_recorded_run js num env pid now run kind intent d =
     (let refuse = (\<lambda>text. (d, Err (Persistence (LiveText (''run '' @ num (run_id run) @ text)))))
      in if driver run \<noteq> Opcda then refuse ('' used the '' @ (case driver run of Opcda \<Rightarrow> ''Opcda'' | Simulator \<Rightarrow> ''Simulator'' | Replay \<Rightarrow> ''Replay'')
            @ '' driver and has no live OPC DA operation to own'')
         else (case bridge_host run of
             None \<Rightarrow> refuse '' has no recorded bridge host; refusing to guess which gateway to use''
           | Some host \<Rightarrow>
               (case opc_server run of
                  None \<Rightarrow> refuse '' has no recorded OPC server; refusing to guess which controller to use''
                | Some server \<Rightarrow>
                    acquire js env pid now (Some (run_id run)) kind host server
                      (g_manipulated_variable (run_tags run)) (Some intent) d)))"

definition HEARTBEAT_FAILED :: string where
  "HEARTBEAT_FAILED = ''live controller ownership heartbeat failed; refusing further mutations and retaining the pre-write audit intent''"

definition ensure_healthy :: "live_guard \<Rightarrow> (string, unit) result" where
  "ensure_healthy g = (if gd_failed g then Err HEARTBEAT_FAILED else Ok ())"

definition queue_previous_write_value :: "string \<Rightarrow> string \<Rightarrow> live_guard \<Rightarrow> live_guard" where
  "queue_previous_write_value tag v g =
     g\<lparr>gd_previous := (gd_previous g)(tag \<mapsto> (case gd_previous g tag of None \<Rightarrow> [] | Some q \<Rightarrow> q) @ [v])\<rparr>"

definition clear_previous_write_values :: "live_guard \<Rightarrow> live_guard" where
  "clear_previous_write_values g = g\<lparr>gd_previous := Map.empty\<rparr>"

text \<open>\<open>pop_front\<close>, with the tag's entry removed once its queue is empty.\<close>

definition take_previous_write_value :: "string \<Rightarrow> live_guard \<Rightarrow> live_guard \<times> string option" where
  "take_previous_write_value tag g =
     (case gd_previous g tag of
        None \<Rightarrow> (g, None)
      | Some q \<Rightarrow>
          (let rest = (case q of [] \<Rightarrow> [] | _ # r \<Rightarrow> r)
           in (g\<lparr>gd_previous := (if rest = [] then (gd_previous g)(tag := None) else (gd_previous g)(tag \<mapsto> rest))\<rparr>,
               case q of [] \<Rightarrow> None | v # _ \<Rightarrow> Some v)))"

definition persist_restore_intent :: "json_lib \<Rightarrow> string \<Rightarrow> live_guard \<Rightarrow> db \<Rightarrow> db \<times> (live_error, unit) result" where
  "persist_restore_intent js intent g d =
     (case ensure_healthy g of
        Inl e \<Rightarrow> (d, Err (LiveText e))
      | Inr _ \<Rightarrow> apsnd (map_sum LiveDb id) (set_restore_intent (js_valid js) (lo_id (gd_owner g)) intent d))"

definition stop_heartbeat :: "live_guard \<Rightarrow> live_guard" where
  "stop_heartbeat g = g\<lparr>gd_beating := False\<rparr>"

definition release_guard :: "json_lib \<Rightarrow> timestamp \<Rightarrow> live_guard \<Rightarrow> db \<Rightarrow> db \<times> (live_error, unit) result" where
  "release_guard js now g0 d =
     (let g = stop_heartbeat g0
      in case ensure_healthy g of
           Inl e \<Rightarrow> (d, Err (LiveText e))
         | Inr _ \<Rightarrow> apsnd (map_sum LiveDb id) (release (js_valid js) (lo_id (gd_owner g)) now d))"

section \<open>The audited driver\<close>

text \<open>The driver behind it, the database and the guard it writes with, and the clock: the readings that
  are still to come.\<close>

record 'd audited_driver =
  au_inner :: 'd
  au_db :: db
  au_guard :: live_guard
  au_clock :: "nat \<Rightarrow> timestamp"
  au_reads :: nat

definition write_target_json :: "json_lib \<Rightarrow> string \<Rightarrow> tag_write \<Rightarrow> (string, string) result" where
  "write_target_json js tag w =
     (case w of
        WFloat v \<Rightarrow> if is_finite v then Ok (js_target js tag w) else Err ''controller write target is not finite''
      | WRaw _ \<Rightarrow> Ok (js_target js tag w))"

definition audited_read ::
  "(string list \<Rightarrow> 'd \<Rightarrow> 'd \<times> (driver_error, tag_value list) result)
   \<Rightarrow> string list \<Rightarrow> 'd audited_driver \<Rightarrow> 'd audited_driver \<times> (driver_error, tag_value list) result" where
  "audited_read get tags s = (let (i, r) = get tags (au_inner s) in (s\<lparr>au_inner := i\<rparr>, r))"

text \<open>What the audit records of an answer.\<close>

definition write_verdict ::
  "error_lib \<Rightarrow> (driver_error, write_outcome) result \<Rightarrow> mutation_step_status \<times> string" where
  "write_verdict el r =
     (case r of
        Inr x \<Rightarrow>
          if wo_success x then (StepConfirmed, ''the driver accepted the write; value confirmation is recorded separately'')
          else (StepFailed, case wo_error_message x of Some m \<Rightarrow> m | None \<Rightarrow> ''the driver rejected the write'')
      | Inl e \<Rightarrow> (StepFailed, el_driver el e))"

definition intent_of :: "string \<Rightarrow> string option \<Rightarrow> int option \<Rightarrow> 'd audited_driver \<Rightarrow> new_live_mutation_step" where
  "intent_of target prev rid s =
     \<lparr> nms_owner_id = lo_id (gd_owner (au_guard s)), nms_run_id = rid, nms_step = ''controller_write'',
       nms_target_json = target, nms_previous_json = prev, nms_started_at = au_clock s (au_reads s) \<rparr>"

definition audited_write ::
  "json_lib \<Rightarrow> error_lib \<Rightarrow> 'd put \<Rightarrow> int option \<Rightarrow> 'd audited_driver put" where
  "audited_write js el put rid tag w s =
     (let fail = (\<lambda>text. Err (Operation (OtherSource text)))
      in case ensure_healthy (au_guard s) of
           Inl e \<Rightarrow> (s, fail e)
         | Inr _ \<Rightarrow>
      (case write_target_json js tag w of
           Inl e \<Rightarrow> (s, fail e)
         | Inr target \<Rightarrow>
             (let (g, prev) = take_previous_write_value tag (au_guard s);
                  (d1, begun) = step_begin (js_valid js) (intent_of target prev rid s) (au_db s);
                  s1 = s\<lparr>au_guard := g, au_db := d1, au_reads := au_reads s + 1\<rparr>
              in case begun of
                   Inl e \<Rightarrow> (s1, fail (el_db el e))
                 | Inr step \<Rightarrow>
                     (let (i, r) = put tag w (au_inner s1);
                          (status, detail) = write_verdict el r;
                          (d2, audit) = step_finish (js_valid js) (ms_id step) status (au_clock s1 (au_reads s1)) None
                                          (Some detail) (au_db s1);
                          s2 = s1\<lparr>au_inner := i, au_db := d2, au_reads := au_reads s1 + 1\<rparr>
                      in case audit of
                           Inl e \<Rightarrow> (s2, fail (el_db el e))
                         | Inr _ \<Rightarrow> (s2, r)))))"

end
