(* ===== verification/Live_Ownership_Safety.thy ===== *)
theory Live_Ownership_Safety
  imports Live_Ownership
begin

text \<open>
  What the ownership guard and the audited driver guarantee: one owner per controller however its
  name is spelled, no write without a recorded intent, and a driver that still is a tag store.
\<close>

section \<open>Steps\<close>

lemma step_begin_Ok:
  assumes "step_begin jv new d = (d', Ok row)"
  shows "d' = d\<lparr>steps := steps d @ [row], steps_seq := steps_seq d + 1\<rparr>"
    and "row = \<lparr> ms_id = steps_seq d + 1, ms_owner_id = nms_owner_id new, ms_run_id = nms_run_id new, step_name = nms_step new,
       target_json = nms_target_json new, previous_json = nms_previous_json new, ms_status = Intent,
       ms_started_at = nms_started_at new, ms_completed_at = None, readback_json = None, ms_detail = None \<rparr>"
    and "step_check jv row"
    and "exists_row (\<lambda>o'. lo_id o' = nms_owner_id new \<and> lo_run_id o' = nms_run_id new \<and> lo_state o' = Active) (owners d)"
    and "holds_claim (nms_owner_id new) d"
  using assms by (auto simp: step_begin_def run_tx_def insert_step_def split: sum.splits if_splits)

lemma step_begin_Err: "step_begin jv new d = (d', Err e) \<Longrightarrow> d' = d"
  by (auto simp: step_begin_def run_tx_def insert_step_def split: sum.splits if_splits)

lemma step_finish_last:
  assumes "steps d = rows @ [row]" "ms_status row = Intent" "\<forall>s \<in> set rows. ms_id s \<noteq> ms_id row" "step_check jv row"
    and "st \<noteq> Intent"
  shows "step_finish jv (ms_id row) st now None detail d =
    (d\<lparr>steps := rows @ [row\<lparr>ms_status := st, ms_completed_at := Some now, readback_json := None, ms_detail := detail\<rparr>]\<rparr>,
     Ok (row\<lparr>ms_status := st, ms_completed_at := Some now, readback_json := None, ms_detail := detail\<rparr>))"
proof -
  let ?P = "\<lambda>s. ms_id s = ms_id row \<and> ms_status s = Intent"
    and ?f = "\<lambda>s. s\<lparr>ms_status := st, ms_completed_at := Some now, readback_json := None, ms_detail := detail\<rparr>"
  have none: "filter ?P rows = []" using assms(3) by (auto simp: filter_empty_conv)
  have same: "map (\<lambda>r. if ?P r then ?f r else r) rows = rows" using assms(3) by (intro map_idI) auto
  have chk: "list_all (\<lambda>r. ?P r \<longrightarrow> step_check jv (?f r)) (steps d)"
    using assms by (auto simp: list_all_iff step_check_def json_ok_def)
  have "sql_update (step_check jv) ?P ?f (steps d) = Some (rows @ [?f row], 1)"
    using chk none same assms(1,2) by (simp add: sql_update_def update_where_def affected_def)
  then show ?thesis
    using none assms(1,2,5) by (simp add: step_finish_def run_tx_def one_row_def)
qed

section \<open>One audited write\<close>

text \<open>The write went through: its intent was in the database before, and its outcome is there now.\<close>

definition forwarded ::
  "json_lib \<Rightarrow> error_lib \<Rightarrow> 'd put \<Rightarrow> int option \<Rightarrow> string \<Rightarrow> tag_write \<Rightarrow> 'd audited_driver
   \<Rightarrow> 'd audited_driver \<Rightarrow> (driver_error, write_outcome) result \<Rightarrow> bool" where
  "forwarded js el put rid tag w s s' r \<longleftrightarrow>
     \<not> gd_failed (au_guard s) \<and>
     exists_row (\<lambda>o'. lo_id o' = lo_id (gd_owner (au_guard s)) \<and> lo_run_id o' = rid \<and> lo_state o' = Active) (owners (au_db s)) \<and>
     holds_claim (lo_id (gd_owner (au_guard s))) (au_db s) \<and>
     put tag w (au_inner s) = (au_inner s', r) \<and>
     (\<exists>row. au_db s' = (au_db s)\<lparr>steps := steps (au_db s) @ [row], steps_seq := ms_id row\<rparr> \<and>
        ms_id row = steps_seq (au_db s) + 1 \<and> ms_owner_id row = lo_id (gd_owner (au_guard s)) \<and> ms_run_id row = rid \<and>
        target_json row = js_target js tag w \<and> previous_json row = snd (take_previous_write_value tag (au_guard s)) \<and>
        ms_status row = fst (write_verdict el r)) \<and>
     gd_failed (au_guard s') = gd_failed (au_guard s) \<and> gd_owner (au_guard s') = gd_owner (au_guard s)"

text \<open>The write was refused before it reached the controller.\<close>

definition refused ::
  "'d audited_driver \<Rightarrow> 'd audited_driver \<Rightarrow> (driver_error, write_outcome) result \<Rightarrow> bool" where
  "refused s s' r \<longleftrightarrow>
     au_inner s' = au_inner s \<and> au_db s' = au_db s \<and> \<not> is_ok r \<and> au_reads s' \<le> au_reads s + 1 \<and>
     gd_failed (au_guard s') = gd_failed (au_guard s) \<and> gd_owner (au_guard s') = gd_owner (au_guard s)"

lemma verdict_not_intent: "fst (write_verdict el r) \<noteq> Intent"
  by (auto simp: write_verdict_def split: sum.splits)

lemma take_previous_fields:
  "gd_failed (fst (take_previous_write_value tag g)) = gd_failed g"
  "gd_owner (fst (take_previous_write_value tag g)) = gd_owner g"
  by (simp_all add: take_previous_write_value_def Let_def split: option.splits)

lemma audited_write_cases:
  assumes "audited_write js el put rid tag w s = (s', r)" "db_ok (au_db s)"
  shows "refused s s' r \<or> forwarded js el put rid tag w s s' r"
proof (cases "gd_failed (au_guard s) \<or> \<not> is_ok (write_target_json js tag w)")
  case True
  then show ?thesis
    using assms(1) by (auto simp: audited_write_def refused_def ensure_healthy_def split: if_splits sum.splits)
next
  case False
  then have healthy: "\<not> gd_failed (au_guard s)" and t: "write_target_json js tag w = Ok (js_target js tag w)"
    by (auto simp: write_target_json_def split: tag_write.splits if_splits)
  obtain g prev where g: "take_previous_write_value tag (au_guard s) = (g, prev)" by fastforce
  then have gf: "gd_failed g = gd_failed (au_guard s)" "gd_owner g = gd_owner (au_guard s)"
    using take_previous_fields[of tag "au_guard s"] by simp_all
  obtain d1 begun where b: "step_begin (js_valid js) (intent_of (js_target js tag w) prev rid s) (au_db s) = (d1, begun)" by fastforce
  show ?thesis
  proof (cases begun)
    case (Inl e)
    then have "d1 = au_db s" using step_begin_Err b by blast
    then show ?thesis
      using assms(1) healthy t g b Inl gf by (auto simp: audited_write_def refused_def ensure_healthy_def Let_def)
  next
    case (Inr row)
    note begun = step_begin_Ok[OF b[unfolded Inr]]
    obtain i x where p: "put tag w (au_inner s) = (i, x)" by fastforce
    obtain st detail where v: "write_verdict el x = (st, detail)" by fastforce
    then have st: "st \<noteq> Intent" using verdict_not_intent by (metis fst_conv)
    have "\<forall>y \<in> set (steps (au_db s)). ms_id y \<noteq> ms_id row"
      using assms(2) begun(2) by (force simp: db_ok_def keys_ok_def)
    then have f: "step_finish (js_valid js) (ms_id row) st now None (Some detail) d1 =
        (d1\<lparr>steps := steps (au_db s) @ [row\<lparr>ms_status := st, ms_completed_at := Some now, readback_json := None, ms_detail := Some detail\<rparr>]\<rparr>,
         Ok (row\<lparr>ms_status := st, ms_completed_at := Some now, readback_json := None, ms_detail := Some detail\<rparr>))" for now
      using step_finish_last[of d1 "steps (au_db s)" row] begun(1,3) st by (simp add: begun(2))
    have s': "r = x" "au_inner s' = i" "au_guard s' = g"
      "\<exists>now. au_db s' = d1\<lparr>steps := steps (au_db s) @ [row\<lparr>ms_status := st, ms_completed_at := Some now, readback_json := None, ms_detail := Some detail\<rparr>]\<rparr>"
      using assms(1) healthy t g b Inr p v f by (auto simp: audited_write_def ensure_healthy_def Let_def)
    then obtain now where d': "au_db s' = d1\<lparr>steps := steps (au_db s) @ [row\<lparr>ms_status := st, ms_completed_at := Some now, readback_json := None, ms_detail := Some detail\<rparr>]\<rparr>"
      by blast
    let ?row = "row\<lparr>ms_status := st, ms_completed_at := Some now, readback_json := None, ms_detail := Some detail\<rparr>"
    have "au_db s' = (au_db s)\<lparr>steps := steps (au_db s) @ [?row], steps_seq := ms_id ?row\<rparr>"
      unfolding d' begun(1) by (simp add: begun(2))
    moreover have "ms_id ?row = steps_seq (au_db s) + 1 \<and> ms_owner_id ?row = lo_id (gd_owner (au_guard s)) \<and> ms_run_id ?row = rid \<and>
        target_json ?row = js_target js tag w \<and> previous_json ?row = snd (take_previous_write_value tag (au_guard s)) \<and>
        ms_status ?row = fst (write_verdict el r)"
      using g v s'(1) by (simp add: intent_of_def begun(2))
    ultimately have row: "\<exists>row. au_db s' = (au_db s)\<lparr>steps := steps (au_db s) @ [row], steps_seq := ms_id row\<rparr> \<and>
        ms_id row = steps_seq (au_db s) + 1 \<and> ms_owner_id row = lo_id (gd_owner (au_guard s)) \<and> ms_run_id row = rid \<and>
        target_json row = js_target js tag w \<and> previous_json row = snd (take_previous_write_value tag (au_guard s)) \<and>
        ms_status row = fst (write_verdict el r)" by blast
    have "forwarded js el put rid tag w s s' r"
      unfolding forwarded_def using healthy begun(4,5) gf row p s'(1-3) by (simp add: intent_of_def)
    then show ?thesis by blast
  qed
qed

lemma audited_write_db_ok:
  assumes "audited_write js el put rid tag w s = (s', r)" "db_ok (au_db s)" shows "db_ok (au_db s')"
  using assms step_begin_ok[OF assms(2)] step_finish_ok[OF step_begin_ok[OF assms(2)]]
  by (auto simp: audited_write_def Let_def split: sum.splits prod.splits) (metis fst_conv)+

text \<open>A healthy, active owner with its claim.\<close>

definition can_write :: "int option \<Rightarrow> 'd audited_driver \<Rightarrow> bool" where
  "can_write rid s \<longleftrightarrow> \<not> gd_failed (au_guard s) \<and> db_ok (au_db s) \<and> run_reference_ok rid (au_db s) \<and>
     exists_row (\<lambda>o'. lo_id o' = lo_id (gd_owner (au_guard s)) \<and> lo_run_id o' = rid \<and> lo_state o' = Active) (owners (au_db s)) \<and>
     holds_claim (lo_id (gd_owner (au_guard s))) (au_db s)"

lemma audited_write_goes:
  assumes "can_write rid s" "\<And>x. js_valid js x" "is_ok (write_target_json js tag w)"
  shows "\<exists>s'. audited_write js el put rid tag w s = (s', snd (put tag w (au_inner s))) \<and>
    forwarded js el put rid tag w s s' (snd (put tag w (au_inner s))) \<and> can_write rid s'"
proof -
  obtain t where t: "write_target_json js tag w = Ok t" using assms(3) by (auto simp: is_ok_iff)
  obtain g prev where g: "take_previous_write_value tag (au_guard s) = (g, prev)" by fastforce
  have "is_ok (snd (step_begin (js_valid js) (intent_of t prev rid s) (au_db s)))"
    using assms(1,2)
    by (simp add: step_begin_def run_tx_def insert_step_def intent_of_def can_write_def step_check_def json_ok_def
        split: option.split)
  then obtain d1 row where b: "step_begin (js_valid js) (intent_of t prev rid s) (au_db s) = (d1, Ok row)"
    by (metis is_ok_iff surj_pair snd_conv)
  have d: "db_ok (au_db s)" "\<not> gd_failed (au_guard s)" using assms(1) by (simp_all add: can_write_def)
  obtain s' r where w: "audited_write js el put rid tag w s = (s', r)" by fastforce
  have "au_reads s' = au_reads s + 2"
    using w d(2) t g b by (auto simp: audited_write_def ensure_healthy_def Let_def split: prod.splits sum.splits)
  then have "\<not> refused s s' r" by (simp add: refused_def)
  then have f: "forwarded js el put rid tag w s s' r" using audited_write_cases[OF w d(1)] by blast
  then have r: "r = snd (put tag w (au_inner s))" by (simp add: forwarded_def)
  have "can_write rid s'"
    using f assms(1) audited_write_db_ok[OF w d(1)]
    by (auto simp: forwarded_def can_write_def run_reference_ok_def holds_claim_def split: option.splits)
  then show ?thesis using w f unfolding r by blast
qed

section \<open>A session of writes\<close>

text \<open>What may happen while an operation owns the controller: writes, ticks of the heartbeat, values
  queued for the audit.\<close>

datatype ownership_event = LvWrite string tag_write | LvBeat timestamp | LvQueue string string | LvClear

definition recording :: "'d put \<Rightarrow> ('d \<times> (string \<times> tag_write \<times> (driver_error, write_outcome) result) list) put" where
  "recording put tag w = (\<lambda>(d, l). let (d', r) = put tag w d in ((d', l @ [(tag, w, r)]), r))"

fun live_event ::
  "json_lib \<Rightarrow> error_lib \<Rightarrow> 'd put \<Rightarrow> int option \<Rightarrow> ownership_event \<Rightarrow> 'd audited_driver \<Rightarrow> 'd audited_driver" where
  "live_event js el put rid (LvWrite tag w) s = fst (audited_write js el put rid tag w s)"
| "live_event js el put rid (LvBeat now) s =
     (let (g, d) = heartbeat_tick js now (au_guard s, au_db s) in s\<lparr>au_guard := g, au_db := d\<rparr>)"
| "live_event js el put rid (LvQueue tag v) s = s\<lparr>au_guard := queue_previous_write_value tag v (au_guard s)\<rparr>"
| "live_event js el put rid LvClear s = s\<lparr>au_guard := clear_previous_write_values (au_guard s)\<rparr>"

definition row_of_write ::
  "json_lib \<Rightarrow> error_lib \<Rightarrow> int \<Rightarrow> string \<times> tag_write \<times> (driver_error, write_outcome) result \<Rightarrow> live_mutation_step_row \<Rightarrow> bool" where
  "row_of_write js el owner = (\<lambda>(tag, w, r) row.
     ms_owner_id row = owner \<and> target_json row = js_target js tag w \<and> ms_status row = fst (write_verdict el r))"

lemma heartbeat_leaves: "steps (fst (heartbeat jv i now d)) = steps d \<and> steps_seq (fst (heartbeat jv i now d)) = steps_seq d"
  by (auto simp: heartbeat_def run_tx_def bind_result_Ok_iff bind_result_Err_iff split: sum.splits)

lemma heartbeat_tick_leaves:
  assumes "heartbeat_tick js now (g, d) = (g', d')" "db_ok d"
  shows "steps d' = steps d" "db_ok d'" "gd_owner g' = gd_owner g" "gd_failed g \<Longrightarrow> gd_failed g'"
  using assms heartbeat_leaves[of "js_valid js" "lo_id (gd_owner g)" now d]
    heartbeat_ok[OF assms(2), of "js_valid js" "lo_id (gd_owner g)" now]
  by (auto simp: heartbeat_tick_def split: if_splits prod.splits sum.splits)

definition covered :: "json_lib \<Rightarrow> error_lib \<Rightarrow> live_mutation_step_row list \<Rightarrow> int
    \<Rightarrow> ('d \<times> (string \<times> tag_write \<times> (driver_error, write_outcome) result) list) audited_driver \<Rightarrow> bool" where
  "covered js el before owner s \<longleftrightarrow> db_ok (au_db s) \<and> lo_id (gd_owner (au_guard s)) = owner \<and>
     (\<exists>rows. steps (au_db s) = before @ rows \<and> list_all2 (row_of_write js el owner) (snd (au_inner s)) rows)"

lemma live_event_covered:
  assumes "covered js el before owner s"
  shows "covered js el before owner (live_event js el (recording put) rid e s)"
proof (cases e)
  case (LvWrite tag w)
  obtain s' r where w: "audited_write js el (recording put) rid tag w s = (s', r)" by fastforce
  have ok: "db_ok (au_db s)" and own: "lo_id (gd_owner (au_guard s)) = owner" using assms by (simp_all add: covered_def)
  obtain rows where rows: "steps (au_db s) = before @ rows" "list_all2 (row_of_write js el owner) (snd (au_inner s)) rows"
    using assms by (auto simp: covered_def)
  have ok': "db_ok (au_db s')" by (rule audited_write_db_ok[OF w ok])
  from audited_write_cases[OF w ok] have "covered js el before owner s'"
  proof
    assume "refused s s' r"
    then show ?thesis using ok own rows by (auto simp: covered_def refused_def)
  next
    assume f: "forwarded js el (recording put) rid tag w s s' r"
    then obtain row where row: "steps (au_db s') = steps (au_db s) @ [row]" "row_of_write js el owner (tag, w, r) row"
      using own by (auto simp: forwarded_def row_of_write_def)
    have "snd (au_inner s') = snd (au_inner s) @ [(tag, w, r)]"
      using f by (cases "au_inner s") (auto simp: forwarded_def recording_def dest: sym split: prod.splits)
    then have "list_all2 (row_of_write js el owner) (snd (au_inner s')) (rows @ [row])"
      using rows(2) row(2) by (simp add: list_all2_appendI)
    then show ?thesis using ok' f own row(1) rows(1) by (auto simp: covered_def forwarded_def)
  qed
  then show ?thesis by (simp add: LvWrite w)
next
  case (LvBeat now)
  obtain g d where b: "heartbeat_tick js now (au_guard s, au_db s) = (g, d)" by fastforce
  then show ?thesis
    using assms heartbeat_tick_leaves[OF b] by (auto simp: covered_def LvBeat)
qed (use assms in \<open>auto simp: covered_def queue_previous_write_value_def clear_previous_write_values_def\<close>)

lemma live_events_covered:
  "covered js el before owner s \<Longrightarrow> covered js el before owner (fold (live_event js el (recording put) rid) es s)"
  by (induction es arbitrary: s) (simp_all add: live_event_covered)

text \<open>C23: No write without its record: over any session of writes and heartbeats, the mutation steps
  added to the database are exactly the writes the controller was asked for, in their order, each
  with the owner, the target and the outcome the controller answered.\<close>

theorem writes_are_recorded:
  assumes "db_ok (au_db s)" "snd (au_inner s) = []"
  shows "\<exists>rows. steps (au_db (fold (live_event js el (recording put) rid) es s)) = steps (au_db s) @ rows \<and>
    list_all2 (row_of_write js el (lo_id (gd_owner (au_guard s))))
      (snd (au_inner (fold (live_event js el (recording put) rid) es s))) rows"
  using live_events_covered[of js el "steps (au_db s)" "lo_id (gd_owner (au_guard s))" s put rid es] assms
  by (simp add: covered_def)

text \<open>A controller write is forwarded only with a healthy heartbeat, by an owner that is active for
  this run and still holds its claim; otherwise the write fails without reaching the controller, and
  a forwarded write answers what the controller answered.\<close>

theorem write_needs_ownership:
  assumes "db_ok (au_db s)" "audited_write js el put rid tag w s = (s', r)"
  shows "au_inner s' = au_inner s \<and> steps (au_db s') = steps (au_db s) \<and> \<not> is_ok r \<or>
    put tag w (au_inner s) = (au_inner s', r) \<and> \<not> gd_failed (au_guard s) \<and>
    holds_claim (lo_id (gd_owner (au_guard s))) (au_db s) \<and>
    exists_row (\<lambda>o'. lo_id o' = lo_id (gd_owner (au_guard s)) \<and> lo_run_id o' = rid \<and> lo_state o' = Active) (owners (au_db s))"
  using audited_write_cases[OF assms(2,1)] by (auto simp: refused_def forwarded_def)

section \<open>The audited driver is a tag store\<close>

text \<open>The value is in the tag, and its write is confirmed in the audit.\<close>

definition recorded :: "json_lib \<Rightarrow> ('d \<Rightarrow> string \<Rightarrow> tag_write \<Rightarrow> bool) \<Rightarrow> 'd audited_driver \<Rightarrow> string \<Rightarrow> tag_write \<Rightarrow> bool" where
  "recorded js holds s tag w \<longleftrightarrow> holds (au_inner s) tag w \<and>
     exists_row (\<lambda>x. target_json x = js_target js tag w \<and> ms_status x = StepConfirmed) (steps (au_db s))"

lemma step_finish_steps:
  assumes "steps d = rows @ [row]" "ms_status row = Intent"
  shows "(\<exists>e. step_finish jv (ms_id row) st now rb detail d = (d, Err e)) \<or>
    (\<exists>row' d'. step_finish jv (ms_id row) st now rb detail d = (d', Ok row') \<and> steps d' = rows @ [row'] \<and>
       target_json row' = target_json row \<and> ms_status row' = st)"
proof -
  let ?P = "\<lambda>s. ms_id s = ms_id row \<and> ms_status s = Intent"
    and ?f = "\<lambda>s. s\<lparr>ms_status := st, ms_completed_at := Some now, readback_json := rb, ms_detail := detail\<rparr>"
  have P: "?P row" by (simp add: assms(2))
  show ?thesis
  proof (cases "step_finish jv (ms_id row) st now rb detail d")
    case (Pair d' r)
    show ?thesis
    proof (cases r)
      case (Inl e)
      then have "d' = d"
        using Pair by (auto simp: step_finish_def run_tx_def Let_def bind_result_Ok_iff bind_result_Err_iff split: sum.splits if_splits)
      then show ?thesis using Pair Inl by blast
    next
      case (Inr row')
      let ?u = "sql_update (step_check jv) ?P ?f (steps d)"
      obtain t n where u: "?u = Some (t, n)" "n = 1" and d': "steps d' = t" and row': "row' = ?f (hd (filter ?P (steps d)))"
        using Pair Inr by (cases ?u) (auto simp: step_finish_def run_tx_def Let_def one_row_def split: if_splits)
      have one: "affected ?P (steps d) = 1" and st: "steps d' = update_where ?P ?f (steps d)"
        using u d' by (auto simp: sql_update_def split: if_splits)
      have none: "filter ?P rows = []" using one P by (simp add: affected_def assms(1))
      then have "map (\<lambda>r. if ?P r then ?f r else r) rows = rows"
        by (intro map_idI) (metis (mono_tags, lifting) filter_empty_conv)
      then have "steps d' = rows @ [?f row]" "row' = ?f row"
        using st row' P none by (simp_all add: update_where_def assms(1))
      then show ?thesis using Pair Inr by simp
    qed
  qed
qed

lemma audited_write_steps:
  assumes "audited_write js el put rid tag w s = (s', r)"
  shows "(au_inner s' = au_inner s \<and> steps (au_db s') = steps (au_db s) \<and> \<not> is_ok r) \<or>
    (\<exists>x row. put tag w (au_inner s) = (au_inner s', x) \<and> steps (au_db s') = steps (au_db s) @ [row] \<and>
       target_json row = js_target js tag w \<and> (is_ok r \<longrightarrow> r = x \<and> ms_status row = fst (write_verdict el r)))"
proof (cases "gd_failed (au_guard s) \<or> \<not> is_ok (write_target_json js tag w)")
  case True
  then show ?thesis
    using assms(1) by (auto simp: audited_write_def ensure_healthy_def split: if_splits sum.splits)
next
  case False
  then have healthy: "\<not> gd_failed (au_guard s)" and t: "write_target_json js tag w = Ok (js_target js tag w)"
    by (auto simp: write_target_json_def split: tag_write.splits if_splits)
  obtain g prev where g: "take_previous_write_value tag (au_guard s) = (g, prev)" by fastforce
  obtain d1 begun where b: "step_begin (js_valid js) (intent_of (js_target js tag w) prev rid s) (au_db s) = (d1, begun)" by fastforce
  show ?thesis
  proof (cases begun)
    case (Inl e)
    then have "d1 = au_db s" using step_begin_Err b by blast
    then show ?thesis using assms(1) healthy t g b Inl by (auto simp: audited_write_def ensure_healthy_def Let_def)
  next
    case (Inr row)
    note begun = step_begin_Ok[OF b[unfolded Inr]]
    obtain i x where p: "put tag w (au_inner s) = (i, x)" by fastforce
    obtain st detail where v: "write_verdict el x = (st, detail)" by fastforce
    obtain now where now: "now = au_clock s (Suc (au_reads s))" by blast
    have d1: "steps d1 = steps (au_db s) @ [row]" "ms_status row = Intent" "target_json row = js_target js tag w"
      using begun(1,2) by (simp_all add: intent_of_def)
    obtain d2 fin where f: "step_finish (js_valid js) (ms_id row) st now None (Some detail) d1 = (d2, fin)" by fastforce
    have s': "au_inner s' = i" "au_db s' = d2" "is_ok fin \<Longrightarrow> r = x" "\<not> is_ok fin \<Longrightarrow> \<not> is_ok r"
      using assms(1) healthy t g b Inr p v f now by (auto simp: audited_write_def ensure_healthy_def Let_def split: sum.splits)
    from step_finish_steps[OF d1(1,2), of "js_valid js" st now None "Some detail"] show ?thesis
      using s' d1 p f v by (auto simp: is_ok_iff)
  qed
qed

lemma audited_store:
  assumes "tag_store put holds" "\<And>t w t' w'. js_target js t w = js_target js t' w' \<Longrightarrow> t = t' \<and> w = w'"
  shows "tag_store (audited_write js el put rid) (recorded js holds)"
proof
  fix tag w d d' x
  assume a: "audited_write js el put rid tag w d = (d', Ok x)" "wo_success x"
  then obtain row where p: "put tag w (au_inner d) = (au_inner d', Ok x)" "steps (au_db d') = steps (au_db d) @ [row]"
    "target_json row = js_target js tag w" "ms_status row = fst (write_verdict el (Ok x))"
    using audited_write_steps[OF a(1)] by auto
  then show "recorded js holds d' tag w"
    using a(2) tag_store.accepted[OF assms(1) p(1) a(2)] by (auto simp: recorded_def write_verdict_def)
next
  fix tag w d d' r t v
  assume a: "audited_write js el put rid tag w d = (d', r)" "t \<noteq> tag"
  from audited_write_steps[OF a(1)] show "recorded js holds d' t v = recorded js holds d t v"
  proof
    assume "\<exists>x row. put tag w (au_inner d) = (au_inner d', x) \<and> steps (au_db d') = steps (au_db d) @ [row] \<and>
       target_json row = js_target js tag w \<and> (is_ok r \<longrightarrow> r = x \<and> ms_status row = fst (write_verdict el r))"
    then obtain x row where p: "put tag w (au_inner d) = (au_inner d', x)" "steps (au_db d') = steps (au_db d) @ [row]"
      "target_json row = js_target js tag w" by blast
    have "target_json row \<noteq> js_target js t v" using assms(2)[of tag w t v] a(2) p(3) by auto
    then show ?thesis using tag_store.untouched[OF assms(1) p(1) a(2)] p(2) by (auto simp: recorded_def)
  qed (simp add: recorded_def)
qed

text \<open>Below the audit, the driver is the tag store it wraps; a chain of accepted writes leaves one
  confirmed step for each of them.\<close>

lemma audited_inner_store:
  assumes "tag_store put holds"
  shows "tag_store (audited_write js el put rid) (\<lambda>s. holds (au_inner s))"
proof
  fix tag w d d' x
  assume a: "audited_write js el put rid tag w d = (d', Ok x)" "wo_success x"
  then have "put tag w (au_inner d) = (au_inner d', Ok x)" using audited_write_steps[OF a(1)] by auto
  then show "holds (au_inner d') tag w" using tag_store.accepted[OF assms] a(2) by blast
next
  fix tag w d d' r t v
  assume a: "audited_write js el put rid tag w d = (d', r)" "t \<noteq> tag"
  show "holds (au_inner d') t v = holds (au_inner d) t v"
    using audited_write_steps[OF a(1)] tag_store.untouched[OF assms _ a(2)] by metis
qed

lemma accepted_audited:
  "accepted_writes (audited_write js el put rid) ws s = Some s' \<Longrightarrow>
   \<exists>rows. steps (au_db s') = steps (au_db s) @ rows \<and>
     list_all2 (\<lambda>(t, v) row. target_json row = js_target js t v \<and> ms_status row = StepConfirmed) ws rows"
proof (induction ws arbitrary: s)
  case (Cons a ws)
  obtain tag w s1 x where a: "a = (tag, w)" "audited_write js el put rid tag w s = (s1, Ok x)" "wo_success x"
    "accepted_writes (audited_write js el put rid) ws s1 = Some s'"
    using Cons.prems by (cases a) (auto split: prod.splits sum.splits if_splits)
  obtain row where row: "steps (au_db s1) = steps (au_db s) @ [row]" "target_json row = js_target js tag w"
    "ms_status row = StepConfirmed"
    using audited_write_steps[OF a(2)] a(3) by (auto simp: write_verdict_def)
  obtain rows where "steps (au_db s') = steps (au_db s1) @ rows"
    "list_all2 (\<lambda>(t, v) row. target_json row = js_target js t v \<and> ms_status row = StepConfirmed) ws rows"
    using Cons.IH[OF a(4)] by blast
  then show ?case using row by (intro exI[of _ "row # rows"]) (simp add: a(1))
qed simp


section \<open>One owner per controller\<close>

lemma live_claim_key_eq:
  assumes "inj (js_strings js)"
  shows "live_claim_key js a (live_resource_key js h s t) = live_claim_key js a' (live_resource_key js h' s' t') \<longleftrightarrow>
    a = a' \<and> to_ascii_lowercase h = to_ascii_lowercase h' \<and> to_ascii_lowercase s = to_ascii_lowercase s' \<and> t = t'"
  by (simp add: live_claim_key_def live_resource_key_def inj_eq[OF assms])

lemma acquire_Ok:
  assumes "acquire js env pid now rid kind host server tag intent d = (d', Ok g)"
  shows "try_acquire env = Ok (Some (gd_database_key g))"
    and "gd_claim_key g = live_claim_key js (gd_database_key g) (live_resource_key js host server tag)"
    and "\<exists>new. create_and_claim (js_valid js) new (gd_claim_key g) d = (d', Ok (Some (gd_owner g)))"
  using assms by (auto simp: acquire_def start_heartbeat_def Let_def split: sum.splits option.splits prod.splits)

text \<open>C24: While an operation owns a controller, nobody acquires the same controller in the same database,
  however the host and the server are spelled and even if the operating system's lock were free:
  whatever the other processes do with the database, until an operation that names the owner
  itself or a deletion of runs ends the claim, the claim stays and an acquisition fails.\<close>

theorem acquire_excludes:
  assumes "db_reach (js_valid js) d" "acquire js env pid now rid kind host server tag intent d = (d1, Ok g)"
    and "\<forall>op \<in> set ops. \<not> op_concerns op (lo_id (gd_owner g))"
    and "to_ascii_lowercase host' = to_ascii_lowercase host" "to_ascii_lowercase server' = to_ascii_lowercase server"
    and "try_acquire env' = Ok (Some (gd_database_key g))"
  shows "has_claim (lo_id (gd_owner g)) (gd_claim_key g) (fold (apply_op (js_valid js)) ops d1) \<and>
    \<not> is_ok (snd (acquire js env' pid' now' rid' kind' host' server' tag intent' (fold (apply_op (js_valid js)) ops d1)))"
proof -
  note g = acquire_Ok[OF assms(2)]
  obtain new where c: "create_and_claim (js_valid js) new (gd_claim_key g) d = (d1, Ok (Some (gd_owner g)))" using g(3) by blast
  have a: "claim_acquire (js_valid js, new) (gd_claim_key g) d = (d1, Some (lo_id (gd_owner g)))"
    by (simp add: claim_acquire_def c)
  have ok: "db_ok d" using reach_ok assms(1) by blast
  let ?d = "fold (apply_op (js_valid js)) ops d1"
  note e = claim_lease.exclusive[OF ok a assms(3)]
  have key: "live_claim_key js (gd_database_key g) (live_resource_key js host' server' tag) = gd_claim_key g"
    using assms(4,5) by (simp add: g(2) live_resource_key_def)
  have n: "snd (claim_acquire (js_valid js, new') (gd_claim_key g) ?d) = None" for new' by (rule e(2))
  have "snd (create_and_claim (js_valid js) new' (gd_claim_key g) ?d) \<noteq> Ok (Some r)" for new' r
    using n[of new']
    by (cases "create_and_claim (js_valid js) new' (gd_claim_key g) ?d") (auto simp: claim_acquire_def)
  then have "\<not> is_ok (snd (acquire js env' pid' now' rid' kind' host' server' tag intent' ?d))"
    using assms(6) by (auto simp: acquire_def key Let_def split: sum.splits option.splits prod.splits) (metis snd_conv)
  then show ?thesis using e(1) by (simp add: has_claim_iff)
qed

section \<open>Witnesses\<close>

definition ones :: "nat \<Rightarrow> string" where "ones n = replicate n CHR ''1''"

definition enc_int :: "int \<Rightarrow> string" where
  "enc_int i = (if i < 0 then CHR ''-'' # ones (nat (- i)) else CHR ''+'' # ones (nat i))"

fun enc_float :: "f32 \<Rightarrow> string" where
  "enc_float (Fin r) = enc_int (fst (quotient_of r)) @ enc_int (snd (quotient_of r))"
| "enc_float x = (if x = NaN then ''n'' else if x = PInf then ''p'' else if x = NInf then ''m'' else ''z'')"

fun enc_write :: "tag_write \<Rightarrow> string" where
  "enc_write (WFloat v) = CHR ''f'' # enc_float v"
| "enc_write (WRaw s) = CHR ''r'' # s"

lemma ones_append: "ones n @ c # xs = ones m @ c' # ys \<Longrightarrow> c \<noteq> CHR ''1'' \<Longrightarrow> c' \<noteq> CHR ''1'' \<Longrightarrow> n = m \<and> c = c' \<and> xs = ys"
  by (induction n arbitrary: m) (case_tac [!] m, auto simp: ones_def)

definition demo_js :: json_lib where
  "demo_js = \<lparr> js_strings = (\<lambda>_. []), js_target = (\<lambda>tag w. ones (length tag) @ CHR '':'' # tag @ enc_write w),
     js_valid = (\<lambda>_. True) \<rparr>"

lemma enc_int_inj: "enc_int a @ CHR ''+'' # xs = enc_int b @ CHR ''+'' # ys \<Longrightarrow> a = b \<and> xs = ys"
  by (auto simp: enc_int_def split: if_splits dest!: ones_append)

lemma enc_float_inj: "enc_float x = enc_float y \<Longrightarrow> x = y"
proof (cases x; cases y)
  fix r r' assume e: "enc_float x = enc_float y" and x: "x = Fin r" "y = Fin r'"
  obtain a b where q: "quotient_of r = (a, b)" by fastforce
  obtain a' b' where q': "quotient_of r' = (a', b')" by fastforce
  have pos: "b > 0" "b' > 0" using quotient_of_denom_pos[OF q] quotient_of_denom_pos[OF q'] by simp_all
  have "a = a' \<and> ones (nat b) = ones (nat b')"
    using e x q q' pos enc_int_inj[of a "ones (nat b)" a' "ones (nat b')"] by (simp add: enc_int_def)
  moreover have "n = m" if "ones n = ones m" for n m using that by (metis length_replicate ones_def)
  ultimately have "a = a'" "nat b = nat b'" by blast+
  then have "quotient_of r = quotient_of r'" using q q' pos by simp
  then show "x = y" using x quotient_of_inject by blast
qed (auto simp: enc_int_def split: if_splits)

lemma demo_js_inj: "js_target demo_js t w = js_target demo_js t' w' \<Longrightarrow> t = t' \<and> w = w'"
proof -
  assume "js_target demo_js t w = js_target demo_js t' w'"
  then have e: "ones (length t) @ CHR '':'' # t @ enc_write w = ones (length t') @ CHR '':'' # t' @ enc_write w'"
    by (simp add: demo_js_def)
  then have "length t = length t'" "t @ enc_write w = t' @ enc_write w'" using ones_append[OF e] by simp_all
  then show "t = t' \<and> w = w'" by (cases w; cases w') (auto dest: enc_float_inj)
qed

definition demo_el :: error_lib where
  "demo_el = \<lparr> el_driver = (\<lambda>_. ''driver error''), el_db = (\<lambda>_. ''database error'') \<rparr>"

interpretation audited_memory: tag_store "audited_write demo_js demo_el memory_put rid" "recorded demo_js memory_holds" for rid
  by (rule audited_store[OF memory.tag_store_axioms demo_js_inj])

definition demo_guard :: live_guard where
  "demo_guard = start_heartbeat ''db'' (new_owner_row (demo_new_owner None KPidWrite) demo_empty) ''k''"

definition demo_owned :: db where
  "demo_owned = fst (create_and_claim (\<lambda>_. True) (demo_new_owner None KPidWrite) ''k'' demo_empty)"

definition demo_audited :: "((string \<rightharpoonup> tag_write) \<times> (string \<times> tag_write \<times> (driver_error, write_outcome) result) list) audited_driver" where
  "demo_audited = \<lparr> au_inner = (Map.empty, []), au_db = demo_owned, au_guard = demo_guard, au_clock = int, au_reads = 0 \<rparr>"

lemma demo_owned_reach: "db_reach (\<lambda>_. True) demo_owned"
  using db_reach.step[OF demo_empty_reach, of "\<lambda>_. True" "OpClaim (demo_new_owner None KPidWrite) ''k''"]
  by (simp add: demo_owned_def)

lemma demo_owned_ok: "db_ok demo_owned" using reach_ok[OF demo_owned_reach] by blast

lemma demo_owned_eq:
  "owners demo_owned = [new_owner_row (demo_new_owner None KPidWrite) demo_empty]"
  "claims demo_owned = [\<lparr> claim_key = ''k'', cl_owner_id = 1, claimed_at = 100 \<rparr>]"
  "steps demo_owned = []" "steps_seq demo_owned = 0"
  by (simp_all add: demo_owned_def create_and_claim_def run_tx_def insert_owner_def new_owner_row_def demo_new_owner_def
      demo_empty_def empty_db_def owner_check_def json_ok_def run_reference_ok_def
      insert_claim_or_nothing_def insert_claim_def one_row_def Let_def)

lemma demo_forwarded:
  "audited_write demo_js demo_el (recording memory_put) None ''M'' (WFloat (Fin 5)) demo_audited = (s', r) \<Longrightarrow>
   snd (au_inner s') = [(''M'', WFloat (Fin 5), Ok write_success)] \<and> r = Ok write_success"
  by (auto simp: audited_write_def demo_audited_def demo_guard_def start_heartbeat_def ensure_healthy_def write_target_json_def
      take_previous_write_value_def step_begin_def step_finish_def run_tx_def insert_step_def intent_of_def demo_owned_eq
      new_owner_row_def demo_new_owner_def demo_empty_def empty_db_def holds_claim_def step_check_def json_ok_def
      run_reference_ok_def demo_js_def recording_def memory_put_def write_verdict_def write_success_def sql_update_def
      affected_def update_where_def one_row_def)

theorem writes_are_recorded_witness:
  "\<exists>rows. steps (au_db (fold (live_event demo_js demo_el (recording memory_put) None)
       [LvQueue ''M'' ''4'', LvBeat 105, LvWrite ''M'' (WFloat (Fin 5))] demo_audited)) = rows \<and>
     list_all2 (row_of_write demo_js demo_el 1) (snd (au_inner (fold (live_event demo_js demo_el (recording memory_put) None)
       [LvQueue ''M'' ''4'', LvBeat 105, LvWrite ''M'' (WFloat (Fin 5))] demo_audited))) rows"
  using writes_are_recorded[of demo_audited demo_js demo_el memory_put None "[LvQueue ''M'' ''4'', LvBeat 105, LvWrite ''M'' (WFloat (Fin 5))]"]
    demo_owned_ok
  by (simp add: demo_audited_def demo_guard_def start_heartbeat_def new_owner_row_def demo_empty_def empty_db_def demo_owned_eq
      del: fold.simps)

theorem write_needs_ownership_witness:
  "\<exists>s'. audited_write demo_js demo_el (recording memory_put) None ''M'' (WFloat (Fin 5)) demo_audited = (s', Ok write_success) \<and>
     \<not> gd_failed demo_guard \<and> holds_claim 1 demo_owned"
proof -
  obtain s' r where w: "audited_write demo_js demo_el (recording memory_put) None ''M'' (WFloat (Fin 5)) demo_audited = (s', r)" by fastforce
  have "db_ok (au_db demo_audited)" using demo_owned_ok by (simp add: demo_audited_def)
  from write_needs_ownership[OF this w] show ?thesis
    using demo_forwarded[OF w] w
    by (auto simp: demo_audited_def demo_guard_def start_heartbeat_def new_owner_row_def demo_empty_def empty_db_def)
qed

definition demo_env :: lock_env where
  "demo_env = \<lparr> le_path = Ok ''/a.db'', le_canonical = (\<lambda>p. Ok (Some p)), le_open = (\<lambda>_. Ok ()), le_lock = (\<lambda>_. Ok ()), le_contended = None \<rparr>"

lemma demo_try: "try_acquire demo_env = Ok (Some ''/a.db'')"
  by (simp add: try_acquire_def demo_env_def canonicalize_database_path_def database_key_from_canonical_path_def classify_lock_result_def)

theorem acquire_excludes_witness:
  "\<exists>d1 g. acquire demo_js demo_env 1 100 None KPidWrite ''Gateway'' ''PLC'' ''M'' None demo_empty = (d1, Ok g) \<and>
     \<not> is_ok (snd (acquire demo_js demo_env 2 200 None KOpcWrite ''GATEWAY'' ''plc'' ''M'' None
       (fold (apply_op (js_valid demo_js)) [OpHeartbeat 1 150] d1)))"
proof -
  obtain d1 g where a: "acquire demo_js demo_env 1 100 None KPidWrite ''Gateway'' ''PLC'' ''M'' None demo_empty = (d1, Ok g)"
    by (simp add: acquire_def demo_try create_and_claim_def run_tx_def insert_owner_def new_owner_row_def
      demo_empty_def empty_db_def owner_check_def json_ok_def run_reference_ok_def
      insert_claim_or_nothing_def insert_claim_def one_row_def Let_def)
  then have env: "try_acquire demo_env = Ok (Some (gd_database_key g))" using acquire_Ok(1) by blast
  have "to_ascii_lowercase ''GATEWAY'' = to_ascii_lowercase ''Gateway''" "to_ascii_lowercase ''plc'' = to_ascii_lowercase ''PLC''"
    by (simp_all add: to_ascii_lowercase_def char_of_def bit_Suc_0_iff)
  from acquire_excludes[OF demo_empty_reach a _ this env, of "[OpHeartbeat 1 150]" 2 200 None KOpcWrite None]
  show ?thesis using a by auto
qed

definition demo_restore_driver :: "(string \<rightharpoonup> tag_write) audited_driver" where
  "demo_restore_driver = \<lparr> au_inner = Map.empty, au_db = demo_owned, au_guard = demo_guard, au_clock = int, au_reads = 0 \<rparr>"

lemma demo_put:
  assumes "can_write None s" "gd_owner (au_guard s) = gd_owner demo_guard" "is_ok (write_target_json demo_js tag w)"
  shows "\<exists>s'. audited_write demo_js demo_el memory_put None tag w s = (s', Ok write_success) \<and> can_write None s' \<and>
    gd_owner (au_guard s') = gd_owner demo_guard"
  using audited_write_goes[where js = demo_js and rid = None and s = s and tag = tag and w = w and el = demo_el and put = memory_put] assms
  by (auto simp: demo_js_def memory_put_def forwarded_def)

lemma demo_restored_audited:
  "re_attempt (attempt_restore (audited_write demo_js demo_el memory_put None) demo_restore_ctx AuditRequired None demo_restore_input
     None None demo_restore_driver None empty_db) = Some AttemptConfirmed"
proof -
  let ?put = "audited_write demo_js demo_el memory_put None"
  have r0: "can_write None demo_restore_driver" "gd_owner (au_guard demo_restore_driver) = gd_owner demo_guard"
    using demo_owned_ok
    by (simp_all add: can_write_def demo_restore_driver_def demo_guard_def start_heartbeat_def run_reference_ok_def demo_owned_eq
        holds_claim_def new_owner_row_def demo_new_owner_def demo_empty_def empty_db_def)
  have t: "is_ok (write_target_json demo_js tag (WFloat (Fin v)))" "is_ok (write_target_json demo_js tag (WRaw x))" for tag v x
    by (simp_all add: write_target_json_def)
  obtain s1 where 1: "?put ''M'' (WFloat (Fin 50)) demo_restore_driver = (s1, Ok write_success)" "can_write None s1" "gd_owner (au_guard s1) = gd_owner demo_guard" using demo_put[OF r0(1,2) t(1)] by blast
  obtain s2 where 2: "?put ''C'' (WRaw ''AUT'') s1 = (s2, Ok write_success)" "can_write None s2" "gd_owner (au_guard s2) = gd_owner demo_guard" using demo_put[OF 1(2,3) t(2)] by blast
  obtain s3 where 3: "?put ''S'' (WFloat (Fin 40)) s2 = (s3, Ok write_success)" "can_write None s3" "gd_owner (au_guard s3) = gd_owner demo_guard" using demo_put[OF 2(2,3) t(1)] by blast
  obtain s4 where 4: "?put ''A'' (WRaw ''OPERATOR'') s3 = (s4, Ok write_success)" "can_write None s4" "gd_owner (au_guard s4) = gd_owner demo_guard" using demo_put[OF 3(2,3) t(2)] by blast
  have w: "mode_write (rx_tags demo_restore_ctx) (rx_template demo_restore_ctx) (rx_initial demo_restore_ctx) (rx_guard demo_restore_ctx) = Some (''C'', WRaw ''AUT'')"
    "setpoint_write (rx_tags demo_restore_ctx) (rx_template demo_restore_ctx) (rx_initial demo_restore_ctx) (rx_guard demo_restore_ctx) = Some (''S'', WFloat (Fin 40))"
    "attribute_write (rx_tags demo_restore_ctx) (rx_template demo_restore_ctx) (rx_initial demo_restore_ctx) (rx_guard demo_restore_ctx) = Some (''A'', WRaw ''OPERATOR'')"
    by (simp_all add: mode_write_def setpoint_write_def attribute_write_def demo_restore_ctx_def
      demo_ctx_def demo_initial_def yokogawa_template_def unwrap_or_default_def Let_def)
  have m: "g_manipulated_variable (rx_tags demo_restore_ctx) = ''M''" "is_mv_ini (rx_initial demo_restore_ctx) = Fin 50"
    by (simp_all add: demo_restore_ctx_def demo_ctx_def demo_initial_def)
  have i: "ri_write demo_restore_input = CallRan" "ri_finish demo_restore_input = FinishSteps" by (simp_all add: demo_restore_input_def)
  show ?thesis
    by (simp add: attempt_restore_def restore_mv_step_def bounded_write_def write_value_def write_result_def m i 1 2 3 4 w
      write_success_def restore_write_outcome_def restore_mv_outcome_or_failed_def
      settling_duration_def option_filter_def after_mv_def restore_after_mv_with_deadline_def
      restore_after_mv_with_policy_def steps_are_writes run_step_def step_of_def all_succeeded_def Let_def
      1[unfolded write_success_def] 2[unfolded write_success_def] 3[unfolded write_success_def] 4[unfolded write_success_def])
qed


end
