(* ===== verification/Tuning_Math.thy ===== *)
theory Tuning_Math
  imports Mrft Template
begin

text \<open>
  From a completed relay test to PID parameters (\<open>bhtune-core/src/tuning_math.rs\<close>): the
  oscillation measurement with its assertions (a panic is \<open>None\<close>), the tuning results of the
  three response levels, their conversion to the template's units, the checked results, the
  values written back and the controller targets.

  Main facts: the measurement never panics on what the engine reports, a checked result is
  usable exactly when every value is finite and then agrees with the unchecked calculation.
\<close>

section \<open>Model\<close>

record oscillation =
  os_period_minutes :: f32
  os_frequency :: f32
  os_pv_amp_raw :: f32
  os_pv_amp_percent :: f32

record tuning_result =
  tr_response_level :: response_level
  tr_kp :: f32
  tr_ti_minutes :: f32
  tr_td_minutes :: f32

record pid_parameters =
  pp_response_level :: response_level
  pp_proportional :: f32
  pp_integral :: f32
  pp_derivative :: f32

record opc_write_values_t =
  ow_response_level :: response_level
  ow_proportional :: f32
  ow_integral :: f32
  ow_derivative :: f32

datatype tuning_result_status = Valid | Invalid

datatype invalid_reason =
  NonFinitePvAmplitude
| NonPositivePvAmplitude
| NonFinitePeriod
| NonPositivePeriod
| NonFiniteFrequency
| NonPositiveFrequency
| NonFiniteKp
| NonFiniteTiMinutes
| NonFiniteTdMinutes
| NonFiniteProportional
| NonFiniteIntegral
| NonFiniteDerivative

record checked_tuning_result =
  ct_response_level :: response_level
  ct_status :: tuning_result_status
  ct_invalid_reason :: "invalid_reason option"
  ct_tuning :: "tuning_result option"
  ct_pid :: "pid_parameters option"

definition checked_invalid :: "response_level \<Rightarrow> invalid_reason \<Rightarrow> checked_tuning_result" where
  "checked_invalid level reason = \<lparr>ct_response_level = level, ct_status = Invalid,
     ct_invalid_reason = Some reason, ct_tuning = None, ct_pid = None\<rparr>"

definition checked_valid :: "tuning_result \<Rightarrow> pid_parameters \<Rightarrow> checked_tuning_result" where
  "checked_valid tuning pid = \<lparr>ct_response_level = tr_response_level tuning, ct_status = Valid,
     ct_invalid_reason = None, ct_tuning = Some tuning, ct_pid = Some pid\<rparr>"

definition usable_values :: "checked_tuning_result \<Rightarrow> (tuning_result \<times> pid_parameters) option" where
  "usable_values r = (case (ct_status r, ct_invalid_reason r, ct_tuning r, ct_pid r) of
     (Valid, None, Some tuning, Some pid) \<Rightarrow> Some (tuning, pid) | _ \<Rightarrow> None)"

definition PI_32 :: f32 where "PI_32 = Fin (13176795 / 4194304)"
definition PI_64 :: f64 where "PI_64 = Fin (884279719003555 / 281474976710656)"

text \<open>\<open>Iterator::sum\<close> of floats folds from minus zero.\<close>

definition fl_sum :: "f32 list \<Rightarrow> f32" where
  "fl_sum xs = foldl (fl_add B32) NZero xs"

definition measure_oscillation ::
  "f32 list \<Rightarrow> f32 list \<Rightarrow> timestamp list \<Rightarrow> i8 \<Rightarrow> controller_direction \<Rightarrow> loop_config
     \<Rightarrow> pv_range \<Rightarrow> oscillation option" where
  "measure_oscillation peaks troughs switch_times mv_sign_init direction config pv_range =
    (let n = unat (lc_num_cycles_count config);
         first_switch_is_peak = (mv_sign_init * action_multiplier direction = 1) in
     if length switch_times < 2 then None
     else if length switch_times \<noteq> n * 2 + 1 then None
     else if first_switch_is_peak \<and> (length peaks \<noteq> n + 1 \<or> length troughs \<noteq> n) then None
     else if \<not> first_switch_is_peak \<and> (length troughs \<noteq> n + 1 \<or> length peaks \<noteq> n) then None
     else
       (let (peaks_sum, troughs_sum) =
              (if first_switch_is_peak then (fl_sum (tl peaks), fl_sum troughs)
               else (fl_sum peaks, fl_sum (tl troughs)));
            elapsed_ms = num_milliseconds (last switch_times - hd switch_times);
            secs_for_period = fl_div B32 (fl_of_int B32 elapsed_ms) (lit32 1000);
            period_minutes = fl_div B32 (fl_div B32 secs_for_period (lit32 60))
              (fl_of_int B32 (int n));
            frequency = fl_div B32 (fl_mul B32 (lit32 2) PI_32) period_minutes;
            pv_amp_raw = fl_div B32 (fl_sub B32 peaks_sum troughs_sum)
              (fl_mul B32 (lit32 2) (fl_of_int B32 (int n)));
            pv_amp_percent = fl_mul B32
              (fl_div B32 pv_amp_raw (fl_sub B32 (pv_high pv_range) (pv_low pv_range))) (lit32 100)
        in Some \<lparr>os_period_minutes = period_minutes, os_frequency = frequency,
             os_pv_amp_raw = pv_amp_raw, os_pv_amp_percent = pv_amp_percent\<rparr>))"

definition calculate_tuning_result ::
  "oscillation \<Rightarrow> loop_config \<Rightarrow> response_level \<Rightarrow> tuning_result" where
  "calculate_tuning_result os config level =
    (let tc = lookup (lc_process_type config) (lc_controller_type config) level;
         kp_denom = to_f32 (fl_mul B64 PI_64 (os_pv_amp_percent os))
     in \<lparr>tr_response_level = level,
         tr_kp = fl_div B32 (fl_mul B32 (fl_mul B32 (tc_c1 tc) (lit32 4))
           (lc_relay_amp_percent config)) kp_denom,
         tr_ti_minutes = fl_div B32 (fl_mul B32 (fl_mul B32 (tc_c2 tc) (lit32 2)) PI_32)
           (os_frequency os),
         tr_td_minutes = fl_div B32 (fl_mul B32 (fl_mul B32 (tc_c3 tc) (lit32 2)) PI_32)
           (os_frequency os)\<rparr>)"

definition calculate_pid_parameters :: "tuning_result \<Rightarrow> dcs_template \<Rightarrow> pid_parameters" where
  "calculate_pid_parameters r t =
    (let integral_in_template_unit = (case t_integral_unit t of
           Seconds \<Rightarrow> fl_mul B32 (tr_ti_minutes r) (lit32 60) | Minutes \<Rightarrow> tr_ti_minutes r);
         derivative_in_template_unit = (case t_derivative_unit t of
           Seconds \<Rightarrow> fl_mul B32 (tr_td_minutes r) (lit32 60) | Minutes \<Rightarrow> tr_td_minutes r)
     in \<lparr>pp_response_level = tr_response_level r,
         pp_proportional = (case t_proportional_type t of
           Gain \<Rightarrow> tr_kp r | Band \<Rightarrow> fl_div B32 (lit32 100) (tr_kp r)),
         pp_integral = (case t_integral_type t of
           ResetTime \<Rightarrow> integral_in_template_unit
         | ResetRate \<Rightarrow> fl_div B32 (lit32 1) integral_in_template_unit
         | ResetGain \<Rightarrow> fl_div B32 (tr_kp r) integral_in_template_unit),
         pp_derivative = (case t_derivative_type t of
           DerivativeTime \<Rightarrow> derivative_in_template_unit
         | DerivativeGain \<Rightarrow> fl_mul B32 (tr_kp r) derivative_in_template_unit)\<rparr>)"

definition opc_write_values ::
  "pid_parameters \<Rightarrow> controller_type \<Rightarrow> integral_type \<Rightarrow> opc_write_values_t" where
  "opc_write_values pid ct it = \<lparr>
     ow_response_level = pp_response_level pid,
     ow_proportional = pp_proportional pid,
     ow_integral = (case ct of
        CT_P \<Rightarrow> (case it of ResetTime \<Rightarrow> lit32 9999 | ResetRate \<Rightarrow> lit32 0 | ResetGain \<Rightarrow> lit32 0)
      | CT_Pi \<Rightarrow> pp_integral pid | CT_Pid \<Rightarrow> pp_integral pid),
     ow_derivative = (case ct of
        CT_Pid \<Rightarrow> pp_derivative pid | CT_P \<Rightarrow> lit32 0 | CT_Pi \<Rightarrow> lit32 0)\<rparr>"

record controller_pid_values_t =
  cp_response_level :: response_level
  cp_proportional :: rounded_pid_value
  cp_integral :: rounded_pid_value
  cp_derivative :: rounded_pid_value

datatype controller_pid_error = ControllerPidError string pid_rounding_error

definition rounded_active_term ::
  "float_lib \<Rightarrow> f32 \<Rightarrow> string \<Rightarrow> pid_rounding \<Rightarrow> (controller_pid_error, rounded_pid_value) result" where
  "rounded_active_term L value term policy =
    bind_result (map_err (ControllerPidError term) (round_value L policy value)) (\<lambda>rounded.
      if fl_le value (Fin 0) then Err (ControllerPidError term NonPositive)
      else if fl_eq (rv_value rounded) (Fin 0) then Err (ControllerPidError term RoundedToZero)
      else Ok rounded)"

definition controller_pid_values ::
  "float_lib \<Rightarrow> pid_parameters \<Rightarrow> controller_type \<Rightarrow> dcs_template
     \<Rightarrow> (controller_pid_error, controller_pid_values_t) result" where
  "controller_pid_values L pid ct t =
    (let raw = opc_write_values pid ct (t_integral_type t); policy = t_pid_rounding t in
     bind_result (rounded_active_term L (ow_proportional raw) ''proportional'' policy) (\<lambda>proportional.
     bind_result (case ct of CT_P \<Rightarrow> Ok (disabled_value L policy (ow_integral raw))
         | _ \<Rightarrow> rounded_active_term L (ow_integral raw) ''integral'' policy) (\<lambda>integral.
     bind_result (case ct of CT_Pid \<Rightarrow> rounded_active_term L (ow_derivative raw) ''derivative'' policy
         | _ \<Rightarrow> Ok (disabled_value L policy (ow_derivative raw))) (\<lambda>derivative.
     Ok \<lparr>cp_response_level = ow_response_level raw, cp_proportional = proportional,
         cp_integral = integral, cp_derivative = derivative\<rparr>))))"

definition calculate_all ::
  "f32 list \<Rightarrow> f32 list \<Rightarrow> timestamp list \<Rightarrow> i8 \<Rightarrow> controller_direction \<Rightarrow> loop_config
     \<Rightarrow> pv_range \<Rightarrow> dcs_template \<Rightarrow> (tuning_result \<times> pid_parameters) list option" where
  "calculate_all peaks troughs switch_times sign direction config pvr t =
    (case measure_oscillation peaks troughs switch_times sign direction config pvr of
       None \<Rightarrow> None
     | Some os \<Rightarrow> Some (map (\<lambda>level.
         let result = calculate_tuning_result os config level in
         (result, calculate_pid_parameters result t)) response_all))"

definition invalid_oscillation_reason :: "oscillation \<Rightarrow> invalid_reason option" where
  "invalid_oscillation_reason os =
    (if \<not> is_finite (os_pv_amp_raw os) \<or> \<not> is_finite (os_pv_amp_percent os)
       then Some NonFinitePvAmplitude
     else if fl_le (os_pv_amp_raw os) (Fin 0) \<or> fl_le (os_pv_amp_percent os) (Fin 0)
       then Some NonPositivePvAmplitude
     else if \<not> is_finite (os_period_minutes os) then Some NonFinitePeriod
     else if fl_le (os_period_minutes os) (Fin 0) then Some NonPositivePeriod
     else if \<not> is_finite (os_frequency os) then Some NonFiniteFrequency
     else if fl_le (os_frequency os) (Fin 0) then Some NonPositiveFrequency
     else None)"

definition checked_result_from_tuning :: "tuning_result \<Rightarrow> dcs_template \<Rightarrow> checked_tuning_result" where
  "checked_result_from_tuning r t =
    (let level = tr_response_level r in
     if \<not> is_finite (tr_kp r) then checked_invalid level NonFiniteKp
     else if \<not> is_finite (tr_ti_minutes r) then checked_invalid level NonFiniteTiMinutes
     else if \<not> is_finite (tr_td_minutes r) then checked_invalid level NonFiniteTdMinutes
     else
       (let pid = calculate_pid_parameters r t in
        if \<not> is_finite (pp_proportional pid) then checked_invalid level NonFiniteProportional
        else if \<not> is_finite (pp_integral pid) then checked_invalid level NonFiniteIntegral
        else if \<not> is_finite (pp_derivative pid) then checked_invalid level NonFiniteDerivative
        else checked_valid r pid))"

definition calculate_all_checked ::
  "f32 list \<Rightarrow> f32 list \<Rightarrow> timestamp list \<Rightarrow> i8 \<Rightarrow> controller_direction \<Rightarrow> loop_config
     \<Rightarrow> pv_range \<Rightarrow> dcs_template \<Rightarrow> checked_tuning_result list option" where
  "calculate_all_checked peaks troughs switch_times sign direction config pvr t =
    (case measure_oscillation peaks troughs switch_times sign direction config pvr of
       None \<Rightarrow> None
     | Some os \<Rightarrow>
         (let oscillation_reason = invalid_oscillation_reason os in
          Some (map (\<lambda>level. case oscillation_reason of
              Some reason \<Rightarrow> checked_invalid level reason
            | None \<Rightarrow> checked_result_from_tuning (calculate_tuning_result os config level) t)
            response_all)))"

section \<open>The engine's reports can be measured\<close>

text \<open>What a completion carries is the state of the engine it leaves behind.\<close>

definition completion_of :: "mrft_engine \<Rightarrow> action" where
  "completion_of e = Complete (e_peaks e) (e_troughs e) (e_switch_times e) (e_mv_sign_init e)"

lemma step_completion:
  assumes "engine_ok e" "Complete ps trs sw si \<in> set (snd (engine_step e t))"
  shows "e_completed (fst (engine_step e t))" "Complete ps trs sw si = completion_of (fst (engine_step e t))"
  using assms(2) by (cases rule: engine_step_cases [of e t];
    auto simp: completion_of_def split: if_splits)+

lemma run_completion:
  assumes "engine_ok e0" "Complete ps trs sw si \<in> set (snd (engine_run e0 ts))"
  shows "\<exists>e. engine_ok e \<and> same_params e0 e \<and> e_completed e \<and> Complete ps trs sw si = completion_of e"
  using assms(2)
proof (induction ts rule: rev_induct)
  case (snoc t ts)
  let ?e = "fst (engine_run e0 ts)"
  have ok: "engine_ok ?e" by (rule run_ok [OF assms(1)])
  have sp: "same_params e0 ?e" by (rule run_same_params [OF assms(1)])
  from snoc.prems consider "Complete ps trs sw si \<in> set (snd (engine_run e0 ts))"
    | "Complete ps trs sw si \<in> set (snd (engine_step ?e t))" by (auto simp: engine_run_snoc)
  then show ?case
  proof cases
    case 1
    then show ?thesis by (rule snoc.IH)
  next
    case 2
    show ?thesis
      using engine_step_ok [OF ok] same_params_trans [OF sp step_same_params [OF ok]]
        step_completion [OF ok 2] by blast
  qed
qed simp

lemma completion_lengths:
  assumes "engine_ok e" "e_completed e"
  shows "length (e_switch_times e) = 2 * unat (e_num_cycles_count e) + 1"
    "if e_mv_sign_init e * e_action_multiplier e = 1
     then length (e_peaks e) = unat (e_num_cycles_count e) + 1
       \<and> length (e_troughs e) = unat (e_num_cycles_count e)
     else length (e_peaks e) = unat (e_num_cycles_count e)
       \<and> length (e_troughs e) = unat (e_num_cycles_count e) + 1"
proof -
  have "switches e = total_switches e" using assms by (simp add: engine_ok_def counts_ok_def)
  then have r: "recorded e = 2 * unat (e_num_cycles_count e) + 1" by (simp add: recorded_def)
  show "length (e_switch_times e) = 2 * unat (e_num_cycles_count e) + 1"
    "if e_mv_sign_init e * e_action_multiplier e = 1
     then length (e_peaks e) = unat (e_num_cycles_count e) + 1
       \<and> length (e_troughs e) = unat (e_num_cycles_count e)
     else length (e_peaks e) = unat (e_num_cycles_count e)
       \<and> length (e_troughs e) = unat (e_num_cycles_count e) + 1"
    using assms by (simp_all add: engine_ok_def counts_ok_def r)
qed

lemma measure_defined:
  assumes "length sw = 2 * unat (lc_num_cycles_count c) + 1" "0 < unat (lc_num_cycles_count c)"
    "if si * action_multiplier d = 1
     then length ps = unat (lc_num_cycles_count c) + 1 \<and> length trs = unat (lc_num_cycles_count c)
     else length ps = unat (lc_num_cycles_count c) \<and> length trs = unat (lc_num_cycles_count c) + 1"
  shows "measure_oscillation ps trs sw si d c pvr \<noteq> None"
proof -
  have "\<not> length sw < 2" "length sw = unat (lc_num_cycles_count c) * 2 + 1" using assms by simp_all
  then show ?thesis using assms(3)
    by (cases "si * action_multiplier d = 1")
      (simp_all add: measure_oscillation_def case_prod_beta Let_def)
qed

text \<open>C3: below the overflow of the switch count, the measurement's assertions never fire.  For a
  configuration that counts at least one cycle and whose number of switches (two for every skipped
  and counted cycle, and one) stays in range (\<open>cycles_bounded\<close>: below 2 to the 31), whatever
  completion the engine reports, \<open>measure_oscillation\<close> with the same direction and configuration
  returns a value: the numbers of switches, peaks and troughs are the asserted ones.  The bound is
  not checked by the code and cannot be dropped: \<open>cycle_count_wraps\<close> below.\<close>

theorem measurement_never_panics:
  assumes "cycles_bounded c" "0 < unat (lc_num_cycles_count c)"
    and "Complete ps trs sw si \<in> set (snd (engine_run (engine_new c d b i t0) ts))"
  shows "measure_oscillation ps trs sw si d c pvr \<noteq> None"
proof -
  have ok: "engine_ok (engine_new c d b i t0)" by (rule engine_ok_new [OF assms(1)])
  obtain e where e: "engine_ok e" "same_params (engine_new c d b i t0) e" "e_completed e"
    "Complete ps trs sw si = completion_of e"
    using run_completion [OF ok assms(3)] by blast
  then have "e_num_cycles_count e = lc_num_cycles_count c" "e_action_multiplier e = action_multiplier d"
    by (simp_all add: same_params_def engine_new_def)
  with completion_lengths [OF e(1,3)] e(4) show ?thesis
    by (intro measure_defined assms(2)) (simp_all add: completion_of_def)
qed

theorem measurement_never_panics_witness:
  "measure_oscillation [Fin 50, Fin 52] [Fin 48] [1000000000, 3000000000, 5000000000] 1 Reverse
     demo_config \<lparr>pv_high = Fin 100, pv_low = Fin 0\<rparr> \<noteq> None"
proof (rule measurement_never_panics [OF demo_facts(1)])
  show "0 < unat (lc_num_cycles_count demo_config)" by (simp add: demo_config_def)
  show "Complete [Fin 50, Fin 52] [Fin 48] [1000000000, 3000000000, 5000000000] 1
      \<in> set (snd (engine_run (engine_new demo_config Reverse (Fin 0) demo_initial 0) demo_ticks))"
    unfolding demo_engine_def [symmetric] by (subst demo_run(1)) simp
qed

text \<open>Validation puts no upper limit on the cycle counts.  With no skipped and 2 to the 31 counted
  cycles the number of switches to reach, computed on 32 bits, wraps to one: the engine completes at
  its first switch, and the measurement of that completion fails its first assertion.\<close>

definition wrapping_config :: loop_config where
  "wrapping_config = demo_config\<lparr>lc_num_cycles_count := 2147483648\<rparr>"

theorem cycle_count_wraps:
  "loop_config_validate wrapping_config = Ok ()"
  "snd (engine_run (engine_new wrapping_config Reverse (Fin 0) demo_initial 0) (take 1 demo_ticks)) =
     [WriteMv (Fin 50), Complete [Fin 50] [] [1000000000] 1]"
  "measure_oscillation [Fin 50] [] [1000000000] 1 Reverse wrapping_config pvr = None"
  by (simp_all add: wrapping_config_def demo_config_def demo_initial_def demo_ticks_def engine_eval
    loop_config_validate_def RELAY_AMP_PERCENT_MIN_def RELAY_AMP_PERCENT_MAX_def MRFT_DELAY_SECS_MAX_def
    measure_oscillation_def wrap_i32_def fl_simps cong: let_weak_cong prod.case_cong_weak)

section \<open>Checked results\<close>

definition values_finite :: "tuning_result \<times> pid_parameters \<Rightarrow> bool" where
  "values_finite v \<longleftrightarrow> list_all is_finite
     [tr_kp (fst v), tr_ti_minutes (fst v), tr_td_minutes (fst v),
      pp_proportional (snd v), pp_integral (snd v), pp_derivative (snd v)]"

lemma usable_checked [simp]:
  "usable_values (checked_invalid level reason) = None"
  "usable_values (checked_valid r p) = Some (r, p)"
  by (simp_all add: usable_values_def checked_invalid_def checked_valid_def)

lemma usable_from_tuning:
  "usable_values (checked_result_from_tuning r t) =
    (if values_finite (r, calculate_pid_parameters r t) then Some (r, calculate_pid_parameters r t)
     else None)"
  by (simp add: checked_result_from_tuning_def values_finite_def Let_def)

text \<open>the checked calculation is the unchecked one with the unusable levels withheld.  It panics
  exactly when the unchecked one does; a level is usable exactly when the measured oscillation is
  finite and positive and all six of its values are finite, and it then carries the values of the
  unchecked calculation.\<close>

theorem checked_is_filtered_unchecked:
  "(calculate_all_checked ps trs sw si d c pvr t = None) = (calculate_all ps trs sw si d c pvr t = None) \<and>
   map_option (map usable_values) (calculate_all_checked ps trs sw si d c pvr t) =
   map_option (map (\<lambda>v. if values_finite v \<and>
       invalid_oscillation_reason (the (measure_oscillation ps trs sw si d c pvr)) = None
       then Some v else None)) (calculate_all ps trs sw si d c pvr t)"
  by (auto simp: calculate_all_checked_def calculate_all_def Let_def usable_from_tuning
    split: option.splits)

section \<open>Levels\<close>

lemma lit32_0 [simp]: "lit32 0 = Fin 0"
  by (simp add: lit32_def)

lemma lit32_simps: "lit32 1 = Fin 1" "lit32 2 = Fin 2" "lit32 4 = Fin 4" "lit32 60 = Fin 60"
  "lit32 9999 = Fin 9999" "lit32 1000 = Fin 1000"
  by (simp_all add: fl_simps)

lemma lookup_P [simp]:
  "tc_c2 (lookup p CT_P l) = Fin 0" "tc_c3 (lookup p CT_P l) = Fin 0"
  by (cases p; simp add: lookup_def C2_def C3_def)+

lemma fl_mul_zero: "is_finite b \<Longrightarrow> \<not> sign_bit b \<Longrightarrow> fl_mul F (Fin 0) b = Fin 0"
  by (cases b) (simp_all add: fl_mul_def Let_def)

lemma fl_div_zero: "is_finite b \<Longrightarrow> 0 < val b \<Longrightarrow> fl_div F (Fin 0) b = Fin 0"
  by (cases b) (simp_all add: fl_div_def Let_def)

lemma fl_div_by_zero: "\<not> is_finite (fl_div F a (Fin 0))"
  by (cases a) (simp_all add: fl_div_def Let_def signed_inf_def)

lemma fl_not_le_0: "is_finite a \<Longrightarrow> \<not> fl_le a (Fin 0) \<longleftrightarrow> 0 < val a"
  by (auto simp: fl_le_finite)

lemma good_oscillation:
  assumes "invalid_oscillation_reason os = None"
  shows "is_finite (os_pv_amp_percent os)" "0 < val (os_pv_amp_percent os)"
    "is_finite (os_frequency os)" "0 < val (os_frequency os)"
  using assms by (auto simp: invalid_oscillation_reason_def fl_not_le_0 split: if_splits)

lemma P_integral_time:
  assumes "invalid_oscillation_reason os = None" "lc_controller_type c = CT_P"
  shows "tr_ti_minutes (calculate_tuning_result os c level) = Fin 0"
    "tr_td_minutes (calculate_tuning_result os c level) = Fin 0"
  using good_oscillation [OF assms(1)] assms(2)
  by (simp_all add: calculate_tuning_result_def Let_def fl_mul_zero fl_div_zero lit32_simps PI_32_def)

lemma P_integral_not_finite:
  assumes "tr_ti_minutes r = Fin 0" "t_integral_type t \<noteq> ResetTime"
  shows "\<not> is_finite (pp_integral (calculate_pid_parameters r t))"
  using assms
  by (cases "t_integral_type t"; cases "t_integral_unit t")
     (simp_all add: calculate_pid_parameters_def Let_def fl_mul_zero lit32_simps fl_div_by_zero)

text \<open>C5: a proportional-only tune on a template that expresses the integral term as a reset rate or
  gain never yields a usable result: its integral time is zero, the reciprocal is not finite, and
  all three levels are withheld, although \<open>opc_write_values\<close> defines the value to write for it.\<close>

theorem p_only_rate_or_gain_never_usable:
  assumes "lc_controller_type c = CT_P" "t_integral_type t \<noteq> ResetTime"
    and "calculate_all_checked ps trs sw si d c pvr t = Some rs"
  shows "map usable_values rs = [None, None, None]
    \<and> ow_integral (opc_write_values pid CT_P (t_integral_type t)) = Fin 0"
proof -
  obtain os where os: "measure_oscillation ps trs sw si d c pvr = Some os"
    using assms(3) by (auto simp: calculate_all_checked_def split: option.splits)
  have "usable_values (checked_result_from_tuning (calculate_tuning_result os c level) t) = None"
    if "invalid_oscillation_reason os = None" for level
    using P_integral_not_finite [OF P_integral_time(1) [OF that assms(1)] assms(2)]
    by (simp add: usable_from_tuning values_finite_def)
  then have "map usable_values rs = [None, None, None]"
    using assms(3) os
    by (cases "invalid_oscillation_reason os")
      (auto simp: calculate_all_checked_def response_all_def Let_def)
  then show ?thesis using assms(2) by (cases "t_integral_type t") (simp_all add: opc_write_values_def)
qed

definition demo_template :: dcs_template where
  "demo_template = \<lparr>t_name = ''Demo'', t_revert_mode = True, t_proportional_type = Gain,
     t_integral_type = ResetRate, t_integral_unit = Minutes, t_derivative_type = DerivativeTime,
     t_derivative_unit = Minutes, t_pid_rounding = pid_rounding_default,
     t_process_variable_suffix = ''PV'', t_manipulated_variable_suffix = ''MV'',
     t_setpoint_variable_suffix = ''SV'', t_controller_direction_suffix = ''DIR'',
     t_controller_mode_suffix = ''MODE'', t_mode_attribute_suffix = [],
     t_upper_pv_range_suffix = ''SH'', t_lower_pv_range_suffix = ''SL'',
     t_upper_mv_range_suffix = ''MSH'', t_lower_mv_range_suffix = ''MSL'',
     t_proportional_constant_suffix = ''P'', t_integral_constant_suffix = ''I'',
     t_derivative_constant_suffix = ''D'', t_mode_manual_value = ''MAN'', t_mode_auto_value = ''AUT'',
     t_mode_attribute_program_value = None, t_controller_action_direct_value = ''0'',
     t_versions = [], t_description = None, t_source = None\<rparr>"

theorem p_only_rate_or_gain_never_usable_witness:
  "\<exists>rs. calculate_all_checked [Fin 50, Fin 52] [Fin 48] [1000000000, 3000000000, 5000000000] 1 Reverse
     demo_config \<lparr>pv_high = Fin 100, pv_low = Fin 0\<rparr> demo_template = Some rs
   \<and> map usable_values rs = [None, None, None]"
proof -
  have "measure_oscillation [Fin 50, Fin 52] [Fin 48] [1000000000, 3000000000, 5000000000] 1 Reverse
     demo_config \<lparr>pv_high = Fin 100, pv_low = Fin 0\<rparr> \<noteq> None"
    by (rule measure_defined) (simp_all add: demo_config_def)
  then obtain rs where rs: "calculate_all_checked [Fin 50, Fin 52] [Fin 48]
     [1000000000, 3000000000, 5000000000] 1 Reverse
     demo_config \<lparr>pv_high = Fin 100, pv_low = Fin 0\<rparr> demo_template = Some rs"
    by (auto simp: calculate_all_checked_def Let_def)
  have "lc_controller_type demo_config = CT_P" "t_integral_type demo_template \<noteq> ResetTime"
    by (simp_all add: demo_config_def demo_template_def)
  with p_only_rate_or_gain_never_usable [OF _ _ rs] rs show ?thesis by blast
qed

section \<open>Monotone gain\<close>

lemma fl_round_mono:
  "x \<le> y \<Longrightarrow> fl_le (fl_round F n x) (fl_round F m y)"
  using rnd_mono [of x y F] pow2_pos [of "etop F"]
  by (auto simp: fl_round_def Let_def fl_le_def fl_lt_def fl_eq_def)

text \<open>A float that is finite and not below zero.\<close>

definition nonneg :: "fl \<Rightarrow> bool" where
  "nonneg a \<longleftrightarrow> is_finite a \<and> 0 \<le> val a"

lemma nonneg_round: "0 \<le> x \<Longrightarrow> is_finite (fl_round F n x) \<Longrightarrow> nonneg (fl_round F n x)"
  by (simp add: nonneg_def val_fl_round rnd_nonneg)

lemma fl_mul_finite: "is_finite a \<Longrightarrow> is_finite b \<Longrightarrow>
    fl_mul F a b = fl_round F (sign_bit a \<noteq> sign_bit b) (val a * val b)"
  by (simp add: fl_mul_def Let_def)

lemma fl_mul_mono:
  assumes "nonneg a" "nonneg b" "val a \<le> val b" "nonneg c"
  shows "fl_le (fl_mul F a c) (fl_mul F b c)"
  using assms by (auto simp: nonneg_def fl_mul_finite intro!: fl_round_mono mult_right_mono)

lemma fl_le_val_le: "fl_le a b \<Longrightarrow> is_finite a \<Longrightarrow> is_finite b \<Longrightarrow> val a \<le> val b"
  by (simp add: fl_le_finite)

lemma nonneg_mul: "nonneg a \<Longrightarrow> nonneg c \<Longrightarrow> is_finite (fl_mul F a c) \<Longrightarrow> nonneg (fl_mul F a c)"
  by (simp add: nonneg_def fl_mul_finite val_fl_round rnd_nonneg)

lemma fl_div_finite_iff:
  "is_finite (fl_div F a b) \<Longrightarrow> is_finite a \<and> (is_inf b \<or> (is_finite b \<and> val b \<noteq> 0))"
  by (cases a; cases b) (auto simp: fl_div_def Let_def signed_inf_def signed_zero_def split: if_splits)

lemma fl_div_mono:
  assumes "nonneg a" "nonneg b" "val a \<le> val b" "is_finite c \<Longrightarrow> 0 < val c" "is_finite c \<or> is_inf c"
  shows "fl_le (fl_div F a c) (fl_div F b c)"
proof (cases "is_inf c")
  case True
  then show ?thesis using assms
    by (auto simp: nonneg_def fl_div_def signed_zero_def Let_def fl_le_finite)
next
  case False
  then have c: "is_finite c" "0 < val c" using assms(4,5) by auto
  then have "val a / val c \<le> val b / val c" using assms(3) by (simp add: divide_right_mono)
  then show ?thesis using assms(1,2) c
    by (auto simp: nonneg_def fl_div_def Let_def intro: fl_round_mono)
qed

lemma lit32_mono: "q \<le> r \<Longrightarrow> fl_le (lit32 q) (lit32 r)"
  unfolding lit32_def by (rule fl_round_mono)

lemma lit32_finite: "0 \<le> q \<Longrightarrow> q \<le> 2 \<Longrightarrow> nonneg (lit32 q)"
proof -
  assume q: "0 \<le> q" "q \<le> 2"
  have "representable B32 2"
    unfolding representable_def on_grid_def
    by (intro conjI exI [of _ "8388608"]) (simp_all add: ulp_exp_def fl_simps)
  from fl_round_between [OF representable_0 this q] show ?thesis
    by (simp add: lit32_def nonneg_def)
qed

text \<open>The first matrix decreases from aggressive to sluggish.\<close>

lemma C1_range: "0 \<le> C1 ! process_index p ! response_index l ! controller_index c
    \<and> C1 ! process_index p ! response_index l ! controller_index c \<le> 2"
  by (cases p; cases l; cases c) (simp_all add: C1_def)

lemma C1_decreasing:
  "C1 ! process_index p ! response_index Moderate ! controller_index c
    \<le> C1 ! process_index p ! response_index Aggressive ! controller_index c"
  "C1 ! process_index p ! response_index Sluggish ! controller_index c
    \<le> C1 ! process_index p ! response_index Moderate ! controller_index c"
  by (cases p; cases c; simp add: C1_def)+

definition softer :: "response_level \<Rightarrow> response_level \<Rightarrow> bool" where
  "softer l m \<longleftrightarrow> response_index m \<le> response_index l"

lemma c1_softer:
  assumes "softer l m"
  shows "nonneg (tc_c1 (lookup p c l))" "val (tc_c1 (lookup p c l)) \<le> val (tc_c1 (lookup p c m))"
proof -
  show n: "nonneg (tc_c1 (lookup p c l))" for l
    using C1_range [of p l c] by (simp add: lookup_def lit32_finite)
  have "C1 ! process_index p ! response_index l ! controller_index c
      \<le> C1 ! process_index p ! response_index m ! controller_index c"
    using assms C1_decreasing [where p = p and c = c]
    by (cases l; cases m) (auto simp: softer_def intro: order_trans)
  then have "fl_le (tc_c1 (lookup p c l)) (tc_c1 (lookup p c m))"
    by (simp add: lookup_def lit32_mono)
  then show "val (tc_c1 (lookup p c l)) \<le> val (tc_c1 (lookup p c m))"
    using n by (intro fl_le_val_le) (simp_all add: nonneg_def)
qed

lemma kp_denominator:
  assumes "invalid_oscillation_reason os = None"
  defines "k \<equiv> to_f32 (fl_mul B64 PI_64 (os_pv_amp_percent os))"
  shows "k \<noteq> NaN" "is_finite k \<Longrightarrow> 0 \<le> val k" "k \<noteq> NInf"
proof -
  let ?m = "fl_mul B64 PI_64 (os_pv_amp_percent os)"
  note g = good_oscillation [OF assms(1)]
  have m: "?m = fl_round B64 (sign_bit PI_64 \<noteq> sign_bit (os_pv_amp_percent os)) (val PI_64 * val (os_pv_amp_percent os))"
    using g by (intro fl_mul_finite) (simp_all add: PI_64_def)
  have "0 \<le> val PI_64 * val (os_pv_amp_percent os)" using g by (simp add: PI_64_def)
  then have r: "0 \<le> rnd B64 (val PI_64 * val (os_pv_amp_percent os))" by (rule rnd_nonneg)
  then have M: "?m \<noteq> NaN" "?m \<noteq> NInf" "is_finite ?m \<Longrightarrow> 0 \<le> val ?m"
    unfolding m using pow2_pos [of "etop B64"] by (auto simp: fl_round_def Let_def)
  show "k \<noteq> NaN" "is_finite k \<Longrightarrow> 0 \<le> val k" "k \<noteq> NInf"
    unfolding k_def using M rnd_nonneg [of "val ?m" B32] pow2_pos [of "etop B32"]
    by (cases ?m; auto simp: fl_round_def Let_def split: if_splits)+
qed

lemma kp_softer:
  assumes os: "invalid_oscillation_reason os = None" and amp: "nonneg (lc_relay_amp_percent c)"
    and lm: "softer l m"
    and fin: "is_finite (tr_kp (calculate_tuning_result os c l))"
      "is_finite (tr_kp (calculate_tuning_result os c m))"
  shows "fl_le (tr_kp (calculate_tuning_result os c l)) (tr_kp (calculate_tuning_result os c m))"
proof -
  define k where "k = to_f32 (fl_mul B64 PI_64 (os_pv_amp_percent os))"
  define q where "q j = fl_mul B32 (tc_c1 (lookup (lc_process_type c) (lc_controller_type c) j)) (Fin 4)" for j
  define n where "n j = fl_mul B32 (q j) (lc_relay_amp_percent c)" for j
  have kp: "tr_kp (calculate_tuning_result os c j) = fl_div B32 (n j) k" for j
    by (simp add: calculate_tuning_result_def Let_def n_def q_def k_def lit32_simps)
  note K = kp_denominator [OF os, folded k_def]
  note c1 = c1_softer(1) [OF lm] c1_softer(1) [of m m] c1_softer(2) [OF lm]
  have nf: "is_finite (n l)" "is_finite (n m)" "is_inf k \<or> (is_finite k \<and> val k \<noteq> 0)"
    using fin fl_div_finite_iff unfolding kp by blast+
  have qf: "is_finite (q j)" if "is_finite (n j)" for j
    using that amp unfolding n_def
    by (cases "q j"; cases "lc_relay_amp_percent c") (auto simp: fl_mul_def Let_def nonneg_def signed_inf_def split: if_splits)
  have four: "nonneg (Fin 4)" by (simp add: nonneg_def)
  have c1n: "nonneg (tc_c1 (lookup p ct j))" for p ct j by (rule c1_softer(1) [of j j]) (simp add: softer_def)
  have qn: "nonneg (q l)" "nonneg (q m)"
    using nonneg_mul [OF c1n four] qf nf unfolding q_def by auto
  have "val (q l) \<le> val (q m)"
    using fl_le_val_le [OF fl_mul_mono [OF c1n c1n c1(3) four]] qf nf unfolding q_def by blast
  then have "val (n l) \<le> val (n m)"
    using fl_le_val_le [OF fl_mul_mono [OF qn _ amp]] nf unfolding n_def by blast
  moreover have "nonneg (n l)" "nonneg (n m)"
    using nonneg_mul [OF qn(1) amp] nonneg_mul [OF qn(2) amp] nf unfolding n_def by auto
  ultimately show ?thesis unfolding kp
    using K nf(3) by (intro fl_div_mono) auto
qed

lemma ti_same: "tr_ti_minutes (calculate_tuning_result os c l) = tr_ti_minutes (calculate_tuning_result os c m)"
  "tr_td_minutes (calculate_tuning_result os c l) = tr_td_minutes (calculate_tuning_result os c m)"
  by (simp_all add: calculate_tuning_result_def Let_def lookup_def)

lemma response_all_length: "length response_all = 3"
  and response_all_index: "i < 3 \<Longrightarrow> response_index (response_all ! i) = i"
  by (auto simp: response_all_def less_Suc_eq numeral_3_eq_3)

lemma usable_nth:
  assumes "calculate_all_checked ps trs sw si d c pvr t = Some rs" "i < 3"
    and "usable_values (rs ! i) = Some (r, p)"
  obtains os where "measure_oscillation ps trs sw si d c pvr = Some os"
    "invalid_oscillation_reason os = None"
    "r = calculate_tuning_result os c (response_all ! i)" "values_finite (r, p)"
proof -
  obtain os where os: "measure_oscillation ps trs sw si d c pvr = Some os"
    using assms(1) by (auto simp: calculate_all_checked_def split: option.splits)
  have n: "rs ! i = (case invalid_oscillation_reason os of
        Some reason \<Rightarrow> checked_invalid (response_all ! i) reason
      | None \<Rightarrow> checked_result_from_tuning (calculate_tuning_result os c (response_all ! i)) t)"
    using assms(1,2) os nth_map [of i response_all]
    by (auto simp: calculate_all_checked_def Let_def response_all_length)
  show ?thesis
    using assms(3) unfolding n
    by (intro that [OF os]) (auto simp: usable_from_tuning split: option.splits if_splits)
qed

text \<open>Response levels are ordered.  Among the usable results of one test, a more aggressive level
  never has a smaller gain, and all levels share the integral and derivative times.\<close>

theorem more_aggressive_more_gain:
  assumes "nonneg (lc_relay_amp_percent c)"
    and "calculate_all_checked ps trs sw si d c pvr t = Some rs"
    and "i \<le> j" "j < 3"
    and "usable_values (rs ! i) = Some (ri, pri)" "usable_values (rs ! j) = Some (rj, prj)"
  shows "fl_le (tr_kp rj) (tr_kp ri) \<and> tr_ti_minutes rj = tr_ti_minutes ri
    \<and> tr_td_minutes rj = tr_td_minutes ri"
proof -
  have i3: "i < 3" using assms(3,4) by simp
  obtain os where os: "measure_oscillation ps trs sw si d c pvr = Some os"
    "invalid_oscillation_reason os = None" and ri: "ri = calculate_tuning_result os c (response_all ! i)"
    and fi: "values_finite (ri, pri)"
    using usable_nth [OF assms(2) i3 assms(5)] by metis
  have rj: "rj = calculate_tuning_result os c (response_all ! j)" and fj: "values_finite (rj, prj)"
    using usable_nth [OF assms(2,4,6)] os(1) by (metis option.inject)+
  have "softer (response_all ! j) (response_all ! i)"
    using assms(3,4) by (simp add: softer_def response_all_index)
  then have "fl_le (tr_kp rj) (tr_kp ri)"
    using fi fj unfolding ri rj values_finite_def by (intro kp_softer os(2) assms(1)) simp_all
  then show ?thesis unfolding ri rj using ti_same by blast
qed

definition demo_oscillation :: oscillation where
  "demo_oscillation = \<lparr>os_period_minutes = Fin (8947849 / 134217728),
     os_frequency = Fin (12353245 / 131072), os_pv_amp_raw = Fin 2, os_pv_amp_percent = Fin 2\<rparr>"

lemma demo_measured:
  "measure_oscillation [Fin 50, Fin 52] [Fin 48] [1000000000, 3000000000, 5000000000] 1 Reverse
     demo_config \<lparr>pv_high = Fin 100, pv_low = Fin 0\<rparr> = Some demo_oscillation"
proof -
  have ms: "num_milliseconds 4000000000 = 4000"
    by (simp add: num_milliseconds_def ns_per_ms_def trunc_div_def)
  have n: "unat (lc_num_cycles_count demo_config) = 1" by (simp add: demo_config_def)
  have a: "fl_of_int B32 4000 = Fin 4000" "fl_of_int B32 1 = Fin 1"
    "fl_div B32 (Fin 4000) (Fin 1000) = Fin 4"
    "fl_div B32 (fl_div B32 (Fin 4) (Fin 60)) (Fin 1) = Fin (8947849 / 134217728)"
    by (simp_all add: fl_simps)
  have f: "fl_div B32 (fl_mul B32 (Fin 2) PI_32) (Fin (8947849 / 134217728)) = Fin (12353245 / 131072)"
    by (simp add: fl_simps PI_32_def)
  have amp: "fl_div B32 (fl_sub B32 (fl_sum [Fin 52]) (fl_sum [Fin 48])) (fl_mul B32 (Fin 2) (Fin 1)) = Fin 2"
    by (simp add: fl_simps fl_sum_def)
  have pct: "fl_mul B32 (fl_div B32 (Fin 2) (fl_sub B32 (Fin 100) (Fin 0))) (Fin 100) = Fin 2"
    by (simp add: fl_simps)
  show ?thesis
    by (simp add: measure_oscillation_def n ms a f amp pct lit32_simps lit32_100 demo_oscillation_def
        Let_def del: One_nat_def)
qed

lemma demo_kp:
  "tr_kp (calculate_tuning_result demo_oscillation demo_config Aggressive) = Fin (3337721 / 1048576)"
  "tr_kp (calculate_tuning_result demo_oscillation demo_config Sluggish) = Fin (3337721 / 2097152)"
proof -
  have m: "fl_mul B64 PI_64 (Fin 2) = Fin (884279719003555 / 140737488355328)"
    by (simp add: PI_64_def fl_simps)
  have d: "fl_round B32 False (884279719003555 / 140737488355328) = Fin (13176795 / 2097152)"
    by (simp add: fl_simps)
  have k: "to_f32 (fl_mul B64 PI_64 (Fin 2)) = Fin (13176795 / 2097152)"
    unfolding m to_f32.simps using d by simp
  have c: "tc_c1 (lookup Flow CT_P Aggressive) = Fin (1 / 2)" "tc_c1 (lookup Flow CT_P Sluggish) = Fin (1 / 4)"
    by (simp_all add: lookup_def C1_def fl_simps)
  have "fl_div B32 (fl_mul B32 (fl_mul B32 (Fin (1 / 2)) (Fin 4)) (Fin 10)) (Fin (13176795 / 2097152))
      = Fin (3337721 / 1048576)"
    "fl_div B32 (fl_mul B32 (fl_mul B32 (Fin (1 / 4)) (Fin 4)) (Fin 10)) (Fin (13176795 / 2097152))
      = Fin (3337721 / 2097152)"
    by (simp_all add: fl_simps)
  then show
    "tr_kp (calculate_tuning_result demo_oscillation demo_config Aggressive) = Fin (3337721 / 1048576)"
    "tr_kp (calculate_tuning_result demo_oscillation demo_config Sluggish) = Fin (3337721 / 2097152)"
    by (simp_all add: calculate_tuning_result_def demo_oscillation_def demo_config_def k c lit32_simps Let_def)
qed

lemma demo_valid: "invalid_oscillation_reason demo_oscillation = None"
  by (simp add: invalid_oscillation_reason_def demo_oscillation_def fl_simps)

definition demo_template2 :: dcs_template where
  "demo_template2 = demo_template\<lparr>t_integral_type := ResetTime\<rparr>"

lemma demo_usable:
  assumes "level = Aggressive \<or> level = Sluggish"
  shows "values_finite (calculate_tuning_result demo_oscillation demo_config level,
     calculate_pid_parameters (calculate_tuning_result demo_oscillation demo_config level) demo_template2)"
proof -
  let ?r = "calculate_tuning_result demo_oscillation demo_config level"
  have P: "lc_controller_type demo_config = CT_P" by (simp add: demo_config_def)
  note z = P_integral_time [OF demo_valid P]
  have k: "is_finite (tr_kp ?r)" using assms demo_kp by auto
  have t: "t_integral_type demo_template2 = ResetTime" "t_integral_unit demo_template2 = Minutes"
    "t_derivative_type demo_template2 = DerivativeTime" "t_derivative_unit demo_template2 = Minutes"
    "t_proportional_type demo_template2 = Gain"
    by (simp_all add: demo_template2_def demo_template_def)
  show ?thesis using k by (simp add: values_finite_def calculate_pid_parameters_def z t)
qed

theorem more_aggressive_more_gain_witness:
  "fl_le (Fin (3337721 / 2097152)) (Fin (3337721 / 1048576)) \<and>
   (\<exists>rs. calculate_all_checked [Fin 50, Fin 52] [Fin 48] [1000000000, 3000000000, 5000000000] 1 Reverse
     demo_config \<lparr>pv_high = Fin 100, pv_low = Fin 0\<rparr> demo_template2 = Some rs
     \<and> usable_values (rs ! 0) \<noteq> None \<and> usable_values (rs ! 2) \<noteq> None)"
proof -
  let ?r = "calculate_tuning_result demo_oscillation demo_config"
  let ?rs = "map (\<lambda>level. checked_result_from_tuning (?r level) demo_template2) response_all"
  have rs: "calculate_all_checked [Fin 50, Fin 52] [Fin 48] [1000000000, 3000000000, 5000000000] 1 Reverse
     demo_config \<lparr>pv_high = Fin 100, pv_low = Fin 0\<rparr> demo_template2 = Some ?rs"
    by (simp add: calculate_all_checked_def demo_measured demo_valid)
  have u: "usable_values (?rs ! 0) = Some (?r Aggressive, calculate_pid_parameters (?r Aggressive) demo_template2)"
    "usable_values (?rs ! 2) = Some (?r Sluggish, calculate_pid_parameters (?r Sluggish) demo_template2)"
    using demo_usable by (simp_all add: response_all_def usable_from_tuning)
  have n: "nonneg (lc_relay_amp_percent demo_config)" by (simp add: demo_config_def nonneg_def)
  have "fl_le (tr_kp (?r Sluggish)) (tr_kp (?r Aggressive))"
    using more_aggressive_more_gain [OF n rs _ _ u] by simp
  then show ?thesis unfolding demo_kp using rs u by blast
qed

section \<open>Controller targets\<close>

lemma rounded_active_Ok:
  assumes "rounded_active_term L v term p = Ok r"
  shows "is_finite v" "0 < val v" "is_finite (rv_value r)" "val (rv_value r) \<noteq> 0"
  using assms round_value_Ok [of L p v]
  by (auto simp: rounded_active_term_def bind_result_Ok_iff fl_le_finite fl_eq_finite
      elim!: map_err.elims split: if_splits)

text \<open>C4: what may be written to the controller.  Whatever the rounding policy and the library's
  logarithm, power and formatting do, targets that are produced at all have an active proportional
  term that is positive before and finite and non-zero after rounding; an integral term likewise
  for PI and PID controllers and exactly 9999 or 0 for a proportional-only one; a derivative term
  likewise for PID and exactly 0 otherwise.\<close>

theorem controller_targets_safe:
  assumes "controller_pid_values L pid ct t = Ok v"
  shows "0 < val (pp_proportional pid) \<and> is_finite (rv_value (cp_proportional v))
      \<and> val (rv_value (cp_proportional v)) \<noteq> 0
    \<and> (if ct = CT_P then rv_value (cp_integral v) = (if t_integral_type t = ResetTime then Fin 9999 else Fin 0)
       else 0 < val (pp_integral pid) \<and> is_finite (rv_value (cp_integral v))
         \<and> val (rv_value (cp_integral v)) \<noteq> 0)
    \<and> (if ct = CT_Pid then 0 < val (pp_derivative pid) \<and> is_finite (rv_value (cp_derivative v))
         \<and> val (rv_value (cp_derivative v)) \<noteq> 0
       else rv_value (cp_derivative v) = Fin 0)
    \<and> cp_response_level v = pp_response_level pid"
  using assms
  by (cases ct; cases "t_integral_type t")
     (auto simp: controller_pid_values_def opc_write_values_def Let_def bind_result_Ok_iff
        disabled_value_def lit32_simps dest: rounded_active_Ok)

definition demo_lib :: float_lib where
  "demo_lib = \<lparr>log10_64 = (\<lambda>_. Fin 0), powi_64 = (\<lambda>_ _. Fin 1), fmt_fixed = (\<lambda>_ _. ''x''),
     fmt_exp = (\<lambda>_ _. ''x''), fmt_f32 = (\<lambda>_. ''x'')\<rparr>"

theorem controller_targets_safe_witness:
  "\<exists>v. controller_pid_values demo_lib \<lparr>pp_response_level = Moderate, pp_proportional = Fin 2,
     pp_integral = Fin 0, pp_derivative = Fin 0\<rparr> CT_P demo_template2 = Ok v
   \<and> val (rv_value (cp_proportional v)) \<noteq> 0 \<and> rv_value (cp_integral v) = Fin 9999"
proof -
  let ?pid = "\<lparr>pp_response_level = Moderate, pp_proportional = Fin 2, pp_integral = Fin 0, pp_derivative = Fin 0\<rparr>"
  have t: "t_pid_rounding demo_template2 = pid_rounding_default" "t_integral_type demo_template2 = ResetTime"
    by (simp_all add: demo_template2_def demo_template_def)
  have r: "round_value demo_lib pid_rounding_default (Fin 2) = Ok \<lparr>rv_value = Fin 2, rv_display = ''x''\<rparr>"
    by (simp add: round_value_def pid_rounding_validate_def pid_rounding_default_def demo_lib_def
        rounding_places_def rounding_display_def sat_i32_def round_half_away_def fl_simps cong: let_weak_cong)
  obtain v where v: "controller_pid_values demo_lib ?pid CT_P demo_template2 = Ok v"
    by (simp add: controller_pid_values_def opc_write_values_def rounded_active_term_def t r
        fl_le_finite fl_eq_finite Let_def)
  from controller_targets_safe [OF v] v show ?thesis by (auto simp: t)
qed

end
