(* ===== verification/Db_Templates.thy ===== *)
theory Db_Templates
  imports Db_Runs Tuning_Math Tags "HOL-Library.List_Lexorder" "HOL-Library.Char_ord"
begin

text \<open>
  The tables of the database that stand apart from the runs' life cycle: the templates with their
  seeding at startup (\<open>bhtune-db/src/models/dcs_templates.rs\<close>, \<open>seed.rs\<close>), the settings
  (\<open>settings.rs\<close>), the calculated results (\<open>tune_results.rs\<close>) and the samples (\<open>tune_samples.rs\<close>).
  Each is a table value of its own; what an operation needs of other tables (the loops that use a
  template, the runs that exist) is an argument.
\<close>

section \<open>Templates\<close>

record dcs_template_row =
  td_id :: int
  td_origin :: template_origin
  td_template :: dcs_template
  td_created_at :: timestamp
  td_updated_at :: timestamp

record template_table =
  tt_rows :: "dcs_template_row list"
  tt_seq :: int

text \<open>Binding the columns fails on an invalid rounding before the statement runs.\<close>

definition bind_shared_template_fields :: "dcs_template \<Rightarrow> (db_error, unit) result" where
  "bind_shared_template_fields t = map_sum InvalidPidRounding id (pid_rounding_validate (t_pid_rounding t))"

lemma bind_fields_Ok: "bind_shared_template_fields t = Ok u \<longleftrightarrow> is_ok (pid_rounding_validate (t_pid_rounding t))"
  by (cases "pid_rounding_validate (t_pid_rounding t)") (simp_all add: bind_shared_template_fields_def is_ok_iff)

definition template_get_by_name :: "string \<Rightarrow> template_table \<Rightarrow> dcs_template_row option" where
  "template_get_by_name name tt = List.find (\<lambda>r. t_name (td_template r) = name) (tt_rows tt)"

definition template_get :: "int \<Rightarrow> template_table \<Rightarrow> dcs_template_row option" where
  "template_get i tt = List.find (\<lambda>r. td_id r = i) (tt_rows tt)"

text \<open>\<open>ORDER BY name\<close> compares bytes.\<close>

definition template_list :: "template_table \<Rightarrow> dcs_template_row list" where
  "template_list tt = sort_key (\<lambda>r. t_name (td_template r)) (tt_rows tt)"

definition template_insert ::
  "dcs_template \<Rightarrow> template_origin \<Rightarrow> timestamp \<Rightarrow> template_table \<Rightarrow> template_table \<times> (db_error, dcs_template_row) result" where
  "template_insert t origin now tt =
     (case bind_shared_template_fields t of
        Inl e \<Rightarrow> (tt, Err e)
      | Inr _ \<Rightarrow>
          if exists_row (\<lambda>r. t_name (td_template r) = t_name t) (tt_rows tt) then (tt, Err Query)
          else (let row = \<lparr> td_id = tt_seq tt + 1, td_origin = origin, td_template = t, td_created_at = now, td_updated_at = now \<rparr>
                in (\<lparr> tt_rows = tt_rows tt @ [row], tt_seq = td_id row \<rparr>, Ok row)))"

text \<open>The name and the origin of a row never change.\<close>

definition template_update ::
  "int \<Rightarrow> dcs_template \<Rightarrow> timestamp \<Rightarrow> template_table \<Rightarrow> template_table \<times> (db_error, dcs_template_row) result" where
  "template_update i t now tt =
     (case bind_shared_template_fields t of
        Inl e \<Rightarrow> (tt, Err e)
      | Inr _ \<Rightarrow>
          (let f = (\<lambda>r. r\<lparr>td_template := t\<lparr>t_name := t_name (td_template r)\<rparr>, td_updated_at := now\<rparr>)
           in case template_get i tt of
                None \<Rightarrow> (tt, Err Query)
              | Some r \<Rightarrow> (tt\<lparr>tt_rows := update_where (\<lambda>r. td_id r = i) f (tt_rows tt)\<rparr>, Ok (f r))))"

text \<open>\<open>used\<close>: the templates that saved loops refer to.\<close>

definition template_delete :: "int list \<Rightarrow> int \<Rightarrow> template_table \<Rightarrow> template_table \<times> (db_error, bool) result" where
  "template_delete used i tt =
     (if template_get i tt \<noteq> None \<and> i \<in> set used then (tt, Err (TemplateInUse i))
      else (tt\<lparr>tt_rows := delete_where (\<lambda>r. td_id r = i) (tt_rows tt)\<rparr>,
            Ok (0 < affected (\<lambda>r. td_id r = i) (tt_rows tt))))"

section \<open>Seeding\<close>

datatype seed_outcome = SeedInserted | SeedUpdated | SkippedUserOwned

text \<open>One template; an error ends the pass, with what was seeded before it in place.\<close>

definition seed_template ::
  "dcs_template \<Rightarrow> template_origin \<Rightarrow> timestamp \<Rightarrow> template_table \<Rightarrow> template_table \<times> (db_error, seed_outcome) result" where
  "seed_template t origin now tt =
     (case template_get_by_name (t_name t) tt of
        None \<Rightarrow> apsnd (map_sum id (\<lambda>_. SeedInserted)) (template_insert t origin now tt)
      | Some r \<Rightarrow>
          if td_origin r = origin then apsnd (map_sum id (\<lambda>_. SeedUpdated)) (template_update (td_id r) t now tt)
          else (tt, Ok SkippedUserOwned))"

fun seed_templates ::
  "dcs_template list \<Rightarrow> template_origin \<Rightarrow> timestamp \<Rightarrow> template_table
   \<Rightarrow> template_table \<times> (db_error, (string \<times> seed_outcome) list) result" where
  "seed_templates [] origin now tt = (tt, Ok [])"
| "seed_templates (t # ts) origin now tt =
     (case seed_template t origin now tt of
        (tt', Inl e) \<Rightarrow> (tt', Err e)
      | (tt', Inr x) \<Rightarrow> apsnd (map_sum id (\<lambda>xs. (t_name t, x) # xs)) (seed_templates ts origin now tt'))"

section \<open>Settings\<close>

record setting_row =
  sg_key :: string
  sg_value :: string
  sg_updated_at :: timestamp

definition setting_get :: "string \<Rightarrow> setting_row list \<Rightarrow> setting_row option" where
  "setting_get k t = List.find (\<lambda>r. sg_key r = k) t"

text \<open>The value is the text of a JSON value, so it is always valid JSON.\<close>

definition setting_upsert :: "string \<Rightarrow> string \<Rightarrow> timestamp \<Rightarrow> setting_row list \<Rightarrow> setting_row list \<times> setting_row" where
  "setting_upsert k v now t =
     (let row = \<lparr> sg_key = k, sg_value = v, sg_updated_at = now \<rparr>
      in (if exists_row (\<lambda>r. sg_key r = k) t then update_where (\<lambda>r. sg_key r = k) (\<lambda>_. row) t else t @ [row], row))"

section \<open>Results\<close>

text \<open>The response levels compare as their names do: aggressive, moderate, sluggish.\<close>

fun level_text :: "response_level \<Rightarrow> string" where
  "level_text Aggressive = ''aggressive''"
| "level_text Moderate = ''moderate''"
| "level_text Sluggish = ''sluggish''"

lemma level_text_inj: "level_text x = level_text y \<Longrightarrow> x = y"
  by (cases x; cases y) simp_all

instantiation response_level :: linorder
begin

definition less_eq_response_level :: "response_level \<Rightarrow> response_level \<Rightarrow> bool" where
  "less_eq_response_level a b \<longleftrightarrow> level_text a \<le> level_text b"

definition less_response_level :: "response_level \<Rightarrow> response_level \<Rightarrow> bool" where
  "less_response_level a b \<longleftrightarrow> level_text a < level_text b"

instance
proof
  fix x y z :: response_level
  show "x < y \<longleftrightarrow> x \<le> y \<and> \<not> y \<le> x" by (simp add: less_eq_response_level_def less_response_level_def less_le_not_le)
  show "x \<le> x" by (simp add: less_eq_response_level_def)
  show "x \<le> y \<Longrightarrow> y \<le> z \<Longrightarrow> x \<le> z" unfolding less_eq_response_level_def by (rule order_trans)
  show "x \<le> y \<Longrightarrow> y \<le> x \<Longrightarrow> x = y"
    unfolding less_eq_response_level_def by (rule level_text_inj[OF antisym])
  show "x \<le> y \<or> y \<le> x" unfolding less_eq_response_level_def by (rule linear)
qed

end

record tune_result_row =
  res_id :: int
  res_run_id :: int
  res_level :: response_level
  res_kp :: "f32 option"
  res_ti_minutes :: "f32 option"
  res_td_minutes :: "f32 option"
  res_proportional :: "f32 option"
  res_integral :: "f32 option"
  res_derivative :: "f32 option"
  res_status :: tuning_result_status
  res_invalid_reason :: "invalid_reason option"

definition result_from_checked :: "int \<Rightarrow> checked_tuning_result \<Rightarrow> tune_result_row" where
  "result_from_checked rid c =
     (let values = usable_values c
      in \<lparr> res_id = 0, res_run_id = rid, res_level = ct_response_level c,
           res_kp = map_option (tr_kp \<circ> fst) values, res_ti_minutes = map_option (tr_ti_minutes \<circ> fst) values,
           res_td_minutes = map_option (tr_td_minutes \<circ> fst) values,
           res_proportional = map_option (pp_proportional \<circ> snd) values, res_integral = map_option (pp_integral \<circ> snd) values,
           res_derivative = map_option (pp_derivative \<circ> snd) values,
           res_status = ct_status c, res_invalid_reason = ct_invalid_reason c \<rparr>)"

text \<open>\<open>from_calculated\<close>; \<open>None\<close> is its panic on different levels.\<close>

definition result_from_calculated :: "int \<Rightarrow> tuning_result \<Rightarrow> pid_parameters \<Rightarrow> tune_result_row option" where
  "result_from_calculated rid r p =
     (if tr_response_level r \<noteq> pp_response_level p then None
      else Some \<lparr> res_id = 0, res_run_id = rid, res_level = tr_response_level r,
        res_kp = Some (tr_kp r), res_ti_minutes = Some (tr_ti_minutes r), res_td_minutes = Some (tr_td_minutes r),
        res_proportional = Some (pp_proportional p), res_integral = Some (pp_integral p),
        res_derivative = Some (pp_derivative p), res_status = Valid, res_invalid_reason = None \<rparr>)"

text \<open>The six numbers as they are bound: a NaN becomes \<open>NULL\<close>.\<close>

definition stored :: "f32 option \<Rightarrow> f32 option" where
  "stored x = (if x = Some NaN then None else x)"

definition result_values :: "tune_result_row \<Rightarrow> f32 option list" where
  "result_values r = [res_kp r, res_ti_minutes r, res_td_minutes r, res_proportional r, res_integral r, res_derivative r]"

definition result_check :: "tune_result_row \<Rightarrow> bool" where
  "result_check r \<longleftrightarrow>
     (res_status r = Valid \<and> res_invalid_reason r = None \<and> list_all (\<lambda>v. v \<noteq> None) (result_values r) \<or>
      res_status r = Invalid \<and> res_invalid_reason r \<noteq> None \<and> list_all (\<lambda>v. v = None) (result_values r)) \<and>
     list_all (\<lambda>v. case v of None \<Rightarrow> True | Some x \<Rightarrow> is_finite x) (result_values r)"

record result_table =
  rt_rows :: "tune_result_row list"
  rt_seq :: int

text \<open>\<open>runs\<close> below: the ids of the runs that exist.\<close>

definition result_insert ::
  "int list \<Rightarrow> tune_result_row \<Rightarrow> result_table \<Rightarrow> result_table \<times> (db_error, tune_result_row) result" where
  "result_insert run_ids r rt =
     (let row = r\<lparr>res_id := rt_seq rt + 1, res_kp := stored (res_kp r), res_ti_minutes := stored (res_ti_minutes r),
          res_td_minutes := stored (res_td_minutes r), res_proportional := stored (res_proportional r),
          res_integral := stored (res_integral r), res_derivative := stored (res_derivative r)\<rparr>
      in if res_run_id r \<in> set run_ids \<and> result_check row \<and>
            \<not> exists_row (\<lambda>x. res_run_id x = res_run_id r \<and> res_level x = res_level r) (rt_rows rt)
         then (\<lparr> rt_rows = rt_rows rt @ [row], rt_seq = res_id row \<rparr>, Ok row)
         else (rt, Err Query))"

definition results_for_run :: "int \<Rightarrow> result_table \<Rightarrow> tune_result_row list" where
  "results_for_run rid rt = sort_key res_level (filter (\<lambda>r. res_run_id r = rid) (rt_rows rt))"

section \<open>Samples\<close>

record tune_sample_row =
  sm_id :: int
  sm_run_id :: int
  sm_tick_index :: int
  sm_sample :: tick
  sm_state :: mrft_state
  sm_quality :: sample_quality

record sample_table =
  st_rows :: "tune_sample_row list"
  st_seq :: int

text \<open>The numbers are \<open>NOT NULL\<close>, so a NaN is refused.\<close>

definition sample_insert ::
  "int list \<Rightarrow> int \<Rightarrow> int \<Rightarrow> tick \<Rightarrow> mrft_state \<Rightarrow> sample_quality \<Rightarrow> sample_table
   \<Rightarrow> sample_table \<times> (db_error, tune_sample_row) result" where
  "sample_insert run_ids rid i t s q st =
     (let row = \<lparr> sm_id = st_seq st + 1, sm_run_id = rid, sm_tick_index = i, sm_sample = t, sm_state = s, sm_quality = q \<rparr>
      in if rid \<in> set run_ids \<and> tk_pv t \<noteq> NaN \<and> ms_hysteresis s \<noteq> NaN \<and> ms_mv_value_current s \<noteq> NaN \<and>
            \<not> exists_row (\<lambda>x. sm_run_id x = rid \<and> sm_tick_index x = i) (st_rows st)
         then (\<lparr> st_rows = st_rows st @ [row], st_seq = sm_id row \<rparr>, Ok row)
         else (st, Err Query))"

definition samples_for_run :: "int \<Rightarrow> sample_table \<Rightarrow> tune_sample_row list" where
  "samples_for_run rid st = sort_key sm_tick_index (filter (\<lambda>r. sm_run_id r = rid) (st_rows st))"

definition samples_for_run_since :: "int \<Rightarrow> int \<Rightarrow> sample_table \<Rightarrow> tune_sample_row list" where
  "samples_for_run_since rid after_tick st =
     sort_key sm_tick_index (filter (\<lambda>r. sm_run_id r = rid \<and> after_tick < sm_tick_index r) (st_rows st))"

section \<open>The template table stays well formed\<close>

abbreviation row_name :: "dcs_template_row \<Rightarrow> string" where
  "row_name r \<equiv> t_name (td_template r)"

definition tt_ok :: "template_table \<Rightarrow> bool" where
  "tt_ok tt \<longleftrightarrow> distinct (map row_name (tt_rows tt)) \<and> distinct (map td_id (tt_rows tt)) \<and>
     list_all (\<lambda>r. td_id r \<le> tt_seq tt \<and> is_ok (pid_rounding_validate (t_pid_rounding (td_template r)))) (tt_rows tt)"

lemma find_key:
  assumes "distinct (map f xs)"
  shows "List.find (\<lambda>r. f r = k) xs = Some r \<longleftrightarrow> r \<in> set xs \<and> f r = k"
  using assms by (induction xs) auto

lemma get_by_name_None: "template_get_by_name n tt = None \<longleftrightarrow> n \<notin> row_name ` set (tt_rows tt)"
  by (auto simp: template_get_by_name_def find_None_iff)

lemma template_insert_Ok:
  assumes "template_insert t origin now tt = (tt', Ok row)"
  shows "tt_rows tt' = tt_rows tt @ [row]" "tt_seq tt' = tt_seq tt + 1" "td_id row = tt_seq tt + 1"
    "td_template row = t" "td_origin row = origin" "t_name t \<notin> row_name ` set (tt_rows tt)"
    "is_ok (pid_rounding_validate (t_pid_rounding t))"
  using assms by (auto simp: template_insert_def bind_fields_Ok list_ex_iff Let_def
      split: sum.splits if_splits)

lemma template_insert_ok: "tt_ok tt \<Longrightarrow> template_insert t origin now tt = (tt', r) \<Longrightarrow> tt_ok tt'"
proof (cases r)
  case (Inr row)
  assume "tt_ok tt" "template_insert t origin now tt = (tt', r)"
  with template_insert_Ok[of t origin now tt tt' row] Inr show ?thesis
    by (force simp: tt_ok_def list_all_iff)
qed (auto simp: template_insert_def Let_def split: sum.splits if_splits)

lemma template_update_Ok:
  assumes "template_update i t now tt = (tt', Ok row)" "tt_ok tt"
  shows "\<exists>r. r \<in> set (tt_rows tt) \<and> td_id r = i \<and>
      row = r\<lparr>td_template := t\<lparr>t_name := row_name r\<rparr>, td_updated_at := now\<rparr> \<and>
      tt_rows tt' = map (\<lambda>x. if td_id x = i then row else x) (tt_rows tt) \<and> tt_seq tt' = tt_seq tt \<and>
      is_ok (pid_rounding_validate (t_pid_rounding t))"
proof -
  have d: "distinct (map td_id (tt_rows tt))" using assms(2) by (simp add: tt_ok_def)
  obtain r where r: "template_get i tt = Some r" "row = r\<lparr>td_template := t\<lparr>t_name := row_name r\<rparr>, td_updated_at := now\<rparr>"
    "tt' = tt\<lparr>tt_rows := update_where (\<lambda>r. td_id r = i)
       (\<lambda>r. r\<lparr>td_template := t\<lparr>t_name := row_name r\<rparr>, td_updated_at := now\<rparr>) (tt_rows tt)\<rparr>"
    "is_ok (pid_rounding_validate (t_pid_rounding t))"
    using assms(1) by (auto simp: template_update_def bind_fields_Ok Let_def
        split: sum.splits option.splits)
  have in_t: "r \<in> set (tt_rows tt)" "td_id r = i" using r(1) find_key[OF d] by (auto simp: template_get_def)
  have "x = r" if "x \<in> set (tt_rows tt)" "td_id x = i" for x using key_unique[OF d that(1) in_t(1)] that(2) in_t(2) by simp
  then have "update_where (\<lambda>r. td_id r = i) (\<lambda>r. r\<lparr>td_template := t\<lparr>t_name := row_name r\<rparr>, td_updated_at := now\<rparr>) (tt_rows tt) =
      map (\<lambda>x. if td_id x = i then row else x) (tt_rows tt)"
    unfolding update_where_def r(2) by (intro map_cong) auto
  then show ?thesis using in_t r by auto
qed

lemma template_update_ok:
  assumes "tt_ok tt" "template_update i t now tt = (tt', r)" shows "tt_ok tt'"
proof (cases r)
  case (Inr row)
  from template_update_Ok[OF assms(2)[unfolded Inr] assms(1)] obtain x where x: "x \<in> set (tt_rows tt)" "td_id x = i"
    "row = x\<lparr>td_template := t\<lparr>t_name := row_name x\<rparr>, td_updated_at := now\<rparr>"
    "tt_rows tt' = map (\<lambda>x. if td_id x = i then row else x) (tt_rows tt)" "tt_seq tt' = tt_seq tt"
    "is_ok (pid_rounding_validate (t_pid_rounding t))" by blast
  have d: "distinct (map td_id (tt_rows tt))" using assms(1) by (simp add: tt_ok_def)
  have e: "y = x" if "y \<in> set (tt_rows tt)" "td_id y = i" for y using key_unique[OF d that(1) x(1)] that(2) x(2) by simp
  have "map row_name (tt_rows tt') = map row_name (tt_rows tt)" "map td_id (tt_rows tt') = map td_id (tt_rows tt)"
    using e by (auto simp: x(3,4) x(2) intro!: map_cong)
  moreover have "list_all (\<lambda>r. td_id r \<le> tt_seq tt' \<and> is_ok (pid_rounding_validate (t_pid_rounding (td_template r)))) (tt_rows tt')"
    using assms(1) x(1,2,6) by (auto simp: tt_ok_def list_all_iff x(3-5))
  ultimately show ?thesis using assms(1) by (simp add: tt_ok_def)
qed (use assms in \<open>auto simp: template_update_def Let_def split: sum.splits option.splits\<close>)

lemma template_delete_ok: "tt_ok tt \<Longrightarrow> tt_ok (fst (template_delete used i tt))"
  by (auto simp: template_delete_def tt_ok_def delete_where_def list_all_iff distinct_map_filter)

section \<open>What seeding does\<close>

lemma map_sum_OkE: "map_sum f g r = Ok y \<Longrightarrow> (\<And>x. r = Ok x \<Longrightarrow> y = g x \<Longrightarrow> P) \<Longrightarrow> P"
  by (cases r) auto

lemma get_by_name_Some: "tt_ok tt \<Longrightarrow> template_get_by_name n tt = Some r \<longleftrightarrow> r \<in> set (tt_rows tt) \<and> row_name r = n"
  using find_key[of row_name "tt_rows tt" n r] by (simp add: tt_ok_def template_get_by_name_def)

lemma get_by_name_eqI:
  assumes "tt_ok tt" "tt_ok tt'" "\<And>r. row_name r = n \<Longrightarrow> r \<in> set (tt_rows tt') \<longleftrightarrow> r \<in> set (tt_rows tt)"
  shows "template_get_by_name n tt' = template_get_by_name n tt"
  using assms(3) get_by_name_Some[OF assms(1), of n] get_by_name_Some[OF assms(2), of n]
  by (metis not_Some_eq)

lemma filter_map_same: "(\<And>x. x \<in> set xs \<Longrightarrow> P (f x) = P x \<and> (P x \<longrightarrow> f x = x)) \<Longrightarrow> filter P (map f xs) = filter P xs"
  by (induction xs) auto

lemma seed_template_Ok:
  assumes "seed_template t origin now tt = (tt', Ok x)" "tt_ok tt"
  shows "tt_ok tt'" "filter (\<lambda>r. td_origin r \<noteq> origin) (tt_rows tt') = filter (\<lambda>r. td_origin r \<noteq> origin) (tt_rows tt)"
    "n \<noteq> t_name t \<Longrightarrow> template_get_by_name n tt' = template_get_by_name n tt"
    "\<exists>r. template_get_by_name (t_name t) tt' = Some r \<and> (if x = SkippedUserOwned then td_origin r \<noteq> origin \<and> tt' = tt
       else td_origin r = origin \<and> td_template r = t)"
proof -
  consider (new) row where "template_get_by_name (t_name t) tt = None" "template_insert t origin now tt = (tt', Ok row)" "x = SeedInserted"
    | (old) r row where "template_get_by_name (t_name t) tt = Some r" "td_origin r = origin"
        "template_update (td_id r) t now tt = (tt', Ok row)" "x = SeedUpdated"
    | (other) r where "template_get_by_name (t_name t) tt = Some r" "td_origin r \<noteq> origin" "tt' = tt" "x = SkippedUserOwned"
    using assms(1) by (auto simp: seed_template_def apsnd_def map_prod_def split: option.splits if_splits prod.splits sum.splits
        elim!: map_sum_OkE)
  then have "tt_ok tt' \<and> filter (\<lambda>r. td_origin r \<noteq> origin) (tt_rows tt') = filter (\<lambda>r. td_origin r \<noteq> origin) (tt_rows tt) \<and>
      (\<forall>n. n \<noteq> t_name t \<longrightarrow> template_get_by_name n tt' = template_get_by_name n tt) \<and>
      (\<exists>r. template_get_by_name (t_name t) tt' = Some r \<and> (if x = SkippedUserOwned then td_origin r \<noteq> origin \<and> tt' = tt
       else td_origin r = origin \<and> td_template r = t))"
  proof cases
    case new
    note i = template_insert_Ok[OF new(2)] and ok = template_insert_ok[OF assms(2) new(2)]
    have "template_get_by_name n tt' = template_get_by_name n tt" if "n \<noteq> t_name t" for n
      by (rule get_by_name_eqI[OF assms(2) ok]) (use that i(1,4) in auto)
    then show ?thesis using ok i new(3) get_by_name_Some[OF ok, of "t_name t" row] by auto
  next
    case old
    note ok = template_update_ok[OF assms(2) old(3)]
    have r: "r \<in> set (tt_rows tt)" "row_name r = t_name t" using old(1) get_by_name_Some[OF assms(2)] by auto
    have d: "distinct (map td_id (tt_rows tt))" using assms(2) by (simp add: tt_ok_def)
    have only: "x = r" if "x \<in> set (tt_rows tt)" "td_id x = td_id r" for x using key_unique[OF d that(1) r(1)] that(2) by simp
    obtain y where y: "y \<in> set (tt_rows tt)" "td_id y = td_id r" "row = y\<lparr>td_template := t\<lparr>t_name := row_name y\<rparr>, td_updated_at := now\<rparr>"
      "tt_rows tt' = map (\<lambda>x. if td_id x = td_id r then row else x) (tt_rows tt)"
      using template_update_Ok[OF old(3) assms(2)] by blast
    then have row: "td_origin row = origin" "td_template row = t"
      using only[of y] r(2) old(2) by auto
    have rows: "x \<in> set (tt_rows tt') \<longleftrightarrow> x = row \<or> x \<in> set (tt_rows tt) \<and> x \<noteq> r" for x
      using r(1) only by (auto simp: y(4))
    have "filter (\<lambda>r. td_origin r \<noteq> origin) (tt_rows tt') = filter (\<lambda>r. td_origin r \<noteq> origin) (tt_rows tt)"
      unfolding y(4) by (rule filter_map_same) (use only old(2) row in auto)
    moreover have "template_get_by_name n tt' = template_get_by_name n tt" if "n \<noteq> t_name t" for n
      by (rule get_by_name_eqI[OF assms(2) ok]) (use that rows row(2) r(2) in auto)
    moreover have "template_get_by_name (t_name t) tt' = Some row" using get_by_name_Some[OF ok] rows row(2) by blast
    ultimately show ?thesis using ok row old(4) by simp
  next
    case other
    then show ?thesis using assms(2) by simp
  qed
  then show "tt_ok tt'" "filter (\<lambda>r. td_origin r \<noteq> origin) (tt_rows tt') = filter (\<lambda>r. td_origin r \<noteq> origin) (tt_rows tt)"
    "n \<noteq> t_name t \<Longrightarrow> template_get_by_name n tt' = template_get_by_name n tt"
    "\<exists>r. template_get_by_name (t_name t) tt' = Some r \<and> (if x = SkippedUserOwned then td_origin r \<noteq> origin \<and> tt' = tt
       else td_origin r = origin \<and> td_template r = t)" by blast+
qed

text \<open>Seeding a catalog of distinctly named templates: when it succeeds, every template of the catalog
  is found under its name, as the catalog defines it, unless a row of another origin has the name;
  rows of other origins are untouched, the answer names the templates in order, and a template is
  reported as skipped exactly when the name belongs to another origin.\<close>

theorem seeding_installs_catalog:
  assumes "tt_ok tt" "distinct (map t_name ts)" "seed_templates ts origin now tt = (tt', Ok out)"
  shows "tt_ok tt' \<and> map fst out = map t_name ts \<and>
    filter (\<lambda>r. td_origin r \<noteq> origin) (tt_rows tt') = filter (\<lambda>r. td_origin r \<noteq> origin) (tt_rows tt) \<and>
    list_all2 (\<lambda>t x. \<exists>r. template_get_by_name (t_name t) tt' = Some r \<and>
       (if x = SkippedUserOwned then td_origin r \<noteq> origin else td_origin r = origin \<and> td_template r = t)) ts (map snd out)"
proof -
  have "tt_ok tt' \<and> map fst out = map t_name ts \<and>
    filter (\<lambda>r. td_origin r \<noteq> origin) (tt_rows tt') = filter (\<lambda>r. td_origin r \<noteq> origin) (tt_rows tt) \<and>
    (\<forall>n. n \<notin> t_name ` set ts \<longrightarrow> template_get_by_name n tt' = template_get_by_name n tt) \<and>
    list_all2 (\<lambda>t x. \<exists>r. template_get_by_name (t_name t) tt' = Some r \<and>
       (if x = SkippedUserOwned then td_origin r \<noteq> origin else td_origin r = origin \<and> td_template r = t)) ts (map snd out)"
    using assms
  proof (induction ts arbitrary: tt out)
    case (Cons t ts)
    obtain tt1 y where s: "seed_template t origin now tt = (tt1, y)" by fastforce
    obtain x where y: "y = Ok x" using Cons.prems(3) s by (cases y) auto
    note one = seed_template_Ok[OF s[unfolded y] Cons.prems(1)]
    obtain xs where rest: "seed_templates ts origin now tt1 = (tt', Ok xs)" "out = (t_name t, x) # xs"
      using Cons.prems(3) by (auto simp: s y apsnd_def map_prod_def split: prod.splits elim!: map_sum_OkE)
    have d: "distinct (map t_name ts)" "t_name t \<notin> t_name ` set ts" using Cons.prems(2) by auto
    note IH = Cons.IH[OF one(1) d(1) rest(1)]
    have "template_get_by_name (t_name t) tt' = template_get_by_name (t_name t) tt1" using IH d(2) by blast
    then have "\<exists>r. template_get_by_name (t_name t) tt' = Some r \<and>
       (if x = SkippedUserOwned then td_origin r \<noteq> origin else td_origin r = origin \<and> td_template r = t)"
      using one(4) by (auto split: if_splits)
    then show ?case using IH one(2,3) rest(2) by simp
  qed simp
  then show ?thesis by blast
qed

definition demo_table :: template_table where
  "demo_table = \<lparr> tt_rows = [\<lparr> td_id = 1, td_origin = OUser, td_template = yokogawa_template\<lparr>t_name := ''Mine''\<rparr>,
     td_created_at = 1, td_updated_at = 1 \<rparr>], tt_seq = 1 \<rparr>"

theorem seeding_installs_catalog_witness:
  "\<exists>tt'. seed_templates [yokogawa_template, yokogawa_template\<lparr>t_name := ''Mine''\<rparr>] OBuiltin 5 demo_table =
      (tt', Ok [(''Yokogawa'', SeedInserted), (''Mine'', SkippedUserOwned)]) \<and>
    (\<exists>r. template_get_by_name ''Yokogawa'' tt' = Some r \<and> td_template r = yokogawa_template)"
proof -
  have ok: "tt_ok demo_table"
    by (simp add: tt_ok_def demo_table_def yokogawa_template_def pid_rounding_validate_def)
  have d: "distinct (map t_name [yokogawa_template, yokogawa_template\<lparr>t_name := ''Mine''\<rparr>])"
    by (simp add: yokogawa_template_def)
  obtain tt' where s: "seed_templates [yokogawa_template, yokogawa_template\<lparr>t_name := ''Mine''\<rparr>] OBuiltin 5 demo_table =
      (tt', Ok [(''Yokogawa'', SeedInserted), (''Mine'', SkippedUserOwned)])"
    by (simp add: seed_template_def template_get_by_name_def demo_table_def yokogawa_template_def template_insert_def
        bind_shared_template_fields_def pid_rounding_validate_def Let_def apsnd_def map_prod_def)
  have "t_name yokogawa_template = ''Yokogawa''" by (simp add: yokogawa_template_def)
  then show ?thesis using s seeding_installs_catalog[OF ok d s] by auto
qed

end
