(* ===== verification/Write_Back.thy ===== *)
theory Write_Back
  imports Live_Ownership_Safety Db_Templates
begin

text \<open>
  Writing PID constants back to the controller (\<open>bhtune-runtime/src/tune/writeback.rs\<close>): pre-read,
  write and verify, roll back, audit; the choice of the level to write; and the results a completed
  test persists (\<open>persist_results\<close> of \<open>tune/poll.rs\<close>).

  A controller is the audited driver of the operation that owns it; number parsing, float text,
  JSON text and the wording of errors are parameters.
\<close>

section \<open>Parameters\<close>

record write_lib = report_lib +
  wl_live :: "live_error \<Rightarrow> string"
  wl_acquire :: "acquire_error \<Rightarrow> string"
  wl_level :: "response_level \<Rightarrow> string"
  wl_reason :: "invalid_reason \<Rightarrow> string"
  wl_pid_error :: "controller_pid_error \<Rightarrow> string"
  wl_number :: "f32 \<Rightarrow> string"
  wl_pid_restore :: "int \<Rightarrow> write_kind \<Rightarrow> response_level \<Rightarrow> write_readback \<Rightarrow> write_readback \<Rightarrow> string"
  wl_merge :: "string option \<Rightarrow> string \<Rightarrow> (string, string) result"
  wl_intent :: "int \<Rightarrow> write_kind \<Rightarrow> string"

text \<open>The environment of a controller operation: how tags are read and written, the JSON and error
  texts of the audited driver, the number parser, the run.\<close>

record 'd controller =
  co_get :: "'d get"
  co_put :: "'d put"
  co_js :: json_lib
  co_el :: error_lib
  co_parse :: "string \<Rightarrow> f32 option"
  co_lib :: write_lib
  co_float :: float_lib

definition co_read :: "'d controller \<Rightarrow> string \<Rightarrow> bool \<Rightarrow> 'd audited_driver \<Rightarrow> 'd audited_driver \<times> (run_error, f32) result" where
  "co_read c = read_f32 (co_parse c) (audited_read (co_get c))"

definition co_write :: "'d controller \<Rightarrow> int option \<Rightarrow> string \<Rightarrow> f32 \<Rightarrow> 'd audited_driver \<Rightarrow> 'd audited_driver \<times> (run_error, unit) result" where
  "co_write c rid = write_value (audited_write (co_js c) (co_el c) (co_put c) rid)"

definition co_now :: "'d audited_driver \<Rightarrow> 'd audited_driver \<times> timestamp" where
  "co_now s = (s\<lparr>au_reads := au_reads s + 1\<rparr>, au_clock s (au_reads s))"

section \<open>One constant\<close>

definition pre_read ::
  "'d controller \<Rightarrow> string \<Rightarrow> string \<Rightarrow> bool \<Rightarrow> 'd audited_driver \<Rightarrow> 'd audited_driver \<times> (string, f32) result" where
  "pre_read c label tag allow s =
     apsnd (map_sum (\<lambda>e. ''pre-read of '' @ label @ '' tag '' @ [CHR 39] @ tag @ [CHR 39] @ '' failed: '' @ tl_error (co_lib c) e) id)
       (co_read c tag allow s)"

definition read_previous_pid_values ::
  "'d controller \<Rightarrow> string \<Rightarrow> string \<Rightarrow> string \<Rightarrow> bool \<Rightarrow> 'd audited_driver
   \<Rightarrow> 'd audited_driver \<times> (string, write_readback) result" where
  "read_previous_pid_values c p_tag i_tag d_tag allow s =
     (case pre_read c ''Proportional'' p_tag allow s of
        (s1, Inl e) \<Rightarrow> (s1, Err e)
      | (s1, Inr p) \<Rightarrow> (case pre_read c ''Integral'' i_tag allow s1 of
            (s2, Inl e) \<Rightarrow> (s2, Err e)
          | (s2, Inr i) \<Rightarrow> (case pre_read c ''Derivative'' d_tag allow s2 of
                (s3, Inl e) \<Rightarrow> (s3, Err e)
              | (s3, Inr d) \<Rightarrow> (s3, Ok \<lparr> wr_proportional = p, wr_integral = i, wr_derivative = d \<rparr>))))"

definition pid_value_within_tolerance :: "f32 \<Rightarrow> f32 \<Rightarrow> bool" where
  "pid_value_within_tolerance requested actual =
     fl_le (fl_abs (fl_sub B32 actual requested))
       (fl_max (lit32 0.001) (fl_mul B32 (lit32 0.01) (fl_abs requested)))"

definition write_and_verify_pid_value ::
  "'d controller \<Rightarrow> int option \<Rightarrow> string \<Rightarrow> string \<Rightarrow> f32 \<Rightarrow> bool \<Rightarrow> 'd audited_driver
   \<Rightarrow> 'd audited_driver \<times> (string, f32) result" where
  "write_and_verify_pid_value c rid label tag v allow s =
     (let lib = co_lib c; quoted = [CHR 39] @ tag @ [CHR 39]
      in case co_write c rid tag v s of
           (s1, Inl e) \<Rightarrow> (s1, Err (label @ '' write to '' @ quoted @ '' failed: '' @ tl_error lib e))
         | (s1, Inr _) \<Rightarrow>
             (case co_read c tag allow s1 of
                (s2, Inl e) \<Rightarrow> (s2, Err (label @ '' readback from '' @ quoted @ '' failed: '' @ tl_error lib e))
              | (s2, Inr back) \<Rightarrow>
                  if pid_value_within_tolerance v back then (s2, Ok back)
                  else (s2, Err (label @ '' readback '' @ rl_f32 lib back @ '' from '' @ quoted @
                         '' is outside tolerance of requested '' @ rl_f32 lib v))))"

text \<open>A constant to write: label, tag, new value, previous value.\<close>

record pid_target =
  pt_label :: string
  pt_tag :: string
  pt_value :: f32
  pt_previous_value :: f32

fun rollback_failures ::
  "'d controller \<Rightarrow> int option \<Rightarrow> pid_target list \<Rightarrow> 'd audited_driver \<Rightarrow> 'd audited_driver \<times> string list" where
  "rollback_failures c rid [] s = (s, [])"
| "rollback_failures c rid (t # ts) s =
     (let quoted = [CHR 39] @ pt_tag t @ [CHR 39]
      in if \<not> is_finite (pt_value t) then
           apsnd ((#) (pt_label t @ '' rollback audit intent for '' @ quoted @ '' has a non-finite write value''))
             (rollback_failures c rid ts s)
         else
           (let s1 = s\<lparr>au_guard := queue_previous_write_value (pt_tag t) (wl_number (co_lib c) (pt_value t)) (au_guard s)\<rparr>;
                (s2, r) = co_write c rid (pt_tag t) (pt_previous_value t) s1
            in apsnd (\<lambda>fs. case r of
                 Inr _ \<Rightarrow> fs
               | Inl e \<Rightarrow> (pt_label t @ '' rollback write to '' @ quoted @ '' failed: '' @ tl_error (co_lib c) e) # fs)
                 (rollback_failures c rid ts s2)))"

definition rollback_pid_writes ::
  "'d controller \<Rightarrow> int option \<Rightarrow> pid_target list \<Rightarrow> 'd audited_driver \<Rightarrow> 'd audited_driver \<times> (string, unit) result" where
  "rollback_pid_writes c rid targets s =
     (let (s', failures) = rollback_failures c rid targets s
      in (s', if failures = [] then Ok () else Err (join ''; '' failures)))"

section \<open>The three constants\<close>

text \<open>What the loop over the three leaves: the values written and read back so far, the confirmed
  constants, and the first failure.\<close>

record pid_progress =
  pg_written :: "f32 list"
  pg_readback :: "f32 list"
  pg_confirmed :: "pid_target list"
  pg_failure :: "string option"

fun write_constants ::
  "'d controller \<Rightarrow> int option \<Rightarrow> bool \<Rightarrow> pid_target list \<Rightarrow> 'd audited_driver \<times> pid_progress \<Rightarrow> 'd audited_driver \<times> pid_progress" where
  "write_constants c rid allow [] sp = sp"
| "write_constants c rid allow (t # ts) (s, g) =
     (let g1 = g\<lparr>pg_written := pg_written g @ [pt_value t]\<rparr>;
          s1 = s\<lparr>au_guard := queue_previous_write_value (pt_tag t) (wl_number (co_lib c) (pt_previous_value t)) (au_guard s)\<rparr>
      in case write_and_verify_pid_value c rid (pt_label t) (pt_tag t) (pt_value t) allow s1 of
           (s2, Inl e) \<Rightarrow> (s2, g1\<lparr>pg_failure := Some e\<rparr>)
         | (s2, Inr back) \<Rightarrow>
             write_constants c rid allow ts (s2, g1\<lparr>pg_readback := pg_readback g1 @ [back], pg_confirmed := pg_confirmed g1 @ [t]\<rparr>))"

datatype pid_write_outcome = PidWritten | PidWriteFailed string

datatype write_error = WeText string | WeLive live_error | WeDb db_error | WeAcquire acquire_error

text \<open>\<open>persist_pid_restore_intent\<close>: the intent recorded so far is read back and extended.\<close>

definition persist_pid_restore_intent ::
  "'d controller \<Rightarrow> int \<Rightarrow> write_kind \<Rightarrow> response_level \<Rightarrow> write_readback \<Rightarrow> write_readback
   \<Rightarrow> 'd audited_driver \<Rightarrow> 'd audited_driver \<times> (write_error, unit) result" where
  "persist_pid_restore_intent c rid kind level previous target s =
     (let lib = co_lib c; oid = lo_id (gd_owner (au_guard s))
      in case owner_get oid (au_db s) of
           None \<Rightarrow> (s, Err (WeText (''live owner '' @ tl_nat lib (nat oid) @ '' disappeared'')))
         | Some owner \<Rightarrow>
             (case wl_merge lib (restore_intent_json owner) (wl_pid_restore lib rid kind level previous target) of
                Inl e \<Rightarrow> (s, Err (WeText e))
              | Inr intent \<Rightarrow>
                  (let (d, r) = persist_restore_intent (co_js c) intent (au_guard s) (au_db s)
                   in (s\<lparr>au_db := d\<rparr>, map_sum WeLive id r))))"

definition insert_write :: "int \<Rightarrow> new_tune_write \<Rightarrow> pid_write_outcome \<Rightarrow> 'd audited_driver
    \<Rightarrow> 'd audited_driver \<times> (write_error, pid_write_outcome) result" where
  "insert_write rid w out s =
     (case write_insert rid w (au_db s) of
        (d, Inl e) \<Rightarrow> (s\<lparr>au_db := d\<rparr>, Err (WeDb e))
      | (d, Inr _) \<Rightarrow> (s\<lparr>au_db := d\<rparr>, Ok out))"

definition nth_opt :: "'a list \<Rightarrow> nat \<Rightarrow> 'a option" where
  "nth_opt xs n = (if n < length xs then Some (xs ! n) else None)"

definition with_progress :: "pid_progress \<Rightarrow> new_tune_write \<Rightarrow> new_tune_write" where
  "with_progress g w =
     w\<lparr>proportional_written := nth_opt (pg_written g) 0, integral_written := nth_opt (pg_written g) 1,
       derivative_written := nth_opt (pg_written g) 2, proportional_readback := nth_opt (pg_readback g) 0,
       integral_readback := nth_opt (pg_readback g) 1, derivative_readback := nth_opt (pg_readback g) 2\<rparr>"

definition pid_steps :: "string \<Rightarrow> string \<Rightarrow> string \<Rightarrow> write_readback \<Rightarrow> write_readback \<Rightarrow> pid_target list" where
  "pid_steps p_tag i_tag d_tag target previous =
     [\<lparr> pt_label = ''Proportional'', pt_tag = p_tag, pt_value = wr_proportional target, pt_previous_value = wr_proportional previous \<rparr>,
      \<lparr> pt_label = ''Integral'', pt_tag = i_tag, pt_value = wr_integral target, pt_previous_value = wr_integral previous \<rparr>,
      \<lparr> pt_label = ''Derivative'', pt_tag = d_tag, pt_value = wr_derivative target, pt_previous_value = wr_derivative previous \<rparr>]"

text \<open>Everything after the pre-read and the intent.\<close>

definition write_and_roll_back ::
  "'d controller \<Rightarrow> int \<Rightarrow> string \<Rightarrow> string \<Rightarrow> string \<Rightarrow> write_readback \<Rightarrow> write_readback \<Rightarrow> write_kind \<Rightarrow> bool \<Rightarrow> new_tune_write
   \<Rightarrow> 'd audited_driver \<Rightarrow> 'd audited_driver \<times> (write_error, pid_write_outcome) result" where
  "write_and_roll_back c rid p_tag i_tag d_tag target previous kind allow w0 s =
     (let (s1, g) = write_constants c (Some rid) allow (pid_steps p_tag i_tag d_tag target previous)
            (s, \<lparr> pg_written = [], pg_readback = [], pg_confirmed = [], pg_failure = None \<rparr>);
          w = with_progress g w0
      in case pg_failure g of
           None \<Rightarrow> insert_write rid (w\<lparr>nw_success := True\<rparr>) PidWritten s1
         | Some e \<Rightarrow>
             (let wf = w\<lparr>nw_success := False, error_message := Some e\<rparr>
              in if kind \<noteq> WWrite \<or> pg_confirmed g = [] then insert_write rid wf (PidWriteFailed e) s1
                 else (case rollback_pid_writes c (Some rid) (pg_confirmed g) s1 of
                     (s2, Inr _) \<Rightarrow>
                       insert_write rid (wf\<lparr>nw_rollback_state := Some RollbackSucceeded\<rparr>)
                         (PidWriteFailed (e @ '' (rolled back)'')) s2
                   | (s2, Inl e2) \<Rightarrow>
                       insert_write rid (wf\<lparr>nw_rollback_state := Some RollbackFailed, rollback_error := Some e2\<rparr>)
                         (PidWriteFailed (e @ ''; rollback also failed: '' @ e2 @
                            '' -- the loop may hold a mismatched set of PID constants, see `bhtune history revert '' @
                            tl_nat (co_lib c) (nat rid) @ ''`'')) s2)))"

definition write_pid_values_inner ::
  "'d controller \<Rightarrow> int \<Rightarrow> string \<Rightarrow> string \<Rightarrow> string \<Rightarrow> response_level \<Rightarrow> write_readback \<Rightarrow> write_kind \<Rightarrow> bool
   \<Rightarrow> 'd audited_driver \<Rightarrow> 'd audited_driver \<times> (write_error, pid_write_outcome) result" where
  "write_pid_values_inner c rid p_tag i_tag d_tag level target kind allow s =
     (case ensure_healthy (au_guard s) of
        Inl e \<Rightarrow> (s, Err (WeText e))
      | Inr _ \<Rightarrow>
     if lo_run_id (gd_owner (au_guard s)) \<noteq> Some rid
     then (s, Err (WeText (''live ownership does not match PID write run '' @ tl_nat (co_lib c) (nat rid))))
     else
       (let (s1, now) = co_now s; w = (new_write level now)\<lparr>nw_kind := kind, nw_allow_uncertain_quality := allow\<rparr>
        in case read_previous_pid_values c p_tag i_tag d_tag allow s1 of
             (s2, Inl e) \<Rightarrow> insert_write rid (w\<lparr>error_message := Some e\<rparr>) (PidWriteFailed (''pre-read failed: '' @ e)) s2
           | (s2, Inr previous) \<Rightarrow>
               (case persist_pid_restore_intent c rid kind level previous target s2 of
                  (s3, Inl e) \<Rightarrow> (s3, Err e)
                | (s3, Inr _) \<Rightarrow>
                    write_and_roll_back c rid p_tag i_tag d_tag target previous kind allow (w\<lparr>nw_previous := Some previous\<rparr>) s3)))"

section \<open>Owning the controller\<close>

text \<open>\<open>write_pid_values\<close>: a write or a revert after the run, under an ownership of its own.  The world
  outside is the inner driver, the database and the clock.\<close>

definition pid_operation_kind :: "write_kind \<Rightarrow> live_operation_kind" where
  "pid_operation_kind k = (case k of WWrite \<Rightarrow> KPidWrite | WRevert \<Rightarrow> KPidRevert)"

fun we_text :: "error_lib \<Rightarrow> write_lib \<Rightarrow> write_error \<Rightarrow> string" where
  "we_text el lib (WeText t) = t"
| "we_text el lib (WeLive e) = wl_live lib e"
| "we_text el lib (WeDb e) = el_db el e"
| "we_text el lib (WeAcquire e) = wl_acquire lib e"

definition write_pid_values ::
  "'d controller \<Rightarrow> lock_env \<Rightarrow> int \<Rightarrow> (nat \<Rightarrow> timestamp) \<Rightarrow> int \<Rightarrow> string \<Rightarrow> string \<Rightarrow> string \<Rightarrow> response_level
   \<Rightarrow> write_readback \<Rightarrow> write_kind \<Rightarrow> bool \<Rightarrow> 'd \<times> db \<Rightarrow> ('d \<times> db) \<times> (write_error, pid_write_outcome) result" where
  "write_pid_values c env pid clock rid p_tag i_tag d_tag level target kind allow = (\<lambda>(i, d).
     let lib = co_lib c; num = (\<lambda>n. tl_nat lib (nat n)) in
     case run_get rid d of
       None \<Rightarrow> ((i, d), Err (WeText (''no run with id '' @ num rid)))
     | Some run \<Rightarrow>
         (case acquire_for_recorded_run (co_js c) num env pid (clock 0) run (pid_operation_kind kind) (wl_intent lib rid kind) d of
            (d1, Inl e) \<Rightarrow> ((i, d1), Err (WeAcquire e))
          | (d1, Inr g) \<Rightarrow>
              (let (s, r) = write_pid_values_inner c rid p_tag i_tag d_tag level target kind allow
                     \<lparr> au_inner = i, au_db = d1, au_guard = g, au_clock = clock, au_reads = 1 \<rparr>;
                   (s', now) = co_now s;
                   (d2, rel) = release_guard (co_js c) now (au_guard s') (au_db s')
               in ((au_inner s', d2),
                   case (r, rel) of
                     (_, Inr _) \<Rightarrow> r
                   | (Inr _, Inl e) \<Rightarrow> Err (WeLive e)
                   | (Inl e, Inl e2) \<Rightarrow> Err (WeText (we_text (co_el c) lib e @
                       ''; additionally failed to persist live ownership release: '' @ wl_live lib e2))))))"

definition operation_kind_authorizes_pid_write :: "write_kind \<Rightarrow> live_operation_kind \<Rightarrow> bool" where
  "operation_kind_authorizes_pid_write kind op \<longleftrightarrow>
     (if kind = WWrite then op = KTune \<or> op = KPidWrite else op = KPidRevert)"

text \<open>\<open>driver_run\<close>: the run the audited driver was made for.\<close>

definition write_pid_values_with_owner ::
  "'d controller \<Rightarrow> int option \<Rightarrow> int \<Rightarrow> string \<Rightarrow> string \<Rightarrow> string \<Rightarrow> response_level \<Rightarrow> write_readback \<Rightarrow> write_kind \<Rightarrow> bool
   \<Rightarrow> 'd audited_driver \<Rightarrow> 'd audited_driver \<times> (write_error, pid_write_outcome) result" where
  "write_pid_values_with_owner c driver_run rid p_tag i_tag d_tag level target kind allow s =
     (let owner = gd_owner (au_guard s)
      in if driver_run \<noteq> Some rid \<or> lo_run_id owner \<noteq> Some rid
         then (s, Err (WeText (''live ownership does not match PID write run '' @ tl_nat (co_lib c) (nat rid))))
         else if \<not> operation_kind_authorizes_pid_write kind (operation_kind owner)
         then (s, Err (WeText ''live ownership kind does not authorize the requested PID operation''))
         else write_pid_values_inner c rid p_tag i_tag d_tag level target kind allow s)"

section \<open>Results\<close>

definition pid_parameters_for_result :: "write_lib \<Rightarrow> tune_result_row \<Rightarrow> (string, pid_parameters) result" where
  "pid_parameters_for_result lib r =
     (let level = wl_level lib (res_level r)
      in if res_status r \<noteq> Valid then
           Err (level @ '' calculated result is invalid: '' @
             (case res_invalid_reason r of Some x \<Rightarrow> wl_reason lib x | None \<Rightarrow> ''no invalid reason was recorded''))
         else if res_invalid_reason r \<noteq> None then
           Err (level @ '' calculated result has an invalid reason despite being marked valid'')
         else (case res_proportional r of
             None \<Rightarrow> Err (level @ '' calculated result is missing its proportional value'')
           | Some p \<Rightarrow> (case res_integral r of
               None \<Rightarrow> Err (level @ '' calculated result is missing its integral value'')
             | Some i \<Rightarrow> (case res_derivative r of
                 None \<Rightarrow> Err (level @ '' calculated result is missing its derivative value'')
               | Some d \<Rightarrow>
                   if \<not> is_finite p \<or> \<not> is_finite i \<or> \<not> is_finite d
                   then Err (level @ '' calculated result contains a non-finite PID value'')
                   else Ok \<lparr> pp_response_level = res_level r, pp_proportional = p, pp_integral = i, pp_derivative = d \<rparr>))))"

definition controller_pid_for_result ::
  "write_lib \<Rightarrow> float_lib \<Rightarrow> tune_result_row \<Rightarrow> controller_type \<Rightarrow> dcs_template \<Rightarrow> (string, controller_pid_values_t) result" where
  "controller_pid_for_result lib L r ct t =
     bind_result (pid_parameters_for_result lib r) (\<lambda>pid.
       map_sum (\<lambda>e. wl_level lib (res_level r) @ '' controller PID target is unavailable: '' @ wl_pid_error lib e) id
         (controller_pid_values L pid ct t))"

record pid_write_preview =
  pv_response_level :: response_level
  pv_values :: "controller_pid_values_t option"
  pv_unavailable_reason :: "string option"

definition pid_write_preview_of ::
  "write_lib \<Rightarrow> float_lib \<Rightarrow> tune_result_row \<Rightarrow> controller_type \<Rightarrow> dcs_template \<Rightarrow> pid_write_preview" where
  "pid_write_preview_of lib L r ct t =
     (case controller_pid_for_result lib L r ct t of
        Inr v \<Rightarrow> \<lparr> pv_response_level = res_level r, pv_values = Some v, pv_unavailable_reason = None \<rparr>
      | Inl e \<Rightarrow> \<lparr> pv_response_level = res_level r, pv_values = None, pv_unavailable_reason = Some e \<rparr>)"

text \<open>\<open>persist_results\<close> of a completed action; \<open>Inl None\<close> is the panic of the measurement.\<close>

fun persist_rows ::
  "write_lib \<Rightarrow> float_lib \<Rightarrow> int list \<Rightarrow> controller_type \<Rightarrow> dcs_template \<Rightarrow> tune_result_row list \<Rightarrow> result_table
   \<Rightarrow> result_table \<times> (db_error, pid_write_preview list) result" where
  "persist_rows lib L run_ids ct t [] rt = (rt, Ok [])"
| "persist_rows lib L run_ids ct t (r # rs) rt =
     (case result_insert run_ids r rt of
        (rt', Inl e) \<Rightarrow> (rt', Err e)
      | (rt', Inr _) \<Rightarrow>
          apsnd (map_sum id ((#) (pid_write_preview_of lib L r ct t))) (persist_rows lib L run_ids ct t rs rt'))"

definition persist_results ::
  "write_lib \<Rightarrow> float_lib \<Rightarrow> int list \<Rightarrow> int \<Rightarrow> action \<Rightarrow> controller_direction \<Rightarrow> loop_config \<Rightarrow> pv_range \<Rightarrow> dcs_template
   \<Rightarrow> result_table \<Rightarrow> result_table \<times> (write_error, pid_write_preview list) result option" where
  "persist_results lib L run_ids rid act direction config pvr t rt =
     (case act of
        Complete peaks troughs ts sign \<Rightarrow>
          (case calculate_all_checked peaks troughs ts sign direction config pvr t of
             None \<Rightarrow> (rt, None)
           | Some cs \<Rightarrow>
               apsnd (Some \<circ> map_sum WeDb id)
                 (persist_rows lib L run_ids (lc_controller_type config) t (map (result_from_checked rid) cs) rt))
      | _ \<Rightarrow> (rt, Some (Err (WeText ''internal error: persist_results called with a non-Complete action''))))"

section \<open>Choosing a level\<close>

datatype write_back_selection = Selected response_level | SelectionSkipped string | SelectionFailed string

datatype write_back_skip_reason = NoPidTags | NoResults

text \<open>An adapter's handler: its choice; what it is told is listed in the answer.\<close>

record write_back_handler =
  wh_select :: "pid_write_preview list \<Rightarrow> write_back_selection"

datatype handler_call =
  PidResultsReady "pid_write_preview list"
| WriteBackSelected controller_pid_values_t bool
| WriteBackSkippedFor write_back_skip_reason
| WriteBackFailedWith string
| WriteBackFinished response_level pid_write_outcome

definition maybe_write_back_with_owner ::
  "'d controller \<Rightarrow> int \<Rightarrow> loop_tags \<Rightarrow> dcs_template \<Rightarrow> controller_type \<Rightarrow> response_level option \<Rightarrow> bool
   \<Rightarrow> write_back_handler option \<Rightarrow> bool \<Rightarrow> result_table \<Rightarrow> 'd audited_driver
   \<Rightarrow> 'd audited_driver \<times> handler_call list \<times> (write_error, write_back_outcome \<times> string option) result" where
  "maybe_write_back_with_owner c rid tags t ct write_pid allow handler owned rt s =
     (let lib = co_lib c; tell = (\<lambda>x. if handler = None then [] else [x]);
          failed = (\<lambda>told detail. (s, told @ tell (WriteBackFailedWith detail), Ok (WbFailed, Some detail)))
      in case (g_proportional_constant tags, g_integral_constant tags, g_derivative_constant tags) of
           (Some p_tag, Some i_tag, Some d_tag) \<Rightarrow>
             (let results = results_for_run rid rt
              in if results = [] then
                   (s, tell (WriteBackSkippedFor NoResults), Ok (WbSkipped, Some ''no calculated results were recorded for this run''))
                 else (case (case write_pid of
                       Some level \<Rightarrow> Selected level
                     | None \<Rightarrow> (case handler of
                           Some h \<Rightarrow> wh_select h (map (\<lambda>r. pid_write_preview_of lib (co_float c) r ct t) results)
                         | None \<Rightarrow> SelectionSkipped ''no response level was selected by the caller'')) of
                     SelectionSkipped detail \<Rightarrow> (s, [], Ok (WbSkipped, Some detail))
                   | SelectionFailed detail \<Rightarrow> failed [] detail
                   | Selected level \<Rightarrow>
                       (case List.find (\<lambda>r. res_level r = level) results of
                          None \<Rightarrow> failed [] (''no calculated result recorded for response level '' @ wl_level lib level)
                        | Some r \<Rightarrow>
                            (case controller_pid_for_result lib (co_float c) r ct t of
                               Inl e \<Rightarrow> failed [] e
                             | Inr v \<Rightarrow>
                                 (let told = tell (WriteBackSelected v (write_pid \<noteq> None));
                                      target = \<lparr> wr_proportional = rv_value (cp_proportional v),
                                        wr_integral = rv_value (cp_integral v), wr_derivative = rv_value (cp_derivative v) \<rparr>
                                  in if \<not> owned then
                                       (s, told, Err (WeText ''PID write-back requires a live ownership guard before controller mutation''))
                                     else (case write_pid_values_inner c rid p_tag i_tag d_tag (cp_response_level v) target WWrite allow s of
                                         (s', Inl e) \<Rightarrow> (s', told, Err e)
                                       | (s', Inr out) \<Rightarrow>
                                           (s', told @ tell (WriteBackFinished (cp_response_level v) out),
                                            Ok (case out of
                                                  PidWritten \<Rightarrow> (WbWritten (cp_response_level v), None)
                                                | PidWriteFailed detail \<Rightarrow> (WbFailed, Some detail)))))))))
         | _ \<Rightarrow>
             (s, tell (WriteBackSkippedFor NoPidTags),
              Ok (WbSkipped, Some (''no PID constant tags configured for this run'' @ [CHR 39] @ ''s driver/template''))))"

end
