(* ===== verification/Write_Back_Safety.thy ===== *)
theory Write_Back_Safety
  imports Write_Back
begin

text \<open>
  What a PID write-back guarantees: which values the controller holds after each outcome, one audit
  row for every attempt, and what a rollback leaves behind.
\<close>

section \<open>Controllers that remember\<close>

text \<open>Reading does not change what the tags hold.\<close>

locale tag_memory = tag_store put holds
  for put :: "'d put" and holds :: "'d \<Rightarrow> string \<Rightarrow> tag_write \<Rightarrow> bool" +
  fixes get :: "'d get"
  assumes undisturbed: "get tags d = (d', r) \<Longrightarrow> holds d' t v = holds d t v"

lemma step_finish_only: "\<exists>t. fst (step_finish jv i st now rb x d) = d\<lparr>steps := t\<rparr>"
proof -
  have "\<exists>t. d = d\<lparr>steps := t\<rparr>" by (rule exI[of _ "steps d"]) simp
  then show ?thesis
    by (auto simp: step_finish_def run_tx_def Let_def bind_result_Ok_iff bind_result_Err_iff split: sum.splits)
qed

lemma audited_write_tables:
  assumes "audited_write js el put rid tag w s = (s', r)"
  shows "writes (au_db s') = writes (au_db s)" "runs (au_db s') = runs (au_db s)" "claims (au_db s') = claims (au_db s)"
proof -
  have b: "writes d1 = writes d \<and> runs d1 = runs d \<and> claims d1 = claims d" if "step_begin jv new d = (d1, x)" for jv new d d1 x
  proof (cases x)
    case (Inl e) then show ?thesis using step_begin_Err that by blast
  next
    case (Inr row) show ?thesis using step_begin_Ok(1)[OF that[unfolded Inr]] by simp
  qed
  have f: "writes d1 = writes d \<and> runs d1 = runs d \<and> claims d1 = claims d" if r: "step_finish jv i st now rb y d = (d1, x)" for jv i st now rb y d d1 x
  proof -
    obtain t where "fst (step_finish jv i st now rb y d) = d\<lparr>steps := t\<rparr>" using step_finish_only by blast
    then show ?thesis by (simp add: r)
  qed
  obtain g prev where g: "take_previous_write_value tag (au_guard s) = (g, prev)" by fastforce
  have "writes (au_db s') = writes (au_db s) \<and> runs (au_db s') = runs (au_db s) \<and> claims (au_db s') = claims (au_db s)"
  proof (cases "gd_failed (au_guard s) \<or> \<not> is_ok (write_target_json js tag w)")
    case True
    then show ?thesis
      using assms by (auto simp: audited_write_def ensure_healthy_def split: if_splits sum.splits)
  next
    case False
    then obtain t where t: "\<not> gd_failed (au_guard s)" "write_target_json js tag w = Ok t" by (auto simp: is_ok_iff)
    obtain d1 begun where d1: "step_begin (js_valid js) (intent_of t prev rid s) (au_db s) = (d1, begun)" by fastforce
    show ?thesis
    proof (cases begun)
      case (Inl e)
      then show ?thesis using assms t g d1 b[OF d1] by (auto simp: audited_write_def ensure_healthy_def Let_def)
    next
      case (Inr row)
      obtain i x where p: "put tag w (au_inner s) = (i, x)" by fastforce
      obtain st detail where v: "write_verdict el x = (st, detail)" by fastforce
      obtain now where now: "now = au_clock s (Suc (au_reads s))" by blast
      obtain d2 fin where d2: "step_finish (js_valid js) (ms_id row) st now None (Some detail) d1 = (d2, fin)" by fastforce
      have "au_db s' = d2"
        using assms t g d1 Inr p v d2 now by (auto simp: audited_write_def ensure_healthy_def Let_def split: sum.splits)
      then show ?thesis using b[OF d1] f[OF d2] by simp
    qed
  qed
  then show "writes (au_db s') = writes (au_db s)" "runs (au_db s') = runs (au_db s)" "claims (au_db s') = claims (au_db s)"
    by simp_all
qed

section \<open>Steps of a write-back\<close>

lemma co_write_cases:
  assumes "co_write c rid tag v s = (s', r)"
  shows "writes (au_db s') = writes (au_db s)" "runs (au_db s') = runs (au_db s)"
    and "au_inner s' = au_inner s \<or> (\<exists>x. co_put c tag (WFloat v) (au_inner s) = (au_inner s', x))"
    and "r = Ok u \<Longrightarrow> \<exists>x. co_put c tag (WFloat v) (au_inner s) = (au_inner s', Ok x) \<and> wo_success x"
proof -
  obtain y where y: "audited_write (co_js c) (co_el c) (co_put c) rid tag (WFloat v) s = (s', y)" "r = write_result tag y"
    using assms by (auto simp: co_write_def write_value_def split: prod.splits)
  show "writes (au_db s') = writes (au_db s)" "runs (au_db s') = runs (au_db s)" by (rule audited_write_tables[OF y(1)])+
  show "au_inner s' = au_inner s \<or> (\<exists>x. co_put c tag (WFloat v) (au_inner s) = (au_inner s', x))"
    using audited_write_steps[OF y(1)] by auto
  assume "r = Ok u"
  then obtain x where "y = Ok x" "wo_success x" using y(2) by (auto simp: write_result_def split: sum.splits if_splits)
  then show "\<exists>x. co_put c tag (WFloat v) (au_inner s) = (au_inner s', Ok x) \<and> wo_success x"
    using audited_write_steps[OF y(1)] by auto
qed

lemma co_read_inner:
  assumes "co_read c tag allow s = (s', r)"
  shows "au_db s' = au_db s" "\<exists>x. co_get c [tag] (au_inner s) = (au_inner s', x)"
  using assms by (auto simp: co_read_def read_f32_def read_raw_def audited_read_def split: prod.splits)

lemma pre_read_inner:
  assumes "pre_read c label tag allow s = (s', r)"
  shows "au_db s' = au_db s" "\<exists>x. co_get c [tag] (au_inner s) = (au_inner s', x)"
  using assms co_read_inner[of c tag allow s] by (auto simp: pre_read_def apsnd_def map_prod_def split: prod.splits)

lemma insert_write_Ok:
  assumes "insert_write rid w out s = (s', Ok x)"
  shows "x = out" "au_inner s' = au_inner s" "\<exists>i. writes (au_db s') = writes (au_db s) @ [stored_write i rid w]"
  using assms by (auto simp: insert_write_def write_insert_def run_tx_def Let_def split: prod.splits sum.splits if_splits)

context tag_memory
begin

definition keeps :: "'d audited_driver \<Rightarrow> 'd audited_driver \<Rightarrow> string set \<Rightarrow> bool" where
  "keeps s s' ts \<longleftrightarrow> writes (au_db s') = writes (au_db s) \<and> runs (au_db s') = runs (au_db s) \<and>
     (\<forall>t v. t \<notin> ts \<longrightarrow> holds (au_inner s') t v = holds (au_inner s) t v)"

lemma keeps_refl: "keeps s s ts" by (simp add: keeps_def)

lemma keeps_trans: "keeps s s1 ts \<Longrightarrow> keeps s1 s2 ts \<Longrightarrow> keeps s s2 ts" by (simp add: keeps_def)

lemma keeps_mono: "keeps s s' ts \<Longrightarrow> ts \<subseteq> us \<Longrightarrow> keeps s s' us" by (auto simp: keeps_def)

lemma keeps_guard: "keeps s (s\<lparr>au_guard := g\<rparr>) ts" by (simp add: keeps_def)

lemma keeps_write:
  assumes "co_put c = put" "co_write c rid tag v s = (s', r)"
  shows "keeps s s' {tag}" "r = Ok () \<Longrightarrow> holds (au_inner s') tag (WFloat v)"
  using co_write_cases[OF assms(2)] untouched accepted unfolding assms(1) keeps_def
  by (metis insertI1)+

lemma keeps_read:
  assumes "co_get c = get" "co_read c tag allow s = (s', r)" shows "keeps s s' ts"
  using co_read_inner[OF assms(2)] undisturbed unfolding assms(1) keeps_def by metis

lemma keeps_pre_read:
  assumes "co_get c = get" "pre_read c label tag allow s = (s', r)" shows "keeps s s' ts"
  using pre_read_inner[OF assms(2)] undisturbed unfolding assms(1) keeps_def by metis

lemma keeps_previous:
  assumes "co_get c = get" "read_previous_pid_values c p i d allow s = (s', r)" shows "keeps s s' ts"
  using assms(2) keeps_pre_read[OF assms(1)]
  by (auto simp: read_previous_pid_values_def split: prod.splits sum.splits) (meson keeps_trans)+

lemma verify_keeps:
  assumes c: "co_get c = get" "co_put c = put" and "write_and_verify_pid_value c rid label tag v allow s = (s', r)"
  shows "keeps s s' {tag}" "r = Ok back \<Longrightarrow> holds (au_inner s') tag (WFloat v) \<and> pid_value_within_tolerance v back"
proof -
  obtain s1 x where w: "co_write c rid tag v s = (s1, x)" by fastforce
  obtain s2 y where rd: "co_read c tag allow s1 = (s2, y)" by fastforce
  note k = keeps_write[OF c(2) w] and l = keeps_read[OF c(1) rd]
  have "s' = s1 \<or> s' = s2"
    using assms(3) w rd by (auto simp: write_and_verify_pid_value_def Let_def split: sum.splits if_splits)
  then show "keeps s s' {tag}" using k(1) l keeps_trans by metis
  assume "r = Ok back"
  then have "x = Ok ()" "s' = s2" "pid_value_within_tolerance v back"
    using assms(3) w rd by (auto simp: write_and_verify_pid_value_def Let_def split: sum.splits if_splits)
  then show "holds (au_inner s') tag (WFloat v) \<and> pid_value_within_tolerance v back"
    using k(2) l[of "{}"] by (simp add: keeps_def)
qed

lemma write_constants_effect:
  assumes c: "co_get c = get" "co_put c = put"
    and "write_constants c rid allow ts (s, g) = (s', g')" "pg_failure g = None" "distinct (map pt_tag ts)"
  shows "\<exists>ok rest backs. ts = ok @ rest \<and> pg_confirmed g' = pg_confirmed g @ ok \<and> pg_readback g' = pg_readback g @ backs \<and>
    list_all2 (\<lambda>t back. pid_value_within_tolerance (pt_value t) back) ok backs \<and>
    (\<forall>t \<in> set ok. holds (au_inner s') (pt_tag t) (WFloat (pt_value t))) \<and>
    (case pg_failure g' of
       None \<Rightarrow> rest = [] \<and> keeps s s' (pt_tag ` set ok) \<and> pg_written g' = pg_written g @ map pt_value ts
     | Some e \<Rightarrow> rest \<noteq> [] \<and> keeps s s' (insert (pt_tag (hd rest)) (pt_tag ` set ok)) \<and>
         pg_written g' = pg_written g @ map pt_value (ok @ [hd rest]))"
  using assms(3-5)
proof (induction ts arbitrary: s g)
  case Nil
  then show ?case by (auto simp: keeps_refl)
next
  case (Cons t ts)
  let ?s1 = "s\<lparr>au_guard := queue_previous_write_value (pt_tag t) (wl_number (co_lib c) (pt_previous_value t)) (au_guard s)\<rparr>"
    and ?g1 = "g\<lparr>pg_written := pg_written g @ [pt_value t]\<rparr>"
  obtain s2 r where v: "write_and_verify_pid_value c rid (pt_label t) (pt_tag t) (pt_value t) allow ?s1 = (s2, r)" by fastforce
  have k: "keeps s s2 {pt_tag t}" using keeps_trans[OF keeps_guard verify_keeps(1)[OF c v]] by simp
  show ?case
  proof (cases r)
    case (Inl e)
    then have "s' = s2" "g' = ?g1\<lparr>pg_failure := Some e\<rparr>" using Cons.prems(1) v by (auto simp: Let_def)
    then show ?thesis
      using k by (intro exI[of _ "[]"] exI[of _ "t # ts"]) simp
  next
    case (Inr bk)
    let ?g2 = "?g1\<lparr>pg_readback := pg_readback g @ [bk], pg_confirmed := pg_confirmed g @ [t]\<rparr>"
    have rest: "write_constants c rid allow ts (s2, ?g2) = (s', g')"
      using Cons.prems(1) v Inr by (simp add: Let_def)
    have h: "holds (au_inner s2) (pt_tag t) (WFloat (pt_value t))" "pid_value_within_tolerance (pt_value t) bk"
      using verify_keeps(2)[OF c v Inr] by simp_all
    obtain ok rest backs where IH: "ts = ok @ rest" "pg_confirmed g' = pg_confirmed ?g2 @ ok" "pg_readback g' = pg_readback ?g2 @ backs"
      "list_all2 (\<lambda>t back. pid_value_within_tolerance (pt_value t) back) ok backs"
      "\<forall>t \<in> set ok. holds (au_inner s') (pt_tag t) (WFloat (pt_value t))"
      "case pg_failure g' of
         None \<Rightarrow> rest = [] \<and> keeps s2 s' (pt_tag ` set ok) \<and> pg_written g' = pg_written ?g2 @ map pt_value ts
       | Some e \<Rightarrow> rest \<noteq> [] \<and> keeps s2 s' (insert (pt_tag (hd rest)) (pt_tag ` set ok)) \<and>
           pg_written g' = pg_written ?g2 @ map pt_value (ok @ [hd rest])"
      using Cons.IH[OF rest] Cons.prems(2,3) by auto
    have new: "pt_tag t \<notin> pt_tag ` set ok" "rest \<noteq> [] \<Longrightarrow> pt_tag t \<noteq> pt_tag (hd rest)"
      using Cons.prems(3) IH(1) by (auto simp: hd_in_set)
    then have h': "holds (au_inner s') (pt_tag t) (WFloat (pt_value t))"
      using h(1) IH(6) by (auto simp: keeps_def split: option.splits)
    have "keeps s s' (insert (pt_tag t) u)" if "keeps s2 s' u" for u
      using keeps_trans[OF keeps_mono[OF k] keeps_mono[OF that]] by (metis insert_subset subset_insertI empty_subsetI insertI1)
    then have "case pg_failure g' of
         None \<Rightarrow> rest = [] \<and> keeps s s' (pt_tag ` set (t # ok)) \<and> pg_written g' = pg_written g @ map pt_value (t # ts)
       | Some e \<Rightarrow> rest \<noteq> [] \<and> keeps s s' (insert (pt_tag (hd rest)) (pt_tag ` set (t # ok))) \<and>
           pg_written g' = pg_written g @ map pt_value ((t # ok) @ [hd rest])"
      using IH(6) by (auto simp: insert_commute split: option.splits)
    then show ?thesis
      using IH(1-5) h h' by (intro exI[of _ "t # ok"] exI[of _ rest] exI[of _ "bk # backs"]) simp
  qed
qed

lemma rollback_effect:
  assumes c: "co_put c = put"
    and "rollback_failures c rid ts s = (s', fs)" "distinct (map pt_tag ts)"
  shows "keeps s s' (pt_tag ` set ts)" "fs = [] \<Longrightarrow> t \<in> set ts \<Longrightarrow> holds (au_inner s') (pt_tag t) (WFloat (pt_previous_value t))"
proof -
  have "keeps s s' (pt_tag ` set ts) \<and> (fs = [] \<longrightarrow> (\<forall>t \<in> set ts. holds (au_inner s') (pt_tag t) (WFloat (pt_previous_value t))))"
    using assms(2,3)
  proof (induction ts arbitrary: s fs)
    case Nil
    then show ?case by (simp add: keeps_refl)
  next
    case (Cons t ts)
    show ?case
    proof (cases "is_finite (pt_value t)")
      case False
      then obtain fs' where r: "rollback_failures c rid ts s = (s', fs')" "fs \<noteq> []"
        using Cons.prems(1) by (auto simp: Let_def apsnd_def map_prod_def split: prod.splits)
      have "keeps s s' (pt_tag ` set ts)" using Cons.IH[OF r(1)] Cons.prems(2) by simp
      then show ?thesis using r(2) keeps_mono by (metis image_insert insertI2 list.simps(15) subsetI)
    next
      case True
      let ?s1 = "s\<lparr>au_guard := queue_previous_write_value (pt_tag t) (wl_number (co_lib c) (pt_value t)) (au_guard s)\<rparr>"
      obtain s2 r where w: "co_write c rid (pt_tag t) (pt_previous_value t) ?s1 = (s2, r)" by fastforce
      obtain fs' where rest: "rollback_failures c rid ts s2 = (s', fs')" and fs: "fs = [] \<Longrightarrow> r = Ok () \<and> fs' = []"
        using Cons.prems(1) True w by (auto simp: Let_def apsnd_def map_prod_def split: prod.splits sum.splits)
      note k = keeps_write[OF c w]
      have d: "distinct (map pt_tag ts)" "pt_tag t \<notin> pt_tag ` set ts" using Cons.prems(2) by auto
      note IH = Cons.IH[OF rest d(1)]
      have "keeps s s2 (pt_tag ` set (t # ts))" using keeps_trans[OF keeps_guard k(1)] by (rule keeps_mono) simp
      moreover have "keeps s2 s' (pt_tag ` set (t # ts))" using IH by (auto intro: keeps_mono)
      moreover have "holds (au_inner s') (pt_tag t) (WFloat (pt_previous_value t))" if "fs = []"
      proof -
        show ?thesis using k(2) IH d(2) fs[OF that] by (auto simp: keeps_def)
      qed
      ultimately show ?thesis using IH keeps_trans fs by auto
    qed
  qed
  then show "keeps s s' (pt_tag ` set ts)" "fs = [] \<Longrightarrow> t \<in> set ts \<Longrightarrow> holds (au_inner s') (pt_tag t) (WFloat (pt_previous_value t))"
    by auto
qed

end

section \<open>The outcome of a write-back\<close>

lemma co_read_finite: "co_read c tag allow s = (s', Ok v) \<Longrightarrow> is_finite v"
  by (auto simp: co_read_def read_f32_def bind_result_Ok_iff dest: parse_finite split: prod.splits)

lemma previous_finite:
  assumes "read_previous_pid_values c p i d allow s = (s', Ok previous)"
  shows "list_all is_finite [wr_proportional previous, wr_integral previous, wr_derivative previous]"
    "previous_columns (Some previous) = Some previous"
proof -
  have f: "pre_read c label tag allow s = (s', Ok v) \<Longrightarrow> is_finite v" for label tag s s' v
    using co_read_finite[of c tag allow s s' v]
    by (auto simp: pre_read_def apsnd_def map_prod_def split: prod.splits elim!: map_sum_OkE)
  show l: "list_all is_finite [wr_proportional previous, wr_integral previous, wr_derivative previous]"
    using assms f by (auto simp: read_previous_pid_values_def split: prod.splits sum.splits)
  show "previous_columns (Some previous) = Some previous" using l by (auto simp: previous_columns_def)
qed

lemma persist_intent_leaves:
  assumes "persist_pid_restore_intent c rid kind level previous target s = (s', r)"
  shows "au_inner s' = au_inner s" "writes (au_db s') = writes (au_db s)" "runs (au_db s') = runs (au_db s)"
proof -
  have "writes (fst (set_restore_intent jv i x d)) = writes d \<and> runs (fst (set_restore_intent jv i x d)) = runs d" for jv i x d
    by (auto simp: set_restore_intent_def run_tx_def bind_result_Ok_iff split: sum.splits)
  then have "writes d' = writes d \<and> runs d' = runs d" if "persist_restore_intent js x g d = (d', y)" for js x g d d' y
    using that by (auto simp: persist_restore_intent_def apsnd_def map_prod_def split: sum.splits prod.splits) (metis fst_conv)+
  then show "au_inner s' = au_inner s" "writes (au_db s') = writes (au_db s)" "runs (au_db s') = runs (au_db s)"
    using assms by (auto simp: persist_pid_restore_intent_def Let_def split: option.splits sum.splits prod.splits)
qed

text \<open>The stages of an attempt that returns an outcome.\<close>

lemma inner_stages:
  assumes "write_pid_values_inner c rid p_tag i_tag d_tag level target kind allow s = (s', Ok out)"
  obtains (pre_read) e s2 w0 where "read_previous_pid_values c p_tag i_tag d_tag allow (fst (co_now s)) = (s2, Err e)"
      "insert_write rid w0 (PidWriteFailed (''pre-read failed: '' @ e)) s2 = (s', Ok out)" "\<not> nw_success w0" "nw_rollback_state w0 = None"
      "proportional_readback w0 = None"
  | (went_on) previous s2 s3 w0 where "read_previous_pid_values c p_tag i_tag d_tag allow (fst (co_now s)) = (s2, Ok previous)"
      "persist_pid_restore_intent c rid kind level previous target s2 = (s3, Ok ())"
      "write_and_roll_back c rid p_tag i_tag d_tag target previous kind allow w0 s3 = (s', Ok out)"
      "nw_previous w0 = Some previous" "nw_rollback_state w0 = None"
  using assms unfolding write_pid_values_inner_def
  by (auto simp: Let_def new_write_def co_now_def split: sum.splits if_splits prod.splits)

abbreviation pid_values :: "string \<Rightarrow> string \<Rightarrow> string \<Rightarrow> write_readback \<Rightarrow> (string \<times> tag_write) list" where
  "pid_values p_tag i_tag d_tag v \<equiv>
     [(p_tag, WFloat (wr_proportional v)), (i_tag, WFloat (wr_integral v)), (d_tag, WFloat (wr_derivative v))]"

lemma pid_steps_values:
  "map (\<lambda>t. (pt_tag t, WFloat (pt_value t))) (pid_steps p i d target previous) = pid_values p i d target"
  "map (\<lambda>t. (pt_tag t, WFloat (pt_previous_value t))) (pid_steps p i d target previous) = pid_values p i d previous"
  "map pt_tag (pid_steps p i d target previous) = [p, i, d]"
  by (simp_all add: pid_steps_def)

lemma tolerance_number: "pid_value_within_tolerance v back \<Longrightarrow> back \<noteq> NaN"
  by (auto simp: pid_value_within_tolerance_def fl_sub_def fl_abs_def fl_le_def fl_lt_def fl_eq_def)

text \<open>The readback columns of an attempt that confirmed the first \<open>n\<close> constants.\<close>

definition readbacks_up_to :: "nat \<Rightarrow> tune_write_row \<Rightarrow> bool" where
  "readbacks_up_to n w \<longleftrightarrow>
     map (\<lambda>x. x \<noteq> None) [proportional_readback w, integral_readback w, derivative_readback w] = map (\<lambda>j. j < n) [0, 1, 2]"

lemma readbacks_stored:
  assumes "length (pg_readback g) = n" "\<forall>b \<in> set (pg_readback g). b \<noteq> NaN"
    and "proportional_readback w = nth_opt (pg_readback g) 0" "integral_readback w = nth_opt (pg_readback g) 1"
      "derivative_readback w = nth_opt (pg_readback g) 2"
  shows "readbacks_up_to n (stored_write k rid w)"
proof -
  have "real_column (nth_opt (pg_readback g) j) \<noteq> None \<longleftrightarrow> j < n" for j
    using assms(1,2) by (auto simp: nth_opt_def real_column_def)
  then show ?thesis using assms(3-5) by (simp add: readbacks_up_to_def stored_write_def new_tune_write.defs)
qed

context tag_memory
begin

lemma write_and_roll_back_effect:
  assumes c: "co_get c = get" "co_put c = put" and "distinct [p_tag, i_tag, d_tag]"
    and "write_and_roll_back c rid p_tag i_tag d_tag target previous kind allow w0 s = (s', Ok out)" "nw_rollback_state w0 = None"
    and "nw_previous w0 = Some previous" "previous_columns (Some previous) = Some previous"
  shows "\<exists>w. writes (au_db s') = writes (au_db s) @ [w] \<and> tw_run_id w = rid \<and> (nw_success w \<longleftrightarrow> out = PidWritten) \<and>
    nw_previous w = Some previous \<and>
    (out = PidWritten \<longrightarrow> list_all (\<lambda>(t, v). holds (au_inner s') t v) (pid_values p_tag i_tag d_tag target)) \<and>
    (nw_rollback_state w = Some RollbackSucceeded \<longrightarrow> (\<exists>n. 0 < n \<and> n < 3 \<and> kind = WWrite \<and> readbacks_up_to n w \<and>
       list_all (\<lambda>(t, v). holds (au_inner s') t v) (take n (pid_values p_tag i_tag d_tag previous)) \<and>
       list_all (\<lambda>t. holds (au_inner s') t = holds (au_inner s) t) (drop (Suc n) [p_tag, i_tag, d_tag])))"
proof -
  let ?steps = "pid_steps p_tag i_tag d_tag target previous"
  let ?g0 = "\<lparr> pg_written = [], pg_readback = [], pg_confirmed = [], pg_failure = None \<rparr>"
  obtain s1 g where run: "write_constants c (Some rid) allow ?steps (s, ?g0) = (s1, g)" by fastforce
  have dist: "distinct (map pt_tag ?steps)" using assms(3) by (simp add: pid_steps_values)
  obtain ok rest where e: "?steps = ok @ rest" "pg_confirmed g = ok"
    "\<forall>t \<in> set ok. holds (au_inner s1) (pt_tag t) (WFloat (pt_value t))"
    "case pg_failure g of
       None \<Rightarrow> rest = [] \<and> keeps s s1 (pt_tag ` set ok)
     | Some e \<Rightarrow> rest \<noteq> [] \<and> keeps s s1 (insert (pt_tag (hd rest)) (pt_tag ` set ok))"
    "list_all2 (\<lambda>t back. pid_value_within_tolerance (pt_value t) back) ok (pg_readback g)"
    using write_constants_effect[OF c run _ dist] by (auto split: option.splits)
  have backs: "length (pg_readback g) = length ok" "\<forall>b \<in> set (pg_readback g). b \<noteq> NaN"
    using e(5) by (auto simp: list_all2_conv_all_nth in_set_conv_nth dest!: tolerance_number)
  have w1: "writes (au_db s1) = writes (au_db s)" using e(4) by (auto simp: keeps_def split: option.splits)
  show ?thesis
  proof (cases "pg_failure g")
    case None
    let ?w = "with_progress g w0\<lparr>nw_success := True\<rparr>"
    have ins: "insert_write rid ?w PidWritten s1 = (s', Ok out)"
      using assms(4) unfolding write_and_roll_back_def Let_def run prod.case None option.case .
    note i = insert_write_Ok[OF ins]
    obtain k where k: "writes (au_db s') = writes (au_db s1) @ [stored_write k rid ?w]" using i(3) by blast
    have "list_all (\<lambda>(t, v). holds (au_inner s') t v) (pid_values p_tag i_tag d_tag target)"
      using e(1,3,4) None i(2) unfolding pid_steps_values(1)[symmetric, of _ _ _ _ previous] by (auto simp: list_all_iff)
    then show ?thesis
      using k w1 i(1) assms(5-7)
      by (intro exI[of _ "stored_write k rid ?w"]) (simp add: stored_write_def new_tune_write.defs with_progress_def)
  next
    case (Some err)
    let ?wf = "with_progress g w0\<lparr>nw_success := False, error_message := Some err\<rparr>"
    show ?thesis
    proof (cases "kind \<noteq> WWrite \<or> ok = []")
      case True
      then have ins: "insert_write rid ?wf (PidWriteFailed err) s1 = (s', Ok out)"
        using assms(4) unfolding write_and_roll_back_def Let_def run prod.case Some option.case e(2) by simp
      note i = insert_write_Ok[OF ins]
      obtain k where k: "writes (au_db s') = writes (au_db s1) @ [stored_write k rid ?wf]" using i(3) by blast
      then show ?thesis
        using w1 i(1) assms(5-7)
        by (intro exI[of _ "stored_write k rid ?wf"]) (simp add: stored_write_def new_tune_write.defs with_progress_def)
    next
      case False
      obtain s2 fs where rb: "rollback_failures c (Some rid) ok s1 = (s2, fs)" by fastforce
      have d: "distinct (map pt_tag ok)" using dist e(1) by simp
      note rbk = rollback_effect[OF c(2) rb d]
      let ?w = "if fs = [] then ?wf\<lparr>nw_rollback_state := Some RollbackSucceeded\<rparr>
                else ?wf\<lparr>nw_rollback_state := Some RollbackFailed, rollback_error := Some (join ''; '' fs)\<rparr>"
      obtain x where ins: "insert_write rid ?w (PidWriteFailed x) s2 = (s', Ok out)"
        using assms(4) False rb unfolding write_and_roll_back_def Let_def run prod.case Some option.case e(2)
        by (auto simp: rollback_pid_writes_def split: if_splits)
      note i = insert_write_Ok[OF ins]
      obtain k where k: "writes (au_db s') = writes (au_db s2) @ [stored_write k rid ?w]" using i(3) by blast
      have len: "length ok + length rest = 3" "0 < length ok" "0 < length rest"
        using arg_cong[OF e(1), of length] e(4) Some False by (simp_all add: pid_steps_def)
      have restored: "list_all (\<lambda>(t, v). holds (au_inner s') t v) (take (length ok) (pid_values p_tag i_tag d_tag previous))" if "fs = []"
        using rbk(2)[OF that] i(2) e(1)
        unfolding pid_steps_values(2)[symmetric, of _ _ _ _ target] by (simp add: take_map list_all_iff)
      have "keeps s s2 (insert (pt_tag (hd rest)) (pt_tag ` set ok))"
        using e(4) Some keeps_trans[OF _ keeps_mono[OF rbk(1)]] by (simp add: subset_insertI)
      then have k2: "writes (au_db s2) = writes (au_db s)"
        "t \<notin> insert (pt_tag (hd rest)) (pt_tag ` set ok) \<Longrightarrow> holds (au_inner s') t = holds (au_inner s) t" for t
        using i(2) by (auto simp: keeps_def)
      have rest: "rest = hd rest # tl rest" using len(3) by (cases rest) simp_all
      have tl: "drop (Suc (length ok)) ?steps = tl rest" by (simp add: e(1) drop_Suc)
      have "distinct (map pt_tag (ok @ hd rest # tl rest))" using dist e(1) rest by metis
      then have "\<forall>t \<in> set (tl rest). pt_tag t \<notin> insert (pt_tag (hd rest)) (pt_tag ` set ok)"
        by (auto simp: image_iff)
      then have "list_all (\<lambda>t. holds (au_inner s') t = holds (au_inner s) t) (map pt_tag (drop (Suc (length ok)) ?steps))"
        using k2(2) unfolding tl list_all_iff by auto
      then have after: "list_all (\<lambda>t. holds (au_inner s') t = holds (au_inner s) t) (drop (Suc (length ok)) [p_tag, i_tag, d_tag])"
        unfolding drop_map[symmetric] pid_steps_values(3) .
      have rb': "readbacks_up_to (length ok) (stored_write k rid ?w)"
        by (rule readbacks_stored[OF backs]) (simp_all add: with_progress_def)
      have lt: "length ok < 3" using len by linarith
      have "\<exists>n. 0 < n \<and> n < 3 \<and> kind = WWrite \<and> readbacks_up_to n (stored_write k rid ?w) \<and>
          list_all (\<lambda>(t, v). holds (au_inner s') t v) (take n (pid_values p_tag i_tag d_tag previous)) \<and>
          list_all (\<lambda>t. holds (au_inner s') t = holds (au_inner s) t) (drop (Suc n) [p_tag, i_tag, d_tag])" if "fs = []"
        using False len(2) lt rb' restored[OF that] after by blast
      then show ?thesis
        using k k2(1) i(1) assms(5-7)
        by (intro exI[of _ "stored_write k rid ?w"]) (auto simp: stored_write_def new_tune_write.defs with_progress_def)
    qed
  qed
qed

end

section \<open>A controller that accepts every write\<close>

definition accepting :: "'d put \<Rightarrow> bool" where
  "accepting put \<longleftrightarrow> (\<forall>tag w d. \<exists>x. snd (put tag w d) = Ok x \<and> wo_success x)"

lemma can_write_guard:
  "gd_failed g = gd_failed (au_guard s) \<Longrightarrow> gd_owner g = gd_owner (au_guard s) \<Longrightarrow> can_write rid (s\<lparr>au_guard := g\<rparr>) = can_write rid s"
  by (simp add: can_write_def)

lemma can_write_queue: "can_write rid (s\<lparr>au_guard := queue_previous_write_value t v (au_guard s)\<rparr>) = can_write rid s"
  by (rule can_write_guard) (simp_all add: queue_previous_write_value_def)

lemma co_write_goes:
  assumes "can_write rid s" "\<And>x. js_valid (co_js c) x" "accepting (co_put c)" "is_finite v"
  shows "\<exists>s'. co_write c rid tag v s = (s', Ok ()) \<and> can_write rid s'"
proof -
  have "is_ok (write_target_json (co_js c) tag (WFloat v))" using assms(4) by (simp add: write_target_json_def)
  from audited_write_goes[OF assms(1,2) this, of "co_el c" "co_put c"] obtain s' where
    s': "audited_write (co_js c) (co_el c) (co_put c) rid tag (WFloat v) s = (s', snd (co_put c tag (WFloat v) (au_inner s)))"
      "can_write rid s'" by blast
  obtain x where "snd (co_put c tag (WFloat v) (au_inner s)) = Ok x" "wo_success x"
    using assms(3) unfolding accepting_def by blast
  then show ?thesis using s' by (simp add: co_write_def write_value_def write_result_def)
qed

lemma co_read_can_write:
  assumes "co_read c tag allow s = (s', r)" shows "can_write rid s' = can_write rid s"
  using assms by (auto simp: co_read_def read_f32_def read_raw_def audited_read_def can_write_def split: prod.splits)

lemma can_write_now: "can_write rid (fst (co_now s)) = can_write rid s"
  by (simp add: co_now_def can_write_def)

lemma previous_can_write:
  assumes "read_previous_pid_values c p i d allow s = (s', r)" shows "can_write rid s' = can_write rid s"
proof -
  have "pre_read c label tag allow s = (s', r) \<Longrightarrow> can_write rid s' = can_write rid s" for label tag s s' r
    using co_read_can_write[of c tag allow s] by (auto simp: pre_read_def apsnd_def map_prod_def split: prod.splits)
  then show ?thesis using assms by (auto simp: read_previous_pid_values_def split: prod.splits sum.splits)
qed

lemma exists_update: "(\<And>r. Q (f r) = Q r) \<Longrightarrow> exists_row Q (update_where P f t) = exists_row Q t"
  by (induction t) (auto simp: update_where_def)

lemma set_restore_intent_owners:
  assumes "set_restore_intent jv i x d = (d', r)"
  shows "exists_row (\<lambda>o'. lo_id o' = j \<and> lo_run_id o' = rid \<and> lo_state o' = Active) (owners d') =
         exists_row (\<lambda>o'. lo_id o' = j \<and> lo_run_id o' = rid \<and> lo_state o' = Active) (owners d)"
    "claims d' = claims d" "runs d' = runs d"
proof -
  have "d' = d \<or> (\<exists>t P. d' = d\<lparr>owners := t\<rparr> \<and> t = update_where P (\<lambda>r. r\<lparr>restore_intent_json := Some x\<rparr>) (owners d))"
    using assms by (auto simp: set_restore_intent_def run_tx_def bind_result_Ok_iff dest!: one_row_InrD(1) split: sum.splits)
  then show "exists_row (\<lambda>o'. lo_id o' = j \<and> lo_run_id o' = rid \<and> lo_state o' = Active) (owners d') =
         exists_row (\<lambda>o'. lo_id o' = j \<and> lo_run_id o' = rid \<and> lo_state o' = Active) (owners d)"
    "claims d' = claims d" "runs d' = runs d"
    by (auto simp: exists_update)
qed

lemma persist_intent_can_write:
  assumes "persist_pid_restore_intent c run kind level previous target s = (s', r)" "can_write rid s"
  shows "can_write rid s'"
proof -
  obtain x d y where "s' = s \<or> s' = s\<lparr>au_db := d\<rparr> \<and> persist_restore_intent (co_js c) x (au_guard s) (au_db s) = (d, y)"
    using assms(1) by (auto simp: persist_pid_restore_intent_def Let_def split: option.splits sum.splits prod.splits)
  moreover have "can_write rid (s\<lparr>au_db := d\<rparr>)" if p: "persist_restore_intent (co_js c) x (au_guard s) (au_db s) = (d, y)"
  proof -
    obtain i z where z: "d = au_db s \<or> set_restore_intent (js_valid (co_js c)) i x (au_db s) = (d, z)"
      using p by (auto simp: persist_restore_intent_def apsnd_def map_prod_def split: sum.splits prod.splits)
    then have "db_ok d" using assms(2) set_restore_intent_ok[of "au_db s"] by (metis can_write_def fst_conv)
    then show ?thesis
      using z assms(2) set_restore_intent_owners[of "js_valid (co_js c)" i x "au_db s" d z]
      by (auto simp: can_write_def holds_claim_def run_reference_ok_def split: option.splits)
  qed
  ultimately show ?thesis using assms(2) by blast
qed

context tag_memory
begin

lemma verify_accepting:
  assumes c: "co_get c = get" "co_put c = put" and a: "can_write rid s" "\<And>x. js_valid (co_js c) x" "accepting put" "is_finite v"
    and "write_and_verify_pid_value c rid label tag v allow s = (s', r)"
  shows "can_write rid s'" "holds (au_inner s') tag (WFloat v)"
proof -
  obtain s1 where w: "co_write c rid tag v s = (s1, Ok ())" "can_write rid s1"
    using co_write_goes[OF a(1,2) _ a(4)] a(3) c(2) by metis
  obtain s2 y where rd: "co_read c tag allow s1 = (s2, y)" by fastforce
  have "s' = s2" using assms(7) w rd by (auto simp: write_and_verify_pid_value_def Let_def split: sum.splits if_splits)
  then show "can_write rid s'" "holds (au_inner s') tag (WFloat v)"
    using w co_read_can_write[OF rd] keeps_write(2)[OF c(2) w(1)] keeps_read[OF c(1) rd, of "{}"] by (simp_all add: keeps_def)
qed

lemma write_constants_accepting:
  assumes c: "co_get c = get" "co_put c = put" and a: "\<And>x. js_valid (co_js c) x" "accepting put"
    and "write_constants c rid allow ts (s, g) = (s', g')" "can_write rid s" "\<forall>t \<in> set ts. is_finite (pt_value t)"
    and "pg_failure g = None"
  shows "can_write rid s' \<and> (pg_failure g' \<noteq> None \<longrightarrow> (\<exists>ok t rest. ts = ok @ t # rest \<and> pg_confirmed g' = pg_confirmed g @ ok \<and>
       holds (au_inner s') (pt_tag t) (WFloat (pt_value t))))"
  using assms(5-8)
proof (induction ts arbitrary: s g)
  case (Cons t ts)
  let ?s1 = "s\<lparr>au_guard := queue_previous_write_value (pt_tag t) (wl_number (co_lib c) (pt_previous_value t)) (au_guard s)\<rparr>"
    and ?g1 = "g\<lparr>pg_written := pg_written g @ [pt_value t]\<rparr>"
  obtain s2 r where v: "write_and_verify_pid_value c rid (pt_label t) (pt_tag t) (pt_value t) allow ?s1 = (s2, r)" by fastforce
  have "can_write rid ?s1" "is_finite (pt_value t)" using Cons.prems(2,3) by (simp_all add: can_write_queue)
  note va = verify_accepting[OF c this(1) a this(2) v]
  show ?case
  proof (cases r)
    case (Inl e)
    then have "s' = s2" "pg_confirmed g' = pg_confirmed g" using Cons.prems(1) v by (auto simp: Let_def)
    then show ?thesis using va by (intro conjI impI exI[of _ "[]"] exI[of _ t] exI[of _ ts]) simp_all
  next
    case (Inr bk)
    let ?g2 = "?g1\<lparr>pg_readback := pg_readback g @ [bk], pg_confirmed := pg_confirmed g @ [t]\<rparr>"
    have rest: "write_constants c rid allow ts (s2, ?g2) = (s', g')" using Cons.prems(1) v Inr by (simp add: Let_def)
    have "can_write rid s' \<and> (pg_failure g' \<noteq> None \<longrightarrow> (\<exists>ok u rest. ts = ok @ u # rest \<and> pg_confirmed g' = pg_confirmed ?g2 @ ok \<and>
       holds (au_inner s') (pt_tag u) (WFloat (pt_value u))))"
      using Cons.IH[OF rest va(1)] Cons.prems(3,4) by simp
    moreover have "\<exists>ok' u' rest'. t # ts = ok' @ u' # rest' \<and> pg_confirmed g' = pg_confirmed g @ ok' \<and>
        holds (au_inner s') (pt_tag u') (WFloat (pt_value u'))"
      if "ts = ok @ u # rest" "pg_confirmed g' = pg_confirmed ?g2 @ ok" "holds (au_inner s') (pt_tag u) (WFloat (pt_value u))" for ok u rest
      using that by (intro exI[of _ "t # ok"] exI[of _ u] exI[of _ rest]) simp
    ultimately show ?thesis by blast
  qed
qed auto

end

lemma write_back_leaves:
  assumes "tag_memory (co_put c) holds (co_get c)" "distinct [p_tag, i_tag, d_tag]"
    and "write_pid_values_inner c rid p_tag i_tag d_tag level target kind allow s = (s', Ok out)"
  shows "\<exists>w. writes (au_db s') = writes (au_db s) @ [w] \<and> tw_run_id w = rid \<and> (nw_success w \<longleftrightarrow> out = PidWritten) \<and>
    (out = PidWritten \<longrightarrow> list_all (\<lambda>(t, v). holds (au_inner s') t v) (pid_values p_tag i_tag d_tag target)) \<and>
    (nw_rollback_state w = Some RollbackSucceeded \<longrightarrow> (\<exists>n previous. 0 < n \<and> n < 3 \<and> kind = WWrite \<and>
       nw_previous w = Some previous \<and> readbacks_up_to n w \<and>
       list_all (\<lambda>(t, v). holds (au_inner s') t v) (take n (pid_values p_tag i_tag d_tag previous)) \<and>
       list_all (\<lambda>t. holds (au_inner s') t = holds (au_inner s) t) (drop (Suc n) [p_tag, i_tag, d_tag])))"
proof -
  note M = tag_memory.write_and_roll_back_effect[OF assms(1) refl refl assms(2)]
  have k: "writes (au_db s2) = writes (au_db s)" "holds (au_inner s2) = holds (au_inner s)"
    if "read_previous_pid_values c p_tag i_tag d_tag allow (fst (co_now s)) = (s2, x)" for s2 x
    using tag_memory.keeps_previous[OF assms(1) refl that, of "{}"]
    by (simp_all add: tag_memory.keeps_def[OF assms(1)] co_now_def fun_eq_iff)
  from assms(3) show ?thesis
  proof (cases rule: inner_stages)
    case (pre_read e s2 w0)
    obtain n where "writes (au_db s') = writes (au_db s2) @ [stored_write n rid w0]" "out = PidWriteFailed (''pre-read failed: '' @ e)"
      using insert_write_Ok[OF pre_read(2)] by blast
    then show ?thesis
      using k(1)[OF pre_read(1)] pre_read(3,4)
      by (intro exI[of _ "stored_write n rid w0"]) (simp add: stored_write_def new_tune_write.defs)
  next
    case (went_on previous s2 s3 w0)
    have same: "writes (au_db s3) = writes (au_db s)" "holds (au_inner s3) = holds (au_inner s)"
      using persist_intent_leaves(1,2)[OF went_on(2)] k[OF went_on(1)] by simp_all
    from M[OF went_on(3,5,4) previous_finite(2)[OF went_on(1)], unfolded same] show ?thesis by blast
  qed
qed

text \<open>C26: What a PID write-back leaves behind: every attempt that returns an outcome adds one audit row,
  successful exactly when all three constants were written; then the controller holds all three
  targets.  After a rollback reported as successful, the \<open>n\<close> constants confirmed before the failure,
  exactly those whose readback the row records, hold their previous values again, and the constants
  after the one that failed were never touched.\<close>

theorem pid_write_effects:
  assumes "tag_memory (co_put c) holds (co_get c)" "distinct [p_tag, i_tag, d_tag]"
    and "write_pid_values_inner c rid p_tag i_tag d_tag level target kind allow s = (s', Ok out)"
  shows "\<exists>w. writes (au_db s') = writes (au_db s) @ [w] \<and> tw_run_id w = rid \<and> (nw_success w \<longleftrightarrow> out = PidWritten) \<and>
    (out = PidWritten \<longrightarrow> list_all (\<lambda>(t, v). holds (au_inner s') t v) (pid_values p_tag i_tag d_tag target)) \<and>
    (nw_rollback_state w = Some RollbackSucceeded \<longrightarrow> (\<exists>n previous. 0 < n \<and> n < 3 \<and> kind = WWrite \<and>
       nw_previous w = Some previous \<and> readbacks_up_to n w \<and>
       list_all (\<lambda>(t, v). holds (au_inner s') t v) (take n (pid_values p_tag i_tag d_tag previous)) \<and>
       list_all (\<lambda>t. holds (au_inner s') t = holds (au_inner s) t) (drop (Suc n) [p_tag, i_tag, d_tag])))"
  by (rule write_back_leaves[OF assms])

lemma rollback_accepting:
  assumes "accepting (co_put c)" "\<And>x. js_valid (co_js c) x" "can_write rid s"
    and "rollback_failures c rid ts s = (s', fs)" "\<forall>t \<in> set ts. is_finite (pt_value t) \<and> is_finite (pt_previous_value t)"
  shows "fs = []"
  using assms(3-5)
proof (induction ts arbitrary: s fs)
  case (Cons t ts)
  let ?s1 = "s\<lparr>au_guard := queue_previous_write_value (pt_tag t) (wl_number (co_lib c) (pt_value t)) (au_guard s)\<rparr>"
  have "can_write rid ?s1" "is_finite (pt_previous_value t)" using Cons.prems(1,3) by (simp_all add: can_write_queue)
  then obtain s2 where w: "co_write c rid (pt_tag t) (pt_previous_value t) ?s1 = (s2, Ok ())" "can_write rid s2"
    using co_write_goes[OF _ assms(2,1)] by blast
  then show ?case using Cons.IH[OF w(2)] Cons.prems(2,3) by (auto simp: Let_def apsnd_def map_prod_def split: prod.splits)
qed simp

lemma rolled_back_without_failed:
  assumes "tag_memory (co_put c) holds (co_get c)" "accepting (co_put c)" "\<And>x. js_valid (co_js c) x" "can_write (Some rid) s"
    and "distinct [p_tag, i_tag, d_tag]" "list_all is_finite [wr_proportional target, wr_integral target, wr_derivative target]"
    and "list_all is_finite [wr_proportional previous, wr_integral previous, wr_derivative previous]"
    and "write_and_roll_back c rid p_tag i_tag d_tag target previous WWrite allow w0 s = (s', Ok (PidWriteFailed detail))"
    and "writes (au_db s') = writes (au_db s) @ [w]" "proportional_readback w \<noteq> None"
  shows "nw_rollback_state w = Some RollbackSucceeded \<and>
    (holds (au_inner s') i_tag (WFloat (wr_integral target)) \<or> holds (au_inner s') d_tag (WFloat (wr_derivative target)))"
proof -
  let ?steps = "pid_steps p_tag i_tag d_tag target previous"
  let ?g0 = "\<lparr> pg_written = [], pg_readback = [], pg_confirmed = [], pg_failure = None \<rparr>"
  obtain s1 g where run: "write_constants c (Some rid) allow ?steps (s, ?g0) = (s1, g)" by fastforce
  have fin: "\<forall>t \<in> set ?steps. is_finite (pt_value t) \<and> is_finite (pt_previous_value t)"
    using assms(6) assms(7) by (simp add: pid_steps_def)
  have dist: "distinct (map pt_tag ?steps)" using assms(5) by (simp add: pid_steps_values)
  note acc = tag_memory.write_constants_accepting[OF assms(1) refl refl assms(3,2) run assms(4)]
  obtain backs where backs: "pg_readback g = backs" "length backs = length (pg_confirmed g)"
    "writes (au_db s1) = writes (au_db s)"
    using tag_memory.write_constants_effect[OF assms(1) refl refl run _ dist]
    by (auto simp: tag_memory.keeps_def[OF assms(1)] dest: list_all2_lengthD split: option.splits)
  obtain e where e: "pg_failure g = Some e"
    using assms(8) insert_write_Ok(1)[of rid _ PidWritten s1 s' "PidWriteFailed detail"]
    unfolding write_and_roll_back_def Let_def run prod.case by (cases "pg_failure g") auto
  then obtain ok t rest where t: "?steps = ok @ t # rest" "pg_confirmed g = ok" "holds (au_inner s1) (pt_tag t) (WFloat (pt_value t))"
    "can_write (Some rid) s1"
    using acc fin by auto
  obtain s2 fs where rb: "rollback_failures c (Some rid) ok s1 = (s2, fs)" by fastforce
  have "\<forall>t \<in> set ok. is_finite (pt_value t) \<and> is_finite (pt_previous_value t)" using fin t(1) by simp
  then have fs: "fs = []" using rollback_accepting[OF assms(2,3) t(4) rb] by blast
  have d: "distinct (map pt_tag ok)" "pt_tag t \<notin> pt_tag ` set ok" using dist t(1) by auto
  note kb = tag_memory.rollback_effect(1)[OF assms(1) refl rb d(1), unfolded tag_memory.keeps_def[OF assms(1)]]
  let ?wf = "with_progress g w0\<lparr>nw_success := False, error_message := Some e\<rparr>"
  have ne: "ok \<noteq> []"
  proof
    assume "ok = []"
    then have ins: "insert_write rid ?wf (PidWriteFailed e) s1 = (s', Ok (PidWriteFailed detail))"
      using assms(8) unfolding write_and_roll_back_def Let_def run prod.case e option.case t(2) by simp
    obtain n where "writes (au_db s') = writes (au_db s1) @ [stored_write n rid ?wf]" using insert_write_Ok(3)[OF ins] by blast
    then have "w = stored_write n rid ?wf" using assms(9) backs(3) by simp
    then show False
      using assms(10) backs(1,2) t(2) \<open>ok = []\<close>
      by (simp add: stored_write_def new_tune_write.defs with_progress_def nth_opt_def real_column_def)
  qed
  have ins: "insert_write rid (?wf\<lparr>nw_rollback_state := Some RollbackSucceeded\<rparr>) (PidWriteFailed (e @ '' (rolled back)'')) s2 =
      (s', Ok (PidWriteFailed detail))"
    using assms(8) ne rb fs unfolding write_and_roll_back_def Let_def run prod.case e option.case t(2)
    by (simp add: rollback_pid_writes_def)
  obtain n where "writes (au_db s') = writes (au_db s2) @ [stored_write n rid (?wf\<lparr>nw_rollback_state := Some RollbackSucceeded\<rparr>)]"
    using insert_write_Ok(3)[OF ins] by blast
  then have "w = stored_write n rid (?wf\<lparr>nw_rollback_state := Some RollbackSucceeded\<rparr>)"
    using assms(9) backs(3) kb by simp
  moreover have "holds (au_inner s') (pt_tag t) (WFloat (pt_value t))"
    using insert_write_Ok(2)[OF ins] t(3) kb d(2) by simp
  moreover have "t \<in> set (tl ?steps)" using t(1) ne by (cases ok) auto
  ultimately show ?thesis by (auto simp: pid_steps_def stored_write_def new_tune_write.defs)
qed


section \<open>Witnesses\<close>

lemma simulator_reading:
  "simulator_read shw noise ts s = (s', r) \<Longrightarrow> sim_mv_tag s' = sim_mv_tag s \<and> p_current_mv (sim_process s') = p_current_mv (sim_process s)"
  by (induction ts arbitrary: s s' r)
    (fastforce simp: Let_def fopdt_step_def split: prod.splits if_splits)+

lemma simulator_undisturbed:
  assumes "simulator_read shw noise ts s = (s', r)" shows "simulator_holds parse s' t v = simulator_holds parse s t v"
  using simulator_reading[OF assms] by (simp add: simulator_holds_def)

interpretation simulator_memory: tag_memory "simulator_write parse" "simulator_holds parse" "simulator_read shw noise" for parse shw noise
  by unfold_locales (rule simulator_undisturbed)

text \<open>A controller that keeps what it is given; its integral constant reads back with bad quality once
  it was changed to 2.\<close>

definition demo_get :: "(string \<rightharpoonup> tag_write) get" where
  "demo_get tags m = (m, Ok (map (\<lambda>t.
     \<lparr> tv_tag = t, tv_value = if m t = Some (WFloat (Fin 2)) then ''2'' else ''1'',
       tv_quality = if t = ''I'' \<and> m t = Some (WFloat (Fin 2)) then Bad else Good, tv_timestamp = None \<rparr>) tags))"

interpretation demo_memory: tag_memory memory_put memory_holds demo_get
  by unfold_locales (simp add: demo_get_def)

definition demo_parse :: "string \<Rightarrow> f32 option" where
  "demo_parse x = (if x = ''1'' then Some (Fin 1) else if x = ''2'' then Some (Fin 2) else None)"

definition demo_write_lib :: write_lib where
  "demo_write_lib = \<lparr> tl_error = (\<lambda>_. []), tl_nat = (\<lambda>_. []), rl_reason = (\<lambda>_. []), rl_f32 = (\<lambda>_. []),
     wl_live = (\<lambda>_. []), wl_acquire = (\<lambda>_. []), wl_level = (\<lambda>_. []), wl_reason = (\<lambda>_. []), wl_pid_error = (\<lambda>_. []),
     wl_number = (\<lambda>_. []), wl_pid_restore = (\<lambda>_ _ _ _ _. ''pid''), wl_merge = (\<lambda>_ x. Ok x), wl_intent = (\<lambda>_ _. ''{}'') \<rparr>"

definition demo_ctl :: "(string \<rightharpoonup> tag_write) controller" where
  "demo_ctl = \<lparr> co_get = demo_get, co_put = memory_put, co_js = demo_js, co_el = demo_el, co_parse = demo_parse,
     co_lib = demo_write_lib, co_float = demo_lib \<rparr>"

definition demo_tuned :: "(string \<rightharpoonup> tag_write) audited_driver" where
  "demo_tuned = \<lparr> au_inner = Map.empty, au_db = demo_running, au_guard = start_heartbeat ''db'' demo_owner_row ''k'',
     au_clock = int, au_reads = 0 \<rparr>"

lemma demo_ctl_simps [simp]:
  "co_get demo_ctl = demo_get" "co_put demo_ctl = memory_put" "co_js demo_ctl = demo_js"
  "js_valid demo_js x" "co_lib demo_ctl = demo_write_lib"
  by (simp_all add: demo_ctl_def demo_js_def)

lemma demo_accepting: "accepting memory_put"
  by (simp add: accepting_def memory_put_def write_success_def)

lemma demo_tuned_ok: "can_write (Some 1) demo_tuned"
  using reach_ok[OF demo_running_reach]
  by (simp add: can_write_def demo_tuned_def start_heartbeat_def run_reference_ok_def holds_claim_def demo_running_eq
      demo_owner_row_def demo_empty_def empty_db_def)

lemma demo_ctl_write:
  assumes "can_write (Some 1) s" "is_finite v"
  shows "\<exists>s'. co_write demo_ctl (Some 1) tag v s = (s', Ok ()) \<and> can_write (Some 1) s' \<and>
    au_inner s' = (au_inner s)(tag \<mapsto> WFloat v)"
proof -
  obtain s' where w: "co_write demo_ctl (Some 1) tag v s = (s', Ok ())" "can_write (Some 1) s'"
    using co_write_goes[OF assms(1), of demo_ctl v tag] assms(2) demo_accepting by auto
  have "au_inner s' = (au_inner s)(tag \<mapsto> WFloat v)"
    using co_write_cases(4)[OF w(1)] by (auto simp: memory_put_def)
  then show ?thesis using w by blast
qed

lemma demo_ctl_read:
  "co_read demo_ctl tag False s = (s,
     if au_inner s tag = Some (WFloat (Fin 2)) then if tag = ''I'' then Err (EBad tag) else Ok (Fin 2) else Ok (Fin 1))"
  by (simp add: co_read_def read_f32_def read_raw_def audited_read_def demo_get_def demo_ctl_def first_value_def
      check_quality_def parse_f32_value_def demo_parse_def trim_def char_is_whitespace_def)

lemma demo_pid_tolerance: "pid_value_within_tolerance (Fin 2) (Fin 2)" "pid_value_within_tolerance (Fin 1) (Fin 1)"
  by (simp_all add: pid_value_within_tolerance_def fl_sub_self fl_simps)

text \<open>A constant that is written and verified, and the integral constant whose new value reads back badly.\<close>

lemma demo_verify:
  assumes "can_write (Some 1) s" "v = Fin 1 \<or> v = Fin 2"
  shows "\<exists>s' r. write_and_verify_pid_value demo_ctl (Some 1) label tag v False s = (s', r) \<and> can_write (Some 1) s' \<and>
    au_inner s' = (au_inner s)(tag \<mapsto> WFloat v) \<and> writes (au_db s') = writes (au_db s) \<and> runs (au_db s') = runs (au_db s) \<and>
    (if tag = ''I'' \<and> v = Fin 2 then \<exists>e. r = Err e else r = Ok v)"
proof -
  have "is_finite v" using assms(2) by auto
  from demo_ctl_write[OF assms(1) this] obtain s1 where
    s1: "co_write demo_ctl (Some 1) tag v s = (s1, Ok ())" "can_write (Some 1) s1" "au_inner s1 = (au_inner s)(tag \<mapsto> WFloat v)"
    by blast
  have "writes (au_db s1) = writes (au_db s)" "runs (au_db s1) = runs (au_db s)" by (rule co_write_cases(1,2)[OF s1(1)])+
  then show ?thesis
    using s1 assms(2) demo_pid_tolerance
    by (intro exI[of _ s1]) (auto simp: write_and_verify_pid_value_def Let_def demo_ctl_read)
qed

lemma demo_pre_read:
  "au_inner s = Map.empty \<Longrightarrow> read_previous_pid_values demo_ctl ''P'' ''I'' ''D'' False s =
     (s, Ok \<lparr> wr_proportional = Fin 1, wr_integral = Fin 1, wr_derivative = Fin 1 \<rparr>)"
  by (simp add: read_previous_pid_values_def pre_read_def demo_ctl_read)

definition demo_target :: write_readback where
  "demo_target = \<lparr> wr_proportional = Fin 2, wr_integral = Fin 2, wr_derivative = Fin 2 \<rparr>"

definition demo_previous :: write_readback where
  "demo_previous = \<lparr> wr_proportional = Fin 1, wr_integral = Fin 1, wr_derivative = Fin 1 \<rparr>"

lemma demo_write_stops:
  assumes "can_write (Some 1) s"
  shows "\<exists>s' g e. write_constants demo_ctl (Some 1) False (pid_steps ''P'' ''I'' ''D'' demo_target demo_previous)
      (s, \<lparr> pg_written = [], pg_readback = [], pg_confirmed = [], pg_failure = None \<rparr>) = (s', g) \<and> can_write (Some 1) s' \<and>
    writes (au_db s') = writes (au_db s) \<and> runs (au_db s') = runs (au_db s) \<and> pg_failure g = Some e \<and> pg_readback g = [Fin 2] \<and> pg_written g = [Fin 2, Fin 2] \<and>
    pg_confirmed g = take 1 (pid_steps ''P'' ''I'' ''D'' demo_target demo_previous)"
proof -
  let ?q = "\<lambda>tag s. s\<lparr>au_guard := queue_previous_write_value tag (wl_number demo_write_lib (Fin 1)) (au_guard s)\<rparr>"
  have q: "can_write (Some 1) (?q tag s)" if "can_write (Some 1) s" for tag s using that by (simp add: can_write_queue)
  obtain s1 where s1: "write_and_verify_pid_value demo_ctl (Some 1) ''Proportional'' ''P'' (Fin 2) False (?q ''P'' s) = (s1, Ok (Fin 2))"
    "can_write (Some 1) s1" "writes (au_db s1) = writes (au_db s)" "runs (au_db s1) = runs (au_db s)"
    using demo_verify[OF q[OF assms], of "Fin 2" "''Proportional''" "''P''" "''P''"] by auto
  obtain s2 e where s2: "write_and_verify_pid_value demo_ctl (Some 1) ''Integral'' ''I'' (Fin 2) False (?q ''I'' s1) = (s2, Err e)"
    "can_write (Some 1) s2" "writes (au_db s2) = writes (au_db s1)" "runs (au_db s2) = runs (au_db s1)"
    using demo_verify[OF q[OF s1(2)], of "Fin 2" "''Integral''" "''I''" "''I''"] by auto
  show ?thesis
    using s1 s2
    by (intro exI[of _ s2] exI[of _ "\<lparr> pg_written = [Fin 2, Fin 2], pg_readback = [Fin 2],
        pg_confirmed = take 1 (pid_steps ''P'' ''I'' ''D'' demo_target demo_previous), pg_failure = Some e \<rparr>"] exI[of _ e]) (simp add: pid_steps_def demo_target_def demo_previous_def Let_def)
qed

lemma demo_intent:
  "persist_pid_restore_intent demo_ctl 1 WWrite level previous target (fst (co_now demo_tuned)) = (s', r) \<Longrightarrow> r = Ok ()"
  by (auto simp: persist_pid_restore_intent_def persist_restore_intent_def ensure_healthy_def set_restore_intent_def run_tx_def
      demo_tuned_def demo_write_lib_def co_now_def owner_get_def demo_running_eq demo_owner_row_def start_heartbeat_def
      one_row_def sql_update_def affected_def update_where_def holds_claim_def owner_check_def json_ok_def Let_def
      demo_empty_def empty_db_def split: prod.splits sum.splits)

lemma demo_insert: "exists_row (\<lambda>r. run_id r = rid) (runs (au_db s)) \<Longrightarrow>
    \<exists>s' n. insert_write rid w out s = (s', Ok out) \<and> writes (au_db s') = writes (au_db s) @ [stored_write n rid w]"
  by (auto simp: insert_write_def write_insert_def run_tx_def Let_def)

lemma demo_write_back:
  "\<exists>s' w detail. write_pid_values_inner demo_ctl 1 ''P'' ''I'' ''D'' level demo_target WWrite False demo_tuned =
      (s', Ok (PidWriteFailed detail)) \<and> writes (au_db s') = writes (au_db demo_tuned) @ [w] \<and> proportional_readback w = Some (Fin 2) \<and>
    nw_previous w = Some demo_previous \<and> nw_rollback_state w = Some RollbackSucceeded"
proof -
  let ?s1 = "fst (co_now demo_tuned)"
  let ?w0 = "(new_write level (snd (co_now demo_tuned)))\<lparr>nw_kind := WWrite, nw_allow_uncertain_quality := False,
     nw_previous := Some demo_previous\<rparr>"
  have pre: "read_previous_pid_values demo_ctl ''P'' ''I'' ''D'' False ?s1 = (?s1, Ok demo_previous)"
    unfolding demo_previous_def by (rule demo_pre_read) (simp add: co_now_def demo_tuned_def)
  obtain s2 r2 where i: "persist_pid_restore_intent demo_ctl 1 WWrite level demo_previous demo_target ?s1 = (s2, r2)" by fastforce
  have r2: "r2 = Ok ()" by (rule demo_intent[OF i])
  have "can_write (Some 1) s2" by (rule persist_intent_can_write[OF i]) (simp add: can_write_now demo_tuned_ok)
  from demo_write_stops[OF this] obtain s3 g e where
    wr: "write_constants demo_ctl (Some 1) False (pid_steps ''P'' ''I'' ''D'' demo_target demo_previous)
        (s2, \<lparr> pg_written = [], pg_readback = [], pg_confirmed = [], pg_failure = None \<rparr>) = (s3, g)"
    and c3: "can_write (Some 1) s3" and e3: "writes (au_db s3) = writes (au_db s2)" "runs (au_db s3) = runs (au_db s2)"
    and g: "pg_failure g = Some e" "pg_readback g = [Fin 2]" "pg_confirmed g = take 1 (pid_steps ''P'' ''I'' ''D'' demo_target demo_previous)"
    by blast
  let ?q = "s3\<lparr>au_guard := queue_previous_write_value ''P'' (wl_number demo_write_lib (Fin 2)) (au_guard s3)\<rparr>"
  have "can_write (Some 1) ?q" using c3 by (simp add: can_write_queue)
  then obtain s4 where s4: "co_write demo_ctl (Some 1) ''P'' (Fin 1) ?q = (s4, Ok ())"
    using demo_ctl_write[of ?q "Fin 1"] by auto
  have rb: "rollback_pid_writes demo_ctl (Some 1) (pg_confirmed g) s3 = (s4, Ok ())"
    using s4 unfolding g(3) by (simp add: rollback_pid_writes_def pid_steps_def demo_target_def demo_previous_def Let_def)
  have ne: "pg_confirmed g \<noteq> []" unfolding g(3) by (simp add: pid_steps_def)
  have t4: "writes (au_db s4) = writes (au_db demo_tuned)" "runs (au_db s4) = runs (au_db demo_tuned)"
    using co_write_cases(1,2)[OF s4] e3 persist_intent_leaves(2,3)[OF i] by (simp_all add: co_now_def)
  have "exists_row (\<lambda>r. run_id r = 1) (runs (au_db s4))" unfolding t4 by (simp add: demo_tuned_def demo_running_eq)
  then obtain s5 n where s5: "insert_write 1 (with_progress g ?w0\<lparr>nw_success := False, error_message := Some e,
      nw_rollback_state := Some RollbackSucceeded\<rparr>) (PidWriteFailed (e @ '' (rolled back)'')) s4 = (s5, Ok (PidWriteFailed (e @ '' (rolled back)'')))"
    "writes (au_db s5) = writes (au_db s4) @ [stored_write n 1 (with_progress g ?w0\<lparr>nw_success := False, error_message := Some e,
      nw_rollback_state := Some RollbackSucceeded\<rparr>)]"
    using demo_insert by blast
  have rest: "write_and_roll_back demo_ctl 1 ''P'' ''I'' ''D'' demo_target demo_previous WWrite False ?w0 s2 =
      (s5, Ok (PidWriteFailed (e @ '' (rolled back)'')))"
    unfolding write_and_roll_back_def Let_def wr prod.case g(1) option.case using ne rb s5(1) by simp
  have guard: "ensure_healthy (au_guard demo_tuned) = Ok ()" "lo_run_id (gd_owner (au_guard demo_tuned)) = Some 1"
    by (simp_all add: ensure_healthy_def demo_tuned_def start_heartbeat_def demo_owner_row_def)
  obtain now where now: "co_now demo_tuned = (?s1, now)" "snd (co_now demo_tuned) = now" by (cases "co_now demo_tuned") simp
  have "write_pid_values_inner demo_ctl 1 ''P'' ''I'' ''D'' level demo_target WWrite False demo_tuned =
      (s5, Ok (PidWriteFailed (e @ '' (rolled back)'')))"
    using pre i r2 rest now(2) unfolding write_pid_values_inner_def guard Let_def
    by (simp add: split_beta)
  moreover have "proportional_readback (stored_write n 1 (with_progress g ?w0\<lparr>nw_success := False, error_message := Some e,
      nw_rollback_state := Some RollbackSucceeded\<rparr>)) = Some (Fin 2)"
    using g(2) by (simp add: stored_write_def new_tune_write.defs with_progress_def nth_opt_def real_column_def)
  moreover have "nw_previous (stored_write n 1 (with_progress g ?w0\<lparr>nw_success := False, error_message := Some e,
      nw_rollback_state := Some RollbackSucceeded\<rparr>)) = Some demo_previous"
    "nw_rollback_state (stored_write n 1 (with_progress g ?w0\<lparr>nw_success := False, error_message := Some e,
      nw_rollback_state := Some RollbackSucceeded\<rparr>)) = Some RollbackSucceeded"
    by (simp_all add: stored_write_def new_tune_write.defs with_progress_def previous_columns_def demo_previous_def)
  ultimately show ?thesis using s5(2) unfolding t4(1) by blast
qed

theorem pid_write_effects_witness:
  "\<exists>s' w detail. write_pid_values_inner demo_ctl 1 ''P'' ''I'' ''D'' Moderate demo_target WWrite False demo_tuned =
      (s', Ok (PidWriteFailed detail)) \<and> writes (au_db s') = writes (au_db demo_tuned) @ [w] \<and> \<not> nw_success w \<and>
    nw_rollback_state w = Some RollbackSucceeded \<and> au_inner s' ''P'' = Some (WFloat (Fin 1))"
proof -
  obtain s' w detail where w: "write_pid_values_inner demo_ctl 1 ''P'' ''I'' ''D'' Moderate demo_target WWrite False demo_tuned =
      (s', Ok (PidWriteFailed detail))" "writes (au_db s') = writes (au_db demo_tuned) @ [w]"
    "nw_previous w = Some demo_previous" "nw_rollback_state w = Some RollbackSucceeded" using demo_write_back by blast
  have "tag_memory (co_put demo_ctl) memory_holds (co_get demo_ctl)" using demo_memory.tag_memory_axioms by simp
  from pid_write_effects[OF this _ w(1)] obtain n where
    n: "\<not> nw_success w" "0 < n" "n < 3" "list_all (\<lambda>(t, v). memory_holds (au_inner s') t v) (take n (pid_values ''P'' ''I'' ''D'' demo_previous))"
    using w(2-4) by auto
  then have "memory_holds (au_inner s') ''P'' (WFloat (Fin 1))" by (cases n) (simp_all add: demo_previous_def)
  then show ?thesis using w n(1) unfolding memory_holds_def by blast
qed


end
