(* ===== verification/App_Config.thy ===== *)
theory App_Config
  imports Live_Ownership Db_Templates
begin

text \<open>
  The configuration file and the settings resolved from it (\<open>bhtune-runtime/src/config\<close>:
  \<open>model.rs\<close>, \<open>resolvers.rs\<close>, \<open>paths.rs\<close>, \<open>catalog.rs\<close>, \<open>demo.rs\<close>).

  Reading TOML is not modelled: a configuration is the record it yields.  Paths are strings joined
  as on Unix.  The environment and the file system are arguments.  Parsing an IP address is a
  parameter: it says whether the text is an address, of which family, and whether it is loopback.
\<close>

section \<open>The configuration\<close>

datatype server_mode = FullMode | DemoMode

record demo_policy =
  dp_session_ttl_secs :: nat
  dp_poll_interval_ms :: nat
  dp_run_timeout_secs :: nat
  dp_max_active_runs_global :: nat
  dp_max_active_runs_per_visitor :: nat
  dp_accepted_starts_per_token :: nat
  dp_accepted_starts_per_client_ip :: nat
  dp_accepted_start_window_secs :: nat
  dp_retained_runs_per_visitor :: nat
  dp_max_runs_per_session :: nat
  dp_max_tune_run_rows_global :: nat
  dp_max_json_body_bytes :: nat
  dp_max_sse_per_visitor :: nat
  dp_max_sse_global :: nat
  dp_sse_lifetime_secs :: nat
  dp_ordinary_request_concurrency :: nat
  dp_ordinary_request_timeout_secs :: nat
  dp_cleanup_interval_secs :: nat

definition demo_policy_default :: demo_policy where
  "demo_policy_default =
     \<lparr> dp_session_ttl_secs = 86400, dp_poll_interval_ms = 200, dp_run_timeout_secs = 30,
       dp_max_active_runs_global = 8, dp_max_active_runs_per_visitor = 1,
       dp_accepted_starts_per_token = 6, dp_accepted_starts_per_client_ip = 6,
       dp_accepted_start_window_secs = 600, dp_retained_runs_per_visitor = 10,
       dp_max_runs_per_session = 10, dp_max_tune_run_rows_global = 5000,
       dp_max_json_body_bytes = 32768, dp_max_sse_per_visitor = 2, dp_max_sse_global = 32,
       dp_sse_lifetime_secs = 45, dp_ordinary_request_concurrency = 64,
       dp_ordinary_request_timeout_secs = 10, dp_cleanup_interval_secs = 300 \<rparr>"

text \<open>A value that differs from the contract is reported by its field's name and the value it must have.\<close>

type_synonym demo_violation = "string \<times> nat"

definition validate_demo_value :: "string \<Rightarrow> nat \<Rightarrow> nat \<Rightarrow> (demo_violation, unit) result" where
  "validate_demo_value field actual expected =
     (if actual = expected then Ok () else Err (field, expected))"

definition policy_fields :: "(string \<times> (demo_policy \<Rightarrow> nat)) list" where
  "policy_fields =
     [(''session_ttl_secs'', dp_session_ttl_secs), (''poll_interval_ms'', dp_poll_interval_ms),
      (''run_timeout_secs'', dp_run_timeout_secs), (''max_active_runs_global'', dp_max_active_runs_global),
      (''max_active_runs_per_visitor'', dp_max_active_runs_per_visitor),
      (''accepted_starts_per_token'', dp_accepted_starts_per_token),
      (''accepted_starts_per_client_ip'', dp_accepted_starts_per_client_ip),
      (''accepted_start_window_secs'', dp_accepted_start_window_secs),
      (''retained_runs_per_visitor'', dp_retained_runs_per_visitor),
      (''max_runs_per_session'', dp_max_runs_per_session),
      (''max_tune_run_rows_global'', dp_max_tune_run_rows_global),
      (''max_json_body_bytes'', dp_max_json_body_bytes),
      (''max_sse_per_visitor'', dp_max_sse_per_visitor), (''max_sse_global'', dp_max_sse_global),
      (''sse_lifetime_secs'', dp_sse_lifetime_secs),
      (''ordinary_request_concurrency'', dp_ordinary_request_concurrency),
      (''ordinary_request_timeout_secs'', dp_ordinary_request_timeout_secs),
      (''cleanup_interval_secs'', dp_cleanup_interval_secs)]"

definition demo_policy_validate :: "demo_policy \<Rightarrow> (demo_violation, unit) result" where
  "demo_policy_validate p =
     each_ok (\<lambda>(field, get). validate_demo_value field (get p) (get demo_policy_default)) policy_fields"

text \<open>The \<open>[demo]\<close> table: each field stated or absent.\<close>

record demo_policy_config =
  dc_session_ttl_secs :: "nat option"
  dc_poll_interval_ms :: "nat option"
  dc_run_timeout_secs :: "nat option"
  dc_max_active_runs_global :: "nat option"
  dc_max_active_runs_per_visitor :: "nat option"
  dc_accepted_starts_per_token :: "nat option"
  dc_accepted_starts_per_client_ip :: "nat option"
  dc_accepted_start_window_secs :: "nat option"
  dc_retained_runs_per_visitor :: "nat option"
  dc_max_runs_per_session :: "nat option"
  dc_max_tune_run_rows_global :: "nat option"
  dc_max_json_body_bytes :: "nat option"
  dc_max_sse_per_visitor :: "nat option"
  dc_max_sse_global :: "nat option"
  dc_sse_lifetime_secs :: "nat option"
  dc_ordinary_request_concurrency :: "nat option"
  dc_ordinary_request_timeout_secs :: "nat option"
  dc_cleanup_interval_secs :: "nat option"

definition resolve_demo_policy :: "demo_policy_config \<Rightarrow> (demo_violation, demo_policy) result" where
  "resolve_demo_policy c =
     (let d = demo_policy_default;
          p = \<lparr> dp_session_ttl_secs = unwrap_or (dc_session_ttl_secs c) (dp_session_ttl_secs d),
                dp_poll_interval_ms = unwrap_or (dc_poll_interval_ms c) (dp_poll_interval_ms d),
                dp_run_timeout_secs = unwrap_or (dc_run_timeout_secs c) (dp_run_timeout_secs d),
                dp_max_active_runs_global = unwrap_or (dc_max_active_runs_global c) (dp_max_active_runs_global d),
                dp_max_active_runs_per_visitor = unwrap_or (dc_max_active_runs_per_visitor c) (dp_max_active_runs_per_visitor d),
                dp_accepted_starts_per_token = unwrap_or (dc_accepted_starts_per_token c) (dp_accepted_starts_per_token d),
                dp_accepted_starts_per_client_ip = unwrap_or (dc_accepted_starts_per_client_ip c) (dp_accepted_starts_per_client_ip d),
                dp_accepted_start_window_secs = unwrap_or (dc_accepted_start_window_secs c) (dp_accepted_start_window_secs d),
                dp_retained_runs_per_visitor = unwrap_or (dc_retained_runs_per_visitor c) (dp_retained_runs_per_visitor d),
                dp_max_runs_per_session = unwrap_or (dc_max_runs_per_session c) (dp_max_runs_per_session d),
                dp_max_tune_run_rows_global = unwrap_or (dc_max_tune_run_rows_global c) (dp_max_tune_run_rows_global d),
                dp_max_json_body_bytes = unwrap_or (dc_max_json_body_bytes c) (dp_max_json_body_bytes d),
                dp_max_sse_per_visitor = unwrap_or (dc_max_sse_per_visitor c) (dp_max_sse_per_visitor d),
                dp_max_sse_global = unwrap_or (dc_max_sse_global c) (dp_max_sse_global d),
                dp_sse_lifetime_secs = unwrap_or (dc_sse_lifetime_secs c) (dp_sse_lifetime_secs d),
                dp_ordinary_request_concurrency = unwrap_or (dc_ordinary_request_concurrency c) (dp_ordinary_request_concurrency d),
                dp_ordinary_request_timeout_secs = unwrap_or (dc_ordinary_request_timeout_secs c) (dp_ordinary_request_timeout_secs d),
                dp_cleanup_interval_secs = unwrap_or (dc_cleanup_interval_secs c) (dp_cleanup_interval_secs d) \<rparr>
      in bind_result (demo_policy_validate p) (\<lambda>_. Ok p))"

text \<open>The logging table is left out.\<close>

record bhtune_config =
  bc_server_mode :: "server_mode option"
  bc_demo :: demo_policy_config
  bc_db :: "string option"
  bc_bridge_host :: "string option"
  bc_server :: "string option"
  bc_templates :: "string option"
  bc_bind :: "string option"
  bc_origin :: "string option"
  bc_trusted_proxy :: "string option"
  bc_retention_days :: "u32 option"
  bc_allow_uncertain_quality :: bool
  bc_tuning :: tuning_config

definition deserialize_retention_days :: "u32 option \<Rightarrow> (string, u32 option) result" where
  "deserialize_retention_days days =
     (if days = Some 0 then Err ''retention_days must be at least 1 or omitted'' else Ok days)"

section \<open>Paths\<close>

definition path_join :: "string \<Rightarrow> string \<Rightarrow> string" where
  "path_join dir name =
     (if dir = [] then name else if hd (rev dir) = CHR ''/'' then dir @ name else dir @ ''/'' @ name)"

definition path_of :: "string \<Rightarrow> string list \<Rightarrow> string" where
  "path_of dir names = foldl path_join dir names"

definition config_path_from :: "string option \<Rightarrow> string option \<Rightarrow> string option \<Rightarrow> bool \<Rightarrow> string option" where
  "config_path_from xdg home appdata is_windows =
     (if is_windows then map_option (\<lambda>d. path_of d [''bhtune'', ''bhtune.toml'']) appdata
      else case xdg of
             Some d \<Rightarrow> Some (path_of d [''bhtune'', ''bhtune.toml''])
           | None \<Rightarrow> map_option (\<lambda>d. path_of d [''.config'', ''bhtune'', ''bhtune.toml'']) home)"

definition templates_path_from :: "string option \<Rightarrow> string option \<Rightarrow> string option \<Rightarrow> bool \<Rightarrow> string option" where
  "templates_path_from xdg home appdata is_windows =
     (if is_windows then map_option (\<lambda>d. path_of d [''bhtune'', ''templates.toml'']) appdata
      else case xdg of
             Some d \<Rightarrow> Some (path_of d [''bhtune'', ''templates.toml''])
           | None \<Rightarrow> map_option (\<lambda>d. path_of d [''.config'', ''bhtune'', ''templates.toml'']) home)"

definition default_db_path_from :: "string option \<Rightarrow> string option \<Rightarrow> string option \<Rightarrow> bool \<Rightarrow> string" where
  "default_db_path_from xdg home appdata is_windows =
     (if is_windows then unwrap_or (map_option (\<lambda>d. path_of d [''bhtune'', ''bhtune.db'']) appdata) ''bhtune.db''
      else case xdg of
             Some d \<Rightarrow> path_of d [''bhtune'', ''bhtune.db'']
           | None \<Rightarrow> unwrap_or (map_option (\<lambda>d. path_of d [''.local'', ''share'', ''bhtune'', ''bhtune.db'']) home) ''bhtune.db'')"

definition default_log_dir_from :: "string option \<Rightarrow> string option \<Rightarrow> string option \<Rightarrow> bool \<Rightarrow> string" where
  "default_log_dir_from xdg home appdata is_windows =
     (if is_windows then unwrap_or (map_option (\<lambda>d. path_of d [''bhtune'', ''logs'']) appdata) ''logs''
      else case xdg of
             Some d \<Rightarrow> path_of d [''bhtune'', ''logs'']
           | None \<Rightarrow> unwrap_or (map_option (\<lambda>d. path_of d [''.local'', ''share'', ''bhtune'', ''logs'']) home) ''logs'')"

section \<open>Resolving settings\<close>

definition or_else :: "'a option \<Rightarrow> 'a option \<Rightarrow> 'a option" where
  "or_else a b = (case a of Some _ \<Rightarrow> a | None \<Rightarrow> b)"

definition DEFAULT_BIND_ADDR :: string where "DEFAULT_BIND_ADDR = ''127.0.0.1:8787''"

definition resolve_db_path ::
  "string option \<Rightarrow> bhtune_config \<Rightarrow> string option \<Rightarrow> string option \<Rightarrow> string option \<Rightarrow> bool \<Rightarrow> string" where
  "resolve_db_path cli c xdg home appdata is_windows =
     unwrap_or (or_else cli (bc_db c)) (default_db_path_from xdg home appdata is_windows)"

definition resolve_bridge_host :: "string option \<Rightarrow> bhtune_config \<Rightarrow> string" where
  "resolve_bridge_host cli c = unwrap_or (or_else cli (bc_bridge_host c)) DEFAULT_BRIDGE_HOST"

definition resolve_retention_days :: "u32 option \<Rightarrow> bhtune_config \<Rightarrow> u32 option" where
  "resolve_retention_days cli c = or_else cli (bc_retention_days c)"

definition resolve_bind_addr :: "string option \<Rightarrow> bhtune_config \<Rightarrow> string" where
  "resolve_bind_addr over c = unwrap_or (or_else over (bc_bind c)) DEFAULT_BIND_ADDR"

definition resolve_server :: "string option \<Rightarrow> bhtune_config \<Rightarrow> (string, string) result" where
  "resolve_server cli c =
     (case or_else cli (bc_server c) of
        Some x \<Rightarrow> Ok x
      | None \<Rightarrow> Err ''no OPC server specified: pass --server or set `server` in the bhtune config file'')"

text \<open>The user's template catalog: the file's text, that it is missing, or another failure; parsing the
  text is a parameter.\<close>

datatype file_text = FileText string | FileMissing | FileFailed string

definition load_user_templates ::
  "(string \<Rightarrow> file_text) \<Rightarrow> (string \<Rightarrow> (string, dcs_template list) result) \<Rightarrow> string option \<Rightarrow> bhtune_config
   \<Rightarrow> string option \<Rightarrow> string option \<Rightarrow> string option \<Rightarrow> bool \<Rightarrow> (string, dcs_template list option) result" where
  "load_user_templates file_of parse cli c xdg home appdata is_windows =
     (let (path, missing_is_error) = (case or_else cli (bc_templates c) of
             Some explicit \<Rightarrow> (Some explicit, True)
           | None \<Rightarrow> (templates_path_from xdg home appdata is_windows, False))
      in case path of
           None \<Rightarrow> Ok None
         | Some p \<Rightarrow>
             (case file_of p of
                FileText t \<Rightarrow> map_sum (\<lambda>e. ''failed to parse templates file '' @ p @ '': '' @ e) Some (parse t)
              | FileMissing \<Rightarrow> if missing_is_error then Err (''templates file not found: '' @ p) else Ok None
              | FileFailed e \<Rightarrow> Err (''failed to read templates file '' @ p @ '': '' @ e)))"

section \<open>The server's mode and origin\<close>

definition resolve_server_mode :: "string option \<Rightarrow> bhtune_config \<Rightarrow> (string, server_mode) result" where
  "resolve_server_mode env c =
     (let raw = or_else env (map_option (\<lambda>m. case m of FullMode \<Rightarrow> ''full'' | DemoMode \<Rightarrow> ''demo'') (bc_server_mode c));
          mode = to_ascii_lowercase (unwrap_or raw ''full'')
      in if mode = ''full'' then Ok FullMode
         else if mode = ''demo'' then Ok DemoMode
         else Err (''invalid server mode '' @ [CHR 39] @ mode @ [CHR 39] @ ''; expected '' @ [CHR 39] @ ''full'' @ [CHR 39] @
           '' or '' @ [CHR 39] @ ''demo'' @ [CHR 39]))"

text \<open>\<open>str::split_once\<close> at the first separator, \<open>rsplit_once\<close> at the last colon.\<close>

fun split_once :: "string \<Rightarrow> string \<Rightarrow> (string \<times> string) option" where
  "split_once sep s =
     (if take (length sep) s = sep then Some ([], drop (length sep) s)
      else case s of [] \<Rightarrow> None | c # r \<Rightarrow> map_option (\<lambda>(a, b). (c # a, b)) (split_once sep r))"

definition rsplit_colon :: "string \<Rightarrow> (string \<times> string) option" where
  "rsplit_colon s = map_option (\<lambda>(b, a). (rev a, rev b)) (split_once '':'' (rev s))"

text \<open>\<open>str::parse::<u16>\<close> and \<open>u32\<close>: digits, with a plus sign allowed, below the type's bound.\<close>

definition digit_value :: "char \<Rightarrow> nat option" where
  "digit_value c = (let n = of_char c in if 48 \<le> n \<and> n \<le> (57 :: nat) then Some (n - 48) else None)"

fun digits_value :: "nat \<Rightarrow> string \<Rightarrow> nat option" where
  "digits_value acc [] = Some acc"
| "digits_value acc (c # cs) = (case digit_value c of None \<Rightarrow> None | Some d \<Rightarrow> digits_value (10 * acc + d) cs)"

definition parse_unsigned :: "nat \<Rightarrow> string \<Rightarrow> nat option" where
  "parse_unsigned bound s =
     (let t = (case s of CHR ''+'' # r \<Rightarrow> r | _ \<Rightarrow> s)
      in if t = [] then None else option_filter (\<lambda>n. n < bound) (digits_value 0 t))"

definition split_authority :: "string \<Rightarrow> (string \<times> string option) option" where
  "split_authority authority =
     (case authority of
        CHR ''['' # rest \<Rightarrow>
          (case split_once '']'' rest of
             None \<Rightarrow> None
           | Some (host, []) \<Rightarrow> Some (host, None)
           | Some (host, CHR '':'' # port) \<Rightarrow> Some (host, Some port)
           | Some _ \<Rightarrow> None)
      | _ \<Rightarrow>
          (case rsplit_colon authority of
             None \<Rightarrow> Some (authority, None)
           | Some (host, port) \<Rightarrow> if CHR '':'' \<in> set host then None else Some (host, Some port)))"

definition valid_origin_authority :: "string \<Rightarrow> bool" where
  "valid_origin_authority authority =
     (case split_authority authority of
        None \<Rightarrow> False
      | Some (host, port) \<Rightarrow>
          host \<noteq> [] \<and> (case port of None \<Rightarrow> True | Some p \<Rightarrow> p \<noteq> [] \<and> parse_unsigned (2 ^ 16) p \<noteq> None))"

text \<open>\<open>IpAddr\<close> as far as it is used.\<close>

record ip_address =
  ip_is_v6 :: bool
  ip_is_loopback :: bool

definition is_loopback_host :: "(string \<Rightarrow> ip_address option) \<Rightarrow> string \<Rightarrow> bool" where
  "is_loopback_host ip host \<longleftrightarrow>
     to_ascii_lowercase host = ''localhost'' \<or> (case ip host of None \<Rightarrow> False | Some a \<Rightarrow> ip_is_loopback a)"

definition validate_demo_origin :: "(string \<Rightarrow> ip_address option) \<Rightarrow> string \<Rightarrow> (string, unit) result" where
  "validate_demo_origin ip origin =
     (if trim origin \<noteq> origin \<or> list_ex char_is_whitespace origin then Err ''demo origin must not contain whitespace''
      else case split_once ''://'' origin of
             None \<Rightarrow> Err ''demo origin must be an absolute HTTPS origin''
           | Some (scheme, authority) \<Rightarrow>
               if authority = [] \<or> list_ex (\<lambda>c. c \<in> set ''/?#@'') authority \<or> \<not> valid_origin_authority authority
               then Err ''demo origin must contain only a host and optional port, with no path or credentials''
               else if to_ascii_lowercase scheme = ''https'' then Ok ()
               else if to_ascii_lowercase scheme = ''http'' then
                 (if (case split_authority authority of None \<Rightarrow> False | Some (host, _) \<Rightarrow> is_loopback_host ip host) then Ok ()
                  else Err ''demo origin must use HTTPS; HTTP is allowed only for an explicit loopback origin'')
               else Err ''demo origin must use HTTPS'')"

definition resolve_origin ::
  "(string \<Rightarrow> ip_address option) \<Rightarrow> string option \<Rightarrow> bhtune_config \<Rightarrow> string \<Rightarrow> server_mode \<Rightarrow> (string, string option) result" where
  "resolve_origin ip env c bind mode =
     (let configured = or_else env (bc_origin c)
      in if mode = DemoMode then
           (let origin = unwrap_or configured (''http://'' @ bind)
            in bind_result (validate_demo_origin ip origin) (\<lambda>_. Ok (Some origin)))
         else Ok configured)"

definition validate_demo_trusted_proxy :: "(string \<Rightarrow> ip_address option) \<Rightarrow> string option \<Rightarrow> (string, unit) result" where
  "validate_demo_trusted_proxy ip proxy =
     (case proxy of
        None \<Rightarrow> Ok ()
      | Some v \<Rightarrow>
          if trim v \<noteq> v \<or> v = [] then Err ''demo trusted_proxy must be a non-empty IP address or CIDR''
          else if ip v \<noteq> None then Ok ()
          else case split_once ''/'' v of
                 None \<Rightarrow> Err ''demo trusted_proxy must be an IP address or CIDR''
               | Some (network, len) \<Rightarrow>
                   (case ip network of
                      None \<Rightarrow> Err ''demo trusted_proxy CIDR must use a valid IP address''
                    | Some a \<Rightarrow>
                        (case parse_unsigned (2 ^ 32) len of
                           None \<Rightarrow> Err ''demo trusted_proxy CIDR prefix is invalid''
                         | Some n \<Rightarrow>
                             if (if ip_is_v6 a then 128 else 32) < n
                             then Err (''demo trusted_proxy CIDR prefix must be between 0 and '' @ (if ip_is_v6 a then ''128'' else ''32''))
                             else Ok ())))"

end
