(* ===== verification/Prepare.thy ===== *)
theory Prepare
  imports Write_Back_Safety App_Config
begin

text \<open>
  Preparing a tune (\<open>bhtune-runtime/src/tune/prepare.rs\<close>): what is read before anything is changed,
  the checks on it, the transition to manual, and the preparation of the run's row, its ownership and
  its driver.

  The answers of the gateway's compatibility check and of building the driver, the rendering of the
  request as JSON, and the texts of errors are parameters.
\<close>

section \<open>Calls in sequence\<close>

text \<open>\<open>call(..).await?\<close>: an error ends the function with the state the call left.\<close>

definition and_then :: "'s \<times> ('e, 'a) result \<Rightarrow> ('a \<Rightarrow> 's \<Rightarrow> 's \<times> ('e, 'b) result) \<Rightarrow> 's \<times> ('e, 'b) result" where
  "and_then x k = (case x of (s, Inl e) \<Rightarrow> (s, Err e) | (s, Inr a) \<Rightarrow> k a s)"

lemma and_then_Ok:
  "and_then x k = (s', Ok b) \<longleftrightarrow> (\<exists>s a. x = (s, Ok a) \<and> k a s = (s', Ok b))"
  by (auto simp: and_then_def split: prod.splits sum.splits)

lemma and_then_cases [consumes 1, case_names stop went_on]:
  assumes "and_then x k = (s', r)"
  obtains e where "x = (s', Err e)" "r = Err e" | s a where "x = (s, Ok a)" "k a s = (s', r)"
  using assms by (cases x; cases "snd x") (auto simp: and_then_def)

lemma map_sum_ErrE: "map_sum f g r = Err e \<Longrightarrow> (\<And>x. r = Err x \<Longrightarrow> e = f x \<Longrightarrow> P) \<Longrightarrow> P"
  by (cases r) auto

lemma and_then_simps [simp]:
  "and_then (s, Inl e) k = (s, Err e)" "and_then (s, Inr a) k = k a s"
  by (simp_all add: and_then_def)

section \<open>The initial readings\<close>

definition tag_list :: "'a tag_or_value \<Rightarrow> string list" where
  "tag_list t = (case t of Tag x \<Rightarrow> [x] | Value _ \<Rightarrow> [])"

definition opt_list :: "'a option \<Rightarrow> 'a list" where
  "opt_list x = (case x of None \<Rightarrow> [] | Some a \<Rightarrow> [a])"

text \<open>The tags in the order they are asked for, each once.\<close>

definition requested_tags :: "loop_tags \<Rightarrow> string list" where
  "requested_tags g = rev (remdups (rev
     ([g_process_variable g, g_manipulated_variable g] @ opt_list (g_controller_mode g) @ opt_list (g_mode_attribute g) @
      tag_list (g_controller_direction g) @ tag_list (g_upper_pv_range g) @ tag_list (g_lower_pv_range g) @
      tag_list (g_upper_mv_range g) @ tag_list (g_lower_mv_range g))))"

definition optional_raw :: "batch \<Rightarrow> string option \<Rightarrow> bool \<Rightarrow> (run_error, string option) result" where
  "optional_raw b tag allow = (case tag of None \<Rightarrow> Ok None | Some t \<Rightarrow> map_sum id Some (read_batch_raw b t allow))"

definition read_initial_values ::
  "(string \<Rightarrow> f32 option) \<Rightarrow> 'd get \<Rightarrow> loop_tags \<Rightarrow> dcs_template \<Rightarrow> bool \<Rightarrow> 'd \<Rightarrow> 'd \<times> (run_error, initial_state) result" where
  "read_initial_values parse get g t allow d0 =
     and_then (apsnd (map_sum EDriver batch_of) (get (requested_tags g) d0)) (\<lambda>b d1.
     and_then (d1, read_batch_f32 parse b (g_process_variable g) allow) (\<lambda>pv d1.
     and_then (d1, read_batch_f32 parse b (g_manipulated_variable g) allow) (\<lambda>mv d1.
     and_then (d1, optional_raw b (g_controller_mode g) allow) (\<lambda>mode d1.
     and_then (d1, optional_raw b (g_mode_attribute g) allow) (\<lambda>attr d1.
     and_then (case (g_setpoint_variable g, mode) of
         (Some sv, Some m) \<Rightarrow> if m = t_mode_auto_value t then apsnd (map_sum id Some) (read_f32 parse get sv allow d1) else (d1, Ok None)
       | _ \<Rightarrow> (d1, Ok None)) (\<lambda>setpoint d2.
     and_then (resolve_direction_from_batch get b (g_controller_direction g) t allow d2) (\<lambda>direction d3.
     and_then (resolve_f32_from_batch parse get b (g_upper_pv_range g) allow d3) (\<lambda>pv_high d4.
     and_then (resolve_f32_from_batch parse get b (g_lower_pv_range g) allow d4) (\<lambda>pv_low d5.
     and_then (resolve_f32_from_batch parse get b (g_upper_mv_range g) allow d5) (\<lambda>mv_high d6.
     and_then (resolve_f32_from_batch parse get b (g_lower_mv_range g) allow d6) (\<lambda>mv_low d7.
       (d7, Ok \<lparr> is_pv_ini = pv, is_mv_ini = mv, is_pv_range_high = pv_high, is_pv_range_low = pv_low,
                is_mv_range_high = mv_high, is_mv_range_low = mv_low, is_direction = direction,
                is_mode_raw = mode, is_mode_attribute_raw = attr, is_setpoint_ini = setpoint \<rparr>))))))))))))"

text \<open>The errors of a run.\<close>

datatype exec_error =
  XeRun run_error
| XeText string
| XePvRange range_error
| XeMvRange range_error
| XeMvOutside f32 f32 f32
| XeConfig config_error
| XeTuning tuning_config_error
| XeDb db_error
| XeLive live_error
| XeAcquire acquire_error
| XeWrite write_error
| XeAlso exec_error string exec_error

definition validate_initial_state :: "initial_state \<Rightarrow> (exec_error, unit) result" where
  "validate_initial_state i =
     bind_result (map_err XePvRange (PvRange_new (is_pv_range_high i) (is_pv_range_low i))) (\<lambda>_.
     bind_result (map_err XeMvRange (MvRange_new (is_mv_range_high i) (is_mv_range_low i))) (\<lambda>r.
       if \<not> MvRange_contains r (is_mv_ini i)
       then Err (XeMvOutside (is_mv_ini i) (is_mv_range_low i) (is_mv_range_high i)) else Ok ()))"

section \<open>The transition to manual\<close>

text \<open>A flag is set before its write is attempted; the pause of a second between the two writes is left
  out.\<close>

definition transition_to_manual ::
  "'d put \<Rightarrow> loop_tags \<Rightarrow> dcs_template \<Rightarrow> initial_state \<Rightarrow> mutation_guard \<Rightarrow> 'd
   \<Rightarrow> ('d \<times> mutation_guard) \<times> (run_error, unit) result" where
  "transition_to_manual put g t i mg d =
     (let (d1, mg1, r1) = (case (g_mode_attribute g, t_mode_attribute_program_value t) of
            (Some tag, Some program) \<Rightarrow>
              (let (d', r) = write_raw put tag program d in (d', mg\<lparr>mg_mode_attribute_written := True\<rparr>, r))
          | _ \<Rightarrow> (d, mg, Ok ()))
      in case r1 of
           Inl e \<Rightarrow> ((d1, mg1), Err e)
         | Inr _ \<Rightarrow>
             (case g_controller_mode g of
                None \<Rightarrow> ((d1, mg1), Ok ())
              | Some tag \<Rightarrow>
                  if unwrap_or_default (is_mode_raw i) = t_mode_manual_value t then ((d1, mg1), Ok ())
                  else (let (d2, r2) = write_raw put tag (t_mode_manual_value t) d1
                        in ((d2, mg1\<lparr>mg_mode_written := True\<rparr>), r2))))"

section \<open>The run's row\<close>

text \<open>What a preparation is given besides the request: the parsed configuration, the templates, the
  answers of the outside, the texts.\<close>

record 'd prepare_env =
  pe_config :: bhtune_config
  pe_templates :: template_table
  pe_request_json :: "tune_request \<Rightarrow> string"
  pe_gateway :: "string \<Rightarrow> string option \<Rightarrow> (string, string) result"   \<comment> \<open>the snapshot's JSON\<close>
  pe_now :: timestamp
  pe_later :: timestamp
  pe_lock :: lock_env
  pe_pid :: int
  pe_intent :: "int \<Rightarrow> string \<Rightarrow> string"
  pe_build :: "tune_request \<Rightarrow> nat \<Rightarrow> (string, 'd) result"
  pe_js :: json_lib
  pe_text :: "exec_error \<Rightarrow> string"

definition db_call :: "db \<times> (db_error, 'a) result \<Rightarrow> db \<times> (exec_error, 'a) result" where
  "db_call = apsnd (map_sum XeDb id)"

definition trimmed_notes :: "string option \<Rightarrow> string option" where
  "trimmed_notes notes = option_filter (\<lambda>n. n \<noteq> []) (map_option trim notes)"

definition record_metadata ::
  "'d prepare_env \<Rightarrow> tune_request \<Rightarrow> effective_timing \<Rightarrow> string \<Rightarrow> string option \<Rightarrow> int \<Rightarrow> db \<Rightarrow> db \<times> (exec_error, unit) result" where
  "record_metadata env q timing request gateway rid d0 =
     (let jv = js_valid (pe_js env)
      in and_then (db_call (record_effective_tuning jv rid (timing_to_db timing) d0)) (\<lambda>_ d1.
         and_then (db_call (record_allow_uncertain_quality jv rid (bc_allow_uncertain_quality (pe_config env)) d1)) (\<lambda>_ d2.
         (let (server, host) = (if driver_kind_to_db (q_driver q) = Opcda then (q_server q, q_bridge_host q) else (None, None))
          in and_then (db_call (record_connection jv rid server host request d2)) (\<lambda>_ d3.
             and_then (case gateway of
                 None \<Rightarrow> (d3, Ok ())
               | Some j \<Rightarrow> apsnd (map_sum id (\<lambda>_. ())) (db_call (record_gateway_compatibility jv rid j d3))) (\<lambda>_ d4.
             apsnd (map_sum id (\<lambda>_. ())) (db_call (update_notes jv rid (trimmed_notes (q_notes q)) d4))))))))"

definition finalize_preparation_failure :: "json_lib \<Rightarrow> int \<Rightarrow> timestamp \<Rightarrow> string \<Rightarrow> db \<Rightarrow> db" where
  "finalize_preparation_failure js rid now reason d =
     (case run_fail (js_valid js) rid now reason d of
        (d1, Inr _) \<Rightarrow> d1
      | (d1, Inl _) \<Rightarrow> fst (run_delete rid d1))"

text \<open>The ownership is given up only once the run's failure is on record.\<close>

definition complete_driver_setup ::
  "json_lib \<Rightarrow> int \<Rightarrow> timestamp \<Rightarrow> (string, 'd) result \<Rightarrow> live_guard option \<Rightarrow> db \<Rightarrow> db \<times> (exec_error, 'd \<times> live_guard option) result" where
  "complete_driver_setup js rid now built owner d =
     (case built of
        Inr drv \<Rightarrow> (d, Ok (drv, owner))
      | Inl e \<Rightarrow>
          (case (run_fail (js_valid js) rid now e d, owner) of
             ((d1, Inr _), Some g) \<Rightarrow>
               and_then (apsnd (map_sum XeLive id) (release_guard js now g d1)) (\<lambda>_ d2. (d2, Err (XeText e)))
           | ((d1, _), _) \<Rightarrow> (d1, Err (XeText e))))"

text \<open>What is handed to the execution.\<close>

record 'd prepared_tune =
  pt_run_id :: int
  pt_request :: tune_request
  pt_template :: dcs_template
  pt_tags :: loop_tags
  pt_driver :: 'd
  pt_config :: loop_config
  pt_timing :: effective_timing
  pt_started_at :: timestamp
  pt_allow :: bool
  pt_owner :: "live_guard option"

definition WRITE_PID_NEEDS_YES :: string where
  "WRITE_PID_NEEDS_YES = ''--write-pid requires --yes: writing PID constants back to the DCS with no human present to confirm must be an explicit, deliberate choice''"

text \<open>The part before the row exists: nothing is changed.\<close>

definition prepare_request ::
  "'d prepare_env \<Rightarrow> tune_request
   \<Rightarrow> (exec_error, tune_request \<times> effective_timing \<times> string \<times> dcs_template_row \<times> loop_config \<times> loop_tags \<times> string option) result" where
  "prepare_request env q0 =
     (if q_write_pid q0 \<noteq> None \<and> \<not> q_yes q0 then Err (XeText WRITE_PID_NEEDS_YES)
      else bind_result (map_err XeTuning
             (resolve_and_validate_tuning_config (bc_tuning (pe_config env)) (q_driver q0 = OpcdaKind))) (\<lambda>eff.
        let timing = timing_of_config eff;
            request = pe_request_json env q0;
            q1 = q0\<lparr>q_bridge_host := Some (resolve_bridge_host (q_bridge_host q0) (pe_config env))\<rparr>
        in bind_result (if q_driver q1 = OpcdaKind
               then map_sum XeText (\<lambda>s. q1\<lparr>q_server := Some s\<rparr>) (resolve_server (q_server q1) (pe_config env)) else Ok q1) (\<lambda>q.
           bind_result (case template_get_by_name (q_template q) (pe_templates env) of
               None \<Rightarrow> Err (XeText (''no template named '' @ [CHR 39] @ q_template q @ [CHR 39])) | Some r \<Rightarrow> Ok r) (\<lambda>row.
           bind_result (map_err XeConfig (build_loop_config_with_timing q timing)) (\<lambda>config.
           bind_result (map_err XeConfig (build_loop_tags q (td_template row))) (\<lambda>tags.
           bind_result (case (q_driver q, q_bridge_host q, q_server q) of
               (OpcdaKind, Some host, Some server) \<Rightarrow> map_sum XeText Some (pe_gateway env host (Some server))
             | _ \<Rightarrow> Ok None) (\<lambda>gateway.
             Ok (q, timing, request, row, config, tags, gateway))))))))"

definition acquire_tune ::
  "'d prepare_env \<Rightarrow> tune_request \<Rightarrow> loop_tags \<Rightarrow> int \<Rightarrow> db \<Rightarrow> db \<times> (exec_error, live_guard option) result" where
  "acquire_tune env q tags rid d =
     (if q_driver q \<noteq> OpcdaKind then (d, Ok None)
      else case (q_bridge_host q, q_server q) of
             (None, _) \<Rightarrow> (d, Err (XeText ''resolved OPC bridge host is missing''))
           | (_, None) \<Rightarrow> (d, Err (XeText ''resolved OPC server is missing''))
           | (Some host, Some server) \<Rightarrow>
               apsnd (map_sum XeAcquire Some)
                 (acquire (pe_js env) (pe_lock env) (pe_pid env) (pe_later env) (Some rid) KTune host server
                    (g_manipulated_variable tags) (Some (pe_intent env rid (g_manipulated_variable tags))) d))"

definition prepare_internal ::
  "'d prepare_env \<Rightarrow> int option \<Rightarrow> tune_request \<Rightarrow> db \<Rightarrow> db \<times> (exec_error, 'd prepared_tune) result" where
  "prepare_internal env session q0 d =
     (let js = pe_js env
      in case prepare_request env q0 of
           Inl e \<Rightarrow> (d, Err e)
         | Inr (q, timing, request, row, config, tags, gateway) \<Rightarrow>
             and_then (db_call (start_with_demo_session (js_valid js) session
                 \<lparr> rs_loop_id = None, rs_loop_name = q_tagname q, rs_driver = driver_kind_to_db (q_driver q), rs_config = config,
                   rs_template_origin = td_origin row, rs_template = td_template row, rs_tags = tags \<rparr> (pe_now env) d)) (\<lambda>run d1.
             let rid = run_id run;
                 failed = (\<lambda>d e. (finalize_preparation_failure js rid (pe_later env) (pe_text env e) d, Err e))
             in case record_metadata env q timing request gateway rid d1 of
                  (d2, Inl e) \<Rightarrow> failed d2 e
                | (d2, Inr _) \<Rightarrow>
                    (case acquire_tune env q tags rid d2 of
                       (d3, Inl e) \<Rightarrow> failed d3 e
                     | (d3, Inr owner) \<Rightarrow>
                         and_then (complete_driver_setup js rid (pe_later env) (pe_build env q (f_poll_interval_ms timing)) owner d3)
                           (\<lambda>(drv, owner) d4.
                             (d4, Ok \<lparr> pt_run_id = rid, pt_request = q, pt_template = td_template row, pt_tags = tags,
                                pt_driver = drv, pt_config = config, pt_timing = timing, pt_started_at = pe_now env,
                                pt_allow = bc_allow_uncertain_quality (pe_config env), pt_owner = owner \<rparr>)))))"

text \<open>The two entries: the request is validated first; a demo session may only start simulator runs.\<close>

definition prepare_tune :: "'d prepare_env \<Rightarrow> tune_request \<Rightarrow> db \<Rightarrow> db \<times> (exec_error + request_error, 'd prepared_tune) result" where
  "prepare_tune env q d =
     (case validate_request q of
        Inl e \<Rightarrow> (d, Err (Inr e))
      | Inr q \<Rightarrow> apsnd (map_sum Inl id) (prepare_internal env None q d))"

definition prepare_owned :: "'d prepare_env \<Rightarrow> tune_request \<Rightarrow> int \<Rightarrow> db \<Rightarrow> db \<times> (exec_error + request_error, 'd prepared_tune) result" where
  "prepare_owned env q session d =
     (case validate_request q of
        Inl e \<Rightarrow> (d, Err (Inr e))
      | Inr q \<Rightarrow>
          if q_driver q \<noteq> SimulatorKind then (d, Err (Inl (XeText ''demo sessions may only start simulator runs'')))
          else apsnd (map_sum Inl id) (prepare_internal env (Some session) q d))"

end
