(* ===== verification/Execute.thy ===== *)
theory Execute
  imports Prepare
begin

text \<open>
  Executing a prepared tune (\<open>bhtune-runtime/src/tune/prepare.rs\<close>, \<open>drive_report\<close> and
  \<open>execute_with_timing\<close>; \<open>tune/timing.rs\<close>): the initial readings, the transition, the polling loop, the
  restore, the write-back and the terminal row.

  An owned run goes through the audited driver of its ownership; a run without ownership (the
  simulator) uses the same state with the guard left alone.  The polling loop and the restore are
  the models of \<open>Poll\<close> and \<open>Restore\<close>: their inputs, and what the loop leaves in the driver, are
  inputs here too.  Both work on the run tables; the driver keeps the ownership tables; the one
  database is put together again after each.  The answer is \<open>None\<close> when a panic ends the run or the
  given inputs do not carry it to its end.
\<close>

section \<open>One database\<close>

definition join_db :: "db \<Rightarrow> db \<Rightarrow> db" where
  "join_db run own = run\<lparr>owners := owners own, owners_seq := owners_seq own, claims := claims own,
     steps := steps own, steps_seq := steps_seq own\<rparr>"

definition with_run_db :: "db \<Rightarrow> 'd audited_driver \<Rightarrow> 'd audited_driver" where
  "with_run_db d s = s\<lparr>au_db := join_db d (au_db s)\<rparr>"

section \<open>Context, input, state\<close>

record 'd exec_ctx =
  xc_ctl :: "'d controller"
  xc_owned :: bool
  xc_run_id :: int
  xc_request :: tune_request
  xc_template :: dcs_template
  xc_tags :: loop_tags
  xc_config :: loop_config
  xc_timing :: effective_timing
  xc_anchor :: time_anchor
  xc_allow :: bool
  xc_handler :: "write_back_handler option"
  xc_utc_max :: timestamp
  xc_intent :: "initial_state \<Rightarrow> string"
  xc_text :: "exec_error \<Rightarrow> string"
  xc_abort_text :: "abort_reason \<Rightarrow> string"

record 'd exec_input =
  xi_poll_now :: instant
  xi_events :: "poll_event list"
  xi_polled :: "'d audited_driver \<Rightarrow> 'd audited_driver"
  xi_restore :: restore_input

record 'd exec_state =
  xs_driver :: "'d audited_driver"
  xs_results :: result_table
  xs_samples :: "sample_row list"
  xs_told :: "handler_call list"

abbreviation xc_jv :: "'d exec_ctx \<Rightarrow> string \<Rightarrow> bool" where
  "xc_jv x \<equiv> js_valid (co_js (xc_ctl x))"

abbreviation xc_lib :: "'d exec_ctx \<Rightarrow> report_lib" where
  "xc_lib x \<equiv> report_lib.truncate (co_lib (xc_ctl x))"

definition run_get_op :: "'d exec_ctx \<Rightarrow> 'd audited_driver get" where
  "run_get_op x = audited_read (co_get (xc_ctl x))"

definition run_put_op :: "'d exec_ctx \<Rightarrow> 'd audited_driver put" where
  "run_put_op x =
     (let c = xc_ctl x
      in if xc_owned x then audited_write (co_js c) (co_el c) (co_put c) (Some (xc_run_id x))
         else (\<lambda>tag w s. let (i, r) = co_put c tag w (au_inner s) in (s\<lparr>au_inner := i\<rparr>, r)))"

definition run_now :: "'d exec_state \<Rightarrow> 'd exec_state \<times> timestamp" where
  "run_now s = (let (d, t) = co_now (xs_driver s) in (s\<lparr>xs_driver := d\<rparr>, t))"

text \<open>A database call of the run.\<close>

definition on_db :: "(db \<Rightarrow> db \<times> ('e, 'a) result) \<Rightarrow> 'd exec_state \<Rightarrow> 'd exec_state \<times> ('e, 'a) result" where
  "on_db f s = (let (d, r) = f (au_db (xs_driver s)) in (s\<lparr>xs_driver := (xs_driver s)\<lparr>au_db := d\<rparr>\<rparr>, r))"

section \<open>Around the restore\<close>

definition restore_ctx_of :: "'d exec_ctx \<Rightarrow> initial_state \<Rightarrow> mutation_guard \<Rightarrow> restore_ctx" where
  "restore_ctx_of x i g =
     \<lparr> rx_run_id = xc_run_id x, rx_request = xc_request x, rx_timing = xc_timing x, rx_tags = xc_tags x,
       rx_template = xc_template x, rx_initial = i, rx_guard = g, rx_allow = xc_allow x,
       rx_parse = co_parse (xc_ctl x), rx_utc_max = xc_utc_max x, rx_lib = xc_lib x \<rparr>"

definition attempt_and_record_restore ::
  "'d exec_ctx \<Rightarrow> restore_ctx \<Rightarrow> restore_input \<Rightarrow> mv_tracker option \<Rightarrow> completed_poll option \<Rightarrow> f64 option \<Rightarrow> poll_timing option
   \<Rightarrow> 'd exec_state \<Rightarrow> ('d exec_state \<times> poll_timing option \<times> restore_attempt) option" where
  "attempt_and_record_restore x rx i tr completion period acc s =
     (let e = attempt_restore (run_put_op x) rx AuditBestEffort period i completion acc (xs_driver s) tr (au_db (xs_driver s))
      in case re_attempt e of
           None \<Rightarrow> None
         | Some a \<Rightarrow>
             (let d1 = record_restore_status_best_effort (xc_jv x) (xc_run_id x) a (rv_db (re_state e));
                  d2 = finalize_pending_for_run_best_effort (xc_run_id x) ''the run ended before MV confirmation completed'' d1
              in Some (s\<lparr>xs_driver := with_run_db d2 (rv_driver (re_state e)), xs_samples := xs_samples s @ re_samples e\<rparr>,
                       re_timing e, a)))"

definition record_timing_metrics_if_present :: "'d exec_ctx \<Rightarrow> timing_metrics option \<Rightarrow> 'd exec_state \<Rightarrow> 'd exec_state" where
  "record_timing_metrics_if_present x m s =
     (case m of None \<Rightarrow> s | Some m \<Rightarrow> fst (on_db (record_timing_metrics (xc_jv x) (xc_run_id x) m) s))"

definition completed_oscillation_period_ms ::
  "(run_error, poll_outcome) result \<Rightarrow> controller_direction \<Rightarrow> loop_config \<Rightarrow> pv_range \<Rightarrow> f64 option option" where
  "completed_oscillation_period_ms r direction config pvr =
     (case r of
        Inr (PollCompleted c) \<Rightarrow>
          (case cp_action c of
             Complete peaks troughs ts sign \<Rightarrow>
               map_option (\<lambda>os. Some (fl_mul B64 (os_period_minutes os) (lit64 60000)))
                 (measure_oscillation peaks troughs ts sign direction config pvr)
           | _ \<Rightarrow> Some None)
      | _ \<Rightarrow> Some None)"

section \<open>The three ends\<close>

type_synonym 'd ended = "('d exec_state \<times> (exec_error, run_outcome) result) option"

definition finish_completed_run ::
  "'d exec_ctx \<Rightarrow> 'd exec_input \<Rightarrow> initial_state \<Rightarrow> mutation_guard \<Rightarrow> mv_tracker option \<Rightarrow> completed_poll \<Rightarrow> poll_timing
   \<Rightarrow> f64 option \<Rightarrow> 'd exec_state \<Rightarrow> 'd ended" where
  "finish_completed_run x inp init g tr completion acc period s =
     (let rid = xc_run_id x; c = xc_ctl x; rx = restore_ctx_of x init g;
          pvr = \<lparr> pv_high = is_pv_range_high init, pv_low = is_pv_range_low init \<rparr>;
          (rt, results) = persist_results (co_lib c) (co_float c) (map run_id (runs (au_db (xs_driver s)))) rid
             (cp_action completion) (is_direction init) (xc_config x) pvr (xc_template x) (xs_results s);
          s1 = s\<lparr>xs_results := rt\<rparr>;
          restored = attempt_and_record_restore x rx (xi_restore inp) tr (Some completion) period (Some acc) s1
      in case results of
           None \<Rightarrow> None
         | Some (Inl e) \<Rightarrow>
             map_option (\<lambda>(s2, acc', _).
                (record_timing_metrics_if_present x (Option.bind acc' (pt_finish None)) s2, Err (XeWrite e))) restored
         | Some (Inr previews) \<Rightarrow>
             map_option (\<lambda>(s2, acc', a).
               let (s3, now) = run_now s2
               in and_then (apsnd (map_sum XeDb id)
                    (on_db (complete_with_timing_metrics (xc_jv x) rid now (Option.bind acc' (pt_finish period))) s3)) (\<lambda>_ s4.
                  let s5 = s4\<lparr>xs_told := xs_told s4 @ (if xc_handler x = None then [] else [PidResultsReady previews])\<rparr>
                  in case a of
                       AttemptIncomplete reason \<Rightarrow> (s5, Ok (RoRestoreIncomplete reason))
                     | AttemptConfirmed \<Rightarrow>
                         (let (d, told, r) = maybe_write_back_with_owner c rid (xc_tags x) (xc_template x)
                                (lc_controller_type (xc_config x)) (q_write_pid (xc_request x)) (xc_allow x) (xc_handler x)
                                (xc_owned x) (xs_results s5) (xs_driver s5)
                          in (s5\<lparr>xs_driver := d, xs_told := xs_told s5 @ told\<rparr>,
                              map_sum XeWrite (\<lambda>(wb, detail). RoCompleted wb detail) r)))) restored)"

definition finish_aborted_run ::
  "'d exec_ctx \<Rightarrow> 'd exec_input \<Rightarrow> initial_state \<Rightarrow> mutation_guard \<Rightarrow> mv_tracker option \<Rightarrow> abort_reason \<Rightarrow> timing_metrics option
   \<Rightarrow> 'd exec_state \<Rightarrow> 'd ended" where
  "finish_aborted_run x inp init g tr reason metrics s =
     map_option (\<lambda>(s1, _, a).
       let (s2, now) = run_now s1; jv = xc_jv x; rid = xc_run_id x
       in and_then (apsnd (map_sum XeDb id)
            (on_db (case reason of
                MvActuationUnconfirmed _ _ _ _ _ _ \<Rightarrow> abort_with_timing_metrics_and_reason jv rid now metrics (xc_abort_text x reason)
              | _ \<Rightarrow> abort_with_timing_metrics jv rid now metrics) s2)) (\<lambda>_ s3.
          (s3, Ok (case a of
             AttemptConfirmed \<Rightarrow> RoAborted reason
           | AttemptIncomplete why \<Rightarrow> RoRestoreIncomplete (''run aborted ('' @ rl_reason (xc_lib x) reason @ ''); '' @ why)))))
       (attempt_and_record_restore x (restore_ctx_of x init g) (xi_restore inp) tr None None None s)"

text \<open>\<open>restore_best_effort_then_propagate\<close> over the state of a run.\<close>

definition propagate_after_restore ::
  "'d exec_ctx \<Rightarrow> 'd exec_input \<Rightarrow> initial_state \<Rightarrow> mutation_guard \<Rightarrow> mv_tracker option \<Rightarrow> run_error \<Rightarrow> 'd exec_state \<Rightarrow> 'd ended" where
  "propagate_after_restore x inp init g tr err s =
     map_option (\<lambda>(e, d, err).
         (s\<lparr>xs_driver := with_run_db d (rv_driver (re_state e)), xs_samples := xs_samples s @ re_samples e\<rparr>, Err (XeRun err)))
       (restore_best_effort_then_propagate (xc_jv x) (run_put_op x) (restore_ctx_of x init g) (xi_restore inp)
          (xs_driver s) tr (au_db (xs_driver s)) err)"

definition finish_failed_run ::
  "'d exec_ctx \<Rightarrow> 'd exec_input \<Rightarrow> initial_state \<Rightarrow> mutation_guard \<Rightarrow> mv_tracker option \<Rightarrow> run_error \<Rightarrow> timing_metrics option
   \<Rightarrow> 'd exec_state \<Rightarrow> 'd ended" where
  "finish_failed_run x inp init g tr err metrics s =
     map_option (\<lambda>(s1, r). (record_timing_metrics_if_present x metrics s1, r)) (propagate_after_restore x inp init g tr err s)"

section \<open>The run\<close>

definition poll_ctx_of :: "'d exec_ctx \<Rightarrow> poll_ctx" where
  "poll_ctx_of x =
     \<lparr> px_run_id = xc_run_id x, px_timing = xc_timing x, px_tags = xc_tags x, px_allow = xc_allow x,
       px_pre_delay_end = an_utc (xc_anchor x) + secs (unat (f_mrft_delay_secs (xc_timing x))),
       px_noise_secs = lc_noise_protection_secs (xc_config x), px_utc_max = xc_utc_max x,
       px_parse = co_parse (xc_ctl x), px_lib = text_lib.truncate (co_lib (xc_ctl x)) \<rparr>"

definition readings_row :: "initial_state \<Rightarrow> run_initial_readings" where
  "readings_row i =
     \<lparr> ri_pv_ini = is_pv_ini i, ri_mv_ini = is_mv_ini i, ri_mv_range_low = is_mv_range_low i,
       ri_mv_range_high = is_mv_range_high i, ri_pv_range_high = is_pv_range_high i, ri_pv_range_low = is_pv_range_low i,
       ri_controller_direction = is_direction i, mode_raw = is_mode_raw i, mode_attribute_raw = is_mode_attribute_raw i,
       setpoint_ini = is_setpoint_ini i \<rparr>"

definition engine_of :: "'d exec_ctx \<Rightarrow> initial_state \<Rightarrow> mrft_engine" where
  "engine_of x i =
     engine_new (xc_config x) (is_direction i)
       (tc_beta (lookup (lc_process_type (xc_config x)) (lc_controller_type (xc_config x)) Aggressive))
       \<lparr> ir_pv_ini = is_pv_ini i, ir_mv_ini = is_mv_ini i, ir_mv_range_low = is_mv_range_low i,
         ir_mv_range_high = is_mv_range_high i \<rparr> (an_utc (xc_anchor x))"

text \<open>Everything before the first change to the loop.\<close>

definition ready_run :: "'d exec_ctx \<Rightarrow> 'd exec_state \<Rightarrow> 'd exec_state \<times> (exec_error, initial_state) result" where
  "ready_run x s =
     (let (d, r) = read_initial_values (co_parse (xc_ctl x)) (run_get_op x) (xc_tags x) (xc_template x) (xc_allow x) (xs_driver s)
      in and_then (s\<lparr>xs_driver := d\<rparr>, map_err XeRun r) (\<lambda>i s.
         and_then (s, validate_initial_state i) (\<lambda>_ s.
         and_then (s, map_err XeRun (validate_relay_actuation_step (xc_request x) (xc_config x) i)) (\<lambda>_ s.
         and_then (apsnd (map_sum XeDb id) (on_db (record_initial_readings (xc_jv x) (xc_run_id x) (readings_row i)) s)) (\<lambda>_ s.
         and_then (if xc_owned x
             then apsnd (map_sum XeLive id)
               (on_db (persist_restore_intent (co_js (xc_ctl x)) (xc_intent x i) (au_guard (xs_driver s))) s)
             else (s, Ok ())) (\<lambda>_ s. (s, Ok i)))))))"

definition polled_run ::
  "'d exec_ctx \<Rightarrow> 'd exec_input \<Rightarrow> initial_state \<Rightarrow> mutation_guard \<Rightarrow> mv_tracker option \<Rightarrow> 'd exec_state \<Rightarrow> 'd ended" where
  "polled_run x inp i g tr s =
     (let acc0 = poll_timing_new (case q_driver (xc_request x) of OpcdaKind \<Rightarrow> LiveMonotonic | SimulatorKind \<Rightarrow> SimulatedFixedStep)
            (f_poll_interval_ms (xc_timing x));
          pvr = \<lparr> pv_high = is_pv_range_high i, pv_low = is_pv_range_low i \<rparr>
      in case poll_start (poll_ctx_of x) (xc_request x) (xc_anchor x) (xi_poll_now inp) (engine_of x i) tr acc0 (au_db (xs_driver s)) of
           Inl e \<Rightarrow> finish_failed_run x inp i g tr e (pt_finish None acc0) s
         | Inr p0 \<Rightarrow>
             (let (p, exit) = poll_loop (poll_ctx_of x) (xi_events inp) p0;
                  s1 = s\<lparr>xs_driver := with_run_db (ps_db p) (xi_polled inp (xs_driver s)), xs_samples := xs_samples s @ ps_samples p\<rparr>;
                  g1 = g\<lparr>mg_mv_written := mg_mv_written g \<or> ps_mv_written p\<rparr>
              in case poll_result p exit of
                   None \<Rightarrow> None
                 | Some r \<Rightarrow>
                     (case completed_oscillation_period_ms r (is_direction i) (xc_config x) pvr of
                        None \<Rightarrow> None
                      | Some period \<Rightarrow>
                          (case r of
                             Inr (PollCompleted c) \<Rightarrow> finish_completed_run x inp i g1 (ps_tracker p) c (ps_acc p) period s1
                           | Inr (PollRunAborted reason) \<Rightarrow>
                               finish_aborted_run x inp i g1 (ps_tracker p) reason (pt_finish None (ps_acc p)) s1
                           | Inl e \<Rightarrow> finish_failed_run x inp i g1 (ps_tracker p) e (pt_finish None (ps_acc p)) s1))))"

definition execute_with_timing :: "'d exec_ctx \<Rightarrow> 'd exec_input \<Rightarrow> 'd exec_state \<Rightarrow> 'd ended" where
  "execute_with_timing x inp s0 =
     (case ready_run x s0 of
        (s, Inl e) \<Rightarrow> Some (s, Err e)
      | (s, Inr i) \<Rightarrow>
          (let tr = tracker_for_run (xc_request x) i;
               ((d, g), r) = transition_to_manual (run_put_op x) (xc_tags x) (xc_template x) i guard_default (xs_driver s);
               s1 = s\<lparr>xs_driver := d\<rparr>
           in case r of
                Inl e \<Rightarrow> propagate_after_restore x inp i g tr e s1
              | Inr _ \<Rightarrow> polled_run x inp i g tr s1))"

section \<open>Driving the run\<close>

text \<open>The ownership is released only after the run's end is on record.\<close>

definition release_if_owned :: "'d exec_ctx \<Rightarrow> 'd exec_state \<Rightarrow> 'd exec_state \<times> (live_error, unit) result" where
  "release_if_owned x s =
     (if xc_owned x then
        (let (s1, now) = run_now s
         in on_db (release_guard (co_js (xc_ctl x)) now (au_guard (xs_driver s1))) s1)
      else (s, Ok ()))"

definition drive_report :: "'d exec_ctx \<Rightarrow> 'd exec_input \<Rightarrow> 'd exec_state \<Rightarrow> 'd ended" where
  "drive_report x inp s0 =
     (case execute_with_timing x inp s0 of
        None \<Rightarrow> None
      | Some (s, Inr out) \<Rightarrow>
          Some (and_then (apsnd (map_sum XeLive id) (release_if_owned x s)) (\<lambda>_ s. (s, Ok out)))
      | Some (s, Inl e) \<Rightarrow>
          (let s1 = fst (on_db (\<lambda>d. (finalize_pending_for_run_best_effort (xc_run_id x)
                 ''the run failed before MV confirmation completed'' d, Ok () :: (unit, unit) result)) s);
               (s2, now) = run_now s1
           in case on_db (run_fail (xc_jv x) (xc_run_id x) now (xc_text x e)) s2 of
                (s3, Inl d) \<Rightarrow>
                  Some (s3, Err (XeAlso e ''; additionally failed to persist the terminal run failure: '' (XeDb d)))
              | (s3, Inr _) \<Rightarrow>
                  (case release_if_owned x s3 of
                     (s4, Inl l) \<Rightarrow>
                       Some (s4, Err (XeAlso e ''; additionally failed to persist live ownership release: '' (XeLive l)))
                   | (s4, Inr _) \<Rightarrow> Some (s4, Err e))))"

text \<open>The coarse outcome.\<close>

definition drive_tune :: "'d exec_ctx \<Rightarrow> 'd exec_input \<Rightarrow> 'd exec_state \<Rightarrow> ('d exec_state \<times> (exec_error, tune_exit) result) option" where
  "drive_tune x inp s =
     map_option (apsnd (map_sum id tune_outcome_for_run)) (drive_report (x\<lparr>xc_handler := None\<rparr>) inp s)"

end
