(* ===== verification/Recovery_Evidence.thy ===== *)
theory Recovery_Evidence
  imports Execute "HOL-Library.Finite_Map"
begin

text \<open>
  What a recovery goes by (\<open>bhtune-runtime/src/tune/recovery.rs\<close>): the restore intent and the recorded
  mutations, the eligibility of an interrupted run, the state to restore rebuilt from the run's row,
  and the report on the steps of a restore.

  A JSON document is a value of the type below, as \<open>serde_json\<close>'s \<open>Value\<close>: an integer and a floating
  point number are never equal.  Parsing a text into a value is a parameter, as is the text of a
  number.
\<close>

section \<open>JSON values\<close>

datatype json = JNull | JBool bool | JInt int | JFloat fl | JStr string | JArr "json list" | JObj "(string, json) fmap"

record recovery_lib =
  rc_parse :: "string \<Rightarrow> json option"
  rc_label :: "json \<Rightarrow> string"    \<comment> \<open>the text of a value that is not a string\<close>
  rc_num :: "int \<Rightarrow> string"
  rc_f32 :: "f32 \<Rightarrow> string"
  rc_status :: "mutation_step_status \<Rightarrow> string"
  rc_actuation :: "mv_actuation_status \<Rightarrow> string"
  rc_config :: "config_error \<Rightarrow> string"
  rc_loop :: "loop_config_error \<Rightarrow> string"
  rc_db :: "db_error \<Rightarrow> string"
  rc_time :: "timestamp \<Rightarrow> json"
  rc_debug :: "string \<Rightarrow> string"

fun jget :: "string \<Rightarrow> json \<Rightarrow> json option" where
  "jget k (JObj m) = fmlookup m k"
| "jget k _ = None"

fun as_str :: "json \<Rightarrow> string option" where
  "as_str (JStr s) = Some s"
| "as_str _ = None"

fun as_f64 :: "json \<Rightarrow> f64 option" where
  "as_f64 (JInt n) = Some (fl_round B64 False (of_int n))"
| "as_f64 (JFloat v) = Some v"
| "as_f64 _ = None"

definition as_u64 :: "json \<Rightarrow> int option" where
  "as_u64 j = (case j of JInt n \<Rightarrow> if 0 \<le> n \<and> n < 2 ^ 64 then Some n else None | _ \<Rightarrow> None)"

definition as_i64 :: "json \<Rightarrow> int option" where
  "as_i64 j = (case j of JInt n \<Rightarrow> if - (2 ^ 63) \<le> n \<and> n < 2 ^ 63 then Some n else None | _ \<Rightarrow> None)"

text \<open>How the values of a row become JSON: a float that is not finite becomes null.\<close>

definition float_json :: "f32 \<Rightarrow> json" where
  "float_json v = (if is_finite v then JFloat v else JNull)"

definition option_json :: "('a \<Rightarrow> json) \<Rightarrow> 'a option \<Rightarrow> json" where
  "option_json f x = (case x of None \<Rightarrow> JNull | Some a \<Rightarrow> f a)"

definition direction_json :: "controller_direction \<Rightarrow> json" where
  "direction_json d = JStr (case d of Direct \<Rightarrow> ''direct'' | Reverse \<Rightarrow> ''reverse'')"

definition readings_json :: "run_initial_readings \<Rightarrow> json" where
  "readings_json r = JObj (fmap_of_list
     [(''pv_ini'', float_json (ri_pv_ini r)), (''mv_ini'', float_json (ri_mv_ini r)),
      (''mv_range_low'', float_json (ri_mv_range_low r)), (''mv_range_high'', float_json (ri_mv_range_high r)),
      (''pv_range_high'', float_json (ri_pv_range_high r)), (''pv_range_low'', float_json (ri_pv_range_low r)),
      (''controller_direction'', direction_json (ri_controller_direction r)),
      (''mode_raw'', option_json JStr (mode_raw r)), (''mode_attribute_raw'', option_json JStr (mode_attribute_raw r)),
      (''setpoint_ini'', option_json float_json (setpoint_ini r))])"

definition policy_json :: "dcs_template \<Rightarrow> json" where
  "policy_json t = JObj (fmap_of_list
     [(''revert_mode'', JBool (t_revert_mode t)), (''mode_auto_value'', JStr (t_mode_auto_value t)),
      (''mode_manual_value'', JStr (t_mode_manual_value t)),
      (''mode_attribute_program_value'', option_json JStr (t_mode_attribute_program_value t))])"

text \<open>The intent a tune records once its readings are known (\<open>execute_with_timing\<close>).\<close>

definition ready_intent :: "int \<Rightarrow> string \<Rightarrow> run_initial_readings \<Rightarrow> dcs_template \<Rightarrow> json" where
  "ready_intent rid mv r t = JObj (fmap_of_list
     [(''version'', JInt 1), (''kind'', JStr ''tune_restore''), (''run_id'', JInt rid), (''state'', JStr ''ready_to_restore''),
      (''mv_tag'', JStr mv), (''initial_readings'', readings_json r), (''template_policy'', policy_json t)])"

section \<open>The restore intent\<close>

definition validate_restore_intent :: "recovery_lib \<Rightarrow> tune_run_row \<Rightarrow> string \<Rightarrow> run_initial_readings \<Rightarrow> (string, unit) result" where
  "validate_restore_intent lib run text initial =
     (case rc_parse lib text of
        None \<Rightarrow> Err ''persisted restore intent is not valid JSON''
      | Some intent \<Rightarrow>
          if Option.bind (jget ''version'' intent) as_u64 \<noteq> Some 1 \<or>
             Option.bind (jget ''kind'' intent) as_str \<noteq> Some ''tune_restore'' \<or>
             Option.bind (jget ''run_id'' intent) as_i64 \<noteq> Some (run_id run) \<or>
             Option.bind (jget ''state'' intent) as_str \<noteq> Some ''ready_to_restore'' \<or>
             Option.bind (jget ''mv_tag'' intent) as_str \<noteq> Some (g_manipulated_variable (run_tags run)) \<or>
             jget ''initial_readings'' intent \<noteq> Some (readings_json initial) \<or>
             jget ''template_policy'' intent \<noteq> Some (policy_json (run_template run))
          then Err (''durable restore intent does not exactly match the run'' @ [CHR 39] @ ''s recorded readings, tags, template policy, and version'')
          else Ok ())"

section \<open>The recorded mutations\<close>

definition CONTROLLER_WRITE :: string where "CONTROLLER_WRITE = ''controller_write''"

definition parse_write_target :: "recovery_lib \<Rightarrow> string \<Rightarrow> (string \<times> json) option" where
  "parse_write_target lib text =
     Option.bind (rc_parse lib text) (\<lambda>target.
     Option.bind (Option.bind (jget ''tag'' target) as_str) (\<lambda>tag.
     map_option (\<lambda>v. (tag, v)) (jget ''value'' target)))"

definition was_written :: "recovery_lib \<Rightarrow> live_mutation_step_row list \<Rightarrow> string option \<Rightarrow> json option \<Rightarrow> bool" where
  "was_written lib sts tag expected =
     (case tag of
        None \<Rightarrow> False
      | Some tag \<Rightarrow> list_ex (\<lambda>s. step_name s = CONTROLLER_WRITE \<and> ms_status s \<noteq> NotNeeded \<and>
          (case parse_write_target lib (target_json s) of
             None \<Rightarrow> False
           | Some (t, v) \<Rightarrow> t = tag \<and> (case expected of None \<Rightarrow> True | Some e \<Rightarrow> e = v))) sts)"

definition recovery_guard :: "recovery_lib \<Rightarrow> tune_run_row \<Rightarrow> live_mutation_step_row list \<Rightarrow> mutation_guard" where
  "recovery_guard lib run sts =
     (let g = run_tags run; t = run_template run
      in \<lparr> mg_mode_attribute_written = was_written lib sts (g_mode_attribute g) (map_option JStr (t_mode_attribute_program_value t)),
           mg_mode_written = was_written lib sts (g_controller_mode g) (Some (JStr (t_mode_manual_value t))),
           mg_mv_written = was_written lib sts (Some (g_manipulated_variable g)) None \<rparr>)"

section \<open>What is rebuilt from the row\<close>

definition initial_state_from_readings :: "run_initial_readings \<Rightarrow> initial_state" where
  "initial_state_from_readings r =
     \<lparr> is_pv_ini = ri_pv_ini r, is_mv_ini = ri_mv_ini r, is_pv_range_high = ri_pv_range_high r, is_pv_range_low = ri_pv_range_low r,
       is_mv_range_high = ri_mv_range_high r, is_mv_range_low = ri_mv_range_low r, is_direction = ri_controller_direction r,
       is_mode_raw = mode_raw r, is_mode_attribute_raw = mode_attribute_raw r, is_setpoint_ini = setpoint_ini r \<rparr>"

definition recovered_initial_state :: "recovery_lib \<Rightarrow> tune_run_row \<Rightarrow> (string, initial_state) result" where
  "recovered_initial_state lib run =
     (case run_initial_readings run of
        None \<Rightarrow> Err (''run '' @ rc_num lib (run_id run) @ '' has no recorded initial readings'')
      | Some r \<Rightarrow> Ok (initial_state_from_readings r))"

definition recovery_timing :: "recovery_lib \<Rightarrow> tune_run_row \<Rightarrow> (string, effective_timing) result" where
  "recovery_timing lib run =
     (case run_effective_tuning run of
        None \<Rightarrow> Err (''run '' @ rc_num lib (run_id run) @ '' has no saved timing policy'')
      | Some e \<Rightarrow>
          if et_poll_interval_ms e = 0 \<or> et_op_timeout_secs e = 0
          then Err (''run '' @ rc_num lib (run_id run) @ '' has invalid saved poll/operation timing; recovery is blocked'')
          else bind_result (map_sum (rc_config lib) id (validate_restore_timeout_secs OpcdaKind (et_restore_timeout_secs e))) (\<lambda>_.
            Ok \<lparr> f_mrft_delay_secs = et_mrft_delay_secs e, f_poll_interval_ms = et_poll_interval_ms e,
                 f_timeout_secs = et_timeout_secs e, f_op_timeout_secs = et_op_timeout_secs e,
                 f_restore_timeout_secs = et_restore_timeout_secs e \<rparr>))"

section \<open>Eligibility\<close>

definition recovery_provenance :: "tune_run_row \<Rightarrow> live_ownership_row \<Rightarrow> bool" where
  "recovery_provenance run ow \<longleftrightarrow>
     driver run = Opcda \<and>
     (outcome run = OutRunning \<or> outcome run = OutFailed \<and> recovery_state run \<in> {Some RecEligible, Some RecIncomplete}) \<and>
     operation_kind ow = KTune \<and> lo_run_id ow = Some (run_id run)"

definition readings_complete :: "tune_run_row \<Rightarrow> run_initial_readings \<Rightarrow> bool" where
  "readings_complete run r \<longleftrightarrow>
     is_ok (validate_initial_state (initial_state_from_readings r)) \<and> is_finite (ri_pv_ini r) \<and>
     (case setpoint_ini r of None \<Rightarrow> True | Some v \<Rightarrow> is_finite v) \<and>
     \<not> (g_controller_mode (run_tags run) \<noteq> None \<and> mode_raw r = None) \<and>
     \<not> (g_mode_attribute (run_tags run) \<noteq> None \<and> mode_attribute_raw r = None)"

text \<open>The loop over the controller writes: a target that does not parse ends it at once.\<close>

fun mutation_seen :: "recovery_lib \<Rightarrow> string list \<Rightarrow> live_mutation_step_row list \<Rightarrow> bool \<Rightarrow> bool option" where
  "mutation_seen lib allowed [] seen = Some seen"
| "mutation_seen lib allowed (s # sts) seen =
     (if step_name s \<noteq> CONTROLLER_WRITE \<or> ms_status s = NotNeeded then mutation_seen lib allowed sts seen
      else case parse_write_target lib (target_json s) of
             None \<Rightarrow> None
           | Some (tag, _) \<Rightarrow> mutation_seen lib allowed sts (seen \<or> tag \<in> set allowed))"

definition recovery_eligibility ::
  "recovery_lib \<Rightarrow> tune_run_row \<Rightarrow> live_ownership_row \<Rightarrow> live_mutation_step_row list \<Rightarrow> bool \<times> string" where
  "recovery_eligibility lib run ow sts =
     (let g = run_tags run; t = run_template run; no = (\<lambda>why. (False, why))
      in if \<not> recovery_provenance run ow then no ''run and owner provenance does not identify a running OPC DA tune''
         else if bridge_host run \<in> {None, Some []} \<or> opc_server run \<in> {None, Some []}
           then no ''recorded bridge host or OPC server is missing''
         else (case run_initial_readings run of
             None \<Rightarrow> no ''initial controller readings are missing''
           | Some r \<Rightarrow>
         if t_revert_mode t \<and> g_controller_mode g \<noteq> None \<and> mode_raw r = Some (t_mode_auto_value t) \<and>
            g_setpoint_variable g \<noteq> None \<and> setpoint_ini r = None
           then no ''the configured setpoint tag has no recorded initial value''
         else (case restore_intent_json ow of
             None \<Rightarrow> no ''durable restore intent is missing''
           | Some text \<Rightarrow>
         (case validate_restore_intent lib run text r of
             Inl e \<Rightarrow> no e
           | Inr _ \<Rightarrow>
         if run_effective_tuning run = None then no ''recorded restore timing policy is missing''
         else (case recovery_timing lib run of
             Inl e \<Rightarrow> no (''recorded restore timing policy is invalid: '' @ e)
           | Inr _ \<Rightarrow>
         (case loop_config_validate (run_config run) of
             Inl e \<Rightarrow> no (''recorded loop configuration is invalid: '' @ rc_loop lib e)
           | Inr _ \<Rightarrow>
         if \<not> readings_complete run r
           then no ''persisted initial readings fail range, finiteness, or tagged-mode validation''
         else (case mutation_seen lib (g_manipulated_variable g # opt_list (g_controller_mode g) @ opt_list (g_mode_attribute g) @
                      opt_list (g_setpoint_variable g)) sts False of
             None \<Rightarrow> no ''a controller-write audit target is malformed''
           | Some False \<Rightarrow> no (''no durable audit records a possible mutation to the loop'' @ [CHR 39] @ ''s MV, mode, setpoint, or mode attribute'')
           | Some True \<Rightarrow> (True, ''complete structured restore and mutation evidence is present''))))))))"

section \<open>The run and its source\<close>

definition load_recovery_run :: "recovery_lib \<Rightarrow> int \<Rightarrow> db \<Rightarrow> (string, tune_run_row) result" where
  "load_recovery_run lib rid d =
     (case run_get rid d of
        None \<Rightarrow> Err (''no run with id '' @ rc_num lib rid)
      | Some run \<Rightarrow>
          if driver run \<noteq> Opcda
          then Err (''run '' @ rc_num lib rid @ '' used the '' @ (case driver run of Opcda \<Rightarrow> ''Opcda'' | Simulator \<Rightarrow> ''Simulator'' | Replay \<Rightarrow> ''Replay'')
                 @ '' driver; only a live OPC DA tune can be restored'')
          else if outcome run \<noteq> OutFailed \<or> recovery_state run \<notin> {Some RecEligible, Some RecIncomplete}
          then Err (''run '' @ rc_num lib rid @ '' is not an explicitly eligible orphaned run; legacy and active rows fail closed'')
          else Ok run)"

definition eligible_orphan :: "int \<Rightarrow> live_ownership_row \<Rightarrow> bool" where
  "eligible_orphan rid ow \<longleftrightarrow> operation_kind ow = KTune \<and> lo_run_id ow = Some rid \<and> lo_state ow = Orphaned \<and> orphan_eligible ow"

definition recovery_source_owner :: "recovery_lib \<Rightarrow> tune_run_row \<Rightarrow> db \<Rightarrow> (string, live_ownership_row) result" where
  "recovery_source_owner lib run d =
     (case filter (eligible_orphan (run_id run)) (owners_for_run (run_id run) d) of
        [ow] \<Rightarrow> Ok ow
      | ows \<Rightarrow> Err (''run '' @ rc_num lib (run_id run) @ '' has '' @ rc_num lib (int (length ows)) @
             '' eligible orphan ownership records; exactly one is required''))"

definition validate_recovery_run ::
  "recovery_lib \<Rightarrow> tune_run_row \<Rightarrow> live_ownership_row \<Rightarrow> live_mutation_step_row list \<Rightarrow> (string, unit) result" where
  "validate_recovery_run lib run source sts =
     (if \<not> eligible_orphan (run_id run) source
      then Err (''run '' @ rc_num lib (run_id run) @ '' has no matching eligible orphaned tune owner; recovery is blocked'')
      else (case recovery_eligibility lib run source sts of
              (True, _) \<Rightarrow> Ok ()
            | (False, detail) \<Rightarrow> Err (''run '' @ rc_num lib (run_id run) @ '' lacks complete structured restore evidence ('' @ detail @
                 ''); use operator-guided manual restore'')))"

text \<open>\<open>resolve_revert_connection\<close> (\<open>history.rs\<close>): only the recorded connection, which a flag may confirm.\<close>

definition resolve_revert_connection ::
  "recovery_lib \<Rightarrow> tune_run_row \<Rightarrow> string option \<Rightarrow> string option \<Rightarrow> (string, string \<times> string) result" where
  "resolve_revert_connection lib run host_flag server_flag =
     (let rid = rc_num lib (run_id run)
      in case opc_server run of
           None \<Rightarrow> Err (''run '' @ rid @ [CHR 39] @ ''s recorded OPC server is missing; refusing to guess which server to revert against'')
         | Some server \<Rightarrow>
             (case bridge_host run of
                None \<Rightarrow> Err (''run '' @ rid @ [CHR 39] @ ''s recorded bridge host is missing; refusing to guess which gateway to revert against'')
              | Some host \<Rightarrow>
                  if server_flag \<notin> {None, Some server}
                  then Err (''--server '' @ rc_debug lib (the server_flag) @ '' contradicts run '' @ rid @ [CHR 39] @ ''s recorded OPC server '' @
                    rc_debug lib server @ ''; refusing to revert against a different server than the run actually used -- '' @
                    ''omit --server to use the recorded value'')
                  else if host_flag \<notin> {None, Some host}
                  then Err (''--bridge-host '' @ rc_debug lib (the host_flag) @ '' contradicts run '' @ rid @ [CHR 39] @ ''s recorded bridge host '' @
                    rc_debug lib host @ ''; refusing to revert through a different gateway than the run actually used -- '' @
                    ''omit --bridge-host to use the recorded value'')
                  else Ok (host, server)))"

definition DEFAULT_SIM_SEED :: nat where "DEFAULT_SIM_SEED = 0"

definition recovery_request :: "tune_run_row \<Rightarrow> string \<Rightarrow> string \<Rightarrow> initial_state \<Rightarrow> tune_request" where
  "recovery_request run host server i =
     (let c = run_config run
      in \<lparr> q_tagname = loop_name run, q_template = t_name (run_template run), q_process_type = lc_process_type c,
           q_controller_type = lc_controller_type c, q_relay_amp = lc_relay_amp_percent c, q_cycles_skip = Some (lc_num_cycles_skip c),
           q_cycles_count = Some (lc_num_cycles_count c), q_noise_protection_secs = Some (lc_noise_protection_secs c),
           q_driver = OpcdaKind, q_bridge_host = Some host, q_server = Some server, q_sim_gain = DEFAULT_SIM_GAIN,
           q_sim_tau = DEFAULT_SIM_TAU, q_sim_dead_time = DEFAULT_SIM_DEAD_TIME, q_sim_noise = DEFAULT_SIM_NOISE,
           q_sim_seed = DEFAULT_SIM_SEED, q_sim_initial_pv = DEFAULT_SIM_INITIAL_VALUE, q_sim_initial_mv = DEFAULT_SIM_INITIAL_VALUE,
           q_pv_range_high = None, q_pv_range_low = None, q_mv_range_high = None, q_mv_range_low = None,
           q_direction = Some (is_direction i), q_tag_overrides = None, q_notes = None, q_yes = True, q_write_pid = None \<rparr>)"

text \<open>\<open>max_by_key\<close>: the last of the largest.\<close>

definition max_by_key :: "('a \<Rightarrow> int) \<Rightarrow> 'a list \<Rightarrow> 'a option" where
  "max_by_key k xs = fold (\<lambda>x acc. case acc of None \<Rightarrow> Some x | Some y \<Rightarrow> if k y \<le> k x then Some x else Some y) xs None"

definition recovery_mv_tracker ::
  "recovery_lib \<Rightarrow> tune_run_row \<Rightarrow> initial_state \<Rightarrow> tune_request \<Rightarrow> db \<Rightarrow> (string, mv_tracker) result" where
  "recovery_mv_tracker lib run i q d =
     (let rows = actuations_for_run (run_id run) d; newest = max_by_key mva_sequence rows
      in case newest of
           Some row \<Rightarrow>
             if mva_sequence row = 2 ^ 63 - 1
             then Err (''run '' @ rc_num lib (run_id run) @ '' MV actuation sequence is exhausted'')
             else (case tracker_for_run q i of
                 None \<Rightarrow> Err (''run '' @ rc_num lib (run_id run) @ '' cannot initialize its OPC DA MV audit tracker'')
               | Some t \<Rightarrow> Ok (t\<lparr>tr_next_sequence := mva_sequence row + 1, tr_previous_commanded_mv := target_mv row\<rparr>))
         | None \<Rightarrow>
             (case tracker_for_run q i of
                 None \<Rightarrow> Err (''run '' @ rc_num lib (run_id run) @ '' cannot initialize its OPC DA MV audit tracker'')
               | Some t \<Rightarrow> Ok (t\<lparr>tr_next_sequence := 0, tr_previous_commanded_mv := is_mv_ini i\<rparr>)))"

section \<open>The report on a restore\<close>

datatype recovery_step_status = RsNotNeeded | RsSucceeded | RsFailed

record recovery_step_report =
  rs_step :: string
  rs_status :: recovery_step_status
  rs_target :: "string option"
  rs_detail :: "string option"

definition failed_step :: "string \<Rightarrow> string option \<Rightarrow> string \<Rightarrow> recovery_step_report" where
  "failed_step name target detail = \<lparr> rs_step = name, rs_status = RsFailed, rs_target = target, rs_detail = Some detail \<rparr>"

definition json_values_match :: "json \<Rightarrow> json \<Rightarrow> bool" where
  "json_values_match expected actual =
     (case (as_f64 expected, as_f64 actual) of
        (Some a, Some b) \<Rightarrow> fl_eq a b
      | _ \<Rightarrow> expected = actual)"

definition value_label :: "recovery_lib \<Rightarrow> json \<Rightarrow> string" where
  "value_label lib j = (case j of JStr s \<Rightarrow> s | _ \<Rightarrow> rc_label lib j)"

definition write_step_report ::
  "recovery_lib \<Rightarrow> string \<Rightarrow> string option \<Rightarrow> json option \<Rightarrow> bool \<Rightarrow> live_mutation_step_row list \<Rightarrow> recovery_step_report" where
  "write_step_report lib name tag expected needed sts =
     (if \<not> needed then \<lparr> rs_step = name, rs_status = RsNotNeeded, rs_target = map_option (value_label lib) expected, rs_detail = None \<rparr>
      else case (tag, expected) of
        (Some tag, Some e) \<Rightarrow>
          (case max_by_key ms_id (filter (\<lambda>s. step_name s = CONTROLLER_WRITE \<and>
                  (case parse_write_target lib (target_json s) of None \<Rightarrow> False | Some (t, v) \<Rightarrow> t = tag \<and> json_values_match e v)) sts) of
             Some s \<Rightarrow>
               if ms_status s = StepConfirmed
               then \<lparr> rs_step = name, rs_status = RsSucceeded, rs_target = Some (value_label lib e), rs_detail = ms_detail s \<rparr>
               else failed_step name (Some (value_label lib e))
                 (case ms_detail s of Some x \<Rightarrow> x | None \<Rightarrow> ''write audit ended as '' @ rc_status lib (ms_status s))
           | None \<Rightarrow> failed_step name (Some (value_label lib e)) ''no durable restore write audit was recorded'')
      | _ \<Rightarrow> failed_step name None ''restore preconditions require a recorded tag and target value'')"

definition mv_step_report :: "recovery_lib \<Rightarrow> initial_state \<Rightarrow> tune_mv_actuation_row option \<Rightarrow> recovery_step_report" where
  "mv_step_report lib i mv =
     (case mv of
        Some row \<Rightarrow>
          if mva_status row = Confirmed
          then \<lparr> rs_step = ''mv'', rs_status = RsSucceeded, rs_target = Some (rc_f32 lib (target_mv row)), rs_detail = mva_detail row \<rparr>
          else failed_step ''mv'' (Some (rc_f32 lib (target_mv row)))
            (case mva_detail row of Some x \<Rightarrow> x | None \<Rightarrow> ''MV restore confirmation ended as '' @ rc_actuation lib (mva_status row))
      | None \<Rightarrow> failed_step ''mv'' (Some (rc_f32 lib (is_mv_ini i))) ''no durable MV restore confirmation was recorded'')"

text \<open>Reading the tables does not fail here; the code reports a failure as a failed step.\<close>

definition recovery_step_reports ::
  "recovery_lib \<Rightarrow> tune_run_row \<Rightarrow> initial_state \<Rightarrow> mutation_guard \<Rightarrow> int \<Rightarrow> tune_request \<Rightarrow> db
   \<Rightarrow> recovery_step_report list \<times> string option \<times> bool" where
  "recovery_step_reports lib run i mg owner q d =
     (let sts = steps_for_owner owner d; g = run_tags run; t = run_template run;
          mv = max_by_key mva_sequence (filter (\<lambda>a. mva_kind a = ARestore) (actuations_for_run (run_id run) d));
          mv_confirmed = (case mv of None \<Rightarrow> False | Some row \<Rightarrow> mva_status row = Confirmed);
          mode_deferred = (should_settle_before_auto_release q g t i mg \<and> \<not> mv_confirmed);
          mode_needed = (\<not> mode_deferred \<and> mg_mode_written mg \<and> t_revert_mode t \<and> g_controller_mode g \<noteq> None \<and>
             is_mode_raw i \<noteq> Some (t_mode_manual_value t));
          mode0 = write_step_report lib ''mode'' (g_controller_mode g) (map_option JStr (is_mode_raw i)) mode_needed sts;
          mode = (if mode_deferred then mode0\<lparr>rs_detail := Some (''MV restore was not confirmed, so automatic-mode release was '' @
             ''intentionally withheld; inspect the loop before changing modes'')\<rparr> else mode0);
          setpoint = write_step_report lib ''setpoint'' (g_setpoint_variable g) (map_option float_json (is_setpoint_ini i))
             (mg_mode_written mg \<and> t_revert_mode t \<and> g_setpoint_variable g \<noteq> None \<and> is_setpoint_ini i \<noteq> None) sts;
          attribute = write_step_report lib ''mode_attribute'' (g_mode_attribute g) (map_option JStr (is_mode_attribute_raw i))
             (mg_mode_attribute_written mg \<and> g_mode_attribute g \<noteq> None \<and>
              is_mode_attribute_raw i \<noteq> t_mode_attribute_program_value t) sts;
          reports = [mv_step_report lib i mv, mode, setpoint, attribute]
      in (reports, Option.bind (List.find (\<lambda>r. rs_status r = RsFailed) reports) rs_detail,
          list_ex (\<lambda>s. step_name s = CONTROLLER_WRITE) sts))"

end
