(* ===== verification/Recovery.thy ===== *)
theory Recovery
  imports Recovery_Evidence
begin

text \<open>
  Recovering interrupted runs (\<open>bhtune-runtime/src/tune/recovery.rs\<close>): the sweep at startup that
  retires the owners of dead processes, and \<open>restore_loop\<close>, which takes an orphan's claim over and
  restores the loop.

  The answers of the file system, the gateway and the clocks are inputs, as in \<open>Live_Ownership\<close> and
  \<open>Restore\<close>; of an evidence export its path and whether it was written are modelled, not its text.
\<close>

section \<open>The evidence export\<close>

text \<open>Opening a file that must not exist; for a created one, the answer of writing and syncing it.\<close>

datatype open_answer = Created "(string, unit) result" | AlreadyExists | OpenFailed string

record export_env =
  ex_mkdir :: "string \<Rightarrow> (string, unit) result"
  ex_open :: "string \<Rightarrow> open_answer"
  ex_stamp :: "timestamp \<Rightarrow> string"

text \<open>\<open>parent\<close> and \<open>file_name\<close> of a path that does not end in a slash.\<close>

definition path_file_name :: "string \<Rightarrow> string" where
  "path_file_name p = rev (takeWhile (\<lambda>c. c \<noteq> CHR ''/'') (rev p))"

definition path_parent :: "string \<Rightarrow> string" where
  "path_parent p =
     (let dir = rev (dropWhile (\<lambda>c. c \<noteq> CHR ''/'') (rev p))
      in if length dir \<le> 1 then dir else butlast dir)"

definition path_join :: "string \<Rightarrow> string \<Rightarrow> string" where
  "path_join a b = (if a \<noteq> [] \<and> List.last a = CHR ''/'' then a @ b else a @ ''/'' @ b)"

definition two_digits :: "nat \<Rightarrow> string" where
  "two_digits n = [char_of (48 + n div 10), char_of (48 + n mod 10)]"

fun export_to :: "export_env \<Rightarrow> string \<Rightarrow> string \<Rightarrow> nat list \<Rightarrow> (string, string) result" where
  "export_to x dir base [] = Err (''could not choose a unique recovery evidence export path under '' @ dir)"
| "export_to x dir base (n # ns) =
     (let path = path_join dir (base @ ''-'' @ two_digits n @ ''.json'')
      in case ex_open x path of
           Created r \<Rightarrow> map_sum id (\<lambda>_. path) r
         | AlreadyExists \<Rightarrow> export_to x dir base ns
         | OpenFailed e \<Rightarrow> Err (''could not write recovery evidence export '' @ path @ '': '' @ e))"

definition write_recovery_export ::
  "recovery_lib \<Rightarrow> export_env \<Rightarrow> string \<Rightarrow> timestamp \<Rightarrow> int option \<Rightarrow> int \<Rightarrow> (string, string) result" where
  "write_recovery_export lib x db_path now rid owner =
     (let parent = (if path_parent db_path = [] then ''.'' else path_parent db_path);
          name = path_file_name db_path;
          dir = path_join parent (name @ ''.recovery'');
          label = (case rid of None \<Rightarrow> ''no-run'' | Some r \<Rightarrow> ''run-'' @ rc_num lib r)
      in if name \<in> {[], ''..''} then Err ''database filename is not valid UTF-8''
         else case ex_mkdir x dir of
                Inl e \<Rightarrow> Err (''could not create recovery evidence directory '' @ dir @ '': '' @ e)
              | Inr _ \<Rightarrow> export_to x dir (ex_stamp x now @ ''-'' @ label @ ''-owner-'' @ rc_num lib owner) [0..<100])"

section \<open>The sweep at startup\<close>

definition ORPHAN_STALE_AFTER :: int where "ORPHAN_STALE_AFTER = secs 30"

text \<open>\<open>sw_at\<close>: the clock while an owner is dealt with.\<close>

record sweep_env =
  sw_lib :: recovery_lib
  sw_js :: json_lib
  sw_lock :: lock_env
  sw_export :: export_env
  sw_now :: timestamp
  sw_at :: "int \<Rightarrow> timestamp"

record startup_orphan_sweep_report =
  sr_skipped_for_live_owner :: bool
  sr_examined :: nat
  sr_marked_orphaned :: nat
  sr_recoverable :: nat
  sr_interrupted_recoveries :: nat
  sr_retired_unrecoverable :: nat
  sr_exports :: "string list"

definition no_report :: startup_orphan_sweep_report where
  "no_report = \<lparr> sr_skipped_for_live_owner = False, sr_examined = 0, sr_marked_orphaned = 0, sr_recoverable = 0,
     sr_interrupted_recoveries = 0, sr_retired_unrecoverable = 0, sr_exports = [] \<rparr>"

abbreviation sw_err :: "sweep_env \<Rightarrow> db \<times> (db_error, 'a) result \<Rightarrow> db \<times> (string, 'a) result" where
  "sw_err e \<equiv> apsnd (map_sum (rc_db (sw_lib e)) id)"

text \<open>What every event of the sweep records.\<close>

definition sweep_evidence ::
  "sweep_env \<Rightarrow> string \<Rightarrow> live_ownership_row \<Rightarrow> timestamp \<Rightarrow> string \<Rightarrow> bool \<Rightarrow> (string \<times> json) list \<Rightarrow> string" where
  "sweep_evidence e event ow stale export eligible other =
     rc_label (sw_lib e) (JObj (fmap_of_list
       ([(''version'', JInt 1), (''event'', JStr event), (''run_id'', option_json JInt (lo_run_id ow)),
         (''database_key'', JStr (database_key ow)), (''resource_key'', JStr (resource_key ow)),
         (''export_path'', JStr export), (''recovery_eligible'', JBool eligible),
         (''heartbeat_at'', rc_time (sw_lib e) (heartbeat_at ow)), (''stale_before'', rc_time (sw_lib e) stale),
         (''observed_at'', rc_time (sw_lib e) (sw_at e (lo_id ow))), (''controller_contacted'', JBool False)] @ other)))"

definition changed_after :: "sweep_env \<Rightarrow> string \<Rightarrow> live_ownership_row \<Rightarrow> string \<Rightarrow> string" where
  "changed_after e what ow export =
     what @ rc_num (sw_lib e) (lo_id ow) @ '' changed after its evidence was exported to '' @ export @ ''; no ownership rows were changed''"

definition RETIRED_DETAIL :: string where
  "RETIRED_DETAIL = ''a live-operation owner became stale without sufficient evidence for automatic recovery; '' @
     ''inspect the exported evidence and verify the controller manually''"

definition retire_stale_unrecoverable_owner ::
  "sweep_env \<Rightarrow> string \<Rightarrow> live_ownership_row \<Rightarrow> tune_run_row option \<Rightarrow> timestamp \<Rightarrow> string \<Rightarrow> db \<Rightarrow> db \<times> (string, string) result" where
  "retire_stale_unrecoverable_owner e db_path ow run stale key d =
     and_then (d, write_recovery_export (sw_lib e) (sw_export e) db_path (sw_at e (lo_id ow)) (map_option run_id run) (lo_id ow)) (\<lambda>export d.
       let evidence = sweep_evidence e ''stale_owner_retirement'' ow stale export False
             [(''owner_id'', JInt (lo_id ow)), (''operation_kind'', JStr (kind_text (operation_kind ow))),
              (''eligibility_detail'', JStr (''the owner is stale but its operation/run state does not qualify for '' @
                ''automated live-loop recovery''))]
       in and_then (sw_err e (mark_orphaned_unrecoverable (js_valid (sw_js e))
              \<lparr> uou_owner_id = lo_id ow, uou_expected_heartbeat = heartbeat_at ow, uou_expected_claim_key = key,
                uou_now = sw_at e (lo_id ow), uou_evidence_json = evidence,
                uou_fail_running_run_id = map_option run_id (option_filter (\<lambda>r. outcome r = OutRunning) run),
                uou_detail = RETIRED_DETAIL \<rparr> d)) (\<lambda>retired d.
            (d, if retired then Ok export else Err (changed_after e ''stale owner '' ow export))))"

definition ELIGIBLE_DETAIL :: string where
  "ELIGIBLE_DETAIL = ''the live tune process ended with a durably recorded restore intent and controller mutation; '' @
     ''use `bhtune restore-loop --yes` after reviewing the exported evidence''"

definition NOT_ELIGIBLE_DETAIL :: string where
  "NOT_ELIGIBLE_DETAIL = ''the live tune process ended, but its persisted ownership or mutation evidence is insufficient for '' @
     ''automated recovery; inspect the exported evidence and restore the loop manually''"

definition resource_matches :: "json_lib \<Rightarrow> tune_run_row \<Rightarrow> live_ownership_row \<Rightarrow> bool" where
  "resource_matches js run ow =
     (case (bridge_host run, opc_server run) of
        (Some host, Some server) \<Rightarrow> live_resource_key js host server (g_manipulated_variable (run_tags run)) = resource_key ow
      | _ \<Rightarrow> False)"

definition orphan_verdict :: "recovery_lib \<Rightarrow> json_lib \<Rightarrow> tune_run_row \<Rightarrow> live_ownership_row \<Rightarrow> db \<Rightarrow> bool \<times> string" where
  "orphan_verdict lib js run ow d =
     (let (eligible, detail) = recovery_eligibility lib run ow (filter (\<lambda>s. ms_owner_id s = lo_id ow) (steps_for_run (run_id run) d))
      in if eligible \<and> \<not> resource_matches js run ow
         then (False, ''recorded database/controller/MV identity does not match the owner'' @ [CHR 39] @ ''s canonical resource key'')
         else (eligible, detail))"

definition mark_stale_tune_orphan ::
  "sweep_env \<Rightarrow> string \<Rightarrow> tune_run_row \<Rightarrow> live_ownership_row \<Rightarrow> timestamp \<Rightarrow> string \<Rightarrow> db \<Rightarrow> db \<times> (string, string \<times> bool) result" where
  "mark_stale_tune_orphan e db_path run ow stale key d =
     (let (eligible, why) = orphan_verdict (sw_lib e) (sw_js e) run ow d
      in and_then (d, write_recovery_export (sw_lib e) (sw_export e) db_path (sw_at e (lo_id ow)) (Some (run_id run)) (lo_id ow)) (\<lambda>export d.
           let evidence = sweep_evidence e ''startup_orphan_sweep'' ow stale export eligible
                 [(''owner_id'', JInt (lo_id ow)), (''resource_matches_run'', JBool (resource_matches (sw_js e) run ow)),
                  (''eligibility_detail'', JStr why)]
           in and_then (sw_err e (mark_orphaned (js_valid (sw_js e))
                  \<lparr> oou_owner_id = lo_id ow, oou_expected_heartbeat = heartbeat_at ow, oou_expected_claim_key = key,
                    oou_now = sw_at e (lo_id ow), oou_evidence_json = evidence, oou_eligible = eligible,
                    oou_detail = (if eligible then ELIGIBLE_DETAIL else NOT_ELIGIBLE_DETAIL) \<rparr> d)) (\<lambda>marked d.
                (d, if marked then Ok (export, eligible) else Err (changed_after e ''orphan owner '' ow export)))))"

text \<open>The one source owner of a recovery that was itself interrupted.\<close>

definition interrupted_source ::
  "sweep_env \<Rightarrow> live_ownership_row \<Rightarrow> string \<Rightarrow> db \<Rightarrow> (string, tune_run_row \<times> live_ownership_row \<times> tune_recovery_attempt_row) result" where
  "interrupted_source e ow key d =
     (let stale = ''stale recovery owner '' @ rc_num (sw_lib e) (lo_id ow)
      in case lo_run_id ow of
           None \<Rightarrow> Err (stale @ '' has no run ID; refusing to alter its claim'')
         | Some rid \<Rightarrow>
         (case run_get rid d of
           None \<Rightarrow> Err (stale @ '' references missing run '' @ rc_num (sw_lib e) rid)
         | Some run \<Rightarrow>
         if operation_kind ow \<noteq> KRecovery \<or> outcome run \<noteq> OutFailed \<or> recovery_state run \<noteq> Some RecRunning
         then Err (stale @ '' does not match a failed run with a running recovery attempt; refusing to guess how to release its claim'')
         else (case filter (eligible_orphan rid) (owners_for_run rid d) of
           [source] \<Rightarrow>
         (case (bridge_host run, opc_server run) of
           (Some host, Some server) \<Rightarrow>
         if lo_run_id source \<noteq> Some rid \<or> database_key source \<noteq> database_key ow \<or> resource_key source \<noteq> resource_key ow \<or>
            resource_key ow \<noteq> live_resource_key (sw_js e) host server (g_manipulated_variable (run_tags run)) \<or>
            \<not> has_claim (lo_id ow) key d
         then Err (stale @ '' does not match its source owner, recorded controller/MV, or claim; refusing to alter ownership'')
         else (case filter (\<lambda>a. recovery_owner_id a = lo_id ow \<and> at_status a = AttemptRunning) (attempts_for_run rid d) of
           attempt # _ \<Rightarrow> Ok (run, source, attempt)
         | [] \<Rightarrow> Err (stale @ '' has no matching running recovery attempt''))
         | _ \<Rightarrow> Err (''run '' @ rc_num (sw_lib e) rid @
             '' has incomplete recorded connection provenance; stale recovery ownership is not safe to release automatically''))
         | sources \<Rightarrow> Err (stale @ '' has '' @ rc_num (sw_lib e) (int (length sources)) @ '' eligible source owners; exactly one is required''))))"

definition abandon_interrupted_recovery ::
  "sweep_env \<Rightarrow> string \<Rightarrow> live_ownership_row \<Rightarrow> timestamp \<Rightarrow> string \<Rightarrow> db \<Rightarrow> db \<times> (string, string) result" where
  "abandon_interrupted_recovery e db_path ow stale key d =
     and_then (d, interrupted_source e ow key d) (\<lambda>(run, source, attempt) d.
     and_then (d, write_recovery_export (sw_lib e) (sw_export e) db_path (sw_at e (lo_id ow)) (Some (run_id run)) (lo_id ow)) (\<lambda>export d.
       let detail = ''the recovery process ended without a durable final audit; startup contacted no controller. Review '' @
             export @ '', then retry with `bhtune restore-loop --yes`'';
           evidence = sweep_evidence e ''interrupted_recovery_restart'' ow stale export True
             [(''source_owner_id'', JInt (lo_id source)), (''recovery_owner_id'', JInt (lo_id ow)),
              (''attempt_id'', JInt (at_id attempt)), (''detail'', JStr detail)]
       in and_then (sw_err e (abandon_after_restart (js_valid (sw_js e))
              \<lparr> rru_attempt_id = at_id attempt, rru_recovery_owner_id = lo_id ow, rru_expected_heartbeat = heartbeat_at ow,
                rru_source_owner_id = lo_id source, rru_run_id = run_id run, rru_claim_key = key, rru_now = sw_at e (lo_id ow),
                rru_detail = detail, rru_evidence_json = evidence \<rparr> d)) (\<lambda>abandoned d.
            (d, if abandoned then Ok export
                else Err (''stale recovery owner '' @ rc_num (sw_lib e) (lo_id ow) @
                  '' changed while its restart evidence was being exported; no ownership rows were changed'')))))"

definition sweep_owner ::
  "sweep_env \<Rightarrow> string \<Rightarrow> string \<Rightarrow> timestamp \<Rightarrow> live_ownership_row \<Rightarrow> startup_orphan_sweep_report \<Rightarrow> db
   \<Rightarrow> db \<times> (string, startup_orphan_sweep_report) result" where
  "sweep_owner e db_path database stale ow report d =
     (let key = live_claim_key (sw_js e) (database_key ow) (resource_key ow);
          exported = (\<lambda>x r. r\<lparr>sr_exports := sr_exports r @ [x]\<rparr>)
      in if database_key ow \<noteq> database \<or> \<not> has_claim (lo_id ow) key d
         then (d, Err (''stale owner '' @ rc_num (sw_lib e) (lo_id ow) @
           '' has a mismatched database identity or claim; refusing to alter its ownership record''))
         else if operation_kind ow = KRecovery
         then and_then (abandon_interrupted_recovery e db_path ow stale key d) (\<lambda>x d.
             (d, Ok (exported x (report\<lparr>sr_interrupted_recoveries := sr_interrupted_recoveries report + 1\<rparr>))))
         else and_then (d, case lo_run_id ow of
               None \<Rightarrow> Ok None
             | Some rid \<Rightarrow> (case run_get rid d of
                 None \<Rightarrow> Err (''stale owner '' @ rc_num (sw_lib e) (lo_id ow) @ '' references missing run '' @ rc_num (sw_lib e) rid)
               | Some run \<Rightarrow> Ok (Some run))) (\<lambda>run d.
           case option_filter (\<lambda>r. operation_kind ow = KTune \<and> driver r = Opcda \<and> outcome r = OutRunning) run of
             Some r \<Rightarrow> and_then (mark_stale_tune_orphan e db_path r ow stale key d) (\<lambda>(x, eligible) d.
               (d, Ok (exported x (report\<lparr>sr_marked_orphaned := sr_marked_orphaned report + 1,
                      sr_recoverable := sr_recoverable report + (if eligible then 1 else 0)\<rparr>))))
           | None \<Rightarrow> and_then (retire_stale_unrecoverable_owner e db_path ow run stale key d) (\<lambda>x d.
               (d, Ok (exported x (report\<lparr>sr_retired_unrecoverable := sr_retired_unrecoverable report + 1\<rparr>))))))"

fun sweep_owners ::
  "sweep_env \<Rightarrow> string \<Rightarrow> string \<Rightarrow> timestamp \<Rightarrow> live_ownership_row list \<Rightarrow> startup_orphan_sweep_report \<Rightarrow> db
   \<Rightarrow> db \<times> (string, startup_orphan_sweep_report) result" where
  "sweep_owners e db_path database stale [] report d = (d, Ok report)"
| "sweep_owners e db_path database stale (ow # ows) report d =
     and_then (sweep_owner e db_path database stale ow report d) (\<lambda>r d. sweep_owners e db_path database stale ows r d)"

definition stale_before :: "sweep_env \<Rightarrow> timestamp" where
  "stale_before e = sw_now e - ORPHAN_STALE_AFTER"

definition recover_startup_orphans :: "sweep_env \<Rightarrow> db \<Rightarrow> db \<times> (string, startup_orphan_sweep_report) result" where
  "recover_startup_orphans e d =
     (case try_acquire (sw_lock e) of
        Inl t \<Rightarrow> (d, Err t)
      | Inr None \<Rightarrow> (d, Ok (no_report\<lparr>sr_skipped_for_live_owner := True\<rparr>))
      | Inr (Some database) \<Rightarrow>
          (let candidates = stale_active_owners (stale_before e) d
           in and_then (d, le_path (sw_lock e)) (\<lambda>db_path d.
              sweep_owners e db_path database (stale_before e) candidates (no_report\<lparr>sr_examined := length candidates\<rparr>) d)))"

end
