(* ===== verification/Restore_Loop.thy ===== *)
theory Restore_Loop
  imports Recovery
begin

text \<open>
  \<open>restore_loop\<close> (\<open>bhtune-runtime/src/tune/recovery.rs\<close>): the checks before anything changes, the handoff
  of the claim, the setup, the restore through the audited driver and its durable report.

  The heartbeat of the new owner may tick before the restore, after it, and between the two checks of its
  health.  The answer is \<open>None\<close> when the given inputs do not carry the restore to its end.
\<close>

section \<open>Requests, inputs, reports\<close>

record restore_loop_request =
  rq_run_id :: int
  rq_yes :: bool
  rq_bridge_host :: "string option"
  rq_server :: "string option"

record 'd recovery_env =
  rn_sweep :: sweep_env
  rn_el :: error_lib
  rn_texts :: report_lib
  rn_parse :: "string \<Rightarrow> f32 option"
  rn_put :: "'d put"
  rn_pid :: int
  rn_started :: timestamp
  rn_completed :: timestamp
  rn_utc_max :: timestamp
  rn_clock :: "nat \<Rightarrow> timestamp"
  rn_connect :: "string \<Rightarrow> string \<Rightarrow> (string, 'd) result"
  rn_gateway :: "string \<Rightarrow> string \<Rightarrow> (string, string) result"   \<comment> \<open>the snapshot's JSON\<close>
  rn_restore :: restore_input
  rn_ticks_before :: "timestamp list"
  rn_ticks_after :: "timestamp list"
  rn_ticks_last :: "timestamp list"

abbreviation rn_lib :: "('d, 'x) recovery_env_scheme \<Rightarrow> recovery_lib" where "rn_lib e \<equiv> sw_lib (rn_sweep e)"
abbreviation rn_js :: "('d, 'x) recovery_env_scheme \<Rightarrow> json_lib" where "rn_js e \<equiv> sw_js (rn_sweep e)"

record restore_loop_report =
  rl_run_id :: int
  rl_attempt_id :: int
  rl_status :: recovery_attempt_status
  rl_persisted :: bool
  rl_export_path :: string
  rl_steps :: "recovery_step_report list"
  rl_detail :: "string option"

definition append_optional_detail :: "string option \<Rightarrow> string option \<Rightarrow> string option" where
  "append_optional_detail detail additional =
     (case additional of
        None \<Rightarrow> detail
      | Some a \<Rightarrow> Some (case detail of Some x \<Rightarrow> x @ ''; '' @ a | None \<Rightarrow> a))"

definition append_error_detail :: "string option \<Rightarrow> (string, unit) result \<Rightarrow> string option" where
  "append_error_detail detail r = (case r of Inl e \<Rightarrow> append_optional_detail detail (Some e) | Inr _ \<Rightarrow> detail)"

definition final_audit_failure_detail :: "recovery_lib \<Rightarrow> string option \<Rightarrow> db_error \<Rightarrow> string" where
  "final_audit_failure_detail lib existing err =
     (case existing of
        Some x \<Rightarrow> x @ ''; failed to persist the final recovery audit: '' @ rc_db lib err @ ''; inspect the loop manually''
      | None \<Rightarrow> ''failed to persist the final recovery audit: '' @ rc_db lib err @
          ''; the restore is not confirmed and the loop must be inspected manually'')"

section \<open>Before anything changes\<close>

record recovery_plan =
  rp_run :: tune_run_row
  rp_host :: string
  rp_server :: string
  rp_source :: live_ownership_row
  rp_timing :: effective_timing
  rp_initial :: initial_state
  rp_guard :: mutation_guard
  rp_request :: tune_request
  rp_tracker :: mv_tracker
  rp_database :: string
  rp_resource :: string
  rp_claim :: string

definition YES_NEEDED :: string where
  "YES_NEEDED = ''restore-loop requires --yes; no controller connection or mutation was attempted''"

definition recovery_checks :: "'d recovery_env \<Rightarrow> restore_loop_request \<Rightarrow> db \<Rightarrow> (string, recovery_plan) result" where
  "recovery_checks e q d =
     (let lib = rn_lib e; js = rn_js e
      in if \<not> rq_yes q then Err YES_NEEDED
         else bind_result (load_recovery_run lib (rq_run_id q) d) (\<lambda>_.
           bind_result (try_acquire (sw_lock (rn_sweep e))) (\<lambda>lock.
           case lock of
             None \<Rightarrow> Err ''another live controller operation holds the database ownership lock; recovery is blocked''
           | Some database \<Rightarrow>
               bind_result (load_recovery_run lib (rq_run_id q) d) (\<lambda>run.
               let whose = (\<lambda>t. ''run '' @ rc_num lib (run_id run) @ t)
               in bind_result (resolve_revert_connection lib run (rq_bridge_host q) (rq_server q)) (\<lambda>(host, server).
               bind_result (recovery_source_owner lib run d) (\<lambda>source.
               let sts = steps_for_owner (lo_id source) d
               in bind_result (validate_recovery_run lib run source sts) (\<lambda>_.
               bind_result (recovery_timing lib run) (\<lambda>timing.
               bind_result (recovered_initial_state lib run) (\<lambda>initial.
               let request = recovery_request run host server initial
               in bind_result (recovery_mv_tracker lib run initial request d) (\<lambda>tracker.
               let resource = live_resource_key js host server (g_manipulated_variable (run_tags run));
                   key = live_claim_key js database resource
               in if database_key source \<noteq> database
                  then Err (whose ([CHR 39] @ ''s recorded database ownership identity does not match the opened database; recovery is blocked''))
                  else if resource_key source \<noteq> resource
                  then Err (whose ([CHR 39] @ ''s recorded controller/MV ownership identity does not match its snapshots; recovery is blocked''))
                  else if \<not> has_claim (lo_id source) key d
                  then Err (whose '' no longer owns the canonical controller/MV recovery claim; recovery is blocked'')
                  else Ok \<lparr> rp_run = run, rp_host = host, rp_server = server, rp_source = source, rp_timing = timing,
                            rp_initial = initial, rp_guard = recovery_guard lib run sts, rp_request = request,
                            rp_tracker = tracker, rp_database = database, rp_resource = resource, rp_claim = key \<rparr>))))))))))"

section \<open>The handoff\<close>

definition attempt_evidence :: "'d recovery_env \<Rightarrow> recovery_plan \<Rightarrow> string \<Rightarrow> string" where
  "attempt_evidence e p export =
     rc_label (rn_lib e) (JObj (fmap_of_list
       [(''version'', JInt 1), (''event'', JStr ''restore_loop_attempt''), (''run_id'', JInt (run_id (rp_run p))),
        (''source_owner_id'', JInt (lo_id (rp_source p))), (''database_key'', JStr (rp_database p)),
        (''resource_key'', JStr (rp_resource p)), (''recorded_bridge_host'', JStr (rp_host p)),
        (''recorded_server'', JStr (rp_server p)), (''export_path'', JStr export),
        (''started_at'', rc_time (rn_lib e) (rn_started e)), (''controller_mutation_attempted'', JBool False)]))"

definition recovery_handoff ::
  "'d recovery_env \<Rightarrow> recovery_plan \<Rightarrow> db \<Rightarrow> db \<times> (string, string \<times> live_guard \<times> tune_recovery_attempt_row) result" where
  "recovery_handoff e p d =
     (let rid = run_id (rp_run p)
      in and_then (d, le_path (sw_lock (rn_sweep e))) (\<lambda>db_path d.
         and_then (d, write_recovery_export (rn_lib e) (sw_export (rn_sweep e)) db_path (rn_started e) (Some rid) (lo_id (rp_source p))) (\<lambda>export d.
         and_then (sw_err (rn_sweep e) (start_with_claim (js_valid (rn_js e))
             \<lparr> nlo_run_id = Some rid, nlo_operation_kind = KRecovery, nlo_database_key = rp_database p,
               nlo_resource_key = rp_resource p, nlo_owner_pid = rn_pid e, nlo_acquired_at = rn_started e,
               nlo_restore_intent_json = restore_intent_json (rp_source p) \<rparr>
             (rp_claim p) (lo_id (rp_source p)) rid export (attempt_evidence e p export) d)) (\<lambda>started d.
           (d, case started of
              None \<Rightarrow> Err (''run '' @ rc_num (rn_lib e) rid @
                '' lost its orphan recovery claim to another contender; no controller connection was attempted'')
            | Some (owner, attempt) \<Rightarrow> Ok (export, start_heartbeat (rp_database p) owner (rp_claim p), attempt))))))"

definition completion_update ::
  "'d recovery_env \<Rightarrow> recovery_plan \<Rightarrow> live_guard \<Rightarrow> tune_recovery_attempt_row \<Rightarrow> recovery_attempt_status \<Rightarrow> string option \<Rightarrow> string
   \<Rightarrow> complete_recovery_update" where
  "completion_update e p g attempt status detail evidence =
     \<lparr> cru_attempt_id = at_id attempt, cru_recovery_owner_id = lo_id (gd_owner g), cru_source_owner_id = lo_id (rp_source p),
       cru_run_id = run_id (rp_run p), cru_claim_key = gd_claim_key g, cru_status = status, cru_now = rn_completed e,
       cru_detail = detail, cru_evidence_json = evidence \<rparr>"

text \<open>\<open>finish_recovery_setup_failure\<close>, and the error it was called for.\<close>

definition finish_recovery_setup_failure ::
  "'d recovery_env \<Rightarrow> recovery_plan \<Rightarrow> live_guard \<Rightarrow> tune_recovery_attempt_row \<Rightarrow> string \<Rightarrow> string \<Rightarrow> db \<Rightarrow> db \<times> (string, 'a) result" where
  "finish_recovery_setup_failure e p g attempt export detail d =
     and_then (sw_err (rn_sweep e) (complete_with_ownership (js_valid (rn_js e))
         (completion_update e p (stop_heartbeat g) attempt AttemptFailed (Some detail) (attempt_evidence e p export)) d)) (\<lambda>_ d.
       (d, Err detail))"

definition INTERRUPTED_MV :: string where
  "INTERRUPTED_MV = ''an interrupted tune left this accepted MV command unverified; a restore-loop attempt is taking over''"

text \<open>What must succeed before the first write.\<close>

definition recovery_setup ::
  "'d recovery_env \<Rightarrow> recovery_plan \<Rightarrow> live_guard \<Rightarrow> tune_recovery_attempt_row \<Rightarrow> string \<Rightarrow> db \<Rightarrow> db \<times> (string, 'd) result" where
  "recovery_setup e p g attempt export d0 =
     (let rid = run_id (rp_run p); failed = finish_recovery_setup_failure e p g attempt export; dbe = rc_db (rn_lib e)
      in case finalize_pending_for_run rid Unverified (Some INTERRUPTED_MV) d0 of
           (d1, Inl err) \<Rightarrow> failed (''could not finalize an interrupted MV audit row before recovery: '' @ dbe err) d1
         | (d1, Inr _) \<Rightarrow>
      (case rn_connect e (rp_host p) (rp_server p) of
           Inl err \<Rightarrow> failed (''could not connect to the run'' @ [CHR 39] @ ''s recorded OPC DA gateway/server; no restore write was attempted: '' @ err) d1
         | Inr drv \<Rightarrow>
      (case rn_gateway e (rp_host p) (rp_server p) of
           Inl err \<Rightarrow> failed (''the recorded gateway/server failed the live compatibility check; no restore write was attempted: '' @ err) d1
         | Inr compatibility \<Rightarrow>
             if gateway_compatibility_json (rp_run p) \<noteq> None then (d1, Ok drv)
             else (case record_gateway_compatibility (js_valid (rn_js e)) rid compatibility d1 of
                 (d2, Inr _) \<Rightarrow> (d2, Ok drv)
               | (d2, Inl err) \<Rightarrow> failed (''could not persist gateway compatibility evidence before restoration: '' @ dbe err) d2))))"

section \<open>The restore and its report\<close>

definition recovery_ctx :: "'d recovery_env \<Rightarrow> recovery_plan \<Rightarrow> restore_ctx" where
  "recovery_ctx e p =
     \<lparr> rx_run_id = run_id (rp_run p), rx_request = rp_request p, rx_timing = rp_timing p, rx_tags = run_tags (rp_run p),
       rx_template = run_template (rp_run p), rx_initial = rp_initial p, rx_guard = rp_guard p,
       rx_allow = allow_uncertain_quality (rp_run p), rx_parse = rn_parse e, rx_utc_max = rn_utc_max e, rx_lib = rn_texts e \<rparr>"

definition tick_all :: "json_lib \<Rightarrow> timestamp list \<Rightarrow> 'd audited_driver \<Rightarrow> 'd audited_driver" where
  "tick_all js ts s =
     (let (g, d) = fold (heartbeat_tick js) ts (au_guard s, au_db s) in s\<lparr>au_guard := g, au_db := d\<rparr>)"

definition recovery_put :: "'d recovery_env \<Rightarrow> recovery_plan \<Rightarrow> 'd audited_driver put" where
  "recovery_put e p = audited_write (rn_js e) (rn_el e) (rn_put e) (Some (run_id (rp_run p)))"

definition recovery_restore :: "'d recovery_env \<Rightarrow> recovery_plan \<Rightarrow> live_guard \<Rightarrow> db \<Rightarrow> 'd \<Rightarrow> 'd audited_driver restore_end" where
  "recovery_restore e p g d drv =
     (let s = tick_all (rn_js e) (rn_ticks_before e)
                \<lparr> au_inner = drv, au_db = d, au_guard = g, au_clock = rn_clock e, au_reads = 0 \<rparr>
      in attempt_restore (recovery_put e p) (recovery_ctx e p) AuditRequired
           (Option.bind (run_timing_metrics (rp_run p)) measured_oscillation_period_ms) (rn_restore e) None None s
           (Some (rp_tracker p)) (au_db s))"

text \<open>The database and the driver after the restore, the two answered apart by it.\<close>

definition restored_state :: "'d audited_driver restore_end \<Rightarrow> 'd audited_driver" where
  "restored_state r = with_run_db (rv_db (re_state r)) (rv_driver (re_state r))"

definition step_report_json :: "recovery_step_report \<Rightarrow> json" where
  "step_report_json s = JObj (fmap_of_list
     [(''step'', JStr (rs_step s)),
      (''status'', JStr (case rs_status s of RsNotNeeded \<Rightarrow> ''not_needed'' | RsSucceeded \<Rightarrow> ''succeeded'' | RsFailed \<Rightarrow> ''failed'')),
      (''target'', option_json JStr (rs_target s)), (''detail'', option_json JStr (rs_detail s))])"

definition result_evidence ::
  "'d recovery_env \<Rightarrow> recovery_plan \<Rightarrow> live_guard \<Rightarrow> tune_recovery_attempt_row \<Rightarrow> string \<Rightarrow> recovery_attempt_status
   \<Rightarrow> recovery_step_report list \<Rightarrow> string option \<Rightarrow> bool \<Rightarrow> string" where
  "result_evidence e p g attempt export status reports detail attempted =
     rc_label (rn_lib e) (JObj (fmap_of_list
       [(''version'', JInt 1), (''event'', JStr ''restore_loop_result''), (''run_id'', JInt (run_id (rp_run p))),
        (''source_owner_id'', JInt (lo_id (rp_source p))), (''recovery_owner_id'', JInt (lo_id (gd_owner g))),
        (''attempt_id'', JInt (at_id attempt)), (''export_path'', JStr export),
        (''status'', JStr (if status = recovery_attempt_status.AttemptConfirmed then ''confirmed'' else ''incomplete'')),
        (''steps'', JArr (map step_report_json reports)), (''detail'', option_json JStr detail),
        (''completed_at'', rc_time (rn_lib e) (rn_completed e)), (''controller_mutation_attempted'', JBool attempted)]))"

definition report_recovery ::
  "'d recovery_env \<Rightarrow> recovery_plan \<Rightarrow> tune_recovery_attempt_row \<Rightarrow> string \<Rightarrow> restore_attempt \<Rightarrow> 'd audited_driver
   \<Rightarrow> 'd audited_driver \<times> restore_loop_report" where
  "report_recovery e p attempt export a s0 =
     (let s1 = tick_all (rn_js e) (rn_ticks_after e) s0;
          detail0 = (case a of AttemptConfirmed \<Rightarrow> None | AttemptIncomplete reason \<Rightarrow> Some reason);
          detail1 = append_error_detail detail0 (ensure_healthy (au_guard s1));
          (reports, audit_error, attempted) = recovery_step_reports (rn_lib e) (rp_run p) (rp_initial p) (rp_guard p)
             (lo_id (gd_owner (au_guard s1))) (rp_request p) (au_db s1);
          detail = append_optional_detail detail1 audit_error;
          s2 = tick_all (rn_js e) (rn_ticks_last e) s1;
          status = (if a = AttemptConfirmed \<and> is_ok (ensure_healthy (au_guard s2)) \<and> audit_error = None \<and>
                       list_all (\<lambda>r. rs_status r \<in> {RsSucceeded, RsNotNeeded}) reports
                    then recovery_attempt_status.AttemptConfirmed else recovery_attempt_status.AttemptIncomplete);
          g = stop_heartbeat (au_guard s2);
          (d, persisted) = complete_with_ownership (js_valid (rn_js e))
             (completion_update e p g attempt status detail (result_evidence e p g attempt export status reports detail attempted)) (au_db s2)
      in (s2\<lparr>au_db := d, au_guard := g\<rparr>,
          \<lparr> rl_run_id = run_id (rp_run p), rl_attempt_id = at_id attempt,
            rl_status = (if is_ok persisted then status else recovery_attempt_status.AttemptIncomplete),
            rl_persisted = is_ok persisted, rl_export_path = export, rl_steps = reports,
            rl_detail = (case persisted of
               Inr _ \<Rightarrow> detail
             | Inl err \<Rightarrow> Some (final_audit_failure_detail (rn_lib e) detail err)) \<rparr>))"

text \<open>The whole: the database, the controller once the restore has begun, the answer.  No controller is
  returned when the setup fails, also when it fails after a connection was made: nothing was written to it.\<close>

definition restore_loop ::
  "'d recovery_env \<Rightarrow> restore_loop_request \<Rightarrow> db \<Rightarrow> (db \<times> 'd option \<times> (string, restore_loop_report) result) option" where
  "restore_loop e q d0 =
     (case recovery_checks e q d0 of
        Inl t \<Rightarrow> Some (d0, None, Err t)
      | Inr p \<Rightarrow>
     (case recovery_handoff e p d0 of
        (d1, Inl t) \<Rightarrow> Some (d1, None, Err t)
      | (d1, Inr (export, g, attempt)) \<Rightarrow>
     (case recovery_setup e p g attempt export d1 of
        (d2, Inl t) \<Rightarrow> Some (d2, None, Err t)
      | (d2, Inr drv) \<Rightarrow>
          (let r = recovery_restore e p g d2 drv
           in case re_attempt r of
                None \<Rightarrow> None
              | Some a \<Rightarrow>
                  (let (s, report) = report_recovery e p attempt export a (restored_state r)
                   in Some (au_db s, Some (au_inner s), Ok report))))))"

end
