(* ===== verification/Prepare_Safety.thy ===== *)
theory Prepare_Safety
  imports Prepare
begin

text \<open>
  What preparing a tune guarantees: a preparation that fails leaves the controller free and no run
  marked running, and a prepared live run holds the claim that any later operation on the run would
  ask for.
\<close>

section \<open>A run that was just started\<close>

text \<open>The database but for the row of one new run, still running.\<close>

definition fresh_run :: "(string \<Rightarrow> bool) \<Rightarrow> db \<Rightarrow> tune_run_row \<Rightarrow> db \<Rightarrow> bool" where
  "fresh_run jv d0 row d \<longleftrightarrow>
     d = d0\<lparr>runs := runs d0 @ [row], runs_seq := run_id row\<rparr> \<and> run_id row \<notin> run_id ` set (runs d0) \<and>
     outcome row = OutRunning \<and> run_check jv row"

lemma update_appended:
  assumes "runs d = rs @ [row]" "run_id row \<notin> run_id ` set rs"
  shows "update_run jv (run_id row) f d =
    (if run_check jv (f row) then (d\<lparr>runs := rs @ [f row]\<rparr>, Ok (f row)) else (d, Err Query))"
proof -
  have "filter (\<lambda>r. run_id r = run_id row) rs = []" "map (\<lambda>r. if run_id r = run_id row then f r else r) rs = rs"
    using assms(2) by (auto simp: filter_empty_conv intro!: map_idI) (metis imageI)+
  moreover have "list_all (\<lambda>r. run_id r = run_id row \<longrightarrow> run_check jv (f r)) rs"
    using assms(2) by (auto simp: list_all_iff) (metis imageI)
  ultimately show ?thesis
    using assms(1) by (simp add: update_run_def run_tx_def sql_update_def one_row_def update_where_def affected_def)
qed

lemma fresh_update:
  assumes "fresh_run jv d0 row d" "run_id (f row) = run_id row" "outcome (f row) = OutRunning"
    and "update_run jv (run_id row) f d = (d', r)"
  shows "case r of Inl _ \<Rightarrow> d' = d | Inr _ \<Rightarrow> fresh_run jv d0 (f row) d'"
proof -
  have "runs d = runs d0 @ [row]" "run_id row \<notin> run_id ` set (runs d0)" using assms(1) by (simp_all add: fresh_run_def)
  note u = update_appended[OF this, of jv f]
  show ?thesis
  proof (cases "run_check jv (f row)")
    case True
    then have "d' = d\<lparr>runs := runs d0 @ [f row]\<rparr>" "r = Ok (f row)" using u assms(4) by simp_all
    then show ?thesis using assms(1-3) True by (simp add: fresh_run_def)
  next
    case False
    then show ?thesis using u assms(4) by auto
  qed
qed

lemma appended_fail:
  assumes "runs d = rs @ [row]" "run_id row \<notin> run_id ` set rs" "run_check jv row"
  shows "run_fail jv (run_id row) now reason d =
    (d\<lparr>runs := rs @ [row\<lparr>outcome := OutFailed, completed_at := Some now, failure_reason := Some reason\<rparr>]\<rparr>,
     Ok (row\<lparr>outcome := OutFailed, completed_at := Some now, failure_reason := Some reason\<rparr>))"
  unfolding run_fail_def update_appended[OF assms(1,2)] using assms(3) by (simp add: run_check_def)

lemma fresh_runs:
  assumes "fresh_run jv d0 row d"
  shows "runs d = runs d0 @ [row]" "run_id row \<notin> run_id ` set (runs d0)" "run_check jv row" "outcome row = OutRunning"
  using assms by (simp_all add: fresh_run_def)

lemma started_fresh:
  assumes "keys_ok d" "start_with_demo_session jv session st now d = (d', Ok row)"
  shows "fresh_run jv d row d'" "row = new_run_row session st now d"
  using assms by (auto simp: start_with_demo_session_def fresh_run_def keys_ok_def new_run_row_def Let_def
      elim!: run_tx_cases split: if_splits) fastforce+

lemma started_Err: "start_with_demo_session jv session st now d = (d', Err e) \<Longrightarrow> d' = d"
  by (auto simp: start_with_demo_session_def Let_def elim!: run_tx_cases split: if_splits)

section \<open>The metadata\<close>

text \<open>What the metadata keep of the row, and what they put there.\<close>

definition same_start :: "tune_run_row \<Rightarrow> tune_run_row \<Rightarrow> bool" where
  "same_start r r' \<longleftrightarrow> run_id r' = run_id r \<and> outcome r' = outcome r \<and> run_tags r' = run_tags r \<and>
     run_config r' = run_config r \<and> driver r' = driver r"

lemma metadata_step:
  assumes "fresh_run jv d0 row1 d" "same_start row row1" "same_start row1 (f row1)"
    and "db_call (update_run jv (run_id row) f d) = (d', r)"
  shows "r = Err e \<Longrightarrow> fresh_run jv d0 row1 d'" "r = Ok a \<Longrightarrow> fresh_run jv d0 (f row1) d' \<and> same_start row (f row1)"
proof -
  obtain r0 where u: "update_run jv (run_id row1) f d = (d', r0)" "r = map_sum XeDb id r0"
    using assms(2,4) by (auto simp: db_call_def apsnd_def map_prod_def same_start_def split: prod.splits)
  have "run_id (f row1) = run_id row1" "outcome (f row1) = OutRunning" using assms(1,3) by (simp_all add: same_start_def fresh_run_def)
  note n = fresh_update[OF assms(1) this u(1)]
  show "r = Err e \<Longrightarrow> fresh_run jv d0 row1 d'" using n u(2) assms(1) by (cases r0) auto
  show "r = Ok a \<Longrightarrow> fresh_run jv d0 (f row1) d' \<and> same_start row (f row1)"
    using n u(2) assms(2,3) by (cases r0) (auto simp: same_start_def)
qed

lemma same_start_refl: "same_start r r" by (simp add: same_start_def)

lemma metadata_recorded:
  assumes "fresh_run (js_valid (pe_js env)) d0 row d"
    and "record_metadata env q timing request gateway (run_id row) d = (d', r)"
  shows "\<exists>row'. fresh_run (js_valid (pe_js env)) d0 row' d' \<and> same_start row row' \<and>
    (is_ok r \<longrightarrow> run_effective_tuning row' = Some (timing_to_db timing) \<and> allow_uncertain_quality row' = bc_allow_uncertain_quality (pe_config env) \<and>
       (q_driver q = OpcdaKind \<longrightarrow> opc_server row' = q_server q \<and> bridge_host row' = q_bridge_host q))"
    (is "?E r d'")
proof -
  let ?jv = "js_valid (pe_js env)"
  have ends: "?E (Err e) d'" if "fresh_run ?jv d0 row' d'" "same_start row row'" for row' d' e
    using that by (intro exI[of _ row']) (simp add: is_ok_iff)
  obtain server host where sh: "(if driver_kind_to_db (q_driver q) = Opcda then (q_server q, q_bridge_host q) else (None, None)) = (server, host)"
    by fastforce
  note m = assms(2)[unfolded record_metadata_def Let_def sh prod.case record_effective_tuning_def record_allow_uncertain_quality_def
      record_connection_def record_gateway_compatibility_def update_notes_def]
  from m show ?thesis
  proof (cases rule: and_then_cases)
    case (stop e)
    then show ?thesis using metadata_step(1)[OF assms(1) same_start_refl _ stop(1)] ends same_start_refl by (simp add: same_start_def)
  next
    case (went_on d1 a1)
    let ?f1 = "\<lambda>r. r\<lparr>run_effective_tuning := Some (timing_to_db timing)\<rparr>"
    have f1: "fresh_run ?jv d0 (?f1 row) d1" "same_start row (?f1 row)"
      using metadata_step(2)[OF assms(1) same_start_refl _ went_on(1) refl] by (simp_all add: same_start_def)
    from went_on(2) show ?thesis
    proof (cases rule: and_then_cases)
      case (stop e)
      then show ?thesis using metadata_step(1)[OF f1 _ stop(1)] ends f1 by (simp add: same_start_def)
    next
      case (went_on d2 a2)
      let ?f2 = "\<lambda>r. r\<lparr>allow_uncertain_quality := bc_allow_uncertain_quality (pe_config env)\<rparr>"
      have f2: "fresh_run ?jv d0 (?f2 (?f1 row)) d2" "same_start row (?f2 (?f1 row))"
        using metadata_step(2)[OF f1 _ went_on(1) refl] by (simp_all add: same_start_def)
      from went_on(2) show ?thesis
      proof (cases rule: and_then_cases)
        case (stop e)
        then show ?thesis using metadata_step(1)[OF f2 _ stop(1)] ends f2 by (simp add: same_start_def)
      next
        case (went_on d3 a3)
        let ?f3 = "\<lambda>r. r\<lparr>opc_server := server, bridge_host := host, request_json := request\<rparr>"
        have f3: "fresh_run ?jv d0 (?f3 (?f2 (?f1 row))) d3" "same_start row (?f3 (?f2 (?f1 row)))"
          using metadata_step(2)[OF f2 _ went_on(1) refl] by (simp_all add: same_start_def)
        have last4: "?E r d'" if a: "fresh_run ?jv d0 row4 d4" "same_start row row4" "same_start (?f3 (?f2 (?f1 row))) row4"
            "run_effective_tuning row4 = Some (timing_to_db timing)" "allow_uncertain_quality row4 = bc_allow_uncertain_quality (pe_config env)"
            "opc_server row4 = server" "bridge_host row4 = host"
            "apsnd (map_sum id (\<lambda>_. ())) (db_call (update_run ?jv (run_id row) (\<lambda>r. r\<lparr>run_notes := trimmed_notes (q_notes q)\<rparr>) d4)) = (d', r)"
          for row4 d4
        proof -
          obtain r4 where u: "db_call (update_run ?jv (run_id row) (\<lambda>r. r\<lparr>run_notes := trimmed_notes (q_notes q)\<rparr>) d4) = (d', r4)"
            "r = map_sum id (\<lambda>_. ()) r4"
            using a(8) by (auto simp: apsnd_def map_prod_def split: prod.splits)
          note n = metadata_step[OF a(1,2) _ u(1)]
          show ?thesis
          proof (cases r4)
            case (Inl e)
            then show ?thesis using n(1) a(1,2) u(2) ends by (simp add: same_start_def)
          next
            case (Inr a)
            then have "fresh_run ?jv d0 (row4\<lparr>run_notes := trimmed_notes (q_notes q)\<rparr>) d'" "same_start row (row4\<lparr>run_notes := trimmed_notes (q_notes q)\<rparr>)"
              using n(2) by (simp_all add: same_start_def)
            then show ?thesis using a(4-7) sh by (intro exI) (auto split: if_splits)
          qed
        qed
        from went_on(2) show ?thesis
        proof (cases rule: and_then_cases)
          case (stop e)
          then obtain j where g: "gateway = Some j" "db_call (update_run ?jv (run_id row) (\<lambda>r. r\<lparr>gateway_compatibility_json := Some j\<rparr>) d3) = (d', Err e)"
            by (cases gateway) (auto simp: apsnd_def map_prod_def elim!: map_sum_ErrE split: prod.splits)
          have "fresh_run ?jv d0 (?f3 (?f2 (?f1 row))) d'"
            by (rule metadata_step(1)[OF f3 _ g(2) refl]) (simp add: same_start_def)
          then show ?thesis using stop(2) ends f3 by simp
        next
          case (went_on d4 a4)
          show ?thesis
          proof (cases gateway)
            case None
            then have "d4 = d3" using went_on(1) by simp
            then show ?thesis using last4[OF f3 same_start_refl] went_on(2) by simp
          next
            case (Some j)
            let ?f4 = "\<lambda>r. r\<lparr>gateway_compatibility_json := Some j\<rparr>"
            obtain a where "db_call (update_run ?jv (run_id row) ?f4 d3) = (d4, Ok a)"
              using went_on(1) Some by (auto simp: apsnd_def map_prod_def elim!: map_sum_OkE split: prod.splits)
            from metadata_step(2)[OF f3 _ this refl]
            have "fresh_run ?jv d0 (?f4 (?f3 (?f2 (?f1 row)))) d4" "same_start row (?f4 (?f3 (?f2 (?f1 row))))"
              by (simp_all add: same_start_def)
            from last4[OF this] show ?thesis using went_on(2) by (simp add: same_start_def)
          qed
        qed
      qed
    qed
  qed
qed

section \<open>The ownership\<close>

lemma acquire_Err: "acquire js env pid now rid kind host server tag intent d = (d', Err e) \<Longrightarrow> d' = d"
  by (auto simp: acquire_def create_and_claim_def Let_def bind_result_Ok_iff elim!: run_tx_cases split: sum.splits option.splits prod.splits)

lemma acquire_release:
  assumes "\<forall>o' \<in> set (owners d). lo_id o' \<le> owners_seq d" "acquire js env pid now rid kind host server tag intent d = (d1, Ok g)"
    and "owners d2 = owners d1" "claims d2 = claims d1"
  shows "\<exists>d3. release_guard js later g d2 = (d3, Ok ()) \<and> claims d3 = claims d \<and> runs d3 = runs d2"
proof -
  obtain new where c: "create_and_claim (js_valid js) new (gd_claim_key g) d = (d1, Ok (Some (gd_owner g)))"
    using acquire_Ok(3)[OF assms(2)] by blast
  let ?o = "gd_owner g" and ?P = "\<lambda>r. lo_id r = lo_id (gd_owner g) \<and> lo_state r = Active \<and> holds_claim (lo_id (gd_owner g)) d2"
  let ?f = "\<lambda>r. r\<lparr>lo_state := Released, released_at := Some later\<rparr>"
  note cc = create_commit[OF c]
  have o: "owners d2 = owners d @ [?o]" "claims d2 = claims d @ [\<lparr>claim_key = gd_claim_key g, cl_owner_id = lo_id ?o, claimed_at = nlo_acquired_at new\<rparr>]"
    using assms(3,4) cc(1) by simp_all
  have fresh: "lo_id ?o \<notin> lo_id ` set (owners d)"
    using assms(1) unfolding cc(2) new_owner_row_def by force
  have act: "lo_state ?o = Active" unfolding cc(2) by (simp add: new_owner_row_def)
  have "owner_check (js_valid js) (?f ?o)" using cc(3) act by (auto simp: owner_check_def)
  moreover have hc: "holds_claim (lo_id ?o) d2" using o(2) by (simp add: holds_claim_def)
  moreover have "filter ?P (owners d) = []" "map (\<lambda>r. if ?P r then ?f r else r) (owners d) = owners d"
    "list_all (\<lambda>r. ?P r \<longrightarrow> owner_check (js_valid js) (?f r)) (owners d)"
    using fresh by (auto simp: filter_empty_conv list_all_iff intro!: map_idI) (metis imageI)+
  ultimately have u: "sql_update (owner_check (js_valid js)) ?P ?f (owners d2) = Some (owners d @ [?f ?o], 1)"
    using act unfolding o(1) by (simp add: sql_update_def update_where_def affected_def)
  have k: "filter (\<lambda>c. cl_owner_id c = lo_id ?o) (claims d) = []" "filter (\<lambda>c. cl_owner_id c \<noteq> lo_id ?o) (claims d) = claims d"
    using cc(5) by (auto simp: filter_empty_conv filter_id_conv)
  have "\<not> gd_failed g"
    using assms(2) by (auto simp: acquire_def start_heartbeat_def Let_def split: sum.splits option.splits prod.splits)
  then show ?thesis
    using u k unfolding release_guard_def release_def run_tx_def
    by (simp add: stop_heartbeat_def ensure_healthy_def one_row_def delete_where_def affected_def o(2))
qed

lemma acquire_tune_Err: "acquire_tune env q tags rid d = (d', Err e) \<Longrightarrow> d' = d"
  by (auto simp: acquire_tune_def apsnd_def map_prod_def elim!: map_sum_ErrE dest: acquire_Err
      split: if_splits option.splits prod.splits)

lemma acquire_tune_Ok:
  assumes "acquire_tune env q tags rid d = (d', Ok owner)"
  obtains (none) "q_driver q \<noteq> OpcdaKind" "owner = None" "d' = d"
  | (owned) host server g where "q_driver q = OpcdaKind" "q_bridge_host q = Some host" "q_server q = Some server" "owner = Some g"
      "acquire (pe_js env) (pe_lock env) (pe_pid env) (pe_later env) (Some rid) KTune host server
         (g_manipulated_variable tags) (Some (pe_intent env rid (g_manipulated_variable tags))) d = (d', Ok g)"
  using assms by (auto simp: acquire_tune_def apsnd_def map_prod_def elim!: map_sum_OkE split: if_splits option.splits prod.splits)

lemma acquire_tables:
  assumes "acquire js env pid now rid kind host server tag intent d = (d1, Ok g)"
  shows "runs d1 = runs d" "\<exists>t. claims d1 = claims d @ [\<lparr>claim_key = gd_claim_key g, cl_owner_id = lo_id (gd_owner g), claimed_at = t\<rparr>]"
    "lo_run_id (gd_owner g) = rid"
proof -
  obtain new where c: "create_and_claim (js_valid js) new (gd_claim_key g) d = (d1, Ok (Some (gd_owner g)))" "nlo_run_id new = rid"
    using assms by (auto simp: acquire_def start_heartbeat_def Let_def split: sum.splits option.splits prod.splits)
  note cc = create_commit[OF c(1)]
  show "runs d1 = runs d" "\<exists>t. claims d1 = claims d @ [\<lparr>claim_key = gd_claim_key g, cl_owner_id = lo_id (gd_owner g), claimed_at = t\<rparr>]"
    using cc(1) by simp_all
  show "lo_run_id (gd_owner g) = rid" using cc(2) c(2) by (simp add: new_owner_row_def)
qed

text \<open>The stages of a preparation past the checks of the request.\<close>

lemma prepare_stages:
  assumes "keys_ok d" "prepare_internal env session q0 d = (d', r)"
  obtains (refused) "d' = d" "\<not> is_ok r"
  | (metadata) row reason where "fresh_run (js_valid (pe_js env)) d row (d'\<lparr>runs := runs d @ [row], runs_seq := run_id row\<rparr>)" "\<not> is_ok r" 
      "runs d' = runs d @ [row\<lparr>outcome := OutFailed, completed_at := Some (pe_later env), failure_reason := Some reason\<rparr>]" "claims d' = claims d"
  | (building) q row timing config tags owner dm dq tmpl where "fresh_run (js_valid (pe_js env)) d row dm"
      "q_driver q = q_driver q0" "run_tags row = tags" "run_effective_tuning row = Some (timing_to_db timing)"
      "q_driver q = OpcdaKind \<longrightarrow> opc_server row = q_server q \<and> bridge_host row = q_bridge_host q"
      "acquire_tune env q tags (run_id row) dm = (dq, Ok owner)"
      "and_then (complete_driver_setup (pe_js env) (run_id row) (pe_later env) (pe_build env q (f_poll_interval_ms timing)) owner dq)
         (\<lambda>(drv, owner) d4. (d4, Ok \<lparr> pt_run_id = run_id row, pt_request = q, pt_template = tmpl, pt_tags = tags,
            pt_driver = drv, pt_config = config, pt_timing = timing, pt_started_at = pe_now env,
            pt_allow = bc_allow_uncertain_quality (pe_config env), pt_owner = owner \<rparr>)) = (d', r)"
proof (cases "prepare_request env q0")
  case (Inl e)
  then show ?thesis using assms(2) refused by (auto simp: prepare_internal_def is_ok_iff)
next
  case (Inr p)
  obtain q timing request row0 config tags gateway where p: "p = (q, timing, request, row0, config, tags, gateway)"
    by (cases p) auto
  have qd: "q_driver q = q_driver q0"
    using Inr p by (auto simp: prepare_request_def bind_result_Ok_iff Let_def elim!: map_sum_OkE split: if_splits)
  let ?st = "\<lparr> rs_loop_id = None, rs_loop_name = q_tagname q, rs_driver = driver_kind_to_db (q_driver q), rs_config = config,
       rs_template_origin = td_origin row0, rs_template = td_template row0, rs_tags = tags \<rparr>"
  obtain d1 r1 where st: "start_with_demo_session (js_valid (pe_js env)) session ?st (pe_now env) d = (d1, r1)" by fastforce
  note body = assms(2)[unfolded prepare_internal_def Let_def Inr p sum.case prod.case st db_call_def apsnd_conv]
  show ?thesis
  proof (cases r1)
    case (Inl e)
    then show ?thesis using body started_Err st refused by (auto simp: is_ok_iff)
  next
    case o1: (Inr run)
    note fresh = started_fresh[OF assms(1) st[unfolded o1]]
    obtain d2 r2 where md: "record_metadata env q timing request gateway (run_id run) d1 = (d2, r2)" by fastforce
    obtain row where row: "fresh_run (js_valid (pe_js env)) d row d2" "same_start run row"
      "is_ok r2 \<Longrightarrow> run_effective_tuning row = Some (timing_to_db timing) \<and>
         (q_driver q = OpcdaKind \<longrightarrow> opc_server row = q_server q \<and> bridge_host row = q_bridge_host q)"
      using metadata_recorded[OF fresh(1) md] by blast
    have id: "run_id row = run_id run" "run_tags row = tags" using row(2) fresh(2) by (simp_all add: same_start_def new_run_row_def)
    have fin: "finalize_preparation_failure (pe_js env) (run_id run) (pe_later env) reason d2 =
        d2\<lparr>runs := runs d @ [row\<lparr>outcome := OutFailed, completed_at := Some (pe_later env), failure_reason := Some reason\<rparr>]\<rparr>" for reason
      using appended_fail[OF fresh_runs(1-3)[OF row(1)]] id by (simp add: finalize_preparation_failure_def)
    have d2: "d2 = d\<lparr>runs := runs d @ [row], runs_seq := run_id row\<rparr>" using row(1) by (simp add: fresh_run_def)
    have failed: ?thesis if "d' = finalize_preparation_failure (pe_js env) (run_id run) (pe_later env) reason d2" "\<not> is_ok r" for reason
      using that row(1) unfolding fin by (intro metadata[of row reason]) (simp_all add: d2)
    show ?thesis
    proof (cases r2)
      case (Inl e)
      then show ?thesis using body o1 md failed by (auto simp: is_ok_iff)
    next
      case o2: (Inr u)
      obtain d3 r3 where aq: "acquire_tune env q tags (run_id run) d2 = (d3, r3)" by fastforce
      show ?thesis
      proof (cases r3)
        case (Inl e)
        then have "d3 = d2" using acquire_tune_Err aq by blast
        then show ?thesis using body o1 md o2 aq Inl failed by (auto simp: is_ok_iff)
      next
        case (Inr owner)
        then show ?thesis
          using body o1 md o2 aq row(1,3) id qd
          by (intro building[where row = row and q = q and tags = tags and timing = timing and owner = owner and dq = d3])
            (simp_all add: is_ok_iff)
      qed
    qed
  qed
qed

text \<open>C29: A preparation that fails leaves the controller free and no run marked running: whatever the
  stage it fails at, afterwards exactly the same claims are held, and either nothing was recorded or
  the new run is on record as failed.\<close>

theorem failed_preparation_frees_controller:
  assumes "db_reach (js_valid (pe_js env)) d" "prepare_internal env session q d = (d', Err e)"
  shows "claims d' = claims d \<and>
    (runs d' = runs d \<or> (\<exists>row. runs d' = runs d @ [row] \<and> outcome row = OutFailed \<and> failure_reason row \<noteq> None))"
proof -
  have k: "keys_ok d" using reach_ok[OF assms(1)] by (simp add: db_ok_def)
  from k assms(2) show ?thesis
  proof (cases rule: prepare_stages)
    case refused
    then show ?thesis by simp
  next
    case (metadata row reason)
    then show ?thesis by simp
  next
    case (building q' row timing config tags owner d2 d3 tmpl)
    have d2: "d2 = d\<lparr>runs := runs d @ [row], runs_seq := run_id row\<rparr>" using building(1) by (simp add: fresh_run_def)
    note fr = fresh_runs[OF building(1)]
    have k2: "\<forall>o' \<in> set (owners d2). lo_id o' \<le> owners_seq d2" using k unfolding d2 keys_ok_def by simp
    obtain x where b: "pe_build env q' (f_poll_interval_ms timing) = Err x"
      using building(7) by (cases "pe_build env q' (f_poll_interval_ms timing)") (auto simp: complete_driver_setup_def)
    from building(6) show ?thesis
    proof (cases rule: acquire_tune_Ok)
      case none
      then show ?thesis
        using building(7) b appended_fail[OF fr(1-3), of "pe_later env" x] by (auto simp: complete_driver_setup_def d2)
    next
      case (owned host server g)
      have "runs d3 = runs d @ [row]" using acquire_tables(1)[OF owned(5)] fr(1) by simp
      note f = appended_fail[OF this fr(2,3), of "pe_later env" x]
      let ?d4 = "d3\<lparr>runs := runs d @ [row\<lparr>outcome := OutFailed, completed_at := Some (pe_later env), failure_reason := Some x\<rparr>]\<rparr>"
      obtain d5 where r: "release_guard (pe_js env) (pe_later env) g ?d4 = (d5, Ok ())" "claims d5 = claims d2" "runs d5 = runs ?d4"
        using acquire_release[OF k2 owned(5), of ?d4 "pe_later env"] by auto
      then show ?thesis
        using building(7) b f owned(4) by (auto simp: complete_driver_setup_def d2)
    qed
  qed
qed

lemma prepared_holds:
  assumes "db_reach (js_valid (pe_js env)) d" "prepare_internal env session q d = (d', Ok p)"
  shows "\<exists>row. runs d' = runs d @ [row] \<and> run_id row = pt_run_id p \<and> run_id row \<notin> run_id ` set (runs d) \<and> run_check (js_valid (pe_js env)) row \<and> outcome row = OutRunning \<and>
    run_effective_tuning row = Some (timing_to_db (pt_timing p)) \<and>
    (case pt_owner p of
       None \<Rightarrow> q_driver q \<noteq> OpcdaKind \<and> claims d' = claims d
     | Some g \<Rightarrow> lo_run_id (gd_owner g) = Some (pt_run_id p) \<and>
         (\<exists>host server t. bridge_host row = Some host \<and> opc_server row = Some server \<and>
            claims d' = claims d @ [\<lparr> claim_key = live_claim_key (pe_js env) (gd_database_key g)
               (live_resource_key (pe_js env) host server (g_manipulated_variable (run_tags row))),
               cl_owner_id = lo_id (gd_owner g), claimed_at = t \<rparr>]))"
proof -
  have k: "keys_ok d" using reach_ok[OF assms(1)] by (simp add: db_ok_def)
  from k assms(2) show ?thesis
  proof (cases rule: prepare_stages)
    case (building q' row timing config tags owner d2 d3 tmpl)
    have d2: "d2 = d\<lparr>runs := runs d @ [row], runs_seq := run_id row\<rparr>" using building(1) by (simp add: fresh_run_def)
    note fr = fresh_runs[OF building(1)]
    obtain drv where b: "pe_build env q' (f_poll_interval_ms timing) = Ok drv"
      using building(7) by (cases "pe_build env q' (f_poll_interval_ms timing)")
        (auto simp: complete_driver_setup_def and_then_Ok split: prod.splits sum.splits option.splits)
    then have e: "d' = d3" "pt_run_id p = run_id row" "pt_timing p = timing" "pt_owner p = owner"
      using building(7) by (auto simp: complete_driver_setup_def)
    from building(6) show ?thesis
    proof (cases rule: acquire_tune_Ok)
      case none
      then show ?thesis using e fr building(2,4) d2 by (intro exI[of _ row]) simp
    next
      case (owned host server g)
      note t = acquire_tables[OF owned(5)]
      then show ?thesis
        using e fr building(3-5) owned(1-4) acquire_Ok(2)[OF owned(5)] d2 by (intro exI[of _ row]) auto
    qed
  qed (auto simp: is_ok_iff)
qed

text \<open>C30: A prepared live run holds its controller: its row is on record as running with the timing it
  will use, its ownership names it and holds a new claim, and the claim's key is the one any later
  operation computes from the connection and the tags recorded in the row.  A simulator run holds
  no claim.\<close>

theorem prepared_run_holds_claim:
  assumes "db_reach (js_valid (pe_js env)) d" "prepare_internal env session q d = (d', Ok p)"
  shows "\<exists>row. runs d' = runs d @ [row] \<and> run_id row = pt_run_id p \<and> outcome row = OutRunning \<and>
    run_effective_tuning row = Some (timing_to_db (pt_timing p)) \<and>
    (case pt_owner p of
       None \<Rightarrow> q_driver q \<noteq> OpcdaKind \<and> claims d' = claims d
     | Some g \<Rightarrow> lo_run_id (gd_owner g) = Some (pt_run_id p) \<and>
         (\<exists>host server t. bridge_host row = Some host \<and> opc_server row = Some server \<and>
            claims d' = claims d @ [\<lparr> claim_key = live_claim_key (pe_js env) (gd_database_key g)
               (live_resource_key (pe_js env) host server (g_manipulated_variable (run_tags row))),
               cl_owner_id = lo_id (gd_owner g), claimed_at = t \<rparr>]))"
  using prepared_holds[OF assms] by blast

section \<open>Witnesses\<close>

text \<open>A live tune, with a driver that opens or does not.\<close>

definition demo_prepare_env :: "(string, unit) result \<Rightarrow> unit prepare_env" where
  "demo_prepare_env built =
     \<lparr> pe_config = \<lparr> bc_server_mode = None,
         bc_demo = \<lparr> dc_session_ttl_secs = None, dc_poll_interval_ms = None, dc_run_timeout_secs = None,
           dc_max_active_runs_global = None, dc_max_active_runs_per_visitor = None, dc_accepted_starts_per_token = None,
           dc_accepted_starts_per_client_ip = None, dc_accepted_start_window_secs = None, dc_retained_runs_per_visitor = None,
           dc_max_runs_per_session = None, dc_max_tune_run_rows_global = None, dc_max_json_body_bytes = None,
           dc_max_sse_per_visitor = None, dc_max_sse_global = None, dc_sse_lifetime_secs = None,
           dc_ordinary_request_concurrency = None, dc_ordinary_request_timeout_secs = None, dc_cleanup_interval_secs = None \<rparr>,
         bc_db = None, bc_bridge_host = None, bc_server = None, bc_templates = None, bc_bind = None, bc_origin = None,
         bc_trusted_proxy = None, bc_retention_days = None, bc_allow_uncertain_quality = False,
         bc_tuning = \<lparr> c_mrft_delay_secs = None, c_poll_interval_ms = None, c_timeout_secs = None, c_op_timeout_secs = None,
           c_restore_timeout_secs = None \<rparr> \<rparr>,
       pe_templates = \<lparr> tt_rows = [\<lparr> td_id = 1, td_origin = OBuiltin, td_template = yokogawa_template\<lparr>t_name := ''Yokogawa CentumVP''\<rparr>,
           td_created_at = 0, td_updated_at = 0 \<rparr>], tt_seq = 1 \<rparr>,
       pe_request_json = (\<lambda>_. ''{}''), pe_gateway = (\<lambda>_ _. Ok ''{}''), pe_now = 100, pe_later = 200, pe_lock = demo_env,
       pe_pid = 1, pe_intent = (\<lambda>_ _. ''{}''), pe_build = (\<lambda>_ _. built), pe_js = demo_js, pe_text = (\<lambda>_. ''failed'') \<rparr>"

definition demo_config_full :: loop_config where
  "demo_config_full = \<lparr> lc_process_type = Flow, lc_controller_type = CT_Pi, lc_relay_amp_percent = Fin 5,
     lc_num_cycles_skip = default_cycles_skip Flow, lc_num_cycles_count = default_cycles_test Flow,
     lc_noise_protection_secs = default_noise_protection_secs Flow, lc_mrft_delay_secs = 0 \<rparr>"

definition demo_timing :: effective_timing where
  "demo_timing = timing_of_config effective_tuning_default"

definition demo_q :: tune_request where
  "demo_q = demo_request\<lparr>q_bridge_host := Some DEFAULT_BRIDGE_HOST, q_server := Some ''S''\<rparr>"

lemma demo_config_ok: "build_loop_config_with_timing demo_q demo_timing = Ok demo_config_full"
  by (simp add: build_loop_config_with_timing_def demo_q_def demo_request_def demo_config_full_def demo_timing_def loop_config_validate_def
      timing_of_config_def effective_tuning_default_def DEFAULT_TUNING_MRFT_DELAY_SECS_def unwrap_or_def fl_simps
      RELAY_AMP_PERCENT_MIN_def RELAY_AMP_PERCENT_MAX_def MRFT_DELAY_SECS_MAX_def default_cycles_test_def DEFAULT_CYCLES_TEST_def)

lemma demo_tuning_ok:
  "resolve_and_validate_tuning_config (bc_tuning (pe_config (demo_prepare_env b))) True = Ok effective_tuning_default"
  by (simp add: resolve_and_validate_tuning_config_def demo_prepare_env_def resolve_tuning_config_def validate_tuning_config_def
      unwrap_or_def effective_tuning_default_def DEFAULT_TUNING_MRFT_DELAY_SECS_def DEFAULT_TUNING_POLL_INTERVAL_MS_def
      DEFAULT_TUNING_TIMEOUT_SECS_def DEFAULT_TUNING_OP_TIMEOUT_SECS_def DEFAULT_TUNING_RESTORE_TIMEOUT_SECS_def
      MAX_TUNING_MRFT_DELAY_SECS_def MIN_OPC_RESTORE_TIMEOUT_SECS_def)

definition demo_tags :: loop_tags where
  "demo_tags = opcda_loop_tags demo_q (yokogawa_template\<lparr>t_name := ''Yokogawa CentumVP''\<rparr>)"

lemma demo_prepare_request:
  "\<exists>row. prepare_request (demo_prepare_env b) demo_request = Ok (demo_q, demo_timing, ''{}'', row, demo_config_full, demo_tags, Some ''{}'')"
proof -
  have q: "q_write_pid demo_request = None" "q_driver demo_request = OpcdaKind" "q_server demo_request = Some ''S''"
    "q_bridge_host demo_request = None" "q_template demo_request = ''Yokogawa CentumVP''"
    by (simp_all add: demo_request_def)
  have e: "demo_request\<lparr>q_bridge_host := Some DEFAULT_BRIDGE_HOST, q_server := Some ''S''\<rparr> = demo_q" by (simp add: demo_q_def)
  have q': "q_driver demo_q = OpcdaKind" "q_template demo_q = ''Yokogawa CentumVP''" "q_bridge_host demo_q = Some DEFAULT_BRIDGE_HOST"
    "q_server demo_q = Some ''S''" by (simp_all add: demo_q_def q)
  have t: "timing_of_config effective_tuning_default = demo_timing" by (simp add: demo_timing_def)
  show ?thesis
    unfolding prepare_request_def Let_def
    by (simp add: q demo_tuning_ok resolve_bridge_host_def or_else_def resolve_server_def unwrap_or_def e q' t demo_config_ok build_loop_tags_def demo_tags_def)
      (simp add: demo_prepare_env_def template_get_by_name_def e q' t demo_config_ok demo_tags_def or_else_def unwrap_or_def)
qed


text \<open>The calls of the preparation, one after the other.\<close>

lemma demo_live_started:
  "\<exists>d1 run. start_with_demo_session (\<lambda>_. True) None
     \<lparr> rs_loop_id = None, rs_loop_name = q_tagname demo_q, rs_driver = driver_kind_to_db (q_driver demo_q), rs_config = demo_config_full,
       rs_template_origin = td_origin row, rs_template = td_template row, rs_tags = demo_tags \<rparr> 100 demo_empty = (d1, Ok run)"
  by (simp add: start_with_demo_session_def Let_def new_run_row_def run_check_def json_ok_def demo_empty_def empty_db_def run_tx_def
      cond_def insert_triggers_ok_def demo_config_full_def run_reference_ok_def)

lemma demo_metadata:
  assumes "fresh_run (\<lambda>_. True) demo_empty row d"
  shows "is_ok (snd (record_metadata (demo_prepare_env b) demo_q demo_timing ''{}'' (Some ''{}'') (run_id row) d))"
proof -
  have jv: "js_valid (pe_js (demo_prepare_env b)) = (\<lambda>_. True)" by (simp add: demo_prepare_env_def demo_js_def)
  have u: "update_run (\<lambda>_. True) i f e = (e\<lparr>runs := [f r]\<rparr>, Ok (f r))"
    if "runs e = [r]" "run_id r = i" "run_check (\<lambda>_. True) (f r)" for f e r i
    using that update_appended[of e "[]" r "\<lambda>_. True" f] by simp
  obtain r where r: "runs d = [r]" "r = row" "run_check (\<lambda>_. True) r" using fresh_runs[OF assms] by (simp add: demo_empty_def empty_db_def)
  show ?thesis
    unfolding record_metadata_def Let_def jv
    using r by (simp add: record_effective_tuning_def record_allow_uncertain_quality_def record_connection_def
      record_gateway_compatibility_def update_notes_def u db_call_def run_check_def json_ok_def demo_timing_def)
qed

lemma demo_acquired:
  assumes "fresh_run (\<lambda>_. True) demo_empty row d"
  shows "is_ok (snd (acquire_tune (demo_prepare_env b) demo_q demo_tags (run_id row) d))"
proof -
  have q: "q_driver demo_q = OpcdaKind" "q_bridge_host demo_q = Some DEFAULT_BRIDGE_HOST" "q_server demo_q = Some ''S''"
    by (simp_all add: demo_q_def demo_request_def)
  have env: "pe_js (demo_prepare_env b) = demo_js" "pe_lock (demo_prepare_env b) = demo_env" "pe_pid (demo_prepare_env b) = 1" "js_valid demo_js = (\<lambda>_. True)"
    by (simp_all add: demo_prepare_env_def demo_js_def)
  have d: "claims d = []" "owners d = []" "runs d = [row]" "outcome row = OutRunning"
    using fresh_runs[OF assms] assms by (simp_all add: fresh_run_def demo_empty_def empty_db_def)
  show ?thesis
    by (simp add: acquire_tune_def q env acquire_def demo_try create_and_claim_def run_tx_def insert_owner_def new_owner_row_def
      owner_check_def json_ok_def run_reference_ok_def insert_claim_or_nothing_def insert_claim_def one_row_def Let_def d)
qed

text \<open>So the preparation reaches the driver.\<close>

lemma demo_prepared: "is_ok (snd (prepare_internal (demo_prepare_env b) None demo_request demo_empty)) = is_ok b"
proof -
  let ?env = "demo_prepare_env b"
  obtain row where pr: "prepare_request ?env demo_request = Ok (demo_q, demo_timing, ''{}'', row, demo_config_full, demo_tags, Some ''{}'')"
    using demo_prepare_request by blast
  have env: "js_valid (pe_js ?env) = (\<lambda>_. True)" "pe_now ?env = 100" "pe_build ?env = (\<lambda>_ _. b)"
    by (simp_all add: demo_prepare_env_def demo_js_def)
  obtain d1 run where st: "start_with_demo_session (\<lambda>_. True) None
     \<lparr> rs_loop_id = None, rs_loop_name = q_tagname demo_q, rs_driver = driver_kind_to_db (q_driver demo_q), rs_config = demo_config_full,
       rs_template_origin = td_origin row, rs_template = td_template row, rs_tags = demo_tags \<rparr> 100 demo_empty = (d1, Ok run)"
    using demo_live_started by blast
  have fr: "fresh_run (\<lambda>_. True) demo_empty run d1"
    using started_fresh(1)[OF _ st] reach_ok[OF demo_empty_reach] by (simp add: db_ok_def)
  obtain d2 where md: "record_metadata ?env demo_q demo_timing ''{}'' (Some ''{}'') (run_id run) d1 = (d2, Ok ())"
    using demo_metadata[OF fr, of b] by (cases "record_metadata ?env demo_q demo_timing ''{}'' (Some ''{}'') (run_id run) d1") (auto simp: is_ok_iff)
  obtain row' where row': "fresh_run (\<lambda>_. True) demo_empty row' d2" "same_start run row'"
    using metadata_recorded[of ?env, unfolded env(1), OF fr md] by blast
  have ri: "run_id run = run_id row'" using row'(2) by (simp add: same_start_def)
  obtain d3 owner where aq: "acquire_tune ?env demo_q demo_tags (run_id run) d2 = (d3, Ok owner)"
    using demo_acquired[OF row'(1), of b] unfolding ri by (cases "acquire_tune ?env demo_q demo_tags (run_id row') d2") (auto simp: is_ok_iff)
  obtain k where p: "prepare_internal ?env None demo_request demo_empty =
      and_then (complete_driver_setup (pe_js ?env) (run_id run) (pe_later ?env) b owner d3) (\<lambda>(drv, owner) d4. (d4, Ok (k drv owner)))"
    using st by (simp add: prepare_internal_def pr env db_call_def md aq Let_def)
  show ?thesis
  proof (cases b)
    case (Inl e)
    then have "\<not> is_ok (snd (complete_driver_setup (pe_js ?env) (run_id run) (pe_later ?env) b owner d3))"
      by (auto simp: complete_driver_setup_def and_then_def is_ok_iff split: prod.splits sum.splits option.splits)
    then show ?thesis unfolding p using Inl by (auto simp: and_then_def is_ok_iff split: prod.splits sum.splits)
  next
    case (Inr drv)
    then show ?thesis unfolding p by (simp add: complete_driver_setup_def is_ok_iff)
  qed
qed

theorem failed_preparation_frees_controller_witness:
  "\<exists>d' e. prepare_internal (demo_prepare_env (Err ''refused'')) None demo_request demo_empty = (d', Err e) \<and> claims d' = []"
proof -
  obtain d' e where p: "prepare_internal (demo_prepare_env (Err ''refused'')) None demo_request demo_empty = (d', Err e)"
    using demo_prepared[of "Err ''refused''"]
    by (cases "prepare_internal (demo_prepare_env (Err ''refused'')) None demo_request demo_empty"; cases "snd (prepare_internal (demo_prepare_env (Err ''refused'')) None demo_request demo_empty)")
      (auto simp: is_ok_iff)
  then show ?thesis
    using failed_preparation_frees_controller[OF demo_empty_reach p] by (auto simp: demo_empty_def empty_db_def)
qed

theorem prepared_run_holds_claim_witness:
  "\<exists>d' p g t row. prepare_internal (demo_prepare_env (Ok ())) None demo_request demo_empty = (d', Ok p) \<and> pt_owner p = Some g \<and>
     runs d' = [row] \<and> run_id row = pt_run_id p \<and> outcome row = OutRunning \<and> lo_run_id (gd_owner g) = Some (pt_run_id p)"
proof -
  obtain d' p where p: "prepare_internal (demo_prepare_env (Ok ())) None demo_request demo_empty = (d', Ok p)"
    using demo_prepared[of "Ok ()"]
    by (cases "prepare_internal (demo_prepare_env (Ok ())) None demo_request demo_empty"; cases "snd (prepare_internal (demo_prepare_env (Ok ())) None demo_request demo_empty)")
      (auto simp: is_ok_iff)
  have "q_driver demo_request = OpcdaKind" "runs demo_empty = []" by (simp_all add: demo_request_def demo_empty_def empty_db_def)
  then show ?thesis
    using prepared_run_holds_claim[OF demo_empty_reach p] p by (auto split: option.splits)
qed

end
