(* ===== verification/Execute_Safety.thy ===== *)
theory Execute_Safety
  imports Execute Prepare_Safety
begin

text \<open>
  What an executed run guarantees: the ownership of the controller is given up only once the run's end
  is on record, and a run that reports itself completed or aborted has put the loop back.
\<close>

section \<open>What the writes of a restore leave alone\<close>

text \<open>A part of the driver's state that no write changes.\<close>

definition quiet :: "('d \<Rightarrow> 'v) \<Rightarrow> 'd put \<Rightarrow> bool" where
  "quiet f put \<longleftrightarrow> (\<forall>tag w d. f (fst (put tag w d)) = f d)"

lemma quietD: "quiet f put \<Longrightarrow> put tag w d = (d', r) \<Longrightarrow> f d' = f d"
  by (metis quiet_def fst_conv)

lemma quiet_value: "quiet f put \<Longrightarrow> write_value put tag v d = (d', r) \<Longrightarrow> f d' = f d"
  using quietD by (fastforce simp: write_value_def split: prod.splits)

lemma quiet_raw: "quiet f put \<Longrightarrow> write_raw put tag v d = (d', r) \<Longrightarrow> f d' = f d"
  using quietD by (fastforce simp: write_raw_def split: prod.splits)

lemma quiet_step: "quiet f put \<Longrightarrow> run_step lib put w d = (d', r) \<Longrightarrow> f d' = f d"
  using quietD by (fastforce simp: run_step_def step_of_def split: prod.splits option.splits)

lemma quiet_cut: "quiet f put \<Longrightarrow> quiet (f \<circ> fst) (cut_put put)"
  by (auto simp: quiet_def cut_put_def split: prod.splits nat.splits) (metis fst_conv)

lemma quiet_bounded: "quiet f put \<Longrightarrow> bounded_write put e tag v d = (d', r) \<Longrightarrow> f d' = f d"
  using quiet_value[of f put tag v d] by (auto simp: bounded_write_def split: prod.splits call_end.splits)

lemma quiet_policy:
  assumes "quiet f put"
  shows "f (fst (restore_after_mv_with_policy lib put tags tmpl i g mv policy d)) = f d"
proof -
  have s: "f (fst (run_step lib put w d)) = f d" for w d using quiet_step[OF assms, of lib w d] by (cases "run_step lib put w d") simp
  show ?thesis by (cases policy) (simp_all add: restore_after_mv_with_policy_def steps_are_writes split_beta Let_def s)
qed

lemma quiet_after:
  assumes "quiet f put" "after_mv put x mv policy i s = (s', a)"
  shows "f (rv_driver s') = f (rv_driver s)"
proof -
  have "f (fst (restore_after_mv_with_deadline lib timing put tags tmpl ini g mv policy race d)) = f d" for lib :: report_lib and timing tags tmpl ini g race d
    using quiet_policy[OF assms(1)] quiet_policy[OF quiet_cut[OF assms(1)], of _ _ _ _ _ _ _ "(d, _)"]
    by (cases race) (simp_all add: restore_after_mv_with_deadline_def Let_def split_beta)
  then show ?thesis using assms(2) by (auto simp: after_mv_def split_beta Let_def)
qed

lemma quiet_rewrite:
  assumes "quiet f put" "rewrite_mv put lib timing rid tag mv allow policy i t s = (s', r)"
  shows "f (rv_driver s') = f (rv_driver s)"
proof -
  obtain d' w where b: "bounded_write put (ri_write i) tag mv (rv_driver s) = (d', w)" by fastforce
  have "rv_driver s' = d'"
    using assms(2) by (auto simp: rewrite_mv_def b Let_def split: option.splits prod.splits sum.splits)
  then show ?thesis using quiet_bounded[OF assms(1) b] by simp
qed

lemma quiet_mv:
  assumes "quiet f put" "restore_mv_step put lib timing rid tag mv allow policy i s = (s', r)"
  shows "f (rv_driver s') = f (rv_driver s)"
proof (cases "rv_tracker s")
  case None
  obtain d' w where b: "bounded_write put (ri_write i) tag mv (rv_driver s) = (d', w)" by fastforce
  show ?thesis using assms(2) None quiet_bounded[OF assms(1) b] by (auto simp: restore_mv_step_def b)
next
  case (Some t)
  obtain t1 db1 h where h: "try_confirm_final_snapback lib timing tag mv allow i (rv_deadline s) (t, rv_db s) = ((t1, db1), h)"
    by (metis surj_pair)
  let ?s1 = "s\<lparr>rv_tracker := Some t1, rv_db := db1\<rparr>"
  have "s' = s \<or> s' = ?s1 \<or> (\<exists>r. rewrite_mv put lib timing rid tag mv allow policy i t1 ?s1 = (s', r))"
    using assms(2) Some by (auto simp: restore_mv_step_def h Let_def split: if_splits sum.splits option.splits restore_handoff_outcome.splits)
  then show ?thesis using quiet_rewrite[OF assms(1)] by (auto dest: quiet_rewrite[OF assms(1)])
qed

lemma quiet_restore:
  assumes "quiet f put"
  shows "f (rv_driver (re_state (attempt_restore put x policy period i completion acc d tr db0))) = f d"
  (is "f (rv_driver (re_state ?e)) = f d")
proof -
  let ?s0 = "\<lparr> rv_driver = d, rv_tracker = tr, rv_db = db0, rv_deadline = ri_start i + secs (f_restore_timeout_secs (rx_timing x)) \<rparr>"
  obtain s1 m where mv: "restore_mv_step put (rx_lib x) (rx_timing x) (rx_run_id x) (g_manipulated_variable (rx_tags x))
      (is_mv_ini (rx_initial x)) (rx_allow x) policy i ?s0 = (s1, m)" by fastforce
  have a: "re_state ?e = s1 \<or> (\<exists>mv p a. after_mv put x mv p i s1 = (re_state ?e, a))"
    by (auto simp: attempt_restore_def Let_def mv split_beta split: option.splits restore_mv_outcome.splits sum.splits)
      (metis prod.collapse)+
  have "f (rv_driver s1) = f d" using quiet_mv[OF assms mv] by simp
  then show ?thesis using a quiet_after[OF assms] by metis
qed

section \<open>What a write-back leaves alone\<close>

text \<open>The claims, the runs, and what every tag but the given ones holds.\<close>

definition same :: "('d \<Rightarrow> string \<Rightarrow> tag_write \<Rightarrow> bool) \<Rightarrow> string set \<Rightarrow> 'd audited_driver \<Rightarrow> 'd audited_driver \<Rightarrow> bool" where
  "same H ts s s' \<longleftrightarrow> claims (au_db s') = claims (au_db s) \<and> runs (au_db s') = runs (au_db s) \<and>
     (\<forall>t v. t \<notin> ts \<longrightarrow> H (au_inner s') t v = H (au_inner s) t v)"

definition independent :: "('d \<Rightarrow> string \<Rightarrow> tag_write \<Rightarrow> bool) \<Rightarrow> 'd controller \<Rightarrow> bool" where
  "independent H c \<longleftrightarrow> (\<forall>tag w d d' r t v. co_put c tag w d = (d', r) \<longrightarrow> t \<noteq> tag \<longrightarrow> H d' t v = H d t v) \<and>
     (\<forall>tags d d' r t v. co_get c tags d = (d', r) \<longrightarrow> H d' t v = H d t v)"

lemma independent_put: "independent H c \<Longrightarrow> co_put c tag w d = (d', r) \<Longrightarrow> t \<noteq> tag \<Longrightarrow> H d' t v = H d t v"
  unfolding independent_def by blast

lemma independent_get: "independent H c \<Longrightarrow> co_get c tags d = (d', r) \<Longrightarrow> H d' t v = H d t v"
  unfolding independent_def by blast

lemma same_refl [simp]: "same H ts s s" by (simp add: same_def)

lemma same_trans: "same H ts s s1 \<Longrightarrow> same H ts s1 s2 \<Longrightarrow> same H ts s s2" by (simp add: same_def)

lemma same_mono: "same H ts s s' \<Longrightarrow> ts \<subseteq> us \<Longrightarrow> same H us s s'" by (auto simp: same_def)

lemma same_guard [simp]: "same H ts (s\<lparr>au_guard := g\<rparr>) s' = same H ts s s'" by (simp add: same_def)

lemma same_db:
  "same H ts s (s\<lparr>au_db := d\<rparr>) \<longleftrightarrow> claims d = claims (au_db s) \<and> runs d = runs (au_db s)" by (auto simp: same_def)

lemma co_write_same:
  assumes "independent H c" "co_write c rid tag v s = (s', r)" shows "same H {tag} s s'"
proof -
  obtain y where "audited_write (co_js c) (co_el c) (co_put c) rid tag (WFloat v) s = (s', y)"
    using assms by (auto simp: co_write_def write_value_def split: prod.splits)
  from audited_write_tables[OF this] have "claims (au_db s') = claims (au_db s)" "runs (au_db s') = runs (au_db s)" by simp_all
  moreover have "H (au_inner s') t v' = H (au_inner s) t v'" if "t \<noteq> tag" for t v'
    using co_write_cases(3)[OF assms(2)] independent_put[OF assms(1) _ that] by metis
  ultimately show ?thesis by (simp add: same_def)
qed

lemma co_read_same: "independent H c \<Longrightarrow> co_read c tag allow s = (s', r) \<Longrightarrow> same H ts s s'"
  using co_read_inner[of c tag allow s s' r] independent_get[of H c] by (auto simp: same_def)

lemma verify_same:
  assumes "independent H c" "write_and_verify_pid_value c rid label tag v allow s = (s', r)" shows "same H {tag} s s'"
proof -
  obtain s1 x where w: "co_write c rid tag v s = (s1, x)" by fastforce
  obtain s2 y where rd: "co_read c tag allow s1 = (s2, y)" by fastforce
  have "s' = s1 \<or> s' = s2"
    using assms w rd by (auto simp: write_and_verify_pid_value_def Let_def split: sum.splits if_splits)
  then show ?thesis
    using co_write_same[OF assms(1) w] same_trans[OF co_write_same[OF assms(1) w] co_read_same[OF assms(1) rd]] by blast
qed

lemma constants_same: "independent H c \<Longrightarrow> pt_tag ` set ts \<subseteq> us \<Longrightarrow> same H us (fst sp) (fst (write_constants c rid allow ts sp))"
proof (induction c rid allow ts sp rule: write_constants.induct)
  case (2 c rid allow t ts s g)
  let ?s1 = "s\<lparr>au_guard := queue_previous_write_value (pt_tag t) (wl_number (co_lib c) (pt_previous_value t)) (au_guard s)\<rparr>"
  obtain s2 r where v: "write_and_verify_pid_value c rid (pt_label t) (pt_tag t) (pt_value t) allow ?s1 = (s2, r)" by fastforce
  have 1: "same H us s s2" using same_mono[OF verify_same[OF 2(2) v]] 2(3) by simp
  show ?case
  proof (cases r)
    case (Inr x)
    then have "same H us s2 (fst (write_constants c rid allow ts (s2,
        g\<lparr>pg_written := pg_written g @ [pt_value t], pg_readback := pg_readback g @ [x], pg_confirmed := pg_confirmed g @ [t]\<rparr>)))"
      using 2(1)[OF refl refl v[symmetric] Inr 2(2)] 2(3) by simp
    then show ?thesis using v Inr same_trans[OF 1] by (simp add: Let_def)
  qed (use v 1 in \<open>simp add: Let_def\<close>)
qed simp

lemma constants_confirmed:
  "set (pg_confirmed (snd (write_constants c rid allow ts sp))) \<subseteq> set (pg_confirmed (snd sp)) \<union> set ts"
proof (induction c rid allow ts sp rule: write_constants.induct)
  case (2 c rid allow t ts s g)
  then show ?case by (fastforce simp: Let_def split: prod.splits sum.splits)
qed simp

lemma rollback_same: "independent H c \<Longrightarrow> pt_tag ` set ts \<subseteq> us \<Longrightarrow> same H us s (fst (rollback_failures c rid ts s))"
proof (induction c rid ts s rule: rollback_failures.induct)
  case (2 c rid t ts s)
  let ?s1 = "s\<lparr>au_guard := queue_previous_write_value (pt_tag t) (wl_number (co_lib c) (pt_value t)) (au_guard s)\<rparr>"
  obtain s2 r where v: "co_write c rid (pt_tag t) (pt_previous_value t) ?s1 = (s2, r)" by fastforce
  have 1: "same H us s s2" using same_mono[OF co_write_same[OF 2(3) v]] 2(4) by simp
  have "same H us s (fst (rollback_failures c rid ts s2))" if "is_finite (pt_value t)"
    using that 2(2)[OF refl _ refl v[symmetric] refl 2(3)] 2(4) v same_trans[OF 1] by simp
  then show ?case using 2(1)[OF refl _ 2(3)] 2(4) v by (auto simp: Let_def)
qed simp

lemma inserted_same: "insert_write rid w out s = (s', r) \<Longrightarrow> same H us s s'"
  by (auto simp: same_def insert_write_def write_insert_def run_tx_def Let_def split: prod.splits sum.splits if_splits)

lemma insert_same: "same H us s (fst (insert_write rid w out s))"
  using inserted_same by (metis prod.collapse)

lemma roll_back_same:
  assumes "independent H c" shows "same H {p, i, d} s (fst (write_and_roll_back c rid p i d target previous kind allow w s))"
proof -
  obtain s1 g where w: "write_constants c (Some rid) allow (pid_steps p i d target previous)
      (s, \<lparr> pg_written = [], pg_readback = [], pg_confirmed = [], pg_failure = None \<rparr>) = (s1, g)" by fastforce
  have t: "pt_tag ` set (pid_steps p i d target previous) = {p, i, d}" by (auto simp: pid_steps_def)
  have conf: "set (pg_confirmed g) \<subseteq> set (pid_steps p i d target previous)"
    using constants_confirmed[of c "Some rid" allow "pid_steps p i d target previous"
        "(s, \<lparr> pg_written = [], pg_readback = [], pg_confirmed = [], pg_failure = None \<rparr>)"] w by simp
  have 1: "same H {p, i, d} s s1" using constants_same[OF assms, of _ _ "(s, _)" "Some rid" allow] w t by (metis fst_conv subset_refl)
  have 2: "same H {p, i, d} s (fst (insert_write rid w out s1))" for w out by (rule same_trans[OF 1 insert_same])
  have 3: "same H {p, i, d} s s2" if "rollback_pid_writes c (Some rid) (pg_confirmed g) s1 = (s2, r)" for s2 r
  proof -
    have "same H {p, i, d} s1 (fst (rollback_failures c (Some rid) (pg_confirmed g) s1))"
      by (rule rollback_same[OF assms]) (use conf t in blast)
    then show ?thesis using that same_trans[OF 1] by (auto simp: rollback_pid_writes_def Let_def split: prod.splits)
  qed
  show ?thesis
    by (auto simp: write_and_roll_back_def w Let_def 2 split: option.splits prod.splits sum.splits intro: same_trans[OF 3 insert_same])
qed

lemma pre_read_same: "independent H c \<Longrightarrow> pre_read c label tag allow s = (s', r) \<Longrightarrow> same H us s s'"
  using pre_read_inner[of c label tag allow s s' r] independent_get[of H c] by (auto simp: same_def)

lemma previous_same:
  assumes "independent H c" "read_previous_pid_values c p i d allow s = (s', r)" shows "same H us s s'"
  using assms(2) pre_read_same[OF assms(1)]
  by (auto simp: read_previous_pid_values_def split: prod.splits sum.splits) (meson same_trans)+

lemma restore_intent_same:
  assumes "persist_restore_intent js intent g d = (d', r)" shows "claims d' = claims d \<and> runs d' = runs d"
proof -
  have "d' = d \<or> (\<exists>r'. set_restore_intent (js_valid js) (lo_id (gd_owner g)) intent d = (d', r'))"
    using assms by (auto simp: persist_restore_intent_def apsnd_def map_prod_def split: sum.splits prod.splits)
  then show ?thesis using set_restore_intent_owners(2,3) by blast
qed

lemma intent_same:
  assumes "persist_pid_restore_intent c rid kind level previous target s = (s', r)" shows "same H us s s'"
proof -
  have "s' = s \<or> (\<exists>x d y. s' = s\<lparr>au_db := d\<rparr> \<and> persist_restore_intent (co_js c) x (au_guard s) (au_db s) = (d, y))"
    using assms by (auto simp: persist_pid_restore_intent_def Let_def split: option.splits sum.splits prod.splits)
  then show ?thesis using restore_intent_same by (auto simp: same_def)
qed

lemma inner_same:
  assumes "independent H c" "write_pid_values_inner c rid p i d level target kind allow s = (s', r)" shows "same H {p, i, d} s s'"
proof (cases "is_ok (ensure_healthy (au_guard s)) \<and> lo_run_id (gd_owner (au_guard s)) = Some rid")
  case False
  then show ?thesis using assms by (auto simp: write_pid_values_inner_def is_ok_iff split: sum.splits if_splits)
next
  case True
  obtain s1 now where n: "co_now s = (s1, now)" by fastforce
  obtain s2 x where p: "read_previous_pid_values c p i d allow s1 = (s2, x)" by fastforce
  have 1: "same H {p, i, d} s s1" using n by (auto simp: co_now_def same_def)
  note 2 = same_trans[OF 1 previous_same[OF assms(1) p]]
  note run = assms(2)[unfolded write_pid_values_inner_def n prod.case p Let_def]
  show ?thesis
  proof (cases x)
    case (Inl e)
    then show ?thesis using run True by (auto simp: is_ok_iff dest!: inserted_same intro: same_trans[OF 2])
  next
    case (Inr previous)
    obtain s3 y where y: "persist_pid_restore_intent c rid kind level previous target s2 = (s3, y)" by fastforce
    note 3 = same_trans[OF 2 intent_same[OF y]]
    show ?thesis
      using run True Inr y 3 same_trans[OF 3 roll_back_same[OF assms(1)]] by (cases y) (auto simp: is_ok_iff, metis fst_conv)
  qed
qed

definition pid_tags :: "loop_tags \<Rightarrow> string set" where
  "pid_tags g = set_option (g_proportional_constant g) \<union> set_option (g_integral_constant g) \<union> set_option (g_derivative_constant g)"

lemma write_back_same:
  assumes "independent H c" "maybe_write_back_with_owner c rid tags t ct write_pid allow h owned rt s = (s', told, r)"
  shows "same H (pid_tags tags) s s'"
proof -
  have "s' = s \<or> (\<exists>p i d level target x. pid_tags tags = {p, i, d} \<and> write_pid_values_inner c rid p i d level target WWrite allow s = (s', x))"
    using assms(2) by (auto simp: maybe_write_back_with_owner_def Let_def pid_tags_def
      split: option.splits if_splits write_back_selection.splits sum.splits prod.splits)
  then show ?thesis using inner_same[OF assms(1)] by auto
qed

lemma independent_any: "independent (\<lambda>_ _ _. True) c" by (simp add: independent_def)

section \<open>The end of a run\<close>

abbreviation kept :: "'d exec_state \<Rightarrow> claim_row list" where "kept s \<equiv> claims (au_db (xs_driver s))"

definition ended :: "int \<Rightarrow> db \<Rightarrow> bool" where
  "ended rid d \<longleftrightarrow> exists_row (\<lambda>r. run_id r = rid \<and> outcome r \<noteq> OutRunning) (runs d)"

lemma update_run_leaves: "update_run jv rid f d = (d', r) \<Longrightarrow> claims d' = claims d"
  by (auto simp: update_run_def run_tx_def bind_result_Ok_iff bind_result_Err_iff split: sum.splits)

lemma update_run_ended:
  assumes "update_run jv rid f d = (d', Ok a)" "\<And>r. run_id (f r) = run_id r \<and> outcome (f r) \<noteq> OutRunning"
  shows "ended rid d'"
proof -
  obtain rs where rs: "one_row (sql_update (run_check jv) (\<lambda>r. run_id r = rid) f (runs d)) (Err Query :: (db_error, tune_run_row) result) = Inr rs"
    "d' = d\<lparr>runs := rs\<rparr>"
  proof (cases "one_row (sql_update (run_check jv) (\<lambda>r. run_id r = rid) f (runs d)) (Err Query :: (db_error, tune_run_row) result)")
    case (Inl e)
    then have "e \<noteq> Ok a" by (auto simp: one_row_def split: option.splits if_splits)
    then show ?thesis using assms(1) Inl by (simp add: update_run_def run_tx_def)
  next
    case (Inr rs)
    then show ?thesis using assms(1) that by (simp add: update_run_def run_tx_def)
  qed
  then have u: "rs = update_where (\<lambda>r. run_id r = rid) f (runs d)" "affected (\<lambda>r. run_id r = rid) (runs d) = 1"
    by (auto simp: one_row_def sql_update_def split: option.splits if_splits)
  from u(2) have "filter (\<lambda>r. run_id r = rid) (runs d) \<noteq> []" by (auto simp: affected_def)
  then obtain r where "r \<in> set (runs d)" "run_id r = rid" by (auto simp: filter_empty_conv)
  with u(1) show ?thesis using assms(2) rs(2) by (auto simp: ended_def list_ex_iff image_iff)
qed

lemmas terminal_defs = complete_with_timing_metrics_def abort_with_timing_metrics_def
  abort_with_timing_metrics_and_reason_def set_terminal_outcome_with_timing_metrics_def run_fail_def

lemma release_leaves:
  assumes "release_guard js now g d = (d', r)"
  shows "runs d' = runs d" "r = Err e \<Longrightarrow> claims d' = claims d"
  using assms by (auto simp: release_guard_def Let_def apsnd_def map_prod_def release_def run_tx_def
      bind_result_Ok_iff bind_result_Err_iff split: sum.splits prod.splits)

lemma put_keeps: "quiet (\<lambda>s. claims (au_db s)) (run_put_op x)"
proof -
  have "claims (au_db (fst (audited_write (co_js (xc_ctl x)) (co_el (xc_ctl x)) (co_put (xc_ctl x)) (Some (xc_run_id x)) tag w s))) =
      claims (au_db s)" for tag w s
    using audited_write_tables(3) by (metis prod.collapse)
  then show ?thesis by (simp add: quiet_def run_put_op_def Let_def split_beta)
qed

lemma on_db_kept:
  assumes "on_db f s = (s', r)" "\<And>d. claims (fst (f d)) = claims d" shows "kept s' = kept s"
  using assms by (auto simp: on_db_def split_beta Let_def)

lemma run_now_kept: "run_now s = (s', t) \<Longrightarrow> kept s' = kept s \<and> runs (au_db (xs_driver s')) = runs (au_db (xs_driver s))"
  by (auto simp: run_now_def co_now_def)

lemma restore_kept: "attempt_and_record_restore x rx i tr completion period acc s = Some (s', acc', a) \<Longrightarrow> kept s' = kept s"
  using quiet_restore[OF put_keeps]
  by (auto simp: attempt_and_record_restore_def with_run_db_def join_db_def Let_def split: option.splits)

lemma metrics_kept: "kept (record_timing_metrics_if_present x m s) = kept s"
  by (auto simp: record_timing_metrics_if_present_def record_timing_metrics_def on_db_def split_beta Let_def
      split: option.splits) (metis update_run_leaves prod.collapse)

lemma propagate_kept: "propagate_after_restore x inp i g tr err s = Some (s', r) \<Longrightarrow> kept s' = kept s \<and> \<not> is_ok r"
  using quiet_restore[OF put_keeps]
  by (auto simp: propagate_after_restore_def restore_best_effort_then_propagate_def with_run_db_def join_db_def Let_def is_ok_iff
      split: option.splits)

lemma failed_kept: "finish_failed_run x inp i g tr err m s = Some (s', r) \<Longrightarrow> kept s' = kept s \<and> \<not> is_ok r"
  by (auto simp: finish_failed_run_def metrics_kept dest!: propagate_kept)

lemma terminal_call:
  assumes "on_db (update_run jv rid f) s = (s', r)" "\<And>r. run_id (f r) = run_id r \<and> outcome (f r) \<noteq> OutRunning"
  shows "kept s' = kept s" "is_ok r \<Longrightarrow> ended rid (au_db (xs_driver s'))"
  using assms(1) update_run_leaves update_run_ended[OF _ assms(2)]
  by (fastforce simp: on_db_def is_ok_iff split: prod.splits)+

lemma aborted_kept:
  assumes "finish_aborted_run x inp i g tr reason m s = Some (s', r)"
  shows "kept s' = kept s" "is_ok r \<Longrightarrow> ended (xc_run_id x) (au_db (xs_driver s'))"
proof -
  obtain s1 acc a where a: "attempt_and_record_restore x (restore_ctx_of x i g) (xi_restore inp) tr None None None s = Some (s1, acc, a)"
    using assms by (auto simp: finish_aborted_run_def)
  obtain s2 now where n: "run_now s1 = (s2, now)" by fastforce
  obtain why where f: "(case reason of
      MvActuationUnconfirmed _ _ _ _ _ _ \<Rightarrow> abort_with_timing_metrics_and_reason (xc_jv x) (xc_run_id x) now m (xc_abort_text x reason)
    | _ \<Rightarrow> abort_with_timing_metrics (xc_jv x) (xc_run_id x) now m) =
     set_terminal_outcome_with_timing_metrics (xc_jv x) (xc_run_id x) now OutAborted m why"
    by (cases reason) (auto simp: terminal_defs)
  obtain s3 r3 where c: "on_db (set_terminal_outcome_with_timing_metrics (xc_jv x) (xc_run_id x) now OutAborted m why) s2 = (s3, r3)" by fastforce
  note t = terminal_call[OF c[unfolded set_terminal_outcome_with_timing_metrics_def]]
  have "s' = s3" "is_ok r = is_ok r3"
    using assms unfolding finish_aborted_run_def a Let_def option.map prod.case n f c by (cases r3; auto simp: is_ok_iff)+
  then show "kept s' = kept s" "is_ok r \<Longrightarrow> ended (xc_run_id x) (au_db (xs_driver s'))"
    using t restore_kept[OF a] run_now_kept[OF n] by simp_all
qed

lemma completed_kept:
  assumes "finish_completed_run x inp i g tr c acc period s = Some (s', r)"
  shows "kept s' = kept s \<and> (is_ok r \<longrightarrow> ended (xc_run_id x) (au_db (xs_driver s')))"
proof -
  let ?rid = "xc_run_id x" and ?c = "xc_ctl x" and ?pvr = "\<lparr> pv_high = is_pv_range_high i, pv_low = is_pv_range_low i \<rparr>"
  obtain rt results where p: "persist_results (co_lib ?c) (co_float ?c) (map run_id (runs (au_db (xs_driver s)))) ?rid
      (cp_action c) (is_direction i) (xc_config x) ?pvr (xc_template x) (xs_results s) = (rt, results)" by fastforce
  note run = assms[unfolded finish_completed_run_def Let_def p prod.case]
  let ?at = "attempt_and_record_restore x (restore_ctx_of x i g) (xi_restore inp) tr (Some c) period (Some acc) (s\<lparr>xs_results := rt\<rparr>)"
  obtain s2 acc' a where a: "?at = Some (s2, acc', a)" using run by (auto split: option.splits sum.splits)
  have k2: "kept s2 = kept s" using restore_kept[OF a] by simp
  obtain q where q: "results = Some q" using run by (cases results) auto
  show ?thesis
  proof (cases q)
      case (Inl e)
      then have "s' = record_timing_metrics_if_present x (Option.bind acc' (pt_finish None)) s2" "r = Err (XeWrite e)"
        using run q a by auto
      then show ?thesis using k2 by (simp add: metrics_kept is_ok_iff)
    next
      case (Inr previews)
      obtain s3 now where n: "run_now s2 = (s3, now)" by fastforce
      obtain s4 r4 where d: "on_db (complete_with_timing_metrics (xc_jv x) ?rid now (Option.bind acc' (pt_finish period))) s3 = (s4, r4)" by fastforce
      note t = terminal_call[OF d[unfolded terminal_defs]]
      have k4: "kept s4 = kept s" using t k2 run_now_kept[OF n] by simp
      show ?thesis
      proof (cases r4)
        case o4: (Inl e)
        then show ?thesis using run q Inr a n d k4 by (auto simp: is_ok_iff)
      next
        case o4: (Inr u)
        let ?s5 = "s4\<lparr>xs_told := xs_told s4 @ (if xc_handler x = None then [] else [PidResultsReady previews])\<rparr>"
        have e4: "ended ?rid (au_db (xs_driver s4))" using t o4 by (simp add: is_ok_iff)
        obtain dr told wr where w: "maybe_write_back_with_owner ?c ?rid (xc_tags x) (xc_template x) (lc_controller_type (xc_config x))
            (q_write_pid (xc_request x)) (xc_allow x) (xc_handler x) (xc_owned x) (xs_results ?s5) (xs_driver ?s5) = (dr, told, wr)"
          by (metis surj_pair)
        have "xs_driver s' = xs_driver s4 \<or> xs_driver s' = dr"
          using run q Inr a n d o4 w by (auto split: restore_attempt.splits)
        then show ?thesis using write_back_same[OF independent_any w] k4 e4 by (auto simp: same_def ended_def)
      qed
    qed
qed

section \<open>The run up to its end\<close>

lemma and_then_keeps:
  "f (fst x) = c \<Longrightarrow> (\<And>a s. f s = c \<Longrightarrow> f (fst (k a s)) = c) \<Longrightarrow> f (fst (and_then x k)) = c"
  by (cases x; cases "snd x") auto

lemma read_keeps:
  assumes "\<And>tags d. f (fst (get tags d)) = f d"
  shows "f (fst (read_f32 parse get tag allow d)) = f d"
    "f (fst (resolve_f32_from_batch parse get b tov allow d)) = f d"
    "f (fst (resolve_direction_from_batch get b dir t allow d)) = f d"
  using assms by (auto simp: read_f32_def read_raw_def resolve_f32_from_batch_def resolve_f32_def
      resolve_direction_from_batch_def resolve_direction_def split_beta Let_def split: tag_or_value.splits)

lemma read_initial_keeps:
  assumes "\<And>tags d. f (fst (get tags d)) = f d"
  shows "f (fst (read_initial_values parse get g t allow d)) = f d"
  unfolding read_initial_values_def
  by (intro and_then_keeps[where f = f]) (auto simp: assms read_keeps[of f get, OF assms] split: option.splits)

lemma ready_kept: "ready_run x s = (s', r) \<Longrightarrow> kept s' = kept s"
proof -
  assume r: "ready_run x s = (s', r)"
  have get: "claims (au_db (fst (run_get_op x tags d))) = claims (au_db d)" for tags d
    by (simp add: run_get_op_def audited_read_def split_beta Let_def)
  obtain d q where rd: "read_initial_values (co_parse (xc_ctl x)) (run_get_op x) (xc_tags x) (xc_template x) (xc_allow x) (xs_driver s) = (d, q)"
    by fastforce
  have k: "claims (au_db d) = kept s"
    using read_initial_keeps[of "\<lambda>d. claims (au_db d)" "run_get_op x", OF get] rd by (metis fst_conv)
  have u: "claims (fst (record_initial_readings jv rid x d)) = claims d" for jv rid x d
    unfolding record_initial_readings_def using update_run_leaves by (metis prod.collapse)
  have v: "claims (fst (persist_restore_intent js intent g d)) = claims d" for js intent g d
    using restore_intent_same by (metis prod.collapse)
  have "kept (fst (ready_run x s)) = kept s"
    unfolding ready_run_def rd Let_def prod.case
    by (intro and_then_keeps[where f = kept])
      (auto simp: k u v on_db_def split_beta Let_def)
  then show ?thesis using r by simp
qed

lemma transition_keeps:
  assumes "quiet f put" "transition_to_manual put g t i mg d = ((d', mg'), r)"
  shows "f d' = f d"
  using assms(2) quiet_raw[OF assms(1)]
  by (auto simp: transition_to_manual_def Let_def split: option.splits prod.splits sum.splits if_splits)

lemma polled_kept:
  assumes "polled_run x inp i g tr s = Some (s', r)" "\<And>d. claims (au_db (xi_polled inp d)) = claims (au_db d)"
  shows "kept s' = kept s \<and> (is_ok r \<longrightarrow> ended (xc_run_id x) (au_db (xs_driver s')))"
proof -
  let ?acc = "poll_timing_new (case q_driver (xc_request x) of OpcdaKind \<Rightarrow> LiveMonotonic | SimulatorKind \<Rightarrow> SimulatedFixedStep)
    (f_poll_interval_ms (xc_timing x))"
  note run = assms(1)[unfolded polled_run_def Let_def]
  show ?thesis
  proof (cases "poll_start (poll_ctx_of x) (xc_request x) (xc_anchor x) (xi_poll_now inp) (engine_of x i) tr ?acc (au_db (xs_driver s))")
    case (Inl e)
    then show ?thesis using run by (auto dest!: failed_kept)
  next
    case (Inr p0)
    obtain p exit where p: "poll_loop (poll_ctx_of x) (xi_events inp) p0 = (p, exit)" by fastforce
    let ?s1 = "s\<lparr>xs_driver := with_run_db (ps_db p) (xi_polled inp (xs_driver s)), xs_samples := xs_samples s @ ps_samples p\<rparr>"
    have k: "kept ?s1 = kept s" using assms(2) by (simp add: with_run_db_def join_db_def)
    show ?thesis
      using run Inr p k
      by (auto split: option.splits sum.splits poll_outcome.splits dest!: failed_kept completed_kept dest: aborted_kept)
  qed
qed

lemma execute_kept:
  assumes "execute_with_timing x inp s = Some (s', r)" "\<And>d. claims (au_db (xi_polled inp d)) = claims (au_db d)"
  shows "kept s' = kept s \<and> (is_ok r \<longrightarrow> ended (xc_run_id x) (au_db (xs_driver s')))"
proof -
  obtain s1 q where rd: "ready_run x s = (s1, q)" by fastforce
  note run = assms(1)[unfolded execute_with_timing_def rd prod.case Let_def]
  show ?thesis
  proof (cases q)
    case (Inl e)
    then show ?thesis using run ready_kept[OF rd] by (auto simp: is_ok_iff)
  next
    case (Inr i)
    obtain d g y where t: "transition_to_manual (run_put_op x) (xc_tags x) (xc_template x) i guard_default (xs_driver s1) = ((d, g), y)"
      by (metis surj_pair)
    have k: "claims (au_db d) = kept s" using transition_keeps[OF put_keeps t] ready_kept[OF rd] by simp
    show ?thesis
      using run Inr t k propagate_kept[of x inp i g "tracker_for_run (xc_request x) i" _ "s1\<lparr>xs_driver := d\<rparr>" s' r]
        polled_kept[of x inp i g "tracker_for_run (xc_request x) i" "s1\<lparr>xs_driver := d\<rparr>" s' r, OF _ assms(2)]
      by (cases y) auto
  qed
qed

lemma release_owned:
  assumes "release_if_owned x s = (s', r)"
  shows "runs (au_db (xs_driver s')) = runs (au_db (xs_driver s))" "r = Err e \<Longrightarrow> kept s' = kept s"
proof -
  obtain s1 now where n: "run_now s = (s1, now)" by fastforce
  have "runs (au_db (xs_driver s')) = runs (au_db (xs_driver s)) \<and> (r = Err e \<longrightarrow> kept s' = kept s)"
    using assms run_now_kept[OF n] release_leaves
    by (auto simp: release_if_owned_def n on_db_def split: if_splits prod.splits)
  then show "runs (au_db (xs_driver s')) = runs (au_db (xs_driver s))" "r = Err e \<Longrightarrow> kept s' = kept s" by simp_all
qed

text \<open>C31: A run keeps its controller until its end is on record: when driving a run is over, its row is
  terminal, or the answer is an error and the very same claims are still held.\<close>

theorem run_ends_before_release:
  assumes "drive_report x inp s = Some (s', r)" "\<And>d. claims (au_db (xi_polled inp d)) = claims (au_db d)"
  shows "ended (xc_run_id x) (au_db (xs_driver s')) \<or> (\<not> is_ok r \<and> claims (au_db (xs_driver s')) = claims (au_db (xs_driver s)))"
proof -
  obtain s1 q where e: "execute_with_timing x inp s = Some (s1, q)" using assms(1) by (auto simp: drive_report_def split: option.splits)
  note k = execute_kept[OF e assms(2)]
  show ?thesis
  proof (cases q)
    case (Inr out)
    obtain s2 y where rel: "release_if_owned x s1 = (s2, y)" by fastforce
    have "s' = s2" using assms(1) Inr e rel by (cases y) (auto simp: drive_report_def)
    then show ?thesis using k Inr release_owned(1)[OF rel] by (simp add: ended_def is_ok_iff)
  next
    case (Inl err)
    let ?fin = "fst (on_db (\<lambda>d. (finalize_pending_for_run_best_effort (xc_run_id x)
      ''the run failed before MV confirmation completed'' d, Ok () :: (unit, unit) result)) s1)"
    obtain s2 now where n: "run_now ?fin = (s2, now)" by fastforce
    obtain s3 y where f: "on_db (run_fail (xc_jv x) (xc_run_id x) now (xc_text x err)) s2 = (s3, y)" by fastforce
    note t = terminal_call[OF f[unfolded run_fail_def]]
    have fin: "kept ?fin = kept s1"
      by (simp add: on_db_def finalize_pending_for_run_best_effort_def finalize_pending_for_run_def Let_def
          split: option.splits sum.splits)
    show ?thesis
    proof (cases y)
      case y: (Inl d)
      have "s' = s3" "\<not> is_ok r" using assms(1) e Inl n f y by (auto simp: drive_report_def Let_def is_ok_iff)
      then show ?thesis using t(1) run_now_kept[OF n] fin k by simp
    next
      case y: (Inr u)
      obtain s4 z where rel: "release_if_owned x s3 = (s4, z)" by fastforce
      have "s' = s4" using assms(1) e Inl n f y rel by (cases z) (auto simp: drive_report_def Let_def)
      then show ?thesis using t(2) y release_owned(1)[OF rel] by (simp add: ended_def is_ok_iff)
    qed
  qed
qed

section \<open>What a finished run has put back\<close>

abbreviation left_in :: "'d exec_state \<Rightarrow> 'd" where "left_in s \<equiv> au_inner (xs_driver s)"

definition put_back :: "('d \<Rightarrow> string \<Rightarrow> tag_write \<Rightarrow> bool) \<Rightarrow> 'd exec_ctx \<Rightarrow> initial_state \<Rightarrow> mutation_guard \<Rightarrow> 'd \<Rightarrow> bool" where
  "put_back H x i g d \<longleftrightarrow> list_all (\<lambda>(t, v). H d t v) (restore_writes (xc_tags x) (xc_template x) i g ReleaseToInitial)"

text \<open>The tags a run writes besides the PID constants.\<close>

definition loop_writes :: "loop_tags \<Rightarrow> string list" where
  "loop_writes g = g_manipulated_variable g # opt_list (g_controller_mode g) @ opt_list (g_setpoint_variable g) @ opt_list (g_mode_attribute g)"

lemma restore_writes_tags:
  "distinct (loop_writes g) \<Longrightarrow> distinct (g_manipulated_variable g # map fst (restore_writes g t i mg p))"
  "fst ` set (restore_writes g t i mg p) \<subseteq> set (loop_writes g)"
  by (cases "g_controller_mode g"; cases "g_setpoint_variable g"; cases "g_mode_attribute g"; cases "is_setpoint_ini i";
      auto simp: loop_writes_def restore_writes_def mode_write_def setpoint_write_def attribute_write_def opt_list_def Let_def)+

lemma restore_writes_guard: "restore_writes g t i (mg\<lparr>mg_mv_written := b\<rparr>) p = restore_writes g t i mg p"
  by (simp add: restore_writes_def mode_write_def setpoint_write_def attribute_write_def)

lemma run_put_store:
  assumes "tag_store (co_put (xc_ctl x)) H"
  shows "tag_store (run_put_op x) (\<lambda>s. H (au_inner s))"
proof -
  let ?c = "xc_ctl x"
  have a: "tag_store (audited_write (co_js ?c) (co_el ?c) (co_put ?c) (Some (xc_run_id x))) (\<lambda>s. H (au_inner s))"
  proof
    fix tag w d d' y
    assume p: "audited_write (co_js ?c) (co_el ?c) (co_put ?c) (Some (xc_run_id x)) tag w d = (d', Ok y)" "wo_success y"
    from audited_write_steps[OF p(1)] tag_store.accepted[OF assms _ p(2)] show "H (au_inner d') tag w" by auto
  next
    fix tag w d d' r t v
    assume p: "audited_write (co_js ?c) (co_el ?c) (co_put ?c) (Some (xc_run_id x)) tag w d = (d', r)" "t \<noteq> tag"
    from audited_write_steps[OF p(1)] tag_store.untouched[OF assms _ p(2)] show "H (au_inner d') t v = H (au_inner d) t v" by metis
  qed
  show ?thesis
  proof (cases "xc_owned x")
    case True
    then show ?thesis using a by (simp add: run_put_op_def Let_def)
  next
    case False
    then show ?thesis
      using tag_store.accepted[OF assms] tag_store.untouched[OF assms]
      by unfold_locales (auto simp: run_put_op_def Let_def split: prod.splits)
  qed
qed

lemma confirmed_put_back:
  assumes "tag_store (co_put (xc_ctl x)) H" "fl_eq (is_mv_ini i) (is_mv_ini i)" "distinct (loop_writes (xc_tags x))"
    and "attempt_and_record_restore x (restore_ctx_of x i g) ri tr completion period acc s = Some (s', acc', AttemptConfirmed)"
  shows "put_back H x i g (left_in s')"
proof -
  let ?e = "attempt_restore (run_put_op x) (restore_ctx_of x i g) AuditBestEffort period ri completion acc (xs_driver s) tr (au_db (xs_driver s))"
  have e: "re_attempt ?e = Some AttemptConfirmed" "left_in s' = au_inner (rv_driver (re_state ?e))"
    using assms(4) by (auto simp: attempt_and_record_restore_def with_run_db_def Let_def split: option.splits)
  have rx: "rx_initial (restore_ctx_of x i g) = i" "rx_tags (restore_ctx_of x i g) = xc_tags x"
    "rx_template (restore_ctx_of x i g) = xc_template x" "rx_guard (restore_ctx_of x i g) = g" by (simp_all add: restore_ctx_of_def)
  from restored_and_confirmed[OF run_put_store[OF assms(1)] e(1)] assms(2) restore_writes_tags(1)[OF assms(3)]
  show ?thesis unfolding put_back_def e(2) rx by blast
qed

lemma run_now_left: "run_now s = (s', t) \<Longrightarrow> left_in s' = left_in s"
  by (auto simp: run_now_def co_now_def)

lemma on_db_left: "on_db f s = (s', r) \<Longrightarrow> left_in s' = left_in s"
  by (auto simp: on_db_def split: prod.splits)

lemma aborted_put_back:
  assumes "tag_store (co_put (xc_ctl x)) H" "fl_eq (is_mv_ini i) (is_mv_ini i)" "distinct (loop_writes (xc_tags x))"
    and "finish_aborted_run x inp i g tr reason m s = Some (s', Ok out)" "\<And>why. out \<noteq> RoRestoreIncomplete why"
  shows "put_back H x i g (left_in s')"
proof -
  obtain s1 acc a where a: "attempt_and_record_restore x (restore_ctx_of x i g) (xi_restore inp) tr None None None s = Some (s1, acc, a)"
    using assms(4) by (auto simp: finish_aborted_run_def)
  obtain s2 now where n: "run_now s1 = (s2, now)" by fastforce
  have "a = AttemptConfirmed \<and> left_in s' = left_in s2"
    using assms(4,5) unfolding finish_aborted_run_def a Let_def option.map prod.case n
    by (auto simp: and_then_Ok apsnd_def map_prod_def dest!: on_db_left split: restore_attempt.splits prod.splits)
  then show ?thesis using confirmed_put_back[OF assms(1-3)] a run_now_left[OF n] by simp
qed

lemma completed_put_back:
  assumes "tag_store (co_put (xc_ctl x)) H" "independent H (xc_ctl x)" "fl_eq (is_mv_ini i) (is_mv_ini i)"
    and "distinct (loop_writes (xc_tags x))" "pid_tags (xc_tags x) \<inter> set (loop_writes (xc_tags x)) = {}"
    and "finish_completed_run x inp i g tr c acc period s = Some (s', Ok out)" "\<And>why. out \<noteq> RoRestoreIncomplete why"
  shows "put_back H x i g (left_in s')"
proof -
  let ?rid = "xc_run_id x" and ?c = "xc_ctl x" and ?pvr = "\<lparr> pv_high = is_pv_range_high i, pv_low = is_pv_range_low i \<rparr>"
  obtain rt results where p: "persist_results (co_lib ?c) (co_float ?c) (map run_id (runs (au_db (xs_driver s)))) ?rid
      (cp_action c) (is_direction i) (xc_config x) ?pvr (xc_template x) (xs_results s) = (rt, results)" by fastforce
  note run = assms(6)[unfolded finish_completed_run_def Let_def p prod.case]
  let ?at = "attempt_and_record_restore x (restore_ctx_of x i g) (xi_restore inp) tr (Some c) period (Some acc) (s\<lparr>xs_results := rt\<rparr>)"
  obtain s2 acc' a previews where a: "?at = Some (s2, acc', a)" "results = Some (Ok previews)"
    using run by (auto split: option.splits sum.splits)
  obtain s3 now where n: "run_now s2 = (s3, now)" by fastforce
  obtain s4 u where d: "on_db (complete_with_timing_metrics (xc_jv x) ?rid now (Option.bind acc' (pt_finish period))) s3 = (s4, Ok u)"
    using run a n by (auto simp: and_then_Ok apsnd_def map_prod_def split: prod.splits elim!: map_sum_OkE)
  let ?s5 = "s4\<lparr>xs_told := xs_told s4 @ (if xc_handler x = None then [] else [PidResultsReady previews])\<rparr>"
  obtain dr told wr where w: "maybe_write_back_with_owner ?c ?rid (xc_tags x) (xc_template x) (lc_controller_type (xc_config x))
      (q_write_pid (xc_request x)) (xc_allow x) (xc_handler x) (xc_owned x) (xs_results ?s5) (xs_driver ?s5) = (dr, told, wr)"
    by (metis surj_pair)
  have conf: "a = AttemptConfirmed" using run a n d assms(7) by (cases a) auto
  then have inner: "left_in s' = au_inner dr" using run a n d w by auto
  have "put_back H x i g (left_in s4)"
    using confirmed_put_back[OF assms(1,3,4)] a(1) conf run_now_left[OF n] on_db_left[OF d] by simp
  moreover have "H (au_inner dr) t v = H (left_in s4) t v" if "t \<in> set (loop_writes (xc_tags x))" for t v
    using write_back_same[OF assms(2) w] that assms(5) by (auto simp: same_def)
  ultimately show ?thesis
    unfolding put_back_def inner using restore_writes_tags(2)[of "xc_tags x" "xc_template x" i g ReleaseToInitial]
    by (fastforce simp: list_all_iff)
qed

lemma polled_put_back:
  assumes "tag_store (co_put (xc_ctl x)) H" "independent H (xc_ctl x)" "fl_eq (is_mv_ini i) (is_mv_ini i)"
    and "distinct (loop_writes (xc_tags x))" "pid_tags (xc_tags x) \<inter> set (loop_writes (xc_tags x)) = {}"
    and "polled_run x inp i g tr s = Some (s', Ok out)" "\<And>why. out \<noteq> RoRestoreIncomplete why"
  shows "put_back H x i g (left_in s')"
proof -
  let ?acc = "poll_timing_new (case q_driver (xc_request x) of OpcdaKind \<Rightarrow> LiveMonotonic | SimulatorKind \<Rightarrow> SimulatedFixedStep)
    (f_poll_interval_ms (xc_timing x))"
  note run = assms(6)[unfolded polled_run_def Let_def]
  have no: "finish_failed_run x inp i g' tr e m s \<noteq> Some (s', Ok out)" for g' tr e m s
    using failed_kept by (fastforce simp: is_ok_iff)
  obtain p0 where p0: "poll_start (poll_ctx_of x) (xc_request x) (xc_anchor x) (xi_poll_now inp) (engine_of x i) tr ?acc (au_db (xs_driver s)) = Ok p0"
    using run no by (auto split: sum.splits)
  obtain p exit where p: "poll_loop (poll_ctx_of x) (xi_events inp) p0 = (p, exit)" by fastforce
  let ?g = "g\<lparr>mg_mv_written := mg_mv_written g \<or> ps_mv_written p\<rparr>"
  have "put_back H x i ?g (left_in s')"
    using run p0 p no aborted_put_back[OF assms(1,3,4) _ assms(7), where g = ?g] completed_put_back[OF assms(1-5) _ assms(7), where g = ?g]
    by (auto split: option.splits sum.splits poll_outcome.splits)
  then show ?thesis by (simp add: put_back_def restore_writes_guard)
qed

text \<open>The initial readings that pass their checks are numbers.\<close>

lemma ready_number:
  assumes "ready_run x s = (s', Ok i)" shows "fl_eq (is_mv_ini i) (is_mv_ini i)"
proof -
  have "validate_initial_state i = Ok ()"
    using assms by (auto simp: ready_run_def and_then_Ok split: prod.splits)
  then show ?thesis
    by (cases "is_mv_ini i") (auto simp: validate_initial_state_def MvRange_contains_def bind_result_Ok_iff fl_eq_def split: if_splits)
qed

text \<open>C32: A run that reports itself completed or aborted has put the loop back: the mode, the setpoint
  and the mode attribute that its transition to manual changed hold the initial readings at the very
  end, after the polling, the restore, the write-back of the PID constants and the release.\<close>

theorem finished_run_put_back:
  assumes "tag_memory (co_put (xc_ctl x)) H (co_get (xc_ctl x))"
    and "distinct (loop_writes (xc_tags x))" "pid_tags (xc_tags x) \<inter> set (loop_writes (xc_tags x)) = {}"
    and "drive_report x inp s = Some (s', Ok out)" "\<And>why. out \<noteq> RoRestoreIncomplete why"
  shows "\<exists>s1 i d g. ready_run x s = (s1, Ok i) \<and>
    transition_to_manual (run_put_op x) (xc_tags x) (xc_template x) i guard_default (xs_driver s1) = ((d, g), Ok ()) \<and>
    put_back H x i g (left_in s')"
proof -
  have st: "tag_store (co_put (xc_ctl x)) H" using assms(1) by (simp add: tag_memory_def)
  have ind: "independent H (xc_ctl x)"
    using tag_store.untouched[OF st] tag_memory.undisturbed[OF assms(1)] unfolding independent_def by metis
  obtain s2 where e: "execute_with_timing x inp s = Some (s2, Ok out)" and left: "left_in s' = left_in s2"
  proof -
    obtain s2 r where e: "execute_with_timing x inp s = Some (s2, r)" using assms(4) by (auto simp: drive_report_def split: option.splits)
    have r: "r = Ok out" using assms(4) e
      by (cases r) (auto simp: drive_report_def Let_def and_then_Ok split: prod.splits sum.splits)
    obtain u where "release_if_owned x s2 = (s', Ok u)"
      using assms(4) e r by (auto simp: drive_report_def and_then_Ok apsnd_def map_prod_def split: prod.splits elim!: map_sum_OkE)
    then have "left_in s' = left_in s2"
      by (auto simp: release_if_owned_def dest!: on_db_left run_now_left split: if_splits prod.splits)
    then show ?thesis using that e r by blast
  qed
  obtain s1 i where rd: "ready_run x s = (s1, Ok i)"
    using e by (auto simp: execute_with_timing_def Let_def split: prod.splits sum.splits)
  obtain d g y where t: "transition_to_manual (run_put_op x) (xc_tags x) (xc_template x) i guard_default (xs_driver s1) = ((d, g), y)"
    by (metis surj_pair)
  have "y = Ok () \<and> polled_run x inp i g (tracker_for_run (xc_request x) i) (s1\<lparr>xs_driver := d\<rparr>) = Some (s2, Ok out)"
    using e rd t propagate_kept[of x inp i g _ _ "s1\<lparr>xs_driver := d\<rparr>" s2 "Ok out"]
    by (cases y) (auto simp: execute_with_timing_def Let_def is_ok_iff)
  then show ?thesis
    using rd t left polled_put_back[OF st ind ready_number[OF rd] assms(2,3) _ assms(5)] by metis
qed

section \<open>Witnesses\<close>

text \<open>A live run whose first read fails.\<close>

definition demo_exec_ctx :: "(string \<rightharpoonup> tag_write) exec_ctx" where
  "demo_exec_ctx =
     \<lparr> xc_ctl = demo_ctl\<lparr>co_get := \<lambda>tags d. (d, Err (ConnectFailed ''refused''))\<rparr>, xc_owned = True, xc_run_id = 1, xc_request = demo_request,
       xc_template = yokogawa_template, xc_tags = demo_tags, xc_config = demo_config_full, xc_timing = demo_timing,
       xc_anchor = \<lparr> an_utc = 0, an_monotonic = 0 \<rparr>, xc_allow = False, xc_handler = None, xc_utc_max = 10 ^ 18,
       xc_intent = (\<lambda>_. ''{}''), xc_text = (\<lambda>_. ''failed''), xc_abort_text = (\<lambda>_. ''aborted'') \<rparr>"

definition demo_exec_input :: "(string \<rightharpoonup> tag_write) exec_input" where
  "demo_exec_input = \<lparr> xi_poll_now = 0, xi_events = [], xi_polled = (\<lambda>s. s), xi_restore = demo_restore_input \<rparr>"

definition demo_exec_state :: "(string \<rightharpoonup> tag_write) exec_state" where
  "demo_exec_state = \<lparr> xs_driver = demo_tuned, xs_results = \<lparr> rt_rows = [], rt_seq = 0 \<rparr>, xs_samples = [], xs_told = [] \<rparr>"

lemma failed_is_reported:
  assumes "execute_with_timing x inp s = Some (s1, Err e)"
  shows "\<exists>s' e'. drive_report x inp s = Some (s', Err e')"
  using assms by (simp add: drive_report_def Let_def split: prod.split sum.split)

theorem run_ends_before_release_witness:
  "\<exists>s' e. drive_report demo_exec_ctx demo_exec_input demo_exec_state = Some (s', Err e) \<and>
     (ended 1 (au_db (xs_driver s')) \<or> claims (au_db (xs_driver s')) = claims demo_running)"
proof -
  obtain s1 e where x: "execute_with_timing demo_exec_ctx demo_exec_input demo_exec_state = Some (s1, Err e)"
    by (simp add: execute_with_timing_def ready_run_def read_initial_values_def run_get_op_def audited_read_def demo_exec_ctx_def)
  obtain s' e' where d: "drive_report demo_exec_ctx demo_exec_input demo_exec_state = Some (s', Err e')"
    using failed_is_reported[OF x] by blast
  have c: "xc_run_id demo_exec_ctx = 1" "au_db (xs_driver demo_exec_state) = demo_running" "xi_polled demo_exec_input = (\<lambda>s. s)"
    by (simp_all add: demo_exec_ctx_def demo_exec_state_def demo_exec_input_def demo_tuned_def)
  have "ended 1 (au_db (xs_driver s')) \<or> claims (au_db (xs_driver s')) = claims demo_running"
    using run_ends_before_release[OF d] by (auto simp: c)
  then show ?thesis using d by blast
qed

text \<open>A simulator run that is interrupted at once.\<close>

definition demo_abort_tags :: loop_tags where
  "demo_abort_tags =
     \<lparr> g_process_variable = ''V'', g_manipulated_variable = ''M'', g_setpoint_variable = None, g_controller_mode = Some ''C'',
       g_mode_attribute = None, g_upper_pv_range = Value (Fin 100), g_lower_pv_range = Value (Fin 0),
       g_upper_mv_range = Value (Fin 100), g_lower_mv_range = Value (Fin 0), g_controller_direction = Value Reverse,
       g_proportional_constant = None, g_integral_constant = None, g_derivative_constant = None \<rparr>"

definition demo_abort_ctx :: "(string \<rightharpoonup> tag_write) exec_ctx" where
  "demo_abort_ctx = demo_exec_ctx\<lparr>xc_ctl := demo_ctl, xc_owned := False, xc_request := demo_request\<lparr>q_driver := SimulatorKind\<rparr>,
     xc_tags := demo_abort_tags\<rparr>"

definition demo_abort_input :: "(string \<rightharpoonup> tag_write) exec_input" where
  "demo_abort_input = demo_exec_input\<lparr>xi_events := [EvCtrlC]\<rparr>"

definition demo_abort_initial :: initial_state where
  "demo_abort_initial =
     \<lparr> is_pv_ini = Fin 1, is_mv_ini = Fin 1, is_pv_range_high = Fin 100, is_pv_range_low = Fin 0, is_mv_range_high = Fin 100,
       is_mv_range_low = Fin 0, is_direction = Reverse, is_mode_raw = Some ''1'', is_mode_attribute_raw = None, is_setpoint_ini = None \<rparr>"

lemma demo_abort_reads:
  "read_initial_values demo_parse (run_get_op demo_abort_ctx) demo_abort_tags yokogawa_template False demo_tuned =
     (demo_tuned, Ok demo_abort_initial)"
  by (simp add: read_initial_values_def run_get_op_def audited_read_def demo_abort_ctx_def demo_get_def demo_abort_tags_def
    requested_tags_def opt_list_def tag_list_def batch_of_def read_batch_f32_def read_batch_raw_def check_quality_def
    parse_f32_value_def demo_parse_def trim_def char_is_whitespace_def optional_raw_def demo_tuned_def
    yokogawa_template_def resolve_direction_from_batch_def resolve_direction_def resolve_f32_from_batch_def resolve_f32_def demo_abort_initial_def)

lemma demo_abort_valid: "validate_initial_state demo_abort_initial = Ok ()"
  by (simp add: validate_initial_state_def demo_abort_initial_def PvRange_new_def MvRange_new_def MvRange_contains_def fl_le_finite fl_eq_finite)

text \<open>A database whose only run is run 1.\<close>

definition one_run :: "db \<Rightarrow> bool" where
  "one_run d \<longleftrightarrow> (\<exists>r. runs d = [r] \<and> run_id r = 1 \<and> run_check (\<lambda>_. True) r)"

lemma one_run_update:
  assumes "one_run d" "\<And>r. run_id (f r) = run_id r" "\<And>r. run_check (\<lambda>_. True) r \<Longrightarrow> run_check (\<lambda>_. True) (f r)"
  shows "\<exists>d' a. update_run (\<lambda>_. True) 1 f d = (d', Ok a) \<and> one_run d'"
proof -
  obtain r where r: "runs d = [r]" "run_id r = 1" "run_check (\<lambda>_. True) r" using assms(1) by (auto simp: one_run_def)
  then show ?thesis using update_appended[of d "[]" r "\<lambda>_. True" f] assms(2,3) by (auto simp: one_run_def)
qed

lemma demo_abort_simps:
  "xc_ctl demo_abort_ctx = demo_ctl" "xc_owned demo_abort_ctx = False" "xc_run_id demo_abort_ctx = 1" "xc_tags demo_abort_ctx = demo_abort_tags"
  "xc_request demo_abort_ctx = demo_request\<lparr>q_driver := SimulatorKind\<rparr>" "xc_template demo_abort_ctx = yokogawa_template"
  "xc_allow demo_abort_ctx = False" "xs_driver demo_exec_state = demo_tuned" "js_valid demo_js = (\<lambda>_. True)" "co_parse demo_ctl = demo_parse"
  by (simp_all add: demo_abort_ctx_def demo_exec_ctx_def demo_exec_state_def demo_js_def demo_ctl_def)

lemma demo_tuned_run: "one_run (au_db demo_tuned)"
  by (simp add: one_run_def demo_tuned_def demo_running_eq run_check_def demo_run_row_def new_run_row_def demo_run_start_def
      json_ok_def demo_config_run_def demo_empty_simps)

lemma demo_abort_ready:
  "\<exists>s. ready_run demo_abort_ctx demo_exec_state = (s, Ok demo_abort_initial) \<and> one_run (au_db (xs_driver s)) \<and> left_in s = Map.empty"
proof -
  obtain d a where u: "record_initial_readings (\<lambda>_. True) 1 (readings_row demo_abort_initial) (au_db demo_tuned) = (d, Ok a)" "one_run d"
    using one_run_update[OF demo_tuned_run, of "\<lambda>r. r\<lparr>run_initial_readings := Some (readings_row demo_abort_initial)\<rparr>"]
    by (auto simp: record_initial_readings_def run_check_def)
  have st: "demo_exec_state\<lparr>xs_driver := demo_tuned\<rparr> = demo_exec_state" by (simp add: demo_exec_state_def)
  show ?thesis
    by (simp add: ready_run_def demo_abort_simps demo_abort_reads demo_abort_valid validate_relay_actuation_step_def on_db_def st u)
      (simp add: demo_tuned_def)
qed

lemma demo_abort_transition:
  assumes "au_inner d = Map.empty"
  shows "transition_to_manual (run_put_op demo_abort_ctx) demo_abort_tags yokogawa_template demo_abort_initial guard_default d =
    ((d\<lparr>au_inner := [''C'' \<mapsto> WRaw ''MAN'']\<rparr>, guard_default\<lparr>mg_mode_written := True\<rparr>), Ok ())"
  by (simp add: transition_to_manual_def demo_abort_tags_def yokogawa_template_def demo_abort_initial_def unwrap_or_default_def
    run_put_op_def demo_abort_simps write_raw_def memory_put_def write_result_def write_success_def assms)

lemma demo_abort_restored:
  assumes "e = attempt_restore (run_put_op demo_abort_ctx) (restore_ctx_of demo_abort_ctx demo_abort_initial g) AuditBestEffort None
    demo_restore_input None None d None db"
  shows "re_attempt e = Some AttemptConfirmed" "rv_db (re_state e) = db"
  unfolding assms
  by (simp_all add: attempt_restore_def restore_ctx_of_def demo_abort_simps restore_mv_step_def bounded_write_def write_value_def
    demo_restore_input_def run_put_op_def memory_put_def write_result_def write_success_def restore_write_outcome_def Let_def
    restore_mv_outcome_or_failed_def settling_duration_def should_settle_before_auto_release_def after_mv_def restore_after_mv_with_deadline_def
    restore_after_mv_with_policy_def steps_are_writes run_step_def step_of_def mode_write_def setpoint_write_def attribute_write_def
    demo_abort_tags_def demo_abort_initial_def yokogawa_template_def unwrap_or_default_def all_succeeded_def)

lemma demo_abort_recorded:
  assumes "one_run (au_db (xs_driver s))"
  shows "\<exists>s'. attempt_and_record_restore demo_abort_ctx (restore_ctx_of demo_abort_ctx demo_abort_initial g) demo_restore_input None None None None s =
    Some (s', None, AttemptConfirmed) \<and> one_run (au_db (xs_driver s'))"
proof -
  let ?db = "au_db (xs_driver s)"
  obtain e where e: "e = attempt_restore (run_put_op demo_abort_ctx) (restore_ctx_of demo_abort_ctx demo_abort_initial g) AuditBestEffort None
    demo_restore_input None None (xs_driver s) None ?db" by blast
  note r = demo_abort_restored[OF e]
  have t: "re_timing e = None" unfolding e
    by (simp add: attempt_restore_def restore_mv_step_def Let_def split_beta settling_duration_def split: option.splits restore_mv_outcome.splits)
  obtain d a where d: "record_restore_status (\<lambda>_. True) 1 RestoreConfirmed None ?db = (d, Ok a)" "one_run d"
    using one_run_update[OF assms, of "\<lambda>r. r\<lparr>run_restore_status := Some RestoreConfirmed, restore_detail := None\<rparr>"]
    by (auto simp: record_restore_status_def run_check_def)
  have f: "one_run (finalize_pending_for_run_best_effort i x d)" for i x
    using d(2) by (auto simp: finalize_pending_for_run_best_effort_def finalize_pending_for_run_def one_run_def split: option.splits sum.splits)
  show ?thesis
    unfolding attempt_and_record_restore_def e[symmetric] Let_def
    using f by (simp add: r t demo_abort_simps record_restore_status_best_effort_def d with_run_db_def join_db_def one_run_def)
qed

lemma demo_abort_polled:
  assumes "one_run (au_db (xs_driver s))"
  shows "\<exists>s'. polled_run demo_abort_ctx demo_abort_input demo_abort_initial g None s = Some (s', Ok (RoAborted UserInterrupt))"
proof -
  have q: "tracker_for_run (demo_request\<lparr>q_driver := SimulatorKind\<rparr>) i = None" for i by (simp add: tracker_for_run_def)
  have timing: "xc_timing demo_abort_ctx = demo_timing" "xi_events demo_abort_input = [EvCtrlC]" "xi_restore demo_abort_input = demo_restore_input"
    "xi_polled demo_abort_input = (\<lambda>s. s)"
    by (simp_all add: demo_abort_ctx_def demo_exec_ctx_def demo_abort_input_def demo_exec_input_def)
  let ?acc = "poll_timing_new SimulatedFixedStep (f_poll_interval_ms demo_timing)"
  obtain src where src: "for_driver SimulatorKind (xc_anchor demo_abort_ctx) (f_poll_interval_ms demo_timing) = Ok src"
    by (simp add: for_driver_def duration_from_std_def millis_def demo_timing_def timing_of_config_def effective_tuning_default_def
      DEFAULT_TUNING_POLL_INTERVAL_MS_def delta_max_def ns_per_ms_def)
  obtain p0 where p0: "poll_start (poll_ctx_of demo_abort_ctx) (demo_request\<lparr>q_driver := SimulatorKind\<rparr>) (xc_anchor demo_abort_ctx)
      (xi_poll_now demo_abort_input) (engine_of demo_abort_ctx demo_abort_initial) None ?acc (au_db (xs_driver s)) = Ok p0"
      "ps_tracker p0 = None" "ps_db p0 = au_db (xs_driver s)"
    by (simp add: poll_start_def poll_ctx_of_def timing src)
  have loop: "poll_step (poll_ctx_of demo_abort_ctx) EvCtrlC p0 = (p0, PollAborted UserInterrupt)" by (simp add: poll_step_def)
  let ?s1 = "s\<lparr>xs_driver := with_run_db (au_db (xs_driver s)) (xs_driver s), xs_samples := xs_samples s @ ps_samples p0\<rparr>"
  have "one_run (au_db (xs_driver ?s1))" using assms p0(3) by (simp add: with_run_db_def join_db_def one_run_def)
  from demo_abort_recorded[OF this] obtain s2 where s2: "attempt_and_record_restore demo_abort_ctx
      (restore_ctx_of demo_abort_ctx demo_abort_initial (g\<lparr>mg_mv_written := mg_mv_written g \<or> ps_mv_written p0\<rparr>)) demo_restore_input None None None None ?s1 =
      Some (s2, None, AttemptConfirmed)" "one_run (au_db (xs_driver s2))" by blast
  obtain s3 now where n: "run_now s2 = (s3, now)" by fastforce
  then have "one_run (au_db (xs_driver s3))" using s2(2) by (auto simp: run_now_def co_now_def)
  from one_run_update[OF this, of "\<lambda>r. r\<lparr>outcome := OutAborted, completed_at := Some now,
      run_timing_metrics := pt_finish None (ps_acc p0), failure_reason := None\<rparr>"]
  obtain d a where d: "abort_with_timing_metrics (\<lambda>_. True) 1 now (pt_finish None (ps_acc p0)) (au_db (xs_driver s3)) = (d, Ok a)"
    by (auto simp: terminal_defs run_check_def)
  show ?thesis
    unfolding polled_run_def Let_def
    by (simp add: demo_abort_simps timing p0 loop poll_result_def completed_oscillation_period_ms_def finish_aborted_run_def s2 n on_db_def d)
qed

theorem finished_run_put_back_witness:
  "\<exists>s'. drive_report demo_abort_ctx demo_abort_input demo_exec_state = Some (s', Ok (RoAborted UserInterrupt)) \<and>
     left_in s' ''C'' = Some (WRaw ''1'')"
proof -
  obtain s1 where rd: "ready_run demo_abort_ctx demo_exec_state = (s1, Ok demo_abort_initial)" "one_run (au_db (xs_driver s1))"
    "left_in s1 = Map.empty" using demo_abort_ready by blast
  note t = demo_abort_transition[OF rd(3)]
  let ?d = "(xs_driver s1)\<lparr>au_inner := [''C'' \<mapsto> WRaw ''MAN'']\<rparr>" and ?g = "guard_default\<lparr>mg_mode_written := True\<rparr>"
  have "one_run (au_db (xs_driver (s1\<lparr>xs_driver := ?d\<rparr>)))" using rd(2) by simp
  from demo_abort_polled[OF this] obtain s2 where
    p: "polled_run demo_abort_ctx demo_abort_input demo_abort_initial ?g None (s1\<lparr>xs_driver := ?d\<rparr>) = Some (s2, Ok (RoAborted UserInterrupt))" by blast
  have "drive_report demo_abort_ctx demo_abort_input demo_exec_state = Some (s2, Ok (RoAborted UserInterrupt))"
    by (simp add: drive_report_def execute_with_timing_def rd t p demo_abort_simps tracker_for_run_def release_if_owned_def)
  moreover have mem: "tag_memory (co_put (xc_ctl demo_abort_ctx)) memory_holds (co_get (xc_ctl demo_abort_ctx))"
    using demo_memory.tag_memory_axioms by (simp add: demo_abort_simps)
  ultimately have "put_back memory_holds demo_abort_ctx demo_abort_initial ?g (left_in s2)"
    using finished_run_put_back[OF mem _ _ \<open>drive_report demo_abort_ctx demo_abort_input demo_exec_state = Some (s2, Ok (RoAborted UserInterrupt))\<close>] rd(1) t
    by (simp add: demo_abort_simps loop_writes_def pid_tags_def demo_abort_tags_def opt_list_def)
  then have "left_in s2 ''C'' = Some (WRaw ''1'')"
    by (simp add: put_back_def restore_writes_def demo_abort_simps mode_write_def setpoint_write_def attribute_write_def demo_abort_tags_def
      demo_abort_initial_def yokogawa_template_def unwrap_or_default_def guard_default_def memory_holds_def)
  then show ?thesis
    using \<open>drive_report demo_abort_ctx demo_abort_input demo_exec_state = Some (s2, Ok (RoAborted UserInterrupt))\<close> by blast
qed

end
