(* ===== verification/Recovery_Safety.thy ===== *)
theory Recovery_Safety
  imports Restore_Loop Execute_Safety
begin

text \<open>
  What recovery guarantees: the sweep ends every stale owner, as a recoverable orphan that keeps its claim or not, and
  leaves the rows and claims of the others alone; what it calls recoverable is accepted by \<open>restore_loop\<close>,
  and a restore reported as confirmed is one.
\<close>

section \<open>The active owners\<close>

abbreviation active_rows :: "db \<Rightarrow> live_ownership_row list" where
  "active_rows d \<equiv> filter is_active (owners d)"

lemma filter_replaced:
  assumes "replaced r r' t t'" "distinct (map f t)" "\<not> P r'"
  shows "filter P t' = filter (\<lambda>x. f x \<noteq> f r) (filter P t)"
proof -
  obtain xs ys where t: "t = xs @ r # ys" "t' = xs @ r' # ys" using assms(1) by (auto simp: replaced_def)
  have "filter (\<lambda>x. P x \<and> f x \<noteq> f r) us = filter P us" if "f r \<notin> f ` set us" for us
    using that by (intro filter_cong) (auto simp: image_iff)
  then show ?thesis using assms(2) by (simp add: t assms(3))
qed

lemma apsnd_map_Ok: "apsnd (map_sum f id) y = (d', Ok b) \<longleftrightarrow> y = (d', Ok b)"
  by (cases y; cases "snd y") auto

lemma owner_ids: "db_ok d \<Longrightarrow> distinct (map lo_id (owners d))"
  by (simp add: db_ok_def keys_ok_def)

lemma mark_orphaned_active:
  assumes "mark_orphaned jv u d = (d', Ok True)" "db_ok d"
  shows "active_rows d' = filter (\<lambda>o'. lo_id o' \<noteq> oou_owner_id u) (active_rows d)"
  by (rule mark_orphaned_commit[OF assms]) (auto simp: is_active_def dest: filter_replaced[where P = is_active, OF _ owner_ids[OF assms(2)]])

lemma mark_unrecoverable_active:
  assumes "mark_orphaned_unrecoverable jv u d = (d', Ok True)" "db_ok d"
  shows "active_rows d' = filter (\<lambda>o'. lo_id o' \<noteq> uou_owner_id u) (active_rows d)"
  by (rule mark_unrecoverable_commit[OF assms]) (auto simp: is_active_def dest: filter_replaced[where P = is_active, OF _ owner_ids[OF assms(2)]])

lemma abandon_active:
  assumes "abandon_after_restart jv u d = (d', Ok True)" "db_ok d"
  shows "active_rows d' = filter (\<lambda>o'. lo_id o' \<noteq> rru_recovery_owner_id u) (active_rows d)"
  by (rule abandon_commit[OF assms(1)]) (auto simp: is_active_def dest: filter_replaced[where P = is_active, OF _ owner_ids[OF assms(2)]])

section \<open>One owner of the sweep\<close>

lemma retire_db:
  assumes "retire_stale_unrecoverable_owner e path ow run stale key d = (d', Ok x)"
  shows "\<exists>u. mark_orphaned_unrecoverable (js_valid (sw_js e)) u d = (d', Ok True) \<and> uou_owner_id u = lo_id ow"
  using assms unfolding retire_stale_unrecoverable_owner_def and_then_Ok apsnd_map_Ok Let_def
  by (elim exE conjE) (simp split: if_splits, intro exI conjI, assumption, simp)

lemma mark_db:
  assumes "mark_stale_tune_orphan e path run ow stale key d = (d', Ok (x, b))"
  shows "\<exists>u. mark_orphaned (js_valid (sw_js e)) u d = (d', Ok True) \<and> oou_owner_id u = lo_id ow \<and> oou_eligible u = b \<and>
    b = fst (orphan_verdict (sw_lib e) (sw_js e) run ow d) \<and> oou_expected_claim_key u = key"
proof -
  obtain b' why where v: "orphan_verdict (sw_lib e) (sw_js e) run ow d = (b', why)" by fastforce
  show ?thesis
    using assms unfolding mark_stale_tune_orphan_def v prod.case and_then_Ok apsnd_map_Ok Let_def
    by (elim exE conjE) (simp split: if_splits; intro exI conjI, assumption, simp_all)
qed

lemma abandon_db:
  assumes "abandon_interrupted_recovery e path ow stale key d = (d', Ok x)"
  shows "\<exists>u. abandon_after_restart (js_valid (sw_js e)) u d = (d', Ok True) \<and> rru_recovery_owner_id u = lo_id ow"
  using assms unfolding abandon_interrupted_recovery_def and_then_Ok Let_def
  by (elim exE conjE) (clarsimp simp: and_then_Ok apsnd_map_Ok split: if_splits, intro exI conjI, assumption, simp)

lemma retire_active:
  assumes "retire_stale_unrecoverable_owner e path ow run stale key d = (d', Ok x)" "db_ok d"
  shows "active_rows d' = filter (\<lambda>o'. lo_id o' \<noteq> lo_id ow) (active_rows d) \<and> db_ok d'"
  using retire_db[OF assms(1)] mark_unrecoverable_active[OF _ assms(2)] mark_unrecoverable_ok[OF assms(2)]
  by (metis fst_conv)

lemma mark_active:
  assumes "mark_stale_tune_orphan e path run ow stale key d = (d', Ok x)" "db_ok d"
  shows "active_rows d' = filter (\<lambda>o'. lo_id o' \<noteq> lo_id ow) (active_rows d) \<and> db_ok d'"
  using mark_db[of e path run ow stale key d d' "fst x" "snd x"] assms(1) mark_orphaned_active[OF _ assms(2)] mark_orphaned_ok[OF assms(2)]
  by (metis fst_conv prod.collapse)

lemma abandoned_active:
  assumes "abandon_interrupted_recovery e path ow stale key d = (d', Ok x)" "db_ok d"
  shows "active_rows d' = filter (\<lambda>o'. lo_id o' \<noteq> lo_id ow) (active_rows d) \<and> db_ok d'"
  using abandon_db[OF assms(1)] abandon_active[OF _ assms(2)] abandon_ok[OF assms(2)]
  by (metis fst_conv)

definition handled :: "startup_orphan_sweep_report \<Rightarrow> nat" where
  "handled r = sr_marked_orphaned r + sr_interrupted_recoveries r + sr_retired_unrecoverable r"

lemma sweep_owner_cases:
  assumes "sweep_owner e path database stale ow report d = (d', Ok r)"
  obtains x where "abandon_interrupted_recovery e path ow stale (live_claim_key (sw_js e) (database_key ow) (resource_key ow)) d = (d', Ok x)"
    "r = report\<lparr>sr_interrupted_recoveries := sr_interrupted_recoveries report + 1, sr_exports := sr_exports report @ [x]\<rparr>"
  | run x b where "database_key ow = database" "lo_run_id ow = Some (run_id run)" "run_get (run_id run) d = Some run"
    "operation_kind ow = KTune" "driver run = Opcda" "outcome run = OutRunning"
    "mark_stale_tune_orphan e path run ow stale (live_claim_key (sw_js e) (database_key ow) (resource_key ow)) d = (d', Ok (x, b))"
    "r = report\<lparr>sr_marked_orphaned := sr_marked_orphaned report + 1,
       sr_recoverable := sr_recoverable report + (if b then 1 else 0), sr_exports := sr_exports report @ [x]\<rparr>"
  | run x where "retire_stale_unrecoverable_owner e path ow run stale (live_claim_key (sw_js e) (database_key ow) (resource_key ow)) d = (d', Ok x)"
    "r = report\<lparr>sr_retired_unrecoverable := sr_retired_unrecoverable report + 1, sr_exports := sr_exports report @ [x]\<rparr>"
proof -
  let ?key = "live_claim_key (sw_js e) (database_key ow) (resource_key ow)"
  have n: "\<not> (database_key ow \<noteq> database \<or> \<not> has_claim (lo_id ow) ?key d)"
    using assms by (auto simp: sweep_owner_def Let_def split: if_splits)
  show ?thesis
  proof (cases "operation_kind ow = KRecovery")
    case True
    then show ?thesis using assms n that(1) by (auto simp: sweep_owner_def Let_def and_then_Ok)
  next
    case False
    obtain run where l: "(case lo_run_id ow of None \<Rightarrow> run = None | Some rid \<Rightarrow> run \<noteq> None \<and> run_get rid d = run)"
      and k: "(case option_filter (\<lambda>r. operation_kind ow = KTune \<and> driver r = Opcda \<and> outcome r = OutRunning) run of
             Some r \<Rightarrow> and_then (mark_stale_tune_orphan e path r ow stale ?key d) (\<lambda>(x, eligible) d.
               (d, Ok (report\<lparr>sr_marked_orphaned := sr_marked_orphaned report + 1,
                      sr_recoverable := sr_recoverable report + (if eligible then 1 else 0), sr_exports := sr_exports report @ [x]\<rparr>)))
           | None \<Rightarrow> and_then (retire_stale_unrecoverable_owner e path ow run stale ?key d) (\<lambda>x d.
               (d, Ok (report\<lparr>sr_retired_unrecoverable := sr_retired_unrecoverable report + 1, sr_exports := sr_exports report @ [x]\<rparr>)))) = (d', Ok r)"
      using assms n False unfolding sweep_owner_def Let_def by (auto simp: and_then_Ok split: option.splits)
    show ?thesis
    proof (cases "option_filter (\<lambda>r. operation_kind ow = KTune \<and> driver r = Opcda \<and> outcome r = OutRunning) run")
      case None
      then show ?thesis using k that(3) by (auto simp: and_then_Ok)
    next
      case (Some q)
      then have q: "run = Some q" "operation_kind ow = KTune" "driver q = Opcda" "outcome q = OutRunning"
        by (auto simp: option_filter_def split: option.splits if_splits)
      then have "lo_run_id ow = Some (run_id q)" "run_get (run_id q) d = Some q"
        using l by (auto simp: run_get_def find_Some_iff split: option.splits)
      then show ?thesis using k Some q n that(2) by (auto simp: and_then_Ok)
    qed
  qed
qed

lemma sweep_owner_active:
  assumes "sweep_owner e path database stale ow report d = (d', Ok r)" "db_ok d"
  shows "active_rows d' = filter (\<lambda>o'. lo_id o' \<noteq> lo_id ow) (active_rows d)" "db_ok d'"
    and "sr_examined r = sr_examined report" "handled r = handled report + 1"
    and "length (sr_exports r) = length (sr_exports report) + 1" "sr_skipped_for_live_owner r = sr_skipped_for_live_owner report"
  using assms(2) by (cases rule: sweep_owner_cases[OF assms(1)];
    simp add: handled_def retire_active[OF _ assms(2)] mark_active[OF _ assms(2)] abandoned_active[OF _ assms(2)])+

lemma sweep_owners_active:
  assumes "sweep_owners e path database stale ows report d = (d', Ok r)" "db_ok d"
  shows "active_rows d' = filter (\<lambda>o'. lo_id o' \<notin> lo_id ` set ows) (active_rows d) \<and> sr_examined r = sr_examined report \<and>
    db_ok d' \<and> handled r = handled report + length ows \<and> length (sr_exports r) = length (sr_exports report) + length ows \<and>
    sr_skipped_for_live_owner r = sr_skipped_for_live_owner report"
  using assms
proof (induction ows arbitrary: report d)
  case (Cons ow ows)
  obtain r1 d1 where a: "sweep_owner e path database stale ow report d = (d1, Ok r1)"
    and b: "sweep_owners e path database stale ows r1 d1 = (d', Ok r)"
    using Cons.prems(1) by (auto simp: and_then_Ok)
  show ?case using Cons.IH[OF b sweep_owner_active(2)[OF a Cons.prems(2)]] sweep_owner_active[OF a Cons.prems(2)]
    by (auto intro: filter_cong)
qed simp

lemma stale_rows:
  assumes "db_ok d"
  shows "set (stale_active_owners t d) = {o' \<in> set (owners d). is_active o' \<and> heartbeat_at o' < t}"
proof -
  have "active_ids d \<subseteq> claimed_ids d" using assms by (simp add: db_ok_def claims_ok_def)
  then have "holds_claim (lo_id o') d" if "o' \<in> set (owners d)" "is_active o'" for o'
    using that by (force simp: holds_claim_def list_ex_iff keyed_def)
  then show ?thesis by (auto simp: stale_active_owners_def order_by_def is_active_def)
qed

section \<open>What becomes of the stale owners\<close>

lemma sweep_owner_kind:
  assumes "sweep_owner e path database stale ow report d = (d', Ok r)"
    "operation_kind ow = KRecovery"
  obtains x where "abandon_interrupted_recovery e path ow stale (live_claim_key (sw_js e) (database_key ow) (resource_key ow)) d = (d', Ok x)"
    "r = report\<lparr>sr_interrupted_recoveries := sr_interrupted_recoveries report + 1, sr_exports := sr_exports report @ [x]\<rparr>"
  using assms by (auto simp: sweep_owner_def Let_def and_then_Ok split: if_splits)

text \<open>How a stale owner's row ends: a recovery is released, any other operation becomes an orphan, recoverable
  or not; nothing else of the row changes.\<close>

definition ended_as :: "live_ownership_row \<Rightarrow> live_ownership_row \<Rightarrow> bool" where
  "ended_as ow ow' \<longleftrightarrow> (\<exists>t b evidence.
     ow' = ow\<lparr>lo_state := (if operation_kind ow = KRecovery then Released else Orphaned), released_at := Some t,
       orphan_eligible := b, orphan_evidence_json := evidence\<rparr> \<and> (operation_kind ow = KRecovery \<longrightarrow> \<not> b))"

lemma ended_asI:
  "st = (if operation_kind ow = KRecovery then Released else Orphaned) \<Longrightarrow> (operation_kind ow = KRecovery \<Longrightarrow> \<not> b) \<Longrightarrow>
   ended_as ow (ow\<lparr>lo_state := st, released_at := Some t, orphan_eligible := b, orphan_evidence_json := evidence\<rparr>)"
  unfolding ended_as_def by blast

text \<open>The recoverable orphan a recovery works for: of the same run and controller.\<close>

definition resumes :: "live_ownership_row \<Rightarrow> live_ownership_row \<Rightarrow> bool" where
  "resumes ow s \<longleftrightarrow> lo_run_id ow \<noteq> None \<and> lo_run_id s = lo_run_id ow \<and> resource_key s = resource_key ow \<and>
     lo_state s = Orphaned \<and> orphan_eligible s"

definition settled :: "live_ownership_row \<Rightarrow> db \<Rightarrow> db \<Rightarrow> bool" where
  "settled ow d d' \<longleftrightarrow> (\<exists>ow'. replaced ow ow' (owners d) (owners d') \<and> ended_as ow ow' \<and>
     (if operation_kind ow = KRecovery
      then \<exists>s \<in> set (owners d). resumes ow s \<and> (\<exists>c t. replaced c (c\<lparr>cl_owner_id := lo_id s, claimed_at := t\<rparr>) (claims d) (claims d') \<and>
             cl_owner_id c = lo_id ow)
      else set (claims d') = {c \<in> set (claims d). cl_owner_id c = lo_id ow \<longrightarrow> orphan_eligible ow'}))"

lemma interrupted_source_Ok:
  assumes "interrupted_source e ow key d = Ok (run, s, a)"
  shows "s \<in> set (owners d)" "resumes ow s" "operation_kind ow = KRecovery" "lo_run_id ow = Some (run_id run)"
proof -
  obtain rid where rid: "lo_run_id ow = Some rid" "run_get rid d = Some run" "operation_kind ow = KRecovery"
    "filter (eligible_orphan rid) (owners_for_run rid d) = [s]" "resource_key s = resource_key ow"
    using assms by (auto simp: interrupted_source_def Let_def split: option.splits if_splits list.splits)
  then have "s \<in> set (filter (eligible_orphan rid) (owners_for_run rid d))" by simp
  then show "s \<in> set (owners d)" "resumes ow s" using rid by (auto simp: owners_for_run_def order_by_def eligible_orphan_def resumes_def)
  show "operation_kind ow = KRecovery" "lo_run_id ow = Some (run_id run)" using rid by (auto simp: run_get_def find_Some_iff)
qed

lemma row_is:
  assumes "db_ok d" "ow \<in> set (owners d)" "r \<in> set (owners d)" "lo_id r = lo_id ow" shows "r = ow"
  using key_unique[OF owner_ids[OF assms(1)] assms(3,2,4)] .

lemma claim_is:
  assumes "db_ok d" "c \<in> set (claims d)" "c' \<in> set (claims d)" "cl_owner_id c = cl_owner_id c'" shows "c = c'"
  using key_unique[of cl_owner_id "claims d"] assms by (auto simp: db_ok_def claims_ok_def)

lemma abandon_source:
  assumes "abandon_interrupted_recovery e path ow stale key d = (d', Ok x)"
  shows "\<exists>run s a u. interrupted_source e ow key d = Ok (run, s, a) \<and>
    abandon_after_restart (js_valid (sw_js e)) u d = (d', Ok True) \<and> rru_recovery_owner_id u = lo_id ow \<and> rru_source_owner_id u = lo_id s"
proof -
  obtain run s a where s: "interrupted_source e ow key d = Ok (run, s, a)"
    using assms unfolding abandon_interrupted_recovery_def and_then_Ok by (elim exE conjE) (case_tac a, simp)
  show ?thesis using assms unfolding abandon_interrupted_recovery_def s and_then_simps prod.case and_then_Ok Let_def
    by (elim exE conjE) (clarsimp simp: apsnd_map_Ok split: if_splits, intro exI conjI, (assumption | rule refl)+, simp_all)
qed

lemma abandoned_settled:
  assumes "abandon_interrupted_recovery e path ow stale key d = (d', Ok x)" "db_ok d" "ow \<in> set (owners d)" "lo_state ow = Active"
  shows "settled ow d d'"
proof -
  obtain run s a u where s: "interrupted_source e ow key d = Ok (run, s, a)"
    and u: "abandon_after_restart (js_valid (sw_js e)) u d = (d', Ok True)" "rru_recovery_owner_id u = lo_id ow" "rru_source_owner_id u = lo_id s"
    using abandon_source[OF assms(1)] by blast
  note S = interrupted_source_Ok[OF s]
  have ne: "\<not> orphan_eligible ow" using assms(2-4) by (auto simp: db_ok_def rows_ok_def)
  show ?thesis
  proof (cases rule: abandon_commit[OF u(1)])
    case (1 a ats q rs r t c cs)
    have r: "r = ow" using row_is[OF assms(2,3) replaced_in[OF 1(10)]] 1(11) u(2) by simp
    have "ended_as ow (ow\<lparr>lo_state := Released, released_at := Some (rru_now u)\<rparr>)" unfolding ended_as_def using S(3) ne
      by (intro exI[of _ "rru_now u"] exI[of _ False] exI[of _ "orphan_evidence_json ow"]) simp
    then show ?thesis unfolding settled_def using 1 r S u by auto
  qed
qed

lemma retired_settled:
  assumes "retire_stale_unrecoverable_owner e path ow run stale key d = (d', Ok x)" "db_ok d" "ow \<in> set (owners d)"
    "operation_kind ow \<noteq> KRecovery"
  shows "settled ow d d' \<and> (\<exists>ow'. replaced ow ow' (owners d) (owners d') \<and> ended_as ow ow' \<and> \<not> orphan_eligible ow')"
proof -
  obtain u where u: "mark_orphaned_unrecoverable (js_valid (sw_js e)) u d = (d', Ok True)" "uou_owner_id u = lo_id ow"
    using retire_db[OF assms(1)] by blast
  show ?thesis
  proof (cases rule: mark_unrecoverable_commit[OF u(1) assms(2)])
    case (1 r t rs)
    have r: "r = ow" using row_is[OF assms(2,3) replaced_in[OF 1(1)]] 1(2) u(2) by simp
    obtain c0 where c0: "c0 \<in> set (claims d)" "cl_owner_id c0 = lo_id ow" "claim_key c0 = uou_expected_claim_key u"
      using 1(5) u(2) by (auto simp: holds_key_def list_ex_iff)
    have "claim_key c = uou_expected_claim_key u" if "c \<in> set (claims d)" "cl_owner_id c = lo_id ow" for c
      using claim_is[OF assms(2) that(1) c0(1)] that c0 by simp
    then have c: "set (claims d') = {c \<in> set (claims d). cl_owner_id c = lo_id ow \<longrightarrow> False}" using u(2) by (auto simp: 1(7) delete_where_def)
    have "\<exists>ow'. replaced ow ow' (owners d) (owners d') \<and> ended_as ow ow' \<and> \<not> orphan_eligible ow'"
      using 1(1) assms(4)
      by (intro exI[of _ "ow\<lparr>lo_state := Orphaned, released_at := Some (uou_now u), orphan_eligible := False, orphan_evidence_json := Some (uou_evidence_json u)\<rparr>"])
        (auto simp: r 1(7) intro!: ended_asI)
    then show ?thesis unfolding settled_def c using assms(4) by auto
  qed
qed

lemma marked_settled:
  assumes "mark_stale_tune_orphan e path run ow stale key d = (d', Ok (x, b))" "db_ok d" "ow \<in> set (owners d)"
    "operation_kind ow = KTune"
  shows "settled ow d d' \<and> (\<exists>ow' \<in> set (owners d'). lo_id ow' = lo_id ow \<and> orphan_eligible ow' = b)"
proof -
  obtain u where u: "mark_orphaned (js_valid (sw_js e)) u d = (d', Ok True)" "oou_owner_id u = lo_id ow" "oou_eligible u = b"
    using mark_db[OF assms(1)] by blast
  show ?thesis
  proof (cases rule: mark_orphaned_commit[OF u(1) assms(2)])
    case (1 r t q rs)
    have r: "r = ow" using row_is[OF assms(2,3) replaced_in[OF 1(1)]] 1(2) u(2) by simp
    have "\<exists>ow'. replaced ow ow' (owners d) t \<and> ended_as ow ow' \<and> lo_id ow' = lo_id ow \<and> orphan_eligible ow' = b"
      using 1(1) u(3) assms(4) by (intro exI[of _ "ow\<lparr>lo_state := Orphaned, released_at := Some (oou_now u), orphan_eligible := b, orphan_evidence_json := Some (oou_evidence_json u)\<rparr>"])
        (auto simp: r intro!: ended_asI)
    then obtain ow' where w: "replaced ow ow' (owners d) t" "ended_as ow ow'" "lo_id ow' = lo_id ow" "orphan_eligible ow' = b" by blast
    moreover have "set (claims d') = {c \<in> set (claims d). cl_owner_id c = lo_id ow \<longrightarrow> b}" using u by (auto simp: 1(10) delete_where_def)
    ultimately have "settled ow d d'" unfolding settled_def using assms(4) by (auto simp: 1(10))
    then show ?thesis using w replaced_set[OF w(1)] by (auto simp: 1(10))
  qed
qed

text \<open>Whether an owner is left as a recoverable orphan.\<close>

definition left_recoverable :: "db \<Rightarrow> live_ownership_row \<Rightarrow> bool" where
  "left_recoverable d ow \<longleftrightarrow> (\<exists>ow' \<in> set (owners d). lo_id ow' = lo_id ow \<and> orphan_eligible ow')"

lemma ended_id: "ended_as ow ow' \<Longrightarrow> lo_id ow' = lo_id ow"
  by (auto simp: ended_as_def)

lemma left_recoverable_row:
  "db_ok d \<Longrightarrow> ow' \<in> set (owners d) \<Longrightarrow> lo_id ow' = lo_id ow \<Longrightarrow> left_recoverable d ow = orphan_eligible ow'"
  unfolding left_recoverable_def by (metis row_is)

lemma sweep_owner_settled:
  assumes "sweep_owner e path database stale ow report d = (d', Ok r)" "db_ok d" "ow \<in> set (owners d)" "lo_state ow = Active"
  shows "settled ow d d' \<and>
    sr_interrupted_recoveries r = sr_interrupted_recoveries report + (if operation_kind ow = KRecovery then 1 else 0) \<and>
    sr_recoverable r = sr_recoverable report + (if left_recoverable d' ow then 1 else 0)"
proof -
  have ok: "db_ok d'" by (rule sweep_owner_active(2)[OF assms(1,2)])
  have not_rec: "\<not> left_recoverable d' ow" if "ended_as ow ow'" "\<not> orphan_eligible ow'" "replaced ow ow' (owners d) (owners d')" for ow'
    using left_recoverable_row[OF ok _ ended_id[OF that(1)]] that(2) replaced_set[OF that(3)] by blast
  show ?thesis
  proof (cases rule: sweep_owner_cases[OF assms(1)])
    case (1 x)
    have k: "operation_kind ow = KRecovery" using abandon_source[OF 1(1)] interrupted_source_Ok(3) by blast
    have s: "settled ow d d'" by (rule abandoned_settled[OF 1(1) assms(2-4)])
    then obtain ow' where w: "replaced ow ow' (owners d) (owners d')" "ended_as ow ow'" unfolding settled_def by blast
    then have "\<not> orphan_eligible ow'" using k by (auto simp: ended_as_def)
    then show ?thesis using s 1(2) k not_rec[OF w(2) _ w(1)] by simp
  next
    case (2 run x b)
    show ?thesis using marked_settled[OF 2(7) assms(2,3) 2(4)] left_recoverable_row[OF ok] 2(4,8) by auto
  next
    case (3 run x)
    have k: "operation_kind ow \<noteq> KRecovery" by (rule notI, rule sweep_owner_kind[OF assms(1)]) (use 3(2) in \<open>auto dest: arg_cong[where f = sr_interrupted_recoveries]\<close>)
    have "\<exists>ow'. replaced ow ow' (owners d) (owners d') \<and> ended_as ow ow' \<and> \<not> orphan_eligible ow'"
      using retired_settled[OF 3(1) assms(2,3) k] by blast
    then show ?thesis using retired_settled[OF 3(1) assms(2,3) k] not_rec 3(2) k by auto
  qed
qed

text \<open>What became of a stale owner between two databases: its row has ended; a recovery's claim is held by the
  recoverable orphan it worked for, any other claim stayed exactly with an orphan that is recoverable.\<close>

definition owner_ended :: "db \<Rightarrow> db \<Rightarrow> live_ownership_row \<Rightarrow> bool" where
  "owner_ended d d' ow \<longleftrightarrow> (\<exists>ow' \<in> set (owners d'). ended_as ow ow' \<and>
     (if operation_kind ow = KRecovery
      then \<not> holds_claim (lo_id ow) d' \<and>
        (\<exists>s \<in> set (owners d'). resumes ow s \<and> (\<forall>k. has_claim (lo_id ow) k d \<longrightarrow> has_claim (lo_id s) k d'))
      else \<forall>k. has_claim (lo_id ow) k d' \<longleftrightarrow> has_claim (lo_id ow) k d \<and> orphan_eligible ow'))"

lemma claim_holder:
  assumes "db_ok d" "c \<in> set (claims d)"
  shows "\<exists>o' \<in> set (owners d). lo_id o' = cl_owner_id c \<and> (lo_state o' = Active \<or> lo_state o' = Orphaned \<and> orphan_eligible o')"
proof -
  have "cl_owner_id c \<in> active_ids d \<union> fst ` eligibles d" using assms by (auto simp: db_ok_def claims_ok_def)
  then show ?thesis by (auto simp: keyed_def is_active_def is_eligible_def)
qed

lemma ended_holds_nothing:
  assumes "db_ok d" "ow' \<in> set (owners d)" "lo_state ow' \<noteq> Active" "\<not> orphan_eligible ow'"
  shows "\<not> holds_claim (lo_id ow') d" "\<not> has_claim (lo_id ow') k d"
proof -
  have "cl_owner_id c \<noteq> lo_id ow'" if "c \<in> set (claims d)" for c
    using claim_holder[OF assms(1) that] row_is[OF assms(1,2)] assms(3,4) by metis
  then show "\<not> holds_claim (lo_id ow') d" "\<not> has_claim (lo_id ow') k d" by (auto simp: holds_claim_def has_claim_def list_ex_iff)
qed

lemma settled_rows:
  assumes "settled ow d d'"
  shows "map lo_id (owners d') = map lo_id (owners d)"
    "o' \<in> set (owners d) \<Longrightarrow> lo_id o' \<noteq> lo_id ow \<Longrightarrow> o' \<in> set (owners d')"
    "c \<in> set (claims d) \<Longrightarrow> cl_owner_id c \<noteq> lo_id ow \<Longrightarrow> c \<in> set (claims d')"
    "claim_key ` set (claims d') \<subseteq> claim_key ` set (claims d)"
proof -
  obtain ow' where w: "replaced ow ow' (owners d) (owners d')" "ended_as ow ow'" using assms by (auto simp: settled_def)
  show "map lo_id (owners d') = map lo_id (owners d)" by (rule replaced_map[OF w(1)]) (rule ended_id[OF w(2)])
  show "o' \<in> set (owners d')" if "o' \<in> set (owners d)" "lo_id o' \<noteq> lo_id ow" using that replaced_set[OF w(1)] by auto
  show "c \<in> set (claims d')" if "c \<in> set (claims d)" "cl_owner_id c \<noteq> lo_id ow"
    using assms that by (auto simp: settled_def dest!: replaced_set split: if_splits)
  have "claim_key ` set (claims d') = claim_key ` set (claims d)" if "replaced c (c\<lparr>cl_owner_id := i, claimed_at := t\<rparr>) (claims d) (claims d')" for c i t
    by (rule replaced_image[OF that]) simp
  then show "claim_key ` set (claims d') \<subseteq> claim_key ` set (claims d)"
    using assms unfolding settled_def by (elim exE conjE) (simp split: if_splits, blast, blast)
qed

lemma settled_others:
  assumes "settled ow d d1" "db_ok d" "db_ok d1" "o' \<in> set (owners d)" "lo_state o' = Active" "lo_id o' \<noteq> lo_id ow"
  shows "has_claim (lo_id o') k d1 \<longleftrightarrow> has_claim (lo_id o') k d"
proof -
  obtain y where y: "y \<in> set (claims d)" "cl_owner_id y = lo_id o'"
    using assms(2,4,5) by (force simp: db_ok_def claims_ok_def keyed_def is_active_def)
  have y1: "y \<in> set (claims d1)" using settled_rows(3)[OF assms(1) y(1)] y(2) assms(6) by simp
  have "z = y" if "z \<in> set (claims d) \<or> z \<in> set (claims d1)" "cl_owner_id z = lo_id o'" for z
    using that claim_is[OF assms(2) _ y(1), of z] claim_is[OF assms(3) _ y1, of z] y(2) by auto
  then show ?thesis using y y1 unfolding has_claim_def list_ex_iff by blast
qed

lemma settled_ended:
  assumes "settled ow d d1" "db_ok d" "db_ok d'" "lo_state ow = Active"
    and rows: "\<And>o'. o' \<in> set (owners d1) \<Longrightarrow> lo_state o' \<noteq> Active \<Longrightarrow> o' \<in> set (owners d')"
    and kept: "\<And>c o'. c \<in> set (claims d1) \<Longrightarrow> o' \<in> set (owners d1) \<Longrightarrow> lo_id o' = cl_owner_id c \<Longrightarrow> lo_state o' \<noteq> Active \<Longrightarrow> c \<in> set (claims d')"
  shows "owner_ended d d' ow"
proof -
  obtain ow' where w: "replaced ow ow' (owners d) (owners d1)" "ended_as ow ow'"
    and c: "if operation_kind ow = KRecovery
      then \<exists>s \<in> set (owners d). resumes ow s \<and> (\<exists>c t. replaced c (c\<lparr>cl_owner_id := lo_id s, claimed_at := t\<rparr>) (claims d) (claims d1) \<and>
             cl_owner_id c = lo_id ow)
      else set (claims d1) = {c \<in> set (claims d). cl_owner_id c = lo_id ow \<longrightarrow> orphan_eligible ow'}"
    using assms(1) by (auto simp: settled_def)
  have st: "lo_state ow' \<noteq> Active" "operation_kind ow = KRecovery \<Longrightarrow> \<not> orphan_eligible ow'"
    using w(2) by (auto simp: ended_as_def split: if_splits)
  have id: "lo_id ow' = lo_id ow" by (rule ended_id[OF w(2)])
  have in1: "ow' \<in> set (owners d1)" using replaced_set[OF w(1)] by simp
  have in': "ow' \<in> set (owners d')" by (rule rows[OF in1 st(1)])
  have "if operation_kind ow = KRecovery
      then \<not> holds_claim (lo_id ow) d' \<and>
        (\<exists>s \<in> set (owners d'). resumes ow s \<and> (\<forall>k. has_claim (lo_id ow) k d \<longrightarrow> has_claim (lo_id s) k d'))
      else \<forall>k. has_claim (lo_id ow) k d' \<longleftrightarrow> has_claim (lo_id ow) k d \<and> orphan_eligible ow'"
  proof (cases "operation_kind ow = KRecovery")
    case True
    obtain s x t where s: "s \<in> set (owners d)" "resumes ow s"
      "replaced x (x\<lparr>cl_owner_id := lo_id s, claimed_at := t\<rparr>) (claims d) (claims d1)" "cl_owner_id x = lo_id ow"
      using c True by auto
    have so: "lo_state s \<noteq> Active" using s(2) by (auto simp: resumes_def)
    have s1: "s \<in> set (owners d1)" using s(1) so assms(4) replaced_set[OF w(1)] by auto
    have x': "x\<lparr>cl_owner_id := lo_id s, claimed_at := t\<rparr> \<in> set (claims d')"
      by (rule kept[OF _ s1 _ so]) (use replaced_set[OF s(3)] in simp_all)
    have "has_claim (lo_id s) k d'" if h: "has_claim (lo_id ow) k d" for k
    proof -
      obtain y where y: "y \<in> set (claims d)" "cl_owner_id y = lo_id ow" "claim_key y = k" using h by (auto simp: has_claim_def list_ex_iff)
      have "y = x" using claim_is[OF assms(2) y(1) replaced_in[OF s(3)]] y(2) s(4) by simp
      then show ?thesis using x' y(3) by (auto simp: has_claim_def list_ex_iff intro!: bexI[of _ "x\<lparr>cl_owner_id := lo_id s, claimed_at := t\<rparr>"])
    qed
    then show ?thesis using True ended_holds_nothing(1)[OF assms(3) in' st(1) st(2)[OF True]] id s(2) rows[OF s1 so] by auto
  next
    case False
    have "has_claim (lo_id ow) k d' \<longleftrightarrow> has_claim (lo_id ow) k d \<and> orphan_eligible ow'" for k
    proof (cases "orphan_eligible ow'")
      case True
      then have same: "set (claims d1) = set (claims d)" using c False by auto
      have keep: "y \<in> set (claims d')" if "y \<in> set (claims d)" "cl_owner_id y = lo_id ow" for y
        by (rule kept[OF _ in1 _ st(1)]) (use that same id in simp_all)
      obtain y where y: "y \<in> set (claims d)" "cl_owner_id y = lo_id ow"
        using assms(2,4) replaced_in[OF w(1)] by (force simp: db_ok_def claims_ok_def keyed_def is_active_def)
      have "z = y" if "z \<in> set (claims d')" "cl_owner_id z = lo_id ow" for z
        using claim_is[OF assms(3) that(1) keep[OF y]] that(2) y(2) by simp
      then show ?thesis using y keep True by (auto simp: has_claim_def list_ex_iff)
    qed (use ended_holds_nothing(2)[OF assms(3) in' st(1)] id in simp)
    then show ?thesis using False by simp
  qed
  then show ?thesis unfolding owner_ended_def using in' w(2) by blast
qed

lemma sweep_owners_ended:
  assumes "sweep_owners e path database stale ows report d = (d', Ok r)" "db_ok d" "distinct (map lo_id ows)"
    "\<forall>ow \<in> set ows. ow \<in> set (owners d) \<and> lo_state ow = Active"
  shows "db_ok d' \<and> map lo_id (owners d') = map lo_id (owners d) \<and>
    (\<forall>o' \<in> set (owners d). lo_id o' \<notin> lo_id ` set ows \<longrightarrow> o' \<in> set (owners d')) \<and>
    (\<forall>c \<in> set (claims d). cl_owner_id c \<notin> lo_id ` set ows \<longrightarrow> c \<in> set (claims d')) \<and>
    claim_key ` set (claims d') \<subseteq> claim_key ` set (claims d) \<and> (\<forall>ow \<in> set ows. owner_ended d d' ow) \<and>
    sr_interrupted_recoveries r = sr_interrupted_recoveries report + length (filter (\<lambda>ow. operation_kind ow = KRecovery) ows) \<and>
    sr_recoverable r = sr_recoverable report + length (filter (left_recoverable d') ows)"
  using assms
proof (induction ows arbitrary: report d)
  case (Cons ow ows)
  obtain r1 d1 where a: "sweep_owner e path database stale ow report d = (d1, Ok r1)"
    and b: "sweep_owners e path database stale ows r1 d1 = (d', Ok r)"
    using Cons.prems(1) by (auto simp: and_then_Ok)
  have ow: "ow \<in> set (owners d)" "lo_state ow = Active" using Cons.prems(4) by auto
  note S = sweep_owner_settled[OF a Cons.prems(2) ow]
  then have s: "settled ow d d1" by blast
  note R = settled_rows[OF s]
  have ok1: "db_ok d1" by (rule sweep_owner_active(2)[OF a Cons.prems(2)])
  have ne: "lo_id o' \<noteq> lo_id ow" if "o' \<in> set ows" for o'
    using Cons.prems(3) that by (metis distinct.simps(2) image_eqI list.set_map list.simps(9))
  have later: "\<forall>ow \<in> set ows. ow \<in> set (owners d1) \<and> lo_state ow = Active"
  proof
    fix o' assume o': "o' \<in> set ows"
    then show "o' \<in> set (owners d1) \<and> lo_state o' = Active" using ne[OF o'] Cons.prems(4) R(2)[of o'] by simp
  qed
  have "distinct (map lo_id ows)" using Cons.prems(3) by simp
  note I = Cons.IH[OF b ok1 this later]
  then have ok: "db_ok d'" by blast
  have other: "lo_id o' \<notin> lo_id ` set ows" if "o' \<in> set (owners d1)" "lo_state o' \<noteq> Active" for o'
  proof
    assume "lo_id o' \<in> lo_id ` set ows"
    then obtain x where x: "x \<in> set ows" "lo_id x = lo_id o'" by auto
    then have "x = o'" using later row_is[OF ok1 that(1), of x] by simp
    then show False using x(1) later that(2) by auto
  qed
  have "o' \<in> set (owners d')" if "o' \<in> set (owners d1)" "lo_state o' \<noteq> Active" for o' using I other[OF that] that(1) by blast
  moreover have "c \<in> set (claims d')" if "c \<in> set (claims d1)" "o' \<in> set (owners d1)" "lo_id o' = cl_owner_id c" "lo_state o' \<noteq> Active" for c o'
    using I other[OF that(2,4)] that(1,3) by simp
  ultimately have e1: "owner_ended d d' ow" by (rule settled_ended[OF s Cons.prems(2) ok ow(2)])
  have "owner_ended d d' o'" if o': "o' \<in> set ows" for o'
  proof -
    have c: "has_claim (lo_id o') k d1 \<longleftrightarrow> has_claim (lo_id o') k d" for k
      by (rule settled_others[OF s Cons.prems(2) ok1 _ _ ne[OF o']]) (use Cons.prems(4) o' in auto)
    have "owner_ended d1 d' o'" using I o' by blast
    then show ?thesis unfolding owner_ended_def c .
  qed
  moreover have "left_recoverable d1 ow = left_recoverable d' ow"
  proof -
    obtain ow' where w: "ow' \<in> set (owners d1)" "ended_as ow ow'" using s by (auto simp: settled_def dest: replaced_set)
    then have "ow' \<in> set (owners d')" using I other[OF w(1)] by (auto simp: ended_as_def split: if_splits)
    then show ?thesis using left_recoverable_row[OF ok1 w(1)] left_recoverable_row[OF ok] ended_id[OF w(2)] by simp
  qed
  moreover have "\<forall>o' \<in> set (owners d). lo_id o' \<notin> lo_id ` set (ow # ows) \<longrightarrow> o' \<in> set (owners d')"
    and "\<forall>c \<in> set (claims d). cl_owner_id c \<notin> lo_id ` set (ow # ows) \<longrightarrow> c \<in> set (claims d')"
    using I R(2,3) by auto
  moreover have "claim_key ` set (claims d') \<subseteq> claim_key ` set (claims d)" using I R(4) by blast
  ultimately show ?case using S I R(1) e1 by simp
qed auto

text \<open>C33: A successful sweep ends the stale owners and touches nobody else.  The active owners left are
  those whose heartbeat was fresh, and no stale one is left.  Every stale owner has ended as \<open>owner_ended\<close>
  says: a recovery is released and its claim is held by the recoverable orphan it worked for; any other operation is
  an orphan that keeps its claims exactly if it is recoverable.  No owner row is lost, every other owner row and every
  claim of another owner is unchanged, and no controller is claimed that was not claimed before.  The report counts
  and exports every stale owner: the recoveries, the other operations, and those left recoverable.\<close>

theorem sweep_ends_stale_owners:
  assumes "db_reach jv d" "recover_startup_orphans e d = (d', Ok r)" "\<not> sr_skipped_for_live_owner r"
  defines "stale \<equiv> stale_active_owners (stale_before e) d"
  shows "active_rows d' = filter (\<lambda>o'. stale_before e \<le> heartbeat_at o') (active_rows d) \<and>
    stale_active_owners (stale_before e) d' = [] \<and>
    (\<forall>ow \<in> set stale. owner_ended d d' ow) \<and>
    map lo_id (owners d') = map lo_id (owners d) \<and>
    (\<forall>o' \<in> set (owners d). o' \<in> set stale \<or> o' \<in> set (owners d')) \<and>
    (\<forall>c \<in> set (claims d). cl_owner_id c \<in> lo_id ` set stale \<or> c \<in> set (claims d')) \<and>
    claim_key ` set (claims d') \<subseteq> claim_key ` set (claims d) \<and>
    sr_examined r = length stale \<and> length (sr_exports r) = length stale \<and>
    sr_interrupted_recoveries r = length (filter (\<lambda>ow. operation_kind ow = KRecovery) stale) \<and>
    sr_marked_orphaned r + sr_retired_unrecoverable r = length (filter (\<lambda>ow. operation_kind ow \<noteq> KRecovery) stale) \<and>
    sr_recoverable r = length (filter (left_recoverable d') stale)"
proof -
  let ?t = "stale_before e"
  have ok: "db_ok d" using reach_ok[OF assms(1)] by blast
  obtain database path where s: "sweep_owners e path database ?t stale (no_report\<lparr>sr_examined := length stale\<rparr>) d = (d', Ok r)"
    using assms(2,3) by (auto simp: stale_def recover_startup_orphans_def no_report_def Let_def and_then_Ok split: sum.splits option.splits)
  note S = sweep_owners_active[OF s ok]
  have dis: "distinct (map lo_id (owners d))" by (rule owner_ids[OF ok])
  have rows: "set stale = {o' \<in> set (owners d). is_active o' \<and> heartbeat_at o' < ?t}" unfolding stale_def by (rule stale_rows[OF ok])
  have ids: "lo_id o' \<in> lo_id ` set stale \<longleftrightarrow> o' \<in> set stale" if "o' \<in> set (owners d)" for o'
  proof
    assume "lo_id o' \<in> lo_id ` set stale"
    then obtain x where x: "x \<in> set stale" "lo_id x = lo_id o'" by auto
    then have "x = o'" by (intro row_is[OF ok that]) (simp_all add: rows)
    then show "o' \<in> set stale" using x(1) by simp
  qed simp
  have "inj_on lo_id (set stale)" using dis by (auto simp: rows distinct_map intro: inj_on_subset)
  moreover have "distinct stale" using dis by (simp add: stale_def stale_active_owners_def order_by_def distinct_map)
  ultimately have "distinct (map lo_id stale)" by (simp add: distinct_map)
  note E = sweep_owners_ended[OF s ok this]
  have "lo_id o' \<notin> lo_id ` set stale \<longleftrightarrow> ?t \<le> heartbeat_at o'" if "o' \<in> set (active_rows d)" for o'
  proof -
    have "o' \<in> set (owners d)" "is_active o'" using that by simp_all
    then show ?thesis unfolding ids[OF \<open>o' \<in> set (owners d)\<close>] by (simp add: rows not_less)
  qed
  then have "filter (\<lambda>o'. lo_id o' \<notin> lo_id ` set stale) (active_rows d) =
      filter (\<lambda>o'. ?t \<le> heartbeat_at o') (active_rows d)" by (rule filter_cong[OF refl])
  then have fresh: "active_rows d' = filter (\<lambda>o'. ?t \<le> heartbeat_at o') (active_rows d)" using S by argo
  have ok': "db_ok d'" using S by blast
  have "?t \<le> heartbeat_at o'" if "o' \<in> set (active_rows d')" for o' using that unfolding fresh by simp
  then have "\<not> heartbeat_at o' < ?t" if "o' \<in> set (owners d')" "is_active o'" for o' using that by fastforce
  then have none: "set (stale_active_owners ?t d') = {}" unfolding stale_rows[OF ok'] by blast
  have act: "\<forall>ow \<in> set stale. ow \<in> set (owners d) \<and> lo_state ow = Active" by (simp add: rows is_active_def)
  note E = E[OF act]
  have "\<forall>o' \<in> set (owners d). o' \<in> set stale \<or> o' \<in> set (owners d')" using E ids by blast
  moreover have "length stale = length (filter (\<lambda>ow. operation_kind ow = KRecovery) stale) + length (filter (\<lambda>ow. operation_kind ow \<noteq> KRecovery) stale)"
    by (rule sum_length_filter_compl[symmetric])
  ultimately show ?thesis using E S fresh none by (simp add: no_report_def handled_def) blast
qed

section \<open>What the sweep calls recoverable\<close>

lemma mutation_seen_iff:
  "mutation_seen lib allowed sts seen = Some b \<longleftrightarrow>
     (\<forall>s \<in> set sts. step_name s = CONTROLLER_WRITE \<and> ms_status s \<noteq> NotNeeded \<longrightarrow> parse_write_target lib (target_json s) \<noteq> None) \<and>
     b = (seen \<or> (\<exists>s \<in> set sts. step_name s = CONTROLLER_WRITE \<and> ms_status s \<noteq> NotNeeded \<and>
        (\<exists>t v. parse_write_target lib (target_json s) = Some (t, v) \<and> t \<in> set allowed)))"
  by (induction lib allowed sts seen rule: mutation_seen.induct) (auto split: option.splits)

lemma mutation_seen_set: "set sts = set sts' \<Longrightarrow> mutation_seen lib allowed sts seen = Some b \<Longrightarrow> mutation_seen lib allowed sts' seen = Some b"
  by (simp add: mutation_seen_iff)

definition allowed_tags :: "tune_run_row \<Rightarrow> string list" where
  "allowed_tags run = (let g = run_tags run in g_manipulated_variable g # opt_list (g_controller_mode g) @ opt_list (g_mode_attribute g) @
     opt_list (g_setpoint_variable g))"

lemma recovery_eligibility_iff:
  "fst (recovery_eligibility lib run ow sts) \<longleftrightarrow>
     recovery_provenance run ow \<and> bridge_host run \<notin> {None, Some []} \<and> opc_server run \<notin> {None, Some []} \<and>
     (\<exists>r text. run_initial_readings run = Some r \<and>
        \<not> (t_revert_mode (run_template run) \<and> g_controller_mode (run_tags run) \<noteq> None \<and>
           mode_raw r = Some (t_mode_auto_value (run_template run)) \<and> g_setpoint_variable (run_tags run) \<noteq> None \<and> setpoint_ini r = None) \<and>
        restore_intent_json ow = Some text \<and> is_ok (validate_restore_intent lib run text r) \<and> readings_complete run r) \<and>
     run_effective_tuning run \<noteq> None \<and> is_ok (recovery_timing lib run) \<and> is_ok (loop_config_validate (run_config run)) \<and>
     mutation_seen lib (allowed_tags run) sts False = Some True"
  unfolding recovery_eligibility_def allowed_tags_def Let_def
  by (auto split: option.splits sum.splits bool.splits if_splits)

lemma one_of_filter: "distinct xs \<Longrightarrow> set (filter P xs) = {a} \<Longrightarrow> filter P xs = [a]"
  using distinct_filter[of xs P] by (cases "filter P xs" rule: remdups_adj.cases) auto

lemma one_source:
  assumes "db_ok d" "o' \<in> set (owners d)" "eligible_orphan rid o'"
  shows "filter (eligible_orphan rid) (owners_for_run rid d) = [o']"
proof (rule one_of_filter)
  show "distinct (owners_for_run rid d)"
    using owner_ids[OF assms(1)] by (simp add: owners_for_run_def order_by_def distinct_map)
  have "o'' = o'" if "o'' \<in> set (owners d)" "eligible_orphan rid o''" for o''
  proof -
    have "(lo_id o', lo_run_id o') \<in> eligibles d" "(lo_id o'', lo_run_id o'') \<in> eligibles d" "lo_run_id o'' = lo_run_id o'"
      using assms that by (auto simp: keyed_iff is_eligible_def eligible_orphan_def)
    then have "(lo_id o'', lo_run_id o'') = (lo_id o', lo_run_id o')"
      by (intro inj_onD[OF recovery_okD(2)[OF assms(1)]]) simp_all
    then have "lo_id o'' = lo_id o'" by simp
    then show ?thesis by (rule key_unique[OF owner_ids[OF assms(1)] that(1) assms(2)])
  qed
  note u = this
  have "set (filter (eligible_orphan rid) (owners_for_run rid d)) = {x \<in> set (owners d). eligible_orphan rid x}"
    by (auto simp: owners_for_run_def order_by_def eligible_orphan_def)
  then show "set (filter (eligible_orphan rid) (owners_for_run rid d)) = {o'}" using u assms(2,3) by blast
qed

lemma max_by_key_in: "max_by_key k xs = Some x \<Longrightarrow> x \<in> set xs"
proof -
  have "fold (\<lambda>x acc. case acc of None \<Rightarrow> Some x | Some y \<Rightarrow> if k y \<le> k x then Some x else Some y) xs acc = Some x \<Longrightarrow>
      x \<in> set xs \<or> acc = Some x" for acc
    by (induction xs arbitrary: acc) (fastforce split: option.splits if_splits)+
  then show "max_by_key k xs = Some x \<Longrightarrow> x \<in> set xs" unfolding max_by_key_def by blast
qed

lemma run_get_iff: "db_ok d \<Longrightarrow> run_get i d = Some r \<longleftrightarrow> r \<in> set (runs d) \<and> run_id r = i"
proof -
  assume ok: "db_ok d"
  have "distinct (map run_id (runs d))" using ok by (simp add: db_ok_def keys_ok_def)
  then show ?thesis unfolding run_get_def find_Some_iff
    by (auto simp: in_set_conv_nth distinct_conv_nth)
qed

lemma tracker_ready:
  assumes "\<forall>a \<in> set (actuations d). mva_run_id a = run_id run \<longrightarrow> mva_sequence a < 2 ^ 63 - 1" "q_driver q = OpcdaKind"
  shows "\<exists>t. recovery_mv_tracker lib run i q d = Ok t"
proof -
  have "mva_sequence row \<noteq> 2 ^ 63 - 1" if "max_by_key mva_sequence (actuations_for_run (run_id run) d) = Some row" for row
    using max_by_key_in[OF that] assms(1) by (auto simp: actuations_for_run_def order_by_def)
  then show ?thesis using assms(2) by (auto simp: recovery_mv_tracker_def tracker_for_run_def Let_def split: option.splits)
qed

text \<open>A run that failed and is marked recoverable keeps its evidence.\<close>

lemma eligible_after:
  assumes "fst (recovery_eligibility lib run ow sts)" "set sts = set sts'"
    and "run' = run\<lparr>outcome := OutFailed, completed_at := c, failure_reason := f, run_restore_status := rs, restore_detail := rd,
      recovery_state := Some RecEligible, recovery_evidence_json := ev\<rparr>"
    and "ow' = ow\<lparr>lo_state := st, released_at := ra, orphan_eligible := oe, orphan_evidence_json := oev\<rparr>"
  shows "fst (recovery_eligibility lib run' ow' sts')" "is_ok (recovery_timing lib run')" "run_initial_readings run' \<noteq> None"
proof -
  have f: "run_id run' = run_id run" "run_tags run' = run_tags run" "run_template run' = run_template run"
    "run_effective_tuning run' = run_effective_tuning run" by (simp_all add: assms(3))
  have v: "validate_restore_intent lib run' x r = validate_restore_intent lib run x r" "recovery_timing lib run' = recovery_timing lib run"
    "readings_complete run' r = readings_complete run r" "allowed_tags run' = allowed_tags run" for x r
    unfolding validate_restore_intent_def recovery_timing_def readings_complete_def allowed_tags_def f by simp_all
  note E = assms(1)[unfolded recovery_eligibility_iff]
  show "fst (recovery_eligibility lib run' ow' sts')"
    unfolding recovery_eligibility_iff v using E mutation_seen_set[OF assms(2)] by (simp add: assms(3,4) recovery_provenance_def)
  show "is_ok (recovery_timing lib run')" "run_initial_readings run' \<noteq> None" using E unfolding v by (auto simp: assms(3))
qed

lemma checks_accept:
  assumes "db_ok d" "run_get rid d = Some run" "driver run = Opcda" "outcome run = OutFailed" "recovery_state run = Some RecEligible"
    and "bridge_host run = Some host" "opc_server run = Some server" "ow \<in> set (owners d)" "eligible_orphan rid ow"
    and "fst (recovery_eligibility (rn_lib en) run ow (steps_for_owner (lo_id ow) d))" "is_ok (recovery_timing (rn_lib en) run)"
    and "run_initial_readings run \<noteq> None" "try_acquire (sw_lock (rn_sweep en)) = Ok (Some (database_key ow))"
    and "live_resource_key (rn_js en) host server (g_manipulated_variable (run_tags run)) = resource_key ow"
    and "has_claim (lo_id ow) (live_claim_key (rn_js en) (database_key ow) (resource_key ow)) d"
    and "\<forall>a \<in> set (actuations d). mva_run_id a = rid \<longrightarrow> mva_sequence a < 2 ^ 63 - 1"
  shows "\<exists>p. recovery_checks en \<lparr> rq_run_id = rid, rq_yes = True, rq_bridge_host = None, rq_server = None \<rparr> d = Ok p \<and>
    lo_id (rp_source p) = lo_id ow \<and> run_id (rp_run p) = rid"
proof -
  have rid: "run_id run = rid" using run_get_iff[OF assms(1)] assms(2) by blast
  have load: "load_recovery_run (rn_lib en) rid d = Ok run" using assms(2-5) by (simp add: load_recovery_run_def)
  have connection: "resolve_revert_connection (rn_lib en) run None None = Ok (host, server)"
    using assms(6,7) by (simp add: resolve_revert_connection_def)
  have source: "recovery_source_owner (rn_lib en) run d = Ok ow"
    using one_source[OF assms(1,8,9)] by (simp add: recovery_source_owner_def rid)
  have valid: "validate_recovery_run (rn_lib en) run ow (steps_for_owner (lo_id ow) d) = Ok ()"
    using assms(9,10) by (auto simp: validate_recovery_run_def rid split: prod.splits bool.splits)
  obtain timing initial where t: "recovery_timing (rn_lib en) run = Ok timing" "recovered_initial_state (rn_lib en) run = Ok initial"
    using assms(11,12) by (auto simp: is_ok_iff recovered_initial_state_def)
  have opc: "q_driver (recovery_request run host server initial) = OpcdaKind" by (simp add: recovery_request_def Let_def)
  have "\<exists>t. recovery_mv_tracker (rn_lib en) run initial (recovery_request run host server initial) d = Ok t"
    by (rule tracker_ready[OF _ opc]) (use assms(16) in \<open>simp add: rid\<close>)
  then obtain tracker where tr: "recovery_mv_tracker (rn_lib en) run initial (recovery_request run host server initial) d = Ok tracker"
    by blast
  show ?thesis
    unfolding recovery_checks_def Let_def
    using assms(13-15) by (simp add: load connection source valid t tr rid)
qed

text \<open>What marking an orphan as eligible leaves behind.\<close>

lemma marked_orphan:
  assumes "mark_orphaned jv u d = (d', Ok True)" "db_ok d" "oou_eligible u" "ow \<in> set (owners d)" "oou_owner_id u = lo_id ow"
    and "run_get rid d = Some run" "lo_run_id ow = Some rid"
  obtains ow' run' where "ow' \<in> set (owners d')" "eligible_orphan rid ow'" "run_get rid d' = Some run'" "db_ok d'"
    "ow' = ow\<lparr>lo_state := Orphaned, released_at := Some (oou_now u), orphan_eligible := True,
       orphan_evidence_json := Some (oou_evidence_json u)\<rparr>"
    "run' = run\<lparr>outcome := OutFailed, completed_at := Some (oou_now u), failure_reason := Some (oou_detail u),
       run_restore_status := Some RestoreIncomplete, restore_detail := Some (oou_detail u),
       recovery_state := Some RecEligible, recovery_evidence_json := Some (oou_evidence_json u)\<rparr>"
    "claims d' = claims d" "steps d' = steps d" "actuations d' = actuations d" "holds_key (lo_id ow) (oou_expected_claim_key u) d"
  using assms(1,2)
proof (rule mark_orphaned_commit)
  fix o1 t q rs
  assume c: "replaced o1 (o1\<lparr>lo_state := Orphaned, released_at := Some (oou_now u),
       orphan_eligible := oou_eligible u, orphan_evidence_json := Some (oou_evidence_json u)\<rparr>) (owners d) t"
    "lo_id o1 = oou_owner_id u" "operation_kind o1 = KTune" "holds_key (oou_owner_id u) (oou_expected_claim_key u) d"
    "replaced q (q\<lparr>outcome := OutFailed, completed_at := Some (oou_now u),
            failure_reason := Some (oou_detail u), run_restore_status := Some RestoreIncomplete,
            restore_detail := Some (oou_detail u),
            recovery_state := Some (if oou_eligible u then RecEligible else RecNotRecoverable),
            recovery_evidence_json := Some (oou_evidence_json u)\<rparr>) (runs d) rs"
    "lo_run_id o1 = Some (run_id q)"
    "d' = d\<lparr>owners := t, runs := rs, claims := if oou_eligible u then claims d
          else delete_where (\<lambda>c. cl_owner_id c = oou_owner_id u) (claims d)\<rparr>"
  have ow: "o1 = ow" using key_unique[OF owner_ids[OF assms(2)] replaced_in[OF c(1)] assms(4)] c(2) assms(5) by simp
  have ok': "db_ok d'" using mark_orphaned_ok[OF assms(2), of jv u] assms(1) by simp
  have q: "q = run"
    using replaced_in[OF c(5)] c(6) ow assms(6,7) run_get_iff[OF assms(2)] key_unique[of run_id "runs d"] assms(2)
    by (auto simp: db_ok_def keys_ok_def)
  have "run_get rid d' = Some (run\<lparr>outcome := OutFailed, completed_at := Some (oou_now u), failure_reason := Some (oou_detail u),
       run_restore_status := Some RestoreIncomplete, restore_detail := Some (oou_detail u),
       recovery_state := Some RecEligible, recovery_evidence_json := Some (oou_evidence_json u)\<rparr>)"
    unfolding run_get_iff[OF ok'] using c(6,7) ow q assms(3,7) replaced_set[OF c(5)] by simp
  then show thesis
    using that[OF _ _ _ ok' refl refl] c replaced_set[OF c(1)] assms(3,5,7) ow by (simp add: eligible_orphan_def)
qed

lemma recoverable_accepted:
  assumes "db_reach jv d" "ow \<in> set (owners d)" "try_acquire (sw_lock e) = Ok (Some database)"
    and "sweep_owner e path database stale ow report d = (d', Ok r)" "sr_recoverable r = sr_recoverable report + 1"
    and "\<forall>s \<in> set (steps d). ms_owner_id s = lo_id ow \<longrightarrow> ms_run_id s = lo_run_id ow"
    and "\<forall>a \<in> set (actuations d). lo_run_id ow = Some (mva_run_id a) \<longrightarrow> mva_sequence a < 2 ^ 63 - 1"
    and "rn_sweep en = e"
  shows "\<exists>rid p. lo_run_id ow = Some rid \<and>
    recovery_checks en \<lparr> rq_run_id = rid, rq_yes = True, rq_bridge_host = None, rq_server = None \<rparr> d' = Ok p \<and>
    lo_id (rp_source p) = lo_id ow \<and> run_id (rp_run p) = rid"
proof -
  have ok: "db_ok d" using reach_ok[OF assms(1)] by blast
  show ?thesis using assms(4)
  proof (cases rule: sweep_owner_cases)
    case (2 run x b)
    then have b: "b" using assms(5) by (auto split: if_splits)
    obtain u where u: "mark_orphaned (js_valid (sw_js e)) u d = (d', Ok True)" "oou_owner_id u = lo_id ow" "oou_eligible u"
      "fst (orphan_verdict (sw_lib e) (sw_js e) run ow d)"
      "oou_expected_claim_key u = live_claim_key (sw_js e) (database_key ow) (resource_key ow)"
      using mark_db[OF 2(7)] b by blast
    have host: "resource_matches (sw_js e) run ow" "fst (recovery_eligibility (sw_lib e) run ow
        (filter (\<lambda>s. ms_owner_id s = lo_id ow) (steps_for_run (run_id run) d)))"
      using u(4) by (auto simp: orphan_verdict_def split: prod.splits if_splits)
    then obtain host server where h: "bridge_host run = Some host" "opc_server run = Some server"
      "live_resource_key (sw_js e) host server (g_manipulated_variable (run_tags run)) = resource_key ow"
      by (auto simp: resource_matches_def split: option.splits)
    have sts: "set (filter (\<lambda>s. ms_owner_id s = lo_id ow) (steps_for_run (run_id run) d)) = set (steps_for_owner (lo_id ow) d)"
      using assms(6) 2(2) by (auto simp: steps_for_run_def steps_for_owner_def order_by_def)
    obtain ow' run' where w: "ow' \<in> set (owners d')" "eligible_orphan (run_id run) ow'" "run_get (run_id run) d' = Some run'" "db_ok d'"
      and ow': "ow' = ow\<lparr>lo_state := Orphaned, released_at := Some (oou_now u), orphan_eligible := True,
         orphan_evidence_json := Some (oou_evidence_json u)\<rparr>"
      and run': "run' = run\<lparr>outcome := OutFailed, completed_at := Some (oou_now u), failure_reason := Some (oou_detail u),
         run_restore_status := Some RestoreIncomplete, restore_detail := Some (oou_detail u),
         recovery_state := Some RecEligible, recovery_evidence_json := Some (oou_evidence_json u)\<rparr>"
      and same: "claims d' = claims d" "steps d' = steps d" "actuations d' = actuations d" "holds_key (lo_id ow) (oou_expected_claim_key u) d"
      by (rule marked_orphan[OF u(1) ok u(3) assms(2) u(2) 2(3,2)])
    have st: "steps_for_owner i d' = steps_for_owner i d" for i by (simp add: steps_for_owner_def same(2))
    show ?thesis
      using checks_accept[OF w(4,3) _ _ _ _ _ w(1,2), of host server en] eligible_after[OF host(2) sts run' ow'] h u(5) same assms(3,7,8) 2(1,2,5)
      by (auto simp: run' ow' st has_claim_def holds_key_def)
  qed (use assms(5) in simp_all)
qed

text \<open>C34: What the sweep counts as recoverable, a restore accepts: if dealing with a stale owner raises the
  count of recoverable runs, then \<open>restore_loop\<close> with \<open>--yes\<close> and no other flag passes every check before
  the handoff, for that run and that owner; given that the owner's steps name its run, the command
  sequence is not exhausted and the lock is free.\<close>

theorem sweep_recoverable_accepted:
  assumes "db_reach jv d" "ow \<in> set (owners d)" "try_acquire (sw_lock e) = Ok (Some database)"
    and "sweep_owner e path database stale ow report d = (d', Ok r)" "sr_recoverable r = sr_recoverable report + 1"
    and "\<forall>s \<in> set (steps d). ms_owner_id s = lo_id ow \<longrightarrow> ms_run_id s = lo_run_id ow"
    and "\<forall>a \<in> set (actuations d). lo_run_id ow = Some (mva_run_id a) \<longrightarrow> mva_sequence a < 2 ^ 63 - 1"
    and "rn_sweep en = e"
  shows "\<exists>rid p. lo_run_id ow = Some rid \<and>
    recovery_checks en \<lparr> rq_run_id = rid, rq_yes = True, rq_bridge_host = None, rq_server = None \<rparr> d' = Ok p \<and>
    lo_id (rp_source p) = lo_id ow \<and> run_id (rp_run p) = rid"
  by (rule recoverable_accepted[OF assms])

section \<open>What a restore leaves behind\<close>

lemma tick_all_same:
  "au_inner (tick_all js ts s) = au_inner s \<and> actuations (au_db (tick_all js ts s)) = actuations (au_db s) \<and>
   gd_owner (au_guard (tick_all js ts s)) = gd_owner (au_guard s) \<and> gd_claim_key (au_guard (tick_all js ts s)) = gd_claim_key (au_guard s)"
proof -
  have h: "actuations (fst (heartbeat jv i now d)) = actuations d" for jv i now d
    by (auto simp: heartbeat_def run_tx_def bind_result_Ok_iff bind_result_Err_iff split: sum.splits)
  have "actuations (snd (heartbeat_tick js t x)) = actuations (snd x) \<and> gd_owner (fst (heartbeat_tick js t x)) = gd_owner (fst x) \<and>
      gd_claim_key (fst (heartbeat_tick js t x)) = gd_claim_key (fst x)" for t x
    using h[of "js_valid js" "lo_id (gd_owner (fst x))" t "snd x"]
    by (cases x) (auto simp: heartbeat_tick_def split: prod.splits sum.splits)
  then have "actuations (snd (fold (heartbeat_tick js) ts x)) = actuations (snd x) \<and> gd_owner (fst (fold (heartbeat_tick js) ts x)) = gd_owner (fst x) \<and>
      gd_claim_key (fst (fold (heartbeat_tick js) ts x)) = gd_claim_key (fst x)" for x
    by (induction ts arbitrary: x) simp_all
  from this[of "(au_guard s, au_db s)"] show ?thesis by (auto simp: tick_all_def split: prod.splits)
qed

lemma mv_reported:
  assumes "recovery_step_reports lib run i mg owner q d = (reports, audit, attempted)"
    and "list_all (\<lambda>r. rs_status r \<in> {RsSucceeded, RsNotNeeded}) reports"
  shows "\<exists>row \<in> set (actuations d). mva_run_id row = run_id run \<and> mva_kind row = ARestore \<and> mva_status row = Confirmed"
proof -
  let ?mv = "max_by_key mva_sequence (filter (\<lambda>a. mva_kind a = ARestore) (actuations_for_run (run_id run) d))"
  have "mv_step_report lib i ?mv \<in> set reports" using assms(1) by (auto simp: recovery_step_reports_def Let_def)
  then have "rs_status (mv_step_report lib i ?mv) \<noteq> RsFailed" using assms(2) by (auto simp: list_all_iff)
  then obtain row where "?mv = Some row" "mva_status row = Confirmed"
    by (auto simp: mv_step_report_def failed_step_def split: option.splits if_splits)
  then show ?thesis using max_by_key_in[of mva_sequence _ row] by (fastforce simp: actuations_for_run_def order_by_def)
qed

lemma confirmed_report:
  assumes "report_recovery e p attempt export a s0 = (s, rep)" "rl_status rep = recovery_attempt_status.AttemptConfirmed"
  shows "a = AttemptConfirmed \<and> au_inner s = au_inner s0 \<and>
    (\<exists>u d2. cru_status u = recovery_attempt_status.AttemptConfirmed \<and> cru_run_id u = run_id (rp_run p) \<and>
      cru_claim_key u = gd_claim_key (au_guard s0) \<and> cru_recovery_owner_id u = lo_id (gd_owner (au_guard s0)) \<and>
      actuations d2 = actuations (au_db s0) \<and> complete_with_ownership (js_valid (rn_js e)) u d2 = (au_db s, Ok ())) \<and>
    (\<exists>row \<in> set (actuations (au_db s0)). mva_run_id row = run_id (rp_run p) \<and> mva_kind row = ARestore \<and> mva_status row = Confirmed)"
proof -
  let ?s1 = "tick_all (rn_js e) (rn_ticks_after e) s0"
  let ?s2 = "tick_all (rn_js e) (rn_ticks_last e) ?s1"
  obtain reports audit attempted where r: "recovery_step_reports (rn_lib e) (rp_run p) (rp_initial p) (rp_guard p)
      (lo_id (gd_owner (au_guard ?s1))) (rp_request p) (au_db ?s1) = (reports, audit, attempted)" by (metis prod_cases3)
  obtain status detail evidence where st: "status = (if a = AttemptConfirmed \<and> is_ok (ensure_healthy (au_guard ?s2)) \<and> audit = None \<and>
      list_all (\<lambda>r. rs_status r \<in> {RsSucceeded, RsNotNeeded}) reports
      then recovery_attempt_status.AttemptConfirmed else recovery_attempt_status.AttemptIncomplete)"
    and rest: "(let (d, persisted) = complete_with_ownership (js_valid (rn_js e))
             (completion_update e p (stop_heartbeat (au_guard ?s2)) attempt status detail evidence) (au_db ?s2)
      in (?s2\<lparr>au_db := d, au_guard := stop_heartbeat (au_guard ?s2)\<rparr>,
          \<lparr> rl_run_id = run_id (rp_run p), rl_attempt_id = at_id attempt,
            rl_status = (if is_ok persisted then status else recovery_attempt_status.AttemptIncomplete),
            rl_persisted = is_ok persisted, rl_export_path = export, rl_steps = reports,
            rl_detail = (case persisted of Inr _ \<Rightarrow> detail
             | Inl err \<Rightarrow> Some (final_audit_failure_detail (rn_lib e) detail err)) \<rparr>)) = (s, rep)"
    using assms(1) unfolding report_recovery_def Let_def r prod.case by blast
  let ?u = "completion_update e p (stop_heartbeat (au_guard ?s2)) attempt status detail evidence"
  obtain d persisted where c: "complete_with_ownership (js_valid (rn_js e)) ?u (au_db ?s2) = (d, persisted)" by fastforce
  have ok: "is_ok persisted" "status = recovery_attempt_status.AttemptConfirmed" and s: "s = ?s2\<lparr>au_db := d, au_guard := stop_heartbeat (au_guard ?s2)\<rparr>"
    using rest assms(2) unfolding c Let_def prod.case by (auto split: if_splits)
  note same = tick_all_same[of "rn_js e" "rn_ticks_last e" ?s1] tick_all_same[of "rn_js e" "rn_ticks_after e" s0]
  have "complete_with_ownership (js_valid (rn_js e)) ?u (au_db ?s2) = (au_db s, Ok ())" using c ok(1) s by (cases persisted) auto
  moreover have "cru_status ?u = recovery_attempt_status.AttemptConfirmed" "cru_run_id ?u = run_id (rp_run p)"
    "cru_claim_key ?u = gd_claim_key (au_guard s0)" "cru_recovery_owner_id ?u = lo_id (gd_owner (au_guard s0))"
    "actuations (au_db ?s2) = actuations (au_db s0)" using same ok(2) by (simp_all add: completion_update_def stop_heartbeat_def)
  moreover have "a = AttemptConfirmed" "list_all (\<lambda>r. rs_status r \<in> {RsSucceeded, RsNotNeeded}) reports"
    using st ok(2) by (auto split: if_splits)
  moreover have "au_inner s = au_inner s0" using same s by simp
  ultimately show ?thesis using mv_reported[OF r] same by metis
qed

lemma restored_same: "au_inner (restored_state r) = au_inner (rv_driver (re_state r)) \<and> au_guard (restored_state r) = au_guard (rv_driver (re_state r))"
  by (simp add: restored_state_def with_run_db_def)

lemma completed_recovery:
  assumes "complete_with_ownership jv u d = (d', Ok ())" "cru_status u = recovery_attempt_status.AttemptConfirmed"
  shows "actuations d' = actuations d" "\<not> has_claim (cru_recovery_owner_id u) (cru_claim_key u) d'"
    and "\<exists>r \<in> set (runs d'). run_id r = cru_run_id u \<and> outcome r = OutFailed \<and> recovery_state r = Some RecConfirmed \<and>
      run_restore_status r = Some RestoreConfirmed"
proof -
  show "actuations d' = actuations d" using assms(1) by (rule complete_commit) simp
  show "\<not> has_claim (cru_recovery_owner_id u) (cru_claim_key u) d'"
    using assms(1) by (rule complete_commit) (simp add: assms(2) has_claim_def delete_where_def list_ex_iff)
  show "\<exists>r \<in> set (runs d'). run_id r = cru_run_id u \<and> outcome r = OutFailed \<and> recovery_state r = Some RecConfirmed \<and>
      run_restore_status r = Some RestoreConfirmed"
  proof (cases rule: complete_commit[OF assms(1)])
    case (1 rest rec ostate eligible a ats q rs r t o' t' cs)
    have r: "rest = Some RestoreConfirmed" "rec = RecConfirmed" using 1(1) assms(2) by simp_all
    have "completed_run u rest rec q \<in> set rs" using 1(7) by (auto simp: replaced_def)
    moreover have "runs d' = rs" by (simp add: 1(17))
    ultimately show ?thesis using 1(8,9) r
      by (intro bexI[of _ "completed_run u rest rec q"]) (simp_all add: completed_run_def)
  qed
qed

lemma finish_failed:
  assumes "finish_recovery_setup_failure e p g attempt export detail d = (d', r)"
  obtains "d' = d" | u where "complete_with_ownership (js_valid (rn_js e)) u d = (d', Ok ())" "cru_status u = AttemptFailed"
    "cru_claim_key u = gd_claim_key g" "cru_recovery_owner_id u = lo_id (gd_owner g)" "cru_source_owner_id u = lo_id (rp_source p)"
proof -
  let ?u = "completion_update e p (stop_heartbeat g) attempt AttemptFailed (Some detail) (attempt_evidence e p export)"
  obtain d1 x where c: "complete_with_ownership (js_valid (rn_js e)) ?u d = (d1, x)" by fastforce
  have d1: "d' = d1" using assms by (cases x) (auto simp: finish_recovery_setup_failure_def c)
  show ?thesis
  proof (cases x)
    case (Inl err)
    then show ?thesis using complete_not c d1 that(1) by blast
  next
    case (Inr u)
    then show ?thesis using c d1 by (intro that(2)[of ?u]) (simp_all add: completion_update_def stop_heartbeat_def)
  qed
qed

lemma update_run_frame:
  assumes "update_run jv i f d = (d', r)"
  shows "claims d' = claims d" "owners d' = owners d"
  using assms by (auto simp: update_run_def run_tx_def bind_result_Ok_iff bind_result_Err_iff split: sum.splits option.splits prod.splits if_splits)

lemma setup_failed:
  assumes "recovery_setup e p g attempt export d = (d', Err t)"
  obtains d1 where "claims d1 = claims d" "owners d1 = owners d" "d' = d1"
  | u d1 where "claims d1 = claims d" "complete_with_ownership (js_valid (rn_js e)) u d1 = (d', Ok ())"
    "cru_status u = AttemptFailed" "cru_claim_key u = gd_claim_key g" "cru_recovery_owner_id u = lo_id (gd_owner g)"
    "cru_source_owner_id u = lo_id (rp_source p)"
proof -
  obtain d1 x where f: "finalize_pending_for_run (run_id (rp_run p)) Unverified (Some INTERRUPTED_MV) d = (d1, x)" by fastforce
  then have same: "claims d1 = claims d" "owners d1 = owners d"
    by (auto simp: finalize_pending_for_run_def split: sum.splits option.splits)
  obtain c where c: "c = (case rn_gateway e (rp_host p) (rp_server p) of Inl err \<Rightarrow> [] | Inr snapshot \<Rightarrow> snapshot)" by blast
  obtain d2 y where r: "record_gateway_compatibility (js_valid (rn_js e)) (run_id (rp_run p)) c d1 = (d2, y)" by fastforce
  have same2: "claims d2 = claims d" "owners d2 = owners d"
    using update_run_frame[OF r[unfolded record_gateway_compatibility_def]] same by simp_all
  have "(\<exists>detail. finish_recovery_setup_failure e p g attempt export detail d1 = recovery_setup e p g attempt export d) \<or>
      (\<exists>detail. finish_recovery_setup_failure e p g attempt export detail d2 = recovery_setup e p g attempt export d)"
    using assms c r unfolding recovery_setup_def f Let_def prod.case by (auto split: sum.splits if_splits)
  then obtain detail d3 where f: "finish_recovery_setup_failure e p g attempt export detail d3 = recovery_setup e p g attempt export d"
    "claims d3 = claims d" "owners d3 = owners d" using same same2 by blast
  show ?thesis
    by (rule finish_failed[OF f(1)[unfolded assms]]) (use that f(2,3) in blast)+
qed

lemma handoff_moves:
  assumes "recovery_handoff e p d = (d', Ok (export, g, attempt))" "db_ok d"
  shows "gd_claim_key g = rp_claim p" "gd_owner g \<in> set (owners d')" "operation_kind (gd_owner g) = KRecovery"
    "lo_run_id (gd_owner g) = Some (run_id (rp_run p))" "lo_state (gd_owner g) = Active"
    "has_claim i k d' \<longleftrightarrow> has_claim i k d \<and> \<not> (i = lo_id (rp_source p) \<and> k = rp_claim p) \<or> i = lo_id (gd_owner g) \<and> k = rp_claim p"
    "has_claim (lo_id (rp_source p)) (rp_claim p) d" "\<not> has_claim (lo_id (gd_owner g)) k d"
proof -
  obtain new owner where s: "start_with_claim (js_valid (rn_js e)) new (rp_claim p) (lo_id (rp_source p)) (run_id (rp_run p)) export
      (attempt_evidence e p export) d = (d', Ok (Some (owner, attempt)))" and g: "g = start_heartbeat (rp_database p) owner (rp_claim p)"
    using assms(1) by (auto simp: recovery_handoff_def Let_def and_then_Ok apsnd_map_Ok split: option.splits)
  obtain c cs where c: "owner = new_owner_row new d" "nlo_run_id new = Some (run_id (rp_run p))"
      "nlo_operation_kind new = KRecovery"
      "replaced c (c\<lparr>cl_owner_id := lo_id owner, claimed_at := nlo_acquired_at new\<rparr>) (claims d) cs"
      "claim_key c = rp_claim p" "cl_owner_id c = lo_id (rp_source p)" "owners d' = owners d @ [owner]" "claims d' = cs"
    by (rule start_commit[OF s assms(2)], rule that, assumption+) simp_all
  show "gd_claim_key g = rp_claim p" by (simp add: g start_heartbeat_def)
  show "gd_owner g \<in> set (owners d')" using c(7) by (simp add: g start_heartbeat_def)
  show "operation_kind (gd_owner g) = KRecovery" "lo_run_id (gd_owner g) = Some (run_id (rp_run p))" "lo_state (gd_owner g) = Active"
    using c(1-3) by (simp_all add: g start_heartbeat_def new_owner_row_def)
  show "has_claim (lo_id (rp_source p)) (rp_claim p) d"
    using replaced_in[OF c(4)] c(5,6) by (auto simp: has_claim_def list_ex_iff)
  have fresh: "cl_owner_id x \<noteq> lo_id owner" if "x \<in> set (claims d)" for x
    using claimed_id_bound[OF assms(2), of "cl_owner_id x"] that by (auto simp: c(1) new_owner_row_def)
  show "\<not> has_claim (lo_id (gd_owner g)) k d" using fresh by (auto simp: g start_heartbeat_def has_claim_def list_ex_iff)
  have "distinct (map cl_owner_id (claims d))" using assms(2) by (simp add: db_ok_def claims_ok_def)
  then show "has_claim i k d' \<longleftrightarrow> has_claim i k d \<and> \<not> (i = lo_id (rp_source p) \<and> k = rp_claim p) \<or> i = lo_id (gd_owner g) \<and> k = rp_claim p"
    using c(4-6,8) fresh by (auto simp: replaced_def has_claim_def list_ex_iff g start_heartbeat_def image_iff) metis+
qed

lemma apsnd_map_Err: "apsnd (map_sum f id) y = (d', Err z) \<Longrightarrow> \<exists>x. y = (d', Err x)"
  by (cases y; cases "snd y") auto

lemma handoff_refused:
  assumes "recovery_handoff e p d = (d', Err t)" shows "d' = d"
  using assms unfolding recovery_handoff_def Let_def
  by (auto simp: apsnd_map_Ok elim!: and_then_cases dest!: apsnd_map_Err dest: start_not split: option.splits)

lemma failed_setup_claims:
  assumes "recovery_handoff e p d = (d1, Ok (export, g, attempt))" "recovery_setup e p g attempt export d1 = (d', Err t)" "db_ok d"
  shows "has_claim i k d' = has_claim i k d \<or>
    (gd_owner g \<in> set (owners d') \<and> has_claim (lo_id (gd_owner g)) (rp_claim p) d')"
proof -
  note h = handoff_moves[OF assms(1,3)]
  show ?thesis using assms(2)
  proof (cases rule: setup_failed)
    case (1 d2)
    then show ?thesis using h(2) h(6)[of "lo_id (gd_owner g)" "rp_claim p"] by (simp add: has_claim_def)
  next
    case (2 u d2)
    have cl: "claims d' = delete_where (\<lambda>c. claim_key c = rp_claim p \<and> cl_owner_id c = lo_id (gd_owner g)) (claims d1) @
        [\<lparr>claim_key = rp_claim p, cl_owner_id = lo_id (rp_source p), claimed_at = cru_now u\<rparr>]"
      using 2(2) by (rule complete_commit) (use 2 h(1) in simp)
    have "has_claim i k d' \<longleftrightarrow> has_claim i k d1 \<and> \<not> (i = lo_id (gd_owner g) \<and> k = rp_claim p) \<or> i = lo_id (rp_source p) \<and> k = rp_claim p"
      by (auto simp: has_claim_def cl delete_where_def list_ex_iff)
    then show ?thesis using h(6)[of i k] h(7) h(8)[of k] by blast
  qed
qed

text \<open>What the checks of a restore establish.\<close>

lemma checks_plan:
  assumes "recovery_checks e q d = Ok p"
  shows "rp_run p \<in> set (runs d)" "run_id (rp_run p) = rq_run_id q" "fl_eq (is_mv_ini (rp_initial p)) (is_mv_ini (rp_initial p))"
proof -
  obtain run source where l: "load_recovery_run (rn_lib e) (rq_run_id q) d = Ok run" "rp_run p = run"
    and v: "validate_recovery_run (rn_lib e) run source (steps_for_owner (lo_id source) d) = Ok ()"
    and i: "recovered_initial_state (rn_lib e) run = Ok (rp_initial p)"
    using assms unfolding recovery_checks_def Let_def
    by (auto simp: bind_result_Ok_iff split: if_splits option.splits prod.splits)
  have "run_get (rq_run_id q) d = Some run" using l(1) by (auto simp: load_recovery_run_def split: option.splits if_splits)
  then show "rp_run p \<in> set (runs d)" "run_id (rp_run p) = rq_run_id q"
    unfolding l(2) by (auto simp: run_get_def find_Some_iff)
  obtain r where r: "run_initial_readings run = Some r" "rp_initial p = initial_state_from_readings r"
    using i by (auto simp: recovered_initial_state_def split: option.splits)
  have "fst (recovery_eligibility (rn_lib e) run source (steps_for_owner (lo_id source) d))"
    using v by (auto simp: validate_recovery_run_def split: if_splits prod.splits bool.splits)
  then have "is_ok (validate_initial_state (rp_initial p))"
    using r by (auto simp: recovery_eligibility_iff readings_complete_def)
  then show "fl_eq (is_mv_ini (rp_initial p)) (is_mv_ini (rp_initial p))"
    by (cases "is_mv_ini (rp_initial p)") (auto simp: validate_initial_state_def MvRange_contains_def is_ok_iff bind_result_Ok_iff fl_eq_def split: if_splits)
qed

lemma confirmed_recovery:
  assumes "tag_store (rn_put e) holds" "inj (\<lambda>(t, w). js_target (rn_js e) t w)"
    and "re_attempt (recovery_restore e p g d drv) = Some AttemptConfirmed"
    and "fl_eq (is_mv_ini (rp_initial p)) (is_mv_ini (rp_initial p))" "distinct (loop_writes (run_tags (rp_run p)))"
  shows "list_all (\<lambda>(t, v). holds (au_inner (restored_state (recovery_restore e p g d drv))) t v)
    (restore_writes (run_tags (rp_run p)) (run_template (rp_run p)) (rp_initial p) (rp_guard p) ReleaseToInitial)"
proof -
  have inj: "t = t' \<and> w = w'" if "js_target (rn_js e) t w = js_target (rn_js e) t' w'" for t w t' w'
    using that injD[OF assms(2), of "(t, w)" "(t', w')"] by simp
  have x: "rx_initial (recovery_ctx e p) = rp_initial p" "rx_tags (recovery_ctx e p) = run_tags (rp_run p)"
    "rx_template (recovery_ctx e p) = run_template (rp_run p)" "rx_guard (recovery_ctx e p) = rp_guard p"
    by (simp_all add: recovery_ctx_def)
  let ?s = "tick_all (rn_js e) (rn_ticks_before e) \<lparr> au_inner = drv, au_db = d, au_guard = g, au_clock = rn_clock e, au_reads = 0 \<rparr>"
  have r: "recovery_restore e p g d drv = attempt_restore (audited_write (rn_js e) (rn_el e) (rn_put e) (Some (run_id (rp_run p))))
      (recovery_ctx e p) AuditRequired (Option.bind (run_timing_metrics (rp_run p)) measured_oscillation_period_ms) (rn_restore e)
      None None ?s (Some (rp_tracker p)) (au_db ?s)"
    by (simp add: recovery_restore_def recovery_put_def Let_def)
  have "list_all (\<lambda>(t, v). Live_Ownership_Safety.recorded (rn_js e) holds (rv_driver (re_state (recovery_restore e p g d drv))) t v)
      (restore_writes (run_tags (rp_run p)) (run_template (rp_run p)) (rp_initial p) (rp_guard p) ReleaseToInitial)"
    using restored_and_confirmed[OF audited_store[OF assms(1) inj] assms(3)[unfolded r]] assms(4) restore_writes_tags(1)[OF assms(5)]
    unfolding r x by blast
  then show ?thesis by (auto simp: list_all_iff Live_Ownership_Safety.recorded_def restored_same)
qed

lemma failed_setup_accounts:
  assumes "recovery_handoff e p d = (d1, Ok (export, g, attempt))" "recovery_setup e p g attempt export d1 = (d', Err t)" "db_ok d"
  shows "(\<forall>i k. has_claim i k d' = has_claim i k d) \<or>
    (\<exists>ow \<in> set (owners d'). operation_kind ow = KRecovery \<and> lo_run_id ow = Some (run_id (rp_run p)) \<and> lo_state ow = Active \<and>
       holds_claim (lo_id ow) d')"
proof -
  have "(\<forall>i k. has_claim i k d' = has_claim i k d) \<or> gd_owner g \<in> set (owners d') \<and> has_claim (lo_id (gd_owner g)) (rp_claim p) d'"
    using failed_setup_claims[OF assms] by blast
  moreover have "holds_claim i d'" if "has_claim i k d'" for i k
    using that by (auto simp: has_claim_def holds_claim_def list_ex_iff)
  ultimately show ?thesis using handoff_moves(3-5)[OF assms(1,3)] by blast
qed

lemma confirmed_accounts:
  assumes "tag_store (rn_put e) holds" "inj (\<lambda>(t, w). js_target (rn_js e) t w)" "recovery_checks e q d = Ok p"
    and "re_attempt (recovery_restore e p g d2 dr0) = Some a"
    and "report_recovery e p attempt export a (restored_state (recovery_restore e p g d2 dr0)) = (s, rep)"
    and "rl_status rep = recovery_attempt_status.AttemptConfirmed" "distinct (loop_writes (run_tags (rp_run p)))"
  shows "list_all (\<lambda>(t, v). holds (au_inner s) t v)
      (restore_writes (run_tags (rp_run p)) (run_template (rp_run p)) (rp_initial p) (rp_guard p) ReleaseToInitial) \<and>
    (\<exists>a \<in> set (actuations (au_db s)). mva_run_id a = rq_run_id q \<and> mva_kind a = ARestore \<and> mva_status a = Confirmed) \<and>
    (\<exists>r \<in> set (runs (au_db s)). run_id r = rq_run_id q \<and> outcome r = OutFailed \<and> recovery_state r = Some RecConfirmed \<and>
       run_restore_status r = Some RestoreConfirmed)"
proof -
  let ?r = "recovery_restore e p g d2 dr0"
  note c = confirmed_report[OF assms(5,6)] and plan = checks_plan[OF assms(3)]
  obtain u d3 where u: "cru_status u = recovery_attempt_status.AttemptConfirmed" "cru_run_id u = run_id (rp_run p)"
    "actuations d3 = actuations (au_db (restored_state ?r))" "complete_with_ownership (js_valid (rn_js e)) u d3 = (au_db s, Ok ())"
    using c by blast
  have "re_attempt ?r = Some AttemptConfirmed" "au_inner s = au_inner (restored_state ?r)" using assms(4) c by simp_all
  then have "list_all (\<lambda>(t, v). holds (au_inner s) t v)
      (restore_writes (run_tags (rp_run p)) (run_template (rp_run p)) (rp_initial p) (rp_guard p) ReleaseToInitial)"
    using confirmed_recovery[OF assms(1,2) _ plan(3) assms(7)] by metis
  then show ?thesis using c completed_recovery[OF u(4,1)] u plan(2) by auto
qed

text \<open>C35: What \<open>restore_loop\<close> leaves behind.  When it answers an error, no controller was touched, and either
  every claim is held as before (so the recovery can be tried again), or the recovery owner itself is
  still on record with its claim, for the next sweep.  When it reports a confirmed restore, the mode, the
  setpoint and the mode attribute the run had changed hold their initial values on the controller, a
  confirmed restore command of the MV is on record, and the run is marked recovered.\<close>

theorem restore_loop_accounts:
  assumes "db_reach jv d" "tag_store (rn_put e) holds" "inj (\<lambda>(t, w). js_target (rn_js e) t w)"
    and "restore_loop e q d = Some (d', drv, res)"
    and "\<forall>r \<in> set (runs d). run_id r = rq_run_id q \<longrightarrow> distinct (loop_writes (run_tags r))"
  shows "case res of
      Inl t \<Rightarrow> drv = None \<and> ((\<forall>i k. has_claim i k d' = has_claim i k d) \<or>
        (\<exists>ow \<in> set (owners d'). operation_kind ow = KRecovery \<and> lo_run_id ow = Some (rq_run_id q) \<and> lo_state ow = Active \<and>
           holds_claim (lo_id ow) d'))
    | Inr rep \<Rightarrow> rl_status rep = recovery_attempt_status.AttemptConfirmed \<longrightarrow> (\<exists>p dr. recovery_checks e q d = Ok p \<and> drv = Some dr \<and>
        list_all (\<lambda>(t, v). holds dr t v)
          (restore_writes (run_tags (rp_run p)) (run_template (rp_run p)) (rp_initial p) (rp_guard p) ReleaseToInitial) \<and>
        (\<exists>a \<in> set (actuations d'). mva_run_id a = rq_run_id q \<and> mva_kind a = ARestore \<and> mva_status a = Confirmed) \<and>
        (\<exists>r \<in> set (runs d'). run_id r = rq_run_id q \<and> outcome r = OutFailed \<and> recovery_state r = Some RecConfirmed \<and>
           run_restore_status r = Some RestoreConfirmed))"
proof (cases "recovery_checks e q d")
  case (Inl t)
  then show ?thesis using assms(4) by (auto simp: restore_loop_def)
next
  case checks: (Inr p)
  have ok: "db_ok d" using reach_ok[OF assms(1)] by blast
  have dist: "distinct (loop_writes (run_tags (rp_run p)))" using assms(5) checks_plan[OF checks] by blast
  obtain d1 h where h: "recovery_handoff e p d = (d1, h)" by fastforce
  show ?thesis
  proof (cases h)
    case (Inl t)
    then show ?thesis using assms(4) checks h handoff_refused[of e p d d1 t] by (auto simp: restore_loop_def)
  next
    case o: (Inr x)
    obtain export g attempt where x: "x = (export, g, attempt)" by (cases x) auto
    note hand = h[unfolded o x]
    obtain d2 y where y: "recovery_setup e p g attempt export d1 = (d2, y)" by fastforce
    show ?thesis
    proof (cases y)
      case (Inl t)
      have r: "d' = d2" "drv = None" "res = Err t" using assms(4) checks hand y Inl by (simp_all add: restore_loop_def)
      show ?thesis
        using failed_setup_accounts[OF hand y[unfolded Inl] ok] unfolding r sum.case checks_plan(2)[OF checks] by blast
    next
      case (Inr dr0)
      obtain a where a: "re_attempt (recovery_restore e p g d2 dr0) = Some a"
        using assms(4) checks hand y Inr by (auto simp: restore_loop_def Let_def split: option.splits)
      obtain s rep where rep: "report_recovery e p attempt export a (restored_state (recovery_restore e p g d2 dr0)) = (s, rep)" by fastforce
      have r: "d' = au_db s" "drv = Some (au_inner s)" "res = Ok rep"
        using assms(4) checks hand y Inr a rep by (simp_all add: restore_loop_def)
      show ?thesis
        using confirmed_accounts[OF assms(2,3) checks a rep _ dist] unfolding r sum.case checks by blast
    qed
  qed
qed

section \<open>Witnesses\<close>

text \<open>The live run of \<open>Db_Retention\<close> with its connection, its timing and its readings, and one write to the MV
  begun when its process died.  Every stored JSON text stands for the same object here.\<close>

definition demo_readings :: run_initial_readings where
  "demo_readings = readings_row demo_abort_initial"

definition demo_json :: json where
  "demo_json = JObj (fmap_of_list
     [(''version'', JInt 1), (''kind'', JStr ''tune_restore''), (''run_id'', JInt 1), (''state'', JStr ''ready_to_restore''),
      (''mv_tag'', JStr (g_manipulated_variable (rs_tags demo_run_start))), (''initial_readings'', readings_json demo_readings),
      (''template_policy'', policy_json yokogawa_template), (''tag'', JStr (g_manipulated_variable (rs_tags demo_run_start))),
      (''value'', JFloat (Fin 5))])"

definition demo_recovery_lib :: recovery_lib where
  "demo_recovery_lib = \<lparr> rc_parse = (\<lambda>_. Some demo_json), rc_label = (\<lambda>_. ''{}''), rc_num = (\<lambda>_. ''1''), rc_f32 = (\<lambda>_. ''1''),
     rc_status = (\<lambda>_. ''failed''), rc_actuation = (\<lambda>_. ''failed''), rc_config = (\<lambda>_. ''config''), rc_loop = (\<lambda>_. ''loop''),
     rc_db = (\<lambda>_. ''db''), rc_time = (\<lambda>_. JNull), rc_debug = id \<rparr>"

definition demo_step :: new_live_mutation_step where
  "demo_step = \<lparr> nms_owner_id = 1, nms_run_id = Some 1, nms_step = CONTROLLER_WRITE, nms_target_json = ''{}'',
     nms_previous_json = None, nms_started_at = 110 \<rparr>"

definition demo_stale :: db where
  "demo_stale = fold (apply_op accept_json)
     [OpRunConnection 1 (Some ''res'') (Some ''gw'') ''{}'', OpRunTuning 1 (timing_to_db demo_timing), OpRunReadings 1 demo_readings,
      OpStepBegin demo_step] demo_running"

lemma demo_stale_reach: "db_reach accept_json demo_stale"
  unfolding demo_stale_def by (simp add: db_reach.step demo_running_reach del: apply_op.simps)

definition demo_stale_run :: tune_run_row where
  "demo_stale_run = demo_run_row\<lparr>opc_server := Some ''res'', bridge_host := Some ''gw'', request_json := ''{}'',
     run_effective_tuning := Some (timing_to_db demo_timing), run_initial_readings := Some demo_readings\<rparr>"

definition demo_step_row :: live_mutation_step_row where
  "demo_step_row = \<lparr> ms_id = 1, ms_owner_id = 1, ms_run_id = Some 1, step_name = CONTROLLER_WRITE, target_json = ''{}'',
     previous_json = None, ms_status = Intent, ms_started_at = 110, ms_completed_at = None, readback_json = None, ms_detail = None \<rparr>"

lemma demo_stale_eq:
  "demo_stale = demo_empty\<lparr>runs := [demo_stale_run], runs_seq := 1, owners := [demo_owner_row], owners_seq := 1,
     claims := [\<lparr>claim_key = ''k'', cl_owner_id = 1, claimed_at = 100\<rparr>], steps := [demo_step_row], steps_seq := 1\<rparr>"
proof -
  let ?f = "\<lambda>r. r\<lparr>opc_server := Some ''res'', bridge_host := Some ''gw'', request_json := ''{}''\<rparr>"
  let ?g = "\<lambda>r. r\<lparr>run_effective_tuning := Some (timing_to_db demo_timing)\<rparr>"
  let ?h = "\<lambda>r. r\<lparr>run_initial_readings := Some demo_readings\<rparr>"
  have c: "run_check accept_json (?f demo_run_row)" "run_check accept_json (?g (?f demo_run_row))" "run_check accept_json (?h (?g (?f demo_run_row)))"
    by (simp_all add: run_check_def json_ok_def demo_run_row_def new_run_row_def demo_run_start_def demo_config_run_def demo_empty_simps)
  have i: "run_id (?f r) = run_id r" "run_id (?g r) = run_id r" for r :: tune_run_row by simp_all
  have u: "fst (update_run accept_json 1 f d) = d\<lparr>runs := [f row]\<rparr>" if "runs d = [row]" "run_id row = 1" "run_check accept_json (f row)" for f d row
    using update_appended[of d "[]" row accept_json f] that by simp
  have id: "run_id demo_run_row = 1" by simp
  have "fold (apply_op accept_json) [OpRunConnection 1 (Some ''res'') (Some ''gw'') ''{}'', OpRunTuning 1 (timing_to_db demo_timing),
      OpRunReadings 1 demo_readings] demo_running = demo_running\<lparr>runs := [demo_stale_run]\<rparr>"
    using u[of demo_running demo_run_row ?f] u[of "demo_running\<lparr>runs := [?f demo_run_row]\<rparr>" "?f demo_run_row" ?g]
      u[of "demo_running\<lparr>runs := [?g (?f demo_run_row)]\<rparr>" "?g (?f demo_run_row)" ?h] c
    by (simp add: record_connection_def record_effective_tuning_def record_initial_readings_def demo_stale_run_def demo_running_eq)
  then have "demo_stale = apply_op accept_json (OpStepBegin demo_step) (demo_running\<lparr>runs := [demo_stale_run]\<rparr>)"
    by (simp add: demo_stale_def)
  then show ?thesis
    by (simp add: step_begin_def run_tx_def insert_step_def demo_running_eq demo_step_def demo_step_row_def holds_claim_def step_check_def
        run_reference_ok_def json_ok_def demo_stale_run_def demo_empty_def empty_db_def CONTROLLER_WRITE_def) (simp add: demo_owner_row_def step_check_def run_reference_ok_def json_ok_def)
qed

definition demo_sweep :: sweep_env where
  "demo_sweep = \<lparr> sw_lib = demo_recovery_lib, sw_js = demo_js\<lparr>js_strings := \<lambda>xs. if length xs = 2 then ''k'' else ''res''\<rparr>,
     sw_lock = demo_env\<lparr>le_canonical := \<lambda>_. Ok (Some ''db'')\<rparr>,
     sw_export = \<lparr> ex_mkdir = (\<lambda>_. Ok ()), ex_open = (\<lambda>_. Created (Ok ())), ex_stamp = (\<lambda>_. ''t'') \<rparr>, sw_now = secs 60, sw_at = (\<lambda>_. secs 60) \<rparr>"

lemma demo_sweep_simps:
  "sw_lib demo_sweep = demo_recovery_lib" "js_valid (sw_js demo_sweep) = accept_json" "sw_at demo_sweep i = secs 60"
  "live_resource_key (sw_js demo_sweep) a b c = ''res''" "live_claim_key (sw_js demo_sweep) a b = ''k''"
  "try_acquire (sw_lock demo_sweep) = Ok (Some ''db'')" "le_path (sw_lock demo_sweep) = Ok ''/a.db''"
  by (simp_all add: demo_sweep_def demo_js_def live_resource_key_def live_claim_key_def try_acquire_def demo_env_def
      canonicalize_database_path_def database_key_from_canonical_path_def classify_lock_result_def)

lemma demo_export: "\<exists>path. write_recovery_export lib (sw_export demo_sweep) ''/a.db'' now rid owner = Ok path"
proof -
  have "[0..<100] = 0 # [1..<100::nat]" by (simp add: upt_conv_Cons)
  then show ?thesis
    by (simp add: write_recovery_export_def demo_sweep_def path_file_name_def path_parent_def path_join_def Let_def)
qed

lemma orphan_verdict_iff:
  "fst (orphan_verdict lib js run ow d) \<longleftrightarrow> resource_matches js run ow \<and>
     fst (recovery_eligibility lib run ow (filter (\<lambda>s. ms_owner_id s = lo_id ow) (steps_for_run (run_id run) d)))"
  by (auto simp: orphan_verdict_def split: prod.splits)

lemma demo_stale_run_simps:
  "run_id demo_stale_run = 1" "driver demo_stale_run = Opcda" "outcome demo_stale_run = OutRunning" "opc_server demo_stale_run = Some ''res''"
  "bridge_host demo_stale_run = Some ''gw''" "run_tags demo_stale_run = rs_tags demo_run_start" "run_template demo_stale_run = yokogawa_template"
  "run_config demo_stale_run = demo_config_run" "run_initial_readings demo_stale_run = Some demo_readings"
  "run_effective_tuning demo_stale_run = Some (timing_to_db demo_timing)"
  by (simp_all add: demo_stale_run_def demo_run_row_def new_run_row_def demo_run_start_def demo_empty_simps)

lemma demo_owner_row_simps:
  "lo_id demo_owner_row = 1" "lo_run_id demo_owner_row = Some 1" "operation_kind demo_owner_row = KTune" "database_key demo_owner_row = ''db''"
  "resource_key demo_owner_row = ''res''" "restore_intent_json demo_owner_row = Some ''{}''" "lo_state demo_owner_row = Active"
  "heartbeat_at demo_owner_row = 100"
  by (simp_all add: demo_owner_row_def)

lemma demo_intent_valid: "validate_restore_intent demo_recovery_lib demo_stale_run t demo_readings = Ok ()"
  by (simp add: validate_restore_intent_def demo_recovery_lib_def demo_json_def fmlookup_of_list as_u64_def as_i64_def demo_stale_run_simps)

lemma demo_timing_valid: "is_ok (recovery_timing demo_recovery_lib demo_stale_run)"
  by (simp add: recovery_timing_def demo_stale_run_simps timing_to_db_def demo_timing_def timing_of_config_def effective_tuning_default_def
      DEFAULT_TUNING_POLL_INTERVAL_MS_def DEFAULT_TUNING_OP_TIMEOUT_SECS_def DEFAULT_TUNING_RESTORE_TIMEOUT_SECS_def
      validate_restore_timeout_secs_def MIN_OPC_RESTORE_TIMEOUT_SECS_def)

lemma demo_readings_complete: "readings_complete demo_stale_run demo_readings"
proof -
  have "initial_state_from_readings demo_readings = demo_abort_initial"
    by (simp add: demo_readings_def readings_row_def initial_state_from_readings_def)
  then show ?thesis
    using demo_abort_valid by (simp add: readings_complete_def demo_readings_def readings_row_def demo_abort_initial_def demo_stale_run_simps
      demo_run_start_def derive_from_pv_tag_def yokogawa_template_def derive_tag_def trim_def)
qed

lemma demo_eligible: "fst (orphan_verdict demo_recovery_lib (sw_js demo_sweep) demo_stale_run demo_owner_row demo_stale)"
proof -
  have "loop_config_validate demo_config_run = Ok ()"
    by (simp add: loop_config_validate_def demo_config_run_def RELAY_AMP_PERCENT_MIN_def RELAY_AMP_PERCENT_MAX_def MRFT_DELAY_SECS_MAX_def fl_simps)
  moreover have "filter (\<lambda>s. ms_owner_id s = 1) (steps_for_run 1 demo_stale) = [demo_step_row]"
    by (simp add: steps_for_run_def order_by_def demo_stale_eq demo_step_row_def)
  moreover have "mutation_seen demo_recovery_lib (allowed_tags demo_stale_run) [demo_step_row] False = Some True"
    by (simp add: demo_step_row_def parse_write_target_def demo_recovery_lib_def demo_json_def fmlookup_of_list allowed_tags_def demo_stale_run_simps Let_def)
  ultimately show ?thesis
    using demo_intent_valid demo_timing_valid demo_readings_complete
    by (simp add: orphan_verdict_iff recovery_eligibility_iff resource_matches_def demo_sweep_simps demo_stale_run_simps demo_owner_row_simps
        recovery_provenance_def) (simp add: demo_readings_def readings_row_def demo_abort_initial_def yokogawa_template_def)
qed

lemma demo_swept:
  "\<exists>x u. sweep_owner demo_sweep ''/a.db'' ''db'' t demo_owner_row report demo_stale = (apply_op accept_json (OpOrphan u) demo_stale,
      Ok (report\<lparr>sr_marked_orphaned := sr_marked_orphaned report + 1, sr_recoverable := sr_recoverable report + 1, sr_exports := sr_exports report @ [x]\<rparr>)) \<and>
    mark_orphaned accept_json u demo_stale = (apply_op accept_json (OpOrphan u) demo_stale, Ok True)"
proof -
  obtain x where x: "write_recovery_export demo_recovery_lib (sw_export demo_sweep) ''/a.db'' (secs 60) (Some 1) 1 = Ok x"
    using demo_export by blast
  obtain why where v: "orphan_verdict demo_recovery_lib (sw_js demo_sweep) demo_stale_run demo_owner_row demo_stale = (True, why)"
    using demo_eligible by (cases "orphan_verdict demo_recovery_lib (sw_js demo_sweep) demo_stale_run demo_owner_row demo_stale") auto
  have g: "run_get 1 demo_stale = Some demo_stale_run" by (simp add: run_get_def demo_stale_eq demo_stale_run_simps)
  have h: "has_claim 1 ''k'' demo_stale" by (simp add: has_claim_def demo_stale_eq)
  let ?u = "\<lambda>j. \<lparr>oou_owner_id = 1, oou_expected_heartbeat = 100, oou_expected_claim_key = ''k'', oou_now = secs 60,
      oou_evidence_json = j, oou_eligible = True, oou_detail = ELIGIBLE_DETAIL\<rparr>"
  have "snd (mark_orphaned accept_json (?u j) demo_stale) = Ok True" for j
    by (simp add: mark_orphaned_def run_tx_def demo_stale_eq sql_update_def one_row_def update_where_def affected_def holds_key_def
        demo_owner_row_def demo_stale_run_simps owner_check_def run_check_def json_ok_def)
      (simp add: demo_stale_run_def demo_run_row_def new_run_row_def demo_config_run_def demo_run_start_def json_ok_def)
  then have m: "mark_orphaned accept_json (?u j) demo_stale = (fst (mark_orphaned accept_json (?u j) demo_stale), Ok True)" for j
    by (metis prod.collapse)
  let ?j = "sweep_evidence demo_sweep ''startup_orphan_sweep'' demo_owner_row t x True [(''owner_id'', JInt 1),
    (''resource_matches_run'', JBool (resource_matches (sw_js demo_sweep) demo_stale_run demo_owner_row)), (''eligibility_detail'', JStr why)]"
  obtain d1 where m1: "mark_orphaned accept_json (?u ?j) demo_stale = (d1, Ok True)" using m by blast
  have "\<exists>u. mark_stale_tune_orphan demo_sweep ''/a.db'' demo_stale_run demo_owner_row t ''k'' demo_stale =
      (fst (mark_orphaned accept_json u demo_stale), Ok (x, True)) \<and>
    mark_orphaned accept_json u demo_stale = (fst (mark_orphaned accept_json u demo_stale), Ok True)"
    unfolding mark_stale_tune_orphan_def demo_sweep_simps v prod.case Let_def demo_owner_row_simps demo_stale_run_simps x and_then_simps
    by (intro exI[of _ "?u ?j"]) (simp add: m1)
  then obtain u where u: "mark_stale_tune_orphan demo_sweep ''/a.db'' demo_stale_run demo_owner_row t ''k'' demo_stale =
      (fst (mark_orphaned accept_json u demo_stale), Ok (x, True))"
    "mark_orphaned accept_json u demo_stale = (fst (mark_orphaned accept_json u demo_stale), Ok True)" by blast
  show ?thesis
    by (intro exI[of _ x] exI[of _ u])
      (simp add: sweep_owner_def demo_sweep_simps demo_owner_row_simps demo_stale_run_simps h g option_filter_def u(1) u(2)[symmetric])
qed

lemma demo_swept_ok:
  "demo_owner_row \<in> set (owners demo_stale)" "\<forall>s \<in> set (steps demo_stale). ms_owner_id s = lo_id demo_owner_row \<longrightarrow> ms_run_id s = lo_run_id demo_owner_row"
  "actuations demo_stale = []" "stale_active_owners (stale_before demo_sweep) demo_stale = [demo_owner_row]"
  by (simp_all add: demo_stale_eq demo_step_row_def demo_owner_row_simps demo_empty_def empty_db_def stale_active_owners_def order_by_def
      holds_claim_def stale_before_def demo_sweep_def ORPHAN_STALE_AFTER_def secs_def ns_per_sec_def)

theorem sweep_ends_stale_owners_witness:
  "\<exists>d' r. recover_startup_orphans demo_sweep demo_stale = (d', Ok r) \<and> active_rows d' = [] \<and> sr_examined r = 1 \<and>
     sr_interrupted_recoveries r = 0 \<and> sr_marked_orphaned r + sr_retired_unrecoverable r = 1 \<and> sr_recoverable r = 1 \<and>
     owner_ended demo_stale d' demo_owner_row \<and> map lo_id (owners d') = [1] \<and> has_claim 1 ''k'' d'"
proof -
  obtain d' r where s: "recover_startup_orphans demo_sweep demo_stale = (d', Ok r)" "\<not> sr_skipped_for_live_owner r" "sr_recoverable r = 1"
    using demo_swept[of "stale_before demo_sweep" "no_report\<lparr>sr_examined := 1\<rparr>"]
    by (auto simp: recover_startup_orphans_def demo_sweep_simps demo_swept_ok(4) and_then_def no_report_def split: prod.splits)
  note C = sweep_ends_stale_owners[OF demo_stale_reach s(1,2), unfolded demo_swept_ok(4)]
  have c: "\<forall>ow \<in> set [demo_owner_row]. owner_ended demo_stale d' ow" "map lo_id (owners d') = map lo_id (owners demo_stale)"
    "active_rows d' = filter (\<lambda>o'. stale_before demo_sweep \<le> heartbeat_at o') (active_rows demo_stale)"
    "sr_examined r = length [demo_owner_row]" "sr_recoverable r = length (filter (left_recoverable d') [demo_owner_row])"
    "sr_interrupted_recoveries r = length (filter (\<lambda>ow. operation_kind ow = KRecovery) [demo_owner_row])"
    "sr_marked_orphaned r + sr_retired_unrecoverable r = length (filter (\<lambda>ow. operation_kind ow \<noteq> KRecovery) [demo_owner_row])"
    using C by blast+
  have ids: "map lo_id (owners d') = [1]" unfolding c(2) by (simp add: demo_stale_eq demo_owner_row_simps)
  have e: "owner_ended demo_stale d' demo_owner_row" using c(1) by simp
  have rec: "left_recoverable d' demo_owner_row"
    using c(5) unfolding s(3) by (cases "left_recoverable d' demo_owner_row") simp_all
  have k: "has_claim 1 ''k'' demo_stale" by (simp add: has_claim_def demo_stale_eq)
  obtain row where row: "owners d' = [row]" using ids by auto
  then have "orphan_eligible row" using rec by (simp add: left_recoverable_def)
  moreover obtain ow' where "ow' \<in> set (owners d')" "\<forall>k. has_claim (lo_id demo_owner_row) k d' \<longleftrightarrow> has_claim (lo_id demo_owner_row) k demo_stale \<and> orphan_eligible ow'"
    using e unfolding owner_ended_def demo_owner_row_simps by auto
  ultimately have "has_claim 1 ''k'' d'" using k row by (simp add: demo_owner_row_simps)
  moreover have "active_rows d' = []" unfolding c(3)
    by (simp add: demo_stale_eq demo_owner_row_simps stale_before_def demo_sweep_def ORPHAN_STALE_AFTER_def secs_def ns_per_sec_def)
  ultimately show ?thesis using c(4,6,7) s(1,3) e ids by (intro exI[of _ d'] exI[of _ r]) (simp add: demo_owner_row_simps)
qed

definition demo_unreachable :: "(string \<rightharpoonup> tag_write) recovery_env" where
  "demo_unreachable = \<lparr> rn_sweep = demo_sweep, rn_el = demo_el, rn_texts = demo_report_lib, rn_parse = demo_parse, rn_put = memory_put,
     rn_pid = 2, rn_started = secs 70, rn_completed = secs 80, rn_utc_max = 10 ^ 18, rn_clock = int,
     rn_connect = (\<lambda>_ _. Err ''refused''), rn_gateway = (\<lambda>_ _. Ok ''{}''), rn_restore = demo_restore_input,
     rn_ticks_before = [], rn_ticks_after = [], rn_ticks_last = [] \<rparr>"

abbreviation demo_restore_request :: restore_loop_request where
  "demo_restore_request \<equiv> \<lparr> rq_run_id = 1, rq_yes = True, rq_bridge_host = None, rq_server = None \<rparr>"

theorem sweep_recoverable_accepted_witness:
  "\<exists>d' r p. sweep_owner demo_sweep ''/a.db'' ''db'' 0 demo_owner_row no_report demo_stale = (d', Ok r) \<and> sr_recoverable r = 1 \<and>
     recovery_checks demo_unreachable demo_restore_request d' = Ok p \<and> lo_id (rp_source p) = 1"
proof -
  obtain d' r where s: "sweep_owner demo_sweep ''/a.db'' ''db'' 0 demo_owner_row no_report demo_stale = (d', Ok r)"
    "sr_recoverable r = sr_recoverable no_report + 1" "sr_recoverable r = 1"
    using demo_swept[of 0 no_report] by (auto simp: no_report_def)
  show ?thesis
    using sweep_recoverable_accepted[OF demo_stale_reach demo_swept_ok(1) _ s(1,2) demo_swept_ok(2), of demo_unreachable] s(1,3)
    by (auto simp: demo_sweep_simps demo_swept_ok(3) demo_owner_row_simps demo_unreachable_def)
qed

lemma unreachable_fails:
  assumes "rn_connect e = (\<lambda>_ _. Err x)"
  shows "\<exists>d' t. restore_loop e q d = Some (d', None, Err t)"
proof -
  have "\<exists>d' t. recovery_setup e p g attempt export d1 = (d', Err t)" for p g attempt export d1
  proof -
    have "\<exists>d' t. finish_recovery_setup_failure e p g attempt export detail d2 = (d', Err t :: (string, 'a) result)" for detail d2
      by (simp add: finish_recovery_setup_failure_def and_then_def split: prod.split sum.split)
    then show ?thesis using assms by (simp add: recovery_setup_def Let_def split: prod.split sum.split)
  qed
  note fails = this
  show ?thesis
  proof (cases "recovery_checks e q d")
    case c: (Inr p)
    obtain d1 h where h: "recovery_handoff e p d = (d1, h)" by fastforce
    show ?thesis
    proof (cases h)
      case (Inr x)
      obtain export g attempt where x: "x = (export, g, attempt)" by (cases x) auto
      obtain d' t where "recovery_setup e p g attempt export d1 = (d', Err t)" using fails by blast
      then show ?thesis by (simp add: restore_loop_def c h Inr x)
    qed (simp add: restore_loop_def c h)
  qed (simp add: restore_loop_def)
qed

lemma orphaned_tags:
  assumes "mark_orphaned jv u d = (d', Ok True)" "db_ok d" shows "map run_tags (runs d') = map run_tags (runs d)"
proof (cases rule: mark_orphaned_commit[OF assms])
  case (1 r t q rs)
  have "map run_tags rs = map run_tags (runs d)" by (rule replaced_map[OF 1(7)]) simp
  then show ?thesis by (simp add: 1(10))
qed

text \<open>The gateway of an orphaned run cannot be reached.\<close>

theorem restore_loop_accounts_witness:
  "\<exists>d d' t p. recovery_checks demo_unreachable demo_restore_request d = Ok p \<and>
     restore_loop demo_unreachable demo_restore_request d = Some (d', None, Err t) \<and>
     ((\<forall>i k. has_claim i k d' = has_claim i k d) \<or> (\<exists>ow \<in> set (owners d'). operation_kind ow = KRecovery \<and> lo_state ow = Active))"
proof -
  obtain x u where s: "sweep_owner demo_sweep ''/a.db'' ''db'' 0 demo_owner_row no_report demo_stale = (apply_op accept_json (OpOrphan u) demo_stale,
      Ok (no_report\<lparr>sr_marked_orphaned := sr_marked_orphaned no_report + 1, sr_recoverable := sr_recoverable no_report + 1,
        sr_exports := sr_exports no_report @ [x]\<rparr>))"
    and m: "mark_orphaned accept_json u demo_stale = (apply_op accept_json (OpOrphan u) demo_stale, Ok True)"
    using demo_swept[of 0 no_report] by (elim exE conjE) (rule that)
  let ?d = "apply_op accept_json (OpOrphan u) demo_stale"
  have e: "rn_sweep demo_unreachable = demo_sweep" "rn_put demo_unreachable = memory_put" "rn_connect demo_unreachable = (\<lambda>_ _. Err ''refused'')"
    by (simp_all add: demo_unreachable_def)
  obtain p where p: "recovery_checks demo_unreachable demo_restore_request ?d = Ok p"
    using recoverable_accepted[OF demo_stale_reach demo_swept_ok(1) _ s _ demo_swept_ok(2) _ e(1)]
    by (auto simp: demo_sweep_simps demo_swept_ok(3) demo_owner_row_simps simp del: apply_op.simps)
  have reach: "db_reach accept_json ?d" by (rule db_reach.step[OF demo_stale_reach])
  have "map run_tags (runs ?d) = [rs_tags demo_run_start]"
    using orphaned_tags[OF m] reach_ok[OF demo_stale_reach] by (simp add: demo_stale_eq demo_stale_run_simps del: apply_op.simps)
  then have "run_tags ` set (runs ?d) = {rs_tags demo_run_start}" unfolding set_map[symmetric] by (simp del: apply_op.simps)
  moreover have "distinct (loop_writes (rs_tags demo_run_start))"
    by code_simp
  ultimately have dist: "\<forall>r \<in> set (runs ?d). run_id r = rq_run_id demo_restore_request \<longrightarrow> distinct (loop_writes (run_tags r))" by (metis imageI singletonD)
  have "js_target (rn_js demo_unreachable) = js_target demo_js" by (simp add: e demo_sweep_def)
  then have inj: "inj (\<lambda>(t, w). js_target (rn_js demo_unreachable) t w)" by (auto simp: inj_def dest: demo_js_inj)
  obtain d' t where r: "restore_loop demo_unreachable demo_restore_request ?d = Some (d', None, Err t)" using unreachable_fails[OF e(3)] by blast
  have store: "tag_store (rn_put demo_unreachable) memory_holds" using memory.tag_store_axioms by (simp add: e)
  from restore_loop_accounts[OF reach store inj r dist] show ?thesis
    unfolding sum.case by (intro exI[of _ ?d] exI[of _ d'] exI[of _ t] exI[of _ p] conjI p r) blast
qed

end
