(* ===== verification/Revert.thy ===== *)
theory Revert
  imports Write_Back Restore_Loop
begin

text \<open>
  Reverting a PID write-back (\<open>bhtune-runtime/src/history.rs\<close>): the values read before a run's last
  write-back are written again, through an ownership of its own on the recorded controller.

  Connecting, the gateway check, clocks and texts are inputs; the heartbeat may tick before and after the
  writes.  The progress callback only tells an adapter and is left out.
\<close>

datatype revert_run_error = RvInvalid string | RvConnection string | RvGateway string | RvPersistence string

record revert_request =
  rvq_run_id :: int
  rvq_bridge_host :: "string option"
  rvq_server :: "string option"
  rvq_confirmed :: bool

record revert_run_result =
  rvr_response_level :: response_level
  rvr_target :: write_readback
  rvr_outcome :: pid_write_outcome

record 'd revert_env =
  rv_ctl :: "'d controller"
  rv_lib :: recovery_lib
  rv_lock :: lock_env
  rv_pid :: int
  rv_now :: timestamp
  rv_released :: timestamp
  rv_clock :: "nat \<Rightarrow> timestamp"
  rv_connect :: "string \<Rightarrow> string \<Rightarrow> (string, 'd) result"
  rv_gateway :: "string \<Rightarrow> string \<Rightarrow> (string, string) result"
  rv_ticks_before :: "timestamp list"
  rv_ticks_after :: "timestamp list"
  rv_level_text :: "response_level \<Rightarrow> string"
  rv_acquire_text :: "acquire_error \<Rightarrow> string"
  rv_live_text :: "live_error \<Rightarrow> string"
  rv_write_text :: "write_error \<Rightarrow> string"

definition revert_error_text :: "revert_run_error \<Rightarrow> string" where
  "revert_error_text x = (case x of RvInvalid t \<Rightarrow> t | RvConnection t \<Rightarrow> t | RvGateway t \<Rightarrow> t | RvPersistence t \<Rightarrow> t)"

text \<open>What is checked before an ownership is taken: the run, its last write-back with the values before it,
  the confirmation, the tags and the connection.\<close>

record revert_plan =
  rvp_run :: tune_run_row
  rvp_level :: response_level
  rvp_target :: write_readback
  rvp_tags :: "string \<times> string \<times> string"
  rvp_host :: string
  rvp_server :: string

definition last_write_back :: "int \<Rightarrow> db \<Rightarrow> tune_write_row option" where
  "last_write_back rid d = List.find (\<lambda>w. nw_kind w = WWrite) (rev (writes_for_run rid d))"

definition revert_checks :: "'d revert_env \<Rightarrow> revert_request \<Rightarrow> db \<Rightarrow> (revert_run_error, revert_plan) result" where
  "revert_checks e q d =
     (let lib = rv_lib e; rid = rvq_run_id q; num = rc_num lib rid
      in case run_get rid d of
           None \<Rightarrow> Err (RvInvalid (''no run with id '' @ num))
         | Some run \<Rightarrow>
      if driver run \<noteq> Opcda
      then Err (RvInvalid (''run '' @ num @ '' used the '' @ (case driver run of Opcda \<Rightarrow> ''Opcda'' | Simulator \<Rightarrow> ''Simulator'' | Replay \<Rightarrow> ''Replay'')
             @ '' driver, which has no live loop to revert a write against''))
      else (case last_write_back rid d of
           None \<Rightarrow> Err (RvInvalid (''run '' @ num @ '' has no recorded PID write-back to revert''))
         | Some w \<Rightarrow>
      (case nw_previous w of
           None \<Rightarrow> Err (RvInvalid (''run '' @ num @ [CHR 39] @ ''s '' @ rv_level_text e (nw_response_level w) @
               '' PID write-back never recorded pre-write values (its pre-read failed at the time); nothing to revert to''))
         | Some target \<Rightarrow>
      if \<not> rvq_confirmed q
      then Err (RvInvalid ''reverting writes PID constants back to a live loop; pass --yes to confirm'')
      else (case (g_proportional_constant (run_tags run), g_integral_constant (run_tags run), g_derivative_constant (run_tags run)) of
           (Some p, Some i, Some dv) \<Rightarrow>
             bind_result (map_sum RvInvalid id (resolve_revert_connection lib run (rvq_bridge_host q) (rvq_server q))) (\<lambda>(host, server).
               Ok \<lparr> rvp_run = run, rvp_level = nw_response_level w, rvp_target = target, rvp_tags = (p, i, dv),
                    rvp_host = host, rvp_server = server \<rparr>)
         | _ \<Rightarrow> Err (RvInvalid (''run '' @ num @ [CHR 39] @ ''s snapshotted tags have no PID constant tags configured''))))))"

definition revert_intent :: "recovery_lib \<Rightarrow> int \<Rightarrow> string" where
  "revert_intent lib rid =
     rc_label lib (JObj (fmap_of_list [(''version'', JInt 1), (''kind'', JStr ''pid_restore''), (''run_id'', JInt rid),
       (''write_kind'', JStr ''revert''), (''state'', JStr ''awaiting_prewrite_readings'')]))"

definition record_gateway_compatibility_if_missing ::
  "'d revert_env \<Rightarrow> tune_run_row \<Rightarrow> string \<Rightarrow> db \<Rightarrow> db \<times> (revert_run_error, unit) result" where
  "record_gateway_compatibility_if_missing e run snapshot d =
     (if gateway_compatibility_json run \<noteq> None then (d, Ok ())
      else apsnd (map_sum (\<lambda>x. RvPersistence (rc_db (rv_lib e) x)) (\<lambda>_. ()))
             (record_gateway_compatibility (js_valid (co_js (rv_ctl e))) (run_id run) snapshot d))"

text \<open>The operation under the ownership: the state it leaves, the driver once there is one.\<close>

definition revert_operation ::
  "'d revert_env \<Rightarrow> bool \<Rightarrow> revert_plan \<Rightarrow> live_guard \<Rightarrow> db
   \<Rightarrow> (db \<times> live_guard \<times> 'd option) \<times> (revert_run_error, revert_run_result) result" where
  "revert_operation e allow p g d =
     (case ensure_healthy g of
        Inl t \<Rightarrow> ((d, g, None), Err (RvPersistence t))
      | Inr _ \<Rightarrow>
     (case rv_connect e (rvp_host p) (rvp_server p) of
        Inl t \<Rightarrow> ((d, g, None), Err (RvConnection t))
      | Inr drv \<Rightarrow>
     (case rv_gateway e (rvp_host p) (rvp_server p) of
        Inl t \<Rightarrow> ((d, g, Some drv), Err (RvGateway t))
      | Inr snapshot \<Rightarrow>
     (case record_gateway_compatibility_if_missing e (rvp_run p) snapshot d of
        (d1, Inl x) \<Rightarrow> ((d1, g, Some drv), Err x)
      | (d1, Inr _) \<Rightarrow>
          (let rid = run_id (rvp_run p); (pt, it, dt) = rvp_tags p; js = co_js (rv_ctl e);
               s = tick_all js (rv_ticks_before e)
                     \<lparr> au_inner = drv, au_db = d1, au_guard = g, au_clock = rv_clock e, au_reads = 0 \<rparr>;
               (s1, r) = write_pid_values_with_owner (rv_ctl e) (Some rid) rid pt it dt (rvp_level p) (rvp_target p) WRevert allow s;
               s2 = tick_all js (rv_ticks_after e) s1
           in ((au_db s2, au_guard s2, Some (au_inner s2)),
               map_sum (\<lambda>x. RvPersistence (rv_write_text e x))
                 (\<lambda>out. \<lparr> rvr_response_level = rvp_level p, rvr_target = rvp_target p, rvr_outcome = out \<rparr>) r))))))"

definition combine_revert_and_release ::
  "(live_error \<Rightarrow> string) \<Rightarrow> (revert_run_error, 'a) result \<Rightarrow> (live_error, unit) result \<Rightarrow> (revert_run_error, 'a) result" where
  "combine_revert_and_release text op rel =
     (case (op, rel) of
        (Inr x, Inr _) \<Rightarrow> Ok x
      | (Inl x, Inr _) \<Rightarrow> Err x
      | (Inr _, Inl y) \<Rightarrow> Err (RvPersistence (text y))
      | (Inl x, Inl y) \<Rightarrow> Err (RvPersistence (revert_error_text x @ ''; additionally failed to persist live ownership release: '' @ text y)))"

definition revert_run :: "'d revert_env \<Rightarrow> revert_request \<Rightarrow> bool \<Rightarrow> db \<Rightarrow> db \<times> 'd option \<times> (revert_run_error, revert_run_result) result" where
  "revert_run e q allow d =
     (case revert_checks e q d of
        Inl x \<Rightarrow> (d, None, Err x)
      | Inr p \<Rightarrow>
          (let js = co_js (rv_ctl e); rid = run_id (rvp_run p)
           in case acquire_for_recorded_run js (rc_num (rv_lib e)) (rv_lock e) (rv_pid e) (rv_now e) (rvp_run p) KPidRevert
                     (revert_intent (rv_lib e) rid) d of
                (d1, Inl x) \<Rightarrow> (d1, None, Err (RvPersistence (rv_acquire_text e x)))
              | (d1, Inr g) \<Rightarrow>
                  (let ((d2, g2, drv), op) = revert_operation e allow p g d1;
                       (d3, rel) = release_guard js (rv_released e) g2 d2
                   in (d3, drv, combine_revert_and_release (rv_live_text e) op rel))))"

end
