(* ===== verification/Revert_Safety.thy ===== *)
theory Revert_Safety
  imports Revert Recovery_Safety Write_Back_Safety
begin

text \<open>What a revert guarantees: it writes the values recorded before the last write-back, and gives the
  controller up again.\<close>

section \<open>The owner stays the same\<close>

abbreviation owner_of :: "'d audited_driver \<Rightarrow> live_ownership_row" where "owner_of s \<equiv> gd_owner (au_guard s)"

lemma queued_owner [simp]: "gd_owner (queue_previous_write_value t v g) = gd_owner g"
  by (simp add: queue_previous_write_value_def)

lemma audited_write_owner:
  assumes "audited_write js el put rid tag w s = (s', r)" shows "owner_of s' = owner_of s"
proof -
  have t: "gd_owner (fst (take_previous_write_value tag g)) = gd_owner g" for g
    by (auto simp: take_previous_write_value_def split: option.splits list.splits)
  have "gd_owner g' = gd_owner g" if "take_previous_write_value tag g = (g', x)" for g g' x using t[of g] that by simp
  then show ?thesis using assms
    by (auto simp: audited_write_def Let_def split: sum.splits prod.splits option.splits if_splits)
qed

lemma co_write_owner: "co_write c rid tag v s = (s', r) \<Longrightarrow> owner_of s' = owner_of s"
  by (auto simp: co_write_def write_value_def split: prod.splits dest: audited_write_owner)

lemma co_read_owner: "co_read c tag allow s = (s', r) \<Longrightarrow> owner_of s' = owner_of s"
  by (auto simp: co_read_def read_f32_def read_raw_def audited_read_def split: prod.splits)

lemma verify_owner: "write_and_verify_pid_value c rid label tag v allow s = (s', r) \<Longrightarrow> owner_of s' = owner_of s"
  by (auto simp: write_and_verify_pid_value_def Let_def split: prod.splits sum.splits if_splits
      dest!: co_write_owner co_read_owner)

lemma constants_owner: "owner_of (fst (write_constants c rid allow ts sp)) = owner_of (fst sp)"
proof (induction c rid allow ts sp rule: write_constants.induct)
  case (2 c rid allow t ts s g)
  then show ?case by (auto simp: Let_def split: prod.splits sum.splits dest!: verify_owner)
qed simp

lemma pre_read_owner: "pre_read c label tag allow s = (s', r) \<Longrightarrow> owner_of s' = owner_of s"
  by (auto simp: pre_read_def apsnd_def map_prod_def split: prod.splits dest: co_read_owner)

lemma previous_owner: "read_previous_pid_values c p i d allow s = (s', r) \<Longrightarrow> owner_of s' = owner_of s"
  by (auto simp: read_previous_pid_values_def split: prod.splits sum.splits dest!: pre_read_owner)

lemma insert_write_owner: "insert_write rid w out s = (s', r) \<Longrightarrow> owner_of s' = owner_of s"
  by (auto simp: insert_write_def split: prod.splits sum.splits)

lemma intent_owner: "persist_pid_restore_intent c rid kind level previous target s = (s', r) \<Longrightarrow> owner_of s' = owner_of s"
  by (auto simp: persist_pid_restore_intent_def Let_def split: prod.splits sum.splits option.splits)

lemma revert_write_owner:
  assumes "write_pid_values_inner c rid p i d level target WRevert allow s = (s', Ok out)" shows "owner_of s' = owner_of s"
  using assms
proof (cases rule: inner_stages)
  case (pre_read e s2 w0)
  show ?thesis using insert_write_owner[OF pre_read(2)] previous_owner[OF pre_read(1)] by (simp add: co_now_def)
next
  case (went_on previous s2 s3 w0)
  obtain s4 g where w: "write_constants c (Some rid) allow (pid_steps p i d target previous)
      (s3, \<lparr> pg_written = [], pg_readback = [], pg_confirmed = [], pg_failure = None \<rparr>) = (s4, g)" by fastforce
  have "owner_of s4 = owner_of s3" using constants_owner[of c "Some rid" allow "pid_steps p i d target previous" "(s3, _)"] w by (metis fst_conv)
  moreover have "\<exists>w out'. insert_write rid w out' s4 = (s', Ok out)"
    using went_on(3) unfolding write_and_roll_back_def w by (auto simp: Let_def split: option.splits)
  ultimately have "owner_of s' = owner_of s3" using insert_write_owner by metis
  then show ?thesis using intent_owner[OF went_on(2)] previous_owner[OF went_on(1)] by (simp add: co_now_def)
qed

section \<open>The plan of a revert\<close>

lemma find_holds: "List.find P xs = Some x \<Longrightarrow> x \<in> set xs \<and> P x" by (auto simp: find_Some_iff)

lemma last_write_back_in: "last_write_back rid d = Some w \<Longrightarrow> w \<in> set (writes d) \<and> tw_run_id w = rid \<and> nw_kind w = WWrite"
  unfolding last_write_back_def by (drule find_holds) (simp add: writes_for_run_def order_by_def)

lemma revert_plan:
  assumes "revert_checks e q d = Ok p"
  shows "rvp_run p \<in> set (runs d)" "run_id (rvp_run p) = rvq_run_id q"
    and "\<exists>w \<in> set (writes d). tw_run_id w = rvq_run_id q \<and> nw_kind w = WWrite \<and> nw_previous w = Some (rvp_target p) \<and>
      last_write_back (rvq_run_id q) d = Some w"
    and "rvp_tags p = (pt, it, dt) \<Longrightarrow> g_proportional_constant (run_tags (rvp_run p)) = Some pt \<and>
      g_integral_constant (run_tags (rvp_run p)) = Some it \<and> g_derivative_constant (run_tags (rvp_run p)) = Some dt"
proof -
  obtain run w target pt0 it0 dt0 x where p: "run_get (rvq_run_id q) d = Some run" "last_write_back (rvq_run_id q) d = Some w"
    "nw_previous w = Some target" "g_proportional_constant (run_tags run) = Some pt0" "g_integral_constant (run_tags run) = Some it0"
    "g_derivative_constant (run_tags run) = Some dt0" "rvp_run p = run" "rvp_target p = target" "rvp_tags p = (pt0, it0, dt0)"
    using assms by (auto simp: revert_checks_def Let_def bind_result_Ok_iff split: option.splits if_splits)
  show "rvp_run p \<in> set (runs d)" "run_id (rvp_run p) = rvq_run_id q"
    using p(1,7) by (auto simp: run_get_def dest!: find_holds)
  show "\<exists>w \<in> set (writes d). tw_run_id w = rvq_run_id q \<and> nw_kind w = WWrite \<and> nw_previous w = Some (rvp_target p) \<and>
      last_write_back (rvq_run_id q) d = Some w"
    using last_write_back_in[OF p(2)] p(2,3,8) by blast
  show "rvp_tags p = (pt, it, dt) \<Longrightarrow> g_proportional_constant (run_tags (rvp_run p)) = Some pt \<and>
      g_integral_constant (run_tags (rvp_run p)) = Some it \<and> g_derivative_constant (run_tags (rvp_run p)) = Some dt"
    using p by simp
qed

section \<open>The tables around the write\<close>

lemma tick_all_writes: "writes (au_db (tick_all js ts s)) = writes (au_db s) \<and> claims (au_db (tick_all js ts s)) = claims (au_db s)"
proof -
  have h: "writes (fst (heartbeat jv i now d)) = writes d \<and> claims (fst (heartbeat jv i now d)) = claims d" for jv i now d
    by (auto simp: heartbeat_def run_tx_def bind_result_Ok_iff bind_result_Err_iff split: sum.splits)
  have "writes (snd (heartbeat_tick js t x)) = writes (snd x) \<and> claims (snd (heartbeat_tick js t x)) = claims (snd x)" for t x
    using h[of "js_valid js" "lo_id (gd_owner (fst x))" t "snd x"]
    by (cases x) (auto simp: heartbeat_tick_def split: prod.splits sum.splits)
  then have "writes (snd (fold (heartbeat_tick js) ts x)) = writes (snd x) \<and> claims (snd (fold (heartbeat_tick js) ts x)) = claims (snd x)" for x
    by (induction ts arbitrary: x) simp_all
  from this[of "(au_guard s, au_db s)"] show ?thesis by (auto simp: tick_all_def split: prod.splits)
qed

lemma revert_acquired:
  assumes "acquire_for_recorded_run js num env pid now run kind intent d = (d', Ok g)"
  obtains new where "create_and_claim (js_valid js) new (gd_claim_key g) d = (d', Ok (Some (gd_owner g)))"
  using assms acquire_Ok(3) by (fastforce simp: acquire_for_recorded_run_def Let_def split: if_splits option.splits)

lemma release_Ok:
  assumes "release_guard js now g d = (d', Ok ())"
  shows "writes d' = writes d" "claims d' = filter (\<lambda>c. cl_owner_id c \<noteq> lo_id (gd_owner g)) (claims d)"
proof -
  have "release (js_valid js) (lo_id (gd_owner g)) now d = (d', Ok ())"
    using assms by (auto simp: release_guard_def Let_def apsnd_def map_prod_def stop_heartbeat_def elim!: map_sum_OkE split: sum.splits prod.splits)
  then show "writes d' = writes d" "claims d' = filter (\<lambda>c. cl_owner_id c \<noteq> lo_id (gd_owner g)) (claims d)"
    by (auto simp: release_def run_tx_def bind_result_Ok_iff bind_result_Err_iff one_row_def delete_where_def
        split: sum.splits option.splits if_splits)
qed

lemma gateway_tables:
  "record_gateway_compatibility_if_missing e run j d = (d', r) \<Longrightarrow> writes d' = writes d \<and> claims d' = claims d"
  by (auto simp: record_gateway_compatibility_if_missing_def record_gateway_compatibility_def update_run_def run_tx_def
      bind_result_Ok_iff bind_result_Err_iff apsnd_def map_prod_def split: if_splits sum.splits prod.splits)

section \<open>What a revert leaves behind\<close>

lemma reverted:
  assumes "tag_memory (co_put (rv_ctl e)) holds (co_get (rv_ctl e))" "revert_run e q allow d = (d', drv, Ok res)"
    and "\<forall>r \<in> set (runs d). run_id r = rvq_run_id q \<longrightarrow>
      distinct (opt_list (g_proportional_constant (run_tags r)) @ opt_list (g_integral_constant (run_tags r)) @ opt_list (g_derivative_constant (run_tags r)))"
  shows "\<exists>w run w' dr. last_write_back (rvq_run_id q) d = Some w \<and> nw_previous w = Some (rvr_target res) \<and>
    run \<in> set (runs d) \<and> run_id run = rvq_run_id q \<and> drv = Some dr \<and> claims d' = claims d \<and>
    writes d' = writes d @ [w'] \<and> tw_run_id w' = rvq_run_id q \<and> (nw_success w' \<longleftrightarrow> rvr_outcome res = PidWritten) \<and>
    (rvr_outcome res = PidWritten \<longrightarrow> list_all (\<lambda>(t, v). holds dr t v)
       (pid_values (the (g_proportional_constant (run_tags run))) (the (g_integral_constant (run_tags run)))
          (the (g_derivative_constant (run_tags run))) (rvr_target res)))"
proof -
  obtain p where p: "revert_checks e q d = Ok p" using assms(2) by (auto simp: revert_run_def split: sum.splits)
  note P = revert_plan[OF p]
  let ?js = "co_js (rv_ctl e)" and ?rid = "run_id (rvp_run p)"
  obtain d1 g where a: "acquire_for_recorded_run ?js (rc_num (rv_lib e)) (rv_lock e) (rv_pid e) (rv_now e) (rvp_run p) KPidRevert
      (revert_intent (rv_lib e) ?rid) d = (d1, Ok g)"
    using assms(2) p by (auto simp: revert_run_def Let_def split: sum.splits prod.splits)
  obtain d2 g2 op where o: "revert_operation e allow p g d1 = ((d2, g2, drv), op)" and rel: "release_guard ?js (rv_released e) g2 d2 = (d', Ok ())"
    and op: "op = Ok res"
    using assms(2) p a by (auto simp: revert_run_def Let_def combine_revert_and_release_def split: sum.splits prod.splits)
  obtain pt it dt where tags: "rvp_tags p = (pt, it, dt)" by (cases "rvp_tags p")
  obtain drv0 snapshot d3 s1 out where w: "record_gateway_compatibility_if_missing e (rvp_run p) snapshot d1 = (d3, Ok ())"
    and s: "write_pid_values_with_owner (rv_ctl e) (Some ?rid) ?rid pt it dt (rvp_level p) (rvp_target p) WRevert allow
      (tick_all ?js (rv_ticks_before e) \<lparr> au_inner = drv0, au_db = d3, au_guard = g, au_clock = rv_clock e, au_reads = 0 \<rparr>) = (s1, Ok out)"
    and e2: "d2 = au_db (tick_all ?js (rv_ticks_after e) s1)" "g2 = au_guard (tick_all ?js (rv_ticks_after e) s1)"
      "drv = Some (au_inner (tick_all ?js (rv_ticks_after e) s1))" "rvr_target res = rvp_target p" "rvr_outcome res = out"
    using o unfolding op by (auto simp: revert_operation_def tags Let_def elim!: map_sum_OkE split: sum.splits prod.splits)
  let ?s0 = "tick_all ?js (rv_ticks_before e) \<lparr> au_inner = drv0, au_db = d3, au_guard = g, au_clock = rv_clock e, au_reads = 0 \<rparr>"
  have inner: "write_pid_values_inner (rv_ctl e) ?rid pt it dt (rvp_level p) (rvp_target p) WRevert allow ?s0 = (s1, Ok out)"
    using s by (auto simp: write_pid_values_with_owner_def Let_def split: if_splits)
  have dist: "distinct [pt, it, dt]" using bspec[OF assms(3) P(1)] P(2) P(4)[OF tags] by (auto simp: opt_list_def)
  obtain w' where w': "writes (au_db s1) = writes (au_db ?s0) @ [w']" "tw_run_id w' = ?rid" "nw_success w' \<longleftrightarrow> out = PidWritten"
    "out = PidWritten \<longrightarrow> list_all (\<lambda>(t, v). holds (au_inner s1) t v) (pid_values pt it dt (rvp_target p))"
    using write_back_leaves[OF assms(1) dist inner] by blast
  obtain new where c: "create_and_claim (js_valid ?js) new (gd_claim_key g) d = (d1, Ok (Some (gd_owner g)))" by (rule revert_acquired[OF a])
  note cc = create_commit[OF c]
  have "owner_of s1 = gd_owner g" by (simp add: revert_write_owner[OF inner] tick_all_same)
  then have own: "gd_owner g2 = gd_owner g" using tick_all_same[of ?js "rv_ticks_after e" s1] e2(2) by simp
  have "claims (au_db s1) = claims (au_db ?s0)" using inner_same[OF independent_any inner] by (simp add: same_def)
  then have "claims d2 = claims d1" using gateway_tables[OF w] by (simp add: e2(1) tick_all_writes)
  then have cl: "claims d' = claims d"
    using release_Ok(2)[OF rel] own cc(1,5) by (auto simp: filter_id_conv)
  have wr: "writes d' = writes d @ [w']"
    using release_Ok(1)[OF rel] w'(1) gateway_tables[OF w] cc(1) by (simp add: e2(1) tick_all_writes)
  show ?thesis
    using P(1-3) P(4)[OF tags] cl wr w'(2-4) e2(3-5) tick_all_same[of ?js "rv_ticks_after e" s1] by fastforce
qed

text \<open>C36: A revert that answers has used the values read before the last write-back of that run: it adds
  one audit row for the run, successful exactly when it reports the constants as written, and then the
  controller holds those values on the run's recorded tags; its own ownership of the controller is gone
  again.\<close>

theorem revert_puts_back:
  assumes "tag_memory (co_put (rv_ctl e)) holds (co_get (rv_ctl e))" "revert_run e q allow d = (d', drv, Ok res)"
    and "\<forall>r \<in> set (runs d). run_id r = rvq_run_id q \<longrightarrow>
      distinct (opt_list (g_proportional_constant (run_tags r)) @ opt_list (g_integral_constant (run_tags r)) @ opt_list (g_derivative_constant (run_tags r)))"
  shows "\<exists>w run w' dr. last_write_back (rvq_run_id q) d = Some w \<and> nw_previous w = Some (rvr_target res) \<and>
    run \<in> set (runs d) \<and> run_id run = rvq_run_id q \<and> drv = Some dr \<and> claims d' = claims d \<and>
    writes d' = writes d @ [w'] \<and> tw_run_id w' = rvq_run_id q \<and> (nw_success w' \<longleftrightarrow> rvr_outcome res = PidWritten) \<and>
    (rvr_outcome res = PidWritten \<longrightarrow> list_all (\<lambda>(t, v). holds dr t v)
       (pid_values (the (g_proportional_constant (run_tags run))) (the (g_integral_constant (run_tags run)))
          (the (g_derivative_constant (run_tags run))) (rvr_target res)))"
  by (rule reverted[OF assms])

section \<open>A revert that goes through\<close>

text \<open>An owner that can write, in a database whose ownership rows all meet their checks.\<close>

definition owning :: "'d audited_driver \<Rightarrow> bool" where
  "owning s \<longleftrightarrow> can_write (Some 1) s \<and> (\<forall>o' \<in> set (owners (au_db s)). 0 \<le> owner_pid o')"

lemma demo_accepts_json: "js_valid demo_js = accept_json" by (simp add: demo_js_def)

lemma owning_write:
  assumes "owning s"
  shows "\<exists>s'. co_write demo_ctl (Some 1) tag (Fin 2) s = (s', Ok ()) \<and> owning s' \<and> runs (au_db s') = runs (au_db s) \<and>
    au_inner s' = (au_inner s)(tag \<mapsto> WFloat (Fin 2))"
proof -
  have c: "can_write (Some 1) s" using assms by (simp add: owning_def)
  from audited_write_goes[OF c, of demo_js tag "WFloat (Fin 2)" demo_el memory_put] obtain s' where
    w: "audited_write demo_js demo_el memory_put (Some 1) tag (WFloat (Fin 2)) s = (s', Ok write_success)"
    and f: "forwarded demo_js demo_el memory_put (Some 1) tag (WFloat (Fin 2)) s s' (Ok write_success)" and c': "can_write (Some 1) s'"
    by (auto simp: write_target_json_def memory_put_def)
  have "owning s'" "runs (au_db s') = runs (au_db s)" using f c' assms by (auto simp: owning_def forwarded_def)
  moreover have "co_write demo_ctl (Some 1) tag (Fin 2) s = (s', Ok ())"
    using w by (simp add: co_write_def write_value_def write_result_def demo_ctl_def write_success_def)
  moreover have "au_inner s' = (au_inner s)(tag \<mapsto> WFloat (Fin 2))" using f by (simp add: forwarded_def memory_put_def)
  ultimately show ?thesis by blast
qed

lemma owning_queue: "owning (s\<lparr>au_guard := queue_previous_write_value t v (au_guard s)\<rparr>) = owning s"
  by (simp add: owning_def can_write_queue)

lemma owning_verify:
  assumes "owning s" "tag \<noteq> ''I''"
  shows "\<exists>s'. write_and_verify_pid_value demo_ctl (Some 1) label tag (Fin 2) False s = (s', Ok (Fin 2)) \<and> owning s' \<and>
    runs (au_db s') = runs (au_db s)"
  using owning_write[OF assms(1), of tag] demo_pid_tolerance assms(2)
  by (auto simp: write_and_verify_pid_value_def Let_def demo_ctl_read)

lemma owning_constants:
  assumes "\<forall>t \<in> set ts. pt_tag t \<noteq> ''I'' \<and> pt_value t = Fin 2" "owning s" "pg_failure g = None"
  shows "\<exists>s' g'. write_constants demo_ctl (Some 1) False ts (s, g) = (s', g') \<and> pg_failure g' = None \<and> owning s' \<and>
    runs (au_db s') = runs (au_db s)"
  using assms
proof (induction ts arbitrary: s g)
  case (Cons t ts)
  let ?s = "s\<lparr>au_guard := queue_previous_write_value (pt_tag t) (wl_number demo_write_lib (pt_previous_value t)) (au_guard s)\<rparr>"
  obtain s1 where s1: "write_and_verify_pid_value demo_ctl (Some 1) (pt_label t) (pt_tag t) (Fin 2) False ?s = (s1, Ok (Fin 2))"
    "owning s1" "runs (au_db s1) = runs (au_db s)"
    using owning_verify[of ?s "pt_tag t" "pt_label t"] Cons.prems by (auto simp: owning_queue)
  then show ?case using Cons.prems(1,3) Cons.IH[OF _ s1(2)] by (simp add: Let_def)
qed simp

lemma owning_row:
  assumes "owning s"
  obtains row where "row \<in> set (owners (au_db s))" "lo_id row = lo_id (owner_of s)" "lo_state row = Active"
    "distinct (map lo_id (owners (au_db s)))" "holds_claim (lo_id (owner_of s)) (au_db s)" "\<not> gd_failed (au_guard s)"
    "distinct (map cl_owner_id (claims (au_db s)))"
  using assms by (auto simp: owning_def can_write_def list_ex_iff db_ok_def claims_ok_def keys_ok_def dest: owner_ids)

lemma owner_updates:
  assumes "row \<in> set t" "lo_id row = i" "lo_state row = Active" "distinct (map lo_id t)" "h"
    and "\<And>r. r \<in> set t \<Longrightarrow> lo_state r = Active \<Longrightarrow> owner_check jv (f r)"
  shows "one_row (sql_update (owner_check jv) (\<lambda>r. lo_id r = i \<and> lo_state r = Active \<and> h) f t) e =
    Ok (update_where (\<lambda>r. lo_id r = i \<and> lo_state r = Active \<and> h) f t)"
proof -
  have "affected (\<lambda>r. lo_id r = i \<and> lo_state r = Active \<and> h) t = 1"
    using affected_distinct[OF assms(4), of "\<lambda>r. lo_id r = i \<and> lo_state r = Active \<and> h" i] assms(1-3,5) by auto
  then show ?thesis using assms(6) by (simp add: one_row_def sql_update_def list_all_iff)
qed

lemma owning_release:
  assumes "owning s" "owners d = owners (au_db s)" "claims d = claims (au_db s)"
  shows "\<exists>d'. release_guard demo_js now (au_guard s) d = (d', Ok ())"
proof (rule owning_row[OF assms(1)])
  fix row assume r: "row \<in> set (owners (au_db s))" "lo_id row = lo_id (owner_of s)" "lo_state row = Active"
    "distinct (map lo_id (owners (au_db s)))" "holds_claim (lo_id (owner_of s)) (au_db s)" "\<not> gd_failed (au_guard s)"
    "distinct (map cl_owner_id (claims (au_db s)))"
  have ok: "owner_check accept_json (o'\<lparr>lo_state := Released, released_at := Some now\<rparr>)"
    if "o' \<in> set (owners (au_db s))" "lo_state o' = Active" for o'
    using assms(1) that by (auto simp: owning_def can_write_def db_ok_def rows_ok_def owner_check_def json_ok_def split: option.splits)
  have h: "holds_claim (lo_id (owner_of s)) d" using r(5) assms(3) by (simp add: holds_claim_def)
  let ?P = "\<lambda>r. lo_id r = lo_id (owner_of s) \<and> lo_state r = Active \<and> holds_claim (lo_id (owner_of s)) d" and ?f = "\<lambda>r. r\<lparr>lo_state := Released, released_at := Some now\<rparr>"
  have u: "one_row (sql_update (owner_check accept_json) ?P ?f (owners (au_db s))) e = Ok (update_where ?P ?f (owners (au_db s)))"
    for e :: "(db_error, unit) result"
    by (rule owner_updates[OF r(1,2,3,4) h]) (rule ok)
  have "affected (\<lambda>c. cl_owner_id c = lo_id (owner_of s)) (claims d) = 1"
    using affected_distinct[OF r(7), of "\<lambda>c. cl_owner_id c = lo_id (owner_of s)" "lo_id (owner_of s)"] h assms(3)
    by (auto simp: holds_claim_def list_ex_iff)
  then show ?thesis
    using u r(6) unfolding release_guard_def release_def run_tx_def
    by (simp add: demo_accepts_json stop_heartbeat_def ensure_healthy_def assms(2) one_row_def)
qed

lemma owning_intent:
  assumes "owning s"
  shows "\<exists>s'. persist_pid_restore_intent demo_ctl 1 kind level previous target s = (s', Ok ()) \<and> owning s' \<and>
    runs (au_db s') = runs (au_db s)"
proof (rule owning_row[OF assms])
  fix row assume r: "row \<in> set (owners (au_db s))" "lo_id row = lo_id (owner_of s)" "lo_state row = Active"
    "distinct (map lo_id (owners (au_db s)))" "holds_claim (lo_id (owner_of s)) (au_db s)" "\<not> gd_failed (au_guard s)"
  let ?f = "\<lambda>r. r\<lparr>restore_intent_json := Some ''pid''\<rparr>"
  have ok: "owner_check accept_json (?f o')" if "o' \<in> set (owners (au_db s))" "lo_state o' = Active" for o'
    using assms that by (auto simp: owning_def can_write_def db_ok_def rows_ok_def owner_check_def json_ok_def split: option.splits)
  let ?P = "\<lambda>r. lo_id r = lo_id (owner_of s) \<and> lo_state r = Active \<and> holds_claim (lo_id (owner_of s)) (au_db s)"
  have u: "one_row (sql_update (owner_check accept_json) ?P ?f (owners (au_db s))) e = Ok (update_where ?P ?f (owners (au_db s)))"
    for e :: "(db_error, unit) result"
    by (rule owner_updates[OF r(1,2,3,4,5)]) (rule ok)
  have "owner_get (lo_id (owner_of s)) (au_db s) \<noteq> None" using r(1,2) by (auto simp: owner_get_def find_None_iff)
  then obtain x where x: "owner_get (lo_id (owner_of s)) (au_db s) = Some x" by blast
  obtain s' y where p: "persist_pid_restore_intent demo_ctl 1 kind level previous target s = (s', y)" by fastforce
  have y: "y = Ok ()" "au_db s' = (au_db s)\<lparr>owners := update_where (\<lambda>r. lo_id r = lo_id (owner_of s) \<and> lo_state r = Active \<and> holds_claim (lo_id (owner_of s)) (au_db s)) ?f (owners (au_db s))\<rparr>"
    using p x u r(6)
    by (auto simp: persist_pid_restore_intent_def persist_restore_intent_def set_restore_intent_def run_tx_def ensure_healthy_def
        demo_write_lib_def demo_accepts_json Let_def)
  have "owning s'" using persist_intent_can_write[OF p] assms y(2) by (auto simp: owning_def update_where_def)
  then show ?thesis using p y by auto
qed

definition demo_old_write :: new_tune_write where
  "demo_old_write = (new_write Moderate 60)\<lparr>nw_success := True, nw_kind := WWrite, nw_previous := Some demo_target\<rparr>"

definition demo_written :: db where
  "demo_written = apply_op accept_json (OpWrite 1 demo_old_write) demo_stale"

definition demo_revert :: "(string \<rightharpoonup> tag_write) revert_env" where
  "demo_revert = \<lparr> rv_ctl = demo_ctl, rv_lib = demo_recovery_lib, rv_lock = sw_lock demo_sweep, rv_pid = 3, rv_now = 200, rv_released = 300,
     rv_clock = int, rv_connect = (\<lambda>_ _. Ok Map.empty), rv_gateway = (\<lambda>_ _. Ok ''{}''), rv_ticks_before = [], rv_ticks_after = [],
     rv_level_text = (\<lambda>_. []), rv_acquire_text = (\<lambda>_. []), rv_live_text = (\<lambda>_. []), rv_write_text = (\<lambda>_. []) \<rparr>"

abbreviation demo_revert_request :: revert_request where
  "demo_revert_request \<equiv> \<lparr> rvq_run_id = 1, rvq_bridge_host = None, rvq_server = None, rvq_confirmed = True \<rparr>"

lemma demo_written_reach: "db_reach accept_json demo_written"
  unfolding demo_written_def by (rule db_reach.step[OF demo_stale_reach])

lemma demo_written_eq: "demo_written = demo_stale\<lparr>writes := [stored_write 1 1 demo_old_write], writes_seq := 1\<rparr>"
  by (simp add: demo_written_def write_insert_def run_tx_def Let_def demo_stale_eq demo_stale_run_simps demo_empty_def empty_db_def)
    (simp add: stored_write_def new_tune_write.defs)

lemma demo_written_tables:
  "runs demo_written = [demo_stale_run]" "claims demo_written = claims demo_stale" "owners demo_written = owners demo_stale"
  "writes demo_written = [stored_write 1 1 demo_old_write]"
  by (simp_all add: demo_written_eq demo_stale_eq)

lemma demo_pid_tags:
  "g_proportional_constant (rs_tags demo_run_start) = Some ''FIC101.P''" "g_integral_constant (rs_tags demo_run_start) = Some ''FIC101.I''"
  "g_derivative_constant (rs_tags demo_run_start) = Some ''FIC101.D''"
  by code_simp+

lemma demo_revert_plan:
  "\<exists>p. revert_checks demo_revert demo_revert_request demo_written = Ok p \<and> rvp_run p = demo_stale_run \<and>
    rvp_tags p = (''FIC101.P'', ''FIC101.I'', ''FIC101.D'') \<and> rvp_target p = demo_target"
proof -
  have "last_write_back 1 demo_written = Some (stored_write 1 1 demo_old_write)"
    by (simp add: last_write_back_def writes_for_run_def demo_written_tables(4) stored_write_def demo_old_write_def new_tune_write.defs)
  moreover have "previous_columns (Some demo_target) = Some demo_target"
    by (simp add: previous_columns_def demo_target_def real_column_def)
  ultimately show ?thesis
    by (simp add: revert_checks_def demo_revert_def run_get_def demo_written_tables(1) demo_stale_run_simps demo_pid_tags
        resolve_revert_connection_def stored_write_def demo_old_write_def new_tune_write.defs Let_def)
qed

lemma demo_revert_acquired:
  "\<exists>d1 g. acquire_for_recorded_run demo_js num (sw_lock demo_sweep) 3 200 demo_stale_run KPidRevert intent demo_written = (d1, Ok g) \<and>
    runs d1 = [demo_stale_run] \<and> lo_run_id (gd_owner g) = Some 1 \<and> operation_kind (gd_owner g) = KPidRevert \<and>
    owning \<lparr> au_inner = m, au_db = d1, au_guard = g, au_clock = ck, au_reads = 0 \<rparr>"
proof -
  let ?new = "\<lparr> nlo_run_id = Some 1, nlo_operation_kind = KPidRevert, nlo_database_key = ''db'', nlo_resource_key = [], nlo_owner_pid = 3,
     nlo_acquired_at = 200, nlo_restore_intent_json = Some intent \<rparr>"
  obtain d1 row where c: "create_and_claim accept_json ?new [] demo_written = (d1, Ok (Some row))"
    by (simp add: create_and_claim_def run_tx_def insert_owner_def new_owner_row_def owner_check_def json_ok_def run_reference_ok_def
        insert_claim_or_nothing_def insert_claim_def one_row_def Let_def demo_written_eq demo_stale_eq demo_stale_run_simps demo_owner_row_simps)
  note cc = create_commit[OF c]
  have "db_ok d1" using create_ok[of demo_written accept_json ?new "[]"] reach_ok[OF demo_written_reach] by (simp add: c)
  then have "owning \<lparr> au_inner = m, au_db = d1, au_guard = start_heartbeat ''db'' row [], au_clock = ck, au_reads = 0 \<rparr>"
    unfolding owning_def can_write_def using cc(1)
    by (simp add: cc(2) start_heartbeat_def new_owner_row_def run_reference_ok_def holds_claim_def demo_written_tables demo_stale_run_simps
        demo_stale_eq demo_owner_row_def)
  moreover have "acquire_for_recorded_run demo_js num (sw_lock demo_sweep) 3 200 demo_stale_run KPidRevert intent demo_written =
      (d1, Ok (start_heartbeat ''db'' row []))"
    using c by (simp add: acquire_for_recorded_run_def acquire_def demo_stale_run_simps demo_sweep_simps live_claim_key_def
        live_resource_key_def demo_accepts_json Let_def) (simp add: demo_js_def)
  ultimately show ?thesis
    by (intro exI[of _ d1] exI[of _ "start_heartbeat ''db'' row []"])
      (simp add: cc(1) cc(2) start_heartbeat_def new_owner_row_def demo_written_tables)
qed

lemma owning_reverts:
  assumes "owning s" "lo_run_id (owner_of s) = Some 1" "operation_kind (owner_of s) = KPidRevert" "au_inner s = Map.empty"
    and "exists_row (\<lambda>r. run_id r = 1) (runs (au_db s))" "''I'' \<notin> {p, i, dv}"
  shows "\<exists>s' d'. write_pid_values_with_owner demo_ctl (Some 1) 1 p i dv level demo_target WRevert False s = (s', Ok PidWritten) \<and>
    release_guard demo_js later (au_guard s') (au_db s') = (d', Ok ())"
proof -
  let ?s1 = "fst (co_now s)"
  have s1: "owning ?s1" "au_inner ?s1 = Map.empty" "runs (au_db ?s1) = runs (au_db s)" "owner_of ?s1 = owner_of s"
    using assms(1,4) by (simp_all add: owning_def can_write_now co_now_def can_write_def)
  have pre: "read_previous_pid_values demo_ctl p i dv False ?s1 = (?s1, Ok demo_previous)"
    using s1(2) by (simp add: read_previous_pid_values_def pre_read_def demo_ctl_read demo_previous_def)
  obtain s2 where s2: "persist_pid_restore_intent demo_ctl 1 WRevert level demo_previous demo_target ?s1 = (s2, Ok ())" "owning s2"
    "runs (au_db s2) = runs (au_db s)"
    using owning_intent[OF s1(1)] s1(3) by metis
  obtain s3 g where s3: "write_constants demo_ctl (Some 1) False (pid_steps p i dv demo_target demo_previous)
      (s2, \<lparr> pg_written = [], pg_readback = [], pg_confirmed = [], pg_failure = None \<rparr>) = (s3, g)" "pg_failure g = None" "owning s3"
    "runs (au_db s3) = runs (au_db s)"
    using owning_constants[OF _ s2(2), of "pid_steps p i dv demo_target demo_previous" 
        "\<lparr> pg_written = [], pg_readback = [], pg_confirmed = [], pg_failure = None \<rparr>"] s2(3) assms(6)
    by (auto simp: pid_steps_def demo_target_def)
  obtain w0 where w0: "write_pid_values_inner demo_ctl 1 p i dv level demo_target WRevert False s =
      write_and_roll_back demo_ctl 1 p i dv demo_target demo_previous WRevert False w0 s2"
    using pre s2(1) assms(1,2) unfolding write_pid_values_inner_def
    by (auto simp: owning_def can_write_def ensure_healthy_def Let_def co_now_def)
  obtain s4 n where s4: "insert_write 1 ((with_progress g w0)\<lparr>nw_success := True\<rparr>) PidWritten s3 = (s4, Ok PidWritten)"
    "owners (au_db s4) = owners (au_db s3)" "claims (au_db s4) = claims (au_db s3)" "au_guard s4 = au_guard s3"
    using assms(5) s3(4) by (auto simp: insert_write_def write_insert_def run_tx_def Let_def)
  have "write_pid_values_with_owner demo_ctl (Some 1) 1 p i dv level demo_target WRevert False s = (s4, Ok PidWritten)"
    using w0 s3(1,2) s4(1) assms(2,3) by (simp add: write_pid_values_with_owner_def write_and_roll_back_def operation_kind_authorizes_pid_write_def)
  moreover obtain d' where "release_guard demo_js later (au_guard s4) (au_db s4) = (d', Ok ())"
    using owning_release[OF s3(3) s4(2,3)] unfolding s4(4) by blast
  ultimately show ?thesis by blast
qed

lemma demo_reverted:
  "\<exists>d' drv res. revert_run demo_revert demo_revert_request False demo_written = (d', drv, Ok res) \<and> rvr_outcome res = PidWritten"
proof -
  obtain p where p: "revert_checks demo_revert demo_revert_request demo_written = Ok p" "rvp_run p = demo_stale_run"
    "rvp_tags p = (''FIC101.P'', ''FIC101.I'', ''FIC101.D'')" "rvp_target p = demo_target" using demo_revert_plan by blast
  have env: "rv_ctl demo_revert = demo_ctl" "rv_lib demo_revert = demo_recovery_lib" "rv_lock demo_revert = sw_lock demo_sweep"
    "rv_pid demo_revert = 3" "rv_now demo_revert = 200" "rv_connect demo_revert = (\<lambda>_ _. Ok Map.empty)" "rv_gateway demo_revert = (\<lambda>_ _. Ok ''{}'')"
    "rv_ticks_before demo_revert = []" "rv_ticks_after demo_revert = []"
    by (simp_all add: demo_revert_def)
  obtain d1 g where a: "acquire_for_recorded_run demo_js (rc_num demo_recovery_lib) (sw_lock demo_sweep) 3 200 demo_stale_run KPidRevert
      (revert_intent demo_recovery_lib 1) demo_written = (d1, Ok g)" "runs d1 = [demo_stale_run]" "lo_run_id (gd_owner g) = Some 1"
    "operation_kind (gd_owner g) = KPidRevert"
    and own: "owning \<lparr> au_inner = Map.empty :: string \<rightharpoonup> tag_write, au_db = d1, au_guard = g, au_clock = rv_clock demo_revert, au_reads = 0 \<rparr>"
    using demo_revert_acquired[of "rc_num demo_recovery_lib" "revert_intent demo_recovery_lib 1" Map.empty "rv_clock demo_revert"] by blast
  obtain d2 y where gw: "record_gateway_compatibility (\<lambda>_. True) 1 ''{}'' d1 = (d2, y)" by fastforce
  have chk: "run_check accept_json (demo_stale_run\<lparr>gateway_compatibility_json := Some ''{}''\<rparr>)"
    by (simp add: run_check_def json_ok_def demo_stale_run_def demo_run_row_def new_run_row_def demo_run_start_def demo_config_run_def demo_empty_simps)
  have g2: "y = Ok (demo_stale_run\<lparr>gateway_compatibility_json := Some ''{}''\<rparr>)"
    "d2 = d1\<lparr>runs := [demo_stale_run\<lparr>gateway_compatibility_json := Some ''{}''\<rparr>]\<rparr>"
    using gw chk by (auto simp: record_gateway_compatibility_def update_run_def run_tx_def sql_update_def one_row_def affected_def update_where_def
        a(2) demo_stale_run_simps)
  have "db_ok d1" using own by (simp add: owning_def can_write_def)
  from apply_op_ok[OF this, of accept_json "OpRunGateway 1 ''{}''"] have "db_ok d2" by (simp add: gw)
  then have own2: "owning \<lparr> au_inner = Map.empty :: string \<rightharpoonup> tag_write, au_db = d2, au_guard = g, au_clock = rv_clock demo_revert, au_reads = 0 \<rparr>"
    using own by (simp add: owning_def can_write_def g2(2) holds_claim_def run_reference_ok_def a(2) demo_stale_run_simps)
  let ?s = "\<lparr> au_inner = Map.empty :: string \<rightharpoonup> tag_write, au_db = d2, au_guard = g, au_clock = rv_clock demo_revert, au_reads = 0 \<rparr>"
  obtain s' d' where w: "write_pid_values_with_owner demo_ctl (Some 1) 1 ''FIC101.P'' ''FIC101.I'' ''FIC101.D'' (rvp_level p) demo_target WRevert False ?s =
      (s', Ok PidWritten)" "release_guard demo_js (rv_released demo_revert) (au_guard s') (au_db s') = (d', Ok ())"
  proof -
    have "exists_row (\<lambda>r. run_id r = 1) (runs d2)" by (simp add: g2(2) demo_stale_run_simps)
    from owning_reverts[OF own2, of "''FIC101.P''" "''FIC101.I''" "''FIC101.D''" "rvp_level p" "rv_released demo_revert"] this a(3,4)
    show ?thesis using that by auto
  qed
  have none: "gateway_compatibility_json demo_stale_run = None" by (simp add: demo_stale_run_def demo_run_row_def new_run_row_def)
  have tick: "tick_all js [] s = s" for js and s :: "(string \<rightharpoonup> tag_write) audited_driver" by (simp add: tick_all_def)
  have healthy: "ensure_healthy g = Ok ()" using own by (simp add: owning_def can_write_def ensure_healthy_def)
  have "record_gateway_compatibility_if_missing demo_revert demo_stale_run ''{}'' d1 = (d2, Ok ())"
    using gw g2(1) by (simp add: record_gateway_compatibility_if_missing_def none env demo_accepts_json demo_stale_run_simps)
  then have "revert_operation demo_revert False p g d1 = ((au_db s', au_guard s', Some (au_inner s')),
      Ok \<lparr> rvr_response_level = rvp_level p, rvr_target = demo_target, rvr_outcome = PidWritten \<rparr>)"
    using w(1) by (simp add: revert_operation_def healthy env p(2-4) tick demo_stale_run_simps)
  then show ?thesis
    using a(1) w(2) by (simp add: revert_run_def p(1,2) env demo_stale_run_simps combine_revert_and_release_def)
qed

theorem revert_puts_back_witness:
  "\<exists>d' dr w'. fst (snd (revert_run demo_revert demo_revert_request False demo_written)) = Some dr \<and>
     fst (revert_run demo_revert demo_revert_request False demo_written) = d' \<and> writes d' = writes demo_written @ [w'] \<and> nw_success w' \<and>
     dr ''FIC101.P'' = Some (WFloat (Fin 2)) \<and> claims d' = claims demo_written"
proof -
  obtain d' drv res where r: "revert_run demo_revert demo_revert_request False demo_written = (d', drv, Ok res)" "rvr_outcome res = PidWritten"
    using demo_reverted by blast
  have mem: "tag_memory (co_put (rv_ctl demo_revert)) memory_holds (co_get (rv_ctl demo_revert))"
    using demo_memory.tag_memory_axioms by (simp add: demo_revert_def)
  have dist: "\<forall>r \<in> set (runs demo_written). run_id r = rvq_run_id demo_revert_request \<longrightarrow>
      distinct (opt_list (g_proportional_constant (run_tags r)) @ opt_list (g_integral_constant (run_tags r)) @ opt_list (g_derivative_constant (run_tags r)))"
    by (simp add: demo_written_tables(1) demo_stale_run_simps demo_pid_tags opt_list_def)
  from revert_puts_back[OF mem r(1) dist] obtain w run w' dr where
    f: "last_write_back 1 demo_written = Some w" "nw_previous w = Some (rvr_target res)" "run \<in> set (runs demo_written)" "drv = Some dr" "claims d' = claims demo_written"
      "writes d' = writes demo_written @ [w']" "nw_success w'"
      "list_all (\<lambda>(t, v). memory_holds dr t v) (pid_values (the (g_proportional_constant (run_tags run))) (the (g_integral_constant (run_tags run)))
          (the (g_derivative_constant (run_tags run))) (rvr_target res))"
    using r(2) by auto
  have "rvr_target res = demo_target"
    using f(1,2) by (simp add: last_write_back_def writes_for_run_def demo_written_tables(4) stored_write_def demo_old_write_def
        new_tune_write.defs previous_columns_def demo_target_def real_column_def) auto
  then have "dr ''FIC101.P'' = Some (WFloat (Fin 2))"
    using f(3,8) by (simp add: demo_written_tables(1) demo_stale_run_simps demo_pid_tags memory_holds_def demo_target_def)
  then show ?thesis using r(1) f(4-7) by auto
qed

end
