(* ===== verification/Server_Runs.thy ===== *)
theory Server_Runs
  imports Prepare_Safety
begin

text \<open>
  Run coordination in the server process (\<open>bhtune-server/src/active_run.rs\<close>, \<open>state.rs\<close> and the start of
  \<open>routes/runs/handlers.rs\<close>): the registry of running tunes and of the one direct write, the start of a
  tune, and the quotas of the demo.

  The registry's lock makes each of its operations one step.  A task is its run id; the process state
  beside the registry says which tasks still run, which have returned but not released their entry yet,
  and which requests are between \<open>reserve\<close> and \<open>release\<close>.  \<open>BTreeMap\<close> iterates by key, so the tasks are
  a sorted list.
\<close>

section \<open>The registry\<close>

record active_run_state =
  ar_tasks :: "(int \<times> bool) list"    \<comment> \<open>run id, cancellation triggered\<close>
  ar_exclusive :: "int option"

definition ar_default :: active_run_state where
  "ar_default = \<lparr> ar_tasks = [], ar_exclusive = None \<rparr>"

definition active_run_ids :: "active_run_state \<Rightarrow> int list" where
  "active_run_ids s = map fst (ar_tasks s)"

definition ar_start :: "int \<Rightarrow> active_run_state \<Rightarrow> active_run_state \<times> (int, unit) result" where
  "ar_start i s =
     (case ar_exclusive s of
        Some existing \<Rightarrow> (s, Err existing)
      | None \<Rightarrow>
          if i \<in> set (active_run_ids s) then (s, Err i)
          else (s\<lparr>ar_tasks := insort_key fst (i, False) (ar_tasks s)\<rparr>, Ok ()))"

definition ar_reserve :: "int \<Rightarrow> active_run_state \<Rightarrow> active_run_state \<times> (int, unit) result" where
  "ar_reserve i s =
     (case ar_exclusive s of
        Some existing \<Rightarrow> (s, Err existing)
      | None \<Rightarrow>
          (case ar_tasks s of
             (existing, _) # _ \<Rightarrow> (s, Err existing)
           | [] \<Rightarrow> (s\<lparr>ar_exclusive := Some i\<rparr>, Ok ())))"

definition exclusive_id :: "active_run_state \<Rightarrow> int option" where
  "exclusive_id s = ar_exclusive s"

definition ar_cancel :: "int \<Rightarrow> active_run_state \<Rightarrow> active_run_state \<times> bool" where
  "ar_cancel i s =
     (if i \<in> set (active_run_ids s)
      then (s\<lparr>ar_tasks := map (\<lambda>(j, c). (j, c \<or> j = i)) (ar_tasks s)\<rparr>, True)
      else (s, ar_exclusive s = Some i))"

definition ar_release :: "int \<Rightarrow> active_run_state \<Rightarrow> active_run_state" where
  "ar_release i s =
     (if ar_exclusive s = Some i then s\<lparr>ar_exclusive := None\<rparr>
      else s\<lparr>ar_tasks := filter (\<lambda>(j, _). j \<noteq> i) (ar_tasks s)\<rparr>)"

text \<open>\<open>cancel_and_wait\<close>: the entries are taken, cancelled and waited for; the ids are those a timeout
  would name.\<close>

definition cancel_and_wait :: "active_run_state \<Rightarrow> active_run_state \<times> (int \<times> bool) list" where
  "cancel_and_wait s = (ar_default, map (\<lambda>(i, _). (i, True)) (ar_tasks s))"

section \<open>The process around it\<close>

record server_process =
  sv_registry :: active_run_state
  sv_alive :: "int list"
  sv_returned :: "int list"
  sv_writes :: "int list"

definition server_start :: server_process where
  "server_start = \<lparr> sv_registry = ar_default, sv_alive = [], sv_returned = [], sv_writes = [] \<rparr>"

datatype server_event =
  EvStart int | EvStartRefused int | EvReturned int | EvTaskReleased int
| EvReserve int | EvReserveRefused int | EvWriteEnds int | EvWriteDropped int | EvCancel int | EvShutdown

inductive server_step :: "server_process \<Rightarrow> server_event \<Rightarrow> server_process \<Rightarrow> bool" where
  start: "ar_start i (sv_registry s) = (r, Ok ()) \<Longrightarrow> server_step s (EvStart i) (s\<lparr>sv_registry := r, sv_alive := i # sv_alive s\<rparr>)"
| start_refused: "ar_start i (sv_registry s) = (r, Err e) \<Longrightarrow> server_step s (EvStartRefused i) (s\<lparr>sv_registry := r\<rparr>)"
| returned: "i \<in> set (sv_alive s) \<Longrightarrow>
    server_step s (EvReturned i) (s\<lparr>sv_alive := remove1 i (sv_alive s), sv_returned := i # sv_returned s\<rparr>)"
| task_released: "i \<in> set (sv_returned s) \<Longrightarrow>
    server_step s (EvTaskReleased i) (s\<lparr>sv_registry := ar_release i (sv_registry s), sv_returned := remove1 i (sv_returned s)\<rparr>)"
| reserve: "ar_reserve i (sv_registry s) = (r, Ok ()) \<Longrightarrow> server_step s (EvReserve i) (s\<lparr>sv_registry := r, sv_writes := i # sv_writes s\<rparr>)"
| reserve_refused: "ar_reserve i (sv_registry s) = (r, Err e) \<Longrightarrow> server_step s (EvReserveRefused i) (s\<lparr>sv_registry := r\<rparr>)"
| write_ends: "i \<in> set (sv_writes s) \<Longrightarrow>
    server_step s (EvWriteEnds i) (s\<lparr>sv_registry := ar_release i (sv_registry s), sv_writes := remove1 i (sv_writes s)\<rparr>)"
| write_dropped: "i \<in> set (sv_writes s) \<Longrightarrow> server_step s (EvWriteDropped i) (s\<lparr>sv_writes := remove1 i (sv_writes s)\<rparr>)"
| cancel: "ar_cancel i (sv_registry s) = (r, found) \<Longrightarrow> server_step s (EvCancel i) (s\<lparr>sv_registry := r\<rparr>)"
| shutdown: "cancel_and_wait (sv_registry s) = (r, taken) \<Longrightarrow> server_step s EvShutdown (s\<lparr>sv_registry := r\<rparr>)"

inductive_cases server_stepE: "server_step s ev s'"

inductive_simps server_shutdown_iff: "server_step s EvShutdown s'"
inductive_simps server_start_iff: "server_step s (EvStart i) s'"
inductive_simps server_reserve_iff: "server_step s (EvReserve i) s'"

text \<open>The events of a server that has not begun to shut down.\<close>

inductive server_run :: "server_process \<Rightarrow> server_event list \<Rightarrow> server_process \<Rightarrow> bool" where
  empty: "server_run s [] s"
| step: "server_run s evs s1 \<Longrightarrow> server_step s1 ev s2 \<Longrightarrow> ev \<noteq> EvShutdown \<Longrightarrow> server_run s (evs @ [ev]) s2"

section \<open>Writes and tunes never overlap\<close>

definition registry_ok :: "server_process \<Rightarrow> bool" where
  "registry_ok s \<longleftrightarrow>
     distinct (active_run_ids (sv_registry s)) \<and> distinct (sv_alive s @ sv_returned s) \<and>
     set (active_run_ids (sv_registry s)) = set (sv_alive s @ sv_returned s) \<and>
     (case ar_exclusive (sv_registry s) of
        None \<Rightarrow> sv_writes s = []
      | Some i \<Rightarrow> ar_tasks (sv_registry s) = [] \<and> sv_writes s \<in> {[], [i]})"

lemma ids_insert: "set (map fst (insort_key fst (i, c) ts)) = insert i (fst ` set ts)"
  "distinct (map fst (insort_key fst (i, c) ts)) \<longleftrightarrow> i \<notin> fst ` set ts \<and> distinct (map fst ts)"
  by (induction ts) (auto simp: image_iff)

lemma ids_filter: "map fst (filter (\<lambda>(j, _). j \<noteq> i) ts) = filter (\<lambda>j. j \<noteq> i) (map fst ts)"
  by (induction ts) auto

lemma ar_start_Ok:
  "ar_start i s = (r, Ok ()) \<longleftrightarrow> ar_exclusive s = None \<and> i \<notin> set (active_run_ids s) \<and>
     r = s\<lparr>ar_tasks := insort_key fst (i, False) (ar_tasks s)\<rparr>"
  by (auto simp: ar_start_def split: option.splits)

lemma ar_start_ids:
  assumes "ar_start i s = (r, Ok ())"
  shows "set (active_run_ids r) = insert i (set (active_run_ids s))" "distinct (active_run_ids r) = distinct (active_run_ids s)"
    "i \<notin> set (active_run_ids s)" "ar_exclusive r = None" "ar_exclusive s = None"
  using assms ids_insert[of i False "ar_tasks s"] by (simp_all add: ar_start_Ok active_run_ids_def)

lemma ar_start_Err: "ar_start i s = (r, Err e) \<Longrightarrow> r = s"
  by (auto simp: ar_start_def split: option.splits if_splits)

lemma ar_reserve_Ok:
  "ar_reserve i s = (r, Ok ()) \<longleftrightarrow> ar_exclusive s = None \<and> ar_tasks s = [] \<and> r = s\<lparr>ar_exclusive := Some i\<rparr>"
  by (auto simp: ar_reserve_def split: option.splits list.splits)

lemma ar_reserve_Err: "ar_reserve i s = (r, Err e) \<Longrightarrow> r = s"
  by (auto simp: ar_reserve_def split: option.splits list.splits)

lemma ar_cancel_ids: "ar_cancel i s = (r, b) \<Longrightarrow> active_run_ids r = active_run_ids s \<and> ar_exclusive r = ar_exclusive s"
  by (auto simp: ar_cancel_def active_run_ids_def split: if_splits)

lemma ar_release_ids:
  "active_run_ids (ar_release i s) = (if ar_exclusive s = Some i then active_run_ids s else filter (\<lambda>j. j \<noteq> i) (active_run_ids s))"
  "ar_exclusive (ar_release i s) = (if ar_exclusive s = Some i then None else ar_exclusive s)"
  by (simp_all add: ar_release_def active_run_ids_def ids_filter)

lemma no_tasks: "ar_tasks s = [] \<longleftrightarrow> active_run_ids s = []" by (simp add: active_run_ids_def)

lemma step_registry_ok:
  assumes "server_step s ev s'" "ev \<noteq> EvShutdown" "registry_ok s" shows "registry_ok s'"
  using assms
proof (cases rule: server_step.cases)
  case (start i r)
  note r = ar_start_ids[OF start(3)]
  show ?thesis using assms(3) r start(1,2) by (auto simp: registry_ok_def)
next
  case (start_refused i r e)
  then show ?thesis using assms(3) ar_start_Err[OF start_refused(3)] by (simp add: registry_ok_def)
next
  case (returned i)
  then show ?thesis using assms(3) by (auto simp: registry_ok_def split: option.splits)
next
  case (task_released i)
  then have "ar_exclusive (sv_registry s) = None"
    using assms(3) by (auto simp: registry_ok_def no_tasks split: option.splits)
  then show ?thesis using task_released assms(3) by (auto simp: registry_ok_def ar_release_ids)
next
  case (reserve i r)
  then show ?thesis using assms(3) by (auto simp: registry_ok_def ar_reserve_Ok active_run_ids_def)
next
  case (reserve_refused i r e)
  then show ?thesis using assms(3) ar_reserve_Err[OF reserve_refused(3)] by (simp add: registry_ok_def)
next
  case (write_ends i)
  then show ?thesis using assms(3) by (auto simp: registry_ok_def ar_release_ids no_tasks split: option.splits)
next
  case (write_dropped i)
  then show ?thesis using assms(3) by (auto simp: registry_ok_def split: option.splits)
next
  case (cancel i r found)
  then show ?thesis using assms(3) by (auto simp: registry_ok_def no_tasks dest!: ar_cancel_ids split: option.splits)
qed auto

lemma run_registry_ok: "server_run s evs s' \<Longrightarrow> registry_ok s \<Longrightarrow> registry_ok s'"
  by (induction rule: server_run.induct) (auto intro: step_registry_ok)

lemma start_registry_ok: "registry_ok server_start"
  by (simp add: registry_ok_def server_start_def ar_default_def active_run_ids_def)

text \<open>C37: Until the server shuts down, a direct write of PID constants and a tune are never under way at the
  same time: while a write is between its reservation and its release no task of a tune is alive, not
  even one that has returned and not given up its entry, and there is exactly one write, the one
  reserved.  The registered ids are those of the tasks, each once.\<close>

theorem writes_never_overlap_tunes:
  assumes "server_run server_start evs s"
  shows "(sv_writes s = [] \<or> (sv_alive s = [] \<and> sv_returned s = [] \<and> (\<exists>i. sv_writes s = [i] \<and> exclusive_id (sv_registry s) = Some i))) \<and>
    distinct (sv_alive s @ sv_returned s) \<and> set (active_run_ids (sv_registry s)) = set (sv_alive s) \<union> set (sv_returned s)"
  using run_registry_ok[OF assms start_registry_ok]
  by (auto simp: registry_ok_def exclusive_id_def active_run_ids_def split: option.splits)

section \<open>A dropped request keeps its reservation\<close>

lemma orphaned_step:
  assumes "server_step s ev s'" "ev \<noteq> EvShutdown" "registry_ok s" "ar_exclusive (sv_registry s) = Some i" "sv_writes s = []"
  shows "ar_exclusive (sv_registry s') = Some i \<and> sv_writes s' = [] \<and> (\<forall>j. ev \<noteq> EvStart j \<and> ev \<noteq> EvReserve j)"
  using assms
proof (cases rule: server_step.cases)
  case (task_released j)
  then show ?thesis using assms(3,4) by (auto simp: registry_ok_def no_tasks)
next
  case (cancel j r found)
  then show ?thesis using assms(4,5) by (auto dest!: ar_cancel_ids)
qed (auto simp: ar_start_Ok ar_reserve_Ok dest: ar_start_Err ar_reserve_Err)

text \<open>C38: When the request of a direct write is dropped between its reservation and its release (as the
  HTTP server does when the client goes away), the reservation stays: whatever happens until the server
  shuts down, no tune is started and no write begins any more.\<close>

theorem dropped_write_blocks:
  assumes "server_run server_start evs s" "server_step s (EvWriteDropped i) s1" "server_run s1 evs' s2"
  shows "exclusive_id (sv_registry s2) = Some i \<and> (\<forall>j. EvStart j \<notin> set evs' \<and> EvReserve j \<notin> set evs') \<and>
    (\<forall>j. snd (ar_start j (sv_registry s2)) = Err i \<and> snd (ar_reserve j (sv_registry s2)) = Err i)"
proof -
  have ok: "registry_ok s" by (rule run_registry_ok[OF assms(1) start_registry_ok])
  have s1: "registry_ok s1" "ar_exclusive (sv_registry s1) = Some i" "sv_writes s1 = []"
    using assms(2) ok step_registry_ok[OF assms(2) _ ok] by (auto elim!: server_stepE simp: registry_ok_def split: option.splits)
  from assms(3) s1 have "ar_exclusive (sv_registry s2) = Some i \<and> sv_writes s2 = [] \<and> registry_ok s2 \<and>
      (\<forall>j. EvStart j \<notin> set evs' \<and> EvReserve j \<notin> set evs')"
  proof (induction rule: server_run.induct)
    case (step s evs a ev b)
    then have a: "ar_exclusive (sv_registry a) = Some i" "sv_writes a = []" "registry_ok a" by simp_all
    from orphaned_step[OF step(2,3) a(3,1,2)] step_registry_ok[OF step(2,3) a(3)] step show ?case by auto
  qed simp
  then show ?thesis by (simp add: exclusive_id_def ar_start_def ar_reserve_def)
qed

lemma demo_write_begun:
  "server_run server_start [EvReserve 7] (server_start\<lparr>sv_registry := ar_default\<lparr>ar_exclusive := Some 7\<rparr>, sv_writes := [7]\<rparr>)"
  using server_run.step[OF server_run.empty, of server_start "EvReserve 7"]
  by (auto simp: server_reserve_iff ar_reserve_Ok server_start_def ar_default_def)

theorem writes_never_overlap_tunes_witness:
  "\<exists>s. server_run server_start [EvReserve 7] s \<and> sv_writes s = [7] \<and> sv_alive s = []"
  using writes_never_overlap_tunes[OF demo_write_begun] demo_write_begun by (intro exI[of _ "server_start\<lparr>sv_registry := ar_default\<lparr>ar_exclusive := Some 7\<rparr>, sv_writes := [7]\<rparr>"]) auto

theorem dropped_write_blocks_witness:
  "\<exists>s s1. server_run server_start [EvReserve 7] s \<and> server_step s (EvWriteDropped 7) s1 \<and> snd (ar_start 8 (sv_registry s1)) = Err 7"
proof -
  let ?s = "server_start\<lparr>sv_registry := ar_default\<lparr>ar_exclusive := Some 7\<rparr>, sv_writes := [7]\<rparr>"
  have d: "server_step ?s (EvWriteDropped 7) (?s\<lparr>sv_writes := remove1 7 (sv_writes ?s)\<rparr>)" by (rule write_dropped) simp
  from dropped_write_blocks[OF demo_write_begun d server_run.empty] demo_write_begun d show ?thesis by blast
qed

section \<open>Starting a tune\<close>

datatype 'e api_error = ApiConflict int | ApiBadRequest 'e | ApiInternal db_error

text \<open>\<open>start_run_with_hook\<close> for a request that was validated: the registry is looked at before the
  preparation and used after it; other requests may have changed it in between.  When the registry
  refuses the task it is dropped with everything it captured.\<close>

definition start_run ::
  "'d prepare_env \<Rightarrow> timestamp \<Rightarrow> (int \<Rightarrow> string) \<Rightarrow> tune_request \<Rightarrow> active_run_state \<Rightarrow> active_run_state \<Rightarrow> db
   \<Rightarrow> (active_run_state \<times> db) \<times> (exec_error api_error, int) result" where
  "start_run env now reason q before after d =
     (case exclusive_id before of
        Some active \<Rightarrow> ((before, d), Err (ApiConflict active))
      | None \<Rightarrow>
          (case prepare_internal env None q d of
             (d1, Inl e) \<Rightarrow> ((after, d1), Err (ApiBadRequest e))
           | (d1, Inr p) \<Rightarrow>
               (case ar_start (pt_run_id p) after of
                  (r, Inr _) \<Rightarrow> ((r, d1), Ok (pt_run_id p))
                | (r, Inl existing) \<Rightarrow>
                    (case run_fail (js_valid (pe_js env)) (pt_run_id p) now (reason existing) d1 of
                       (d2, Inl e) \<Rightarrow> ((r, d2), Err (ApiInternal e))
                     | (d2, Inr _) \<Rightarrow> ((r, d2), Err (ApiConflict existing))))))"

text \<open>C39: A live tune that loses the race with a direct write is refused and marked failed, but its
  ownership is not released: the claim on the controller it had just acquired stays, and as long as the
  claim is there nobody acquires that controller.\<close>

theorem rejected_start_keeps_claim:
  assumes "db_reach (js_valid (pe_js env)) d" "q_driver q = OpcdaKind" "prepare_internal env None q d = (d1, Ok p)"
    and "exclusive_id before = None" "exclusive_id after = Some i"
  shows "\<exists>d2 row g c. start_run env now reason q before after d = ((after, d2), Err (ApiConflict i)) \<and>
    runs d2 = runs d @ [row] \<and> run_id row = pt_run_id p \<and> outcome row = OutFailed \<and> pt_owner p = Some g \<and>
    claims d2 = claims d @ [c] \<and> cl_owner_id c = lo_id (gd_owner g) \<and> lo_run_id (gd_owner g) = Some (pt_run_id p) \<and>
    (\<forall>new. \<not> (\<exists>d3 o'. create_and_claim (js_valid (pe_js env)) new (claim_key c) d2 = (d3, Ok (Some o'))))"
proof -
  obtain row where row: "runs d1 = runs d @ [row]" "run_id row = pt_run_id p" "run_id row \<notin> run_id ` set (runs d)"
      "run_check (js_valid (pe_js env)) row"
    and own: "case pt_owner p of
       None \<Rightarrow> q_driver q \<noteq> OpcdaKind \<and> claims d1 = claims d
     | Some g \<Rightarrow> lo_run_id (gd_owner g) = Some (pt_run_id p) \<and>
         (\<exists>host server t. bridge_host row = Some host \<and> opc_server row = Some server \<and>
            claims d1 = claims d @ [\<lparr> claim_key = live_claim_key (pe_js env) (gd_database_key g)
               (live_resource_key (pe_js env) host server (g_manipulated_variable (run_tags row))),
               cl_owner_id = lo_id (gd_owner g), claimed_at = t \<rparr>])"
    using prepared_holds[OF assms(1,3)] by blast
  obtain g c where g: "pt_owner p = Some g" "lo_run_id (gd_owner g) = Some (pt_run_id p)" "claims d1 = claims d @ [c]"
      "cl_owner_id c = lo_id (gd_owner g)"
    using own assms(2) by (cases "pt_owner p") auto
  note f = appended_fail[OF row(1,3,4), of now "reason i", unfolded row(2)]
  let ?row = "row\<lparr>outcome := OutFailed, completed_at := Some now, failure_reason := Some (reason i)\<rparr>"
  let ?d2 = "d1\<lparr>runs := runs d @ [?row]\<rparr>"
  have "ar_start (pt_run_id p) after = (after, Err i)" using assms(5) by (simp add: ar_start_def exclusive_id_def)
  then have "start_run env now reason q before after d = ((after, ?d2), Err (ApiConflict i))"
    using assms(3,4) f by (simp add: start_run_def)
  moreover have "\<not> (\<exists>d3 o'. create_and_claim (js_valid (pe_js env)) new (claim_key c) ?d2 = (d3, Ok (Some o')))" for new
    using create_commit(5) g(3) by fastforce
  ultimately show ?thesis
    using row(2) g by (intro exI[of _ ?d2] exI[of _ ?row] exI[of _ g] exI[of _ c]) simp
qed

theorem rejected_start_keeps_claim_witness:
  "\<exists>d2 row c. start_run (demo_prepare_env (Ok ())) 90 (\<lambda>_. ''busy'') demo_request ar_default (ar_default\<lparr>ar_exclusive := Some 7\<rparr>) demo_empty =
      ((ar_default\<lparr>ar_exclusive := Some 7\<rparr>, d2), Err (ApiConflict 7)) \<and> runs d2 = [row] \<and> outcome row = OutFailed \<and> claims d2 = [c]"
proof -
  obtain d1 p where p: "prepare_internal (demo_prepare_env (Ok ())) None demo_request demo_empty = (d1, Ok p)"
    using demo_prepared[of "Ok ()"]
    by (cases "prepare_internal (demo_prepare_env (Ok ())) None demo_request demo_empty"; cases "snd (prepare_internal (demo_prepare_env (Ok ())) None demo_request demo_empty)")
      (auto simp: is_ok_iff)
  have q: "q_driver demo_request = OpcdaKind" "runs demo_empty = []" "claims demo_empty = []"
    by (simp_all add: demo_request_def demo_empty_def empty_db_def)
  have x: "exclusive_id ar_default = None" "exclusive_id (ar_default\<lparr>ar_exclusive := Some 7\<rparr>) = Some 7"
    by (simp_all add: exclusive_id_def ar_default_def)
  show ?thesis
    using rejected_start_keeps_claim[OF demo_empty_reach q(1) p x, of 90 "\<lambda>_. ''busy''"] q(2,3) by auto
qed

end
