(* ===== verification/Demo_Quotas.thy ===== *)
theory Demo_Quotas
  imports App_Config
begin

text \<open>
  The quotas of the public demo (\<open>bhtune-server/src/state.rs\<close>): accepted starts in a sliding window per
  visitor token and per client address, and the permits that bound what runs at the same time.

  A \<open>HashMap\<close> is a map; the queues are lists in arrival order.  The id counter is 64 bits wide and wraps.
  A time is in nanoseconds; \<open>DateTime\<close> overflow is not modelled.  A semaphore carries its free permits and
  how many permits are out (each keeps the semaphore alive).
\<close>

section \<open>Accepted starts\<close>

record accepted_start =
  as_id :: "64 word"
  as_accepted_at :: timestamp

record accepted_start_windows =
  aw_next_id :: "64 word"
  aw_by_token :: "string \<rightharpoonup> accepted_start list"
  aw_by_ip :: "string \<rightharpoonup> accepted_start list"

record demo_accepted_start =
  da_id :: "64 word"
  da_token_hash :: string
  da_client_ip :: string

definition no_windows :: accepted_start_windows where
  "no_windows = \<lparr> aw_next_id = 0, aw_by_token = Map.empty, aw_by_ip = Map.empty \<rparr>"

definition prune_queue :: "timestamp \<Rightarrow> accepted_start list \<Rightarrow> accepted_start list" where
  "prune_queue cutoff starts = dropWhile (\<lambda>s. as_accepted_at s \<le> cutoff) starts"

definition retain_queues :: "(accepted_start list \<Rightarrow> accepted_start list) \<Rightarrow> (string \<rightharpoonup> accepted_start list) \<Rightarrow> string \<rightharpoonup> accepted_start list" where
  "retain_queues f m = (\<lambda>k. case m k of None \<Rightarrow> None | Some q \<Rightarrow> if f q = [] then None else Some (f q))"

definition prune_start_windows :: "timestamp \<Rightarrow> nat \<Rightarrow> accepted_start_windows \<Rightarrow> accepted_start_windows" where
  "prune_start_windows now window_secs w =
     (let cutoff = now - secs window_secs
      in w\<lparr>aw_by_token := retain_queues (prune_queue cutoff) (aw_by_token w),
           aw_by_ip := retain_queues (prune_queue cutoff) (aw_by_ip w)\<rparr>)"

definition retry_after_for :: "accepted_start list option \<Rightarrow> nat \<Rightarrow> timestamp \<Rightarrow> nat \<Rightarrow> nat option" where
  "retry_after_for starts quota now window_secs =
     (case starts of
        None \<Rightarrow> None
      | Some q \<Rightarrow>
          if length q < quota then None
          else (case q of
             [] \<Rightarrow> None
           | s # _ \<Rightarrow>
               (let remaining_ms = max 1 (num_milliseconds (as_accepted_at s + secs window_secs - now))
                in Some (nat ((remaining_ms + 999) div 1000)))))"

definition quota_retry_after :: "accepted_start_windows \<Rightarrow> string \<Rightarrow> string \<Rightarrow> timestamp \<Rightarrow> demo_policy \<Rightarrow> nat option" where
  "quota_retry_after w token ip now p =
     (case (retry_after_for (aw_by_token w token) (dp_accepted_starts_per_token p) now (dp_accepted_start_window_secs p),
            retry_after_for (aw_by_ip w ip) (dp_accepted_starts_per_client_ip p) now (dp_accepted_start_window_secs p)) of
        (Some l, Some r) \<Rightarrow> Some (max l r)
      | (Some r, None) \<Rightarrow> Some r
      | (None, Some r) \<Rightarrow> Some r
      | (None, None) \<Rightarrow> None)"

definition push_back :: "string \<Rightarrow> accepted_start \<Rightarrow> (string \<rightharpoonup> accepted_start list) \<Rightarrow> string \<rightharpoonup> accepted_start list" where
  "push_back k s m = m(k \<mapsto> (case m k of None \<Rightarrow> [] | Some q \<Rightarrow> q) @ [s])"

definition reserve_accepted_start ::
  "string \<Rightarrow> string \<Rightarrow> timestamp \<Rightarrow> demo_policy \<Rightarrow> accepted_start_windows
   \<Rightarrow> accepted_start_windows \<times> (nat, demo_accepted_start) result" where
  "reserve_accepted_start token ip now p w0 =
     (let w = prune_start_windows now (dp_accepted_start_window_secs p) w0
      in case quota_retry_after w token ip now p of
           Some retry \<Rightarrow> (w, Err retry)
         | None \<Rightarrow>
             (let i = aw_next_id w + 1; s = \<lparr> as_id = i, as_accepted_at = now \<rparr>
              in (\<lparr> aw_next_id = i, aw_by_token = push_back token s (aw_by_token w), aw_by_ip = push_back ip s (aw_by_ip w) \<rparr>,
                  Ok \<lparr> da_id = i, da_token_hash = token, da_client_ip = ip \<rparr>)))"

definition remove_accepted_start :: "string \<Rightarrow> 64 word \<Rightarrow> (string \<rightharpoonup> accepted_start list) \<Rightarrow> string \<rightharpoonup> accepted_start list" where
  "remove_accepted_start k i m =
     (case m k of
        None \<Rightarrow> m
      | Some q \<Rightarrow> (let q' = filter (\<lambda>s. as_id s \<noteq> i) q in if q' = [] then m(k := None) else m(k \<mapsto> q')))"

definition release_accepted_start :: "demo_accepted_start \<Rightarrow> accepted_start_windows \<Rightarrow> accepted_start_windows" where
  "release_accepted_start a w =
     w\<lparr>aw_by_token := remove_accepted_start (da_token_hash a) (da_id a) (aw_by_token w),
       aw_by_ip := remove_accepted_start (da_client_ip a) (da_id a) (aw_by_ip w)\<rparr>"

section \<open>Permits\<close>

record semaphore =
  sem_available :: nat
  sem_out :: nat

definition try_acquire_permit :: "semaphore \<Rightarrow> semaphore option" where
  "try_acquire_permit s =
     (if sem_available s = 0 then None else Some (s\<lparr>sem_available := sem_available s - 1, sem_out := sem_out s + 1\<rparr>))"

definition return_permit :: "semaphore \<Rightarrow> semaphore" where
  "return_permit s = s\<lparr>sem_available := sem_available s + 1, sem_out := sem_out s - 1\<rparr>"

text \<open>\<open>Arc::strong_count(permit) > 1\<close>: a permit is out.\<close>

definition retain_active_visitor_semaphores :: "nat \<Rightarrow> (string \<rightharpoonup> semaphore) \<Rightarrow> string \<rightharpoonup> semaphore" where
  "retain_active_visitor_semaphores quota m =
     (\<lambda>k. case m k of None \<Rightarrow> None | Some s \<Rightarrow> if 0 < sem_out s \<or> sem_available s < quota then Some s else None)"

definition visitor_semaphore :: "string \<Rightarrow> nat \<Rightarrow> (string \<rightharpoonup> semaphore) \<Rightarrow> (string \<rightharpoonup> semaphore) \<times> semaphore" where
  "visitor_semaphore token quota m =
     (let m' = retain_active_visitor_semaphores quota m
      in case m' token of
           Some s \<Rightarrow> (m', s)
         | None \<Rightarrow> (let s = \<lparr> sem_available = quota, sem_out = 0 \<rparr> in (m'(token \<mapsto> s), s)))"

definition try_acquire_visitor :: "string \<Rightarrow> nat \<Rightarrow> (string \<rightharpoonup> semaphore) \<Rightarrow> (string \<rightharpoonup> semaphore) \<times> bool" where
  "try_acquire_visitor token quota m =
     (let (m', s) = visitor_semaphore token quota m
      in case try_acquire_permit s of None \<Rightarrow> (m', False) | Some s' \<Rightarrow> (m'(token \<mapsto> s'), True))"

record demo_runtime =
  dr_run_permits :: semaphore
  dr_sse_permits :: semaphore
  dr_ordinary_request_permits :: semaphore
  dr_accepted_starts :: accepted_start_windows
  dr_visitor_run_permits :: "string \<rightharpoonup> semaphore"
  dr_visitor_sse_permits :: "string \<rightharpoonup> semaphore"

definition demo_runtime_new :: "demo_policy \<Rightarrow> demo_runtime" where
  "demo_runtime_new p =
     \<lparr> dr_run_permits = \<lparr> sem_available = dp_max_active_runs_global p, sem_out = 0 \<rparr>,
       dr_sse_permits = \<lparr> sem_available = dp_max_sse_global p, sem_out = 0 \<rparr>,
       dr_ordinary_request_permits = \<lparr> sem_available = dp_ordinary_request_concurrency p, sem_out = 0 \<rparr>,
       dr_accepted_starts = no_windows, dr_visitor_run_permits = Map.empty, dr_visitor_sse_permits = Map.empty \<rparr>"

definition demo_cleanup :: "timestamp \<Rightarrow> demo_policy \<Rightarrow> demo_runtime \<Rightarrow> demo_runtime" where
  "demo_cleanup now p r =
     r\<lparr>dr_accepted_starts := prune_start_windows now (dp_accepted_start_window_secs p) (dr_accepted_starts r),
       dr_visitor_run_permits := retain_active_visitor_semaphores (dp_max_active_runs_per_visitor p) (dr_visitor_run_permits r),
       dr_visitor_sse_permits := retain_active_visitor_semaphores (dp_max_sse_per_visitor p) (dr_visitor_sse_permits r)\<rparr>"

section \<open>The log of a server\<close>

text \<open>What happens to the windows while time goes on: a start is accepted or refused, an accepted start is
  given back when its run is never scheduled, the windows are pruned.  The log has the accepted starts
  not given back, with their times; the number counts all accepted ones.\<close>

inductive quota_reach ::
  "demo_policy \<Rightarrow> nat \<Rightarrow> timestamp \<Rightarrow> accepted_start_windows \<Rightarrow> (demo_accepted_start \<times> timestamp) list \<Rightarrow> bool" for p where
  init: "quota_reach p 0 t no_windows []"
| accepted: "quota_reach p n t w l \<Longrightarrow> t \<le> now \<Longrightarrow> reserve_accepted_start token ip now p w = (w', Ok a) \<Longrightarrow>
    quota_reach p (Suc n) now w' (l @ [(a, now)])"
| refused: "quota_reach p n t w l \<Longrightarrow> t \<le> now \<Longrightarrow> reserve_accepted_start token ip now p w = (w', Err retry) \<Longrightarrow>
    quota_reach p n now w' l"
| released: "quota_reach p n t w l \<Longrightarrow> (a, x) \<in> set l \<Longrightarrow>
    quota_reach p n t (release_accepted_start a w) (filter (\<lambda>(b, _). b \<noteq> a) l)"
| cleaned: "quota_reach p n t w l \<Longrightarrow> t \<le> now \<Longrightarrow>
    quota_reach p n now (prune_start_windows now (dp_accepted_start_window_secs p) w) l"

text \<open>One map of queues against the log: no queue is longer than its limit, and what the log has in the
  window is in the queue of its key.\<close>

definition tracks ::
  "nat \<Rightarrow> int \<Rightarrow> (demo_accepted_start \<Rightarrow> string) \<Rightarrow> timestamp \<Rightarrow> (string \<rightharpoonup> accepted_start list) \<Rightarrow> (demo_accepted_start \<times> timestamp) list \<Rightarrow> bool" where
  "tracks quota window key t m l \<longleftrightarrow>
     (\<forall>k q. m k = Some q \<longrightarrow> length q \<le> quota) \<and>
     (\<forall>a x. (a, x) \<in> set l \<longrightarrow> t - window < x \<longrightarrow>
        (\<exists>q. m (key a) = Some q \<and> \<lparr> as_id = da_id a, as_accepted_at = x \<rparr> \<in> set q))"

definition ids_ok :: "nat \<Rightarrow> accepted_start_windows \<Rightarrow> (demo_accepted_start \<times> timestamp) list \<Rightarrow> bool" where
  "ids_ok n w l \<longleftrightarrow> aw_next_id w = of_nat n \<and> distinct (map (da_id \<circ> fst) l) \<and>
     (\<forall>x \<in> set l. \<exists>i. 1 \<le> i \<and> i \<le> n \<and> da_id (fst x) = of_nat i)"

lemma kept_by_prune: "x \<in> set q \<Longrightarrow> cutoff < as_accepted_at x \<Longrightarrow> x \<in> set (prune_queue cutoff q)"
  by (induction q) (auto simp: prune_queue_def)

lemma prune_shorter: "length (prune_queue cutoff q) \<le> length q"
  by (simp add: prune_queue_def length_dropWhile_le)

lemma tracks_prune:
  assumes "tracks L win key t m l" "t \<le> now" shows "tracks L win key now (retain_queues (prune_queue (now - win)) m) l"
  unfolding tracks_def
proof (intro conjI allI impI)
  fix k q assume "retain_queues (prune_queue (now - win)) m k = Some q"
  then obtain q0 where "m k = Some q0" "q = prune_queue (now - win) q0" by (auto simp: retain_queues_def split: option.splits if_splits)
  then show "length q \<le> L" using assms(1) prune_shorter[of "now - win" q0] unfolding tracks_def by fastforce
next
  fix a x assume a: "(a, x) \<in> set l" "now - win < x"
  then have "t - win < x" using assms(2) by simp
  then obtain q where q: "m (key a) = Some q" "\<lparr> as_id = da_id a, as_accepted_at = x \<rparr> \<in> set q" using assms(1) a(1) unfolding tracks_def by blast
  then have "\<lparr> as_id = da_id a, as_accepted_at = x \<rparr> \<in> set (prune_queue (now - win) q)" using a(2) by (simp add: kept_by_prune)
  then show "\<exists>q. retain_queues (prune_queue (now - win)) m (key a) = Some q \<and> \<lparr> as_id = da_id a, as_accepted_at = x \<rparr> \<in> set q"
    using q(1) by (auto simp: retain_queues_def)
qed

lemma tracks_push:
  assumes "tracks L win key t m l" "retry_after_for (m (key a)) L now window = None" "1 \<le> L"
  shows "tracks L win key t (push_back (key a) \<lparr> as_id = da_id a, as_accepted_at = now \<rparr> m) (l @ [(a, now)])"
  using assms by (fastforce simp: tracks_def push_back_def retry_after_for_def split: option.splits if_splits list.splits)

lemma tracks_remove:
  assumes "tracks L win key t m l" "distinct (map (da_id \<circ> fst) l)" "(a, x) \<in> set l"
  shows "tracks L win key t (remove_accepted_start (key a) (da_id a) m) (filter (\<lambda>(b, _). b \<noteq> a) l)"
  unfolding tracks_def
proof (intro conjI allI impI)
  fix k q assume "remove_accepted_start (key a) (da_id a) m k = Some q"
  then obtain q0 where "m k = Some q0" "length q \<le> length q0"
    by (auto simp: remove_accepted_start_def Let_def split: option.splits if_splits)
  then show "length q \<le> L" using assms(1) unfolding tracks_def by fastforce
next
  fix b y assume b: "(b, y) \<in> set (filter (\<lambda>(b, _). b \<noteq> a) l)" "t - win < y"
  then have bl: "(b, y) \<in> set l" by simp
  obtain q where q: "m (key b) = Some q" "\<lparr> as_id = da_id b, as_accepted_at = y \<rparr> \<in> set q"
    using assms(1) b(2) bl unfolding tracks_def by blast
  have "da_id b \<noteq> da_id a"
  proof
    assume "da_id b = da_id a"
    then have "(da_id \<circ> fst) (b, y) = (da_id \<circ> fst) (a, x)" by simp
    moreover have "inj_on (da_id \<circ> fst) (set l)" using assms(2) by (simp add: distinct_map)
    ultimately have "(b, y) = (a, x)" using b(1) assms(3) by (meson inj_onD filter_is_subset subsetD)
    then show False using b(1) by simp
  qed
  then have kept: "\<lparr> as_id = da_id b, as_accepted_at = y \<rparr> \<in> set (filter (\<lambda>s. as_id s \<noteq> da_id a) q)" using q(2) by simp
  then have "filter (\<lambda>s. as_id s \<noteq> da_id a) q \<noteq> []" by (metis empty_iff list.set(1))
  then show "\<exists>q. remove_accepted_start (key a) (da_id a) m (key b) = Some q \<and> \<lparr> as_id = da_id b, as_accepted_at = y \<rparr> \<in> set q"
    using q kept by (cases "key b = key a") (auto simp: remove_accepted_start_def Let_def split: option.splits)
qed

section \<open>The invariant\<close>

definition quotas_ok :: "demo_policy \<Rightarrow> bool" where
  "quotas_ok p \<longleftrightarrow> 1 \<le> dp_accepted_starts_per_token p \<and> 1 \<le> dp_accepted_starts_per_client_ip p"

definition windows_ok :: "demo_policy \<Rightarrow> timestamp \<Rightarrow> accepted_start_windows \<Rightarrow> (demo_accepted_start \<times> timestamp) list \<Rightarrow> bool" where
  "windows_ok p t w l \<longleftrightarrow>
     tracks (dp_accepted_starts_per_token p) (secs (dp_accepted_start_window_secs p)) da_token_hash t (aw_by_token w) l \<and>
     tracks (dp_accepted_starts_per_client_ip p) (secs (dp_accepted_start_window_secs p)) da_client_ip t (aw_by_ip w) l"

lemma windows_prune: "windows_ok p t w l \<Longrightarrow> t \<le> now \<Longrightarrow> windows_ok p now (prune_start_windows now (dp_accepted_start_window_secs p) w) l"
  by (auto simp: windows_ok_def prune_start_windows_def Let_def intro: tracks_prune)

lemma quota_None:
  "quota_retry_after w token ip now p = None \<longleftrightarrow>
     retry_after_for (aw_by_token w token) (dp_accepted_starts_per_token p) now (dp_accepted_start_window_secs p) = None \<and>
     retry_after_for (aw_by_ip w ip) (dp_accepted_starts_per_client_ip p) now (dp_accepted_start_window_secs p) = None"
  by (auto simp: quota_retry_after_def split: option.splits)

lemma reserve_Err:
  "reserve_accepted_start token ip now p w = (w', Err r) \<longleftrightarrow>
     w' = prune_start_windows now (dp_accepted_start_window_secs p) w \<and> quota_retry_after w' token ip now p = Some r"
  by (auto simp: reserve_accepted_start_def Let_def split: option.splits)

lemma reserve_Ok:
  assumes "reserve_accepted_start token ip now p w0 = (w', Ok a)"
  defines "w \<equiv> prune_start_windows now (dp_accepted_start_window_secs p) w0"
  shows "quota_retry_after w token ip now p = None" "a = \<lparr> da_id = aw_next_id w0 + 1, da_token_hash = token, da_client_ip = ip \<rparr>"
    "w' = \<lparr> aw_next_id = da_id a, aw_by_token = push_back token \<lparr> as_id = da_id a, as_accepted_at = now \<rparr> (aw_by_token w),
       aw_by_ip = push_back ip \<lparr> as_id = da_id a, as_accepted_at = now \<rparr> (aw_by_ip w) \<rparr>"
  using assms by (auto simp: reserve_accepted_start_def Let_def prune_start_windows_def split: option.splits)

lemma ids_fresh:
  assumes "ids_ok n w l" "Suc n < 2 ^ 64" "da_id a = of_nat (Suc n)" "aw_next_id w' = of_nat (Suc n)"
  shows "ids_ok (Suc n) w' (l @ [(a, now)])"
proof -
  have "(of_nat (Suc n) :: 64 word) \<noteq> of_nat i" if "i \<le> n" for i
  proof
    assume "(of_nat (Suc n) :: 64 word) = of_nat i"
    then have "take_bit 64 (Suc n) = take_bit 64 i" unfolding word_of_nat_eq_iff by simp
    then show False using that assms(2) by (simp only: take_bit_nat_eq_self)
  qed
  then have fresh: "da_id a \<noteq> da_id (fst x)" if "x \<in> set l" for x
    using that assms(1,3) unfolding ids_ok_def by metis
  have d: "distinct (map (da_id \<circ> fst) (l @ [(a, now)]))"
    using assms(1) fresh unfolding ids_ok_def by (auto simp: image_iff)
  have "\<exists>i. 1 \<le> i \<and> i \<le> Suc n \<and> da_id (fst x) = of_nat i" if "x \<in> set (l @ [(a, now)])" for x
  proof (cases "x \<in> set l")
    case True
    then show ?thesis using assms(1) unfolding ids_ok_def by (meson le_SucI)
  next
    case False
    then show ?thesis using that assms(3) by (intro exI[of _ "Suc n"]) auto
  qed
  then show ?thesis using d assms(4) unfolding ids_ok_def by blast
qed

lemma quota_reach_ok:
  assumes "quota_reach p n t w l" "quotas_ok p" "n < 2 ^ 64" shows "windows_ok p t w l \<and> ids_ok n w l"
  using assms
proof (induction rule: quota_reach.induct)
  case (init t)
  then show ?case by (simp add: windows_ok_def ids_ok_def tracks_def no_windows_def)
next
  case (accepted n t w l now token ip w' a)
  then have IH: "windows_ok p t w l" "ids_ok n w l" by simp_all
  note r = reserve_Ok[OF accepted(3)] and W = windows_prune[OF IH(1) accepted(2)]
  let ?w = "prune_start_windows now (dp_accepted_start_window_secs p) w"
  have a: "da_token_hash a = token" "da_client_ip a = ip" "da_id a = of_nat (Suc n)"
    using r(2) IH(2) by (simp_all add: ids_ok_def add.commute)
  have "windows_ok p now w' (l @ [(a, now)])"
    using tracks_push[OF conjunct1[OF W[unfolded windows_ok_def]], of a now "dp_accepted_start_window_secs p"]
      tracks_push[OF conjunct2[OF W[unfolded windows_ok_def]], of a now "dp_accepted_start_window_secs p"]
      r(1) accepted(5) a(1,2) by (simp add: windows_ok_def quota_None quotas_ok_def r(3))
  moreover have "ids_ok (Suc n) w' (l @ [(a, now)])" using ids_fresh[OF IH(2) _ a(3)] accepted(6) r(3) a(3) by simp
  ultimately show ?case by simp
next
  case (refused n t w l now token ip w' retry)
  then show ?case using windows_prune[of p t w l now] by (auto simp: reserve_Err ids_ok_def prune_start_windows_def Let_def)
next
  case (released n t w l a x)
  then have IH: "windows_ok p t w l" "ids_ok n w l" by simp_all
  have d: "distinct (map (da_id \<circ> fst) l)" using IH(2) by (simp add: ids_ok_def)
  have "distinct (map (da_id \<circ> fst) (filter (\<lambda>(b, _). b \<noteq> a) l))" by (rule distinct_map_filter[OF d])
  then show ?case
    using IH tracks_remove[OF _ d released(2)] by (auto simp: windows_ok_def ids_ok_def release_accepted_start_def)
next
  case (cleaned n t w l now)
  then show ?case using windows_prune[of p t w l now] by (auto simp: ids_ok_def prune_start_windows_def Let_def)
qed

section \<open>The guarantees\<close>

lemma counted:
  assumes "tracks L win key t m l" "distinct (map (da_id \<circ> fst) l)"
  shows "length (filter (\<lambda>(a, x). key a = k \<and> t - win < x) l) \<le> L"
proof -
  let ?l = "filter (\<lambda>(a, x). key a = k \<and> t - win < x) l" and ?f = "\<lambda>y. \<lparr> as_id = da_id (fst y), as_accepted_at = snd y \<rparr>"
  have d: "distinct (map (da_id \<circ> fst) ?l)" by (rule distinct_map_filter[OF assms(2)])
  have "distinct (map as_id (map ?f ?l))" using d by (simp add: comp_def)
  then have df: "distinct (map ?f ?l)" unfolding distinct_map by blast
  show ?thesis
  proof (cases "m k")
    case None
    then have "\<not> (key a = k \<and> t - win < x)" if "(a, x) \<in> set l" for a x using assms(1) that unfolding tracks_def by fastforce
    then have "?l = []" by (auto simp: filter_empty_conv)
    then show ?thesis by simp
  next
    case (Some q)
    have "?f y \<in> set q" if y: "y \<in> set ?l" for y
    proof -
      obtain a x where "y = (a, x)" "(a, x) \<in> set l" "key a = k" "t - win < x" using y by auto
      then show ?thesis using assms(1) Some unfolding tracks_def by fastforce
    qed
    then have "set (map ?f ?l) \<subseteq> set q" by auto
    then have "card (set (map ?f ?l)) \<le> card (set q)" by (simp add: card_mono)
    also have "\<dots> \<le> length q" by (rule card_length)
    also have "\<dots> \<le> L" using assms(1) Some by (simp add: tracks_def)
    finally show ?thesis using distinct_card[OF df] by simp
  qed
qed

text \<open>C40: The sliding windows hold: as long as fewer than 2 to the 64 starts have been accepted, at every
  moment the accepted starts of the last window that were not given back are at most the quota, for
  every visitor token and for every client address.\<close>

theorem quota_window_bounded:
  assumes "quota_reach p n t w l" "quotas_ok p" "n < 2 ^ 64"
  shows "length (filter (\<lambda>(a, x). da_token_hash a = k \<and> t - secs (dp_accepted_start_window_secs p) < x) l) \<le> dp_accepted_starts_per_token p \<and>
    length (filter (\<lambda>(a, x). da_client_ip a = k \<and> t - secs (dp_accepted_start_window_secs p) < x) l) \<le> dp_accepted_starts_per_client_ip p"
proof -
  have W: "windows_ok p t w l" and d: "distinct (map (da_id \<circ> fst) l)" using quota_reach_ok[OF assms] by (simp_all add: ids_ok_def)
  show ?thesis
    using counted[OF conjunct1[OF W[unfolded windows_ok_def]] d, of k] counted[OF conjunct2[OF W[unfolded windows_ok_def]] d, of k] by blast
qed

lemma retry_time:
  assumes "retry_after_for (Some (s # q)) L now win = Some r" "0 < as_accepted_at s + secs win - now" "r \<le> r'"
    and "now + secs r' + ns_per_ms \<le> later"
  shows "as_accepted_at s \<le> later - secs win"
proof -
  let ?rem = "as_accepted_at s + secs win - now"
  let ?ms = "max 1 (num_milliseconds ?rem)"
  have "num_milliseconds ?rem = ?rem div ns_per_ms" using assms(2) by (simp add: num_milliseconds_def trunc_div_def ns_per_ms_def)
  then have a: "?rem < (?ms + 1) * ns_per_ms" by (simp add: ns_per_ms_def)
  have "r = nat ((?ms + 999) div 1000)" using assms(1) by (simp add: retry_after_for_def Let_def split: if_splits)
  then have "?ms \<le> 1000 * int r" by linarith
  then have "(?ms + 1) * ns_per_ms \<le> secs r + ns_per_ms" by (simp add: ns_per_ms_def secs_def ns_per_sec_def)
  moreover have "secs r \<le> secs r'" using assms(3) by (simp add: secs_def ns_per_sec_def)
  ultimately show ?thesis using a assms(4) by linarith
qed

lemma retry_granted:
  assumes "tracks L (secs win) key now m l" "1 \<le> L" "m = retain_queues (prune_queue (now - secs win)) m0"
    and "case retry_after_for (m k) L now win of None \<Rightarrow> True | Some x \<Rightarrow> x \<le> r" "now + secs r + ns_per_ms \<le> later"
  shows "retry_after_for (retain_queues (prune_queue (later - secs win)) m k) L later win = None"
proof (cases "m k")
  case None
  then show ?thesis by (simp add: retain_queues_def retry_after_for_def)
next
  case (Some q)
  have len: "length q \<le> L" using assms(1) Some by (simp add: tracks_def)
  have ne: "q \<noteq> []" "now - secs win < as_accepted_at (hd q)"
  proof -
    obtain q0 where q0: "q = prune_queue (now - secs win) q0" "q \<noteq> []"
      using Some by (auto simp: assms(3) retain_queues_def split: option.splits if_splits)
    then show "q \<noteq> []" by simp
    show "now - secs win < as_accepted_at (hd q)"
      using hd_dropWhile[of "\<lambda>s. as_accepted_at s \<le> now - secs win" q0] q0 by (simp add: prune_queue_def)
  qed
  then obtain s q' where q: "q = s # q'" by (cases q) auto
  have "length (prune_queue (later - secs win) q) < L"
  proof (cases "length q < L")
    case True
    then show ?thesis using prune_shorter[of "later - secs win" q] by simp
  next
    case False
    then obtain x where x: "retry_after_for (Some (s # q')) L now win = Some x" by (auto simp: retry_after_for_def q Let_def)
    then have "as_accepted_at s \<le> later - secs win"
      using retry_time[OF x _ _ assms(5)] ne(2) assms(4) Some by (simp add: q)
    then have "prune_queue (later - secs win) q = prune_queue (later - secs win) q'" by (simp add: prune_queue_def q)
    then show ?thesis using prune_shorter[of "later - secs win" q'] len q by simp
  qed
  then show ?thesis using Some by (auto simp: retain_queues_def retry_after_for_def)
qed

text \<open>A refused visitor who waits as long as the refusal says, and one millisecond more, is accepted
  if nothing else happens meanwhile.\<close>

theorem retry_after_is_enough:
  assumes "quota_reach p n t w l" "quotas_ok p" "n < 2 ^ 64" "t \<le> now"
    and "reserve_accepted_start token ip now p w = (w', Err r)" "now + secs r + ns_per_ms \<le> later"
  shows "\<exists>w'' a. reserve_accepted_start token ip later p w' = (w'', Ok a)"
proof -
  let ?win = "dp_accepted_start_window_secs p"
  have W: "windows_ok p now w' l" and w': "w' = prune_start_windows now ?win w" and r: "quota_retry_after w' token ip now p = Some r"
    using quota_reach_ok[OF assms(1-3)] windows_prune[of p t w l now] assms(4,5) by (auto simp: reserve_Err)
  have maps: "aw_by_token w' = retain_queues (prune_queue (now - secs ?win)) (aw_by_token w)"
    "aw_by_ip w' = retain_queues (prune_queue (now - secs ?win)) (aw_by_ip w)"
    by (simp_all add: w' prune_start_windows_def Let_def)
  have le: "case retry_after_for (aw_by_token w' token) (dp_accepted_starts_per_token p) now ?win of None \<Rightarrow> True | Some x \<Rightarrow> x \<le> r"
    "case retry_after_for (aw_by_ip w' ip) (dp_accepted_starts_per_client_ip p) now ?win of None \<Rightarrow> True | Some x \<Rightarrow> x \<le> r"
    using r by (auto simp: quota_retry_after_def split: option.splits)
  have "quota_retry_after (prune_start_windows later ?win w') token ip later p = None"
    using retry_granted[OF conjunct1[OF W[unfolded windows_ok_def]] _ maps(1) le(1) assms(6)]
      retry_granted[OF conjunct2[OF W[unfolded windows_ok_def]] _ maps(2) le(2) assms(6)] assms(2)
    by (simp add: quota_None quotas_ok_def prune_start_windows_def Let_def)
  then show ?thesis by (simp add: reserve_accepted_start_def Let_def)
qed

section \<open>Witnesses\<close>

definition demo_quota_policy :: demo_policy where
  "demo_quota_policy = demo_policy_default\<lparr>dp_accepted_starts_per_token := 1, dp_accepted_start_window_secs := 2\<rparr>"

lemma demo_quota_ok: "quotas_ok demo_quota_policy"
  by (simp add: quotas_ok_def demo_quota_policy_def demo_policy_default_def)

text \<open>One start at time 0, then the same visitor again half a millisecond before the second is over.\<close>

lemma demo_quota_log:
  "\<exists>w a. quota_reach demo_quota_policy 1 0 w [(a, 0)] \<and> da_token_hash a = ''t'' \<and>
     reserve_accepted_start ''t'' ''ip'' 999500000 demo_quota_policy w = (w, Err 1) \<and>
     \<not> is_ok (snd (reserve_accepted_start ''t'' ''ip'' 1999500000 demo_quota_policy w))"
proof -
  let ?a = "\<lparr> da_id = 1, da_token_hash = ''t'', da_client_ip = ''ip'' \<rparr>"
  let ?m = "\<lambda>k. [k \<mapsto> [\<lparr> as_id = 1 :: 64 word, as_accepted_at = 0 \<rparr>]]"
  let ?w = "\<lparr> aw_next_id = 1, aw_by_token = ?m ''t'', aw_by_ip = ?m ''ip'' \<rparr>"
  have "reserve_accepted_start ''t'' ''ip'' 0 demo_quota_policy no_windows = (?w, Ok ?a)"
    by (simp add: reserve_accepted_start_def prune_start_windows_def retain_queues_def no_windows_def quota_retry_after_def
        retry_after_for_def push_back_def Let_def)
  from quota_reach.accepted[OF quota_reach.init[of _ 0] _ this] have r: "quota_reach demo_quota_policy 1 0 ?w [(?a, 0)]" by simp
  have k: "retain_queues (prune_queue c) (?m k) = ?m k" if "c < 0" for c k
    using that by (auto simp: retain_queues_def prune_queue_def)
  have p: "prune_start_windows now 2 ?w = ?w" if "now < 2000000000" for now
    using that k by (simp add: prune_start_windows_def secs_def ns_per_sec_def Let_def)
  have "reserve_accepted_start ''t'' ''ip'' 999500000 demo_quota_policy ?w = (?w, Err 1)"
    "\<not> is_ok (snd (reserve_accepted_start ''t'' ''ip'' 1999500000 demo_quota_policy ?w))"
    using p[of 999500000] p[of 1999500000]
    by (simp_all add: reserve_accepted_start_def demo_quota_policy_def demo_policy_default_def quota_retry_after_def retry_after_for_def
        num_milliseconds_def trunc_div_def ns_per_ms_def secs_def ns_per_sec_def Let_def)
  then show ?thesis using r by (intro exI[of _ ?w] exI[of _ ?a]) simp
qed

theorem quota_window_bounded_witness:
  "\<exists>w a. quota_reach demo_quota_policy 1 0 w [(a, 0)] \<and>
     length (filter (\<lambda>(a, x). da_token_hash a = ''t'' \<and> 0 - secs 2 < x) [(a, 0)]) \<le> 1"
proof -
  obtain w a where r: "quota_reach demo_quota_policy 1 0 w [(a, 0)]" using demo_quota_log by blast
  from quota_window_bounded[OF r demo_quota_ok, of "''t''"] r show ?thesis
    by (intro exI[of _ w] exI[of _ a]) (simp add: demo_quota_policy_def)
qed

theorem retry_after_is_enough_witness:
  "\<exists>w w'' a. reserve_accepted_start ''t'' ''ip'' 999500000 demo_quota_policy w = (w, Err 1) \<and>
     \<not> is_ok (snd (reserve_accepted_start ''t'' ''ip'' 1999500000 demo_quota_policy w)) \<and>
     reserve_accepted_start ''t'' ''ip'' 2000500000 demo_quota_policy w = (w'', Ok a)"
proof -
  obtain w a where r: "quota_reach demo_quota_policy 1 0 w [(a, 0)]"
    and e: "reserve_accepted_start ''t'' ''ip'' 999500000 demo_quota_policy w = (w, Err 1)"
      "\<not> is_ok (snd (reserve_accepted_start ''t'' ''ip'' 1999500000 demo_quota_policy w))"
    using demo_quota_log by blast
  have "\<exists>w'' a. reserve_accepted_start ''t'' ''ip'' 2000500000 demo_quota_policy w = (w'', Ok a)"
    by (rule retry_after_is_enough[OF r demo_quota_ok _ _ e(1)]) (simp_all add: secs_def ns_per_sec_def ns_per_ms_def)
  then show ?thesis using e by blast
qed

end
