(* ===== verification/Spec2Isabelle.thy ===== *)
theory Spec2Isabelle
  imports Db_Integrity Write_Back_Safety Recovery_Safety Revert_Safety Server_Runs Demo_Quotas
begin

text \<open>
  Verification development of bhtune, which tunes PID loops with a modified relay feedback test: it
  takes over the manipulated variable (MV) of a live loop, provokes an oscillation of the process
  variable (PV), measures it, computes PID constants, puts the loop back and, when asked, writes the
  constants.

  Parts of the program and how they interact:
  \<^item> \<open>crates/bhtune-core\<close> is the pure domain: configuration types, templates, tag names, the relay
    engine and the tuning mathematics.
  \<^item> \<open>crates/bhtune-driver\<close> is the tag interface (read and write by tag name) with a process simulator
    and the replay of a recorded trace; the OPC DA client is a wrapper of a third-party library.
  \<^item> \<open>crates/bhtune-db\<close> keeps runs, samples, results, audit rows of every command, ownerships of live
    controllers and recovery attempts in SQLite.
  \<^item> \<open>crates/bhtune-runtime\<close> drives a run: preparation (row, ownership, driver), transition to manual,
    polling loop, restore, write-back, terminal row, release; at startup it sweeps the ownerships a
    crash left and, on request, restores an interrupted loop or reverts a write-back.
  \<^item> \<open>crates/bhtune-server\<close> offers this over HTTP; it keeps a registry so that direct writes and tunes exclude
    each other, and limits what visitors of the public demo may start.

  Theories, each with what it models:
  \<^item> \<open>Prelude\<close>: machine integers, time in nanoseconds, results as sums, fact collections.
  \<^item> \<open>Floats\<close>: \<open>f32\<close> and \<open>f64\<close> with round-to-nearest-even, NaN, infinities and signed zero, computed on
    rationals; monotonicity, exactness on representable values, Sterbenz.
  \<^item> \<open>Core_Types\<close> (\<open>direction.rs\<close>, \<open>process_type.rs\<close>, \<open>controller_type.rs\<close>, \<open>constants.rs\<close>, \<open>range.rs\<close>,
    \<open>loop_config.rs\<close>), \<open>Pid_Config\<close> (\<open>pid_config.rs\<close>), \<open>Template\<close> (\<open>template.rs\<close>), \<open>Tags\<close> (\<open>tags.rs\<close>).
  \<^item> \<open>Mrft\<close> (\<open>mrft.rs\<close>): the relay engine; its command log, completion, and the range of its commands where the
    clamp's distances are exact (\<open>clamp_overshoot\<close> shows one unit in the last place beyond it otherwise).
  \<^item> \<open>Tuning_Math\<close> (\<open>tuning_math.rs\<close>): measurement, results, conversion and the values written.  The
    measurement's assertions hold below the overflow of the switch count, which nothing in the code
    excludes (\<open>cycle_count_wraps\<close>).
  \<^item> \<open>Db_Types\<close>, \<open>Db_Ownership\<close>, \<open>Db_Runs\<close>, \<open>Db_Actuations\<close>, \<open>Db_Templates\<close>: the tables as one record, the
    statements with their constraints, the transactions of \<open>models/*.rs\<close>, \<open>seed.rs\<close>.
  \<^item> \<open>Db_Invariant\<close>, \<open>Db_Lifecycle\<close>, \<open>Db_Locks\<close>, \<open>Db_Retention\<close>, \<open>Db_Audit\<close>, \<open>Db_Refinement\<close>, \<open>Db_Integrity\<close>:
    the invariant \<open>db_ok\<close> kept by every operation (\<open>db_reach\<close> is the set of databases the operations reach),
    leases on controllers as the locale \<open>lease_table\<close>, append-only audit tables as \<open>audit_log\<close>, deletion,
    the refinement of claims to a lock table, and the integrity of all tables: keys, status columns and
    references, with what the age-based sweep takes along when it deletes a run that is still running.
  \<^item> \<open>Driver\<close> (\<open>bhtune-driver/src\<close>): the interface as the locales \<open>tag_driver\<close> and \<open>tag_store\<close>, interpreted on
    the simulator and the replay driver.
  \<^item> \<open>Quality\<close>, \<open>Request\<close>, \<open>App_Config\<close>, \<open>Timing\<close>: reads with their quality, requests and their timing,
    the configuration file's settings, the clock and the sampling statistics.
  \<^item> \<open>Actuation\<close>, \<open>Actuation_Safety\<close>, \<open>Actuation_Audit\<close> (\<open>tune/actuation.rs\<close>): confirming every MV command by
    readback; tolerances, deadlines, and the audit rows as a mirror of the tracker.
  \<^item> \<open>Poll\<close>, \<open>Poll_Safety\<close> (\<open>tune/poll.rs\<close>): the polling loop over a list of events; it refines the engine.
  \<^item> \<open>Restore\<close>, \<open>Restore_Safety\<close> (\<open>tune/restore.rs\<close>): the steps that put a loop back, and the writes each of them has
    had accepted.
  \<^item> \<open>Live_Ownership\<close>, \<open>Live_Ownership_Safety\<close> (\<open>live_ownership.rs\<close>): lock, claim, heartbeat and the audited
    driver, a driver that records an intent before and a verdict after each write; the audit trail of a
    confirmed restore is its accepted writes, the MV included.
  \<^item> \<open>Write_Back\<close>, \<open>Write_Back_Safety\<close> (\<open>tune/writeback.rs\<close>): pre-read, write, verify, roll back, audit;
    which constants the controller holds afterwards, told from the readbacks on record.
  \<^item> \<open>Prepare\<close>, \<open>Prepare_Safety\<close>, \<open>Execute\<close>, \<open>Execute_Safety\<close> (\<open>tune/prepare.rs\<close>, \<open>tune/timing.rs\<close>): a run from its
    preparation to its terminal row and the release of the controller.
  \<^item> \<open>Recovery_Evidence\<close>, \<open>Recovery\<close>, \<open>Restore_Loop\<close>, \<open>Recovery_Safety\<close> (\<open>tune/recovery.rs\<close>): what makes an
    interrupted run recoverable, the sweep at startup (how each stale owner, its claim and everybody else's
    rows end), and the restore of an interrupted loop.
  \<^item> \<open>Revert\<close>, \<open>Revert_Safety\<close> (\<open>history.rs\<close>): reverting a recorded write-back.
  \<^item> \<open>Server_Runs\<close> (\<open>crates/bhtune-server\<close>: \<open>active_run.rs\<close>, the start in \<open>routes/runs/handlers.rs\<close>): the registry of
    tunes and direct writes as a step relation of the server process; \<open>Demo_Quotas\<close> (\<open>state.rs\<close>): the quotas of
    the public demo.

  How the model reads the code:
  \<^item> A struct is a record, an enum a datatype, an error a value of a sum; an \<open>async\<close> function is a function
    from the state to the new state and its answer.  A database transaction is all or nothing.
  \<^item> Clock readings, the branch a \<open>select!\<close> takes, driver answers, the file system and lock answers enter as
    arguments, in the order the code meets them.  Third-party code (JSON and TOML text, number text, \<open>exp\<close>,
    \<open>log10\<close>, the random generator, the OPC DA client) is a parameter.
  \<^item> There is no fuel: every loop runs over a list it is given (events, candidates, steps).  An operation
    that needs more inputs than it is given answers \<open>None\<close>; \<open>completed_run_ends\<close>, \<open>restore_mv_ends\<close> and
    \<open>verification_ends\<close> bound how many a run can use once its test is
    complete, the confirmation of a restored MV and a verification.

  Not modelled: the OPC DA client, the command line, the rest of the web server and its pages, preflight reports,
  exports to files, backups, the pool; NaN as SQL NULL outside the audit tables, the sign of zero in REAL
  columns, the order of ties, the \<open>loops\<close> table, overflow of \<open>DateTime\<close> except where a property speaks of
  it, poisoned mutexes, logging, sleeps, and changes another process makes to the database between an
  audited write's intent and its verdict.
\<close>

end
